(* ===== verification/Prelude.thy ===== *)
theory Prelude
  imports Main "HOL-Library.Word" "HOL-Library.Char_ord" "HOL-Library.List_Lexorder"
    "HOL-Library.Product_Lexorder" "HOL-Library.Multiset"
begin

text \<open>
  Shared ground of the development: names for Go's machine types, the strings functions the
  sources use, sets and maps read off lists, SQL-style tables as lists of rows, and the generic
  transition-system contract that every stateful component interprets.

  Go strings are byte sequences, so they are \<open>string\<close> (a list of 8-bit characters).
  A Go \<open>time.Time\<close> or \<open>time.Duration\<close> is an \<open>int\<close> in nanoseconds, where only order and
  differences matter; where 64-bit overflow matters the value is a \<open>64 word\<close>.
\<close>

unbundle bit_operations_syntax

type_synonym u64 = "64 word"
type_synonym i64 = "64 word"
type_synonym time = int
type_synonym duration = int

named_theorems table_simps "rewrite rules of the table operations"
named_theorems op_defs "unfoldings of the operations of a component"

abbreviation second :: duration where
  "second \<equiv> 1000000000"

section \<open>Results\<close>

text \<open>A Go \<open>(T, error)\<close> return is a sum: \<open>Inl\<close> the error, \<open>Inr\<close> the value.\<close>

definition bind_r :: "'e + 'a \<Rightarrow> ('a \<Rightarrow> 'e + 'b) \<Rightarrow> 'e + 'b" where
  "bind_r r f = (case r of Inl e \<Rightarrow> Inl e | Inr x \<Rightarrow> f x)"

lemma bind_r_simps [simp]:
  "bind_r (Inl e) f = Inl e"
  "bind_r (Inr x) f = f x"
  by (simp_all add: bind_r_def)

lemma bind_r_Inr: "bind_r r f = Inr y \<longleftrightarrow> (\<exists>x. r = Inr x \<and> f x = Inr y)"
  by (cases r) simp_all

lemma bind_r_Inl: "bind_r r f = Inl e \<longleftrightarrow> r = Inl e \<or> (\<exists>x. r = Inr x \<and> f x = Inl e)"
  by (cases r) simp_all

definition is_ok :: "'e + 'a \<Rightarrow> bool" where
  "is_ok r = (case r of Inl _ \<Rightarrow> False | Inr _ \<Rightarrow> True)"

lemma is_ok_simps [simp]: "is_ok (Inr x)" "\<not> is_ok (Inl e)"
  by (simp_all add: is_ok_def)

lemma is_okE: "is_ok r \<Longrightarrow> (\<And>x. r = Inr x \<Longrightarrow> P) \<Longrightarrow> P"
  by (cases r) auto

section \<open>Strings\<close>

definition has_prefix :: "string \<Rightarrow> string \<Rightarrow> bool" where
  "has_prefix s p \<longleftrightarrow> take (length p) s = p"

definition has_suffix :: "string \<Rightarrow> string \<Rightarrow> bool" where
  "has_suffix s p \<longleftrightarrow> length p \<le> length s \<and> drop (length s - length p) s = p"

definition trim_prefix :: "string \<Rightarrow> string \<Rightarrow> string" where
  "trim_prefix s p = (if has_prefix s p then drop (length p) s else s)"

fun contains_str :: "string \<Rightarrow> string \<Rightarrow> bool" where
  "contains_str [] p = (p = [])"
| "contains_str (c # cs) p = (has_prefix (c # cs) p \<or> contains_str cs p)"

fun split_on :: "char \<Rightarrow> string \<Rightarrow> string list" where
  "split_on d [] = [[]]"
| "split_on d (c # cs) =
     (if c = d then [] # split_on d cs
      else (case split_on d cs of [] \<Rightarrow> [[c]] | w # ws \<Rightarrow> (c # w) # ws))"

definition in_range :: "char \<Rightarrow> char \<Rightarrow> char \<Rightarrow> bool" where
  "in_range lo hi c \<longleftrightarrow> (of_char lo :: nat) \<le> of_char c \<and> (of_char c :: nat) \<le> of_char hi"

definition is_upper :: "char \<Rightarrow> bool" where
  "is_upper c = in_range (CHR ''A'') (CHR ''Z'') c"

definition is_lower :: "char \<Rightarrow> bool" where
  "is_lower c = in_range (CHR ''a'') (CHR ''z'') c"

definition is_digit :: "char \<Rightarrow> bool" where
  "is_digit c = in_range (CHR ''0'') (CHR ''9'') c"

definition is_space :: "char \<Rightarrow> bool" where
  "is_space c \<longleftrightarrow> c \<in> {CHR '' '', CHR 0x09, CHR 0x0A, CHR 0x0B, CHR 0x0C, CHR 0x0D}"

text \<open>Trimming both ends of a list; \<open>strings.TrimSpace\<close> on ASCII is an instance.\<close>

lemma trim_both_ends:
  fixes P :: "'a \<Rightarrow> bool" and s :: "'a list"
  defines "r \<equiv> rev (dropWhile P (rev (dropWhile P s)))"
  shows "dropWhile P r = r" and "dropWhile P (rev r) = rev r"
proof -
  define u where "u = dropWhile P s"
  have r: "r = rev (dropWhile P (rev u))" by (simp add: r_def u_def)
  show "dropWhile P (rev r) = rev r" by (simp add: r)
  have "rev (rev u) = rev (takeWhile P (rev u) @ dropWhile P (rev u))" by simp
  then have u: "u = r @ rev (takeWhile P (rev u))" by (simp only: rev_rev_ident rev_append r)
  show "dropWhile P r = r"
  proof (cases "r = []")
    case False
    then have "hd r = hd u" "u \<noteq> []" by (subst u, simp)+
    then have "\<not> P (hd r)" using hd_dropWhile[of P s] by (simp add: u_def)
    then show ?thesis by (simp add: dropWhile_eq_self_iff)
  qed simp
qed

definition trim_space :: "string \<Rightarrow> string" where
  "trim_space s = rev (dropWhile is_space (rev (dropWhile is_space s)))"

lemma trim_space_idem: "trim_space (trim_space s) = trim_space s"
  using trim_both_ends[of is_space s] by (simp add: trim_space_def)

definition lower_char :: "char \<Rightarrow> char" where
  "lower_char c = (if is_upper c then char_of ((of_char c :: nat) + 32) else c)"

text \<open>Equations for evaluation, over binary integers and the bits of a character.\<close>

lemma in_range_code [code]:
  "in_range lo hi c \<longleftrightarrow> (of_char lo :: int) \<le> of_char c \<and> (of_char c :: int) \<le> of_char hi"
proof -
  have "(of_char a :: nat) \<le> of_char b \<longleftrightarrow> (of_char a :: int) \<le> of_char b" for a b :: char
    using of_nat_le_iff[of "of_char a" "of_char b", where 'a = int] by (simp only: of_nat_of_char)
  then show ?thesis by (simp add: in_range_def)
qed

lemma lower_char_code [code]:
  "lower_char c =
     (if is_upper c then (case c of Char b0 b1 b2 b3 b4 b5 b6 b7 \<Rightarrow> Char b0 b1 b2 b3 b4 True b6 b7) else c)"
proof (cases c)
  case (Char b0 b1 b2 b3 b4 b5 b6 b7)
  show ?thesis
  proof (cases "is_upper c")
    case True
    then have "\<not> b7 \<and> b6 \<and> \<not> b5"
      unfolding Char is_upper_def in_range_def
      by (cases b0; cases b1; cases b2; cases b3; cases b4; cases b5; cases b6; cases b7) simp_all
    then have "(of_char c :: nat) + 32 = of_char (Char b0 b1 b2 b3 b4 True b6 b7)" by (simp add: Char)
    then show ?thesis using True by (simp only: lower_char_def Char char.case if_True char_of_char)
  next
    case False
    then show ?thesis by (simp add: lower_char_def)
  qed
qed

text \<open>
  \<open>strings.ToLower\<close>, as far as a comparison with an ASCII key can see it: ASCII letters, and
  the only two code points outside ASCII whose lower case is ASCII, U+212A (Kelvin sign, bytes
  E2 84 AA) and U+0130 (bytes C4 B0). Other bytes stay as they are.
\<close>

fun go_lower :: "string \<Rightarrow> string" where
  "go_lower [] = []"
| "go_lower (c # cs) =
     (case (c, cs) of
        (a, b # d # ds) \<Rightarrow>
          (if a = CHR 0xE2 \<and> b = CHR 0x84 \<and> d = CHR 0xAA then CHR ''k'' # go_lower ds
           else if a = CHR 0xC4 \<and> b = CHR 0xB0 then CHR ''i'' # go_lower (d # ds)
           else lower_char a # go_lower cs)
      | (a, [b]) \<Rightarrow>
          (if a = CHR 0xC4 \<and> b = CHR 0xB0 then [CHR ''i''] else lower_char a # go_lower cs)
      | (a, []) \<Rightarrow> [lower_char a])"

text \<open>Equations for evaluation: one case distinction and one recursive call per character.\<close>

lemma go_lower_Nil: "go_lower [] = []"
  by simp

lemma go_lower_Cons:
  "go_lower (a # cs) =
     (if a = CHR 0xE2
      then (case cs of
              b # d # ds \<Rightarrow>
                if b = CHR 0x84 \<and> d = CHR 0xAA then CHR ''k'' # go_lower ds else lower_char a # go_lower cs
            | _ \<Rightarrow> lower_char a # go_lower cs)
      else if a = CHR 0xC4
      then (case cs of
              b # ds \<Rightarrow> if b = CHR 0xB0 then CHR ''i'' # go_lower ds else lower_char a # go_lower cs
            | _ \<Rightarrow> lower_char a # go_lower cs)
      else lower_char a # go_lower cs)"
  by (cases cs; cases "tl cs") auto

declare go_lower.simps [code del]
declare go_lower_Nil [code] go_lower_Cons [code]

lemma has_prefix_append [simp]: "has_prefix (p @ s) p"
  by (simp add: has_prefix_def)

lemma has_prefix_iff: "has_prefix s p \<longleftrightarrow> (\<exists>t. s = p @ t)"
  by (auto simp: has_prefix_def) (metis append_take_drop_id)

lemma trim_prefix_append [simp]: "trim_prefix (p @ s) p = s"
  by (simp add: trim_prefix_def)

section \<open>Lists read as Go sets and maps\<close>

fun dedup_from :: "'a set \<Rightarrow> 'a list \<Rightarrow> 'a list" where
  "dedup_from seen [] = []"
| "dedup_from seen (x # xs) =
     (if x \<in> seen then dedup_from seen xs else x # dedup_from (insert x seen) xs)"

lemma set_dedup_from: "set (dedup_from S xs) = set xs - S"
  by (induction xs arbitrary: S) auto

lemma distinct_dedup_from: "distinct (dedup_from S xs)"
  by (induction xs arbitrary: S) (auto simp: set_dedup_from)

lemma dedup_from_id: "distinct xs \<Longrightarrow> set xs \<inter> S = {} \<Longrightarrow> dedup_from S xs = xs"
  by (induction xs arbitrary: S) auto

section \<open>Tables\<close>

text \<open>
  A table is the list of its rows, in physical order. \<open>UPDATE t SET f WHERE P\<close> is
  \<open>upd_rows P f t\<close> with \<open>count_rows P t\<close> rows affected; \<open>find_row P t\<close> is a query that can
  return at most one row under the table's key.
\<close>

definition upd_rows :: "('r \<Rightarrow> bool) \<Rightarrow> ('r \<Rightarrow> 'r) \<Rightarrow> 'r list \<Rightarrow> 'r list" where
  "upd_rows P f t = map (\<lambda>r. if P r then f r else r) t"

definition count_rows :: "('r \<Rightarrow> bool) \<Rightarrow> 'r list \<Rightarrow> nat" where
  "count_rows P t = length (filter P t)"

definition find_row :: "('r \<Rightarrow> bool) \<Rightarrow> 'r list \<Rightarrow> 'r option" where
  "find_row P t = List.find P t"

lemma upd_rows_Nil [simp, table_simps]: "upd_rows P f [] = []"
  by (simp add: upd_rows_def)

lemma upd_rows_Cons [simp, table_simps]:
  "upd_rows P f (r # t) = (if P r then f r else r) # upd_rows P f t"
  by (simp add: upd_rows_def)

lemma length_upd_rows [simp, table_simps]: "length (upd_rows P f t) = length t"
  by (simp add: upd_rows_def)

lemma upd_rows_none: "count_rows P t = 0 \<Longrightarrow> upd_rows P f t = t"
  by (induction t) (auto simp: count_rows_def split: if_splits)

lemma count_rows_0_iff: "count_rows P t = 0 \<longleftrightarrow> (\<forall>r\<in>set t. \<not> P r)"
  by (induction t) (auto simp: count_rows_def)

lemma count_rows_pos_iff: "0 < count_rows P t \<longleftrightarrow> (\<exists>r\<in>set t. P r)"
  by (induction t) (auto simp: count_rows_def)

lemma set_upd_rows: "set (upd_rows P f t) = f ` {r \<in> set t. P r} \<union> {r \<in> set t. \<not> P r}"
  by (induction t) auto

lemma in_upd_rowsE:
  assumes "r \<in> set (upd_rows P f t)"
  obtains r0 where "r0 \<in> set t" and "r = (if P r0 then f r0 else r0)"
  using assms by (auto simp: set_upd_rows)

lemma map_upd_rows: "(\<And>r. P r \<Longrightarrow> g (f r) = g r) \<Longrightarrow> map g (upd_rows P f t) = map g t"
  by (induction t) auto

lemma filter_upd_rows:
  "(\<And>r. P r \<Longrightarrow> Q (f r) = Q r) \<Longrightarrow> filter Q (upd_rows P f t) = upd_rows P f (filter Q t)"
  by (induction t) auto

lemma upd_rows_in: "r \<in> set t \<Longrightarrow> (if P r then f r else r) \<in> set (upd_rows P f t)"
  by (auto simp: upd_rows_def)

lemma count_rows_upd_rows:
  "(\<And>r. P r \<Longrightarrow> Q (f r) = Q r) \<Longrightarrow> count_rows Q (upd_rows P f t) = count_rows Q t"
  by (simp add: count_rows_def filter_upd_rows)

lemma upd_rows_False [simp]: "upd_rows (\<lambda>_. False) f t = t"
  by (simp add: upd_rows_def)

lemma upd_rows_cong:
  "(\<And>r. r \<in> set t \<Longrightarrow> P r = P' r) \<Longrightarrow> (\<And>r. r \<in> set t \<Longrightarrow> P r \<Longrightarrow> f r = f' r) \<Longrightarrow>
   upd_rows P f t = upd_rows P' f' t"
  by (auto simp: upd_rows_def)

lemma find_row_Some: "find_row P t = Some r \<Longrightarrow> r \<in> set t \<and> P r"
  by (auto simp: find_row_def find_Some_iff)

lemma find_row_None: "find_row P t = None \<longleftrightarrow> (\<forall>r\<in>set t. \<not> P r)"
  by (auto simp: find_row_def find_None_iff)

lemma find_row_Nil [simp]: "find_row P [] = None"
  by (simp add: find_row_def)

lemma find_row_Cons [simp]: "find_row P (r # t) = (if P r then Some r else find_row P t)"
  by (simp add: find_row_def)

lemma find_row_unique:
  assumes "distinct (map k t)" and "r \<in> set t" and "P r" and "\<And>x. P x \<Longrightarrow> k x = c"
  shows "find_row P t = Some r"
  using assms(1,2)
proof (induction t)
  case Nil
  then show ?case by simp
next
  case (Cons x t)
  show ?case
  proof (cases "r = x")
    case True
    with assms(3) show ?thesis by simp
  next
    case False
    with Cons.prems have rt: "r \<in> set t" by simp
    have "\<not> P x"
    proof
      assume "P x"
      with assms(3,4) have "k x = k r" by metis
      with Cons.prems rt show False by (metis distinct.simps(2) image_eqI list.simps(9) set_map)
    qed
    with Cons rt show ?thesis by simp
  qed
qed

lemma find_row_upd_rows:
  "(\<And>r. P r \<Longrightarrow> Q (f r) = Q r) \<Longrightarrow>
   find_row Q (upd_rows P f t) = map_option (\<lambda>r. if P r then f r else r) (find_row Q t)"
  by (induction t) auto

lemma distinct_keys_unique:
  "distinct (map k t) \<Longrightarrow> x \<in> set t \<Longrightarrow> y \<in> set t \<Longrightarrow> k x = k y \<Longrightarrow> x = y"
  by (auto simp: distinct_map dest: inj_onD)

text \<open>A row of the table after an UPDATE is a row from before, changed or not.\<close>

lemma upd_rowsE:
  assumes "y \<in> set (upd_rows P f t)"
  obtains x where "x \<in> set t" and "y = (if P x then f x else x)"
proof -
  have "y \<in> (\<lambda>x. if P x then f x else x) ` set t" using assms by (simp only: upd_rows_def set_map)
  then show thesis using that by (rule imageE) blast
qed

section \<open>Transition systems\<close>

text \<open>
  The contract of a stateful component: its initial states, one total step function over the
  component's operations, and an invariant every operation keeps. Runs are sequences of
  operations in any interleaving. Each stateful component interprets it on its own model.
\<close>

locale transition_system =
  fixes step :: "'s \<Rightarrow> 'op \<Rightarrow> 's"
    and inv :: "'s \<Rightarrow> bool"
  assumes step_inv: "inv s \<Longrightarrow> inv (step s a)"
begin

definition run :: "'s \<Rightarrow> 'op list \<Rightarrow> 's" where
  "run s ops = foldl step s ops"

lemma run_Nil [simp]: "run s [] = s"
  by (simp add: run_def)

lemma run_Cons [simp]: "run s (a # ops) = run (step s a) ops"
  by (simp add: run_def)

lemma run_append: "run s (xs @ ys) = run (run s xs) ys"
  by (simp add: run_def)

lemma run_inv: "inv s \<Longrightarrow> inv (run s ops)"
  by (induction ops arbitrary: s) (auto intro: step_inv)

lemma run_stable:
  assumes "\<And>s a. inv s \<Longrightarrow> P s \<Longrightarrow> P (step s a)" and "inv s" and "P s"
  shows "P (run s ops)"
  using assms(2,3) by (induction ops arbitrary: s) (auto intro: step_inv assms(1))

lemma run_mono:
  assumes "\<And>s a. inv s \<Longrightarrow> (f s :: 'k :: preorder) \<le> f (step s a)" and "inv s"
  shows "f s \<le> f (run s ops)"
  using assms(2)
proof (induction ops arbitrary: s)
  case Nil
  then show ?case by simp
next
  case (Cons a ops)
  have "f s \<le> f (step s a)" using assms(1) Cons.prems by blast
  also have "\<dots> \<le> f (run (step s a) ops)" using Cons step_inv by blast
  finally show ?case by simp
qed

end

end
