(* ===== verification/Json.thy ===== *)
theory Json
  imports Prelude Complex_Main
begin

text \<open>
  Decoded JSON documents, as encoding/json presents them to the code: the values of type
  \<open>any\<close> and the JSONB columns. An object is the list of its members in the order Go iterates
  over the map (any order), so a statement about every \<open>json\<close> holds for every order. A number is
  the exact value of the float64 it decodes to, or \<open>JBigNum\<close>, a literal \<open>json.Number\<close> accepts
  but float64 cannot hold.
\<close>

datatype json =
    JNull
  | JBool bool
  | JNum rat
  | JBigNum
  | JStr string
  | JArr "json list"
  | JObj "(string \<times> json) list"

text \<open>A stored or received document: no bytes at all, bytes that are not JSON, or a value.\<close>

datatype raw_json = RawAbsent | RawMalformed | RawJson json

definition obj_get :: "(string \<times> json) list \<Rightarrow> string \<Rightarrow> json option" where
  "obj_get ms k = map_of ms k"

text \<open>Assignment to a key of a map; deleting a key.\<close>

definition obj_del :: "(string \<times> json) list \<Rightarrow> string \<Rightarrow> (string \<times> json) list" where
  "obj_del ms k = filter (\<lambda>m. fst m \<noteq> k) ms"

definition obj_put :: "(string \<times> json) list \<Rightarrow> string \<Rightarrow> json \<Rightarrow> (string \<times> json) list" where
  "obj_put ms k v = obj_del ms k @ [(k, v)]"

lemma obj_put_get: "obj_get (obj_put ms k v) k' = (if k' = k then Some v else obj_get ms k')"
proof -
  have "map_of (obj_del ms k) k' = (if k' = k then None else map_of ms k')"
    by (induction ms) (auto simp: obj_del_def)
  then show ?thesis by (auto simp: obj_put_def obj_get_def map_add_def split: option.split)
qed

definition as_string :: "json \<Rightarrow> string option" where
  "as_string j = (case j of JStr s \<Rightarrow> Some s | _ \<Rightarrow> None)"

definition as_object :: "json \<Rightarrow> (string \<times> json) list option" where
  "as_object j = (case j of JObj ms \<Rightarrow> Some ms | _ \<Rightarrow> None)"

end
