(* ===== verification/Principal.thy ===== *)
theory Principal
  imports Json
begin

text \<open>
  The validated identity of internal/auth/principal.go and the allowlist documents of
  internal/auth/keys.go. A Go \<open>map[string]struct{}\<close> is the set of its keys. The lemmas show
  that decoding is fail-closed, that a stored grant decodes to what was granted and which
  identifiers an allowlist admits.
\<close>

section \<open>principal.go: the Principal\<close>

abbreviation ActorKindUser :: string where "ActorKindUser \<equiv> ''user''"
abbreviation ActorKindServiceAccount :: string where "ActorKindServiceAccount \<equiv> ''service_account''"
abbreviation CredentialKindSession :: string where "CredentialKindSession \<equiv> ''session''"
abbreviation CredentialKindAPIKey :: string where "CredentialKindAPIKey \<equiv> ''api_key''"
abbreviation BillingSubjectUser :: string where "BillingSubjectUser \<equiv> ''user''"
abbreviation BillingSubjectServiceAccount :: string where "BillingSubjectServiceAccount \<equiv> ''service_account''"
abbreviation BillingSubjectAPIKey :: string where "BillingSubjectAPIKey \<equiv> ''api_key''"
abbreviation ScopePlatformAdmin :: string where "ScopePlatformAdmin \<equiv> ''platform.admin''"

record principal =
  p_tenant :: string
  p_actor :: string
  p_actor_kind :: string
  p_user :: string
  p_credential :: string
  p_credential_kind :: string
  p_session :: string
  p_scopes :: "string set"
  p_models :: "string set"
  p_extract_templates :: "string set"
  p_chatbots :: "string set"
  p_agents :: "string set"
  p_endpoints :: "string set"
  p_ips :: "string set"
  p_models_all :: bool
  p_extract_templates_all :: bool
  p_chatbots_all :: bool
  p_agents_all :: bool
  p_endpoints_all :: bool
  p_ips_all :: bool
  p_rate_minute :: "int option"
  p_rate_hour :: "int option"
  p_rate_day :: "int option"
  p_delegated_by :: string
  p_billing_subject :: string
  p_billing_subject_kind :: string

text \<open>Go's zero value \<open>Principal{}\<close>.\<close>

definition zero_principal :: principal where
  "zero_principal =
     \<lparr>p_tenant = [], p_actor = [], p_actor_kind = [], p_user = [], p_credential = [],
      p_credential_kind = [], p_session = [], p_scopes = {}, p_models = {}, p_extract_templates = {},
      p_chatbots = {}, p_agents = {}, p_endpoints = {}, p_ips = {}, p_models_all = False,
      p_extract_templates_all = False, p_chatbots_all = False, p_agents_all = False,
      p_endpoints_all = False, p_ips_all = False, p_rate_minute = None, p_rate_hour = None,
      p_rate_day = None, p_delegated_by = [], p_billing_subject = [], p_billing_subject_kind = []\<rparr>"

section \<open>principal.go: allowlists\<close>

text \<open>
  \<open>json.Unmarshal\<close> into \<open>struct { Mode string; Items []string }\<close>: member names match up to
  case and the last member wins; null leaves a field as it is (and clears the slice); any other
  type is an error, which the decoder reports after reading the rest of the document.
\<close>

fun decode_items :: "json list \<Rightarrow> string list option" where
  "decode_items [] = Some []"
| "decode_items (JStr s # js) = map_option (\<lambda>xs. s # xs) (decode_items js)"
| "decode_items (JNull # js) = map_option (\<lambda>xs. [] # xs) (decode_items js)"
| "decode_items (_ # js) = None"

fun decode_grant_members ::
    "(string \<times> json) list \<Rightarrow> string \<times> string list \<Rightarrow> (string \<times> string list) option" where
  "decode_grant_members [] g = Some g"
| "decode_grant_members ((k, v) # ms) (mode, items) =
     (if go_lower k = ''mode'' then
        (case v of JStr s \<Rightarrow> decode_grant_members ms (s, items)
         | JNull \<Rightarrow> decode_grant_members ms (mode, items)
         | _ \<Rightarrow> None)
      else if go_lower k = ''items'' then
        (case v of JArr js \<Rightarrow>
           (case decode_items js of None \<Rightarrow> None | Some xs \<Rightarrow> decode_grant_members ms (mode, xs))
         | JNull \<Rightarrow> decode_grant_members ms (mode, [])
         | _ \<Rightarrow> None)
      else decode_grant_members ms (mode, items))"

definition decode_grant :: "json \<Rightarrow> (string \<times> string list) option" where
  "decode_grant j =
     (case j of JObj ms \<Rightarrow> decode_grant_members ms ([], []) | JNull \<Rightarrow> Some ([], []) | _ \<Rightarrow> None)"

definition DecodeAllowlist :: "raw_json \<Rightarrow> string set \<times> bool" where
  "DecodeAllowlist raw =
     (case raw of
        RawAbsent \<Rightarrow> ({}, False)
      | RawMalformed \<Rightarrow> ({}, False)
      | RawJson j \<Rightarrow>
          (case decode_grant j of
             None \<Rightarrow> ({}, False)
           | Some (mode, items) \<Rightarrow>
               if mode = ''all'' then ({}, True)
               else if mode = ''list'' then (set items, False)
               else ({}, False)))"

definition allowlistSet :: "string list \<Rightarrow> string set \<times> bool" where
  "allowlistSet vs =
     (if vs = [] then ({}, True)
      else if ''*'' \<in> set vs then ({}, True)
      else (set vs, False))"

definition allowlistAllowed :: "bool \<Rightarrow> string set \<Rightarrow> string list \<Rightarrow> bool" where
  "allowlistAllowed all items ids =
     (if all then True
      else if ''*'' \<in> items then True
      else list_ex (\<lambda>i. i \<in> items) ids)"

definition HasScope :: "principal \<Rightarrow> string \<Rightarrow> bool" where
  "HasScope p s = (if ''*'' \<in> p_scopes p then True else s \<in> p_scopes p)"

definition ModelAllowed :: "principal \<Rightarrow> string \<Rightarrow> bool" where
  "ModelAllowed p m = allowlistAllowed (p_models_all p) (p_models p) [m]"

definition ExtractTemplateAllowed :: "principal \<Rightarrow> string \<Rightarrow> bool" where
  "ExtractTemplateAllowed p t = allowlistAllowed (p_extract_templates_all p) (p_extract_templates p) [t]"

definition ChatbotAllowed :: "principal \<Rightarrow> string list \<Rightarrow> bool" where
  "ChatbotAllowed p ids = allowlistAllowed (p_chatbots_all p) (p_chatbots p) ids"

definition AgentAllowed :: "principal \<Rightarrow> string list \<Rightarrow> bool" where
  "AgentAllowed p ids = allowlistAllowed (p_agents_all p) (p_agents p) ids"

definition EndpointAllowed :: "principal \<Rightarrow> string \<Rightarrow> bool" where
  "EndpointAllowed p e = allowlistAllowed (p_endpoints_all p) (p_endpoints p) [e]"

definition IPAllowed :: "principal \<Rightarrow> string \<Rightarrow> bool" where
  "IPAllowed p ip = allowlistAllowed (p_ips_all p) (p_ips p) [ip]"

section \<open>keys.go: stored grants\<close>

record allowlist =
  al_all :: bool
  al_items :: "string list"

definition marshal_allowlist :: "allowlist \<Rightarrow> raw_json" where
  "marshal_allowlist a =
     (if al_all a then RawJson (JObj [(''mode'', JStr ''all'')])
      else RawJson (JObj [(''mode'', JStr ''list''),
             (''items'', JArr (map JStr (al_items a)))]))"

definition scopeList :: "string list \<Rightarrow> raw_json" where
  "scopeList scopes = marshal_allowlist \<lparr>al_all = False, al_items = scopes\<rparr>"

section \<open>Lemmas\<close>

lemma decode_items_strings [simp]: "decode_items (map JStr xs) = Some xs"
  by (induction xs) simp_all

lemma DecodeAllowlist_marshal [simp]:
  "DecodeAllowlist (marshal_allowlist a) =
     (if al_all a then ({}, True) else (set (al_items a), False))"
  by (simp add: DecodeAllowlist_def marshal_allowlist_def decode_grant_def
      lower_char_def is_upper_def in_range_def)

lemma DecodeAllowlist_scopeList [simp]: "DecodeAllowlist (scopeList xs) = (set xs, False)"
  by (simp add: scopeList_def)

lemma allowlistAllowed_iff:
  "allowlistAllowed all items ids \<longleftrightarrow> all \<or> ''*'' \<in> items \<or> set ids \<inter> items \<noteq> {}"
  by (auto simp: allowlistAllowed_def list_ex_iff)

lemma allowlistAllowed_mono:
  "items \<subseteq> items' \<Longrightarrow> allowlistAllowed all items ids \<Longrightarrow> allowlistAllowed all items' ids"
  by (auto simp: allowlistAllowed_iff)

lemma HasScope_iff: "HasScope p s \<longleftrightarrow> ''*'' \<in> p_scopes p \<or> s \<in> p_scopes p"
  by (simp add: HasScope_def)

text \<open>Only a document whose mode is exactly "all" grants everything.\<close>

lemma DecodeAllowlist_all_iff:
  "snd (DecodeAllowlist raw) \<longleftrightarrow> (\<exists>j items. raw = RawJson j \<and> decode_grant j = Some (''all'', items))"
  by (auto simp: DecodeAllowlist_def split: raw_json.splits option.splits)

lemma DecodeAllowlist_items:
  "x \<in> fst (DecodeAllowlist raw) \<Longrightarrow>
   \<exists>j items. raw = RawJson j \<and> decode_grant j = Some (''list'', items) \<and> x \<in> set items"
  by (auto simp: DecodeAllowlist_def split: raw_json.splits option.splits if_splits)

section \<open>Stored grants\<close>

text \<open>
  A stored grant means what it says. Marshalling an allowlist and decoding it again admits an id
  exactly when the allowlist is unrestricted, lists the id, or lists the wildcard.
\<close>

theorem grant_roundtrip:
  "allowlistAllowed (snd (DecodeAllowlist (marshal_allowlist a))) (fst (DecodeAllowlist (marshal_allowlist a))) ids
   \<longleftrightarrow> al_all a \<or> list_ex (\<lambda>i. i = ''*'' \<or> i \<in> set ids) (al_items a)"
  by (auto simp: allowlistAllowed_def list_ex_iff)

text \<open>
  Grants fail closed. Whatever is stored, an id is admitted only by a well-formed document
  whose mode is \<open>all\<close>, or whose mode is \<open>list\<close> and whose items name the id or the wildcard;
  absent, malformed, mistyped or unknown-mode grants admit nothing.
\<close>

theorem grant_fails_closed:
  assumes "allowlistAllowed (snd (DecodeAllowlist raw)) (fst (DecodeAllowlist raw)) ids"
  shows "case raw of
      RawJson j \<Rightarrow>
        (case decode_grant j of
           Some (mode, items) \<Rightarrow>
             mode = ''all'' \<or> (mode = ''list'' \<and> list_ex (\<lambda>i. i = ''*'' \<or> i \<in> set ids) items)
         | None \<Rightarrow> False)
    | _ \<Rightarrow> False"
  using assms
  by (auto simp: DecodeAllowlist_def allowlistAllowed_def list_ex_iff
      split: raw_json.splits option.splits if_splits prod.splits)

theorem grant_fails_closed_witness:
  "decode_grant (JObj [(''mode'', JStr ''list''), (''items'', JArr [JStr ''a''])]) = Some (''list'', [''a''])"
proof -
  let ?j = "JObj [(''mode'', JStr ''list''), (''items'', JArr [JStr ''a''])]"
  have "allowlistAllowed (snd (DecodeAllowlist (RawJson ?j))) (fst (DecodeAllowlist (RawJson ?j))) [''a'']"
    by code_simp
  from grant_fails_closed[OF this] show ?thesis
    by (auto simp: decode_grant_def lower_char_def is_upper_def in_range_def split: option.splits)
qed

end
