(* ===== verification/JobsRepo.thy ===== *)
theory JobsRepo
  imports Principal
begin

text \<open>
  The durable job store: internal/jobs/types.go and repository.go for the rows, and
  internal/store/postgres/jobs_repo.go for the statements over the tables \<open>jobs\<close> and
  \<open>job_attempts\<close> (migration 004). Each repository method is one transaction and one definition;
  \<open>now\<close> is the database clock, \<open>Inl\<close> an error with the transaction rolled back. Tenant ids are
  well-formed UUIDs except in \<open>InsertJob\<close>, which takes the database's own test as a parameter;
  connection faults are outside the model.
\<close>

section \<open>types.go and migration 004: rows\<close>

datatype job_status = Queued | Running | Succeeded | Failed | Cancelled | Unknown | Deleted

datatype attempt_status = AttRunning | AttSucceeded | AttFailed | AttUnknown

datatype jobs_error =
    ErrIdempotencyConflict
  | ErrStaleFence
  | ErrJobNotFound
  | ErrJobTerminal
  | ErrInvalidRequest string
  | ErrConstraint string

record job_subject =
  js_connection :: string
  js_object :: string
  js_observed :: int

record job_row =
  j_tenant :: string
  j_id :: string
  j_operation :: string
  j_status :: job_status
  j_connection :: "string option"
  j_object :: "string option"
  j_observed :: "int option"
  j_idem :: string
  j_input_hash :: string
  j_input_ref :: "string option"
  j_principal :: principal
  j_submitter :: string
  j_policy :: json
  j_attempts :: int
  j_max_attempts :: int
  j_fence :: int
  j_lease_owner :: "string option"
  j_lease_expires :: "time option"
  j_dispatched :: "string option"
  j_progress :: json
  j_result_ref :: "string option"
  j_error :: "json option"
  j_submitted :: time
  j_started :: "time option"
  j_finished :: "time option"
  j_cancel_requested :: "time option"
  j_deleted :: "time option"

record attempt_row =
  a_tenant :: string
  a_id :: string
  a_job :: string
  a_fence :: int
  a_status :: attempt_status
  a_worker :: string
  a_dispatched_at :: time
  a_finished :: "time option"
  a_error :: "json option"

record jobs_db =
  d_jobs :: "job_row list"
  d_attempts :: "attempt_row list"

definition empty_jobs_db :: jobs_db where
  "empty_jobs_db = \<lparr>d_jobs = [], d_attempts = []\<rparr>"

record lease =
  l_job :: string
  l_owner :: string
  l_fence :: int
  l_expires :: time

text \<open>\<open>InsertRecord\<close> (the fields \<open>Enqueue\<close> fills) and \<open>ClaimedJob\<close>.\<close>

record insert_record =
  ir_tenant :: string
  ir_id :: string
  ir_operation :: string
  ir_idem :: string
  ir_subject :: job_subject
  ir_input_ref :: string
  ir_input_hash :: string
  ir_max_attempts :: int
  ir_submitter :: string
  ir_principal :: principal
  ir_policy :: json

record claimed_job =
  cj_row :: job_row
  cj_lease :: lease
  cj_attempt :: string

section \<open>jobs_repo.go: helpers\<close>

definition nullString :: "string \<Rightarrow> string option" where
  "nullString s = (if s = [] then None else Some s)"

definition nullInt64 :: "int \<Rightarrow> int option" where
  "nullInt64 v = (if v = 0 then None else Some v)"

definition job_key :: "job_row \<Rightarrow> string \<times> string" where
  "job_key j = (j_tenant j, j_id j)"

definition attempt_key :: "attempt_row \<Rightarrow> string \<times> string" where
  "attempt_key a = (a_tenant a, a_id a)"

definition idem_key :: "job_row \<Rightarrow> string \<times> string \<times> string" where
  "idem_key j = (j_tenant j, j_operation j, j_idem j)"

definition is_job :: "string \<Rightarrow> string \<Rightarrow> job_row \<Rightarrow> bool" where
  "is_job t i j \<longleftrightarrow> j_tenant j = t \<and> j_id j = i"

text \<open>The guard of every fenced statement.\<close>

definition holds_lease :: "string \<Rightarrow> string \<Rightarrow> string \<Rightarrow> int \<Rightarrow> job_row \<Rightarrow> bool" where
  "holds_lease t i owner fence j \<longleftrightarrow>
     is_job t i j \<and> j_status j = Running \<and> j_lease_owner j = Some owner \<and> j_fence j = fence"

text \<open>\<open>fenced\<close>: a conditional UPDATE of \<open>jobs\<close> that touches no row is \<open>ErrStaleFence\<close>.\<close>

definition fenced ::
    "jobs_db \<Rightarrow> (job_row \<Rightarrow> bool) \<Rightarrow> (job_row \<Rightarrow> job_row) \<Rightarrow> jobs_error + jobs_db" where
  "fenced db P f =
     (if count_rows P (d_jobs db) = 0 then Inl ErrStaleFence
      else Inr (db\<lparr>d_jobs := upd_rows P f (d_jobs db)\<rparr>))"

definition is_open_attempt :: "string \<Rightarrow> string \<Rightarrow> attempt_row \<Rightarrow> bool" where
  "is_open_attempt t att a \<longleftrightarrow> a_tenant a = t \<and> a_id a = att \<and> a_finished a = None"

section \<open>jobs_repo.go: InsertJob and the reads\<close>

definition row_of_record :: "insert_record \<Rightarrow> time \<Rightarrow> job_row" where
  "row_of_record r now =
     \<lparr>j_tenant = ir_tenant r, j_id = ir_id r, j_operation = ir_operation r, j_status = Queued,
      j_connection = nullString (js_connection (ir_subject r)),
      j_object = nullString (js_object (ir_subject r)),
      j_observed = nullInt64 (js_observed (ir_subject r)),
      j_idem = ir_idem r, j_input_hash = ir_input_hash r, j_input_ref = nullString (ir_input_ref r),
      j_principal = ir_principal r, j_submitter = ir_submitter r, j_policy = ir_policy r,
      j_attempts = 0, j_max_attempts = ir_max_attempts r, j_fence = 0, j_lease_owner = None,
      j_lease_expires = None, j_dispatched = None, j_progress = JObj [], j_result_ref = None,
      j_error = None, j_submitted = now, j_started = None, j_finished = None,
      j_cancel_requested = None, j_deleted = None\<rparr>"

definition same_key :: "insert_record \<Rightarrow> job_row \<Rightarrow> bool" where
  "same_key r j \<longleftrightarrow>
     j_submitter j = ir_submitter r \<and> j_input_hash j = ir_input_hash r \<and>
     j_input_ref j = nullString (ir_input_ref r) \<and> j_policy j = ir_policy r \<and>
     j_connection j = nullString (js_connection (ir_subject r)) \<and>
     j_object j = nullString (js_object (ir_subject r)) \<and>
     j_observed j = nullInt64 (js_observed (ir_subject r))"

definition idem_match :: "insert_record \<Rightarrow> job_row \<Rightarrow> bool" where
  "idem_match r j \<longleftrightarrow> idem_key j = (ir_tenant r, ir_operation r, ir_idem r)"

text \<open>
  A violation of either unique key (the idempotency index or the primary key) sends the code to
  the SELECT by idempotency key; when that finds nothing the wrapped \<open>ErrJobNotFound\<close> is returned.
\<close>

definition InsertJob ::
    "(string \<Rightarrow> bool) \<Rightarrow> jobs_db \<Rightarrow> insert_record \<Rightarrow> time \<Rightarrow>
     jobs_error + jobs_db \<times> (job_row \<times> bool) option" where
  "InsertJob uuid_ok db r now =
     (if \<not> uuid_ok (ir_tenant r) then Inl ErrJobNotFound
      else if \<not> list_ex (\<lambda>j. idem_match r j \<or> job_key j = (ir_tenant r, ir_id r)) (d_jobs db)
      then Inr (db\<lparr>d_jobs := d_jobs db @ [row_of_record r now]\<rparr>, None)
      else (case find_row (idem_match r) (d_jobs db) of
              None \<Rightarrow> Inl ErrJobNotFound
            | Some j \<Rightarrow> Inr (db, Some (j, same_key r j))))"

definition GetJob :: "jobs_db \<Rightarrow> string \<Rightarrow> string \<Rightarrow> jobs_error + job_row" where
  "GetJob db t i =
     (case find_row (is_job t i) (d_jobs db) of None \<Rightarrow> Inl ErrJobNotFound | Some j \<Rightarrow> Inr j)"

definition owned_by :: "string \<Rightarrow> string \<Rightarrow> job_row \<Rightarrow> bool" where
  "owned_by t sk j \<longleftrightarrow> j_tenant j = t \<and> j_submitter j = sk \<and> j_deleted j = None"

definition GetOwnedJob :: "jobs_db \<Rightarrow> string \<Rightarrow> string \<Rightarrow> string \<Rightarrow> jobs_error + job_row" where
  "GetOwnedJob db t i sk =
     (case find_row (\<lambda>j. is_job t i j \<and> owned_by t sk j) (d_jobs db) of
        None \<Rightarrow> Inl ErrJobNotFound | Some j \<Rightarrow> Inr j)"

text \<open>\<open>ORDER BY submitted_at DESC, id DESC LIMIT n\<close>.\<close>

definition newest_first :: "int \<Rightarrow> job_row list \<Rightarrow> job_row list" where
  "newest_first limit js = take (nat limit) (rev (sort_key (\<lambda>j. (j_submitted j, j_id j)) js))"

definition ListOwnedJobs :: "jobs_db \<Rightarrow> string \<Rightarrow> string \<Rightarrow> int \<Rightarrow> job_row list" where
  "ListOwnedJobs db t sk limit =
     newest_first (if limit \<le> 0 then 50 else limit) (filter (owned_by t sk) (d_jobs db))"

definition ListConnectionJobs ::
    "jobs_db \<Rightarrow> string \<Rightarrow> string \<Rightarrow> job_status option \<Rightarrow> int \<Rightarrow> job_row list" where
  "ListConnectionJobs db t conn status limit =
     newest_first (if limit \<le> 0 then 50 else limit)
       (filter (\<lambda>j. j_tenant j = t \<and> j_connection j = Some conn \<and> j_deleted j = None \<and>
                    (case status of None \<Rightarrow> True | Some s \<Rightarrow> j_status j = s)) (d_jobs db))"

definition CountOwnedJobs :: "jobs_db \<Rightarrow> string \<Rightarrow> string \<Rightarrow> nat" where
  "CountOwnedJobs db t sk = count_rows (owned_by t sk) (d_jobs db)"

definition CountOwnedJobsSince :: "jobs_db \<Rightarrow> string \<Rightarrow> string \<Rightarrow> time \<Rightarrow> nat" where
  "CountOwnedJobsSince db t sk since =
     count_rows (\<lambda>j. owned_by t sk j \<and> since \<le> j_submitted j) (d_jobs db)"

section \<open>jobs_repo.go: Claim\<close>

definition lease_expired :: "time \<Rightarrow> job_row \<Rightarrow> bool" where
  "lease_expired now j = (case j_lease_expires j of None \<Rightarrow> False | Some e \<Rightarrow> e < now)"

text \<open>The job's dispatched attempt exists and is unfinished.\<close>

definition open_dispatch :: "attempt_row list \<Rightarrow> job_row \<Rightarrow> bool" where
  "open_dispatch ats j =
     list_ex (\<lambda>a. a_tenant a = j_tenant j \<and> j_dispatched j = Some (a_id a) \<and> a_finished a = None) ats"

definition sweepable :: "time \<Rightarrow> attempt_row list \<Rightarrow> job_row \<Rightarrow> bool" where
  "sweepable now ats j \<longleftrightarrow> j_status j = Running \<and> lease_expired now j \<and> open_dispatch ats j"

definition swept_error :: json where
  "swept_error =
     JObj [(''message'', JStr ''lease expired after dispatch; outcome unobserved''),
           (''retryable'', JBool False)]"

definition sweep_row :: "time \<Rightarrow> job_row \<Rightarrow> job_row" where
  "sweep_row now j =
     j\<lparr>j_status := Unknown, j_finished := Some now, j_error := Some swept_error,
       j_lease_owner := None, j_lease_expires := None\<rparr>"

definition close_attempt :: "time \<Rightarrow> attempt_row \<Rightarrow> attempt_row" where
  "close_attempt now a = a\<lparr>a_status := AttUnknown, a_finished := Some now\<rparr>"

definition sweep :: "time \<Rightarrow> jobs_db \<Rightarrow> jobs_db" where
  "sweep now db =
     (let swept = filter (sweepable now (d_attempts db)) (d_jobs db)
      in \<lparr>d_jobs = upd_rows (sweepable now (d_attempts db)) (sweep_row now) (d_jobs db),
          d_attempts =
            upd_rows (\<lambda>a. list_ex (\<lambda>s. a_tenant a = j_tenant s \<and> j_dispatched s = Some (a_id a)) swept)
              (close_attempt now) (d_attempts db)\<rparr>)"

definition claimable :: "time \<Rightarrow> attempt_row list \<Rightarrow> job_row \<Rightarrow> bool" where
  "claimable now ats c \<longleftrightarrow>
     j_cancel_requested c = None \<and> j_deleted c = None \<and>
     ((j_status c = Queued \<and> (case j_lease_expires c of None \<Rightarrow> True | Some e \<Rightarrow> e \<le> now)) \<or>
      (j_status c = Running \<and> lease_expired now c \<and> \<not> open_dispatch ats c))"

text \<open>\<open>ORDER BY submitted_at LIMIT 1\<close>: among rows submitted together the first in the table.\<close>

definition oldest :: "job_row list \<Rightarrow> job_row option" where
  "oldest js =
     (case js of [] \<Rightarrow> None
      | j # rest \<Rightarrow> Some (foldl (\<lambda>b c. if j_submitted c < j_submitted b then c else b) j rest))"

text \<open>\<open>locked\<close> holds the keys of the rows another transaction has locked (\<open>SKIP LOCKED\<close>).\<close>

definition next_job :: "time \<Rightarrow> (string \<times> string) list \<Rightarrow> jobs_db \<Rightarrow> job_row option" where
  "next_job now locked db =
     oldest (filter (\<lambda>c. claimable now (d_attempts db) c \<and> job_key c \<notin> set locked) (d_jobs db))"

definition grant_row :: "string \<Rightarrow> duration \<Rightarrow> time \<Rightarrow> job_row \<Rightarrow> job_row" where
  "grant_row worker ttl now j =
     j\<lparr>j_status := Running, j_fence := j_fence j + 1, j_lease_owner := Some worker,
       j_lease_expires := Some (now + ttl), j_attempts := j_attempts j + 1,
       j_started := (case j_started j of None \<Rightarrow> Some now | s \<Rightarrow> s),
       j_dispatched := None, j_error := None\<rparr>"

definition new_attempt :: "job_row \<Rightarrow> string \<Rightarrow> string \<Rightarrow> time \<Rightarrow> attempt_row" where
  "new_attempt j att worker now =
     \<lparr>a_tenant = j_tenant j, a_id = att, a_job = j_id j, a_fence = j_fence j, a_status = AttRunning,
      a_worker = worker, a_dispatched_at = now, a_finished = None, a_error = None\<rparr>"

definition ClaimJob ::
    "jobs_db \<Rightarrow> string \<Rightarrow> duration \<Rightarrow> time \<Rightarrow> (string \<times> string) list \<Rightarrow> string \<Rightarrow>
     jobs_error + jobs_db \<times> claimed_job option" where
  "ClaimJob db worker ttl now locked att =
     (let db1 = sweep now db in
      case next_job now locked db1 of
        None \<Rightarrow> Inr (db1, None)
      | Some c \<Rightarrow>
          let claimed = grant_row worker ttl now c;
              jobs2 = upd_rows (\<lambda>j. job_key j = job_key c) (grant_row worker ttl now) (d_jobs db1);
              ats2 = upd_rows (\<lambda>a. a_tenant a = j_tenant c \<and> a_job a = j_id c \<and> a_finished a = None)
                       (close_attempt now) (d_attempts db1)
          in if list_ex (\<lambda>a. attempt_key a = (j_tenant c, att)) ats2
             then Inl (ErrConstraint ''job_attempts_pkey'')
             else Inr (\<lparr>d_jobs = jobs2, d_attempts = ats2 @ [new_attempt claimed att worker now]\<rparr>,
                       Some \<lparr>cj_row = claimed,
                             cj_lease = \<lparr>l_job = j_id claimed, l_owner = worker,
                                         l_fence = j_fence claimed, l_expires = now + ttl\<rparr>,
                             cj_attempt = att\<rparr>))"

section \<open>jobs_repo.go: fenced writes\<close>

definition ExtendLease ::
    "jobs_db \<Rightarrow> string \<Rightarrow> string \<Rightarrow> string \<Rightarrow> int \<Rightarrow> duration \<Rightarrow> time \<Rightarrow> jobs_error + jobs_db \<times> time" where
  "ExtendLease db t i owner fence ttl now =
     bind_r (fenced db (holds_lease t i owner fence) (\<lambda>j. j\<lparr>j_lease_expires := Some (now + ttl)\<rparr>))
       (\<lambda>db'. Inr (db', now + ttl))"

definition WriteProgress ::
    "jobs_db \<Rightarrow> string \<Rightarrow> string \<Rightarrow> string \<Rightarrow> int \<Rightarrow> json \<Rightarrow> jobs_error + jobs_db" where
  "WriteProgress db t i owner fence progress =
     fenced db (holds_lease t i owner fence) (\<lambda>j. j\<lparr>j_progress := progress\<rparr>)"

definition CancelRequested :: "jobs_db \<Rightarrow> string \<Rightarrow> string \<Rightarrow> string \<Rightarrow> int \<Rightarrow> jobs_error + bool" where
  "CancelRequested db t i owner fence =
     (case find_row (holds_lease t i owner fence) (d_jobs db) of
        None \<Rightarrow> Inl ErrStaleFence
      | Some j \<Rightarrow> Inr (j_cancel_requested j \<noteq> None))"

text \<open>The foreign key \<open>jobs_dispatched_attempt_fk\<close> is checked on the rows the UPDATE touches.\<close>

definition MarkDispatchedJob ::
    "jobs_db \<Rightarrow> string \<Rightarrow> string \<Rightarrow> string \<Rightarrow> int \<Rightarrow> string \<Rightarrow> jobs_error + jobs_db" where
  "MarkDispatchedJob db t i owner fence att =
     bind_r (fenced db (holds_lease t i owner fence) (\<lambda>j. j\<lparr>j_dispatched := Some att\<rparr>))
       (\<lambda>db'. if list_ex (\<lambda>a. attempt_key a = (t, att)) (d_attempts db') then Inr db'
              else Inl (ErrConstraint ''jobs_dispatched_attempt_fk''))"

text \<open>The second statement of the terminal transitions: finish the still-open attempt.\<close>

definition finish_attempt ::
    "jobs_db \<Rightarrow> string \<Rightarrow> string \<Rightarrow> (attempt_row \<Rightarrow> attempt_row) \<Rightarrow> jobs_error + jobs_db" where
  "finish_attempt db t att f =
     (if count_rows (is_open_attempt t att) (d_attempts db) = 0 then Inl ErrStaleFence
      else Inr (db\<lparr>d_attempts := upd_rows (is_open_attempt t att) f (d_attempts db)\<rparr>))"

definition complete_row :: "string \<Rightarrow> time \<Rightarrow> job_row \<Rightarrow> job_row" where
  "complete_row ref now j =
     j\<lparr>j_status := (if j_cancel_requested j \<noteq> None then Cancelled else Succeeded),
       j_result_ref := nullString ref, j_finished := Some now,
       j_lease_owner := None, j_lease_expires := None, j_dispatched := None\<rparr>"

definition CompleteJob ::
    "jobs_db \<Rightarrow> string \<Rightarrow> string \<Rightarrow> string \<Rightarrow> int \<Rightarrow> string \<Rightarrow> string \<Rightarrow> time \<Rightarrow>
     jobs_error + jobs_db \<times> job_status" where
  "CompleteJob db t i owner fence att ref now =
     (case find_row (holds_lease t i owner fence) (d_jobs db) of
        None \<Rightarrow> Inl ErrStaleFence
      | Some j \<Rightarrow>
          let db1 = db\<lparr>d_jobs := upd_rows (holds_lease t i owner fence) (complete_row ref now) (d_jobs db)\<rparr>
          in bind_r (finish_attempt db1 t att (\<lambda>a. a\<lparr>a_status := AttSucceeded, a_finished := Some now\<rparr>))
               (\<lambda>db2. Inr (db2, j_status (complete_row ref now j))))"

definition fail_row :: "bool \<Rightarrow> time \<Rightarrow> json \<Rightarrow> time \<Rightarrow> job_row \<Rightarrow> job_row" where
  "fail_row retry notBefore doc now j =
     j\<lparr>j_status := (if retry then Queued else Failed), j_lease_owner := None,
       j_lease_expires := (if retry then Some notBefore else None), j_dispatched := None,
       j_error := Some doc, j_finished := (if retry then None else Some now)\<rparr>"

definition FailJob ::
    "jobs_db \<Rightarrow> string \<Rightarrow> string \<Rightarrow> string \<Rightarrow> int \<Rightarrow> string \<Rightarrow> bool \<Rightarrow> time \<Rightarrow> json \<Rightarrow> time \<Rightarrow>
     jobs_error + jobs_db" where
  "FailJob db t i owner fence att retry notBefore doc now =
     bind_r (fenced db (holds_lease t i owner fence) (fail_row retry notBefore doc now))
       (\<lambda>db1. finish_attempt db1 t att
          (\<lambda>a. a\<lparr>a_status := AttFailed, a_finished := Some now, a_error := Some doc\<rparr>))"

definition release_row :: "job_row \<Rightarrow> job_row" where
  "release_row j =
     j\<lparr>j_status := Queued, j_lease_owner := None, j_lease_expires := None, j_dispatched := None\<rparr>"

definition ReleaseJob ::
    "jobs_db \<Rightarrow> string \<Rightarrow> string \<Rightarrow> string \<Rightarrow> int \<Rightarrow> string \<Rightarrow> time \<Rightarrow> jobs_error + jobs_db" where
  "ReleaseJob db t i owner fence att now =
     bind_r (fenced db (holds_lease t i owner fence) release_row)
       (\<lambda>db1. Inr (db1\<lparr>d_attempts :=
          upd_rows (is_open_attempt t att) (close_attempt now) (d_attempts db1)\<rparr>))"

definition unknown_row :: "json \<Rightarrow> time \<Rightarrow> job_row \<Rightarrow> job_row" where
  "unknown_row doc now j =
     j\<lparr>j_status := Unknown, j_finished := Some now, j_error := Some doc,
       j_lease_owner := None, j_lease_expires := None\<rparr>"

definition MarkUnknownJob ::
    "jobs_db \<Rightarrow> string \<Rightarrow> string \<Rightarrow> string \<Rightarrow> int \<Rightarrow> string \<Rightarrow> json \<Rightarrow> time \<Rightarrow> jobs_error + jobs_db" where
  "MarkUnknownJob db t i owner fence att doc now =
     bind_r (fenced db (holds_lease t i owner fence) (unknown_row doc now))
       (\<lambda>db1. finish_attempt db1 t att
          (\<lambda>a. a\<lparr>a_status := AttUnknown, a_finished := Some now, a_error := Some doc\<rparr>))"

section \<open>jobs_repo.go: CancelJob and DeleteJob\<close>

definition cancel_row :: "time \<Rightarrow> job_row \<Rightarrow> job_row" where
  "cancel_row now j =
     j\<lparr>j_cancel_requested := (case j_cancel_requested j of None \<Rightarrow> Some now | c \<Rightarrow> c),
       j_status := (if j_status j = Queued then Cancelled else j_status j),
       j_finished := (if j_status j = Queued then Some now else j_finished j)\<rparr>"

definition CancelJob :: "jobs_db \<Rightarrow> string \<Rightarrow> string \<Rightarrow> time \<Rightarrow> jobs_error + jobs_db" where
  "CancelJob db t i now =
     (let P = (\<lambda>j. is_job t i j \<and> j_status j \<in> {Queued, Running})
      in if count_rows P (d_jobs db) = 0 then Inl ErrJobNotFound
         else Inr (db\<lparr>d_jobs := upd_rows P (cancel_row now) (d_jobs db)\<rparr>))"

definition delete_row :: "time \<Rightarrow> job_row \<Rightarrow> job_row" where
  "delete_row now j = j\<lparr>j_status := Deleted, j_deleted := Some now\<rparr>"

definition DeleteJob :: "jobs_db \<Rightarrow> string \<Rightarrow> string \<Rightarrow> time \<Rightarrow> jobs_error + jobs_db" where
  "DeleteJob db t i now =
     (let P = (\<lambda>j. is_job t i j \<and> j_status j \<noteq> Deleted)
      in if count_rows P (d_jobs db) = 0 then Inl ErrJobNotFound
         else Inr (db\<lparr>d_jobs := upd_rows P (delete_row now) (d_jobs db)\<rparr>))"

end
