(* ===== verification/Fence.thy ===== *)
theory Fence
  imports Prelude
begin

text \<open>
  The fencing contract the job store and the artifact store share: every key carries a token that
  never decreases, a writer is bound to the token it was granted, and a new right to write is
  only ever granted with a strictly greater token. The client lemma is what callers rely on: a
  right once lost is lost for good, whatever operations are interleaved.
\<close>

locale fenced_store = transition_system step inv
  for step :: "'s \<Rightarrow> 'op \<Rightarrow> 's" and inv :: "'s \<Rightarrow> bool" +
  fixes token :: "'s \<Rightarrow> 'k \<Rightarrow> int"
    and fence_of :: "'w \<Rightarrow> int"
    and holds :: "'s \<Rightarrow> 'k \<Rightarrow> 'w \<Rightarrow> bool"
  assumes token_mono: "inv s \<Longrightarrow> token s k \<le> token (step s a) k"
    and holds_token: "inv s \<Longrightarrow> holds s k w \<Longrightarrow> fence_of w = token s k"
    and grant_fresh:
      "inv s \<Longrightarrow> holds (step s a) k w \<Longrightarrow> \<not> holds s k w \<Longrightarrow> token s k < fence_of w"
begin

lemma token_run_mono: "inv s \<Longrightarrow> token s k \<le> token (run s ops) k"
  by (rule run_mono) (auto intro: token_mono)

text \<open>Two writers that hold the same key at the same time were granted the same token.\<close>

lemma holders_agree: "inv s \<Longrightarrow> holds s k w \<Longrightarrow> holds s k w' \<Longrightarrow> fence_of w = fence_of w'"
  using holds_token by metis

lemma lost_step:
  "inv s \<Longrightarrow> fence_of w \<le> token s k \<and> \<not> holds s k w \<Longrightarrow>
   fence_of w \<le> token (step s a) k \<and> \<not> holds (step s a) k w"
  using token_mono[of s k a] grant_fresh[of s a k w] by auto

lemma lost_forever:
  assumes "inv s" and "fence_of w \<le> token s k" and "\<not> holds s k w"
  shows "\<not> holds (run s ops) k w"
proof -
  have "fence_of w \<le> token (run s ops) k \<and> \<not> holds (run s ops) k w"
    by (rule run_stable) (use assms lost_step in auto)
  then show ?thesis ..
qed

text \<open>A writer that held the key and was overtaken by a later holder never holds it again.\<close>

lemma overtaken_forever:
  assumes "inv s" and "holds s k w" and "holds (run s xs) k w'" and "fence_of w < fence_of w'"
  shows "\<not> holds (run s (xs @ ys)) k w"
proof -
  have iv: "inv (run s xs)" using assms(1) by (rule run_inv)
  have "fence_of w \<le> token (run s xs) k"
    using holds_token[OF iv assms(3)] assms(4) by simp
  moreover have "\<not> holds (run s xs) k w"
    using holders_agree[OF iv _ assms(3)] assms(4) by auto
  ultimately show ?thesis using lost_forever[OF iv] by (simp add: run_append)
qed

end

end
