(* ===== verification/Jobs.thy ===== *)
theory Jobs
  imports JobsRepo Fence
begin

text \<open>
  The durable job service and its worker loop: internal/jobs/service.go and runner.go over the
  store of JobsRepo. The system state \<open>jobs_state\<close> is the database together with the claims the
  service has handed out (a \<open>Claim\<close> exists only as the result of \<open>Lease\<close>); \<open>jobs_step\<close> is one
  service call by any worker or owner, in any interleaving. SHA-256 of the quoted submitter parts
  is the parameter \<open>dig\<close>, the UUID parser of the database the parameter \<open>uuid_ok\<close>; random ids and
  clocks are arguments of the calls.
\<close>

section \<open>types.go: Job, EnqueueRequest\<close>

record job =
  jb_tenant :: string
  jb_id :: string
  jb_operation :: string
  jb_status :: job_status
  jb_idem :: string
  jb_subject :: job_subject
  jb_input_ref :: string
  jb_input_hash :: string
  jb_policy :: json
  jb_fence :: int
  jb_lease_owner :: string
  jb_lease_expires :: "time option"
  jb_attempt :: int
  jb_max_attempts :: int
  jb_error :: string
  jb_created :: "time option"
  jb_completed :: "time option"

record enqueue_request =
  er_tenant :: string
  er_operation :: string
  er_idem :: string
  er_subject :: job_subject
  er_input_ref :: string
  er_input_hash :: string
  er_policy :: "(string \<times> json) list option"
  er_max_attempts :: int

text \<open>\<open>sql.NullString.String\<close> is the empty string for NULL.\<close>

definition null_str :: "string option \<Rightarrow> string" where
  "null_str v = (case v of None \<Rightarrow> [] | Some s \<Rightarrow> s)"

definition row_subject :: "job_row \<Rightarrow> job_subject" where
  "row_subject j =
     \<lparr>js_connection = null_str (j_connection j), js_object = null_str (j_object j),
      js_observed = (case j_observed j of None \<Rightarrow> 0 | Some v \<Rightarrow> v)\<rparr>"

text \<open>The error column is read back as its message member, when it is an object with a string there.\<close>

definition error_message :: "json option \<Rightarrow> string" where
  "error_message e =
     (case e of Some (JObj ms) \<Rightarrow>
        (case obj_get ms ''message'' of Some (JStr m) \<Rightarrow> m | _ \<Rightarrow> [])
      | _ \<Rightarrow> [])"

definition scanJobRow :: "job_row \<Rightarrow> job" where
  "scanJobRow j =
     \<lparr>jb_tenant = j_tenant j, jb_id = j_id j, jb_operation = j_operation j, jb_status = j_status j,
      jb_idem = j_idem j, jb_subject = row_subject j, jb_input_ref = null_str (j_input_ref j),
      jb_input_hash = j_input_hash j, jb_policy = j_policy j, jb_fence = j_fence j,
      jb_lease_owner = null_str (j_lease_owner j), jb_lease_expires = j_lease_expires j,
      jb_attempt = j_attempts j, jb_max_attempts = j_max_attempts j,
      jb_error = error_message (j_error j), jb_created = Some (j_submitted j),
      jb_completed = j_finished j\<rparr>"

section \<open>service.go: errors and retry delay\<close>

text \<open>
  Handler errors: the two context errors, an opaque error with its text, an error that wraps
  others (\<open>%w\<close>) under its own text, and \<open>RetryableError\<close>. \<open>errors.Is\<close> and \<open>errors.As\<close> search
  the tree of wrapped errors.
\<close>

datatype go_error =
    CtxCanceled
  | CtxDeadlineExceeded
  | PlainError string
  | WrapError string "go_error list"
  | RetryableError go_error

primrec error_text :: "go_error \<Rightarrow> string" where
  "error_text CtxCanceled = ''context canceled''"
| "error_text CtxDeadlineExceeded = ''context deadline exceeded''"
| "error_text (PlainError s) = s"
| "error_text (WrapError s es) = s"
| "error_text (RetryableError e) = error_text e"

fun errors_is :: "go_error \<Rightarrow> go_error \<Rightarrow> bool" where
  "errors_is (WrapError s es) target = list_ex (\<lambda>e. errors_is e target) es"
| "errors_is (RetryableError e) target = errors_is e target"
| "errors_is e target = (e = target)"

fun as_retryable :: "go_error \<Rightarrow> bool" where
  "as_retryable (RetryableError e) = True"
| "as_retryable (WrapError s es) = list_ex as_retryable es"
| "as_retryable e = False"

datatype failure_class = FailureFatal | FailureRetryable

definition Retryable :: "go_error option \<Rightarrow> go_error option" where
  "Retryable e = map_option RetryableError e"

definition FailureClassFor :: "go_error \<Rightarrow> failure_class" where
  "FailureClassFor e = (if as_retryable e then FailureRetryable else FailureFatal)"

definition NewService_retryBase :: "i64 \<Rightarrow> i64" where
  "NewService_retryBase base = (if base \<le>s 0 then 100000000 else base)"

definition delay_cap :: i64 where
  "delay_cap = 30000000000"

primrec retryDelay_loop :: "nat \<Rightarrow> i64 \<Rightarrow> i64" where
  "retryDelay_loop 0 delay = delay"
| "retryDelay_loop (Suc n) delay =
     (let d = delay * 2 in if delay_cap \<le>s d then delay_cap else retryDelay_loop n d)"

definition retryDelay :: "i64 \<Rightarrow> int \<Rightarrow> i64" where
  "retryDelay base attempt = retryDelay_loop (nat attempt) base"

definition errorDoc :: "go_error option \<Rightarrow> bool \<Rightarrow> json" where
  "errorDoc e retryable =
     JObj [(''message'', JStr (case e of None \<Rightarrow> ''unknown error'' | Some err \<Rightarrow> error_text err)),
           (''retryable'', JBool retryable)]"

section \<open>service.go: Enqueue\<close>

definition submitter_parts :: "principal \<Rightarrow> string list" where
  "submitter_parts p =
     [p_tenant p, p_actor p, p_actor_kind p, p_credential p, p_credential_kind p, p_session p,
      p_delegated_by p, p_billing_subject p, p_billing_subject_kind p]"

definition submitterKey :: "(string list \<Rightarrow> string) \<Rightarrow> principal \<Rightarrow> string" where
  "submitterKey dig p = dig (submitter_parts p)"

text \<open>\<open>json.Marshal\<close> of a Go map writes its keys in order.\<close>

definition canonicalPolicy :: "(string \<times> json) list option \<Rightarrow> json" where
  "canonicalPolicy p = (case p of None \<Rightarrow> JObj [] | Some ms \<Rightarrow> JObj (sort_key fst ms))"

definition enqueue_record ::
    "(string list \<Rightarrow> string) \<Rightarrow> principal \<Rightarrow> enqueue_request \<Rightarrow> string \<Rightarrow> insert_record" where
  "enqueue_record dig p req newid =
     \<lparr>ir_tenant = p_tenant p, ir_id = newid, ir_operation = er_operation req, ir_idem = er_idem req,
      ir_subject = er_subject req, ir_input_ref = er_input_ref req,
      ir_input_hash = er_input_hash req,
      ir_max_attempts = (if er_max_attempts req \<le> 0 then 3 else er_max_attempts req),
      ir_submitter = submitterKey dig p, ir_principal = p, ir_policy = canonicalPolicy (er_policy req)\<rparr>"

text \<open>The \<open>Job\<close> literal \<open>Enqueue\<close> returns for a new job: fields it does not set are zero.\<close>

definition record_job :: "insert_record \<Rightarrow> job" where
  "record_job r =
     \<lparr>jb_tenant = ir_tenant r, jb_id = ir_id r, jb_operation = ir_operation r, jb_status = Queued,
      jb_idem = ir_idem r, jb_subject = ir_subject r, jb_input_ref = ir_input_ref r,
      jb_input_hash = ir_input_hash r, jb_policy = ir_policy r, jb_fence = 0, jb_lease_owner = [],
      jb_lease_expires = None, jb_attempt = 0, jb_max_attempts = ir_max_attempts r, jb_error = [],
      jb_created = None, jb_completed = None\<rparr>"

definition Enqueue ::
    "(string list \<Rightarrow> string) \<Rightarrow> (string \<Rightarrow> bool) \<Rightarrow> jobs_db \<Rightarrow> principal \<Rightarrow> enqueue_request \<Rightarrow>
     string \<Rightarrow> time \<Rightarrow> jobs_error + jobs_db \<times> job \<times> bool" where
  "Enqueue dig uuid_ok db p req newid now =
     (if p_tenant p = [] then Inl (ErrInvalidRequest ''principal tenant required'')
      else if er_tenant req \<noteq> [] \<and> er_tenant req \<noteq> p_tenant p
      then Inl (ErrInvalidRequest ''request tenant does not match principal'')
      else if er_operation req = [] \<or> er_idem req = []
      then Inl (ErrInvalidRequest ''operation and idempotency key are required'')
      else let r = enqueue_record dig p req newid
           in bind_r (InsertJob uuid_ok db r now) (\<lambda>(db', existing).
                case existing of
                  None \<Rightarrow> Inr (db', record_job r, True)
                | Some (row, same) \<Rightarrow>
                    if same \<and> j_submitter row = ir_submitter r \<and> row_subject row = er_subject req \<and>
                       null_str (j_input_ref row) = er_input_ref req \<and>
                       j_input_hash row = er_input_hash req
                    then Inr (db', scanJobRow row, False)
                    else Inl ErrIdempotencyConflict))"

section \<open>service.go: Claim and its methods\<close>

record claim =
  c_lease :: lease
  c_job :: job
  c_attempt :: string
  c_dispatched :: bool

definition Lease ::
    "jobs_db \<Rightarrow> string \<Rightarrow> duration \<Rightarrow> time \<Rightarrow> (string \<times> string) list \<Rightarrow> string \<Rightarrow>
     jobs_error + jobs_db \<times> claim option" where
  "Lease db worker ttl now locked att =
     bind_r (ClaimJob db worker ttl now locked att) (\<lambda>(db', cj).
       Inr (db', map_option (\<lambda>cj. \<lparr>c_lease = cj_lease cj, c_job = scanJobRow (cj_row cj),
                                   c_attempt = cj_attempt cj, c_dispatched = False\<rparr>) cj))"

text \<open>A claim's method acts under the identity of its lease.\<close>

abbreviation under_lease ::
    "(jobs_db \<Rightarrow> string \<Rightarrow> string \<Rightarrow> string \<Rightarrow> int \<Rightarrow> 'a) \<Rightarrow> jobs_db \<Rightarrow> claim \<Rightarrow> 'a" where
  "under_lease op db c \<equiv>
     op db (jb_tenant (c_job c)) (l_job (c_lease c)) (l_owner (c_lease c)) (l_fence (c_lease c))"

definition Heartbeat :: "jobs_db \<Rightarrow> claim \<Rightarrow> duration \<Rightarrow> time \<Rightarrow> jobs_error + jobs_db \<times> claim" where
  "Heartbeat db c ttl now =
     bind_r (under_lease ExtendLease db c ttl now) (\<lambda>(db', expires).
       Inr (db', c\<lparr>c_lease := (c_lease c)\<lparr>l_expires := expires\<rparr>\<rparr>))"

definition clamp_percent :: "int \<Rightarrow> int" where
  "clamp_percent p = (let q = (if p < 0 then 0 else p) in if q > 100 then 100 else q)"

definition Progress :: "jobs_db \<Rightarrow> claim \<Rightarrow> int \<Rightarrow> string \<Rightarrow> string \<Rightarrow> jobs_error + jobs_db" where
  "Progress db c percent message stamp =
     under_lease WriteProgress db c
       (JObj [(''at'', JStr stamp), (''message'', JStr message),
              (''percent'', JNum (of_int (clamp_percent percent)))])"

definition ClaimCancelRequested :: "jobs_db \<Rightarrow> claim \<Rightarrow> jobs_error + bool" where
  "ClaimCancelRequested db c = under_lease CancelRequested db c"

definition MarkDispatched :: "jobs_db \<Rightarrow> claim \<Rightarrow> jobs_error + jobs_db \<times> claim" where
  "MarkDispatched db c =
     bind_r (under_lease MarkDispatchedJob db c (c_attempt c)) (\<lambda>db'.
       Inr (db', c\<lparr>c_dispatched := True\<rparr>))"

definition Complete :: "jobs_db \<Rightarrow> claim \<Rightarrow> string \<Rightarrow> time \<Rightarrow> jobs_error + jobs_db \<times> job_status" where
  "Complete db c ref now = under_lease CompleteJob db c (c_attempt c) ref now"

definition will_retry :: "claim \<Rightarrow> failure_class \<Rightarrow> bool" where
  "will_retry c cls \<longleftrightarrow>
     cls = FailureRetryable \<and> jb_attempt (c_job c) + 1 < jb_max_attempts (c_job c)"

text \<open>\<open>wall\<close> is the worker's clock (\<open>time.Now()\<close>), \<open>now\<close> the database's.\<close>

definition Fail ::
    "i64 \<Rightarrow> jobs_db \<Rightarrow> claim \<Rightarrow> go_error option \<Rightarrow> failure_class \<Rightarrow> time \<Rightarrow> time \<Rightarrow>
     jobs_error + jobs_db" where
  "Fail base db c cause cls wall now =
     under_lease FailJob db c (c_attempt c) (will_retry c cls)
       (wall + sint (retryDelay base (jb_attempt (c_job c))))
       (errorDoc cause (cls = FailureRetryable)) now"

definition MarkUnknown :: "jobs_db \<Rightarrow> claim \<Rightarrow> string \<Rightarrow> time \<Rightarrow> jobs_error + jobs_db" where
  "MarkUnknown db c reason now =
     under_lease MarkUnknownJob db c (c_attempt c) (errorDoc (Some (PlainError reason)) False) now"

definition Release :: "jobs_db \<Rightarrow> claim \<Rightarrow> time \<Rightarrow> jobs_error + jobs_db" where
  "Release db c now = under_lease ReleaseJob db c (c_attempt c) now"

section \<open>service.go: the owner's operations\<close>

definition Get :: "(string list \<Rightarrow> string) \<Rightarrow> jobs_db \<Rightarrow> principal \<Rightarrow> string \<Rightarrow> jobs_error + job" where
  "Get dig db p i =
     bind_r (GetOwnedJob db (p_tenant p) i (submitterKey dig p)) (\<lambda>row. Inr (scanJobRow row))"

definition ListJobs :: "(string list \<Rightarrow> string) \<Rightarrow> jobs_db \<Rightarrow> principal \<Rightarrow> int \<Rightarrow> job list" where
  "ListJobs dig db p limit =
     map scanJobRow (ListOwnedJobs db (p_tenant p) (submitterKey dig p) limit)"

definition Cancel ::
    "(string list \<Rightarrow> string) \<Rightarrow> jobs_db \<Rightarrow> principal \<Rightarrow> string \<Rightarrow> time \<Rightarrow> jobs_error + jobs_db" where
  "Cancel dig db p i now =
     bind_r (GetOwnedJob db (p_tenant p) i (submitterKey dig p)) (\<lambda>row.
       if j_status row = Cancelled then Inr db
       else if j_status row \<in> {Succeeded, Failed, Unknown} then Inl ErrJobTerminal
       else CancelJob db (p_tenant p) i now)"

definition Delete ::
    "(string list \<Rightarrow> string) \<Rightarrow> jobs_db \<Rightarrow> principal \<Rightarrow> string \<Rightarrow> time \<Rightarrow> jobs_error + jobs_db" where
  "Delete dig db p i now =
     bind_r (GetOwnedJob db (p_tenant p) i (submitterKey dig p)) (\<lambda>row.
       if j_status row = Deleted then Inl ErrJobNotFound
       else DeleteJob db (p_tenant p) i now)"

section \<open>runner.go\<close>

record runner_config =
  rc_worker :: string
  rc_concurrency :: int
  rc_poll :: duration
  rc_lease_ttl :: duration
  rc_heartbeat :: duration
  rc_cancel_poll :: duration

text \<open>Go's integer division truncates; here both operands are positive.\<close>

definition NewRunner :: "runner_config \<Rightarrow> string \<Rightarrow> runner_config" where
  "NewRunner cfg generated =
     (let c1 = (if rc_concurrency cfg \<le> 0 then cfg\<lparr>rc_concurrency := 4\<rparr> else cfg);
          c2 = (if rc_poll c1 \<le> 0 then c1\<lparr>rc_poll := 500000000\<rparr> else c1);
          c3 = (if rc_lease_ttl c2 \<le> 0 then c2\<lparr>rc_lease_ttl := 30 * second\<rparr> else c2);
          c4 = (if rc_heartbeat c3 \<le> 0 then c3\<lparr>rc_heartbeat := rc_lease_ttl c3 div 3\<rparr> else c3);
          c5 = (if rc_cancel_poll c4 \<le> 0 then c4\<lparr>rc_cancel_poll := rc_heartbeat c4\<rparr> else c4)
      in if rc_worker c5 = [] then c5\<lparr>rc_worker := generated\<rparr> else c5)"

text \<open>
  \<open>translate\<close>: the handler's outcome becomes one fenced transition, whose own error is dropped.
  \<open>wall\<close> and \<open>now\<close> are the clocks at that transition.
\<close>

definition keep_db :: "jobs_db \<Rightarrow> jobs_error + jobs_db \<Rightarrow> jobs_db" where
  "keep_db db r = (case r of Inl _ \<Rightarrow> db | Inr db' \<Rightarrow> db')"

definition translate ::
    "i64 \<Rightarrow> jobs_db \<Rightarrow> claim \<Rightarrow> string \<Rightarrow> go_error option \<Rightarrow> time \<Rightarrow> time \<Rightarrow> jobs_db" where
  "translate base db c ref err wall now =
     (case err of
        None \<Rightarrow> keep_db db (bind_r (Complete db c ref now) (\<lambda>(db', _). Inr db'))
      | Some e \<Rightarrow>
          if errors_is e CtxCanceled \<or> errors_is e CtxDeadlineExceeded
          then (if ClaimCancelRequested db c = Inr True
                then keep_db db (bind_r (Complete db c ref now) (\<lambda>(db', _). Inr db'))
                else if c_dispatched c
                then keep_db db
                       (MarkUnknown db c ''worker context cancelled after dispatch'' now)
                else keep_db db (Release db c now))
          else keep_db db (Fail base db c (Some e) (FailureClassFor e) wall now))"

text \<open>
  \<open>execute\<close>, seen from the store: an operation without a handler fails the job; otherwise the
  handler's outcome, an argument here, is translated in the state its own calls left behind.
\<close>

definition execute ::
    "i64 \<Rightarrow> (string \<Rightarrow> bool) \<Rightarrow> (string \<Rightarrow> string) \<Rightarrow> jobs_db \<Rightarrow> claim \<Rightarrow>
     (jobs_db \<Rightarrow> claim \<Rightarrow> jobs_db \<times> claim \<times> string \<times> go_error option) \<Rightarrow> time \<Rightarrow> time \<Rightarrow> jobs_db" where
  "execute base has_handler quote_go db c handler wall now =
     (if \<not> has_handler (jb_operation (c_job c))
      then keep_db db
             (Fail base db c
                (Some (PlainError (''no handler registered for operation '' @
                                   quote_go (jb_operation (c_job c))))) FailureFatal wall now)
      else (case handler db c of (db', c', ref, err) \<Rightarrow> translate base db' c' ref err wall now))"

section \<open>The job system\<close>

record jobs_state =
  js_db :: jobs_db
  js_claims :: "claim list"

definition init_jobs :: jobs_state where
  "init_jobs = \<lparr>js_db = empty_jobs_db, js_claims = []\<rparr>"

datatype jobs_event =
    EvEnqueue principal enqueue_request string time
  | EvLease string duration time "(string \<times> string) list" string
  | EvHeartbeat nat duration time
  | EvProgress nat int string string
  | EvMarkDispatched nat
  | EvComplete nat string time
  | EvFail nat "go_error option" failure_class time time
  | EvMarkUnknown nat string time
  | EvRelease nat time
  | EvCancel principal string time
  | EvDelete principal string time

definition set_db :: "jobs_state \<Rightarrow> jobs_error + jobs_db \<Rightarrow> jobs_state" where
  "set_db s r = s\<lparr>js_db := keep_db (js_db s) r\<rparr>"

definition with_claim :: "jobs_state \<Rightarrow> nat \<Rightarrow> (claim \<Rightarrow> jobs_state) \<Rightarrow> jobs_state" where
  "with_claim s n f = (if n < length (js_claims s) then f (js_claims s ! n) else s)"

definition set_claim :: "jobs_state \<Rightarrow> nat \<Rightarrow> jobs_error + jobs_db \<times> claim \<Rightarrow> jobs_state" where
  "set_claim s n r =
     (case r of Inl _ \<Rightarrow> s
      | Inr (db, c) \<Rightarrow> \<lparr>js_db = db, js_claims = (js_claims s)[n := c]\<rparr>)"

fun jobs_step ::
    "(string list \<Rightarrow> string) \<Rightarrow> (string \<Rightarrow> bool) \<Rightarrow> i64 \<Rightarrow> jobs_state \<Rightarrow> jobs_event \<Rightarrow> jobs_state" where
  "jobs_step dig uuid_ok base s (EvEnqueue p req i now) =
     set_db s (bind_r (Enqueue dig uuid_ok (js_db s) p req i now) (\<lambda>(db, _). Inr db))"
| "jobs_step dig uuid_ok base s (EvLease w ttl now locked att) =
     (case Lease (js_db s) w ttl now locked att of
        Inl _ \<Rightarrow> s
      | Inr (db, None) \<Rightarrow> s\<lparr>js_db := db\<rparr>
      | Inr (db, Some c) \<Rightarrow> \<lparr>js_db = db, js_claims = js_claims s @ [c]\<rparr>)"
| "jobs_step dig uuid_ok base s (EvHeartbeat n ttl now) =
     with_claim s n (\<lambda>c. set_claim s n (Heartbeat (js_db s) c ttl now))"
| "jobs_step dig uuid_ok base s (EvProgress n pct msg stamp) =
     with_claim s n (\<lambda>c. set_db s (Progress (js_db s) c pct msg stamp))"
| "jobs_step dig uuid_ok base s (EvMarkDispatched n) =
     with_claim s n (\<lambda>c. set_claim s n (MarkDispatched (js_db s) c))"
| "jobs_step dig uuid_ok base s (EvComplete n ref now) =
     with_claim s n (\<lambda>c. set_db s (bind_r (Complete (js_db s) c ref now) (\<lambda>(db, _). Inr db)))"
| "jobs_step dig uuid_ok base s (EvFail n cause cls wall now) =
     with_claim s n (\<lambda>c. set_db s (Fail base (js_db s) c cause cls wall now))"
| "jobs_step dig uuid_ok base s (EvMarkUnknown n reason now) =
     with_claim s n (\<lambda>c. set_db s (MarkUnknown (js_db s) c reason now))"
| "jobs_step dig uuid_ok base s (EvRelease n now) =
     with_claim s n (\<lambda>c. set_db s (Release (js_db s) c now))"
| "jobs_step dig uuid_ok base s (EvCancel p i now) =
     set_db s (Cancel dig (js_db s) p i now)"
| "jobs_step dig uuid_ok base s (EvDelete p i now) =
     set_db s (Delete dig (js_db s) p i now)"

end
