(* ===== verification/JobsInv.thy ===== *)
theory JobsInv
  imports Jobs
begin

text \<open>
  The invariant of the job tables and its preservation by every repository method: keys are
  unique, a running job has a lease and exactly one open attempt (the one of its fence), every
  attempt belongs to a job at a fence not beyond the job's, and the attempt counter counts the
  attempt rows. Every method but \<open>InsertJob\<close> and \<open>ClaimJob\<close> rewrites rows without touching keys
  or fences, so one lemma about such updates, \<open>db_inv_update\<close>, carries them all.
\<close>

section \<open>The invariant\<close>

definition same_job :: "attempt_row \<Rightarrow> job_row \<Rightarrow> bool" where
  "same_job a j \<longleftrightarrow> a_tenant a = j_tenant j \<and> a_job a = j_id j"

definition current :: "attempt_row \<Rightarrow> job_row \<Rightarrow> bool" where
  "current a j \<longleftrightarrow> same_job a j \<and> a_fence a = j_fence j"

definition attempt_slot :: "attempt_row \<Rightarrow> string \<times> string \<times> int" where
  "attempt_slot a = (a_tenant a, a_job a, a_fence a)"

definition live :: "job_status \<Rightarrow> bool" where
  "live st \<longleftrightarrow> st = Running \<or> st = Deleted"

definition db_keys :: "jobs_db \<Rightarrow> bool" where
  "db_keys db \<longleftrightarrow>
     distinct (map job_key (d_jobs db)) \<and> distinct (map idem_key (d_jobs db)) \<and>
     distinct (map attempt_key (d_attempts db)) \<and> distinct (map attempt_slot (d_attempts db))"

definition lease_ok :: "attempt_row list \<Rightarrow> job_row \<Rightarrow> bool" where
  "lease_ok ats j \<longleftrightarrow>
     (j_status j = Running \<longrightarrow>
        j_lease_owner j \<noteq> None \<and> j_lease_expires j \<noteq> None \<and>
        (\<exists>a\<in>set ats. current a j \<and> a_finished a = None)) \<and>
     (\<not> live (j_status j) \<longrightarrow> j_lease_owner j = None)"

definition dispatch_ok :: "attempt_row list \<Rightarrow> job_row \<Rightarrow> bool" where
  "dispatch_ok ats j \<longleftrightarrow>
     (\<forall>d. j_dispatched j = Some d \<longrightarrow> (\<exists>a\<in>set ats. attempt_key a = (j_tenant j, d) \<and> current a j))"

definition count_ok :: "attempt_row list \<Rightarrow> job_row \<Rightarrow> bool" where
  "count_ok ats j \<longleftrightarrow>
     0 \<le> j_fence j \<and> j_attempts j = j_fence j \<and>
     int (count_rows (\<lambda>a. same_job a j) ats) = j_fence j"

definition attempt_ok :: "job_row list \<Rightarrow> attempt_row \<Rightarrow> bool" where
  "attempt_ok js a \<longleftrightarrow>
     (\<exists>j\<in>set js. same_job a j \<and> a_fence a \<le> j_fence j \<and>
        (a_finished a = None \<longrightarrow> a_fence a = j_fence j \<and> live (j_status j)))"

definition db_inv :: "jobs_db \<Rightarrow> bool" where
  "db_inv db \<longleftrightarrow>
     db_keys db \<and>
     (\<forall>j\<in>set (d_jobs db).
        lease_ok (d_attempts db) j \<and> dispatch_ok (d_attempts db) j \<and> count_ok (d_attempts db) j) \<and>
     (\<forall>a\<in>set (d_attempts db). attempt_ok (d_jobs db) a)"

lemmas db_inv_defs = db_inv_def db_keys_def

lemma db_inv_empty: "db_inv empty_jobs_db"
  by (simp add: db_inv_defs empty_jobs_db_def)

lemma current_unique:
  assumes "db_inv db" and "a \<in> set (d_attempts db)" and "b \<in> set (d_attempts db)"
    and "current a j" and "current b j"
  shows "a = b"
proof -
  have "distinct (map attempt_slot (d_attempts db))" using assms(1) by (simp add: db_inv_defs)
  moreover have "attempt_slot a = attempt_slot b"
    using assms(4,5) by (simp add: current_def same_job_def attempt_slot_def)
  ultimately show ?thesis using assms(2,3) distinct_keys_unique by metis
qed

lemma job_unique:
  "db_inv db \<Longrightarrow> j \<in> set (d_jobs db) \<Longrightarrow> j' \<in> set (d_jobs db) \<Longrightarrow> job_key j = job_key j' \<Longrightarrow> j = j'"
  by (auto simp: db_inv_defs dest: distinct_keys_unique)

lemma attempt_unique:
  "db_inv db \<Longrightarrow> a \<in> set (d_attempts db) \<Longrightarrow> b \<in> set (d_attempts db) \<Longrightarrow>
   attempt_key a = attempt_key b \<Longrightarrow> a = b"
  by (auto simp: db_inv_defs dest: distinct_keys_unique)

lemma open_is_current:
  assumes "db_inv db" and "j \<in> set (d_jobs db)" and "a \<in> set (d_attempts db)"
    and "same_job a j" and "a_finished a = None"
  shows "current a j \<and> live (j_status j)"
proof -
  have "attempt_ok (d_jobs db) a" using assms(1,3) by (simp add: db_inv_def)
  then obtain j' where j': "j' \<in> set (d_jobs db)" "same_job a j'"
      "a_fence a = j_fence j'" "live (j_status j')"
    using assms(5) by (auto simp: attempt_ok_def)
  have "j' = j"
    using job_unique[OF assms(1) j'(1) assms(2)] j'(2) assms(4) by (simp add: job_key_def same_job_def)
  then show ?thesis using j' by (simp add: current_def)
qed

section \<open>Updates that keep keys and fences\<close>

definition keeps_job :: "(job_row \<Rightarrow> job_row) \<Rightarrow> bool" where
  "keeps_job f \<longleftrightarrow>
     (\<forall>j. job_key (f j) = job_key j \<and> idem_key (f j) = idem_key j \<and> j_fence (f j) = j_fence j \<and>
          j_attempts (f j) = j_attempts j)"

definition closes_attempt :: "(attempt_row \<Rightarrow> attempt_row) \<Rightarrow> bool" where
  "closes_attempt g \<longleftrightarrow>
     (\<forall>a. attempt_key (g a) = attempt_key a \<and> attempt_slot (g a) = attempt_slot a \<and>
          a_worker (g a) = a_worker a \<and> a_finished (g a) \<noteq> None)"

lemma keeps_job_same: "keeps_job f \<Longrightarrow> same_job a (f j) = same_job a j"
  by (simp add: keeps_job_def same_job_def job_key_def)

lemma keeps_job_current: "keeps_job f \<Longrightarrow> current a (f j) = current a j"
  by (simp add: current_def keeps_job_same) (simp add: keeps_job_def)

lemma closes_same: "closes_attempt g \<Longrightarrow> same_job (g a) j = same_job a j"
  by (simp add: closes_attempt_def same_job_def attempt_slot_def)

lemma closes_current: "closes_attempt g \<Longrightarrow> current (g a) j = current a j"
  by (simp add: closes_attempt_def current_def same_job_def attempt_slot_def)

lemma closes_fence: "closes_attempt g \<Longrightarrow> a_fence (g a) = a_fence a"
  by (simp add: closes_attempt_def attempt_slot_def)

lemma closes_key: "closes_attempt g \<Longrightarrow> attempt_key (g a) = attempt_key a"
  by (simp add: closes_attempt_def)

lemma closes_finished: "closes_attempt g \<Longrightarrow> a_finished (g a) \<noteq> None"
  unfolding closes_attempt_def by blast

lemma db_keys_update:
  assumes "db_keys \<lparr>d_jobs = js, d_attempts = ats\<rparr>" and "keeps_job f" and "closes_attempt g"
  shows "db_keys \<lparr>d_jobs = upd_rows P f js, d_attempts = upd_rows Q g ats\<rparr>"
proof -
  have "map job_key (upd_rows P f js) = map job_key js"
    "map idem_key (upd_rows P f js) = map idem_key js"
    "map attempt_key (upd_rows Q g ats) = map attempt_key ats"
    "map attempt_slot (upd_rows Q g ats) = map attempt_slot ats"
    using assms(2,3) by (auto simp: keeps_job_def closes_attempt_def intro!: map_upd_rows)
  then show ?thesis using assms(1) by (simp add: db_keys_def)
qed

lemma count_ok_update:
  assumes "count_ok ats j" and "keeps_job f" and "closes_attempt g"
  shows "count_ok (upd_rows Q g ats) (if P j then f j else j)"
proof -
  have "count_rows (\<lambda>a. same_job a (if P j then f j else j)) (upd_rows Q g ats)
      = count_rows (\<lambda>a. same_job a j) ats"
    using assms(2,3) by (simp add: count_rows_upd_rows keeps_job_same closes_same)
  moreover have "j_fence (f j) = j_fence j" "j_attempts (f j) = j_attempts j"
    using assms(2) by (simp_all add: keeps_job_def)
  ultimately show ?thesis using assms(1) by (simp add: count_ok_def)
qed

lemma dispatch_ok_update:
  assumes "\<And>d. j_dispatched j = Some d \<Longrightarrow> \<exists>a\<in>set ats. attempt_key a = (j_tenant j, d) \<and> current a j"
    and "closes_attempt g"
  shows "dispatch_ok (upd_rows Q g ats) j"
  unfolding dispatch_ok_def
proof (intro allI impI)
  fix d assume "j_dispatched j = Some d"
  with assms(1) obtain a where a: "a \<in> set ats" "attempt_key a = (j_tenant j, d)" "current a j"
    by blast
  show "\<exists>a\<in>set (upd_rows Q g ats). attempt_key a = (j_tenant j, d) \<and> current a j"
    using upd_rows_in[OF a(1), of Q g] a(2,3) closes_current[OF assms(2)] closes_key[OF assms(2)]
    by (metis (no_types, lifting))
qed

lemma db_inv_update:
  assumes inv: "db_inv db" and f: "keeps_job f" and g: "closes_attempt g"
    and lease: "\<And>j. j \<in> set (d_jobs db) \<Longrightarrow> P j \<Longrightarrow>
       (j_status (f j) = Running \<longrightarrow>
          j_status j = Running \<and> j_lease_owner (f j) \<noteq> None \<and> j_lease_expires (f j) \<noteq> None) \<and>
       (\<not> live (j_status (f j)) \<longrightarrow> j_lease_owner (f j) = None)"
    and disp: "\<And>j d. j \<in> set (d_jobs db) \<Longrightarrow> P j \<Longrightarrow> j_dispatched (f j) = Some d \<Longrightarrow>
       \<exists>a\<in>set (d_attempts db). attempt_key a = (j_tenant j, d) \<and> current a j"
    and keep: "\<And>j a. j \<in> set (d_jobs db) \<Longrightarrow> a \<in> set (d_attempts db) \<Longrightarrow> current a j \<Longrightarrow> Q a \<Longrightarrow>
       j_status (if P j then f j else j) \<noteq> Running"
    and close: "\<And>j a. j \<in> set (d_jobs db) \<Longrightarrow> a \<in> set (d_attempts db) \<Longrightarrow> current a j \<Longrightarrow>
       a_finished a = None \<Longrightarrow> P j \<Longrightarrow> \<not> Q a \<Longrightarrow> live (j_status j) \<Longrightarrow> live (j_status (f j))"
  shows "db_inv \<lparr>d_jobs = upd_rows P f (d_jobs db), d_attempts = upd_rows Q g (d_attempts db)\<rparr>"
    (is "db_inv ?db'")
proof -
  let ?F = "\<lambda>j. if P j then f j else j"
  let ?G = "\<lambda>a. if Q a then g a else a"
  have keys: "db_keys ?db'"
    using db_keys_update[OF _ f g, of "d_jobs db" "d_attempts db"] inv by (simp add: db_inv_defs)
  have cur: "current a (?F j) = current a j" "current (?G a) j = current a j" for a j
    using keeps_job_current[OF f] closes_current[OF g] by auto
  have tenant: "j_tenant (?F j) = j_tenant j" for j
    using f by (simp add: keeps_job_def job_key_def)
  have old: "lease_ok (d_attempts db) j" "dispatch_ok (d_attempts db) j" "count_ok (d_attempts db) j"
    if "j \<in> set (d_jobs db)" for j
    using inv that by (auto simp: db_inv_def)
  have L: "lease_ok (d_attempts ?db') (?F j)" if j: "j \<in> set (d_jobs db)" for j
  proof -
    have "\<exists>a\<in>set (d_attempts ?db'). current a (?F j) \<and> a_finished a = None"
      if r: "j_status (?F j) = Running"
    proof -
      have "j_status j = Running" using r lease[OF j] by (auto split: if_splits)
      then obtain a where a: "a \<in> set (d_attempts db)" "current a j" "a_finished a = None"
        using old(1)[OF j] by (auto simp: lease_ok_def)
      have "\<not> Q a" using keep[OF j a(1,2)] r by auto
      then show ?thesis using a upd_rows_in[OF a(1), of Q g] cur(1) by auto
    qed
    then show ?thesis using lease[OF j] old(1)[OF j] by (auto simp: lease_ok_def)
  qed
  have D: "dispatch_ok (d_attempts ?db') (?F j)" if j: "j \<in> set (d_jobs db)" for j
    unfolding jobs_db.simps
  proof (rule dispatch_ok_update[OF _ g])
    fix d assume d: "j_dispatched (?F j) = Some d"
    show "\<exists>a\<in>set (d_attempts db). attempt_key a = (j_tenant (?F j), d) \<and> current a (?F j)"
    proof (cases "P j")
      case True
      then show ?thesis using disp[OF j] d tenant[of j] cur(1)[of _ j] by auto
    next
      case False
      then show ?thesis using old(2)[OF j] d by (auto simp: dispatch_ok_def)
    qed
  qed
  have C: "count_ok (d_attempts ?db') (?F j)" if "j \<in> set (d_jobs db)" for j
    using count_ok_update[OF old(3)[OF that] f g] by simp
  have A: "attempt_ok (d_jobs ?db') (?G a)" if a: "a \<in> set (d_attempts db)" for a
  proof -
    have "attempt_ok (d_jobs db) a" using inv a by (simp add: db_inv_def)
    then obtain j where j: "j \<in> set (d_jobs db)" "same_job a j" "a_fence a \<le> j_fence j"
      and o: "a_finished a = None \<longrightarrow> a_fence a = j_fence j \<and> live (j_status j)"
      by (auto simp: attempt_ok_def)
    have fence: "j_fence (?F j) = j_fence j" using f by (simp add: keeps_job_def)
    have sj: "same_job (?G a) (?F j)"
      using j(2) keeps_job_same[OF f] closes_same[OF g] by auto
    have af: "a_fence (?G a) = a_fence a" using closes_fence[OF g] by simp
    have op: "live (j_status (?F j)) \<and> a_fence a = j_fence j" if "a_finished (?G a) = None"
    proof -
      have nq: "\<not> Q a" and fin: "a_finished a = None"
        using that closes_finished[OF g, of a] by (auto split: if_splits)
      have "current a j" using j(2) o fin by (simp add: current_def)
      then show ?thesis using close[OF j(1) a _ fin _ nq] o fin by auto
    qed
    show ?thesis unfolding attempt_ok_def jobs_db.simps
      by (rule bexI[of _ "?F j"]) (use sj af op fence j upd_rows_in[OF j(1)] in auto)
  qed
  show ?thesis unfolding db_inv_def
    using keys L D C A by (auto elim!: in_upd_rowsE)
qed

section \<open>The fenced writes\<close>

lemma db_inv_rows:
  assumes "db_inv db" and "keeps_job f"
    and "\<And>j. j \<in> set (d_jobs db) \<Longrightarrow> P j \<Longrightarrow>
       (j_status (f j) = Running \<longrightarrow>
          j_status j = Running \<and> j_lease_owner (f j) \<noteq> None \<and> j_lease_expires (f j) \<noteq> None) \<and>
       (\<not> live (j_status (f j)) \<longrightarrow> j_lease_owner (f j) = None)"
    and "\<And>j d. j \<in> set (d_jobs db) \<Longrightarrow> P j \<Longrightarrow> j_dispatched (f j) = Some d \<Longrightarrow>
       \<exists>a\<in>set (d_attempts db). attempt_key a = (j_tenant j, d) \<and> current a j"
    and "\<And>j. j \<in> set (d_jobs db) \<Longrightarrow> P j \<Longrightarrow> live (j_status j) \<Longrightarrow> live (j_status (f j))"
  shows "db_inv (db\<lparr>d_jobs := upd_rows P f (d_jobs db)\<rparr>)"
proof -
  have g: "closes_attempt (close_attempt 0)"
    by (simp add: closes_attempt_def close_attempt_def attempt_key_def attempt_slot_def)
  have "db_inv \<lparr>d_jobs = upd_rows P f (d_jobs db),
                d_attempts = upd_rows (\<lambda>_. False) (close_attempt 0) (d_attempts db)\<rparr>"
    by (rule db_inv_update[OF assms(1,2) g]) (use assms(3-5) in auto)
  then show ?thesis by (cases db) simp
qed

lemma keeps_job_rows:
  "keeps_job (\<lambda>j. j\<lparr>j_lease_expires := e\<rparr>)" "keeps_job (\<lambda>j. j\<lparr>j_progress := pr\<rparr>)"
  "keeps_job (\<lambda>j. j\<lparr>j_dispatched := d\<rparr>)" "keeps_job (complete_row ref now)"
  "keeps_job (fail_row retry nb doc now)" "keeps_job release_row" "keeps_job (unknown_row doc now)"
  "keeps_job (cancel_row now)" "keeps_job (delete_row now)" "keeps_job (sweep_row now)"
  by (simp_all add: keeps_job_def job_key_def idem_key_def complete_row_def fail_row_def
      release_row_def unknown_row_def cancel_row_def delete_row_def sweep_row_def)

lemma closes_attempts:
  "closes_attempt (close_attempt now)"
  "closes_attempt (\<lambda>a. a\<lparr>a_status := st, a_finished := Some now\<rparr>)"
  "closes_attempt (\<lambda>a. a\<lparr>a_status := st, a_finished := Some now, a_error := e\<rparr>)"
  by (simp_all add: closes_attempt_def close_attempt_def attempt_key_def attempt_slot_def)

text \<open>The attempt a claim carries is the row inserted under its fence.\<close>

definition claim_bound :: "attempt_row list \<Rightarrow> string \<Rightarrow> string \<Rightarrow> int \<Rightarrow> string \<Rightarrow> bool" where
  "claim_bound ats t i fence att \<longleftrightarrow>
     (\<exists>a\<in>set ats. attempt_key a = (t, att) \<and> a_job a = i \<and> a_fence a = fence)"

lemma holds_lease_key: "holds_lease t i owner fence j \<Longrightarrow> job_key j = (t, i)"
  by (simp add: holds_lease_def is_job_def job_key_def)

lemma claim_attempt_current:
  assumes "claim_bound ats t i fence att" and "holds_lease t i owner fence j"
  obtains a where "a \<in> set ats" and "attempt_key a = (t, att)" and "current a j"
proof -
  obtain a where a: "a \<in> set ats" "attempt_key a = (t, att)" "a_job a = i" "a_fence a = fence"
    using assms(1) by (auto simp: claim_bound_def)
  have "current a j"
    using assms(2) a by (simp add: holds_lease_def is_job_def attempt_key_def current_def same_job_def)
  with a that show thesis by blast
qed

text \<open>While the lease is held, the claim's attempt is open.\<close>

lemma holder_attempt_open:
  assumes "db_inv db" and "claim_bound (d_attempts db) t i fence att"
    and "j \<in> set (d_jobs db)" and "holds_lease t i owner fence j"
  shows "\<exists>a\<in>set (d_attempts db). is_open_attempt t att a \<and> current a j"
proof -
  obtain a where a: "a \<in> set (d_attempts db)" "attempt_key a = (t, att)" "current a j"
    using claim_attempt_current[OF assms(2,4)] .
  have "lease_ok (d_attempts db) j" using assms(1,3) by (simp add: db_inv_def)
  then obtain b where b: "b \<in> set (d_attempts db)" "current b j" "a_finished b = None"
    using assms(4) by (auto simp: lease_ok_def holds_lease_def)
  have "a = b" using current_unique[OF assms(1) a(1) b(1) a(3) b(2)] .
  then show ?thesis using a b by (auto simp: is_open_attempt_def attempt_key_def)
qed

lemma db_inv_finish:
  assumes inv: "db_inv db" and cb: "claim_bound (d_attempts db) t i fence att"
    and f: "keeps_job f" and g: "closes_attempt g"
    and j0: "j0 \<in> set (d_jobs db)" "holds_lease t i owner fence j0"
    and fin: "\<And>j. j_status (f j) \<noteq> Running \<and> j_lease_owner (f j) = None \<and>
      (j_dispatched (f j) = None \<or> j_dispatched (f j) = j_dispatched j)"
  shows "db_inv \<lparr>d_jobs = upd_rows (holds_lease t i owner fence) f (d_jobs db),
                  d_attempts = upd_rows (is_open_attempt t att) g (d_attempts db)\<rparr>"
proof (rule db_inv_update[OF inv f g])
  fix j assume j: "j \<in> set (d_jobs db)" "holds_lease t i owner fence j"
  show "(j_status (f j) = Running \<longrightarrow>
          j_status j = Running \<and> j_lease_owner (f j) \<noteq> None \<and> j_lease_expires (f j) \<noteq> None) \<and>
        (\<not> live (j_status (f j)) \<longrightarrow> j_lease_owner (f j) = None)"
    using fin[of j] by simp
next
  fix j d assume j: "j \<in> set (d_jobs db)" "j_dispatched (f j) = Some d"
  have "dispatch_ok (d_attempts db) j" using inv j(1) by (simp add: db_inv_def)
  then show "\<exists>a\<in>set (d_attempts db). attempt_key a = (j_tenant j, d) \<and> current a j"
    using fin[of j] j(2) by (auto simp: dispatch_ok_def)
next
  fix j a assume j: "j \<in> set (d_jobs db)" and a: "a \<in> set (d_attempts db)"
    and c: "current a j" and q: "is_open_attempt t att a"
  obtain b where b: "b \<in> set (d_attempts db)" "attempt_key b = (t, att)" "current b j0"
    using claim_attempt_current[OF cb j0(2)] .
  have "a = b" using attempt_unique[OF inv a b(1)] q b(2) by (simp add: is_open_attempt_def attempt_key_def)
  then have "job_key j = job_key j0" using c b(3) by (simp add: current_def same_job_def job_key_def)
  then have "j = j0" using job_unique[OF inv j j0(1)] by simp
  then show "j_status (if holds_lease t i owner fence j then f j else j) \<noteq> Running"
    using j0(2) fin[of j] by simp
next
  fix j a assume j: "j \<in> set (d_jobs db)" and a: "a \<in> set (d_attempts db)"
    and c: "current a j" and p: "holds_lease t i owner fence j" and q: "\<not> is_open_attempt t att a"
  obtain b where b: "b \<in> set (d_attempts db)" "is_open_attempt t att b" "current b j"
    using holder_attempt_open[OF inv cb j p] by blast
  have "a = b" using current_unique[OF inv a b(1) c b(3)] .
  then show "live (j_status (f j))" using q b(2) by simp
qed

section \<open>The claim transaction\<close>

lemma keeps_sweep: "keeps_job (sweep_row now)" and closes_close: "closes_attempt (close_attempt now)"
  by (rule keeps_job_rows, rule closes_attempts)

text \<open>The dispatched attempt of a running job is its open attempt.\<close>

lemma dispatched_is_open:
  assumes inv: "db_inv db" and j: "j \<in> set (d_jobs db)" and "j_status j = Running"
  shows "open_dispatch (d_attempts db) j \<longleftrightarrow> j_dispatched j \<noteq> None"
proof
  show "open_dispatch (d_attempts db) j \<Longrightarrow> j_dispatched j \<noteq> None"
    by (auto simp: open_dispatch_def list_ex_iff)
next
  assume "j_dispatched j \<noteq> None"
  then obtain d where d: "j_dispatched j = Some d" by blast
  have ok: "dispatch_ok (d_attempts db) j" "lease_ok (d_attempts db) j"
    using inv j by (simp_all add: db_inv_def)
  obtain a where a: "a \<in> set (d_attempts db)" "attempt_key a = (j_tenant j, d)" "current a j"
    using ok(1) d by (auto simp: dispatch_ok_def)
  obtain b where b: "b \<in> set (d_attempts db)" "current b j" "a_finished b = None"
    using ok(2) assms(3) by (auto simp: lease_ok_def)
  have "a = b" using current_unique[OF inv a(1) b(1) a(3) b(2)] .
  then show "open_dispatch (d_attempts db) j"
    using a b d by (auto simp: open_dispatch_def list_ex_iff attempt_key_def intro!: bexI[of _ a])
qed

definition swept_attempt :: "time \<Rightarrow> jobs_db \<Rightarrow> attempt_row \<Rightarrow> bool" where
  "swept_attempt now db a =
     list_ex (\<lambda>s. a_tenant a = j_tenant s \<and> j_dispatched s = Some (a_id a))
       (filter (sweepable now (d_attempts db)) (d_jobs db))"

lemma sweep_eq:
  "sweep now db =
     \<lparr>d_jobs = upd_rows (sweepable now (d_attempts db)) (sweep_row now) (d_jobs db),
      d_attempts = upd_rows (swept_attempt now db) (close_attempt now) (d_attempts db)\<rparr>"
  by (simp add: sweep_def swept_attempt_def[abs_def])

lemma swept_attempt_current:
  assumes inv: "db_inv db" and a: "a \<in> set (d_attempts db)" and "swept_attempt now db a"
  obtains j where "j \<in> set (d_jobs db)" and "sweepable now (d_attempts db) j" and "current a j"
proof -
  obtain j where j: "j \<in> set (d_jobs db)" "sweepable now (d_attempts db) j"
      "a_tenant a = j_tenant j" "j_dispatched j = Some (a_id a)"
    using assms(3) by (auto simp: swept_attempt_def list_ex_iff)
  have "dispatch_ok (d_attempts db) j" using inv j(1) by (simp add: db_inv_def)
  then obtain b where b: "b \<in> set (d_attempts db)" "attempt_key b = (j_tenant j, a_id a)" "current b j"
    using j(4) by (auto simp: dispatch_ok_def)
  have "a = b" using attempt_unique[OF inv a b(1)] b(2) j(3) by (simp add: attempt_key_def)
  with b(3) j that show thesis by blast
qed

lemma db_inv_sweep:
  assumes inv: "db_inv db"
  shows "db_inv (sweep now db)"
  unfolding sweep_eq
proof (rule db_inv_update[OF inv keeps_sweep closes_close])
  fix j assume "j \<in> set (d_jobs db)" "sweepable now (d_attempts db) j"
  show "(j_status (sweep_row now j) = Running \<longrightarrow>
          j_status j = Running \<and> j_lease_owner (sweep_row now j) \<noteq> None \<and>
          j_lease_expires (sweep_row now j) \<noteq> None) \<and>
        (\<not> live (j_status (sweep_row now j)) \<longrightarrow> j_lease_owner (sweep_row now j) = None)"
    by (simp add: sweep_row_def)
next
  fix j d assume j: "j \<in> set (d_jobs db)" "j_dispatched (sweep_row now j) = Some d"
  have "dispatch_ok (d_attempts db) j" using inv j(1) by (simp add: db_inv_def)
  then show "\<exists>a\<in>set (d_attempts db). attempt_key a = (j_tenant j, d) \<and> current a j"
    using j(2) by (simp add: dispatch_ok_def sweep_row_def)
next
  fix j a assume j: "j \<in> set (d_jobs db)" and a: "a \<in> set (d_attempts db)"
    and c: "current a j" and q: "swept_attempt now db a"
  obtain s where s: "s \<in> set (d_jobs db)" "sweepable now (d_attempts db) s" "current a s"
    using swept_attempt_current[OF inv a q] .
  have "j = s" using job_unique[OF inv j s(1)] c s(3) by (simp add: current_def same_job_def job_key_def)
  then show "j_status (if sweepable now (d_attempts db) j then sweep_row now j else j) \<noteq> Running"
    using s(2) by (simp add: sweep_row_def)
next
  fix j a assume j: "j \<in> set (d_jobs db)" and a: "a \<in> set (d_attempts db)" and c: "current a j"
    and p: "sweepable now (d_attempts db) j" and q: "\<not> swept_attempt now db a"
  have r: "j_status j = Running" "open_dispatch (d_attempts db) j" using p by (simp_all add: sweepable_def)
  then obtain b where b: "b \<in> set (d_attempts db)" "a_tenant b = j_tenant j"
      "j_dispatched j = Some (a_id b)"
    by (auto simp: open_dispatch_def list_ex_iff)
  have "swept_attempt now db b"
    using j p b by (auto simp: swept_attempt_def list_ex_iff)
  moreover have "a = b"
  proof -
    obtain s where s: "s \<in> set (d_jobs db)" "current b s" "sweepable now (d_attempts db) s"
      using swept_attempt_current[OF inv b(1) \<open>swept_attempt now db b\<close>] by blast
    have "dispatch_ok (d_attempts db) j" using inv j by (simp add: db_inv_def)
    then have "current b j"
      using b attempt_unique[OF inv _ b(1)] by (auto simp: dispatch_ok_def attempt_key_def)
    then show ?thesis using current_unique[OF inv a b(1) c] by simp
  qed
  ultimately show "live (j_status (sweep_row now j))" using q by simp
qed

lemma oldest_in: "oldest js = Some j \<Longrightarrow> j \<in> set js"
proof -
  have "foldl (\<lambda>b c. if j_submitted c < j_submitted b then c else b) x xs \<in> insert x (set xs)" for x xs
    by (induction xs arbitrary: x) auto
  then show "oldest js = Some j \<Longrightarrow> j \<in> set js" by (auto simp: oldest_def split: list.splits)
qed

lemma oldest_least: "oldest js = Some j \<Longrightarrow> k \<in> set js \<Longrightarrow> j_submitted j \<le> j_submitted k"
proof -
  have "\<forall>k\<in>insert x (set xs).
      j_submitted (foldl (\<lambda>b c. if j_submitted c < j_submitted b then c else b) x xs) \<le> j_submitted k"
    for x xs
    by (induction xs arbitrary: x) (auto, force+)
  then show "oldest js = Some j \<Longrightarrow> k \<in> set js \<Longrightarrow> j_submitted j \<le> j_submitted k"
    by (cases js) (auto simp: oldest_def)
qed

lemma oldest_None [simp]: "oldest js = None \<longleftrightarrow> js = []"
  by (simp add: oldest_def split: list.splits)

lemma next_job_Some:
  assumes "next_job now locked db = Some c"
  shows "c \<in> set (d_jobs db)" and "claimable now (d_attempts db) c" and "job_key c \<notin> set locked"
  using oldest_in[OF assms[unfolded next_job_def]] by auto

text \<open>The database after the grant of the claim: the last three statements of \<open>ClaimJob\<close>.\<close>

definition granted :: "string \<Rightarrow> duration \<Rightarrow> time \<Rightarrow> string \<Rightarrow> jobs_db \<Rightarrow> job_row \<Rightarrow> jobs_db" where
  "granted worker ttl now att db c =
     \<lparr>d_jobs = upd_rows (\<lambda>j. job_key j = job_key c) (grant_row worker ttl now) (d_jobs db),
      d_attempts =
        upd_rows (\<lambda>a. same_job a c \<and> a_finished a = None) (close_attempt now) (d_attempts db)
        @ [new_attempt (grant_row worker ttl now c) att worker now]\<rparr>"

lemma ClaimJob_cases:
  assumes "ClaimJob db worker ttl now locked att = Inr (db', out)"
  obtains (idle) "next_job now locked (sweep now db) = None" and "db' = sweep now db" and "out = None"
  | (grant) c where "next_job now locked (sweep now db) = Some c"
      and "db' = granted worker ttl now att (sweep now db) c"
      and "(j_tenant c, att) \<notin> attempt_key ` set (d_attempts (sweep now db))"
      and "out = Some \<lparr>cj_row = grant_row worker ttl now c,
             cj_lease = \<lparr>l_job = j_id c, l_owner = worker, l_fence = j_fence c + 1, l_expires = now + ttl\<rparr>,
             cj_attempt = att\<rparr>"
proof (cases "next_job now locked (sweep now db)")
  case None
  note run = assms[unfolded ClaimJob_def Let_def None option.case]
  have "db' = sweep now db" and "out = None" using run by simp_all
  then show thesis by (rule idle[OF None])
next
  case (Some c)
  let ?ats = "upd_rows (\<lambda>a. a_tenant a = j_tenant c \<and> a_job a = j_id c \<and> a_finished a = None)
    (close_attempt now) (d_attempts (sweep now db))"
  have keys: "attempt_key ` set ?ats = attempt_key ` set (d_attempts (sweep now db))"
    by (subst (1 2) set_map[symmetric], subst map_upd_rows)
       (auto simp: close_attempt_def attempt_key_def)
  let ?dup = "list_ex (\<lambda>a. attempt_key a = (j_tenant c, att)) ?ats"
  note run = assms[unfolded ClaimJob_def Let_def Some option.case]
  have nodup: "\<not> ?dup" by (rule notI) (use run in simp)
  then have fresh: "(j_tenant c, att) \<notin> attempt_key ` set (d_attempts (sweep now db))"
    unfolding keys[symmetric] by (auto simp: list_ex_iff)
  have ids: "j_id (grant_row worker ttl now c) = j_id c"
      "j_fence (grant_row worker ttl now c) = j_fence c + 1"
    by (simp_all add: grant_row_def)
  have out: "db' = granted worker ttl now att (sweep now db) c"
    "out = Some \<lparr>cj_row = grant_row worker ttl now c,
             cj_lease = \<lparr>l_job = j_id c, l_owner = worker, l_fence = j_fence c + 1, l_expires = now + ttl\<rparr>,
             cj_attempt = att\<rparr>"
    using run by (simp_all add: nodup granted_def same_job_def conj_assoc ids)
  show thesis by (rule grant[OF Some out(1) fresh out(2)])
qed

lemma grant_row_keys:
  "job_key (grant_row w ttl now j) = job_key j" "idem_key (grant_row w ttl now j) = idem_key j"
  "j_fence (grant_row w ttl now j) = j_fence j + 1" "same_job a (grant_row w ttl now j) = same_job a j"
  by (simp_all add: grant_row_def job_key_def idem_key_def same_job_def)

lemma same_job_key: "same_job a j \<Longrightarrow> same_job a j' \<longleftrightarrow> job_key j = job_key j'"
  by (auto simp: same_job_def job_key_def)

lemma attempt_fence_le:
  assumes "db_inv db" and "j \<in> set (d_jobs db)" and "a \<in> set (d_attempts db)" and "same_job a j"
  shows "a_fence a \<le> j_fence j"
proof -
  obtain j' where j': "j' \<in> set (d_jobs db)" "same_job a j'" "a_fence a \<le> j_fence j'"
    using assms(1,3) by (auto simp: db_inv_def attempt_ok_def)
  have "j' = j" using job_unique[OF assms(1) j'(1) assms(2)] same_job_key[OF j'(2)] assms(4) by blast
  with j'(3) show ?thesis by simp
qed

lemma db_inv_grant:
  assumes inv: "db_inv db" and c: "c \<in> set (d_jobs db)"
    and fresh: "(j_tenant c, att) \<notin> attempt_key ` set (d_attempts db)"
  shows "db_inv (granted worker ttl now att db c)"
proof -
  let ?P = "\<lambda>j. job_key j = job_key c" and ?f = "grant_row worker ttl now"
  let ?Q = "\<lambda>a. same_job a c \<and> a_finished a = None" and ?g = "close_attempt now"
  let ?js = "upd_rows ?P ?f (d_jobs db)" and ?as = "upd_rows ?Q ?g (d_attempts db)"
  let ?new = "new_attempt (?f c) att worker now"
  have pc: "j = c" if "j \<in> set (d_jobs db)" "job_key j = job_key c" for j
    using job_unique[OF inv that(1) c that(2)] .
  have new: "attempt_key ?new = (j_tenant c, att)" "attempt_slot ?new = (j_tenant c, j_id c, j_fence c + 1)"
      "a_finished ?new = None" "same_job ?new j \<longleftrightarrow> job_key j = job_key c" for j
    by (auto simp: new_attempt_def attempt_key_def attempt_slot_def grant_row_def same_job_def job_key_def)
  have cg: "attempt_key (?g a) = attempt_key a" "attempt_slot (?g a) = attempt_slot a"
      "same_job (?g a) j = same_job a j" "a_fence (?g a) = a_fence a" for a j
    using closes_close[of now] closes_same closes_fence by (auto simp: closes_attempt_def)
  have mapk: "map attempt_key ?as = map attempt_key (d_attempts db)"
      "map attempt_slot ?as = map attempt_slot (d_attempts db)"
    by (auto intro!: map_upd_rows simp: cg)
  have slot: "(j_tenant c, j_id c, j_fence c + 1) \<notin> attempt_slot ` set (d_attempts db)"
    using attempt_fence_le[OF inv c] by (force simp: attempt_slot_def same_job_def)
  have keys: "db_keys \<lparr>d_jobs = ?js, d_attempts = ?as @ [?new]\<rparr>"
  proof -
    have "map job_key ?js = map job_key (d_jobs db)" "map idem_key ?js = map idem_key (d_jobs db)"
      by (auto intro!: map_upd_rows simp: grant_row_keys)
    moreover have "distinct (map attempt_key (?as @ [?new]))" "distinct (map attempt_slot (?as @ [?new]))"
      unfolding map_append mapk using inv new fresh slot by (auto simp: db_inv_defs)
    ultimately show ?thesis using inv by (simp add: db_inv_defs)
  qed
  have others: "lease_ok (?as @ [?new]) j \<and> dispatch_ok (?as @ [?new]) j \<and> count_ok (?as @ [?new]) j"
    if j: "j \<in> set (d_jobs db)" and nc: "job_key j \<noteq> job_key c" for j
  proof -
    have old: "lease_ok (d_attempts db) j" "dispatch_ok (d_attempts db) j" "count_ok (d_attempts db) j"
      using inv j by (auto simp: db_inv_def)
    have stay: "a \<in> set (?as @ [?new])" if "a \<in> set (d_attempts db)" "same_job a j" for a
    proof -
      have "\<not> ?Q a" using that(2) nc same_job_key by blast
      then show ?thesis using upd_rows_in[OF that(1), of ?Q ?g] by auto
    qed
    have "count_rows (\<lambda>a. same_job a j) (?as @ [?new]) = count_rows (\<lambda>a. same_job a j) ?as"
      using new(4)[of j] nc by (simp add: count_rows_def)
    also have "\<dots> = count_rows (\<lambda>a. same_job a j) (d_attempts db)"
      by (rule count_rows_upd_rows) (simp add: cg)
    finally have "count_ok (?as @ [?new]) j" using old(3) by (simp add: count_ok_def)
    moreover have "lease_ok (?as @ [?new]) j"
      using old(1) stay unfolding lease_ok_def current_def by blast
    moreover have "dispatch_ok (?as @ [?new]) j"
      using old(2) stay unfolding dispatch_ok_def current_def by blast
    ultimately show ?thesis by simp
  qed
  have granted_ok: "lease_ok (?as @ [?new]) (?f c) \<and> dispatch_ok (?as @ [?new]) (?f c) \<and>
      count_ok (?as @ [?new]) (?f c)"
  proof -
    have "count_rows (\<lambda>a. same_job a (?f c)) (?as @ [?new]) = count_rows (\<lambda>a. same_job a c) ?as + 1"
      using new(4)[of c] by (simp add: count_rows_def grant_row_keys)
    also have "\<dots> = count_rows (\<lambda>a. same_job a c) (d_attempts db) + 1"
      by (simp add: count_rows_upd_rows cg)
    finally have "count_ok (?as @ [?new]) (?f c)"
      using inv c by (simp add: db_inv_def count_ok_def grant_row_def)
    moreover have "current ?new (?f c)"
      by (simp add: current_def grant_row_keys new(4)) (simp add: new_attempt_def grant_row_keys)
    ultimately show ?thesis using new(3)
      by (auto simp: lease_ok_def dispatch_ok_def grant_row_def live_def)
  qed
  have rows: "lease_ok (?as @ [?new]) j \<and> dispatch_ok (?as @ [?new]) j \<and> count_ok (?as @ [?new]) j"
    if mem: "j \<in> set ?js" for j
  proof -
    obtain j0 where j0: "j0 \<in> set (d_jobs db)" "j = (if ?P j0 then ?f j0 else j0)"
      using mem by (rule in_upd_rowsE)
    show ?thesis
    proof (cases "?P j0")
      case True
      then show ?thesis using granted_ok pc[OF j0(1)] j0(2) by simp
    next
      case False
      then show ?thesis using others[OF j0(1)] j0(2) by simp
    qed
  qed
  have fc: "?f c \<in> set ?js" using upd_rows_in[OF c, of ?P ?f] by simp
  have attempts: "attempt_ok ?js a" if "a \<in> set (?as @ [?new])" for a
  proof (cases "a = ?new")
    case True
    then show ?thesis unfolding attempt_ok_def
      using fc by (intro bexI[of _ "?f c"])
        (simp_all add: new(4) grant_row_keys, simp_all add: new_attempt_def grant_row_keys,
         simp add: grant_row_def live_def)
  next
    case False
    with that have "a \<in> set ?as" by simp
    then obtain a0 where a0: "a0 \<in> set (d_attempts db)" "a = (if ?Q a0 then ?g a0 else a0)"
      by (rule in_upd_rowsE)
    obtain j where j: "j \<in> set (d_jobs db)" "same_job a0 j" "a_fence a0 \<le> j_fence j"
        "a_finished a0 = None \<longrightarrow> a_fence a0 = j_fence j \<and> live (j_status j)"
      using inv a0(1) by (auto simp: db_inv_def attempt_ok_def)
    show ?thesis
    proof (cases "job_key j = job_key c")
      case True
      then have jc: "j = c" using pc j(1) by simp
      have fin: "a_finished a \<noteq> None" using a0(2) j(2) jc by (auto simp: close_attempt_def)
      show ?thesis unfolding attempt_ok_def
        using fc fin j jc a0(2) by (intro bexI[of _ "?f c"]) (auto simp: grant_row_keys cg)
    next
      case False
      then have "\<not> ?Q a0" using j(2) same_job_key by blast
      with a0(2) have "a = a0" by (simp only: if_False)
      moreover have "j \<in> set ?js" using upd_rows_in[OF j(1), of ?P ?f] False by simp
      ultimately show ?thesis using j by (auto simp: attempt_ok_def)
    qed
  qed
  show ?thesis
    using keys rows attempts by (simp add: db_inv_def granted_def)
qed

lemma db_inv_ClaimJob:
  assumes "db_inv db" and "ClaimJob db worker ttl now locked att = Inr (db', out)"
  shows "db_inv db'"
  using assms(2)
proof (cases rule: ClaimJob_cases)
  case idle
  then show ?thesis using db_inv_sweep[OF assms(1)] by simp
next
  case (grant c)
  then show ?thesis
    using db_inv_grant[OF db_inv_sweep[OF assms(1)] next_job_Some(1)] by blast
qed

end
