(* ===== verification/JobsSys.thy ===== *)
theory JobsSys
  imports JobsInv
begin

text \<open>
  The job system as a transition system: every service call keeps the invariant of the tables and
  of the issued claims (\<open>jobs_inv\<close>), and moves every job row only as \<open>job_evolves\<close> allows. The
  system interprets the shared transition-system and fencing contracts; the properties of the
  component follow from their facts.
\<close>

section \<open>How rows may move\<close>

definition settled :: "job_status \<Rightarrow> bool" where
  "settled st \<longleftrightarrow> st \<noteq> Queued \<and> st \<noteq> Running"

definition frozen_part ::
    "job_row \<Rightarrow> (string \<times> string \<times> string \<times> string option \<times> string option \<times> int option \<times> string) \<times>
       (string \<times> string option \<times> principal \<times> string \<times> json \<times> int \<times> time)" where
  "frozen_part j =
     ((j_tenant j, j_id j, j_operation j, j_connection j, j_object j, j_observed j, j_idem j),
      (j_input_hash j, j_input_ref j, j_principal j, j_submitter j, j_policy j, j_max_attempts j,
       j_submitted j))"

definition job_evolves :: "job_row \<Rightarrow> job_row \<Rightarrow> bool" where
  "job_evolves j j' \<longleftrightarrow>
     frozen_part j' = frozen_part j \<and> j_fence j \<le> j_fence j' \<and>
     (j_status j' = Running \<longrightarrow>
        (j_status j = Running \<and> j_lease_owner j' = j_lease_owner j \<and> j_fence j' = j_fence j) \<or>
        j_fence j < j_fence j') \<and>
     (settled (j_status j) \<longrightarrow>
        j' = j \<or> (j_status j \<noteq> Deleted \<and> (\<exists>now. j' = delete_row now j)))"

lemma job_evolves_refl [simp]: "job_evolves j j"
  by (simp add: job_evolves_def)

lemma job_evolves_trans:
  assumes "job_evolves j j'" and "job_evolves j' j''"
  shows "job_evolves j j''"
proof -
  have "settled (j_status j) \<Longrightarrow> j'' = j \<or> (j_status j \<noteq> Deleted \<and> (\<exists>now. j'' = delete_row now j))"
  proof -
    assume st: "settled (j_status j)"
    with assms(1) consider "j' = j" | now where "j_status j \<noteq> Deleted" "j' = delete_row now j"
      by (auto simp: job_evolves_def)
    then show ?thesis
    proof cases
      case 1
      then show ?thesis using assms(2) st by (auto simp: job_evolves_def)
    next
      case 2
      then have "j_status j' = Deleted" by (simp add: delete_row_def)
      then have "j'' = j'" using assms(2) by (simp add: job_evolves_def settled_def)
      then show ?thesis using 2 by blast
    qed
  qed
  then show ?thesis using assms unfolding job_evolves_def by force
qed

lemma frozen_key: "frozen_part j' = frozen_part j \<Longrightarrow> job_key j' = job_key j"
  by (simp add: frozen_part_def job_key_def)

lemma job_evolves_key: "job_evolves j j' \<Longrightarrow> job_key j' = job_key j"
  by (rule frozen_key) (simp add: job_evolves_def)

lemma leased_row_evolves:
  assumes "j_status j = Running"
  shows "job_evolves j (j\<lparr>j_lease_expires := e\<rparr>)" "job_evolves j (j\<lparr>j_progress := pr\<rparr>)"
    "job_evolves j (j\<lparr>j_dispatched := d\<rparr>)" "job_evolves j (complete_row ref now j)"
    "job_evolves j (fail_row retry nb doc now j)" "job_evolves j (release_row j)"
    "job_evolves j (unknown_row doc now j)" "job_evolves j (sweep_row now j)"
  using assms
  by (simp_all add: job_evolves_def frozen_part_def settled_def complete_row_def fail_row_def
      release_row_def unknown_row_def sweep_row_def)

lemma grant_row_evolves:
  "\<not> settled (j_status j) \<Longrightarrow> job_evolves j (grant_row worker ttl now j)"
  by (simp add: job_evolves_def frozen_part_def grant_row_def)

lemma cancel_row_evolves: "j_status j \<in> {Queued, Running} \<Longrightarrow> job_evolves j (cancel_row now j)"
  by (auto simp: job_evolves_def frozen_part_def settled_def cancel_row_def)

lemma delete_row_evolves: "j_status j \<noteq> Deleted \<Longrightarrow> job_evolves j (delete_row now j)"
  by (auto simp: job_evolves_def frozen_part_def delete_row_def)

section \<open>One database transaction\<close>

definition att_ids :: "attempt_row list \<Rightarrow> ((string \<times> string) \<times> (string \<times> string \<times> int)) set" where
  "att_ids ats = (\<lambda>a. (attempt_key a, attempt_slot a)) ` set ats"

text \<open>
  What a transaction does to the rows: each old row evolves, each new row either evolved from an
  old one or is a fresh queued job, and no attempt row disappears.
\<close>

definition rows_next :: "job_row list \<Rightarrow> job_row list \<Rightarrow> bool" where
  "rows_next js js' \<longleftrightarrow>
     (\<forall>j\<in>set js. \<exists>j'\<in>set js'. job_evolves j j') \<and>
     (\<forall>j'\<in>set js'. (\<exists>j\<in>set js. job_evolves j j') \<or>
        (job_key j' \<notin> job_key ` set js \<and> j_status j' = Queued \<and> j_fence j' = 0))"

definition db_next :: "jobs_db \<Rightarrow> jobs_db \<Rightarrow> bool" where
  "db_next db db' \<longleftrightarrow>
     db_inv db' \<and> rows_next (d_jobs db) (d_jobs db') \<and>
     att_ids (d_attempts db) \<subseteq> att_ids (d_attempts db')"

lemma rows_next_refl: "rows_next js js"
  unfolding rows_next_def using job_evolves_refl by blast

lemma db_next_refl: "db_inv db \<Longrightarrow> db_next db db"
  by (simp add: db_next_def rows_next_refl)

lemma rows_next_upd:
  assumes "\<And>j. j \<in> set js \<Longrightarrow> P j \<Longrightarrow> job_evolves j (f j)"
  shows "rows_next js (upd_rows P f js)"
proof -
  have e: "job_evolves j (if P j then f j else j)" if "j \<in> set js" for j
    using assms[OF that] by simp
  have fwd: "\<exists>j'\<in>set (upd_rows P f js). job_evolves j j'" if "j \<in> set js" for j
    using e[OF that] upd_rows_in[OF that, of P f] by blast
  have bwd: "\<exists>j\<in>set js. job_evolves j j'" if "j' \<in> set (upd_rows P f js)" for j'
    using that by (rule in_upd_rowsE) (use e in blast)
  show ?thesis unfolding rows_next_def using fwd bwd by blast
qed

lemma att_ids_upd: "closes_attempt g \<Longrightarrow> att_ids (upd_rows Q g ats) = att_ids ats"
proof -
  assume "closes_attempt g"
  then have "attempt_key (g a) = attempt_key a" "attempt_slot (g a) = attempt_slot a" for a
    unfolding closes_attempt_def by blast+
  then have "map (\<lambda>a. (attempt_key a, attempt_slot a)) (upd_rows Q g ats)
      = map (\<lambda>a. (attempt_key a, attempt_slot a)) ats"
    by (intro map_upd_rows) simp
  then show ?thesis by (simp only: att_ids_def set_map[symmetric])
qed

lemma claim_bound_ids:
  "claim_bound ats t i fence att \<longleftrightarrow> ((t, att), (t, i, fence)) \<in> att_ids ats"
  unfolding claim_bound_def att_ids_def image_iff
  by (rule bex_cong[OF refl]) (auto simp: attempt_key_def attempt_slot_def)

lemma db_next_rows:
  assumes "db_inv (db\<lparr>d_jobs := upd_rows P f (d_jobs db)\<rparr>)"
    and "\<And>j. j \<in> set (d_jobs db) \<Longrightarrow> P j \<Longrightarrow> job_evolves j (f j)"
  shows "db_next db (db\<lparr>d_jobs := upd_rows P f (d_jobs db)\<rparr>)"
  using assms by (simp add: db_next_def rows_next_upd)

lemma fenced_Inr:
  "fenced db P f = Inr db' \<longleftrightarrow>
     db' = db\<lparr>d_jobs := upd_rows P f (d_jobs db)\<rparr> \<and> (\<exists>j\<in>set (d_jobs db). P j)"
  by (auto simp: fenced_def count_rows_0_iff)

lemma fenced_Inl: "fenced db P f = Inl e \<longleftrightarrow> e = ErrStaleFence \<and> (\<forall>j\<in>set (d_jobs db). \<not> P j)"
  by (auto simp: fenced_def count_rows_0_iff)

lemma finish_attempt_Inr:
  "finish_attempt db t att g = Inr db' \<longleftrightarrow>
     db' = db\<lparr>d_attempts := upd_rows (is_open_attempt t att) g (d_attempts db)\<rparr> \<and>
     (\<exists>a\<in>set (d_attempts db). is_open_attempt t att a)"
  by (auto simp: finish_attempt_def count_rows_0_iff)

lemma holds_lease_running: "holds_lease t i owner fence j \<Longrightarrow> j_status j = Running"
  by (simp add: holds_lease_def)

lemma lease_kept:
  assumes "db_inv db" and "j \<in> set (d_jobs db)" and "holds_lease t i owner fence j"
  shows "j_lease_owner j \<noteq> None \<and> j_lease_expires j \<noteq> None"
proof -
  have "lease_ok (d_attempts db) j" using assms(1,2) by (simp add: db_inv_def)
  then show ?thesis using assms(3) by (simp add: lease_ok_def holds_lease_def)
qed

lemma dispatch_kept:
  "db_inv db \<Longrightarrow> j \<in> set (d_jobs db) \<Longrightarrow> j_dispatched j = Some d \<Longrightarrow>
   \<exists>a\<in>set (d_attempts db). attempt_key a = (j_tenant j, d) \<and> current a j"
  by (simp add: db_inv_def dispatch_ok_def)

lemma db_next_ExtendLease:
  assumes inv: "db_inv db" and r: "ExtendLease db t i owner fence ttl now = Inr (db', e)"
  shows "db_next db db'"
proof -
  have db': "db' = db\<lparr>d_jobs := upd_rows (holds_lease t i owner fence)
      (\<lambda>j. j\<lparr>j_lease_expires := Some (now + ttl)\<rparr>) (d_jobs db)\<rparr>"
    using r by (auto simp: ExtendLease_def bind_r_Inr fenced_Inr)
  show ?thesis unfolding db'
  proof (rule db_next_rows)
    show "db_inv (db\<lparr>d_jobs := upd_rows (holds_lease t i owner fence)
        (\<lambda>j. j\<lparr>j_lease_expires := Some (now + ttl)\<rparr>) (d_jobs db)\<rparr>)"
      by (rule db_inv_rows[OF inv keeps_job_rows(1)])
         (use lease_kept[OF inv] dispatch_kept[OF inv] holds_lease_running in \<open>auto simp: live_def\<close>)
  qed (rule leased_row_evolves(1)[OF holds_lease_running])
qed

lemma db_next_WriteProgress:
  assumes inv: "db_inv db" and r: "WriteProgress db t i owner fence pr = Inr db'"
  shows "db_next db db'"
proof -
  have db': "db' = db\<lparr>d_jobs := upd_rows (holds_lease t i owner fence)
      (\<lambda>j. j\<lparr>j_progress := pr\<rparr>) (d_jobs db)\<rparr>"
    using r by (auto simp: WriteProgress_def fenced_Inr)
  show ?thesis unfolding db'
  proof (rule db_next_rows)
    show "db_inv (db\<lparr>d_jobs := upd_rows (holds_lease t i owner fence)
        (\<lambda>j. j\<lparr>j_progress := pr\<rparr>) (d_jobs db)\<rparr>)"
      by (rule db_inv_rows[OF inv keeps_job_rows(2)])
         (use lease_kept[OF inv] dispatch_kept[OF inv] holds_lease_running in \<open>auto simp: live_def\<close>)
  qed (rule leased_row_evolves(2)[OF holds_lease_running])
qed

lemma db_next_MarkDispatched:
  assumes inv: "db_inv db" and cb: "claim_bound (d_attempts db) t i fence att"
    and r: "MarkDispatchedJob db t i owner fence att = Inr db'"
  shows "db_next db db'"
proof -
  have db': "db' = db\<lparr>d_jobs := upd_rows (holds_lease t i owner fence)
      (\<lambda>j. j\<lparr>j_dispatched := Some att\<rparr>) (d_jobs db)\<rparr>"
    using r by (auto simp: MarkDispatchedJob_def bind_r_Inr fenced_Inr split: if_splits)
  have d: "\<exists>a\<in>set (d_attempts db). attempt_key a = (j_tenant j, att) \<and> current a j"
    if h: "holds_lease t i owner fence j" for j
  proof -
    have "j_tenant j = t" using h by (simp add: holds_lease_def is_job_def)
    then show ?thesis using claim_attempt_current[OF cb h] by metis
  qed
  show ?thesis unfolding db'
  proof (rule db_next_rows)
    show "db_inv (db\<lparr>d_jobs := upd_rows (holds_lease t i owner fence)
        (\<lambda>j. j\<lparr>j_dispatched := Some att\<rparr>) (d_jobs db)\<rparr>)"
      by (rule db_inv_rows[OF inv keeps_job_rows(3)])
         (use lease_kept[OF inv] d holds_lease_running in \<open>auto simp: live_def\<close>)
  qed (rule leased_row_evolves(3)[OF holds_lease_running])
qed

lemma db_next_finish:
  assumes inv: "db_inv db" and cb: "claim_bound (d_attempts db) t i fence att"
    and f: "keeps_job f" and g: "closes_attempt g"
    and h: "\<exists>j\<in>set (d_jobs db). holds_lease t i owner fence j"
    and fin: "\<And>j. j_status (f j) \<noteq> Running \<and> j_lease_owner (f j) = None \<and>
      (j_dispatched (f j) = None \<or> j_dispatched (f j) = j_dispatched j)"
    and ev: "\<And>j. j_status j = Running \<Longrightarrow> job_evolves j (f j)"
  shows "db_next db \<lparr>d_jobs = upd_rows (holds_lease t i owner fence) f (d_jobs db),
                     d_attempts = upd_rows (is_open_attempt t att) g (d_attempts db)\<rparr>"
proof -
  obtain j0 where j0: "j0 \<in> set (d_jobs db)" "holds_lease t i owner fence j0" using h by blast
  have "rows_next (d_jobs db) (upd_rows (holds_lease t i owner fence) f (d_jobs db))"
    by (rule rows_next_upd) (rule ev[OF holds_lease_running])
  then show ?thesis
    using db_inv_finish[OF inv cb f g j0 fin] att_ids_upd[OF g] by (simp add: db_next_def)
qed

lemma finishing_row:
  "j_status (complete_row ref now j) \<noteq> Running \<and> j_lease_owner (complete_row ref now j) = None \<and>
     (j_dispatched (complete_row ref now j) = None \<or> j_dispatched (complete_row ref now j) = j_dispatched j)"
  "j_status (fail_row retry nb doc now j) \<noteq> Running \<and> j_lease_owner (fail_row retry nb doc now j) = None \<and>
     (j_dispatched (fail_row retry nb doc now j) = None \<or>
      j_dispatched (fail_row retry nb doc now j) = j_dispatched j)"
  "j_status (release_row j) \<noteq> Running \<and> j_lease_owner (release_row j) = None \<and>
     (j_dispatched (release_row j) = None \<or> j_dispatched (release_row j) = j_dispatched j)"
  "j_status (unknown_row doc now j) \<noteq> Running \<and> j_lease_owner (unknown_row doc now j) = None \<and>
     (j_dispatched (unknown_row doc now j) = None \<or> j_dispatched (unknown_row doc now j) = j_dispatched j)"
  by (simp_all add: complete_row_def fail_row_def release_row_def unknown_row_def)

lemma CompleteJob_Inr:
  "CompleteJob db t i owner fence att ref now = Inr (db', st) \<longleftrightarrow>
     (\<exists>j. find_row (holds_lease t i owner fence) (d_jobs db) = Some j \<and>
          st = j_status (complete_row ref now j)) \<and>
     (\<exists>a\<in>set (d_attempts db). is_open_attempt t att a) \<and>
     db' = \<lparr>d_jobs = upd_rows (holds_lease t i owner fence) (complete_row ref now) (d_jobs db),
            d_attempts = upd_rows (is_open_attempt t att)
              (\<lambda>a. a\<lparr>a_status := AttSucceeded, a_finished := Some now\<rparr>) (d_attempts db)\<rparr>"
  by (cases db) (auto simp: CompleteJob_def bind_r_Inr finish_attempt_Inr Let_def split: option.splits)

lemma db_next_CompleteJob:
  assumes inv: "db_inv db" and cb: "claim_bound (d_attempts db) t i fence att"
    and r: "CompleteJob db t i owner fence att ref now = Inr (db', st)"
  shows "db_next db db'"
proof -
  have h: "\<exists>j\<in>set (d_jobs db). holds_lease t i owner fence j"
    using r by (auto simp: CompleteJob_Inr dest: find_row_Some)
  have db': "db' = \<lparr>d_jobs = upd_rows (holds_lease t i owner fence) (complete_row ref now) (d_jobs db),
            d_attempts = upd_rows (is_open_attempt t att)
              (\<lambda>a. a\<lparr>a_status := AttSucceeded, a_finished := Some now\<rparr>) (d_attempts db)\<rparr>"
    using r by (simp only: CompleteJob_Inr)
  show ?thesis unfolding db'
    by (rule db_next_finish[OF inv cb keeps_job_rows(4) closes_attempts(2) h finishing_row(1)
          leased_row_evolves(4)])
qed

lemma FailJob_Inr:
  "FailJob db t i owner fence att retry nb doc now = Inr db' \<longleftrightarrow>
     (\<exists>j\<in>set (d_jobs db). holds_lease t i owner fence j) \<and>
     (\<exists>a\<in>set (d_attempts db). is_open_attempt t att a) \<and>
     db' = \<lparr>d_jobs = upd_rows (holds_lease t i owner fence) (fail_row retry nb doc now) (d_jobs db),
            d_attempts = upd_rows (is_open_attempt t att)
              (\<lambda>a. a\<lparr>a_status := AttFailed, a_finished := Some now, a_error := Some doc\<rparr>) (d_attempts db)\<rparr>"
  by (cases db) (auto simp: FailJob_def bind_r_Inr fenced_Inr finish_attempt_Inr)

lemma db_next_FailJob:
  assumes inv: "db_inv db" and cb: "claim_bound (d_attempts db) t i fence att"
    and r: "FailJob db t i owner fence att retry nb doc now = Inr db'"
  shows "db_next db db'"
proof -
  note facts = r[unfolded FailJob_Inr]
  have h: "\<exists>j\<in>set (d_jobs db). holds_lease t i owner fence j" using facts by blast
  show ?thesis
    using db_next_finish[OF inv cb keeps_job_rows(5) closes_attempts(3) h finishing_row(2)
        leased_row_evolves(5)] facts
    by (elim conjE) (simp only:)
qed

lemma ReleaseJob_Inr:
  "ReleaseJob db t i owner fence att now = Inr db' \<longleftrightarrow>
     (\<exists>j\<in>set (d_jobs db). holds_lease t i owner fence j) \<and>
     db' = \<lparr>d_jobs = upd_rows (holds_lease t i owner fence) release_row (d_jobs db),
            d_attempts = upd_rows (is_open_attempt t att) (close_attempt now) (d_attempts db)\<rparr>"
  by (cases db) (auto simp: ReleaseJob_def bind_r_Inr fenced_Inr)

lemma db_next_ReleaseJob:
  assumes inv: "db_inv db" and cb: "claim_bound (d_attempts db) t i fence att"
    and r: "ReleaseJob db t i owner fence att now = Inr db'"
  shows "db_next db db'"
proof -
  note facts = r[unfolded ReleaseJob_Inr]
  have h: "\<exists>j\<in>set (d_jobs db). holds_lease t i owner fence j" using facts by blast
  show ?thesis
    using db_next_finish[OF inv cb keeps_job_rows(6) closes_attempts(1) h finishing_row(3)
        leased_row_evolves(6)] facts
    by (elim conjE) (simp only:)
qed

lemma MarkUnknownJob_Inr:
  "MarkUnknownJob db t i owner fence att doc now = Inr db' \<longleftrightarrow>
     (\<exists>j\<in>set (d_jobs db). holds_lease t i owner fence j) \<and>
     (\<exists>a\<in>set (d_attempts db). is_open_attempt t att a) \<and>
     db' = \<lparr>d_jobs = upd_rows (holds_lease t i owner fence) (unknown_row doc now) (d_jobs db),
            d_attempts = upd_rows (is_open_attempt t att)
              (\<lambda>a. a\<lparr>a_status := AttUnknown, a_finished := Some now, a_error := Some doc\<rparr>) (d_attempts db)\<rparr>"
  by (cases db) (auto simp: MarkUnknownJob_def bind_r_Inr fenced_Inr finish_attempt_Inr)

lemma db_next_MarkUnknownJob:
  assumes inv: "db_inv db" and cb: "claim_bound (d_attempts db) t i fence att"
    and r: "MarkUnknownJob db t i owner fence att doc now = Inr db'"
  shows "db_next db db'"
proof -
  note facts = r[unfolded MarkUnknownJob_Inr]
  have h: "\<exists>j\<in>set (d_jobs db). holds_lease t i owner fence j" using facts by blast
  show ?thesis
    using db_next_finish[OF inv cb keeps_job_rows(7) closes_attempts(3) h finishing_row(4)
        leased_row_evolves(7)] facts
    by (elim conjE) (simp only:)
qed

lemma db_next_CancelJob:
  assumes inv: "db_inv db" and r: "CancelJob db t i now = Inr db'"
  shows "db_next db db'"
proof -
  let ?P = "\<lambda>j. is_job t i j \<and> j_status j \<in> {Queued, Running}"
  have db': "db' = db\<lparr>d_jobs := upd_rows ?P (cancel_row now) (d_jobs db)\<rparr>"
    using r by (auto simp: CancelJob_def Let_def split: if_splits)
  have own: "j_lease_owner j = None" if "j \<in> set (d_jobs db)" "j_status j = Queued" for j
    using inv that by (auto simp: db_inv_def lease_ok_def live_def)
  have run: "j_lease_owner j \<noteq> None \<and> j_lease_expires j \<noteq> None"
    if "j \<in> set (d_jobs db)" "j_status j = Running" for j
    using inv that by (auto simp: db_inv_def lease_ok_def)
  show ?thesis unfolding db'
  proof (rule db_next_rows)
    show "db_inv (db\<lparr>d_jobs := upd_rows ?P (cancel_row now) (d_jobs db)\<rparr>)"
    proof (rule db_inv_rows[OF inv keeps_job_rows(8)])
      fix j assume "j \<in> set (d_jobs db)" "?P j"
      then show "(j_status (cancel_row now j) = Running \<longrightarrow> j_status j = Running \<and>
            j_lease_owner (cancel_row now j) \<noteq> None \<and> j_lease_expires (cancel_row now j) \<noteq> None) \<and>
          (\<not> live (j_status (cancel_row now j)) \<longrightarrow> j_lease_owner (cancel_row now j) = None)"
        using run own by (auto simp: cancel_row_def live_def)
    next
      fix j d assume "j \<in> set (d_jobs db)" "j_dispatched (cancel_row now j) = Some d"
      then show "\<exists>a\<in>set (d_attempts db). attempt_key a = (j_tenant j, d) \<and> current a j"
        using dispatch_kept[OF inv] by (simp add: cancel_row_def)
    next
      fix j :: job_row assume "live (j_status j)"
      then show "live (j_status (cancel_row now j))" by (auto simp: cancel_row_def live_def)
    qed
  qed (rule cancel_row_evolves, simp)
qed

lemma db_next_DeleteJob:
  assumes inv: "db_inv db" and r: "DeleteJob db t i now = Inr db'"
  shows "db_next db db'"
proof -
  let ?P = "\<lambda>j. is_job t i j \<and> j_status j \<noteq> Deleted"
  have db': "db' = db\<lparr>d_jobs := upd_rows ?P (delete_row now) (d_jobs db)\<rparr>"
    using r by (auto simp: DeleteJob_def Let_def split: if_splits)
  show ?thesis unfolding db'
  proof (rule db_next_rows)
    show "db_inv (db\<lparr>d_jobs := upd_rows ?P (delete_row now) (d_jobs db)\<rparr>)"
      by (rule db_inv_rows[OF inv keeps_job_rows(9)])
         (use dispatch_kept[OF inv] in \<open>simp_all add: delete_row_def live_def\<close>)
  qed (rule delete_row_evolves, simp)
qed

lemma claimable_not_settled: "claimable now ats c \<Longrightarrow> \<not> settled (j_status c)"
  by (auto simp: claimable_def settled_def)

lemma rows_next_trans:
  assumes "rows_next a b" and "rows_next b c" and "job_key ` set a = job_key ` set b"
  shows "rows_next a c"
  unfolding rows_next_def
proof (intro conjI ballI)
  fix j assume "j \<in> set a"
  then show "\<exists>j'\<in>set c. job_evolves j j'"
    using assms(1,2) job_evolves_trans unfolding rows_next_def by meson
next
  fix j'' assume "j'' \<in> set c"
  with assms(2) consider j' where "j' \<in> set b" "job_evolves j' j''"
    | "job_key j'' \<notin> job_key ` set b" "j_status j'' = Queued" "j_fence j'' = 0"
    unfolding rows_next_def by blast
  then show "(\<exists>j\<in>set a. job_evolves j j'') \<or>
      (job_key j'' \<notin> job_key ` set a \<and> j_status j'' = Queued \<and> j_fence j'' = 0)"
  proof cases
    case 1
    have "job_key j' \<in> job_key ` set a" using assms(3) 1(1) by simp
    then have "\<exists>j\<in>set a. job_evolves j j'" using assms(1) 1(1) unfolding rows_next_def by blast
    then show ?thesis using 1(2) job_evolves_trans by blast
  next
    case 2
    then show ?thesis using assms(3) by simp
  qed
qed

lemma job_keys_upd: "(\<And>j. P j \<Longrightarrow> job_key (f j) = job_key j) \<Longrightarrow> job_key ` set (upd_rows P f js) = job_key ` set js"
  by (simp only: set_map[symmetric] map_upd_rows)

lemma sweepable_running: "sweepable now ats j \<Longrightarrow> j_status j = Running"
  by (simp add: sweepable_def)

lemma sweep_next:
  "rows_next (d_jobs db) (d_jobs (sweep now db))"
  "job_key ` set (d_jobs (sweep now db)) = job_key ` set (d_jobs db)"
  "att_ids (d_attempts (sweep now db)) = att_ids (d_attempts db)"
proof -
  show "rows_next (d_jobs db) (d_jobs (sweep now db))"
    by (simp add: sweep_eq) (rule rows_next_upd, rule leased_row_evolves(8), rule sweepable_running)
  show "job_key ` set (d_jobs (sweep now db)) = job_key ` set (d_jobs db)"
    by (simp add: sweep_eq) (rule job_keys_upd, simp add: sweep_row_def job_key_def)
  show "att_ids (d_attempts (sweep now db)) = att_ids (d_attempts db)"
    by (simp add: sweep_eq att_ids_upd closes_close)
qed

lemma db_next_ClaimJob:
  assumes inv: "db_inv db" and r: "ClaimJob db worker ttl now locked att = Inr (db', out)"
  shows "db_next db db'"
  using r
proof (cases rule: ClaimJob_cases)
  case idle
  then show ?thesis using db_inv_ClaimJob[OF inv r] sweep_next by (simp add: db_next_def)
next
  case (grant c)
  let ?db1 = "sweep now db"
  have c: "c \<in> set (d_jobs ?db1)" "\<not> settled (j_status c)"
    using next_job_Some[OF grant(1)] claimable_not_settled by blast+
  have one: "j = c" if "j \<in> set (d_jobs ?db1)" "job_key j = job_key c" for j
    using job_unique[OF db_inv_sweep[OF inv] that(1) c(1) that(2)] .
  have "rows_next (d_jobs ?db1) (d_jobs db')"
    unfolding grant(2) granted_def jobs_db.simps
    by (rule rows_next_upd) (use one c(2) grant_row_evolves in blast)
  then have "rows_next (d_jobs db) (d_jobs db')"
    using rows_next_trans[OF sweep_next(1)] sweep_next(2) by metis
  moreover have "att_ids (d_attempts db) \<subseteq> att_ids (d_attempts db')"
  proof -
    have "att_ids (d_attempts db) = att_ids (upd_rows (\<lambda>a. same_job a c \<and> a_finished a = None)
        (close_attempt now) (d_attempts ?db1))"
      by (simp add: att_ids_upd closes_close sweep_next(3))
    also have "\<dots> \<subseteq> att_ids (d_attempts db')" unfolding grant(2) granted_def by (auto simp: att_ids_def)
    finally show ?thesis .
  qed
  ultimately show ?thesis using db_inv_ClaimJob[OF inv r] by (simp add: db_next_def)
qed

text \<open>The attempt of a granted claim is bound to it.\<close>

lemma ClaimJob_bound:
  assumes "ClaimJob db worker ttl now locked att = Inr (db', Some cj)"
  shows "claim_bound (d_attempts db') (j_tenant (cj_row cj)) (l_job (cj_lease cj))
           (l_fence (cj_lease cj)) (cj_attempt cj) \<and>
         cj_attempt cj = att \<and> l_owner (cj_lease cj) = worker \<and>
         l_job (cj_lease cj) = j_id (cj_row cj) \<and> l_fence (cj_lease cj) = j_fence (cj_row cj)"
  using assms
proof (cases rule: ClaimJob_cases)
  case idle
  then show ?thesis by simp
next
  case (grant c)
  then show ?thesis
    by (auto simp: claim_bound_def granted_def new_attempt_def grant_row_def attempt_key_def)
qed

lemma InsertJob_new:
  "InsertJob uuid_ok db r now = Inr (db', None) \<longleftrightarrow>
     uuid_ok (ir_tenant r) \<and> db' = db\<lparr>d_jobs := d_jobs db @ [row_of_record r now]\<rparr> \<and>
     (\<forall>j\<in>set (d_jobs db). \<not> idem_match r j \<and> job_key j \<noteq> (ir_tenant r, ir_id r))"
  by (auto simp: InsertJob_def list_ex_iff split: option.splits)

lemma InsertJob_old:
  "InsertJob uuid_ok db r now = Inr (db', Some (j, same)) \<Longrightarrow>
     db' = db \<and> find_row (idem_match r) (d_jobs db) = Some j \<and> same = same_key r j"
  by (auto simp: InsertJob_def split: option.splits if_splits)

lemma row_of_record_keys:
  "job_key (row_of_record r now) = (ir_tenant r, ir_id r)"
  "idem_key (row_of_record r now) = (ir_tenant r, ir_operation r, ir_idem r)"
  "j_status (row_of_record r now) = Queued" "j_fence (row_of_record r now) = 0"
  "j_attempts (row_of_record r now) = 0" "j_lease_owner (row_of_record r now) = None"
  "j_dispatched (row_of_record r now) = None"
  by (simp_all add: row_of_record_def job_key_def idem_key_def)

lemma db_inv_insert:
  assumes inv: "db_inv db"
    and fresh: "\<forall>j\<in>set (d_jobs db). \<not> idem_match r j \<and> job_key j \<noteq> (ir_tenant r, ir_id r)"
  shows "db_inv (db\<lparr>d_jobs := d_jobs db @ [row_of_record r now]\<rparr>)"
proof -
  let ?n = "row_of_record r now"
  have keys: "db_keys (db\<lparr>d_jobs := d_jobs db @ [?n]\<rparr>)"
    using inv fresh by (auto simp: db_inv_defs row_of_record_keys idem_match_def)
  have none: "\<not> same_job a ?n" if a: "a \<in> set (d_attempts db)" for a
  proof
    assume s: "same_job a ?n"
    obtain j where j: "j \<in> set (d_jobs db)" "same_job a j"
      using inv a by (auto simp: db_inv_def attempt_ok_def)
    have "job_key j = job_key ?n" using same_job_key[OF j(2)] s by blast
    then show False using fresh j(1) row_of_record_keys(1) by metis
  qed
  then have "count_rows (\<lambda>a. same_job a ?n) (d_attempts db) = 0" by (simp add: count_rows_0_iff)
  then have "lease_ok (d_attempts db) ?n \<and> dispatch_ok (d_attempts db) ?n \<and> count_ok (d_attempts db) ?n"
    by (simp add: lease_ok_def dispatch_ok_def count_ok_def row_of_record_keys live_def)
  moreover have "attempt_ok (d_jobs db @ [?n]) a" if "a \<in> set (d_attempts db)" for a
    using inv that by (auto simp: db_inv_def attempt_ok_def)
  ultimately show ?thesis using inv keys by (auto simp: db_inv_def)
qed

lemma db_next_InsertJob:
  assumes inv: "db_inv db" and r: "InsertJob uuid_ok db r now = Inr (db', out)"
  shows "db_next db db'"
proof (cases out)
  case None
  with r have i: "db' = db\<lparr>d_jobs := d_jobs db @ [row_of_record r now]\<rparr>"
      "\<forall>j\<in>set (d_jobs db). \<not> idem_match r j \<and> job_key j \<noteq> (ir_tenant r, ir_id r)"
    by (auto simp: InsertJob_new)
  have "rows_next (d_jobs db) (d_jobs db @ [row_of_record r now])"
    unfolding rows_next_def
  proof (intro conjI ballI)
    fix j assume "j \<in> set (d_jobs db)"
    then show "\<exists>j'\<in>set (d_jobs db @ [row_of_record r now]). job_evolves j j'"
      by (intro bexI[of _ j]) simp_all
  next
    fix j' assume j': "j' \<in> set (d_jobs db @ [row_of_record r now])"
    show "(\<exists>j\<in>set (d_jobs db). job_evolves j j') \<or>
        (job_key j' \<notin> job_key ` set (d_jobs db) \<and> j_status j' = Queued \<and> j_fence j' = 0)"
    proof (cases "j' \<in> set (d_jobs db)")
      case True
      then show ?thesis using job_evolves_refl by blast
    next
      case False
      then have "j' = row_of_record r now" using j' by simp
      then show ?thesis using i(2) by (auto simp: row_of_record_keys)
    qed
  qed
  then show ?thesis using db_inv_insert[OF inv i(2)] i(1) by (simp add: db_next_def)
next
  case (Some x)
  then obtain j same where x: "out = Some (j, same)" by (cases x) auto
  have "db' = db" using InsertJob_old[OF r[unfolded x]] by blast
  then show ?thesis using db_next_refl[OF inv] by simp
qed

section \<open>The system invariant\<close>

definition claim_ok :: "attempt_row list \<Rightarrow> claim \<Rightarrow> bool" where
  "claim_ok ats c \<longleftrightarrow>
     claim_bound ats (jb_tenant (c_job c)) (l_job (c_lease c)) (l_fence (c_lease c)) (c_attempt c) \<and>
     l_job (c_lease c) = jb_id (c_job c) \<and> l_fence (c_lease c) = jb_fence (c_job c)"

definition jobs_inv :: "jobs_state \<Rightarrow> bool" where
  "jobs_inv s \<longleftrightarrow> db_inv (js_db s) \<and> (\<forall>c\<in>set (js_claims s). claim_ok (d_attempts (js_db s)) c)"

lemma claim_ok_mono: "att_ids ats \<subseteq> att_ids ats' \<Longrightarrow> claim_ok ats c \<Longrightarrow> claim_ok ats' c"
  by (auto simp: claim_ok_def claim_bound_ids)

lemma jobs_inv_init: "jobs_inv init_jobs"
  by (simp add: jobs_inv_def init_jobs_def db_inv_empty)

text \<open>Every step is the identity or one transaction, and claims only grow or are refreshed.\<close>

definition state_next :: "jobs_state \<Rightarrow> jobs_state \<Rightarrow> bool" where
  "state_next s s' \<longleftrightarrow> db_next (js_db s) (js_db s') \<and> jobs_inv s'"

lemma state_next_refl: "jobs_inv s \<Longrightarrow> state_next s s"
  by (simp add: state_next_def jobs_inv_def db_next_refl)

lemma state_next_set_db:
  assumes "jobs_inv s" and "\<And>db'. r = Inr db' \<Longrightarrow> db_next (js_db s) db'"
  shows "state_next s (set_db s r)"
proof (cases r)
  case (Inl e)
  then have "set_db s r = s" by (simp add: set_db_def keep_db_def)
  then show ?thesis using state_next_refl[OF assms(1)] by simp
next
  case (Inr db')
  have "db_next (js_db s) db'" using assms(2)[OF Inr] .
  then show ?thesis using assms(1) Inr
    by (auto simp: state_next_def jobs_inv_def set_db_def keep_db_def db_next_def intro: claim_ok_mono)
qed

lemma set_list_update_le: "x \<in> set (xs[n := y]) \<Longrightarrow> x = y \<or> x \<in> set xs"
  using set_update_subset_insert by fastforce

lemma state_next_set_claim:
  assumes "jobs_inv s" and "n < length (js_claims s)"
    and "\<And>db' c'. r = Inr (db', c') \<Longrightarrow> db_next (js_db s) db' \<and>
       (\<forall>ats. claim_ok ats (js_claims s ! n) \<longrightarrow> claim_ok ats c')"
  shows "state_next s (set_claim s n r)"
proof (cases r)
  case (Inl e)
  then show ?thesis using state_next_refl[OF assms(1)] by (simp add: set_claim_def)
next
  case (Inr x)
  then obtain db' c' where x: "r = Inr (db', c')" by (cases x) auto
  note n = assms(3)[OF x]
  have cs: "claim_ok (d_attempts db') c" if "c \<in> set (js_claims s)" for c
    using assms(1) that n by (auto simp: jobs_inv_def db_next_def intro: claim_ok_mono)
  have "claim_ok (d_attempts db') c" if "c \<in> set ((js_claims s)[n := c'])" for c
    using set_list_update_le[OF that] cs n assms(2) nth_mem by metis
  then show ?thesis using x n by (auto simp: state_next_def jobs_inv_def set_claim_def db_next_def)
qed

lemma state_next_with_claim:
  assumes "jobs_inv s"
    and "\<And>c. n < length (js_claims s) \<Longrightarrow> js_claims s ! n = c \<Longrightarrow>
       claim_bound (d_attempts (js_db s)) (jb_tenant (c_job c)) (l_job (c_lease c))
         (l_fence (c_lease c)) (c_attempt c) \<Longrightarrow> state_next s (f c)"
  shows "state_next s (with_claim s n f)"
proof (cases "n < length (js_claims s)")
  case True
  then have "claim_ok (d_attempts (js_db s)) (js_claims s ! n)"
    using assms(1) by (simp add: jobs_inv_def)
  then have "state_next s (f (js_claims s ! n))"
    unfolding claim_ok_def by (elim conjE) (rule assms(2)[OF True refl])
  then show ?thesis using True by (simp add: with_claim_def)
next
  case False
  then show ?thesis using state_next_refl[OF assms(1)] by (simp add: with_claim_def)
qed

lemma claim_ok_cong:
  "jb_tenant (c_job c') = jb_tenant (c_job c) \<Longrightarrow> jb_id (c_job c') = jb_id (c_job c) \<Longrightarrow>
   jb_fence (c_job c') = jb_fence (c_job c) \<Longrightarrow> l_job (c_lease c') = l_job (c_lease c) \<Longrightarrow>
   l_fence (c_lease c') = l_fence (c_lease c) \<Longrightarrow> c_attempt c' = c_attempt c \<Longrightarrow>
   claim_ok ats c' = claim_ok ats c"
  by (simp add: claim_ok_def)

lemma state_next_lease:
  assumes inv: "jobs_inv s"
  shows "state_next s (jobs_step dig uuid_ok base s (EvLease w ttl now locked att))"
proof (cases "ClaimJob (js_db s) w ttl now locked att")
  case (Inl e)
  then show ?thesis using state_next_refl[OF inv] by (simp add: Lease_def)
next
  case (Inr x)
  then obtain db' out where r: "ClaimJob (js_db s) w ttl now locked att = Inr (db', out)"
    by (cases x) auto
  have db: "db_inv (js_db s)" using inv by (simp add: jobs_inv_def)
  have nx: "db_next (js_db s) db'" using db_next_ClaimJob[OF db r] .
  have cs: "claim_ok (d_attempts db') c" if "c \<in> set (js_claims s)" for c
    using inv that nx by (auto simp: jobs_inv_def db_next_def intro: claim_ok_mono)
  show ?thesis
  proof (cases out)
    case None
    then show ?thesis using r nx cs by (auto simp: Lease_def state_next_def jobs_inv_def db_next_def)
  next
    case (Some cj)
    let ?c = "\<lparr>c_lease = cj_lease cj, c_job = scanJobRow (cj_row cj), c_attempt = cj_attempt cj,
        c_dispatched = False\<rparr>"
    have "claim_ok (d_attempts db') ?c"
      using ClaimJob_bound[OF r[unfolded Some]] by (auto simp: claim_ok_def scanJobRow_def)
    then show ?thesis using r nx cs Some
      by (auto simp: Lease_def state_next_def jobs_inv_def db_next_def)
  qed
qed

lemma jobs_step_next:
  assumes inv: "jobs_inv s"
  shows "state_next s (jobs_step dig uuid_ok base s ev)"
proof (cases ev)
  case (EvLease w ttl now locked att)
  then show ?thesis using state_next_lease[OF inv] by simp
next
  case (EvEnqueue p req i now)
  show ?thesis unfolding EvEnqueue jobs_step.simps
    by (rule state_next_set_db[OF inv])
       (use inv in \<open>auto simp: jobs_inv_def Enqueue_def bind_r_Inr Let_def
         split: if_splits option.splits prod.splits intro: db_next_InsertJob\<close>)
next
  case (EvHeartbeat n ttl now)
  show ?thesis unfolding EvHeartbeat jobs_step.simps
    by (rule state_next_with_claim[OF inv], rule state_next_set_claim[OF inv])
       (use inv in \<open>auto simp: jobs_inv_def Heartbeat_def bind_r_Inr claim_ok_def
         intro: db_next_ExtendLease\<close>)
next
  case (EvProgress n pct msg stamp)
  show ?thesis unfolding EvProgress jobs_step.simps
    by (rule state_next_with_claim[OF inv], rule state_next_set_db[OF inv])
       (use inv in \<open>auto simp: jobs_inv_def Progress_def intro: db_next_WriteProgress\<close>)
next
  case (EvMarkDispatched n)
  show ?thesis unfolding EvMarkDispatched jobs_step.simps
    by (rule state_next_with_claim[OF inv], rule state_next_set_claim[OF inv])
       (use inv in \<open>auto simp: jobs_inv_def MarkDispatched_def bind_r_Inr claim_ok_def
         intro: db_next_MarkDispatched\<close>)
next
  case (EvComplete n ref now)
  show ?thesis unfolding EvComplete jobs_step.simps
    by (rule state_next_with_claim[OF inv], rule state_next_set_db[OF inv])
       (use inv in \<open>auto simp: jobs_inv_def Complete_def bind_r_Inr intro: db_next_CompleteJob\<close>)
next
  case (EvFail n cause cls wall now)
  show ?thesis unfolding EvFail jobs_step.simps
    by (rule state_next_with_claim[OF inv], rule state_next_set_db[OF inv])
       (use inv in \<open>auto simp: jobs_inv_def Fail_def intro: db_next_FailJob\<close>)
next
  case (EvMarkUnknown n reason now)
  show ?thesis unfolding EvMarkUnknown jobs_step.simps
    by (rule state_next_with_claim[OF inv], rule state_next_set_db[OF inv])
       (use inv in \<open>auto simp: jobs_inv_def MarkUnknown_def intro: db_next_MarkUnknownJob\<close>)
next
  case (EvRelease n now)
  show ?thesis unfolding EvRelease jobs_step.simps
    by (rule state_next_with_claim[OF inv], rule state_next_set_db[OF inv])
       (use inv in \<open>auto simp: jobs_inv_def Release_def intro: db_next_ReleaseJob\<close>)
next
  case (EvCancel p i now)
  show ?thesis unfolding EvCancel jobs_step.simps
    by (rule state_next_set_db[OF inv])
       (use inv in \<open>auto simp: jobs_inv_def Cancel_def bind_r_Inr split: if_splits
         intro: db_next_CancelJob db_next_refl\<close>)
next
  case (EvDelete p i now)
  show ?thesis unfolding EvDelete jobs_step.simps
    by (rule state_next_set_db[OF inv])
       (use inv in \<open>auto simp: jobs_inv_def Delete_def bind_r_Inr split: if_splits
         intro: db_next_DeleteJob\<close>)
qed

end
