(* ===== verification/JobsProps.thy ===== *)
theory JobsProps
  imports JobsSys
begin

text \<open>
  The job system's interpretations of the shared contracts and the properties of the component:
  fencing, exclusive claims, dispatch safety, finality of outcomes, idempotent submission, owner
  isolation and the worker loop's outcome table. Runs are \<open>jobs_run\<close>: any sequence of service
  calls by any workers and owners, from the empty store or from any state in the invariant.
\<close>

section \<open>Interpretations\<close>

definition jobs_run ::
    "(string list \<Rightarrow> string) \<Rightarrow> (string \<Rightarrow> bool) \<Rightarrow> i64 \<Rightarrow> jobs_state \<Rightarrow> jobs_event list \<Rightarrow> jobs_state" where
  "jobs_run dig uuid_ok base s evs = foldl (jobs_step dig uuid_ok base) s evs"

definition job_token :: "jobs_state \<Rightarrow> string \<times> string \<Rightarrow> int" where
  "job_token s k =
     (case find_row (\<lambda>j. job_key j = k) (d_jobs (js_db s)) of None \<Rightarrow> 0 | Some j \<Rightarrow> j_fence j)"

definition job_holds :: "jobs_state \<Rightarrow> string \<times> string \<Rightarrow> string \<times> int \<Rightarrow> bool" where
  "job_holds s k w \<longleftrightarrow>
     list_ex (holds_lease (fst k) (snd k) (fst w) (snd w)) (d_jobs (js_db s))"

lemma jobs_inv_db: "jobs_inv s \<Longrightarrow> db_inv (js_db s)"
  by (simp add: jobs_inv_def)

lemma jobs_step_inv: "jobs_inv s \<Longrightarrow> jobs_inv (jobs_step dig uuid_ok base s ev)"
  using jobs_step_next by (simp add: state_next_def)

lemma jobs_step_rows:
  "jobs_inv s \<Longrightarrow>
   rows_next (d_jobs (js_db s)) (d_jobs (js_db (jobs_step dig uuid_ok base s ev)))"
  using jobs_step_next by (simp add: state_next_def db_next_def)

lemma job_token_row: "jobs_inv s \<Longrightarrow> j \<in> set (d_jobs (js_db s)) \<Longrightarrow> job_token s (job_key j) = j_fence j"
proof -
  assume inv: "jobs_inv s" and j: "j \<in> set (d_jobs (js_db s))"
  have "distinct (map job_key (d_jobs (js_db s)))" using jobs_inv_db[OF inv] by (simp add: db_inv_defs)
  from find_row_unique[OF this j, of "\<lambda>x. job_key x = job_key j" "job_key j"]
  have "find_row (\<lambda>x. job_key x = job_key j) (d_jobs (js_db s)) = Some j" by simp
  then show ?thesis by (simp add: job_token_def)
qed

lemma job_token_absent: "k \<notin> job_key ` set (d_jobs (js_db s)) \<Longrightarrow> job_token s k = 0"
proof -
  assume "k \<notin> job_key ` set (d_jobs (js_db s))"
  then have "find_row (\<lambda>j. job_key j = k) (d_jobs (js_db s)) = None"
    by (auto simp: find_row_None)
  then show ?thesis by (simp add: job_token_def)
qed

lemma job_holdsE:
  assumes "job_holds s k w"
  obtains j where "j \<in> set (d_jobs (js_db s))" and "job_key j = k" and "j_status j = Running"
    and "j_lease_owner j = Some (fst w)" and "j_fence j = snd w"
  using assms by (auto simp: job_holds_def list_ex_iff holds_lease_def is_job_def job_key_def)

lemma job_holdsI:
  "j \<in> set (d_jobs (js_db s)) \<Longrightarrow> job_key j = k \<Longrightarrow> j_status j = Running \<Longrightarrow>
   j_lease_owner j = Some (fst w) \<Longrightarrow> j_fence j = snd w \<Longrightarrow> job_holds s k w"
  by (auto simp: job_holds_def list_ex_iff holds_lease_def is_job_def job_key_def)

lemma job_token_step:
  assumes inv: "jobs_inv s"
  shows "job_token s k \<le> job_token (jobs_step dig uuid_ok base s ev) k" (is "_ \<le> job_token ?s' k")
proof (cases "k \<in> job_key ` set (d_jobs (js_db s))")
  case True
  then obtain j where j: "j \<in> set (d_jobs (js_db s))" "job_key j = k" by auto
  obtain j' where j': "j' \<in> set (d_jobs (js_db ?s'))" "job_evolves j j'"
    using jobs_step_rows[OF inv] j(1) unfolding rows_next_def by blast
  have "job_key j' = k" using job_evolves_key[OF j'(2)] j(2) by simp
  then show ?thesis
    using job_token_row[OF inv j(1)] job_token_row[OF jobs_step_inv[OF inv] j'(1)] j(2) j'(2)
    by (simp add: job_evolves_def)
next
  case False
  have "0 \<le> job_token ?s' k"
  proof (cases "k \<in> job_key ` set (d_jobs (js_db ?s'))")
    case True
    then obtain j' where j': "j' \<in> set (d_jobs (js_db ?s'))" "job_key j' = k" by auto
    have "0 \<le> j_fence j'"
      using jobs_inv_db[OF jobs_step_inv[OF inv]] j'(1) by (auto simp: db_inv_def count_ok_def)
    then show ?thesis using job_token_row[OF jobs_step_inv[OF inv] j'(1)] j'(2) by simp
  qed (simp add: job_token_absent)
  then show ?thesis using job_token_absent[OF False] by simp
qed

lemma job_grant_fresh:
  assumes inv: "jobs_inv s" and h: "job_holds (jobs_step dig uuid_ok base s ev) k w"
    and n: "\<not> job_holds s k w"
  shows "job_token s k < snd w"
proof -
  let ?s' = "jobs_step dig uuid_ok base s ev"
  obtain j' where j': "j' \<in> set (d_jobs (js_db ?s'))" "job_key j' = k" "j_status j' = Running"
      "j_lease_owner j' = Some (fst w)" "j_fence j' = snd w"
    using job_holdsE[OF h] .
  have "\<exists>j\<in>set (d_jobs (js_db s)). job_evolves j j'"
    using jobs_step_rows[OF inv] j'(1,3) unfolding rows_next_def by fastforce
  then obtain j where j: "j \<in> set (d_jobs (js_db s))" "job_evolves j j'" by blast
  have k: "job_key j = k" using job_evolves_key[OF j(2)] j'(2) by simp
  have "\<not> (j_status j = Running \<and> j_lease_owner j' = j_lease_owner j \<and> j_fence j' = j_fence j)"
    using n job_holdsI[OF j(1) k] j' by metis
  then have "j_fence j < j_fence j'" using j(2) j'(3) by (auto simp: job_evolves_def)
  then show ?thesis using job_token_row[OF inv j(1)] k j'(5) by simp
qed

interpretation js: transition_system "jobs_step dig uuid_ok base" jobs_inv for dig uuid_ok base
  by unfold_locales (rule jobs_step_inv)

interpretation jf: fenced_store "jobs_step dig uuid_ok base" jobs_inv job_token snd job_holds
  for dig uuid_ok base
proof unfold_locales
  fix s a and k :: "string \<times> string"
  assume "jobs_inv s"
  then show "job_token s k \<le> job_token (jobs_step dig uuid_ok base s a) k" by (rule job_token_step)
next
  fix s and k :: "string \<times> string" and w :: "string \<times> int"
  assume inv: "jobs_inv s" and h: "job_holds s k w"
  obtain j where "j \<in> set (d_jobs (js_db s))" "job_key j = k" "j_fence j = snd w"
    using job_holdsE[OF h] by blast
  then show "snd w = job_token s k" using job_token_row[OF inv] by metis
next
  fix s a and k :: "string \<times> string" and w :: "string \<times> int"
  assume "jobs_inv s" "job_holds (jobs_step dig uuid_ok base s a) k w" "\<not> job_holds s k w"
  then show "job_token s k < snd w" by (rule job_grant_fresh)
qed

lemma jobs_run_js: "jobs_run dig uuid_ok base = js.run dig uuid_ok base"
  by (intro ext) (simp add: jobs_run_def js.run_def)

definition jobs_reachable :: "(string list \<Rightarrow> string) \<Rightarrow> (string \<Rightarrow> bool) \<Rightarrow> i64 \<Rightarrow> jobs_state \<Rightarrow> bool" where
  "jobs_reachable dig uuid_ok base s \<longleftrightarrow> (\<exists>evs. s = jobs_run dig uuid_ok base init_jobs evs)"

lemma jobs_reachable_inv: "jobs_reachable dig uuid_ok base s \<Longrightarrow> jobs_inv s"
  unfolding jobs_reachable_def jobs_run_js using js.run_inv[OF jobs_inv_init] by blast

lemma jobs_reachable_run:
  "jobs_reachable dig uuid_ok base s \<Longrightarrow> jobs_reachable dig uuid_ok base (jobs_run dig uuid_ok base s evs)"
  unfolding jobs_reachable_def jobs_run_def by (metis foldl_append)

lemma jobs_invariant_run: "jobs_inv (jobs_run dig uuid_ok base init_jobs evs)"
  unfolding jobs_run_js by (rule js.run_inv) (rule jobs_inv_init)

text \<open>
  The invariant of the job tables and of the issued claims holds after every sequence of
  service calls: unique keys, a lease and exactly one open attempt per running job, no lease on a
  finished one, dispatch marks that point at the current attempt, attempts that never run ahead of
  their job's fence, and an attempt counter that counts the attempt rows.
\<close>

theorem jobs_invariant: "jobs_inv (jobs_run dig uuid_ok base init_jobs evs)"
  by (rule jobs_invariant_run)

section \<open>A concrete history\<close>

text \<open>
  The history the witnesses evaluate: alice submits a job, worker w1 leases it and goes silent,
  worker w2 leases it after the expiry and records its dispatch.
\<close>

definition demo_dig :: "string list \<Rightarrow> string" where
  "demo_dig ps = concat ps"

definition demo_principal :: principal where
  "demo_principal = zero_principal\<lparr>p_tenant := ''t'', p_actor := ''alice''\<rparr>"

definition demo_request :: enqueue_request where
  "demo_request =
     \<lparr>er_tenant = [], er_operation = ''op'', er_idem = ''k1'',
      er_subject = \<lparr>js_connection = [], js_object = [], js_observed = 0\<rparr>, er_input_ref = [],
      er_input_hash = ''h'', er_policy = None, er_max_attempts = 3\<rparr>"

definition demo_events :: "jobs_event list" where
  "demo_events =
     [EvEnqueue demo_principal demo_request ''job_1'' 0, EvLease ''w1'' 10 1 [] ''att_1'',
      EvLease ''w2'' 10 20 [] ''att_2'', EvMarkDispatched 1]"

definition demo_state :: jobs_state where
  "demo_state = jobs_run demo_dig (\<lambda>_. True) 100000000 init_jobs demo_events"

lemma demo_reachable: "jobs_reachable demo_dig (\<lambda>_. True) 100000000 demo_state"
  by (auto simp: jobs_reachable_def demo_state_def)

section \<open>Claims\<close>

definition claim_job :: "claim \<Rightarrow> string \<times> string" where
  "claim_job c = (jb_tenant (c_job c), l_job (c_lease c))"

definition claim_writer :: "claim \<Rightarrow> string \<times> int" where
  "claim_writer c = (l_owner (c_lease c), l_fence (c_lease c))"

definition claim_ident :: "claim \<Rightarrow> (string \<times> string) \<times> (string \<times> int) \<times> string" where
  "claim_ident c = (claim_job c, claim_writer c, c_attempt c)"

text \<open>Claim number \<open>n\<close> currently holds the lease of its job.\<close>

definition claim_holds :: "jobs_state \<Rightarrow> nat \<Rightarrow> bool" where
  "claim_holds s n \<longleftrightarrow> job_holds s (claim_job (js_claims s ! n)) (claim_writer (js_claims s ! n))"

text \<open>The service calls a worker makes with claim number \<open>n\<close>.\<close>

fun uses_claim :: "nat \<Rightarrow> jobs_event \<Rightarrow> bool" where
  "uses_claim n (EvHeartbeat m _ _) = (m = n)"
| "uses_claim n (EvProgress m _ _ _) = (m = n)"
| "uses_claim n (EvMarkDispatched m) = (m = n)"
| "uses_claim n (EvComplete m _ _) = (m = n)"
| "uses_claim n (EvFail m _ _ _ _) = (m = n)"
| "uses_claim n (EvMarkUnknown m _ _) = (m = n)"
| "uses_claim n (EvRelease m _) = (m = n)"
| "uses_claim n _ = False"

lemma set_db_claims [simp]: "js_claims (set_db s r) = js_claims s"
  by (simp add: set_db_def)

lemma map_list_update_same: "n < length xs \<Longrightarrow> g y = g (xs ! n) \<Longrightarrow> map g (xs[n := y]) = map g xs"
  by (simp add: map_update list_update_same_conv)

lemma set_claim_idents:
  assumes "n < length (js_claims s)" and "\<And>db c. r = Inr (db, c) \<Longrightarrow> claim_ident c = claim_ident (js_claims s ! n)"
  shows "map claim_ident (js_claims (set_claim s n r)) = map claim_ident (js_claims s)"
  using assms by (auto simp: set_claim_def map_list_update_same split: sum.split)

lemma step_claims_other:
  "\<not> (\<exists>w ttl now locked att. ev = EvLease w ttl now locked att) \<Longrightarrow>
   map claim_ident (js_claims (jobs_step dig uuid_ok base s ev)) = map claim_ident (js_claims s)"
  by (cases ev)
     (auto simp: with_claim_def Heartbeat_def MarkDispatched_def bind_r_Inr claim_ident_def claim_job_def
       claim_writer_def intro!: set_claim_idents)

lemma Lease_Inr:
  "Lease db w ttl now locked att = Inr (db', out) \<longleftrightarrow>
     (\<exists>cj. ClaimJob db w ttl now locked att = Inr (db', cj) \<and>
        out = map_option (\<lambda>cj. \<lparr>c_lease = cj_lease cj, c_job = scanJobRow (cj_row cj),
                                c_attempt = cj_attempt cj, c_dispatched = False\<rparr>) cj)"
  by (auto simp: Lease_def bind_r_Inr)

lemma Lease_Some:
  assumes "Lease db w ttl now locked att = Inr (db', Some c)"
  obtains cj where "ClaimJob db w ttl now locked att = Inr (db', Some cj)"
    and "c_lease c = cj_lease cj" and "c_job c = scanJobRow (cj_row cj)"
proof -
  obtain out where out: "ClaimJob db w ttl now locked att = Inr (db', out)"
    "Some c = map_option (\<lambda>cj. \<lparr>c_lease = cj_lease cj, c_job = scanJobRow (cj_row cj),
                                c_attempt = cj_attempt cj, c_dispatched = False\<rparr>) out"
    using assms unfolding Lease_Inr by blast
  show thesis
  proof (cases out)
    case None
    then show thesis using out(2) by simp
  next
    case (Some cj)
    show thesis by (rule that[of cj]) (use out Some in simp_all)
  qed
qed

lemma step_claims:
  "\<exists>new. map claim_ident (js_claims (jobs_step dig uuid_ok base s ev)) = map claim_ident (js_claims s) @ new"
proof (cases "\<exists>w ttl now locked att. ev = EvLease w ttl now locked att")
  case True
  then show ?thesis by (auto split: sum.split option.split)
next
  case False
  then show ?thesis using step_claims_other[OF False] by (metis append_Nil2)
qed

lemma run_claims:
  "\<exists>new. map claim_ident (js_claims (jobs_run dig uuid_ok base s evs)) = map claim_ident (js_claims s) @ new"
proof (induction evs arbitrary: s)
  case Nil
  then show ?case by (simp add: jobs_run_def)
next
  case (Cons ev evs)
  obtain new1 where "map claim_ident (js_claims (jobs_step dig uuid_ok base s ev))
      = map claim_ident (js_claims s) @ new1" using step_claims by blast
  moreover obtain new2 where
    "map claim_ident (js_claims (jobs_run dig uuid_ok base (jobs_step dig uuid_ok base s ev) evs))
      = map claim_ident (js_claims (jobs_step dig uuid_ok base s ev)) @ new2" using Cons by blast
  ultimately show ?case by (simp add: jobs_run_def)
qed

lemma run_claim_ident:
  assumes "n < length (js_claims s)"
  shows "n < length (js_claims (jobs_run dig uuid_ok base s evs))"
    and "claim_ident (js_claims (jobs_run dig uuid_ok base s evs) ! n) = claim_ident (js_claims s ! n)"
proof -
  obtain new where e: "map claim_ident (js_claims (jobs_run dig uuid_ok base s evs))
      = map claim_ident (js_claims s) @ new" using run_claims by blast
  then have len: "length (js_claims (jobs_run dig uuid_ok base s evs)) = length (js_claims s) + length new"
    by (metis length_append length_map)
  then show n: "n < length (js_claims (jobs_run dig uuid_ok base s evs))" using assms by simp
  have "map claim_ident (js_claims (jobs_run dig uuid_ok base s evs)) ! n = map claim_ident (js_claims s) ! n"
    using e assms by (simp add: nth_append)
  then show "claim_ident (js_claims (jobs_run dig uuid_ok base s evs) ! n) = claim_ident (js_claims s ! n)"
    using n assms by simp
qed

lemma claim_token:
  assumes inv: "jobs_inv s" and "c \<in> set (js_claims s)"
  shows "l_fence (c_lease c) \<le> job_token s (claim_job c)"
proof -
  have "claim_ok (d_attempts (js_db s)) c" using assms by (simp add: jobs_inv_def)
  then obtain a where a: "a \<in> set (d_attempts (js_db s))" "attempt_key a = (jb_tenant (c_job c), c_attempt c)"
      "a_job a = l_job (c_lease c)" "a_fence a = l_fence (c_lease c)"
    by (auto simp: claim_ok_def claim_bound_def)
  obtain j where j: "j \<in> set (d_jobs (js_db s))" "same_job a j" "a_fence a \<le> j_fence j"
    using jobs_inv_db[OF inv] a(1) by (auto simp: db_inv_def attempt_ok_def)
  have "job_key j = claim_job c"
    using j(2) a(2,3) by (simp add: claim_job_def job_key_def same_job_def attempt_key_def)
  then show ?thesis using job_token_row[OF inv j(1)] j(3) a(4) by simp
qed

text \<open>Without the lease, every call of the claim is refused and changes nothing.\<close>

lemma no_holder:
  assumes "\<not> job_holds s (t, i) (owner, fence)" and "j \<in> set (d_jobs (js_db s))"
  shows "\<not> holds_lease t i owner fence j"
  using assms by (auto simp: job_holds_def list_ex_iff)

lemma no_holder_fenced:
  assumes "\<And>j. j \<in> set (d_jobs db) \<Longrightarrow> \<not> holds_lease t i owner fence j"
  shows "fenced db (holds_lease t i owner fence) f = Inl ErrStaleFence"
    and "find_row (holds_lease t i owner fence) (d_jobs db) = None"
  using assms by (simp_all add: fenced_Inl find_row_None)

lemma stale_claim_noop:
  assumes "n < length (js_claims s)" and "\<not> claim_holds s n" and "uses_claim n ev"
  shows "jobs_step dig uuid_ok base s ev = s"
proof -
  let ?c = "js_claims s ! n"
  have nh: "\<not> job_holds s (jb_tenant (c_job ?c), l_job (c_lease ?c)) (l_owner (c_lease ?c), l_fence (c_lease ?c))"
    using assms(2) by (simp add: claim_holds_def claim_job_def claim_writer_def)
  note stale = no_holder_fenced[OF no_holder[OF nh]]
  show ?thesis
    using assms(1,3)
    by (cases ev)
       (auto simp: with_claim_def set_claim_def set_db_def keep_db_def stale Heartbeat_def ExtendLease_def
         Progress_def WriteProgress_def MarkDispatched_def MarkDispatchedJob_def Complete_def
         CompleteJob_def Fail_def FailJob_def MarkUnknown_def MarkUnknownJob_def Release_def ReleaseJob_def)
qed

text \<open>
  C2: a worker that has lost its lease can never publish again. Once claim \<open>n\<close> does not hold its
  job's lease, every later heartbeat, progress report, dispatch mark, completion, failure or
  release through it leaves the store exactly as it is, whatever happened in between.
\<close>

theorem lost_claim_is_inert:
  assumes "jobs_reachable dig uuid_ok base s" and "n < length (js_claims s)"
    and "\<not> claim_holds s n" and "uses_claim n ev"
  shows "jobs_step dig uuid_ok base (jobs_run dig uuid_ok base s evs) ev = jobs_run dig uuid_ok base s evs"
proof (rule stale_claim_noop)
  let ?s1 = "jobs_run dig uuid_ok base s evs"
  have inv: "jobs_inv s" using assms(1) by (rule jobs_reachable_inv)
  show "n < length (js_claims ?s1)" by (rule run_claim_ident(1)[OF assms(2)])
  have id: "claim_ident (js_claims ?s1 ! n) = claim_ident (js_claims s ! n)"
    by (rule run_claim_ident(2)[OF assms(2)])
  have "snd (claim_writer (js_claims s ! n)) \<le> job_token s (claim_job (js_claims s ! n))"
    using claim_token[OF inv nth_mem[OF assms(2)]] by (simp add: claim_writer_def)
  from jf.lost_forever[OF inv this] assms(3)
  show "\<not> claim_holds ?s1 n"
    using id by (simp add: claim_holds_def jobs_run_js claim_ident_def)
qed (rule assms(4))

theorem lost_claim_is_inert_witness:
  "jobs_step demo_dig (\<lambda>_. True) 100000000 (jobs_run demo_dig (\<lambda>_. True) 100000000 demo_state [])
     (EvComplete 0 ''result'' 30)
   = jobs_run demo_dig (\<lambda>_. True) 100000000 demo_state []"
proof (rule lost_claim_is_inert[OF demo_reachable])
  show "0 < length (js_claims demo_state)" by code_simp
  show "\<not> claim_holds demo_state 0" by code_simp
  show "uses_claim 0 (EvComplete 0 ''result'' 30)" by simp
qed

section \<open>Exclusive claims\<close>

definition claim_slot :: "claim \<Rightarrow> (string \<times> string) \<times> int" where
  "claim_slot c = (claim_job c, snd (claim_writer c))"

definition jobs_good :: "jobs_state \<Rightarrow> bool" where
  "jobs_good s \<longleftrightarrow> jobs_inv s \<and> distinct (map claim_slot (js_claims s))"

lemma claim_slot_ident: "claim_slot c = (fst (claim_ident c), snd (fst (snd (claim_ident c))))"
  by (simp add: claim_slot_def claim_ident_def)

lemma map_claim_slot: "map claim_slot cs = map (\<lambda>x. (fst x, snd (fst (snd x)))) (map claim_ident cs)"
  by (simp add: claim_slot_ident)

text \<open>A granted claim's fence is beyond every fence claimed on its job before.\<close>

lemma new_claim_slot:
  assumes inv: "jobs_inv s" and r: "Lease (js_db s) w ttl now locked att = Inr (db', Some c)"
    and d: "d \<in> set (js_claims s)"
  shows "claim_slot c \<noteq> claim_slot d"
proof
  assume eq: "claim_slot c = claim_slot d"
  obtain cj where cj: "ClaimJob (js_db s) w ttl now locked att = Inr (db', Some cj)"
      "c_lease c = cj_lease cj" "c_job c = scanJobRow (cj_row cj)"
    using Lease_Some[OF r] .
  have db: "db_inv (js_db s)" by (rule jobs_inv_db[OF inv])
  from cj(1) obtain r0 where r0: "r0 \<in> set (d_jobs (sweep now (js_db s)))"
      "cj_row cj = grant_row w ttl now r0" "l_job (cj_lease cj) = j_id r0" "l_fence (cj_lease cj) = j_fence r0 + 1"
    by (cases rule: ClaimJob_cases) (auto dest: next_job_Some)
  have cs: "claim_slot c = (job_key r0, j_fence r0 + 1)"
    using cj r0 by (simp add: claim_slot_def claim_job_def claim_writer_def scanJobRow_def job_key_def grant_row_def)
  have "claim_ok (d_attempts (js_db s)) d" using inv d by (simp add: jobs_inv_def)
  then have "claim_ok (d_attempts (sweep now (js_db s))) d"
    by (rule claim_ok_mono[rotated]) (simp add: sweep_next(3))
  then obtain a where a: "a \<in> set (d_attempts (sweep now (js_db s)))"
      "attempt_key a = (jb_tenant (c_job d), c_attempt d)" "a_job a = l_job (c_lease d)"
      "a_fence a = l_fence (c_lease d)"
    by (auto simp: claim_ok_def claim_bound_def)
  have ds: "claim_slot d = ((a_tenant a, a_job a), a_fence a)"
    using a by (simp add: claim_slot_def claim_job_def claim_writer_def attempt_key_def)
  have "same_job a r0" "a_fence a = j_fence r0 + 1"
    using eq cs ds by (auto simp: same_job_def job_key_def)
  then show False using attempt_fence_le[OF db_inv_sweep[OF db] r0(1) a(1)] by simp
qed

lemma jobs_good_step: "jobs_good s \<Longrightarrow> jobs_good (jobs_step dig uuid_ok base s ev)"
proof -
  assume g: "jobs_good s"
  then have inv: "jobs_inv s" and dst: "distinct (map claim_slot (js_claims s))"
    by (simp_all add: jobs_good_def)
  have "distinct (map claim_slot (js_claims (jobs_step dig uuid_ok base s ev)))"
  proof (cases "\<exists>w ttl now locked att. ev = EvLease w ttl now locked att")
    case False
    then show ?thesis using dst step_claims_other[OF False] by (simp only: map_claim_slot)
  next
    case True
    then obtain w ttl now locked att where ev: "ev = EvLease w ttl now locked att" by blast
    show ?thesis
    proof (cases "Lease (js_db s) w ttl now locked att")
      case (Inl e)
      then show ?thesis using dst ev by simp
    next
      case (Inr x)
      then obtain db' out where x: "Lease (js_db s) w ttl now locked att = Inr (db', out)" by (cases x) auto
      show ?thesis
      proof (cases out)
        case None
        then show ?thesis using x dst ev by simp
      next
        case (Some c)
        have "claim_slot c \<notin> claim_slot ` set (js_claims s)"
          using new_claim_slot[OF inv x[unfolded Some]] by blast
        then show ?thesis using x dst ev Some by simp
      qed
    qed
  qed
  then show ?thesis using jobs_step_inv[OF inv] by (simp add: jobs_good_def)
qed

interpretation jg: transition_system "jobs_step dig uuid_ok base" jobs_good for dig uuid_ok base
  by unfold_locales (rule jobs_good_step)

lemma jobs_reachable_good: "jobs_reachable dig uuid_ok base s \<Longrightarrow> jobs_good s"
proof -
  have "jobs_good init_jobs" using jobs_inv_init by (simp add: jobs_good_def init_jobs_def)
  then show "jobs_reachable dig uuid_ok base s \<Longrightarrow> jobs_good s"
    unfolding jobs_reachable_def jobs_run_def using jg.run_inv unfolding jg.run_def by blast
qed

lemma good_exclusive:
  assumes "jobs_good s" and "m < length (js_claims s)" and "n < length (js_claims s)"
    and "claim_holds s m" and "claim_holds s n"
    and "claim_job (js_claims s ! m) = claim_job (js_claims s ! n)"
  shows "m = n"
proof -
  have inv: "jobs_inv s" and dst: "distinct (map claim_slot (js_claims s))"
    using assms(1) by (simp_all add: jobs_good_def)
  have "snd (claim_writer (js_claims s ! m)) = snd (claim_writer (js_claims s ! n))"
    by (rule jf.holders_agree[OF inv assms(4)[unfolded claim_holds_def]
          assms(5)[unfolded claim_holds_def, folded assms(6)]])
  then have "map claim_slot (js_claims s) ! m = map claim_slot (js_claims s) ! n"
    using assms(2,3,6) by (simp add: claim_slot_def)
  then show ?thesis using nth_eq_iff_index_eq[OF dst, of m n] assms(2,3) by simp
qed

text \<open>
  C26: mutual exclusion. At any reachable state at most one of all the claims ever handed out on a
  job holds its lease.
\<close>

theorem claims_exclusive:
  assumes "jobs_reachable dig uuid_ok base s"
    and "m < length (js_claims s)" and "n < length (js_claims s)"
    and "claim_holds s m" and "claim_holds s n"
    and "claim_job (js_claims s ! m) = claim_job (js_claims s ! n)"
  shows "m = n"
  by (rule good_exclusive[OF jobs_reachable_good[OF assms(1)] assms(2-6)])

theorem claims_exclusive_witness:
  "claim_job (js_claims demo_state ! 0) = claim_job (js_claims demo_state ! 1) \<and>
   claim_holds demo_state 1 \<and> \<not> claim_holds demo_state 0"
proof -
  have f: "claim_job (js_claims demo_state ! 0) = claim_job (js_claims demo_state ! 1)"
    "claim_holds demo_state 1" "0 < length (js_claims demo_state)" "1 < length (js_claims demo_state)"
    by code_simp+
  have "\<not> claim_holds demo_state 0"
    using claims_exclusive[OF demo_reachable f(3,4) _ f(2) f(1)] by auto
  then show ?thesis using f by simp
qed

section \<open>Dispatched work is never silently re-run\<close>

text \<open>
  A pinned row: its current attempt is not up for another lease, because it is dispatched or the
  job is finished.
\<close>

definition pinned :: "job_row \<Rightarrow> bool" where
  "pinned j \<longleftrightarrow> j_status j \<noteq> Queued \<and> (j_status j = Running \<longrightarrow> j_dispatched j \<noteq> None)"

definition pinned_at :: "string \<times> string \<Rightarrow> int \<Rightarrow> job_row list \<Rightarrow> bool" where
  "pinned_at k f js \<longleftrightarrow> (\<exists>j\<in>set js. job_key j = k \<and> j_fence j = f \<and> pinned j)"

lemma pinned_upd:
  assumes "pinned_at k f js"
    and "\<And>j. j \<in> set js \<Longrightarrow> P j \<Longrightarrow> pinned j \<Longrightarrow> job_key j = k \<Longrightarrow> j_fence j = f \<Longrightarrow>
       pinned (g j) \<and> job_key (g j) = job_key j \<and> j_fence (g j) = j_fence j"
  shows "pinned_at k f (upd_rows P g js)"
proof -
  obtain j where j: "j \<in> set js" "job_key j = k" "j_fence j = f" "pinned j"
    using assms(1) by (auto simp: pinned_at_def)
  have "(if P j then g j else j) \<in> set (upd_rows P g js)" by (rule upd_rows_in[OF j(1)])
  moreover have "job_key (if P j then g j else j) = k \<and> j_fence (if P j then g j else j) = f \<and>
      pinned (if P j then g j else j)"
    using assms(2)[OF j(1) _ j(4,2,3)] j by auto
  ultimately show ?thesis unfolding pinned_at_def by blast
qed

lemma pinned_rows:
  "pinned j \<Longrightarrow> pinned (j\<lparr>j_lease_expires := e\<rparr>)" "pinned j \<Longrightarrow> pinned (j\<lparr>j_progress := pr\<rparr>)"
  "pinned j \<Longrightarrow> pinned (j\<lparr>j_dispatched := Some d\<rparr>)" "pinned j \<Longrightarrow> pinned (complete_row ref now j)"
  "pinned j \<Longrightarrow> pinned (unknown_row doc now j)" "pinned j \<Longrightarrow> pinned (cancel_row now j)"
  "pinned j \<Longrightarrow> pinned (delete_row now j)" "pinned j \<Longrightarrow> pinned (sweep_row now j)"
  by (auto simp: pinned_def complete_row_def unknown_row_def cancel_row_def delete_row_def sweep_row_def)

lemma kept_keys:
  assumes "keeps_job g"
  shows "job_key (g j) = job_key j \<and> j_fence (g j) = j_fence j"
  using assms by (simp add: keeps_job_def)

lemma pinned_keep:
  "pinned_at k f js \<Longrightarrow> (\<And>j. pinned j \<Longrightarrow> pinned (g j)) \<Longrightarrow> keeps_job g \<Longrightarrow> pinned_at k f (upd_rows P g js)"
  by (rule pinned_upd) (use kept_keys in auto)

lemma pinned_claim:
  assumes inv: "db_inv db" and p: "pinned_at k f (d_jobs db)"
    and r: "ClaimJob db w ttl now locked att = Inr (db', out)"
  shows "pinned_at k f (d_jobs db')"
proof -
  have sw: "pinned_at k f (d_jobs (sweep now db))"
    by (simp add: sweep_eq) (rule pinned_keep[OF p pinned_rows(8) keeps_job_rows(10)])
  show ?thesis using r
  proof (cases rule: ClaimJob_cases)
    case idle
    then show ?thesis using sw by simp
  next
    case (grant c)
    have inv1: "db_inv (sweep now db)" by (rule db_inv_sweep[OF inv])
    have c: "c \<in> set (d_jobs (sweep now db))" "claimable now (d_attempts (sweep now db)) c"
      by (rule next_job_Some[OF grant(1)])+
    have np: "\<not> pinned c"
      using c(2) dispatched_is_open[OF inv1 c(1)] by (auto simp: claimable_def pinned_def)
    show ?thesis unfolding grant(2) granted_def jobs_db.simps
      by (rule pinned_upd[OF sw]) (use np job_unique[OF inv1 _ c(1)] in blast)
  qed
qed

lemma pinned_insert:
  "pinned_at k f (d_jobs db) \<Longrightarrow> InsertJob uuid_ok db r now = Inr (db', out) \<Longrightarrow> pinned_at k f (d_jobs db')"
proof (cases out)
  case None
  assume "pinned_at k f (d_jobs db)" "InsertJob uuid_ok db r now = Inr (db', out)"
  then show ?thesis using None by (auto simp: InsertJob_new pinned_at_def)
next
  case (Some x)
  assume a: "pinned_at k f (d_jobs db)" "InsertJob uuid_ok db r now = Inr (db', out)"
  obtain j same where "out = Some (j, same)" using Some by (cases x) auto
  then show ?thesis using InsertJob_old a by metis
qed

text \<open>The calls that put a job back into the queue.\<close>

fun requeues :: "nat \<Rightarrow> jobs_event \<Rightarrow> bool" where
  "requeues n (EvFail m _ _ _ _) = (m = n)"
| "requeues n (EvRelease m _) = (m = n)"
| "requeues n _ = False"

definition guarded :: "nat \<Rightarrow> (string \<times> string) \<Rightarrow> string \<times> int \<Rightarrow> jobs_state \<Rightarrow> bool" where
  "guarded n k w s \<longleftrightarrow>
     jobs_good s \<and> n < length (js_claims s) \<and> claim_job (js_claims s ! n) = k \<and>
     claim_writer (js_claims s ! n) = w \<and> pinned_at k (snd w) (d_jobs (js_db s))"

text \<open>Only claim \<open>n\<close> itself can touch the pinned row through a fenced write of its fence.\<close>

lemma guarded_other_claim:
  assumes g: "guarded n k w s" and m: "m < length (js_claims s)" "m \<noteq> n"
    and j: "job_key j = k" "j_fence j = snd w"
  shows "\<not> holds_lease (jb_tenant (c_job (js_claims s ! m))) (l_job (c_lease (js_claims s ! m)))
           (l_owner (c_lease (js_claims s ! m))) (l_fence (c_lease (js_claims s ! m))) j"
proof
  assume h: "holds_lease (jb_tenant (c_job (js_claims s ! m))) (l_job (c_lease (js_claims s ! m)))
           (l_owner (c_lease (js_claims s ! m))) (l_fence (c_lease (js_claims s ! m))) j"
  have "claim_slot (js_claims s ! m) = (k, snd w)"
    using h j by (simp add: holds_lease_def is_job_def claim_slot_def claim_job_def claim_writer_def job_key_def)
  moreover have "claim_slot (js_claims s ! n) = (k, snd w)"
    using g by (simp add: guarded_def claim_slot_def)
  moreover have "distinct (map claim_slot (js_claims s))" "n < length (js_claims s)"
    using g by (simp_all add: guarded_def jobs_good_def)
  ultimately show False
    using nth_eq_iff_index_eq[of "map claim_slot (js_claims s)" m n] m by simp
qed

lemma pinned_finish_other:
  assumes g: "guarded n k w s" and m: "m < length (js_claims s)" "m \<noteq> n"
  shows "pinned_at k (snd w)
    (upd_rows (holds_lease (jb_tenant (c_job (js_claims s ! m))) (l_job (c_lease (js_claims s ! m)))
       (l_owner (c_lease (js_claims s ! m))) (l_fence (c_lease (js_claims s ! m)))) f (d_jobs (js_db s)))"
proof (rule pinned_upd)
  show "pinned_at k (snd w) (d_jobs (js_db s))" using g by (simp add: guarded_def)
qed (use guarded_other_claim[OF g m] in blast)

lemma pinned_step:
  assumes g: "guarded n k w s" and q: "\<not> requeues n ev"
  shows "pinned_at k (snd w) (d_jobs (js_db (jobs_step dig uuid_ok base s ev)))"
proof -
  have p: "pinned_at k (snd w) (d_jobs (js_db s))" using g by (simp add: guarded_def)
  have inv: "db_inv (js_db s)" using g by (simp add: guarded_def jobs_good_def jobs_inv_def)
  note kp = pinned_keep[OF p]
  show ?thesis
  proof (cases ev)
    case (EvEnqueue pr req i now)
    show ?thesis unfolding EvEnqueue jobs_step.simps set_db_def keep_db_def
      using p
      by (auto simp: Enqueue_def bind_r_Inr Let_def split: sum.split if_splits option.splits prod.splits
          intro: pinned_insert[OF p])
  next
    case (EvLease wk ttl now locked att)
    then show ?thesis using p
      by (auto simp: Lease_def bind_r_def split: sum.split option.split intro: pinned_claim[OF inv p])
  next
    case (EvHeartbeat m ttl now)
    show ?thesis unfolding EvHeartbeat jobs_step.simps with_claim_def set_claim_def
      using kp[OF pinned_rows(1) keeps_job_rows(1)] p
      by (auto simp: Heartbeat_def ExtendLease_def bind_r_Inr fenced_Inr split: sum.split)
  next
    case (EvProgress m pct msg stamp)
    show ?thesis unfolding EvProgress jobs_step.simps with_claim_def set_db_def keep_db_def
      using kp[OF pinned_rows(2) keeps_job_rows(2)] p
      by (auto simp: Progress_def WriteProgress_def fenced_Inr split: sum.split)
  next
    case (EvMarkDispatched m)
    show ?thesis unfolding EvMarkDispatched jobs_step.simps with_claim_def set_claim_def
      using kp[OF pinned_rows(3) keeps_job_rows(3)] p
      by (auto simp: MarkDispatched_def MarkDispatchedJob_def bind_r_Inr fenced_Inr
          split: sum.split if_splits)
  next
    case (EvComplete m ref now)
    show ?thesis unfolding EvComplete jobs_step.simps with_claim_def set_db_def keep_db_def
      using kp[OF pinned_rows(4) keeps_job_rows(4)] p
      by (auto simp: Complete_def CompleteJob_Inr bind_r_Inr split: sum.split)
  next
    case (EvFail m cause cls wall now)
    then have "m \<noteq> n" using q by simp
    then show ?thesis unfolding EvFail jobs_step.simps with_claim_def set_db_def keep_db_def
      using pinned_finish_other[OF g] p by (auto simp: Fail_def FailJob_Inr split: sum.split)
  next
    case (EvMarkUnknown m reason now)
    show ?thesis unfolding EvMarkUnknown jobs_step.simps with_claim_def set_db_def keep_db_def
      using kp[OF pinned_rows(5) keeps_job_rows(7)] p
      by (auto simp: MarkUnknown_def MarkUnknownJob_Inr split: sum.split)
  next
    case (EvRelease m now)
    then have "m \<noteq> n" using q by simp
    then show ?thesis unfolding EvRelease jobs_step.simps with_claim_def set_db_def keep_db_def
      using pinned_finish_other[OF g] p by (auto simp: Release_def ReleaseJob_Inr split: sum.split)
  next
    case (EvCancel pr i now)
    show ?thesis unfolding EvCancel jobs_step.simps set_db_def keep_db_def
      using kp[OF pinned_rows(6) keeps_job_rows(8)] p
      by (auto simp: Cancel_def CancelJob_def bind_r_Inr Let_def split: sum.split if_splits)
  next
    case (EvDelete pr i now)
    show ?thesis unfolding EvDelete jobs_step.simps set_db_def keep_db_def
      using kp[OF pinned_rows(7) keeps_job_rows(9)] p
      by (auto simp: Delete_def DeleteJob_def bind_r_Inr Let_def split: sum.split if_splits)
  qed
qed

lemma guarded_step:
  assumes g: "guarded n k w s" and q: "\<not> requeues n ev"
  shows "guarded n k w (jobs_step dig uuid_ok base s ev)"
proof -
  have n: "n < length (js_claims s)" using g by (simp add: guarded_def)
  have run1: "jobs_run dig uuid_ok base s [ev] = jobs_step dig uuid_ok base s ev"
    by (simp add: jobs_run_def)
  note id = run_claim_ident[OF n, of dig uuid_ok base "[ev]", unfolded run1]
  have good: "jobs_good s" using g by (simp add: guarded_def)
  show ?thesis
    using pinned_step[OF g q] jobs_good_step[OF good] id g by (simp add: guarded_def claim_ident_def)
qed

lemma guarded_run:
  "guarded n k w s \<Longrightarrow> list_all (\<lambda>ev. \<not> requeues n ev) evs \<Longrightarrow>
   guarded n k w (jobs_run dig uuid_ok base s evs)"
  by (induction evs arbitrary: s) (auto simp: jobs_run_def guarded_step)

text \<open>
  Once a worker has recorded its dispatch, the job is never leased again unless that worker
  itself fails or releases it: after any other calls, by any workers, including a silent death and
  later claims by others, the job still carries the same fence and is not queued.
\<close>

theorem dispatched_never_released:
  assumes "jobs_reachable dig uuid_ok base s" and "n < length (js_claims s)" and "claim_holds s n"
    and "MarkDispatched (js_db s) (js_claims s ! n) = Inr (db', c')"
    and "list_all (\<lambda>ev. \<not> requeues n ev) evs"
  shows "list_ex (\<lambda>j. job_key j = claim_job (js_claims s ! n) \<and>
                     j_fence j = l_fence (c_lease (js_claims s ! n)) \<and> j_status j \<noteq> Queued)
           (d_jobs (js_db (jobs_run dig uuid_ok base s (EvMarkDispatched n # evs))))"
proof -
  let ?c = "js_claims s ! n" and ?s1 = "jobs_step dig uuid_ok base s (EvMarkDispatched n)"
  have good: "jobs_good s" by (rule jobs_reachable_good[OF assms(1)])
  obtain j where j: "j \<in> set (d_jobs (js_db s))" "job_key j = claim_job ?c" "j_status j = Running"
      "j_lease_owner j = Some (fst (claim_writer ?c))" "j_fence j = snd (claim_writer ?c)"
    using job_holdsE[OF assms(3)[unfolded claim_holds_def]] .
  let ?P = "holds_lease (jb_tenant (c_job ?c)) (l_job (c_lease ?c)) (l_owner (c_lease ?c)) (l_fence (c_lease ?c))"
  let ?f = "\<lambda>j. j\<lparr>j_dispatched := Some (c_attempt ?c)\<rparr>"
  have db': "d_jobs db' = upd_rows ?P ?f (d_jobs (js_db s))"
    using assms(4) by (auto simp: MarkDispatched_def MarkDispatchedJob_def bind_r_Inr fenced_Inr split: if_splits)
  have Pj: "?P j"
    using j by (simp add: holds_lease_def is_job_def claim_job_def claim_writer_def job_key_def)
  have "?f j \<in> set (d_jobs db')" using upd_rows_in[OF j(1), of ?P ?f] Pj db' by simp
  moreover have "job_key (?f j) = claim_job ?c" "j_fence (?f j) = snd (claim_writer ?c)" "pinned (?f j)"
    using j by (simp_all add: job_key_def pinned_def)
  ultimately have pin: "pinned_at (claim_job ?c) (snd (claim_writer ?c)) (d_jobs db')"
    unfolding pinned_at_def by blast
  have run1: "jobs_run dig uuid_ok base s [EvMarkDispatched n] = ?s1" by (simp add: jobs_run_def)
  note id = run_claim_ident[OF assms(2), of dig uuid_ok base "[EvMarkDispatched n]", unfolded run1]
  have "js_db ?s1 = db'" using assms(2,4) by (simp add: with_claim_def set_claim_def)
  then have "guarded n (claim_job ?c) (claim_writer ?c) ?s1"
    using pin jobs_good_step[OF good] id by (simp add: guarded_def claim_ident_def del: jobs_step.simps)
  then have "guarded n (claim_job ?c) (claim_writer ?c) (jobs_run dig uuid_ok base ?s1 evs)"
    by (rule guarded_run[OF _ assms(5)])
  then show ?thesis
    by (auto simp: guarded_def pinned_at_def pinned_def list_ex_iff claim_writer_def jobs_run_def)
qed

theorem dispatched_never_released_witness:
  "list_ex (\<lambda>j. job_key j = (''t'', ''job_1'') \<and> j_fence j = 2 \<and> j_status j \<noteq> Queued)
     (d_jobs (js_db (jobs_run demo_dig (\<lambda>_. True) 100000000 demo_state
       [EvMarkDispatched 1, EvLease ''w3'' 10 99 [] ''att_3'', EvRelease 0 100])))"
proof -
  have f: "1 < length (js_claims demo_state)" "claim_holds demo_state 1"
      "claim_job (js_claims demo_state ! 1) = (''t'', ''job_1'')"
      "l_fence (c_lease (js_claims demo_state ! 1)) = 2"
      "is_ok (MarkDispatched (js_db demo_state) (js_claims demo_state ! 1))"
    by code_simp+
  obtain db' c' where r: "MarkDispatched (js_db demo_state) (js_claims demo_state ! 1) = Inr (db', c')"
    using f(5) by (auto elim!: is_okE)
  show ?thesis
    using dispatched_never_released[OF demo_reachable f(1,2) r,
        of "[EvLease ''w3'' 10 99 [] ''att_3'', EvRelease 0 100]"] f(3,4)
    by simp
qed

end
