(* ===== verification/JobsOutcomes.thy ===== *)
theory JobsOutcomes
  imports JobsProps
begin

text \<open>
  Properties of single operations of the job service and of their composition over a job's life:
  the claim transaction, finality of outcomes, idempotent submission, owner isolation, the
  guarantees of the current holder, the retry delay and the worker loop's outcome table.
\<close>

section \<open>The claim transaction\<close>

text \<open>
  A claim resolves every running job whose lease expired after its dispatch to unknown, with
  its error document, instead of leasing it again.
\<close>

theorem expired_dispatch_becomes_unknown:
  assumes "jobs_reachable dig uuid_ok base s" and "j \<in> set (d_jobs (js_db s))"
    and "j_status j = Running" and "j_dispatched j \<noteq> None" and "lease_expired now j"
    and "ClaimJob (js_db s) worker ttl now locked att = Inr (db', out)"
  shows "sweep_row now j \<in> set (d_jobs db')"
proof -
  let ?db = "js_db s"
  have inv: "db_inv ?db" by (rule jobs_inv_db[OF jobs_reachable_inv[OF assms(1)]])
  have "sweepable now (d_attempts ?db) j"
    using dispatched_is_open[OF inv assms(2,3)] assms(3-5) by (simp add: sweepable_def)
  then have sw: "sweep_row now j \<in> set (d_jobs (sweep now ?db))"
    using upd_rows_in[OF assms(2), of "sweepable now (d_attempts ?db)" "sweep_row now"] by (simp add: sweep_eq)
  show ?thesis using assms(6)
  proof (cases rule: ClaimJob_cases)
    case idle
    then show ?thesis using sw by simp
  next
    case (grant c)
    have "c \<noteq> sweep_row now j"
      using next_job_Some(2)[OF grant(1)] by (auto simp: claimable_def sweep_row_def)
    then have "job_key (sweep_row now j) \<noteq> job_key c"
      using job_unique[OF db_inv_sweep[OF inv] sw next_job_Some(1)[OF grant(1)]] by blast
    then show ?thesis
      using upd_rows_in[OF sw, of "\<lambda>j. job_key j = job_key c" "grant_row worker ttl now"]
      by (simp add: grant(2) granted_def)
  qed
qed

theorem expired_dispatch_becomes_unknown_witness:
  "list_ex (\<lambda>j. j_status j = Unknown) (d_jobs (sweep 99 (js_db demo_state)))"
proof -
  let ?j = "hd (d_jobs (js_db demo_state))"
  have f: "?j \<in> set (d_jobs (js_db demo_state))" "j_status ?j = Running" "j_dispatched ?j \<noteq> None"
      "lease_expired 99 ?j" "next_job 99 [] (sweep 99 (js_db demo_state)) = None"
    by code_simp+
  have r: "ClaimJob (js_db demo_state) ''w3'' 10 99 [] ''att_3'' = Inr (sweep 99 (js_db demo_state), None)"
    by (simp add: ClaimJob_def Let_def f(5))
  have "sweep_row 99 ?j \<in> set (d_jobs (sweep 99 (js_db demo_state)))"
    by (rule expired_dispatch_becomes_unknown[OF demo_reachable f(1-4) r])
  moreover have "j_status (sweep_row 99 ?j) = Unknown" by (simp add: sweep_row_def)
  ultimately show ?thesis unfolding list_ex_iff by blast
qed

text \<open>
  The claim transaction leases the longest-waiting runnable job: after the sweep, the granted
  job is claimable and unlocked and no claimable unlocked job was submitted earlier; it answers
  with no claim exactly when none is runnable. A job with a cancel request is never granted.
\<close>

theorem claim_grants_oldest:
  assumes "ClaimJob db worker ttl now locked att = Inr (db', out)"
  shows "case out of
      None \<Rightarrow> filter (\<lambda>c. claimable now (d_attempts (sweep now db)) c \<and> job_key c \<notin> set locked)
                (d_jobs (sweep now db)) = []
    | Some cj \<Rightarrow>
        list_ex (\<lambda>c. grant_row worker ttl now c = cj_row cj \<and>
                     claimable now (d_attempts (sweep now db)) c \<and> j_cancel_requested c = None \<and>
                     job_key c \<notin> set locked \<and>
                     list_all (\<lambda>d. j_submitted c \<le> j_submitted d)
                       (filter (\<lambda>d. claimable now (d_attempts (sweep now db)) d \<and> job_key d \<notin> set locked)
                          (d_jobs (sweep now db))))
          (d_jobs (sweep now db))"
  using assms
proof (cases rule: ClaimJob_cases)
  case idle
  then show ?thesis by (simp add: next_job_def)
next
  case (grant c)
  note c = next_job_Some[OF grant(1)]
  have le: "\<forall>d\<in>set (filter (\<lambda>d. claimable now (d_attempts (sweep now db)) d \<and> job_key d \<notin> set locked)
      (d_jobs (sweep now db))). j_submitted c \<le> j_submitted d"
    using oldest_least[OF grant(1)[unfolded next_job_def]] by blast
  have nc: "j_cancel_requested c = None" using c(2) by (simp add: claimable_def)
  show ?thesis unfolding grant(4) option.case list_ex_iff
    by (rule bexI[OF _ c(1)]) (use c le nc in \<open>simp add: list_all_iff\<close>)
qed

theorem claim_grants_oldest_witness:
  "filter (\<lambda>c. claimable 21 (d_attempts (sweep 21 (js_db demo_state))) c \<and> job_key c \<notin> set [])
     (d_jobs (sweep 21 (js_db demo_state))) = []"
proof -
  have n: "next_job 21 [] (sweep 21 (js_db demo_state)) = None" by code_simp
  have "ClaimJob (js_db demo_state) ''w3'' 10 21 [] ''att_3'' = Inr (sweep 21 (js_db demo_state), None)"
    by (simp add: ClaimJob_def Let_def n)
  from claim_grants_oldest[OF this] show ?thesis by simp
qed

section \<open>Finality\<close>

lemma evolves_run:
  assumes "jobs_inv s" and "j \<in> set (d_jobs (js_db s))"
  shows "\<exists>j'\<in>set (d_jobs (js_db (jobs_run dig uuid_ok base s evs))). job_evolves j j'"
  using assms
proof (induction evs arbitrary: s j)
  case Nil
  then show ?case by (intro bexI[of _ j]) (simp_all add: jobs_run_def)
next
  case (Cons ev evs)
  obtain j1 where j1: "j1 \<in> set (d_jobs (js_db (jobs_step dig uuid_ok base s ev)))" "job_evolves j j1"
    using jobs_step_rows[OF Cons.prems(1)] Cons.prems(2) unfolding rows_next_def by blast
  from Cons.IH[OF jobs_step_inv[OF Cons.prems(1)] j1(1)] obtain j2 where
    "j2 \<in> set (d_jobs (js_db (jobs_run dig uuid_ok base (jobs_step dig uuid_ok base s ev) evs)))"
    "job_evolves j1 j2" by blast
  then show ?case using job_evolves_trans[OF j1(2)] by (auto simp: jobs_run_def)
qed

text \<open>
  Outcomes are final. A job that is succeeded, failed, cancelled, unknown or deleted keeps its
  row unchanged through any later calls, except that its owner may tombstone it once.
\<close>

theorem outcome_final:
  assumes "jobs_reachable dig uuid_ok base s" and "j \<in> set (d_jobs (js_db s))"
    and "j_status j \<in> {Succeeded, Failed, Cancelled, Unknown, Deleted}"
  shows "j \<in> set (d_jobs (js_db (jobs_run dig uuid_ok base s evs))) \<or>
    (j_status j \<noteq> Deleted \<and>
     (\<exists>now. delete_row now j \<in> set (d_jobs (js_db (jobs_run dig uuid_ok base s evs)))))"
proof -
  obtain j' where j': "j' \<in> set (d_jobs (js_db (jobs_run dig uuid_ok base s evs)))" "job_evolves j j'"
    using evolves_run[OF jobs_reachable_inv[OF assms(1)] assms(2)] by blast
  have "settled (j_status j)" using assms(3) by (auto simp: settled_def)
  then show ?thesis using j' by (auto simp: job_evolves_def)
qed

definition demo_done :: jobs_state where
  "demo_done = jobs_run demo_dig (\<lambda>_. True) 100000000 demo_state [EvComplete 1 ''art_1'' 25]"

theorem outcome_final_witness:
  "hd (d_jobs (js_db demo_done)) \<in> set (d_jobs (js_db
     (jobs_run demo_dig (\<lambda>_. True) 100000000 demo_done [EvLease ''w3'' 10 99 [] ''att_3''])))"
proof -
  have r: "jobs_reachable demo_dig (\<lambda>_. True) 100000000 demo_done"
    unfolding demo_done_def by (rule jobs_reachable_run[OF demo_reachable])
  have f: "hd (d_jobs (js_db demo_done)) \<in> set (d_jobs (js_db demo_done))"
      "j_status (hd (d_jobs (js_db demo_done))) = Succeeded"
      "list_all (\<lambda>j. j_status j = Succeeded) (d_jobs (js_db
         (jobs_run demo_dig (\<lambda>_. True) 100000000 demo_done [EvLease ''w3'' 10 99 [] ''att_3''])))"
    by code_simp+
  show ?thesis
    using outcome_final[OF r f(1), of "[EvLease ''w3'' 10 99 [] ''att_3'']"] f(2,3)
    by (auto simp: list_all_iff delete_row_def)
qed

section \<open>Idempotent submission\<close>

text \<open>What a submission is identified by: the submitter binding and the frozen input.\<close>

definition submission_ident ::
    "(string list \<Rightarrow> string) \<Rightarrow> principal \<Rightarrow> enqueue_request \<Rightarrow>
     string \<times> string \<times> string \<times> json \<times> job_subject" where
  "submission_ident dig p req =
     (submitterKey dig p, er_input_hash req, er_input_ref req, canonicalPolicy (er_policy req), er_subject req)"

definition row_ident :: "job_row \<Rightarrow> string \<times> string \<times> string \<times> json \<times> job_subject" where
  "row_ident j = (j_submitter j, j_input_hash j, null_str (j_input_ref j), j_policy j, row_subject j)"

lemma nullString_inj [simp]: "nullString a = nullString b \<longleftrightarrow> a = b"
  by (auto simp: nullString_def)

lemma nullInt64_inj [simp]: "nullInt64 a = nullInt64 b \<longleftrightarrow> a = b"
  by (auto simp: nullInt64_def)

lemma null_str_nullString [simp]: "null_str (nullString a) = a"
  by (simp add: nullString_def null_str_def)

text \<open>The rows the service inserts store an absent string or revision as NULL, never as empty.\<close>

definition nulls_ok :: "job_row \<Rightarrow> bool" where
  "nulls_ok j \<longleftrightarrow>
     j_input_ref j = nullString (null_str (j_input_ref j)) \<and>
     j_connection j = nullString (null_str (j_connection j)) \<and>
     j_object j = nullString (null_str (j_object j)) \<and>
     j_observed j = nullInt64 (case j_observed j of None \<Rightarrow> 0 | Some v \<Rightarrow> v)"

lemma row_of_record_nulls [simp]: "nulls_ok (row_of_record r now)"
  by (simp add: nulls_ok_def row_of_record_def nullString_def nullInt64_def null_str_def)

lemma row_of_record_ident:
  "row_ident (row_of_record (enqueue_record dig p req i) now) = submission_ident dig p req"
  by (simp add: row_ident_def submission_ident_def row_of_record_def enqueue_record_def row_subject_def
      null_str_def nullString_def nullInt64_def)

lemma frozen_ident:
  assumes "frozen_part j' = frozen_part j"
  shows "row_ident j' = row_ident j" and "idem_key j' = idem_key j" and "j_id j' = j_id j"
    and "nulls_ok j' = nulls_ok j"
  using assms by (simp_all add: frozen_part_def row_ident_def row_subject_def idem_key_def nulls_ok_def)

lemma same_key_ident:
  assumes "nulls_ok j"
  shows "(same_key (enqueue_record dig p req i) j \<and> j_submitter j = submitterKey dig p \<and>
      row_subject j = er_subject req \<and> null_str (j_input_ref j) = er_input_ref req \<and>
      j_input_hash j = er_input_hash req) \<longleftrightarrow> row_ident j = submission_ident dig p req"
proof -
  obtain c ob v where sub: "er_subject req = \<lparr>js_connection = c, js_object = ob, js_observed = v\<rparr>"
    by (cases "er_subject req") auto
  define ref where "ref = null_str (j_input_ref j)"
  define conn where "conn = null_str (j_connection j)"
  define obj where "obj = null_str (j_object j)"
  define obs where "obs = (case j_observed j of None \<Rightarrow> 0 | Some v \<Rightarrow> v)"
  have n: "j_input_ref j = nullString ref" "j_connection j = nullString conn"
      "j_object j = nullString obj" "j_observed j = nullInt64 obs"
    using assms by (simp_all add: nulls_ok_def ref_def conn_def obj_def obs_def)
  have rs: "row_subject j = \<lparr>js_connection = conn, js_object = obj, js_observed = obs\<rparr>"
    by (simp add: row_subject_def conn_def obj_def obs_def)
  show ?thesis
    by (auto simp: same_key_def enqueue_record_def submission_ident_def row_ident_def rs sub n
        ref_def[symmetric])
qed

text \<open>A well-formed request, as \<open>Enqueue\<close> validates it.\<close>

definition valid_request :: "principal \<Rightarrow> enqueue_request \<Rightarrow> bool" where
  "valid_request p req \<longleftrightarrow>
     p_tenant p \<noteq> [] \<and> (er_tenant req = [] \<or> er_tenant req = p_tenant p) \<and>
     er_operation req \<noteq> [] \<and> er_idem req \<noteq> []"

lemma Enqueue_replay:
  assumes "db_inv db" and "valid_request p req" and "uuid_ok (p_tenant p)" and "j \<in> set (d_jobs db)"
    and "nulls_ok j" and "idem_key j = (p_tenant p, er_operation req, er_idem req)"
  shows "Enqueue dig uuid_ok db p req i now =
    (if row_ident j = submission_ident dig p req then Inr (db, scanJobRow j, False)
     else Inl ErrIdempotencyConflict)"
proof -
  let ?r = "enqueue_record dig p req i"
  have rf: "ir_tenant ?r = p_tenant p" "ir_operation ?r = er_operation req" "ir_idem ?r = er_idem req"
      "ir_submitter ?r = submitterKey dig p"
    by (simp_all add: enqueue_record_def)
  have m: "idem_match ?r j" using assms(6) by (simp add: idem_match_def rf)
  have "find_row (idem_match ?r) (d_jobs db) = Some j"
    by (rule find_row_unique[of idem_key _ _ _ "(p_tenant p, er_operation req, er_idem req)"])
       (use assms(1,4) m in \<open>simp_all add: db_inv_defs idem_match_def rf\<close>)
  then have ins: "InsertJob uuid_ok db ?r now = Inr (db, Some (j, same_key ?r j))"
    using assms(3,4) m by (auto simp: InsertJob_def rf list_ex_iff)
  have v: "p_tenant p \<noteq> []" "\<not> (er_tenant req \<noteq> [] \<and> er_tenant req \<noteq> p_tenant p)"
      "\<not> (er_operation req = [] \<or> er_idem req = [])"
    using assms(2) by (auto simp: valid_request_def)
  show ?thesis
    unfolding Enqueue_def Let_def ins if_not_P[OF v(1)] if_not_P[OF v(2)] if_not_P[OF v(3)]
    using same_key_ident[OF assms(5), of dig p req i] by (simp add: rf)
qed

lemma Enqueue_created:
  assumes "Enqueue dig uuid_ok db p req i now = Inr (db', job, True)"
  shows "valid_request p req" and "uuid_ok (p_tenant p)"
    and "db' = db\<lparr>d_jobs := d_jobs db @ [row_of_record (enqueue_record dig p req i) now]\<rparr>"
    and "job = record_job (enqueue_record dig p req i)"
proof -
  let ?r = "enqueue_record dig p req i"
  have v: "p_tenant p \<noteq> []" "\<not> (er_tenant req \<noteq> [] \<and> er_tenant req \<noteq> p_tenant p)"
      "\<not> (er_operation req = [] \<or> er_idem req = [])"
    using assms by (auto simp: Enqueue_def split: if_splits)
  then show "valid_request p req" by (auto simp: valid_request_def)
  note run = assms[unfolded Enqueue_def Let_def if_not_P[OF v(1)] if_not_P[OF v(2)] if_not_P[OF v(3)] bind_r_Inr]
  then obtain db1 out where x: "InsertJob uuid_ok db ?r now = Inr (db1, out)" by fastforce
  have "out = None"
  proof (cases out)
    case (Some y)
    then show ?thesis using run x by (auto split: prod.splits if_splits)
  qed
  then have ins: "InsertJob uuid_ok db ?r now = Inr (db', None)" and "job = record_job ?r"
    using run x by auto
  then show "job = record_job ?r" "uuid_ok (p_tenant p)"
      "db' = db\<lparr>d_jobs := d_jobs db @ [row_of_record ?r now]\<rparr>"
    by (simp_all add: InsertJob_new enqueue_record_def)
qed

lemma enqueue_again:
  assumes "jobs_reachable dig uuid_ok base s"
    and "Enqueue dig uuid_ok (js_db s) p req i now = Inr (db', job, True)"
    and "valid_request p2 req2"
    and "(p_tenant p2, er_operation req2, er_idem req2) = (p_tenant p, er_operation req, er_idem req)"
    and "s2 = jobs_run dig uuid_ok base s (EvEnqueue p req i now # evs)"
  shows "\<exists>j2. j2 \<in> set (d_jobs (js_db s2)) \<and> jb_id (scanJobRow j2) = jb_id job \<and>
    Enqueue dig uuid_ok (js_db s2) p2 req2 i2 now2 =
      (if submission_ident dig p req = submission_ident dig p2 req2 then Inr (js_db s2, scanJobRow j2, False)
       else Inl ErrIdempotencyConflict)"
proof -
  let ?s1 = "jobs_step dig uuid_ok base s (EvEnqueue p req i now)"
  let ?j = "row_of_record (enqueue_record dig p req i) now"
  note cr = Enqueue_created[OF assms(2)]
  have inv: "jobs_inv s" by (rule jobs_reachable_inv[OF assms(1)])
  have s1: "js_db ?s1 = db'" using assms(2) by (simp add: set_db_def keep_db_def)
  have inv1: "jobs_inv ?s1" by (rule jobs_step_inv[OF inv])
  have j: "?j \<in> set (d_jobs (js_db ?s1))" unfolding s1 cr(3) by simp
  have s2: "s2 = jobs_run dig uuid_ok base ?s1 evs" unfolding assms(5) by (simp add: jobs_run_def)
  obtain j2 where j2: "j2 \<in> set (d_jobs (js_db s2))" "job_evolves ?j j2"
    using evolves_run[OF inv1 j] s2 by blast
  have fr: "frozen_part j2 = frozen_part ?j" using j2(2) by (simp add: job_evolves_def)
  have ik: "idem_key j2 = (p_tenant p2, er_operation req2, er_idem req2)"
    using frozen_ident(2)[OF fr] assms(4) by (simp add: row_of_record_keys enqueue_record_def)
  have u: "uuid_ok (p_tenant p2)" using cr(2) assms(4) by simp
  have inv2: "db_inv (js_db s2)" unfolding s2 jobs_run_js by (rule jobs_inv_db[OF js.run_inv[OF inv1]])
  have nu: "nulls_ok j2" using frozen_ident(4)[OF fr] by simp
  have id: "row_ident j2 = submission_ident dig p req"
    using frozen_ident(1)[OF fr] by (simp only: row_of_record_ident)
  have jid: "jb_id (scanJobRow j2) = jb_id job"
    using frozen_ident(3)[OF fr] cr(4)
    by (simp add: scanJobRow_def record_job_def row_of_record_def enqueue_record_def)
  show ?thesis
    unfolding Enqueue_replay[where uuid_ok = uuid_ok and dig = dig and i = i2 and now = now2, OF inv2 assms(3) u j2(1) nu ik] id
    using jid j2(1) by blast
qed

text \<open>
  C35: submission is idempotent for ever. After a call of \<open>Enqueue\<close> created a job, any later call
  with the same tenant, operation and idempotency key, whatever happened in between, returns that
  same job and changes nothing if the submitter binding, input reference and hash, policy and
  subject are all the same, and is an idempotency conflict otherwise.
\<close>

theorem enqueue_idempotent:
  assumes "jobs_reachable dig uuid_ok base s"
    and "Enqueue dig uuid_ok (js_db s) p req i now = Inr (db', job, True)"
    and "valid_request p2 req2"
    and "(p_tenant p2, er_operation req2, er_idem req2) = (p_tenant p, er_operation req, er_idem req)"
    and "s2 = jobs_run dig uuid_ok base s (EvEnqueue p req i now # evs)"
  shows "case Enqueue dig uuid_ok (js_db s2) p2 req2 i2 now2 of
      Inr (db2, job2, created) \<Rightarrow>
        submission_ident dig p2 req2 = submission_ident dig p req \<and>
        db2 = js_db s2 \<and> jb_id job2 = jb_id job \<and> \<not> created
    | Inl e \<Rightarrow> submission_ident dig p2 req2 \<noteq> submission_ident dig p req \<and> e = ErrIdempotencyConflict"
proof -
  obtain j2 where "jb_id (scanJobRow j2) = jb_id job"
    "Enqueue dig uuid_ok (js_db s2) p2 req2 i2 now2 =
      (if submission_ident dig p req = submission_ident dig p2 req2 then Inr (js_db s2, scanJobRow j2, False)
       else Inl ErrIdempotencyConflict)"
    using enqueue_again[OF assms, of i2 now2] by blast
  then show ?thesis by simp
qed

theorem enqueue_idempotent_witness:
  "(case Enqueue demo_dig (\<lambda>_. True) (js_db demo_state) demo_principal demo_request ''job_9'' 50 of
      Inr (db2, job2, created) \<Rightarrow> db2 = js_db demo_state \<and> jb_id job2 = ''job_1'' \<and> \<not> created
    | Inl e \<Rightarrow> False)"
proof -
  have r0: "jobs_reachable demo_dig (\<lambda>_. True) 100000000 init_jobs"
    unfolding jobs_reachable_def by (rule exI[of _ "[]"]) (simp add: jobs_run_def)
  have "is_ok (Enqueue demo_dig (\<lambda>_. True) (js_db init_jobs) demo_principal demo_request ''job_1'' 0)"
    by code_simp
  then obtain db' job b where e:
    "Enqueue demo_dig (\<lambda>_. True) (js_db init_jobs) demo_principal demo_request ''job_1'' 0 = Inr (db', job, b)"
    by (auto elim!: is_okE)
  have "(case Enqueue demo_dig (\<lambda>_. True) (js_db init_jobs) demo_principal demo_request ''job_1'' 0 of
      Inr (db', job, b) \<Rightarrow> b \<and> jb_id job = ''job_1'' | Inl e \<Rightarrow> False)" by code_simp
  then have b: "b" "jb_id job = ''job_1''" unfolding e by simp_all
  have v: "valid_request demo_principal demo_request" by code_simp
  have st: "demo_state = jobs_run demo_dig (\<lambda>_. True) 100000000 init_jobs
      (EvEnqueue demo_principal demo_request ''job_1'' 0 #
       [EvLease ''w1'' 10 1 [] ''att_1'', EvLease ''w2'' 10 20 [] ''att_2'', EvMarkDispatched 1])"
    by (simp add: demo_state_def demo_events_def)
  from enqueue_idempotent[OF r0 e[unfolded eqTrueI[OF b(1)]] v refl st, of "''job_9''" 50] b(2)
  show ?thesis by (auto split: sum.splits prod.splits)
qed

section \<open>Owner isolation\<close>

text \<open>
  A job is invisible to everyone but its submitter. When no live row of that id carries the
  caller's tenant and submitter binding, the job cannot be read, cancelled, deleted or listed by
  the caller, and the attempts are indistinguishable from a missing job.
\<close>

theorem owner_isolation:
  assumes "list_all (\<lambda>j. \<not> (is_job (p_tenant p) i j \<and> j_submitter j = submitterKey dig p)) (d_jobs db)"
  shows "Get dig db p i = Inl ErrJobNotFound \<and> Cancel dig db p i now = Inl ErrJobNotFound \<and>
    Delete dig db p i now = Inl ErrJobNotFound \<and> i \<notin> jb_id ` set (ListJobs dig db p limit)"
proof -
  have none: "find_row (\<lambda>j. is_job (p_tenant p) i j \<and> owned_by (p_tenant p) (submitterKey dig p) j) (d_jobs db) = None"
    using assms by (auto simp: find_row_None list_all_iff owned_by_def)
  have "set (ListJobs dig db p limit) \<subseteq>
      scanJobRow ` {j \<in> set (d_jobs db). owned_by (p_tenant p) (submitterKey dig p) j}"
    unfolding ListJobs_def ListOwnedJobs_def newest_first_def
    by (auto dest!: in_set_takeD)
  then have "i \<notin> jb_id ` set (ListJobs dig db p limit)"
    using assms by (auto simp: list_all_iff owned_by_def is_job_def scanJobRow_def)
  then show ?thesis by (simp add: Get_def Cancel_def Delete_def GetOwnedJob_def none)
qed

theorem owner_isolation_witness:
  "Get demo_dig (js_db demo_state) (demo_principal\<lparr>p_actor := ''mallory''\<rparr>) ''job_1'' = Inl ErrJobNotFound"
proof -
  have "list_all (\<lambda>j. \<not> (is_job (p_tenant (demo_principal\<lparr>p_actor := ''mallory''\<rparr>)) ''job_1'' j \<and>
      j_submitter j = submitterKey demo_dig (demo_principal\<lparr>p_actor := ''mallory''\<rparr>))) (d_jobs (js_db demo_state))"
    by code_simp
  from owner_isolation[OF this] show ?thesis by blast
qed

section \<open>The holder's guarantees\<close>

text \<open>The row a claim holds, and how it is found by the fenced statements.\<close>

lemma holder_row:
  assumes "jobs_inv s" and "n < length (js_claims s)" and "claim_holds s n"
  obtains j where "j \<in> set (d_jobs (js_db s))" and "job_key j = claim_job (js_claims s ! n)"
    and "under_lease (\<lambda>_. holds_lease) (js_db s) (js_claims s ! n) j"
    and "find_row (under_lease (\<lambda>_. holds_lease) (js_db s) (js_claims s ! n)) (d_jobs (js_db s)) = Some j"
    and "\<exists>a\<in>set (d_attempts (js_db s)).
           is_open_attempt (jb_tenant (c_job (js_claims s ! n))) (c_attempt (js_claims s ! n)) a"
proof -
  let ?c = "js_claims s ! n"
  have db: "db_inv (js_db s)" by (rule jobs_inv_db[OF assms(1)])
  have ok: "claim_ok (d_attempts (js_db s)) ?c" using assms(1,2) by (simp add: jobs_inv_def)
  obtain j where j: "j \<in> set (d_jobs (js_db s))" "job_key j = claim_job ?c" "j_status j = Running"
      "j_lease_owner j = Some (fst (claim_writer ?c))" "j_fence j = snd (claim_writer ?c)"
    using job_holdsE[OF assms(3)[unfolded claim_holds_def]] .
  have h: "under_lease (\<lambda>_. holds_lease) (js_db s) ?c j"
    using j by (simp add: holds_lease_def is_job_def claim_job_def claim_writer_def job_key_def)
  have fr: "find_row (under_lease (\<lambda>_. holds_lease) (js_db s) ?c) (d_jobs (js_db s)) = Some j"
    by (rule find_row_unique[of job_key _ _ _ "claim_job ?c"])
       (use db j h holds_lease_key in \<open>auto simp: db_inv_defs claim_job_def\<close>)
  have "claim_bound (d_attempts (js_db s)) (jb_tenant (c_job ?c)) (l_job (c_lease ?c))
      (l_fence (c_lease ?c)) (c_attempt ?c)" using ok unfolding claim_ok_def by blast
  from holder_attempt_open[OF db this j(1) h] have
    "\<exists>a\<in>set (d_attempts (js_db s)). is_open_attempt (jb_tenant (c_job ?c)) (c_attempt ?c) a" by blast
  with that j(1,2) h fr show thesis by blast
qed

lemma fenced_holder:
  "j \<in> set (d_jobs db) \<Longrightarrow> P j \<Longrightarrow> fenced db P f = Inr (db\<lparr>d_jobs := upd_rows P f (d_jobs db)\<rparr>)"
  by (auto simp: fenced_def count_rows_0_iff)

lemma finish_holder:
  "\<exists>a\<in>set (d_attempts db). is_open_attempt t att a \<Longrightarrow>
   finish_attempt db t att f = Inr (db\<lparr>d_attempts := upd_rows (is_open_attempt t att) f (d_attempts db)\<rparr>)"
  by (auto simp: finish_attempt_def count_rows_0_iff)

text \<open>
  C38: the current holder can always finish. While a claim holds its lease, completing, failing,
  releasing or marking it unknown succeeds and writes the outcome the call stands for; the attempt
  recorded for it is still open.
\<close>

theorem holder_can_finish:
  assumes "jobs_reachable dig uuid_ok base s" and "n < length (js_claims s)" and "claim_holds s n"
  shows "is_ok (Complete (js_db s) (js_claims s ! n) ref now) \<and>
    is_ok (Fail base2 (js_db s) (js_claims s ! n) cause cls wall now) \<and>
    is_ok (MarkUnknown (js_db s) (js_claims s ! n) reason now) \<and>
    is_ok (Release (js_db s) (js_claims s ! n) now)"
proof -
  let ?c = "js_claims s ! n"
  obtain j where j: "j \<in> set (d_jobs (js_db s))" "under_lease (\<lambda>_. holds_lease) (js_db s) ?c j"
      "find_row (under_lease (\<lambda>_. holds_lease) (js_db s) ?c) (d_jobs (js_db s)) = Some j"
      "\<exists>a\<in>set (d_attempts (js_db s)). is_open_attempt (jb_tenant (c_job ?c)) (c_attempt ?c) a"
    using holder_row[OF jobs_reachable_inv[OF assms(1)] assms(2,3)] by blast
  note steps = fenced_holder[where P = "under_lease (\<lambda>_. holds_lease) (js_db s) ?c", OF j(1,2)]
  have open_at: "\<exists>a\<in>set (d_attempts (js_db s\<lparr>d_jobs := js\<rparr>)).
      is_open_attempt (jb_tenant (c_job ?c)) (c_attempt ?c) a" for js
    using j(4) by simp
  show ?thesis
    by (simp add: Complete_def CompleteJob_def Fail_def FailJob_def MarkUnknown_def MarkUnknownJob_def
        Release_def ReleaseJob_def steps j(3) finish_holder[OF open_at] Let_def)
qed

theorem holder_can_finish_witness:
  "is_ok (Complete (js_db demo_state) (js_claims demo_state ! 1) ''art'' 25)"
proof -
  have "1 < length (js_claims demo_state)" "claim_holds demo_state 1" by code_simp+
  from holder_can_finish[OF demo_reachable this] show ?thesis by blast
qed

section \<open>The worker loop\<close>

lemma keep_db_simps [simp]: "keep_db db (Inl e) = db" "keep_db db (Inr db') = db'"
  by (simp_all add: keep_db_def)

text \<open>What \<open>translate\<close> makes of a handler's outcome, for a claim that still holds its lease.\<close>

definition outcome_status :: "claim \<Rightarrow> job_row \<Rightarrow> go_error option \<Rightarrow> job_status" where
  "outcome_status c j err =
     (case err of
        None \<Rightarrow> (if j_cancel_requested j \<noteq> None then Cancelled else Succeeded)
      | Some e \<Rightarrow>
          if errors_is e CtxCanceled \<or> errors_is e CtxDeadlineExceeded
          then (if j_cancel_requested j \<noteq> None then Cancelled
                else if c_dispatched c then Unknown else Queued)
          else if as_retryable e \<and> jb_attempt (c_job c) + 1 < jb_max_attempts (c_job c) then Queued
          else Failed)"

lemma upd_rows_member:
  "j \<in> set js \<Longrightarrow> P j \<Longrightarrow> job_key (f j) = k \<Longrightarrow> j_status (f j) = st \<Longrightarrow>
   list_ex (\<lambda>j'. job_key j' = k \<and> j_status j' = st) (upd_rows P f js)"
  using upd_rows_in[of j js P f] by (auto simp: list_ex_iff)

text \<open>
  The worker loop's outcome table. For a claim that holds its lease, the handler's return
  moves the job to: cancelled when it returns (or stops on its context) after the owner asked to
  cancel; succeeded on plain success; unknown when the context ended after the dispatch was
  recorded; queued when it ended before it; queued for a retryable error with attempts left;
  failed otherwise.
\<close>

theorem translate_outcome:
  assumes "jobs_reachable dig uuid_ok base s" and "n < length (js_claims s)" and "claim_holds s n"
    and "j \<in> set (d_jobs (js_db s))" and "job_key j = claim_job (js_claims s ! n)"
  shows "list_ex (\<lambda>j'. job_key j' = job_key j \<and> j_status j' = outcome_status (js_claims s ! n) j err)
    (d_jobs (translate base2 (js_db s) (js_claims s ! n) ref err wall now))"
proof -
  let ?c = "js_claims s ! n"
  have inv: "jobs_inv s" by (rule jobs_reachable_inv[OF assms(1)])
  obtain j0 where j0: "j0 \<in> set (d_jobs (js_db s))" "job_key j0 = claim_job ?c"
      "under_lease (\<lambda>_. holds_lease) (js_db s) ?c j0"
      "find_row (under_lease (\<lambda>_. holds_lease) (js_db s) ?c) (d_jobs (js_db s)) = Some j0"
      "\<exists>a\<in>set (d_attempts (js_db s)). is_open_attempt (jb_tenant (c_job ?c)) (c_attempt ?c) a"
    using holder_row[OF inv assms(2,3)] .
  have jj: "j0 = j" using job_unique[OF jobs_inv_db[OF inv] j0(1) assms(4)] j0(2) assms(5) by simp
  note j = j0(3,4)[unfolded jj]
  have open_at: "\<exists>a\<in>set (d_attempts (js_db s\<lparr>d_jobs := js\<rparr>)).
      is_open_attempt (jb_tenant (c_job ?c)) (c_attempt ?c) a" for js
    using j0(5) by simp
  note run = fenced_holder[where P = "under_lease (\<lambda>_. holds_lease) (js_db s) ?c", OF assms(4) j(1)] finish_holder[OF open_at]
  note member = upd_rows_member[where P = "under_lease (\<lambda>_. holds_lease) (js_db s) ?c", OF assms(4) j(1)]
  have cancel: "ClaimCancelRequested (js_db s) ?c = Inr (j_cancel_requested j \<noteq> None)"
    by (simp add: ClaimCancelRequested_def CancelRequested_def j(2))
  have complete: "keep_db (js_db s) (bind_r (Complete (js_db s) ?c ref now) (\<lambda>(db', _). Inr db')) =
      \<lparr>d_jobs = upd_rows (under_lease (\<lambda>_. holds_lease) (js_db s) ?c) (complete_row ref now) (d_jobs (js_db s)),
       d_attempts = upd_rows (is_open_attempt (jb_tenant (c_job ?c)) (c_attempt ?c))
         (\<lambda>a. a\<lparr>a_status := AttSucceeded, a_finished := Some now\<rparr>) (d_attempts (js_db s))\<rparr>"
    by (simp add: Complete_def CompleteJob_def j(2) run keep_db_def Let_def)
  have kr: "job_key (complete_row ref now j) = job_key j" "job_key (unknown_row doc now j) = job_key j"
      "job_key (release_row j) = job_key j" "job_key (fail_row retry nb doc now j) = job_key j" for doc retry nb
    by (simp_all add: complete_row_def unknown_row_def release_row_def fail_row_def job_key_def)
  show ?thesis
  proof (cases err)
    case None
    then show ?thesis
      by (simp add: translate_def complete outcome_status_def)
         (intro conjI impI member kr(1); simp add: complete_row_def)
  next
    case (Some e)
    show ?thesis
    proof (cases "errors_is e CtxCanceled \<or> errors_is e CtxDeadlineExceeded")
      case True
      then show ?thesis
        by (simp add: translate_def Some complete cancel outcome_status_def MarkUnknown_def
              MarkUnknownJob_def Release_def ReleaseJob_def run)
           (intro conjI impI member kr(1) kr(2) kr(3);
              simp add: complete_row_def unknown_row_def release_row_def)
    next
      case False
      then show ?thesis
        by (simp add: translate_def Some outcome_status_def Fail_def FailJob_def run
              will_retry_def FailureClassFor_def)
           (intro conjI impI member kr(4); simp add: fail_row_def)
    qed
  qed
qed

theorem translate_outcome_witness:
  "list_ex (\<lambda>j'. job_key j' = (''t'', ''job_1'') \<and> j_status j' = Unknown)
     (d_jobs (translate 100000000 (js_db demo_state) (js_claims demo_state ! 1) [] (Some CtxCanceled) 25 25))"
proof -
  let ?j = "hd (d_jobs (js_db demo_state))"
  have f: "1 < length (js_claims demo_state)" "claim_holds demo_state 1"
      "?j \<in> set (d_jobs (js_db demo_state))" "job_key ?j = claim_job (js_claims demo_state ! 1)"
      "job_key ?j = (''t'', ''job_1'')"
      "outcome_status (js_claims demo_state ! 1) ?j (Some CtxCanceled) = Unknown"
    by code_simp+
  show ?thesis
    using translate_outcome[OF demo_reachable f(1-4), of "Some CtxCanceled" 100000000 "[]" 25 25]
    unfolding f(5,6) .
qed

section \<open>The retry delay\<close>

lemma sint_double:
  assumes "0 < sint d" and "sint d < 2 ^ 62"
  shows "sint (d * 2 :: i64) = sint d * 2"
proof -
  have "sint (d * 2 :: i64) = signed_take_bit 63 (sint d * 2)"
    using sint_word_ariths(3)[of d 2] by simp
  also have "\<dots> = sint d * 2" by (rule signed_take_bit_int_eq_self) (use assms in simp_all)
  finally show ?thesis .
qed

lemma delay_cap_le: "delay_cap \<le>s d \<longleftrightarrow> 30000000000 \<le> sint d"
  by (simp add: word_sle_eq delay_cap_def)

lemma retryDelay_loop_eq:
  assumes "0 < sint d" and "sint d < 30000000000"
  shows "sint (retryDelay_loop n d) = min 30000000000 (sint d * 2 ^ n)"
  using assms
proof (induction n arbitrary: d)
  case 0
  then show ?case by simp
next
  case (Suc n)
  have d2: "sint (d * 2) = sint d * 2" by (rule sint_double) (use Suc.prems in simp_all)
  show ?case
  proof (cases "30000000000 \<le> sint (d * 2)")
    case True
    have "sint d \<le> sint d * 2 ^ n"
      using mult_left_mono[of 1 "2 ^ n" "sint d"] Suc.prems by simp
    moreover have "sint d * 2 ^ Suc n = 2 * (sint d * 2 ^ n)" by simp
    ultimately have "30000000000 \<le> sint d * 2 ^ Suc n" using True d2 by linarith
    then show ?thesis using True by (simp add: Let_def delay_cap_le) (simp add: delay_cap_def)
  next
    case False
    then show ?thesis using Suc.IH[of "d * 2"] Suc.prems d2 by (simp add: Let_def delay_cap_le)
  qed
qed

text \<open>
  The retry delay after attempt \<open>n\<close> is exactly \<open>min(30 s, base * 2^n)\<close> for every positive
  base below 2^62 ns (about 146 years), in the code's wrapping 64-bit arithmetic: it never
  overflows, never goes negative and never exceeds the cap.
\<close>

theorem retryDelay_exact:
  assumes "0 < sint base" and "sint base < 2 ^ 62" and "1 \<le> attempt"
  shows "sint (retryDelay base attempt) = min 30000000000 (sint base * 2 ^ nat attempt)"
proof -
  obtain n where n: "nat attempt = Suc n" using assms(3) by (cases "nat attempt") auto
  have d2: "sint (base * 2) = sint base * 2" by (rule sint_double[OF assms(1,2)])
  show ?thesis
  proof (cases "30000000000 \<le> sint (base * 2)")
    case True
    have "sint base \<le> sint base * 2 ^ n"
      using mult_left_mono[of 1 "2 ^ n" "sint base"] assms(1) by simp
    moreover have "sint base * 2 ^ Suc n = 2 * (sint base * 2 ^ n)" by simp
    ultimately have "30000000000 \<le> sint base * 2 ^ Suc n" using True d2 by linarith
    then show ?thesis using True by (simp add: retryDelay_def n Let_def delay_cap_le) (simp add: delay_cap_def)
  next
    case False
    then show ?thesis using retryDelay_loop_eq[of "base * 2" n] assms(1) d2
      by (simp add: retryDelay_def n Let_def delay_cap_le)
  qed
qed

theorem retryDelay_exact_witness: "sint (retryDelay 100000000 3) = 800000000"
  using retryDelay_exact[of 100000000 3] by simp

section \<open>Divergences\<close>

text \<open>
  A cancel request on a running job is only honoured when that run completes. When the worker
  fails retryably or releases the job instead, the row goes back to queued with the request still
  set, and no claim ever takes it again: it neither runs nor becomes cancelled.
\<close>

theorem cancelled_retry_is_stranded:
  assumes "db_inv db" and "j \<in> set (d_jobs db)" and "j_status j = Queued" and "j_cancel_requested j \<noteq> None"
    and "ClaimJob db worker ttl now locked att = Inr (db', out)"
  shows "j \<in> set (d_jobs db')"
proof -
  have sw: "j \<in> set (d_jobs (sweep now db))"
    using upd_rows_in[OF assms(2), of "sweepable now (d_attempts db)" "sweep_row now"] assms(3)
    by (simp add: sweep_eq sweepable_def)
  show ?thesis using assms(5)
  proof (cases rule: ClaimJob_cases)
    case idle
    then show ?thesis using sw by simp
  next
    case (grant c)
    have "c \<noteq> j" using next_job_Some(2)[OF grant(1)] assms(4) by (auto simp: claimable_def)
    then have "job_key j \<noteq> job_key c"
      using job_unique[OF db_inv_sweep[OF assms(1)] sw next_job_Some(1)[OF grant(1)]] by blast
    then show ?thesis
      using upd_rows_in[OF sw, of "\<lambda>j. job_key j = job_key c" "grant_row worker ttl now"]
      by (simp add: grant(2) granted_def)
  qed
qed

definition demo_cancelled :: jobs_state where
  "demo_cancelled =
     jobs_run demo_dig (\<lambda>_. True) 100000000 init_jobs
       [EvEnqueue demo_principal demo_request ''job_1'' 0, EvLease ''w1'' 10 1 [] ''att_1'',
        EvCancel demo_principal ''job_1'' 2,
        EvFail 0 (Some (RetryableError (PlainError ''upstream''))) FailureRetryable 3 3]"

theorem cancelled_retry_is_stranded_witness:
  "j_status (hd (d_jobs (js_db demo_cancelled))) = Queued \<and>
   j_cancel_requested (hd (d_jobs (js_db demo_cancelled))) \<noteq> None \<and>
   list_ex (\<lambda>j. j_status j = Queued) (d_jobs (sweep 1000 (js_db demo_cancelled)))"
proof -
  let ?j = "hd (d_jobs (js_db demo_cancelled))"
  have f: "?j \<in> set (d_jobs (js_db demo_cancelled))" "j_status ?j = Queued" "j_cancel_requested ?j \<noteq> None"
      "next_job 1000 [] (sweep 1000 (js_db demo_cancelled)) = None"
    by code_simp+
  have inv: "db_inv (js_db demo_cancelled)"
    unfolding demo_cancelled_def by (rule jobs_inv_db[OF jobs_invariant_run])
  have "ClaimJob (js_db demo_cancelled) ''w2'' 10 1000 [] ''att_2'' = Inr (sweep 1000 (js_db demo_cancelled), None)"
    by (simp add: ClaimJob_def Let_def f(4))
  from cancelled_retry_is_stranded[OF inv f(1-3) this] show ?thesis
    using f(2,3) by (auto simp: list_ex_iff)
qed

text \<open>
  The retry budget: \<open>Fail\<close> reads the attempt counter after the claim has already incremented it, so a job with
  \<open>max_attempts = 2\<close> is failed after its first retryable failure: one attempt is never used.
\<close>

theorem retry_budget_is_one_short:
  "list_all (\<lambda>j. j_status j = Failed \<and> j_attempts j = 1 \<and> j_max_attempts j = 2)
     (d_jobs (js_db (jobs_run demo_dig (\<lambda>_. True) 100000000 init_jobs
       [EvEnqueue demo_principal (demo_request\<lparr>er_max_attempts := 2\<rparr>) ''job_1'' 0,
        EvLease ''w1'' 10 1 [] ''att_1'',
        EvFail 0 (Some (RetryableError (PlainError ''upstream''))) FailureRetryable 3 3])))"
  by code_simp

end
