(* ===== verification/JobsLifecycle.thy ===== *)
theory JobsLifecycle
  imports JobsProps
begin

text \<open>
  The abstract specification of the job queue and its refinement: a job is a status and whether its
  cancellation was asked for, and each service call may move it along the edges of \<open>life_moves\<close> only. Every step of
  the job system over the two tables is such a move of every job (a simulation), so what holds along every path
  of the abstract machine holds of every run of the code's model.
\<close>

section \<open>Refinement of a transition system\<close>

locale refined_system = transition_system step inv
  for step :: "'s \<Rightarrow> 'op \<Rightarrow> 's" and inv :: "'s \<Rightarrow> bool" +
  fixes view_of :: "'s \<Rightarrow> 'k \<Rightarrow> 'v"
    and edges :: "'op \<Rightarrow> 'v \<Rightarrow> 'v list"
  assumes simulates: "inv s \<Longrightarrow> view_of (step s a) k = view_of s k \<or> view_of (step s a) k \<in> set (edges a (view_of s k))"
begin

fun view_path :: "'op list \<Rightarrow> 'v \<Rightarrow> 'v \<Rightarrow> bool" where
  "view_path [] v w \<longleftrightarrow> v = w"
| "view_path (a # ops) v w \<longleftrightarrow> view_path ops v w \<or> list_ex (\<lambda>v'. view_path ops v' w) (edges a v)"

lemma run_path: "inv s \<Longrightarrow> view_path ops (view_of s k) (view_of (run s ops) k)"
proof (induction ops arbitrary: s)
  case (Cons a ops)
  have "view_path ops (view_of (step s a) k) (view_of (run (step s a) ops) k)"
    by (rule Cons.IH) (rule step_inv[OF Cons.prems])
  then show ?case using simulates[OF Cons.prems, of a k] by (auto simp: list_ex_iff)
qed simp

lemma view_stable:
  assumes "\<And>a v w. P v \<Longrightarrow> w \<in> set (edges a v) \<Longrightarrow> P w" and "inv s" and "P (view_of s k)"
  shows "P (view_of (run s ops) k)"
proof (rule run_stable[where P = "\<lambda>s. P (view_of s k)"])
  fix s a assume "inv s" "P (view_of s k)"
  then show "P (view_of (step s a) k)" using simulates[of s a k] assms(1) by force
qed (use assms(2,3) in blast)+

end

section \<open>The lifecycle of a job\<close>

type_synonym job_view = "(job_status \<times> bool) option"

definition view_job :: "job_row \<Rightarrow> job_status \<times> bool" where
  "view_job j = (j_status j, j_cancel_requested j \<noteq> None)"

definition job_view :: "jobs_state \<Rightarrow> string \<times> string \<Rightarrow> job_view" where
  "job_view s k = map_option view_job (find_row (\<lambda>j. job_key j = k) (d_jobs (js_db s)))"

definition life_moves :: "jobs_event \<Rightarrow> job_view \<Rightarrow> job_view list" where
  "life_moves ev v =
     (case v of
        None \<Rightarrow> (case ev of EvEnqueue _ _ _ _ \<Rightarrow> [Some (Queued, False)] | _ \<Rightarrow> [])
      | Some (st, cancelled) \<Rightarrow>
          (case ev of
             EvLease _ _ _ _ _ \<Rightarrow>
               (if st = Queued \<and> \<not> cancelled then [Some (Running, False)]
                else if st = Running then [Some (Unknown, cancelled)] else [])
           | EvComplete _ _ _ \<Rightarrow>
               (if st = Running then [Some (if cancelled then Cancelled else Succeeded, cancelled)] else [])
           | EvFail _ _ _ _ _ \<Rightarrow> (if st = Running then [Some (Queued, cancelled), Some (Failed, cancelled)] else [])
           | EvMarkUnknown _ _ _ \<Rightarrow> (if st = Running then [Some (Unknown, cancelled)] else [])
           | EvRelease _ _ \<Rightarrow> (if st = Running then [Some (Queued, cancelled)] else [])
           | EvCancel _ _ _ \<Rightarrow>
               (if st = Queued then [Some (Cancelled, True)] else if st = Running then [Some (Running, True)] else [])
           | EvDelete _ _ _ \<Rightarrow> (if st \<noteq> Deleted then [Some (Deleted, cancelled)] else [])
           | _ \<Rightarrow> []))"

definition view_next :: "jobs_event \<Rightarrow> job_view \<Rightarrow> job_view \<Rightarrow> bool" where
  "view_next ev v w \<longleftrightarrow> w = v \<or> w \<in> set (life_moves ev v)"

definition rows_view :: "job_row list \<Rightarrow> string \<times> string \<Rightarrow> job_view" where
  "rows_view js k = map_option view_job (find_row (\<lambda>j. job_key j = k) js)"

lemma view_next_refl [simp]: "view_next ev v v"
  by (simp add: view_next_def)

lemma rows_view_upd:
  assumes "\<And>j. P j \<Longrightarrow> job_key (f j) = job_key j"
  shows "rows_view (upd_rows P f js) k =
    map_option (\<lambda>j. view_job (if P j then f j else j)) (find_row (\<lambda>j. job_key j = k) js)"
proof -
  have "find_row (\<lambda>j. job_key j = k) (upd_rows P f js) =
      map_option (\<lambda>j. if P j then f j else j) (find_row (\<lambda>j. job_key j = k) js)"
    by (rule find_row_upd_rows) (simp only: assms)
  then show ?thesis by (simp add: rows_view_def option.map_comp comp_def)
qed

text \<open>An UPDATE that keeps the keys moves every job along the lifecycle if it moves every row so.\<close>

lemma view_next_upd:
  assumes "\<And>j. P j \<Longrightarrow> job_key (f j) = job_key j"
    and "\<And>j. j \<in> set js \<Longrightarrow> P j \<Longrightarrow> view_next ev (Some (view_job j)) (Some (view_job (f j)))"
  shows "view_next ev (rows_view js k) (rows_view (upd_rows P f js) k)"
proof (cases "find_row (\<lambda>j. job_key j = k) js")
  case None
  then show ?thesis by (simp add: rows_view_upd[of P f, OF assms(1)]) (simp add: rows_view_def)
next
  case (Some j)
  have "j \<in> set js" using find_row_Some[OF Some] ..
  then have "view_next ev (Some (view_job j)) (Some (view_job (if P j then f j else j)))"
    using assms(2) by (cases "P j") simp_all
  then show ?thesis by (simp only: rows_view_upd[of P f, OF assms(1)] Some option.map) (simp add: rows_view_def Some)
qed

lemmas row_updates = complete_row_def fail_row_def release_row_def unknown_row_def cancel_row_def
  delete_row_def sweep_row_def grant_row_def

lemma lease_moves:
  "j_status j = Running \<Longrightarrow> view_next (EvComplete n ref now) (Some (view_job j)) (Some (view_job (complete_row ref now j)))"
  "j_status j = Running \<Longrightarrow> view_next (EvFail n cause cls wall now) (Some (view_job j)) (Some (view_job (fail_row retry nb doc now j)))"
  "j_status j = Running \<Longrightarrow> view_next (EvRelease n now) (Some (view_job j)) (Some (view_job (release_row j)))"
  "j_status j = Running \<Longrightarrow> view_next (EvMarkUnknown n reason now) (Some (view_job j)) (Some (view_job (unknown_row doc now j)))"
  "j_status j \<in> {Queued, Running} \<Longrightarrow> view_next (EvCancel p i now) (Some (view_job j)) (Some (view_job (cancel_row now j)))"
  "j_status j \<noteq> Deleted \<Longrightarrow> view_next (EvDelete p i now) (Some (view_job j)) (Some (view_job (delete_row now j)))"
  by (auto simp: view_next_def life_moves_def view_job_def row_updates split: option.splits)

lemma row_update_keys:
  "job_key (complete_row ref now j) = job_key j" "job_key (fail_row retry nb doc now j) = job_key j"
  "job_key (release_row j) = job_key j" "job_key (unknown_row doc now j) = job_key j"
  "job_key (cancel_row now j) = job_key j" "job_key (delete_row now j) = job_key j"
  "job_key (sweep_row now j) = job_key j" "job_key (grant_row worker ttl now j) = job_key j"
  by (simp_all add: job_key_def row_updates)

lemma ClaimJob_view:
  assumes inv: "db_inv db" and r: "ClaimJob db w ttl now locked att = Inr (db', out)"
  shows "view_next (EvLease w ttl now locked att) (rows_view (d_jobs db) k) (rows_view (d_jobs db') k)"
proof -
  let ?ev = "EvLease w ttl now locked att" and ?db1 = "sweep now db"
  have sw: "rows_view (d_jobs ?db1) k = rows_view (d_jobs db) k \<or>
      (\<exists>c. rows_view (d_jobs db) k = Some (Running, c) \<and> rows_view (d_jobs ?db1) k = Some (Unknown, c))"
  proof (cases "find_row (\<lambda>j. job_key j = k) (d_jobs db)")
    case None
    then show ?thesis by (simp only: sweep_eq jobs_db.simps rows_view_upd[OF row_update_keys(7)]) (simp add: rows_view_def)
  next
    case (Some j)
    have b: "rows_view (d_jobs db) k = Some (view_job j)" by (simp add: rows_view_def Some)
    have a: "rows_view (d_jobs ?db1) k = Some (view_job (if sweepable now (d_attempts db) j then sweep_row now j else j))"
      by (simp only: sweep_eq jobs_db.simps rows_view_upd[OF row_update_keys(7)] Some option.map)
    show ?thesis
    proof (cases "sweepable now (d_attempts db) j")
      case True
      then show ?thesis unfolding a b using sweepable_running[OF True] by (simp add: view_job_def sweep_row_def)
    qed (simp add: a b)
  qed
  show ?thesis using r
  proof (cases rule: ClaimJob_cases)
    case idle
    then show ?thesis using sw by (auto simp: view_next_def life_moves_def)
  next
    case (grant c)
    have c: "c \<in> set (d_jobs ?db1)" "claimable now (d_attempts ?db1) c" using next_job_Some[OF grant(1)] by blast+
    have find: "find_row (\<lambda>j. job_key j = job_key c) (d_jobs ?db1) = Some c"
    proof -
      have "find_row (\<lambda>j. job_key j = job_key c) (d_jobs ?db1) \<noteq> None"
        unfolding find_row_None using c(1) by auto
      then obtain x where x: "find_row (\<lambda>j. job_key j = job_key c) (d_jobs ?db1) = Some x" by auto
      have "x \<in> set (d_jobs ?db1)" "job_key x = job_key c" using find_row_Some[OF x] by simp_all
      then have "x = c" by (rule job_unique[OF db_inv_sweep[OF inv] _ c(1)])
      then show ?thesis using x by simp
    qed
    have g: "d_jobs db' = upd_rows (\<lambda>j. job_key j = job_key c) (grant_row w ttl now) (d_jobs ?db1)"
      by (simp add: grant(2) granted_def)
    show ?thesis
    proof (cases "k = job_key c")
      case False
      have "(if job_key j = job_key c then grant_row w ttl now j else j) = j"
        if "find_row (\<lambda>j. job_key j = k) (d_jobs ?db1) = Some j" for j
        using find_row_Some[OF that] False by auto
      then have "rows_view (d_jobs db') k = rows_view (d_jobs ?db1) k"
        unfolding g rows_view_upd[of "\<lambda>j. job_key j = job_key c", OF row_update_keys(8)]
        by (cases "find_row (\<lambda>j. job_key j = k) (d_jobs ?db1)") (simp_all add: rows_view_def)
      then show ?thesis using sw by (auto simp: view_next_def life_moves_def)
    next
      case True
      have one: "rows_view (d_jobs ?db1) k = Some (view_job c)" by (simp only: rows_view_def True find option.map)
      have two: "rows_view (d_jobs db') k = Some (Running, False)"
        using c(2) unfolding g rows_view_upd[of "\<lambda>j. job_key j = job_key c", OF row_update_keys(8)] True find
        by (simp add: view_job_def grant_row_def claimable_def)
      from c(2) have "view_job c = (Queued, False) \<or> view_job c = (Running, False)"
        by (auto simp: view_job_def claimable_def)
      moreover have "fst (view_job c) \<noteq> Unknown" using c(2) by (auto simp: view_job_def claimable_def)
      then have "rows_view (d_jobs db) k = Some (view_job c)"
        using sw unfolding one by (elim disjE exE conjE) simp_all
      ultimately show ?thesis unfolding two by (elim disjE) (simp_all add: view_next_def life_moves_def)
    qed
  qed
qed

lemma rows_view_insert:
  assumes "job_key n \<notin> job_key ` set js"
  shows "rows_view (js @ [n]) k = (if k = job_key n then Some (view_job n) else rows_view js k)"
proof -
  have "find_row (\<lambda>j. job_key j = k) (js @ [n]) =
      (if k = job_key n then Some n else find_row (\<lambda>j. job_key j = k) js)"
    using assms by (induction js) auto
  then show ?thesis by (simp add: rows_view_def)
qed

lemma rows_view_absent: "k \<notin> job_key ` set js \<Longrightarrow> rows_view js k = None"
  by (induction js) (auto simp: rows_view_def)

lemma InsertJob_view:
  assumes "InsertJob uuid_ok db r now = Inr (db', out)"
  shows "view_next (EvEnqueue p req i t) (rows_view (d_jobs db) k) (rows_view (d_jobs db') k)"
proof (cases out)
  case None
  with assms have n: "db' = db\<lparr>d_jobs := d_jobs db @ [row_of_record r now]\<rparr>"
      "job_key (row_of_record r now) \<notin> job_key ` set (d_jobs db)"
    by (auto simp: InsertJob_new row_of_record_keys)
  then show ?thesis
    using rows_view_absent[OF n(2)]
    by (simp add: rows_view_insert view_next_def life_moves_def) (simp add: view_job_def row_of_record_def)
next
  case (Some x)
  then obtain j same where "out = Some (j, same)" by (cases x) auto
  then show ?thesis using InsertJob_old assms by (metis view_next_refl)
qed

text \<open>A fenced write keeps the statuses or moves the leased job.\<close>

lemma ExtendLease_view: "ExtendLease db t i owner fence ttl now = Inr (db', e) \<Longrightarrow> rows_view (d_jobs db') k = rows_view (d_jobs db) k"
  and WriteProgress_view: "WriteProgress db t i owner fence pr = Inr db' \<Longrightarrow> rows_view (d_jobs db') k = rows_view (d_jobs db) k"
  and MarkDispatchedJob_view: "MarkDispatchedJob db t i owner fence att = Inr db' \<Longrightarrow> rows_view (d_jobs db') k = rows_view (d_jobs db) k"
proof -
  have keep: "rows_view (upd_rows P f js) k = rows_view js k"
    if "\<And>j. job_key (f j) = job_key j" "\<And>j. view_job (f j) = view_job j" for P f js
  proof -
    have "view_job (if P j then f j else j) = view_job j" for j using that(2)[of j] by simp
    then show ?thesis by (simp only: rows_view_upd[of P f, OF that(1)]) (simp add: rows_view_def)
  qed
  show "ExtendLease db t i owner fence ttl now = Inr (db', e) \<Longrightarrow> rows_view (d_jobs db') k = rows_view (d_jobs db) k"
    by (auto simp: ExtendLease_def bind_r_Inr fenced_Inr intro!: keep) (simp_all add: job_key_def view_job_def)
  show "WriteProgress db t i owner fence pr = Inr db' \<Longrightarrow> rows_view (d_jobs db') k = rows_view (d_jobs db) k"
    by (auto simp: WriteProgress_def bind_r_Inr fenced_Inr intro!: keep) (simp_all add: job_key_def view_job_def)
  show "MarkDispatchedJob db t i owner fence att = Inr db' \<Longrightarrow> rows_view (d_jobs db') k = rows_view (d_jobs db) k"
    by (auto simp: MarkDispatchedJob_def bind_r_Inr fenced_Inr intro!: keep split: if_splits)
      (simp_all add: job_key_def view_job_def)
qed

lemma finished_view:
  "CompleteJob db t i owner fence att ref now = Inr (db', st) \<Longrightarrow>
     view_next (EvComplete n ref now) (rows_view (d_jobs db) k) (rows_view (d_jobs db') k)"
  "FailJob db t i owner fence att retry nb doc now = Inr db' \<Longrightarrow>
     view_next (EvFail n cause cls wall now) (rows_view (d_jobs db) k) (rows_view (d_jobs db') k)"
  "ReleaseJob db t i owner fence att now = Inr db' \<Longrightarrow>
     view_next (EvRelease n now) (rows_view (d_jobs db) k) (rows_view (d_jobs db') k)"
  "MarkUnknownJob db t i owner fence att doc now = Inr db' \<Longrightarrow>
     view_next (EvMarkUnknown n reason now) (rows_view (d_jobs db) k) (rows_view (d_jobs db') k)"
  "CancelJob db t i now = Inr db' \<Longrightarrow>
     view_next (EvCancel p ii now) (rows_view (d_jobs db) k) (rows_view (d_jobs db') k)"
  "DeleteJob db t i now = Inr db' \<Longrightarrow>
     view_next (EvDelete p ii now) (rows_view (d_jobs db) k) (rows_view (d_jobs db') k)"
  by (auto simp only: CompleteJob_Inr FailJob_Inr ReleaseJob_Inr MarkUnknownJob_Inr jobs_db.simps
      intro!: view_next_upd row_update_keys lease_moves dest!: holds_lease_running)
    (auto simp: CancelJob_def DeleteJob_def Let_def split: if_splits
      intro!: view_next_upd row_update_keys lease_moves)

section \<open>The simulation\<close>

lemma job_view_rows: "job_view s k = rows_view (d_jobs (js_db s)) k"
  by (simp add: job_view_def rows_view_def)

lemma view_set_db:
  "(\<And>db'. r = Inr db' \<Longrightarrow> view_next ev (rows_view (d_jobs (js_db s)) k) (rows_view (d_jobs db') k)) \<Longrightarrow>
     view_next ev (job_view s k) (job_view (set_db s r) k)"
  by (cases r) (simp_all add: job_view_rows set_db_def keep_db_def)

lemma view_set_claim:
  "(\<And>db' c. r = Inr (db', c) \<Longrightarrow> view_next ev (rows_view (d_jobs (js_db s)) k) (rows_view (d_jobs db') k)) \<Longrightarrow>
     view_next ev (job_view s k) (job_view (set_claim s n r) k)"
  by (cases r) (auto simp: job_view_rows set_claim_def)

lemma view_with_claim:
  "(\<And>c. view_next ev (job_view s k) (job_view (f c) k)) \<Longrightarrow>
     view_next ev (job_view s k) (job_view (with_claim s n f) k)"
  by (simp add: with_claim_def)

lemma view_lease:
  assumes "jobs_inv s"
  shows "view_next (EvLease w ttl now locked att) (job_view s k)
    (job_view (jobs_step dig uuid_ok base s (EvLease w ttl now locked att)) k)"
proof (cases "ClaimJob (js_db s) w ttl now locked att")
  case (Inl e)
  then show ?thesis by (simp add: Lease_def)
next
  case (Inr x)
  then obtain db' out where r: "ClaimJob (js_db s) w ttl now locked att = Inr (db', out)" by (cases x) auto
  have "db_inv (js_db s)" using assms by (simp add: jobs_inv_def)
  note v = ClaimJob_view[OF this r, of k]
  show ?thesis using v r by (cases out) (simp_all add: Lease_def job_view_rows)
qed

lemma jobs_step_view:
  assumes inv: "jobs_inv s"
  shows "view_next ev (job_view s k) (job_view (jobs_step dig uuid_ok base s ev) k)"
proof (cases ev)
  case (EvLease w ttl now locked att)
  then show ?thesis using view_lease[OF inv] by simp
next
  case (EvEnqueue p req i now)
  show ?thesis unfolding EvEnqueue jobs_step.simps
    by (rule view_set_db)
       (auto simp: Enqueue_def bind_r_Inr Let_def split: if_splits option.splits prod.splits dest: InsertJob_view)
next
  case (EvHeartbeat n ttl now)
  show ?thesis unfolding EvHeartbeat jobs_step.simps
    by (rule view_with_claim, rule view_set_claim) (auto simp: Heartbeat_def bind_r_Inr dest!: ExtendLease_view[where k = k])
next
  case (EvProgress n pct msg stamp)
  show ?thesis unfolding EvProgress jobs_step.simps
    by (rule view_with_claim, rule view_set_db) (auto simp: Progress_def bind_r_Inr dest!: WriteProgress_view[where k = k])
next
  case (EvMarkDispatched n)
  show ?thesis unfolding EvMarkDispatched jobs_step.simps
    by (rule view_with_claim, rule view_set_claim) (auto simp: MarkDispatched_def bind_r_Inr dest!: MarkDispatchedJob_view[where k = k])
next
  case (EvComplete n ref now)
  show ?thesis unfolding EvComplete jobs_step.simps
    by (rule view_with_claim, rule view_set_db) (auto simp: Complete_def bind_r_Inr intro: finished_view(1))
next
  case (EvFail n cause cls wall now)
  show ?thesis unfolding EvFail jobs_step.simps
    by (rule view_with_claim, rule view_set_db) (auto simp: Fail_def intro: finished_view(2))
next
  case (EvMarkUnknown n reason now)
  show ?thesis unfolding EvMarkUnknown jobs_step.simps
    by (rule view_with_claim, rule view_set_db) (auto simp: MarkUnknown_def intro: finished_view(4))
next
  case (EvRelease n now)
  show ?thesis unfolding EvRelease jobs_step.simps
    by (rule view_with_claim, rule view_set_db) (auto simp: Release_def intro: finished_view(3))
next
  case (EvCancel p i now)
  show ?thesis unfolding EvCancel jobs_step.simps
    by (rule view_set_db) (auto simp: Cancel_def bind_r_Inr split: if_splits intro: finished_view(5))
next
  case (EvDelete p i now)
  show ?thesis unfolding EvDelete jobs_step.simps
    by (rule view_set_db) (auto simp: Delete_def bind_r_Inr split: if_splits intro: finished_view(6))
qed

interpretation jl: refined_system "jobs_step dig uuid_ok base" jobs_inv job_view life_moves for dig uuid_ok base
  by unfold_locales (use jobs_step_view in \<open>simp add: view_next_def\<close>)

text \<open>
  C17: The job queue refines its lifecycle. Seen as a status and a cancellation request per job, every service
  call on any reachable state leaves each job where it is or moves it along an edge that
  \<open>life_moves\<close> gives to this very call: a job is created queued, only a lease starts it, only \<open>Complete\<close> ends it
  succeeded (cancelled when that was requested), only \<open>Fail\<close> and \<open>Release\<close> queue it again, and nothing but
  \<open>Delete\<close> moves a finished job.
\<close>

theorem jobs_refine_lifecycle:
  assumes "jobs_reachable dig uuid_ok base s"
  shows "job_view (jobs_step dig uuid_ok base s ev) k = job_view s k \<or>
    job_view (jobs_step dig uuid_ok base s ev) k \<in> set (life_moves ev (job_view s k))"
  by (rule jl.simulates[OF jobs_reachable_inv[OF assms]])

theorem jobs_refine_lifecycle_witness:
  "job_view (jobs_step demo_dig (\<lambda>_. True) 100000000 demo_state (EvComplete 1 ''ref'' 12)) (''t'', ''job_1'') = Some (Succeeded, False)"
proof -
  have "job_view demo_state (''t'', ''job_1'') = Some (Running, False)"
    "job_view (jobs_step demo_dig (\<lambda>_. True) 100000000 demo_state (EvComplete 1 ''ref'' 12)) (''t'', ''job_1'') \<noteq> Some (Running, False)"
    by code_simp+
  then show ?thesis
    using jobs_refine_lifecycle[OF demo_reachable, of "EvComplete 1 ''ref'' 12" "(''t'', ''job_1'')"]
    by (simp add: life_moves_def)
qed

text \<open>
  A requested cancellation is honoured. From the moment a job that has not succeeded carries a cancel
  request, it never succeeds in any later run, and if it is queued no worker is ever given it again.
\<close>

theorem cancel_is_honoured:
  assumes "jobs_reachable dig uuid_ok base s" and "job_view s k = Some (st, True)" and "st \<noteq> Succeeded"
    and "s' = jobs_run dig uuid_ok base s evs"
  shows "(case job_view s' k of
      Some (st', c) \<Rightarrow> c \<and> st' \<noteq> Succeeded \<and> (if st = Queued then st' \<in> {Queued, Cancelled, Deleted} else True)
    | None \<Rightarrow> False)"
proof -
  let ?P = "\<lambda>v. case v of Some (st', c) \<Rightarrow> c \<and> st' \<noteq> Succeeded \<and>
      (if st = Queued then st' \<in> {Queued, Cancelled, Deleted} else True) | None \<Rightarrow> False"
  have "?P w" if "?P v" "w \<in> set (life_moves a v)" for a v w
    using that by (cases a) (auto simp: life_moves_def split: option.splits prod.splits if_splits)
  then have "?P (job_view (js.run dig uuid_ok base s evs) k)"
    by (rule jl.view_stable[OF _ jobs_reachable_inv[OF assms(1)]]) (use assms(2,3) in auto)
  then show ?thesis by (simp only: assms(4) jobs_run_js)
qed

theorem cancel_is_honoured_witness:
  "(case job_view (jobs_run demo_dig (\<lambda>_. True) 100000000
        (jobs_run demo_dig (\<lambda>_. True) 100000000 demo_state [EvCancel demo_principal ''job_1'' 12])
        [EvComplete 1 ''ref'' 13]) (''t'', ''job_1'') of
      Some (st', c) \<Rightarrow> c \<and> st' \<noteq> Succeeded | None \<Rightarrow> False)"
proof -
  let ?s = "jobs_run demo_dig (\<lambda>_. True) 100000000 demo_state [EvCancel demo_principal ''job_1'' 12]"
  have r: "jobs_reachable demo_dig (\<lambda>_. True) 100000000 ?s"
    unfolding jobs_reachable_def demo_state_def
    by (rule exI[of _ "demo_events @ [EvCancel demo_principal ''job_1'' 12]"]) (simp add: jobs_run_def)
  have v: "job_view ?s (''t'', ''job_1'') = Some (Running, True)" by code_simp
  from cancel_is_honoured[OF r v _ refl, of "[EvComplete 1 ''ref'' 13]"] show ?thesis
    by (auto split: option.splits)
qed

end
