(* ===== verification/Money.thy ===== *)
theory Money
  imports Prelude
begin

text \<open>
  The exact arithmetic of internal/billing/service.go: signed overflow detection
  (\<open>checkedAdd\<close>), the 128-bit accumulator (\<open>big128\<close>, \<open>addRatMul\<close>), the shift-subtract
  division (\<open>div128\<close>) and the charge of a unit map under a price snapshot. int64 and uint64
  values are \<open>64 word\<close>; \<open>sint\<close> and \<open>unat\<close> read them. The lemmas show that \<open>div128\<close> is exact
  division, that a term of the charge is the exact ceiling (or floor) of its rational, and that
  \<open>charge\<close> is the exact sum or the overflow error, never a wrapped amount.
\<close>

section \<open>Definitions\<close>

subsection \<open>math/bits\<close>

text \<open>\<open>bits.Add64\<close> (sum and carry out) and \<open>bits.Mul64\<close> (high and low word).\<close>

definition add64 :: "u64 \<Rightarrow> u64 \<Rightarrow> u64 \<Rightarrow> u64 \<times> u64" where
  "add64 x y carry =
     (x + y + carry, if 2 ^ 64 \<le> unat x + unat y + unat carry then 1 else 0)"

definition mul64 :: "u64 \<Rightarrow> u64 \<Rightarrow> u64 \<times> u64" where
  "mul64 x y = (word_of_nat ((unat x * unat y) div 2 ^ 64), x * y)"

text \<open>Equations for evaluation, over binary integers.\<close>

lemma add64_code [code]:
  "add64 x y carry =
     (x + y + carry, if 18446744073709551616 \<le> uint x + uint y + uint carry then 1 else 0)"
proof -
  have "2 ^ 64 \<le> unat x + unat y + unat carry \<longleftrightarrow> (2 ^ 64 :: int) \<le> uint x + uint y + uint carry"
    by (simp only: uint_nat of_nat_add[symmetric] of_nat_le_iff[symmetric, where 'a = int])
       simp
  then show ?thesis by (simp add: add64_def)
qed

lemma mul64_code [code]: "mul64 x y = (word_of_int (uint x * uint y div 18446744073709551616), x * y)"
proof -
  have "uint x * uint y div 18446744073709551616 = int ((unat x * unat y) div 2 ^ 64)"
    by (simp add: zdiv_int)
  then show ?thesis by (simp only: mul64_def of_int_of_nat_eq)
qed

definition max_int64 :: u64 where
  "max_int64 = 0x7FFFFFFFFFFFFFFF"

subsection \<open>service.go: checkedAdd\<close>

definition checkedAdd :: "i64 \<Rightarrow> i64 \<Rightarrow> i64 \<times> bool" where
  "checkedAdd a b =
     (let (sum, carry) = add64 a b 0;
          overflow = (0 \<le>s a \<and> 0 \<le>s b \<and> sum <s 0) \<or> (a <s 0 \<and> b <s 0 \<and> 0 \<le>s sum)
      in (sum, overflow))"

subsection \<open>service.go: big128, div128, addRatMul, i64\<close>

record big128 =
  b_hi :: u64
  b_lo :: u64
  b_overflow :: bool

record u128 =
  q_hi :: u64
  q_lo :: u64

text \<open>
  The body of the loop of \<open>div128\<close> for the indices \<open>n - 1, \<dots>, 0\<close>; the loop starts with
  \<open>n = 128\<close>. All of \<open>rem <<= 1\<close>, the bit extraction and the two \<open>|=\<close> are on 64-bit words.
\<close>

fun div128_loop :: "nat \<Rightarrow> u64 \<Rightarrow> u64 \<Rightarrow> u64 \<Rightarrow> u64 \<Rightarrow> u64 \<Rightarrow> u64 \<Rightarrow> u64 \<times> u64 \<times> u64" where
  "div128_loop 0 hi lo q quoHi quoLo rem = (quoHi, quoLo, rem)"
| "div128_loop (Suc i) hi lo q quoHi quoLo rem =
     (let rem1 = push_bit 1 rem;
          b = (if 64 \<le> i then drop_bit (i - 64) hi AND 1 else drop_bit i lo AND 1);
          rem2 = rem1 OR b
      in if q \<le> rem2
         then (if 64 \<le> i
               then div128_loop i hi lo q (quoHi OR push_bit (i - 64) 1) quoLo (rem2 - q)
               else div128_loop i hi lo q quoHi (quoLo OR push_bit i 1) (rem2 - q))
         else div128_loop i hi lo q quoHi quoLo rem2)"

definition div128 :: "u64 \<Rightarrow> u64 \<Rightarrow> u64 \<Rightarrow> u128 \<times> u64" where
  "div128 hi lo q =
     (case div128_loop 128 hi lo q 0 0 0 of
        (quoHi, quoLo, rem) \<Rightarrow> (\<lparr>q_hi = quoHi, q_lo = quoLo\<rparr>, rem))"

datatype rounding = RoundingCeil | RoundingFloor | RoundingOther string

definition addRatMul :: "big128 \<Rightarrow> i64 \<Rightarrow> i64 \<Rightarrow> i64 \<Rightarrow> rounding \<Rightarrow> big128" where
  "addRatMul t a b q rule =
     (if b = 0 \<or> a = 0 then t
      else
        let (hi, lo) = mul64 a b;
            (quo0, rem) = div128 hi lo q;
            quo = (if rule = RoundingCeil \<and> rem > 0
                   then (let (lo2, carry) = add64 (q_lo quo0) 1 0
                         in \<lparr>q_hi = q_hi quo0 + carry, q_lo = lo2\<rparr>)
                   else quo0);
            (tlo, carry) = add64 (b_lo t) (q_lo quo) 0;
            (thi, hiCarry) = add64 (b_hi t) (q_hi quo) carry;
            ov1 = (b_overflow t \<or> hiCarry \<noteq> 0);
            ov2 = (ov1 \<or> thi \<noteq> 0 \<or> tlo > max_int64)
        in \<lparr>b_hi = thi, b_lo = tlo, b_overflow = ov2\<rparr>)"

definition big128_i64 :: "big128 \<Rightarrow> i64" where
  "big128_i64 t = (if b_hi t \<noteq> 0 \<or> b_lo t > max_int64 then max_int64 else b_lo t)"

subsection \<open>types.go and service.go: price snapshots and charge\<close>

record snapshot_rate =
  sr_unit :: string
  sr_rate_micros :: i64
  sr_unit_quantity :: i64

record price_snapshot =
  ps_rates :: "snapshot_rate list"
  ps_currency :: string
  ps_rounding :: rounding

datatype billing_error =
    PriceMissing string
  | CurrencyMismatch string string
  | ArithmeticOverflow
  | InvalidRate string
  | BudgetExceeded string
  | UnknownBudgetKind string
  | NegativeUnits string
  | EmptyUnitKind
  | MissingPriceKey
  | EmptyEstimate
  | ReservationNotFound
  | ReservationState string
  | ConstraintViolation

text \<open>A Go \<open>map[UnitKind]int64\<close>: the list of its entries in iteration order, keys distinct.\<close>

type_synonym units = "(string \<times> i64) list"

definition rate_of :: "snapshot_rate list \<Rightarrow> string \<Rightarrow> snapshot_rate option" where
  "rate_of rates k = map_of (map (\<lambda>r. (sr_unit r, r)) (rev rates)) k"

definition unit_of :: "units \<Rightarrow> string \<Rightarrow> i64" where
  "unit_of u k = (case map_of u k of None \<Rightarrow> 0 | Some v \<Rightarrow> v)"

fun charge_loop :: "units \<Rightarrow> price_snapshot \<Rightarrow> big128 \<Rightarrow> string list \<Rightarrow> billing_error + i64" where
  "charge_loop u snap acc [] = Inr (big128_i64 acc)"
| "charge_loop u snap acc (k # ks) =
     (case rate_of (ps_rates snap) k of
        None \<Rightarrow> Inl (PriceMissing k)
      | Some r \<Rightarrow>
          if sr_unit_quantity r \<le>s 0 \<or> sr_rate_micros r <s 0 then Inl (InvalidRate k)
          else let acc' = addRatMul acc (sr_rate_micros r) (unit_of u k)
                              (sr_unit_quantity r) (ps_rounding snap)
               in if b_overflow acc' then Inl ArithmeticOverflow
                  else charge_loop u snap acc' ks)"

definition charge :: "units \<Rightarrow> price_snapshot \<Rightarrow> billing_error + i64" where
  "charge u snap =
     charge_loop u snap \<lparr>b_hi = 0, b_lo = 0, b_overflow = False\<rparr> (sort (map fst u))"

section \<open>Signed reading of words\<close>

lemma sint_range: "- (2 ^ 63) \<le> sint (a :: i64)" "sint (a :: i64) < 2 ^ 63"
  using sint_greater_eq [of a] sint_less [of a] by simp_all

lemma sint_cases: "sint (a :: i64) = uint a - (if 2 ^ 63 \<le> uint a then 2 ^ 64 else 0)"
proof -
  have "bit (uint a) 63 \<longleftrightarrow> 2 ^ 63 \<le> uint a"
  proof (cases "2 ^ 63 \<le> uint a")
    case True
    moreover have "uint a < 2 * 2 ^ 63" using uint_lt2p [of a] by simp
    ultimately have "uint a div 2 ^ 63 = 1" by (simp add: int_div_pos_eq)
    with True show ?thesis by (simp add: bit_iff_odd)
  next
    case False
    then have "uint a div 2 ^ 63 = 0" by simp
    with False show ?thesis by (simp only: bit_iff_odd) simp
  qed
  moreover have "take_bit 64 (uint a) = uint a"
    using uint_lt2p [of a] by (simp add: take_bit_eq_mod)
  ultimately show ?thesis
    using signed_take_bit_eq_take_bit_minus [of 63 "uint a"] by (simp add: sint_uint)
qed

lemma signed_of_unsigned:
  fixes u s :: int and n :: nat
  assumes "0 \<le> u" and "n = nat u" and "s = u - (if 2 ^ 63 \<le> u then 2 ^ 64 else 0)" and "u < 2 ^ 64"
  shows "n < 2 ^ 63 \<Longrightarrow> s = int n" and "2 ^ 63 \<le> n \<Longrightarrow> s < 0"
  using assms by (simp_all split: if_splits)

lemmas sint_signed = signed_of_unsigned [OF uint_ge_0 unat_eq_nat_uint sint_cases]

lemma uint_less_2_64: "uint (a :: 64 word) < 2 ^ 64"
  using uint_lt2p [of a] by simp

lemma sint_small_unat: "unat (a :: i64) < 2 ^ 63 \<Longrightarrow> sint a = int (unat a)"
  by (rule sint_signed(1) [OF uint_less_2_64])

lemma sint_big_neg: "2 ^ 63 \<le> unat (a :: i64) \<Longrightarrow> sint a < 0"
  by (rule sint_signed(2) [OF uint_less_2_64])

lemma sle0_unat: "0 \<le>s (a :: i64) \<longleftrightarrow> unat a < 2 ^ 63"
  using sint_small_unat [of a] sint_big_neg [of a]
  by (cases "unat a < 2 ^ 63") (simp_all add: word_sle_eq)

lemma sint_nonneg_unat: "0 \<le>s (a :: i64) \<Longrightarrow> sint a = int (unat a)"
  by (simp only: sle0_unat sint_small_unat)

lemma sless_unat: "0 \<le>s (a :: i64) \<Longrightarrow> 0 \<le>s b \<Longrightarrow> a <s b \<longleftrightarrow> unat a < unat b"
  by (simp only: word_sless_alt sint_nonneg_unat of_nat_less_iff)

lemma unat_max_int64 [simp]: "unat max_int64 = 2 ^ 63 - 1"
  by (simp add: max_int64_def)

section \<open>bits: carry and wide product\<close>

lemma add64_correct:
  assumes "add64 x y c = (s, c')"
  shows "unat s + 2 ^ 64 * unat c' = unat x + unat y + unat c \<or> 1 < unat c"
proof (cases "1 < unat c")
  case False
  let ?t = "unat x + unat y + unat c"
  have s: "unat s = ?t mod 2 ^ 64"
    using assms by (auto simp: add64_def unat_word_ariths mod_simps)
  have t: "?t < 2 * 2 ^ 64"
    using False unsigned_less [of x, where 'a = nat] unsigned_less [of y, where 'a = nat] by simp
  show ?thesis
  proof (cases "2 ^ 64 \<le> ?t")
    case True
    then have "unat c' = 1" using assms by (auto simp: add64_def)
    moreover have "?t mod 2 ^ 64 = ?t - 2 ^ 64"
      using True t by (simp add: mod_if)
    ultimately show ?thesis using s True by simp
  next
    case False
    then have "unat c' = 0" using assms by (auto simp: add64_def)
    then show ?thesis using s False by simp
  qed
qed simp

lemma mul64_correct:
  assumes "mul64 x y = (hi, lo)"
  shows "unat hi * 2 ^ 64 + unat lo = unat x * unat y"
proof -
  have "unat x * unat y < 2 ^ 64 * 2 ^ 64"
    using unsigned_less [of x, where 'a = nat] unsigned_less [of y, where 'a = nat]
    by (intro mult_strict_mono) simp_all
  then have "(unat x * unat y) div 2 ^ 64 < 2 ^ 64"
    by (simp add: less_mult_imp_div_less)
  then have "unat hi = (unat x * unat y) div 2 ^ 64"
    using assms by (auto simp: mul64_def unat_of_nat)
  moreover have "unat lo = (unat x * unat y) mod 2 ^ 64"
    using assms by (auto simp: mul64_def unat_word_ariths)
  ultimately show ?thesis
    by (simp add: div_mult_mod_eq)
qed

section \<open>div128 divides exactly\<close>

text \<open>
  What the loop keeps with the bits \<open>n - 1, \<dots>, 0\<close> still to process: the remainder and the
  quotient of the leading bits of the dividend.
\<close>

definition div_inv :: "nat \<Rightarrow> nat \<Rightarrow> nat \<Rightarrow> u64 \<Rightarrow> u64 \<Rightarrow> u64 \<Rightarrow> bool" where
  "div_inv N q n quoHi quoLo rem \<longleftrightarrow>
     unat rem = (N div 2 ^ n) mod q \<and>
     unat quoHi * 2 ^ 64 + unat quoLo = (N div 2 ^ n) div q * 2 ^ n"

lemma or_pow2: "\<not> bit (x :: nat) n \<Longrightarrow> x OR 2 ^ n = x + 2 ^ n"
  using set_bit_eq [of n x] by (simp add: set_bit_eq_or)

lemma unat_or_push:
  assumes "k < 64" and "even (unat (x :: u64) div 2 ^ k)"
  shows "unat (x OR push_bit k 1) = unat x + 2 ^ k"
proof -
  have "unat (push_bit k 1 :: u64) = take_bit 64 (2 ^ k)"
    by (simp only: unsigned_push_bit_eq) (simp add: push_bit_eq_mult)
  also have "\<dots> = 2 ^ k"
    using power_strict_increasing [OF assms(1), of "2 :: nat"]
    by (simp only: take_bit_eq_mod mod_less)
  finally have "unat (push_bit k 1 :: u64) = 2 ^ k" .
  then show ?thesis
    using assms(2) by (simp add: unsigned_or_eq or_pow2 bit_iff_odd)
qed

lemma add_shift_div: "((a :: nat) + c * 2 ^ i) div 2 ^ i = c + a div 2 ^ i"
  by simp

lemma dividend_bit:
  assumes "i < 128" and "N = unat (hi :: u64) * 2 ^ 64 + unat (lo :: u64)"
  shows "unat (if 64 \<le> i then drop_bit (i - 64) hi AND 1 else drop_bit i lo AND 1)
         = (N div 2 ^ i) mod 2"
proof (cases "64 \<le> i")
  case True
  then have "(2 :: nat) ^ i = 2 ^ 64 * 2 ^ (i - 64)"
    by (simp only: power_add [symmetric] le_add_diff_inverse)
  then have "N div 2 ^ i = N div 2 ^ 64 div 2 ^ (i - 64)"
    by (simp add: div_mult2_eq)
  also have "N div 2 ^ 64 = unat hi"
    using assms(2) unsigned_less [of lo, where 'a = nat] by simp
  finally show ?thesis
    using True
    by (simp only: if_True unsigned_and_eq unsigned_1 unat_drop_bit_eq) (simp add: drop_bit_eq_div and_one_eq)
next
  case False
  then have "(2 :: nat) ^ 64 = 2 ^ (64 - i) * 2 ^ i"
    by (simp only: power_add [symmetric] not_le less_imp_le le_add_diff_inverse2)
  then have "N = unat lo + unat hi * 2 ^ (64 - i) * 2 ^ i"
    using assms(2) by (simp only: mult.assoc add.commute)
  then have "N div 2 ^ i = unat hi * 2 ^ (64 - i) + unat lo div 2 ^ i"
    by (simp only: add_shift_div)
  moreover have "even ((2 :: nat) ^ (64 - i))"
    using False by simp
  ultimately have "(N div 2 ^ i) mod 2 = (unat lo div 2 ^ i) mod 2"
    by (simp add: mod2_eq_if)
  then show ?thesis
    using False
    by (simp only: if_False unsigned_and_eq unsigned_1 unat_drop_bit_eq) (simp add: drop_bit_eq_div and_one_eq)
qed

text \<open>One step of long division, on numbers.\<close>

lemma small_quotient:
  fixes r q :: nat
  assumes "r < 2 * q"
  shows "r mod q = (if q \<le> r then r - q else r)" and "r div q = (if q \<le> r then 1 else 0)"
  using assms by (auto simp: mod_if intro: div_nat_eqI)

lemma long_division_step:
  fixes M q b :: nat
  assumes "0 < q" and "b < 2"
  shows "(2 * M + b) mod q = (if q \<le> 2 * (M mod q) + b then 2 * (M mod q) + b - q else 2 * (M mod q) + b)"
    and "(2 * M + b) div q = 2 * (M div q) + (if q \<le> 2 * (M mod q) + b then 1 else 0)"
proof -
  let ?r = "2 * (M mod q) + b"
  have M: "2 * M + b = ?r + 2 * (M div q) * q"
    using div_mult_mod_eq [of M q] by (metis add.assoc add.commute distrib_left mult.assoc)
  have lt: "?r < 2 * q"
    using mod_less_divisor [OF assms(1), of M] assms(2) by linarith
  have md: "(2 * M + b) mod q = ?r mod q"
    unfolding M by (rule mod_mult_self1)
  have dv: "(2 * M + b) div q = 2 * (M div q) + ?r div q"
    unfolding M by (rule div_mult_self1) (use assms(1) in simp)
  have rm: "?r mod q = (if q \<le> ?r then ?r - q else ?r)"
    by (rule small_quotient(1) [OF lt])
  have rd: "?r div q = (if q \<le> ?r then 1 else 0)"
    by (rule small_quotient(2) [OF lt])
  show "(2 * M + b) mod q = (if q \<le> ?r then ?r - q else ?r)" by (simp only: md rm)
  show "(2 * M + b) div q = 2 * (M div q) + (if q \<le> ?r then 1 else 0)" by (simp only: dv rd)
qed

lemma halve_shift: "(N :: nat) div 2 ^ i = 2 * (N div 2 ^ Suc i) + (N div 2 ^ i) mod 2"
proof -
  have "N div 2 ^ Suc i = N div 2 ^ i div 2"
    by (simp only: power_Suc2 div_mult2_eq)
  then show ?thesis by (simp only: mult_div_mod_eq)
qed

text \<open>The quotient bits not yet written are zero.\<close>

lemma quo_bits_clear:
  assumes "div_inv N q (Suc i) quoHi quoLo rem" and "i < 128"
  shows "64 \<le> i \<Longrightarrow> even (unat quoHi div 2 ^ (i - 64))"
    and "i < 64 \<Longrightarrow> even (unat quoLo div 2 ^ i)"
proof -
  define K where "K = (N div 2 ^ Suc i) div q"
  have eq: "unat quoHi * 2 ^ 64 + unat quoLo = K * 2 ^ Suc i"
    using assms(1) by (simp only: div_inv_def K_def)
  have lo: "unat quoLo < 2 ^ 64"
    using unsigned_less [of quoLo, where 'a = nat] by simp
  show "even (unat quoHi div 2 ^ (i - 64))" if i: "64 \<le> i"
  proof -
    have p: "(2 :: nat) ^ Suc i = 2 * 2 ^ (i - 64) * 2 ^ 64"
      using i by (simp only: power_Suc mult.assoc power_add [symmetric] le_add_diff_inverse2)
    have "unat quoHi = (unat quoHi * 2 ^ 64 + unat quoLo) div 2 ^ 64"
      using lo by simp
    also have "\<dots> = K * (2 * 2 ^ (i - 64))"
      unfolding eq p by (simp only: mult.assoc [symmetric]) simp
    finally show ?thesis by simp
  qed
  show "even (unat quoLo div 2 ^ i)" if i: "i < 64"
  proof -
    have p: "(2 :: nat) ^ 64 = 2 * 2 ^ (63 - i) * 2 ^ i"
    proof -
      have "(64 :: nat) = Suc (63 - i) + i" using i by simp
      then show ?thesis by (metis power_Suc power_add)
    qed
    have "(unat quoHi * (2 * 2 ^ (63 - i))) * 2 ^ i + unat quoLo = (K * 2) * 2 ^ i"
      using eq unfolding p by (simp only: power_Suc mult.assoc)
    then have "unat quoHi * (2 * 2 ^ (63 - i)) + unat quoLo div 2 ^ i = K * 2"
      by (metis div_mult_self3 nonzero_mult_div_cancel_right power_not_zero zero_neq_numeral)
    then show ?thesis
      by (metis dvd_triv_right dvd_triv_left even_add even_mult_iff mult.commute)
  qed
qed

lemma div_step_inv:
  assumes inv: "div_inv N (unat q) (Suc i) quoHi quoLo rem"
    and N: "N = unat hi * 2 ^ 64 + unat lo" and i: "i < 128"
    and q: "0 < unat q" "unat q \<le> 2 ^ 63"
    and rem2: "rem2 = push_bit 1 rem OR (if 64 \<le> i then drop_bit (i - 64) hi AND 1 else drop_bit i lo AND 1)"
  shows "q \<le> rem2 \<Longrightarrow> 64 \<le> i \<Longrightarrow> div_inv N (unat q) i (quoHi OR push_bit (i - 64) 1) quoLo (rem2 - q)"
    and "q \<le> rem2 \<Longrightarrow> \<not> 64 \<le> i \<Longrightarrow> div_inv N (unat q) i quoHi (quoLo OR push_bit i 1) (rem2 - q)"
    and "\<not> q \<le> rem2 \<Longrightarrow> div_inv N (unat q) i quoHi quoLo rem2"
proof -
  define M b where "M = N div 2 ^ Suc i" and "b = (N div 2 ^ i) mod 2"
  have rem: "unat rem = M mod unat q" and quo: "unat quoHi * 2 ^ 64 + unat quoLo = M div unat q * 2 ^ Suc i"
    using inv by (simp_all only: div_inv_def M_def)
  have b2: "b < 2" by (simp add: b_def)
  have Ni: "N div 2 ^ i = 2 * M + b"
    using halve_shift [of N i] by (simp only: M_def b_def)
  have lt: "2 * (M mod unat q) + b < 2 ^ 64"
  proof -
    have "2 * (M mod unat q) + b < 2 * unat q"
      using mod_less_divisor [OF q(1), of M] b2 by linarith
    also have "\<dots> \<le> 2 ^ 64" using q(2) by simp
    finally show ?thesis .
  qed
  have r2: "unat rem2 = 2 * (M mod unat q) + b"
  proof -
    have "unat (push_bit 1 rem) = 2 * (M mod unat q)"
      using lt unfolding unsigned_push_bit_eq rem
      by (simp add: push_bit_eq_mult take_bit_eq_mod mult.commute)
    moreover have "unat (if 64 \<le> i then drop_bit (i - 64) hi AND 1 else drop_bit i lo AND 1) = b"
      unfolding b_def by (rule dividend_bit [OF i N])
    ultimately show ?thesis
      using b2 unfolding rem2 unsigned_or_eq
      by (cases "b = 0") (simp_all add: less_2_cases_iff or_Suc_0_eq)
  qed
  have le: "q \<le> rem2 \<longleftrightarrow> unat q \<le> 2 * (M mod unat q) + b"
    by (simp only: word_le_nat_alt r2)
  note step = long_division_step [OF q(1) b2, of M]
  have sub: "unat (rem2 - q) = 2 * (M mod unat q) + b - unat q" if "q \<le> rem2"
    using that by (simp only: unat_sub r2)
  note clear = quo_bits_clear [OF inv i]
  show "div_inv N (unat q) i (quoHi OR push_bit (i - 64) 1) quoLo (rem2 - q)"
    if c: "q \<le> rem2" and i64: "64 \<le> i"
  proof -
    have p: "(2 :: nat) ^ i = 2 ^ (i - 64) * 2 ^ 64"
      using i64 by (simp only: power_add [symmetric] le_add_diff_inverse2)
    have h: "unat (quoHi OR push_bit (i - 64) 1) = unat quoHi + 2 ^ (i - 64)"
      using clear(1) [OF i64] i by (intro unat_or_push) simp_all
    show ?thesis
      unfolding div_inv_def Ni step sub [OF c] h
      using c le quo by (simp add: p distrib_right)
  qed
  show "div_inv N (unat q) i quoHi (quoLo OR push_bit i 1) (rem2 - q)"
    if c: "q \<le> rem2" and i64: "\<not> 64 \<le> i"
  proof -
    have h: "unat (quoLo OR push_bit i 1) = unat quoLo + 2 ^ i"
      using clear(2) i64 by (intro unat_or_push) simp_all
    show ?thesis
      unfolding div_inv_def Ni step sub [OF c] h
      using c le quo by (simp add: distrib_right)
  qed
  show "div_inv N (unat q) i quoHi quoLo rem2" if "\<not> q \<le> rem2"
    unfolding div_inv_def Ni step r2 using that le quo by simp
qed

lemma div128_loop_inv:
  assumes "div_inv N (unat q) n quoHi quoLo rem" and "N = unat hi * 2 ^ 64 + unat lo"
    and "n \<le> 128" and "0 < unat q" and "unat q \<le> 2 ^ 63"
    and "div128_loop n hi lo q quoHi quoLo rem = (qh, ql, r)"
  shows "div_inv N (unat q) 0 qh ql r"
  using assms
proof (induction n arbitrary: quoHi quoLo rem)
  case 0
  then show ?case by simp
next
  case (Suc i)
  note step = div_step_inv [OF Suc.prems(1,2) _ Suc.prems(4,5) refl]
  from Suc.prems(3) have i: "i < 128" "i \<le> 128" by simp_all
  show ?case
    using Suc.prems(6) step [OF i(1)]
    by (auto simp: Let_def simp del: push_bit_of_1 push_bit_Suc
        intro: Suc.IH [OF _ Suc.prems(2) i(2) Suc.prems(4,5)] split: if_splits)
qed

lemma div128_exact:
  assumes "div128 hi lo q = (quo, r)" and "0 < unat q" and "unat q \<le> 2 ^ 63"
  shows "unat (q_hi quo) * 2 ^ 64 + unat (q_lo quo) = (unat hi * 2 ^ 64 + unat lo) div unat q"
    and "unat r = (unat hi * 2 ^ 64 + unat lo) mod unat q"
proof -
  let ?N = "unat hi * 2 ^ 64 + unat lo"
  obtain qh ql where l: "div128_loop 128 hi lo q 0 0 0 = (qh, ql, r)"
      and quo: "quo = \<lparr>q_hi = qh, q_lo = ql\<rparr>"
    using assms(1) by (auto simp: div128_def split: prod.splits)
  have "?N < 2 ^ 128"
    using unsigned_less [of hi, where 'a = nat] unsigned_less [of lo, where 'a = nat] by simp
  then have "div_inv ?N (unat q) 128 0 0 0"
    by (simp add: div_inv_def)
  from div128_loop_inv [OF this refl _ assms(2,3) l]
  have "div_inv ?N (unat q) 0 qh ql r" by simp
  then show "unat (q_hi quo) * 2 ^ 64 + unat (q_lo quo) = ?N div unat q"
    and "unat r = ?N mod unat q"
    by (simp_all add: div_inv_def quo)
qed

section \<open>addRatMul adds one exactly rounded term\<close>

definition term_amount :: "rounding \<Rightarrow> nat \<Rightarrow> nat \<Rightarrow> nat \<Rightarrow> nat" where
  "term_amount rule a b q =
     (if rule = RoundingCeil then (a * b + q - 1) div q else (a * b) div q)"

lemma ceil_div:
  assumes "0 < (q :: nat)"
  shows "(n + q - 1) div q = n div q + (if n mod q = 0 then 0 else 1)"
proof -
  have n: "n + q - 1 = (n mod q + q - 1) + n div q * q"
    using assms div_mult_mod_eq [of n q] by simp
  have "(n mod q + q - 1) div q = (if n mod q = 0 then 0 else 1)"
    using mod_less_divisor [OF assms, of n] assms
    by (subst small_quotient(2)) (linarith, auto)
  then show ?thesis
    unfolding n by (simp only: div_mult_self1 [OF less_imp_neq [OF assms, symmetric]])
qed

lemma term_amount_eq:
  "0 < q \<Longrightarrow> term_amount rule a b q =
     (a * b) div q + (if rule = RoundingCeil \<and> (a * b) mod q \<noteq> 0 then 1 else 0)"
  by (simp only: term_amount_def ceil_div) simp

lemma term_amount_zero [simp]: "0 < q \<Longrightarrow> a = 0 \<or> b = 0 \<Longrightarrow> term_amount rule a b q = 0"
  by (auto simp: term_amount_def)

lemma term_amount_mono: "b \<le> b' \<Longrightarrow> term_amount rule a b q \<le> term_amount rule a b' q"
  by (auto simp: term_amount_def intro!: div_le_mono diff_le_mono mult_le_mono2)

text \<open>The accumulator before a term: no overflow so far, so it holds an int64.\<close>

definition acc_ok :: "big128 \<Rightarrow> bool" where
  "acc_ok t \<longleftrightarrow> \<not> b_overflow t \<and> b_hi t = 0 \<and> unat (b_lo t) < 2 ^ 63"

lemma wide_lt_iff: "lo < 2 ^ 64 \<Longrightarrow> hi * 2 ^ 64 + lo < 2 ^ 63 \<longleftrightarrow> hi = 0 \<and> lo < (2 :: nat) ^ 63"
  by (cases hi) auto

lemma round_up_quotient:
  assumes "unat (q_hi quo0) * 2 ^ 64 + unat (q_lo quo0) = V" and "V < 2 ^ 126"
    and "quo = (let (lo2, carry) = add64 (q_lo quo0) 1 0 in \<lparr>q_hi = q_hi quo0 + carry, q_lo = lo2\<rparr>)"
  shows "unat (q_hi quo) * 2 ^ 64 + unat (q_lo quo) = V + 1"
proof -
  obtain lo2 c where ad: "add64 (q_lo quo0) 1 0 = (lo2, c)" by fastforce
  from add64_correct [OF ad] have s: "unat lo2 + 2 ^ 64 * unat c = unat (q_lo quo0) + 1" by simp
  have "unat (q_hi quo0) < 2 ^ 62"
    using assms(1,2) by simp
  moreover have "unat c \<le> 1" using ad by (auto simp: add64_def)
  ultimately have "unat (q_hi quo0 + c) = unat (q_hi quo0) + unat c"
    by (intro unat_add_lem [THEN iffD1]) simp
  then show ?thesis
    using assms(1,3) s ad by (simp add: distrib_right)
qed

lemma addRatMul_exact:
  fixes t :: big128 and a b q :: i64 and rule :: rounding
  assumes "acc_ok t" and "0 \<le>s a" and "0 \<le>s b" and "0 <s q"
  defines "v \<equiv> unat (b_lo t) + term_amount rule (unat a) (unat b) (unat q)"
  shows "b_overflow (addRatMul t a b q rule) \<longleftrightarrow> 2 ^ 63 \<le> v"
    and "v < 2 ^ 63 \<Longrightarrow> acc_ok (addRatMul t a b q rule) \<and> unat (b_lo (addRatMul t a b q rule)) = v"
proof -
  have q0: "0 \<le>s q" using assms(4) by (simp add: word_sle_eq word_sless_alt)
  have q: "0 < unat q" "unat q \<le> 2 ^ 63"
    using sless_unat [of 0 q] q0 assms(4) by (simp_all add: sle0_unat)
  have ab: "unat a < 2 ^ 63" "unat b < 2 ^ 63"
    using assms(2,3) by (simp_all only: sle0_unat)
  let ?t' = "addRatMul t a b q rule"
  have "(b_overflow ?t' \<longleftrightarrow> 2 ^ 63 \<le> v) \<and> (v < 2 ^ 63 \<longrightarrow> acc_ok ?t' \<and> unat (b_lo ?t') = v)"
  proof (cases "b = 0 \<or> a = 0")
    case True
    then have "?t' = t" and "v = unat (b_lo t)"
      using q(1) by (auto simp: addRatMul_def v_def)
    then show ?thesis using assms(1) by (simp add: acc_ok_def)
  next
    case False
    obtain hi lo where m: "mul64 a b = (hi, lo)" by fastforce
    obtain quo0 r where d: "div128 hi lo q = (quo0, r)" by fastforce
    let ?P = "unat a * unat b"
    have dv: "unat (q_hi quo0) * 2 ^ 64 + unat (q_lo quo0) = ?P div unat q" "unat r = ?P mod unat q"
      using div128_exact [OF d q] by (simp_all only: mul64_correct [OF m])
    have P: "?P < 2 ^ 126"
    proof -
      have "?P < 2 ^ 63 * 2 ^ 63" by (rule mult_strict_mono) (use ab in simp_all)
      then show ?thesis by simp
    qed
    then have Pq: "?P div unat q < 2 ^ 126"
      using div_le_dividend le_less_trans by blast
    define quo where "quo = (if rule = RoundingCeil \<and> r > 0
        then (let (lo2, carry) = add64 (q_lo quo0) 1 0 in \<lparr>q_hi = q_hi quo0 + carry, q_lo = lo2\<rparr>)
        else quo0)"
    let ?T = "term_amount rule (unat a) (unat b) (unat q)"
    have r0: "0 < r \<longleftrightarrow> ?P mod unat q \<noteq> 0"
      by (simp only: word_less_nat_alt dv(2) unsigned_0 neq0_conv)
    have T: "unat (q_hi quo) * 2 ^ 64 + unat (q_lo quo) = ?T"
    proof (cases "rule = RoundingCeil \<and> r > 0")
      case True
      then have "quo = (let (lo2, carry) = add64 (q_lo quo0) 1 0 in \<lparr>q_hi = q_hi quo0 + carry, q_lo = lo2\<rparr>)"
        by (simp only: quo_def if_True simp_thms)
      from round_up_quotient [OF dv(1) Pq this] show ?thesis
        using True r0 by (simp only: term_amount_eq [OF q(1)] if_True simp_thms)
    next
      case False
      then have "quo = quo0" by (simp only: quo_def if_False)
      then show ?thesis
        using False r0 dv(1) by (simp only: term_amount_eq [OF q(1)] if_False simp_thms add_0_right)
    qed
    have "?T < 2 ^ 127"
      using Pq by (simp add: term_amount_eq [OF q(1)])
    then have qh: "unat (q_hi quo) < 2 ^ 63" using T by simp
    obtain tlo c where a1: "add64 (b_lo t) (q_lo quo) 0 = (tlo, c)" by fastforce
    obtain thi hc where a2: "add64 (b_hi t) (q_hi quo) c = (thi, hc)" by fastforce
    have s1: "unat tlo + 2 ^ 64 * unat c = unat (b_lo t) + unat (q_lo quo)"
      using add64_correct [OF a1] by simp
    have c1: "unat c \<le> 1" using a1 by (auto simp: add64_def)
    have hc: "hc = 0"
      using a2 qh c1 assms(1) by (auto simp: add64_def acc_ok_def)
    have s2: "unat thi = unat (q_hi quo) + unat c"
      using add64_correct [OF a2] c1 hc assms(1) by (auto simp: acc_ok_def)
    have v: "unat thi * 2 ^ 64 + unat tlo = v"
      using s1 s2 T by (simp add: v_def distrib_right)
    have tlo: "unat tlo < 2 ^ 64"
      using unsigned_less [of tlo, where 'a = nat] by simp
    have t': "?t' = \<lparr>b_hi = thi, b_lo = tlo,
        b_overflow = b_overflow t \<or> hc \<noteq> 0 \<or> thi \<noteq> 0 \<or> tlo > max_int64\<rparr>"
      using False by (simp add: addRatMul_def m d a1 a2 Let_def flip: quo_def)
    have z: "thi = 0 \<longleftrightarrow> unat thi = 0" by (simp only: unat_eq_0)
    have "v < 2 ^ 63 \<longleftrightarrow> thi = 0 \<and> unat tlo < 2 ^ 63"
      unfolding z v [symmetric] by (rule wide_lt_iff [OF tlo])
    moreover have "tlo > max_int64 \<longleftrightarrow> \<not> unat tlo < 2 ^ 63"
      by (auto simp: word_less_nat_alt)
    ultimately show ?thesis
      using assms(1) hc v unfolding t' by (auto simp: acc_ok_def not_less)
  qed
  then show "b_overflow ?t' \<longleftrightarrow> 2 ^ 63 \<le> v"
    and "v < 2 ^ 63 \<Longrightarrow> acc_ok ?t' \<and> unat (b_lo ?t') = v"
    by blast+
qed

section \<open>charge is the exact rounded sum\<close>

text \<open>
  The abstract amount of a unit map: for each kind its own exactly rounded term, in natural
  numbers of any size.
\<close>

definition kind_amount :: "price_snapshot \<Rightarrow> string \<Rightarrow> i64 \<Rightarrow> nat" where
  "kind_amount snap k v =
     (case rate_of (ps_rates snap) k of
        None \<Rightarrow> 0
      | Some r \<Rightarrow> term_amount (ps_rounding snap) (unat (sr_rate_micros r)) (unat v) (unat (sr_unit_quantity r)))"

definition amount :: "units \<Rightarrow> price_snapshot \<Rightarrow> nat" where
  "amount u snap = sum_list (map (\<lambda>(k, v). kind_amount snap k v) u)"

definition kind_priced :: "price_snapshot \<Rightarrow> string \<Rightarrow> bool" where
  "kind_priced snap k \<longleftrightarrow>
     (case rate_of (ps_rates snap) k of
        None \<Rightarrow> False | Some r \<Rightarrow> 0 <s sr_unit_quantity r \<and> 0 \<le>s sr_rate_micros r)"

definition units_ok :: "units \<Rightarrow> bool" where
  "units_ok u \<longleftrightarrow> distinct (map fst u) \<and> list_all (\<lambda>(k, v). 0 \<le>s v) u"

definition all_priced :: "units \<Rightarrow> price_snapshot \<Rightarrow> bool" where
  "all_priced u snap \<longleftrightarrow> list_all (kind_priced snap) (map fst u)"

lemma unit_of_nonneg: "units_ok u \<Longrightarrow> 0 \<le>s unit_of u k"
  by (auto simp: units_ok_def unit_of_def list_all_iff split: option.splits dest: map_of_SomeD)

lemma sless_not_sle: "(a :: i64) <s b \<longleftrightarrow> \<not> b \<le>s a"
  by (simp add: word_sle_eq word_sless_alt not_le)

lemma charge_loop_exact:
  assumes "units_ok u" and "list_all (kind_priced snap) ks" and "acc_ok acc"
  shows "charge_loop u snap acc ks =
    (let v = unat (b_lo acc) + sum_list (map (\<lambda>k. kind_amount snap k (unit_of u k)) ks)
     in if v < 2 ^ 63 then Inr (word_of_nat v) else Inl ArithmeticOverflow)"
  using assms(2,3)
proof (induction ks arbitrary: acc)
  case Nil
  then show ?case
    by (auto simp: acc_ok_def big128_i64_def word_less_nat_alt)
next
  case (Cons k ks)
  from Cons.prems(1) obtain r where r: "rate_of (ps_rates snap) k = Some r"
      and ok: "0 <s sr_unit_quantity r" "0 \<le>s sr_rate_micros r"
    by (auto simp: kind_priced_def split: option.splits)
  let ?acc = "addRatMul acc (sr_rate_micros r) (unit_of u k) (sr_unit_quantity r) (ps_rounding snap)"
  note ex = addRatMul_exact [OF Cons.prems(2) ok(2) unit_of_nonneg [OF assms(1)] ok(1),
      where rule = "ps_rounding snap"]
  have ka: "kind_amount snap k (unit_of u k) = term_amount (ps_rounding snap)
      (unat (sr_rate_micros r)) (unat (unit_of u k)) (unat (sr_unit_quantity r))"
    by (simp add: kind_amount_def r)
  show ?case
  proof (cases "b_overflow ?acc")
    case True
    with ex(1) have "2 ^ 63 \<le> unat (b_lo acc) + kind_amount snap k (unit_of u k)"
      by (simp only: ka)
    with True r ok show ?thesis
      by (simp add: Let_def sless_not_sle)
  next
    case False
    with ex have "acc_ok ?acc \<and> unat (b_lo ?acc) = unat (b_lo acc) + kind_amount snap k (unit_of u k)"
      by (simp only: ka not_le)
    with False r ok Cons show ?thesis
      by (simp add: Let_def sless_not_sle add.assoc)
  qed
qed

lemma sum_list_sort: "sum_list (map f (sort xs)) = (sum_list (map f xs) :: nat)"
  by (metis mset_map mset_sort sum_mset_sum_list)

lemma amount_by_keys:
  "distinct (map fst u) \<Longrightarrow>
   sum_list (map (\<lambda>k. kind_amount snap k (unit_of u k)) (map fst u)) = amount u snap"
  unfolding amount_def map_map
  by (rule arg_cong [where f = sum_list], rule map_cong)
     (auto simp: unit_of_def map_of_eq_Some_iff)

lemma charge_exact:
  assumes "units_ok u" and "all_priced u snap"
  shows "charge u snap =
    (if amount u snap < 2 ^ 63 then Inr (word_of_nat (amount u snap)) else Inl ArithmeticOverflow)"
proof -
  have "list_all (kind_priced snap) (sort (map fst u))"
    using assms(2) by (simp add: all_priced_def list_all_iff)
  moreover have "acc_ok \<lparr>b_hi = 0, b_lo = 0, b_overflow = False\<rparr>"
    by (simp add: acc_ok_def)
  ultimately show ?thesis
    using assms(1) charge_loop_exact [OF assms(1)]
    by (simp add: charge_def units_ok_def sum_list_sort amount_by_keys del: map_map)
qed

lemma charge_loop_priced:
  "charge_loop u snap acc ks = Inr v \<Longrightarrow> list_all (kind_priced snap) ks"
  by (induction ks arbitrary: acc)
     (auto simp: kind_priced_def Let_def sless_not_sle split: option.splits if_splits)

lemma charge_priced: "charge u snap = Inr v \<Longrightarrow> all_priced u snap"
  unfolding charge_def all_priced_def list_all_iff by (drule charge_loop_priced) (simp add: list_all_iff)

lemma charge_amount:
  "units_ok u \<Longrightarrow> charge u snap = Inr v \<Longrightarrow>
   unat v = amount u snap \<and> amount u snap < 2 ^ 63 \<and> 0 \<le>s v"
  using charge_exact [of u snap, OF _ charge_priced]
  by (auto simp: sle0_unat unat_of_nat split: if_splits)

text \<open>Units below the estimate, kind by kind, never cost more than the bound.\<close>

definition units_le :: "units \<Rightarrow> units \<Rightarrow> bool" where
  "units_le u w \<longleftrightarrow> list_all (\<lambda>(k, v). \<exists>x\<in>set w. fst x = k \<and> unat v \<le> unat (snd x)) u"

lemma kind_amount_mono: "unat v \<le> unat w \<Longrightarrow> kind_amount snap k v \<le> kind_amount snap k w"
  by (auto simp: kind_amount_def intro: term_amount_mono split: option.splits)

lemma amount_mono:
  assumes "distinct (map fst u)" and "distinct (map fst w)" and "units_le u w"
  shows "amount u snap \<le> amount w snap"
proof -
  have le: "kind_amount snap k (unit_of u k) \<le> kind_amount snap k (unit_of w k)" if "k \<in> set (map fst u)" for k
    using that assms unfolding units_le_def list_all_iff
    by (fastforce simp: unit_of_def map_of_eq_Some_iff intro!: kind_amount_mono split: option.splits
        dest: map_of_eq_Some_iff [THEN iffD2, rotated])
  have sub: "set (map fst u) \<subseteq> set (map fst w)"
    using assms(3) by (fastforce simp: units_le_def list_all_iff)
  have "amount u snap = (\<Sum>k\<in>set (map fst u). kind_amount snap k (unit_of u k))"
    using assms(1) by (simp only: amount_by_keys [symmetric] sum_list_distinct_conv_sum_set)
  also have "\<dots> \<le> (\<Sum>k\<in>set (map fst u). kind_amount snap k (unit_of w k))"
    by (rule sum_mono) (rule le)
  also have "\<dots> \<le> (\<Sum>k\<in>set (map fst w). kind_amount snap k (unit_of w k))"
    by (rule sum_mono2) (use sub in auto)
  also have "\<dots> = amount w snap"
    using assms(2) by (simp only: amount_by_keys [symmetric] sum_list_distinct_conv_sum_set)
  finally show ?thesis .
qed

section \<open>checkedAdd detects exactly the signed overflows\<close>

lemma uint_plus_cases:
  "uint ((a :: i64) + b) = uint a + uint b - (if 2 ^ 64 \<le> uint a + uint b then 2 ^ 64 else 0)"
  using uint_plus_if' [of a b] by simp

lemma sle0_sint: "0 \<le>s (a :: i64) \<longleftrightarrow> 0 \<le> sint a"
  by (simp add: word_sle_eq)

lemma sless0_sint: "(a :: i64) <s 0 \<longleftrightarrow> sint a < 0"
  by (simp add: word_sless_alt)

lemma signed_sum_cases:
  fixes x y z u v w :: int
  assumes "x = u - (if 2 ^ 63 \<le> u then 2 ^ 64 else 0)" and "y = v - (if 2 ^ 63 \<le> v then 2 ^ 64 else 0)"
    and "z = w - (if 2 ^ 63 \<le> w then 2 ^ 64 else 0)"
    and "w = u + v - (if 2 ^ 64 \<le> u + v then 2 ^ 64 else 0)"
    and "0 \<le> u" "u < 2 ^ 64" "0 \<le> v" "v < 2 ^ 64"
  shows "((0 \<le> x \<and> 0 \<le> y \<and> z < 0) \<or> (x < 0 \<and> y < 0 \<and> 0 \<le> z)) \<longleftrightarrow> \<not> (- (2 ^ 63) \<le> x + y \<and> x + y < 2 ^ 63)"
    and "- (2 ^ 63) \<le> x + y \<and> x + y < 2 ^ 63 \<Longrightarrow> z = x + y"
  using assms by (simp_all split: if_splits)

lemmas signed_sum = signed_sum_cases
  [OF sint_cases sint_cases sint_cases uint_plus_cases uint_ge_0 uint_less_2_64 uint_ge_0 uint_less_2_64]

definition fits_int64 :: "int \<Rightarrow> bool" where
  "fits_int64 x \<longleftrightarrow> - (2 ^ 63) \<le> x \<and> x < 2 ^ 63"

lemma checkedAdd_overflow: "snd (checkedAdd a b) \<longleftrightarrow> \<not> fits_int64 (sint a + sint b)"
  using signed_sum(1) [of a b]
  by (simp add: checkedAdd_def add64_def Let_def sle0_sint sless0_sint fits_int64_def)

lemma checkedAdd_sum:
  "fits_int64 (sint a + sint b) \<Longrightarrow> sint (fst (checkedAdd a b)) = sint a + sint b"
  using signed_sum(2) [of a b] by (simp add: checkedAdd_def add64_def Let_def fits_int64_def)

lemma fst_checkedAdd: "fst (checkedAdd a b) = a + b"
  by (simp add: checkedAdd_def add64_def Let_def)

end
