(* ===== verification/BillingRepo.thy ===== *)
theory BillingRepo
  imports Money Principal
begin

text \<open>
  The billing tables and statements: internal/billing/types.go and repository.go for the rows,
  internal/store/postgres/billing_repo.go for the SQL over \<open>billing_prices\<close>, \<open>budgets\<close>,
  \<open>reservations\<close> and \<open>usage_records\<close> (migration 005). A repository method maps the tables to an
  error or the new tables; \<open>InTx\<close> composes them with \<open>bind_r\<close>, so an error rolls everything back.
  Tenant ids are well-formed UUIDs and currencies three letters; the foreign keys into the job
  tables are the parameter \<open>fk_ok\<close>, and connection faults are outside the model.
\<close>

section \<open>types.go: rows\<close>

record subject =
  su_type :: string
  su_id :: string

abbreviation "BudgetSubjectTenant \<equiv> ''tenant''"

datatype budget_kind = BudgetKindAmount | BudgetKindTokens | BudgetKindOther string

datatype period = PeriodDaily | PeriodWeekly | PeriodMonthly | PeriodOther string

datatype reservation_state = ReservationHeld | ReservationSettled | ReservationUnknown | ReservationReleased

record price =
  pr_tenant :: string
  pr_id :: string
  pr_subject_type :: string
  pr_subject_id :: string
  pr_capability :: string
  pr_unit :: string
  pr_rate_micros :: i64
  pr_unit_quantity :: i64
  pr_currency :: string
  pr_effective :: time

record price_audit =
  pa_tenant :: string
  pa_price :: string
  pa_actor :: string
  pa_effective :: time

record budget =
  bu_tenant :: string
  bu_id :: string
  bu_name :: string
  bu_subject :: subject
  bu_kind :: budget_kind
  bu_period :: period
  bu_limit :: i64
  bu_currency :: string
  bu_active :: bool
  bu_starts :: time
  bu_ends :: "time option"

record reservation =
  rs_tenant :: string
  rs_id :: string
  rs_subject :: subject
  rs_state :: reservation_state
  rs_price :: price_snapshot
  rs_limit :: i64
  rs_currency :: string
  rs_units :: units
  rs_capability :: string
  rs_model :: string
  rs_endpoint :: string
  rs_job :: string
  rs_attempt :: string
  rs_dispatched :: "time option"
  rs_created :: time
  rs_settled :: "time option"

record usage_record =
  ur_tenant :: string
  ur_id :: string
  ur_reservation :: string
  ur_subject :: subject
  ur_capability :: string
  ur_model :: string
  ur_endpoint :: string
  ur_units :: units
  ur_amount :: i64
  ur_currency :: string
  ur_price :: price_snapshot
  ur_outcome :: string
  ur_created :: time

record liability_row =
  lr_amount :: i64
  lr_currency :: string
  lr_units :: units

record billing_db =
  bd_prices :: "price list"
  bd_price_audit :: "price_audit list"
  bd_budgets :: "budget list"
  bd_reservations :: "reservation list"
  bd_usage :: "usage_record list"

definition empty_billing_db :: billing_db where
  "empty_billing_db =
     \<lparr>bd_prices = [], bd_price_audit = [], bd_budgets = [], bd_reservations = [], bd_usage = []\<rparr>"

section \<open>SQL LIKE\<close>

text \<open>\<open>%\<close> any run of characters, \<open>_\<close> any one, backslash the escape character.\<close>

fun sql_like :: "string \<Rightarrow> string \<Rightarrow> bool" where
  "sql_like [] s = (s = [])"
| "sql_like (p # ps) [] = (p = CHR ''%'' \<and> sql_like ps [])"
| "sql_like (p # ps) (c # cs) =
     (if p = CHR ''%'' then sql_like ps (c # cs) \<or> sql_like (p # ps) cs
      else if p = CHR ''_'' then sql_like ps cs
      else if p = CHR 0x5C
      then (case ps of [] \<Rightarrow> False | q # qs \<Rightarrow> q = c \<and> sql_like qs cs)
      else p = c \<and> sql_like ps cs)"

text \<open>\<open>id = $2 OR id LIKE $2 || '/%'\<close>: the canonical row and its attribution rows.\<close>

definition in_group :: "string \<Rightarrow> string \<Rightarrow> reservation \<Rightarrow> bool" where
  "in_group t i r \<longleftrightarrow> rs_tenant r = t \<and> (rs_id r = i \<or> sql_like (i @ ''/%'') (rs_id r))"

section \<open>billing_repo.go: prices and budgets\<close>

definition price_key :: "price \<Rightarrow> string \<times> string \<times> string \<times> string \<times> string \<times> time" where
  "price_key p =
     (pr_tenant p, pr_subject_type p, pr_subject_id p, pr_capability p, pr_unit p, pr_effective p)"

text \<open>The audit row's \<open>actor_id\<close> column is NOT NULL and an empty actor is written as NULL.\<close>

definition PutPrice :: "billing_db \<Rightarrow> price \<Rightarrow> string \<Rightarrow> billing_error + billing_db" where
  "PutPrice db p actor =
     (if pr_subject_type p \<notin> {''endpoint'', ''model''} \<or> pr_rate_micros p <s 0 \<or> pr_unit_quantity p \<le>s 0
      then Inl (InvalidRate (pr_unit p))
      else if list_ex (\<lambda>q. price_key q = price_key p \<or>
                           (pr_tenant q, pr_id q) = (pr_tenant p, pr_id p)) (bd_prices db)
      then Inl ConstraintViolation
      else if actor = [] then Inl ConstraintViolation
      else Inr (db\<lparr>bd_prices := bd_prices db @ [p],
                   bd_price_audit := bd_price_audit db @
                     [\<lparr>pa_tenant = pr_tenant p, pa_price = pr_id p, pa_actor = actor,
                       pa_effective = pr_effective p\<rparr>]\<rparr>))"

definition CreateBudget :: "billing_db \<Rightarrow> budget \<Rightarrow> billing_error + billing_db" where
  "CreateBudget db b =
     (if su_type (bu_subject b) \<notin> {''tenant'', ''api_key'', ''user'', ''service_account''} \<or> bu_limit b <s 0
      then Inl ConstraintViolation
      else if list_ex (\<lambda>c. (bu_tenant c, bu_id c) = (bu_tenant b, bu_id b)) (bd_budgets db)
      then Inl ConstraintViolation
      else (case (bu_kind b, bu_period b) of
              (BudgetKindOther k, _) \<Rightarrow> Inl (UnknownBudgetKind k)
            | (_, PeriodOther p) \<Rightarrow> Inl (UnknownBudgetKind p)
            | (k, _) \<Rightarrow>
                Inr (db\<lparr>bd_budgets := bd_budgets db @
                      [b\<lparr>bu_name := (if bu_name b = [] then ''budget'' else bu_name b),
                         bu_currency := (if k = BudgetKindAmount then bu_currency b else []),
                         bu_active := True\<rparr>]\<rparr>)))"

definition budget_active :: "string \<Rightarrow> time \<Rightarrow> budget \<Rightarrow> bool" where
  "budget_active t now b \<longleftrightarrow>
     bu_tenant b = t \<and> bu_active b \<and> bu_starts b \<le> now \<and>
     (case bu_ends b of None \<Rightarrow> True | Some e \<Rightarrow> now < e)"

definition LockActiveBudgets :: "billing_db \<Rightarrow> string \<Rightarrow> subject list \<Rightarrow> time \<Rightarrow> budget list" where
  "LockActiveBudgets db t subjects now =
     sort_key (\<lambda>b. (su_type (bu_subject b), su_id (bu_subject b), bu_id b))
       (filter (\<lambda>b. budget_active t now b \<and> bu_subject b \<in> set subjects) (bd_budgets db))"

text \<open>\<open>SELECT DISTINCT ON (unit_kind) \<dots> ORDER BY unit_kind, effective_from DESC\<close>.\<close>

fun first_per_unit :: "price list \<Rightarrow> price list" where
  "first_per_unit [] = []"
| "first_per_unit (p # ps) = p # filter (\<lambda>q. pr_unit q \<noteq> pr_unit p) (first_per_unit ps)"

definition SelectPrices ::
    "billing_db \<Rightarrow> string \<Rightarrow> string \<Rightarrow> string \<Rightarrow> string \<Rightarrow> time \<Rightarrow> price list" where
  "SelectPrices db t styp sid cap now =
     first_per_unit
       (sort_key (\<lambda>p. (pr_unit p, - pr_effective p))
         (filter (\<lambda>p. pr_tenant p = t \<and> pr_subject_type p = styp \<and> pr_subject_id p = sid \<and>
                      pr_capability p = cap \<and> pr_effective p \<le> now) (bd_prices db)))"

section \<open>billing_repo.go: liabilities\<close>

definition outstanding :: "reservation \<Rightarrow> bool" where
  "outstanding r \<longleftrightarrow> rs_state r = ReservationHeld \<or> rs_state r = ReservationUnknown"

text \<open>Whether a reservation row counts against a scope.\<close>

definition in_scope :: "subject \<Rightarrow> reservation \<Rightarrow> bool" where
  "in_scope scope r \<longleftrightarrow>
     (if su_type scope = BudgetSubjectTenant then \<not> sql_like ''%/%'' (rs_id r) else rs_subject r = scope)"

definition usage_in_scope :: "subject \<Rightarrow> usage_record \<Rightarrow> bool" where
  "usage_in_scope scope u \<longleftrightarrow> su_type scope = BudgetSubjectTenant \<or> ur_subject u = scope"

definition Liabilities :: "billing_db \<Rightarrow> string \<Rightarrow> subject \<Rightarrow> time \<Rightarrow> liability_row list" where
  "Liabilities db t scope from_t =
     map (\<lambda>r. \<lparr>lr_amount = rs_limit r, lr_currency = rs_currency r, lr_units = rs_units r\<rparr>)
       (filter (\<lambda>r. rs_tenant r = t \<and> outstanding r \<and> in_scope scope r) (bd_reservations db))
     @ map (\<lambda>u. \<lparr>lr_amount = ur_amount u, lr_currency = ur_currency u, lr_units = ur_units u\<rparr>)
         (filter (\<lambda>u. ur_tenant u = t \<and> from_t \<le> ur_created u \<and> usage_in_scope scope u) (bd_usage db))"

section \<open>billing_repo.go: reservations and usage\<close>

definition res_key :: "reservation \<Rightarrow> string \<times> string" where
  "res_key r = (rs_tenant r, rs_id r)"

definition usage_key :: "usage_record \<Rightarrow> string \<times> string" where
  "usage_key u = (ur_tenant u, ur_reservation u)"

text \<open>One INSERT per row; the first that violates the primary key or a foreign key aborts.\<close>

fun InsertReservations ::
    "(string \<Rightarrow> string \<Rightarrow> string \<Rightarrow> bool) \<Rightarrow> time \<Rightarrow> billing_db \<Rightarrow> reservation list \<Rightarrow>
     billing_error + billing_db" where
  "InsertReservations fk_ok now db [] = Inr db"
| "InsertReservations fk_ok now db (r # rs) =
     (if list_ex (\<lambda>q. res_key q = res_key r) (bd_reservations db) \<or>
         \<not> fk_ok (rs_tenant r) (rs_job r) (rs_attempt r)
      then Inl ConstraintViolation
      else InsertReservations fk_ok now
             (db\<lparr>bd_reservations := bd_reservations db @
                   [r\<lparr>rs_state := ReservationHeld, rs_created := now, rs_dispatched := None,
                      rs_settled := None\<rparr>]\<rparr>) rs)"

definition GetReservation :: "billing_db \<Rightarrow> string \<Rightarrow> string \<Rightarrow> billing_error + reservation" where
  "GetReservation db t i =
     (case find_row (\<lambda>r. res_key r = (t, i)) (bd_reservations db) of
        None \<Rightarrow> Inl ReservationNotFound | Some r \<Rightarrow> Inr r)"

definition transition_row :: "reservation_state \<Rightarrow> time \<Rightarrow> reservation \<Rightarrow> reservation" where
  "transition_row st now r =
     r\<lparr>rs_state := st, rs_settled := (if st = ReservationSettled then Some now else rs_settled r)\<rparr>"

definition Transition ::
    "billing_db \<Rightarrow> string \<Rightarrow> string \<Rightarrow> reservation_state \<Rightarrow> reservation_state \<Rightarrow> time \<Rightarrow> billing_db \<times> nat" where
  "Transition db t i from_s to_s now =
     (let P = (\<lambda>r. in_group t i r \<and> rs_state r = from_s)
      in (db\<lparr>bd_reservations := upd_rows P (transition_row to_s now) (bd_reservations db)\<rparr>,
          count_rows P (bd_reservations db)))"

definition MarkDispatchedRes :: "billing_db \<Rightarrow> string \<Rightarrow> string \<Rightarrow> time \<Rightarrow> billing_db \<times> nat" where
  "MarkDispatchedRes db t i now =
     (let P = (\<lambda>r. in_group t i r \<and> rs_dispatched r = None)
      in (db\<lparr>bd_reservations := upd_rows P (\<lambda>r. r\<lparr>rs_dispatched := Some now\<rparr>) (bd_reservations db)\<rparr>,
          count_rows P (bd_reservations db)))"

text \<open>\<open>UNIQUE (tenant_id, reservation_id)\<close>, the primary key, and the foreign key to the reservation.\<close>

definition InsertUsageRecord :: "billing_db \<Rightarrow> usage_record \<Rightarrow> time \<Rightarrow> billing_error + billing_db" where
  "InsertUsageRecord db u now =
     (if list_ex (\<lambda>v. usage_key v = usage_key u \<or> (ur_tenant v, ur_id v) = (ur_tenant u, ur_id u)) (bd_usage db) \<or>
         \<not> list_ex (\<lambda>r. res_key r = usage_key u) (bd_reservations db)
      then Inl ConstraintViolation
      else Inr (db\<lparr>bd_usage := bd_usage db @ [u\<lparr>ur_created := now\<rparr>]\<rparr>))"

definition GetUsageRecord :: "billing_db \<Rightarrow> string \<Rightarrow> string \<Rightarrow> billing_error + usage_record" where
  "GetUsageRecord db t i =
     (case find_row (\<lambda>u. usage_key u = (t, i)) (bd_usage db) of
        None \<Rightarrow> Inl ReservationNotFound | Some u \<Rightarrow> Inr u)"

section \<open>Facts about the statements\<close>

lemma sql_like_slash: "sql_like ''%/%'' s \<longleftrightarrow> CHR ''/'' \<in> set s"
proof -
  have any: "sql_like ''%'' s" for s by (induction s) simp_all
  have slash: "sql_like ''/%'' s \<longleftrightarrow> (\<exists>t. s = CHR ''/'' # t)" for s
    by (cases s) (auto simp: any eq_commute[of "CHR ''/''"])
  show ?thesis
  proof (induction s)
    case Nil
    then show ?case by simp
  next
    case (Cons c s)
    then show ?case using any by (auto simp: slash)
  qed
qed

text \<open>Characters a generated reservation id is made of: none is special to LIKE but the underscore.\<close>

definition plain_id :: "string \<Rightarrow> bool" where
  "plain_id i \<longleftrightarrow> i \<noteq> [] \<and> list_all (\<lambda>c. c \<notin> {CHR ''%'', CHR ''/'', CHR 0x5C}) i"

lemma sql_like_plain:
  "list_all (\<lambda>c. c \<notin> {CHR ''%'', CHR ''/'', CHR 0x5C}) i \<Longrightarrow> sql_like (i @ ''/%'') s \<longleftrightarrow>
   (\<exists>p q. s = p @ CHR ''/'' # q \<and> list_all2 (\<lambda>a b. a = CHR ''_'' \<or> a = b) i p)"
proof (induction i arbitrary: s)
  case Nil
  have any: "sql_like ''%'' s" for s by (induction s) simp_all
  show ?case by (cases s) (auto simp: any)
next
  case (Cons a i)
  show ?case
  proof (cases s)
    case Nil
    then show ?thesis using Cons.prems by (auto simp: list_all2_Cons1)
  next
    case (Cons c cs)
    have "a \<noteq> CHR ''%''" "a \<noteq> CHR 0x5C" using Cons.prems by auto
    then have "sql_like ((a # i) @ ''/%'') s \<longleftrightarrow> (a = CHR ''_'' \<or> a = c) \<and> sql_like (i @ ''/%'') cs"
      using Cons by auto
    also have "\<dots> \<longleftrightarrow> (\<exists>p q. s = p @ CHR ''/'' # q \<and> list_all2 (\<lambda>a b. a = CHR ''_'' \<or> a = b) (a # i) p)"
      using Cons.IH[of cs] Cons.prems Cons by (auto simp: list_all2_Cons1 Cons_eq_append_conv)
    finally show ?thesis .
  qed
qed

lemma group_attribution: "plain_id i \<Longrightarrow> sql_like (i @ ''/%'') (i @ CHR ''/'' # q)"
proof -
  assume p: "plain_id i"
  have "list_all2 (\<lambda>a b. a = CHR ''_'' \<or> a = b) i i" by (rule list_all2_refl) simp
  then show ?thesis using p by (auto simp: plain_id_def sql_like_plain)
qed

text \<open>A canonical id, which has no slash, is in no other reservation's group.\<close>

lemma group_canonical: "plain_id i \<Longrightarrow> CHR ''/'' \<notin> set (rs_id r) \<Longrightarrow> in_group t i r \<longleftrightarrow> rs_tenant r = t \<and> rs_id r = i"
  by (auto simp: in_group_def plain_id_def sql_like_plain)

end
