(* ===== verification/Billing.thy ===== *)
theory Billing
  imports BillingRepo
begin

text \<open>
  The admission and settlement authority of internal/billing/service.go over the tables of
  BillingRepo: Reserve, Settle, MarkUnknown, MarkDispatched and ReleaseUndispatched, each one
  transaction. The arithmetic of \<open>charge\<close> and \<open>checkedAdd\<close> is in Money. Random ids and the clocks
  are arguments; Go's wall clock and the database's \<open>now()\<close> are passed separately.
\<close>

section \<open>Calendar: periodStart and liabilityFrom\<close>

definition day_ns :: int where
  "day_ns = 86400 * second"

text \<open>Day of the month (from 1) of a day counted from 1970-01-01, in the Gregorian calendar.\<close>

definition day_of_month :: "int \<Rightarrow> int" where
  "day_of_month days =
     (let z = days + 719468;
          doe = z mod 146097;
          yoe = (doe - doe div 1460 + doe div 36524 - doe div 146096) div 365;
          doy = doe - (365 * yoe + yoe div 4 - yoe div 100);
          mp = (5 * doy + 2) div 153
      in doy - (153 * mp + 2) div 5 + 1)"

text \<open>Go's \<open>Weekday\<close>: Sunday is 0; 1970-01-01 was a Thursday.\<close>

definition weekday :: "int \<Rightarrow> int" where
  "weekday days = (days + 4) mod 7"

definition zero_time :: time where
  "zero_time = - 62135596800 * second"

definition periodStart :: "period \<Rightarrow> time \<Rightarrow> time" where
  "periodStart p now =
     (let days = now div day_ns in
      case p of
        PeriodDaily \<Rightarrow> days * day_ns
      | PeriodWeekly \<Rightarrow> (days - (weekday days + 6) mod 7) * day_ns
      | PeriodMonthly \<Rightarrow> (days - (day_of_month days - 1)) * day_ns
      | PeriodOther _ \<Rightarrow> zero_time)"

definition liabilityFrom :: "budget \<Rightarrow> time \<Rightarrow> time" where
  "liabilityFrom b now =
     (let start = periodStart (bu_period b) now
      in if start < bu_starts b then bu_starts b else start)"

section \<open>Subjects and units\<close>

definition billingSubjectFor :: "principal \<Rightarrow> subject" where
  "billingSubjectFor p =
     (if p_billing_subject_kind p \<noteq> [] \<and> p_billing_subject p \<noteq> []
      then \<lparr>su_type = p_billing_subject_kind p, su_id = p_billing_subject p\<rparr>
      else \<lparr>su_type = BudgetSubjectTenant, su_id = p_tenant p\<rparr>)"

definition norm_subject :: "string \<Rightarrow> subject \<Rightarrow> subject" where
  "norm_subject t s = (if su_type s = BudgetSubjectTenant then s\<lparr>su_id := t\<rparr> else s)"

definition subjectsFor :: "string \<Rightarrow> subject \<Rightarrow> subject list \<Rightarrow> subject list" where
  "subjectsFor t billing keys =
     sort_key (\<lambda>s. (su_type s, su_id s))
       (dedup_from {}
         (filter (\<lambda>s. su_id s \<noteq> [])
           (map (norm_subject t)
             (filter (\<lambda>s. su_type s \<noteq> [])
               ([billing, \<lparr>su_type = BudgetSubjectTenant, su_id = t\<rparr>] @ keys)))))"

record usage =
  us_input :: i64
  us_output :: i64
  us_cached :: i64
  us_other :: "(string \<times> i64) list"

text \<open>Assignment to a Go map entry.\<close>

fun put_unit :: "string \<Rightarrow> i64 \<Rightarrow> units \<Rightarrow> units" where
  "put_unit k v [] = [(k, v)]"
| "put_unit k v ((k', v') # m) = (if k' = k then (k, v) # m else (k', v') # put_unit k v m)"

definition add_unit :: "string \<Rightarrow> i64 \<Rightarrow> units \<Rightarrow> billing_error + units" where
  "add_unit k v m =
     (if v <s 0 then Inl (NegativeUnits k) else if 0 <s v then Inr (put_unit k v m) else Inr m)"

fun add_others :: "(string \<times> i64) list \<Rightarrow> units \<Rightarrow> billing_error + units" where
  "add_others [] m = Inr m"
| "add_others ((k, v) # kvs) m =
     (if k = [] then Inl EmptyUnitKind else bind_r (add_unit k v m) (add_others kvs))"

definition unitMap :: "usage \<Rightarrow> billing_error + units" where
  "unitMap u =
     bind_r (add_unit ''input'' (us_input u) []) (\<lambda>m1.
     bind_r (add_unit ''output'' (us_output u) m1) (\<lambda>m2.
     bind_r (add_unit ''cached_input'' (us_cached u) m2) (\<lambda>m3. add_others (us_other u) m3)))"

section \<open>Price snapshot\<close>

fun select_rates ::
    "price list \<Rightarrow> string list \<Rightarrow> string \<Rightarrow> snapshot_rate list \<Rightarrow>
     billing_error + string \<times> snapshot_rate list" where
  "select_rates prices [] cur acc = Inr (cur, acc)"
| "select_rates prices (k # ks) cur acc =
     (case List.find (\<lambda>p. pr_unit p = k) prices of
        None \<Rightarrow> Inl (PriceMissing k)
      | Some p \<Rightarrow>
          if cur \<noteq> [] \<and> cur \<noteq> pr_currency p then Inl (CurrencyMismatch cur (pr_currency p))
          else select_rates prices ks (if cur = [] then pr_currency p else cur)
                 (acc @ [\<lparr>sr_unit = k, sr_rate_micros = pr_rate_micros p,
                         sr_unit_quantity = pr_unit_quantity p\<rparr>]))"

definition snapshotFor :: "price list \<Rightarrow> units \<Rightarrow> billing_error + price_snapshot" where
  "snapshotFor prices estimate =
     bind_r (select_rates prices (sort (map fst estimate)) [] []) (\<lambda>(cur, rates).
       if cur = [] then Inl (PriceMissing [])
       else Inr \<lparr>ps_rates = rates, ps_currency = cur, ps_rounding = RoundingCeil\<rparr>)"

section \<open>admit\<close>

fun sum_amounts :: "string \<Rightarrow> i64 \<Rightarrow> liability_row list \<Rightarrow> i64 option" where
  "sum_amounts cur acc [] = Some acc"
| "sum_amounts cur acc (r # rs) =
     (if lr_currency r \<noteq> cur then sum_amounts cur acc rs
      else let (s, overflow) = checkedAdd acc (lr_amount r)
           in if overflow then None else sum_amounts cur s rs)"

fun sum_values :: "i64 \<Rightarrow> i64 list \<Rightarrow> i64 option" where
  "sum_values acc [] = Some acc"
| "sum_values acc (v # vs) =
     (let (s, overflow) = checkedAdd acc v in if overflow then None else sum_values s vs)"

definition exceeds :: "budget \<Rightarrow> i64 \<Rightarrow> i64 \<Rightarrow> bool" where
  "exceeds b existing proposed \<longleftrightarrow>
     snd (checkedAdd existing proposed) \<or> bu_limit b <s existing + proposed"

definition admit ::
    "budget \<Rightarrow> liability_row list \<Rightarrow> i64 \<Rightarrow> units \<Rightarrow> string \<Rightarrow> billing_error option" where
  "admit b rows bound u currency =
     (case bu_kind b of
        BudgetKindAmount \<Rightarrow>
          if currency \<noteq> bu_currency b then Some (CurrencyMismatch currency (bu_currency b))
          else (case sum_amounts (bu_currency b) 0 rows of
                  None \<Rightarrow> Some (BudgetExceeded (bu_id b))
                | Some existing \<Rightarrow>
                    if exceeds b existing bound then Some (BudgetExceeded (bu_id b)) else None)
      | BudgetKindTokens \<Rightarrow>
          (case sum_values 0 (concat (map (\<lambda>r. map snd (lr_units r)) rows)) of
             None \<Rightarrow> Some (BudgetExceeded (bu_id b))
           | Some existing \<Rightarrow>
               (case sum_values 0 (map snd u) of
                  None \<Rightarrow> Some (BudgetExceeded (bu_id b))
                | Some proposed \<Rightarrow>
                    if exceeds b existing proposed then Some (BudgetExceeded (bu_id b)) else None))
      | BudgetKindOther k \<Rightarrow> Some (UnknownBudgetKind k))"

fun admit_all ::
    "billing_db \<Rightarrow> string \<Rightarrow> time \<Rightarrow> i64 \<Rightarrow> units \<Rightarrow> string \<Rightarrow> budget list \<Rightarrow> billing_error option" where
  "admit_all db t now bound u currency [] = None"
| "admit_all db t now bound u currency (b # bs) =
     (case admit b (Liabilities db t (bu_subject b) (liabilityFrom b now)) bound u currency of
        Some e \<Rightarrow> Some e | None \<Rightarrow> admit_all db t now bound u currency bs)"

section \<open>Reserve\<close>

record reserve_request =
  rq_subjects :: "subject list"
  rq_billing :: subject
  rq_capability :: string
  rq_model :: string
  rq_endpoint :: string
  rq_job :: string
  rq_attempt :: string
  rq_estimate :: usage
  rq_price_type :: string
  rq_price_id :: string

definition held_reservation ::
    "principal \<Rightarrow> reserve_request \<Rightarrow> string \<Rightarrow> time \<Rightarrow> subject \<Rightarrow> price_snapshot \<Rightarrow> i64 \<Rightarrow> units \<Rightarrow> reservation" where
  "held_reservation p req newid now subj snap bound u =
     \<lparr>rs_tenant = p_tenant p, rs_id = newid, rs_subject = subj, rs_state = ReservationHeld,
      rs_price = snap, rs_limit = bound, rs_currency = ps_currency snap, rs_units = u,
      rs_capability = rq_capability req, rs_model = rq_model req, rs_endpoint = rq_endpoint req,
      rs_job = rq_job req, rs_attempt = rq_attempt req, rs_dispatched = None, rs_created = now,
      rs_settled = None\<rparr>"

text \<open>One row per subject; all but the billing subject's carry a derived id.\<close>

definition reservation_rows :: "reservation \<Rightarrow> subject \<Rightarrow> subject list \<Rightarrow> reservation list" where
  "reservation_rows out billing subjects =
     map (\<lambda>s. if s = billing then out\<lparr>rs_subject := s\<rparr>
              else out\<lparr>rs_subject := s, rs_id := rs_id out @ ''/'' @ su_type s @ '':'' @ su_id s\<rparr>) subjects"

definition request_subject :: "principal \<Rightarrow> reserve_request \<Rightarrow> subject" where
  "request_subject p req = (if su_type (rq_billing req) = [] then billingSubjectFor p else rq_billing req)"

definition Reserve ::
    "(string \<Rightarrow> string \<Rightarrow> string \<Rightarrow> bool) \<Rightarrow> billing_db \<Rightarrow> principal \<Rightarrow> reserve_request \<Rightarrow> string \<Rightarrow>
     time \<Rightarrow> time \<Rightarrow> billing_error + billing_db \<times> reservation" where
  "Reserve fk_ok db p req newid now dbnow =
     (if rq_capability req = [] \<or> rq_price_type req = [] \<or> rq_price_id req = [] then Inl MissingPriceKey
      else bind_r (unitMap (rq_estimate req)) (\<lambda>est.
        if est = [] then Inl EmptyEstimate
        else
          let billing = request_subject p req;
              subjects = subjectsFor (p_tenant p) billing (rq_subjects req);
              budgets = LockActiveBudgets db (p_tenant p) subjects now;
              prices = SelectPrices db (p_tenant p) (rq_price_type req) (rq_price_id req)
                         (rq_capability req) now
          in bind_r (snapshotFor prices est) (\<lambda>snap.
             bind_r (charge est snap) (\<lambda>bound.
               case admit_all db (p_tenant p) now bound est (ps_currency snap) budgets of
                 Some e \<Rightarrow> Inl e
               | None \<Rightarrow>
                   let out = held_reservation p req newid now billing snap bound est
                   in bind_r (InsertReservations fk_ok dbnow db (reservation_rows out billing subjects))
                        (\<lambda>db'. Inr (db', out))))))"

section \<open>Settle, MarkUnknown, MarkDispatched, ReleaseUndispatched\<close>

definition settlement :: "reservation \<Rightarrow> string \<Rightarrow> units \<Rightarrow> i64 \<Rightarrow> time \<Rightarrow> usage_record" where
  "settlement res newid u amt now =
     \<lparr>ur_tenant = rs_tenant res, ur_id = newid, ur_reservation = rs_id res, ur_subject = rs_subject res,
      ur_capability = rs_capability res, ur_model = rs_model res, ur_endpoint = rs_endpoint res,
      ur_units = u, ur_amount = amt, ur_currency = rs_currency res, ur_price = rs_price res,
      ur_outcome = ''completed'', ur_created = now\<rparr>"

definition Settle ::
    "billing_db \<Rightarrow> principal \<Rightarrow> string \<Rightarrow> usage \<Rightarrow> string \<Rightarrow> time \<Rightarrow> time \<Rightarrow>
     billing_error + billing_db \<times> usage_record" where
  "Settle db p i actual newid now dbnow =
     bind_r (unitMap actual) (\<lambda>u.
     bind_r (GetReservation db (p_tenant p) i) (\<lambda>res.
       if rs_state res = ReservationSettled
       then bind_r (GetUsageRecord db (p_tenant p) i) (\<lambda>rec. Inr (db, rec))
       else if rs_state res \<noteq> ReservationHeld then Inl (ReservationState i)
       else bind_r (charge u (rs_price res)) (\<lambda>amt.
         case Transition db (p_tenant p) i ReservationHeld ReservationSettled dbnow of
           (db1, n) \<Rightarrow>
             if n = 0 then Inl ReservationNotFound
             else let rec = settlement res newid u amt now
                  in bind_r (InsertUsageRecord db1 rec dbnow) (\<lambda>db2. Inr (db2, rec)))))"

definition MarkUnknown :: "billing_db \<Rightarrow> principal \<Rightarrow> string \<Rightarrow> time \<Rightarrow> billing_error + billing_db" where
  "MarkUnknown db p i dbnow =
     (case Transition db (p_tenant p) i ReservationHeld ReservationUnknown dbnow of
        (db1, n) \<Rightarrow>
          if n = 0
          then bind_r (GetReservation db1 (p_tenant p) i) (\<lambda>res. Inl (ReservationState i))
          else Inr db1)"

definition MarkDispatched :: "billing_db \<Rightarrow> principal \<Rightarrow> string \<Rightarrow> time \<Rightarrow> billing_error + billing_db" where
  "MarkDispatched db p i dbnow =
     bind_r (GetReservation db (p_tenant p) i) (\<lambda>res.
       Inr (fst (MarkDispatchedRes db (p_tenant p) i dbnow)))"

definition ReleaseUndispatched ::
    "billing_db \<Rightarrow> principal \<Rightarrow> string \<Rightarrow> time \<Rightarrow> billing_error + billing_db" where
  "ReleaseUndispatched db p i dbnow =
     bind_r (GetReservation db (p_tenant p) i) (\<lambda>res.
       if rs_state res = ReservationReleased then Inr db
       else if rs_state res \<noteq> ReservationHeld \<or> rs_dispatched res \<noteq> None then Inl (ReservationState i)
       else Inr (fst (Transition db (p_tenant p) i ReservationHeld ReservationReleased dbnow)))"

section \<open>The billing system\<close>

datatype billing_event =
    BevPrice price string
  | BevBudget budget
  | BevReserve principal reserve_request string time time
  | BevSettle principal string usage string time time
  | BevUnknown principal string time
  | BevDispatched principal string time
  | BevRelease principal string time

definition keep_billing :: "billing_db \<Rightarrow> billing_error + billing_db \<Rightarrow> billing_db" where
  "keep_billing db r = (case r of Inl _ \<Rightarrow> db | Inr db' \<Rightarrow> db')"

text \<open>
  Generated reservation ids are \<open>res_\<close> and hexadecimal digits; the step takes an event whose id is
  not of a generated form as no call at all.
\<close>

fun billing_step ::
    "(string \<Rightarrow> string \<Rightarrow> string \<Rightarrow> bool) \<Rightarrow> billing_db \<Rightarrow> billing_event \<Rightarrow> billing_db" where
  "billing_step fk_ok db (BevPrice pr actor) = keep_billing db (PutPrice db pr actor)"
| "billing_step fk_ok db (BevBudget b) = keep_billing db (CreateBudget db b)"
| "billing_step fk_ok db (BevReserve p req newid now dbnow) =
     (if plain_id newid
      then keep_billing db (bind_r (Reserve fk_ok db p req newid now dbnow) (\<lambda>(db', _). Inr db'))
      else db)"
| "billing_step fk_ok db (BevSettle p i actual newid now dbnow) =
     keep_billing db (bind_r (Settle db p i actual newid now dbnow) (\<lambda>(db', _). Inr db'))"
| "billing_step fk_ok db (BevUnknown p i dbnow) = keep_billing db (MarkUnknown db p i dbnow)"
| "billing_step fk_ok db (BevDispatched p i dbnow) = keep_billing db (MarkDispatched db p i dbnow)"
| "billing_step fk_ok db (BevRelease p i dbnow) = keep_billing db (ReleaseUndispatched db p i dbnow)"

definition billing_run ::
    "(string \<Rightarrow> string \<Rightarrow> string \<Rightarrow> bool) \<Rightarrow> billing_db \<Rightarrow> billing_event list \<Rightarrow> billing_db" where
  "billing_run fk_ok db evs = foldl (billing_step fk_ok) db evs"

end
