(* ===== verification/BillingInv.thy ===== *)
theory BillingInv
  imports Billing
begin

text \<open>
  The invariant of the billing tables, its preservation by every operation, and how reservation
  rows may move. Keys are unique, units are non-negative, every hold carries the exact charge of its
  estimate under its own price snapshot, settlement evidence exists exactly for settled canonical
  rows. The system interprets the shared transition-system contract.
\<close>

section \<open>Units\<close>

lemma put_unit_keys: "set (map fst (put_unit k v m)) = insert k (set (map fst m))"
proof (induction m)
  case Nil
  then show ?case by simp
next
  case (Cons x m)
  then show ?case by (cases x; cases "fst x = k") (simp_all add: insert_commute)
qed

lemma put_unit_ok: "units_ok m \<Longrightarrow> 0 \<le>s v \<Longrightarrow> units_ok (put_unit k v m)"
proof (induction m)
  case Nil
  then show ?case by (simp add: units_ok_def)
next
  case (Cons x m)
  obtain k' v' where x: "x = (k', v')" by fastforce
  have m: "units_ok m" "k' \<notin> set (map fst m)" "0 \<le>s v'" using Cons.prems(1) by (auto simp: units_ok_def x)
  show ?case
  proof (cases "k' = k")
    case True
    then show ?thesis using m Cons.prems(2) by (simp add: x units_ok_def)
  next
    case False
    then have "k' \<notin> set (map fst (put_unit k v m))" using m(2) put_unit_keys[of k v m] by simp
    then show ?thesis using False Cons.IH[OF m(1) Cons.prems(2)] m(3) by (simp add: x units_ok_def)
  qed
qed

lemma add_unit_ok: "units_ok m \<Longrightarrow> add_unit k v m = Inr m' \<Longrightarrow> units_ok m'"
  by (auto simp: add_unit_def word_sle_eq word_sless_alt split: if_splits intro: put_unit_ok)

lemma add_others_ok: "units_ok m \<Longrightarrow> add_others kvs m = Inr m' \<Longrightarrow> units_ok m'"
  by (induction kvs m rule: add_others.induct) (auto simp: bind_r_Inr split: if_splits dest: add_unit_ok)

lemma unitMap_ok:
  assumes "unitMap u = Inr m"
  shows "units_ok m"
proof -
  have "units_ok []" by (simp add: units_ok_def)
  then show ?thesis using assms unfolding unitMap_def bind_r_Inr by (meson add_unit_ok add_others_ok)
qed

section \<open>The invariant\<close>

definition hold_ok :: "reservation \<Rightarrow> bool" where
  "hold_ok r \<longleftrightarrow> units_ok (rs_units r) \<and> charge (rs_units r) (rs_price r) = Inr (rs_limit r)"

definition canonical :: "reservation \<Rightarrow> bool" where
  "canonical r \<longleftrightarrow> CHR ''/'' \<notin> set (rs_id r)"

definition evidence_ok :: "reservation list \<Rightarrow> usage_record list \<Rightarrow> bool" where
  "evidence_ok rs us \<longleftrightarrow>
     (\<forall>u\<in>set us. \<exists>r\<in>set rs. res_key r = usage_key u \<and> rs_state r = ReservationSettled) \<and>
     (\<forall>r\<in>set rs. canonical r \<and> rs_state r = ReservationSettled \<longrightarrow> (\<exists>u\<in>set us. usage_key u = res_key r))"

definition billing_inv :: "billing_db \<Rightarrow> bool" where
  "billing_inv db \<longleftrightarrow>
     distinct (map res_key (bd_reservations db)) \<and> distinct (map usage_key (bd_usage db)) \<and>
     (\<forall>r\<in>set (bd_reservations db). hold_ok r) \<and>
     evidence_ok (bd_reservations db) (bd_usage db)"

lemma billing_inv_empty: "billing_inv empty_billing_db"
  by (simp add: billing_inv_def evidence_ok_def empty_billing_db_def)

section \<open>How rows may move\<close>

text \<open>
  Everything but the state and the two time stamps of a reservation row is fixed at insertion; the
  state leaves held once and never changes again; a dispatch mark is never taken back.
\<close>

definition fixed_part ::
    "reservation \<Rightarrow> (string \<times> string \<times> subject \<times> price_snapshot \<times> i64 \<times> string \<times> units) \<times>
       (string \<times> string \<times> string \<times> string \<times> string \<times> time)" where
  "fixed_part r =
     ((rs_tenant r, rs_id r, rs_subject r, rs_price r, rs_limit r, rs_currency r, rs_units r),
      (rs_capability r, rs_model r, rs_endpoint r, rs_job r, rs_attempt r, rs_created r))"

definition res_evolves :: "reservation \<Rightarrow> reservation \<Rightarrow> bool" where
  "res_evolves r r' \<longleftrightarrow>
     fixed_part r' = fixed_part r \<and>
     (rs_state r \<noteq> ReservationHeld \<longrightarrow> rs_state r' = rs_state r \<and> rs_settled r' = rs_settled r) \<and>
     (rs_dispatched r \<noteq> None \<longrightarrow> rs_dispatched r' = rs_dispatched r) \<and>
     (canonical r \<and> rs_state r = ReservationHeld \<and> rs_dispatched r \<noteq> None \<longrightarrow>
        rs_state r' \<noteq> ReservationReleased)"

lemma fixed_canonical: "fixed_part r' = fixed_part r \<Longrightarrow> canonical r' = canonical r"
  by (simp add: fixed_part_def canonical_def)

lemma fixed_key: "fixed_part r' = fixed_part r \<Longrightarrow> res_key r' = res_key r"
  by (simp add: fixed_part_def res_key_def)

lemma fixed_hold: "fixed_part r' = fixed_part r \<Longrightarrow> hold_ok r' = hold_ok r"
  by (simp add: fixed_part_def hold_ok_def)

lemma res_evolves_refl [simp]: "res_evolves r r"
  by (auto simp: res_evolves_def)

lemma res_evolves_trans: "res_evolves a b \<Longrightarrow> res_evolves b c \<Longrightarrow> res_evolves a c"
proof -
  assume ab: "res_evolves a b" and bc: "res_evolves b c"
  have f: "fixed_part b = fixed_part a" "fixed_part c = fixed_part b"
    using ab bc unfolding res_evolves_def by blast+
  have can: "canonical b = canonical a" by (rule fixed_canonical[OF f(1)])
  have released: "rs_state c \<noteq> ReservationReleased"
    if a: "canonical a" "rs_state a = ReservationHeld" "rs_dispatched a \<noteq> None"
  proof (cases "rs_state b = ReservationHeld")
    case True
    then show ?thesis using ab bc a can unfolding res_evolves_def by metis
  next
    case False
    then show ?thesis using ab bc a unfolding res_evolves_def by metis
  qed
  show "res_evolves a c" unfolding res_evolves_def
  proof (intro conjI impI)
    show "fixed_part c = fixed_part a" using f by simp
  next
    assume "rs_state a \<noteq> ReservationHeld"
    then show "rs_state c = rs_state a" "rs_settled c = rs_settled a"
      using ab bc unfolding res_evolves_def by metis+
  next
    assume "rs_dispatched a \<noteq> None"
    then show "rs_dispatched c = rs_dispatched a" using ab bc unfolding res_evolves_def by metis
  qed (use released in blast)
qed

definition db_evolves :: "billing_db \<Rightarrow> billing_db \<Rightarrow> bool" where
  "db_evolves db db' \<longleftrightarrow>
     billing_inv db' \<and>
     (\<forall>r\<in>set (bd_reservations db). \<exists>r'\<in>set (bd_reservations db'). res_evolves r r') \<and>
     set (bd_usage db) \<subseteq> set (bd_usage db')"

lemma db_evolves_refl: "billing_inv db \<Longrightarrow> db_evolves db db"
  unfolding db_evolves_def using res_evolves_refl by blast

lemma res_unique:
  "billing_inv db \<Longrightarrow> r \<in> set (bd_reservations db) \<Longrightarrow> r' \<in> set (bd_reservations db) \<Longrightarrow>
   res_key r = res_key r' \<Longrightarrow> r = r'"
  by (auto simp: billing_inv_def dest: distinct_keys_unique)

lemma usage_unique:
  "billing_inv db \<Longrightarrow> u \<in> set (bd_usage db) \<Longrightarrow> u' \<in> set (bd_usage db) \<Longrightarrow>
   usage_key u = usage_key u' \<Longrightarrow> u = u'"
  by (auto simp: billing_inv_def dest: distinct_keys_unique)

lemma GetReservation_Inr:
  assumes "billing_inv db"
  shows "GetReservation db t i = Inr r \<longleftrightarrow> r \<in> set (bd_reservations db) \<and> res_key r = (t, i)"
proof
  assume "GetReservation db t i = Inr r"
  then show "r \<in> set (bd_reservations db) \<and> res_key r = (t, i)"
    by (auto simp: GetReservation_def split: option.splits dest: find_row_Some)
next
  assume r: "r \<in> set (bd_reservations db) \<and> res_key r = (t, i)"
  have "find_row (\<lambda>r. res_key r = (t, i)) (bd_reservations db) = Some r"
    by (rule find_row_unique[of res_key _ _ _ "(t, i)"]) (use assms r in \<open>auto simp: billing_inv_def\<close>)
  then show "GetReservation db t i = Inr r" by (simp add: GetReservation_def)
qed

lemma GetUsageRecord_Inr:
  assumes "billing_inv db"
  shows "GetUsageRecord db t i = Inr u \<longleftrightarrow> u \<in> set (bd_usage db) \<and> usage_key u = (t, i)"
proof
  assume "GetUsageRecord db t i = Inr u"
  then show "u \<in> set (bd_usage db) \<and> usage_key u = (t, i)"
    by (auto simp: GetUsageRecord_def split: option.splits dest: find_row_Some)
next
  assume u: "u \<in> set (bd_usage db) \<and> usage_key u = (t, i)"
  have "find_row (\<lambda>u. usage_key u = (t, i)) (bd_usage db) = Some u"
    by (rule find_row_unique[of usage_key _ _ _ "(t, i)"]) (use assms u in \<open>auto simp: billing_inv_def\<close>)
  then show "GetUsageRecord db t i = Inr u" by (simp add: GetUsageRecord_def)
qed

section \<open>LIKE and canonical rows\<close>

lemma sql_like_slash_pattern: "CHR ''/'' \<in> set p \<Longrightarrow> sql_like p s \<Longrightarrow> CHR ''/'' \<in> set s"
proof (induction p s rule: sql_like.induct)
  case (1 s)
  then show ?case by simp
next
  case (2 p ps)
  then show ?case by auto
next
  case (3 p ps c cs)
  consider (percent) "p = CHR ''%''" | (one) "p = CHR ''_''" | (escape) "p = CHR 0x5C"
    | (literal) "p \<noteq> CHR ''%''" "p \<noteq> CHR ''_''" "p \<noteq> CHR 0x5C"
    by blast
  then show ?case
  proof cases
    case percent
    then have "CHR ''/'' \<in> set ps" using "3.prems"(1) by simp
    moreover have "sql_like ps (c # cs) \<or> sql_like (p # ps) cs" using "3.prems"(2) percent by simp
    ultimately show ?thesis using "3.IH"(1,2)[OF percent] "3.prems"(1) by auto
  next
    case one
    then have "CHR ''/'' \<in> set ps" "sql_like ps cs" using "3.prems" by simp_all
    then show ?thesis using "3.IH"(3) one by simp
  next
    case escape
    then obtain qs where ps: "ps = c # qs" "sql_like qs cs"
      using "3.prems"(2) by (auto split: list.splits)
    then have "CHR ''/'' = c \<or> CHR ''/'' \<in> set qs" using "3.prems"(1) escape by auto
    then show ?thesis using "3.IH"(4)[OF _ _ escape ps(1)] escape ps(2) by auto
  next
    case literal
    then have l: "p = c" "sql_like ps cs" using "3.prems"(2) by simp_all
    then have "CHR ''/'' = c \<or> CHR ''/'' \<in> set ps" using "3.prems"(1) by auto
    then show ?thesis using "3.IH"(5)[OF literal] l by auto
  qed
qed

text \<open>A statement over a group touches a canonical row only under its own id.\<close>

lemma group_touches_canonical: "canonical r \<Longrightarrow> in_group t i r \<Longrightarrow> rs_id r = i"
proof -
  assume c: "canonical r" and g: "in_group t i r"
  have "CHR ''/'' \<in> set (i @ ''/%'')" by simp
  from sql_like_slash_pattern[OF this, of "rs_id r"] have "\<not> sql_like (i @ ''/%'') (rs_id r)"
    using c unfolding canonical_def by blast
  then show "rs_id r = i" using g unfolding in_group_def by blast
qed

section \<open>Row updates\<close>

lemma map_res_key_upd:
  "(\<And>r. P r \<Longrightarrow> fixed_part (f r) = fixed_part r) \<Longrightarrow> map res_key (upd_rows P f rs) = map res_key rs"
  by (rule map_upd_rows) (rule fixed_key)

lemma upd_evolves:
  assumes "\<And>r. r \<in> set rs \<Longrightarrow> P r \<Longrightarrow> res_evolves r (f r)" and "r \<in> set rs"
  shows "\<exists>r'\<in>set (upd_rows P f rs). res_evolves r r'"
proof (rule bexI[OF _ upd_rows_in[OF assms(2), of P f]])
  show "res_evolves r (if P r then f r else r)" using assms by simp
qed

lemma transition_fixed [simp]: "fixed_part (transition_row st now r) = fixed_part r"
  by (simp add: fixed_part_def transition_row_def)

lemma transition_simps [simp]:
  "rs_state (transition_row st now r) = st" "rs_dispatched (transition_row st now r) = rs_dispatched r"
  by (simp_all add: transition_row_def)

lemma Transition_eq:
  "Transition db t i from_s to_s now =
     (db\<lparr>bd_reservations :=
        upd_rows (\<lambda>r. in_group t i r \<and> rs_state r = from_s) (transition_row to_s now) (bd_reservations db)\<rparr>,
      count_rows (\<lambda>r. in_group t i r \<and> rs_state r = from_s) (bd_reservations db))"
  by (simp add: Transition_def Let_def)

text \<open>An update of held rows that keeps their fixed part keeps the tables' keys and holds.\<close>

lemma upd_keys_holds:
  assumes inv: "billing_inv db" and fx: "\<And>r. fixed_part (f r) = fixed_part r"
  shows "distinct (map res_key (upd_rows P f (bd_reservations db)))"
    and "\<forall>r\<in>set (upd_rows P f (bd_reservations db)). hold_ok r"
proof -
  have "map res_key (upd_rows P f (bd_reservations db)) = map res_key (bd_reservations db)"
    by (rule map_res_key_upd) (rule fx)
  then show "distinct (map res_key (upd_rows P f (bd_reservations db)))"
    using inv by (simp add: billing_inv_def)
  show "\<forall>r\<in>set (upd_rows P f (bd_reservations db)). hold_ok r"
  proof
    fix r assume "r \<in> set (upd_rows P f (bd_reservations db))"
    then obtain r0 where r0: "r0 \<in> set (bd_reservations db)" "r = (if P r0 then f r0 else r0)"
      by (rule in_upd_rowsE)
    have "hold_ok r0" using inv r0(1) by (simp add: billing_inv_def)
    then show "hold_ok r" using r0(2) fixed_hold[OF fx[of r0]] by (cases "P r0") simp_all
  qed
qed

lemma evidence_keep:
  assumes ev: "evidence_ok rs us" and fx: "\<And>r. fixed_part (f r) = fixed_part r"
    and settled: "\<And>r. r \<in> set rs \<Longrightarrow> P r \<Longrightarrow> rs_state r = ReservationSettled \<longleftrightarrow> rs_state (f r) = ReservationSettled"
  shows "evidence_ok (upd_rows P f rs) us"
  unfolding evidence_ok_def
proof (intro conjI ballI impI)
  fix u assume "u \<in> set us"
  then obtain r where r: "r \<in> set rs" "res_key r = usage_key u" "rs_state r = ReservationSettled"
    using ev by (auto simp: evidence_ok_def)
  show "\<exists>r\<in>set (upd_rows P f rs). res_key r = usage_key u \<and> rs_state r = ReservationSettled"
    by (rule bexI[OF _ upd_rows_in[OF r(1), of P f]])
       (use r settled[OF r(1)] fixed_key[OF fx[of r]] in auto)
next
  fix r assume r: "r \<in> set (upd_rows P f rs)" "canonical r \<and> rs_state r = ReservationSettled"
  obtain r0 where r0: "r0 \<in> set rs" "r = (if P r0 then f r0 else r0)" using r(1) by (rule in_upd_rowsE)
  have k: "canonical r0" "rs_state r0 = ReservationSettled" "res_key r0 = res_key r"
    using r(2) r0(2) settled[OF r0(1)] fixed_canonical[OF fx[of r0]] fixed_key[OF fx[of r0]]
    by (cases "P r0"; simp)+
  have "\<exists>u\<in>set us. usage_key u = res_key r0" using ev r0(1) k(1,2) unfolding evidence_ok_def by blast
  then show "\<exists>u\<in>set us. usage_key u = res_key r" unfolding k(3) .
qed

text \<open>A transition out of held other than settling, and the dispatch mark.\<close>

lemma evolves_upd:
  assumes inv: "billing_inv db" and fx: "\<And>r. fixed_part (f r) = fixed_part r"
    and settled: "\<And>r. r \<in> set (bd_reservations db) \<Longrightarrow> P r \<Longrightarrow>
       rs_state r = ReservationSettled \<longleftrightarrow> rs_state (f r) = ReservationSettled"
    and ev: "\<And>r. r \<in> set (bd_reservations db) \<Longrightarrow> P r \<Longrightarrow> res_evolves r (f r)"
  shows "db_evolves db (db\<lparr>bd_reservations := upd_rows P f (bd_reservations db)\<rparr>)"
proof -
  have "evidence_ok (upd_rows P f (bd_reservations db)) (bd_usage db)"
    by (rule evidence_keep[OF _ fx settled]) (use inv in \<open>simp_all add: billing_inv_def\<close>)
  then have "billing_inv (db\<lparr>bd_reservations := upd_rows P f (bd_reservations db)\<rparr>)"
    using upd_keys_holds[OF inv fx] inv by (simp add: billing_inv_def)
  then show ?thesis unfolding db_evolves_def using upd_evolves[OF ev] by simp
qed

lemma held_evolves:
  assumes "rs_state r = ReservationHeld"
    and "\<not> (canonical r \<and> rs_dispatched r \<noteq> None \<and> st = ReservationReleased)"
  shows "res_evolves r (transition_row st now r)"
  using assms by (auto simp: res_evolves_def)

lemma evolves_MarkUnknown:
  assumes inv: "billing_inv db" and r: "MarkUnknown db p i dbnow = Inr db'"
  shows "db_evolves db db'"
proof -
  have db': "db' = db\<lparr>bd_reservations := upd_rows (\<lambda>r. in_group (p_tenant p) i r \<and> rs_state r = ReservationHeld)
      (transition_row ReservationUnknown dbnow) (bd_reservations db)\<rparr>"
    using r by (auto simp: MarkUnknown_def Transition_eq bind_r_Inr split: if_splits)
  show ?thesis unfolding db'
    by (rule evolves_upd[OF inv transition_fixed]) (auto intro: held_evolves)
qed

lemma evolves_MarkDispatched:
  assumes inv: "billing_inv db" and r: "MarkDispatched db p i dbnow = Inr db'"
  shows "db_evolves db db'"
proof -
  have db': "db' = db\<lparr>bd_reservations := upd_rows (\<lambda>r. in_group (p_tenant p) i r \<and> rs_dispatched r = None)
      (\<lambda>r. r\<lparr>rs_dispatched := Some dbnow\<rparr>) (bd_reservations db)\<rparr>"
    using r by (auto simp: MarkDispatched_def MarkDispatchedRes_def Let_def bind_r_Inr)
  have fx: "fixed_part (r\<lparr>rs_dispatched := Some dbnow\<rparr>) = fixed_part r" for r :: reservation
    by (simp add: fixed_part_def)
  show ?thesis unfolding db'
    by (rule evolves_upd[OF inv fx]) (auto simp: res_evolves_def fx)
qed

lemma evolves_Release:
  assumes inv: "billing_inv db" and r: "ReleaseUndispatched db p i dbnow = Inr db'"
  shows "db_evolves db db'"
proof -
  obtain r0 where r0: "GetReservation db (p_tenant p) i = Inr r0"
    and c: "(rs_state r0 = ReservationReleased \<and> db' = db) \<or>
      (rs_state r0 = ReservationHeld \<and> rs_dispatched r0 = None \<and>
       db' = db\<lparr>bd_reservations := upd_rows (\<lambda>r. in_group (p_tenant p) i r \<and> rs_state r = ReservationHeld)
         (transition_row ReservationReleased dbnow) (bd_reservations db)\<rparr>)"
    using r by (auto simp: ReleaseUndispatched_def bind_r_Inr Transition_eq split: if_splits)
  show ?thesis
  proof (cases "db' = db")
    case True
    then show ?thesis using db_evolves_refl[OF inv] by simp
  next
    case False
    then have h: "rs_dispatched r0 = None"
      and db': "db' = db\<lparr>bd_reservations := upd_rows (\<lambda>r. in_group (p_tenant p) i r \<and> rs_state r = ReservationHeld)
         (transition_row ReservationReleased dbnow) (bd_reservations db)\<rparr>"
      using c by auto
    have r0k: "r0 \<in> set (bd_reservations db)" "res_key r0 = (p_tenant p, i)"
      using r0 GetReservation_Inr[OF inv] by auto
    have nd: "rs_dispatched r = None"
      if "r \<in> set (bd_reservations db)" "canonical r" "in_group (p_tenant p) i r" for r
    proof -
      have "rs_id r = i" "rs_tenant r = p_tenant p"
        using group_touches_canonical[OF that(2,3)] that(3) by (auto simp: in_group_def)
      then have "r = r0" using res_unique[OF inv that(1) r0k(1)] r0k(2) by (simp add: res_key_def)
      then show ?thesis using h by simp
    qed
    show ?thesis unfolding db'
      by (rule evolves_upd[OF inv transition_fixed]) (use nd in \<open>auto intro: held_evolves\<close>)
  qed
qed

section \<open>Settle\<close>

lemma Settle_Inr:
  assumes inv: "billing_inv db" and r: "Settle db p i actual newid now dbnow = Inr (db', rec)"
  obtains (again) r0 where "r0 \<in> set (bd_reservations db)" and "res_key r0 = (p_tenant p, i)"
      and "rs_state r0 = ReservationSettled" and "db' = db"
      and "rec \<in> set (bd_usage db)" and "usage_key rec = (p_tenant p, i)"
  | (first) r0 u amt where "r0 \<in> set (bd_reservations db)" and "res_key r0 = (p_tenant p, i)"
      and "rs_state r0 = ReservationHeld" and "unitMap actual = Inr u" and "charge u (rs_price r0) = Inr amt"
      and "rec = settlement r0 newid u amt now"
      and "\<forall>v\<in>set (bd_usage db). usage_key v \<noteq> (p_tenant p, i)"
      and "db' = db\<lparr>bd_reservations := upd_rows (\<lambda>r. in_group (p_tenant p) i r \<and> rs_state r = ReservationHeld)
             (transition_row ReservationSettled dbnow) (bd_reservations db),
           bd_usage := bd_usage db @ [rec\<lparr>ur_created := dbnow\<rparr>]\<rparr>"
proof -
  obtain u r0 where u: "unitMap actual = Inr u" and g: "GetReservation db (p_tenant p) i = Inr r0"
    and rest: "(if rs_state r0 = ReservationSettled
       then bind_r (GetUsageRecord db (p_tenant p) i) (\<lambda>rec. Inr (db, rec))
       else if rs_state r0 \<noteq> ReservationHeld then Inl (ReservationState i)
       else bind_r (charge u (rs_price r0)) (\<lambda>amt.
         case Transition db (p_tenant p) i ReservationHeld ReservationSettled dbnow of
           (db1, n) \<Rightarrow>
             if n = 0 then Inl ReservationNotFound
             else let rec = settlement r0 newid u amt now
                  in bind_r (InsertUsageRecord db1 rec dbnow) (\<lambda>db2. Inr (db2, rec)))) = Inr (db', rec)"
    using r unfolding Settle_def bind_r_Inr by blast
  have r0: "r0 \<in> set (bd_reservations db)" "res_key r0 = (p_tenant p, i)"
    using g GetReservation_Inr[OF inv] by auto
  show thesis
  proof (cases "rs_state r0 = ReservationSettled")
    case True
    then have "GetUsageRecord db (p_tenant p) i = Inr rec" "db' = db" using rest by (auto simp: bind_r_Inr)
    then show thesis using again[OF r0 True] GetUsageRecord_Inr[OF inv] by blast
  next
    case False
    note ns = False
    then have held: "rs_state r0 = ReservationHeld" using rest by (auto split: if_splits)
    let ?db1 = "db\<lparr>bd_reservations := upd_rows (\<lambda>r. in_group (p_tenant p) i r \<and> rs_state r = ReservationHeld)
             (transition_row ReservationSettled dbnow) (bd_reservations db)\<rparr>"
    obtain amt where amt: "charge u (rs_price r0) = Inr amt"
      and ins: "InsertUsageRecord ?db1 (settlement r0 newid u amt now) dbnow = Inr db'"
      and rec: "rec = settlement r0 newid u amt now"
      using rest held by (auto simp: bind_r_Inr Transition_eq Let_def split: if_splits)
    have key: "usage_key rec = (p_tenant p, i)"
      using r0(2) rec by (simp add: usage_key_def settlement_def res_key_def)
    have "\<forall>v\<in>set (bd_usage db). usage_key v \<noteq> (p_tenant p, i)"
      and "db' = ?db1\<lparr>bd_usage := bd_usage db @ [rec\<lparr>ur_created := dbnow\<rparr>]\<rparr>"
      using ins key rec by (auto simp: InsertUsageRecord_def list_ex_iff split: if_splits)
    then show thesis using first[OF r0 held u amt rec] by simp
  qed
qed

lemma evolves_Settle:
  assumes inv: "billing_inv db" and r: "Settle db p i actual newid now dbnow = Inr (db', rec)"
  shows "db_evolves db db'"
  using inv r
proof (cases rule: Settle_Inr)
  case again
  then show ?thesis using db_evolves_refl[OF inv] by simp
next
  case (first r0 u amt)
  let ?P = "\<lambda>r. in_group (p_tenant p) i r \<and> rs_state r = ReservationHeld"
  let ?f = "transition_row ReservationSettled dbnow"
  let ?rs = "upd_rows ?P ?f (bd_reservations db)" and ?us = "bd_usage db @ [rec\<lparr>ur_created := dbnow\<rparr>]"
  have key: "usage_key (rec\<lparr>ur_created := dbnow\<rparr>) = (p_tenant p, i)"
    using first(2,6) by (simp add: usage_key_def settlement_def res_key_def)
  have grp: "in_group (p_tenant p) i r0" using first(2) by (simp add: in_group_def res_key_def)
  have r0': "?f r0 \<in> set ?rs" using upd_rows_in[OF first(1), of ?P ?f] grp first(3) by simp
  have k0: "res_key (?f r0) = (p_tenant p, i)" using first(2) by (simp add: res_key_def transition_row_def)
  have ev: "evidence_ok (bd_reservations db) (bd_usage db)" using inv by (simp add: billing_inv_def)
  have "evidence_ok ?rs ?us" unfolding evidence_ok_def
  proof (intro conjI ballI impI)
    fix v assume "v \<in> set ?us"
    then consider "v \<in> set (bd_usage db)" | "v = rec\<lparr>ur_created := dbnow\<rparr>" by auto
    then show "\<exists>r\<in>set ?rs. res_key r = usage_key v \<and> rs_state r = ReservationSettled"
    proof cases
      case 1
      then obtain r where r: "r \<in> set (bd_reservations db)" "res_key r = usage_key v" "rs_state r = ReservationSettled"
        using ev unfolding evidence_ok_def by blast
      have "r \<in> set ?rs" using upd_rows_in[OF r(1), of ?P ?f] r(3) by simp
      then show ?thesis using r by blast
    next
      case 2
      then show ?thesis using r0' k0 key by (intro bexI[OF _ r0']) simp
    qed
  next
    fix r assume m: "r \<in> set ?rs" and s: "canonical r \<and> rs_state r = ReservationSettled"
    obtain r1 where r1: "r1 \<in> set (bd_reservations db)" "r = (if ?P r1 then ?f r1 else r1)"
      using m by (rule in_upd_rowsE)
    show "\<exists>v\<in>set ?us. usage_key v = res_key r"
    proof (cases "?P r1")
      case True
      have "canonical r1" using s r1(2) True fixed_canonical[OF transition_fixed] by simp
      then have "rs_id r1 = i" using group_touches_canonical True by blast
      then have "res_key r = (p_tenant p, i)" using True r1(2) by (simp add: in_group_def res_key_def transition_row_def)
      then show ?thesis using key by simp
    next
      case False
      then have "r = r1" using r1(2) by (simp only: if_False)
      then show ?thesis using s r1(1) ev unfolding evidence_ok_def by auto
    qed
  qed
  moreover have "distinct (map usage_key ?us)"
    using inv first(7) key by (auto simp: billing_inv_def)
  ultimately have "billing_inv db'"
    using upd_keys_holds[OF inv transition_fixed] by (simp add: billing_inv_def first(8))
  moreover have "\<exists>r'\<in>set ?rs. res_evolves r r'" if "r \<in> set (bd_reservations db)" for r
    by (rule upd_evolves[OF _ that]) (auto intro: held_evolves)
  ultimately show ?thesis by (simp add: db_evolves_def first(8) subset_insertI)
qed

section \<open>Reserve\<close>

definition inserted_row :: "time \<Rightarrow> reservation \<Rightarrow> reservation" where
  "inserted_row now r =
     r\<lparr>rs_state := ReservationHeld, rs_created := now, rs_dispatched := None, rs_settled := None\<rparr>"

lemma inserted_row_simps [simp]:
  "res_key (inserted_row now r) = res_key r" "hold_ok (inserted_row now r) = hold_ok r"
  "rs_state (inserted_row now r) = ReservationHeld" "rs_id (inserted_row now r) = rs_id r"
  "rs_tenant (inserted_row now r) = rs_tenant r" "rs_subject (inserted_row now r) = rs_subject r"
  "rs_limit (inserted_row now r) = rs_limit r" "rs_currency (inserted_row now r) = rs_currency r"
  "rs_units (inserted_row now r) = rs_units r"
  by (simp_all add: inserted_row_def res_key_def hold_ok_def)

lemma InsertReservations_Inr:
  "InsertReservations fk_ok now db rows = Inr db' \<Longrightarrow>
   db' = db\<lparr>bd_reservations := bd_reservations db @ map (inserted_row now) rows\<rparr> \<and>
   (distinct (map res_key (bd_reservations db)) \<longrightarrow> distinct (map res_key (bd_reservations db')))"
proof (induction rows arbitrary: db)
  case Nil
  then show ?case by simp
next
  case (Cons r rs)
  let ?db1 = "db\<lparr>bd_reservations := bd_reservations db @ [inserted_row now r]\<rparr>"
  have fresh: "\<not> list_ex (\<lambda>q. res_key q = res_key r) (bd_reservations db)"
    and run: "InsertReservations fk_ok now ?db1 rs = Inr db'"
    using Cons.prems by (auto simp: inserted_row_def split: if_splits)
  have "distinct (map res_key (bd_reservations db)) \<Longrightarrow> distinct (map res_key (bd_reservations ?db1))"
    using fresh by (auto simp: list_ex_iff)
  moreover have "db' = ?db1\<lparr>bd_reservations := bd_reservations ?db1 @ map (inserted_row now) rs\<rparr>"
    and "distinct (map res_key (bd_reservations ?db1)) \<longrightarrow> distinct (map res_key (bd_reservations db'))"
    using Cons.IH[OF run] by blast+
  moreover have "?db1\<lparr>bd_reservations := bd_reservations ?db1 @ map (inserted_row now) rs\<rparr>
      = db\<lparr>bd_reservations := bd_reservations db @ map (inserted_row now) (r # rs)\<rparr>" by simp
  ultimately show ?case by metis
qed

lemma Reserve_Inr:
  assumes "Reserve fk_ok db p req newid now dbnow = Inr (db', res)"
  obtains est snap bound where "unitMap (rq_estimate req) = Inr est"
    and "snapshotFor (SelectPrices db (p_tenant p) (rq_price_type req) (rq_price_id req) (rq_capability req) now)
           est = Inr snap"
    and "charge est snap = Inr bound"
    and "admit_all db (p_tenant p) now bound est (ps_currency snap)
           (LockActiveBudgets db (p_tenant p)
              (subjectsFor (p_tenant p) (request_subject p req) (rq_subjects req)) now) = None"
    and "res = held_reservation p req newid now (request_subject p req) snap bound est"
    and "InsertReservations fk_ok dbnow db
           (reservation_rows res (request_subject p req)
              (subjectsFor (p_tenant p) (request_subject p req) (rq_subjects req))) = Inr db'"
  using assms unfolding Reserve_def Let_def
  by (auto simp: bind_r_Inr split: if_splits option.splits)

lemma evolves_Reserve:
  assumes inv: "billing_inv db" and r: "Reserve fk_ok db p req newid now dbnow = Inr (db', res)"
  shows "db_evolves db db'"
proof -
  obtain est snap bound where u: "unitMap (rq_estimate req) = Inr est" and ch: "charge est snap = Inr bound"
    and res: "res = held_reservation p req newid now (request_subject p req) snap bound est"
    and ins: "InsertReservations fk_ok dbnow db
           (reservation_rows res (request_subject p req)
              (subjectsFor (p_tenant p) (request_subject p req) (rq_subjects req))) = Inr db'"
    using r by (rule Reserve_Inr)
  let ?rows = "reservation_rows res (request_subject p req)
              (subjectsFor (p_tenant p) (request_subject p req) (rq_subjects req))"
  note i = InsertReservations_Inr[OF ins]
  have db': "bd_reservations db' = bd_reservations db @ map (inserted_row dbnow) ?rows" "bd_usage db' = bd_usage db"
    using i by simp_all
  have dst: "distinct (map res_key (bd_reservations db'))" using i inv unfolding billing_inv_def by blast
  have hold: "hold_ok r" if "r \<in> set ?rows" for r
  proof -
    have "rs_units r = est" "rs_price r = snap" "rs_limit r = bound"
      using that by (auto simp: reservation_rows_def res held_reservation_def)
    then show ?thesis using unitMap_ok[OF u] ch by (simp add: hold_ok_def)
  qed
  have ev: "evidence_ok (bd_reservations db) (bd_usage db)" using inv by (simp add: billing_inv_def)
  have "evidence_ok (bd_reservations db') (bd_usage db')"
    using ev unfolding evidence_ok_def db' by fastforce
  then have "billing_inv db'" using dst hold inv by (auto simp: billing_inv_def db')
  then show ?thesis unfolding db_evolves_def db' using res_evolves_refl by fastforce
qed

section \<open>The system\<close>

lemma same_tables_evolve:
  assumes "billing_inv db" and "bd_reservations db' = bd_reservations db" and "bd_usage db' = bd_usage db"
  shows "db_evolves db db'"
  using db_evolves_refl[OF assms(1)] assms by (simp add: db_evolves_def billing_inv_def)

lemma keep_evolves:
  assumes "billing_inv db" and "\<And>db'. r = Inr db' \<Longrightarrow> db_evolves db db'"
  shows "db_evolves db (keep_billing db r)"
  using assms db_evolves_refl by (cases r) (auto simp: keep_billing_def)

lemma billing_step_evolves:
  assumes inv: "billing_inv db"
  shows "db_evolves db (billing_step fk_ok db ev)"
proof (cases ev)
  case (BevPrice pr actor)
  show ?thesis unfolding BevPrice billing_step.simps
    by (rule keep_evolves[OF inv], rule same_tables_evolve[OF inv]) (auto simp: PutPrice_def split: if_splits)
next
  case (BevBudget b)
  show ?thesis unfolding BevBudget billing_step.simps
    by (rule keep_evolves[OF inv], rule same_tables_evolve[OF inv])
       (auto simp: CreateBudget_def split: if_splits budget_kind.splits period.splits)
next
  case (BevReserve p req newid now dbnow)
  show ?thesis unfolding BevReserve billing_step.simps
    using db_evolves_refl[OF inv]
    by (simp, intro impI keep_evolves[OF inv]) (auto simp: bind_r_Inr intro: evolves_Reserve[OF inv])
next
  case (BevSettle p i actual newid now dbnow)
  show ?thesis unfolding BevSettle billing_step.simps
    by (rule keep_evolves[OF inv]) (auto simp: bind_r_Inr intro: evolves_Settle[OF inv])
next
  case (BevUnknown p i dbnow)
  show ?thesis unfolding BevUnknown billing_step.simps
    by (rule keep_evolves[OF inv]) (rule evolves_MarkUnknown[OF inv])
next
  case (BevDispatched p i dbnow)
  show ?thesis unfolding BevDispatched billing_step.simps
    by (rule keep_evolves[OF inv]) (rule evolves_MarkDispatched[OF inv])
next
  case (BevRelease p i dbnow)
  show ?thesis unfolding BevRelease billing_step.simps
    by (rule keep_evolves[OF inv]) (rule evolves_Release[OF inv])
qed

interpretation bl: transition_system "billing_step fk_ok" billing_inv for fk_ok
  by unfold_locales (use billing_step_evolves in \<open>simp add: db_evolves_def\<close>)

lemma billing_run_bl: "billing_run fk_ok = bl.run fk_ok"
  by (intro ext) (simp add: billing_run_def bl.run_def)

definition billing_reachable :: "(string \<Rightarrow> string \<Rightarrow> string \<Rightarrow> bool) \<Rightarrow> billing_db \<Rightarrow> bool" where
  "billing_reachable fk_ok db \<longleftrightarrow> (\<exists>evs. db = billing_run fk_ok empty_billing_db evs)"

lemma billing_reachable_inv: "billing_reachable fk_ok db \<Longrightarrow> billing_inv db"
  unfolding billing_reachable_def billing_run_bl using bl.run_inv[OF billing_inv_empty] by blast

lemma billing_run_inv: "billing_inv db \<Longrightarrow> billing_inv (billing_run fk_ok db evs)"
  unfolding billing_run_bl by (rule bl.run_inv)

lemma res_evolves_run:
  assumes "billing_inv db" and "r \<in> set (bd_reservations db)"
  shows "\<exists>r'\<in>set (bd_reservations (billing_run fk_ok db evs)). res_evolves r r'"
  using assms
proof (induction evs arbitrary: db r)
  case Nil
  then show ?case by (intro bexI[of _ r]) (simp_all add: billing_run_def)
next
  case (Cons ev evs)
  note st = billing_step_evolves[OF Cons.prems(1), of fk_ok ev, unfolded db_evolves_def]
  obtain r1 where r1: "r1 \<in> set (bd_reservations (billing_step fk_ok db ev))" "res_evolves r r1"
    using st Cons.prems(2) by blast
  obtain r2 where "r2 \<in> set (bd_reservations (billing_run fk_ok (billing_step fk_ok db ev) evs))" "res_evolves r1 r2"
    using Cons.IH[OF _ r1(1)] st by blast
  then show ?case using res_evolves_trans[OF r1(2)] by (auto simp: billing_run_def)
qed

lemma usage_run:
  assumes "billing_inv db"
  shows "set (bd_usage db) \<subseteq> set (bd_usage (billing_run fk_ok db evs))"
  using assms
proof (induction evs arbitrary: db)
  case Nil
  then show ?case by (simp add: billing_run_def)
next
  case (Cons ev evs)
  note st = billing_step_evolves[OF Cons.prems, of fk_ok ev, unfolded db_evolves_def]
  have "set (bd_usage (billing_step fk_ok db ev)) \<subseteq> set (bd_usage (billing_run fk_ok (billing_step fk_ok db ev) evs))"
    using Cons.IH st by blast
  then show ?case using st by (auto simp: billing_run_def)
qed

end
