(* ===== verification/BillingProps.thy ===== *)
theory BillingProps
  imports BillingInv
begin

text \<open>
  The properties of the billing authority: no over-admission, exact charges, settlement exactly
  once and within its bound, dispatched holds never released, retained liability, the liability
  window.
\<close>

section \<open>Exact sums\<close>

lemma sum_values_exact:
  "sum_values acc vs = Some s \<Longrightarrow> sint s = sint acc + sum_list (map sint vs)"
proof (induction vs arbitrary: acc)
  case Nil
  then show ?case by simp
next
  case (Cons v vs)
  have no: "\<not> snd (checkedAdd acc v)" and r: "sum_values (fst (checkedAdd acc v)) vs = Some s"
    using Cons.prems by (auto split: prod.splits if_splits)
  have "sint (fst (checkedAdd acc v)) = sint acc + sint v"
    by (rule checkedAdd_sum) (use no checkedAdd_overflow in blast)
  then show ?case using Cons.IH[OF r] by simp
qed

lemma sum_amounts_values:
  "sum_amounts cur acc rows = sum_values acc (map lr_amount (filter (\<lambda>r. lr_currency r = cur) rows))"
  by (induction rows arbitrary: acc) (auto split: prod.splits)

lemma not_exceeds:
  assumes "\<not> exceeds b existing proposed"
  shows "sint existing + sint proposed \<le> sint (bu_limit b)"
proof -
  have no: "\<not> snd (checkedAdd existing proposed)" and le: "\<not> bu_limit b <s existing + proposed"
    using assms by (simp_all add: exceeds_def)
  have "sint (existing + proposed) = sint existing + sint proposed"
    using checkedAdd_sum[of existing proposed] checkedAdd_overflow[of existing proposed] no
    by (simp add: fst_checkedAdd)
  then show ?thesis using le by (simp add: word_sless_alt)
qed

text \<open>What a budget counts of a list of liability rows, and of a proposed hold.\<close>

definition liability_value :: "budget \<Rightarrow> liability_row list \<Rightarrow> int" where
  "liability_value b rows =
     (case bu_kind b of
        BudgetKindAmount \<Rightarrow> sum_list (map (\<lambda>r. sint (lr_amount r)) (filter (\<lambda>r. lr_currency r = bu_currency b) rows))
      | BudgetKindTokens \<Rightarrow> sum_list (map (\<lambda>r. sum_list (map sint (map snd (lr_units r)))) rows)
      | BudgetKindOther _ \<Rightarrow> 0)"

definition hold_value :: "budget \<Rightarrow> reservation \<Rightarrow> int" where
  "hold_value b res =
     (case bu_kind b of
        BudgetKindAmount \<Rightarrow> sint (rs_limit res)
      | BudgetKindTokens \<Rightarrow> sum_list (map sint (map snd (rs_units res)))
      | BudgetKindOther _ \<Rightarrow> 0)"

lemma sum_list_concat_map: "sum_list (map g (concat (map f xs))) = sum_list (map (\<lambda>x. sum_list (map g (f x))) xs)"
  by (induction xs) auto

lemma admit_None:
  assumes "admit b rows bound u currency = None" and "rs_limit res = bound" and "rs_units res = u"
  shows "liability_value b rows + hold_value b res \<le> sint (bu_limit b) \<and>
    (bu_kind b = BudgetKindAmount \<longrightarrow> currency = bu_currency b)"
proof (cases "bu_kind b")
  case BudgetKindAmount
  obtain ex where ex: "sum_amounts (bu_currency b) 0 rows = Some ex" "\<not> exceeds b ex bound" "currency = bu_currency b"
    using assms(1) BudgetKindAmount by (auto simp: admit_def split: if_splits option.splits)
  have "sint ex = sum_list (map (\<lambda>r. sint (lr_amount r)) (filter (\<lambda>r. lr_currency r = bu_currency b) rows))"
    using sum_values_exact[OF ex(1)[unfolded sum_amounts_values]] by (simp add: comp_def)
  then show ?thesis using not_exceeds[OF ex(2)] BudgetKindAmount assms(2) ex(3)
    by (simp add: liability_value_def hold_value_def)
next
  case BudgetKindTokens
  obtain ex pr where ex: "sum_values 0 (concat (map (\<lambda>r. map snd (lr_units r)) rows)) = Some ex"
      "sum_values 0 (map snd u) = Some pr" "\<not> exceeds b ex pr"
    using assms(1) BudgetKindTokens by (auto simp: admit_def split: if_splits option.splits)
  have "sint ex = sum_list (map (\<lambda>r. sum_list (map sint (map snd (lr_units r)))) rows)"
    using sum_values_exact[OF ex(1)] by (simp only: sum_list_concat_map sint_0 add_0)
  then show ?thesis using not_exceeds[OF ex(3)] sum_values_exact[OF ex(2)] BudgetKindTokens assms(3)
    by (simp add: liability_value_def hold_value_def)
next
  case (BudgetKindOther k)
  then show ?thesis using assms(1) by (simp add: admit_def)
qed

lemma admit_all_None:
  "admit_all db t now bound u currency bs = None \<longleftrightarrow>
   (\<forall>b\<in>set bs. admit b (Liabilities db t (bu_subject b) (liabilityFrom b now)) bound u currency = None)"
  by (induction bs) (auto split: option.splits)

lemma liability_value_append: "liability_value b (xs @ ys) = liability_value b xs + liability_value b ys"
  by (simp add: liability_value_def split: budget_kind.splits)

section \<open>Subjects\<close>

lemma distinct_subjectsFor: "distinct (subjectsFor t billing keys)"
  by (simp add: subjectsFor_def distinct_dedup_from)

lemma subjectsFor_norm:
  assumes "s \<in> set (subjectsFor t billing keys)" and "su_type s = BudgetSubjectTenant"
  shows "su_id s = t"
  using assms by (auto simp: subjectsFor_def set_dedup_from norm_subject_def split: if_splits)

text \<open>A billing subject that gets a canonical row: typed, identified, and the tenant only as itself.\<close>

definition chargeable :: "string \<Rightarrow> subject \<Rightarrow> bool" where
  "chargeable t s \<longleftrightarrow> su_type s \<noteq> [] \<and> su_id s \<noteq> [] \<and> (su_type s = BudgetSubjectTenant \<longrightarrow> su_id s = t)"

lemma chargeable_subject: "chargeable t s \<Longrightarrow> s \<in> set (subjectsFor t s keys)"
  by (cases s) (auto simp: chargeable_def subjectsFor_def set_dedup_from norm_subject_def image_iff)

lemma filter_unique: "distinct xs \<Longrightarrow> x \<in> set xs \<Longrightarrow> filter (\<lambda>y. y = x) xs = [x]"
  by (induction xs) (auto simp: filter_empty_conv)

text \<open>Of the rows one reservation inserts, exactly one counts against each of its subjects.\<close>

lemma reservation_rows_in_scope:
  assumes "billing \<in> set subjects" and "distinct subjects" and "CHR ''/'' \<notin> set (rs_id out)"
    and "scope \<in> set subjects"
  shows "\<exists>r. filter (in_scope scope) (reservation_rows out billing subjects) = [r] \<and>
    rs_limit r = rs_limit out \<and> rs_currency r = rs_currency out \<and> rs_units r = rs_units out"
proof -
  let ?g = "\<lambda>s. if s = billing then out\<lparr>rs_subject := s\<rparr>
              else out\<lparr>rs_subject := s, rs_id := rs_id out @ ''/'' @ su_type s @ '':'' @ su_id s\<rparr>"
  have scope: "in_scope scope (?g s) \<longleftrightarrow> s = (if su_type scope = BudgetSubjectTenant then billing else scope)" for s
    using assms(3) by (auto simp: in_scope_def sql_like_slash)
  let ?x = "if su_type scope = BudgetSubjectTenant then billing else scope"
  have "filter (in_scope scope) (reservation_rows out billing subjects) = map ?g (filter (\<lambda>s. s = ?x) subjects)"
    unfolding reservation_rows_def filter_map comp_def scope by (rule refl)
  also have "\<dots> = [?g ?x]" using filter_unique[OF assms(2), of ?x] assms(1,4) by simp
  finally show ?thesis by auto
qed

section \<open>No over-admission\<close>

lemma Liabilities_reserve:
  assumes ins: "InsertReservations fk_ok dbnow db (reservation_rows res billing subjects) = Inr db'"
    and "rs_tenant res = t" and "billing \<in> set subjects" and "distinct subjects"
    and "CHR ''/'' \<notin> set (rs_id res)" and "scope \<in> set subjects"
  shows "liability_value b (Liabilities db' t scope from_t) =
    liability_value b (Liabilities db t scope from_t) +
    liability_value b [\<lparr>lr_amount = rs_limit res, lr_currency = rs_currency res, lr_units = rs_units res\<rparr>]"
proof -
  let ?rows = "reservation_rows res billing subjects"
  let ?count = "\<lambda>r. rs_tenant r = t \<and> outstanding r \<and> in_scope scope r"
  let ?lr = "\<lambda>r. \<lparr>lr_amount = rs_limit r, lr_currency = rs_currency r, lr_units = rs_units r\<rparr>"
  have db': "bd_reservations db' = bd_reservations db @ map (inserted_row dbnow) ?rows" "bd_usage db' = bd_usage db"
    using InsertReservations_Inr[OF ins] by simp_all
  have tn: "rs_tenant r = t" if "r \<in> set ?rows" for r
    using that assms(2) by (auto simp: reservation_rows_def)
  have sc: "in_scope scope (inserted_row dbnow r) = in_scope scope r" for r by (simp add: in_scope_def)
  have "filter ?count (map (inserted_row dbnow) ?rows) = map (inserted_row dbnow) (filter (in_scope scope) ?rows)"
    unfolding filter_map comp_def
    by (rule arg_cong[of _ _ "map (inserted_row dbnow)"], rule filter_cong)
       (auto simp: tn sc outstanding_def)
  moreover obtain r where r: "filter (in_scope scope) ?rows = [r]" "rs_limit r = rs_limit res"
      "rs_currency r = rs_currency res" "rs_units r = rs_units res"
    using reservation_rows_in_scope[OF assms(3-6)] by blast
  ultimately have new: "map ?lr (filter ?count (map (inserted_row dbnow) ?rows))
      = [\<lparr>lr_amount = rs_limit res, lr_currency = rs_currency res, lr_units = rs_units res\<rparr>]"
    by simp
  show ?thesis unfolding Liabilities_def db' filter_append map_append new
    by (simp only: liability_value_append)
qed

text \<open>
  C3: no over-admission. After \<open>Reserve\<close> admits a request, the liability of every active budget of
  every subject it touches is exactly the liability before plus the hold, counted once per budget,
  and within the budget's limit, in exact integers: amount budgets count micros of their currency,
  token budgets count units.
\<close>

theorem reserve_within_limits:
  assumes "Reserve fk_ok db p req newid now dbnow = Inr (db', res)" and "plain_id newid"
    and "chargeable (p_tenant p) (request_subject p req)"
    and "b \<in> set (LockActiveBudgets db (p_tenant p)
           (subjectsFor (p_tenant p) (request_subject p req) (rq_subjects req)) now)"
  shows "liability_value b (Liabilities db' (p_tenant p) (bu_subject b) (liabilityFrom b now)) =
      liability_value b (Liabilities db (p_tenant p) (bu_subject b) (liabilityFrom b now)) + hold_value b res \<and>
    liability_value b (Liabilities db' (p_tenant p) (bu_subject b) (liabilityFrom b now)) \<le> sint (bu_limit b)"
proof -
  let ?t = "p_tenant p" and ?billing = "request_subject p req"
  let ?subjects = "subjectsFor ?t ?billing (rq_subjects req)"
  obtain est snap bound where
    adm: "admit_all db ?t now bound est (ps_currency snap) (LockActiveBudgets db ?t ?subjects now) = None"
    and res: "res = held_reservation p req newid now ?billing snap bound est"
    and ins: "InsertReservations fk_ok dbnow db (reservation_rows res ?billing ?subjects) = Inr db'"
    using assms(1) by (rule Reserve_Inr)
  have f: "rs_limit res = bound" "rs_units res = est" "rs_tenant res = ?t" "rs_id res = newid"
      "rs_currency res = ps_currency snap"
    by (simp_all add: res held_reservation_def)
  have b: "bu_subject b \<in> set ?subjects" using assms(4) by (simp add: LockActiveBudgets_def)
  have slash: "CHR ''/'' \<notin> set (rs_id res)" using assms(2) f(4) by (auto simp: plain_id_def list_all_iff)
  have "admit b (Liabilities db ?t (bu_subject b) (liabilityFrom b now)) bound est (ps_currency snap) = None"
    using adm assms(4) by (simp add: admit_all_None)
  note a = admit_None[OF this f(1,2)]
  have one: "liability_value b [\<lparr>lr_amount = rs_limit res, lr_currency = rs_currency res, lr_units = rs_units res\<rparr>]
      = hold_value b res"
    using a f(5) by (auto simp: liability_value_def hold_value_def split: budget_kind.splits)
  have "liability_value b (Liabilities db' ?t (bu_subject b) (liabilityFrom b now)) =
      liability_value b (Liabilities db ?t (bu_subject b) (liabilityFrom b now)) + hold_value b res"
    using Liabilities_reserve[OF ins f(3) chargeable_subject[OF assms(3)] distinct_subjectsFor slash b] one
    by simp
  then show ?thesis using a by simp
qed

section \<open>A concrete ledger\<close>

definition demo_payer :: principal where
  "demo_payer =
     zero_principal\<lparr>p_tenant := ''t'', p_billing_subject := ''u1'', p_billing_subject_kind := ''user''\<rparr>"

definition demo_usage :: "i64 \<Rightarrow> i64 \<Rightarrow> usage" where
  "demo_usage i out = \<lparr>us_input = i, us_output = out, us_cached = 0, us_other = []\<rparr>"

definition demo_reserve :: reserve_request where
  "demo_reserve =
     \<lparr>rq_subjects = [\<lparr>su_type = ''api_key'', su_id = ''k1''\<rparr>], rq_billing = \<lparr>su_type = [], su_id = []\<rparr>,
      rq_capability = ''chat'', rq_model = ''m'', rq_endpoint = ''e'', rq_job = [], rq_attempt = [],
      rq_estimate = demo_usage 1000 500, rq_price_type = ''endpoint'', rq_price_id = ''e''\<rparr>"

definition demo_price :: "string \<Rightarrow> string \<Rightarrow> i64 \<Rightarrow> price" where
  "demo_price i unit rate =
     \<lparr>pr_tenant = ''t'', pr_id = i, pr_subject_type = ''endpoint'', pr_subject_id = ''e'',
      pr_capability = ''chat'', pr_unit = unit, pr_rate_micros = rate, pr_unit_quantity = 1000,
      pr_currency = ''EUR'', pr_effective = 0\<rparr>"

definition demo_budget :: "subject \<Rightarrow> i64 \<Rightarrow> budget" where
  "demo_budget s maxv =
     \<lparr>bu_tenant = ''t'', bu_id = ''b_'' @ su_type s, bu_name = [], bu_subject = s,
      bu_kind = BudgetKindAmount, bu_period = PeriodDaily, bu_limit = maxv, bu_currency = ''EUR'',
      bu_active = True, bu_starts = 0, bu_ends = None\<rparr>"

definition demo_ledger :: billing_db where
  "demo_ledger =
     billing_run (\<lambda>_ _ _. True) empty_billing_db
       [BevPrice (demo_price ''p1'' ''input'' 3) ''admin'', BevPrice (demo_price ''p2'' ''output'' 9) ''admin'',
        BevBudget (demo_budget \<lparr>su_type = ''user'', su_id = ''u1''\<rparr> 10),
        BevBudget (demo_budget \<lparr>su_type = ''api_key'', su_id = ''k1''\<rparr> 20)]"

lemma demo_ledger_reachable: "billing_reachable (\<lambda>_ _ _. True) demo_ledger"
  by (auto simp: billing_reachable_def demo_ledger_def)

definition demo_hold :: "billing_error + billing_db \<times> reservation" where
  "demo_hold = Reserve (\<lambda>_ _ _. True) demo_ledger demo_payer demo_reserve ''res_01'' 100 100"

theorem reserve_within_limits_witness:
  "case demo_hold of
     Inr (db', res) \<Rightarrow>
       list_all (\<lambda>b. liability_value b (Liabilities db' ''t'' (bu_subject b) (liabilityFrom b 100)) \<le> sint (bu_limit b))
         (LockActiveBudgets demo_ledger ''t''
            (subjectsFor ''t'' (request_subject demo_payer demo_reserve) (rq_subjects demo_reserve)) 100)
   | Inl e \<Rightarrow> False"
proof -
  have "is_ok demo_hold" by code_simp
  then obtain db' res where h: "demo_hold = Inr (db', res)" by (auto elim!: is_okE)
  have f: "p_tenant demo_payer = ''t''" "plain_id ''res_01''" "chargeable ''t'' (request_subject demo_payer demo_reserve)"
    by code_simp+
  show ?thesis unfolding h sum.case prod.case list_all_iff
    using reserve_within_limits[OF h[unfolded demo_hold_def] f(2), unfolded f(1), OF f(3)] by blast
qed

section \<open>Settlement\<close>

definition demo_billing_events :: "billing_event list" where
  "demo_billing_events =
     [BevReserve demo_payer demo_reserve ''res_01'' 100 100, BevDispatched demo_payer ''res_01'' 101]"

definition demo_held :: billing_db where
  "demo_held = billing_run (\<lambda>_ _ _. True) demo_ledger demo_billing_events"

lemma demo_held_reachable: "billing_reachable (\<lambda>_ _ _. True) demo_held"
proof -
  obtain evs where "demo_ledger = billing_run (\<lambda>_ _ _. True) empty_billing_db evs"
    using demo_ledger_reachable by (auto simp: billing_reachable_def)
  then have "demo_held = billing_run (\<lambda>_ _ _. True) empty_billing_db (evs @ demo_billing_events)"
    by (simp add: demo_held_def billing_run_def)
  then show ?thesis unfolding billing_reachable_def by blast
qed

lemma same_but_created: "v = u\<lparr>ur_created := c\<rparr> \<Longrightarrow> usage_key v = usage_key u"
  by (simp add: usage_key_def)

text \<open>
  C5: settlement happens exactly once. After \<open>Settle\<close> charged a reservation, settling it again at
  any later time, with any reported usage that passes validation and whatever happened in between,
  changes nothing and returns the stored evidence: the units and amount of the first settlement.
\<close>

theorem settle_once:
  assumes "billing_reachable fk_ok db" and "Settle db p i actual newid now dbnow = Inr (db', rec)"
    and "is_ok (unitMap actual2)"
  shows "case Settle (billing_run fk_ok db' evs) p i actual2 newid2 now2 dbnow2 of
      Inr (db2, rec2) \<Rightarrow>
        db2 = billing_run fk_ok db' evs \<and> ur_units rec2 = ur_units rec \<and>
        ur_amount rec2 = ur_amount rec \<and> ur_id rec2 = ur_id rec
    | Inl e \<Rightarrow> False"
proof -
  let ?t = "p_tenant p" and ?db2 = "billing_run fk_ok db' evs"
  have inv: "billing_inv db" by (rule billing_reachable_inv[OF assms(1)])
  have inv': "billing_inv db'" using evolves_Settle[OF inv assms(2)] by (simp add: db_evolves_def)
  have inv2: "billing_inv ?db2" by (rule billing_run_inv[OF inv'])
  have "\<exists>v r. v \<in> set (bd_usage db') \<and> usage_key v = (?t, i) \<and> ur_units v = ur_units rec \<and>
      ur_amount v = ur_amount rec \<and> ur_id v = ur_id rec \<and>
      r \<in> set (bd_reservations db') \<and> res_key r = (?t, i) \<and> rs_state r = ReservationSettled"
    using inv assms(2)
  proof (cases rule: Settle_Inr)
    case (again r0)
    then show ?thesis by blast
  next
    case (first r0 u amt)
    let ?v = "rec\<lparr>ur_created := dbnow\<rparr>" and ?r = "transition_row ReservationSettled dbnow r0"
    let ?P = "\<lambda>r. in_group ?t i r \<and> rs_state r = ReservationHeld"
    have "usage_key ?v = (?t, i)" using first(2,6) by (simp add: usage_key_def settlement_def res_key_def)
    moreover have "?v \<in> set (bd_usage db')" by (simp add: first(8))
    moreover have "in_group ?t i r0" using first(2) by (simp add: in_group_def res_key_def)
    then have "?r \<in> set (bd_reservations db')"
      using upd_rows_in[OF first(1), of ?P "transition_row ReservationSettled dbnow"] first(3)
      by (simp add: first(8))
    moreover have "res_key ?r = (?t, i)" using first(2) by (simp add: res_key_def transition_row_def)
    ultimately show ?thesis by (intro exI[of _ ?v] exI[of _ ?r]) simp
  qed
  then obtain v r where v: "v \<in> set (bd_usage db')" "usage_key v = (?t, i)" "ur_units v = ur_units rec"
      "ur_amount v = ur_amount rec" "ur_id v = ur_id rec"
    and r: "r \<in> set (bd_reservations db')" "res_key r = (?t, i)" "rs_state r = ReservationSettled"
    by blast
  obtain r2 where r2: "r2 \<in> set (bd_reservations ?db2)" "res_evolves r r2"
    using res_evolves_run[OF inv' r(1)] by blast
  have k2: "res_key r2 = (?t, i)" "rs_state r2 = ReservationSettled"
    using r2(2) r(2,3) fixed_key[of r2 r] by (auto simp: res_evolves_def)
  have "v \<in> set (bd_usage ?db2)" using usage_run[OF inv'] v(1) by blast
  then have "GetUsageRecord ?db2 ?t i = Inr v" using GetUsageRecord_Inr[OF inv2] v(2) by blast
  moreover have "GetReservation ?db2 ?t i = Inr r2" using GetReservation_Inr[OF inv2] r2(1) k2(1) by blast
  moreover obtain u2 where "unitMap actual2 = Inr u2" using assms(3) by (auto elim!: is_okE)
  ultimately have "Settle ?db2 p i actual2 newid2 now2 dbnow2 = Inr (?db2, v)"
    by (simp add: Settle_def k2(2))
  then show ?thesis using v by simp
qed

theorem settle_once_witness:
  "case Settle demo_held demo_payer ''res_01'' (demo_usage 900 100) ''use_01'' 102 102 of
     Inr (db', rec) \<Rightarrow>
       (case Settle (billing_run (\<lambda>_ _ _. True) db' [BevUnknown demo_payer ''res_01'' 103]) demo_payer ''res_01''
               (demo_usage 1000000 1000000) ''use_02'' 104 104 of
          Inr (db2, rec2) \<Rightarrow> ur_amount rec2 = ur_amount rec | Inl e \<Rightarrow> False)
   | Inl e \<Rightarrow> False"
proof -
  have "is_ok (Settle demo_held demo_payer ''res_01'' (demo_usage 900 100) ''use_01'' 102 102)" by code_simp
  then obtain db' rec where s:
    "Settle demo_held demo_payer ''res_01'' (demo_usage 900 100) ''use_01'' 102 102 = Inr (db', rec)"
    by (auto elim!: is_okE)
  have u: "is_ok (unitMap (demo_usage 1000000 1000000))" by code_simp
  show ?thesis unfolding s
    using settle_once[OF demo_held_reachable s u, of "[BevUnknown demo_payer ''res_01'' 103]" "''use_02''" 104 104]
    by (auto split: sum.splits prod.splits)
qed

text \<open>
  A settlement within its estimate never costs more than was held. If every reported unit kind
  was estimated and no count exceeds the estimate, the first settlement's amount is at most the
  reservation's bound; and the amount is always the exact rational charge of the reported units
  under the reservation's own price snapshot, rounded up per kind.
\<close>

theorem settle_within_bound:
  assumes "billing_reachable fk_ok db" and "GetReservation db (p_tenant p) i = Inr res"
    and "rs_state res = ReservationHeld"
    and "Settle db p i actual newid now dbnow = Inr (db', rec)"
    and "units_le (ur_units rec) (rs_units res)"
  shows "unat (ur_amount rec) = amount (ur_units rec) (rs_price res) \<and>
    unat (ur_amount rec) \<le> unat (rs_limit res)"
proof -
  have inv: "billing_inv db" by (rule billing_reachable_inv[OF assms(1)])
  have res: "res \<in> set (bd_reservations db)" "res_key res = (p_tenant p, i)"
    using assms(2) GetReservation_Inr[OF inv] by auto
  have hold: "units_ok (rs_units res)" "charge (rs_units res) (rs_price res) = Inr (rs_limit res)"
    using inv res(1) by (auto simp: billing_inv_def hold_ok_def)
  show ?thesis using inv assms(4)
  proof (cases rule: Settle_Inr)
    case (again r0)
    then have "r0 = res" using res_unique[OF inv again(1) res(1)] res(2) by simp
    then show ?thesis using again(3) assms(3) by simp
  next
    case (first r0 u amt)
    have "r0 = res" using res_unique[OF inv first(1) res(1)] first(2) res(2) by simp
    then have c: "charge u (rs_price res) = Inr amt" and ru: "ur_units rec = u" "ur_amount rec = amt"
      using first(5,6) by (simp_all add: settlement_def)
    have u: "units_ok u" by (rule unitMap_ok[OF first(4)])
    have "amount u (rs_price res) \<le> amount (rs_units res) (rs_price res)"
      by (rule amount_mono) (use u hold(1) assms(5) ru in \<open>simp_all add: units_ok_def\<close>)
    then show ?thesis
      using charge_amount[OF u c] charge_amount[OF hold] ru by simp
  qed
qed

theorem settle_within_bound_witness:
  "case Settle demo_held demo_payer ''res_01'' (demo_usage 900 100) ''use_01'' 102 102 of
     Inr (db', rec) \<Rightarrow> unat (ur_amount rec) \<le> unat (8 :: i64) | Inl e \<Rightarrow> False"
proof -
  have "is_ok (Settle demo_held demo_payer ''res_01'' (demo_usage 900 100) ''use_01'' 102 102)" by code_simp
  then obtain db' rec where s:
    "Settle demo_held demo_payer ''res_01'' (demo_usage 900 100) ''use_01'' 102 102 = Inr (db', rec)"
    by (auto elim!: is_okE)
  have "is_ok (GetReservation demo_held (p_tenant demo_payer) ''res_01'')" by code_simp
  then obtain res where g: "GetReservation demo_held (p_tenant demo_payer) ''res_01'' = Inr res"
    by (auto elim!: is_okE)
  have "case GetReservation demo_held (p_tenant demo_payer) ''res_01'' of
      Inr r \<Rightarrow> rs_state r = ReservationHeld \<and> rs_limit r = 8 \<and>
        rs_units r = [(''input'', 1000), (''output'', 500)] | Inl e \<Rightarrow> False" by code_simp
  then have h: "rs_state res = ReservationHeld" "rs_limit res = 8" "rs_units res = [(''input'', 1000), (''output'', 500)]"
    unfolding g by simp_all
  have "case Settle demo_held demo_payer ''res_01'' (demo_usage 900 100) ''use_01'' 102 102 of
      Inr (db', rec) \<Rightarrow> ur_units rec = [(''input'', 900), (''output'', 100)] | Inl e \<Rightarrow> False" by code_simp
  then have ur: "ur_units rec = [(''input'', 900), (''output'', 100)]" unfolding s by simp
  have "units_le (ur_units rec) (rs_units res)" by (simp add: ur h(3) units_le_def)
  from settle_within_bound[OF demo_held_reachable g h(1) s this] show ?thesis unfolding s h(2) by simp
qed

end
