(* ===== verification/BillingLife.thy ===== *)
theory BillingLife
  imports BillingProps
begin

text \<open>
  The life of a hold and the arithmetic under it: charges are exact, checked addition detects
  exactly the overflows, a dispatched hold is never refunded, an unknown outcome keeps its
  liability, the accounting window of a budget.
\<close>

section \<open>Arithmetic\<close>

text \<open>
  C36: \<open>charge\<close> is exact. It succeeds exactly when every unit kind has a valid rate and the exact
  rational sum, each kind rounded by the snapshot's rule, fits a signed 64-bit integer, and then
  returns that sum; otherwise it fails, with \<open>ErrArithmeticOverflow\<close> when only the size is wrong.
\<close>

theorem charge_is_exact:
  assumes "units_ok u"
  shows "case charge u snap of
      Inr v \<Rightarrow> all_priced u snap \<and> unat v = amount u snap \<and> amount u snap < 2 ^ 63
    | Inl e \<Rightarrow> \<not> all_priced u snap \<or> (e = ArithmeticOverflow \<and> 2 ^ 63 \<le> amount u snap)"
proof (cases "all_priced u snap")
  case True
  then show ?thesis using charge_exact[OF assms True] by (auto simp: unat_of_nat)
next
  case False
  then show ?thesis using charge_priced[of u snap] by (auto split: sum.splits)
qed

definition demo_snapshot :: price_snapshot where
  "demo_snapshot =
     \<lparr>ps_rates = [\<lparr>sr_unit = ''input'', sr_rate_micros = 3, sr_unit_quantity = 1000\<rparr>],
      ps_currency = ''EUR'', ps_rounding = RoundingCeil\<rparr>"

theorem charge_is_exact_witness:
  "charge [(''input'', 1500)] demo_snapshot = Inr 5 \<and> amount [(''input'', 1500)] demo_snapshot = 5"
proof -
  have u: "units_ok [(''input'', 1500)]" by code_simp
  have c: "charge [(''input'', 1500)] demo_snapshot = Inr 5" by code_simp
  show ?thesis using charge_is_exact[OF u, of demo_snapshot] c by simp
qed

text \<open>
  The checked sum: \<open>checkedAdd\<close> reports an overflow exactly when the sum of the two signed integers does not fit
  64 bits, and otherwise its first result is that sum.
\<close>

theorem checkedAdd_exact:
  "snd (checkedAdd a b) = (\<not> fits_int64 (sint a + sint b)) \<and>
   (snd (checkedAdd a b) \<or> sint (fst (checkedAdd a b)) = sint a + sint b)"
  using checkedAdd_overflow[of a b] checkedAdd_sum[of a b] by blast

section \<open>The life of a hold\<close>

text \<open>
  C28: the ledger invariant holds after every sequence of calls: reservation keys are unique, each
  hold's bound is the exact charge of its estimate under its own snapshot, a reservation has at most
  one usage record, a usage record belongs to a settled reservation, and a settled canonical
  reservation has its record.
\<close>

theorem billing_invariant: "billing_inv (billing_run fk_ok empty_billing_db evs)"
  by (rule billing_run_inv[OF billing_inv_empty])

text \<open>
  C25: a dispatched hold is never refunded. Once a reservation is held and marked dispatched, no
  later sequence of calls releases it, takes its dispatch mark back or changes its bound, estimate
  or price snapshot.
\<close>

theorem dispatched_hold_never_refunded:
  assumes "billing_reachable fk_ok db" and "GetReservation db t i = Inr r" and "plain_id i"
    and "rs_state r = ReservationHeld" and "rs_dispatched r = Some d"
  shows "case GetReservation (billing_run fk_ok db evs) t i of
      Inr r' \<Rightarrow> rs_state r' \<noteq> ReservationReleased \<and> rs_dispatched r' = Some d \<and>
        rs_limit r' = rs_limit r \<and> rs_units r' = rs_units r \<and> rs_price r' = rs_price r
    | Inl e \<Rightarrow> False"
proof -
  have inv: "billing_inv db" by (rule billing_reachable_inv[OF assms(1)])
  have r: "r \<in> set (bd_reservations db)" "res_key r = (t, i)"
    using assms(2) GetReservation_Inr[OF inv] by auto
  obtain r' where r': "r' \<in> set (bd_reservations (billing_run fk_ok db evs))" "res_evolves r r'"
    using res_evolves_run[OF inv r(1)] by blast
  have "fixed_part r' = fixed_part r" using r'(2) by (simp add: res_evolves_def)
  then have k: "res_key r' = (t, i)" "rs_limit r' = rs_limit r" "rs_units r' = rs_units r" "rs_price r' = rs_price r"
    using r(2) by (simp_all add: fixed_part_def res_key_def)
  have "canonical r" using assms(3) r(2) by (auto simp: canonical_def res_key_def plain_id_def list_all_iff)
  then have "rs_state r' \<noteq> ReservationReleased" "rs_dispatched r' = Some d"
    using r'(2) assms(4,5) by (simp_all add: res_evolves_def)
  moreover have "GetReservation (billing_run fk_ok db evs) t i = Inr r'"
    using GetReservation_Inr[OF billing_run_inv[OF inv]] r'(1) k(1) by blast
  ultimately show ?thesis using k by simp
qed

theorem dispatched_hold_never_refunded_witness:
  "case GetReservation (billing_run (\<lambda>_ _ _. True) demo_held [BevRelease demo_payer ''res_01'' 102]) ''t'' ''res_01'' of
     Inr r \<Rightarrow> rs_state r \<noteq> ReservationReleased | Inl e \<Rightarrow> False"
proof -
  have g: "case GetReservation demo_held ''t'' ''res_01'' of
      Inr r \<Rightarrow> rs_state r = ReservationHeld \<and> rs_dispatched r = Some 101 | Inl e \<Rightarrow> False" by code_simp
  then obtain r where r: "GetReservation demo_held ''t'' ''res_01'' = Inr r"
      "rs_state r = ReservationHeld" "rs_dispatched r = Some 101"
    by (auto split: sum.splits)
  have p: "plain_id ''res_01''" by code_simp
  show ?thesis
    using dispatched_hold_never_refunded[OF demo_held_reachable r(1) p r(2,3),
        of "[BevRelease demo_payer ''res_01'' 102]"]
    by (auto split: sum.splits)
qed

text \<open>What MarkUnknown and a first Settle do to the rows: the held rows of the group move.\<close>

lemma MarkUnknown_Inr:
  "MarkUnknown db p i dbnow = Inr db' \<Longrightarrow>
   db' = db\<lparr>bd_reservations := upd_rows (\<lambda>r. in_group (p_tenant p) i r \<and> rs_state r = ReservationHeld)
      (transition_row ReservationUnknown dbnow) (bd_reservations db)\<rparr>"
  by (auto simp: MarkUnknown_def Transition_eq bind_r_Inr split: if_splits)

text \<open>
  An unknown outcome keeps its liability. When \<open>MarkUnknown\<close> succeeds, the liability of every
  scope over every window is exactly what it was, and every row it marked still stands as unknown,
  with its bound, after any later sequence of calls: it is never refunded and never settled.
\<close>

theorem unknown_liability_retained:
  assumes "billing_reachable fk_ok db" and "MarkUnknown db p i dbnow = Inr db'"
    and "r \<in> set (bd_reservations db)" and "in_group (p_tenant p) i r" and "rs_state r = ReservationHeld"
  shows "Liabilities db' t scope from_t = Liabilities db t scope from_t \<and>
    list_ex (\<lambda>r'. res_key r' = res_key r \<and> rs_state r' = ReservationUnknown \<and> rs_limit r' = rs_limit r)
      (bd_reservations (billing_run fk_ok db' evs))"
proof -
  let ?P = "\<lambda>r. in_group (p_tenant p) i r \<and> rs_state r = ReservationHeld"
  note db' = MarkUnknown_Inr[OF assms(2)]
  have inv': "billing_inv db'"
    using evolves_MarkUnknown[OF billing_reachable_inv[OF assms(1)] assms(2)] by (simp add: db_evolves_def)
  have eq: "Liabilities db' t scope from_t = Liabilities db t scope from_t"
  proof -
    have "map (\<lambda>r. \<lparr>lr_amount = rs_limit r, lr_currency = rs_currency r, lr_units = rs_units r\<rparr>)
        (filter (\<lambda>r. rs_tenant r = t \<and> outstanding r \<and> in_scope scope r)
          (upd_rows ?P (transition_row ReservationUnknown dbnow) rows)) =
      map (\<lambda>r. \<lparr>lr_amount = rs_limit r, lr_currency = rs_currency r, lr_units = rs_units r\<rparr>)
        (filter (\<lambda>r. rs_tenant r = t \<and> outstanding r \<and> in_scope scope r) rows)" for rows
      by (induction rows) (auto simp: upd_rows_def outstanding_def in_scope_def transition_row_def)
    then show ?thesis by (simp add: Liabilities_def db')
  qed
  let ?r1 = "transition_row ReservationUnknown dbnow r"
  have r1: "?r1 \<in> set (bd_reservations db')"
    using assms(3-5) by (auto simp: db' upd_rows_def)
  obtain r' where r': "r' \<in> set (bd_reservations (billing_run fk_ok db' evs))" "res_evolves ?r1 r'"
    using res_evolves_run[OF inv' r1] by blast
  have "fixed_part r' = fixed_part r" using r'(2) by (simp add: res_evolves_def)
  then have "res_key r' = res_key r" "rs_limit r' = rs_limit r" by (simp_all add: fixed_part_def res_key_def)
  moreover have "rs_state r' = ReservationUnknown" using r'(2) by (simp add: res_evolves_def)
  ultimately show ?thesis using eq r'(1) unfolding list_ex_iff by blast
qed

theorem unknown_liability_retained_witness:
  "case MarkUnknown demo_held demo_payer ''res_01'' 102 of
     Inr db' \<Rightarrow> list_ex (\<lambda>r. rs_state r = ReservationUnknown) (bd_reservations db') | Inl e \<Rightarrow> False"
proof -
  have "is_ok (MarkUnknown demo_held demo_payer ''res_01'' 102)" by code_simp
  then obtain db' where m: "MarkUnknown demo_held demo_payer ''res_01'' 102 = Inr db'" by (auto elim!: is_okE)
  have "list_ex (\<lambda>r. in_group (p_tenant demo_payer) ''res_01'' r \<and> rs_state r = ReservationHeld)
      (bd_reservations demo_held)" by code_simp
  then obtain r where r: "r \<in> set (bd_reservations demo_held)" "in_group (p_tenant demo_payer) ''res_01'' r"
      "rs_state r = ReservationHeld" unfolding list_ex_iff by blast
  show ?thesis unfolding m
    using unknown_liability_retained[OF demo_held_reachable m r, of "[]" 
      "\<lparr>su_type = [], su_id = []\<rparr>" 0 "[]"]
    unfolding billing_run_def list_ex_iff foldl_Nil sum.case by blast
qed

text \<open>
  Settled usage counts for the billing subject and the tenant only. The attribution rows of the
  other subjects leave their liability when the reservation settles, and the usage record carries
  only the billing subject, so a budget of another subject the caller named (an API key, say) no
  longer sees the charge.
\<close>

theorem settled_attribution_uncounted:
  assumes "billing_reachable fk_ok db" and "Settle db p i actual newid now dbnow = Inr (db', rec)"
    and "db' \<noteq> db" and "su_type scope \<noteq> BudgetSubjectTenant" and "scope \<noteq> ur_subject rec"
  shows "Liabilities db' t scope from_t =
    Liabilities (db\<lparr>bd_reservations := filter (\<lambda>r. \<not> (in_group (p_tenant p) i r \<and> rs_state r = ReservationHeld))
                      (bd_reservations db)\<rparr>) t scope from_t"
  using billing_reachable_inv[OF assms(1)] assms(2)
proof (cases rule: Settle_Inr)
  case (again r0)
  then show ?thesis using assms(3) by simp
next
  case (first r0 u amt)
  let ?P = "\<lambda>r. in_group (p_tenant p) i r \<and> rs_state r = ReservationHeld"
  have "filter (\<lambda>r. rs_tenant r = t \<and> outstanding r \<and> in_scope scope r)
        (upd_rows ?P (transition_row ReservationSettled dbnow) rows) =
      filter (\<lambda>r. rs_tenant r = t \<and> outstanding r \<and> in_scope scope r) (filter (\<lambda>r. \<not> ?P r) rows)" for rows
    by (induction rows) (auto simp: upd_rows_def outstanding_def)
  moreover have "\<not> usage_in_scope scope (rec\<lparr>ur_created := dbnow\<rparr>)"
    using assms(4,5) by (simp add: usage_in_scope_def)
  ultimately show ?thesis by (simp add: Liabilities_def first(8))
qed

theorem settled_attribution_uncounted_witness:
  "Liabilities demo_held ''t'' \<lparr>su_type = ''api_key'', su_id = ''k1''\<rparr> 0 \<noteq> [] \<and>
   (case Settle demo_held demo_payer ''res_01'' (demo_usage 900 100) ''use_01'' 102 102 of
      Inr (db', rec) \<Rightarrow> ur_amount rec = 4 \<and> Liabilities db' ''t'' \<lparr>su_type = ''api_key'', su_id = ''k1''\<rparr> 0 = []
    | Inl e \<Rightarrow> False)"
proof -
  let ?k = "\<lparr>su_type = ''api_key'', su_id = ''k1''\<rparr>"
  have "case Settle demo_held demo_payer ''res_01'' (demo_usage 900 100) ''use_01'' 102 102 of
      Inr (db', rec) \<Rightarrow> ur_subject rec = \<lparr>su_type = ''user'', su_id = ''u1''\<rparr> \<and> ur_amount rec = 4 \<and>
        length (bd_usage db') = 1
    | Inl e \<Rightarrow> False" by code_simp
  then obtain db' rec where s:
      "Settle demo_held demo_payer ''res_01'' (demo_usage 900 100) ''use_01'' 102 102 = Inr (db', rec)"
      "ur_subject rec = \<lparr>su_type = ''user'', su_id = ''u1''\<rparr>" "ur_amount rec = 4" "length (bd_usage db') = 1"
    by (auto split: sum.splits)
  have "length (bd_usage demo_held) = 0" by code_simp
  then have ne: "db' \<noteq> demo_held" using s(4) by auto
  have nt: "su_type ?k \<noteq> BudgetSubjectTenant" "?k \<noteq> ur_subject rec" by (simp_all add: s(2))
  have "Liabilities (demo_held\<lparr>bd_reservations := filter (\<lambda>r. \<not> (in_group (p_tenant demo_payer) ''res_01'' r \<and>
      rs_state r = ReservationHeld)) (bd_reservations demo_held)\<rparr>) ''t'' ?k 0 = []" by code_simp
  moreover have "Liabilities demo_held ''t'' ?k 0 \<noteq> []" by code_simp
  ultimately show ?thesis
    using settled_attribution_uncounted[OF demo_held_reachable s(1) ne nt, of "''t''" 0] s by simp
qed

section \<open>The accounting window\<close>

lemma month_day_bounds:
  fixes y :: int
  defines "m \<equiv> (5 * y + 2) div 153"
  shows "0 \<le> y - (153 * m + 2) div 5 \<and> y - (153 * m + 2) div 5 \<le> 30"
proof -
  have "153 * m \<le> 5 * y + 2" "5 * y + 2 < 153 * m + 153"
    using div_mult_mod_eq[of "5 * y + 2" 153] pos_mod_bound[of 153 "5 * y + 2"] pos_mod_sign[of 153 "5 * y + 2"]
    unfolding m_def by linarith+
  moreover have "5 * ((153 * m + 2) div 5) \<le> 153 * m + 2" "153 * m + 2 < 5 * ((153 * m + 2) div 5) + 5"
    by presburger+
  ultimately show ?thesis by linarith
qed

lemma day_of_month_range: "1 \<le> day_of_month d \<and> day_of_month d \<le> 31"
proof -
  obtain y where "day_of_month d = y - (153 * ((5 * y + 2) div 153) + 2) div 5 + 1"
    unfolding day_of_month_def Let_def by blast
  then show ?thesis using month_day_bounds[of y] by linarith
qed

text \<open>
  The window of an active budget. Its liability counts settled usage from the LATER of the
  budget's own start and the start of its period, at or before now; a daily window is shorter than a
  day, a weekly one starts on a Monday midnight and is shorter than seven days, a monthly one is
  shorter than 31 days.
\<close>

theorem liability_window:
  assumes "bu_starts b \<le> now" and "bu_period b \<in> {PeriodDaily, PeriodWeekly, PeriodMonthly}"
  shows "liabilityFrom b now = max (bu_starts b) (periodStart (bu_period b) now) \<and>
    liabilityFrom b now \<le> now \<and> periodStart (bu_period b) now mod day_ns = 0 \<and>
    now - liabilityFrom b now <
      (if bu_period b = PeriodDaily then 1 else if bu_period b = PeriodWeekly then 7 else 31) * day_ns \<and>
    (bu_period b \<noteq> PeriodWeekly \<or> weekday (periodStart PeriodWeekly now div day_ns) = 1)"
proof -
  have d: "0 < day_ns" by (simp add: day_ns_def)
  have sp: "periodStart p now = (now div day_ns - k) * day_ns \<Longrightarrow> 0 \<le> k \<Longrightarrow>
      periodStart p now \<le> now \<and> now - periodStart p now < (k + 1) * day_ns" for p k
  proof -
    assume s: "periodStart p now = (now div day_ns - k) * day_ns" and k: "0 \<le> k"
    have "now = now div day_ns * day_ns + now mod day_ns" by simp
    moreover have "0 \<le> now mod day_ns" "now mod day_ns < day_ns" using d by simp_all
    moreover have "0 \<le> k * day_ns" using k d by simp
    moreover have "periodStart p now = now div day_ns * day_ns - k * day_ns" "(k + 1) * day_ns = k * day_ns + day_ns"
      unfolding s by (simp_all add: algebra_simps)
    ultimately show "periodStart p now \<le> now \<and> now - periodStart p now < (k + 1) * day_ns" by linarith
  qed
  let ?k = "case bu_period b of PeriodDaily \<Rightarrow> 0 | PeriodWeekly \<Rightarrow> (weekday (now div day_ns) + 6) mod 7
      | PeriodMonthly \<Rightarrow> day_of_month (now div day_ns) - 1 | PeriodOther _ \<Rightarrow> 0"
  let ?n = "if bu_period b = PeriodDaily then 1 else if bu_period b = PeriodWeekly then 7 else (31 :: int)"
  have eq: "periodStart (bu_period b) now = (now div day_ns - ?k) * day_ns"
    using assms(2) by (auto simp: periodStart_def Let_def)
  have k: "0 \<le> ?k" "?k + 1 \<le> ?n"
    using assms(2) day_of_month_range[of "now div day_ns"] pos_mod_bound[of 7 "weekday (now div day_ns) + 6"]
    by auto
  have "(?k + 1) * day_ns \<le> ?n * day_ns" by (rule mult_right_mono[OF k(2)]) (use d in simp)
  moreover note sp[OF eq k(1)]
  ultimately have p: "periodStart (bu_period b) now \<le> now" "now - periodStart (bu_period b) now < ?n * day_ns"
    by (blast, linarith)
  have w: "weekday (periodStart PeriodWeekly now div day_ns) = 1"
  proof -
    have "periodStart PeriodWeekly now div day_ns = now div day_ns - (weekday (now div day_ns) + 6) mod 7"
      using d by (simp add: periodStart_def Let_def)
    moreover have "weekday (x - (weekday x + 6) mod 7) = 1" for x unfolding weekday_def by presburger
    ultimately show ?thesis by simp
  qed
  have lf: "liabilityFrom b now = max (bu_starts b) (periodStart (bu_period b) now)"
    by (simp add: liabilityFrom_def Let_def max_def)
  show ?thesis
    using p w assms(1) eq by (simp add: lf max_def del: mult_1)
qed

theorem liability_window_witness:
  "liabilityFrom (demo_budget \<lparr>su_type = ''user'', su_id = ''u1''\<rparr> 10) (3 * day_ns + 5) = 3 * day_ns"
proof -
  let ?b = "demo_budget \<lparr>su_type = ''user'', su_id = ''u1''\<rparr> 10"
  have b: "bu_starts ?b \<le> 3 * day_ns + 5" "bu_period ?b \<in> {PeriodDaily, PeriodWeekly, PeriodMonthly}"
    "max (bu_starts ?b) (periodStart (bu_period ?b) (3 * day_ns + 5)) = 3 * day_ns"
    by (simp_all add: demo_budget_def periodStart_def day_ns_def)
  show ?thesis using liability_window[OF b(1,2)] unfolding b(3) by blast
qed

end
