(* ===== verification/Source.thy ===== *)
theory Source
  imports Principal
begin

text \<open>
  The source authorizer: the types of internal/source/types.go, the read side of the
  SourceRepository interface as a record of functions that may fail, and the decision procedure of
  internal/source/authorize.go. Nothing here depends on the store; SourceRepo provides it.
\<close>

section \<open>types.go\<close>

text \<open>
  The optional text columns are Go strings whose empty value is stored as NULL (\<open>nullableText\<close>), so
  the empty string stands for NULL: \<open>ob_connection = []\<close> is an upload.
\<close>

record connection =
  cn_tenant :: string
  cn_id :: string
  cn_kind :: string
  cn_name :: string
  cn_credential :: string
  cn_config :: json
  cn_target :: string
  cn_audience_default :: "string list"
  cn_status :: string
  cn_created_by :: string
  cn_synced_at :: "time option"
  cn_sync_status :: string
  cn_sync_error :: string

record object =
  ob_tenant :: string
  ob_connection :: string
  ob_id :: string
  ob_kind :: string
  ob_native :: string
  ob_parent :: string
  ob_mode :: string
  ob_owner :: string
  ob_audience :: "string list"
  ob_upstream :: "string option"
  ob_observed :: int
  ob_deleted :: "time option"
  ob_tombstoned :: "time option"

record source_restriction =
  sr_tenant :: string
  sr_subject_kind :: string
  sr_subject_id :: string
  sr_assurance :: string
  sr_denied :: "string list"
  sr_labels :: "string list"

record object_version =
  ov_object :: string
  ov_observed :: int
  ov_artifact :: string
  ov_sha256 :: string
  ov_size :: int
  ov_mime :: string
  ov_filename :: string
  ov_upstream :: "string option"
  ov_provenance :: string
  ov_restrictions :: "source_restriction list"

record source_group =
  sg_tenant :: string
  sg_connection :: string
  sg_id :: string
  sg_native :: string
  sg_name :: string

record membership =
  sm_tenant :: string
  sm_group :: string
  sm_member :: string
  sm_revision :: int

record source_identity =
  si_tenant :: string
  si_connection :: string
  si_id :: string
  si_native :: string
  si_mapped :: string

record source_grant =
  gr_tenant :: string
  gr_object :: string
  gr_subject_kind :: string
  gr_subject_id :: string
  gr_effect :: string
  gr_revision :: int

abbreviation "AuthorizationOwner \<equiv> ''owner''"
abbreviation "AuthorizationAudience \<equiv> ''audience''"
abbreviation "AuthorizationSourceACL \<equiv> ''source_acl''"
abbreviation "AuthorizationPublishedAudience \<equiv> ''published_audience''"
abbreviation "GrantSubjectUser \<equiv> ''user''"
abbreviation "GrantSubjectGroup \<equiv> ''group''"
abbreviation "GrantEffectAllow \<equiv> ''allow''"
abbreviation "GrantEffectDeny \<equiv> ''deny''"
abbreviation "SnapshotGrants \<equiv> ''grants''"
abbreviation "SnapshotMembership \<equiv> ''membership''"
abbreviation "RestrictionTenant \<equiv> ''tenant''"
abbreviation "RestrictionConnection \<equiv> ''connection''"
abbreviation "RestrictionObject \<equiv> ''object''"
abbreviation "RestrictionArtifact \<equiv> ''artifact''"

section \<open>repository.go: the read interface\<close>

datatype source_error = ErrDenied | SourceFailure string

text \<open>\<open>ro_now = None\<close> is the zero time, for which the authorizer reads its own clock.\<close>

record read_options =
  ro_now :: "time option"
  ro_requested :: "source_restriction option"

record source_reads =
  GetConnection :: "string \<Rightarrow> string \<Rightarrow> source_error + connection"
  GetObject :: "string \<Rightarrow> string \<Rightarrow> source_error + object"
  GetObjectVersion :: "string \<Rightarrow> string \<Rightarrow> int \<Rightarrow> source_error + object_version"
  LatestObjectVersion :: "string \<Rightarrow> string \<Rightarrow> source_error + object_version"
  SourceIdentityForUser :: "string \<Rightarrow> string \<Rightarrow> string \<Rightarrow> source_error + source_identity"
  GroupIDsForIdentity :: "string \<Rightarrow> string \<Rightarrow> string \<Rightarrow> source_error + string list"
  GrantsForObject :: "string \<Rightarrow> string \<Rightarrow> int \<Rightarrow> source_error + source_grant list"
  LatestCompleteRevision :: "string \<Rightarrow> string \<Rightarrow> string \<Rightarrow> source_error + int \<times> time"
  RestrictionsForSubject :: "string \<Rightarrow> string \<Rightarrow> string \<Rightarrow> source_error + source_restriction list"

section \<open>authorize.go: restrictions\<close>

definition assuranceRank :: "string \<Rightarrow> nat" where
  "assuranceRank level =
     (if level = [] then 0 else if level = ''standard'' then 1 else if level = ''high'' then 2 else 3)"

text \<open>The copy of \<open>a\<close> is appended to as it is; only \<open>b\<close> is checked against what was seen.\<close>

definition unionStrings :: "string list \<Rightarrow> string list \<Rightarrow> string list" where
  "unionStrings a b = a @ dedup_from (set a) b"

definition mergeRestriction :: "source_restriction \<Rightarrow> source_restriction \<Rightarrow> source_restriction" where
  "mergeRestriction dst r =
     dst\<lparr>sr_assurance := (if assuranceRank (sr_assurance dst) < assuranceRank (sr_assurance r)
                          then sr_assurance r else sr_assurance dst),
         sr_denied := unionStrings (sr_denied dst) (sr_denied r),
         sr_labels := unionStrings (sr_labels dst) (sr_labels r)\<rparr>"

definition empty_restriction :: "string \<Rightarrow> source_restriction" where
  "empty_restriction t =
     \<lparr>sr_tenant = t, sr_subject_kind = [], sr_subject_id = [], sr_assurance = [], sr_denied = [],
      sr_labels = []\<rparr>"

fun merge_subjects ::
    "source_reads \<Rightarrow> string \<Rightarrow> source_restriction \<Rightarrow> (string \<times> string) list \<Rightarrow>
     source_error + source_restriction" where
  "merge_subjects rd t merged [] = Inr merged"
| "merge_subjects rd t merged ((k, i) # ss) =
     bind_r (RestrictionsForSubject rd t k i) (\<lambda>rows. merge_subjects rd t (foldl mergeRestriction merged rows) ss)"

definition EffectiveRestrictions ::
    "source_reads \<Rightarrow> object \<Rightarrow> object_version option \<Rightarrow> string \<Rightarrow> source_error + source_restriction" where
  "EffectiveRestrictions rd obj ver artifact =
     bind_r (merge_subjects rd (ob_tenant obj) (empty_restriction (ob_tenant obj))
        ((if ob_connection obj \<noteq> [] then [(RestrictionConnection, ob_connection obj)] else []) @
         [(RestrictionObject, ob_id obj)] @
         (if artifact \<noteq> [] then [(RestrictionArtifact, artifact)] else [])))
       (\<lambda>merged. Inr (case ver of None \<Rightarrow> merged | Some v \<Rightarrow> foldl mergeRestriction merged (ov_restrictions v)))"

text \<open>Checks return \<open>None\<close> for a nil error.\<close>

definition checkNarrowing ::
    "source_reads \<Rightarrow> object \<Rightarrow> source_restriction option \<Rightarrow> source_error option" where
  "checkNarrowing rd obj requested =
     (case requested of
        None \<Rightarrow> None
      | Some rq \<Rightarrow>
          (case EffectiveRestrictions rd obj None [] of
             Inl e \<Rightarrow> Some e
           | Inr persisted \<Rightarrow>
               if list_ex (\<lambda>c. c \<notin> set (sr_denied rq)) (sr_denied persisted) then Some ErrDenied
               else if assuranceRank (sr_assurance rq) < assuranceRank (sr_assurance persisted)
               then Some ErrDenied
               else None))"

section \<open>authorize.go: the decision\<close>

text \<open>The loop over the grants: \<open>None\<close> is the early return on a deny, otherwise whether one allows.\<close>

definition grant_applies :: "source_identity \<Rightarrow> string list \<Rightarrow> source_grant \<Rightarrow> bool" where
  "grant_applies ident groups g =
     (if gr_subject_kind g = GrantSubjectUser then gr_subject_id g = si_id ident
      else if gr_subject_kind g = GrantSubjectGroup then gr_subject_id g \<in> set groups
      else False)"

fun grant_scan :: "source_identity \<Rightarrow> string list \<Rightarrow> bool \<Rightarrow> source_grant list \<Rightarrow> bool option" where
  "grant_scan ident groups allowed [] = Some allowed"
| "grant_scan ident groups allowed (g # gs) =
     (if \<not> grant_applies ident groups g then grant_scan ident groups allowed gs
      else if gr_effect g = GrantEffectDeny then None
      else grant_scan ident groups (allowed \<or> gr_effect g = GrantEffectAllow) gs)"

definition canReadSourceACL ::
    "source_reads \<Rightarrow> duration \<Rightarrow> time \<Rightarrow> principal \<Rightarrow> object \<Rightarrow> read_options \<Rightarrow> source_error option" where
  "canReadSourceACL rd maxstale wall p obj opts =
     (if ob_connection obj = [] then Some ErrDenied
      else
        let mapped = (if p_user p = [] then p_actor p else p_user p);
            t = ob_tenant obj; c = ob_connection obj
        in case SourceIdentityForUser rd t c mapped of
          Inl _ \<Rightarrow> Some ErrDenied
        | Inr ident \<Rightarrow>
            (case GroupIDsForIdentity rd t c (si_id ident) of
               Inl _ \<Rightarrow> Some ErrDenied
             | Inr groups \<Rightarrow>
                 (case LatestCompleteRevision rd t c SnapshotGrants of
                    Inl _ \<Rightarrow> Some ErrDenied
                  | Inr (rv, completed) \<Rightarrow>
                      let now = (case ro_now opts of None \<Rightarrow> wall | Some n \<Rightarrow> n)
                      in if 0 < maxstale \<and> maxstale < now - completed then Some ErrDenied
                         else (case GrantsForObject rd t (ob_id obj) rv of
                                 Inl _ \<Rightarrow> Some ErrDenied
                               | Inr grants \<Rightarrow>
                                   (if grant_scan ident groups False grants = Some True
                                    then None else Some ErrDenied)))))"

definition connection_blocks :: "source_reads \<Rightarrow> object \<Rightarrow> bool" where
  "connection_blocks rd obj =
     (ob_connection obj \<noteq> [] \<and>
      (case GetConnection rd (ob_tenant obj) (ob_connection obj) of
         Inl _ \<Rightarrow> True | Inr c \<Rightarrow> cn_status c \<noteq> ''active''))"

definition CanRead ::
    "source_reads \<Rightarrow> duration \<Rightarrow> time \<Rightarrow> principal \<Rightarrow> object \<Rightarrow> read_options \<Rightarrow> source_error option" where
  "CanRead rd maxstale wall p obj opts =
     (if ob_deleted obj \<noteq> None \<or> ob_tombstoned obj \<noteq> None then Some ErrDenied
      else if connection_blocks rd obj then Some ErrDenied
      else case checkNarrowing rd obj (ro_requested opts) of
        Some e \<Rightarrow> Some e
      | None \<Rightarrow>
          if ob_mode obj = AuthorizationOwner then
            (if ob_owner obj = p_actor p \<or> (p_delegated_by p \<noteq> [] \<and> ob_owner obj = p_delegated_by p)
             then None else Some ErrDenied)
          else if ob_mode obj = AuthorizationAudience \<or> ob_mode obj = AuthorizationPublishedAudience then
            (if p_actor p \<in> set (ob_audience obj) then None else Some ErrDenied)
          else if ob_mode obj = AuthorizationSourceACL then canReadSourceACL rd maxstale wall p obj opts
          else Some ErrDenied)"

definition CanReadVersion ::
    "source_reads \<Rightarrow> duration \<Rightarrow> time \<Rightarrow> principal \<Rightarrow> object \<Rightarrow> object_version \<Rightarrow> read_options \<Rightarrow>
     source_error option" where
  "CanReadVersion rd maxstale wall p obj ver opts =
     (if ov_object ver \<noteq> ob_id obj then Some ErrDenied
      else case GetObjectVersion rd (ob_tenant obj) (ob_id obj) (ov_observed ver) of
        Inl _ \<Rightarrow> Some ErrDenied
      | Inr _ \<Rightarrow> CanRead rd maxstale wall p obj opts)"

end
