(* ===== verification/SourceRepo.thy ===== *)
theory SourceRepo
  imports Source
begin

text \<open>
  The tables of migrations/003_source.sql (with 009) and the statements of
  internal/store/postgres/source_repo.go over them: connections, objects, versions, identities,
  groups, memberships, grants, access snapshots and restrictions, and the read interface of
  Source on this store. Column defaults the code never reads (created_at, last_seen_at) are left
  out. A statement that violates a constraint is a \<open>SourceFailure\<close>; the foreign keys to the tables of
  other components (tenants, users) are the parameters \<open>tenant_ok\<close> and \<open>user_ok\<close>.
\<close>

section \<open>Tables\<close>

text \<open>
  A grant row's id is \<open>gr:connection:revision:index\<close>; the last two fields are decimal numbers, so
  the id determines the triple and the triple stands for it.
\<close>

record grant_row =
  g_tenant :: string
  g_id :: "string \<times> int \<times> nat"
  g_object :: string
  g_kind :: string
  g_identity :: "string option"
  g_group :: "string option"
  g_effect :: string
  g_revision :: int

record member_row =
  m_tenant :: string
  m_id :: string
  m_group :: string
  m_identity :: string
  m_revision :: int

datatype snapshot_status = Incomplete | CompleteSnapshot

record snapshot_row =
  s_tenant :: string
  s_connection :: string
  s_kind :: string
  s_revision :: int
  s_completed :: "time option"
  s_status :: snapshot_status

record source_db =
  sd_connections :: "connection list"
  sd_objects :: "object list"
  sd_versions :: "(string \<times> object_version) list"
  sd_identities :: "source_identity list"
  sd_groups :: "source_group list"
  sd_members :: "member_row list"
  sd_grants :: "grant_row list"
  sd_snapshots :: "snapshot_row list"
  sd_restrictions :: "source_restriction list"

definition empty_source_db :: source_db where
  "empty_source_db =
     \<lparr>sd_connections = [], sd_objects = [], sd_versions = [], sd_identities = [], sd_groups = [],
      sd_members = [], sd_grants = [], sd_snapshots = [], sd_restrictions = []\<rparr>"

definition constraint :: "source_error + 'a" where
  "constraint = Inl (SourceFailure ''constraint'')"

text \<open>A conditional UPDATE that touches no row is denied.\<close>

definition denied_unless_rows ::
    "('r \<Rightarrow> bool) \<Rightarrow> ('r \<Rightarrow> 'r) \<Rightarrow> 'r list \<Rightarrow> ('r list \<Rightarrow> source_db) \<Rightarrow> source_error + source_db" where
  "denied_unless_rows P f t put = (if count_rows P t = 0 then Inl ErrDenied else Inr (put (upd_rows P f t)))"

definition row_or_denied :: "('r \<Rightarrow> bool) \<Rightarrow> 'r list \<Rightarrow> source_error + 'r" where
  "row_or_denied P t = (case find_row P t of None \<Rightarrow> Inl ErrDenied | Some r \<Rightarrow> Inr r)"

section \<open>Connections\<close>

definition conn_key :: "connection \<Rightarrow> string \<times> string" where
  "conn_key c = (cn_tenant c, cn_id c)"

definition CreateConnection ::
    "(string \<Rightarrow> bool) \<Rightarrow> source_db \<Rightarrow> connection \<Rightarrow> source_error + source_db" where
  "CreateConnection tenant_ok db c =
     (if \<not> tenant_ok (cn_tenant c) \<or> list_ex (\<lambda>d. conn_key d = conn_key c) (sd_connections db) \<or>
         cn_kind c \<notin> {''github'', ''slack'', ''teams'', ''notion'', ''google_drive''}
      then constraint
      else Inr (db\<lparr>sd_connections := sd_connections db @
             [c\<lparr>cn_status := (if cn_status c = [] then ''active'' else cn_status c),
                cn_synced_at := None, cn_sync_status := [], cn_sync_error := []\<rparr>]\<rparr>))"

definition sql_GetConnection :: "source_db \<Rightarrow> string \<Rightarrow> string \<Rightarrow> source_error + connection" where
  "sql_GetConnection db t i = row_or_denied (\<lambda>c. conn_key c = (t, i)) (sd_connections db)"

definition UpdateConnectionStatus :: "source_db \<Rightarrow> string \<Rightarrow> string \<Rightarrow> string \<Rightarrow> source_error + source_db" where
  "UpdateConnectionStatus db t i st =
     denied_unless_rows (\<lambda>c. conn_key c = (t, i)) (\<lambda>c. c\<lparr>cn_status := st\<rparr>) (sd_connections db)
       (\<lambda>cs. db\<lparr>sd_connections := cs\<rparr>)"

definition SetSyncState ::
    "source_db \<Rightarrow> string \<Rightarrow> string \<Rightarrow> time \<Rightarrow> string \<Rightarrow> string \<Rightarrow> source_error + source_db" where
  "SetSyncState db t i synced st err =
     denied_unless_rows (\<lambda>c. conn_key c = (t, i))
       (\<lambda>c. c\<lparr>cn_synced_at := Some synced, cn_sync_status := st, cn_sync_error := err\<rparr>) (sd_connections db)
       (\<lambda>cs. db\<lparr>sd_connections := cs\<rparr>)"

section \<open>Objects\<close>

definition obj_key :: "object \<Rightarrow> string \<times> string" where
  "obj_key o' = (ob_tenant o', ob_id o')"

text \<open>The identity the unique constraint and the partial unique index of uploads enforce.\<close>

definition obj_ident :: "object \<Rightarrow> string \<times> string \<times> string \<times> string" where
  "obj_ident o' = (ob_tenant o', ob_connection o', ob_kind o', ob_native o')"

definition sql_GetObject :: "source_db \<Rightarrow> string \<Rightarrow> string \<Rightarrow> source_error + object" where
  "sql_GetObject db t i = row_or_denied (\<lambda>x. obj_key x = (t, i)) (sd_objects db)"

definition UpsertObject ::
    "(string \<Rightarrow> bool) \<Rightarrow> source_db \<Rightarrow> object \<Rightarrow> source_error + source_db \<times> object" where
  "UpsertObject tenant_ok db x =
     (let mode = (if ob_mode x = [] then AuthorizationSourceACL else ob_mode x);
          row = x\<lparr>ob_mode := mode, ob_deleted := None, ob_tombstoned := None\<rparr> in
      if mode \<notin> {AuthorizationOwner, AuthorizationAudience, AuthorizationSourceACL, AuthorizationPublishedAudience}
      then constraint
      else case find_row (\<lambda>y. obj_ident y = obj_ident x) (sd_objects db) of
        Some y \<Rightarrow> bind_r (sql_GetObject db (ob_tenant y) (ob_id y)) (\<lambda>z. Inr (db, z))
      | None \<Rightarrow>
          if \<not> tenant_ok (ob_tenant x) \<or> list_ex (\<lambda>y. obj_key y = obj_key x) (sd_objects db) \<or>
             (ob_connection x \<noteq> [] \<and> \<not> list_ex (\<lambda>c. conn_key c = (ob_tenant x, ob_connection x)) (sd_connections db)) \<or>
             (ob_parent x \<noteq> [] \<and> (ob_tenant x, ob_parent x) \<noteq> obj_key x \<and>
              \<not> list_ex (\<lambda>y. obj_key y = (ob_tenant x, ob_parent x)) (sd_objects db))
          then constraint
          else let db' = db\<lparr>sd_objects := sd_objects db @ [row]\<rparr>
               in bind_r (sql_GetObject db' (ob_tenant x) (ob_id x)) (\<lambda>z. Inr (db', z)))"

definition ListObjectsByConnection :: "source_db \<Rightarrow> string \<Rightarrow> string \<Rightarrow> object list" where
  "ListObjectsByConnection db t c =
     sort_key ob_id (filter (\<lambda>x. ob_tenant x = t \<and> ob_connection x = c \<and> c \<noteq> []) (sd_objects db))"

definition MarkObjectDeleted :: "source_db \<Rightarrow> string \<Rightarrow> string \<Rightarrow> time \<Rightarrow> source_error + source_db" where
  "MarkObjectDeleted db t i now =
     denied_unless_rows (\<lambda>x. obj_key x = (t, i)) (\<lambda>x. x\<lparr>ob_deleted := Some now\<rparr>) (sd_objects db)
       (\<lambda>xs. db\<lparr>sd_objects := xs\<rparr>)"

definition TombstoneObject :: "source_db \<Rightarrow> string \<Rightarrow> string \<Rightarrow> time \<Rightarrow> source_error + source_db" where
  "TombstoneObject db t i now =
     denied_unless_rows (\<lambda>x. obj_key x = (t, i))
       (\<lambda>x. x\<lparr>ob_tombstoned := Some now,
              ob_deleted := (case ob_deleted x of None \<Rightarrow> Some now | d \<Rightarrow> d)\<rparr>) (sd_objects db)
       (\<lambda>xs. db\<lparr>sd_objects := xs\<rparr>)"

section \<open>Versions\<close>

definition is_version :: "string \<Rightarrow> string \<Rightarrow> string \<times> object_version \<Rightarrow> bool" where
  "is_version t i = (\<lambda>(t', v). t' = t \<and> ov_object v = i)"

definition max_seq :: "source_db \<Rightarrow> string \<Rightarrow> string \<Rightarrow> int" where
  "max_seq db t i =
     (case map (ov_observed \<circ> snd) (filter (is_version t i) (sd_versions db)) of
        [] \<Rightarrow> 0 | s # ss \<Rightarrow> foldl max s ss)"

text \<open>The row id \<open>object#seq\<close> determines the object and the sequence number.\<close>

definition InsertObjectVersion ::
    "source_db \<Rightarrow> string \<Rightarrow> object_version \<Rightarrow> source_error + source_db" where
  "InsertObjectVersion db t ver =
     (if ov_observed ver \<le> max_seq db t (ov_object ver) then Inl (SourceFailure ''observed_seq'')
      else if \<not> list_ex (\<lambda>x. obj_key x = (t, ov_object ver)) (sd_objects db) then constraint
      else Inr (db\<lparr>sd_versions := sd_versions db @
                    [(t, ver\<lparr>ov_provenance := (if list_all (\<lambda>c. c \<in> {CHR '' '', CHR 0x09, CHR 0x0A, CHR 0x0B, CHR 0x0C, CHR 0x0D})
                                                  (ov_provenance ver) then ''{}'' else ov_provenance ver)\<rparr>)],
                  sd_objects := upd_rows (\<lambda>x. obj_key x = (t, ov_object ver))
                    (\<lambda>x. x\<lparr>ob_observed := max (ob_observed x) (ov_observed ver)\<rparr>) (sd_objects db)\<rparr>))"

definition sql_GetObjectVersion ::
    "source_db \<Rightarrow> string \<Rightarrow> string \<Rightarrow> int \<Rightarrow> source_error + object_version" where
  "sql_GetObjectVersion db t i sq =
     bind_r (row_or_denied (\<lambda>v. is_version t i v \<and> ov_observed (snd v) = sq) (sd_versions db)) (\<lambda>v. Inr (snd v))"

definition sql_LatestObjectVersion ::
    "source_db \<Rightarrow> string \<Rightarrow> string \<Rightarrow> source_error + object_version" where
  "sql_LatestObjectVersion db t i =
     (case filter (is_version t i) (sd_versions db) of
        [] \<Rightarrow> Inl ErrDenied
      | v # vs \<Rightarrow> Inr (snd (foldl (\<lambda>b c. if ov_observed (snd b) < ov_observed (snd c) then c else b) v vs)))"

section \<open>Identities, groups, memberships\<close>

definition has_connection :: "source_db \<Rightarrow> string \<Rightarrow> string \<Rightarrow> bool" where
  "has_connection db t c = list_ex (\<lambda>d. conn_key d = (t, c)) (sd_connections db)"

definition InsertSourceIdentity ::
    "(string \<Rightarrow> string \<Rightarrow> bool) \<Rightarrow> source_db \<Rightarrow> source_identity \<Rightarrow> source_error + source_db" where
  "InsertSourceIdentity user_ok db x =
     (let same = (\<lambda>y. (si_tenant y, si_connection y, si_native y) = (si_tenant x, si_connection x, si_native x)) in
      if si_mapped x \<noteq> [] \<and> \<not> user_ok (si_tenant x) (si_mapped x) then constraint
      else if list_ex same (sd_identities db)
      then Inr (db\<lparr>sd_identities := upd_rows same (\<lambda>y. y\<lparr>si_mapped := si_mapped x\<rparr>) (sd_identities db)\<rparr>)
      else if list_ex (\<lambda>y. (si_tenant y, si_id y) = (si_tenant x, si_id x)) (sd_identities db) \<or>
              \<not> has_connection db (si_tenant x) (si_connection x)
      then constraint
      else Inr (db\<lparr>sd_identities := sd_identities db @ [x]\<rparr>))"

definition InsertSourceGroup :: "source_db \<Rightarrow> source_group \<Rightarrow> source_error + source_db" where
  "InsertSourceGroup db x =
     (let same = (\<lambda>y. (sg_tenant y, sg_connection y, sg_native y) = (sg_tenant x, sg_connection x, sg_native x)) in
      if list_ex same (sd_groups db)
      then Inr (db\<lparr>sd_groups := upd_rows same (\<lambda>y. y\<lparr>sg_name := sg_name x\<rparr>) (sd_groups db)\<rparr>)
      else if list_ex (\<lambda>y. (sg_tenant y, sg_id y) = (sg_tenant x, sg_id x)) (sd_groups db) \<or>
              \<not> has_connection db (sg_tenant x) (sg_connection x)
      then constraint
      else Inr (db\<lparr>sd_groups := sd_groups db @ [x]\<rparr>))"

definition sql_SourceIdentityForUser ::
    "source_db \<Rightarrow> string \<Rightarrow> string \<Rightarrow> string \<Rightarrow> source_error + source_identity" where
  "sql_SourceIdentityForUser db t c u =
     row_or_denied (\<lambda>x. si_tenant x = t \<and> si_connection x = c \<and> si_mapped x \<noteq> [] \<and> si_mapped x = u)
       (sd_identities db)"

section \<open>Decimal numbers\<close>

fun nat_str :: "nat \<Rightarrow> string" where
  "nat_str n = (if n < 10 then [char_of (48 + n)] else nat_str (n div 10) @ [char_of (48 + n mod 10)])"

declare nat_str.simps [simp del]

definition itoa :: "int \<Rightarrow> string" where
  "itoa i = (if i < 0 then CHR ''-'' # nat_str (nat (- i)) else nat_str (nat i))"

section \<open>Snapshots\<close>

definition is_snapshot :: "string \<Rightarrow> string \<Rightarrow> string \<Rightarrow> snapshot_row \<Rightarrow> bool" where
  "is_snapshot t c k s \<longleftrightarrow> s_tenant s = t \<and> s_connection s = c \<and> s_kind s = k"

definition BeginSnapshot :: "source_db \<Rightarrow> string \<Rightarrow> string \<Rightarrow> string \<Rightarrow> int \<Rightarrow> source_error + source_db" where
  "BeginSnapshot db t c k rv =
     (if k \<notin> {''content'', SnapshotGrants, SnapshotMembership} then constraint
      else if list_ex (\<lambda>s. is_snapshot t c k s \<and> s_revision s = rv) (sd_snapshots db) then Inr db
      else if \<not> has_connection db t c then constraint
      else Inr (db\<lparr>sd_snapshots := sd_snapshots db @
             [\<lparr>s_tenant = t, s_connection = c, s_kind = k, s_revision = rv, s_completed = None,
               s_status = Incomplete\<rparr>]\<rparr>))"

definition later_snapshot :: "snapshot_row \<Rightarrow> snapshot_row \<Rightarrow> snapshot_row" where
  "later_snapshot b c = (if s_revision b < s_revision c then c else b)"

definition sql_LatestCompleteRevision ::
    "source_db \<Rightarrow> string \<Rightarrow> string \<Rightarrow> string \<Rightarrow> source_error + int \<times> time" where
  "sql_LatestCompleteRevision db t c k =
     (case filter (\<lambda>s. is_snapshot t c k s \<and> s_status s = CompleteSnapshot) (sd_snapshots db) of
        [] \<Rightarrow> Inl ErrDenied
      | s # ss \<Rightarrow>
          let m = foldl later_snapshot s ss
          in case s_completed m of None \<Rightarrow> Inl (SourceFailure ''scan'') | Some at' \<Rightarrow> Inr (s_revision m, at'))"

definition complete_snapshot ::
    "source_db \<Rightarrow> string \<Rightarrow> string \<Rightarrow> string \<Rightarrow> int \<Rightarrow> time \<Rightarrow> source_db" where
  "complete_snapshot db t c k rv now =
     db\<lparr>sd_snapshots := upd_rows (\<lambda>s. is_snapshot t c k s \<and> s_revision s = rv \<and> s_status s = Incomplete)
          (\<lambda>s. s\<lparr>s_status := CompleteSnapshot, s_completed := Some now\<rparr>) (sd_snapshots db)\<rparr>"

section \<open>Grants\<close>

definition sql_GrantsForObject ::
    "source_db \<Rightarrow> string \<Rightarrow> string \<Rightarrow> int \<Rightarrow> source_error + source_grant list" where
  "sql_GrantsForObject db t i rv =
     Inr (map (\<lambda>g. \<lparr>gr_tenant = t, gr_object = g_object g, gr_subject_kind = g_kind g,
                     gr_subject_id = (case (if g_kind g = GrantSubjectGroup then g_group g else g_identity g) of
                                        None \<Rightarrow> [] | Some s \<Rightarrow> s),
                     gr_effect = g_effect g, gr_revision = g_revision g\<rparr>)
           (filter (\<lambda>g. g_tenant g = t \<and> g_object g = i \<and> g_revision g = rv) (sd_grants db)))"

definition grant_dup_key :: "source_grant \<Rightarrow> string" where
  "grant_dup_key g =
     gr_object g @ ''|'' @ gr_subject_kind g @ ''|'' @ gr_subject_id g @ ''|'' @ gr_effect g"

definition grant_row_of :: "string \<Rightarrow> string \<Rightarrow> int \<Rightarrow> nat \<Rightarrow> source_grant \<Rightarrow> grant_row" where
  "grant_row_of t c rv n g =
     \<lparr>g_tenant = t, g_id = (c, rv, n), g_object = gr_object g, g_kind = gr_subject_kind g,
      g_identity = (if gr_subject_kind g = GrantSubjectGroup then None else Some (gr_subject_id g)),
      g_group = (if gr_subject_kind g = GrantSubjectGroup then Some (gr_subject_id g) else None),
      g_effect = gr_effect g, g_revision = rv\<rparr>"

definition grant_checks :: "source_grant \<Rightarrow> bool" where
  "grant_checks g \<longleftrightarrow>
     gr_subject_kind g \<in> {GrantSubjectUser, GrantSubjectGroup} \<and> gr_effect g \<in> {GrantEffectAllow, GrantEffectDeny}"

definition grant_refs :: "source_db \<Rightarrow> string \<Rightarrow> source_grant \<Rightarrow> bool" where
  "grant_refs db t g \<longleftrightarrow>
     list_ex (\<lambda>x. obj_key x = (t, gr_object g)) (sd_objects db) \<and>
     (if gr_subject_kind g = GrantSubjectGroup
      then list_ex (\<lambda>y. (sg_tenant y, sg_id y) = (t, gr_subject_id g)) (sd_groups db)
      else list_ex (\<lambda>y. (si_tenant y, si_id y) = (t, gr_subject_id g)) (sd_identities db))"

text \<open>The insert loop; an existing row id is skipped (\<open>ON CONFLICT DO NOTHING\<close>).\<close>

fun apply_grants ::
    "string \<Rightarrow> string \<Rightarrow> int \<Rightarrow> string set \<Rightarrow> nat \<Rightarrow> source_db \<Rightarrow> source_grant list \<Rightarrow>
     source_error + source_db" where
  "apply_grants t c rv seen n db [] = Inr db"
| "apply_grants t c rv seen n db (g # gs) =
     (if grant_dup_key g \<in> seen then apply_grants t c rv seen (n + 1) db gs
      else let seen' = insert (grant_dup_key g) seen in
        if \<not> grant_checks g then constraint
        else if list_ex (\<lambda>r. g_tenant r = t \<and> g_id r = (c, rv, n)) (sd_grants db)
        then apply_grants t c rv seen' (n + 1) db gs
        else if \<not> grant_refs db t g then constraint
        else apply_grants t c rv seen' (n + 1)
               (db\<lparr>sd_grants := sd_grants db @ [grant_row_of t c rv n g]\<rparr>) gs)"

definition coalesce :: "string option \<Rightarrow> string" where
  "coalesce x = (case x of None \<Rightarrow> [] | Some s \<Rightarrow> s)"

definition grant_subject :: "grant_row \<Rightarrow> string \<times> string \<times> string \<times> string \<times> string \<times> string" where
  "grant_subject g =
     (g_tenant g, g_object g, g_kind g, coalesce (g_identity g), coalesce (g_group g), g_effect g)"

definition unseen_grant :: "source_db \<Rightarrow> string \<Rightarrow> string \<Rightarrow> int \<Rightarrow> grant_row \<Rightarrow> bool" where
  "unseen_grant db t c rv g \<longleftrightarrow>
     g_tenant g = t \<and> c \<noteq> [] \<and>
     list_ex (\<lambda>x. obj_key x = (g_tenant g, g_object g) \<and> ob_connection x = c) (sd_objects db) \<and>
     g_revision g < rv \<and>
     \<not> list_ex (\<lambda>n. grant_subject n = grant_subject g \<and> g_revision n = rv) (sd_grants db)"

definition ApplyAccessSnapshot ::
    "source_db \<Rightarrow> string \<Rightarrow> string \<Rightarrow> int \<Rightarrow> source_grant list \<Rightarrow> time \<Rightarrow> source_error + source_db" where
  "ApplyAccessSnapshot db t c rv grants now =
     bind_r (apply_grants t c rv {} 0 db grants) (\<lambda>db1.
       let db2 = complete_snapshot db1 t c SnapshotGrants rv now
       in Inr (db2\<lparr>sd_grants := filter (\<lambda>g. \<not> unseen_grant db2 t c rv g) (sd_grants db2)\<rparr>))"

section \<open>Memberships\<close>

definition member_id :: "string \<Rightarrow> string \<Rightarrow> int \<Rightarrow> string" where
  "member_id g m rv = ''ms:'' @ g @ '':'' @ m @ '':'' @ itoa rv"

definition member_refs :: "source_db \<Rightarrow> string \<Rightarrow> string \<Rightarrow> string \<Rightarrow> bool" where
  "member_refs db t g m \<longleftrightarrow>
     list_ex (\<lambda>y. (sg_tenant y, sg_id y) = (t, g)) (sd_groups db) \<and>
     list_ex (\<lambda>y. (si_tenant y, si_id y) = (t, m)) (sd_identities db)"

definition insert_member :: "source_db \<Rightarrow> string \<Rightarrow> string \<Rightarrow> string \<Rightarrow> int \<Rightarrow> source_error + source_db" where
  "insert_member db t g m rv =
     (if list_ex (\<lambda>r. m_tenant r = t \<and> m_id r = member_id g m rv) (sd_members db) then Inr db
      else if \<not> member_refs db t g m then constraint
      else Inr (db\<lparr>sd_members := sd_members db @
             [\<lparr>m_tenant = t, m_id = member_id g m rv, m_group = g, m_identity = m, m_revision = rv\<rparr>]\<rparr>))"

definition InsertSourceMembership :: "source_db \<Rightarrow> membership \<Rightarrow> source_error + source_db" where
  "InsertSourceMembership db m = insert_member db (sm_tenant m) (sm_group m) (sm_member m) (sm_revision m)"

fun apply_members ::
    "string \<Rightarrow> int \<Rightarrow> (string \<times> string) set \<Rightarrow> source_db \<Rightarrow> membership list \<Rightarrow> source_error + source_db" where
  "apply_members t rv seen db [] = Inr db"
| "apply_members t rv seen db (m # ms) =
     (if (sm_group m, sm_member m) \<in> seen then apply_members t rv seen db ms
      else bind_r (insert_member db t (sm_group m) (sm_member m) rv)
             (\<lambda>db'. apply_members t rv (insert (sm_group m, sm_member m) seen) db' ms))"

definition unseen_member :: "source_db \<Rightarrow> string \<Rightarrow> string \<Rightarrow> int \<Rightarrow> member_row \<Rightarrow> bool" where
  "unseen_member db t c rv m \<longleftrightarrow>
     m_tenant m = t \<and>
     list_ex (\<lambda>g. sg_tenant g = m_tenant m \<and> sg_id g = m_group m \<and> sg_connection g = c) (sd_groups db) \<and>
     m_revision m < rv \<and>
     \<not> list_ex (\<lambda>n. m_tenant n = m_tenant m \<and> m_group n = m_group m \<and> m_identity n = m_identity m \<and>
                    m_revision n = rv) (sd_members db)"

definition ApplyMembershipSnapshot ::
    "source_db \<Rightarrow> string \<Rightarrow> string \<Rightarrow> int \<Rightarrow> membership list \<Rightarrow> time \<Rightarrow> source_error + source_db" where
  "ApplyMembershipSnapshot db t c rv ms now =
     bind_r (apply_members t rv {} db ms) (\<lambda>db1.
       let db2 = complete_snapshot db1 t c SnapshotMembership rv now
       in Inr (db2\<lparr>sd_members := filter (\<lambda>m. \<not> unseen_member db2 t c rv m) (sd_members db2)\<rparr>))"

definition sql_GroupIDsForIdentity ::
    "source_db \<Rightarrow> string \<Rightarrow> string \<Rightarrow> string \<Rightarrow> source_error + string list" where
  "sql_GroupIDsForIdentity db t c i =
     bind_r (sql_LatestCompleteRevision db t c SnapshotMembership) (\<lambda>(rv, _).
       Inr (map m_group (filter (\<lambda>m. m_tenant m = t \<and> m_identity m = i \<and> m_revision m = rv) (sd_members db))))"

section \<open>Restrictions\<close>

text \<open>The row id \<open>rs:kind:id\<close> determines the kind (one of four words) and the id.\<close>

definition restriction_key :: "source_restriction \<Rightarrow> string \<times> string \<times> string" where
  "restriction_key r = (sr_tenant r, sr_subject_kind r, sr_subject_id r)"

definition SetRestriction ::
    "(string \<Rightarrow> bool) \<Rightarrow> source_db \<Rightarrow> source_restriction \<Rightarrow> source_error + source_db" where
  "SetRestriction tenant_ok db r =
     (if \<not> tenant_ok (sr_tenant r) \<or>
         sr_subject_kind r \<notin> {RestrictionTenant, RestrictionConnection, RestrictionObject, RestrictionArtifact}
      then constraint
      else if list_ex (\<lambda>q. restriction_key q = restriction_key r) (sd_restrictions db)
      then Inr (db\<lparr>sd_restrictions := upd_rows (\<lambda>q. restriction_key q = restriction_key r) (\<lambda>_. r)
                                        (sd_restrictions db)\<rparr>)
      else Inr (db\<lparr>sd_restrictions := sd_restrictions db @ [r]\<rparr>))"

definition sql_RestrictionsForSubject ::
    "source_db \<Rightarrow> string \<Rightarrow> string \<Rightarrow> string \<Rightarrow> source_error + source_restriction list" where
  "sql_RestrictionsForSubject db t k i =
     Inr (filter (\<lambda>r. restriction_key r = (t, k, i)) (sd_restrictions db))"

section \<open>The read interface on this store\<close>

definition sql_reads :: "source_db \<Rightarrow> source_reads" where
  "sql_reads db =
     \<lparr>GetConnection = sql_GetConnection db, GetObject = sql_GetObject db,
      GetObjectVersion = sql_GetObjectVersion db, LatestObjectVersion = sql_LatestObjectVersion db,
      SourceIdentityForUser = sql_SourceIdentityForUser db,
      GroupIDsForIdentity = sql_GroupIDsForIdentity db, GrantsForObject = sql_GrantsForObject db,
      LatestCompleteRevision = sql_LatestCompleteRevision db,
      RestrictionsForSubject = sql_RestrictionsForSubject db\<rparr>"

end
