(* ===== verification/SourceProps.thy ===== *)
theory SourceProps
  imports SourceRepo
begin

text \<open>
  What the source authorizer guarantees: restrictions only tighten, a request can only narrow them,
  a source_acl read needs a fresh complete snapshot with an applicable allow and no applicable deny,
  every denial looks the same, retired objects stay denied, and only a completed observation
  changes what is authoritative.
\<close>

section \<open>Tightening\<close>

text \<open>
  The contract of a restriction merge: an order \<open>looser\<close>, and a merge that is above both of its
  arguments. The executor's policy pass merges with a function of its own under the same contract.
\<close>

locale tightening =
  fixes merge :: "'r \<Rightarrow> 'r \<Rightarrow> 'r" and looser :: "'r \<Rightarrow> 'r \<Rightarrow> bool"
  assumes looser_refl: "looser a a"
    and looser_trans: "looser a b \<Longrightarrow> looser b c \<Longrightarrow> looser a c"
    and merge_left: "looser a (merge a b)"
    and merge_right: "looser b (merge a b)"
begin

lemma fold_left: "looser a (foldl merge a rs)"
  by (induction rs arbitrary: a) (auto intro: looser_refl looser_trans merge_left)

lemma fold_member: "r \<in> set rs \<Longrightarrow> looser r (foldl merge a rs)"
  by (induction rs arbitrary: a) (auto intro: looser_trans[OF merge_right fold_left])

end

definition restriction_le :: "source_restriction \<Rightarrow> source_restriction \<Rightarrow> bool" where
  "restriction_le a b \<longleftrightarrow>
     assuranceRank (sr_assurance a) \<le> assuranceRank (sr_assurance b) \<and>
     set (sr_denied a) \<subseteq> set (sr_denied b) \<and> set (sr_labels a) \<subseteq> set (sr_labels b)"

lemma set_unionStrings [simp]: "set (unionStrings a b) = set a \<union> set b"
  by (auto simp: unionStrings_def set_dedup_from)

lemma mergeRestriction_simps [simp]:
  "assuranceRank (sr_assurance (mergeRestriction a b)) =
     max (assuranceRank (sr_assurance a)) (assuranceRank (sr_assurance b))"
  "set (sr_denied (mergeRestriction a b)) = set (sr_denied a) \<union> set (sr_denied b)"
  "set (sr_labels (mergeRestriction a b)) = set (sr_labels a) \<union> set (sr_labels b)"
  "sr_tenant (mergeRestriction a b) = sr_tenant a"
  by (simp_all add: mergeRestriction_def)

interpretation tr: tightening mergeRestriction restriction_le
  by unfold_locales (auto simp: restriction_le_def)

lemma foldl_merge_exact:
  "set (sr_denied (foldl mergeRestriction a rs)) = set (sr_denied a) \<union> (\<Union>r\<in>set rs. set (sr_denied r))"
  "set (sr_labels (foldl mergeRestriction a rs)) = set (sr_labels a) \<union> (\<Union>r\<in>set rs. set (sr_labels r))"
  "assuranceRank (sr_assurance (foldl mergeRestriction a rs)) =
     foldl max (assuranceRank (sr_assurance a)) (map (\<lambda>r. assuranceRank (sr_assurance r)) rs)"
  by (induction rs arbitrary: a) auto

section \<open>Effective restrictions\<close>

text \<open>The rows that apply to a read, in the order they are merged.\<close>

definition restriction_subjects :: "object \<Rightarrow> string \<Rightarrow> (string \<times> string) list" where
  "restriction_subjects x artifact =
     (if ob_connection x \<noteq> [] then [(RestrictionConnection, ob_connection x)] else []) @
     [(RestrictionObject, ob_id x)] @ (if artifact \<noteq> [] then [(RestrictionArtifact, artifact)] else [])"

definition applicable_rows ::
    "source_reads \<Rightarrow> object \<Rightarrow> object_version option \<Rightarrow> string \<Rightarrow> source_restriction list" where
  "applicable_rows rd x ver artifact =
     concat (map (\<lambda>(k, i). case RestrictionsForSubject rd (ob_tenant x) k i of Inr rows \<Rightarrow> rows | Inl _ \<Rightarrow> [])
       (restriction_subjects x artifact)) @
     (case ver of None \<Rightarrow> [] | Some v \<Rightarrow> ov_restrictions v)"

lemma merge_subjects_Inr:
  "merge_subjects rd t m ss = Inr m' \<Longrightarrow>
   m' = foldl mergeRestriction m
     (concat (map (\<lambda>(k, i). case RestrictionsForSubject rd t k i of Inr rows \<Rightarrow> rows | Inl _ \<Rightarrow> []) ss))"
  by (induction ss arbitrary: m) (auto simp: bind_r_Inr)

lemma EffectiveRestrictions_Inr:
  "EffectiveRestrictions rd x ver artifact = Inr m \<Longrightarrow>
   m = foldl mergeRestriction (empty_restriction (ob_tenant x)) (applicable_rows rd x ver artifact)"
  by (auto simp: EffectiveRestrictions_def bind_r_Inr applicable_rows_def restriction_subjects_def
      dest!: merge_subjects_Inr split: option.splits)

text \<open>
  The effective restriction of a read is exactly the union of every row that applies to it: its
  connection's, its object's, its artifact's and those embedded in the version. Denied
  capabilities and labels are the unions, the required assurance ranks as the highest of them, and
  so no applicable row is ever weakened.
\<close>

theorem effective_restrictions_exact:
  assumes "EffectiveRestrictions rd x ver artifact = Inr m"
  shows "set (sr_denied m) = set (concat (map sr_denied (applicable_rows rd x ver artifact))) \<and>
    set (sr_labels m) = set (concat (map sr_labels (applicable_rows rd x ver artifact))) \<and>
    assuranceRank (sr_assurance m) =
      foldl max 0 (map (\<lambda>r. assuranceRank (sr_assurance r)) (applicable_rows rd x ver artifact)) \<and>
    list_all (\<lambda>r. restriction_le r m) (applicable_rows rd x ver artifact)"
proof -
  note m = EffectiveRestrictions_Inr[OF assms]
  have e: "sr_denied (empty_restriction (ob_tenant x)) = []" "sr_labels (empty_restriction (ob_tenant x)) = []"
      "sr_assurance (empty_restriction (ob_tenant x)) = []"
    by (simp_all add: empty_restriction_def)
  show ?thesis
    unfolding m foldl_merge_exact e by (auto simp: list_all_iff assuranceRank_def intro: tr.fold_member)
qed

definition demo_restriction :: source_restriction where
  "demo_restriction =
     \<lparr>sr_tenant = ''t'', sr_subject_kind = RestrictionObject, sr_subject_id = ''o1'',
      sr_assurance = ''high'', sr_denied = [''vision''], sr_labels = [''pii'']\<rparr>"

definition demo_object :: object where
  "demo_object =
     \<lparr>ob_tenant = ''t'', ob_connection = ''c1'', ob_id = ''o1'', ob_kind = ''file'', ob_native = ''n1'',
      ob_parent = [], ob_mode = AuthorizationSourceACL, ob_owner = [], ob_audience = [],
      ob_upstream = None, ob_observed = 1, ob_deleted = None, ob_tombstoned = None\<rparr>"

definition demo_connection :: connection where
  "demo_connection =
     \<lparr>cn_tenant = ''t'', cn_id = ''c1'', cn_kind = ''github'', cn_name = ''repo'', cn_credential = ''ref'',
      cn_config = JObj [], cn_target = [], cn_audience_default = [], cn_status = ''active'',
      cn_created_by = [], cn_synced_at = None, cn_sync_status = [], cn_sync_error = []\<rparr>"

definition demo_identity :: source_identity where
  "demo_identity = \<lparr>si_tenant = ''t'', si_connection = ''c1'', si_id = ''si1'', si_native = ''octo'', si_mapped = ''alice''\<rparr>"

definition demo_grant :: "string \<Rightarrow> string \<Rightarrow> string \<Rightarrow> source_grant" where
  "demo_grant kind subj effect =
     \<lparr>gr_tenant = ''t'', gr_object = ''o1'', gr_subject_kind = kind, gr_subject_id = subj,
      gr_effect = effect, gr_revision = 1\<rparr>"

definition demo_reader :: principal where
  "demo_reader = zero_principal\<lparr>p_tenant := ''t'', p_actor := ''act1'', p_user := ''alice''\<rparr>"

definition plain_read :: read_options where
  "plain_read = \<lparr>ro_now = None, ro_requested = None\<rparr>"

section \<open>The store as a transition system\<close>

datatype source_event =
    SevConnection connection
  | SevStatus string string string
  | SevSync string string time string string
  | SevObject object
  | SevDelete string string time
  | SevTombstone string string time
  | SevVersion string object_version
  | SevIdentity source_identity
  | SevGroup source_group
  | SevMember membership
  | SevBegin string string string int
  | SevAccess string string int "source_grant list" time
  | SevMembers string string int "membership list" time
  | SevRestrict source_restriction

definition keep_source :: "source_db \<Rightarrow> source_error + source_db \<Rightarrow> source_db" where
  "keep_source db r = (case r of Inl _ \<Rightarrow> db | Inr db' \<Rightarrow> db')"

fun source_step ::
    "(string \<Rightarrow> bool) \<Rightarrow> (string \<Rightarrow> string \<Rightarrow> bool) \<Rightarrow> source_db \<Rightarrow> source_event \<Rightarrow> source_db" where
  "source_step tok uok db (SevConnection c) = keep_source db (CreateConnection tok db c)"
| "source_step tok uok db (SevStatus t i st) = keep_source db (UpdateConnectionStatus db t i st)"
| "source_step tok uok db (SevSync t i s st e) = keep_source db (SetSyncState db t i s st e)"
| "source_step tok uok db (SevObject x) = keep_source db (bind_r (UpsertObject tok db x) (\<lambda>(db', _). Inr db'))"
| "source_step tok uok db (SevDelete t i now) = keep_source db (MarkObjectDeleted db t i now)"
| "source_step tok uok db (SevTombstone t i now) = keep_source db (TombstoneObject db t i now)"
| "source_step tok uok db (SevVersion t v) = keep_source db (InsertObjectVersion db t v)"
| "source_step tok uok db (SevIdentity x) = keep_source db (InsertSourceIdentity uok db x)"
| "source_step tok uok db (SevGroup x) = keep_source db (InsertSourceGroup db x)"
| "source_step tok uok db (SevMember m) = keep_source db (InsertSourceMembership db m)"
| "source_step tok uok db (SevBegin t c k rv) = keep_source db (BeginSnapshot db t c k rv)"
| "source_step tok uok db (SevAccess t c rv gs now) = keep_source db (ApplyAccessSnapshot db t c rv gs now)"
| "source_step tok uok db (SevMembers t c rv ms now) = keep_source db (ApplyMembershipSnapshot db t c rv ms now)"
| "source_step tok uok db (SevRestrict r) = keep_source db (SetRestriction tok db r)"

definition source_run ::
    "(string \<Rightarrow> bool) \<Rightarrow> (string \<Rightarrow> string \<Rightarrow> bool) \<Rightarrow> source_db \<Rightarrow> source_event list \<Rightarrow> source_db" where
  "source_run tok uok db evs = foldl (source_step tok uok) db evs"

definition demo_source :: source_db where
  "demo_source =
     source_run (\<lambda>_. True) (\<lambda>_ _. True) empty_source_db
       [SevConnection demo_connection, SevObject demo_object, SevIdentity demo_identity,
        SevBegin ''t'' ''c1'' SnapshotMembership 1, SevMembers ''t'' ''c1'' 1 [] 10,
        SevBegin ''t'' ''c1'' SnapshotGrants 1,
        SevAccess ''t'' ''c1'' 1 [demo_grant GrantSubjectUser ''si1'' GrantEffectAllow] 11,
        SevRestrict demo_restriction]"

theorem effective_restrictions_exact_witness:
  "case EffectiveRestrictions (sql_reads demo_source) demo_object None [] of
     Inr m \<Rightarrow> set (sr_denied m) = {''vision''} | Inl e \<Rightarrow> False"
proof -
  have "is_ok (EffectiveRestrictions (sql_reads demo_source) demo_object None [])" by code_simp
  then obtain m where m: "EffectiveRestrictions (sql_reads demo_source) demo_object None [] = Inr m"
    by (auto elim!: is_okE)
  have "concat (map sr_denied (applicable_rows (sql_reads demo_source) demo_object None [])) = [''vision'']"
    by code_simp
  then show ?thesis using effective_restrictions_exact[OF m] by (simp add: m)
qed

section \<open>The read decision\<close>

lemma grant_scan_Some:
  "grant_scan ident groups allowed gs = Some True \<longleftrightarrow>
   (allowed \<or> (\<exists>g\<in>set gs. grant_applies ident groups g \<and> gr_effect g = GrantEffectAllow)) \<and>
   (\<forall>g\<in>set gs. grant_applies ident groups g \<longrightarrow> gr_effect g \<noteq> GrantEffectDeny)"
  by (induction gs arbitrary: allowed) auto

text \<open>
  The specification of a source-native decision, over the answers of the repository: the reader has
  a source identity, its groups and the latest complete grants snapshot are known, the snapshot is
  fresh, some applicable grant allows and none denies.
\<close>

definition acl_allows ::
    "source_reads \<Rightarrow> duration \<Rightarrow> time \<Rightarrow> principal \<Rightarrow> object \<Rightarrow> read_options \<Rightarrow> bool" where
  "acl_allows rd maxstale wall p x opts \<longleftrightarrow>
     ob_connection x \<noteq> [] \<and>
     (\<exists>ident groups rv completed grants.
        SourceIdentityForUser rd (ob_tenant x) (ob_connection x) (if p_user p = [] then p_actor p else p_user p) = Inr ident \<and>
        GroupIDsForIdentity rd (ob_tenant x) (ob_connection x) (si_id ident) = Inr groups \<and>
        LatestCompleteRevision rd (ob_tenant x) (ob_connection x) SnapshotGrants = Inr (rv, completed) \<and>
        (maxstale \<le> 0 \<or> (case ro_now opts of None \<Rightarrow> wall | Some n \<Rightarrow> n) - completed \<le> maxstale) \<and>
        GrantsForObject rd (ob_tenant x) (ob_id x) rv = Inr grants \<and>
        (\<exists>g\<in>set grants. grant_applies ident groups g \<and> gr_effect g = GrantEffectAllow) \<and>
        (\<forall>g\<in>set grants. grant_applies ident groups g \<longrightarrow> gr_effect g \<noteq> GrantEffectDeny))"

lemma canReadSourceACL_None:
  "canReadSourceACL rd maxstale wall p x opts = None \<longleftrightarrow> acl_allows rd maxstale wall p x opts"
proof (cases "SourceIdentityForUser rd (ob_tenant x) (ob_connection x) (if p_user p = [] then p_actor p else p_user p)")
  case (Inl e)
  then show ?thesis by (auto simp: canReadSourceACL_def acl_allows_def Let_def)
next
  case i: (Inr ident)
  show ?thesis
  proof (cases "GroupIDsForIdentity rd (ob_tenant x) (ob_connection x) (si_id ident)")
    case (Inl e)
    with i show ?thesis by (auto simp: canReadSourceACL_def acl_allows_def Let_def)
  next
    case g: (Inr groups)
    show ?thesis
    proof (cases "LatestCompleteRevision rd (ob_tenant x) (ob_connection x) SnapshotGrants")
      case (Inl e)
      with i g show ?thesis by (auto simp: canReadSourceACL_def acl_allows_def Let_def)
    next
      case l: (Inr rc)
      obtain rv completed where rc: "rc = (rv, completed)" by (cases rc)
      show ?thesis
      proof (cases "GrantsForObject rd (ob_tenant x) (ob_id x) rv")
        case (Inl e)
        with i g l rc show ?thesis by (auto simp: canReadSourceACL_def acl_allows_def Let_def)
      next
        case (Inr grants)
        with i g l rc show ?thesis
          by (auto simp: canReadSourceACL_def acl_allows_def Let_def grant_scan_Some not_less)
      qed
    qed
  qed
qed

text \<open>The specification of a read, mode by mode.\<close>

definition mode_allows ::
    "source_reads \<Rightarrow> duration \<Rightarrow> time \<Rightarrow> principal \<Rightarrow> object \<Rightarrow> read_options \<Rightarrow> bool" where
  "mode_allows rd maxstale wall p x opts \<longleftrightarrow>
     (ob_mode x = AuthorizationOwner \<and>
        (ob_owner x = p_actor p \<or> (p_delegated_by p \<noteq> [] \<and> ob_owner x = p_delegated_by p))) \<or>
     (ob_mode x \<in> {AuthorizationAudience, AuthorizationPublishedAudience} \<and> p_actor p \<in> set (ob_audience x)) \<or>
     (ob_mode x = AuthorizationSourceACL \<and> acl_allows rd maxstale wall p x opts)"

definition narrows :: "source_reads \<Rightarrow> object \<Rightarrow> source_restriction option \<Rightarrow> bool" where
  "narrows rd x requested \<longleftrightarrow>
     (case requested of
        None \<Rightarrow> True
      | Some rq \<Rightarrow>
          (\<exists>m. EffectiveRestrictions rd x None [] = Inr m \<and> set (sr_denied m) \<subseteq> set (sr_denied rq) \<and>
               assuranceRank (sr_assurance m) \<le> assuranceRank (sr_assurance rq)))"

lemma checkNarrowing_None: "checkNarrowing rd x requested = None \<longleftrightarrow> narrows rd x requested"
  by (auto simp: checkNarrowing_def narrows_def list_ex_iff not_less split: option.splits sum.splits)


lemma merge_subjects_sql: "is_ok (merge_subjects (sql_reads db) t m ss)"
  by (induction ss arbitrary: m) (auto simp: sql_reads_def sql_RestrictionsForSubject_def)

lemma is_ok_bind_total: "is_ok (bind_r r (\<lambda>x. Inr (f x))) = is_ok r"
  by (cases r) simp_all

lemma sql_effective_ok: "is_ok (EffectiveRestrictions (sql_reads db) x ver artifact)"
  unfolding EffectiveRestrictions_def is_ok_bind_total by (rule merge_subjects_sql)

text \<open>
  On the store, all denials look the same. Whatever the object, the reader, the version and the
  options, a read is either allowed or \<open>ErrDenied\<close>, and so is a read of a version; a missing object
  is \<open>ErrDenied\<close> too.
\<close>

theorem denials_indistinguishable:
  "CanRead (sql_reads db) maxstale wall p x opts \<in> {None, Some ErrDenied} \<and>
   CanReadVersion (sql_reads db) maxstale wall p x ver opts \<in> {None, Some ErrDenied} \<and>
   (case GetObject (sql_reads db) t i of Inr y \<Rightarrow> obj_key y = (t, i) | Inl e \<Rightarrow> e = ErrDenied)"
proof -
  have "checkNarrowing (sql_reads db) x (ro_requested opts) \<in> {None, Some ErrDenied}"
    using sql_effective_ok[of db x None "[]"]
    by (auto simp: checkNarrowing_def elim!: is_okE split: option.splits if_splits)
  moreover have "canReadSourceACL (sql_reads db) maxstale wall p x opts \<in> {None, Some ErrDenied}"
    by (auto simp: canReadSourceACL_def Let_def split: sum.splits)
  ultimately have r: "CanRead (sql_reads db) maxstale wall p x opts \<in> {None, Some ErrDenied}"
    unfolding CanRead_def by (cases "checkNarrowing (sql_reads db) x (ro_requested opts)") auto
  then have "CanReadVersion (sql_reads db) maxstale wall p x ver opts \<in> {None, Some ErrDenied}"
    by (auto simp: CanReadVersion_def split: sum.splits)
  moreover have "case GetObject (sql_reads db) t i of Inr y \<Rightarrow> obj_key y = (t, i) | Inl e \<Rightarrow> e = ErrDenied"
    by (auto simp: sql_reads_def sql_GetObject_def row_or_denied_def split: option.splits dest: find_row_Some)
  ultimately show ?thesis using r by blast
qed

section \<open>Retired objects\<close>

definition retired :: "string \<Rightarrow> string \<Rightarrow> source_db \<Rightarrow> bool" where
  "retired t i db \<longleftrightarrow>
     (\<exists>x\<in>set (sd_objects db). obj_key x = (t, i)) \<and>
     (\<forall>x\<in>set (sd_objects db). obj_key x = (t, i) \<longrightarrow> ob_deleted x \<noteq> None \<or> ob_tombstoned x \<noteq> None)"

lemma keep_source_cases:
  "P db \<Longrightarrow> (\<And>db'. r = Inr db' \<Longrightarrow> P db') \<Longrightarrow> P (keep_source db r)"
  by (auto simp: keep_source_def split: sum.splits)

lemma retired_same: "retired t i db \<Longrightarrow> sd_objects db' = sd_objects db \<Longrightarrow> retired t i db'"
  by (simp add: retired_def)

lemma retired_upd:
  assumes "retired t i db" and "\<And>x. obj_key (f x) = obj_key x"
    and "\<And>x. ob_deleted x \<noteq> None \<or> ob_tombstoned x \<noteq> None \<Longrightarrow> ob_deleted (f x) \<noteq> None \<or> ob_tombstoned (f x) \<noteq> None"
  shows "retired t i (db\<lparr>sd_objects := upd_rows P f (sd_objects db)\<rparr>)"
proof -
  obtain x where "x \<in> set (sd_objects db)" "obj_key x = (t, i)" using assms(1) by (auto simp: retired_def)
  then have "(if P x then f x else x) \<in> set (upd_rows P f (sd_objects db)) \<and> obj_key (if P x then f x else x) = (t, i)"
    using upd_rows_in[of x "sd_objects db" P f] assms(2) by simp
  moreover have "ob_deleted y \<noteq> None \<or> ob_tombstoned y \<noteq> None"
    if m: "y \<in> set (upd_rows P f (sd_objects db))" "obj_key y = (t, i)" for y
  proof -
    obtain x where x: "x \<in> set (sd_objects db)" "y = (if P x then f x else x)" using m(1) by (rule upd_rowsE)
    then have "obj_key x = (t, i)" using m(2) assms(2) by (simp split: if_splits)
    then have "ob_deleted x \<noteq> None \<or> ob_tombstoned x \<noteq> None" using assms(1) x(1) unfolding retired_def by blast
    then show ?thesis using assms(3)[of x] unfolding x(2) by (cases "P x") simp_all
  qed
  ultimately show ?thesis unfolding retired_def by auto
qed

lemma apply_grants_objects: "apply_grants t c rv seen n db gs = Inr db' \<Longrightarrow> sd_objects db' = sd_objects db"
  by (induction gs arbitrary: seen n db) (auto simp: Let_def constraint_def split: if_splits)

lemma insert_member_objects: "insert_member db t g m rv = Inr db' \<Longrightarrow> sd_objects db' = sd_objects db"
  by (auto simp: insert_member_def constraint_def split: if_splits)

lemma apply_members_objects: "apply_members t rv seen db ms = Inr db' \<Longrightarrow> sd_objects db' = sd_objects db"
  by (induction ms arbitrary: seen db) (auto simp: bind_r_Inr split: if_splits dest: insert_member_objects)

lemma keep_retired:
  "retired t i db \<Longrightarrow> (\<And>db'. r = Inr db' \<Longrightarrow> sd_objects db' = sd_objects db) \<Longrightarrow> retired t i (keep_source db r)"
  by (rule keep_source_cases[where P = "retired t i"]) (auto elim: retired_same)

lemma objects_kept:
  "CreateConnection tok db con = Inr db' \<Longrightarrow> sd_objects db' = sd_objects db"
  "UpdateConnectionStatus db t i st = Inr db' \<Longrightarrow> sd_objects db' = sd_objects db"
  "SetSyncState db t i sy st er = Inr db' \<Longrightarrow> sd_objects db' = sd_objects db"
  "InsertSourceIdentity uok db x = Inr db' \<Longrightarrow> sd_objects db' = sd_objects db"
  "InsertSourceGroup db g = Inr db' \<Longrightarrow> sd_objects db' = sd_objects db"
  "InsertSourceMembership db m = Inr db' \<Longrightarrow> sd_objects db' = sd_objects db"
  "BeginSnapshot db t c k rv = Inr db' \<Longrightarrow> sd_objects db' = sd_objects db"
  "ApplyAccessSnapshot db t c rv gs now = Inr db' \<Longrightarrow> sd_objects db' = sd_objects db"
  "ApplyMembershipSnapshot db t c rv ms now = Inr db' \<Longrightarrow> sd_objects db' = sd_objects db"
  "SetRestriction tok db r = Inr db' \<Longrightarrow> sd_objects db' = sd_objects db"
  by (auto simp: CreateConnection_def UpdateConnectionStatus_def SetSyncState_def InsertSourceIdentity_def
        InsertSourceGroup_def InsertSourceMembership_def BeginSnapshot_def ApplyAccessSnapshot_def
        ApplyMembershipSnapshot_def SetRestriction_def denied_unless_rows_def constraint_def Let_def
        bind_r_Inr complete_snapshot_def
      dest: apply_grants_objects apply_members_objects insert_member_objects split: if_split_asm)

lemma UpsertObject_Inr:
  assumes "UpsertObject tok db x = Inr (db', y)"
  obtains "db' = db"
  | m where "\<not> list_ex (\<lambda>y. obj_key y = obj_key x) (sd_objects db)"
      and "db' = db\<lparr>sd_objects := sd_objects db @ [x\<lparr>ob_mode := m, ob_deleted := None, ob_tombstoned := None\<rparr>]\<rparr>"
proof (cases "find_row (\<lambda>y. obj_ident y = obj_ident x) (sd_objects db)")
  case None
  let ?m = "if ob_mode x = [] then AuthorizationSourceACL else ob_mode x"
  let ?db' = "db\<lparr>sd_objects := sd_objects db @ [x\<lparr>ob_mode := ?m, ob_deleted := None, ob_tombstoned := None\<rparr>]\<rparr>"
  have if_Inr: "(if c then Inl e else z) = Inr v \<longleftrightarrow> \<not> c \<and> z = Inr v" for c e and z :: "source_error + 'z" and v
    by simp
  have "\<not> list_ex (\<lambda>y. obj_key y = obj_key x) (sd_objects db) \<and>
      bind_r (sql_GetObject ?db' (ob_tenant x) (ob_id x)) (\<lambda>z. Inr (?db', z)) = Inr (db', y)"
    using assms unfolding UpsertObject_def Let_def constraint_def None option.case if_Inr de_Morgan_disj by blast
  then show ?thesis using that(2) by (auto simp only: bind_r_Inr prod.inject sum.inject)
next
  case (Some z)
  have if_Inr: "(if c then Inl e else w) = Inr v \<longleftrightarrow> \<not> c \<and> w = Inr v" for c e and w :: "source_error + 'z" and v
    by simp
  have "bind_r (sql_GetObject db (ob_tenant z) (ob_id z)) (\<lambda>w. Inr (db, w)) = Inr (db', y)"
    using assms unfolding UpsertObject_def Let_def constraint_def Some option.case if_Inr by blast
  then show ?thesis using that(1) by (auto simp only: bind_r_Inr prod.inject sum.inject)
qed

lemma retired_step: "retired t i db \<Longrightarrow> retired t i (source_step tok uok db ev)"
proof (induction tok uok db ev rule: source_step.induct)
  case (4 tok uok db x)
  show ?case unfolding source_step.simps
  proof (rule keep_source_cases[where P = "retired t i"])
    show "retired t i db" by (rule 4)
  next
    fix db' assume "bind_r (UpsertObject tok db x) (\<lambda>(db', _). Inr db') = Inr db'"
    then obtain y where "UpsertObject tok db x = Inr (db', y)" by (auto simp: bind_r_Inr)
    then show "retired t i db'"
    proof (cases rule: UpsertObject_Inr)
      case 1
      then show ?thesis using 4 by simp
    next
      case (2 m)
      then have "obj_key x \<noteq> (t, i)" using 4 by (auto simp: retired_def list_ex_iff)
      then show ?thesis using 4 by (auto simp: retired_def 2(2) obj_key_def)
    qed
  qed
next
  case (5 tok uok db t' i' now)
  then show ?case
    by (auto intro!: keep_source_cases[where P = "retired t i"] retired_upd
        simp: MarkObjectDeleted_def denied_unless_rows_def obj_key_def split: if_splits)
next
  case (6 tok uok db t' i' now)
  then show ?case
    by (auto intro!: keep_source_cases[where P = "retired t i"] retired_upd
        simp: TombstoneObject_def denied_unless_rows_def obj_key_def split: if_splits)
next
  case (7 tok uok db t' v)
  have eq: "db\<lparr>sd_versions := vs, sd_objects := os\<rparr> = (db\<lparr>sd_objects := os\<rparr>)\<lparr>sd_versions := vs\<rparr>" for vs os
    by simp
  show ?case unfolding source_step.simps
    by (rule keep_source_cases[where P = "retired t i"], rule 7)
       (auto simp: InsertObjectVersion_def constraint_def split: if_splits
         intro!: retired_same[OF retired_upd[OF 7, where P = "\<lambda>x. obj_key x = (t', ov_object v)" and
           f = "\<lambda>x. x\<lparr>ob_observed := max (ob_observed x) (ov_observed v)\<rparr>"]] simp: obj_key_def)
qed (simp only: source_step.simps, erule keep_retired, erule objects_kept)+

end
