(* ===== verification/SourceSnap.thy ===== *)
theory SourceSnap
  imports SourceProps
begin

text \<open>
  The source store over time: retired objects stay denied, an unfinished observation changes no
  decision, a finished one replaces the authoritative grants.
\<close>

section \<open>Retired objects stay denied\<close>

interpretation sr: transition_system "source_step tok uok" "retired t i" for tok uok t i
  by unfold_locales (rule retired_step)

lemma source_run_sr: "source_run tok uok = sr.run tok uok"
  by (intro ext) (simp add: source_run_def sr.run_def)

lemma retired_denied:
  assumes "retired t i db"
  shows "case GetObject (sql_reads db) t i of
      Inr x \<Rightarrow> CanRead rd maxstale wall p x opts = Some ErrDenied | Inl e \<Rightarrow> False"
proof -
  obtain x where "x \<in> set (sd_objects db)" "obj_key x = (t, i)" using assms by (auto simp: retired_def)
  then obtain y where y: "find_row (\<lambda>x. obj_key x = (t, i)) (sd_objects db) = Some y"
    by (cases "find_row (\<lambda>x. obj_key x = (t, i)) (sd_objects db)") (auto simp: find_row_def find_None_iff)
  then have "y \<in> set (sd_objects db)" "obj_key y = (t, i)" by (auto dest: find_row_Some)
  then have "ob_deleted y \<noteq> None \<or> ob_tombstoned y \<noteq> None" using assms unfolding retired_def by blast
  then show ?thesis by (simp add: sql_reads_def sql_GetObject_def row_or_denied_def y CanRead_def)
qed

lemma retire_retires:
  assumes "\<And>x. ob_deleted (f x) \<noteq> None" and "\<And>x. obj_key (f x) = obj_key x"
    and "denied_unless_rows (\<lambda>x. obj_key x = (t, i)) f (sd_objects db) (\<lambda>xs. db\<lparr>sd_objects := xs\<rparr>) = Inr db'"
  shows "retired t i db'"
proof -
  have db': "db' = db\<lparr>sd_objects := upd_rows (\<lambda>x. obj_key x = (t, i)) f (sd_objects db)\<rparr>"
      and "count_rows (\<lambda>x. obj_key x = (t, i)) (sd_objects db) \<noteq> 0"
    using assms(3) by (simp_all add: denied_unless_rows_def split: if_split_asm)
  then obtain x where "x \<in> set (sd_objects db)" "obj_key x = (t, i)"
    by (auto simp: count_rows_def filter_empty_conv)
  then have "f x \<in> set (sd_objects db') \<and> obj_key (f x) = (t, i)"
    using upd_rows_in[of x "sd_objects db" "\<lambda>x. obj_key x = (t, i)" f] assms(2) by (simp add: db')
  moreover have "ob_deleted y \<noteq> None" if y: "y \<in> set (sd_objects db')" "obj_key y = (t, i)" for y
  proof -
    have "y \<in> set (upd_rows (\<lambda>x. obj_key x = (t, i)) f (sd_objects db))" using y(1) by (simp add: db')
    then obtain z where z: "y = (if obj_key z = (t, i) then f z else z)" by (rule upd_rowsE)
    then have "obj_key z = (t, i)" using y(2) assms(2) by (simp split: if_split_asm)
    then show ?thesis using z assms(1) by simp
  qed
  ultimately show ?thesis unfolding retired_def by blast
qed

text \<open>
  Retirement is final. Once an object is deleted or tombstoned, no later sequence of store
  operations (re-upserting it, new grants, new versions, restored connections) makes it readable
  again: every read of it, by anyone, under any options and at any time, is denied.
\<close>

theorem retired_object_stays_denied:
  assumes "TombstoneObject db t i now = Inr db' \<or> MarkObjectDeleted db t i now = Inr db'"
  shows "case GetObject (sql_reads (source_run tok uok db' evs)) t i of
      Inr x \<Rightarrow> CanRead (sql_reads (source_run tok uok db' evs)) maxstale wall p x opts = Some ErrDenied
    | Inl e \<Rightarrow> False"
proof -
  have "retired t i db'"
    using assms
  proof
    assume "TombstoneObject db t i now = Inr db'"
    then show ?thesis unfolding TombstoneObject_def
      by (rule retire_retires[rotated 2]) (simp_all add: obj_key_def split: option.splits)
  next
    assume "MarkObjectDeleted db t i now = Inr db'"
    then show ?thesis unfolding MarkObjectDeleted_def
      by (rule retire_retires[rotated 2]) (simp_all add: obj_key_def)
  qed
  then show ?thesis unfolding source_run_sr by (intro retired_denied sr.run_inv)
qed

theorem retired_object_stays_denied_witness:
  "case TombstoneObject demo_source ''t'' ''o1'' 20 of
     Inr db \<Rightarrow> (case GetObject (sql_reads (source_run (\<lambda>_. True) (\<lambda>_ _. True) db [SevObject demo_object])) ''t'' ''o1'' of
                 Inr x \<Rightarrow> CanRead (sql_reads (source_run (\<lambda>_. True) (\<lambda>_ _. True) db [SevObject demo_object]))
                            0 30 demo_reader x plain_read = Some ErrDenied
               | Inl e \<Rightarrow> False)
   | Inl e \<Rightarrow> False"
proof -
  have "is_ok (TombstoneObject demo_source ''t'' ''o1'' 20)" by code_simp
  then obtain db where d: "TombstoneObject demo_source ''t'' ''o1'' 20 = Inr db" by (auto elim!: is_okE)
  show ?thesis unfolding d sum.case by (rule retired_object_stays_denied[OF disjI1[OF d]])
qed

section \<open>Unfinished observations\<close>

lemma BeginSnapshot_Inr:
  "BeginSnapshot db t c k rv = Inr db' \<Longrightarrow>
   db' = db \<or> db' = db\<lparr>sd_snapshots := sd_snapshots db @
     [\<lparr>s_tenant = t, s_connection = c, s_kind = k, s_revision = rv, s_completed = None, s_status = Incomplete\<rparr>]\<rparr>"
  by (simp add: BeginSnapshot_def constraint_def split: if_split_asm)

text \<open>
  An unfinished observation changes nothing. Recording the beginning of a snapshot, of any kind
  and revision, leaves every answer of the read interface and so every read decision as it was.
\<close>

theorem incomplete_snapshot_invisible:
  assumes "BeginSnapshot db t c k rv = Inr db'"
  shows "sql_reads db' = sql_reads db \<and>
    CanRead (sql_reads db') maxstale wall p x opts = CanRead (sql_reads db) maxstale wall p x opts"
proof -
  have "sql_LatestCompleteRevision db' = sql_LatestCompleteRevision db"
    using BeginSnapshot_Inr[OF assms] by (auto simp: sql_LatestCompleteRevision_def fun_eq_iff)
  moreover have "sd_connections db' = sd_connections db" "sd_objects db' = sd_objects db"
      "sd_versions db' = sd_versions db" "sd_identities db' = sd_identities db"
      "sd_members db' = sd_members db" "sd_grants db' = sd_grants db" "sd_restrictions db' = sd_restrictions db"
    using BeginSnapshot_Inr[OF assms] by auto
  ultimately have "sql_reads db' = sql_reads db"
    by (simp add: sql_reads_def sql_GetConnection_def sql_GetObject_def sql_GetObjectVersion_def
        sql_LatestObjectVersion_def sql_SourceIdentityForUser_def sql_GroupIDsForIdentity_def
        sql_GrantsForObject_def sql_RestrictionsForSubject_def fun_eq_iff)
  then show ?thesis by simp
qed

theorem incomplete_snapshot_invisible_witness:
  "case BeginSnapshot demo_source ''t'' ''c1'' SnapshotGrants 2 of
     Inr db \<Rightarrow> length (sd_snapshots db) = 3 \<and> sql_reads db = sql_reads demo_source | Inl e \<Rightarrow> False"
proof -
  have "case BeginSnapshot demo_source ''t'' ''c1'' SnapshotGrants 2 of
      Inr db \<Rightarrow> length (sd_snapshots db) = 3 | Inl e \<Rightarrow> False" by code_simp
  then obtain db where d: "BeginSnapshot demo_source ''t'' ''c1'' SnapshotGrants 2 = Inr db"
      "length (sd_snapshots db) = 3" by (auto split: sum.splits)
  show ?thesis using incomplete_snapshot_invisible[OF d(1)] d by simp
qed

section \<open>A finished observation\<close>

lemma append_bar_inject:
  "CHR ''|'' \<notin> set a \<Longrightarrow> CHR ''|'' \<notin> set b \<Longrightarrow> a @ CHR ''|'' # x = b @ CHR ''|'' # y \<longleftrightarrow> a = b \<and> x = y"
proof (induction a arbitrary: b)
  case Nil
  then show ?case by (cases b) auto
next
  case (Cons c a)
  then show ?case by (cases b) auto
qed

lemma bar_append_inject:
  assumes "CHR ''|'' \<notin> set x" and "CHR ''|'' \<notin> set y" and "a @ CHR ''|'' # x = b @ CHR ''|'' # y"
  shows "a = b \<and> x = y"
proof -
  have "rev x @ CHR ''|'' # rev a = rev y @ CHR ''|'' # rev b"
    using arg_cong[OF assms(3), of rev] by simp
  then show ?thesis using append_bar_inject[of "rev x" "rev y" "rev a" "rev b"] assms(1,2) by simp
qed

text \<open>What a grant says, apart from where and when it was observed.\<close>

definition grant_claim :: "source_grant \<Rightarrow> string \<times> string \<times> string \<times> string" where
  "grant_claim g = (gr_object g, gr_subject_kind g, gr_subject_id g, gr_effect g)"

lemma grant_dup_key_inject:
  assumes "grant_checks g" "grant_checks h" "CHR ''|'' \<notin> set (gr_object g)" "CHR ''|'' \<notin> set (gr_object h)"
    and "grant_dup_key g = grant_dup_key h"
  shows "grant_claim g = grant_claim h"
proof -
  have k: "CHR ''|'' \<notin> set (gr_subject_kind g)" "CHR ''|'' \<notin> set (gr_subject_kind h)"
      "CHR ''|'' \<notin> set (gr_effect g)" "CHR ''|'' \<notin> set (gr_effect h)"
    using assms(1,2) by (auto simp: grant_checks_def)
  have e: "gr_object g = gr_object h \<and> gr_subject_kind g = gr_subject_kind h \<and>
      gr_subject_id g @ CHR ''|'' # gr_effect g = gr_subject_id h @ CHR ''|'' # gr_effect h"
    using assms(5) append_bar_inject[OF assms(3,4)] append_bar_inject[OF k(1,2)] by (simp add: grant_dup_key_def)
  then show ?thesis using bar_append_inject[OF k(3,4), of "gr_subject_id g" "gr_subject_id h"] by (simp add: grant_claim_def)
qed

text \<open>What one application inserts: rows of its own grants, one per distinct key.\<close>

lemma apply_grants_rows:
  assumes "apply_grants t c rv seen n db gs = Inr db'"
    and "\<forall>r\<in>set (sd_grants db). \<forall>m. n \<le> m \<longrightarrow> \<not> (g_tenant r = t \<and> g_id r = (c, rv, m))"
  shows "\<exists>new. db' = db\<lparr>sd_grants := sd_grants db @ new\<rparr> \<and>
    (\<forall>r\<in>set new. \<exists>m. \<exists>g\<in>set gs. r = grant_row_of t c rv m g) \<and>
    (\<forall>g\<in>set gs. grant_dup_key g \<notin> seen \<longrightarrow>
       (\<exists>m. \<exists>h\<in>set gs. grant_dup_key h = grant_dup_key g \<and> grant_row_of t c rv m h \<in> set new))"
  using assms
proof (induction gs arbitrary: seen n db)
  case Nil
  then show ?case by simp
next
  case (Cons g gs)
  have later: "\<forall>r\<in>set (sd_grants db). \<forall>m. n + 1 \<le> m \<longrightarrow> \<not> (g_tenant r = t \<and> g_id r = (c, rv, m))"
    using Cons.prems(2) by auto
  show ?case
  proof (cases "grant_dup_key g \<in> seen")
    case True
    then have "apply_grants t c rv seen (n + 1) db gs = Inr db'" using Cons.prems(1) by simp
    from Cons.IH[OF this later] obtain new where new: "db' = db\<lparr>sd_grants := sd_grants db @ new\<rparr>"
      "\<forall>r\<in>set new. \<exists>m. \<exists>g\<in>set gs. r = grant_row_of t c rv m g"
      "\<forall>g\<in>set gs. grant_dup_key g \<notin> seen \<longrightarrow>
         (\<exists>m. \<exists>h\<in>set gs. grant_dup_key h = grant_dup_key g \<and> grant_row_of t c rv m h \<in> set new)" by blast
    show ?thesis
      by (rule exI[of _ new]) (use new True in \<open>auto; meson\<close>)
  next
    case False
    let ?db1 = "db\<lparr>sd_grants := sd_grants db @ [grant_row_of t c rv n g]\<rparr>"
    have no: "\<not> list_ex (\<lambda>r. g_tenant r = t \<and> g_id r = (c, rv, n)) (sd_grants db)"
      using Cons.prems(2) by (auto simp: list_ex_iff)
    have a: "apply_grants t c rv (insert (grant_dup_key g) seen) (n + 1) ?db1 gs = Inr db'"
      using Cons.prems(1) False no by (simp add: Let_def constraint_def split: if_split_asm)
    have later1: "\<forall>r\<in>set (sd_grants ?db1). \<forall>m. n + 1 \<le> m \<longrightarrow> \<not> (g_tenant r = t \<and> g_id r = (c, rv, m))"
      using later by (auto simp: grant_row_of_def)
    from Cons.IH[OF a later1] obtain new where new: "db' = ?db1\<lparr>sd_grants := sd_grants ?db1 @ new\<rparr>"
      "\<forall>r\<in>set new. \<exists>m. \<exists>g\<in>set gs. r = grant_row_of t c rv m g"
      "\<forall>h\<in>set gs. grant_dup_key h \<notin> insert (grant_dup_key g) seen \<longrightarrow>
         (\<exists>m. \<exists>k\<in>set gs. grant_dup_key k = grant_dup_key h \<and> grant_row_of t c rv m k \<in> set new)" by blast
    show ?thesis
    proof (rule exI[of _ "grant_row_of t c rv n g # new"], intro conjI ballI impI)
      show "db' = db\<lparr>sd_grants := sd_grants db @ grant_row_of t c rv n g # new\<rparr>" by (simp add: new(1))
    next
      fix r assume "r \<in> set (grant_row_of t c rv n g # new)"
      then consider "r = grant_row_of t c rv n g" | "r \<in> set new" by auto
      then show "\<exists>m. \<exists>h\<in>set (g # gs). r = grant_row_of t c rv m h"
      proof cases
        case 1
        then show ?thesis by (intro exI[of _ n] bexI[of _ g]) simp_all
      next
        case 2
        then obtain m h where "h \<in> set gs" "r = grant_row_of t c rv m h" using new(2) by blast
        then show ?thesis by (intro exI[of _ m] bexI[of _ h]) simp_all
      qed
    next
      fix h assume h: "h \<in> set (g # gs)" "grant_dup_key h \<notin> seen"
      show "\<exists>m. \<exists>k\<in>set (g # gs). grant_dup_key k = grant_dup_key h \<and>
          grant_row_of t c rv m k \<in> set (grant_row_of t c rv n g # new)"
      proof (cases "grant_dup_key h = grant_dup_key g")
        case True
        then show ?thesis by (intro exI[of _ n] bexI[of _ g]) simp_all
      next
        case False
        then have "h \<in> set gs" using h(1) by auto
        then obtain m k where "k \<in> set gs" "grant_dup_key k = grant_dup_key h" "grant_row_of t c rv m k \<in> set new"
          using new(3) h(2) False by blast
        then show ?thesis by (intro exI[of _ m] bexI[of _ k]) simp_all
      qed
    qed
  qed
qed

definition row_claim :: "grant_row \<Rightarrow> string \<times> string \<times> string \<times> string" where
  "row_claim r =
     (g_object r, g_kind r, coalesce (if g_kind r = GrantSubjectGroup then g_group r else g_identity r), g_effect r)"

lemma row_claim_of: "row_claim (grant_row_of t c rv m g) = grant_claim g"
  by (simp add: row_claim_def grant_row_of_def grant_claim_def coalesce_def)

lemma GrantsForObject_claims:
  assumes "GrantsForObject (sql_reads db) t i rv = Inr gs"
  shows "grant_claim ` set gs =
    row_claim ` {r \<in> set (sd_grants db). g_tenant r = t \<and> g_object r = i \<and> g_revision r = rv}"
proof -
  let ?F = "\<lambda>g. \<lparr>gr_tenant = t, gr_object = g_object g, gr_subject_kind = g_kind g,
      gr_subject_id = (case (if g_kind g = GrantSubjectGroup then g_group g else g_identity g) of
                         None \<Rightarrow> [] | Some s \<Rightarrow> s),
      gr_effect = g_effect g, gr_revision = g_revision g\<rparr>"
  have a: "gs = map ?F (filter (\<lambda>g. g_tenant g = t \<and> g_object g = i \<and> g_revision g = rv) (sd_grants db))"
    using assms by (simp add: sql_reads_def sql_GrantsForObject_def)
  have c: "grant_claim (?F g) = row_claim g" for g
    by (simp add: grant_claim_def row_claim_def coalesce_def)
  show ?thesis by (simp only: a set_map image_image c set_filter)
qed

lemma foldl_later_snapshot:
  "m = foldl later_snapshot s ss \<Longrightarrow> m \<in> set (s # ss) \<and> (\<forall>x\<in>set (s # ss). s_revision x \<le> s_revision m)"
proof (induction ss arbitrary: s)
  case Nil
  then show ?case by simp
next
  case (Cons a ss)
  then have "m \<in> set (later_snapshot s a # ss) \<and> (\<forall>x\<in>set (later_snapshot s a # ss). s_revision x \<le> s_revision m)"
    by simp
  then show ?case by (auto simp: later_snapshot_def split: if_split_asm)
qed

lemma sd_complete_snapshot [simp]:
  "sd_grants (complete_snapshot db t c k rv now) = sd_grants db"
  "sd_objects (complete_snapshot db t c k rv now) = sd_objects db"
  "sd_snapshots (complete_snapshot db t c k rv now) =
     upd_rows (\<lambda>s. is_snapshot t c k s \<and> s_revision s = rv \<and> s_status s = Incomplete)
       (\<lambda>s. s\<lparr>s_status := CompleteSnapshot, s_completed := Some now\<rparr>) (sd_snapshots db)"
  by (simp_all add: complete_snapshot_def)

text \<open>A snapshot begun above every complete one becomes the latest complete one when it is completed.\<close>

lemma latest_completed:
  assumes "list_ex (\<lambda>s. is_snapshot t c k s \<and> s_revision s = rv \<and> s_status s = Incomplete) (sd_snapshots db)"
    and "list_all (\<lambda>s. is_snapshot t c k s \<longrightarrow> s_status s = CompleteSnapshot \<longrightarrow> s_revision s < rv) (sd_snapshots db)"
    and "sd_snapshots db' = upd_rows (\<lambda>s. is_snapshot t c k s \<and> s_revision s = rv \<and> s_status s = Incomplete)
       (\<lambda>s. s\<lparr>s_status := CompleteSnapshot, s_completed := Some now\<rparr>) (sd_snapshots db)"
  shows "sql_LatestCompleteRevision db' t c k = Inr (rv, now)"
proof -
  let ?P = "\<lambda>s. is_snapshot t c k s \<and> s_revision s = rv \<and> s_status s = Incomplete"
  let ?f = "\<lambda>s. s\<lparr>s_status := CompleteSnapshot, s_completed := Some now\<rparr>"
  let ?xs = "filter (\<lambda>s. is_snapshot t c k s \<and> s_status s = CompleteSnapshot) (sd_snapshots db')"
  obtain s0 where s0: "s0 \<in> set (sd_snapshots db)" "?P s0" using assms(1) by (auto simp: list_ex_iff)
  have "?f s0 \<in> set (sd_snapshots db')" unfolding assms(3) using upd_rows_in[OF s0(1), of ?P ?f] s0(2) by simp
  then have in0: "?f s0 \<in> set ?xs" using s0(2) by (simp add: is_snapshot_def)
  have old: "s_revision s < rv \<or> (s_revision s = rv \<and> s_completed s = Some now)" if "s \<in> set ?xs" for s
  proof -
    have "s \<in> set (upd_rows ?P ?f (sd_snapshots db))" using that by (simp add: assms(3))
    then obtain r where r: "r \<in> set (sd_snapshots db)" "s = (if ?P r then ?f r else r)" by (rule upd_rowsE)
    show ?thesis
    proof (cases "?P r")
      case True
      then show ?thesis using r(2) by simp
    next
      case False
      have "s = r" by (rule trans[OF r(2) if_not_P[OF False]])
      then show ?thesis using that r(1) assms(2) by (auto simp: list_all_iff)
    qed
  qed
  obtain x xs where x: "?xs = x # xs" using in0 by (cases ?xs) auto
  let ?m = "foldl later_snapshot x xs"
  have m: "?m \<in> set ?xs" "\<forall>y\<in>set ?xs. s_revision y \<le> s_revision ?m"
    using foldl_later_snapshot[of ?m x xs] x by simp_all
  have "rv \<le> s_revision ?m" using m(2) in0 s0(2) by force
  then have "s_revision ?m = rv" "s_completed ?m = Some now" using old[OF m(1)] by auto
  then show ?thesis by (simp add: sql_LatestCompleteRevision_def x)
qed

text \<open>
  A finished observation is authoritative, and exactly itself. Applying a grants snapshot that
  was begun, above every complete revision and at a fresh revision number, makes that revision the
  latest complete one at that time, and the grants the authorizer then reads for an object are
  exactly the observed grants of that object, duplicates counted once.
\<close>

theorem access_snapshot_replaces:
  assumes "ApplyAccessSnapshot db t c rv grants now = Inr db'"
    and "list_ex (\<lambda>s. is_snapshot t c SnapshotGrants s \<and> s_revision s = rv \<and> s_status s = Incomplete) (sd_snapshots db)"
    and "list_all (\<lambda>s. is_snapshot t c SnapshotGrants s \<longrightarrow> s_status s = CompleteSnapshot \<longrightarrow> s_revision s < rv)
           (sd_snapshots db)"
    and "list_all (\<lambda>r. \<not> (g_tenant r = t \<and> (g_revision r = rv \<or> fst (snd (g_id r)) = rv))) (sd_grants db)"
    and "list_all (\<lambda>g. grant_checks g \<and> CHR ''|'' \<notin> set (gr_object g)) grants"
  shows "LatestCompleteRevision (sql_reads db') t c SnapshotGrants = Inr (rv, now) \<and>
    (case GrantsForObject (sql_reads db') t i rv of
       Inr gs \<Rightarrow> grant_claim ` set gs = grant_claim ` {g \<in> set grants. gr_object g = i}
     | Inl e \<Rightarrow> False)"
proof -
  obtain db1 where a: "apply_grants t c rv {} 0 db grants = Inr db1"
    and db': "db' = (complete_snapshot db1 t c SnapshotGrants rv now)\<lparr>sd_grants :=
        filter (\<lambda>g. \<not> unseen_grant (complete_snapshot db1 t c SnapshotGrants rv now) t c rv g) (sd_grants db1)\<rparr>"
    using assms(1) by (auto simp: ApplyAccessSnapshot_def bind_r_Inr Let_def)
  have "\<forall>r\<in>set (sd_grants db). \<forall>m. 0 \<le> m \<longrightarrow> \<not> (g_tenant r = t \<and> g_id r = (c, rv, m))"
    using assms(4) by (auto simp: list_all_iff)
  from apply_grants_rows[OF a this] obtain new where new: "db1 = db\<lparr>sd_grants := sd_grants db @ new\<rparr>"
      "\<forall>r\<in>set new. \<exists>m. \<exists>g\<in>set grants. r = grant_row_of t c rv m g"
      "\<forall>g\<in>set grants. \<exists>m. \<exists>h\<in>set grants. grant_dup_key h = grant_dup_key g \<and> grant_row_of t c rv m h \<in> set new"
    by blast
  have latest: "sql_LatestCompleteRevision db' t c SnapshotGrants = Inr (rv, now)"
    by (rule latest_completed[OF assms(2,3)]) (simp add: db' new(1))
  have rows: "{r \<in> set (sd_grants db'). g_tenant r = t \<and> g_object r = i \<and> g_revision r = rv} =
      {r \<in> set new. g_object r = i}"
  proof -
    have "\<forall>r\<in>set new. g_tenant r = t \<and> g_revision r = rv" using new(2) by (auto simp: grant_row_of_def)
    moreover have "\<forall>r\<in>set (sd_grants db). \<not> (g_tenant r = t \<and> g_revision r = rv)"
      using assms(4) by (auto simp: list_all_iff)
    ultimately show ?thesis by (auto simp: db' new(1) unseen_grant_def)
  qed
  have "row_claim ` {r \<in> set new. g_object r = i} = grant_claim ` {g \<in> set grants. gr_object g = i}" (is "?L = ?R")
  proof
    show "?L \<subseteq> ?R"
    proof
      fix q assume "q \<in> ?L"
      then obtain r where r: "r \<in> set new" "g_object r = i" "q = row_claim r" by blast
      then obtain m g where g: "g \<in> set grants" "r = grant_row_of t c rv m g" using new(2) by blast
      then have "gr_object g = i" "q = grant_claim g" using r by (simp_all add: row_claim_of) (simp add: grant_row_of_def)
      then show "q \<in> ?R" using g(1) by blast
    qed
    show "?R \<subseteq> ?L"
    proof
      fix q assume "q \<in> ?R"
      then obtain g where g: "g \<in> set grants" "gr_object g = i" "q = grant_claim g" by blast
      then obtain m h where h: "h \<in> set grants" "grant_dup_key h = grant_dup_key g" "grant_row_of t c rv m h \<in> set new"
        using new(3) by blast
      have "grant_claim h = grant_claim g"
        by (rule grant_dup_key_inject) (use g(1) h(1,2) assms(5) in \<open>auto simp: list_all_iff\<close>)
      then have "gr_object h = i" "row_claim (grant_row_of t c rv m h) = q"
        using g(2,3) by (simp_all add: row_claim_of) (simp add: grant_claim_def)
      then show "q \<in> ?L" using h(3) by (auto intro!: image_eqI[of _ _ "grant_row_of t c rv m h"] simp: grant_row_of_def)
    qed
  qed
  moreover obtain gs where gs: "GrantsForObject (sql_reads db') t i rv = Inr gs"
    by (simp add: sql_reads_def sql_GrantsForObject_def)
  ultimately have "grant_claim ` set gs = ?R" using GrantsForObject_claims[OF gs] rows by simp
  then show ?thesis using latest gs by (simp add: sql_reads_def)
qed

definition demo_begun :: source_db where
  "demo_begun = source_run (\<lambda>_. True) (\<lambda>_ _. True) demo_source [SevBegin ''t'' ''c1'' SnapshotGrants 2]"

theorem access_snapshot_replaces_witness:
  "case ApplyAccessSnapshot demo_begun ''t'' ''c1'' 2 [demo_grant GrantSubjectUser ''si1'' GrantEffectDeny] 21 of
     Inr db \<Rightarrow> LatestCompleteRevision (sql_reads db) ''t'' ''c1'' SnapshotGrants = Inr (2, 21)
   | Inl e \<Rightarrow> False"
proof -
  let ?g = "[demo_grant GrantSubjectUser ''si1'' GrantEffectDeny]"
  have "is_ok (ApplyAccessSnapshot demo_begun ''t'' ''c1'' 2 ?g 21)" by code_simp
  then obtain db where d: "ApplyAccessSnapshot demo_begun ''t'' ''c1'' 2 ?g 21 = Inr db" by (auto elim!: is_okE)
  have h: "list_ex (\<lambda>s. is_snapshot ''t'' ''c1'' SnapshotGrants s \<and> s_revision s = 2 \<and> s_status s = Incomplete)
      (sd_snapshots demo_begun)"
    "list_all (\<lambda>s. is_snapshot ''t'' ''c1'' SnapshotGrants s \<longrightarrow> s_status s = CompleteSnapshot \<longrightarrow> s_revision s < 2)
      (sd_snapshots demo_begun)"
    "list_all (\<lambda>r. \<not> (g_tenant r = ''t'' \<and> (g_revision r = 2 \<or> fst (snd (g_id r)) = 2))) (sd_grants demo_begun)"
    "list_all (\<lambda>g. grant_checks g \<and> CHR ''|'' \<notin> set (gr_object g)) ?g"
    by code_simp+
  show ?thesis using access_snapshot_replaces[OF d h] d by simp
qed

end
