(* ===== verification/Policy.thy ===== *)
theory Policy
  imports Billing SourceProps
begin

text \<open>
  The authorization pass of the inference boundary: the request contract and its bounds
  (internal/inference/types.go), the endpoint record and its lookups (endpoint.go,
  store/postgres/endpoints_repo.go), and internal/inference/policy.go: payload analysis, input
  resolution, restriction merging, endpoint evaluation and routing. A payload is its length, its
  JSON value and whether bytes follow the value.
\<close>

section \<open>endpoint.go and types.go\<close>

record endpoint =
  ep_id :: string
  ep_tenant :: string
  ep_protocol :: string
  ep_sdk :: string
  ep_capabilities :: "string list"
  ep_origin :: string
  ep_credential :: string
  ep_assurance :: string
  ep_verified :: "time option"
  ep_private :: bool
  ep_enabled :: bool

record object_ref =
  or_tenant :: string
  or_object :: string
  or_observed :: int

record artifact_ref =
  af_tenant :: string
  af_id :: string
  af_kind :: string
  af_version :: int
  af_sha256 :: string
  af_size :: int

record request =
  iq_capability :: string
  iq_model :: string
  iq_endpoint :: string
  iq_payload :: raw_json
  iq_payload_len :: int
  iq_trailing :: bool
  iq_stream :: bool
  iq_method :: string
  iq_path :: string
  iq_inputs :: "object_ref list"
  iq_artifacts :: "artifact_ref list"
  iq_conversations :: "string list"
  iq_restriction :: "source_restriction option"
  iq_estimate :: usage
  iq_job :: string
  iq_attempt :: string

record decision =
  dc_capability :: string
  dc_model :: string
  dc_effective :: source_restriction

text \<open>
  The package's errors, and those its executor passes on: a refused or abandoned admission, a billing
  refusal, a failed billing transaction, a transport that cannot be built, a definitive upstream error
  response with its body, and an ambiguous failure of the call. \<open>Panic\<close> is a Go run-time panic.
\<close>

datatype inference_error =
    ErrPolicyDenied
  | ErrNoRoute
  | ErrUnsupportedCapability
  | ErrUnbounded
  | ErrAdmission
  | ErrBilling billing_error
  | ErrStore
  | ErrTransport
  | ErrUpstream raw_json
  | ErrAmbiguous
  | Panic

abbreviation "CapabilityChat \<equiv> ''chat/completions''"
abbreviation "CapabilityEmbeddings \<equiv> ''embeddings''"
abbreviation "CapabilityVision \<equiv> ''vision''"
abbreviation "CapabilityResponses \<equiv> ''responses''"
abbreviation "CapabilityCompact \<equiv> ''responses/compact''"

definition assuranceSatisfied :: "endpoint \<Rightarrow> string \<Rightarrow> bool" where
  "assuranceSatisfied e required =
     (if required = [] then True else if required = ''standard'' then True else ep_verified e \<noteq> None)"

text \<open>\<open>strings.Cut\<close> at the first equals sign.\<close>

fun cut_eq :: "string \<Rightarrow> (string \<times> string) option" where
  "cut_eq [] = None"
| "cut_eq (c # cs) =
     (if c = CHR ''='' then Some ([], cs) else map_option (\<lambda>(a, b). (c # a, b)) (cut_eq cs))"

fun bind_model :: "string list \<Rightarrow> string \<Rightarrow> string option" where
  "bind_model [] alias = None"
| "bind_model (c # cs) alias =
     (if \<not> has_prefix c ''model:'' then bind_model cs alias
      else case cut_eq (trim_prefix c ''model:'') of
        Some (a, upstream) \<Rightarrow> if a = alias \<and> upstream \<noteq> [] then Some upstream else bind_model cs alias
      | None \<Rightarrow> if trim_prefix c ''model:'' = alias then Some alias else bind_model cs alias)"

definition upstreamModelFor :: "endpoint \<Rightarrow> string \<Rightarrow> string option" where
  "upstreamModelFor e alias = bind_model (ep_capabilities e) alias"

definition capabilityAdvertised :: "endpoint \<Rightarrow> string \<Rightarrow> bool" where
  "capabilityAdvertised e c \<longleftrightarrow> c \<in> set (ep_capabilities e)"

definition boundFor :: "string \<Rightarrow> usage option" where
  "boundFor c =
     (if c \<in> {CapabilityChat, CapabilityVision, CapabilityResponses, CapabilityCompact}
      then Some \<lparr>us_input = 4194304, us_output = 131072, us_cached = 4194304, us_other = []\<rparr>
      else if c = CapabilityEmbeddings
      then Some \<lparr>us_input = 4194304, us_output = 0, us_cached = 4194304, us_other = []\<rparr>
      else None)"

definition checkEstimate :: "string \<Rightarrow> usage \<Rightarrow> inference_error option" where
  "checkEstimate c est =
     (case boundFor c of
        None \<Rightarrow> Some ErrUnsupportedCapability
      | Some b \<Rightarrow>
          if list_ex (\<lambda>(v, m). v <s 0 \<or> m <s v)
               [(us_input est, us_input b), (us_output est, us_output b), (us_cached est, us_cached b)]
          then Some ErrUnbounded
          else if list_ex (\<lambda>(k, v). k = [] \<or> v <s 0 \<or> 4194304 <s v) (us_other est) then Some ErrUnbounded
          else if us_input est = 0 \<and> us_output est = 0 \<and> us_cached est = 0 \<and> us_other est = []
          then Some ErrUnbounded
          else if us_input est = 0 \<and> us_cached est = 0 \<and> us_other est = [] \<and> 0 <s us_output est
          then Some ErrUnbounded
          else None)"

section \<open>endpoints_repo.go: lookups\<close>

text \<open>\<open>ORDER BY id\<close> in byte order.\<close>

definition sql_GetEndpoint :: "endpoint list \<Rightarrow> string \<Rightarrow> string \<Rightarrow> endpoint option" where
  "sql_GetEndpoint eps t i = find_row (\<lambda>e. ep_tenant e = t \<and> ep_id e = i) eps"

definition sql_ListCapabilities :: "endpoint list \<Rightarrow> string \<Rightarrow> string \<Rightarrow> endpoint list" where
  "sql_ListCapabilities eps t c =
     sort_key ep_id (filter (\<lambda>e. ep_tenant e = t \<and> ep_enabled e \<and> c \<in> set (ep_capabilities e)) eps)"

section \<open>policy.go: payload analysis\<close>

definition forbiddenPayloadKeys :: "string list" where
  "forbiddenPayloadKeys =
     [''tenant_id'', ''owner'', ''owner_actor_id'', ''user_id'', ''actor_id'', ''billing_subject'',
      ''api_key'', ''api_base'', ''base_url'', ''endpoint'', ''credential_ref'', ''credential'', ''credentials'',
      ''authorization'', ''auth_token'', ''access_token'', ''secret'', ''client_secret'', ''conversation'',
      ''file_id'', ''container_id'', ''user'']"

definition forbiddenPayloadTruths :: "string list" where
  "forbiddenPayloadTruths = [''store'', ''background'']"

definition deniedNestedTypes :: "string list" where
  "deniedNestedTypes =
     [''web_search'', ''web_search_preview'', ''file_search'', ''code_interpreter'', ''computer_use_preview'',
      ''shell'', ''custom'', ''hosted_tool'', ''remote_mcp'', ''mcp'']"

definition allowedNestedTypes :: "string list" where
  "allowedNestedTypes =
     [''function'', ''text'', ''input_text'', ''output_text'', ''refusal'', ''input_image'', ''image_url'',
      ''input_file'', ''file'', ''input_audio'', ''message'', ''tool_call'', ''tool_calls'', ''json_object'',
      ''json_schema'', ''item_reference'']"

definition urlPayloadKeys :: "string list" where
  "urlPayloadKeys = [''url'', ''image_url'', ''file_url'', ''audio_url'', ''href'', ''src'', ''uri'']"

definition discriminatorContexts :: "string list" where
  "discriminatorContexts = [''tools'', ''content'', ''input'', ''tool_calls'']"

abbreviation "previousResponseIDKey \<equiv> ''previous_response_id''"

text \<open>
  The checks on one object under its parent key: the type discriminator. The result is the error,
  or whether the type needs the vision capability.
\<close>

definition check_type :: "(string \<times> json) list \<Rightarrow> string \<Rightarrow> inference_error + bool" where
  "check_type ms parent =
     (if parent \<notin> set discriminatorContexts then Inr False
      else case obj_get ms ''type'' of
        None \<Rightarrow> Inr False
      | Some t \<Rightarrow>
          (case as_string t of
             None \<Rightarrow> Inl ErrPolicyDenied
           | Some s \<Rightarrow>
               if parent = ''tools'' \<and> s \<noteq> ''function'' then Inl ErrUnsupportedCapability
               else if s \<in> set deniedNestedTypes then Inl ErrUnsupportedCapability
               else if s \<notin> set allowedNestedTypes then Inl ErrPolicyDenied
               else Inr (s \<in> {''input_image'', ''image_url'', ''input_file'', ''file''})))"

text \<open>The checks on one member, before the walk descends into its value.\<close>

definition check_member :: "string \<Rightarrow> string \<Rightarrow> json \<Rightarrow> inference_error option" where
  "check_member parent k v =
     (let kl = go_lower k in
      if kl = previousResponseIDKey \<and> parent \<noteq> [] then Some ErrPolicyDenied
      else if kl \<in> set forbiddenPayloadKeys then Some ErrPolicyDenied
      else if kl \<in> set forbiddenPayloadTruths \<and> v = JBool True then Some ErrPolicyDenied
      else if kl \<in> set urlPayloadKeys \<and>
              (case v of
                 JStr s \<Rightarrow> s \<noteq> [] \<and> \<not> has_prefix s ''data:''
               | JObj _ \<Rightarrow> False
               | JNull \<Rightarrow> False
               | _ \<Rightarrow> True)
      then Some ErrPolicyDenied
      else None)"

fun walkPayload :: "json \<Rightarrow> bool \<Rightarrow> string \<Rightarrow> inference_error + bool"
  and walk_members :: "(string \<times> json) list \<Rightarrow> bool \<Rightarrow> string \<Rightarrow> inference_error + bool"
  and walk_items :: "json list \<Rightarrow> bool \<Rightarrow> string \<Rightarrow> inference_error + bool" where
  "walkPayload (JObj ms) vision parent =
     (case check_type ms parent of
        Inl e \<Rightarrow> Inl e
      | Inr b \<Rightarrow> walk_members ms (vision \<or> b) parent)"
| "walkPayload (JArr js) vision parent = walk_items js vision parent"
| "walkPayload JBigNum vision parent = Inl ErrPolicyDenied"
| "walkPayload JNull vision parent = Inr vision"
| "walkPayload (JBool b) vision parent = Inr vision"
| "walkPayload (JNum q) vision parent = Inr vision"
| "walkPayload (JStr s) vision parent = Inr vision"
| "walk_members [] vision parent = Inr vision"
| "walk_members ((k, v) # ms) vision parent =
     (case check_member parent k v of
        Some e \<Rightarrow> Inl e
      | None \<Rightarrow>
          (case walkPayload v vision (go_lower k) of
             Inl e \<Rightarrow> Inl e
           | Inr vision' \<Rightarrow> walk_members ms vision' parent))"
| "walk_items [] vision parent = Inr vision"
| "walk_items (j # js) vision parent =
     (case walkPayload j vision parent of
        Inl e \<Rightarrow> Inl e
      | Inr vision' \<Rightarrow> walk_items js vision' parent)"

text \<open>
  \<open>strings.ToUpper\<close>, as far as a comparison with an ASCII word can see it: ASCII letters, and the two
  code points outside ASCII whose upper case is ASCII, U+017F (bytes C5 BF) and U+0131 (C4 B1).
\<close>

definition upper_char :: "char \<Rightarrow> char" where
  "upper_char c = (if is_lower c then char_of ((of_char c :: nat) - 32) else c)"

fun go_upper :: "string \<Rightarrow> string" where
  "go_upper (a # b # cs) =
     (if a = CHR 0xC5 \<and> b = CHR 0xBF then CHR ''S'' # go_upper cs
      else if a = CHR 0xC4 \<and> b = CHR 0xB1 then CHR ''I'' # go_upper cs
      else upper_char a # go_upper (b # cs))"
| "go_upper [a] = [upper_char a]"
| "go_upper [] = []"

definition seg_char :: "char \<Rightarrow> bool" where
  "seg_char c \<longleftrightarrow> is_lower c \<or> is_upper c \<or> is_digit c \<or> c \<in> {CHR ''-'', CHR ''_'', CHR ''.''}"

definition validPathTail :: "string \<Rightarrow> bool" where
  "validPathTail tail =
     (case tail of
        [] \<Rightarrow> True
      | c # cs \<Rightarrow> c = CHR ''/'' \<and> list_all (\<lambda>seg. seg \<noteq> [] \<and> list_all seg_char seg) (split_on (CHR ''/'') cs))"

definition validateResponsesTarget :: "request \<Rightarrow> inference_error option" where
  "validateResponsesTarget req =
     (if iq_capability req \<noteq> CapabilityResponses \<and> iq_capability req \<noteq> CapabilityCompact then None
      else if go_upper (iq_method req) \<notin> {[], ''GET'', ''POST'', ''DELETE''} then Some ErrPolicyDenied
      else
        let p = iq_path req in
        if p = [] then None
        else if \<not> has_prefix p ''/responses'' \<or> contains_str p ''..'' \<or> contains_str p ''//'' \<or>
                list_ex (\<lambda>c. c \<in> {CHR ''?'', CHR ''#''}) p \<or>
                \<not> validPathTail (trim_prefix p ''/responses'')
        then Some ErrPolicyDenied
        else None)"

text \<open>The decoded root is \<open>None\<close> when the payload was \<open>null\<close>: a nil map.\<close>

record payload_info =
  pi_vision :: bool
  pi_root :: "(string \<times> json) list option"

definition decode_root :: "request \<Rightarrow> inference_error + (string \<times> json) list option" where
  "decode_root req =
     (if iq_payload_len req = 0 then Inr (Some [])
      else case iq_payload req of
        RawJson (JObj ms) \<Rightarrow> (if iq_trailing req then Inl ErrPolicyDenied else Inr (Some ms))
      | RawJson JNull \<Rightarrow> (if iq_trailing req then Inl ErrPolicyDenied else Inr None)
      | _ \<Rightarrow> Inl ErrPolicyDenied)"

definition check_previous :: "request \<Rightarrow> (string \<times> json) list \<Rightarrow> inference_error option" where
  "check_previous req rt =
     (case obj_get rt previousResponseIDKey of
        None \<Rightarrow> None
      | Some prev \<Rightarrow>
          if iq_capability req \<noteq> CapabilityResponses \<and> iq_capability req \<noteq> CapabilityCompact
          then Some ErrPolicyDenied
          else (case as_string prev of
                  None \<Rightarrow> Some ErrPolicyDenied
                | Some s \<Rightarrow> if s = [] then Some ErrPolicyDenied else None))"

definition root_members :: "(string \<times> json) list option \<Rightarrow> (string \<times> json) list" where
  "root_members r = (case r of None \<Rightarrow> [] | Some ms \<Rightarrow> ms)"

definition analyzePayload :: "int \<Rightarrow> request \<Rightarrow> inference_error + payload_info" where
  "analyzePayload lim' req =
     (if 0 < lim' \<and> lim' < iq_payload_len req then Inl ErrPolicyDenied
      else bind_r (decode_root req) (\<lambda>rt.
           bind_r (walkPayload (JObj (root_members rt)) False []) (\<lambda>vision.
             case check_previous req (root_members rt) of
               Some e \<Rightarrow> Inl e
             | None \<Rightarrow>
                 (case validateResponsesTarget req of
                    Some e \<Rightarrow> Inl e
                  | None \<Rightarrow> Inr \<lparr>pi_vision = vision, pi_root = rt\<rparr>))))"

definition effectiveCapability :: "string \<Rightarrow> payload_info \<Rightarrow> string" where
  "effectiveCapability c info = (if c = CapabilityChat \<and> pi_vision info then CapabilityVision else c)"

text \<open>Assigning into a nil map panics; deleting from one does not.\<close>

definition marshalPayload ::
    "(string \<times> json) list option \<Rightarrow> string \<Rightarrow> request \<Rightarrow> inference_error + json" where
  "marshalPayload rt upstream req =
     (case rt of
        None \<Rightarrow> Inl Panic
      | Some ms \<Rightarrow>
          let m1 = obj_del ms ''model'';
              m2 = (if upstream \<noteq> [] then obj_put m1 ''model'' (JStr upstream) else m1);
              m3 = obj_put m2 ''stream'' (JBool (iq_stream req));
              m4 = (if iq_stream req \<and> (iq_capability req = CapabilityChat \<or> iq_capability req = CapabilityVision)
                    then let opts = (case obj_get m3 ''stream_options'' of Some (JObj o') \<Rightarrow> o' | _ \<Rightarrow> [])
                         in obj_put m3 ''stream_options'' (JObj (obj_put opts ''include_usage'' (JBool True)))
                    else m3)
          in Inr (JObj m4))"

section \<open>policy.go: restriction merging\<close>

definition assuranceRankOf :: "string \<Rightarrow> nat" where
  "assuranceRankOf level =
     (if level = [] then 0 else if level = ''standard'' then 1 else if level = ''high'' then 2 else 3)"

definition unionOf :: "string list \<Rightarrow> string list \<Rightarrow> string list" where
  "unionOf a b = a @ dedup_from (set a) b"

definition mergeInto :: "source_restriction \<Rightarrow> source_restriction \<Rightarrow> source_restriction" where
  "mergeInto dst r =
     dst\<lparr>sr_assurance := (if assuranceRankOf (sr_assurance dst) < assuranceRankOf (sr_assurance r)
                          then sr_assurance r else sr_assurance dst),
         sr_denied := unionOf (sr_denied dst) (sr_denied r),
         sr_labels := unionOf (sr_labels dst) (sr_labels r)\<rparr>"

definition restrictionDenies :: "source_restriction \<Rightarrow> string \<Rightarrow> bool" where
  "restrictionDenies r c = list_ex (\<lambda>d. d = c) (sr_denied r)"

section \<open>policy.go: input resolution\<close>

text \<open>
  The durable row an artifact reference is checked against (artifacts/store.go), and a stored
  conversation. Either store may be absent; a lookup that fails is \<open>None\<close>.
\<close>

record artifact_info =
  ai_tenant :: string
  ai_kind :: string
  ai_version :: int
  ai_sha256 :: string
  ai_size :: int
  ai_state :: string
  ai_tombstone :: string

record conversation =
  cv_tenant :: string
  cv_id :: string
  cv_owner :: string

record policy_env =
  pe_reads :: source_reads
  pe_maxstale :: duration
  pe_artifacts :: "(string \<Rightarrow> string \<Rightarrow> artifact_info option) option"
  pe_conversations :: "(string \<Rightarrow> string \<Rightarrow> conversation option) option"
  pe_limit :: int

text \<open>
  \<open>strings.EqualFold\<close> where one side is ASCII (a hexadecimal hash): ASCII case, and the two code
  points that fold to an ASCII letter.
\<close>

fun fold_case :: "string \<Rightarrow> string" where
  "fold_case (a # b # c # cs) =
     (if a = CHR 0xE2 \<and> b = CHR 0x84 \<and> c = CHR 0xAA then CHR ''k'' # fold_case cs
      else if a = CHR 0xC5 \<and> b = CHR 0xBF then CHR ''s'' # fold_case (c # cs)
      else lower_char a # fold_case (b # c # cs))"
| "fold_case [a, b] =
     (if a = CHR 0xC5 \<and> b = CHR 0xBF then [CHR ''s''] else [lower_char a, lower_char b])"
| "fold_case [a] = [lower_char a]"
| "fold_case [] = []"

definition equal_fold :: "string \<Rightarrow> string \<Rightarrow> bool" where
  "equal_fold a b \<longleftrightarrow> fold_case a = fold_case b"

definition merge_rows ::
    "policy_env \<Rightarrow> string \<Rightarrow> string \<Rightarrow> string \<Rightarrow> source_restriction \<Rightarrow> inference_error + source_restriction" where
  "merge_rows env t k i eff =
     (case RestrictionsForSubject (pe_reads env) t k i of
        Inl _ \<Rightarrow> Inl ErrPolicyDenied
      | Inr rows \<Rightarrow> Inr (foldl mergeInto eff rows))"

definition resolve_input ::
    "policy_env \<Rightarrow> time \<Rightarrow> principal \<Rightarrow> request \<Rightarrow> source_restriction \<Rightarrow> object_ref \<Rightarrow>
     inference_error + source_restriction" where
  "resolve_input env wall p req eff ref =
     (let rd = pe_reads env; t = p_tenant p in
      if or_tenant ref \<noteq> [] \<and> or_tenant ref \<noteq> t then Inl ErrPolicyDenied
      else case GetObject rd t (or_object ref) of
        Inl _ \<Rightarrow> Inl ErrPolicyDenied
      | Inr x \<Rightarrow>
          if ob_tenant x \<noteq> t then Inl ErrPolicyDenied
          else case (if 0 < or_observed ref then GetObjectVersion rd t (ob_id x) (or_observed ref)
                     else LatestObjectVersion rd t (ob_id x)) of
            Inl _ \<Rightarrow> Inl ErrPolicyDenied
          | Inr ver \<Rightarrow>
              if ov_object ver \<noteq> ob_id x then Inl ErrPolicyDenied
              else case CanRead rd (pe_maxstale env) wall p x
                          \<lparr>ro_now = None, ro_requested = iq_restriction req\<rparr> of
                Some _ \<Rightarrow> Inl ErrPolicyDenied
              | None \<Rightarrow>
                  (case EffectiveRestrictions rd x (Some ver) [] of
                     Inl _ \<Rightarrow> Inl ErrPolicyDenied
                   | Inr restr \<Rightarrow> Inr (mergeInto eff restr)))"

definition artifact_matches :: "artifact_ref \<Rightarrow> artifact_info \<Rightarrow> bool" where
  "artifact_matches ref row \<longleftrightarrow>
     ai_state row = ''final'' \<and> ai_tombstone row = [] \<and>
     (af_kind ref = [] \<or> ai_kind row = af_kind ref) \<and>
     (af_version ref = 0 \<or> ai_version row = af_version ref) \<and>
     (af_sha256 ref = [] \<or> equal_fold (ai_sha256 row) (af_sha256 ref)) \<and>
     (af_size ref = 0 \<or> ai_size row = af_size ref)"

definition resolve_artifact ::
    "policy_env \<Rightarrow> principal \<Rightarrow> source_restriction \<Rightarrow> artifact_ref \<Rightarrow> inference_error + source_restriction" where
  "resolve_artifact env p eff ref =
     (let t = p_tenant p in
      case pe_artifacts env of
        None \<Rightarrow> Inl ErrPolicyDenied
      | Some get \<Rightarrow>
          if af_id ref = [] \<or> (af_tenant ref \<noteq> [] \<and> af_tenant ref \<noteq> t) then Inl ErrPolicyDenied
          else case get t (af_id ref) of
            None \<Rightarrow> Inl ErrPolicyDenied
          | Some row \<Rightarrow>
              if ai_tenant row \<noteq> t \<or> \<not> artifact_matches ref row then Inl ErrPolicyDenied
              else merge_rows env t RestrictionArtifact (af_id ref) eff)"

definition resolve_conversation ::
    "policy_env \<Rightarrow> principal \<Rightarrow> source_restriction \<Rightarrow> string \<Rightarrow> inference_error + source_restriction" where
  "resolve_conversation env p eff c =
     (let t = p_tenant p in
      case pe_conversations env of
        None \<Rightarrow> Inl ErrPolicyDenied
      | Some get \<Rightarrow>
          if c = [] then Inl ErrPolicyDenied
          else case get t c of
            None \<Rightarrow> Inl ErrPolicyDenied
          | Some cv \<Rightarrow>
              if cv_tenant cv \<noteq> t then Inl ErrPolicyDenied
              else if cv_owner cv \<noteq> p_actor p \<and> (p_delegated_by p = [] \<or> cv_owner cv \<noteq> p_delegated_by p)
              then Inl ErrPolicyDenied
              else merge_rows env t ''conversation'' c eff)"

text \<open>A loop that returns at the first error.\<close>

fun resolve_each ::
    "(source_restriction \<Rightarrow> 'a \<Rightarrow> inference_error + source_restriction) \<Rightarrow> source_restriction \<Rightarrow> 'a list \<Rightarrow>
     inference_error + source_restriction" where
  "resolve_each f eff [] = Inr eff"
| "resolve_each f eff (x # xs) = bind_r (f eff x) (\<lambda>eff'. resolve_each f eff' xs)"

definition resolveInputs ::
    "policy_env \<Rightarrow> time \<Rightarrow> principal \<Rightarrow> request \<Rightarrow> inference_error + source_restriction" where
  "resolveInputs env wall p req =
     bind_r (merge_rows env (p_tenant p) RestrictionTenant (p_tenant p) (empty_restriction (p_tenant p))) (\<lambda>e0.
     bind_r (resolve_each (resolve_input env wall p req) e0 (iq_inputs req)) (\<lambda>e1.
     bind_r (resolve_each (resolve_artifact env p) e1 (iq_artifacts req)) (\<lambda>e2.
     bind_r (resolve_each (resolve_conversation env p) e2 (iq_conversations req)) (\<lambda>e3.
       Inr (case iq_restriction req of None \<Rightarrow> e3 | Some r \<Rightarrow> mergeInto e3 r)))))"

section \<open>policy.go: evaluation and routing\<close>

definition verifiable :: "endpoint \<Rightarrow> bool" where
  "verifiable e \<longleftrightarrow> ep_protocol e = ''tinfoil''"

definition evaluate ::
    "policy_env \<Rightarrow> time \<Rightarrow> principal \<Rightarrow> request \<Rightarrow> endpoint \<Rightarrow> string \<Rightarrow> inference_error + decision" where
  "evaluate env wall p req dest capability =
     (if \<not> ep_enabled dest \<or> \<not> EndpointAllowed p (ep_id dest) then Inl ErrPolicyDenied
      else if iq_model req \<noteq> [] \<and> \<not> ModelAllowed p (iq_model req) then Inl ErrPolicyDenied
      else case upstreamModelFor dest (iq_model req) of
        None \<Rightarrow> Inl ErrPolicyDenied
      | Some upstream \<Rightarrow>
          if \<not> capabilityAdvertised dest capability then Inl ErrNoRoute
          else bind_r (resolveInputs env wall p req) (\<lambda>eff.
            if restrictionDenies eff capability then Inl ErrPolicyDenied
            else if \<not> assuranceSatisfied dest (sr_assurance eff) \<and> \<not> verifiable dest then Inl ErrNoRoute
            else Inr \<lparr>dc_capability = capability, dc_model = upstream, dc_effective = eff\<rparr>))"

definition AuthorizeDestination ::
    "policy_env \<Rightarrow> time \<Rightarrow> principal \<Rightarrow> request \<Rightarrow> endpoint \<Rightarrow> inference_error + decision" where
  "AuthorizeDestination env wall p req dest =
     (if p_tenant p = [] \<or> ep_tenant dest \<noteq> p_tenant p then Inl ErrPolicyDenied
      else bind_r (analyzePayload (pe_limit env) req) (\<lambda>info.
        evaluate env wall p req dest (effectiveCapability (iq_capability req) info)))"

definition eligible :: "principal \<Rightarrow> request \<Rightarrow> string \<Rightarrow> endpoint \<Rightarrow> bool" where
  "eligible p req capability e \<longleftrightarrow>
     ep_enabled e \<and> capabilityAdvertised e capability \<and> EndpointAllowed p (ep_id e) \<and>
     ModelAllowed p (iq_model req) \<and> upstreamModelFor e (iq_model req) \<noteq> None"

definition route ::
    "endpoint list \<Rightarrow> principal \<Rightarrow> request \<Rightarrow> string \<Rightarrow> inference_error + endpoint" where
  "route eps p req capability =
     (let candidates =
            (if iq_endpoint req \<noteq> []
             then (case sql_GetEndpoint eps (p_tenant p) (iq_endpoint req) of None \<Rightarrow> [] | Some e \<Rightarrow> [e])
             else sql_ListCapabilities eps (p_tenant p) capability)
      in case find_row (eligible p req capability) candidates of
           None \<Rightarrow> Inl ErrNoRoute | Some e \<Rightarrow> Inr e)"

end
