(* ===== verification/PolicyProps.thy ===== *)
theory PolicyProps
  imports Policy
begin

text \<open>
  What the policy pass guarantees: nothing forbidden survives payload analysis at any depth, the
  effective policy is never looser than any rule that applies, an authorized destination meets
  every condition, and routing is deterministic.
\<close>

section \<open>Payloads\<close>

text \<open>
  \<open>obj_at j parent ms q\<close>: the object \<open>ms\<close> occurs in \<open>j\<close> (itself under the key \<open>parent\<close>) under the key
  \<open>q\<close>; \<open>big_at j\<close>: a number beyond float64 occurs in it.
\<close>

inductive obj_at :: "json \<Rightarrow> string \<Rightarrow> (string \<times> json) list \<Rightarrow> string \<Rightarrow> bool" where
  obj_here: "obj_at (JObj ms) parent ms parent"
| obj_member: "(k, v) \<in> set ms \<Longrightarrow> obj_at v (go_lower k) ns q \<Longrightarrow> obj_at (JObj ms) parent ns q"
| obj_item: "j \<in> set js \<Longrightarrow> obj_at j parent ns q \<Longrightarrow> obj_at (JArr js) parent ns q"

inductive_simps obj_at_simps:
  "obj_at (JObj ms) parent ns q" "obj_at (JArr js) parent ns q" "obj_at JNull parent ns q"
  "obj_at (JBool b) parent ns q" "obj_at (JNum r) parent ns q" "obj_at JBigNum parent ns q"
  "obj_at (JStr s) parent ns q"

inductive big_at :: "json \<Rightarrow> bool" where
  big_here: "big_at JBigNum"
| big_member: "(k, v) \<in> set ms \<Longrightarrow> big_at v \<Longrightarrow> big_at (JObj ms)"
| big_item: "j \<in> set js \<Longrightarrow> big_at j \<Longrightarrow> big_at (JArr js)"

inductive_simps big_at_simps:
  "big_at (JObj ms)" "big_at (JArr js)" "big_at JNull" "big_at (JBool b)" "big_at (JNum r)"
  "big_at JBigNum" "big_at (JStr s)"

definition obj_ok :: "(string \<times> json) list \<Rightarrow> string \<Rightarrow> bool" where
  "obj_ok ms q \<longleftrightarrow> is_ok (check_type ms q) \<and> list_all (\<lambda>(k, v). check_member q k v = None) ms"

definition json_clean :: "json \<Rightarrow> string \<Rightarrow> bool" where
  "json_clean j parent \<longleftrightarrow> \<not> big_at j \<and> (\<forall>ms q. obj_at j parent ms q \<longrightarrow> obj_ok ms q)"

lemma json_clean_simps [simp]:
  "json_clean JNull parent" "json_clean (JBool b) parent" "json_clean (JNum r) parent"
  "json_clean (JStr s) parent" "\<not> json_clean JBigNum parent"
  "json_clean (JArr js) parent \<longleftrightarrow> (\<forall>j\<in>set js. json_clean j parent)"
  "json_clean (JObj ms) parent \<longleftrightarrow> obj_ok ms parent \<and> (\<forall>(k, v)\<in>set ms. json_clean v (go_lower k))"
  by (auto simp: json_clean_def obj_at_simps big_at_simps) blast

text \<open>The walk accepts exactly the clean documents, in whatever order the members come.\<close>

lemma walk_clean:
  "is_ok (walkPayload j vision parent) = json_clean j parent"
  "is_ok (walk_members ms vision parent) =
     (list_all (\<lambda>(k, v). check_member parent k v = None) ms \<and> (\<forall>(k, v)\<in>set ms. json_clean v (go_lower k)))"
  "is_ok (walk_items js vision parent) = (\<forall>j\<in>set js. json_clean j parent)"
proof (induction j vision parent and ms vision parent and js vision parent
    rule: walkPayload_walk_members_walk_items.induct)
  case (1 ms vision parent)
  then show ?case by (cases "check_type ms parent") (auto simp: obj_ok_def)
next
  case (9 k v ms vision parent)
  then show ?case
    by (cases "check_member parent k v"; cases "walkPayload v vision (go_lower k)") auto
next
  case (11 j js vision parent)
  then show ?case by (cases "walkPayload j vision parent") auto
qed auto


definition demo_usage_units :: usage where
  "demo_usage_units = \<lparr>us_input = 1000, us_output = 500, us_cached = 1000, us_other = []\<rparr>"

definition demo_inference :: request where
  "demo_inference =
     \<lparr>iq_capability = CapabilityChat, iq_model = ''m'', iq_endpoint = [],
      iq_payload = RawJson (JObj [(''model'', JStr ''m''),
        (''messages'', JArr [JObj [(''role'', JStr ''user''), (''content'', JStr ''hi'')]])]),
      iq_payload_len = 60, iq_trailing = False, iq_stream = False, iq_method = [], iq_path = [],
      iq_inputs = [\<lparr>or_tenant = ''t'', or_object = ''o1'', or_observed = 0\<rparr>], iq_artifacts = [],
      iq_conversations = [], iq_restriction = None, iq_estimate = demo_usage_units, iq_job = [],
      iq_attempt = []\<rparr>"


section \<open>The effective policy\<close>

lemma set_unionOf [simp]: "set (unionOf a b) = set a \<union> set b"
  by (auto simp: unionOf_def set_dedup_from)

text \<open>The policy pass merges exactly as the authorizer does.\<close>

lemma mergeInto_eq: "mergeInto = mergeRestriction"
  by (intro ext) (simp add: mergeInto_def mergeRestriction_def assuranceRankOf_def assuranceRank_def
      unionOf_def unionStrings_def)

interpretation ti: tightening mergeInto restriction_le
  unfolding mergeInto_eq by (rule tr.tightening_axioms)

lemma resolve_each_step:
  assumes "\<And>eff x eff'. f eff x = Inr eff' \<Longrightarrow> restriction_le eff eff'"
  shows "resolve_each f eff xs = Inr eff' \<Longrightarrow> restriction_le eff eff'"
  by (induction xs arbitrary: eff)
     (auto simp: bind_r_Inr intro: ti.looser_refl dest!: assms elim: ti.looser_trans)

lemma resolve_each_member:
  assumes "\<And>eff x eff'. f eff x = Inr eff' \<Longrightarrow> restriction_le eff eff'"
  shows "resolve_each f eff xs = Inr eff' \<Longrightarrow> x \<in> set xs \<Longrightarrow>
    \<exists>e1 e2. f e1 x = Inr e2 \<and> restriction_le e2 eff'"
proof (induction xs arbitrary: eff)
  case Nil
  then show ?case by simp
next
  case (Cons y ys)
  then obtain e2 where e: "f eff y = Inr e2" "resolve_each f e2 ys = Inr eff'" by (auto simp: bind_r_Inr)
  show ?case
  proof (cases "x = y")
    case True
    have "restriction_le e2 eff'" by (rule resolve_each_step[of f, OF _ e(2)]) (rule assms)
    then show ?thesis using e(1) True by blast
  next
    case False
    then show ?thesis using Cons.IH[OF e(2)] Cons.prems(2) by auto
  qed
qed

lemma merge_rows_Inr:
  "merge_rows env t k i eff = Inr eff' \<Longrightarrow>
   \<exists>rows. RestrictionsForSubject (pe_reads env) t k i = Inr rows \<and> eff' = foldl mergeInto eff rows"
  by (auto simp: merge_rows_def split: sum.splits)

lemma resolve_input_Inr:
  assumes "resolve_input env wall p req eff ref = Inr eff'"
  obtains x ver m where "or_tenant ref = [] \<or> or_tenant ref = p_tenant p"
    and "GetObject (pe_reads env) (p_tenant p) (or_object ref) = Inr x" and "ob_tenant x = p_tenant p"
    and "(if 0 < or_observed ref then GetObjectVersion (pe_reads env) (p_tenant p) (ob_id x) (or_observed ref)
          else LatestObjectVersion (pe_reads env) (p_tenant p) (ob_id x)) = Inr ver"
    and "ov_object ver = ob_id x"
    and "CanRead (pe_reads env) (pe_maxstale env) wall p x \<lparr>ro_now = None, ro_requested = iq_restriction req\<rparr> = None"
    and "EffectiveRestrictions (pe_reads env) x (Some ver) [] = Inr m" and "eff' = mergeInto eff m"
  using assms unfolding resolve_input_def Let_def
  by (auto split: if_split_asm sum.splits option.splits)

lemma resolve_input_le: "resolve_input env wall p req eff ref = Inr eff' \<Longrightarrow> restriction_le eff eff'"
  by (erule resolve_input_Inr) (simp add: ti.merge_left)

lemma resolve_artifact_Inr:
  assumes "resolve_artifact env p eff ref = Inr eff'"
  obtains get row where "pe_artifacts env = Some get" and "af_id ref \<noteq> []"
    and "get (p_tenant p) (af_id ref) = Some row" and "ai_tenant row = p_tenant p"
    and "artifact_matches ref row"
    and "merge_rows env (p_tenant p) RestrictionArtifact (af_id ref) eff = Inr eff'"
  using assms unfolding resolve_artifact_def Let_def by (auto split: if_split_asm option.splits)

lemma resolve_conversation_Inr:
  assumes "resolve_conversation env p eff c = Inr eff'"
  obtains get cv where "pe_conversations env = Some get" and "get (p_tenant p) c = Some cv"
    and "cv_tenant cv = p_tenant p"
    and "cv_owner cv = p_actor p \<or> (p_delegated_by p \<noteq> [] \<and> cv_owner cv = p_delegated_by p)"
    and "merge_rows env (p_tenant p) ''conversation'' c eff = Inr eff'"
  using assms unfolding resolve_conversation_def Let_def by (auto split: if_split_asm option.splits)

lemma merge_rows_le: "merge_rows env t k i eff = Inr eff' \<Longrightarrow> restriction_le eff eff'"
  by (auto dest!: merge_rows_Inr intro: ti.fold_left)

lemma resolve_artifact_le: "resolve_artifact env p eff ref = Inr eff' \<Longrightarrow> restriction_le eff eff'"
  by (erule resolve_artifact_Inr) (erule merge_rows_le)

lemma resolve_conversation_le: "resolve_conversation env p eff c = Inr eff' \<Longrightarrow> restriction_le eff eff'"
  by (erule resolve_conversation_Inr) (erule merge_rows_le)

lemma resolveInputs_chain:
  assumes "resolveInputs env wall p req = Inr eff"
  obtains e0 e1 e2 e3 where
    "merge_rows env (p_tenant p) RestrictionTenant (p_tenant p) (empty_restriction (p_tenant p)) = Inr e0"
    and "resolve_each (resolve_input env wall p req) e0 (iq_inputs req) = Inr e1"
    and "resolve_each (resolve_artifact env p) e1 (iq_artifacts req) = Inr e2"
    and "resolve_each (resolve_conversation env p) e2 (iq_conversations req) = Inr e3"
    and "eff = (case iq_restriction req of None \<Rightarrow> e3 | Some r \<Rightarrow> mergeInto e3 r)"
    and "restriction_le e0 eff" and "restriction_le e1 eff" and "restriction_le e2 eff" and "restriction_le e3 eff"
proof -
  obtain e0 e1 e2 e3 where e:
    "merge_rows env (p_tenant p) RestrictionTenant (p_tenant p) (empty_restriction (p_tenant p)) = Inr e0"
    "resolve_each (resolve_input env wall p req) e0 (iq_inputs req) = Inr e1"
    "resolve_each (resolve_artifact env p) e1 (iq_artifacts req) = Inr e2"
    "resolve_each (resolve_conversation env p) e2 (iq_conversations req) = Inr e3"
    "eff = (case iq_restriction req of None \<Rightarrow> e3 | Some r \<Rightarrow> mergeInto e3 r)"
    using assms unfolding resolveInputs_def bind_r_Inr by auto
  have l3: "restriction_le e3 eff"
    unfolding e(5) by (cases "iq_restriction req") (simp_all add: ti.looser_refl ti.merge_left)
  have l2: "restriction_le e2 eff"
    using resolve_each_step[OF resolve_conversation_le e(4)] l3 by (rule ti.looser_trans)
  have l1: "restriction_le e1 eff"
    using resolve_each_step[OF resolve_artifact_le e(3)] l2 by (rule ti.looser_trans)
  have l0: "restriction_le e0 eff"
    using resolve_each_step[OF resolve_input_le e(2)] l1 by (rule ti.looser_trans)
  show thesis by (rule that[OF e l0 l1 l2 l3])
qed

text \<open>
  What it means that one input, artifact or conversation is covered: it belongs to the tenant, it may be
  read or used now, and every restriction on it is in force.
\<close>

definition input_covered ::
    "policy_env \<Rightarrow> time \<Rightarrow> principal \<Rightarrow> request \<Rightarrow> source_restriction \<Rightarrow> object_ref \<Rightarrow> bool" where
  "input_covered env wall p req eff ref \<longleftrightarrow>
     (or_tenant ref = [] \<or> or_tenant ref = p_tenant p) \<and>
     (\<exists>x ver m. GetObject (pe_reads env) (p_tenant p) (or_object ref) = Inr x \<and> ob_tenant x = p_tenant p \<and>
        ov_object ver = ob_id x \<and>
        CanRead (pe_reads env) (pe_maxstale env) wall p x \<lparr>ro_now = None, ro_requested = iq_restriction req\<rparr> = None \<and>
        EffectiveRestrictions (pe_reads env) x (Some ver) [] = Inr m \<and> restriction_le m eff)"

definition rows_covered :: "policy_env \<Rightarrow> string \<Rightarrow> string \<Rightarrow> string \<Rightarrow> source_restriction \<Rightarrow> bool" where
  "rows_covered env t k i eff \<longleftrightarrow>
     (case RestrictionsForSubject (pe_reads env) t k i of
        Inr rows \<Rightarrow> list_all (\<lambda>r. restriction_le r eff) rows | Inl _ \<Rightarrow> False)"

definition artifact_covered :: "policy_env \<Rightarrow> principal \<Rightarrow> source_restriction \<Rightarrow> artifact_ref \<Rightarrow> bool" where
  "artifact_covered env p eff ref \<longleftrightarrow>
     (\<exists>get row. pe_artifacts env = Some get \<and> get (p_tenant p) (af_id ref) = Some row \<and>
        ai_tenant row = p_tenant p \<and> artifact_matches ref row) \<and>
     rows_covered env (p_tenant p) RestrictionArtifact (af_id ref) eff"

definition conversation_covered :: "policy_env \<Rightarrow> principal \<Rightarrow> source_restriction \<Rightarrow> string \<Rightarrow> bool" where
  "conversation_covered env p eff c \<longleftrightarrow>
     (\<exists>get cv. pe_conversations env = Some get \<and> get (p_tenant p) c = Some cv \<and> cv_tenant cv = p_tenant p \<and>
        (cv_owner cv = p_actor p \<or> (p_delegated_by p \<noteq> [] \<and> cv_owner cv = p_delegated_by p))) \<and>
     rows_covered env (p_tenant p) ''conversation'' c eff"

lemma merge_rows_covered:
  assumes "merge_rows env t k i e = Inr e'" and "restriction_le e' eff"
  shows "rows_covered env t k i eff"
proof -
  obtain rows where r: "RestrictionsForSubject (pe_reads env) t k i = Inr rows" "e' = foldl mergeInto e rows"
    using merge_rows_Inr[OF assms(1)] by blast
  have "restriction_le q eff" if "q \<in> set rows" for q
    using ti.fold_member[OF that, of e] assms(2) unfolding r(2) by (rule ti.looser_trans)
  then show ?thesis by (simp add: rows_covered_def r(1) list_all_iff)
qed


definition demo_versioned :: source_db where
  "demo_versioned =
     source_run (\<lambda>_. True) (\<lambda>_ _. True) demo_source
       [SevVersion ''t'' \<lparr>ov_object = ''o1'', ov_observed = 2, ov_artifact = ''a1'', ov_sha256 = ''ab'',
          ov_size = 3, ov_mime = [], ov_filename = [], ov_upstream = None, ov_provenance = [],
          ov_restrictions = []\<rparr>]"

definition demo_env :: policy_env where
  "demo_env =
     \<lparr>pe_reads = sql_reads demo_versioned, pe_maxstale = 0, pe_artifacts = None, pe_conversations = None,
      pe_limit = 1000\<rparr>"


section \<open>Destinations\<close>

text \<open>
  C34: an authorized destination meets every condition. It is an enabled endpoint of the principal's
  tenant that the principal may use, the requested alias is approved for the principal and bound by
  the endpoint to the upstream model of the decision, the endpoint advertises the capability the
  payload needs, no restriction in force denies that capability, and the required assurance is
  attested, or will be by the transport; and the effective policy is the resolved one.
\<close>

theorem authorized_destination_sound:
  assumes "AuthorizeDestination env wall p req dest = Inr d"
  shows "p_tenant p \<noteq> [] \<and> ep_tenant dest = p_tenant p \<and> ep_enabled dest \<and> EndpointAllowed p (ep_id dest) \<and>
    (iq_model req = [] \<or> ModelAllowed p (iq_model req)) \<and>
    upstreamModelFor dest (iq_model req) = Some (dc_model d) \<and>
    dc_capability d \<in> set (ep_capabilities dest) \<and> dc_capability d \<notin> set (sr_denied (dc_effective d)) \<and>
    resolveInputs env wall p req = Inr (dc_effective d) \<and>
    (assuranceRank (sr_assurance (dc_effective d)) < 2 \<or> ep_verified dest \<noteq> None \<or> ep_protocol dest = ''tinfoil'')"
proof -
  obtain info where i: "analyzePayload (pe_limit env) req = Inr info"
    and t: "p_tenant p \<noteq> []" "ep_tenant dest = p_tenant p"
    and e: "evaluate env wall p req dest (effectiveCapability (iq_capability req) info) = Inr d"
    using assms by (auto simp: AuthorizeDestination_def bind_r_Inr split: if_split_asm)
  show ?thesis
    using e t unfolding evaluate_def
    by (auto simp: bind_r_Inr capabilityAdvertised_def restrictionDenies_def list_ex_iff verifiable_def
        assuranceSatisfied_def assuranceRank_def split: if_split_asm option.splits)
qed

definition demo_endpoint :: endpoint where
  "demo_endpoint =
     \<lparr>ep_id = ''e'', ep_tenant = ''t'', ep_protocol = ''openai_compatible'', ep_sdk = [],
      ep_capabilities = [CapabilityChat, ''model:m=up''], ep_origin = ''https://x'', ep_credential = [],
      ep_assurance = [], ep_verified = Some 5, ep_private = False, ep_enabled = True\<rparr>"

definition demo_caller :: principal where
  "demo_caller = demo_reader\<lparr>p_models_all := True, p_endpoints_all := True\<rparr>"

theorem authorized_destination_sound_witness:
  "case AuthorizeDestination demo_env 30 demo_caller demo_inference demo_endpoint of
     Inr d \<Rightarrow> dc_model d = ''up'' \<and> resolveInputs demo_env 30 demo_caller demo_inference = Inr (dc_effective d)
   | Inl e \<Rightarrow> False"
proof -
  have "is_ok (AuthorizeDestination demo_env 30 demo_caller demo_inference demo_endpoint)" by code_simp
  then obtain d where d: "AuthorizeDestination demo_env 30 demo_caller demo_inference demo_endpoint = Inr d"
    by (auto elim!: is_okE)
  have "upstreamModelFor demo_endpoint (iq_model demo_inference) = Some ''up''" by code_simp
  then show ?thesis using authorized_destination_sound[OF d] unfolding d sum.case by simp
qed

text \<open>
  Routing is deterministic and picks the first eligible endpoint. The chosen endpoint is the
  tenant's, enabled, advertises the capability, is allowed to the principal together with the alias,
  and binds the alias; it is the pinned one if the request pins one, and otherwise no eligible
  endpoint of the tenant has a smaller id. Without an eligible endpoint the answer is \<open>ErrNoRoute\<close>.
\<close>

theorem route_picks_first_eligible:
  "case route eps p req capability of
     Inr e \<Rightarrow> e \<in> set eps \<and> ep_tenant e = p_tenant p \<and> eligible p req capability e \<and>
       (if iq_endpoint req \<noteq> [] then ep_id e = iq_endpoint req
        else list_all (\<lambda>d. ep_id e \<le> ep_id d)
               (filter (\<lambda>d. ep_tenant d = p_tenant p \<and> eligible p req capability d) eps))
   | Inl er \<Rightarrow> er = ErrNoRoute \<and>
       (if iq_endpoint req \<noteq> []
        then (case sql_GetEndpoint eps (p_tenant p) (iq_endpoint req) of
                None \<Rightarrow> True | Some e \<Rightarrow> \<not> eligible p req capability e)
        else filter (\<lambda>d. ep_tenant d = p_tenant p \<and> eligible p req capability d) eps = [])"
proof (cases "iq_endpoint req = []")
  case False
  then show ?thesis
    by (auto simp: route_def sql_GetEndpoint_def find_row_def split: option.splits
        dest!: find_Some_iff[THEN iffD1])
next
  case True
  let ?cs = "sql_ListCapabilities eps (p_tenant p) capability"
  have mem: "d \<in> set ?cs" if "d \<in> set eps" "ep_tenant d = p_tenant p" "eligible p req capability d" for d
    using that by (simp add: sql_ListCapabilities_def eligible_def capabilityAdvertised_def)
  have srt: "sorted (map ep_id ?cs)" by (simp add: sql_ListCapabilities_def)
  show ?thesis
  proof (cases "find_row (eligible p req capability) ?cs")
    case None
    then have "\<forall>d\<in>set ?cs. \<not> eligible p req capability d"
      by (simp add: find_row_def find_None_iff)
    then have "filter (\<lambda>d. ep_tenant d = p_tenant p \<and> eligible p req capability d) eps = []"
      using mem by (auto simp: filter_empty_conv)
    then show ?thesis by (simp add: route_def None True)
  next
    case (Some e)
    obtain i where i: "i < length ?cs" "eligible p req capability (?cs ! i)" "e = ?cs ! i"
        "\<forall>j<i. \<not> eligible p req capability (?cs ! j)"
      using Some by (auto simp: find_row_def find_Some_iff)
    have e: "e \<in> set eps" "ep_tenant e = p_tenant p"
      using i(1,3) nth_mem[OF i(1)] by (simp_all add: sql_ListCapabilities_def)
    have "ep_id e \<le> ep_id d"
      if m: "d \<in> set eps" "ep_tenant d = p_tenant p" "eligible p req capability d" for d
    proof -
      obtain j where j: "j < length ?cs" "d = ?cs ! j" using mem[OF m] by (auto simp: in_set_conv_nth)
      have "i \<le> j" using i(4) j m(3) by (meson not_le)
      then show ?thesis using sorted_nth_mono[OF srt, of i j] j i(1,3) by simp
    qed
    then show ?thesis using True Some e i(2,3) by (auto simp: route_def list_all_iff)
  qed
qed

end
