(* ===== verification/Admission.thy ===== *)
theory Admission
  imports Prelude "HOL-Library.AList"
begin

text \<open>
  The process-local admission gate of internal/inference/admission.go: three bounded pools with
  FIFO queues and an optional tenant limit. Every goroutine that calls \<open>Acquire\<close> is a numbered
  caller; what it does between two critical sections (waiting on its wake channel, holding the
  permit) is its \<open>caller\<close> state, so every interleaving of callers is a sequence of \<open>adm_event\<close>s,
  each one critical section under the gate's mutex.
\<close>

section \<open>Limits and pools\<close>

datatype admission_class = AdmissionExecute | AdmissionManage | AdmissionFanOut

record class_limit =
  MaxActive :: int
  MaxQueued :: int
  PerTenant :: int
  QueueTimeout :: duration

record admission_config =
  cfg_execute :: class_limit
  cfg_manage :: class_limit
  cfg_fanout :: class_limit

definition zero_limit :: class_limit where
  "zero_limit = \<lparr>MaxActive = 0, MaxQueued = 0, PerTenant = 0, QueueTimeout = 0\<rparr>"

definition DefaultAdmissionConfig :: admission_config where
  "DefaultAdmissionConfig =
     \<lparr>cfg_execute = zero_limit\<lparr>MaxActive := 32, MaxQueued := 128\<rparr>,
      cfg_manage = zero_limit\<lparr>MaxActive := 8, MaxQueued := 64\<rparr>,
      cfg_fanout = zero_limit\<lparr>MaxActive := 8, MaxQueued := 256\<rparr>\<rparr>"

text \<open>The tenant table is a Go map, kept as an association list without duplicate keys.\<close>

record admission_pool =
  pl_limit :: class_limit
  pl_active :: int
  pl_queued :: int
  pl_tenants :: "(string \<times> int) list"
  pl_waiters :: "nat list"

datatype caller =
    Waiting admission_class string bool
  | Holding admission_class string
  | Finished

record admission =
  ad_execute :: admission_pool
  ad_manage :: admission_pool
  ad_fanout :: admission_pool
  ad_callers :: "caller list"

definition pool_of :: "admission \<Rightarrow> admission_class \<Rightarrow> admission_pool" where
  "pool_of a cls =
     (case cls of AdmissionExecute \<Rightarrow> ad_execute a | AdmissionManage \<Rightarrow> ad_manage a
      | AdmissionFanOut \<Rightarrow> ad_fanout a)"

definition set_pool :: "admission \<Rightarrow> admission_class \<Rightarrow> admission_pool \<Rightarrow> admission" where
  "set_pool a cls p =
     (case cls of AdmissionExecute \<Rightarrow> a\<lparr>ad_execute := p\<rparr> | AdmissionManage \<Rightarrow> a\<lparr>ad_manage := p\<rparr>
      | AdmissionFanOut \<Rightarrow> a\<lparr>ad_fanout := p\<rparr>)"

definition new_pool :: "class_limit \<Rightarrow> admission_pool" where
  "new_pool l =
     \<lparr>pl_limit = (if MaxActive l \<le> 0 then l\<lparr>MaxActive := 1\<rparr> else l), pl_active = 0, pl_queued = 0,
      pl_tenants = [], pl_waiters = []\<rparr>"

definition NewAdmission :: "admission_config \<Rightarrow> admission" where
  "NewAdmission cfg0 =
     (let zero = \<lparr>cfg_execute = zero_limit, cfg_manage = zero_limit, cfg_fanout = zero_limit\<rparr>;
          cfg = (if cfg0 = zero then DefaultAdmissionConfig else cfg0)
      in \<lparr>ad_execute = new_pool (cfg_execute cfg), ad_manage = new_pool (cfg_manage cfg),
          ad_fanout = new_pool (cfg_fanout cfg), ad_callers = []\<rparr>)"

section \<open>The tenant table\<close>

definition tenant_count :: "(string \<times> int) list \<Rightarrow> string \<Rightarrow> int" where
  "tenant_count m t = (case map_of m t of None \<Rightarrow> 0 | Some n \<Rightarrow> n)"

definition tenant_inc :: "(string \<times> int) list \<Rightarrow> string \<Rightarrow> (string \<times> int) list" where
  "tenant_inc m t = AList.update t (tenant_count m t + 1) m"

text \<open>Decrement, and delete the entry when it reaches zero.\<close>

definition tenant_dec :: "(string \<times> int) list \<Rightarrow> string \<Rightarrow> (string \<times> int) list" where
  "tenant_dec m t =
     (if tenant_count m t - 1 \<le> 0 then AList.delete t m else AList.update t (tenant_count m t - 1) m)"

section \<open>Operations\<close>

text \<open>
  \<open>grantLocked\<close>: while there is capacity and a waiter, hand the slot to the head of the queue.
  The result is the pool and the callers whose \<open>granted\<close> flag and wake signal were set.
\<close>

fun grant_loop :: "int \<Rightarrow> int \<Rightarrow> int \<Rightarrow> nat list \<Rightarrow> int \<times> int \<times> nat list \<times> nat list" where
  "grant_loop maxa active queued [] = (active, queued, [], [])"
| "grant_loop maxa active queued (w # ws) =
     (if active < maxa
      then (case grant_loop maxa (active + 1) (queued - 1) ws of
              (a, q, rest, granted) \<Rightarrow> (a, q, rest, w # granted))
      else (active, queued, w # ws, []))"

definition mark_granted :: "caller \<Rightarrow> caller" where
  "mark_granted c = (case c of Waiting cls t _ \<Rightarrow> Waiting cls t True | _ \<Rightarrow> c)"

definition grant_callers :: "nat list \<Rightarrow> caller list \<Rightarrow> caller list" where
  "grant_callers ids cs = map (\<lambda>(i, c). if i \<in> set ids then mark_granted c else c) (enumerate 0 cs)"

definition grantLocked :: "admission \<Rightarrow> admission_class \<Rightarrow> admission" where
  "grantLocked a cls =
     (let p = pool_of a cls in
      case grant_loop (MaxActive (pl_limit p)) (pl_active p) (pl_queued p) (pl_waiters p) of
        (act, q, rest, granted) \<Rightarrow>
          set_pool (a\<lparr>ad_callers := grant_callers granted (ad_callers a)\<rparr>) cls
            (p\<lparr>pl_active := act, pl_queued := q, pl_waiters := rest\<rparr>))"

datatype acquire_result = Admitted | Enqueued | ErrOverloaded

text \<open>\<open>Acquire\<close> up to its wait; the caller's number is its index in \<open>ad_callers\<close>.\<close>

definition tenant_full :: "admission_pool \<Rightarrow> string \<Rightarrow> bool" where
  "tenant_full p t \<longleftrightarrow> 0 < PerTenant (pl_limit p) \<and> PerTenant (pl_limit p) \<le> tenant_count (pl_tenants p) t"

definition Acquire :: "admission \<Rightarrow> admission_class \<Rightarrow> string \<Rightarrow> admission \<times> acquire_result" where
  "Acquire a cls t =
     (let p = pool_of a cls; full = tenant_full p t in
      if pl_active p < MaxActive (pl_limit p) \<and> pl_waiters p = [] \<and> \<not> full
      then (set_pool (a\<lparr>ad_callers := ad_callers a @ [Holding cls t]\<rparr>) cls
              (p\<lparr>pl_active := pl_active p + 1, pl_tenants := tenant_inc (pl_tenants p) t\<rparr>), Admitted)
      else let atQueue = MaxQueued (pl_limit p) \<le> 0 \<or> MaxQueued (pl_limit p) \<le> pl_queued p in
      if full \<or> atQueue then (a\<lparr>ad_callers := ad_callers a @ [Finished]\<rparr>, ErrOverloaded)
      else (set_pool (a\<lparr>ad_callers := ad_callers a @ [Waiting cls t False]\<rparr>) cls
              (p\<lparr>pl_queued := pl_queued p + 1, pl_tenants := tenant_inc (pl_tenants p) t,
                 pl_waiters := pl_waiters p @ [length (ad_callers a)]\<rparr>), Enqueued))"

definition caller_at :: "admission \<Rightarrow> nat \<Rightarrow> caller" where
  "caller_at a n = (if n < length (ad_callers a) then ad_callers a ! n else Finished)"

text \<open>The rest of \<open>Acquire\<close>: the wake signal of a granted waiter is received.\<close>

definition AcquireWake :: "admission \<Rightarrow> nat \<Rightarrow> admission" where
  "AcquireWake a n =
     (case caller_at a n of
        Waiting cls t True \<Rightarrow> a\<lparr>ad_callers := (ad_callers a)[n := Holding cls t]\<rparr>
      | _ \<Rightarrow> a)"

text \<open>The rest of \<open>Acquire\<close>: the caller's context (or the queue timeout) ends first.\<close>

definition AcquireCancel :: "admission \<Rightarrow> nat \<Rightarrow> admission" where
  "AcquireCancel a n =
     (case caller_at a n of
        Waiting cls t granted \<Rightarrow>
          let p = pool_of a cls;
              p1 = (if granted then p\<lparr>pl_active := pl_active p - 1\<rparr>
                    else p\<lparr>pl_waiters := remove1 n (pl_waiters p), pl_queued := pl_queued p - 1\<rparr>);
              p2 = p1\<lparr>pl_tenants := tenant_dec (pl_tenants p1) t\<rparr>
          in grantLocked (set_pool (a\<lparr>ad_callers := (ad_callers a)[n := Finished]\<rparr>) cls p2) cls
      | _ \<Rightarrow> a)"

text \<open>\<open>Release\<close> runs once per permit.\<close>

definition Release :: "admission \<Rightarrow> nat \<Rightarrow> admission" where
  "Release a n =
     (case caller_at a n of
        Holding cls t \<Rightarrow>
          let p = pool_of a cls
          in grantLocked (set_pool (a\<lparr>ad_callers := (ad_callers a)[n := Finished]\<rparr>) cls
                            (p\<lparr>pl_active := pl_active p - 1\<rparr>)) cls
      | _ \<Rightarrow> a)"

definition Stats :: "admission \<Rightarrow> admission_class \<Rightarrow> int \<times> int \<times> nat" where
  "Stats a cls = (let p = pool_of a cls in (pl_active p, pl_queued p, length (pl_tenants p)))"

datatype adm_event =
    AdmAcquire admission_class string
  | AdmWake nat
  | AdmCancel nat
  | AdmRelease nat

fun adm_step :: "admission \<Rightarrow> adm_event \<Rightarrow> admission" where
  "adm_step a (AdmAcquire cls t) = fst (Acquire a cls t)"
| "adm_step a (AdmWake n) = AcquireWake a n"
| "adm_step a (AdmCancel n) = AcquireCancel a n"
| "adm_step a (AdmRelease n) = Release a n"

definition adm_run :: "admission \<Rightarrow> adm_event list \<Rightarrow> admission" where
  "adm_run a evs = foldl adm_step a evs"

section \<open>Pools and callers\<close>

lemma pool_set_pool [simp]:
  "pool_of (set_pool a cls p) cls' = (if cls' = cls then p else pool_of a cls')"
  by (cases cls; cases cls') (simp_all add: pool_of_def set_pool_def)

lemma callers_set_pool [simp]: "ad_callers (set_pool a cls p) = ad_callers a"
  by (cases cls) (simp_all add: set_pool_def)

lemma pool_of_callers [simp]: "pool_of (a\<lparr>ad_callers := cs\<rparr>) cls = pool_of a cls"
  by (cases cls) (simp_all add: pool_of_def)

text \<open>What a caller occupies in the pool of a class.\<close>

definition occupies :: "admission_class \<Rightarrow> caller \<Rightarrow> bool" where
  "occupies cls c \<longleftrightarrow> (\<exists>t. c = Holding cls t \<or> c = Waiting cls t True)"

definition queued_in :: "admission_class \<Rightarrow> caller \<Rightarrow> bool" where
  "queued_in cls c \<longleftrightarrow> (\<exists>t. c = Waiting cls t False)"

lemma occupies_simps [simp]:
  "occupies cls (Holding c t) \<longleftrightarrow> c = cls" "occupies cls (Waiting c t g) \<longleftrightarrow> c = cls \<and> g"
  "\<not> occupies cls Finished"
  "queued_in cls (Waiting c t g) \<longleftrightarrow> c = cls \<and> \<not> g" "\<not> queued_in cls (Holding c t)"
  "\<not> queued_in cls Finished"
  by (auto simp: occupies_def queued_in_def)

text \<open>The invariant of one pool against the callers.\<close>

definition pool_ok :: "caller list \<Rightarrow> admission_class \<Rightarrow> admission_pool \<Rightarrow> bool" where
  "pool_ok cs cls p \<longleftrightarrow>
     1 \<le> MaxActive (pl_limit p) \<and> pl_active p \<le> MaxActive (pl_limit p) \<and>
     pl_active p = int (count_rows (occupies cls) cs) \<and>
     pl_queued p = int (length (pl_waiters p)) \<and>
     pl_queued p \<le> max 0 (MaxQueued (pl_limit p)) \<and>
     sorted (pl_waiters p) \<and> distinct (pl_waiters p) \<and>
     set (pl_waiters p) = {n. n < length cs \<and> queued_in cls (cs ! n)} \<and>
     (pl_waiters p \<noteq> [] \<longrightarrow> pl_active p = MaxActive (pl_limit p))"

definition adm_inv :: "admission \<Rightarrow> bool" where
  "adm_inv a \<longleftrightarrow> (\<forall>cls. pool_ok (ad_callers a) cls (pool_of a cls))"

lemma grant_loop_spec:
  assumes "grant_loop maxa active queued ws = (a, q, rest, granted)"
  shows "ws = granted @ rest \<and> a = active + int (length granted) \<and> q = queued - int (length granted) \<and>
    (rest \<noteq> [] \<longrightarrow> maxa \<le> a) \<and> (active \<le> maxa \<longrightarrow> a \<le> maxa)"
  using assms
proof (induction ws arbitrary: active queued a q rest granted)
  case Nil
  then show ?case by simp
next
  case (Cons w ws)
  show ?case
  proof (cases "active < maxa")
    case True
    obtain a1 q1 r1 g1 where r: "grant_loop maxa (active + 1) (queued - 1) ws = (a1, q1, r1, g1)"
      by (metis prod_cases4)
    then show ?thesis using Cons.prems Cons.IH[OF r] True by auto
  next
    case False
    then show ?thesis using Cons.prems by auto
  qed
qed

lemma length_grant_callers [simp]: "length (grant_callers ids cs) = length cs"
  by (simp add: grant_callers_def)

lemma nth_grant_callers:
  "n < length cs \<Longrightarrow> grant_callers ids cs ! n = (if n \<in> set ids then mark_granted (cs ! n) else cs ! n)"
  by (simp add: grant_callers_def nth_enumerate_eq)

lemma count_rows_card: "count_rows P xs = card {i. i < length xs \<and> P (xs ! i)}"
  by (simp add: count_rows_def length_filter_conv_card)

lemma count_rows_snoc [simp]: "count_rows P (xs @ [x]) = count_rows P xs + (if P x then 1 else 0)"
  by (simp add: count_rows_def)

lemma mark_granted_simps [simp]:
  "queued_in cls c \<Longrightarrow> occupies cls' (mark_granted c) = (cls' = cls)"
  "\<not> queued_in cls' (mark_granted c)"
  "queued_in cls c \<Longrightarrow> \<not> occupies cls' c"
  by (auto simp: queued_in_def occupies_def mark_granted_def split: caller.splits)

lemma queued_in_class: "queued_in cls c \<Longrightarrow> queued_in cls' c \<longleftrightarrow> cls' = cls"
  by (auto simp: queued_in_def)

lemma granted_counts:
  assumes d: "distinct ids" and sub: "\<forall>i\<in>set ids. i < length cs \<and> queued_in cls (cs ! i)"
  shows "count_rows (occupies cls) (grant_callers ids cs) = count_rows (occupies cls) cs + length ids"
    and "cls' \<noteq> cls \<Longrightarrow> count_rows (occupies cls') (grant_callers ids cs) = count_rows (occupies cls') cs"
    and "{n. n < length (grant_callers ids cs) \<and> queued_in cls' (grant_callers ids cs ! n)}
      = {n. n < length cs \<and> queued_in cls' (cs ! n)} - set ids"
proof -
  have nth: "grant_callers ids cs ! i = (if i \<in> set ids then mark_granted (cs ! i) else cs ! i)"
    if "i < length cs" for i
    using that by (rule nth_grant_callers)
  have mg: "occupies c (mark_granted (cs ! i)) \<longleftrightarrow> c = cls" "\<not> occupies c (cs ! i)" if "i \<in> set ids" for i c
    using sub that mark_granted_simps(1,3) by blast+
  have "{i. i < length cs \<and> occupies cls (grant_callers ids cs ! i)}
      = {i. i < length cs \<and> occupies cls (cs ! i)} \<union> set ids"
    using sub mg by (auto simp: nth split: if_splits)
  moreover have "{i. i < length cs \<and> occupies cls (cs ! i)} \<inter> set ids = {}"
    using sub mark_granted_simps(3) by blast
  ultimately show "count_rows (occupies cls) (grant_callers ids cs) = count_rows (occupies cls) cs + length ids"
    using d by (simp add: count_rows_card card_Un_disjoint distinct_card)
  show "count_rows (occupies cls') (grant_callers ids cs) = count_rows (occupies cls') cs" if "cls' \<noteq> cls"
  proof -
    have "{i. i < length cs \<and> occupies cls' (grant_callers ids cs ! i)}
        = {i. i < length cs \<and> occupies cls' (cs ! i)}"
      using mg that by (auto simp: nth split: if_splits)
    then show ?thesis by (simp add: count_rows_card)
  qed
  show "{n. n < length (grant_callers ids cs) \<and> queued_in cls' (grant_callers ids cs ! n)}
      = {n. n < length cs \<and> queued_in cls' (cs ! n)} - set ids"
    using sub by (auto simp: nth split: if_splits)
qed

text \<open>A pool in the middle of a critical section: everything but the work-conserving clause.\<close>

definition pool_pre :: "caller list \<Rightarrow> admission_class \<Rightarrow> admission_pool \<Rightarrow> bool" where
  "pool_pre cs cls p \<longleftrightarrow>
     1 \<le> MaxActive (pl_limit p) \<and> pl_active p \<le> MaxActive (pl_limit p) \<and>
     pl_active p = int (count_rows (occupies cls) cs) \<and>
     pl_queued p = int (length (pl_waiters p)) \<and>
     pl_queued p \<le> max 0 (MaxQueued (pl_limit p)) \<and>
     sorted (pl_waiters p) \<and> distinct (pl_waiters p) \<and>
     set (pl_waiters p) = {n. n < length cs \<and> queued_in cls (cs ! n)}"

lemma pool_ok_pre:
  "pool_ok cs cls p \<longleftrightarrow> pool_pre cs cls p \<and> (pl_waiters p \<noteq> [] \<longrightarrow> pl_active p = MaxActive (pl_limit p))"
  by (auto simp: pool_ok_def pool_pre_def)

lemma grantLocked_inv:
  assumes pre: "pool_pre (ad_callers a) cls (pool_of a cls)"
    and others: "\<And>c. c \<noteq> cls \<Longrightarrow> pool_ok (ad_callers a) c (pool_of a c)"
  shows "adm_inv (grantLocked a cls)"
proof -
  let ?p = "pool_of a cls" and ?cs = "ad_callers a"
  obtain act q rest granted where
    g: "grant_loop (MaxActive (pl_limit ?p)) (pl_active ?p) (pl_queued ?p) (pl_waiters ?p) = (act, q, rest, granted)"
    by (metis prod_cases4)
  note spec = grant_loop_spec[OF g]
  have ids: "\<forall>i\<in>set granted. i < length ?cs \<and> queued_in cls (?cs ! i)"
    using pre spec by (auto simp: pool_pre_def set_eq_iff)
  have dst: "distinct granted" "distinct rest" "sorted rest" "set granted \<inter> set rest = {}"
    using pre spec by (auto simp: pool_pre_def sorted_append)
  note counts = granted_counts[OF dst(1) ids]
  let ?a' = "grantLocked a cls" and ?cs' = "grant_callers granted ?cs"
  have a': "?a' = set_pool (a\<lparr>ad_callers := ?cs'\<rparr>) cls
      (?p\<lparr>pl_active := act, pl_queued := q, pl_waiters := rest\<rparr>)"
    by (simp add: grantLocked_def Let_def g)
  have this_pool: "pool_ok ?cs' cls (?p\<lparr>pl_active := act, pl_queued := q, pl_waiters := rest\<rparr>)"
    using pre spec dst counts(1) counts(3)[of cls]
    by (auto simp: pool_ok_def pool_pre_def)
  have other: "pool_ok ?cs' c (pool_of a c)" if c: "c \<noteq> cls" for c
  proof -
    have q: "{n. n < length ?cs' \<and> queued_in c (?cs' ! n)} = {n. n < length ?cs \<and> queued_in c (?cs ! n)}"
      unfolding counts(3)[of c] using ids queued_in_class c by blast
    show ?thesis unfolding pool_ok_def counts(2)[OF c] q by (rule others[OF c, unfolded pool_ok_def])
  qed
  show ?thesis unfolding adm_inv_def a' using this_pool other by simp
qed

lemma count_rows_update:
  assumes "n < length cs"
  shows "int (count_rows P (cs[n := c])) =
    int (count_rows P cs) - (if P (cs ! n) then 1 else 0) + (if P c then 1 else 0)"
  using assms
proof (induction cs arbitrary: n)
  case Nil
  then show ?case by simp
next
  case (Cons x xs)
  have cons: "count_rows P (y # ys) = (if P y then 1 else 0) + count_rows P ys" for y ys
    by (simp add: count_rows_def)
  show ?case
  proof (cases n)
    case 0
    then show ?thesis by (simp add: cons)
  next
    case (Suc m)
    then show ?thesis using Cons.IH[of m] Cons.prems by (simp add: cons)
  qed
qed

lemma queued_set_update:
  assumes "n < length cs"
  shows "{i. i < length (cs[n := c]) \<and> queued_in cls (cs[n := c] ! i)} =
    (if queued_in cls c then insert n else (\<lambda>A. A - {n})) {i. i < length cs \<and> queued_in cls (cs ! i)}"
  using assms by (auto simp: nth_list_update)

lemma queued_set_snoc:
  "{i. i < length (cs @ [c]) \<and> queued_in cls ((cs @ [c]) ! i)} =
    (if queued_in cls c then insert (length cs) else id) {i. i < length cs \<and> queued_in cls (cs ! i)}"
  by (auto simp: nth_append less_Suc_eq)

lemma sorted_snoc_max: "sorted xs \<Longrightarrow> \<forall>x\<in>set xs. x < (n::nat) \<Longrightarrow> sorted (xs @ [n])"
  by (auto simp: sorted_append)

lemma pool_ok_other_update:
  assumes "pool_ok cs c p" and "n < length cs"
    and "\<not> occupies c (cs ! n)" and "\<not> queued_in c (cs ! n)" and "\<not> occupies c x" and "\<not> queued_in c x"
  shows "pool_ok (cs[n := x]) c p"
proof -
  have "n \<notin> {i. i < length cs \<and> queued_in c (cs ! i)}" using assms(4) by simp
  then have q: "{i. i < length (cs[n := x]) \<and> queued_in c (cs[n := x] ! i)} =
      {i. i < length cs \<and> queued_in c (cs ! i)}"
    unfolding queued_set_update[OF assms(2)] using assms(6) by simp
  have k: "int (count_rows (occupies c) (cs[n := x])) = int (count_rows (occupies c) cs)"
    using count_rows_update[OF assms(2), of "occupies c" x] assms(3,5) by simp
  show ?thesis using assms(1) unfolding pool_ok_def q k .
qed

lemma pool_ok_other_snoc:
  assumes "pool_ok cs c p" and "\<not> occupies c x" and "\<not> queued_in c x"
  shows "pool_ok (cs @ [x]) c p"
proof -
  have q: "{i. i < length (cs @ [x]) \<and> queued_in c ((cs @ [x]) ! i)} = {i. i < length cs \<and> queued_in c (cs ! i)}"
    unfolding queued_set_snoc using assms(3) by simp
  have k: "count_rows (occupies c) (cs @ [x]) = count_rows (occupies c) cs" using assms(2) by simp
  show ?thesis using assms(1) unfolding pool_ok_def q k .
qed

lemma caller_at_lt: "caller_at a n \<noteq> Finished \<Longrightarrow> n < length (ad_callers a) \<and> ad_callers a ! n = caller_at a n"
  by (auto simp: caller_at_def split: if_splits)

lemma Acquire_inv:
  assumes inv: "adm_inv a"
  shows "adm_inv (fst (Acquire a cls t))"
proof -
  let ?p = "pool_of a cls" and ?cs = "ad_callers a"
  have ok: "pool_ok ?cs c (pool_of a c)" for c using inv by (simp add: adm_inv_def)
  note this_ok = ok[of cls, unfolded pool_ok_def]
  let ?full = "tenant_full ?p t"
  let ?atq = "MaxQueued (pl_limit ?p) \<le> 0 \<or> MaxQueued (pl_limit ?p) \<le> pl_queued ?p"
  let ?free = "pl_active ?p < MaxActive (pl_limit ?p) \<and> pl_waiters ?p = [] \<and> \<not> ?full"
  consider (admit) "?free" | (reject) "\<not> ?free" "?full \<or> ?atq" | (queue) "\<not> ?free" "\<not> (?full \<or> ?atq)"
    by blast
  then show ?thesis
  proof cases
    case admit
    have "pool_ok (?cs @ [Holding cls t]) cls
        (?p\<lparr>pl_active := pl_active ?p + 1, pl_tenants := tenant_inc (pl_tenants ?p) t\<rparr>)"
      unfolding pool_ok_def queued_set_snoc using this_ok admit by simp
    moreover have "pool_ok (?cs @ [Holding cls t]) c (pool_of a c)" if "c \<noteq> cls" for c
      by (rule pool_ok_other_snoc[OF ok]) (use that in simp_all)
    ultimately show ?thesis using admit by (simp add: Acquire_def Let_def adm_inv_def)
  next
    case reject
    have "pool_ok (?cs @ [Finished]) c (pool_of a c)" for c
      by (rule pool_ok_other_snoc[OF ok]) simp_all
    moreover have "fst (Acquire a cls t) = a\<lparr>ad_callers := ?cs @ [Finished]\<rparr>"
      by (simp only: Acquire_def Let_def if_not_P[OF reject(1)] if_P[OF reject(2)] fst_conv)
    ultimately show ?thesis by (simp add: adm_inv_def)
  next
    case queue
    have parts: "1 \<le> MaxActive (pl_limit ?p)" "pl_active ?p \<le> MaxActive (pl_limit ?p)"
        "pl_active ?p = int (count_rows (occupies cls) ?cs)" "pl_queued ?p = int (length (pl_waiters ?p))"
        "sorted (pl_waiters ?p)" "distinct (pl_waiters ?p)"
        "pl_waiters ?p \<noteq> [] \<longrightarrow> pl_active ?p = MaxActive (pl_limit ?p)"
      and sw: "set (pl_waiters ?p) = {n. n < length ?cs \<and> queued_in cls (?cs ! n)}"
      using this_ok by blast+
    have lt: "\<forall>x\<in>set (pl_waiters ?p). x < length ?cs" unfolding sw by simp
    have full: "pl_active ?p = MaxActive (pl_limit ?p)"
    proof (cases "pl_waiters ?p = []")
      case True
      then show ?thesis using queue parts(2) by linarith
    next
      case False
      then show ?thesis using parts(7) by blast
    qed
    have room: "pl_queued ?p + 1 \<le> max 0 (MaxQueued (pl_limit ?p))" using queue(2) by linarith
    have eq: "fst (Acquire a cls t) = set_pool (a\<lparr>ad_callers := ?cs @ [Waiting cls t False]\<rparr>) cls
        (?p\<lparr>pl_queued := pl_queued ?p + 1, pl_tenants := tenant_inc (pl_tenants ?p) t,
            pl_waiters := pl_waiters ?p @ [length ?cs]\<rparr>)"
      by (simp only: Acquire_def Let_def if_not_P[OF queue(1)] if_not_P[OF queue(2)] fst_conv)
    have "pool_ok (?cs @ [Waiting cls t False]) cls
        (?p\<lparr>pl_queued := pl_queued ?p + 1, pl_tenants := tenant_inc (pl_tenants ?p) t,
            pl_waiters := pl_waiters ?p @ [length ?cs]\<rparr>)"
      unfolding pool_ok_def queued_set_snoc
      using parts(1,4-6) full room lt sorted_snoc_max[OF parts(5) lt] parts(3)[symmetric]
      by (simp add: sw)
    moreover have "pool_ok (?cs @ [Waiting cls t False]) c (pool_of a c)" if "c \<noteq> cls" for c
      by (rule pool_ok_other_snoc[OF ok]) (use that in simp_all)
    ultimately show ?thesis unfolding eq by (simp add: adm_inv_def)
  qed
qed

lemma AcquireWake_inv:
  assumes inv: "adm_inv a"
  shows "adm_inv (AcquireWake a n)"
proof (cases "\<exists>cls t. caller_at a n = Waiting cls t True")
  case False
  then have "AcquireWake a n = a" by (auto simp: AcquireWake_def split: caller.splits bool.splits)
  then show ?thesis using inv by simp
next
  case True
  then obtain cls t where c: "caller_at a n = Waiting cls t True" by blast
  have n: "n < length (ad_callers a)" "ad_callers a ! n = Waiting cls t True"
    using caller_at_lt[of a n] c by auto
  have "pool_ok ((ad_callers a)[n := Holding cls t]) k (pool_of a k)" for k
  proof -
    have ok: "pool_ok (ad_callers a) k (pool_of a k)" using inv by (simp add: adm_inv_def)
    have q: "{i. i < length ((ad_callers a)[n := Holding cls t]) \<and> queued_in k ((ad_callers a)[n := Holding cls t] ! i)}
        = {i. i < length (ad_callers a) \<and> queued_in k (ad_callers a ! i)}"
      unfolding queued_set_update[OF n(1)] using n by auto
    have c: "int (count_rows (occupies k) ((ad_callers a)[n := Holding cls t]))
        = int (count_rows (occupies k) (ad_callers a))"
      using count_rows_update[OF n(1), of "occupies k" "Holding cls t"] n(2) by simp
    show ?thesis using ok unfolding pool_ok_def q c .
  qed
  then show ?thesis by (simp add: AcquireWake_def c adm_inv_def)
qed

lemma AcquireCancel_inv:
  assumes inv: "adm_inv a"
  shows "adm_inv (AcquireCancel a n)"
proof (cases "\<exists>cls t g. caller_at a n = Waiting cls t g")
  case False
  then have "AcquireCancel a n = a" by (auto simp: AcquireCancel_def split: caller.splits)
  then show ?thesis using inv by simp
next
  case True
  then obtain cls t g where c: "caller_at a n = Waiting cls t g" by blast
  have n: "n < length (ad_callers a)" "ad_callers a ! n = Waiting cls t g"
    using caller_at_lt[of a n] c by auto
  let ?p = "pool_of a cls" and ?cs = "(ad_callers a)[n := Finished]"
  have ok: "pool_ok (ad_callers a) k (pool_of a k)" for k using inv by (simp add: adm_inv_def)
  note this_ok = ok[of cls, unfolded pool_ok_def]
  let ?p1 = "if g then ?p\<lparr>pl_active := pl_active ?p - 1\<rparr>
    else ?p\<lparr>pl_waiters := remove1 n (pl_waiters ?p), pl_queued := pl_queued ?p - 1\<rparr>"
  let ?p2 = "?p1\<lparr>pl_tenants := tenant_dec (pl_tenants ?p1) t\<rparr>"
  have cnt: "int (count_rows (occupies cls) ?cs) = int (count_rows (occupies cls) (ad_callers a)) - (if g then 1 else 0)"
    using count_rows_update[OF n(1), of "occupies cls" Finished] n(2) by simp
  have mem: "\<not> g \<longleftrightarrow> n \<in> set (pl_waiters ?p)" using this_ok n by auto
  have len: "\<not> g \<Longrightarrow> int (length (remove1 n (pl_waiters ?p))) = int (length (pl_waiters ?p)) - 1"
    using mem length_pos_if_in_set[of n "pl_waiters ?p"]
    by (simp add: length_remove1 of_nat_diff Suc_le_eq)
  have "pool_pre ?cs cls ?p2"
    unfolding pool_pre_def queued_set_update[OF n(1)] cnt
    using this_ok mem len by (auto simp: sorted_remove1)
  moreover have "pool_ok ?cs k (pool_of a k)" if "k \<noteq> cls" for k
    by (rule pool_ok_other_update[OF ok n(1)]) (use that n(2) in auto)
  moreover have "AcquireCancel a n = grantLocked (set_pool (a\<lparr>ad_callers := ?cs\<rparr>) cls ?p2) cls"
    by (simp only: AcquireCancel_def c caller.case Let_def)
  ultimately show ?thesis using grantLocked_inv[of "set_pool (a\<lparr>ad_callers := ?cs\<rparr>) cls ?p2" cls] by simp
qed

lemma Release_inv:
  assumes inv: "adm_inv a"
  shows "adm_inv (Release a n)"
proof (cases "\<exists>cls t. caller_at a n = Holding cls t")
  case False
  then have "Release a n = a" by (auto simp: Release_def split: caller.splits)
  then show ?thesis using inv by simp
next
  case True
  then obtain cls t where c: "caller_at a n = Holding cls t" by blast
  have n: "n < length (ad_callers a)" "ad_callers a ! n = Holding cls t"
    using caller_at_lt[of a n] c by auto
  let ?p = "pool_of a cls" and ?cs = "(ad_callers a)[n := Finished]"
  have ok: "pool_ok (ad_callers a) k (pool_of a k)" for k using inv by (simp add: adm_inv_def)
  note this_ok = ok[of cls, unfolded pool_ok_def]
  have cnt: "int (count_rows (occupies cls) ?cs) = int (count_rows (occupies cls) (ad_callers a)) - 1"
    using count_rows_update[OF n(1), of "occupies cls" Finished] n(2) by simp
  have "n \<notin> {i. i < length (ad_callers a) \<and> queued_in cls (ad_callers a ! i)}" using n by simp
  then have "pool_pre ?cs cls (?p\<lparr>pl_active := pl_active ?p - 1\<rparr>)"
    unfolding pool_pre_def queued_set_update[OF n(1)] cnt using this_ok by auto
  moreover have "pool_ok ?cs k (pool_of a k)" if "k \<noteq> cls" for k
    by (rule pool_ok_other_update[OF ok n(1)]) (use that n(2) in auto)
  ultimately show ?thesis
    by (simp add: Release_def c Let_def) (rule grantLocked_inv; simp)
qed

lemma adm_step_inv: "adm_inv a \<Longrightarrow> adm_inv (adm_step a ev)"
  by (cases ev) (simp_all add: Acquire_inv AcquireWake_inv AcquireCancel_inv Release_inv)

interpretation adm: transition_system adm_step adm_inv
  by unfold_locales (rule adm_step_inv)

lemma NewAdmission_inv: "adm_inv (NewAdmission cfg)"
proof -
  have "pool_ok [] c (new_pool l)" for c l
    by (auto simp: pool_ok_def new_pool_def count_rows_def)
  then show ?thesis
    unfolding adm_inv_def NewAdmission_def Let_def
    by (auto simp: pool_of_def split: admission_class.splits)
qed

lemma adm_run_inv: "adm_inv (adm_run (NewAdmission cfg) evs)"
  using adm.run_inv[OF NewAdmission_inv] by (simp add: adm_run_def adm.run_def)

section \<open>Properties\<close>

text \<open>
  C30: every pool stays within its bounds under every interleaving of callers: the active count is
  exactly the number of permits out (held or handed over), never above the limit; the queue count is
  exactly the number of waiting callers, never above the queue bound; and the gate is
  work-conserving: a caller waits only while every slot of its class is taken.
\<close>

theorem admission_bounds:
  fixes cfg evs cls
  defines "a \<equiv> adm_run (NewAdmission cfg) evs"
  shows "pl_active (pool_of a cls) = int (count_rows (occupies cls) (ad_callers a)) \<and>
    pl_active (pool_of a cls) \<le> MaxActive (pl_limit (pool_of a cls)) \<and>
    pl_queued (pool_of a cls) = int (card {n. n < length (ad_callers a) \<and> queued_in cls (ad_callers a ! n)}) \<and>
    pl_queued (pool_of a cls) \<le> max 0 (MaxQueued (pl_limit (pool_of a cls))) \<and>
    (pl_queued (pool_of a cls) = 0 \<or> pl_active (pool_of a cls) = MaxActive (pl_limit (pool_of a cls)))"
proof -
  have ok: "pool_ok (ad_callers a) cls (pool_of a cls)"
    using adm_run_inv[of cfg evs] by (simp add: adm_inv_def a_def)
  have q: "pl_queued (pool_of a cls) = int (length (pl_waiters (pool_of a cls)))"
    "set (pl_waiters (pool_of a cls)) = {n. n < length (ad_callers a) \<and> queued_in cls (ad_callers a ! n)}"
    "distinct (pl_waiters (pool_of a cls))"
    using ok unfolding pool_ok_def by blast+
  have c: "pl_queued (pool_of a cls) = int (card {n. n < length (ad_callers a) \<and> queued_in cls (ad_callers a ! n)})"
    using q(1) distinct_card[OF q(3)] q(2) by simp
  have "pl_queued (pool_of a cls) = 0 \<or> pl_active (pool_of a cls) = MaxActive (pl_limit (pool_of a cls))"
  proof -
    have "pl_waiters (pool_of a cls) \<noteq> [] \<longrightarrow> pl_active (pool_of a cls) = MaxActive (pl_limit (pool_of a cls))"
      using ok unfolding pool_ok_def by blast
    then show ?thesis using q(1) by (cases "pl_waiters (pool_of a cls)") simp_all
  qed
  then show ?thesis using ok c unfolding pool_ok_def by blast
qed

text \<open>
  FIFO hand-over. Releasing a permit while callers wait gives the slot to the caller that has
  waited longest, keeps the order of the others and leaves the active count unchanged; the released
  slot is never lost.
\<close>

theorem release_hands_over:
  assumes "adm_inv a" and "caller_at a n = Holding cls t" and "pl_waiters (pool_of a cls) = w # ws"
  shows "pl_waiters (pool_of (Release a n) cls) = ws \<and>
    pl_active (pool_of (Release a n) cls) = pl_active (pool_of a cls) \<and>
    occupies cls (caller_at (Release a n) w) \<and> (\<forall>v\<in>set ws. w < v)"
proof -
  let ?p = "pool_of a cls" and ?cs = "(ad_callers a)[n := Finished]"
  have ok: "pool_ok (ad_callers a) cls ?p" using assms(1) by (simp add: adm_inv_def)
  have f: "pl_active ?p = MaxActive (pl_limit ?p)" "sorted (w # ws)" "distinct (w # ws)"
    using ok assms(3) by (auto simp: pool_ok_def)
  have "set (pl_waiters ?p) = {i. i < length (ad_callers a) \<and> queued_in cls (ad_callers a ! i)}"
    using ok unfolding pool_ok_def by blast
  then have w: "w < length (ad_callers a)" "queued_in cls (ad_callers a ! w)" using assms(3) by auto
  have n: "n < length (ad_callers a)" "ad_callers a ! n = Holding cls t"
    using caller_at_lt[of a n] assms(2) by auto
  have wn: "w \<noteq> n" using w(2) n(2) by auto
  have g: "grant_loop (MaxActive (pl_limit ?p)) (pl_active ?p - 1) (pl_queued ?p) (w # ws)
      = (pl_active ?p, pl_queued ?p - 1, ws, [w])"
    using f(1) by (cases ws) auto
  have "Release a n = grantLocked (set_pool (a\<lparr>ad_callers := ?cs\<rparr>) cls (?p\<lparr>pl_active := pl_active ?p - 1\<rparr>)) cls"
    by (simp only: Release_def assms(2) caller.case Let_def)
  then have r: "Release a n = set_pool
      (set_pool (a\<lparr>ad_callers := ?cs\<rparr>) cls (?p\<lparr>pl_active := pl_active ?p - 1\<rparr>)
        \<lparr>ad_callers := grant_callers [w] ?cs\<rparr>) cls
      (?p\<lparr>pl_active := pl_active ?p, pl_queued := pl_queued ?p - 1, pl_waiters := ws\<rparr>)"
    by (simp add: grantLocked_def Let_def assms(3) g del: grant_loop.simps)
  have "occupies cls (grant_callers [w] ?cs ! w)"
    using w wn by (simp add: nth_grant_callers)
  then have "occupies cls (caller_at (Release a n) w)" using w by (simp add: r caller_at_def)
  then show ?thesis using f(2,3) by (auto simp: r less_le)
qed

definition demo_limit :: class_limit where
  "demo_limit = zero_limit\<lparr>MaxActive := 1, MaxQueued := 2\<rparr>"

definition demo_gate :: admission where
  "demo_gate =
     adm_run (NewAdmission \<lparr>cfg_execute = demo_limit, cfg_manage = demo_limit, cfg_fanout = demo_limit\<rparr>)
       [AdmAcquire AdmissionExecute ''a'', AdmAcquire AdmissionExecute ''b'', AdmAcquire AdmissionExecute ''a'']"

theorem release_hands_over_witness:
  "pl_waiters (pool_of (Release demo_gate 0) AdmissionExecute) = [2] \<and>
   occupies AdmissionExecute (caller_at (Release demo_gate 0) 1)"
proof -
  have "adm_inv demo_gate" unfolding demo_gate_def by (rule adm_run_inv)
  moreover have "caller_at demo_gate 0 = Holding AdmissionExecute ''a''"
    "pl_waiters (pool_of demo_gate AdmissionExecute) = [1, 2]" by code_simp+
  ultimately show ?thesis using release_hands_over[of demo_gate 0 AdmissionExecute "''a''" 1 "[2]"] by simp
qed

text \<open>The class whose pool an event can touch.\<close>

definition event_class :: "admission \<Rightarrow> adm_event \<Rightarrow> admission_class option" where
  "event_class a ev =
     (case ev of
        AdmAcquire cls t \<Rightarrow> Some cls
      | AdmWake n \<Rightarrow> None
      | AdmCancel n \<Rightarrow> (case caller_at a n of Waiting cls t g \<Rightarrow> Some cls | _ \<Rightarrow> None)
      | AdmRelease n \<Rightarrow> (case caller_at a n of Holding cls t \<Rightarrow> Some cls | _ \<Rightarrow> None))"

lemma pool_of_grantLocked_other: "c \<noteq> cls \<Longrightarrow> pool_of (grantLocked a cls) c = pool_of a c"
  by (simp add: grantLocked_def Let_def split: prod.split)

text \<open>
  The pools are independent. An event of one class never changes the pool of another, so a
  saturated execute queue cannot take slots from lifecycle management or fan-out work.
\<close>

theorem classes_independent:
  assumes "event_class a ev \<noteq> Some c"
  shows "pool_of (adm_step a ev) c = pool_of a c"
  using assms
  by (cases ev)
     (auto simp: event_class_def Acquire_def AcquireWake_def AcquireCancel_def Release_def Let_def
        pool_of_grantLocked_other split: caller.splits bool.splits)

theorem classes_independent_witness:
  "pool_of (adm_step demo_gate (AdmRelease 0)) AdmissionManage = pool_of demo_gate AdmissionManage"
proof (rule classes_independent)
  show "event_class demo_gate (AdmRelease 0) \<noteq> Some AdmissionManage" by code_simp
qed

text \<open>A tenant that acquires and releases one execute slot \<open>k\<close> times in sequence.\<close>

definition acquire_release_cycles :: "string \<Rightarrow> nat \<Rightarrow> adm_event list" where
  "acquire_release_cycles t k =
     concat (map (\<lambda>i. [AdmAcquire AdmissionExecute t, AdmRelease i]) [0..<k])"

lemma cycles_state:
  assumes "PerTenant (cfg_execute cfg) = int k" and "0 < k" and "i \<le> k"
  shows "ad_execute (adm_run (NewAdmission cfg) (acquire_release_cycles t i))
      = (new_pool (cfg_execute cfg))\<lparr>pl_tenants := (if i = 0 then [] else [(t, int i)])\<rparr> \<and>
    ad_callers (adm_run (NewAdmission cfg) (acquire_release_cycles t i)) = replicate i Finished"
  using assms(3)
proof (induction i)
  case 0
  have "cfg \<noteq> \<lparr>cfg_execute = zero_limit, cfg_manage = zero_limit, cfg_fanout = zero_limit\<rparr>"
    using assms(1,2) by (auto simp: zero_limit_def)
  then show ?case by (simp add: adm_run_def acquire_release_cycles_def NewAdmission_def new_pool_def)
next
  case (Suc i)
  let ?a = "adm_run (NewAdmission cfg) (acquire_release_cycles t i)"
  let ?np = "new_pool (cfg_execute cfg)"
  define ten where "ten = (if i = 0 then [] else [(t, int i)])"
  have a: "ad_execute ?a = ?np\<lparr>pl_tenants := ten\<rparr>" "ad_callers ?a = replicate i Finished"
    using Suc by (simp_all add: ten_def)
  have lim: "PerTenant (pl_limit ?np) = int k" "0 < MaxActive (pl_limit ?np)"
      "pl_active ?np = 0" "pl_waiters ?np = []"
    using assms(1) by (auto simp: new_pool_def)
  have cnt: "tenant_count ten t = int i" by (simp add: tenant_count_def ten_def)
  have inc: "tenant_inc ten t = [(t, int (Suc i))]" by (simp add: tenant_inc_def tenant_count_def ten_def)
  have step: "adm_run (NewAdmission cfg) (acquire_release_cycles t (Suc i))
      = Release (fst (Acquire ?a AdmissionExecute t)) i"
    by (simp add: acquire_release_cycles_def adm_run_def)
  define b where "b = ?a\<lparr>ad_callers := replicate i Finished @ [Holding AdmissionExecute t],
      ad_execute := ?np\<lparr>pl_active := 1, pl_tenants := [(t, int (Suc i))]\<rparr>\<rparr>"
  have acq: "fst (Acquire ?a AdmissionExecute t) = b"
    using Suc.prems by (simp add: Acquire_def Let_def pool_of_def set_pool_def a lim tenant_full_def cnt inc b_def)
  have at: "caller_at b i = Holding AdmissionExecute t" by (simp add: b_def caller_at_def nth_append)
  have rel: "Release b i = grantLocked (b\<lparr>ad_callers := replicate (Suc i) Finished,
      ad_execute := ?np\<lparr>pl_tenants := [(t, int (Suc i))], pl_active := 0\<rparr>\<rparr>) AdmissionExecute"
  proof -
    have b: "ad_execute b = ?np\<lparr>pl_active := 1, pl_tenants := [(t, int (Suc i))]\<rparr>"
        "ad_callers b = replicate i Finished @ [Holding AdmissionExecute t]"
      by (simp_all add: b_def)
    have "Release b i = grantLocked (set_pool (b\<lparr>ad_callers := (ad_callers b)[i := Finished]\<rparr>) AdmissionExecute
        (pool_of b AdmissionExecute\<lparr>pl_active := pl_active (pool_of b AdmissionExecute) - 1\<rparr>)) AdmissionExecute"
      by (simp only: Release_def at caller.case Let_def)
    then show ?thesis
      by (simp add: pool_of_def set_pool_def b list_update_append replicate_append_same[symmetric]
          del: of_nat_Suc)
  qed
  have gc: "grant_callers [] cs = cs" for cs
    by (rule nth_equalityI) (simp_all add: nth_grant_callers)
  show ?case unfolding step acq rel
    by (simp add: grantLocked_def Let_def pool_of_def set_pool_def lim gc)
qed

text \<open>
  The tenant limit counts permits for ever. \<open>Release\<close> gives the slot back but not the
  tenant's occupancy, so a tenant with limit \<open>k\<close> is refused as overloaded after \<open>k\<close> finished
  requests, with nothing active and nothing queued.
\<close>

theorem tenant_limit_never_released:
  assumes "PerTenant (cfg_execute cfg) = int k" and "0 < k"
  shows "snd (Acquire (adm_run (NewAdmission cfg) (acquire_release_cycles t k)) AdmissionExecute t) = ErrOverloaded \<and>
    Stats (adm_run (NewAdmission cfg) (acquire_release_cycles t k)) AdmissionExecute = (0, 0, 1)"
proof -
  note st = cycles_state[OF assms order_refl, of t]
  have lim: "PerTenant (pl_limit (new_pool (cfg_execute cfg))) = int k"
      "pl_active (new_pool (cfg_execute cfg)) = 0" "pl_queued (new_pool (cfg_execute cfg)) = 0"
    using assms(1) by (auto simp: new_pool_def)
  show ?thesis using st assms(2)
    by (simp add: Acquire_def Let_def pool_of_def tenant_full_def tenant_count_def lim Stats_def)
qed

theorem tenant_limit_never_released_witness:
  "Stats (adm_run (NewAdmission \<lparr>cfg_execute = demo_limit\<lparr>PerTenant := 1\<rparr>, cfg_manage = demo_limit,
     cfg_fanout = demo_limit\<rparr>) (acquire_release_cycles ''a'' 1)) AdmissionExecute = (0, 0, 1)"
  using tenant_limit_never_released[of "\<lparr>cfg_execute = demo_limit\<lparr>PerTenant := 1\<rparr>,
      cfg_manage = demo_limit, cfg_fanout = demo_limit\<rparr>" 1 "''a''"] by simp

end
