(* ===== verification/Usage.thy ===== *)
theory Usage
  imports Billing Json
begin

text \<open>
  Exact usage accounting of internal/inference/usage.go: the usage object of a provider response as
  disjoint billing units, and the accounting stream that watches a streamed body for its usage and
  terminal event. A response body is the document \<open>encoding/json\<close> reads in it; for the stream, whose
  lines are cut from raw bytes, that reading is the parameter \<open>parse\<close>. Go's conversion of a
  float64 that int64 cannot hold depends on the machine: it is the parameter \<open>conv\<close>.
\<close>

section \<open>Usage of one document\<close>

text \<open>
  \<open>json.Unmarshal\<close> into a \<open>map[string]any\<close>: fails on a document that is not an object, or that
  holds a number float64 cannot, at any depth; \<open>null\<close> gives the nil map.
\<close>

fun has_big :: "json \<Rightarrow> bool" where
  "has_big JBigNum = True"
| "has_big (JArr js) = list_ex has_big js"
| "has_big (JObj ms) = list_ex (\<lambda>(k, v). has_big v) ms"
| "has_big JNull = False"
| "has_big (JBool b) = False"
| "has_big (JNum q) = False"
| "has_big (JStr s) = False"

definition unmarshal_map :: "raw_json \<Rightarrow> (string \<times> json) list option" where
  "unmarshal_map raw =
     (case raw of
        RawJson (JObj ms) \<Rightarrow> (if has_big (JObj ms) then None else Some ms)
      | RawJson JNull \<Rightarrow> Some []
      | _ \<Rightarrow> None)"

definition usageObject :: "(string \<times> json) list \<Rightarrow> (string \<times> json) list option" where
  "usageObject env = (case obj_get env ''usage'' of Some j \<Rightarrow> as_object j | None \<Rightarrow> None)"

text \<open>\<open>int64(math.Ceil(f))\<close> of a positive number; everything else counts nothing.\<close>

definition to_int64 :: "(int \<Rightarrow> i64) \<Rightarrow> int \<Rightarrow> i64" where
  "to_int64 conv n = (if n < 2 ^ 63 then word_of_int n else conv n)"

definition usageField :: "(int \<Rightarrow> i64) \<Rightarrow> json option \<Rightarrow> i64" where
  "usageField conv v =
     (case v of
        Some (JNum q) \<Rightarrow> if q \<le> 0 then 0 else to_int64 conv \<lceil>q\<rceil>
      | _ \<Rightarrow> 0)"

definition consumed :: "string list" where
  "consumed =
     [''input_tokens'', ''prompt_tokens'', ''output_tokens'', ''completion_tokens'', ''total_tokens'',
      ''cached_tokens'', ''reasoning_tokens'']"

definition details_cached :: "(int \<Rightarrow> i64) \<Rightarrow> (string \<times> json) list \<Rightarrow> string \<Rightarrow> i64" where
  "details_cached conv u k =
     (case obj_get u k of
        Some (JObj d) \<Rightarrow> usageField conv (obj_get d ''cached_tokens'')
      | _ \<Rightarrow> 0)"

definition first_nonzero :: "i64 \<Rightarrow> i64 \<Rightarrow> i64" where
  "first_nonzero a b = (if a = 0 then b else a)"

text \<open>Every other positive number of the object, as a unit kind of its own.\<close>

fun other_units :: "(int \<Rightarrow> i64) \<Rightarrow> (string \<times> json) list \<Rightarrow> (string \<times> i64) list" where
  "other_units conv [] = []"
| "other_units conv ((k, v) # u) =
     (if k \<in> set consumed \<or> has_suffix k ''_details'' then other_units conv u
      else let n = usageField conv (Some v)
           in if 0 <s n then (k, n) # other_units conv u else other_units conv u)"

definition usageFromMap :: "(int \<Rightarrow> i64) \<Rightarrow> (string \<times> json) list \<Rightarrow> usage" where
  "usageFromMap conv u =
     (let input = first_nonzero (usageField conv (obj_get u ''input_tokens'')) (usageField conv (obj_get u ''prompt_tokens''));
          output = first_nonzero (usageField conv (obj_get u ''output_tokens'')) (usageField conv (obj_get u ''completion_tokens''));
          c0 = details_cached conv u ''prompt_tokens_details'' + details_cached conv u ''input_tokens_details'';
          cached = (if input <s c0 then input else c0)
      in \<lparr>us_input = input - cached, us_output = output, us_cached = cached,
          us_other = other_units conv u\<rparr>)"

definition usageFromJSON :: "(int \<Rightarrow> i64) \<Rightarrow> raw_json \<Rightarrow> usage option" where
  "usageFromJSON conv raw =
     (case unmarshal_map raw of
        None \<Rightarrow> None
      | Some env \<Rightarrow>
          let u1 = usageObject env;
              u2 = (if u1 = None
                    then (case obj_get env ''response'' of Some (JObj resp) \<Rightarrow> usageObject resp | _ \<Rightarrow> None)
                    else u1);
              u3 = (if u2 = None \<and> obj_get env ''object'' = Some (JStr ''response.input_tokens'')
                    then Some [(''input_tokens'', case obj_get env ''input_tokens'' of Some v \<Rightarrow> v | None \<Rightarrow> JNull)]
                    else u2)
          in map_option (usageFromMap conv) u3)"

section \<open>The accounting stream\<close>

definition terminalStreamTypes :: "string list" where
  "terminalStreamTypes =
     [''response.completed'', ''response.incomplete'', ''response.failed'', ''response.cancelled'']"

text \<open>\<open>as_done\<close> is the \<open>sync.Once\<close> of the final accounting; no usage line seen is the empty string.\<close>

record acc_stream =
  as_pending :: string
  as_usage :: string
  as_terminal :: bool
  as_done :: bool

definition newAccountingStream :: acc_stream where
  "newAccountingStream = \<lparr>as_pending = [], as_usage = [], as_terminal = False, as_done = False\<rparr>"

abbreviation "newline \<equiv> CHR 0x0A"
abbreviation "carriage_return \<equiv> CHR 0x0D"

definition trim_suffix :: "string \<Rightarrow> string \<Rightarrow> string" where
  "trim_suffix s p = (if has_suffix s p then take (length s - length p) s else s)"

definition has_usage :: "(string \<times> json) list \<Rightarrow> bool" where
  "has_usage env \<longleftrightarrow>
     usageObject env \<noteq> None \<or>
     (case obj_get env ''response'' of Some (JObj resp) \<Rightarrow> usageObject resp \<noteq> None | _ \<Rightarrow> False)"

definition is_terminal :: "(string \<times> json) list \<Rightarrow> bool" where
  "is_terminal env \<longleftrightarrow>
     (case obj_get env ''type'' of
        Some (JStr t) \<Rightarrow> t \<in> set terminalStreamTypes \<or> t = ''error'' | _ \<Rightarrow> False)"

definition observeLine :: "(string \<Rightarrow> raw_json) \<Rightarrow> acc_stream \<Rightarrow> string \<Rightarrow> acc_stream" where
  "observeLine parse s line =
     (let l = trim_suffix line [carriage_return] in
      if \<not> has_prefix l ''data:'' then s
      else let data = dropWhile (\<lambda>c. c = CHR '' '') (trim_prefix l ''data:'') in
      if data = ''[DONE]'' then s\<lparr>as_terminal := True\<rparr>
      else case unmarshal_map (parse data) of
        None \<Rightarrow> s
      | Some env \<Rightarrow>
          let s1 = (if is_terminal env then s\<lparr>as_terminal := True\<rparr> else s)
          in if has_usage env then s1\<lparr>as_usage := data\<rparr> else s1)"

text \<open>\<open>bytes.IndexByte(pending, newline)\<close> and the two slices around it.\<close>

fun cut_line :: "string \<Rightarrow> (string \<times> string) option" where
  "cut_line [] = None"
| "cut_line (c # cs) =
     (if c = newline then Some ([], cs) else map_option (\<lambda>(l, r). (c # l, r)) (cut_line cs))"

lemma cut_line_shorter: "cut_line s = Some (l, r) \<Longrightarrow> length r < length s"
  by (induction s arbitrary: l) (auto split: if_split_asm)

function drain :: "(string \<Rightarrow> raw_json) \<Rightarrow> acc_stream \<Rightarrow> acc_stream" where
  "drain parse s =
     (case cut_line (as_pending s) of
        None \<Rightarrow> s
      | Some (line, rest) \<Rightarrow> drain parse (observeLine parse (s\<lparr>as_pending := rest\<rparr>) line))"
  by pat_completeness auto

lemma observeLine_pending [simp]: "as_pending (observeLine parse s line) = as_pending s"
  by (simp add: observeLine_def Let_def split: option.split)

termination drain
  by (relation "measure (\<lambda>(p, s). length (as_pending s))") (auto dest: cut_line_shorter)

declare drain.simps [simp del]

definition max_tail :: nat where
  "max_tail = 1048576"

definition scan_chunk :: "(string \<Rightarrow> raw_json) \<Rightarrow> acc_stream \<Rightarrow> string \<Rightarrow> acc_stream" where
  "scan_chunk parse s chunk =
     (let s1 = drain parse (s\<lparr>as_pending := as_pending s @ chunk\<rparr>);
          n = length (as_pending s1)
      in if max_tail < n then s1\<lparr>as_pending := drop (n - max_tail) (as_pending s1)\<rparr> else s1)"

text \<open>
  \<open>finalize\<close>: the callback runs at most once; it is handed the usage line, and its result is known
  only after a terminal event.
\<close>

definition finalize :: "acc_stream \<Rightarrow> acc_stream \<times> (string \<times> bool) option" where
  "finalize s = (if as_done s then (s, None) else (s\<lparr>as_done := True\<rparr>, Some (as_usage s, as_terminal s)))"

definition stream_read ::
    "(string \<Rightarrow> raw_json) \<Rightarrow> acc_stream \<Rightarrow> string \<Rightarrow> bool \<Rightarrow> acc_stream \<times> (string \<times> bool) option" where
  "stream_read parse s chunk eof =
     (let s1 = (if chunk \<noteq> [] then scan_chunk parse s chunk else s)
      in if eof then finalize s1 else (s1, None))"

definition stream_close :: "acc_stream \<Rightarrow> acc_stream \<times> (string \<times> bool) option" where
  "stream_close s = finalize s"

definition stream_usage :: "(int \<Rightarrow> i64) \<Rightarrow> (string \<Rightarrow> raw_json) \<Rightarrow> string \<times> bool \<Rightarrow> usage option" where
  "stream_usage conv parse r =
     (case r of (raw, terminal) \<Rightarrow>
        if raw = [] then None
        else case usageFromJSON conv (parse raw) of
          Some u \<Rightarrow> if terminal then Some u else None
        | None \<Rightarrow> None)"

section \<open>The units are exact\<close>

text \<open>The units a JSON value stands for: the ceiling of a positive number.\<close>

definition units_of :: "json option \<Rightarrow> int" where
  "units_of v = (case v of Some (JNum q) \<Rightarrow> max 0 \<lceil>q\<rceil> | _ \<Rightarrow> 0)"

definition small :: "json \<Rightarrow> bool" where
  "small v = (case v of JNum q \<Rightarrow> q \<le> 2 ^ 61 | _ \<Rightarrow> True)"

text \<open>Every number the accounting reads is at most \<open>2 ^ 61\<close>.\<close>

definition countable_usage :: "(string \<times> json) list \<Rightarrow> bool" where
  "countable_usage u \<longleftrightarrow>
     list_all (\<lambda>(k, v). small v \<and> (case v of JObj d \<Rightarrow> list_all (\<lambda>(k, v). small v) d | _ \<Rightarrow> True)) u"

lemma units_of_range: "small v \<Longrightarrow> 0 \<le> units_of (Some v) \<and> units_of (Some v) \<le> 2 ^ 61"
  by (cases v) (auto simp: units_of_def small_def ceiling_le_iff)

lemma sint_word_of_int: "- (2 ^ 63) \<le> n \<Longrightarrow> n < 2 ^ 63 \<Longrightarrow> sint (word_of_int n :: i64) = n"
  by (simp add: sint_sbintrunc' signed_take_bit_int_eq_self)

lemma usageField_exact:
  assumes "\<And>v. m = Some v \<Longrightarrow> small v"
  shows "sint (usageField conv m) = units_of m \<and> 0 \<le> units_of m \<and> units_of m \<le> 2 ^ 61"
proof (cases m)
  case None
  then show ?thesis by (simp add: usageField_def units_of_def)
next
  case (Some v)
  note r = units_of_range[OF assms[OF Some]]
  show ?thesis
  proof (cases v)
    case (JNum q)
    have "sint (usageField conv m) = units_of m"
    proof (cases "q \<le> 0")
      case True
      then have "\<lceil>q\<rceil> \<le> 0" by (simp add: ceiling_le_iff)
      then show ?thesis using True by (simp add: usageField_def units_of_def Some JNum)
    next
      case False
      then have "0 \<le> \<lceil>q\<rceil>" "\<lceil>q\<rceil> \<le> 2 ^ 61" using r by (simp_all add: units_of_def JNum)
      then show ?thesis using False by (simp add: usageField_def units_of_def Some JNum to_int64_def sint_word_of_int)
    qed
    then show ?thesis using r Some by simp
  qed (use r in \<open>simp_all add: Some usageField_def units_of_def\<close>)
qed

lemma countable_get: "countable_usage u \<Longrightarrow> obj_get u k = Some v \<Longrightarrow> small v"
  unfolding countable_usage_def obj_get_def list_all_iff by (fastforce dest!: map_of_SomeD)

lemma countable_details:
  "countable_usage u \<Longrightarrow> obj_get u k = Some (JObj d) \<Longrightarrow> obj_get d k' = Some v \<Longrightarrow> small v"
  unfolding countable_usage_def obj_get_def list_all_iff by (fastforce dest!: map_of_SomeD)

text \<open>The counts reported under two alternative names, and the cached counts of the details.\<close>

definition reported :: "(string \<times> json) list \<Rightarrow> string \<Rightarrow> string \<Rightarrow> int" where
  "reported u a b = (if units_of (obj_get u a) = 0 then units_of (obj_get u b) else units_of (obj_get u a))"

definition cached_in :: "(string \<times> json) list \<Rightarrow> string \<Rightarrow> int" where
  "cached_in u k = (case obj_get u k of Some (JObj d) \<Rightarrow> units_of (obj_get d ''cached_tokens'') | _ \<Rightarrow> 0)"

lemma first_nonzero_exact:
  assumes "countable_usage u"
  shows "sint (first_nonzero (usageField conv (obj_get u a)) (usageField conv (obj_get u b))) = reported u a b \<and>
    0 \<le> reported u a b \<and> reported u a b \<le> 2 ^ 61"
proof -
  have "usageField conv (obj_get u a) = 0 \<longleftrightarrow> units_of (obj_get u a) = 0"
    using usageField_exact[of "obj_get u a" conv] countable_get[OF assms] by (metis sint_0 signed_word_eqI)
  then show ?thesis
    using usageField_exact[of "obj_get u a" conv] usageField_exact[of "obj_get u b" conv] countable_get[OF assms]
    by (auto simp: first_nonzero_def reported_def)
qed

lemma details_cached_exact:
  assumes "countable_usage u"
  shows "sint (details_cached conv u k) = cached_in u k \<and> 0 \<le> cached_in u k \<and> cached_in u k \<le> 2 ^ 61"
proof (cases "obj_get u k")
  case (Some v)
  then show ?thesis
    using usageField_exact[of "obj_get d ''cached_tokens''" conv for d] countable_details[OF assms, of k]
    by (cases v) (auto simp: details_cached_def cached_in_def)
qed (simp add: details_cached_def cached_in_def)

lemma sint_add_small:
  "0 \<le> sint (a :: i64) \<Longrightarrow> sint a \<le> 2 ^ 61 \<Longrightarrow> 0 \<le> sint (b :: i64) \<Longrightarrow> sint b \<le> 2 ^ 61 \<Longrightarrow>
   sint (a + b) = sint a + sint b"
  by (simp add: sint_word_ariths signed_take_bit_int_eq_self)

lemma sint_diff_small:
  "0 \<le> sint (b :: i64) \<Longrightarrow> sint b \<le> sint (a :: i64) \<Longrightarrow> sint (a - b) = sint a - sint b"
  using sint_lt[of a] by (simp add: sint_word_ariths signed_take_bit_int_eq_self)

text \<open>
  Usage becomes disjoint units, exactly. For a usage object whose numbers are at most \<open>2 ^ 61\<close>,
  the cached units are the reported cached tokens capped by the reported input, input and cached
  units add up to the reported input, the output units are the reported output, and every other
  positive number that is neither a breakdown nor a total is kept as a unit kind of its own, at its
  ceiling, and nothing else is.
\<close>

theorem usage_units_exact:
  assumes "countable_usage u"
  shows "let out = usageFromMap conv u; input = reported u ''input_tokens'' ''prompt_tokens'';
      cached = min input (cached_in u ''prompt_tokens_details'' + cached_in u ''input_tokens_details'')
    in sint (us_input out) = input - cached \<and> sint (us_cached out) = cached \<and>
       sint (us_output out) = reported u ''output_tokens'' ''completion_tokens'' \<and>
       map (\<lambda>(k, n). (k, sint n)) (us_other out) =
         map (\<lambda>(k, v). (k, units_of (Some v)))
           (filter (\<lambda>(k, v). k \<notin> set consumed \<and> \<not> has_suffix k ''_details'' \<and> 0 < units_of (Some v)) u)"
proof -
  let ?o = "usageFromMap conv u"
  let ?iw = "first_nonzero (usageField conv (obj_get u ''input_tokens'')) (usageField conv (obj_get u ''prompt_tokens''))"
  let ?cw = "details_cached conv u ''prompt_tokens_details'' + details_cached conv u ''input_tokens_details''"
  note i = first_nonzero_exact[OF assms, of conv "''input_tokens''" "''prompt_tokens''"]
  note c1 = details_cached_exact[OF assms, of conv "''prompt_tokens_details''"]
  note c2 = details_cached_exact[OF assms, of conv "''input_tokens_details''"]
  have c: "sint ?cw = cached_in u ''prompt_tokens_details'' + cached_in u ''input_tokens_details''"
    using sint_add_small[of "details_cached conv u ''prompt_tokens_details''"] c1 c2 by simp
  have in_units: "sint (us_input ?o) = sint ?iw - min (sint ?iw) (sint ?cw) \<and> sint (us_cached ?o) = min (sint ?iw) (sint ?cw)"
  proof (cases "?iw <s ?cw")
    case True
    then show ?thesis by (simp add: usageFromMap_def Let_def word_sless_alt)
  next
    case False
    then have "sint ?cw \<le> sint ?iw" by (simp add: word_sless_alt)
    moreover have "0 \<le> sint ?cw" using c c1 c2 by simp
    ultimately show ?thesis
      using False sint_diff_small[of ?cw ?iw] by (simp add: usageFromMap_def Let_def)
  qed
  have other: "map (\<lambda>(k, n). (k, sint n)) (other_units conv w) =
         map (\<lambda>(k, v). (k, units_of (Some v)))
           (filter (\<lambda>(k, v). k \<notin> set consumed \<and> \<not> has_suffix k ''_details'' \<and> 0 < units_of (Some v)) w)"
    if "set w \<subseteq> set u" for w
    using that
  proof (induction w)
    case Nil
    then show ?case by simp
  next
    case (Cons m w)
    obtain k v where m: "m = (k, v)" by fastforce
    have "small v" using Cons.prems assms by (auto simp: m countable_usage_def list_all_iff)
    then have "sint (usageField conv (Some v)) = units_of (Some v)"
      using usageField_exact[of "Some v" conv] by simp
    then show ?case using Cons by (simp add: m Let_def word_sless_alt)
  qed
  show ?thesis
    using in_units c i first_nonzero_exact[OF assms, of conv "''output_tokens''" "''completion_tokens''"] other[of u]
    by (simp add: usageFromMap_def Let_def)
qed

definition demo_usage_object :: "(string \<times> json) list" where
  "demo_usage_object =
     [(''prompt_tokens'', JNum 120), (''completion_tokens'', JNum 40), (''total_tokens'', JNum 160),
      (''prompt_tokens_details'', JObj [(''cached_tokens'', JNum 100)]), (''searches'', JNum 2)]"

theorem usage_units_exact_witness:
  "let out = usageFromMap (\<lambda>_. 0) demo_usage_object
   in sint (us_input out) = 20 \<and> sint (us_cached out) = 100 \<and> sint (us_output out) = 40 \<and>
      map (\<lambda>(k, n). (k, sint n)) (us_other out) = [(''searches'', 2)]"
proof -
  have "countable_usage demo_usage_object" by code_simp
  moreover have "reported demo_usage_object ''input_tokens'' ''prompt_tokens'' = 120"
    "reported demo_usage_object ''output_tokens'' ''completion_tokens'' = 40"
    "cached_in demo_usage_object ''prompt_tokens_details'' = 100"
    "cached_in demo_usage_object ''input_tokens_details'' = 0"
    "map (\<lambda>(k, v). (k, units_of (Some v)))
       (filter (\<lambda>(k, v). k \<notin> set consumed \<and> \<not> has_suffix k ''_details'' \<and> 0 < units_of (Some v))
         demo_usage_object) = [(''searches'', 2)]"
    by code_simp+
  ultimately show ?thesis using usage_units_exact[of demo_usage_object "\<lambda>_. 0"] by (simp add: Let_def)
qed

lemma other_units_keys: "fst ` set (other_units conv u) \<subseteq> fst ` set u"
  by (induction conv u rule: other_units.induct) (auto simp: Let_def)

lemma other_units_distinct: "distinct (map fst u) \<Longrightarrow> distinct (map fst (other_units conv u))"
proof (induction conv u rule: other_units.induct)
  case (2 conv k v u)
  then show ?case using other_units_keys[of conv u] by (auto simp: Let_def)
qed simp

lemma other_units_member:
  "(k, v) \<in> set u \<Longrightarrow> k \<notin> set consumed \<Longrightarrow> \<not> has_suffix k ''_details'' \<Longrightarrow> 0 <s usageField conv (Some v) \<Longrightarrow>
   (k, usageField conv (Some v)) \<in> set (other_units conv u)"
  by (induction conv u rule: other_units.induct) (auto simp: Let_def)

lemma put_unit_get: "map_of (put_unit k v m) k' = (if k' = k then Some v else map_of m k')"
  by (induction m) auto

lemma add_others_keep:
  "add_others kvs m0 = Inr m \<Longrightarrow> k \<notin> fst ` set kvs \<Longrightarrow> map_of m k = map_of m0 k"
  by (induction kvs m0 rule: add_others.induct)
     (auto simp: bind_r_Inr add_unit_def put_unit_get split: if_split_asm)

lemma add_others_last:
  assumes "add_others kvs m0 = Inr m" and "(k, n) \<in> set kvs" and "distinct (map fst kvs)" and "0 <s n"
  shows "map_of m k = Some n"
  using assms
proof (induction kvs m0 rule: add_others.induct)
  case (1 m0)
  then show ?case by simp
next
  case (2 k' v kvs m0)
  obtain m1 where m1: "add_unit k' v m0 = Inr m1" "add_others kvs m1 = Inr m"
    using "2.prems"(1) by (auto simp: bind_r_Inr split: if_split_asm)
  show ?case
  proof (cases "(k', v) = (k, n)")
    case True
    have "m1 = put_unit k n m0"
      using m1(1) "2.prems"(4) True by (auto simp: add_unit_def word_sless_alt split: if_split_asm)
    moreover have "k \<notin> fst ` set kvs" using "2.prems"(3) True by simp
    ultimately show ?thesis using add_others_keep[OF m1(2)] by (simp add: put_unit_get)
  next
    case False
    then have "(k, n) \<in> set kvs" using "2.prems"(2) by auto
    then show ?thesis using "2.IH"[of m1] "2.prems" m1 by (auto split: if_split_asm)
  qed
qed

text \<open>
  A field named like a built-in kind replaces its count. A provider's own numeric field
  \<open>input\<close>, \<open>output\<close> or \<open>cached_input\<close> is kept among the other units and then overwrites, in the
  unit map that is charged, the tokens counted under that kind.
\<close>

theorem colliding_unit_overwrites:
  assumes "countable_usage u" and "distinct (map fst u)" and "(k, JNum q) \<in> set u" and "0 < q"
    and "k = ''input'' \<or> k = ''output'' \<or> k = ''cached_input''"
    and "unitMap (usageFromMap conv u) = Inr m"
  shows "sint (unit_of m k) = \<lceil>q\<rceil>"
proof -
  let ?n = "usageField conv (Some (JNum q))"
  have sm: "small (JNum q)" using assms(1,3) by (auto simp: countable_usage_def list_all_iff)
  have n: "sint ?n = \<lceil>q\<rceil>" "0 < \<lceil>q\<rceil>"
    using usageField_exact[of "Some (JNum q)" conv] sm assms(4) by (simp_all add: units_of_def)
  have "k \<notin> set consumed" "\<not> has_suffix k ''_details''"
    using assms(5) by (auto simp: consumed_def has_suffix_def)
  then have "(k, ?n) \<in> set (other_units conv u)"
    using assms(3) n by (intro other_units_member) (simp_all add: word_sless_alt)
  then have mem: "(k, ?n) \<in> set (us_other (usageFromMap conv u))" by (simp add: usageFromMap_def Let_def)
  have last: "map_of m k = Some n'" if "add_others kvs m0 = Inr m" "(k, n') \<in> set kvs"
      "distinct (map fst kvs)" "0 <s n'" for kvs m0 n'
    using that by (rule add_others_last)
  obtain m0 where "add_others (us_other (usageFromMap conv u)) m0 = Inr m"
    using assms(6) unfolding unitMap_def bind_r_Inr by blast
  moreover have "distinct (map fst (us_other (usageFromMap conv u)))"
    using other_units_distinct[OF assms(2)] by (simp add: usageFromMap_def Let_def)
  ultimately have "map_of m k = Some ?n" using mem n by (intro last) (simp_all add: word_sless_alt)
  then show ?thesis using n by (simp add: unit_of_def)
qed

theorem colliding_unit_overwrites_witness:
  "case unitMap (usageFromMap (\<lambda>_. 0) [(''prompt_tokens'', JNum 5000), (''input'', JNum 1)]) of
     Inr m \<Rightarrow> sint (unit_of m ''input'') = 1 | Inl e \<Rightarrow> False"
proof -
  let ?u = "[(''prompt_tokens'', JNum 5000), (''input'', JNum 1)]"
  have "is_ok (unitMap (usageFromMap (\<lambda>_. 0) ?u))" by code_simp
  then obtain m where m: "unitMap (usageFromMap (\<lambda>_. 0) ?u) = Inr m" by (auto elim!: is_okE)
  have c: "countable_usage ?u" by code_simp
  have "sint (unit_of m ''input'') = \<lceil>1 :: rat\<rceil>"
    by (rule colliding_unit_overwrites[OF c _ _ _ _ m]) simp_all
  then show ?thesis by (simp add: m)
qed

section \<open>The stream does not depend on how it is cut\<close>

lemma split_on_ne [simp]: "split_on d s \<noteq> []"
  by (induction s) (auto split: list.split)

lemma split_on_snoc_cut:
  "cut_line s = None \<Longrightarrow> split_on newline s = [s]"
  "cut_line s = Some (l, r) \<Longrightarrow> split_on newline s = l # split_on newline r"
  by (induction s arbitrary: l) (auto split: if_split_asm)

lemma split_on_append:
  "split_on d (v @ w) = butlast (split_on d v) @ split_on d (last (split_on d v) @ w)"
proof (induction v)
  case Nil
  then show ?case by simp
next
  case (Cons c v)
  obtain x xs where s: "split_on d v = x # xs" by (cases "split_on d v") auto
  show ?case
  proof (cases "c = d")
    case True
    then show ?thesis using Cons s by simp
  next
    case False
    show ?thesis
    proof (cases xs)
      case Nil
      then have "split_on d (x @ w) = split_on d (v @ w)" using Cons s by simp
      moreover obtain y ys where "split_on d (v @ w) = y # ys" by (cases "split_on d (v @ w)") auto
      ultimately show ?thesis using False s Nil by simp
    next
      case (Cons z zs)
      then show ?thesis using False s Cons.IH by simp
    qed
  qed
qed

text \<open>The lines of a text that are complete, and the tail that is not.\<close>

definition stream_of :: "(string \<Rightarrow> raw_json) \<Rightarrow> acc_stream \<Rightarrow> string \<Rightarrow> acc_stream" where
  "stream_of parse s text =
     (let ls = split_on newline text
      in (foldl (observeLine parse) s (butlast ls))\<lparr>as_pending := last ls\<rparr>)"

lemma observeLine_pending_upd:
  "observeLine parse (s\<lparr>as_pending := x\<rparr>) l = (observeLine parse s l)\<lparr>as_pending := x\<rparr>"
  by (simp add: observeLine_def Let_def split: option.split)

lemma foldl_observe_pending:
  "foldl (observeLine parse) (s\<lparr>as_pending := x\<rparr>) ls = (foldl (observeLine parse) s ls)\<lparr>as_pending := x\<rparr>"
  by (induction ls arbitrary: s) (simp_all add: observeLine_pending_upd)

lemma drain_lines: "drain parse s = stream_of parse s (as_pending s)"
proof (induction parse s rule: drain.induct)
  case (1 parse s)
  show ?case
  proof (cases "cut_line (as_pending s)")
    case None
    then show ?thesis using split_on_snoc_cut(1)[OF None] by (simp add: drain.simps stream_of_def)
  next
    case (Some lr)
    obtain l r where lr: "lr = (l, r)" by fastforce
    have c: "cut_line (as_pending s) = Some (l, r)" using Some lr by simp
    show ?thesis
      using 1[OF c refl] split_on_snoc_cut(2)[OF c]
      by (simp add: drain.simps[of parse s] c stream_of_def Let_def observeLine_pending_upd foldl_observe_pending)
  qed
qed

definition lines_bounded :: "string \<Rightarrow> bool" where
  "lines_bounded text \<longleftrightarrow> list_all (\<lambda>l. length l \<le> max_tail) (split_on newline text)"

lemma lines_bounded_code [code]:
  "lines_bounded text \<longleftrightarrow> list_all (\<lambda>l. int (length l) \<le> 1048576) (split_on newline text)"
proof -
  have "length l \<le> max_tail \<longleftrightarrow> int (length l) \<le> 1048576" for l :: string
    unfolding max_tail_def by (simp only: of_nat_le_iff[symmetric, where 'a = int] of_nat_numeral)
  then show ?thesis by (simp add: lines_bounded_def)
qed

lemma split_on_free: "l \<in> set (split_on d s) \<Longrightarrow> d \<notin> set l"
  by (induction s arbitrary: l) (auto split: list.split_asm if_split_asm)

lemma hd_split_on_append: "d \<notin> set t \<Longrightarrow> hd (split_on d (t @ w)) = t @ hd (split_on d w)"
  by (induction t) (auto split: list.split simp: neq_Nil_conv)

lemma lines_bounded_prefix:
  assumes "lines_bounded (v @ w)"
  shows "lines_bounded v"
proof -
  let ?t = "last (split_on newline v)" and ?rest = "split_on newline (last (split_on newline v) @ w)"
  have all: "\<forall>l\<in>set (butlast (split_on newline v)) \<union> set ?rest. length l \<le> max_tail"
    using assms unfolding lines_bounded_def split_on_append[of newline v w] by (simp add: list_all_iff)
  have "newline \<notin> set ?t" by (rule split_on_free[of _ _ v]) simp
  then have "length ?t \<le> length (hd ?rest)" by (simp add: hd_split_on_append)
  moreover have "length (hd ?rest) \<le> max_tail" using all by simp
  ultimately have "length ?t \<le> max_tail" by (rule order_trans)
  then have "\<forall>l\<in>set (butlast (split_on newline v) @ [?t]). length l \<le> max_tail"
    using all unfolding set_append list.set by blast
  then show ?thesis
    unfolding lines_bounded_def list_all_iff by (simp only: append_butlast_last_id split_on_ne not_False_eq_True)
qed


text \<open>A transport that hands the bytes of two events over in three pieces.\<close>

definition demo_event :: string where
  "demo_event = ''{usage}''"

definition demo_parse :: "string \<Rightarrow> raw_json" where
  "demo_parse s =
     (if s = demo_event then RawJson (JObj [(''usage'', JObj demo_usage_object)]) else RawMalformed)"

definition demo_chunks :: "string list" where
  "demo_chunks =
     [''data: {us'', ''age}'' @ [carriage_return, newline, newline] @ ''data: [DO'', ''NE]'' @ [newline]]"


end
