(* ===== verification/Secrets.thy ===== *)
theory Secrets
  imports Prelude
begin

text \<open>
  Operator-configured credential references, internal/auth/secret_refs.go: validating the bindings
  and resolving a reference. \<open>url.Parse\<close> is the parameter \<open>parse\<close> (\<open>None\<close> an error) and the process
  environment the parameter \<open>env\<close>; every refusal is \<open>ErrSecretDenied\<close>, here \<open>None\<close>.
\<close>

section \<open>Origins\<close>

record parsed_url =
  pu_scheme :: string
  pu_host :: string
  pu_port :: string
  pu_user :: bool
  pu_path :: string
  pu_query :: string
  pu_fragment :: string

definition CanonicalizeSecretOrigin :: "(string \<Rightarrow> parsed_url option) \<Rightarrow> string \<Rightarrow> string option" where
  "CanonicalizeSecretOrigin parse raw =
     (case parse (trim_space raw) of
        None \<Rightarrow> None
      | Some u \<Rightarrow>
          let scheme = go_lower (pu_scheme u) in
          if scheme \<noteq> ''http'' \<and> scheme \<noteq> ''https'' then None
          else if pu_host u = [] \<or> pu_user u \<or> pu_query u \<noteq> [] \<or> pu_fragment u \<noteq> [] \<or>
                  (pu_path u \<noteq> [] \<and> pu_path u \<noteq> ''/'') then None
          else
            let port = (if (scheme = ''https'' \<and> pu_port u = ''443'') \<or> (scheme = ''http'' \<and> pu_port u = ''80'')
                        then [] else pu_port u)
            in Some (scheme @ ''://'' @ go_lower (pu_host u) @ (if port \<noteq> [] then '':'' @ port else [])))"

section \<open>Bindings\<close>

record secret_binding =
  sb_ref :: string
  sb_tenant :: string
  sb_purpose :: string
  sb_env :: string
  sb_origins :: "string list"

definition secret_purposes :: "string list" where
  "secret_purposes = [''inference'', ''connector'', ''mcp'', ''embeddings'']"

definition env_start :: "char \<Rightarrow> bool" where
  "env_start c \<longleftrightarrow> is_upper c \<or> is_lower c \<or> c = CHR ''_''"

definition env_name_ok :: "string \<Rightarrow> bool" where
  "env_name_ok s = (case s of [] \<Rightarrow> False | c # cs \<Rightarrow> env_start c \<and> list_all (\<lambda>d. env_start d \<or> is_digit d) cs)"

fun canonical_origins ::
    "(string \<Rightarrow> parsed_url option) \<Rightarrow> string list \<Rightarrow> string list \<Rightarrow> string list option" where
  "canonical_origins parse seen [] = Some seen"
| "canonical_origins parse seen (raw # rest) =
     (case CanonicalizeSecretOrigin parse raw of
        None \<Rightarrow> None
      | Some c \<Rightarrow> if c \<in> set seen then None else canonical_origins parse (seen @ [c]) rest)"

definition validate_binding :: "(string \<Rightarrow> parsed_url option) \<Rightarrow> secret_binding \<Rightarrow> secret_binding option" where
  "validate_binding parse b =
     (let b1 = b\<lparr>sb_ref := trim_space (sb_ref b), sb_tenant := trim_space (sb_tenant b),
                 sb_purpose := trim_space (sb_purpose b), sb_env := trim_space (sb_env b)\<rparr> in
      if sb_ref b1 = [] \<or> sb_tenant b1 = [] then None
      else if sb_purpose b1 \<notin> set secret_purposes then None
      else if \<not> env_name_ok (sb_env b1) then None
      else if sb_origins b1 = [] then None
      else case canonical_origins parse [] (sb_origins b1) of
        None \<Rightarrow> None | Some os \<Rightarrow> Some (b1\<lparr>sb_origins := os\<rparr>))"

definition bindingKey :: "string \<Rightarrow> string \<Rightarrow> string \<Rightarrow> string" where
  "bindingKey tenant purpose ref = tenant @ [CHR 0x00] @ purpose @ [CHR 0x00] @ ref"

definition binding_key :: "secret_binding \<Rightarrow> string" where
  "binding_key b = bindingKey (sb_tenant b) (sb_purpose b) (sb_ref b)"

text \<open>The resolver's map, as the list of its bindings; a duplicate key is refused.\<close>

fun add_bindings ::
    "(string \<Rightarrow> parsed_url option) \<Rightarrow> secret_binding list \<Rightarrow> secret_binding list \<Rightarrow> secret_binding list option" where
  "add_bindings parse acc [] = Some acc"
| "add_bindings parse acc (b # bs) =
     (case validate_binding parse b of
        None \<Rightarrow> None
      | Some b' \<Rightarrow>
          if list_ex (\<lambda>c. binding_key c = binding_key b') acc then None
          else add_bindings parse (acc @ [b']) bs)"

record secret_resolver =
  sv_bindings :: "secret_binding list"
  sv_order :: "(string \<times> string \<times> string) list"

definition NewSecretResolver ::
    "(string \<Rightarrow> parsed_url option) \<Rightarrow> secret_binding list \<Rightarrow> secret_resolver option" where
  "NewSecretResolver parse bs =
     map_option (\<lambda>acc. \<lparr>sv_bindings = acc,
         sv_order = sort (map (\<lambda>b. (sb_tenant b, sb_purpose b, sb_ref b)) acc)\<rparr>)
       (add_bindings parse [] bs)"

text \<open>\<open>Resolve\<close>; a nil resolver is \<open>None\<close>, and so is a refusal.\<close>

definition Resolve ::
    "(string \<Rightarrow> parsed_url option) \<Rightarrow> (string \<Rightarrow> string option) \<Rightarrow> secret_resolver option \<Rightarrow>
     string \<Rightarrow> string \<Rightarrow> string \<Rightarrow> string \<Rightarrow> string option" where
  "Resolve parse env r tenant purpose origin ref =
     (if ref = [] then Some []
      else case r of
        None \<Rightarrow> None
      | Some sv \<Rightarrow>
          (case CanonicalizeSecretOrigin parse origin of
             None \<Rightarrow> None
           | Some canonical \<Rightarrow>
               (case find_row (\<lambda>b. binding_key b = bindingKey tenant purpose ref) (sv_bindings sv) of
                  None \<Rightarrow> None
                | Some b \<Rightarrow>
                    if \<not> list_ex (\<lambda>c. c = canonical) (sb_origins b) then None
                    else (case env (sb_env b) of
                            None \<Rightarrow> None
                          | Some v \<Rightarrow> if v = [] then None else Some v))))"

definition Metadata :: "secret_resolver option \<Rightarrow> string \<Rightarrow> (string \<times> string \<times> string) list" where
  "Metadata r tenant = (case r of None \<Rightarrow> [] | Some sv \<Rightarrow> filter (\<lambda>m. fst m = tenant) (sv_order sv))"

section \<open>Resolution is confined to the bindings\<close>

text \<open>A purpose holds no NUL, so a key of a NUL-free tenant determines its parts.\<close>

lemma purpose_no_nul: "p \<in> set secret_purposes \<Longrightarrow> CHR 0x00 \<notin> set p"
  by (auto simp: secret_purposes_def)

lemma nul_split:
  "CHR 0x00 \<notin> set a \<Longrightarrow> CHR 0x00 \<notin> set b \<Longrightarrow> a @ CHR 0x00 # x = b @ CHR 0x00 # y \<longleftrightarrow> a = b \<and> x = y"
proof (induction a arbitrary: b)
  case Nil
  then show ?case by (cases b) auto
next
  case (Cons c a)
  then show ?case by (cases b) auto
qed

lemma bindingKey_inject:
  assumes "CHR 0x00 \<notin> set t" and "CHR 0x00 \<notin> set t'" and "CHR 0x00 \<notin> set p" and "CHR 0x00 \<notin> set p'"
  shows "bindingKey t p r = bindingKey t' p' r' \<longleftrightarrow> t = t' \<and> p = p' \<and> r = r'"
  using assms by (simp add: bindingKey_def nul_split)

lemma validate_binding_Some:
  assumes "validate_binding parse b = Some b'"
  shows "sb_ref b' = trim_space (sb_ref b) \<and> sb_tenant b' = trim_space (sb_tenant b) \<and>
    sb_purpose b' = trim_space (sb_purpose b) \<and> sb_env b' = trim_space (sb_env b) \<and>
    sb_purpose b' \<in> set secret_purposes \<and> sb_ref b' \<noteq> [] \<and> sb_tenant b' \<noteq> [] \<and>
    canonical_origins parse [] (sb_origins b) = Some (sb_origins b')"
  using assms by (auto simp: validate_binding_def Let_def split: if_split_asm option.splits)

lemma add_bindings_Some:
  assumes "add_bindings parse acc bs = Some out" and "distinct (map binding_key acc)"
  shows "distinct (map binding_key out) \<and> set acc \<subseteq> set out \<and>
    (\<forall>b'\<in>set out - set acc. \<exists>b\<in>set bs. validate_binding parse b = Some b')"
  using assms
proof (induction bs arbitrary: acc)
  case Nil
  then show ?case by simp
next
  case (Cons b bs)
  obtain b' where b': "validate_binding parse b = Some b'" "\<not> list_ex (\<lambda>c. binding_key c = binding_key b') acc"
    "add_bindings parse (acc @ [b']) bs = Some out"
    using Cons.prems(1) by (auto split: option.splits if_split_asm)
  have "distinct (map binding_key (acc @ [b']))" using Cons.prems(2) b'(2) by (auto simp: list_ex_iff)
  note ih = Cons.IH[OF b'(3) this]
  have "\<exists>c\<in>set (b # bs). validate_binding parse c = Some x" if "x \<in> set out - set acc" for x
    using ih that b'(1) by (cases "x = b'") auto
  then show ?case using ih by auto
qed

lemma canonical_origins_mem:
  "canonical_origins parse seen raws = Some os \<Longrightarrow>
   set os = set seen \<union> {c. \<exists>raw\<in>set raws. CanonicalizeSecretOrigin parse raw = Some c}"
  by (induction raws arbitrary: seen) (auto split: option.splits if_split_asm)

text \<open>
  A credential is released only under its own binding. If a non-empty reference resolves for a
  tenant, a purpose and an origin, the operator configured a binding for exactly that reference,
  tenant and purpose, with an approved origin whose canonical form is the canonical form of the
  origin asked for, and the value is the non-empty one of that binding's environment variable, for
  tenant ids and purposes without NUL.
\<close>

theorem resolve_confined:
  assumes "NewSecretResolver parse bs = Some sv"
    and "Resolve parse env (Some sv) tenant purpose origin ref = Some v" and "ref \<noteq> []"
    and "list_all (\<lambda>b. CHR 0x00 \<notin> set (sb_tenant b)) bs" and "CHR 0x00 \<notin> set tenant" and "CHR 0x00 \<notin> set purpose"
  shows "list_ex (\<lambda>b. trim_space (sb_tenant b) = tenant \<and> trim_space (sb_purpose b) = purpose \<and>
      trim_space (sb_ref b) = ref \<and> purpose \<in> set secret_purposes \<and>
      list_ex (\<lambda>raw. CanonicalizeSecretOrigin parse raw \<noteq> None \<and>
         CanonicalizeSecretOrigin parse raw = CanonicalizeSecretOrigin parse origin) (sb_origins b) \<and>
      env (trim_space (sb_env b)) = Some v \<and> v \<noteq> []) bs"
proof -
  obtain c b' where c: "CanonicalizeSecretOrigin parse origin = Some c"
      "find_row (\<lambda>b. binding_key b = bindingKey tenant purpose ref) (sv_bindings sv) = Some b'"
      "c \<in> set (sb_origins b')" "env (sb_env b') = Some v" "v \<noteq> []"
    using assms(2,3) by (auto simp: Resolve_def list_ex_iff split: option.splits if_split_asm)
  have b': "b' \<in> set (sv_bindings sv)" "binding_key b' = bindingKey tenant purpose ref"
    using find_row_Some[OF c(2)] by auto
  have "add_bindings parse [] bs = Some (sv_bindings sv)"
    using assms(1) by (auto simp: NewSecretResolver_def)
  then obtain b where b: "b \<in> set bs" "validate_binding parse b = Some b'"
    using add_bindings_Some[of parse "[]" bs "sv_bindings sv"] b'(1) by auto
  note v = validate_binding_Some[OF b(2)]
  have sub: "set (trim_space s) \<subseteq> set s" for s
    unfolding trim_space_def by (auto dest!: set_dropWhileD)
  have "CHR 0x00 \<notin> set (sb_tenant b')" using assms(4) b(1) v sub by (auto simp: list_all_iff)
  then have k: "sb_tenant b' = tenant" "sb_purpose b' = purpose" "sb_ref b' = ref"
    using b'(2) assms(5,6) v purpose_no_nul[of "sb_purpose b'"]
    by (auto simp: binding_key_def bindingKey_inject)
  obtain raw where "raw \<in> set (sb_origins b)" "CanonicalizeSecretOrigin parse raw = Some c"
    using canonical_origins_mem[of parse "[]" "sb_origins b" "sb_origins b'"] v c(3) by auto
  then have "list_ex (\<lambda>raw. CanonicalizeSecretOrigin parse raw \<noteq> None \<and>
         CanonicalizeSecretOrigin parse raw = CanonicalizeSecretOrigin parse origin) (sb_origins b)"
    using c(1) by (auto simp: list_ex_iff)
  then show ?thesis using b(1) v k c(4,5) unfolding list_ex_iff by metis
qed

definition demo_url :: "string \<Rightarrow> parsed_url option" where
  "demo_url s =
     (if s = ''https://api.example:443'' \<or> s = ''HTTPS://API.example/''
      then Some \<lparr>pu_scheme = ''HTTPS'', pu_host = ''API.example'',
                 pu_port = (if s = ''HTTPS://API.example/'' then [] else ''443''), pu_user = False,
                 pu_path = [], pu_query = [], pu_fragment = []\<rparr>
      else None)"

definition demo_binding :: secret_binding where
  "demo_binding =
     \<lparr>sb_ref = '' main'', sb_tenant = ''t'', sb_purpose = ''inference'', sb_env = ''API_KEY'',
      sb_origins = [''https://api.example:443'']\<rparr>"

theorem resolve_confined_witness:
  "case NewSecretResolver demo_url [demo_binding] of
     None \<Rightarrow> False
   | Some sv \<Rightarrow>
       (case Resolve demo_url (\<lambda>k. if k = ''API_KEY'' then Some ''s3'' else None) (Some sv) ''t'' ''inference''
               ''HTTPS://API.example/'' ''main'' of
          None \<Rightarrow> False
        | Some v \<Rightarrow> (if trim_space (sb_env demo_binding) = ''API_KEY'' then Some ''s3'' else None) = Some v)"
proof -
  let ?env = "\<lambda>k. if k = ''API_KEY'' then Some ''s3'' else None"
  let ?r = "NewSecretResolver demo_url [demo_binding]"
  have "?r \<noteq> None" by code_simp
  then obtain sv where sv: "?r = Some sv" by blast
  have "Resolve demo_url ?env ?r ''t'' ''inference'' ''HTTPS://API.example/'' ''main'' \<noteq> None" by code_simp
  then obtain v where v: "Resolve demo_url ?env (Some sv) ''t'' ''inference'' ''HTTPS://API.example/'' ''main'' = Some v"
    unfolding sv by blast
  have h: "list_all (\<lambda>b. CHR 0x00 \<notin> set (sb_tenant b)) [demo_binding]" "CHR 0x00 \<notin> set ''t''"
    "CHR 0x00 \<notin> set ''inference''" by code_simp+
  have "list_ex (\<lambda>b. ?env (trim_space (sb_env b)) = Some v) [demo_binding]"
    using resolve_confined[OF sv v _ h] unfolding list_ex_iff by blast
  then have "?env (trim_space (sb_env demo_binding)) = Some v" by (simp only: list_ex_iff list.set insert_iff empty_iff bex_simps simp_thms)
  then show ?thesis unfolding sv option.case v .
qed

end
