(* ===== verification/Executor.thy ===== *)
theory Executor
  imports Policy Admission Usage Secrets
begin

text \<open>
  The single priced execution boundary, internal/inference/service.go: \<open>Execute\<close> and \<open>Manage\<close> over
  the billing ledger, the admission gate, the endpoint table and the transport cache. A call in
  progress is an \<open>attempt\<close>, whose constructor is the point it has reached; every event is one
  critical section, transaction or network exchange of one attempt, so a sequence of events is an
  interleaving of any number of concurrent calls. What the environment decides (clocks, random ids,
  whether a transaction commits, what the upstream answers) is in the events; what stays fixed is
  the record \<open>exec_cfg\<close>.
\<close>

section \<open>Configuration and plans\<close>

record exec_cfg =
  xc_fk :: "string \<Rightarrow> string \<Rightarrow> string \<Rightarrow> bool"
  xc_conv :: "int \<Rightarrow> i64"
  xc_parse :: "string \<Rightarrow> raw_json"
  xc_url :: "string \<Rightarrow> parsed_url option"
  xc_env :: "string \<Rightarrow> string option"
  xc_secrets :: "secret_resolver option"
  xc_hash :: "string \<Rightarrow> string"
  xc_time :: "time \<Rightarrow> string"
  xc_origin_ok :: "endpoint \<Rightarrow> bool"
  xc_limit :: int

text \<open>What \<open>Execute\<close> has resolved before it asks for admission.\<close>

record plan =
  pn_principal :: principal
  pn_request :: request
  pn_endpoint :: endpoint
  pn_capability :: string
  pn_model :: string
  pn_body :: json

text \<open>Any prompt token may come back as cached input, so the estimate covers that rate as well.\<close>

definition bump_cached :: "request \<Rightarrow> request" where
  "bump_cached req =
     (let est = iq_estimate req in
      if us_cached est <s us_input est then req\<lparr>iq_estimate := est\<lparr>us_cached := us_input est\<rparr>\<rparr> else req)"

definition prepare ::
    "policy_env \<Rightarrow> endpoint list \<Rightarrow> time \<Rightarrow> principal \<Rightarrow> request \<Rightarrow> inference_error + plan" where
  "prepare env eps wall p req0 =
     (if p_tenant p = [] \<or> p_actor p = [] then Inl ErrPolicyDenied
      else if boundFor (iq_capability req0) = None then Inl ErrUnsupportedCapability
      else bind_r (analyzePayload (pe_limit env) req0) (\<lambda>info.
        let capability = effectiveCapability (iq_capability req0) info in
        if iq_stream req0 \<and> capability = CapabilityEmbeddings then Inl ErrUnsupportedCapability
        else let req = bump_cached req0 in
        case checkEstimate capability (iq_estimate req) of
          Some e \<Rightarrow> Inl e
        | None \<Rightarrow>
            bind_r (route eps p req capability) (\<lambda>ep.
            bind_r (evaluate env wall p req ep capability) (\<lambda>d.
            bind_r (marshalPayload (pi_root info) (dc_model d) req) (\<lambda>body.
              Inr \<lparr>pn_principal = p, pn_request = req, pn_endpoint = ep, pn_capability = capability,
                   pn_model = dc_model d, pn_body = body\<rparr>)))))"

text \<open>Job-originated work draws from its own pool.\<close>

definition plan_class :: "plan \<Rightarrow> admission_class" where
  "plan_class pl = (if iq_job (pn_request pl) \<noteq> [] then AdmissionFanOut else AdmissionExecute)"

text \<open>\<open>reserve\<close>: priced by the endpoint, or, on the second try, by the model.\<close>

definition base_request :: "plan \<Rightarrow> bool \<Rightarrow> reserve_request" where
  "base_request pl by_model =
     \<lparr>rq_subjects = [\<lparr>su_type = BudgetSubjectTenant, su_id = p_tenant (pn_principal pl)\<rparr>],
      rq_billing = \<lparr>su_type = [], su_id = []\<rparr>, rq_capability = pn_capability pl, rq_model = pn_model pl,
      rq_endpoint = ep_id (pn_endpoint pl), rq_job = iq_job (pn_request pl),
      rq_attempt = iq_attempt (pn_request pl), rq_estimate = iq_estimate (pn_request pl),
      rq_price_type = (if by_model then ''model'' else ''endpoint''),
      rq_price_id = (if by_model then pn_model pl else ep_id (pn_endpoint pl))\<rparr>"

definition price_missing :: "billing_error \<Rightarrow> bool" where
  "price_missing e = (case e of PriceMissing _ \<Rightarrow> True | _ \<Rightarrow> False)"

text \<open>\<open>responsesTarget\<close> and the switch of \<open>dispatch\<close> and \<open>dispatchStream\<close>.\<close>

definition responsesTarget :: "string \<Rightarrow> request \<Rightarrow> string \<times> string" where
  "responsesTarget capability req =
     (let m = go_upper (iq_method req) in
      (if m = [] then ''POST'' else m,
       if iq_path req \<noteq> [] then iq_path req
       else if capability = CapabilityCompact then ''/responses/compact'' else ''/responses''))"

datatype upstream_op =
    ChatCompletion
  | ChatCompletionStream
  | Embeddings
  | ResponsesRequest string string
  | ResponsesStream string string

definition dispatch_op :: "plan \<Rightarrow> upstream_op option" where
  "dispatch_op pl =
     (let c = pn_capability pl; req = pn_request pl in
      if c = CapabilityChat \<or> c = CapabilityVision
      then Some (if iq_stream req then ChatCompletionStream else ChatCompletion)
      else if c = CapabilityEmbeddings then (if iq_stream req then None else Some Embeddings)
      else if c = CapabilityResponses \<or> c = CapabilityCompact
      then (case responsesTarget c req of (m, path) \<Rightarrow>
              Some (if iq_stream req then ResponsesStream m path else ResponsesRequest m path))
      else None)"

section \<open>Manage\<close>

record manage_request =
  mq_endpoint :: string
  mq_method :: string
  mq_path :: string
  mq_query :: string
  mq_body :: string
  mq_stream :: bool

definition query_char :: "char \<Rightarrow> bool" where
  "query_char c \<longleftrightarrow>
     is_lower c \<or> is_upper c \<or> is_digit c \<or>
     c \<in> {CHR ''='', CHR ''&'', CHR ''_'', CHR ''-'', CHR ''.'', CHR ''%''}"

definition validateManageTarget :: "int \<Rightarrow> manage_request \<Rightarrow> bool" where
  "validateManageTarget lim' req =
     (if go_upper (mq_method req) \<notin> {''GET'', ''POST'', ''DELETE''} then False
      else if 0 < lim' \<and> lim' < int (length (mq_body req)) then False
      else if \<not> has_prefix (mq_path req) ''/responses/'' \<or> contains_str (mq_path req) ''..'' \<or>
              list_ex (\<lambda>c. c \<in> {CHR ''?'', CHR ''#''}) (mq_path req) \<or>
              \<not> validPathTail (trim_prefix (mq_path req) ''/responses'') then False
      else if 512 < int (length (mq_query req)) \<or> contains_str (mq_query req) '' '' then False
      else list_all query_char (mq_query req))"

definition manage_path :: "manage_request \<Rightarrow> string" where
  "manage_path req = (if mq_query req \<noteq> [] then mq_path req @ ''?'' @ mq_query req else mq_path req)"

record manage_plan =
  mp_principal :: principal
  mp_request :: manage_request
  mp_endpoint :: endpoint

definition prepare_manage ::
    "int \<Rightarrow> endpoint list \<Rightarrow> principal \<Rightarrow> manage_request \<Rightarrow> inference_error + manage_plan" where
  "prepare_manage lim' eps p req =
     (if p_tenant p = [] \<or> p_actor p = [] then Inl ErrPolicyDenied
      else if \<not> validateManageTarget lim' req then Inl ErrPolicyDenied
      else case sql_GetEndpoint eps (p_tenant p) (mq_endpoint req) of
        None \<Rightarrow> Inl ErrNoRoute
      | Some e \<Rightarrow>
          if ep_tenant e \<noteq> p_tenant p then Inl ErrNoRoute
          else if \<not> EndpointAllowed p (ep_id e) then Inl ErrPolicyDenied
          else Inr \<lparr>mp_principal = p, mp_request = req, mp_endpoint = e\<rparr>)"

section \<open>Attempts and the state\<close>

text \<open>
  Either kind of call waits for admission and needs a transport; the number is that of its caller in
  the admission gate.
\<close>

datatype job = Priced plan | Managed manage_plan

definition job_tenant :: "job \<Rightarrow> string" where
  "job_tenant j = (case j of Priced pl \<Rightarrow> p_tenant (pn_principal pl) | Managed mp \<Rightarrow> p_tenant (mp_principal mp))"

definition job_class :: "job \<Rightarrow> admission_class" where
  "job_class j = (case j of Priced pl \<Rightarrow> plan_class pl | Managed _ \<Rightarrow> AdmissionManage)"

definition job_endpoint :: "job \<Rightarrow> endpoint" where
  "job_endpoint j = (case j of Priced pl \<Rightarrow> pn_endpoint pl | Managed mp \<Rightarrow> mp_endpoint mp)"

text \<open>
  How a call ends: before any reservation; with a reservation but nothing written upstream; with an
  error after the dispatch was recorded; with a result, its usage record and its settlement error; a
  management call that was made, with its error.
\<close>

datatype exec_outcome =
    Refused inference_error
  | Unsent plan string inference_error
  | Failed plan string inference_error
  | Completed plan string "usage_record option" "inference_error option"
  | ManageDone "inference_error option"

text \<open>
  \<open>Settling\<close>: the usage to settle (\<open>None\<close>: unknown), the error of the call and of a failed
  settlement, and the permit a finished stream still holds.
\<close>

datatype attempt =
    Prepared job
  | Queued job nat
  | Permitted job nat
  | Pricing plan nat
  | Reserved plan nat string
  | Building job nat "string option" string
  | Ready job nat "string option"
  | Dispatched plan nat string
  | Calling plan nat string
  | Streaming plan nat string acc_stream
  | Answered plan string raw_json
  | Settling plan "nat option" string "usage option" "inference_error option" "inference_error option"
  | Closing nat exec_outcome
  | Releasing plan string inference_error
  | ManageCalling manage_plan nat
  | ManageStreaming manage_plan nat
  | Done exec_outcome

text \<open>One write to an upstream: who wrote it, under which reservation, and what.\<close>

record upstream_call =
  uc_attempt :: nat
  uc_plan :: plan
  uc_reservation :: string
  uc_op :: upstream_op

record manage_call =
  mc_attempt :: nat
  mc_plan :: manage_plan
  mc_path :: string

record exec_state =
  xs_ledger :: billing_db
  xs_gate :: admission
  xs_endpoints :: "endpoint list"
  xs_transports :: "((string \<times> string) \<times> string) list"
  xs_attempts :: "attempt list"
  xs_calls :: "upstream_call list"
  xs_manages :: "manage_call list"

definition attempt_at :: "exec_state \<Rightarrow> nat \<Rightarrow> attempt" where
  "attempt_at s n = (if n < length (xs_attempts s) then xs_attempts s ! n else Done (Refused ErrPolicyDenied))"

definition set_attempt :: "exec_state \<Rightarrow> nat \<Rightarrow> attempt \<Rightarrow> exec_state" where
  "set_attempt s n a = s\<lparr>xs_attempts := (xs_attempts s)[n := a]\<rparr>"

definition add_attempt :: "exec_state \<Rightarrow> attempt \<Rightarrow> exec_state" where
  "add_attempt s a = s\<lparr>xs_attempts := xs_attempts s @ [a]\<rparr>"

text \<open>\<open>permit.Release()\<close>.\<close>

definition release_permit :: "exec_state \<Rightarrow> nat \<Rightarrow> exec_state" where
  "release_permit s c = s\<lparr>xs_gate := Release (xs_gate s) c\<rparr>"

section \<open>Transports\<close>

fun join_with :: "string \<Rightarrow> string list \<Rightarrow> string" where
  "join_with sep [] = []"
| "join_with sep [x] = x"
| "join_with sep (x # y # xs) = x @ sep @ join_with sep (y # xs)"

definition bool_str :: "bool \<Rightarrow> string" where
  "bool_str b = (if b then ''true'' else ''false'')"

definition transportSignature :: "exec_cfg \<Rightarrow> endpoint \<Rightarrow> string" where
  "transportSignature cfg e =
     join_with ''|''
       ([ep_protocol e, ep_sdk e, ep_origin e, ep_credential e, bool_str (ep_private e), ep_assurance e] @
        (case ep_verified e of None \<Rightarrow> [] | Some v \<Rightarrow> [xc_time cfg v]) @
        [join_with '','' (sort (ep_capabilities e))])"

definition resolveCredential :: "exec_cfg \<Rightarrow> endpoint \<Rightarrow> string option" where
  "resolveCredential cfg e =
     (if ep_credential e = [] then Some []
      else if xc_secrets cfg = None then None
      else Resolve (xc_url cfg) (xc_env cfg) (xc_secrets cfg) (ep_tenant e) ''inference'' (ep_origin e)
             (ep_credential e))"

text \<open>
  The first half of \<open>transportFor\<close>: the full signature. The configuration file of the confidential
  SDK is \<open>None\<close> when it cannot be located or read, \<open>Some None\<close> when there is none.
\<close>

definition full_signature :: "exec_cfg \<Rightarrow> endpoint \<Rightarrow> string option option \<Rightarrow> string option" where
  "full_signature cfg e config =
     (if ep_protocol e = ''confidential_sdk'' \<and> config = None then None
      else case resolveCredential cfg e of
        None \<Rightarrow> None
      | Some cred \<Rightarrow>
          Some (transportSignature cfg e @
            (if ep_protocol e = ''confidential_sdk''
             then (case config of Some (Some text) \<Rightarrow> ''|'' @ xc_hash cfg text | _ \<Rightarrow> []) else []) @
            ''|'' @ xc_hash cfg cred))"

definition endpoint_key :: "endpoint \<Rightarrow> string \<times> string" where
  "endpoint_key e = (ep_tenant e, ep_id e)"

text \<open>\<open>EndpointsRepo.Update\<close>: every column is rewritten.\<close>

definition UpdateEndpoint :: "(endpoint \<Rightarrow> bool) \<Rightarrow> endpoint list \<Rightarrow> endpoint \<Rightarrow> endpoint list option" where
  "UpdateEndpoint origin_ok eps e =
     (if \<not> origin_ok e \<or> count_rows (\<lambda>d. endpoint_key d = endpoint_key e) eps = 0 then None
      else Some (upd_rows (\<lambda>d. endpoint_key d = endpoint_key e) (\<lambda>_. e) eps))"

definition SetEnabled :: "endpoint list \<Rightarrow> string \<Rightarrow> string \<Rightarrow> bool \<Rightarrow> endpoint list option" where
  "SetEnabled eps t i b =
     (if count_rows (\<lambda>d. endpoint_key d = (t, i)) eps = 0 then None
      else Some (upd_rows (\<lambda>d. endpoint_key d = (t, i)) (\<lambda>d. d\<lparr>ep_enabled := b\<rparr>) eps))"

definition CreateEndpoint :: "(endpoint \<Rightarrow> bool) \<Rightarrow> endpoint list \<Rightarrow> endpoint \<Rightarrow> endpoint list option" where
  "CreateEndpoint origin_ok eps e =
     (if \<not> origin_ok e \<or> list_ex (\<lambda>d. endpoint_key d = endpoint_key e) eps then None else Some (eps @ [e]))"

definition keep_endpoints :: "exec_state \<Rightarrow> endpoint list option \<Rightarrow> exec_state" where
  "keep_endpoints s r = (case r of None \<Rightarrow> s | Some eps \<Rightarrow> s\<lparr>xs_endpoints := eps\<rparr>)"

text \<open>\<open>stampVerification\<close>, best effort: the row is rewritten from the endpoint the caller holds.\<close>

definition stampVerification :: "exec_cfg \<Rightarrow> exec_state \<Rightarrow> endpoint \<Rightarrow> time \<Rightarrow> bool \<Rightarrow> exec_state" where
  "stampVerification cfg s e now ok =
     (if (case ep_verified e of Some v \<Rightarrow> now - v < 60 * second | None \<Rightarrow> False) \<or> \<not> ok then s
      else keep_endpoints s (UpdateEndpoint (xc_origin_ok cfg) (xs_endpoints s) (e\<lparr>ep_verified := Some now\<rparr>)))"

text \<open>
  The second half of \<open>transportFor\<close>, on a cache miss: build, prove the attestation where the protocol
  promises one, stamp it, and cache the client.
\<close>

record build_result =
  br_built :: bool
  br_attested :: bool
  br_now :: time
  br_commit :: bool

definition finish_transport ::
    "exec_cfg \<Rightarrow> exec_state \<Rightarrow> endpoint \<Rightarrow> string \<Rightarrow> build_result \<Rightarrow> exec_state option" where
  "finish_transport cfg s e sig b =
     (if \<not> br_built b \<or> (verifiable e \<and> \<not> br_attested b) then None
      else let s1 = (if verifiable e then stampVerification cfg s e (br_now b) (br_commit b) else s)
           in Some (s1\<lparr>xs_transports := AList.update (endpoint_key e) sig (xs_transports s1)\<rparr>))"

section \<open>Steps\<close>

text \<open>Errors before dispatch give the permit back; a reservation is then released on its own.\<close>

definition abandon :: "exec_state \<Rightarrow> nat \<Rightarrow> job \<Rightarrow> nat \<Rightarrow> string option \<Rightarrow> exec_state" where
  "abandon s n j c res =
     set_attempt (release_permit s c) n
       (case (j, res) of
          (Priced pl, Some i) \<Rightarrow> Releasing pl i ErrTransport
        | _ \<Rightarrow> Done (Refused ErrTransport))"

definition do_acquire :: "exec_state \<Rightarrow> nat \<Rightarrow> exec_state" where
  "do_acquire s n =
     (case attempt_at s n of
        Prepared j \<Rightarrow>
          let c = length (ad_callers (xs_gate s)) in
          (case Acquire (xs_gate s) (job_class j) (job_tenant j) of
             (g, r) \<Rightarrow>
               set_attempt (s\<lparr>xs_gate := g\<rparr>) n
                 (case r of Admitted \<Rightarrow> Permitted j c | Enqueued \<Rightarrow> Queued j c
                  | ErrOverloaded \<Rightarrow> Done (Refused ErrAdmission)))
      | _ \<Rightarrow> s)"

definition do_wake :: "exec_state \<Rightarrow> nat \<Rightarrow> exec_state" where
  "do_wake s n =
     (case attempt_at s n of
        Queued j c \<Rightarrow>
          (case caller_at (xs_gate s) c of
             Waiting _ _ True \<Rightarrow> set_attempt (s\<lparr>xs_gate := AcquireWake (xs_gate s) c\<rparr>) n (Permitted j c)
           | _ \<Rightarrow> s)
      | _ \<Rightarrow> s)"

definition do_cancel :: "exec_state \<Rightarrow> nat \<Rightarrow> exec_state" where
  "do_cancel s n =
     (case attempt_at s n of
        Queued j c \<Rightarrow>
          set_attempt (s\<lparr>xs_gate := AcquireCancel (xs_gate s) c\<rparr>) n (Done (Refused ErrAdmission))
      | _ \<Rightarrow> s)"

text \<open>
  One transaction of \<open>reserve\<close>. Generated ids are \<open>res_\<close> and hexadecimal digits; a failed commit is
  an error that is not a missing price.
\<close>

definition commit :: "bool \<Rightarrow> billing_error + 'a \<Rightarrow> inference_error + 'a" where
  "commit ok r = (if ok then map_sum ErrBilling id r else Inl ErrStore)"

definition reserve_attempt ::
    "exec_cfg \<Rightarrow> exec_state \<Rightarrow> nat \<Rightarrow> plan \<Rightarrow> nat \<Rightarrow> bool \<Rightarrow> string \<Rightarrow> time \<Rightarrow> time \<Rightarrow> bool \<Rightarrow> exec_state" where
  "reserve_attempt cfg s n pl c by_model newid now dbnow ok =
     (case commit ok (Reserve (xc_fk cfg) (xs_ledger s) (pn_principal pl) (base_request pl by_model) newid now dbnow) of
        Inr (db, res) \<Rightarrow> set_attempt (s\<lparr>xs_ledger := db\<rparr>) n (Reserved pl c (rs_id res))
      | Inl e \<Rightarrow>
          if \<not> by_model \<and> (case e of ErrBilling b \<Rightarrow> price_missing b | _ \<Rightarrow> False)
          then set_attempt s n (Pricing pl c)
          else set_attempt (release_permit s c) n (Done (Refused e)))"

definition do_reserve ::
    "exec_cfg \<Rightarrow> exec_state \<Rightarrow> nat \<Rightarrow> string \<Rightarrow> time \<Rightarrow> time \<Rightarrow> bool \<Rightarrow> exec_state" where
  "do_reserve cfg s n newid now dbnow ok =
     (if \<not> plain_id newid then s
      else case attempt_at s n of
        Permitted (Priced pl) c \<Rightarrow> reserve_attempt cfg s n pl c False newid now dbnow ok
      | Pricing pl c \<Rightarrow> reserve_attempt cfg s n pl c True newid now dbnow ok
      | _ \<Rightarrow> s)"

text \<open>\<open>transportFor\<close>: reuse the cached client of the same signature, or build one.\<close>

definition lookup_transport ::
    "exec_cfg \<Rightarrow> exec_state \<Rightarrow> nat \<Rightarrow> job \<Rightarrow> nat \<Rightarrow> string option \<Rightarrow> string option option \<Rightarrow> exec_state" where
  "lookup_transport cfg s n j c res config =
     (let e = job_endpoint j in
      case full_signature cfg e config of
        None \<Rightarrow> abandon s n j c res
      | Some sig \<Rightarrow>
          set_attempt s n
            (if map_of (xs_transports s) (endpoint_key e) = Some sig then Ready j c res else Building j c res sig))"

definition do_lookup :: "exec_cfg \<Rightarrow> exec_state \<Rightarrow> nat \<Rightarrow> string option option \<Rightarrow> exec_state" where
  "do_lookup cfg s n config =
     (case attempt_at s n of
        Reserved pl c i \<Rightarrow> lookup_transport cfg s n (Priced pl) c (Some i) config
      | Permitted (Managed mp) c \<Rightarrow> lookup_transport cfg s n (Managed mp) c None config
      | _ \<Rightarrow> s)"

definition do_build :: "exec_cfg \<Rightarrow> exec_state \<Rightarrow> nat \<Rightarrow> build_result \<Rightarrow> exec_state" where
  "do_build cfg s n b =
     (case attempt_at s n of
        Building j c res sig \<Rightarrow>
          (case finish_transport cfg s (job_endpoint j) sig b of
             None \<Rightarrow> abandon s n j c res
           | Some s1 \<Rightarrow> set_attempt s1 n (Ready j c res))
      | _ \<Rightarrow> s)"

text \<open>\<open>releaseUndispatched\<close>: a failure leaves the hold.\<close>

definition do_release :: "exec_state \<Rightarrow> nat \<Rightarrow> time \<Rightarrow> bool \<Rightarrow> exec_state" where
  "do_release s n dbnow ok =
     (case attempt_at s n of
        Releasing pl i e \<Rightarrow>
          set_attempt
            (case commit ok (ReleaseUndispatched (xs_ledger s) (pn_principal pl) i dbnow) of
               Inr db \<Rightarrow> s\<lparr>xs_ledger := db\<rparr> | Inl _ \<Rightarrow> s) n (Done (Unsent pl i e))
      | _ \<Rightarrow> s)"

definition do_mark :: "exec_state \<Rightarrow> nat \<Rightarrow> time \<Rightarrow> bool \<Rightarrow> exec_state" where
  "do_mark s n dbnow ok =
     (case attempt_at s n of
        Ready (Priced pl) c (Some i) \<Rightarrow>
          (case commit ok (MarkDispatched (xs_ledger s) (pn_principal pl) i dbnow) of
             Inr db \<Rightarrow> set_attempt (s\<lparr>xs_ledger := db\<rparr>) n (Dispatched pl c i)
           | Inl e \<Rightarrow> set_attempt (release_permit s c) n (Done (Unsent pl i e)))
      | _ \<Rightarrow> s)"

text \<open>\<open>dispatch\<close> and \<open>dispatchStream\<close>: the write, if the transport supports the capability at all.\<close>

definition do_call :: "exec_state \<Rightarrow> nat \<Rightarrow> bool \<Rightarrow> exec_state" where
  "do_call s n supports =
     (case attempt_at s n of
        Dispatched pl c i \<Rightarrow>
          (case (if supports then dispatch_op pl else None) of
             None \<Rightarrow>
               set_attempt (release_permit s c) n (Settling pl None i None (Some ErrUnsupportedCapability) None)
           | Some op \<Rightarrow>
               set_attempt
                 (s\<lparr>xs_calls := xs_calls s @
                      [\<lparr>uc_attempt = n, uc_plan = pl, uc_reservation = i, uc_op = op\<rparr>]\<rparr>) n (Calling pl c i))
      | Ready (Managed mp) c res \<Rightarrow>
          set_attempt
            (s\<lparr>xs_manages := xs_manages s @
                 [\<lparr>mc_attempt = n, mc_plan = mp, mc_path = manage_path (mp_request mp)\<rparr>]\<rparr>) n (ManageCalling mp c)
      | _ \<Rightarrow> s)"

text \<open>
  What comes back: a body, a definitive error response with its body, or a failure that may have
  happened after the request was accepted.
\<close>

datatype reply = ReplyBody raw_json | ReplyError raw_json | ReplyFailure

definition zero_usage :: usage where
  "zero_usage = \<lparr>us_input = 0, us_output = 0, us_cached = 0, us_other = []\<rparr>"

definition do_reply :: "exec_cfg \<Rightarrow> exec_state \<Rightarrow> nat \<Rightarrow> reply \<Rightarrow> exec_state" where
  "do_reply cfg s n r =
     (case attempt_at s n of
        Calling pl c i \<Rightarrow>
          (if iq_stream (pn_request pl)
           then (case r of
                   ReplyBody _ \<Rightarrow> set_attempt s n (Streaming pl c i newAccountingStream)
                 | ReplyError raw \<Rightarrow>
                     set_attempt (release_permit s c) n (Settling pl None i None (Some (ErrUpstream raw)) None)
                 | ReplyFailure \<Rightarrow>
                     set_attempt (release_permit s c) n (Settling pl None i None (Some ErrAmbiguous) None))
           else set_attempt (release_permit s c) n
                  (case r of
                     ReplyBody raw \<Rightarrow> Answered pl i raw
                   | ReplyError raw \<Rightarrow>
                       Settling pl None i
                         (Some (case usageFromJSON (xc_conv cfg) raw of Some u \<Rightarrow> u | None \<Rightarrow> zero_usage))
                         (Some (ErrUpstream raw)) None
                   | ReplyFailure \<Rightarrow> Settling pl None i None (Some ErrAmbiguous) None))
      | ManageCalling mp c \<Rightarrow>
          (case r of
             ReplyBody _ \<Rightarrow>
               if mq_stream (mp_request mp) then set_attempt s n (ManageStreaming mp c)
               else set_attempt (release_permit s c) n (Done (ManageDone None))
           | ReplyError raw \<Rightarrow> set_attempt (release_permit s c) n (Done (ManageDone (Some (ErrUpstream raw))))
           | ReplyFailure \<Rightarrow> set_attempt (release_permit s c) n (Done (ManageDone (Some ErrAmbiguous))))
      | _ \<Rightarrow> s)"

definition do_stamp :: "exec_cfg \<Rightarrow> exec_state \<Rightarrow> nat \<Rightarrow> time \<Rightarrow> bool \<Rightarrow> exec_state" where
  "do_stamp cfg s n now ok =
     (case attempt_at s n of
        Answered pl i raw \<Rightarrow>
          set_attempt
            (if ep_protocol (pn_endpoint pl) = ''confidential_sdk''
             then stampVerification cfg s (pn_endpoint pl) now ok else s) n
            (Settling pl None i (usageFromJSON (xc_conv cfg) raw) None None)
      | _ \<Rightarrow> s)"

text \<open>The streamed body: reads, and the close, either of which may run the final accounting.\<close>

definition after_stream ::
    "exec_cfg \<Rightarrow> exec_state \<Rightarrow> nat \<Rightarrow> plan \<Rightarrow> nat \<Rightarrow> string \<Rightarrow> acc_stream \<times> (string \<times> bool) option \<Rightarrow> exec_state" where
  "after_stream cfg s n pl c i r =
     set_attempt s n
       (case r of
          (st, None) \<Rightarrow> Streaming pl c i st
        | (st, Some fin) \<Rightarrow> Settling pl (Some c) i (stream_usage (xc_conv cfg) (xc_parse cfg) fin) None None)"

definition do_read :: "exec_cfg \<Rightarrow> exec_state \<Rightarrow> nat \<Rightarrow> string \<Rightarrow> bool \<Rightarrow> exec_state" where
  "do_read cfg s n chunk eof =
     (case attempt_at s n of
        Streaming pl c i st \<Rightarrow> after_stream cfg s n pl c i (stream_read (xc_parse cfg) st chunk eof)
      | _ \<Rightarrow> s)"

definition do_close :: "exec_cfg \<Rightarrow> exec_state \<Rightarrow> nat \<Rightarrow> exec_state" where
  "do_close cfg s n =
     (case attempt_at s n of
        Streaming pl c i st \<Rightarrow> after_stream cfg s n pl c i (stream_close st)
      | ManageStreaming mp c \<Rightarrow> set_attempt (release_permit s c) n (Done (ManageDone None))
      | _ \<Rightarrow> s)"

text \<open>\<open>settleReservation\<close>, one transaction at a time, and the deferred release of a stream's permit.\<close>

definition settled_attempt ::
    "plan \<Rightarrow> nat option \<Rightarrow> string \<Rightarrow> usage_record option \<Rightarrow> inference_error option \<Rightarrow> inference_error option \<Rightarrow>
     attempt" where
  "settled_attempt pl c i rec cerr serr =
     (let out = (case cerr of Some e \<Rightarrow> Failed pl i e | None \<Rightarrow> Completed pl i rec serr)
      in case c of None \<Rightarrow> Done out | Some c' \<Rightarrow> Closing c' out)"

definition do_settle :: "exec_state \<Rightarrow> nat \<Rightarrow> string \<Rightarrow> time \<Rightarrow> time \<Rightarrow> bool \<Rightarrow> exec_state" where
  "do_settle s n newid now dbnow ok =
     (case attempt_at s n of
        Settling pl c i (Some u) cerr serr \<Rightarrow>
          (case commit ok (Settle (xs_ledger s) (pn_principal pl) i u newid now dbnow) of
             Inr (db, rec) \<Rightarrow> set_attempt (s\<lparr>xs_ledger := db\<rparr>) n (settled_attempt pl c i (Some rec) cerr None)
           | Inl e \<Rightarrow> set_attempt s n (Settling pl c i None cerr (Some e)))
      | Settling pl c i None cerr serr \<Rightarrow>
          (case commit ok (MarkUnknown (xs_ledger s) (pn_principal pl) i dbnow) of
             Inr db \<Rightarrow> set_attempt (s\<lparr>xs_ledger := db\<rparr>) n (settled_attempt pl c i None cerr serr)
           | Inl e \<Rightarrow>
               set_attempt s n (settled_attempt pl c i None cerr (case serr of Some e' \<Rightarrow> Some e' | None \<Rightarrow> Some e)))
      | _ \<Rightarrow> s)"

definition do_finish :: "exec_state \<Rightarrow> nat \<Rightarrow> exec_state" where
  "do_finish s n =
     (case attempt_at s n of
        Closing c out \<Rightarrow> set_attempt (release_permit s c) n (Done out)
      | _ \<Rightarrow> s)"

section \<open>The executor as a system\<close>

datatype exec_event =
    XExecute principal request policy_env time
  | XManage principal manage_request
  | XAcquire nat
  | XWake nat
  | XCancel nat
  | XReserve nat string time time bool
  | XLookup nat "string option option"
  | XBuild nat build_result
  | XRelease nat time bool
  | XMark nat time bool
  | XCall nat bool
  | XReply nat reply
  | XStamp nat time bool
  | XRead nat string bool
  | XClose nat
  | XSettle nat string time time bool
  | XFinish nat
  | XPrice price string
  | XBudget budget
  | XEndpoint endpoint
  | XEnable string string bool

definition new_attempt :: "exec_state \<Rightarrow> inference_error + job \<Rightarrow> exec_state" where
  "new_attempt s r = add_attempt s (case r of Inl e \<Rightarrow> Done (Refused e) | Inr j \<Rightarrow> Prepared j)"

text \<open>
  Authentication gives a principal a user, service account or API key as billing subject, or none; an
  event with a principal it never builds is no call.
\<close>

fun exec_step :: "exec_cfg \<Rightarrow> exec_state \<Rightarrow> exec_event \<Rightarrow> exec_state" where
  "exec_step cfg s (XExecute p req env wall) =
     (if p_billing_subject_kind p = BudgetSubjectTenant then s
      else new_attempt s (map_sum id Priced (prepare env (xs_endpoints s) wall p req)))"
| "exec_step cfg s (XManage p req) =
     new_attempt s (map_sum id Managed (prepare_manage (xc_limit cfg) (xs_endpoints s) p req))"
| "exec_step cfg s (XAcquire n) = do_acquire s n"
| "exec_step cfg s (XWake n) = do_wake s n"
| "exec_step cfg s (XCancel n) = do_cancel s n"
| "exec_step cfg s (XReserve n newid now dbnow ok) = do_reserve cfg s n newid now dbnow ok"
| "exec_step cfg s (XLookup n config) = do_lookup cfg s n config"
| "exec_step cfg s (XBuild n b) = do_build cfg s n b"
| "exec_step cfg s (XRelease n dbnow ok) = do_release s n dbnow ok"
| "exec_step cfg s (XMark n dbnow ok) = do_mark s n dbnow ok"
| "exec_step cfg s (XCall n supports) = do_call s n supports"
| "exec_step cfg s (XReply n r) = do_reply cfg s n r"
| "exec_step cfg s (XStamp n now ok) = do_stamp cfg s n now ok"
| "exec_step cfg s (XRead n chunk eof) = do_read cfg s n chunk eof"
| "exec_step cfg s (XClose n) = do_close cfg s n"
| "exec_step cfg s (XSettle n newid now dbnow ok) = do_settle s n newid now dbnow ok"
| "exec_step cfg s (XFinish n) = do_finish s n"
| "exec_step cfg s (XPrice pr actor) = s\<lparr>xs_ledger := keep_billing (xs_ledger s) (PutPrice (xs_ledger s) pr actor)\<rparr>"
| "exec_step cfg s (XBudget b) = s\<lparr>xs_ledger := keep_billing (xs_ledger s) (CreateBudget (xs_ledger s) b)\<rparr>"
| "exec_step cfg s (XEndpoint e) =
     keep_endpoints s
       (if list_ex (\<lambda>d. endpoint_key d = endpoint_key e) (xs_endpoints s)
        then UpdateEndpoint (xc_origin_ok cfg) (xs_endpoints s) e
        else CreateEndpoint (xc_origin_ok cfg) (xs_endpoints s) e)"
| "exec_step cfg s (XEnable t i b) = keep_endpoints s (SetEnabled (xs_endpoints s) t i b)"

definition exec_init :: "admission_config \<Rightarrow> exec_state" where
  "exec_init acfg =
     \<lparr>xs_ledger = empty_billing_db, xs_gate = NewAdmission acfg, xs_endpoints = [], xs_transports = [],
      xs_attempts = [], xs_calls = [], xs_manages = []\<rparr>"

definition exec_run :: "exec_cfg \<Rightarrow> admission_config \<Rightarrow> exec_event list \<Rightarrow> exec_state" where
  "exec_run cfg acfg evs = foldl (exec_step cfg) (exec_init acfg) evs"

end
