(* ===== verification/ExecutorInv.thy ===== *)
theory ExecutorInv
  imports Executor BillingInv
begin

text \<open>
  The invariant of the executor over every interleaving: each unfinished caller of the admission gate
  belongs to exactly one attempt, each reservation to exactly one attempt whose progress its row
  reflects, each upstream write to an attempt that had recorded its dispatch, and every plan in use
  was prepared. A step changes one attempt; \<open>moves\<close> lists what it must respect.
\<close>

section \<open>What an attempt holds\<close>

fun permit :: "attempt \<Rightarrow> nat option" where
  "permit (Queued j c) = Some c"
| "permit (Permitted j c) = Some c"
| "permit (Pricing pl c) = Some c"
| "permit (Reserved pl c i) = Some c"
| "permit (Building j c r sig) = Some c"
| "permit (Ready j c r) = Some c"
| "permit (Dispatched pl c i) = Some c"
| "permit (Calling pl c i) = Some c"
| "permit (Streaming pl c i st) = Some c"
| "permit (Settling pl c i u ce se) = c"
| "permit (Closing c out) = Some c"
| "permit (ManageCalling mp c) = Some c"
| "permit (ManageStreaming mp c) = Some c"
| "permit (Prepared j) = None"
| "permit (Answered pl i raw) = None"
| "permit (Releasing pl i e) = None"
| "permit (Done out) = None"

definition is_queued :: "attempt \<Rightarrow> bool" where
  "is_queued a = (case a of Queued _ _ \<Rightarrow> True | _ \<Rightarrow> False)"

lemma is_queued_simps [simp]:
  "is_queued (Queued j c)" "\<not> is_queued (Permitted j c)" "\<not> is_queued (Pricing pl c)"
  "\<not> is_queued (Reserved pl c i)" "\<not> is_queued (Building j c r sig)" "\<not> is_queued (Ready j c r)"
  "\<not> is_queued (Dispatched pl c i)" "\<not> is_queued (Calling pl c i)" "\<not> is_queued (Streaming pl c i st)"
  "\<not> is_queued (Settling pl co i u ce se)" "\<not> is_queued (Closing c out)" "\<not> is_queued (ManageCalling mp c)"
  "\<not> is_queued (ManageStreaming mp c)" "\<not> is_queued (Prepared j)" "\<not> is_queued (Answered pl i raw)"
  "\<not> is_queued (Releasing pl i e)" "\<not> is_queued (Done out)"
  by (simp_all add: is_queued_def)

datatype hold_stage =
    HoldOpen
  | HoldSent
  | HoldUnsent
  | HoldFailed
  | HoldDone "usage_record option"

fun outcome_hold :: "exec_outcome \<Rightarrow> (plan \<times> string \<times> hold_stage) option" where
  "outcome_hold (Unsent pl i e) = Some (pl, i, HoldUnsent)"
| "outcome_hold (Failed pl i e) = Some (pl, i, HoldFailed)"
| "outcome_hold (Completed pl i rec e) = Some (pl, i, HoldDone rec)"
| "outcome_hold (Refused e) = None"
| "outcome_hold (ManageDone e) = None"

fun hold_of :: "attempt \<Rightarrow> (plan \<times> string \<times> hold_stage) option" where
  "hold_of (Reserved pl c i) = Some (pl, i, HoldOpen)"
| "hold_of (Building (Priced pl) c (Some i) sig) = Some (pl, i, HoldOpen)"
| "hold_of (Ready (Priced pl) c (Some i)) = Some (pl, i, HoldOpen)"
| "hold_of (Releasing pl i e) = Some (pl, i, HoldOpen)"
| "hold_of (Dispatched pl c i) = Some (pl, i, HoldSent)"
| "hold_of (Calling pl c i) = Some (pl, i, HoldSent)"
| "hold_of (Streaming pl c i st) = Some (pl, i, HoldSent)"
| "hold_of (Answered pl i raw) = Some (pl, i, HoldSent)"
| "hold_of (Settling pl c i u ce se) = Some (pl, i, HoldSent)"
| "hold_of (Closing c out) = outcome_hold out"
| "hold_of (Done out) = outcome_hold out"
| "hold_of _ = None"

definition hold_key :: "plan \<times> string \<times> hold_stage \<Rightarrow> string \<times> string" where
  "hold_key h = (case h of (pl, i, _) \<Rightarrow> (p_tenant (pn_principal pl), i))"

text \<open>The state of the reservation row at each stage.\<close>

fun stage_ok :: "usage_record list \<Rightarrow> hold_stage \<Rightarrow> reservation \<Rightarrow> bool" where
  "stage_ok us HoldOpen r \<longleftrightarrow> rs_state r = ReservationHeld \<and> rs_dispatched r = None"
| "stage_ok us HoldSent r \<longleftrightarrow> rs_state r = ReservationHeld \<and> rs_dispatched r \<noteq> None"
| "stage_ok us HoldUnsent r \<longleftrightarrow> rs_dispatched r = None \<and> rs_state r \<in> {ReservationHeld, ReservationReleased}"
| "stage_ok us HoldFailed r \<longleftrightarrow> rs_dispatched r \<noteq> None \<and> rs_state r \<noteq> ReservationReleased"
| "stage_ok us (HoldDone None) r \<longleftrightarrow>
     rs_dispatched r \<noteq> None \<and> rs_state r \<in> {ReservationHeld, ReservationUnknown}"
| "stage_ok us (HoldDone (Some rec)) r \<longleftrightarrow>
     rs_dispatched r \<noteq> None \<and> rs_state r = ReservationSettled \<and>
     list_ex (\<lambda>u. usage_key u = res_key r \<and> u\<lparr>ur_created := ur_created rec\<rparr> = rec) us"

text \<open>The row is the one \<open>reserve\<close> made for the plan.\<close>

definition plan_row :: "plan \<Rightarrow> reservation \<Rightarrow> bool" where
  "plan_row pl r \<longleftrightarrow>
     canonical r \<and> rs_capability r = pn_capability pl \<and> rs_model r = pn_model pl \<and>
     rs_endpoint r = ep_id (pn_endpoint pl) \<and> unitMap (iq_estimate (pn_request pl)) = Inr (rs_units r)"

definition backed :: "billing_db \<Rightarrow> plan \<times> string \<times> hold_stage \<Rightarrow> bool" where
  "backed db h \<longleftrightarrow>
     (case h of (pl, i, st) \<Rightarrow>
        \<exists>r\<in>set (bd_reservations db). res_key r = hold_key h \<and> plan_row pl r \<and> stage_ok (bd_usage db) st r)"

fun sent :: "attempt \<Rightarrow> (plan \<times> string) option" where
  "sent (Calling pl c i) = Some (pl, i)"
| "sent (Streaming pl c i st) = Some (pl, i)"
| "sent (Answered pl i raw) = Some (pl, i)"
| "sent (Settling pl c i u ce se) = Some (pl, i)"
| "sent (Closing c (Failed pl i e)) = Some (pl, i)"
| "sent (Closing c (Completed pl i rec e)) = Some (pl, i)"
| "sent (Done (Failed pl i e)) = Some (pl, i)"
| "sent (Done (Completed pl i rec e)) = Some (pl, i)"
| "sent _ = None"

definition planned :: "plan \<Rightarrow> bool" where
  "planned pl \<longleftrightarrow>
     p_billing_subject_kind (pn_principal pl) \<noteq> BudgetSubjectTenant \<and>
     (\<exists>env eps wall p req. prepare env eps wall p req = Inr pl)"

fun plan_of :: "attempt \<Rightarrow> plan option" where
  "plan_of (Prepared (Priced pl)) = Some pl"
| "plan_of (Queued (Priced pl) c) = Some pl"
| "plan_of (Permitted (Priced pl) c) = Some pl"
| "plan_of (Pricing pl c) = Some pl"
| "plan_of (Reserved pl c i) = Some pl"
| "plan_of (Building (Priced pl) c r sig) = Some pl"
| "plan_of (Ready (Priced pl) c r) = Some pl"
| "plan_of (Dispatched pl c i) = Some pl"
| "plan_of _ = None"

text \<open>A priced call in the making always has its reservation.\<close>

fun shaped :: "attempt \<Rightarrow> bool" where
  "shaped (Building (Priced pl) c None sig) = False"
| "shaped (Ready (Priced pl) c None) = False"
| "shaped (Building (Managed mp) c (Some i) sig) = False"
| "shaped (Ready (Managed mp) c (Some i)) = False"
| "shaped _ = True"

section \<open>The invariant\<close>

definition owns :: "exec_state \<Rightarrow> nat \<Rightarrow> nat \<Rightarrow> bool" where
  "owns s n c \<longleftrightarrow> n < length (xs_attempts s) \<and> permit (xs_attempts s ! n) = Some c"

definition kind_ok :: "caller \<Rightarrow> attempt \<Rightarrow> bool" where
  "kind_ok cl a = (case cl of Waiting _ _ _ \<Rightarrow> is_queued a | Holding _ _ \<Rightarrow> \<not> is_queued a | Finished \<Rightarrow> False)"

definition gate_ok :: "exec_state \<Rightarrow> bool" where
  "gate_ok s \<longleftrightarrow>
     adm_inv (xs_gate s) \<and>
     (\<forall>n c. owns s n c \<longrightarrow> kind_ok (caller_at (xs_gate s) c) (xs_attempts s ! n)) \<and>
     (\<forall>n m c. owns s n c \<longrightarrow> owns s m c \<longrightarrow> n = m) \<and>
     (\<forall>c. caller_at (xs_gate s) c \<noteq> Finished \<longrightarrow> (\<exists>n. owns s n c))"

definition ledger_ok :: "exec_state \<Rightarrow> bool" where
  "ledger_ok s \<longleftrightarrow>
     billing_inv (xs_ledger s) \<and>
     (\<forall>n h. n < length (xs_attempts s) \<longrightarrow> hold_of (xs_attempts s ! n) = Some h \<longrightarrow> backed (xs_ledger s) h) \<and>
     (\<forall>n m h h'. n < length (xs_attempts s) \<longrightarrow> m < length (xs_attempts s) \<longrightarrow>
        hold_of (xs_attempts s ! n) = Some h \<longrightarrow> hold_of (xs_attempts s ! m) = Some h' \<longrightarrow>
        hold_key h = hold_key h' \<longrightarrow> n = m)"

definition call_ok :: "attempt list \<Rightarrow> upstream_call \<Rightarrow> bool" where
  "call_ok ats c \<longleftrightarrow>
     uc_attempt c < length ats \<and> sent (ats ! uc_attempt c) = Some (uc_plan c, uc_reservation c) \<and>
     dispatch_op (uc_plan c) = Some (uc_op c) \<and> planned (uc_plan c)"

definition calls_ok :: "exec_state \<Rightarrow> bool" where
  "calls_ok s \<longleftrightarrow>
     (\<forall>c\<in>set (xs_calls s). call_ok (xs_attempts s) c) \<and> distinct (map uc_attempt (xs_calls s))"

definition plans_ok :: "exec_state \<Rightarrow> bool" where
  "plans_ok s \<longleftrightarrow>
     (\<forall>a\<in>set (xs_attempts s). shaped a \<and> (\<forall>pl. plan_of a = Some pl \<longrightarrow> planned pl))"

definition exec_inv :: "exec_state \<Rightarrow> bool" where
  "exec_inv s \<longleftrightarrow> gate_ok s \<and> ledger_ok s \<and> calls_ok s \<and> plans_ok s"

section \<open>One attempt moves\<close>

text \<open>Two callers of the gate in the same kind of state.\<close>

definition same_kind :: "caller \<Rightarrow> caller \<Rightarrow> bool" where
  "same_kind x y =
     (case x of
        Waiting _ _ _ \<Rightarrow> (case y of Waiting _ _ _ \<Rightarrow> True | _ \<Rightarrow> False)
      | Holding _ _ \<Rightarrow> (case y of Holding _ _ \<Rightarrow> True | _ \<Rightarrow> False)
      | Finished \<Rightarrow> y = Finished)"

lemma same_kind_refl [simp]: "same_kind x x"
  by (cases x) (simp_all add: same_kind_def)

lemma same_kind_ok: "same_kind x y \<Longrightarrow> kind_ok y a = kind_ok x a"
  by (cases x; cases y) (simp_all add: same_kind_def kind_ok_def)

lemma same_kind_Finished: "same_kind x y \<Longrightarrow> y = Finished \<longleftrightarrow> x = Finished"
  by (cases x; cases y) (simp_all add: same_kind_def)

definition gate_moves :: "admission \<Rightarrow> attempt \<Rightarrow> attempt \<Rightarrow> admission \<Rightarrow> bool" where
  "gate_moves g a a' g' \<longleftrightarrow>
     adm_inv g' \<and>
     (\<forall>c. permit a \<noteq> Some c \<longrightarrow> permit a' \<noteq> Some c \<longrightarrow> same_kind (caller_at g c) (caller_at g' c)) \<and>
     (\<forall>c. permit a' = Some c \<longrightarrow>
        kind_ok (caller_at g' c) a' \<and> (permit a = Some c \<or> caller_at g c = Finished)) \<and>
     (\<forall>c. permit a = Some c \<longrightarrow> permit a' \<noteq> Some c \<longrightarrow> caller_at g' c = Finished)"

lemma gate_ok_moves:
  assumes ok: "gate_ok s" and n: "n < length (xs_attempts s)"
    and ats: "xs_attempts s' = (xs_attempts s)[n := a']"
    and mv: "gate_moves (xs_gate s) (xs_attempts s ! n) a' (xs_gate s')"
  shows "gate_ok s'"
proof -
  let ?g = "xs_gate s" and ?g' = "xs_gate s'" and ?a = "xs_attempts s ! n"
  have own: "owns s' m c \<longleftrightarrow> (if m = n then permit a' = Some c else owns s m c)" for m c
    using n by (auto simp: owns_def ats)
  have no_other: "permit a' \<noteq> Some c" "permit ?a \<noteq> Some c" if "owns s m c" "m \<noteq> n" for m c
  proof -
    have "kind_ok (caller_at ?g c) (xs_attempts s ! m)" using ok that(1) unfolding gate_ok_def by blast
    then have nf: "caller_at ?g c \<noteq> Finished" by (auto simp: kind_ok_def)
    show "permit ?a \<noteq> Some c"
    proof
      assume "permit ?a = Some c"
      then have "owns s n c" using n by (simp add: owns_def)
      then show False using ok that unfolding gate_ok_def by blast
    qed
    then show "permit a' \<noteq> Some c" using mv nf unfolding gate_moves_def by blast
  qed
  have kind: "kind_ok (caller_at ?g' c) (xs_attempts s' ! m)" if "owns s' m c" for m c
  proof (cases "m = n")
    case True
    then show ?thesis using that own[of m c] mv n ats by (auto simp: gate_moves_def)
  next
    case False
    then have o: "owns s m c" using that own by simp
    then have "kind_ok (caller_at ?g c) (xs_attempts s ! m)" using ok unfolding gate_ok_def by blast
    moreover have "same_kind (caller_at ?g c) (caller_at ?g' c)"
      using mv no_other[OF o False] unfolding gate_moves_def by blast
    ultimately show ?thesis using False by (simp add: ats same_kind_ok)
  qed
  moreover have "m = k" if "owns s' m c" "owns s' k c" for m k c
    using that own[of m c] own[of k c] no_other(1)[of m c] no_other(1)[of k c] ok
    unfolding gate_ok_def by (metis (full_types))
  moreover have "\<exists>m. owns s' m c" if nf: "caller_at ?g' c \<noteq> Finished" for c
  proof (cases "permit a' = Some c")
    case True
    then show ?thesis using own by auto
  next
    case False
    then have pa: "permit ?a \<noteq> Some c" using mv nf unfolding gate_moves_def by blast
    then have "same_kind (caller_at ?g c) (caller_at ?g' c)" using mv False unfolding gate_moves_def by blast
    then have "caller_at ?g c \<noteq> Finished" using nf same_kind_Finished by blast
    then obtain m where m: "owns s m c" using ok unfolding gate_ok_def by blast
    then have "m \<noteq> n" using pa by (auto simp: owns_def)
    then show ?thesis using m own by auto
  qed
  ultimately show ?thesis using mv unfolding gate_ok_def gate_moves_def by blast
qed

definition ledger_moves :: "billing_db \<Rightarrow> attempt \<Rightarrow> attempt \<Rightarrow> billing_db \<Rightarrow> bool" where
  "ledger_moves db a a' db' \<longleftrightarrow>
     billing_inv db' \<and> set (bd_usage db) \<subseteq> set (bd_usage db') \<and>
     (\<forall>r\<in>set (bd_reservations db). canonical r \<longrightarrow> map_option hold_key (hold_of a) \<noteq> Some (res_key r) \<longrightarrow>
        r \<in> set (bd_reservations db')) \<and>
     (\<forall>h. hold_of a' = Some h \<longrightarrow>
        backed db' h \<and>
        (map_option hold_key (hold_of a) = Some (hold_key h) \<or>
         (\<forall>r\<in>set (bd_reservations db). res_key r \<noteq> hold_key h)))"

lemma stage_ok_mono: "stage_ok us st r \<Longrightarrow> set us \<subseteq> set us' \<Longrightarrow> stage_ok us' st r"
  by (induction us st r rule: stage_ok.induct) (auto simp: list_ex_iff)

lemma ledger_ok_moves:
  assumes ok: "ledger_ok s" and n: "n < length (xs_attempts s)"
    and ats: "xs_attempts s' = (xs_attempts s)[n := a']"
    and mv: "ledger_moves (xs_ledger s) (xs_attempts s ! n) a' (xs_ledger s')"
  shows "ledger_ok s'"
proof -
  let ?db = "xs_ledger s" and ?db' = "xs_ledger s'" and ?a = "xs_attempts s ! n"
  have other: "backed ?db' h \<and> map_option hold_key (hold_of ?a) \<noteq> Some (hold_key h) \<and>
      (\<exists>r\<in>set (bd_reservations ?db). res_key r = hold_key h)"
    if m: "m < length (xs_attempts s)" "m \<noteq> n" "hold_of (xs_attempts s ! m) = Some h" for m h
  proof -
    obtain pl i st where h: "h = (pl, i, st)" by (cases h) auto
    have "backed ?db h" using ok m unfolding ledger_ok_def by blast
    then obtain r where r: "r \<in> set (bd_reservations ?db)" "res_key r = hold_key h" "plan_row pl r"
      "stage_ok (bd_usage ?db) st r" unfolding backed_def h by auto
    have ne: "map_option hold_key (hold_of ?a) \<noteq> Some (hold_key h)"
    proof
      assume "map_option hold_key (hold_of ?a) = Some (hold_key h)"
      then obtain h' where h': "hold_of ?a = Some h'" "hold_key h' = hold_key h" by auto
      have "n = m" using ok n m(1,3) h' unfolding ledger_ok_def by blast
      then show False using m(2) by simp
    qed
    have "canonical r" using r(3) by (simp add: plan_row_def)
    then have "r \<in> set (bd_reservations ?db')" using mv r(1,2) ne unfolding ledger_moves_def by metis
    moreover have "stage_ok (bd_usage ?db') st r"
      using r(4) mv unfolding ledger_moves_def by (blast intro: stage_ok_mono)
    ultimately have "backed ?db' h" using r(2,3) unfolding backed_def h by auto
    then show ?thesis using ne r(1,2) by blast
  qed
  have "backed ?db' h" if "m < length (xs_attempts s')" "hold_of (xs_attempts s' ! m) = Some h" for m h
    using that other[of m h] mv n by (cases "m = n") (auto simp: ats ledger_moves_def)
  moreover have "m = k" if "m < length (xs_attempts s')" "k < length (xs_attempts s')"
      "hold_of (xs_attempts s' ! m) = Some h" "hold_of (xs_attempts s' ! k) = Some h'" "hold_key h = hold_key h'"
    for m k h h'
  proof -
    have clash: False if o: "k' < length (xs_attempts s)" "k' \<noteq> n" "hold_of (xs_attempts s ! k') = Some x"
        and y: "hold_of a' = Some y" and eq: "hold_key x = hold_key y" for k' x y
      using other[OF o] mv y eq unfolding ledger_moves_def by metis
    have at_n: "hold_of (xs_attempts s' ! n) = hold_of a'" using n by (simp add: ats)
    have at_other: "hold_of (xs_attempts s' ! j) = hold_of (xs_attempts s ! j)" if "j \<noteq> n" for j
      using that by (simp add: ats)
    have lens: "m < length (xs_attempts s)" "k < length (xs_attempts s)" using that(1,2) by (simp_all add: ats)
    show ?thesis
    proof (cases "m = n"; cases "k = n")
      assume "m = n" "k \<noteq> n"
      then show ?thesis
        using clash[OF lens(2), of h' h] that(3,4) that(5)[symmetric] at_n at_other[of k] by simp
    next
      assume "m \<noteq> n" "k = n"
      then show ?thesis using clash[OF lens(1), of h h'] that(3,4,5) at_n at_other[of m] by simp
    next
      assume mk: "m \<noteq> n" "k \<noteq> n"
      then have "hold_of (xs_attempts s ! m) = Some h" "hold_of (xs_attempts s ! k) = Some h'"
        using that(3,4) at_other by simp_all
      then show ?thesis using ok lens that(5) unfolding ledger_ok_def by blast
    qed simp
  qed
  ultimately show ?thesis using mv unfolding ledger_ok_def ledger_moves_def by blast
qed

end
