(* ===== verification/ExecutorMoves.thy ===== *)
theory ExecutorMoves
  imports ExecutorInv BillingProps
begin

text \<open>
  The moves of one attempt: how each operation of the admission gate and each billing transaction on
  the attempt's own reservation, and the calls it writes, keep the executor's invariant.
\<close>

section \<open>Moves\<close>

definition calls_move :: "exec_state \<Rightarrow> nat \<Rightarrow> attempt \<Rightarrow> upstream_call list \<Rightarrow> bool" where
  "calls_move s n a' cs \<longleftrightarrow>
     (\<forall>p. sent (xs_attempts s ! n) = Some p \<longrightarrow> sent a' = Some p) \<and>
     (cs = xs_calls s \<or>
      (\<exists>c. cs = xs_calls s @ [c] \<and> uc_attempt c = n \<and> sent (xs_attempts s ! n) = None \<and>
           sent a' = Some (uc_plan c, uc_reservation c) \<and> dispatch_op (uc_plan c) = Some (uc_op c) \<and>
           planned (uc_plan c)))"

definition plans_move :: "attempt \<Rightarrow> attempt \<Rightarrow> bool" where
  "plans_move a a' \<longleftrightarrow> shaped a' \<and> (\<forall>pl. plan_of a' = Some pl \<longrightarrow> plan_of a = Some pl)"

definition moves :: "exec_state \<Rightarrow> nat \<Rightarrow> attempt \<Rightarrow> exec_state \<Rightarrow> bool" where
  "moves s n a' s' \<longleftrightarrow>
     n < length (xs_attempts s) \<and> xs_attempts s' = (xs_attempts s)[n := a'] \<and>
     gate_moves (xs_gate s) (xs_attempts s ! n) a' (xs_gate s') \<and>
     ledger_moves (xs_ledger s) (xs_attempts s ! n) a' (xs_ledger s') \<and>
     calls_move s n a' (xs_calls s') \<and> plans_move (xs_attempts s ! n) a'"

lemma calls_ok_move:
  assumes ok: "calls_ok s" and n: "n < length (xs_attempts s)"
    and ats: "xs_attempts s' = (xs_attempts s)[n := a']" and mv: "calls_move s n a' (xs_calls s')"
  shows "calls_ok s'"
proof -
  have old: "call_ok (xs_attempts s') c" if "c \<in> set (xs_calls s)" for c
    using that ok mv n unfolding calls_ok_def call_ok_def calls_move_def ats
    by (cases "uc_attempt c = n") auto
  have fresh: "uc_attempt c \<noteq> n" if "c \<in> set (xs_calls s)" "sent (xs_attempts s ! n) = None" for c
    using that ok unfolding calls_ok_def call_ok_def by fastforce
  have "calls_ok s'" if c: "xs_calls s' = xs_calls s @ [c]" "uc_attempt c = n"
      "sent (xs_attempts s ! n) = None" "sent a' = Some (uc_plan c, uc_reservation c)"
      "dispatch_op (uc_plan c) = Some (uc_op c)" "planned (uc_plan c)" for c
  proof -
    have "call_ok (xs_attempts s') c" using c n by (simp add: call_ok_def ats)
    moreover have "uc_attempt c \<notin> uc_attempt ` set (xs_calls s)" using fresh[OF _ c(3)] c(2) by (metis imageE)
    ultimately show ?thesis using old c(1) ok unfolding calls_ok_def by simp
  qed
  moreover have "calls_ok s'" if "xs_calls s' = xs_calls s"
    using old ok that unfolding calls_ok_def by simp
  ultimately show ?thesis using mv unfolding calls_move_def by blast
qed

lemma exec_inv_moves: "exec_inv s \<Longrightarrow> moves s n a' s' \<Longrightarrow> exec_inv s'"
proof -
  assume inv: "exec_inv s" and mv: "moves s n a' s'"
  note m = mv[unfolded moves_def] and i = inv[unfolded exec_inv_def]
  have ats: "set (xs_attempts s') \<subseteq> insert a' (set (xs_attempts s))"
    using m by (simp add: set_update_subset_insert)
  have "plans_ok s'"
    unfolding plans_ok_def
  proof
    fix a assume "a \<in> set (xs_attempts s')"
    then consider "a = a'" | "a \<in> set (xs_attempts s)" using ats by blast
    then show "shaped a \<and> (\<forall>pl. plan_of a = Some pl \<longrightarrow> planned pl)"
    proof cases
      case 1
      have "xs_attempts s ! n \<in> set (xs_attempts s)" using m by simp
      then show ?thesis using 1 m i unfolding plans_move_def plans_ok_def by blast
    next
      case 2
      then show ?thesis using i unfolding plans_ok_def by blast
    qed
  qed
  then show "exec_inv s'"
    using m i gate_ok_moves[of s n s' a'] ledger_ok_moves[of s n s' a'] calls_ok_move[of s n s' a']
    unfolding exec_inv_def by blast
qed

lemma attempt_at_in:
  assumes "attempt_at s n = a" and "\<And>e. a \<noteq> Done (Refused e)"
  shows "n < length (xs_attempts s) \<and> xs_attempts s ! n = a"
  using assms by (auto simp: attempt_at_def split: if_split_asm)

lemma calls_same:
  "(\<And>p. sent (xs_attempts s ! n) = Some p \<Longrightarrow> sent a' = Some p) \<Longrightarrow> calls_move s n a' (xs_calls s)"
  by (simp add: calls_move_def)

section \<open>The gate\<close>

lemma mark_granted_kind: "same_kind x (mark_granted x)"
  by (cases x) (simp_all add: same_kind_def mark_granted_def)

lemma grantLocked_kind: "same_kind (caller_at a m) (caller_at (grantLocked a cls) m)"
  by (auto simp: grantLocked_def Let_def caller_at_def nth_grant_callers mark_granted_kind split: prod.split)

lemma caller_at_update:
  "caller_at (a\<lparr>ad_callers := (ad_callers a)[n := x]\<rparr>) m =
     (if m = n \<and> n < length (ad_callers a) then x else caller_at a m)"
  by (auto simp: caller_at_def)

lemma caller_at_set_pool [simp]: "caller_at (set_pool a cls p) m = caller_at a m"
  by (simp add: caller_at_def)

lemma Release_kind:
  assumes "caller_at a n = Holding cls t"
  shows "caller_at (Release a n) n = Finished" and "m \<noteq> n \<Longrightarrow> same_kind (caller_at a m) (caller_at (Release a n) m)"
proof -
  let ?p = "(pool_of a cls)\<lparr>pl_active := pl_active (pool_of a cls) - 1\<rparr>"
  let ?b = "set_pool (a\<lparr>ad_callers := (ad_callers a)[n := Finished]\<rparr>) cls ?p"
  have r: "Release a n = grantLocked ?b cls" by (simp add: Release_def assms Let_def)
  have n: "n < length (ad_callers a)" using caller_at_lt[of a n] assms by simp
  have b: "caller_at ?b m = (if m = n then Finished else caller_at a m)" for m
    using n by (simp add: caller_at_update)
  show "caller_at (Release a n) n = Finished"
    using grantLocked_kind[of ?b n cls] same_kind_Finished b[of n] unfolding r by metis
  show "m \<noteq> n \<Longrightarrow> same_kind (caller_at a m) (caller_at (Release a n) m)"
    using grantLocked_kind[of ?b m cls] b[of m] unfolding r by simp
qed

lemma AcquireCancel_kind:
  assumes "caller_at a n = Waiting cls t g"
  shows "caller_at (AcquireCancel a n) n = Finished"
    and "m \<noteq> n \<Longrightarrow> same_kind (caller_at a m) (caller_at (AcquireCancel a n) m)"
proof -
  have n: "n < length (ad_callers a)" using caller_at_lt[of a n] assms by simp
  obtain p where r: "AcquireCancel a n = grantLocked (set_pool (a\<lparr>ad_callers := (ad_callers a)[n := Finished]\<rparr>) cls p) cls"
    by (simp add: AcquireCancel_def assms Let_def)
  let ?b = "set_pool (a\<lparr>ad_callers := (ad_callers a)[n := Finished]\<rparr>) cls p"
  have b: "caller_at ?b m = (if m = n then Finished else caller_at a m)" for m
    using n by (simp add: caller_at_update)
  show "caller_at (AcquireCancel a n) n = Finished"
    using grantLocked_kind[of ?b n cls] same_kind_Finished b[of n] unfolding r by metis
  show "m \<noteq> n \<Longrightarrow> same_kind (caller_at a m) (caller_at (AcquireCancel a n) m)"
    using grantLocked_kind[of ?b m cls] b[of m] unfolding r by simp
qed

lemma gate_same:
  assumes "adm_inv g" and "permit a' = permit a"
    and "\<And>c. permit a = Some c \<Longrightarrow> kind_ok (caller_at g c) a \<and> is_queued a' = is_queued a"
  shows "gate_moves g a a' g"
  using assms by (auto simp: gate_moves_def kind_ok_def split: caller.splits)

lemma gate_release:
  assumes "adm_inv g" and "permit a = Some c" and "\<not> is_queued a" and "kind_ok (caller_at g c) a"
    and "permit a' = None"
  shows "gate_moves g a a' (Release g c)"
proof -
  obtain cls t where h: "caller_at g c = Holding cls t"
    using assms(3,4) by (auto simp: kind_ok_def split: caller.splits)
  show ?thesis
    using assms Release_inv[of g c] Release_kind[OF h] by (auto simp: gate_moves_def)
qed

lemma gate_cancel:
  assumes "adm_inv g" and "permit a = Some c" and "is_queued a" and "kind_ok (caller_at g c) a"
    and "permit a' = None"
  shows "gate_moves g a a' (AcquireCancel g c)"
proof -
  obtain cls t b where h: "caller_at g c = Waiting cls t b"
    using assms(3,4) by (auto simp: kind_ok_def split: caller.splits)
  show ?thesis
    using assms AcquireCancel_inv[of g c] AcquireCancel_kind[OF h] by (auto simp: gate_moves_def)
qed

lemma gate_wake:
  assumes "adm_inv g" and "caller_at g c = Waiting cls t True" and "permit a = Some c"
    and "permit a' = Some c" and "\<not> is_queued a'"
  shows "gate_moves g a a' (AcquireWake g c)"
proof -
  have "c < length (ad_callers g)" using caller_at_lt[of g c] assms(2) by simp
  then have "caller_at (AcquireWake g c) m = (if m = c then Holding cls t else caller_at g m)" for m
    by (simp add: AcquireWake_def assms(2) caller_at_update)
  then show ?thesis using assms AcquireWake_inv[of g c] by (auto simp: gate_moves_def kind_ok_def)
qed

lemma gate_acquire:
  assumes "adm_inv g" and "Acquire g cls t = (g', r)" and "permit a = None"
    and "r = Admitted \<Longrightarrow> permit a' = Some (length (ad_callers g)) \<and> \<not> is_queued a'"
    and "r = Enqueued \<Longrightarrow> permit a' = Some (length (ad_callers g)) \<and> is_queued a'"
    and "r = ErrOverloaded \<Longrightarrow> permit a' = None"
  shows "gate_moves g a a' g'"
proof -
  have inv: "adm_inv g'" using Acquire_inv[OF assms(1), of cls t] assms(2) by simp
  define x where "x = (case r of Admitted \<Rightarrow> Holding cls t | Enqueued \<Rightarrow> Waiting cls t False | ErrOverloaded \<Rightarrow> Finished)"
  have "ad_callers g' = ad_callers g @ [x]"
    using assms(2) unfolding x_def Acquire_def Let_def by (auto split: if_split_asm)
  then have at: "caller_at g' m = (if m = length (ad_callers g) then x else caller_at g m)" for m
    by (auto simp: caller_at_def nth_append)
  have new: "caller_at g (length (ad_callers g)) = Finished" by (simp add: caller_at_def)
  show ?thesis
    using assms(3-6) inv new by (cases r) (auto simp: gate_moves_def at x_def kind_ok_def)
qed

section \<open>The ledger\<close>

lemma backedE:
  assumes "backed db (pl, i, st)"
  obtains r where "r \<in> set (bd_reservations db)" and "res_key r = (p_tenant (pn_principal pl), i)"
    and "plan_row pl r" and "stage_ok (bd_usage db) st r"
  using assms unfolding backed_def hold_key_def by auto

lemma backedI:
  "r \<in> set (bd_reservations db) \<Longrightarrow> res_key r = (p_tenant (pn_principal pl), i) \<Longrightarrow> plan_row pl r \<Longrightarrow>
   stage_ok (bd_usage db) st r \<Longrightarrow> backed db (pl, i, st)"
  unfolding backed_def hold_key_def by auto

lemma ledger_same:
  assumes "billing_inv db" and "\<And>h. hold_of a = Some h \<Longrightarrow> backed db h"
    and "hold_of a' = None \<or> hold_of a' = hold_of a"
  shows "ledger_moves db a a' db"
proof -
  have "backed db h \<and> map_option hold_key (hold_of a) = Some (hold_key h)" if h: "hold_of a' = Some h" for h
    using assms(3)
  proof
    assume "hold_of a' = hold_of a"
    then have a: "hold_of a = Some h" using h by simp
    then show ?thesis using assms(2)[OF a] by simp
  qed (use h in simp)
  then show ?thesis using assms(1) unfolding ledger_moves_def by blast
qed

lemma ledger_stage:
  assumes "billing_inv db" and "hold_of a = Some (pl, i, st)" and "hold_of a' = Some (pl, i, st')"
    and "backed db (pl, i, st')"
  shows "ledger_moves db a a' db"
  unfolding ledger_moves_def assms(2,3)
proof (intro conjI allI impI assms(1) subset_refl ballI)
  fix h assume "Some (pl, i, st') = Some h"
  then have "h = (pl, i, st')" by simp
  then show "backed db h" and "map_option hold_key (Some (pl, i, st)) = Some (hold_key h) \<or>
      (\<forall>r\<in>set (bd_reservations db). res_key r \<noteq> hold_key h)"
    using assms(4) by (simp_all add: hold_key_def)
qed

text \<open>A statement on the group of one canonical reservation touches no other canonical row.\<close>

lemma group_key: "canonical r \<Longrightarrow> in_group t i r \<Longrightarrow> res_key r = (t, i)"
proof -
  assume c: "canonical r" and g: "in_group t i r"
  have "rs_id r = i" by (rule group_touches_canonical[OF c g])
  moreover have "rs_tenant r = t" using g by (simp only: in_group_def)
  ultimately show ?thesis by (simp add: res_key_def)
qed

lemma ledger_group:
  assumes ev: "db_evolves db db'" and a: "hold_of a = Some (pl, i, st)" and a': "hold_of a' = Some (pl, i, st')"
    and rows: "bd_reservations db' = upd_rows (\<lambda>r. in_group (p_tenant (pn_principal pl)) i r \<and> Q r) f (bd_reservations db)"
    and row: "r \<in> set (bd_reservations db)" "res_key r = (p_tenant (pn_principal pl), i)" "plan_row pl r"
    and f: "\<And>r. fixed_part (f r) = fixed_part r" and Q: "Q r" and st: "stage_ok (bd_usage db') st' (f r)"
  shows "ledger_moves db a a' db'"
proof -
  let ?t = "p_tenant (pn_principal pl)"
  have "x \<in> set (bd_reservations db')"
    if "x \<in> set (bd_reservations db)" "canonical x" "res_key x \<noteq> (?t, i)" for x
  proof -
    have "\<not> in_group ?t i x" using group_key[OF that(2)] that(3) by blast
    then show ?thesis using upd_rows_in[OF that(1)] unfolding rows by (metis (no_types, lifting))
  qed
  moreover have "backed db' (pl, i, st')"
  proof (rule backedI)
    have "in_group ?t i r" using row(2) by (simp add: in_group_def res_key_def)
    then show "f r \<in> set (bd_reservations db')"
      using upd_rows_in[OF row(1)] Q unfolding rows by (metis (no_types, lifting))
    show "res_key (f r) = (?t, i)" using row(2) fixed_key[OF f[of r]] by simp
    show "plan_row pl (f r)" using row(3) f[of r] by (simp add: plan_row_def canonical_def fixed_part_def)
  qed (rule st)
  ultimately show ?thesis
    using ev a a' unfolding ledger_moves_def db_evolves_def by (auto simp: hold_key_def)
qed

lemma commit_Inr: "commit ok r = Inr x \<longleftrightarrow> ok \<and> r = Inr x"
  by (cases r) (auto simp: commit_def)

text \<open>A new reservation: its canonical row, among rows of a fresh key.\<close>

lemma planned_subject:
  assumes "planned pl"
  shows "chargeable (p_tenant (pn_principal pl)) (request_subject (pn_principal pl) (base_request pl m))"
proof -
  obtain env eps wall p req where "prepare env eps wall p req = Inr pl" using assms by (auto simp: planned_def)
  then have "p_tenant (pn_principal pl) \<noteq> []"
    by (auto simp: prepare_def bind_r_Inr Let_def split: if_split_asm option.splits)
  then show ?thesis
    using assms by (auto simp: planned_def chargeable_def request_subject_def base_request_def billingSubjectFor_def)
qed

lemma Reserve_row:
  assumes inv: "billing_inv db" and id: "plain_id newid" and pl: "planned pl"
    and r: "Reserve fk db (pn_principal pl) (base_request pl m) newid now dbnow = Inr (db', res)"
  shows "rs_id res = newid \<and> backed db' (pl, newid, HoldOpen) \<and>
    set (bd_reservations db) \<subseteq> set (bd_reservations db') \<and> bd_usage db' = bd_usage db \<and>
    (\<forall>r\<in>set (bd_reservations db). res_key r \<noteq> (p_tenant (pn_principal pl), newid))"
proof -
  let ?p = "pn_principal pl" and ?q = "base_request pl m"
  let ?subj = "request_subject ?p ?q"
  let ?subs = "subjectsFor (p_tenant ?p) ?subj (rq_subjects ?q)"
  obtain est snap bound where u: "unitMap (rq_estimate ?q) = Inr est"
    and res: "res = held_reservation ?p ?q newid now ?subj snap bound est"
    and ins: "InsertReservations fk dbnow db (reservation_rows res ?subj ?subs) = Inr db'"
    using r by (rule Reserve_Inr)
  note rows = InsertReservations_Inr[OF ins]
  let ?row = "inserted_row dbnow (res\<lparr>rs_subject := ?subj\<rparr>)"
  let ?new = "map (inserted_row dbnow) (reservation_rows res ?subj ?subs)"
  have "?subj \<in> set ?subs" by (rule chargeable_subject[OF planned_subject[OF pl]])
  then have new: "?row \<in> set ?new" by (auto simp: reservation_rows_def)
  have db': "bd_reservations db' = bd_reservations db @ ?new" "bd_usage db' = bd_usage db" using rows by simp_all
  have key: "res_key ?row = (p_tenant ?p, newid)" by (simp add: res_key_def res held_reservation_def)
  have "CHR ''/'' \<notin> set newid" using id by (auto simp: plain_id_def list_all_iff)
  then have "plan_row pl ?row"
    using u by (simp add: plan_row_def canonical_def inserted_row_def res held_reservation_def base_request_def)
  moreover have "stage_ok (bd_usage db') HoldOpen ?row" by (simp add: inserted_row_def)
  ultimately have "backed db' (pl, newid, HoldOpen)" using new key by (intro backedI[of ?row]) (simp_all add: db')
  moreover have "distinct (map res_key (bd_reservations db @ ?new))"
    using rows inv unfolding billing_inv_def db' by simp
  then have "\<forall>x\<in>set (bd_reservations db). res_key x \<noteq> res_key ?row"
    using new by (auto simp del: inserted_row_simps)
  ultimately show ?thesis unfolding key using db' by (simp add: res held_reservation_def)
qed

lemma ledger_reserve:
  assumes inv: "billing_inv db" and "plain_id newid" and "planned pl"
    and r: "Reserve fk db (pn_principal pl) (base_request pl m) newid now dbnow = Inr (db', res)"
    and "hold_of a = None" and a': "hold_of a' = Some (pl, rs_id res, HoldOpen)"
  shows "ledger_moves db a a' db'"
proof -
  note row = Reserve_row[OF assms(1-4)]
  have "billing_inv db'" using evolves_Reserve[OF inv r] by (simp add: db_evolves_def)
  then show ?thesis using row assms(5) a' unfolding ledger_moves_def by (auto simp: hold_key_def)
qed

text \<open>The transactions on the attempt's own reservation.\<close>

lemma open_row:
  assumes "billing_inv db" and "backed db (pl, i, st)" and "GetReservation db (p_tenant (pn_principal pl)) i = Inr r"
  shows "r \<in> set (bd_reservations db) \<and> res_key r = (p_tenant (pn_principal pl), i) \<and> plan_row pl r \<and>
    stage_ok (bd_usage db) st r"
proof -
  obtain r0 where r0: "r0 \<in> set (bd_reservations db)" "res_key r0 = (p_tenant (pn_principal pl), i)"
    "plan_row pl r0" "stage_ok (bd_usage db) st r0" using assms(2) by (rule backedE)
  have "r \<in> set (bd_reservations db)" "res_key r = (p_tenant (pn_principal pl), i)"
    using assms(3) GetReservation_Inr[OF assms(1)] by auto
  then have "r = r0" using res_unique[OF assms(1), of r r0] r0(1,2) by simp
  then show ?thesis using r0 by simp
qed

lemma ledger_mark:
  assumes inv: "billing_inv db" and b: "backed db (pl, i, HoldOpen)"
    and r: "MarkDispatched db (pn_principal pl) i dbnow = Inr db'"
    and a: "hold_of a = Some (pl, i, HoldOpen)" and a': "hold_of a' = Some (pl, i, HoldSent)"
  shows "ledger_moves db a a' db'"
proof -
  obtain r0 where g: "GetReservation db (p_tenant (pn_principal pl)) i = Inr r0"
    and db': "db' = fst (MarkDispatchedRes db (p_tenant (pn_principal pl)) i dbnow)"
    using r by (auto simp: MarkDispatched_def bind_r_Inr)
  note r0 = open_row[OF inv b g]
  show ?thesis
    by (rule ledger_group[OF evolves_MarkDispatched[OF inv r] a a', where r = r0 and Q = "\<lambda>r. rs_dispatched r = None"
        and f = "\<lambda>r. r\<lparr>rs_dispatched := Some dbnow\<rparr>"])
       (use r0 in \<open>simp_all add: db' MarkDispatchedRes_def Let_def fixed_part_def\<close>)
qed

lemma ledger_unknown:
  assumes inv: "billing_inv db" and b: "backed db (pl, i, HoldSent)"
    and r: "MarkUnknown db (pn_principal pl) i dbnow = Inr db'"
    and a: "hold_of a = Some (pl, i, HoldSent)" and a': "hold_of a' = Some (pl, i, st)"
    and st: "st = HoldFailed \<or> st = HoldDone None"
  shows "ledger_moves db a a' db'"
proof -
  obtain r0 where r0: "r0 \<in> set (bd_reservations db)" "res_key r0 = (p_tenant (pn_principal pl), i)"
    "plan_row pl r0" "stage_ok (bd_usage db) HoldSent r0" using b by (rule backedE)
  have db': "bd_reservations db' = upd_rows (\<lambda>r. in_group (p_tenant (pn_principal pl)) i r \<and> rs_state r = ReservationHeld)
      (transition_row ReservationUnknown dbnow) (bd_reservations db)"
    using r by (auto simp: MarkUnknown_def Transition_eq bind_r_Inr split: if_splits)
  show ?thesis
    by (rule ledger_group[OF evolves_MarkUnknown[OF inv r] a a' db' r0(1-3)]) (use r0(4) st in auto)
qed

lemma ledger_release:
  assumes inv: "billing_inv db" and b: "backed db (pl, i, HoldOpen)"
    and r: "ReleaseUndispatched db (pn_principal pl) i dbnow = Inr db'"
    and a: "hold_of a = Some (pl, i, HoldOpen)" and a': "hold_of a' = Some (pl, i, HoldUnsent)"
  shows "ledger_moves db a a' db'"
proof -
  obtain r0 where g: "GetReservation db (p_tenant (pn_principal pl)) i = Inr r0"
    using r by (auto simp: ReleaseUndispatched_def bind_r_Inr)
  note r0 = open_row[OF inv b g]
  have db': "bd_reservations db' = upd_rows (\<lambda>r. in_group (p_tenant (pn_principal pl)) i r \<and> rs_state r = ReservationHeld)
      (transition_row ReservationReleased dbnow) (bd_reservations db)"
    using r r0 by (auto simp: ReleaseUndispatched_def g bind_r_Inr Transition_eq split: if_splits)
  show ?thesis
    by (rule ledger_group[OF evolves_Release[OF inv r] a a' db', where r = r0]) (use r0 in auto)
qed

lemma ledger_settle:
  assumes inv: "billing_inv db" and b: "backed db (pl, i, HoldSent)"
    and r: "Settle db (pn_principal pl) i u newid now dbnow = Inr (db', rec)"
    and a: "hold_of a = Some (pl, i, HoldSent)" and a': "hold_of a' = Some (pl, i, st)"
    and st: "st = HoldFailed \<or> st = HoldDone (Some rec)"
  shows "ledger_moves db a a' db'"
  using inv r
proof (cases rule: Settle_Inr)
  case (again r0)
  obtain r1 where r1: "r1 \<in> set (bd_reservations db)" "res_key r1 = (p_tenant (pn_principal pl), i)"
    "stage_ok (bd_usage db) HoldSent r1" using b by (rule backedE)
  have "r1 = r0" using res_unique[OF inv r1(1) again(1)] r1(2) again(2) by simp
  then show ?thesis using again(3) r1(3) by simp
next
  case (first r0 um amt)
  obtain r1 where r1: "r1 \<in> set (bd_reservations db)" "res_key r1 = (p_tenant (pn_principal pl), i)"
    "plan_row pl r1" "stage_ok (bd_usage db) HoldSent r1" using b by (rule backedE)
  have eq: "r1 = r0" using res_unique[OF inv r1(1) first(1)] r1(2) first(2) by simp
  have key: "usage_key (rec\<lparr>ur_created := dbnow\<rparr>) = (p_tenant (pn_principal pl), i)"
    using first(2) by (simp add: first(6) usage_key_def settlement_def res_key_def)
  have rows: "bd_reservations db' = upd_rows (\<lambda>r. in_group (p_tenant (pn_principal pl)) i r \<and> rs_state r = ReservationHeld)
      (transition_row ReservationSettled dbnow) (bd_reservations db)"
    and us: "rec\<lparr>ur_created := dbnow\<rparr> \<in> set (bd_usage db')"
    by (simp_all add: first(8))
  have rk: "res_key (transition_row ReservationSettled dbnow r1) = (p_tenant (pn_principal pl), i)"
    using r1(2) fixed_key[OF transition_fixed[of ReservationSettled dbnow r1]] by simp
  have "list_ex (\<lambda>v. usage_key v = (p_tenant (pn_principal pl), i) \<and> v\<lparr>ur_created := ur_created rec\<rparr> = rec) (bd_usage db')"
    using us key unfolding list_ex_iff by (intro bexI[OF _ us]) simp
  then have "stage_ok (bd_usage db') st (transition_row ReservationSettled dbnow r1)"
    using r1(4) st rk by auto
  then show ?thesis
    by (intro ledger_group[OF evolves_Settle[OF inv r] a a' rows r1(1-3)]) (use r1(4) in auto)
qed

end
