(* ===== verification/ExecutorSteps.thy ===== *)
theory ExecutorSteps
  imports ExecutorMoves
begin

text \<open>
  Every step of the executor keeps its invariant: a step that changes anything changes one attempt,
  and its move is built from the gate operation or the billing transaction it makes. The executor
  interprets the shared transition-system contract.
\<close>

section \<open>Every step keeps the invariant\<close>

lemma set_attempt_simps [simp]:
  "xs_ledger (set_attempt s n a) = xs_ledger s" "xs_gate (set_attempt s n a) = xs_gate s"
  "xs_endpoints (set_attempt s n a) = xs_endpoints s" "xs_transports (set_attempt s n a) = xs_transports s"
  "xs_calls (set_attempt s n a) = xs_calls s" "xs_manages (set_attempt s n a) = xs_manages s"
  "xs_attempts (set_attempt s n a) = (xs_attempts s)[n := a]"
  by (simp_all add: set_attempt_def)

lemma release_permit_simps [simp]:
  "xs_ledger (release_permit s c) = xs_ledger s" "xs_gate (release_permit s c) = Release (xs_gate s) c"
  "xs_endpoints (release_permit s c) = xs_endpoints s" "xs_transports (release_permit s c) = xs_transports s"
  "xs_calls (release_permit s c) = xs_calls s" "xs_manages (release_permit s c) = xs_manages s"
  "xs_attempts (release_permit s c) = xs_attempts s"
  by (simp_all add: release_permit_def)

lemma inv_tables: "exec_inv s \<Longrightarrow> adm_inv (xs_gate s)" "exec_inv s \<Longrightarrow> billing_inv (xs_ledger s)"
  by (simp_all add: exec_inv_def gate_ok_def ledger_ok_def)

lemma inv_permit:
  assumes "exec_inv s" and "n < length (xs_attempts s)" and "permit (xs_attempts s ! n) = Some c"
  shows "kind_ok (caller_at (xs_gate s) c) (xs_attempts s ! n)"
  using assms by (auto simp: exec_inv_def gate_ok_def owns_def)

lemma inv_hold:
  assumes "exec_inv s" and "n < length (xs_attempts s)" and "hold_of (xs_attempts s ! n) = Some h"
  shows "backed (xs_ledger s) h"
  using assms unfolding exec_inv_def ledger_ok_def by blast

lemma inv_plan:
  assumes "exec_inv s" and "n < length (xs_attempts s)"
  shows "shaped (xs_attempts s ! n)" and "plan_of (xs_attempts s ! n) = Some pl \<Longrightarrow> planned pl"
  using assms by (auto simp: exec_inv_def plans_ok_def)

lemma step_inv:
  assumes inv: "exec_inv s" and at: "attempt_at s n = a" and ne: "\<And>e. a \<noteq> Done (Refused e)"
    and ats: "xs_attempts s1 = xs_attempts s"
    and "gate_moves (xs_gate s) a a' (xs_gate s1)" and "ledger_moves (xs_ledger s) a a' (xs_ledger s1)"
    and "calls_move s n a' (xs_calls s1)" and "plans_move a a'"
  shows "exec_inv (set_attempt s1 n a')"
proof -
  have n: "n < length (xs_attempts s)" "xs_attempts s ! n = a" using attempt_at_in[OF at ne] by auto
  have "moves s n a' (set_attempt s1 n a')"
    unfolding moves_def set_attempt_simps n(2) using assms(5-8) n(1) ats by simp
  then show ?thesis by (rule exec_inv_moves[OF inv])
qed

text \<open>The parts of a move that change nothing but the attempt.\<close>

lemma gate_keep:
  assumes "exec_inv s" and "attempt_at s n = a" and "\<And>e. a \<noteq> Done (Refused e)"
    and "permit a' = permit a" and "is_queued a' = is_queued a"
  shows "gate_moves (xs_gate s) a a' (xs_gate s)"
  using attempt_at_in[OF assms(2,3)] inv_permit[OF assms(1)] inv_tables(1)[OF assms(1)] assms(4,5)
  by (intro gate_same) auto

lemma gate_drop:
  assumes "exec_inv s" and "attempt_at s n = a" and "\<And>e. a \<noteq> Done (Refused e)"
    and "permit a = Some c" and "\<not> is_queued a" and "permit a' = None"
  shows "gate_moves (xs_gate s) a a' (Release (xs_gate s) c)"
  using attempt_at_in[OF assms(2,3)] inv_permit[OF assms(1)] assms(4-6)
  by (intro gate_release[OF inv_tables(1)[OF assms(1)]]) auto

lemma ledger_keep:
  assumes "exec_inv s" and "attempt_at s n = a" and "\<And>e. a \<noteq> Done (Refused e)"
    and "hold_of a' = None \<or> hold_of a' = hold_of a"
  shows "ledger_moves (xs_ledger s) a a' (xs_ledger s)"
  using attempt_at_in[OF assms(2,3)] inv_hold[OF assms(1)] inv_tables(2)[OF assms(1)] assms(4)
  by (intro ledger_same) auto

lemma ledger_relabel:
  assumes "exec_inv s" and "attempt_at s n = a" and "\<And>e. a \<noteq> Done (Refused e)"
    and "hold_of a = Some (pl, i, st)" and "hold_of a' = Some (pl, i, st')"
    and "\<And>r us. stage_ok us st r \<Longrightarrow> stage_ok us st' r"
  shows "ledger_moves (xs_ledger s) a a' (xs_ledger s)"
proof -
  have "backed (xs_ledger s) (pl, i, st)"
    using attempt_at_in[OF assms(2,3)] inv_hold[OF assms(1), of n] assms(4) by simp
  then have "backed (xs_ledger s) (pl, i, st')" using assms(6) by (auto simp: backed_def hold_key_def)
  then show ?thesis by (rule ledger_stage[OF inv_tables(2)[OF assms(1)] assms(4,5)])
qed

lemma calls_keep:
  assumes "attempt_at s n = a" and "\<And>e. a \<noteq> Done (Refused e)" and "\<And>p. sent a = Some p \<Longrightarrow> sent a' = Some p"
  shows "calls_move s n a' (xs_calls s)"
  using attempt_at_in[OF assms(1,2)] assms(3) by (simp add: calls_move_def)

lemma do_acquire_inv:
  assumes "exec_inv s"
  shows "exec_inv (do_acquire s n)"
proof (cases "attempt_at s n")
  case (Prepared j)
  obtain g r where r: "Acquire (xs_gate s) (job_class j) (job_tenant j) = (g, r)" by fastforce
  let ?c = "length (ad_callers (xs_gate s))"
  let ?a = "case r of Admitted \<Rightarrow> Permitted j ?c | Enqueued \<Rightarrow> Queued j ?c | ErrOverloaded \<Rightarrow> Done (Refused ErrAdmission)"
  have "exec_inv (set_attempt (s\<lparr>xs_gate := g\<rparr>) n ?a)"
  proof (rule step_inv[OF assms Prepared])
    show "gate_moves (xs_gate s) (Prepared j) ?a (xs_gate (s\<lparr>xs_gate := g\<rparr>))"
      using gate_acquire[OF inv_tables(1)[OF assms] r, of "Prepared j" ?a] by (simp split: acquire_result.split)
    show "ledger_moves (xs_ledger s) (Prepared j) ?a (xs_ledger (s\<lparr>xs_gate := g\<rparr>))"
      using ledger_keep[OF assms Prepared, of ?a] by (simp split: acquire_result.split)
    show "calls_move s n ?a (xs_calls (s\<lparr>xs_gate := g\<rparr>))"
      using calls_keep[OF Prepared, of ?a] by simp
    show "plans_move (Prepared j) ?a" by (cases j) (simp_all add: plans_move_def split: acquire_result.split)
  qed simp_all
  then show ?thesis by (simp add: do_acquire_def Prepared r Let_def)
qed (simp_all add: do_acquire_def assms)

lemma do_wake_inv:
  assumes "exec_inv s"
  shows "exec_inv (do_wake s n)"
proof (cases "\<exists>j c cls t. attempt_at s n = Queued j c \<and> caller_at (xs_gate s) c = Waiting cls t True")
  case True
  then obtain j c cls t where at: "attempt_at s n = Queued j c" "caller_at (xs_gate s) c = Waiting cls t True" by blast
  have "exec_inv (set_attempt (s\<lparr>xs_gate := AcquireWake (xs_gate s) c\<rparr>) n (Permitted j c))"
  proof (rule step_inv[OF assms at(1)])
    show "gate_moves (xs_gate s) (Queued j c) (Permitted j c) (xs_gate (s\<lparr>xs_gate := AcquireWake (xs_gate s) c\<rparr>))"
      using gate_wake[OF inv_tables(1)[OF assms] at(2)] by simp
    show "ledger_moves (xs_ledger s) (Queued j c) (Permitted j c) (xs_ledger (s\<lparr>xs_gate := AcquireWake (xs_gate s) c\<rparr>))"
      using ledger_keep[OF assms at(1)] by simp
    show "calls_move s n (Permitted j c) (xs_calls (s\<lparr>xs_gate := AcquireWake (xs_gate s) c\<rparr>))"
      using calls_keep[OF at(1)] by simp
    show "plans_move (Queued j c) (Permitted j c)" by (cases j) (simp_all add: plans_move_def)
  qed simp_all
  then show ?thesis by (simp add: do_wake_def at)
next
  case False
  then have "do_wake s n = s" by (auto simp: do_wake_def split: attempt.splits caller.splits bool.splits)
  then show ?thesis using assms by simp
qed

lemma do_cancel_inv:
  assumes "exec_inv s"
  shows "exec_inv (do_cancel s n)"
proof (cases "attempt_at s n")
  case (Queued j c)
  let ?s1 = "s\<lparr>xs_gate := AcquireCancel (xs_gate s) c\<rparr>" and ?a = "Done (Refused ErrAdmission)"
  have at: "n < length (xs_attempts s) \<and> xs_attempts s ! n = Queued j c" by (rule attempt_at_in[OF Queued]) simp
  have "exec_inv (set_attempt ?s1 n ?a)"
  proof (rule step_inv[OF assms Queued])
    show "gate_moves (xs_gate s) (Queued j c) ?a (xs_gate ?s1)"
      using gate_cancel[OF inv_tables(1)[OF assms], of "Queued j c" c ?a] inv_permit[OF assms, of n c] at by simp
    show "ledger_moves (xs_ledger s) (Queued j c) ?a (xs_ledger ?s1)" using ledger_keep[OF assms Queued] by simp
    show "calls_move s n ?a (xs_calls ?s1)" using calls_keep[OF Queued] by simp
  qed (simp_all add: plans_move_def)
  then show ?thesis by (simp add: do_cancel_def Queued)
qed (simp_all add: do_cancel_def assms)

text \<open>Two shapes cover most steps: keep the permit, or give it back.\<close>

lemma keep_step_inv:
  assumes "exec_inv s" and "attempt_at s n = a" and "\<And>e. a \<noteq> Done (Refused e)"
    and "xs_attempts s1 = xs_attempts s" and "xs_gate s1 = xs_gate s" and "xs_calls s1 = xs_calls s"
    and "permit a' = permit a" and "is_queued a' = is_queued a"
    and "ledger_moves (xs_ledger s) a a' (xs_ledger s1)"
    and "\<And>p. sent a = Some p \<Longrightarrow> sent a' = Some p" and "plans_move a a'"
  shows "exec_inv (set_attempt s1 n a')"
  by (rule step_inv[OF assms(1-4)])
     (use assms gate_keep[OF assms(1-3)] calls_keep[OF assms(2,3)] in \<open>simp_all\<close>)

lemma drop_step_inv:
  assumes "exec_inv s" and "attempt_at s n = a" and "\<And>e. a \<noteq> Done (Refused e)"
    and "xs_attempts s1 = xs_attempts s" and "xs_gate s1 = xs_gate s" and "xs_calls s1 = xs_calls s"
    and "permit a = Some c" and "\<not> is_queued a" and "permit a' = None"
    and "ledger_moves (xs_ledger s) a a' (xs_ledger s1)"
    and "\<And>p. sent a = Some p \<Longrightarrow> sent a' = Some p" and "plans_move a a'"
  shows "exec_inv (set_attempt (release_permit s1 c) n a')"
  by (rule step_inv[OF assms(1-3)])
     (use assms gate_drop[OF assms(1-3)] calls_keep[OF assms(2,3)] in \<open>simp_all\<close>)

lemma reserve_attempt_inv:
  assumes inv: "exec_inv s" and at: "attempt_at s n = a" and a: "a = Permitted (Priced pl) c \<or> a = Pricing pl c"
    and id: "plain_id newid"
  shows "exec_inv (reserve_attempt cfg s n pl c m newid now dbnow ok)"
proof -
  have ne: "a \<noteq> Done (Refused e)" for e using a by auto
  note n = attempt_at_in[OF at ne]
  have pl: "planned pl" using inv_plan(2)[OF inv, of n pl] n a by auto
  have p: "permit a = Some c" "\<not> is_queued a" "hold_of a = None" "sent a = None" "plan_of a = Some pl"
    using a by auto
  show ?thesis
  proof (cases "commit ok (Reserve (xc_fk cfg) (xs_ledger s) (pn_principal pl) (base_request pl m) newid now dbnow)")
    case (Inr x)
    obtain db res where x: "x = (db, res)" by fastforce
    then have r: "Reserve (xc_fk cfg) (xs_ledger s) (pn_principal pl) (base_request pl m) newid now dbnow = Inr (db, res)"
      using Inr by (simp add: commit_Inr)
    have "exec_inv (set_attempt (s\<lparr>xs_ledger := db\<rparr>) n (Reserved pl c (rs_id res)))"
      by (rule keep_step_inv[OF inv at ne])
         (use p ledger_reserve[OF inv_tables(2)[OF inv] id pl r] in \<open>simp_all add: plans_move_def\<close>)
    then show ?thesis by (simp add: reserve_attempt_def Inr x)
  next
    case (Inl e)
    have "exec_inv (set_attempt s n (Pricing pl c))"
      by (rule keep_step_inv[OF inv at ne]) (use p ledger_keep[OF inv at ne] in \<open>simp_all add: plans_move_def\<close>)
    moreover have "exec_inv (set_attempt (release_permit s c) n (Done (Refused e)))"
      by (rule drop_step_inv[OF inv at ne]) (use p ledger_keep[OF inv at ne] in \<open>simp_all add: plans_move_def\<close>)
    ultimately show ?thesis by (simp add: reserve_attempt_def Inl)
  qed
qed

lemma do_reserve_inv: "exec_inv s \<Longrightarrow> exec_inv (do_reserve cfg s n newid now dbnow ok)"
  by (auto simp: do_reserve_def reserve_attempt_inv split: attempt.split job.split)

lemma abandon_inv:
  assumes inv: "exec_inv s" and at: "attempt_at s n = a"
    and a: "permit a = Some c" "\<not> is_queued a" "sent a = None" "\<And>e. a \<noteq> Done (Refused e)"
    and h: "hold_of a = (case (j, res) of (Priced pl, Some i) \<Rightarrow> Some (pl, i, HoldOpen) | _ \<Rightarrow> None)"
  shows "exec_inv (abandon s n j c res)"
proof -
  let ?a = "case (j, res) of (Priced pl, Some i) \<Rightarrow> Releasing pl i ErrTransport | _ \<Rightarrow> Done (Refused ErrTransport)"
  have "exec_inv (set_attempt (release_permit s c) n ?a)"
  proof (rule drop_step_inv[OF inv at a(4) _ _ _ a(1,2)])
    show "ledger_moves (xs_ledger s) a ?a (xs_ledger s)"
      by (rule ledger_keep[OF inv at a(4)]) (simp add: h split: job.split option.split)
    show "plans_move a ?a" by (simp add: plans_move_def split: job.split option.split)
  qed (simp_all add: a(3) split: job.split option.split)
  then show ?thesis by (simp add: abandon_def)
qed

lemma lookup_transport_inv:
  assumes inv: "exec_inv s" and at: "attempt_at s n = a"
    and a: "(\<exists>pl i. j = Priced pl \<and> res = Some i \<and> a = Reserved pl c i) \<or>
      (\<exists>mp. j = Managed mp \<and> res = None \<and> a = Permitted (Managed mp) c)"
  shows "exec_inv (lookup_transport cfg s n j c res config)"
proof -
  have ne: "a \<noteq> Done (Refused e)" for e using a by auto
  have p: "permit a = Some c" "\<not> is_queued a" "sent a = None"
    "hold_of a = (case (j, res) of (Priced pl, Some i) \<Rightarrow> Some (pl, i, HoldOpen) | _ \<Rightarrow> None)"
    using a by auto
  have move: "exec_inv (set_attempt s n x)" if x: "x = Ready j c res \<or> x = Building j c res sig" for x sig
    by (rule keep_step_inv[OF inv at ne])
       (use a x ledger_keep[OF inv at ne, of x] in \<open>auto simp: plans_move_def\<close>)
  show ?thesis
    using abandon_inv[OF inv at p(1-3) ne p(4)] move by (auto simp: lookup_transport_def Let_def split: option.split)
qed

lemma do_lookup_inv: "exec_inv s \<Longrightarrow> exec_inv (do_lookup cfg s n config)"
  by (auto simp: do_lookup_def intro!: lookup_transport_inv split: attempt.split job.split)

text \<open>Changes of the endpoint table and the transport cache are invisible to the invariant.\<close>

definition same_core :: "exec_state \<Rightarrow> exec_state \<Rightarrow> bool" where
  "same_core s s1 \<longleftrightarrow>
     xs_attempts s1 = xs_attempts s \<and> xs_gate s1 = xs_gate s \<and> xs_ledger s1 = xs_ledger s \<and> xs_calls s1 = xs_calls s"

lemma same_core_inv: "same_core s s1 \<Longrightarrow> exec_inv s \<Longrightarrow> exec_inv s1"
  by (simp add: same_core_def exec_inv_def gate_ok_def ledger_ok_def calls_ok_def plans_ok_def owns_def)

lemma keep_endpoints_core: "same_core s (keep_endpoints s r)"
  by (simp add: keep_endpoints_def same_core_def split: option.split)

lemma stamp_core: "same_core s (stampVerification cfg s e now ok)"
  using keep_endpoints_core by (simp add: stampVerification_def same_core_def)

lemma finish_transport_core: "finish_transport cfg s e sig b = Some s1 \<Longrightarrow> same_core s s1"
  using stamp_core[of s cfg e "br_now b" "br_commit b"]
  by (auto simp: finish_transport_def same_core_def Let_def split: if_split_asm)

lemma do_build_inv:
  assumes inv: "exec_inv s"
  shows "exec_inv (do_build cfg s n b)"
proof (cases "attempt_at s n")
  case (Building j c res sig)
  have n: "n < length (xs_attempts s)" "xs_attempts s ! n = Building j c res sig"
    using attempt_at_in[OF Building] by simp_all
  have sh: "shaped (Building j c res sig)" using inv_plan(1)[OF inv n(1)] n(2) by simp
  have h: "hold_of (Building j c res sig) =
      (case (j, res) of (Priced pl, Some i) \<Rightarrow> Some (pl, i, HoldOpen) | _ \<Rightarrow> None)"
    by (cases j; cases res) simp_all
  show ?thesis
  proof (cases "finish_transport cfg s (job_endpoint j) sig b")
    case None
    have "exec_inv (abandon s n j c res)"
      by (rule abandon_inv[OF inv Building _ _ _ _ h]) simp_all
    then show ?thesis by (simp add: do_build_def Building None)
  next
    case (Some s1)
    note core = finish_transport_core[OF Some, unfolded same_core_def]
    have same: "hold_of (Ready j c res) = hold_of (Building j c res sig)" "shaped (Ready j c res)"
      "plan_of (Ready j c res) = plan_of (Building j c res sig)"
      using sh by (cases j; cases res; simp)+
    have "exec_inv (set_attempt s1 n (Ready j c res))"
    proof (rule keep_step_inv[OF inv Building])
      show "ledger_moves (xs_ledger s) (Building j c res sig) (Ready j c res) (xs_ledger s1)"
        using ledger_keep[OF inv Building, of "Ready j c res"] core same(1) by simp
      show "plans_move (Building j c res sig) (Ready j c res)" using same by (simp add: plans_move_def)
    qed (use core in simp_all)
    then show ?thesis by (simp add: do_build_def Building Some)
  qed
qed (simp_all add: do_build_def inv)

lemma do_release_inv:
  assumes inv: "exec_inv s"
  shows "exec_inv (do_release s n dbnow ok)"
proof (cases "attempt_at s n")
  case (Releasing pl i e)
  have b: "backed (xs_ledger s) (pl, i, HoldOpen)"
    using attempt_at_in[OF Releasing] inv_hold[OF inv, of n] by simp
  let ?a = "Done (Unsent pl i e)"
  let ?r = "commit ok (ReleaseUndispatched (xs_ledger s) (pn_principal pl) i dbnow)"
  have "exec_inv (set_attempt (case ?r of Inr db \<Rightarrow> s\<lparr>xs_ledger := db\<rparr> | Inl _ \<Rightarrow> s) n ?a)"
  proof (rule keep_step_inv[OF inv Releasing])
    show "ledger_moves (xs_ledger s) (Releasing pl i e) ?a (xs_ledger (case ?r of Inr db \<Rightarrow> s\<lparr>xs_ledger := db\<rparr> | Inl _ \<Rightarrow> s))"
    proof (cases ?r)
      case (Inl err)
      then show ?thesis using ledger_relabel[OF inv Releasing, of pl i HoldOpen ?a HoldUnsent] by simp
    next
      case (Inr db)
      then have "ReleaseUndispatched (xs_ledger s) (pn_principal pl) i dbnow = Inr db" by (simp add: commit_Inr)
      then show ?thesis using ledger_release[OF inv_tables(2)[OF inv] b] Inr by simp
    qed
  qed (simp_all add: plans_move_def split: sum.split)
  then show ?thesis by (simp add: do_release_def Releasing)
qed (simp_all add: do_release_def inv)

lemma do_mark_inv:
  assumes inv: "exec_inv s"
  shows "exec_inv (do_mark s n dbnow ok)"
proof (cases "\<exists>pl c i. attempt_at s n = Ready (Priced pl) c (Some i)")
  case True
  then obtain pl c i where at: "attempt_at s n = Ready (Priced pl) c (Some i)" by blast
  have b: "backed (xs_ledger s) (pl, i, HoldOpen)"
    using attempt_at_in[OF at] inv_hold[OF inv, of n] by simp
  show ?thesis
  proof (cases "commit ok (MarkDispatched (xs_ledger s) (pn_principal pl) i dbnow)")
    case (Inl e)
    have "exec_inv (set_attempt (release_permit s c) n (Done (Unsent pl i e)))"
      by (rule drop_step_inv[OF inv at])
         (use ledger_relabel[OF inv at, of pl i HoldOpen "Done (Unsent pl i e)" HoldUnsent] in \<open>simp_all add: plans_move_def\<close>)
    then show ?thesis by (simp add: do_mark_def at Inl)
  next
    case (Inr db)
    then have r: "MarkDispatched (xs_ledger s) (pn_principal pl) i dbnow = Inr db" by (simp add: commit_Inr)
    have "exec_inv (set_attempt (s\<lparr>xs_ledger := db\<rparr>) n (Dispatched pl c i))"
      by (rule keep_step_inv[OF inv at])
         (use ledger_mark[OF inv_tables(2)[OF inv] b r] in \<open>simp_all add: plans_move_def\<close>)
    then show ?thesis by (simp add: do_mark_def at Inr)
  qed
next
  case False
  then have "do_mark s n dbnow ok = s" by (auto simp: do_mark_def split: attempt.splits job.splits option.splits)
  then show ?thesis using inv by simp
qed

lemma do_call_inv:
  assumes inv: "exec_inv s"
  shows "exec_inv (do_call s n supports)"
proof (cases "attempt_at s n")
  case (Dispatched pl c i)
  note n = attempt_at_in[OF Dispatched, simplified]
  show ?thesis
  proof (cases "if supports then dispatch_op pl else None")
    case None
    let ?a = "Settling pl None i None (Some ErrUnsupportedCapability) None"
    have "exec_inv (set_attempt (release_permit s c) n ?a)"
      by (rule drop_step_inv[OF inv Dispatched])
         (use ledger_keep[OF inv Dispatched, of ?a] in \<open>simp_all add: plans_move_def\<close>)
    then show ?thesis by (simp add: do_call_def Dispatched None)
  next
    case (Some op)
    let ?u = "\<lparr>uc_attempt = n, uc_plan = pl, uc_reservation = i, uc_op = op\<rparr>"
    let ?s1 = "s\<lparr>xs_calls := xs_calls s @ [?u]\<rparr>"
    have pl: "planned pl" using inv_plan(2)[OF inv, of n pl] n by simp
    have "exec_inv (set_attempt ?s1 n (Calling pl c i))"
    proof (rule step_inv[OF inv Dispatched])
      show "gate_moves (xs_gate s) (Dispatched pl c i) (Calling pl c i) (xs_gate ?s1)"
        using gate_keep[OF inv Dispatched, of "Calling pl c i"] by simp
      show "ledger_moves (xs_ledger s) (Dispatched pl c i) (Calling pl c i) (xs_ledger ?s1)"
        using ledger_keep[OF inv Dispatched, of "Calling pl c i"] by simp
      show "calls_move s n (Calling pl c i) (xs_calls ?s1)"
        using n pl Some by (simp add: calls_move_def split: if_split_asm)
    qed (simp_all add: plans_move_def)
    then show ?thesis by (simp add: do_call_def Dispatched Some)
  qed
next
  case (Ready j c res)
  show ?thesis
  proof (cases j)
    case (Managed mp)
    let ?s1 = "s\<lparr>xs_manages := xs_manages s @ [\<lparr>mc_attempt = n, mc_plan = mp, mc_path = manage_path (mp_request mp)\<rparr>]\<rparr>"
    have "exec_inv (set_attempt ?s1 n (ManageCalling mp c))"
      by (rule keep_step_inv[OF inv Ready])
         (use ledger_keep[OF inv Ready, of "ManageCalling mp c"] in \<open>simp_all add: plans_move_def\<close>)
    then show ?thesis by (simp add: do_call_def Ready Managed)
  qed (simp add: do_call_def Ready inv)
qed (simp_all add: do_call_def inv)

lemma do_reply_inv:
  assumes inv: "exec_inv s"
  shows "exec_inv (do_reply cfg s n r)"
proof (cases "attempt_at s n")
  case (Calling pl c i)
  have drop: "exec_inv (set_attempt (release_permit s c) n x)"
    if "x = Answered pl i raw \<or> x = Settling pl None i u ce se" for x raw u ce se
    by (rule drop_step_inv[OF inv Calling])
       (use that ledger_keep[OF inv Calling, of x] in \<open>auto simp: plans_move_def\<close>)
  have keep: "exec_inv (set_attempt s n (Streaming pl c i newAccountingStream))"
    by (rule keep_step_inv[OF inv Calling])
       (use ledger_keep[OF inv Calling, of "Streaming pl c i newAccountingStream"] in \<open>simp_all add: plans_move_def\<close>)
  show ?thesis using drop keep by (simp add: do_reply_def Calling split: reply.split)
next
  case (ManageCalling mp c)
  have drop: "exec_inv (set_attempt (release_permit s c) n (Done (ManageDone e)))" for e
    by (rule drop_step_inv[OF inv ManageCalling])
       (use ledger_keep[OF inv ManageCalling, of "Done (ManageDone e)"] in \<open>simp_all add: plans_move_def\<close>)
  have keep: "exec_inv (set_attempt s n (ManageStreaming mp c))"
    by (rule keep_step_inv[OF inv ManageCalling])
       (use ledger_keep[OF inv ManageCalling, of "ManageStreaming mp c"] in \<open>simp_all add: plans_move_def\<close>)
  show ?thesis using drop keep by (simp add: do_reply_def ManageCalling split: reply.split)
qed (simp_all add: do_reply_def inv)

lemma do_stamp_inv:
  assumes inv: "exec_inv s"
  shows "exec_inv (do_stamp cfg s n now ok)"
proof (cases "attempt_at s n")
  case (Answered pl i raw)
  let ?s1 = "if ep_protocol (pn_endpoint pl) = ''confidential_sdk''
    then stampVerification cfg s (pn_endpoint pl) now ok else s"
  let ?a = "Settling pl None i (usageFromJSON (xc_conv cfg) raw) None None"
  have core: "same_core s ?s1" using stamp_core by (simp add: same_core_def)
  have "exec_inv (set_attempt ?s1 n ?a)"
    by (rule keep_step_inv[OF inv Answered])
       (use core ledger_keep[OF inv Answered, of ?a] in \<open>simp_all add: plans_move_def same_core_def\<close>)
  then show ?thesis by (simp add: do_stamp_def Answered)
qed (simp_all add: do_stamp_def inv)

lemma after_stream_inv:
  assumes inv: "exec_inv s" and at: "attempt_at s n = Streaming pl c i st"
  shows "exec_inv (after_stream cfg s n pl c i r)"
proof -
  have keep: "exec_inv (set_attempt s n x)"
    if "x = Streaming pl c i st' \<or> x = Settling pl (Some c) i u None None" for x st' u
    by (rule keep_step_inv[OF inv at]) (use that ledger_keep[OF inv at, of x] in \<open>auto simp: plans_move_def\<close>)
  show ?thesis using keep by (auto simp: after_stream_def split: prod.split option.split)
qed

lemma do_read_inv: "exec_inv s \<Longrightarrow> exec_inv (do_read cfg s n chunk eof)"
  by (auto simp: do_read_def intro: after_stream_inv split: attempt.split)

lemma do_close_inv:
  assumes inv: "exec_inv s"
  shows "exec_inv (do_close cfg s n)"
proof (cases "attempt_at s n")
  case (Streaming pl c i st)
  then show ?thesis using after_stream_inv[OF inv Streaming] by (simp add: do_close_def)
next
  case (ManageStreaming mp c)
  have "exec_inv (set_attempt (release_permit s c) n (Done (ManageDone None)))"
    by (rule drop_step_inv[OF inv ManageStreaming])
       (use ledger_keep[OF inv ManageStreaming, of "Done (ManageDone None)"] in \<open>simp_all add: plans_move_def\<close>)
  then show ?thesis by (simp add: do_close_def ManageStreaming)
qed (simp_all add: do_close_def inv)

lemma settled_attempt_props:
  "permit (settled_attempt pl c i rec ce se) = c" "\<not> is_queued (settled_attempt pl c i rec ce se)"
  "hold_of (settled_attempt pl c i rec ce se) =
     Some (pl, i, if ce = None then HoldDone rec else HoldFailed)"
  "sent (settled_attempt pl c i rec ce se) = Some (pl, i)" "shaped (settled_attempt pl c i rec ce se)"
  "plan_of (settled_attempt pl c i rec ce se) = None"
  by (simp_all add: settled_attempt_def Let_def split: option.split)

lemma do_settle_inv:
  assumes inv: "exec_inv s"
  shows "exec_inv (do_settle s n newid now dbnow ok)"
proof (cases "attempt_at s n")
  case (Settling pl c i u ce se)
  have b: "backed (xs_ledger s) (pl, i, HoldSent)"
    using attempt_at_in[OF Settling] inv_hold[OF inv, of n] by simp
  have fin: "exec_inv (set_attempt s1 n (settled_attempt pl c i rec ce se'))"
    if "xs_attempts s1 = xs_attempts s" "xs_gate s1 = xs_gate s" "xs_calls s1 = xs_calls s"
      "ledger_moves (xs_ledger s) (Settling pl c i u ce se) (settled_attempt pl c i rec ce se') (xs_ledger s1)"
    for s1 rec se'
    by (rule keep_step_inv[OF inv Settling]) (use that settled_attempt_props in \<open>simp_all add: plans_move_def\<close>)
  show ?thesis
  proof (cases u)
    case (Some v)
    have "exec_inv (set_attempt s n (Settling pl c i None ce (Some e)))" for e
      by (rule keep_step_inv[OF inv Settling])
         (use ledger_keep[OF inv Settling, of "Settling pl c i None ce (Some e)"] in \<open>simp_all add: plans_move_def\<close>)
    moreover have "exec_inv (set_attempt (s\<lparr>xs_ledger := db\<rparr>) n (settled_attempt pl c i (Some rec) ce None))"
      if r: "Settle (xs_ledger s) (pn_principal pl) i v newid now dbnow = Inr (db, rec)" for db rec
      by (rule fin) (simp_all add: ledger_settle[OF inv_tables(2)[OF inv] b r] settled_attempt_props)
    ultimately show ?thesis
      by (simp add: do_settle_def Settling Some split: sum.split prod.split) (auto simp: commit_Inr)
  next
    case None
    have "exec_inv (set_attempt (s\<lparr>xs_ledger := db\<rparr>) n (settled_attempt pl c i None ce se))"
      if r: "MarkUnknown (xs_ledger s) (pn_principal pl) i dbnow = Inr db" for db
      by (rule fin) (simp_all add: ledger_unknown[OF inv_tables(2)[OF inv] b r] settled_attempt_props)
    moreover have "exec_inv (set_attempt s n (settled_attempt pl c i None ce x))" for x
    proof (rule fin)
      show "ledger_moves (xs_ledger s) (Settling pl c i u ce se) (settled_attempt pl c i None ce x) (xs_ledger s)"
        by (rule ledger_relabel[OF inv Settling, of pl i HoldSent _ "if ce = None then HoldDone None else HoldFailed"])
           (simp_all add: settled_attempt_props)
    qed simp_all
    ultimately show ?thesis
      by (simp add: do_settle_def Settling None split: sum.split) (auto simp: commit_Inr)
  qed
qed (simp_all add: do_settle_def inv)

lemma do_finish_inv:
  assumes inv: "exec_inv s"
  shows "exec_inv (do_finish s n)"
proof (cases "attempt_at s n")
  case (Closing c out)
  have "exec_inv (set_attempt (release_permit s c) n (Done out))"
    by (rule drop_step_inv[OF inv Closing])
       (use ledger_keep[OF inv Closing, of "Done out"] in \<open>cases out; simp add: plans_move_def\<close>)+
  then show ?thesis by (simp add: do_finish_def Closing)
qed (simp_all add: do_finish_def inv)

section \<open>The system\<close>

lemma new_attempt_inv:
  assumes inv: "exec_inv s" and j: "\<And>j pl. r = Inr j \<Longrightarrow> plan_of (Prepared j) = Some pl \<Longrightarrow> planned pl"
  shows "exec_inv (new_attempt s r)"
proof -
  define a where "a = (case r of Inl e \<Rightarrow> Done (Refused e) | Inr j \<Rightarrow> Prepared j)"
  have s': "new_attempt s r = s\<lparr>xs_attempts := xs_attempts s @ [a]\<rparr>"
    by (simp add: new_attempt_def add_attempt_def a_def)
  have a: "permit a = None" "hold_of a = None" "shaped a" "\<And>pl. plan_of a = Some pl \<Longrightarrow> planned pl"
    using j by (auto simp: a_def split: sum.splits)
  have own: "owns (new_attempt s r) n c \<longleftrightarrow> owns s n c" for n c
    by (auto simp: owns_def s' nth_append a(1) less_Suc_eq split: if_split_asm)
  have "gate_ok (new_attempt s r)"
  proof -
    have "xs_attempts (new_attempt s r) ! n = xs_attempts s ! n" if "owns s n c" for n c
      using that by (simp add: owns_def s' nth_append)
    moreover have "xs_gate (new_attempt s r) = xs_gate s" by (simp add: s')
    ultimately show ?thesis using inv unfolding exec_inv_def gate_ok_def own by metis
  qed
  moreover have "ledger_ok (new_attempt s r)"
  proof -
    have old: "n < length (xs_attempts s) \<and> hold_of (xs_attempts s ! n) = Some h"
      if "n < length (xs_attempts (new_attempt s r))" "hold_of (xs_attempts (new_attempt s r) ! n) = Some h" for n h
      using that a(2) by (auto simp: s' nth_append less_Suc_eq split: if_split_asm)
    have "xs_ledger (new_attempt s r) = xs_ledger s" by (simp add: s')
    then show ?thesis using inv old unfolding exec_inv_def ledger_ok_def by metis
  qed
  moreover have "calls_ok (new_attempt s r)"
    using inv by (auto simp: exec_inv_def calls_ok_def call_ok_def s' nth_append)
  moreover have "plans_ok (new_attempt s r)"
    using inv a(3,4) by (auto simp: exec_inv_def plans_ok_def s')
  ultimately show ?thesis by (simp add: exec_inv_def)
qed

lemma ledger_only_inv:
  assumes inv: "exec_inv s" and rows: "bd_reservations db = bd_reservations (xs_ledger s)" "bd_usage db = bd_usage (xs_ledger s)"
  shows "exec_inv (s\<lparr>xs_ledger := db\<rparr>)"
proof -
  have "billing_inv db" using inv_tables(2)[OF inv] rows by (simp add: billing_inv_def)
  moreover have "backed db = backed (xs_ledger s)" by (simp add: fun_eq_iff backed_def rows)
  ultimately have "ledger_ok (s\<lparr>xs_ledger := db\<rparr>)" using inv by (simp add: exec_inv_def ledger_ok_def)
  then show ?thesis using inv by (simp add: exec_inv_def gate_ok_def owns_def calls_ok_def plans_ok_def)
qed

lemma exec_step_inv:
  assumes inv: "exec_inv s"
  shows "exec_inv (exec_step cfg s ev)"
proof (cases ev)
  case (XExecute p req env wall)
  have "planned pl" if "p_billing_subject_kind p \<noteq> BudgetSubjectTenant"
      "prepare env (xs_endpoints s) wall p req = Inr pl" for pl
  proof -
    have "pn_principal pl = p"
      using that(2) by (auto simp: prepare_def bind_r_Inr Let_def split: if_split_asm option.splits)
    then show ?thesis using that unfolding planned_def by blast
  qed
  then have "exec_inv (new_attempt s (map_sum id Priced (prepare env (xs_endpoints s) wall p req)))"
    if "p_billing_subject_kind p \<noteq> BudgetSubjectTenant"
    using that by (intro new_attempt_inv[OF inv]) (cases "prepare env (xs_endpoints s) wall p req"; auto)
  then show ?thesis using inv by (simp add: XExecute)
next
  case (XManage p req)
  have "exec_inv (new_attempt s (map_sum id Managed (prepare_manage (xc_limit cfg) (xs_endpoints s) p req)))"
    by (intro new_attempt_inv[OF inv]) (cases "prepare_manage (xc_limit cfg) (xs_endpoints s) p req"; auto)
  then show ?thesis by (simp add: XManage)
next
  case (XPrice pr actor)
  show ?thesis unfolding XPrice exec_step.simps
    by (rule ledger_only_inv[OF inv]) (auto simp: keep_billing_def PutPrice_def split: if_splits)
next
  case (XBudget b)
  show ?thesis unfolding XBudget exec_step.simps
    by (rule ledger_only_inv[OF inv])
       (auto simp: keep_billing_def CreateBudget_def split: if_splits budget_kind.splits period.splits)
qed (simp_all add: inv do_acquire_inv do_wake_inv do_cancel_inv do_reserve_inv do_lookup_inv do_build_inv
    do_release_inv do_mark_inv do_call_inv do_reply_inv do_stamp_inv do_read_inv do_close_inv do_settle_inv
    do_finish_inv same_core_inv[OF keep_endpoints_core inv])

lemma exec_init_inv: "exec_inv (exec_init acfg)"
  by (simp add: exec_inv_def exec_init_def gate_ok_def ledger_ok_def calls_ok_def plans_ok_def owns_def
      NewAdmission_inv billing_inv_empty) (simp add: caller_at_def NewAdmission_def Let_def)

interpretation ex: transition_system "exec_step cfg" exec_inv for cfg
  by unfold_locales (rule exec_step_inv)

lemma exec_run_ex: "exec_run cfg acfg evs = ex.run cfg (exec_init acfg) evs"
  by (simp add: exec_run_def ex.run_def)

lemma exec_run_inv: "exec_inv (exec_run cfg acfg evs)"
  unfolding exec_run_ex by (rule ex.run_inv[OF exec_init_inv])

end
