(* ===== verification/ExecutorProps.thy ===== *)
theory ExecutorProps
  imports ExecutorSteps
begin

text \<open>
  What the executor promises: nothing is written upstream without a dispatched reservation of its own,
  everything written was authorized, permits come back, a dispatched call is accounted for, and the
  late stamping of an endpoint.
\<close>

section \<open>Reading the invariant\<close>

lemma sent_hold:
  assumes "sent a = Some (pl, i)"
  obtains st where "hold_of a = Some (pl, i, st)" and "st \<noteq> HoldOpen" and "st \<noteq> HoldUnsent"
  using assms by (cases a rule: sent.cases) auto

lemma stage_sent:
  "stage_ok us st r \<Longrightarrow> st \<noteq> HoldOpen \<Longrightarrow> st \<noteq> HoldUnsent \<Longrightarrow>
   rs_dispatched r \<noteq> None \<and> rs_state r \<noteq> ReservationReleased"
  by (induction us st r rule: stage_ok.induct) auto

lemma call_attempt:
  assumes inv: "exec_inv s" and c: "c \<in> set (xs_calls s)"
  obtains st where "uc_attempt c < length (xs_attempts s)"
    and "hold_of (xs_attempts s ! uc_attempt c) = Some (uc_plan c, uc_reservation c, st)"
    and "st \<noteq> HoldOpen" and "st \<noteq> HoldUnsent" and "planned (uc_plan c)"
    and "dispatch_op (uc_plan c) = Some (uc_op c)"
proof -
  have ok: "call_ok (xs_attempts s) c" using inv c by (simp add: exec_inv_def calls_ok_def)
  then obtain st where "hold_of (xs_attempts s ! uc_attempt c) = Some (uc_plan c, uc_reservation c, st)"
    "st \<noteq> HoldOpen" "st \<noteq> HoldUnsent"
    by (auto simp: call_ok_def elim!: sent_hold)
  then show ?thesis using that ok unfolding call_ok_def by blast
qed

definition call_key :: "upstream_call \<Rightarrow> string \<times> string" where
  "call_key c = (p_tenant (pn_principal (uc_plan c)), uc_reservation c)"

lemma call_keys_distinct:
  assumes inv: "exec_inv s"
  shows "distinct (map call_key (xs_calls s))"
proof -
  have "uc_attempt c = uc_attempt d"
    if cd: "c \<in> set (xs_calls s)" "d \<in> set (xs_calls s)" "call_key c = call_key d" for c d
  proof -
    obtain st where c: "uc_attempt c < length (xs_attempts s)"
      "hold_of (xs_attempts s ! uc_attempt c) = Some (uc_plan c, uc_reservation c, st)"
      using call_attempt[OF inv cd(1)] by metis
    obtain st' where d: "uc_attempt d < length (xs_attempts s)"
      "hold_of (xs_attempts s ! uc_attempt d) = Some (uc_plan d, uc_reservation d, st')"
      using call_attempt[OF inv cd(2)] by metis
    have "hold_key (uc_plan c, uc_reservation c, st) = hold_key (uc_plan d, uc_reservation d, st')"
      using cd(3) by (simp add: call_key_def hold_key_def)
    then show ?thesis using inv c d unfolding exec_inv_def ledger_ok_def by blast
  qed
  then have "inj_on call_key (set (xs_calls s))"
    if "inj_on uc_attempt (set (xs_calls s))" using that unfolding inj_on_def by blast
  moreover have "distinct (map uc_attempt (xs_calls s))" using inv by (simp add: exec_inv_def calls_ok_def)
  ultimately show ?thesis by (simp add: distinct_map)
qed

section \<open>A concrete run\<close>

definition demo_cfg :: exec_cfg where
  "demo_cfg =
     \<lparr>xc_fk = \<lambda>_ _ _. True, xc_conv = \<lambda>_. 0, xc_parse = \<lambda>_. RawMalformed, xc_url = \<lambda>_. None, xc_env = \<lambda>_. None,
      xc_secrets = None, xc_hash = id, xc_time = \<lambda>_. [], xc_origin_ok = \<lambda>_. True, xc_limit = 0\<rparr>"

definition demo_gate_cfg :: admission_config where
  "demo_gate_cfg = \<lparr>cfg_execute = demo_limit, cfg_manage = demo_limit, cfg_fanout = demo_limit\<rparr>"

definition demo_sdk :: endpoint where
  "demo_sdk =
     \<lparr>ep_id = ''e'', ep_tenant = ''t'', ep_protocol = ''confidential_sdk'', ep_sdk = [],
      ep_capabilities = [CapabilityChat, ''model:m=up''], ep_origin = ''https://x'', ep_credential = [],
      ep_assurance = [], ep_verified = None, ep_private = False, ep_enabled = True\<rparr>"

definition demo_actor :: principal where
  "demo_actor = zero_principal\<lparr>p_tenant := ''t'', p_actor := ''a'', p_models_all := True, p_endpoints_all := True\<rparr>"

definition demo_chat :: request where
  "demo_chat =
     \<lparr>iq_capability = CapabilityChat, iq_model = ''m'', iq_endpoint = [],
      iq_payload = RawJson (JObj [(''model'', JStr ''other'')]), iq_payload_len = 17, iq_trailing = False,
      iq_stream = False, iq_method = [], iq_path = [], iq_inputs = [], iq_artifacts = [],
      iq_conversations = [], iq_restriction = None,
      iq_estimate = \<lparr>us_input = 10, us_output = 5, us_cached = 0, us_other = []\<rparr>, iq_job = [], iq_attempt = []\<rparr>"

definition demo_policy :: policy_env where
  "demo_policy =
     \<lparr>pe_reads = sql_reads empty_source_db, pe_maxstale = 0, pe_artifacts = None, pe_conversations = None, pe_limit = 0\<rparr>"

definition demo_rate :: "string \<Rightarrow> price" where
  "demo_rate u =
     \<lparr>pr_tenant = ''t'', pr_id = u, pr_subject_type = ''endpoint'', pr_subject_id = ''e'',
      pr_capability = CapabilityChat, pr_unit = u, pr_rate_micros = 2, pr_unit_quantity = 1,
      pr_currency = ''EUR'', pr_effective = 0\<rparr>"

definition demo_sends :: "exec_event list" where
  "demo_sends =
     [XEndpoint demo_sdk, XPrice (demo_rate ''input'') ''adm'', XPrice (demo_rate ''output'') ''adm'',
      XPrice (demo_rate ''cached_input'') ''adm'', XExecute demo_actor demo_chat demo_policy 9, XAcquire 0,
      XReserve 0 ''res_1'' 9 9 True, XLookup 0 (Some None),
      XBuild 0 \<lparr>br_built = True, br_attested = True, br_now = 9, br_commit = True\<rparr>, XMark 0 10 True, XCall 0 True]"

definition demo_answer :: reply where
  "demo_answer = ReplyBody (RawJson (JObj [(''usage'', JObj [(''prompt_tokens'', JNum 8), (''completion_tokens'', JNum 3)])]))"

definition demo_answered :: "exec_event list" where
  "demo_answered = demo_sends @ [XReply 0 demo_answer]"

definition demo_ends :: "exec_event list" where
  "demo_ends =
     demo_sends @ [XReply 0 demo_answer, XEnable ''t'' ''e'' False, XStamp 0 (120 * second) True,
                   XSettle 0 ''use_1'' 11 11 True]"

section \<open>No write without a dispatched reservation\<close>

text \<open>
  C1: nothing is written upstream on credit. At every moment, under every interleaving of calls,
  admissions, price and budget changes, failed transactions and upstream answers, each priced request
  that was written has a reservation of its own, made for exactly this capability, model, endpoint and
  estimate, whose amount is the exact charge of the estimate, whose dispatch is recorded, and which is
  not released; no two writes share a reservation.
\<close>

theorem call_has_dispatched_hold:
  assumes "c \<in> set (xs_calls (exec_run cfg acfg evs))"
  shows "list_ex (\<lambda>r. res_key r = call_key c \<and> rs_dispatched r \<noteq> None \<and> rs_state r \<noteq> ReservationReleased \<and>
        rs_capability r = pn_capability (uc_plan c) \<and> rs_model r = pn_model (uc_plan c) \<and>
        rs_endpoint r = ep_id (pn_endpoint (uc_plan c)) \<and>
        unitMap (iq_estimate (pn_request (uc_plan c))) = Inr (rs_units r) \<and>
        charge (rs_units r) (rs_price r) = Inr (rs_limit r))
      (bd_reservations (xs_ledger (exec_run cfg acfg evs))) \<and>
    distinct (map call_key (xs_calls (exec_run cfg acfg evs)))"
proof -
  let ?s = "exec_run cfg acfg evs"
  have inv: "exec_inv ?s" by (rule exec_run_inv)
  obtain st where st: "uc_attempt c < length (xs_attempts ?s)"
      "hold_of (xs_attempts ?s ! uc_attempt c) = Some (uc_plan c, uc_reservation c, st)"
      "st \<noteq> HoldOpen" "st \<noteq> HoldUnsent"
    using call_attempt[OF inv assms] by metis
  obtain r where r: "r \<in> set (bd_reservations (xs_ledger ?s))"
      "res_key r = (p_tenant (pn_principal (uc_plan c)), uc_reservation c)" "plan_row (uc_plan c) r"
      "stage_ok (bd_usage (xs_ledger ?s)) st r"
    using inv_hold[OF inv st(1,2)] by (rule backedE)
  have "hold_ok r" using inv_tables(2)[OF inv] r(1) by (simp add: billing_inv_def)
  then have "charge (rs_units r) (rs_price r) = Inr (rs_limit r)" by (simp add: hold_ok_def)
  then show ?thesis
    using r stage_sent[OF r(4) st(3,4)] call_keys_distinct[OF inv]
    unfolding list_ex_iff plan_row_def call_key_def by blast
qed

text \<open>The run of the witnesses: one call written, under the first reservation.\<close>

lemma demo_call:
  obtains c where "xs_calls (exec_run demo_cfg demo_gate_cfg demo_sends) = [c]" and "call_key c = (''t'', ''res_1'')"
    and "uc_op c = ChatCompletion" and "iq_model (pn_request (uc_plan c)) = ''m''"
    and "ep_capabilities (pn_endpoint (uc_plan c)) = [CapabilityChat, ''model:m=up'']"
proof -
  let ?cs = "xs_calls (exec_run demo_cfg demo_gate_cfg demo_sends)"
  have "case ?cs of [c] \<Rightarrow> call_key c = (''t'', ''res_1'') \<and> uc_op c = ChatCompletion \<and>
      iq_model (pn_request (uc_plan c)) = ''m'' \<and>
      ep_capabilities (pn_endpoint (uc_plan c)) = [CapabilityChat, ''model:m=up''] | _ \<Rightarrow> False" by code_simp
  then show ?thesis using that by (auto split: list.splits)
qed

theorem call_has_dispatched_hold_witness:
  "list_ex (\<lambda>r. res_key r = (''t'', ''res_1'') \<and> rs_dispatched r \<noteq> None)
     (bd_reservations (xs_ledger (exec_run demo_cfg demo_gate_cfg demo_sends)))"
proof -
  obtain c where c: "xs_calls (exec_run demo_cfg demo_gate_cfg demo_sends) = [c]" "call_key c = (''t'', ''res_1'')"
    by (rule demo_call)
  then have "c \<in> set (xs_calls (exec_run demo_cfg demo_gate_cfg demo_sends))" by simp
  from call_has_dispatched_hold[OF this] c(2) show ?thesis by (auto simp: list_ex_iff)
qed

section \<open>What is written was authorized\<close>

lemma route_Inr:
  assumes "route eps p req capability = Inr e"
  shows "e \<in> set eps \<and> ep_tenant e = p_tenant p \<and> eligible p req capability e \<and>
    (iq_endpoint req \<noteq> [] \<longrightarrow> ep_id e = iq_endpoint req)"
  using assms
  by (auto simp: route_def Let_def sql_GetEndpoint_def sql_ListCapabilities_def
      split: if_split_asm option.splits dest!: find_row_Some)

lemma prepare_Inr:
  assumes "prepare env eps wall p req0 = Inr pl"
  obtains info d where "p_tenant p \<noteq> []" and "p_actor p \<noteq> []" and "pn_principal pl = p"
    and "pn_request pl = bump_cached req0" and "analyzePayload (pe_limit env) req0 = Inr info"
    and "pn_capability pl = effectiveCapability (iq_capability req0) info"
    and "checkEstimate (pn_capability pl) (iq_estimate (bump_cached req0)) = None"
    and "route eps p (bump_cached req0) (pn_capability pl) = Inr (pn_endpoint pl)"
    and "evaluate env wall p (bump_cached req0) (pn_endpoint pl) (pn_capability pl) = Inr d"
    and "pn_model pl = dc_model d"
    and "marshalPayload (pi_root info) (pn_model pl) (bump_cached req0) = Inr (pn_body pl)"
  using assms by (auto simp: prepare_def bind_r_Inr Let_def split: if_split_asm option.splits)

lemma marshal_model:
  assumes "marshalPayload rt upstream req = Inr body" and "upstream \<noteq> []"
  shows "\<exists>ms. body = JObj ms \<and> obj_get ms ''model'' = Some (JStr upstream) \<and>
    obj_get ms ''stream'' = Some (JBool (iq_stream req))"
  using assms by (cases rt) (auto simp: marshalPayload_def Let_def obj_put_get)

lemma bind_model_nonempty: "bind_model cs al = Some m \<Longrightarrow> m \<noteq> [] \<or> al = []"
  by (induction cs al rule: bind_model.induct) (auto split: if_split_asm option.splits)



section \<open>Every ended call is accounted for\<close>

lemma no_call:
  assumes "exec_inv s" and "n < length (xs_attempts s)" and "sent (xs_attempts s ! n) = None"
  shows "filter (\<lambda>c. uc_attempt c = n) (xs_calls s) = []"
  using assms unfolding exec_inv_def calls_ok_def call_ok_def filter_empty_conv by fastforce

text \<open>
  C24: every ended call is accounted for. A refused call wrote nothing; a call that failed before its
  dispatch was recorded wrote nothing and its hold is undispatched, free or still held; a call that
  failed later keeps a dispatched reservation that is never released; a completed call has, with a
  usage record, a settled reservation whose evidence is that record, and without one an unknown or
  held reservation, its full liability.
\<close>

theorem ended_call_accounted:
  assumes "n < length (xs_attempts (exec_run cfg acfg evs))"
    and "xs_attempts (exec_run cfg acfg evs) ! n = Done out"
  shows "let s = exec_run cfg acfg evs;
      row = (\<lambda>pl i P. list_ex (\<lambda>r. res_key r = (p_tenant (pn_principal pl), i) \<and> P r) (bd_reservations (xs_ledger s)))
    in case out of
      Refused e \<Rightarrow> filter (\<lambda>c. uc_attempt c = n) (xs_calls s) = []
    | Unsent pl i e \<Rightarrow> filter (\<lambda>c. uc_attempt c = n) (xs_calls s) = [] \<and>
        row pl i (\<lambda>r. rs_dispatched r = None \<and> rs_state r \<in> {ReservationHeld, ReservationReleased})
    | Failed pl i e \<Rightarrow> row pl i (\<lambda>r. rs_dispatched r \<noteq> None \<and> rs_state r \<noteq> ReservationReleased)
    | Completed pl i (Some rec) e \<Rightarrow>
        row pl i (\<lambda>r. rs_dispatched r \<noteq> None \<and> rs_state r = ReservationSettled \<and>
          list_ex (\<lambda>u. usage_key u = res_key r \<and> u\<lparr>ur_created := ur_created rec\<rparr> = rec) (bd_usage (xs_ledger s)))
    | Completed pl i None e \<Rightarrow>
        row pl i (\<lambda>r. rs_dispatched r \<noteq> None \<and> rs_state r \<in> {ReservationHeld, ReservationUnknown})
    | ManageDone e \<Rightarrow> filter (\<lambda>c. uc_attempt c = n) (xs_calls s) = []"
proof -
  let ?s = "exec_run cfg acfg evs"
  have inv: "exec_inv ?s" by (rule exec_run_inv)
  have row: "list_ex (\<lambda>r. res_key r = (p_tenant (pn_principal pl), i) \<and> stage_ok (bd_usage (xs_ledger ?s)) st r)
      (bd_reservations (xs_ledger ?s))" if "outcome_hold out = Some (pl, i, st)" for pl i st
  proof -
    have "backed (xs_ledger ?s) (pl, i, st)" using inv_hold[OF inv assms(1)] assms(2) that by simp
    then show ?thesis by (rule backedE) (auto simp: list_ex_iff)
  qed
  have none: "filter (\<lambda>c. uc_attempt c = n) (xs_calls ?s) = []" if "sent (Done out) = None"
    using no_call[OF inv assms(1)] that assms(2) by simp
  show ?thesis
  proof (cases out)
    case (Completed pl i rec e)
    then show ?thesis using row[of pl i "HoldDone rec"] by (cases rec) (simp_all add: Let_def)
  next
    case (Unsent pl i e)
    then show ?thesis using row[of pl i HoldUnsent] none by (simp add: Let_def)
  next
    case (Failed pl i e)
    then show ?thesis using row[of pl i HoldFailed] by (simp add: Let_def)
  qed (use none in \<open>simp_all add: Let_def\<close>)
qed

theorem ended_call_accounted_witness:
  "list_ex (\<lambda>r. res_key r = (''t'', ''res_1'') \<and> rs_state r = ReservationSettled)
     (bd_reservations (xs_ledger (exec_run demo_cfg demo_gate_cfg demo_ends)))"
proof -
  let ?s = "exec_run demo_cfg demo_gate_cfg demo_ends"
  have "0 < length (xs_attempts ?s) \<and> (case xs_attempts ?s ! 0 of
      Done (Completed pl i (Some rec) e) \<Rightarrow> p_tenant (pn_principal pl) = ''t'' \<and> i = ''res_1'' | _ \<Rightarrow> False)" by code_simp
  then obtain pl rec e where a: "0 < length (xs_attempts ?s)"
      "xs_attempts ?s ! 0 = Done (Completed pl ''res_1'' (Some rec) e)" "p_tenant (pn_principal pl) = ''t''"
    by (auto split: attempt.splits exec_outcome.splits option.splits)
  show ?thesis using ended_call_accounted[OF a(1,2)] a(3) by (auto simp: Let_def list_ex_iff)
qed

section \<open>Permits come back\<close>

definition ended :: "attempt \<Rightarrow> bool" where
  "ended a = (case a of Done _ \<Rightarrow> True | _ \<Rightarrow> False)"

lemma ended_permit: "ended a \<Longrightarrow> permit a = None"
  by (cases a) (simp_all add: ended_def)

lemma pool_okD:
  assumes "pool_ok cs cls p"
  shows "pl_active p = int (count_rows (occupies cls) cs)" and "pl_queued p = int (length (pl_waiters p))"
    and "set (pl_waiters p) = {n. n < length cs \<and> queued_in cls (cs ! n)}"
  using assms unfolding pool_ok_def by - (elim conjE, assumption)+

text \<open>
  C31: no permit is lost or given back twice. Once every call has ended, however it ended, each pool of
  the admission gate is empty: nothing active, nothing queued, nobody waiting.
\<close>

theorem permits_come_back:
  assumes "list_all ended (xs_attempts (exec_run cfg acfg evs))"
  shows "let p = pool_of (xs_gate (exec_run cfg acfg evs)) cls in
    pl_active p = 0 \<and> pl_queued p = 0 \<and> pl_waiters p = []"
proof -
  let ?s = "exec_run cfg acfg evs" and ?g = "xs_gate (exec_run cfg acfg evs)"
  have inv: "gate_ok ?s" using exec_run_inv by (simp add: exec_inv_def)
  have "\<not> owns ?s n c" for n c
  proof
    assume o: "owns ?s n c"
    then have "xs_attempts ?s ! n \<in> set (xs_attempts ?s)" by (simp add: owns_def)
    then have "permit (xs_attempts ?s ! n) = None" using assms by (simp add: list_all_iff ended_permit)
    then show False using o by (simp add: owns_def)
  qed
  then have fin: "caller_at ?g c = Finished" for c using inv unfolding gate_ok_def by blast
  have all: "x = Finished" if x: "x \<in> set (ad_callers ?g)" for x
  proof -
    obtain i where "i < length (ad_callers ?g)" "x = ad_callers ?g ! i" using x by (auto simp: in_set_conv_nth)
    then show ?thesis using fin[of i] by (simp add: caller_at_def)
  qed
  have ok: "pool_ok (ad_callers ?g) cls (pool_of ?g cls)" using inv by (simp add: gate_ok_def adm_inv_def)
  have "\<not> occupies cls x" if "x \<in> set (ad_callers ?g)" for x using all[OF that] by simp
  then have none: "count_rows (occupies cls) (ad_callers ?g) = 0" by (simp add: count_rows_0_iff)
  have "{n. n < length (ad_callers ?g) \<and> queued_in cls (ad_callers ?g ! n)} = {}"
    using all nth_mem by fastforce
  then have "set (pl_waiters (pool_of ?g cls)) = {}" using pool_okD(3)[OF ok] by simp
  then have waiters: "pl_waiters (pool_of ?g cls) = []" by simp
  show ?thesis unfolding Let_def pool_okD(1,2)[OF ok] none waiters by simp
qed

theorem permits_come_back_witness:
  "pl_active (pool_of (xs_gate (exec_run demo_cfg demo_gate_cfg demo_ends)) AdmissionExecute) = 0"
proof -
  have "list_all ended (xs_attempts (exec_run demo_cfg demo_gate_cfg demo_ends))" by code_simp
  from permits_come_back[OF this, of AdmissionExecute] show ?thesis by (simp add: Let_def)
qed

section \<open>A dispatched call comes to an end\<close>

lemma attempt_at_set [simp]:
  "n < length (xs_attempts s) \<Longrightarrow> attempt_at (set_attempt s n a) n = a"
  by (simp add: attempt_at_def)

definition resolved :: "exec_state \<Rightarrow> plan \<Rightarrow> string \<Rightarrow> bool" where
  "resolved s pl i \<longleftrightarrow>
     list_ex (\<lambda>r. res_key r = (p_tenant (pn_principal pl), i) \<and>
                  rs_state r \<in> {ReservationSettled, ReservationUnknown}) (bd_reservations (xs_ledger s))"

lemma resolvedI:
  "r \<in> set (bd_reservations (xs_ledger s)) \<Longrightarrow> res_key r = (p_tenant (pn_principal pl), i) \<Longrightarrow>
   rs_state r = ReservationSettled \<or> rs_state r = ReservationUnknown \<Longrightarrow> resolved s pl i"
  by (auto simp: resolved_def list_ex_iff)

lemma held_group_row:
  assumes "r \<in> set rs" and "res_key r = (t, i)" and "rs_state r = ReservationHeld"
  shows "transition_row st now r \<in> set (upd_rows (\<lambda>r. in_group t i r \<and> rs_state r = ReservationHeld) (transition_row st now) rs)"
    and "count_rows (\<lambda>r. in_group t i r \<and> rs_state r = ReservationHeld) rs \<noteq> 0"
proof -
  have g: "in_group t i r" using assms(2) by (simp add: in_group_def res_key_def)
  show "transition_row st now r \<in> set (upd_rows (\<lambda>r. in_group t i r \<and> rs_state r = ReservationHeld) (transition_row st now) rs)"
    using upd_rows_in[OF assms(1), of "\<lambda>r. in_group t i r \<and> rs_state r = ReservationHeld" "transition_row st now"] g assms(3)
    by simp
  show "count_rows (\<lambda>r. in_group t i r \<and> rs_state r = ReservationHeld) rs \<noteq> 0"
    using assms(1,3) g by (auto simp: count_rows_0_iff)
qed

lemma transition_key: "res_key (transition_row st now r) = res_key r"
  by (rule fixed_key) simp

lemma settling_row:
  assumes inv: "exec_inv s" and at: "attempt_at s n = Settling pl c i u ce se"
  obtains r where "n < length (xs_attempts s)" and "r \<in> set (bd_reservations (xs_ledger s))"
    and "res_key r = (p_tenant (pn_principal pl), i)" and "rs_state r = ReservationHeld"
proof -
  have n: "n < length (xs_attempts s) \<and> xs_attempts s ! n = Settling pl c i u ce se"
    by (rule attempt_at_in[OF at]) simp
  then have "backed (xs_ledger s) (pl, i, HoldSent)" using inv_hold[OF inv, of n] by simp
  then show ?thesis by (rule backedE) (use n that in auto)
qed

lemma mark_unknown_ends:
  assumes inv: "exec_inv s" and at: "attempt_at s n = Settling pl None i None ce se"
  shows "ended (attempt_at (do_settle s n newid now dbnow True) n) \<and>
    resolved (do_settle s n newid now dbnow True) pl i"
proof -
  let ?t = "p_tenant (pn_principal pl)"
  let ?rows = "upd_rows (\<lambda>r. in_group ?t i r \<and> rs_state r = ReservationHeld) (transition_row ReservationUnknown dbnow)
      (bd_reservations (xs_ledger s))"
  obtain r where n: "n < length (xs_attempts s)" and r: "r \<in> set (bd_reservations (xs_ledger s))"
      "res_key r = (?t, i)" "rs_state r = ReservationHeld"
    using inv at by (rule settling_row)
  note row = held_group_row[OF r]
  have m: "MarkUnknown (xs_ledger s) (pn_principal pl) i dbnow = Inr ((xs_ledger s)\<lparr>bd_reservations := ?rows\<rparr>)"
    using row(2) by (simp add: MarkUnknown_def Transition_eq)
  let ?s1 = "s\<lparr>xs_ledger := (xs_ledger s)\<lparr>bd_reservations := ?rows\<rparr>\<rparr>"
  have s': "do_settle s n newid now dbnow True = set_attempt ?s1 n (settled_attempt pl None i None ce se)"
    by (simp add: do_settle_def at commit_def m)
  have "transition_row ReservationUnknown dbnow r \<in> set ?rows" by (rule row(1))
  then have "resolved (set_attempt ?s1 n (settled_attempt pl None i None ce se)) pl i"
    by (intro resolvedI[of "transition_row ReservationUnknown dbnow r"]) (simp_all add: transition_key r(2))
  then show ?thesis using n unfolding s' by (simp add: ended_def settled_attempt_def Let_def)
qed

lemma settle_ends_or_falls_back:
  assumes inv: "exec_inv s" and at: "attempt_at s n = Settling pl None i (Some u) ce se"
  shows "ended (attempt_at (do_settle s n newid now dbnow True) n) \<and>
      resolved (do_settle s n newid now dbnow True) pl i \<or>
    (\<exists>e. attempt_at (do_settle s n newid now dbnow True) n = Settling pl None i None ce (Some e))"
proof -
  obtain r where n: "n < length (xs_attempts s)" and r: "r \<in> set (bd_reservations (xs_ledger s))"
      "res_key r = (p_tenant (pn_principal pl), i)" "rs_state r = ReservationHeld"
    using inv at by (rule settling_row)
  show ?thesis
  proof (cases "Settle (xs_ledger s) (pn_principal pl) i u newid now dbnow")
    case (Inl e)
    then show ?thesis using n by (simp add: do_settle_def at commit_def)
  next
    case (Inr x)
    obtain db rec where x: "x = (db, rec)" by fastforce
    let ?s1 = "set_attempt (s\<lparr>xs_ledger := db\<rparr>) n (settled_attempt pl None i (Some rec) ce None)"
    have s': "do_settle s n newid now dbnow True = ?s1" by (simp add: do_settle_def at commit_def Inr x)
    have "resolved ?s1 pl i"
      using inv_tables(2)[OF inv] Inr[unfolded x]
    proof (cases rule: Settle_Inr)
      case (again r0)
      then show ?thesis by (intro resolvedI[of r0]) simp_all
    next
      case (first r0 um amt)
      then show ?thesis
        using held_group_row(1)[OF r] r(2)
        by (intro resolvedI[of "transition_row ReservationSettled dbnow r"]) (simp_all add: transition_key)
    qed
    then show ?thesis using n unfolding s' by (simp add: ended_def settled_attempt_def Let_def)
  qed
qed



section \<open>A late stamp rewrites the endpoint\<close>

text \<open>
  Stamping an endpoint undoes what happened to it meanwhile. The stamp after a confidential SDK
  call writes back the whole row as it was routed to, so an endpoint that an administrator disables
  while the call is in flight (or reconfigures in any other way) is restored, enabled, by the call.
\<close>

theorem stamp_undoes_disable:
  assumes "attempt_at s n = Answered pl i raw" and "ep_protocol (pn_endpoint pl) = ''confidential_sdk''"
    and "xc_origin_ok cfg ((pn_endpoint pl)\<lparr>ep_verified := Some now\<rparr>)"
    and "ep_verified (pn_endpoint pl) = None"
    and "list_ex (\<lambda>d. endpoint_key d = endpoint_key (pn_endpoint pl)) (xs_endpoints s)"
  shows "let e = pn_endpoint pl;
      s' = exec_step cfg (exec_step cfg s (XEnable (ep_tenant e) (ep_id e) False)) (XStamp n now True);
      row = filter (\<lambda>d. endpoint_key d = endpoint_key e) (xs_endpoints s')
    in row \<noteq> [] \<and> list_all (\<lambda>d. d = e\<lparr>ep_verified := Some now\<rparr>) row"
proof -
  let ?e = "pn_endpoint pl" and ?P = "\<lambda>d. endpoint_key d = endpoint_key (pn_endpoint pl)"
  let ?f = "\<lambda>d. d\<lparr>ep_enabled := False\<rparr>" and ?new = "(pn_endpoint pl)\<lparr>ep_verified := Some now\<rparr>"
  have key: "endpoint_key ?e = (ep_tenant ?e, ep_id ?e)" "endpoint_key (?f d) = endpoint_key d"
      "endpoint_key ?new = endpoint_key ?e" for d by (simp_all add: endpoint_key_def)
  have some: "count_rows ?P (xs_endpoints s) \<noteq> 0" using assms(5) by (auto simp: count_rows_0_iff list_ex_iff)
  let ?eps = "upd_rows ?P ?f (xs_endpoints s)"
  let ?s1 = "s\<lparr>xs_endpoints := ?eps\<rparr>"
  have s1: "exec_step cfg s (XEnable (ep_tenant ?e) (ep_id ?e) False) = ?s1"
    using some by (simp add: SetEnabled_def keep_endpoints_def key(1)[symmetric])
  have n: "n < length (xs_attempts s)" using attempt_at_in[OF assms(1)] by simp
  have at: "attempt_at ?s1 n = Answered pl i raw"
    using assms(1) by (simp add: attempt_at_def split: if_split_asm)
  have cnt: "count_rows ?P ?eps \<noteq> 0" using some count_rows_upd_rows[of ?P ?P ?f] key(2) by simp
  have s2: "xs_endpoints (exec_step cfg ?s1 (XStamp n now True)) = upd_rows ?P (\<lambda>_. ?new) ?eps"
    using assms(2-4) cnt
    by (simp add: do_stamp_def at stampVerification_def UpdateEndpoint_def keep_endpoints_def key(3))
  have row: "filter ?P (upd_rows ?P (\<lambda>_. ?new) eps) = map (\<lambda>_. ?new) (filter ?P eps)" for eps
    by (induction eps) (simp_all add: key(3))
  have "filter ?P ?eps \<noteq> []" using cnt by (simp add: count_rows_def)
  then show ?thesis unfolding Let_def s1 s2 row by (simp add: list_all_iff)
qed

theorem stamp_undoes_disable_witness:
  "list_ex ep_enabled (xs_endpoints (exec_step demo_cfg (exec_step demo_cfg
     (exec_run demo_cfg demo_gate_cfg demo_answered) (XEnable ''t'' ''e'' False)) (XStamp 0 (120 * second) True)))"
proof -
  let ?s = "exec_run demo_cfg demo_gate_cfg demo_answered"
  have "case attempt_at ?s 0 of
      Answered pl i raw \<Rightarrow> ep_protocol (pn_endpoint pl) = ''confidential_sdk'' \<and> ep_verified (pn_endpoint pl) = None \<and>
        ep_tenant (pn_endpoint pl) = ''t'' \<and> ep_id (pn_endpoint pl) = ''e'' \<and> ep_enabled (pn_endpoint pl) \<and>
        list_ex (\<lambda>d. endpoint_key d = endpoint_key (pn_endpoint pl)) (xs_endpoints ?s)
    | _ \<Rightarrow> False" by code_simp
  then obtain pl i raw where a: "attempt_at ?s 0 = Answered pl i raw"
      "ep_protocol (pn_endpoint pl) = ''confidential_sdk''" "ep_verified (pn_endpoint pl) = None"
      "ep_tenant (pn_endpoint pl) = ''t''" "ep_id (pn_endpoint pl) = ''e''" "ep_enabled (pn_endpoint pl)"
      "list_ex (\<lambda>d. endpoint_key d = endpoint_key (pn_endpoint pl)) (xs_endpoints ?s)"
    by (cases "attempt_at ?s 0") auto
  have origin: "xc_origin_ok demo_cfg ((pn_endpoint pl)\<lparr>ep_verified := Some (120 * second)\<rparr>)"
    by (simp add: demo_cfg_def)
  show ?thesis
    using stamp_undoes_disable[OF a(1,2) origin a(3,7)] a(6)
    unfolding Let_def a(4,5) list_all_iff list_ex_iff filter_empty_conv by fastforce
qed

end
