(* ===== verification/Artifacts.thy ===== *)
theory Artifacts
  imports Prelude "HOL-Library.AList"
begin

text \<open>
  The durable artifact store: internal/artifacts/store.go and reconcile.go over the artifacts table
  (internal/store/postgres/artifact_repo.go). A writer, a deletion and a reconciliation are sequences
  of file-system calls and single statements; every event below is one of them, so a list of events
  is an interleaving of any number of processes. Each event says what the operating system or the
  database did; a process that crashed simply has no further event, and \<open>APower\<close> is a power loss.
\<close>

section \<open>Paths\<close>

text \<open>\<open>validateComponent\<close>; a path is relative to the durable root.\<close>

definition validateComponent :: "string \<Rightarrow> bool" where
  "validateComponent s \<longleftrightarrow>
     \<not> (s = [] \<or> s = ''.'' \<or> contains_str s ''..'' \<or> CHR ''/'' \<in> set s \<or> CHR 0x5C \<in> set s \<or> CHR 0x00 \<in> set s)"

definition storageRel :: "string \<Rightarrow> string \<Rightarrow> string" where
  "storageRel tenant i = tenant @ ''/'' @ i"

definition tempPath :: "string \<Rightarrow> string" where
  "tempPath i = ''.tmp/'' @ i @ ''.part''"

text \<open>\<open>filepath.Join\<close> of the root and a relative path: \<open>None\<close> when the result leaves the root.\<close>

fun clean_parts :: "string list \<Rightarrow> string list \<Rightarrow> string list option" where
  "clean_parts acc [] = Some (rev acc)"
| "clean_parts acc (w # ws) =
     (if w = [] \<or> w = ''.'' then clean_parts acc ws
      else if w = ''..'' then (case acc of [] \<Rightarrow> None | _ # acc' \<Rightarrow> clean_parts acc' ws)
      else clean_parts (w # acc) ws)"

fun join_path :: "string list \<Rightarrow> string" where
  "join_path [] = []"
| "join_path [w] = w"
| "join_path (w # v # ws) = w @ ''/'' @ join_path (v # ws)"

definition durablePath :: "string \<Rightarrow> string \<Rightarrow> string option" where
  "durablePath tenant i =
     (if \<not> validateComponent tenant \<or> \<not> validateComponent i then None
      else map_option join_path (clean_parts [] (split_on (CHR ''/'') (storageRel tenant i))))"

section \<open>Rows\<close>

datatype artifact_state = StateWriting | StateFinal | StateDeleting | StateTombstoned

datatype tombstone_reason = ReasonDeleted | ReasonWriteAborted | ReasonExpiredWriteLease | ReasonMissingFinalBytes

record artifact_row =
  ar_tenant :: string
  ar_id :: string
  ar_kind :: string
  ar_version :: int
  ar_sha :: string
  ar_size :: int
  ar_mime :: string
  ar_state :: artifact_state
  ar_path :: string
  ar_owner :: "string option"
  ar_lease :: "time option"
  ar_fence :: int
  ar_reason :: "tombstone_reason option"

definition ar_key :: "artifact_row \<Rightarrow> string \<times> string" where
  "ar_key r = (ar_tenant r, ar_id r)"

definition GetArtifactRow :: "artifact_row list \<Rightarrow> string \<Rightarrow> string \<Rightarrow> artifact_row option" where
  "GetArtifactRow rows t i = find_row (\<lambda>r. ar_key r = (t, i)) rows"

definition BeginInsert :: "artifact_row list \<Rightarrow> artifact_row \<Rightarrow> artifact_row list option" where
  "BeginInsert rows row = (if list_ex (\<lambda>r. ar_key r = ar_key row) rows then None else Some (rows @ [row]))"

text \<open>The writing row of one lease: the guard of the two conditional updates.\<close>

definition owned_writing :: "string \<Rightarrow> string \<Rightarrow> string \<Rightarrow> int \<Rightarrow> artifact_row \<Rightarrow> bool" where
  "owned_writing t i owner fence r \<longleftrightarrow>
     ar_key r = (t, i) \<and> ar_state r = StateWriting \<and> ar_owner r = Some owner \<and> ar_fence r = fence"

text \<open>\<open>None\<close>: no row changed, the lease is lost.\<close>

definition FinalizeCommit ::
    "artifact_row list \<Rightarrow> string \<Rightarrow> string \<Rightarrow> string \<Rightarrow> int \<Rightarrow> string \<Rightarrow> int \<Rightarrow> artifact_row list option" where
  "FinalizeCommit rows t i owner fence sha bytes =
     (if count_rows (owned_writing t i owner fence) rows = 0 then None
      else Some (upd_rows (owned_writing t i owner fence)
        (\<lambda>r. r\<lparr>ar_state := StateFinal, ar_sha := sha, ar_size := bytes, ar_owner := None, ar_lease := None\<rparr>) rows))"

definition InvalidateWriting ::
    "artifact_row list \<Rightarrow> string \<Rightarrow> string \<Rightarrow> string \<Rightarrow> int \<Rightarrow> tombstone_reason \<Rightarrow> artifact_row list option" where
  "InvalidateWriting rows t i owner fence reason =
     (if count_rows (owned_writing t i owner fence) rows = 0 then None
      else Some (upd_rows (owned_writing t i owner fence)
        (\<lambda>r. r\<lparr>ar_state := StateTombstoned, ar_reason := Some reason, ar_owner := None, ar_lease := None\<rparr>) rows))"

text \<open>\<open>UpdateState\<close> to deleting or tombstoned; the first reason of a tombstoned row stays.\<close>

definition UpdateState ::
    "artifact_row list \<Rightarrow> string \<Rightarrow> string \<Rightarrow> artifact_state \<Rightarrow> tombstone_reason \<Rightarrow> artifact_row list option" where
  "UpdateState rows t i st reason =
     (if st \<notin> {StateDeleting, StateTombstoned} \<or> count_rows (\<lambda>r. ar_key r = (t, i)) rows = 0 then None
      else Some (upd_rows (\<lambda>r. ar_key r = (t, i))
        (\<lambda>r. r\<lparr>ar_state := st,
               ar_reason := (if ar_state r \<noteq> StateTombstoned then Some reason else ar_reason r)\<rparr>) rows))"

definition ListFinalPaths :: "artifact_row list \<Rightarrow> artifact_row list" where
  "ListFinalPaths rows = sort_key ar_key (filter (\<lambda>r. ar_state r \<noteq> StateWriting) rows)"

definition ListExpiredWriting :: "artifact_row list \<Rightarrow> time \<Rightarrow> artifact_row list" where
  "ListExpiredWriting rows now =
     sort_key ar_key (filter (\<lambda>r. ar_state r = StateWriting \<and>
       (case ar_lease r of None \<Rightarrow> False | Some l \<Rightarrow> l < now)) rows)"

section \<open>Files, writers and reconciliations\<close>

text \<open>\<open>fl_synced\<close>: the bytes are on disk; \<open>fl_linked\<close>: so is the directory entry.\<close>

record art_file =
  fl_bytes :: string
  fl_synced :: bool
  fl_linked :: bool

type_synonym art_fs = "(string \<times> art_file) list"

text \<open>
  Where a \<open>Writer\<close> is: streaming; the calls of \<open>Finalize\<close> in order; the removal after a failed commit;
  the calls of \<open>abort\<close>; done.
\<close>

datatype writer_pc =
    WStream | WVerify | WSync | WClose | WMkdir | WRename | WSyncDir | WCommit
  | WUndo | WDropTemp | WDropDurable | WTombstone | WDone

record art_writer =
  wr_tenant :: string
  wr_id :: string
  wr_owner :: string
  wr_fence :: int
  wr_declared :: string
  wr_max :: int
  wr_bytes :: string
  wr_pc :: writer_pc

datatype rc_stage = RFence | RWalk | RRows | REnd

datatype rc_action = RemovePath string | TombstoneMissing string string

record reconciler =
  rc_now :: time
  rc_stage :: rc_stage
  rc_rows :: "artifact_row list"
  rc_todo :: "rc_action list"

record art_store =
  as_rows :: "artifact_row list"
  as_files :: art_fs
  as_writers :: "art_writer list"
  as_deletes :: "string list list"
  as_reconcilers :: "reconciler list"

definition set_writer :: "art_store \<Rightarrow> nat \<Rightarrow> art_writer \<Rightarrow> art_store" where
  "set_writer s n w = s\<lparr>as_writers := (as_writers s)[n := w]\<rparr>"

definition keep_rows :: "art_store \<Rightarrow> artifact_row list option \<Rightarrow> art_store" where
  "keep_rows s r = (case r of None \<Rightarrow> s | Some rows \<Rightarrow> s\<lparr>as_rows := rows\<rparr>)"

definition remove_file :: "art_store \<Rightarrow> string \<Rightarrow> art_store" where
  "remove_file s p = s\<lparr>as_files := AList.delete p (as_files s)\<rparr>"

section \<open>Begin and Write\<close>

definition hex_char :: "char \<Rightarrow> bool" where
  "hex_char c \<longleftrightarrow> is_digit c \<or> in_range (CHR ''a'') (CHR ''f'') c"

text \<open>Generated ids: \<open>art_\<close> and the hexadecimal digits of 16 random bytes, never repeated.\<close>

definition generated :: "string \<Rightarrow> bool" where
  "generated i \<longleftrightarrow> length i = 36 \<and> has_prefix i ''art_'' \<and> list_all hex_char (drop 4 i)"

record begin_meta =
  bm_tenant :: string
  bm_kind :: string
  bm_version :: int
  bm_sha :: string
  bm_size :: int
  bm_mime :: string

definition writing_row :: "begin_meta \<Rightarrow> string \<Rightarrow> string \<Rightarrow> time \<Rightarrow> int \<Rightarrow> artifact_row" where
  "writing_row m i owner lease fence =
     \<lparr>ar_tenant = bm_tenant m, ar_id = i, ar_kind = bm_kind m,
      ar_version = (if bm_version m < 1 then 1 else bm_version m), ar_sha = bm_sha m, ar_size = bm_size m,
      ar_mime = bm_mime m, ar_state = StateWriting, ar_path = storageRel (bm_tenant m) i,
      ar_owner = Some owner, ar_lease = Some lease, ar_fence = fence, ar_reason = None\<rparr>"

text \<open>\<open>Begin\<close>: the row first, then the temporary file; \<open>opened\<close> is whether that could be created.\<close>

definition BeginArtifact ::
    "art_store \<Rightarrow> begin_meta \<Rightarrow> string \<Rightarrow> string \<Rightarrow> int \<Rightarrow> time \<Rightarrow> duration \<Rightarrow> int \<Rightarrow> bool \<Rightarrow> art_store" where
  "BeginArtifact s m i owner fence now ttl maxb opened =
     (if \<not> validateComponent (bm_tenant m) \<or> bm_kind m \<notin> {''original'', ''result'', ''derived''} \<or> maxb \<le> 0 then s
      else case BeginInsert (as_rows s) (writing_row m i owner (now + ttl) fence) of
        None \<Rightarrow> s
      | Some rows \<Rightarrow>
          let s1 = s\<lparr>as_rows := rows\<rparr> in
          if \<not> opened \<or> map_of (as_files s) (tempPath i) \<noteq> None then s1
          else s1\<lparr>as_files := AList.update (tempPath i) \<lparr>fl_bytes = [], fl_synced = False, fl_linked = False\<rparr> (as_files s),
                  as_writers := as_writers s @
                    [\<lparr>wr_tenant = bm_tenant m, wr_id = i, wr_owner = owner, wr_fence = fence,
                      wr_declared = bm_sha m, wr_max = maxb, wr_bytes = [], wr_pc = WStream\<rparr>]\<rparr>)"

text \<open>
  \<open>Write\<close>: the system took the first \<open>k\<close> bytes of the chunk, with an error or not. The file keeps
  its bytes under its path as long as nobody has removed it.
\<close>

definition append_temp :: "art_fs \<Rightarrow> string \<Rightarrow> string \<Rightarrow> art_fs" where
  "append_temp fs i bytes =
     (case map_of fs (tempPath i) of
        None \<Rightarrow> fs
      | Some f \<Rightarrow> AList.update (tempPath i) (f\<lparr>fl_bytes := fl_bytes f @ bytes, fl_synced := False\<rparr>) fs)"

definition WriteChunk :: "art_store \<Rightarrow> nat \<Rightarrow> art_writer \<Rightarrow> string \<Rightarrow> nat \<Rightarrow> bool \<Rightarrow> art_store" where
  "WriteChunk s n w chunk k ok =
     (if wr_max w < int (length (wr_bytes w)) + int (length chunk)
      then set_writer s n (w\<lparr>wr_pc := WDropTemp\<rparr>)
      else set_writer (s\<lparr>as_files := append_temp (as_files s) (wr_id w) (take k chunk)\<rparr>) n
             (w\<lparr>wr_bytes := wr_bytes w @ take k chunk,
                wr_pc := (if ok \<and> length chunk \<le> k then WStream else WDropTemp)\<rparr>))"

section \<open>Finalize and Abort\<close>

definition StartFinalize :: "(string \<Rightarrow> string) \<Rightarrow> art_store \<Rightarrow> nat \<Rightarrow> art_writer \<Rightarrow> art_store" where
  "StartFinalize hash s n w =
     set_writer s n (w\<lparr>wr_pc :=
       (if wr_declared w \<noteq> [] \<and> go_lower (wr_declared w) \<noteq> go_lower (hash (wr_bytes w))
        then WDropTemp else WVerify)\<rparr>)"

text \<open>Ownership is checked before anything is renamed.\<close>

definition still_owner :: "art_store \<Rightarrow> art_writer \<Rightarrow> bool" where
  "still_owner s w =
     (case GetArtifactRow (as_rows s) (wr_tenant w) (wr_id w) of
        None \<Rightarrow> False
      | Some r \<Rightarrow> owned_writing (wr_tenant w) (wr_id w) (wr_owner w) (wr_fence w) r)"

definition goto :: "art_store \<Rightarrow> nat \<Rightarrow> art_writer \<Rightarrow> writer_pc \<Rightarrow> art_store" where
  "goto s n w pc = set_writer s n (w\<lparr>wr_pc := pc\<rparr>)"

definition sync_temp :: "art_fs \<Rightarrow> string \<Rightarrow> art_fs" where
  "sync_temp fs i =
     (case map_of fs (tempPath i) of
        None \<Rightarrow> fs | Some f \<Rightarrow> AList.update (tempPath i) (f\<lparr>fl_synced := True\<rparr>) fs)"

definition rename_temp :: "art_fs \<Rightarrow> string \<Rightarrow> string \<Rightarrow> art_fs option" where
  "rename_temp fs t i =
     (case map_of fs (tempPath i) of
        None \<Rightarrow> None
      | Some f \<Rightarrow>
          Some (AList.update (storageRel t i) (f\<lparr>fl_linked := False\<rparr>) (AList.delete (tempPath i) fs)))"

text \<open>\<open>fsyncDir\<close> of the tenant's directory makes all its entries durable.\<close>

definition sync_dir :: "art_fs \<Rightarrow> string \<Rightarrow> art_fs" where
  "sync_dir fs t =
     map (\<lambda>(p, f). (p, if hd (split_on (CHR ''/'') p) = t then f\<lparr>fl_linked := True\<rparr> else f)) fs"

text \<open>
  One call of \<open>Finalize\<close> or \<open>abort\<close>. \<open>ok\<close>: the call reports success; \<open>applied\<close>: the transaction of the
  commit took effect, which can happen although an error is reported.
\<close>

definition writer_step ::
    "(string \<Rightarrow> string) \<Rightarrow> art_store \<Rightarrow> nat \<Rightarrow> art_writer \<Rightarrow> bool \<Rightarrow> bool \<Rightarrow> art_store" where
  "writer_step hash s n w ok applied =
     (let t = wr_tenant w; i = wr_id w in
      case wr_pc w of
        WStream \<Rightarrow> s
      | WVerify \<Rightarrow> goto s n w (if ok \<and> still_owner s w then WSync else WDropTemp)
      | WSync \<Rightarrow>
          if ok then goto (s\<lparr>as_files := sync_temp (as_files s) i\<rparr>) n w WClose else goto s n w WDropTemp
      | WClose \<Rightarrow> goto s n w (if ok then WMkdir else WDropTemp)
      | WMkdir \<Rightarrow> goto s n w (if ok then WRename else WDropTemp)
      | WRename \<Rightarrow>
          (case (if ok then rename_temp (as_files s) t i else None) of
             None \<Rightarrow> goto s n w WDropTemp
           | Some fs \<Rightarrow> goto (s\<lparr>as_files := fs\<rparr>) n w WSyncDir)
      | WSyncDir \<Rightarrow>
          if ok then goto (s\<lparr>as_files := sync_dir (as_files s) t\<rparr>) n w WCommit else goto s n w WDropTemp
      | WCommit \<Rightarrow>
          (case (if applied
                 then FinalizeCommit (as_rows s) t i (wr_owner w) (wr_fence w) (hash (wr_bytes w))
                        (int (length (wr_bytes w)))
                 else None) of
             None \<Rightarrow> goto s n w WUndo
           | Some rows \<Rightarrow> goto (s\<lparr>as_rows := rows\<rparr>) n w (if ok then WDone else WUndo))
      | WUndo \<Rightarrow> goto (if ok then remove_file s (storageRel t i) else s) n w WDropTemp
      | WDropTemp \<Rightarrow> goto (if ok then remove_file s (tempPath i) else s) n w WDropDurable
      | WDropDurable \<Rightarrow> goto (if ok then remove_file s (storageRel t i) else s) n w WTombstone
      | WTombstone \<Rightarrow>
          goto (if ok then keep_rows s (UpdateState (as_rows s) t i StateTombstoned ReasonWriteAborted) else s)
            n w WDone
      | WDone \<Rightarrow> s)"

section \<open>Read and Delete\<close>

definition ReadArtifact :: "art_store \<Rightarrow> string \<Rightarrow> string \<Rightarrow> string option" where
  "ReadArtifact s t i =
     (case durablePath t i of
        None \<Rightarrow> None
      | Some p \<Rightarrow>
          (case GetArtifactRow (as_rows s) t i of
             None \<Rightarrow> None
           | Some r \<Rightarrow>
               if ar_state r \<noteq> StateFinal then None else map_option fl_bytes (map_of (as_files s) p)))"

definition DeleteArtifact :: "art_store \<Rightarrow> string \<Rightarrow> string \<Rightarrow> art_store" where
  "DeleteArtifact s t i =
     (case durablePath t i of
        None \<Rightarrow> s
      | Some p \<Rightarrow>
          (case GetArtifactRow (as_rows s) t i of
             None \<Rightarrow> s
           | Some _ \<Rightarrow>
               (case UpdateState (as_rows s) t i StateTombstoned ReasonDeleted of
                  None \<Rightarrow> s
                | Some rows \<Rightarrow>
                    s\<lparr>as_rows := rows, as_deletes := as_deletes s @ [[p, tempPath i]]\<rparr>)))"

text \<open>One removal of a deletion in progress.\<close>

definition delete_step :: "art_store \<Rightarrow> nat \<Rightarrow> bool \<Rightarrow> art_store" where
  "delete_step s k ok =
     (if length (as_deletes s) \<le> k then s
      else case as_deletes s ! k of
        [] \<Rightarrow> s
      | p # ps \<Rightarrow>
          (if ok then remove_file s p else s)\<lparr>as_deletes := (as_deletes s)[k := ps]\<rparr>)"

section \<open>Reconcile\<close>

definition two_parts :: "string \<Rightarrow> (string \<times> string) option" where
  "two_parts p = (case split_on (CHR ''/'') p of [t, i] \<Rightarrow> Some (t, i) | _ \<Rightarrow> None)"

definition live_lease :: "artifact_row \<Rightarrow> time \<Rightarrow> bool" where
  "live_lease r now \<longleftrightarrow> (case ar_lease r of None \<Rightarrow> False | Some l \<Rightarrow> now < l)"

text \<open>The verdict of the walk on one file: is it kept?\<close>

definition keeps_file :: "artifact_row list \<Rightarrow> time \<Rightarrow> string \<Rightarrow> bool" where
  "keeps_file rows now p =
     (case two_parts p of
        None \<Rightarrow> False
      | Some (t, i) \<Rightarrow>
          if \<not> validateComponent t \<or> \<not> validateComponent i then False
          else (case GetArtifactRow rows t i of
                  None \<Rightarrow> False
                | Some r \<Rightarrow> ar_state r = StateFinal \<or> (ar_state r = StateWriting \<and> live_lease r now)))"

definition in_staging :: "string \<Rightarrow> bool" where
  "in_staging p \<longleftrightarrow> hd (split_on (CHR ''/'') p) = ''.tmp''"

text \<open>\<open>removeOwned\<close>, after an expired writer was fenced.\<close>

definition removeOwned :: "artifact_row \<Rightarrow> rc_action list" where
  "removeOwned r =
     (case durablePath (ar_tenant r) (ar_id r) of None \<Rightarrow> [] | Some p \<Rightarrow> [RemovePath p]) @
     [RemovePath (tempPath (ar_id r))]"

definition fence_row :: "artifact_row list \<Rightarrow> artifact_row \<Rightarrow> artifact_row list option" where
  "fence_row rows r =
     (case ar_owner r of
        None \<Rightarrow> None
      | Some o' \<Rightarrow> InvalidateWriting rows (ar_tenant r) (ar_id r) o' (ar_fence r) ReasonExpiredWriteLease)"

text \<open>The repair of one row that ever carried bytes; \<open>stat\<close> fails otherwise when not \<open>ok\<close>.\<close>

definition check_row :: "art_fs \<Rightarrow> artifact_row \<Rightarrow> bool \<Rightarrow> rc_action list" where
  "check_row fs r ok =
     (case durablePath (ar_tenant r) (ar_id r) of
        None \<Rightarrow> []
      | Some p \<Rightarrow>
          if ar_state r = StateTombstoned \<or> ar_state r = StateDeleting
          then (if \<not> ok \<or> map_of fs p \<noteq> None then [RemovePath p] else [])
          else if ar_state r = StateFinal \<and> ok \<and> map_of fs p = None
          then [TombstoneMissing (ar_tenant r) (ar_id r)] else [])"

definition act :: "art_store \<Rightarrow> rc_action \<Rightarrow> art_store" where
  "act s a =
     (case a of
        RemovePath p \<Rightarrow> remove_file s p
      | TombstoneMissing t i \<Rightarrow> keep_rows s (UpdateState (as_rows s) t i StateTombstoned ReasonMissingFinalBytes))"

definition set_rc :: "art_store \<Rightarrow> nat \<Rightarrow> reconciler \<Rightarrow> art_store" where
  "set_rc s k rc = s\<lparr>as_reconcilers := (as_reconcilers s)[k := rc]\<rparr>"

definition start_reconcile :: "art_store \<Rightarrow> time \<Rightarrow> art_store" where
  "start_reconcile s now =
     s\<lparr>as_reconcilers := as_reconcilers s @
        [\<lparr>rc_now = now, rc_stage = RFence, rc_rows = ListExpiredWriting (as_rows s) now, rc_todo = []\<rparr>]\<rparr>"

text \<open>
  The next step of a reconciliation: what is already decided is done first; then the next expired
  row is fenced, a file is looked up (\<open>path\<close>: the walk's current one), or the next row is checked.
\<close>

definition rc_step :: "art_store \<Rightarrow> nat \<Rightarrow> reconciler \<Rightarrow> string \<Rightarrow> bool \<Rightarrow> art_store" where
  "rc_step s k rc path ok =
     (case rc_todo rc of
        a # as \<Rightarrow> set_rc (if ok then act s a else s) k (rc\<lparr>rc_todo := as\<rparr>)
      | [] \<Rightarrow>
          (case rc_stage rc of
             RFence \<Rightarrow>
               (case rc_rows rc of
                  [] \<Rightarrow> set_rc s k (rc\<lparr>rc_stage := RWalk\<rparr>)
                | r # rs \<Rightarrow>
                    (case (if ok then fence_row (as_rows s) r else None) of
                       None \<Rightarrow> set_rc s k (rc\<lparr>rc_rows := rs\<rparr>)
                     | Some rows \<Rightarrow>
                         set_rc (s\<lparr>as_rows := rows\<rparr>) k (rc\<lparr>rc_rows := rs, rc_todo := removeOwned r\<rparr>)))
           | RWalk \<Rightarrow>
               if map_of (as_files s) path = None \<or> in_staging path \<or> \<not> ok \<or> keeps_file (as_rows s) (rc_now rc) path
               then s else set_rc s k (rc\<lparr>rc_todo := [RemovePath path]\<rparr>)
           | RRows \<Rightarrow>
               (case rc_rows rc of
                  [] \<Rightarrow> set_rc s k (rc\<lparr>rc_stage := REnd\<rparr>)
                | r # rs \<Rightarrow> set_rc s k (rc\<lparr>rc_rows := rs, rc_todo := check_row (as_files s) r ok\<rparr>))
           | REnd \<Rightarrow> s))"

definition end_walk :: "art_store \<Rightarrow> nat \<Rightarrow> reconciler \<Rightarrow> bool \<Rightarrow> art_store" where
  "end_walk s k rc ok =
     (if rc_stage rc = RWalk \<and> rc_todo rc = []
      then set_rc s k (if ok then rc\<lparr>rc_stage := RRows, rc_rows := ListFinalPaths (as_rows s)\<rparr>
                       else rc\<lparr>rc_stage := REnd\<rparr>)
      else s)"

section \<open>The store as a system\<close>

datatype art_event =
    ABegin begin_meta string string int time duration int bool
  | AWrite nat string nat bool
  | AFinalize nat
  | AAbort nat
  | AWriter nat bool bool
  | ADelete string string
  | ADeleteStep nat bool
  | AReconcile time
  | AReconcileStep nat string bool
  | AEndWalk nat bool
  | APower "string list"

text \<open>
  After a power loss no process is left; a file is still there if its bytes and its entry were on
  disk, or by chance.
\<close>

definition power_loss :: "art_store \<Rightarrow> string list \<Rightarrow> art_store" where
  "power_loss s lucky =
     s\<lparr>as_files := filter (\<lambda>(p, f). (fl_synced f \<and> fl_linked f) \<or> p \<in> set lucky) (as_files s),
       as_writers := map (\<lambda>w. w\<lparr>wr_pc := WDone\<rparr>) (as_writers s), as_deletes := [], as_reconcilers := []\<rparr>"

definition on_writer :: "art_store \<Rightarrow> nat \<Rightarrow> (art_writer \<Rightarrow> art_store) \<Rightarrow> art_store" where
  "on_writer s n f = (if n < length (as_writers s) then f (as_writers s ! n) else s)"

definition on_rc :: "art_store \<Rightarrow> nat \<Rightarrow> (reconciler \<Rightarrow> art_store) \<Rightarrow> art_store" where
  "on_rc s k f = (if k < length (as_reconcilers s) then f (as_reconcilers s ! k) else s)"

fun art_step :: "(string \<Rightarrow> string) \<Rightarrow> art_store \<Rightarrow> art_event \<Rightarrow> art_store" where
  "art_step hash s (ABegin m i owner fence now ttl maxb opened) =
     (if \<not> generated i \<or> list_ex (\<lambda>r. ar_id r = i) (as_rows s) then s
      else BeginArtifact s m i owner fence now ttl maxb opened)"
| "art_step hash s (AWrite n chunk k ok) =
     on_writer s n (\<lambda>w. if wr_pc w = WStream then WriteChunk s n w chunk k ok else s)"
| "art_step hash s (AFinalize n) =
     on_writer s n (\<lambda>w. if wr_pc w = WStream then StartFinalize hash s n w else s)"
| "art_step hash s (AAbort n) =
     on_writer s n (\<lambda>w. if wr_pc w = WStream then goto s n w WDropTemp else s)"
| "art_step hash s (AWriter n ok applied) = on_writer s n (\<lambda>w. writer_step hash s n w ok applied)"
| "art_step hash s (ADelete t i) = DeleteArtifact s t i"
| "art_step hash s (ADeleteStep k ok) = delete_step s k ok"
| "art_step hash s (AReconcile now) = start_reconcile s now"
| "art_step hash s (AReconcileStep k path ok) = on_rc s k (\<lambda>rc. rc_step s k rc path ok)"
| "art_step hash s (AEndWalk k ok) = on_rc s k (\<lambda>rc. end_walk s k rc ok)"
| "art_step hash s (APower lucky) = power_loss s lucky"

definition empty_art :: art_store where
  "empty_art = \<lparr>as_rows = [], as_files = [], as_writers = [], as_deletes = [], as_reconcilers = []\<rparr>"

definition art_run :: "(string \<Rightarrow> string) \<Rightarrow> art_event list \<Rightarrow> art_store" where
  "art_run hash evs = foldl (art_step hash) empty_art evs"

end
