(* ===== verification/ArtifactsInv.thy ===== *)
theory ArtifactsInv
  imports Artifacts
begin

text \<open>
  Paths of the artifact store, and its integrity invariant: every file belongs to one writer and holds
  what that writer wrote, and a final row records the hash and the size of exactly those bytes.
\<close>

section \<open>Paths\<close>

lemma split_on_id: "d \<notin> set s \<Longrightarrow> split_on d s = [s]"
  by (induction s) auto

lemma split_on_two: "d \<notin> set s \<Longrightarrow> d \<notin> set v \<Longrightarrow> split_on d (s @ d # v) = [s, v]"
  by (induction s) (auto simp: split_on_id)

lemma not_contains: "c \<notin> set s \<Longrightarrow> \<not> contains_str s (c # p)"
  by (induction s) (auto simp: has_prefix_def)

lemma valid_no_slash: "validateComponent s \<Longrightarrow> CHR ''/'' \<notin> set s"
  by (simp add: validateComponent_def)

lemma storageRel_parts:
  "CHR ''/'' \<notin> set t \<Longrightarrow> CHR ''/'' \<notin> set i \<Longrightarrow> split_on (CHR ''/'') (storageRel t i) = [t, i]"
  by (simp add: storageRel_def split_on_two)

lemma storageRel_inject:
  assumes "CHR ''/'' \<notin> set t" "CHR ''/'' \<notin> set i" "CHR ''/'' \<notin> set t'" "CHR ''/'' \<notin> set i'"
    and "storageRel t i = storageRel t' i'"
  shows "t = t' \<and> i = i'"
proof -
  have "[t, i] = [t', i']" using storageRel_parts[OF assms(1,2)] storageRel_parts[OF assms(3,4)] assms(5) by metis
  then show ?thesis by simp
qed

lemma durablePath_valid:
  assumes "validateComponent t" and "validateComponent i"
  shows "durablePath t i = Some (storageRel t i)"
proof -
  have p: "s \<noteq> [] \<and> s \<noteq> ''.'' \<and> s \<noteq> ''..''" if "validateComponent s" for s
    using that by (auto simp: validateComponent_def has_prefix_def)
  show ?thesis
    using p[OF assms(1)] p[OF assms(2)] assms storageRel_parts[of t i]
    by (simp add: durablePath_def valid_no_slash storageRel_def)
qed

lemma durablePath_Some: "durablePath t i = Some p \<Longrightarrow> validateComponent t \<and> validateComponent i \<and> p = storageRel t i"
  using durablePath_valid[of t i] by (auto simp: durablePath_def split: if_split_asm)

lemma hex_char_plain: "hex_char c \<Longrightarrow> c \<notin> {CHR ''/'', CHR 0x5C, CHR 0x00, CHR ''.''}"
  by (auto simp: hex_char_def is_digit_def in_range_def)

lemma generated_chars:
  assumes "generated i" and "c \<in> {CHR ''/'', CHR 0x5C, CHR 0x00, CHR ''.''}"
  shows "c \<notin> set i"
proof -
  have "length ''art_'' = 4" by simp
  then have "take 4 i = ''art_''" using assms(1) unfolding generated_def has_prefix_def by metis
  then have i: "i = ''art_'' @ drop 4 i" using append_take_drop_id[of 4 i] by metis
  have "c \<notin> set (drop 4 i)" using assms hex_char_plain by (auto simp: generated_def list_all_iff)
  moreover have "c \<notin> set ''art_''" using assms(2) by auto
  ultimately show ?thesis by (subst i) (simp only: set_append Un_iff not_False_eq_True de_Morgan_disj)
qed

lemma generated_valid:
  assumes "generated i"
  shows "validateComponent i"
proof -
  have "i \<noteq> []" "i \<noteq> ''.''" using assms by (auto simp: generated_def)
  then show ?thesis using generated_chars[OF assms] not_contains[of "CHR ''.''" i "''.''"]
    by (simp add: validateComponent_def)
qed

lemma temp_is_storage: "tempPath i = storageRel ''.tmp'' (i @ ''.part'')"
  by (simp add: tempPath_def storageRel_def)

lemma temp_not_durable:
  assumes "generated i" and "generated j" and "validateComponent t"
  shows "tempPath i \<noteq> storageRel t j"
proof
  assume e: "tempPath i = storageRel t j"
  have "i @ ''.part'' = j"
    using e storageRel_inject[of "''.tmp''" "i @ ''.part''" t j] assms generated_chars[of i "CHR ''/''"]
      valid_no_slash[OF generated_valid[OF assms(2)]] valid_no_slash[OF assms(3)]
    by (simp add: temp_is_storage)
  moreover have "length (i @ ''.part'') = length i + 5" by simp
  ultimately have "length j = length i + 5" by simp
  then show False using assms by (simp add: generated_def)
qed

lemma temp_inject: "tempPath i = tempPath j \<longleftrightarrow> i = j"
  by (simp add: tempPath_def)

lemma temp_staging: "in_staging (tempPath i)"
  by (simp add: in_staging_def tempPath_def)

section \<open>Lookups after file operations\<close>

lemma lookup_remove [simp]: "map_of (AList.delete p fs) = (map_of fs)(p := None)"
  by (rule delete_conv')

lemma lookup_update [simp]: "map_of (AList.update p f fs) = (map_of fs)(p \<mapsto> f)"
  by (rule update_conv')

lemma lookup_sync_dir:
  "map_of (sync_dir fs t) p =
     map_option (\<lambda>f. if hd (split_on (CHR ''/'') p) = t then f\<lparr>fl_linked := True\<rparr> else f) (map_of fs p)"
  by (induction fs) (auto simp: sync_dir_def)

lemma lookup_filter: "distinct (map fst fs) \<Longrightarrow> map_of (filter P fs) p = Some f \<Longrightarrow> map_of fs p = Some f \<and> P (p, f)"
  by (auto simp: map_of_eq_Some_iff distinct_map_filter)

section \<open>The invariant\<close>

definition wr_key :: "art_writer \<Rightarrow> string \<times> string" where
  "wr_key w = (wr_tenant w, wr_id w)"

definition retired_row :: "artifact_row \<Rightarrow> bool" where
  "retired_row r \<longleftrightarrow> ar_state r = StateTombstoned \<or> ar_state r = StateDeleting"

definition before_rename :: "writer_pc set" where
  "before_rename = {WStream, WVerify, WSync, WClose, WMkdir, WRename}"

definition file_of :: "art_writer \<Rightarrow> string \<Rightarrow> art_file \<Rightarrow> bool" where
  "file_of w p f \<longleftrightarrow>
     fl_bytes f = wr_bytes w \<and>
     (p = tempPath (wr_id w) \<and> (wr_pc w \<in> {WClose, WMkdir, WRename} \<longrightarrow> fl_synced f) \<or>
      p = storageRel (wr_tenant w) (wr_id w) \<and> fl_synced f \<and> wr_pc w \<notin> before_rename)"

definition files_inv :: "art_writer list \<Rightarrow> art_fs \<Rightarrow> bool" where
  "files_inv ws fs \<longleftrightarrow>
     distinct (map fst fs) \<and> (\<forall>p f. map_of fs p = Some f \<longrightarrow> (\<exists>w\<in>set ws. file_of w p f))"

definition writers_inv :: "artifact_row list \<Rightarrow> art_writer list \<Rightarrow> bool" where
  "writers_inv rows ws \<longleftrightarrow>
     distinct (map wr_id ws) \<and>
     (\<forall>w\<in>set ws. validateComponent (wr_tenant w) \<and> wr_key w \<in> ar_key ` set rows)"

definition final_ok :: "(string \<Rightarrow> string) \<Rightarrow> art_writer \<Rightarrow> artifact_row \<Rightarrow> bool" where
  "final_ok hash w r \<longleftrightarrow>
     wr_key w = ar_key r \<and> wr_pc w \<notin> insert WCommit (insert WSyncDir before_rename) \<and> ar_sha r = hash (wr_bytes w) \<and>
     ar_size r = int (length (wr_bytes w))"

definition rows_inv :: "(string \<Rightarrow> string) \<Rightarrow> artifact_row list \<Rightarrow> art_writer list \<Rightarrow> bool" where
  "rows_inv hash rows ws \<longleftrightarrow>
     distinct (map ar_id rows) \<and> (\<forall>r\<in>set rows. generated (ar_id r) \<and> validateComponent (ar_tenant r)) \<and>
     (\<forall>r\<in>set rows. ar_state r = StateFinal \<longrightarrow> (\<exists>w\<in>set ws. final_ok hash w r))"

definition art_inv :: "(string \<Rightarrow> string) \<Rightarrow> art_store \<Rightarrow> bool" where
  "art_inv hash s \<longleftrightarrow>
     files_inv (as_writers s) (as_files s) \<and> writers_inv (as_rows s) (as_writers s) \<and>
     rows_inv hash (as_rows s) (as_writers s)"

section \<open>How it is kept\<close>

lemma files_inv_less:
  assumes "files_inv ws fs" and "distinct (map fst fs')" and "\<And>p f. map_of fs' p = Some f \<Longrightarrow> map_of fs p = Some f"
  shows "files_inv ws fs'"
  using assms unfolding files_inv_def by blast

lemma writer_moved:
  assumes "v \<in> set ws" and "n < length ws"
  shows "v = ws ! n \<or> v \<in> set (ws[n := w'])"
  using assms by (metis in_set_conv_nth length_list_update nth_list_update_neq)

lemma files_inv_move:
  assumes inv: "files_inv ws fs" and n: "n < length ws" and d: "distinct (map fst fs')"
    and move: "\<And>p f. map_of fs' p = Some f \<Longrightarrow>
      (map_of fs p = Some f \<and> (file_of (ws ! n) p f \<longrightarrow> file_of w' p f)) \<or> file_of w' p f"
  shows "files_inv (ws[n := w']) fs'"
proof -
  have "\<exists>w\<in>set (ws[n := w']). file_of w p f" if "map_of fs' p = Some f" for p f
  proof -
    have w': "w' \<in> set (ws[n := w'])" using n by (metis in_set_conv_nth length_list_update nth_list_update_eq)
    consider "map_of fs p = Some f" "file_of (ws ! n) p f \<longrightarrow> file_of w' p f" | "file_of w' p f"
      using move[OF \<open>map_of fs' p = Some f\<close>] by blast
    then show ?thesis
    proof cases
      case 1
      then obtain v where "v \<in> set ws" "file_of v p f" using inv unfolding files_inv_def by blast
      then show ?thesis using writer_moved[of v ws n w'] n 1(2) w' by blast
    qed (use w' in blast)
  qed
  then show ?thesis using d by (simp add: files_inv_def)
qed

text \<open>A statement that changes rows in place, making none of them final.\<close>

definition rows_kept :: "artifact_row list \<Rightarrow> artifact_row list \<Rightarrow> bool" where
  "rows_kept rows rows' \<longleftrightarrow>
     map ar_key rows' = map ar_key rows \<and>
     (\<forall>r'\<in>set rows'. \<exists>r\<in>set rows. ar_key r' = ar_key r \<and> (retired_row r \<longrightarrow> retired_row r') \<and>
        (ar_state r' = StateFinal \<longrightarrow> r' = r))"

lemma rows_kept_refl [simp]: "rows_kept rows rows"
  by (auto simp: rows_kept_def)

lemma rows_kept_upd:
  assumes "\<And>r. P r \<Longrightarrow> ar_key (f r) = ar_key r \<and> retired_row (f r)"
  shows "rows_kept rows (upd_rows P f rows)"
proof -
  have "map ar_key (upd_rows P f rows) = map ar_key rows" using assms by (intro map_upd_rows) blast
  moreover have "\<exists>r\<in>set rows. ar_key r' = ar_key r \<and> (retired_row r \<longrightarrow> retired_row r') \<and> (ar_state r' = StateFinal \<longrightarrow> r' = r)"
    if r': "r' \<in> set (upd_rows P f rows)" for r'
    using r'
  proof (rule upd_rowsE)
    fix x assume x: "x \<in> set rows" and r': "r' = (if P x then f x else x)"
    then show ?thesis using assms[of x] by (intro bexI[of _ x]) (auto simp: retired_row_def)
  qed
  ultimately show ?thesis by (simp add: rows_kept_def)
qed

lemma UpdateState_kept: "UpdateState rows t i st reason = Some rows' \<Longrightarrow> rows_kept rows rows'"
  by (auto simp: UpdateState_def retired_row_def ar_key_def split: if_split_asm intro!: rows_kept_upd)

lemma InvalidateWriting_kept: "InvalidateWriting rows t i owner fence reason = Some rows' \<Longrightarrow> rows_kept rows rows'"
  by (auto simp: InvalidateWriting_def retired_row_def ar_key_def split: if_split_asm intro!: rows_kept_upd)

lemma fence_row_kept: "fence_row rows r = Some rows' \<Longrightarrow> rows_kept rows rows'"
  by (auto simp: fence_row_def split: option.splits intro: InvalidateWriting_kept)

lemma ids_of_keys: "map ar_id rows = map snd (map ar_key rows)"
  by (simp add: ar_key_def comp_def)

lemma tenants_of_keys: "map ar_tenant rows = map fst (map ar_key rows)"
  by (simp add: ar_key_def comp_def)

lemma kept_rows_inv:
  assumes k: "rows_kept rows rows'" and w: "writers_inv rows ws" and r: "rows_inv hash rows ws"
  shows "writers_inv rows' ws \<and> rows_inv hash rows' ws"
proof -
  have keys: "map ar_key rows' = map ar_key rows" using k by (simp add: rows_kept_def)
  then have ids: "map ar_id rows' = map ar_id rows" by (simp add: ids_of_keys)
  have "set (map ar_key rows') = set (map ar_key rows)" using keys by simp
  then have set_keys: "ar_key ` set rows' = ar_key ` set rows" by simp
  have "generated (ar_id r') \<and> validateComponent (ar_tenant r')" if "r' \<in> set rows'" for r'
  proof -
    obtain x where "x \<in> set rows" "ar_key r' = ar_key x" using k \<open>r' \<in> set rows'\<close> unfolding rows_kept_def by blast
    then show ?thesis using r by (simp add: rows_inv_def ar_key_def)
  qed
  moreover have "\<exists>w\<in>set ws. final_ok hash w r'" if "r' \<in> set rows'" "ar_state r' = StateFinal" for r'
  proof -
    obtain x where "x \<in> set rows" "ar_state r' = StateFinal \<longrightarrow> r' = x"
      using k \<open>r' \<in> set rows'\<close> unfolding rows_kept_def by blast
    then show ?thesis using r that(2) by (simp add: rows_inv_def)
  qed
  ultimately show ?thesis using w r by (simp add: writers_inv_def rows_inv_def ids set_keys)
qed

lemma move_rows_inv:
  assumes w: "writers_inv rows ws" and r: "rows_inv hash rows ws" and n: "n < length ws"
    and id: "wr_tenant w' = wr_tenant (ws ! n)" "wr_id w' = wr_id (ws ! n)"
    and fin: "\<And>r. final_ok hash (ws ! n) r \<Longrightarrow> final_ok hash w' r"
  shows "writers_inv rows (ws[n := w']) \<and> rows_inv hash rows (ws[n := w'])"
proof -
  have "map wr_id (ws[n := w']) = map wr_id ws" using n id by (simp add: map_update list_update_same_conv)
  moreover have "wr_key w' = wr_key (ws ! n)" by (simp add: wr_key_def id)
  moreover have "\<exists>w\<in>set (ws[n := w']). final_ok hash w r'"
    if m: "r' \<in> set rows" "ar_state r' = StateFinal" for r'
  proof -
    obtain v where "v \<in> set ws" "final_ok hash v r'" using r m unfolding rows_inv_def by blast
    moreover have "w' \<in> set (ws[n := w'])" using n by (metis in_set_conv_nth length_list_update nth_list_update_eq)
    ultimately show ?thesis using writer_moved[of v ws n w'] n fin by blast
  qed
  ultimately show ?thesis
    using w r n id set_update_subset_insert[of ws n w'] nth_mem[OF n]
    unfolding writers_inv_def rows_inv_def by (smt (verit) insertE subsetD)
qed

section \<open>Who owns a file\<close>

lemma writer_row:
  assumes "art_inv hash s" and "w \<in> set (as_writers s)"
  obtains r where "r \<in> set (as_rows s)" and "ar_key r = wr_key w" and "generated (wr_id w)"
    and "validateComponent (wr_tenant w)"
proof -
  have w: "wr_key w \<in> ar_key ` set (as_rows s)" "validateComponent (wr_tenant w)"
    using assms unfolding art_inv_def writers_inv_def by blast+
  then obtain r where r: "r \<in> set (as_rows s)" "ar_key r = wr_key w" by auto
  have "generated (ar_id r)" using assms(1) r(1) unfolding art_inv_def rows_inv_def by blast
  then show ?thesis using that r w(2) by (simp add: ar_key_def wr_key_def)
qed

lemma same_writer:
  assumes "art_inv hash s" and "v \<in> set (as_writers s)" and "w \<in> set (as_writers s)" and "wr_id v = wr_id w"
  shows "v = w"
proof -
  have "distinct (map wr_id (as_writers s))" using assms(1) unfolding art_inv_def writers_inv_def by blast
  then show ?thesis using assms(2-4) by (rule distinct_keys_unique)
qed

lemma file_owner:
  assumes "art_inv hash s" and "map_of (as_files s) p = Some f"
  obtains v where "v \<in> set (as_writers s)" and "file_of v p f"
  using assms unfolding art_inv_def files_inv_def by blast

lemma temp_owner:
  assumes inv: "art_inv hash s" and w: "w \<in> set (as_writers s)" and f: "map_of (as_files s) (tempPath (wr_id w)) = Some f"
  shows "file_of w (tempPath (wr_id w)) f"
proof -
  obtain v where v: "v \<in> set (as_writers s)" "file_of v (tempPath (wr_id w)) f" using inv f by (rule file_owner)
  have g: "generated (wr_id w)" "generated (wr_id v)" "validateComponent (wr_tenant v)"
    using writer_row[OF inv w] writer_row[OF inv v(1)] by metis+
  have "wr_id v = wr_id w" using v(2) temp_not_durable[OF g] by (auto simp: file_of_def temp_inject)
  then have "v = w" by (rule same_writer[OF inv v(1) w])
  then show ?thesis using v(2) by simp
qed

lemma durable_owner:
  assumes inv: "art_inv hash s" and w: "w \<in> set (as_writers s)"
    and f: "map_of (as_files s) (storageRel (wr_tenant w) (wr_id w)) = Some f"
  shows "file_of w (storageRel (wr_tenant w) (wr_id w)) f"
proof -
  let ?p = "storageRel (wr_tenant w) (wr_id w)"
  obtain v where v: "v \<in> set (as_writers s)" "file_of v ?p f" using inv f by (rule file_owner)
  have g: "generated (wr_id w)" "generated (wr_id v)" "validateComponent (wr_tenant v)" "validateComponent (wr_tenant w)"
    using writer_row[OF inv w] writer_row[OF inv v(1)] by metis+
  have "?p = storageRel (wr_tenant v) (wr_id v)"
    using v(2) temp_not_durable[OF g(2,1,4)] by (auto simp: file_of_def)
  then have "wr_id v = wr_id w"
    using storageRel_inject[of "wr_tenant w" "wr_id w" "wr_tenant v" "wr_id v"] g generated_valid valid_no_slash by metis
  then have "v = w" by (rule same_writer[OF inv v(1) w])
  then show ?thesis using v(2) by simp
qed

section \<open>Every step keeps it\<close>

lemma art_inv_core:
  "as_rows s' = as_rows s \<Longrightarrow> as_writers s' = as_writers s \<Longrightarrow> as_files s' = as_files s \<Longrightarrow>
   art_inv hash s' = art_inv hash s"
  by (simp add: art_inv_def)

lemma art_inv_move:
  assumes inv: "art_inv hash s" and n: "n < length (as_writers s)"
    and id: "wr_tenant w' = wr_tenant (as_writers s ! n)" "wr_id w' = wr_id (as_writers s ! n)"
    and fin: "\<And>r. final_ok hash (as_writers s ! n) r \<Longrightarrow> final_ok hash w' r"
    and d: "distinct (map fst fs')"
    and move: "\<And>p f. map_of fs' p = Some f \<Longrightarrow>
      (map_of (as_files s) p = Some f \<and> (file_of (as_writers s ! n) p f \<longrightarrow> file_of w' p f)) \<or> file_of w' p f"
  shows "art_inv hash (set_writer (s\<lparr>as_files := fs'\<rparr>) n w')"
proof -
  have parts: "files_inv (as_writers s) (as_files s)" "writers_inv (as_rows s) (as_writers s)"
      "rows_inv hash (as_rows s) (as_writers s)" using inv by (simp_all add: art_inv_def)
  have "files_inv ((as_writers s)[n := w']) fs'" by (rule files_inv_move[OF parts(1) n d move])
  then show ?thesis using move_rows_inv[OF parts(2,3) n id fin] by (simp add: art_inv_def set_writer_def)
qed

lemma files_distinct: "art_inv hash s \<Longrightarrow> distinct (map fst (as_files s))"
  by (simp add: art_inv_def files_inv_def)

lemma remove_file_inv: "art_inv hash s \<Longrightarrow> art_inv hash (remove_file s p)"
  unfolding art_inv_def remove_file_def
  by (auto simp: distinct_delete files_inv_def split: if_split_asm intro: files_inv_less)

lemma keep_rows_inv: "art_inv hash s \<Longrightarrow> rows_kept (as_rows s) rows \<Longrightarrow> art_inv hash (s\<lparr>as_rows := rows\<rparr>)"
  using kept_rows_inv[of "as_rows s" rows "as_writers s" hash] by (simp add: art_inv_def)

lemma update_state_inv: "art_inv hash s \<Longrightarrow> art_inv hash (keep_rows s (UpdateState (as_rows s) t i st reason))"
  by (auto simp: keep_rows_def split: option.split intro: keep_rows_inv UpdateState_kept)

text \<open>Moving the program counter alone.\<close>

definition pc_move :: "writer_pc \<Rightarrow> writer_pc \<Rightarrow> bool" where
  "pc_move a b \<longleftrightarrow>
     (b \<in> {WClose, WMkdir, WRename} \<longrightarrow> a \<in> {WClose, WMkdir, WRename}) \<and>
     (b \<in> before_rename \<longrightarrow> a \<in> before_rename) \<and>
     (b \<in> {WCommit, WSyncDir} \<longrightarrow> a \<in> insert WCommit (insert WSyncDir before_rename))"

lemma goto_inv:
  assumes "art_inv hash s" and "n < length (as_writers s)" and "pc_move (wr_pc (as_writers s ! n)) pc"
  shows "art_inv hash (goto s n (as_writers s ! n) pc)"
proof -
  let ?w' = "(as_writers s ! n)\<lparr>wr_pc := pc\<rparr>"
  have "art_inv hash (set_writer (s\<lparr>as_files := as_files s\<rparr>) n ?w')"
    by (rule art_inv_move[OF assms(1,2) _ _ _ files_distinct[OF assms(1)]])
      (use assms(3) in \<open>auto simp: final_ok_def file_of_def pc_move_def wr_key_def\<close>)
  then show ?thesis by (simp add: goto_def)
qed

lemma writer_in: "n < length ws \<Longrightarrow> ws ! n \<in> set ws"
  by simp

lemma remove_goto:
  "art_inv hash s \<Longrightarrow> n < length (as_writers s) \<Longrightarrow> pc_move (wr_pc (as_writers s ! n)) pc \<Longrightarrow>
   art_inv hash (goto (if ok then remove_file s p else s) n (as_writers s ! n) pc)"
  using goto_inv[of hash "remove_file s p" n pc] remove_file_inv[of hash s p]
  by (auto simp: remove_file_def intro: goto_inv)

lemma write_inv:
  assumes inv: "art_inv hash s" and n: "n < length (as_writers s)" and pc: "wr_pc (as_writers s ! n) = WStream"
  shows "art_inv hash (WriteChunk s n (as_writers s ! n) chunk k ok)"
proof (cases "wr_max (as_writers s ! n) < int (length (wr_bytes (as_writers s ! n))) + int (length chunk)")
  case True
  then show ?thesis using goto_inv[OF inv n, of WDropTemp] pc
    by (simp add: WriteChunk_def goto_def pc_move_def before_rename_def)
next
  case False
  let ?w = "as_writers s ! n"
  let ?w' = "?w\<lparr>wr_bytes := wr_bytes ?w @ take k chunk, wr_pc := (if ok \<and> length chunk \<le> k then WStream else WDropTemp)\<rparr>"
  let ?fs = "append_temp (as_files s) (wr_id ?w) (take k chunk)"
  have d: "distinct (map fst ?fs)"
    using files_distinct[OF inv] by (auto simp: append_temp_def distinct_update split: option.split)
  have "art_inv hash (set_writer (s\<lparr>as_files := ?fs\<rparr>) n ?w')"
  proof (rule art_inv_move[OF inv n _ _ _ d])
    fix p f assume f: "map_of ?fs p = Some f"
    show "(map_of (as_files s) p = Some f \<and> (file_of ?w p f \<longrightarrow> file_of ?w' p f)) \<or> file_of ?w' p f"
    proof (cases "p = tempPath (wr_id ?w)")
      case True
      then obtain f0 where f0: "map_of (as_files s) p = Some f0"
          "f = f0\<lparr>fl_bytes := fl_bytes f0 @ take k chunk, fl_synced := False\<rparr>"
        using f by (auto simp: append_temp_def split: option.split_asm)
      have "file_of ?w p f0" using temp_owner[OF inv writer_in[OF n]] f0(1) True by simp
      then show ?thesis using f0(2) True by (auto simp: file_of_def)
    next
      case False
      then have "map_of (as_files s) p = Some f" using f by (auto simp: append_temp_def split: option.split_asm)
      moreover have "\<not> file_of ?w p f" using False pc by (simp add: file_of_def before_rename_def)
      ultimately show ?thesis by blast
    qed
  qed (use pc in \<open>auto simp: final_ok_def before_rename_def\<close>)
  then show ?thesis using False by (simp add: WriteChunk_def)
qed

lemma sync_inv:
  assumes inv: "art_inv hash s" and n: "n < length (as_writers s)" and pc: "wr_pc (as_writers s ! n) = WSync"
  shows "art_inv hash (goto (s\<lparr>as_files := sync_temp (as_files s) (wr_id (as_writers s ! n))\<rparr>) n (as_writers s ! n) WClose)"
proof -
  let ?w = "as_writers s ! n"
  let ?w' = "?w\<lparr>wr_pc := WClose\<rparr>" and ?fs = "sync_temp (as_files s) (wr_id ?w)"
  have d: "distinct (map fst ?fs)"
    using files_distinct[OF inv] by (auto simp: sync_temp_def distinct_update split: option.split)
  have "art_inv hash (set_writer (s\<lparr>as_files := ?fs\<rparr>) n ?w')"
  proof (rule art_inv_move[OF inv n _ _ _ d])
    fix p f assume f: "map_of ?fs p = Some f"
    show "(map_of (as_files s) p = Some f \<and> (file_of ?w p f \<longrightarrow> file_of ?w' p f)) \<or> file_of ?w' p f"
    proof (cases "p = tempPath (wr_id ?w)")
      case True
      then obtain f0 where f0: "map_of (as_files s) p = Some f0" "f = f0\<lparr>fl_synced := True\<rparr>"
        using f by (auto simp: sync_temp_def split: option.split_asm)
      have "file_of ?w p f0" using temp_owner[OF inv writer_in[OF n]] f0(1) True by simp
      then show ?thesis using f0(2) True by (auto simp: file_of_def)
    next
      case False
      then have "map_of (as_files s) p = Some f" using f by (auto simp: sync_temp_def split: option.split_asm)
      moreover have "\<not> file_of ?w p f" using False pc by (simp add: file_of_def before_rename_def)
      ultimately show ?thesis by blast
    qed
  qed (use pc in \<open>auto simp: final_ok_def before_rename_def\<close>)
  then show ?thesis by (simp add: goto_def)
qed

lemma rename_inv:
  assumes inv: "art_inv hash s" and n: "n < length (as_writers s)" and pc: "wr_pc (as_writers s ! n) = WRename"
    and fs: "rename_temp (as_files s) (wr_tenant (as_writers s ! n)) (wr_id (as_writers s ! n)) = Some fs"
  shows "art_inv hash (goto (s\<lparr>as_files := fs\<rparr>) n (as_writers s ! n) WSyncDir)"
proof -
  let ?w = "as_writers s ! n"
  let ?w' = "?w\<lparr>wr_pc := WSyncDir\<rparr>"
  obtain f0 where f0: "map_of (as_files s) (tempPath (wr_id ?w)) = Some f0"
    and fs': "fs = AList.update (storageRel (wr_tenant ?w) (wr_id ?w)) (f0\<lparr>fl_linked := False\<rparr>)
                (AList.delete (tempPath (wr_id ?w)) (as_files s))"
    using fs by (auto simp: rename_temp_def split: option.split_asm)
  have d: "distinct (map fst fs)" unfolding fs' using files_distinct[OF inv] by (simp add: distinct_update distinct_delete)
  have own: "file_of ?w (tempPath (wr_id ?w)) f0" by (rule temp_owner[OF inv writer_in[OF n] f0])
  have syn: "fl_synced f0" "fl_bytes f0 = wr_bytes ?w"
    using own pc by (auto simp: file_of_def before_rename_def)
  have "art_inv hash (set_writer (s\<lparr>as_files := fs\<rparr>) n ?w')"
  proof (rule art_inv_move[OF inv n _ _ _ d])
    fix p f assume f: "map_of fs p = Some f"
    show "(map_of (as_files s) p = Some f \<and> (file_of ?w p f \<longrightarrow> file_of ?w' p f)) \<or> file_of ?w' p f"
    proof (cases "p = storageRel (wr_tenant ?w) (wr_id ?w)")
      case True
      then have "f = f0\<lparr>fl_linked := False\<rparr>" using f by (simp add: fs')
      then show ?thesis using True syn by (simp add: file_of_def before_rename_def)
    next
      case False
      then have "map_of (as_files s) p = Some f" "p \<noteq> tempPath (wr_id ?w)"
        using f by (auto simp: fs' split: if_split_asm)
      moreover from this have "\<not> file_of ?w p f" using pc by (simp add: file_of_def before_rename_def)
      ultimately show ?thesis by blast
    qed
  qed (use pc in \<open>auto simp: final_ok_def before_rename_def\<close>)
  then show ?thesis by (simp add: goto_def)
qed

lemma sync_dir_inv:
  assumes inv: "art_inv hash s" and n: "n < length (as_writers s)" and pc: "wr_pc (as_writers s ! n) = WSyncDir"
  shows "art_inv hash (goto (s\<lparr>as_files := sync_dir (as_files s) t\<rparr>) n (as_writers s ! n) WCommit)"
proof -
  let ?fs = "sync_dir (as_files s) t" and ?s1 = "s\<lparr>as_files := sync_dir (as_files s) t\<rparr>"
  have "map fst ?fs = map fst (as_files s)" by (simp add: sync_dir_def case_prod_beta comp_def)
  then have d: "distinct (map fst ?fs)" using files_distinct[OF inv] by simp
  have "\<exists>w\<in>set (as_writers s). file_of w p f" if f: "map_of ?fs p = Some f" for p f
  proof -
    obtain f0 where f0: "map_of (as_files s) p = Some f0" "fl_bytes f = fl_bytes f0" "fl_synced f = fl_synced f0"
      using f by (auto simp: lookup_sync_dir split: if_split_asm)
    obtain v where "v \<in> set (as_writers s)" "file_of v p f0" using inv f0(1) by (rule file_owner)
    then show ?thesis using f0(2,3) by (auto simp: file_of_def)
  qed
  then have "art_inv hash ?s1" using inv d by (simp add: art_inv_def files_inv_def)
  then show ?thesis using goto_inv[of hash ?s1 n WCommit] n pc by (simp add: pc_move_def before_rename_def)
qed

lemma commit_inv:
  assumes inv: "art_inv hash s" and n: "n < length (as_writers s)" and pc: "wr_pc (as_writers s ! n) = WCommit"
    and rows: "FinalizeCommit (as_rows s) (wr_tenant (as_writers s ! n)) (wr_id (as_writers s ! n)) owner fence
      (hash (wr_bytes (as_writers s ! n))) (int (length (wr_bytes (as_writers s ! n)))) = Some rows"
    and pc': "pc' \<in> {WDone, WUndo}"
  shows "art_inv hash (goto (s\<lparr>as_rows := rows\<rparr>) n (as_writers s ! n) pc')"
proof -
  let ?w = "as_writers s ! n"
  let ?ws = "(as_writers s)[n := ?w\<lparr>wr_pc := pc'\<rparr>]"
  have g: "art_inv hash (goto s n ?w pc')" by (rule goto_inv[OF inv n]) (use pc pc' in \<open>auto simp: pc_move_def before_rename_def\<close>)
  then have parts: "files_inv ?ws (as_files s)" "writers_inv (as_rows s) ?ws" "rows_inv hash (as_rows s) ?ws"
    by (simp_all add: art_inv_def goto_def set_writer_def)
  have r: "rows = upd_rows (owned_writing (wr_tenant ?w) (wr_id ?w) owner fence)
      (\<lambda>r. r\<lparr>ar_state := StateFinal, ar_sha := hash (wr_bytes ?w), ar_size := int (length (wr_bytes ?w)),
             ar_owner := None, ar_lease := None\<rparr>) (as_rows s)"
    using rows by (simp add: FinalizeCommit_def split: if_split_asm)
  have keys: "map ar_key rows = map ar_key (as_rows s)" unfolding r by (intro map_upd_rows) (simp add: ar_key_def)
  then have ids: "map ar_id rows = map ar_id (as_rows s)" by (simp add: ids_of_keys)
  have "set (map ar_key rows) = set (map ar_key (as_rows s))" using keys by simp
  then have sk: "ar_key ` set rows = ar_key ` set (as_rows s)" by simp
  have plain: "generated (ar_id r') \<and> validateComponent (ar_tenant r')" if m: "r' \<in> set rows" for r'
    using m unfolding r by (rule upd_rowsE) (use parts(3) in \<open>auto simp: rows_inv_def\<close>)
  have "\<exists>w\<in>set ?ws. final_ok hash w r'" if m: "r' \<in> set rows" "ar_state r' = StateFinal" for r'
    using m(1) unfolding r
  proof (rule upd_rowsE)
    fix x assume x: "x \<in> set (as_rows s)" and r': "r' = (if owned_writing (wr_tenant ?w) (wr_id ?w) owner fence x
      then x\<lparr>ar_state := StateFinal, ar_sha := hash (wr_bytes ?w), ar_size := int (length (wr_bytes ?w)),
             ar_owner := None, ar_lease := None\<rparr> else x)"
    show ?thesis
    proof (cases "owned_writing (wr_tenant ?w) (wr_id ?w) owner fence x")
      case True
      then have "final_ok hash (?w\<lparr>wr_pc := pc'\<rparr>) r'"
        using r' pc' by (auto simp: final_ok_def owned_writing_def wr_key_def ar_key_def before_rename_def)
      moreover have "?w\<lparr>wr_pc := pc'\<rparr> \<in> set ?ws" using n by (metis in_set_conv_nth length_list_update nth_list_update_eq)
      ultimately show ?thesis by blast
    next
      case False
      then have "r' = x" using r' by simp
      then show ?thesis using parts(3) x m(2) unfolding rows_inv_def by blast
    qed
  qed
  then show ?thesis using parts plain by (simp add: art_inv_def goto_def set_writer_def writers_inv_def rows_inv_def ids sk)
qed

lemma writer_step_inv:
  assumes inv: "art_inv hash s" and n: "n < length (as_writers s)"
  shows "art_inv hash (writer_step hash s n (as_writers s ! n) ok applied)"
proof (cases "wr_pc (as_writers s ! n)")
  case WVerify
  then show ?thesis using goto_inv[OF inv n] by (simp add: writer_step_def Let_def pc_move_def before_rename_def)
next
  case WSync
  then show ?thesis using goto_inv[OF inv n, of WDropTemp] sync_inv[OF inv n WSync]
    by (simp add: writer_step_def Let_def pc_move_def before_rename_def)
next
  case WSyncDir
  then show ?thesis using goto_inv[OF inv n, of WDropTemp] sync_dir_inv[OF inv n WSyncDir]
    by (simp add: writer_step_def Let_def pc_move_def before_rename_def)
next
  case WRename
  then show ?thesis
    using goto_inv[OF inv n, of WDropTemp] rename_inv[OF inv n WRename]
    by (auto simp: writer_step_def Let_def pc_move_def before_rename_def split: option.split if_split_asm)
next
  case WCommit
  then show ?thesis
    using goto_inv[OF inv n, of WUndo] commit_inv[OF inv n WCommit]
    by (auto simp: writer_step_def Let_def pc_move_def before_rename_def split: option.split if_split_asm)
next
  case WTombstone
  have "art_inv hash (goto (if ok then keep_rows s (UpdateState (as_rows s) t i st reason) else s) n (as_writers s ! n) WDone)"
    for t i st reason
  proof (cases "ok \<and> UpdateState (as_rows s) t i st reason \<noteq> None")
    case True
    then obtain rows where rows: "UpdateState (as_rows s) t i st reason = Some rows" by auto
    have "art_inv hash (s\<lparr>as_rows := rows\<rparr>)" by (rule keep_rows_inv[OF inv UpdateState_kept[OF rows]])
    then show ?thesis using goto_inv[of hash "s\<lparr>as_rows := rows\<rparr>" n WDone] n WTombstone True rows
      by (simp add: keep_rows_def pc_move_def before_rename_def)
  next
    case False
    then show ?thesis using goto_inv[OF inv n, of WDone] WTombstone
      by (auto simp: keep_rows_def pc_move_def before_rename_def)
  qed
  then show ?thesis using WTombstone by (simp add: writer_step_def Let_def)
qed (use inv goto_inv[OF inv n] remove_goto[OF inv n] in
     \<open>auto simp: writer_step_def Let_def pc_move_def before_rename_def split del: if_split\<close>)

lemma begin_inv:
  assumes inv: "art_inv hash s" and i: "generated i" and fresh: "\<not> list_ex (\<lambda>r. ar_id r = i) (as_rows s)"
  shows "art_inv hash (BeginArtifact s m i owner fence now ttl maxb opened)"
proof -
  let ?row = "writing_row m i owner (now + ttl) fence"
  let ?s1 = "s\<lparr>as_rows := as_rows s @ [?row]\<rparr>"
  have row: "ar_id ?row = i" "ar_key ?row = (bm_tenant m, i)" "ar_state ?row = StateWriting" "ar_tenant ?row = bm_tenant m"
    by (simp_all add: writing_row_def ar_key_def)
  have new: "i \<notin> ar_id ` set (as_rows s)" using fresh by (auto simp: list_ex_iff)
  have parts: "files_inv (as_writers s) (as_files s)" "writers_inv (as_rows s) (as_writers s)"
      "rows_inv hash (as_rows s) (as_writers s)" using inv by (simp_all add: art_inv_def)
  have s1: "art_inv hash ?s1" if "validateComponent (bm_tenant m)"
    using parts new i that row by (auto simp: art_inv_def writers_inv_def rows_inv_def)
  let ?w = "\<lparr>wr_tenant = bm_tenant m, wr_id = i, wr_owner = owner, wr_fence = fence, wr_declared = bm_sha m,
             wr_max = maxb, wr_bytes = [], wr_pc = WStream\<rparr>"
  let ?f = "\<lparr>fl_bytes = [], fl_synced = False, fl_linked = False\<rparr>"
  have s2: "art_inv hash (?s1\<lparr>as_files := AList.update (tempPath i) ?f (as_files s), as_writers := as_writers s @ [?w]\<rparr>)"
    if v: "validateComponent (bm_tenant m)"
  proof -
    have "i \<notin> wr_id ` set (as_writers s)"
    proof
      assume "i \<in> wr_id ` set (as_writers s)"
      then obtain v where v: "v \<in> set (as_writers s)" "wr_id v = i" by auto
      obtain r where r: "r \<in> set (as_rows s)" "ar_key r = wr_key v" using inv v(1) by (rule writer_row)
      then have "ar_id r = i" using v(2) by (simp add: ar_key_def wr_key_def)
      then show False using new r(1) by (metis image_eqI)
    qed
    then have "writers_inv (as_rows s @ [?row]) (as_writers s @ [?w])"
      using parts(2) v row by (auto simp: writers_inv_def wr_key_def)
    moreover have "rows_inv hash (as_rows s @ [?row]) (as_writers s @ [?w])"
      using s1[OF v] by (auto simp: art_inv_def rows_inv_def)
    moreover have "files_inv (as_writers s @ [?w]) (AList.update (tempPath i) ?f (as_files s))"
      using parts(1) by (auto simp: files_inv_def distinct_update file_of_def)
    ultimately show ?thesis by (simp add: art_inv_def)
  qed
  show ?thesis using inv s1 s2 by (auto simp: BeginArtifact_def BeginInsert_def Let_def)
qed

lemma rc_inv_core: "art_inv hash (set_rc s k rc) = art_inv hash s"
  by (simp add: set_rc_def art_inv_def)

lemma start_inv_core: "art_inv hash (start_reconcile s now) = art_inv hash s"
  by (simp add: start_reconcile_def art_inv_def)

lemma act_inv: "art_inv hash s \<Longrightarrow> art_inv hash (act s a)"
  by (auto simp: act_def remove_file_inv update_state_inv split: rc_action.split)

lemma rc_step_inv: "art_inv hash s \<Longrightarrow> art_inv hash (rc_step s k rc path ok)"
  by (auto simp: rc_step_def rc_inv_core act_inv split: list.split rc_stage.split option.split if_split_asm
      intro: keep_rows_inv fence_row_kept)

lemma delete_step_inv: "art_inv hash s \<Longrightarrow> art_inv hash (delete_step s k ok)"
  using remove_file_inv[of hash s] by (auto simp: delete_step_def art_inv_def split: list.split)

lemma delete_inv:
  assumes inv: "art_inv hash s"
  shows "art_inv hash (DeleteArtifact s t i)"
proof -
  have "art_inv hash (s\<lparr>as_rows := rows, as_deletes := ds\<rparr>)"
    if "UpdateState (as_rows s) t i StateTombstoned ReasonDeleted = Some rows" for rows ds
    using keep_rows_inv[OF inv UpdateState_kept[OF that]] by (simp add: art_inv_def)
  then show ?thesis using inv by (auto simp: DeleteArtifact_def split: option.split)
qed

lemma power_inv:
  assumes inv: "art_inv hash s"
  shows "art_inv hash (power_loss s lucky)"
proof -
  let ?f = "\<lambda>w. w\<lparr>wr_pc := WDone\<rparr>"
  let ?fs = "filter (\<lambda>(p, f). (fl_synced f \<and> fl_linked f) \<or> p \<in> set lucky) (as_files s)"
  have parts: "files_inv (as_writers s) (as_files s)" "writers_inv (as_rows s) (as_writers s)"
      "rows_inv hash (as_rows s) (as_writers s)" using inv by (simp_all add: art_inv_def)
  have move: "file_of w p f \<Longrightarrow> file_of (?f w) p f" "final_ok hash w r \<Longrightarrow> final_ok hash (?f w) r" for w p f r
    by (auto simp: file_of_def final_ok_def before_rename_def wr_key_def)
  have "distinct (map fst (as_files s))" using parts(1) by (simp add: files_inv_def)
  then have "files_inv (map ?f (as_writers s)) ?fs"
    using parts(1) move(1) lookup_filter unfolding files_inv_def by (force simp: distinct_map_filter)
  moreover have "writers_inv (as_rows s) (map ?f (as_writers s))"
    using parts(2) by (simp add: writers_inv_def comp_def wr_key_def)
  moreover have "rows_inv hash (as_rows s) (map ?f (as_writers s))"
    using parts(3) move(2) unfolding rows_inv_def by fastforce
  ultimately show ?thesis by (simp add: power_loss_def art_inv_def)
qed

lemma art_step_inv: "art_inv hash s \<Longrightarrow> art_inv hash (art_step hash s ev)"
proof (induction ev)
  case (AFinalize n)
  then show ?case
    using goto_inv[OF AFinalize, of n]
    by (auto simp: on_writer_def StartFinalize_def goto_def pc_move_def before_rename_def)
qed (auto simp: on_writer_def on_rc_def write_inv writer_step_inv delete_inv delete_step_inv rc_step_inv power_inv
    begin_inv start_inv_core end_walk_def rc_inv_core pc_move_def before_rename_def intro: goto_inv)

interpretation ar: transition_system "art_step hash" "art_inv hash" for hash
  by unfold_locales (rule art_step_inv)

lemma art_run_ar: "art_run hash evs = ar.run hash empty_art evs"
  by (simp add: art_run_def ar.run_def)

lemma art_run_inv: "art_inv hash (art_run hash evs)"
proof -
  have "art_inv hash empty_art" by (simp add: art_inv_def empty_art_def files_inv_def writers_inv_def rows_inv_def)
  then show ?thesis unfolding art_run_ar by (rule ar.run_inv)
qed

end
