(* ===== verification/ArtifactsProps.thy ===== *)
theory ArtifactsProps
  imports ArtifactsInv
begin

text \<open>
  What the artifact store promises: reads return exactly what a writer committed, a fenced or deleted
  artifact stays gone, committed bytes stay (and what it takes to lose them), and paths cannot be
  steered.
\<close>

section \<open>Paths cannot be steered\<close>

text \<open>
  No caller string becomes a path. A reference that is accepted names one file at depth two below
  the durable root, the one composed from exactly its two parts; two different references never name
  the same file; and no reference names the temporary file of a generated artifact.
\<close>

theorem paths_confined:
  assumes "durablePath t i = Some p" and "durablePath t' i' = Some p'" and "generated i"
  shows "split_on (CHR ''/'') p = [t, i] \<and> list_all (\<lambda>w. w \<notin> {[], ''.'', ''..''}) [t, i] \<and>
    (p = p') = ((t, i) = (t', i')) \<and> (if generated k then p \<noteq> tempPath k else True)"
proof -
  note a = durablePath_Some[OF assms(1)] and b = durablePath_Some[OF assms(2)]
  have plain: "w \<notin> {[], ''.'', ''..''}" if "validateComponent w" for w
    using that by (auto simp: validateComponent_def has_prefix_def)
  have "(p = p') = ((t, i) = (t', i'))"
    using a b storageRel_inject[of t i t' i'] valid_no_slash by auto
  moreover have "split_on (CHR ''/'') p = [t, i]" using a storageRel_parts[of t i] valid_no_slash by simp
  moreover have "p \<noteq> tempPath k" if "generated k" using temp_not_durable[OF that assms(3), of t] a by auto
  ultimately show ?thesis using plain a by simp
qed

definition demo_artifact :: string where
  "demo_artifact = ''art_'' @ replicate 32 (CHR ''0'')"

theorem paths_confined_witness:
  "split_on (CHR ''/'') (''t/'' @ demo_artifact) = [''t'', demo_artifact] \<and> ''t/'' @ demo_artifact \<noteq> ''u/'' @ demo_artifact"
proof -
  have g: "generated demo_artifact" by code_simp
  have v: "validateComponent ''t''" "validateComponent ''u''" by code_simp+
  have p: "durablePath ''t'' demo_artifact = Some (''t/'' @ demo_artifact)"
    "durablePath ''u'' demo_artifact = Some (''u/'' @ demo_artifact)"
    using durablePath_valid[OF v(1) generated_valid[OF g]] durablePath_valid[OF v(2) generated_valid[OF g]]
    by (simp_all add: storageRel_def)
  show ?thesis using paths_confined[OF p g] by simp
qed

section \<open>Reads\<close>

text \<open>
  C4: a read returns what was committed, whole and unchanged. Under every interleaving of writers,
  deletions, reconciliations, failures and power losses, the bytes a read returns are those of one
  writer of this very artifact that had stopped writing; the row is final, and it records their hash
  and their length.
\<close>

theorem read_returns_committed_bytes:
  assumes "ReadArtifact (art_run hash evs) t i = Some bytes"
  shows "list_ex (\<lambda>r. ar_key r = (t, i) \<and> ar_state r = StateFinal \<and> ar_sha r = hash bytes \<and>
        ar_size r = int (length bytes)) (as_rows (art_run hash evs)) \<and>
    list_ex (\<lambda>w. wr_key w = (t, i) \<and> wr_bytes w = bytes \<and> wr_pc w \<noteq> WStream) (as_writers (art_run hash evs))"
proof -
  let ?s = "art_run hash evs"
  have inv: "art_inv hash ?s" by (rule art_run_inv)
  obtain p r f where p: "durablePath t i = Some p" and r: "GetArtifactRow (as_rows ?s) t i = Some r"
      "ar_state r = StateFinal" and f: "map_of (as_files ?s) p = Some f" "bytes = fl_bytes f"
    using assms by (auto simp: ReadArtifact_def split: option.split_asm if_split_asm)
  have row: "r \<in> set (as_rows ?s)" "ar_key r = (t, i)" using find_row_Some[OF r(1)[unfolded GetArtifactRow_def]] by auto
  then obtain w where w: "w \<in> set (as_writers ?s)" "final_ok hash w r"
    using inv r(2) unfolding art_inv_def rows_inv_def by blast
  have key: "wr_tenant w = t" "wr_id w = i" using w(2) row(2) by (auto simp: final_ok_def wr_key_def)
  have "file_of w (storageRel (wr_tenant w) (wr_id w)) f"
    using durable_owner[OF inv w(1)] f(1) durablePath_Some[OF p] key by simp
  then have "fl_bytes f = wr_bytes w" by (simp add: file_of_def)
  then show ?thesis
    using w row r(2) f(2) by (auto simp: list_ex_iff final_ok_def before_rename_def)
qed

text \<open>A run for the witnesses: one artifact written, finalized and read back.\<close>

definition demo_meta :: begin_meta where
  "demo_meta = \<lparr>bm_tenant = ''t'', bm_kind = ''original'', bm_version = 0, bm_sha = [], bm_size = 0, bm_mime = ''text''\<rparr>"

definition demo_writes :: "art_event list" where
  "demo_writes =
     [ABegin demo_meta demo_artifact ''host-1'' 7 100 60 10 True, AWrite 0 ''by'' 2 True, AWrite 0 ''tes'' 3 True,
      AFinalize 0, AWriter 0 True True, AWriter 0 True True, AWriter 0 True True, AWriter 0 True True,
      AWriter 0 True True]"

definition demo_commits :: "art_event list" where
  "demo_commits = demo_writes @ [AWriter 0 True True, AWriter 0 True True]"

theorem read_returns_committed_bytes_witness:
  "ReadArtifact (art_run id demo_commits) ''t'' demo_artifact = Some ''bytes'' \<and>
   list_ex (\<lambda>r. ar_sha r = ''bytes'' \<and> ar_size r = 5) (as_rows (art_run id demo_commits))"
proof -
  have "ReadArtifact (art_run id demo_commits) ''t'' demo_artifact = Some ''bytes''" by code_simp
  from this read_returns_committed_bytes[OF this] show ?thesis by (auto simp: list_ex_iff)
qed

section \<open>Gone is gone\<close>

definition gone :: "string \<times> string \<Rightarrow> art_store \<Rightarrow> bool" where
  "gone k s \<longleftrightarrow> list_ex (\<lambda>r. ar_key r = k \<and> retired_row r) (as_rows s)"

definition art_next :: "artifact_row list \<Rightarrow> artifact_row list \<Rightarrow> bool" where
  "art_next rows rows' \<longleftrightarrow>
     (\<forall>r\<in>set rows. \<exists>r'\<in>set rows'. ar_key r' = ar_key r \<and> (retired_row r \<longrightarrow> retired_row r'))"

lemma art_next_simps [simp]: "art_next rows rows" "art_next rows (rows @ [r])"
  by (auto simp: art_next_def)

lemma art_rows_upd:
  assumes "\<And>r. P r \<Longrightarrow> ar_key (f r) = ar_key r \<and> (retired_row r \<longrightarrow> retired_row (f r))"
  shows "art_next rows (upd_rows P f rows)"
  using upd_rows_in[of _ rows P f] assms unfolding art_next_def by (metis (full_types))

lemma next_UpdateState: "UpdateState rows t i st reason = Some rows' \<Longrightarrow> art_next rows rows'"
  by (auto simp: UpdateState_def retired_row_def ar_key_def split: if_split_asm intro!: art_rows_upd)

lemma next_Invalidate: "InvalidateWriting rows t i owner fence reason = Some rows' \<Longrightarrow> art_next rows rows'"
  by (auto simp: InvalidateWriting_def retired_row_def ar_key_def split: if_split_asm intro!: art_rows_upd)

lemma next_fence: "fence_row rows r = Some rows' \<Longrightarrow> art_next rows rows'"
  by (auto simp: fence_row_def split: option.splits intro: next_Invalidate)

lemma next_commit: "FinalizeCommit rows t i owner fence sha bytes = Some rows' \<Longrightarrow> art_next rows rows'"
  by (auto simp: FinalizeCommit_def retired_row_def owned_writing_def ar_key_def split: if_split_asm
      intro!: art_rows_upd)

lemmas art_next_intros = next_UpdateState next_Invalidate next_fence next_commit

lemma rows_of_moves [simp]:
  "as_rows (set_writer s n w) = as_rows s" "as_rows (goto s n w pc) = as_rows s" "as_rows (remove_file s p) = as_rows s"
  "as_rows (set_rc s k rc) = as_rows s" "as_rows (start_reconcile s now) = as_rows s"
  "as_rows (power_loss s lucky) = as_rows s"
  by (simp_all add: set_writer_def goto_def remove_file_def set_rc_def start_reconcile_def power_loss_def)

lemma next_writer: "art_next (as_rows s) (as_rows (writer_step hash s n w ok applied))"
  by (cases "wr_pc w")
    (auto simp: writer_step_def Let_def keep_rows_def split: option.split intro: art_next_intros)

lemma next_rc: "art_next (as_rows s) (as_rows (rc_step s k rc path ok))"
  by (auto simp: rc_step_def act_def keep_rows_def split: list.split rc_stage.split rc_action.split option.split if_split_asm
      intro: art_next_intros)

lemma next_step: "art_next (as_rows s) (as_rows (art_step hash s ev))"
  by (cases ev)
    (auto simp: on_writer_def on_rc_def BeginArtifact_def BeginInsert_def Let_def WriteChunk_def StartFinalize_def
      DeleteArtifact_def delete_step_def end_walk_def next_writer next_rc split: option.split list.split
      intro: art_next_intros)

lemma gone_step: "gone k s \<Longrightarrow> gone k (art_step hash s ev)"
  using next_step[of s hash ev] by (fastforce simp: gone_def art_next_def list_ex_iff)

text \<open>
  An artifact that was deleted, aborted or fenced stays gone. Once its row is tombstoned, by the
  deletion, by its own writer's abort or by a reconciliation that fenced an expired lease, no later
  step of anybody makes it final again or lets anyone read it: the fenced writer can never commit.
\<close>

theorem retired_artifact_stays_gone:
  assumes "list_ex (\<lambda>r. ar_key r = (t, i) \<and> ar_state r = StateTombstoned) (as_rows (art_run hash evs))"
  shows "let s = art_run hash (evs @ later) in
    ReadArtifact s t i = None \<and> filter (\<lambda>r. ar_key r = (t, i) \<and> ar_state r = StateFinal) (as_rows s) = []"
proof -
  let ?s = "art_run hash (evs @ later)"
  have inv: "art_inv hash ?s" by (rule art_run_inv)
  have "gone (t, i) (ar.run hash (art_run hash evs) later)"
    by (rule ar.run_stable[of hash "gone (t, i)", OF gone_step art_run_inv])
      (use assms in \<open>auto simp: gone_def retired_row_def list_ex_iff\<close>)
  then have "gone (t, i) ?s" by (simp add: art_run_def ar.run_def)
  then obtain r where r: "r \<in> set (as_rows ?s)" "ar_key r = (t, i)" "retired_row r" by (auto simp: gone_def list_ex_iff)
  have d: "distinct (map ar_id (as_rows ?s))" using inv by (simp add: art_inv_def rows_inv_def)
  have none: "x = r" if "x \<in> set (as_rows ?s)" "ar_key x = (t, i)" for x
    using distinct_keys_unique[OF d that(1) r(1)] that(2) r(2) by (simp add: ar_key_def)
  then have "filter (\<lambda>r. ar_key r = (t, i) \<and> ar_state r = StateFinal) (as_rows ?s) = []"
    using r(3) by (auto simp: filter_empty_conv retired_row_def)
  moreover have "ReadArtifact ?s t i = None"
    using none r(3) find_row_Some[of "\<lambda>r. ar_key r = (t, i)" "as_rows ?s"]
    by (auto simp: ReadArtifact_def GetArtifactRow_def retired_row_def split: option.split)
  ultimately show ?thesis by (simp add: Let_def)
qed

theorem retired_artifact_stays_gone_witness:
  "ReadArtifact (art_run id (demo_writes @ [AReconcile 200, AReconcileStep 0 [] True] @ [AWriter 0 True True])) ''t'' demo_artifact = None"
proof -
  have e: "list_ex (\<lambda>r. ar_key r = (''t'', demo_artifact) \<and> ar_state r = StateTombstoned)
      (as_rows (art_run id (demo_writes @ [AReconcile 200, AReconcileStep 0 [] True])))" by code_simp
  show ?thesis using retired_artifact_stays_gone[OF e, of "[AWriter 0 True True]"] by (simp add: Let_def)
qed

end
