(* ===== verification/ArtifactsAvail.thy ===== *)
theory ArtifactsAvail
  imports ArtifactsProps
begin

text \<open>
  Committed bytes stay on disk. The invariant says which removals are still pending and that none of
  them names the file of a committed row; the one reaping the code does without a fence breaks it.
\<close>

section \<open>The invariant\<close>

definition row_path :: "artifact_row \<Rightarrow> string" where
  "row_path r = storageRel (ar_tenant r) (ar_id r)"

definition retired_key :: "string \<times> string \<Rightarrow> artifact_row list \<Rightarrow> bool" where
  "retired_key k rows \<longleftrightarrow> (\<exists>r\<in>set rows. ar_key r = k \<and> retired_row r)"

text \<open>A path that may be removed at any time: a temporary file, or the file of a retired row.\<close>

definition safe_path :: "artifact_row list \<Rightarrow> string \<Rightarrow> bool" where
  "safe_path rows p \<longleftrightarrow> (\<exists>i. generated i \<and> p = tempPath i) \<or> (\<exists>r\<in>set rows. p = row_path r \<and> retired_row r)"

definition present :: "art_fs \<Rightarrow> string \<Rightarrow> bool \<Rightarrow> bool" where
  "present fs p linked \<longleftrightarrow> (\<exists>f. map_of fs p = Some f \<and> (linked \<longrightarrow> fl_linked f))"

definition committed_ok :: "art_store \<Rightarrow> bool" where
  "committed_ok s \<longleftrightarrow>
     (\<forall>r\<in>set (as_rows s). ar_state r = StateFinal \<longrightarrow>
        (\<forall>w\<in>set (as_writers s). wr_key w = ar_key r \<longrightarrow> wr_pc w = WDone) \<and> present (as_files s) (row_path r) True)"

definition committing_ok :: "art_store \<Rightarrow> bool" where
  "committing_ok s \<longleftrightarrow>
     (\<forall>w\<in>set (as_writers s). wr_pc w \<in> {WSyncDir, WCommit} \<longrightarrow>
        retired_key (wr_key w) (as_rows s) \<or>
        present (as_files s) (storageRel (wr_tenant w) (wr_id w)) (wr_pc w = WCommit))"

definition rc_ok :: "artifact_row list \<Rightarrow> reconciler \<Rightarrow> bool" where
  "rc_ok rows rc \<longleftrightarrow>
     (\<forall>p. RemovePath p \<in> set (rc_todo rc) \<longrightarrow> safe_path rows p) \<and>
     (\<forall>r\<in>set (rc_rows rc). generated (ar_id r) \<and> (retired_row r \<longrightarrow> retired_key (ar_key r) rows))"

definition pending_ok :: "art_store \<Rightarrow> bool" where
  "pending_ok s \<longleftrightarrow>
     (\<forall>ps\<in>set (as_deletes s). \<forall>p\<in>set ps. safe_path (as_rows s) p) \<and>
     (\<forall>rc\<in>set (as_reconcilers s). rc_ok (as_rows s) rc)"

definition avail :: "art_store \<Rightarrow> bool" where
  "avail s \<longleftrightarrow> committed_ok s \<and> committing_ok s \<and> pending_ok s"

section \<open>Facts about rows\<close>

lemma inv_row:
  assumes "art_inv hash s" and "r \<in> set (as_rows s)"
  shows "generated (ar_id r)" and "validateComponent (ar_tenant r)"
  using assms unfolding art_inv_def rows_inv_def by blast+

lemma inv_row_unique:
  assumes "art_inv hash s" and "r \<in> set (as_rows s)" and "x \<in> set (as_rows s)" and "ar_id r = ar_id x"
  shows "r = x"
  using assms distinct_keys_unique[of ar_id "as_rows s" r x] unfolding art_inv_def rows_inv_def by blast

lemma row_path_inject:
  assumes "art_inv hash s" and "r \<in> set (as_rows s)" and "x \<in> set (as_rows s)" and "row_path r = row_path x"
  shows "r = x"
proof -
  have "ar_id r = ar_id x"
    using assms(4) inv_row[OF assms(1,2)] inv_row[OF assms(1,3)]
      storageRel_inject[of "ar_tenant r" "ar_id r" "ar_tenant x" "ar_id x"] generated_valid valid_no_slash
    unfolding row_path_def by metis
  then show ?thesis by (rule inv_row_unique[OF assms(1-3)])
qed

lemma row_path_not_temp:
  assumes "art_inv hash s" and "r \<in> set (as_rows s)" and "generated i"
  shows "row_path r \<noteq> tempPath i"
  using temp_not_durable[OF assms(3) inv_row(1)[OF assms(1,2)] inv_row(2)[OF assms(1,2)]] unfolding row_path_def by metis

lemma safe_not_live:
  assumes "art_inv hash s" and "safe_path (as_rows s) (row_path r)" and "r \<in> set (as_rows s)"
  shows "retired_row r"
  using assms row_path_not_temp[OF assms(1,3)] row_path_inject[OF assms(1,3)] unfolding safe_path_def by metis

lemma next_retired: "art_next rows rows' \<Longrightarrow> retired_key k rows \<Longrightarrow> retired_key k rows'"
  unfolding art_next_def retired_key_def by metis

lemma next_safe: "art_next rows rows' \<Longrightarrow> safe_path rows p \<Longrightarrow> safe_path rows' p"
  unfolding art_next_def safe_path_def row_path_def ar_key_def by (metis prod.inject)

lemma next_pending: "art_next (as_rows s) rows \<Longrightarrow> pending_ok s \<Longrightarrow> pending_ok (s\<lparr>as_rows := rows\<rparr>)"
  unfolding pending_ok_def rc_ok_def by (auto intro: next_safe next_retired)

lemma writer_path:
  assumes "ar_key r = wr_key w"
  shows "storageRel (wr_tenant w) (wr_id w) = row_path r"
  using assms by (simp add: row_path_def ar_key_def wr_key_def)

section \<open>How it is kept\<close>

text \<open>The rows whose file must stay.\<close>

definition needed :: "art_store \<Rightarrow> artifact_row \<Rightarrow> bool" where
  "needed s r \<longleftrightarrow>
     \<not> retired_row r \<and>
     (ar_state r = StateFinal \<or> (\<exists>w\<in>set (as_writers s). wr_key w = ar_key r \<and> wr_pc w \<in> {WSyncDir, WCommit}))"

lemma avail_files:
  assumes inv: "art_inv hash s" and av: "avail s"
    and keep: "\<And>r b. r \<in> set (as_rows s) \<Longrightarrow> needed s r \<Longrightarrow> present (as_files s) (row_path r) b \<Longrightarrow> present fs (row_path r) b"
  shows "avail (s\<lparr>as_files := fs\<rparr>)"
proof -
  have "committed_ok (s\<lparr>as_files := fs\<rparr>)"
    using av keep unfolding avail_def committed_ok_def needed_def retired_row_def by auto
  moreover have "retired_key (wr_key w) (as_rows s) \<or> present fs (storageRel (wr_tenant w) (wr_id w)) (wr_pc w = WCommit)"
    if w: "w \<in> set (as_writers s)" "wr_pc w \<in> {WSyncDir, WCommit}" for w
  proof -
    obtain r where r: "r \<in> set (as_rows s)" "ar_key r = wr_key w" using inv w(1) by (rule writer_row)
    consider "retired_key (wr_key w) (as_rows s)" | "present (as_files s) (row_path r) (wr_pc w = WCommit)" "\<not> retired_row r"
      using av w r writer_path[OF r(2)] unfolding avail_def committing_ok_def retired_key_def by metis
    then show ?thesis
    proof cases
      case 2
      then have "needed s r" using w r by (auto simp: needed_def)
      then show ?thesis using keep[OF r(1) _ 2(1)] writer_path[OF r(2)] by simp
    qed simp
  qed
  ultimately show ?thesis using av by (simp add: avail_def committing_ok_def pending_ok_def)
qed

lemma avail_remove:
  assumes "art_inv hash s" and "avail s" and "\<And>r. r \<in> set (as_rows s) \<Longrightarrow> needed s r \<Longrightarrow> row_path r \<noteq> p"
  shows "avail (remove_file s p)"
  unfolding remove_file_def
  by (rule avail_files[OF assms(1,2)]) (use assms(3) in \<open>auto simp: present_def\<close>)

lemma avail_remove_safe:
  assumes "art_inv hash s" and "avail s" and "safe_path (as_rows s) p"
  shows "avail (remove_file s p)"
  by (rule avail_remove[OF assms(1,2)]) (use safe_not_live[OF assms(1)] assms(3) in \<open>auto simp: needed_def\<close>)

lemma avail_kept:
  assumes av: "avail s" and k: "rows_kept (as_rows s) rows" and nx: "art_next (as_rows s) rows"
  shows "avail (s\<lparr>as_rows := rows\<rparr>)"
proof -
  have "committed_ok (s\<lparr>as_rows := rows\<rparr>)"
    using av k unfolding avail_def committed_ok_def rows_kept_def by (simp, metis)
  moreover have "retired_key (wr_key w) rows \<or> present (as_files s) (storageRel (wr_tenant w) (wr_id w)) (wr_pc w = WCommit)"
    if "w \<in> set (as_writers s)" "wr_pc w \<in> {WSyncDir, WCommit}" for w
    using av that next_retired[OF nx, of "wr_key w"] unfolding avail_def committing_ok_def by blast
  then have "committing_ok (s\<lparr>as_rows := rows\<rparr>)" by (simp add: committing_ok_def)
  ultimately show ?thesis using av next_pending[OF nx] by (simp add: avail_def)
qed

lemma avail_update_state: "avail s \<Longrightarrow> avail (keep_rows s (UpdateState (as_rows s) t i st reason))"
  by (auto simp: keep_rows_def split: option.split intro: avail_kept UpdateState_kept next_UpdateState)

lemma avail_writer:
  assumes av: "avail s" and n: "n < length (as_writers s)" and old: "wr_pc (as_writers s ! n) \<noteq> WDone"
    and id: "wr_tenant w' = wr_tenant (as_writers s ! n)" "wr_id w' = wr_id (as_writers s ! n)"
    and com: "wr_pc w' \<in> {WSyncDir, WCommit} \<Longrightarrow>
      present (as_files s) (storageRel (wr_tenant w') (wr_id w')) (wr_pc w' = WCommit) \<or> retired_key (wr_key w') (as_rows s)"
  shows "avail (set_writer s n w')"
proof -
  let ?w = "as_writers s ! n"
  have key: "wr_key w' = wr_key ?w" by (simp add: wr_key_def id)
  have mem: "v = w' \<or> v \<in> set (as_writers s)" if "v \<in> set ((as_writers s)[n := w'])" for v
    using set_update_subset_insert[of "as_writers s" n w'] that by blast
  have "wr_key ?w \<noteq> ar_key r" if "r \<in> set (as_rows s)" "ar_state r = StateFinal" for r
    using av that old nth_mem[OF n] unfolding avail_def committed_ok_def by metis
  then have "wr_pc v = WDone"
    if "r \<in> set (as_rows s)" "ar_state r = StateFinal" "v \<in> set ((as_writers s)[n := w'])" "wr_key v = ar_key r" for r v
    using av mem[OF that(3)] that(1,2,4) key unfolding avail_def committed_ok_def by metis
  then have "committed_ok (set_writer s n w')"
    using av unfolding avail_def committed_ok_def set_writer_def by simp
  moreover have "retired_key (wr_key v) (as_rows s) \<or>
      present (as_files s) (storageRel (wr_tenant v) (wr_id v)) (wr_pc v = WCommit)"
    if "v \<in> set ((as_writers s)[n := w'])" "wr_pc v \<in> {WSyncDir, WCommit}" for v
    using av mem[OF that(1)] com that(2) unfolding avail_def committing_ok_def by blast
  then have "committing_ok (set_writer s n w')" by (simp add: committing_ok_def set_writer_def)
  ultimately show ?thesis using av by (simp add: avail_def pending_ok_def set_writer_def)
qed

lemma avail_goto:
  assumes "avail s" and "n < length (as_writers s)" and "wr_pc (as_writers s ! n) \<noteq> WDone"
    and "pc \<notin> {WSyncDir, WCommit}"
  shows "avail (goto s n (as_writers s ! n) pc)"
  unfolding goto_def by (rule avail_writer[OF assms(1-3)]) (use assms(4) in simp_all)

text \<open>Changing a temporary file touches no committed one.\<close>

lemma avail_temp:
  assumes inv: "art_inv hash s" and av: "avail s" and g: "generated i"
    and same: "\<And>p. p \<noteq> tempPath i \<Longrightarrow> map_of fs p = map_of (as_files s) p"
  shows "avail (s\<lparr>as_files := fs\<rparr>)"
  by (rule avail_files[OF inv av]) (use row_path_not_temp[OF inv _ g] same in \<open>auto simp: present_def\<close>)

lemma writer_generated: "art_inv hash s \<Longrightarrow> n < length (as_writers s) \<Longrightarrow> generated (wr_id (as_writers s ! n))"
  using writer_row[of hash s "as_writers s ! n"] nth_mem by metis

section \<open>The steps of a writer\<close>

lemma own_not_needed:
  assumes inv: "art_inv hash s" and av: "avail s" and w: "w \<in> set (as_writers s)"
    and pc: "wr_pc w \<notin> {WSyncDir, WCommit, WDone}" and r: "r \<in> set (as_rows s)" "needed s r"
  shows "row_path r \<noteq> storageRel (wr_tenant w) (wr_id w)"
proof
  assume e: "row_path r = storageRel (wr_tenant w) (wr_id w)"
  obtain x where x: "x \<in> set (as_rows s)" "ar_key x = wr_key w" using inv w by (rule writer_row)
  have "r = x" by (rule row_path_inject[OF inv r(1) x(1)]) (simp add: e writer_path[OF x(2)])
  then have key: "wr_key w = ar_key r" using x(2) by simp
  have "ar_state r \<noteq> StateFinal" using av w r(1) key pc unfolding avail_def committed_ok_def by blast
  then obtain v where v: "v \<in> set (as_writers s)" "wr_key v = ar_key r" "wr_pc v \<in> {WSyncDir, WCommit}"
    using r(2) by (auto simp: needed_def)
  have "v = w" by (rule same_writer[OF inv v(1) w]) (use v(2) key in \<open>simp add: wr_key_def ar_key_def\<close>)
  then show False using v(3) pc by blast
qed

lemma other_writer:
  assumes inv: "art_inv hash s" and n: "n < length (as_writers s)" and v: "v \<in> set ((as_writers s)[n := w'])"
  obtains "v = w'" | "v \<in> set (as_writers s)" and "wr_id v \<noteq> wr_id (as_writers s ! n)"
proof -
  obtain m where m: "m < length (as_writers s)" "v = (as_writers s)[n := w'] ! m"
    using v by (metis in_set_conv_nth length_list_update)
  have d: "distinct (map wr_id (as_writers s))" using inv by (simp add: art_inv_def writers_inv_def)
  show thesis
  proof (cases "m = n")
    case True
    then show thesis using that(1) m by simp
  next
    case False
    then have "v = as_writers s ! m" using m(2) by simp
    moreover have "map wr_id (as_writers s) ! m \<noteq> map wr_id (as_writers s) ! n"
      using nth_eq_iff_index_eq[OF d] m(1) n False by simp
    ultimately show thesis using that(2) m(1) n by simp
  qed
qed

lemma avail_commit:
  assumes inv: "art_inv hash s" and av: "avail s" and n: "n < length (as_writers s)" and pc: "wr_pc (as_writers s ! n) = WCommit"
    and rows: "FinalizeCommit (as_rows s) (wr_tenant (as_writers s ! n)) (wr_id (as_writers s ! n)) owner fence sha bytes = Some rows"
  shows "avail (goto (s\<lparr>as_rows := rows\<rparr>) n (as_writers s ! n) WDone)"
proof -
  let ?w = "as_writers s ! n"
  let ?P = "owned_writing (wr_tenant ?w) (wr_id ?w) owner fence"
  let ?f = "\<lambda>r. r\<lparr>ar_state := StateFinal, ar_sha := sha, ar_size := bytes, ar_owner := None, ar_lease := None\<rparr>"
  let ?ws = "(as_writers s)[n := ?w\<lparr>wr_pc := WDone\<rparr>]"
  have w: "?w \<in> set (as_writers s)" using n by simp
  have r: "rows = upd_rows ?P ?f (as_rows s)" "count_rows ?P (as_rows s) \<noteq> 0"
    using rows by (simp_all add: FinalizeCommit_def split: if_split_asm)
  obtain x where x: "x \<in> set (as_rows s)" "?P x" using r(2) by (auto simp: count_rows_0_iff)
  have xk: "ar_key x = wr_key ?w" "\<not> retired_row x" using x(2) by (auto simp: owned_writing_def wr_key_def retired_row_def)
  have "\<not> retired_key (wr_key ?w) (as_rows s)"
    using inv_row_unique[OF inv x(1)] xk unfolding retired_key_def by (auto simp: ar_key_def wr_key_def)
  then have here: "present (as_files s) (row_path x) True"
    using av w pc writer_path[OF xk(1)] unfolding avail_def committing_ok_def by fastforce
  have nx: "art_next (as_rows s) rows" by (rule next_commit[OF rows])
  have pcs: "wr_pc v = WDone" if v: "v \<in> set ?ws" and k: "wr_key v = ar_key y" and y: "y \<in> set (as_rows s)"
      "ar_state y = StateFinal \<or> ?P y" for v y
  proof -
    consider "v = ?w\<lparr>wr_pc := WDone\<rparr>" | "v \<in> set (as_writers s)" "wr_id v \<noteq> wr_id ?w"
      using v by (rule other_writer[OF inv n]) blast+
    then show ?thesis
    proof cases
      case 2
      have "\<not> ?P y" using 2(2) k by (auto simp: owned_writing_def wr_key_def)
      then show ?thesis using av 2(1) k y unfolding avail_def committed_ok_def by metis
    qed simp
  qed
  have "(\<forall>v\<in>set ?ws. wr_key v = ar_key y' \<longrightarrow> wr_pc v = WDone) \<and> present (as_files s) (row_path y') True"
    if y': "y' \<in> set rows" "ar_state y' = StateFinal" for y'
    using y'(1) unfolding r(1)
  proof (rule upd_rowsE)
    fix y assume y: "y \<in> set (as_rows s)" "y' = (if ?P y then ?f y else y)"
    have k: "ar_key y' = ar_key y" "row_path y' = row_path y" using y(2) by (auto simp: ar_key_def row_path_def)
    have f: "ar_state y = StateFinal \<or> ?P y" using y(2) y'(2) by (auto split: if_split_asm)
    have "present (as_files s) (row_path y) True"
    proof (cases "?P y")
      case True
      then have "y = x" using inv_row_unique[OF inv y(1) x(1)] x(2) by (simp add: owned_writing_def ar_key_def)
      then show ?thesis using here by simp
    next
      case False
      then show ?thesis using f y(1) av unfolding avail_def committed_ok_def by blast
    qed
    then show ?thesis using pcs[OF _ _ y(1) f] k by simp
  qed
  then have "committed_ok (goto (s\<lparr>as_rows := rows\<rparr>) n ?w WDone)"
    by (simp add: committed_ok_def goto_def set_writer_def)
  moreover have "retired_key (wr_key v) rows \<or> present (as_files s) (storageRel (wr_tenant v) (wr_id v)) (wr_pc v = WCommit)"
    if v: "v \<in> set ?ws" "wr_pc v \<in> {WSyncDir, WCommit}" for v
  proof -
    have "v \<in> set (as_writers s)" using v set_update_subset_insert[of "as_writers s" n] by fastforce
    then show ?thesis using av v(2) next_retired[OF nx, of "wr_key v"] unfolding avail_def committing_ok_def by blast
  qed
  then have "committing_ok (goto (s\<lparr>as_rows := rows\<rparr>) n ?w WDone)"
    by (simp add: committing_ok_def goto_def set_writer_def)
  moreover have "pending_ok (goto (s\<lparr>as_rows := rows\<rparr>) n ?w WDone)"
    using next_pending[OF nx] av by (simp add: avail_def pending_ok_def goto_def set_writer_def)
  ultimately show ?thesis by (simp add: avail_def)
qed

lemma avail_rename:
  assumes inv: "art_inv hash s" and av: "avail s" and n: "n < length (as_writers s)" and pc: "wr_pc (as_writers s ! n) = WRename"
    and fs: "rename_temp (as_files s) (wr_tenant (as_writers s ! n)) (wr_id (as_writers s ! n)) = Some fs"
  shows "avail (goto (s\<lparr>as_files := fs\<rparr>) n (as_writers s ! n) WSyncDir)"
proof -
  let ?w = "as_writers s ! n"
  obtain f0 where fs': "fs = AList.update (storageRel (wr_tenant ?w) (wr_id ?w)) (f0\<lparr>fl_linked := False\<rparr>)
      (AList.delete (tempPath (wr_id ?w)) (as_files s))"
    using fs by (auto simp: rename_temp_def split: option.split_asm)
  have "avail (s\<lparr>as_files := fs\<rparr>)"
    by (rule avail_files[OF inv av])
      (use own_not_needed[OF inv av writer_in[OF n]] pc row_path_not_temp[OF inv _ writer_generated[OF inv n]] in
        \<open>auto simp: fs' present_def\<close>)
  then show ?thesis
    unfolding goto_def by (rule avail_writer) (use n pc in \<open>auto simp: fs' present_def\<close>)
qed

lemma present_sync_dir:
  assumes "present fs p b"
  shows "present (sync_dir fs t) p b" and "hd (split_on (CHR ''/'') p) = t \<Longrightarrow> present (sync_dir fs t) p True"
proof -
  obtain f where f: "map_of fs p = Some f" "b \<longrightarrow> fl_linked f" using assms by (auto simp: present_def)
  let ?f = "if hd (split_on (CHR ''/'') p) = t then f\<lparr>fl_linked := True\<rparr> else f"
  have "map_of (sync_dir fs t) p = Some ?f" by (simp only: lookup_sync_dir f(1) option.map)
  then show "present (sync_dir fs t) p b" and "hd (split_on (CHR ''/'') p) = t \<Longrightarrow> present (sync_dir fs t) p True"
    using f(2) by (auto simp: present_def)
qed

lemma avail_sync_dir:
  assumes inv: "art_inv hash s" and av: "avail s" and n: "n < length (as_writers s)" and pc: "wr_pc (as_writers s ! n) = WSyncDir"
  shows "avail (goto (s\<lparr>as_files := sync_dir (as_files s) (wr_tenant (as_writers s ! n))\<rparr>) n (as_writers s ! n) WCommit)"
proof -
  let ?w = "as_writers s ! n"
  let ?fs = "sync_dir (as_files s) (wr_tenant ?w)"
  have "avail (s\<lparr>as_files := ?fs\<rparr>)"
    by (rule avail_files[OF inv av present_sync_dir(1)])
  moreover have "hd (split_on (CHR ''/'') (storageRel (wr_tenant ?w) (wr_id ?w))) = wr_tenant ?w"
    using writer_row[OF inv writer_in[OF n]] storageRel_parts[of "wr_tenant ?w" "wr_id ?w"] generated_valid valid_no_slash
    by (metis list.sel(1))
  then have "present ?fs (storageRel (wr_tenant ?w) (wr_id ?w)) True \<or> retired_key (wr_key ?w) (as_rows s)"
    using av pc writer_in[OF n] present_sync_dir(2) unfolding avail_def committing_ok_def by blast
  ultimately show ?thesis
    unfolding goto_def by (intro avail_writer) (use n pc in \<open>auto simp: wr_key_def\<close>)
qed

lemma avail_writer_step:
  assumes inv: "art_inv hash s" and av: "avail s" and n: "n < length (as_writers s)"
    and calm: "\<not> (wr_pc (as_writers s ! n) = WCommit \<and> applied \<and> \<not> ok)"
  shows "avail (writer_step hash s n (as_writers s ! n) ok applied)"
proof (cases "wr_pc (as_writers s ! n)")
  case WSync
  have "avail (s\<lparr>as_files := sync_temp (as_files s) (wr_id (as_writers s ! n))\<rparr>)"
    by (rule avail_temp[OF inv av writer_generated[OF inv n]]) (simp add: sync_temp_def split: option.split)
  from avail_goto[OF this, of n WClose] show ?thesis
    using avail_goto[OF av n, of WDropTemp] n WSync by (simp add: writer_step_def Let_def)
next
  case WRename
  then show ?thesis using avail_goto[OF av n, of WDropTemp] avail_rename[OF inv av n WRename]
    by (auto simp: writer_step_def Let_def split: option.split if_split_asm)
next
  case WSyncDir
  then show ?thesis using avail_goto[OF av n, of WDropTemp] avail_sync_dir[OF inv av n WSyncDir]
    by (simp add: writer_step_def Let_def)
next
  case WCommit
  then show ?thesis using avail_goto[OF av n, of WUndo] avail_commit[OF inv av n WCommit] calm
    by (auto simp: writer_step_def Let_def split: option.split if_split_asm)
next
  case WTombstone
  let ?s1 = "if ok then keep_rows s (UpdateState (as_rows s) (wr_tenant (as_writers s ! n)) (wr_id (as_writers s ! n))
      StateTombstoned ReasonWriteAborted) else s"
  have "avail ?s1" using av avail_update_state by simp
  moreover have "as_writers ?s1 = as_writers s" by (simp add: keep_rows_def split: option.split)
  ultimately have "avail (goto ?s1 n (as_writers s ! n) WDone)"
    using avail_goto[of ?s1 n WDone] n WTombstone by simp
  then show ?thesis using WTombstone by (simp add: writer_step_def Let_def)
next
  case WDropTemp
  have "avail (remove_file s (tempPath (wr_id (as_writers s ! n))))"
    by (rule avail_remove_safe[OF inv av]) (use writer_generated[OF inv n] in \<open>auto simp: safe_path_def\<close>)
  from avail_goto[OF this, of n WDropDurable] show ?thesis
    using avail_goto[OF av n, of WDropDurable] n WDropTemp by (simp add: writer_step_def Let_def remove_file_def)
next
  case WUndo
  have "avail (remove_file s (storageRel (wr_tenant (as_writers s ! n)) (wr_id (as_writers s ! n))))"
    by (rule avail_remove[OF inv av]) (use own_not_needed[OF inv av writer_in[OF n]] WUndo in auto)
  from avail_goto[OF this, of n WDropTemp] show ?thesis
    using avail_goto[OF av n, of WDropTemp] n WUndo by (simp add: writer_step_def Let_def remove_file_def)
next
  case WDropDurable
  have "avail (remove_file s (storageRel (wr_tenant (as_writers s ! n)) (wr_id (as_writers s ! n))))"
    by (rule avail_remove[OF inv av]) (use own_not_needed[OF inv av writer_in[OF n]] WDropDurable in auto)
  from avail_goto[OF this, of n WTombstone] show ?thesis
    using avail_goto[OF av n, of WTombstone] n WDropDurable by (simp add: writer_step_def Let_def remove_file_def)
qed (use av avail_goto[OF av n] in \<open>simp_all add: writer_step_def Let_def\<close>)

section \<open>The other steps\<close>

lemma avail_write:
  assumes inv: "art_inv hash s" and av: "avail s" and n: "n < length (as_writers s)" and pc: "wr_pc (as_writers s ! n) = WStream"
  shows "avail (WriteChunk s n (as_writers s ! n) chunk k ok)"
proof -
  let ?w = "as_writers s ! n"
  have "avail (set_writer (s\<lparr>as_files := append_temp (as_files s) (wr_id ?w) (take k chunk)\<rparr>) n w')"
    if "wr_pc w' \<in> {WStream, WDropTemp}" "wr_tenant w' = wr_tenant ?w" "wr_id w' = wr_id ?w" for w'
  proof (rule avail_writer)
    show "avail (s\<lparr>as_files := append_temp (as_files s) (wr_id ?w) (take k chunk)\<rparr>)"
      by (rule avail_temp[OF inv av writer_generated[OF inv n]]) (simp add: append_temp_def split: option.split)
  qed (use that n pc in auto)
  then show ?thesis using avail_goto[OF av n, of WDropTemp] pc by (simp add: WriteChunk_def goto_def)
qed

lemma avail_append_row:
  assumes inv: "art_inv hash s" and av: "avail s" and st: "ar_state row = StateWriting" and new: "ar_id row \<notin> ar_id ` set (as_rows s)"
  shows "avail (s\<lparr>as_rows := as_rows s @ [row]\<rparr>)"
proof -
  have "committed_ok (s\<lparr>as_rows := as_rows s @ [row]\<rparr>)" using av st by (simp add: avail_def committed_ok_def)
  moreover have "retired_key (wr_key w) (as_rows s @ [row]) \<or>
      present (as_files s) (storageRel (wr_tenant w) (wr_id w)) (wr_pc w = WCommit)"
    if "w \<in> set (as_writers s)" "wr_pc w \<in> {WSyncDir, WCommit}" for w
    using av that next_retired[of "as_rows s" "as_rows s @ [row]" "wr_key w"]
    unfolding avail_def committing_ok_def by (metis art_next_simps(2))
  then have "committing_ok (s\<lparr>as_rows := as_rows s @ [row]\<rparr>)" by (simp add: committing_ok_def)
  ultimately show ?thesis using next_pending[OF art_next_simps(2)] av by (simp add: avail_def)
qed

lemma avail_begin:
  assumes inv: "art_inv hash s" and av: "avail s" and i: "generated i" and fresh: "\<not> list_ex (\<lambda>r. ar_id r = i) (as_rows s)"
  shows "avail (BeginArtifact s m i owner fence now ttl maxb opened)"
proof (cases "validateComponent (bm_tenant m) \<and> bm_kind m \<in> {''original'', ''result'', ''derived''} \<and> 0 < maxb")
  case False
  then show ?thesis using av by (auto simp: BeginArtifact_def)
next
  case True
  let ?row = "writing_row m i owner (now + ttl) fence"
  let ?s1 = "s\<lparr>as_rows := as_rows s @ [?row]\<rparr>"
  have row: "ar_id ?row = i" "ar_state ?row = StateWriting" by (simp_all add: writing_row_def)
  have av1: "avail ?s1" by (rule avail_append_row[OF inv av]) (use row fresh in \<open>auto simp: list_ex_iff\<close>)
  let ?w = "\<lparr>wr_tenant = bm_tenant m, wr_id = i, wr_owner = owner, wr_fence = fence, wr_declared = bm_sha m,
             wr_max = maxb, wr_bytes = [], wr_pc = WStream\<rparr>"
  let ?fs = "AList.update (tempPath i) \<lparr>fl_bytes = [], fl_synced = False, fl_linked = False\<rparr> (as_files s)"
  have inv1: "art_inv hash ?s1"
    using begin_inv[OF inv i fresh, of m owner fence now ttl maxb False] True fresh row(1)
    by (auto simp: BeginArtifact_def BeginInsert_def list_ex_iff ar_key_def split: if_split_asm)
  have av2: "avail (?s1\<lparr>as_files := ?fs\<rparr>)" by (rule avail_temp[OF inv1 av1 i]) simp
  have "wr_key ?w \<noteq> ar_key r" if "r \<in> set (as_rows ?s1)" "ar_state r = StateFinal" for r
    using that fresh row by (auto simp: list_ex_iff ar_key_def wr_key_def)
  then have "avail (?s1\<lparr>as_files := ?fs, as_writers := as_writers s @ [?w]\<rparr>)"
    using av2 by (auto simp: avail_def committed_ok_def committing_ok_def pending_ok_def)
  then show ?thesis using av av1 by (auto simp: BeginArtifact_def BeginInsert_def Let_def)
qed

lemma avail_pending:
  "avail s \<Longrightarrow> pending_ok (s\<lparr>as_deletes := ds, as_reconcilers := rcs\<rparr>) \<Longrightarrow>
   avail (s\<lparr>as_deletes := ds, as_reconcilers := rcs\<rparr>)"
  by (simp add: avail_def committed_ok_def committing_ok_def)

lemma retired_key_upd:
  "x \<in> set rows \<Longrightarrow> P x \<Longrightarrow> ar_key (f x) = k \<Longrightarrow> retired_row (f x) \<Longrightarrow> retired_key k (upd_rows P f rows)"
  using upd_rows_in[of x rows P f] by (auto simp: retired_key_def)

lemma UpdateState_retires:
  assumes "UpdateState rows t i st reason = Some rows'"
  shows "retired_key (t, i) rows'"
proof -
  have c: "count_rows (\<lambda>r. ar_key r = (t, i)) rows \<noteq> 0" "st \<in> {StateDeleting, StateTombstoned}"
    using assms by (auto simp: UpdateState_def split: if_split_asm)
  then obtain r where "r \<in> set rows" "ar_key r = (t, i)" by (auto simp: count_rows_0_iff)
  then show ?thesis
    using assms c(2) by (auto simp: UpdateState_def retired_row_def ar_key_def split: if_split_asm intro!: retired_key_upd[of r])
qed

lemma retired_key_safe: "retired_key (t, i) rows \<Longrightarrow> safe_path rows (storageRel t i)"
  by (auto simp: retired_key_def safe_path_def row_path_def ar_key_def)

lemma avail_delete:
  assumes inv: "art_inv hash s" and av: "avail s"
  shows "avail (DeleteArtifact s t i)"
proof -
  have "avail (s\<lparr>as_rows := rows, as_deletes := as_deletes s @ [[storageRel t i, tempPath i]]\<rparr>)"
    if u: "UpdateState (as_rows s) t i StateTombstoned ReasonDeleted = Some rows"
      and r: "GetArtifactRow (as_rows s) t i = Some r" for rows r
  proof -
    have "generated i"
      using inv_row(1)[OF inv] find_row_Some[OF r[unfolded GetArtifactRow_def]] by (auto simp: ar_key_def)
    then have t: "safe_path rows (tempPath i)" by (auto simp: safe_path_def)
    have av1: "avail (s\<lparr>as_rows := rows\<rparr>)" by (rule avail_kept[OF av UpdateState_kept[OF u] next_UpdateState[OF u]])
    have "avail ((s\<lparr>as_rows := rows\<rparr>)\<lparr>as_deletes := as_deletes s @ [[storageRel t i, tempPath i]], as_reconcilers := as_reconcilers s\<rparr>)"
      by (rule avail_pending[OF av1])
        (use av1 t retired_key_safe[OF UpdateState_retires[OF u]] in \<open>auto simp: avail_def pending_ok_def\<close>)
    then show ?thesis by simp
  qed
  then show ?thesis using av by (auto simp: DeleteArtifact_def split: option.split dest: durablePath_Some)
qed

lemma avail_delete_step:
  assumes inv: "art_inv hash s" and av: "avail s"
  shows "avail (delete_step s k ok)"
proof (cases "k < length (as_deletes s) \<and> as_deletes s ! k \<noteq> []")
  case False
  then show ?thesis using av by (auto simp: delete_step_def split: list.split)
next
  case True
  then obtain p ps where p: "as_deletes s ! k = p # ps" by (auto simp: neq_Nil_conv)
  then have safe: "\<forall>q\<in>set (p # ps). safe_path (as_rows s) q"
    using av True nth_mem[of k "as_deletes s"] unfolding avail_def pending_ok_def by metis
  let ?s1 = "if ok then remove_file s p else s"
  have av1: "avail ?s1" using av avail_remove_safe[OF inv av, of p] safe by simp
  have same: "as_deletes ?s1 = as_deletes s" "as_rows ?s1 = as_rows s" "as_reconcilers ?s1 = as_reconcilers s"
    by (simp_all add: remove_file_def)
  have "pending_ok (?s1\<lparr>as_deletes := (as_deletes s)[k := ps], as_reconcilers := as_reconcilers s\<rparr>)"
    using av safe set_update_subset_insert[of "as_deletes s" k ps] same(2)
    unfolding avail_def pending_ok_def by fastforce
  from avail_pending[OF av1 this] show ?thesis using True p by (cases ok) (simp_all add: delete_step_def remove_file_def)
qed

section \<open>Reconciliations\<close>

lemma avail_set_rc:
  assumes "avail s" and "rc_ok (as_rows s) rc"
  shows "avail (set_rc s k rc)"
proof -
  have "avail (s\<lparr>as_deletes := as_deletes s, as_reconcilers := (as_reconcilers s)[k := rc]\<rparr>)"
    by (rule avail_pending[OF assms(1)])
      (use assms set_update_subset_insert[of "as_reconcilers s" k rc] in \<open>fastforce simp: avail_def pending_ok_def\<close>)
  then show ?thesis by (simp add: set_rc_def)
qed

lemma avail_rc_ok: "avail s \<Longrightarrow> k < length (as_reconcilers s) \<Longrightarrow> rc_ok (as_rows s) (as_reconcilers s ! k)"
  by (simp add: avail_def pending_ok_def)

lemma fence_retires: "fence_row rows r = Some rows' \<Longrightarrow> retired_key (ar_tenant r, ar_id r) rows'"
proof -
  assume f: "fence_row rows r = Some rows'"
  then obtain w where w: "InvalidateWriting rows (ar_tenant r) (ar_id r) w (ar_fence r) ReasonExpiredWriteLease = Some rows'"
    by (auto simp: fence_row_def split: option.split_asm)
  let ?P = "owned_writing (ar_tenant r) (ar_id r) w (ar_fence r)"
  have "count_rows ?P rows \<noteq> 0" using w by (simp add: InvalidateWriting_def split: if_split_asm)
  then obtain x where "x \<in> set rows" "?P x" by (auto simp: count_rows_0_iff)
  then show ?thesis
    using w by (auto simp: InvalidateWriting_def retired_row_def ar_key_def owned_writing_def split: if_split_asm
        intro!: retired_key_upd[of x])
qed

lemma avail_act:
  assumes "art_inv hash s" and "avail s" and "\<And>p. a = RemovePath p \<Longrightarrow> safe_path (as_rows s) p"
  shows "avail (act s a)"
  using avail_remove_safe[OF assms(1,2)] avail_update_state[OF assms(2)] assms(3) by (cases a) (simp_all add: act_def)

lemma next_act: "art_next (as_rows s) (as_rows (act s a))"
  by (cases a) (auto simp: act_def keep_rows_def split: option.split intro: next_UpdateState)

lemma rc_ok_next: "art_next rows rows' \<Longrightarrow> rc_ok rows rc \<Longrightarrow> rc_ok rows' rc"
  unfolding rc_ok_def by (auto intro: next_safe next_retired)

text \<open>The reaping that is not covered by a fence: the file of a row seen as writing.\<close>

definition unfenced :: "art_store \<Rightarrow> reconciler \<Rightarrow> string \<Rightarrow> bool" where
  "unfenced s rc path \<longleftrightarrow>
     rc_stage rc = RWalk \<and> rc_todo rc = [] \<and> map_of (as_files s) path \<noteq> None \<and>
     list_ex (\<lambda>r. ar_state r = StateWriting \<and> row_path r = path \<and> \<not> live_lease r (rc_now rc)) (as_rows s)"

lemma walk_safe:
  assumes inv: "art_inv hash s" and f: "map_of (as_files s) path \<noteq> None" and st: "\<not> in_staging path"
    and k: "\<not> keeps_file (as_rows s) now path"
    and uf: "\<not> list_ex (\<lambda>r. ar_state r = StateWriting \<and> row_path r = path \<and> \<not> live_lease r now) (as_rows s)"
  shows "safe_path (as_rows s) path"
proof -
  obtain f where "map_of (as_files s) path = Some f" using f by auto
  then obtain v where v: "v \<in> set (as_writers s)" "file_of v path f" using file_owner[OF inv] by metis
  have p: "path = storageRel (wr_tenant v) (wr_id v)"
    using v(2) st temp_staging[of "wr_id v"] unfolding file_of_def by metis
  obtain r where r: "r \<in> set (as_rows s)" "ar_key r = wr_key v" "generated (wr_id v)" "validateComponent (wr_tenant v)"
    using inv v(1) by (rule writer_row)
  note vi = generated_valid[OF r(3)]
  have rp: "row_path r = path" using writer_path[OF r(2)] p by simp
  have two: "two_parts path = Some (wr_tenant v, wr_id v)"
    using storageRel_parts[OF valid_no_slash[OF r(4)] valid_no_slash[OF vi]] by (simp add: two_parts_def p)
  have "find_row (\<lambda>r. ar_key r = (wr_tenant v, wr_id v)) (as_rows s) = Some r"
    by (rule find_row_unique[of ar_id _ _ _ "wr_id v"])
      (use inv r in \<open>auto simp: art_inv_def rows_inv_def ar_key_def wr_key_def\<close>)
  then have "ar_state r \<noteq> StateFinal" "ar_state r = StateWriting \<Longrightarrow> \<not> live_lease r now"
    using k two r(4) vi by (auto simp: keeps_file_def GetArtifactRow_def)
  then have "retired_row r" using uf r(1) rp by (cases "ar_state r") (auto simp: list_ex_iff retired_row_def)
  then show ?thesis using r(1) rp by (auto simp: safe_path_def)
qed

lemma avail_rc_step:
  assumes inv: "art_inv hash s" and av: "avail s" and k: "k < length (as_reconcilers s)"
    and calm: "\<not> unfenced s (as_reconcilers s ! k) path"
  shows "avail (rc_step s k (as_reconcilers s ! k) path ok)"
proof -
  let ?rc = "as_reconcilers s ! k"
  have rc: "rc_ok (as_rows s) ?rc" by (rule avail_rc_ok[OF av k])
  show ?thesis
  proof (cases "rc_todo ?rc")
    case (Cons a as)
    let ?s1 = "if ok then act s a else s"
    have "avail ?s1" using av avail_act[OF inv av, of a] rc Cons by (auto simp: rc_ok_def)
    moreover have "art_next (as_rows s) (as_rows ?s1)" using next_act by simp
    then have "rc_ok (as_rows ?s1) (?rc\<lparr>rc_todo := as\<rparr>)"
      using rc_ok_next rc Cons by (auto simp: rc_ok_def intro: next_safe next_retired)
    ultimately show ?thesis using Cons avail_set_rc by (simp add: rc_step_def)
  next
    case Nil
    show ?thesis
    proof (cases "rc_stage ?rc")
      case RFence
      show ?thesis
      proof (cases "rc_rows ?rc")
        case (Cons r rs)
        have skip: "avail (set_rc s k (?rc\<lparr>rc_rows := rs\<rparr>))"
          by (rule avail_set_rc[OF av]) (use rc Cons in \<open>auto simp: rc_ok_def\<close>)
        have "avail (set_rc (s\<lparr>as_rows := rows\<rparr>) k (?rc\<lparr>rc_rows := rs, rc_todo := removeOwned r\<rparr>))"
          if f: "fence_row (as_rows s) r = Some rows" for rows
        proof (rule avail_set_rc)
          note nx = next_fence[OF f]
          show "avail (s\<lparr>as_rows := rows\<rparr>)" by (rule avail_kept[OF av fence_row_kept[OF f] nx])
          have "generated (ar_id r)" using rc Cons by (simp add: rc_ok_def)
          then have "\<forall>p. RemovePath p \<in> set (removeOwned r) \<longrightarrow> safe_path rows p"
            using retired_key_safe[OF fence_retires[OF f]]
            by (auto simp: removeOwned_def safe_path_def split: option.splits dest: durablePath_Some[OF sym])
          then show "rc_ok (as_rows (s\<lparr>as_rows := rows\<rparr>)) (?rc\<lparr>rc_rows := rs, rc_todo := removeOwned r\<rparr>)"
            using rc_ok_next[OF nx rc] Cons by (auto simp: rc_ok_def)
        qed
        then show ?thesis using skip Nil RFence Cons by (auto simp: rc_step_def split: option.split)
      qed (use Nil RFence avail_set_rc[OF av] rc in \<open>simp add: rc_step_def rc_ok_def\<close>)
    next
      case RWalk
      show ?thesis
      proof (cases "map_of (as_files s) path = None \<or> in_staging path \<or> \<not> ok \<or> keeps_file (as_rows s) (rc_now ?rc) path")
        case True
        then show ?thesis using Nil RWalk av by (auto simp: rc_step_def)
      next
        case False
        then have "safe_path (as_rows s) path"
          using walk_safe[OF inv, of path "rc_now ?rc"] calm RWalk Nil by (auto simp: unfenced_def)
        then have "avail (set_rc s k (?rc\<lparr>rc_todo := [RemovePath path]\<rparr>))"
          by (intro avail_set_rc[OF av]) (use rc in \<open>auto simp: rc_ok_def\<close>)
        then show ?thesis using Nil RWalk False by (auto simp: rc_step_def)
      qed
    next
      case RRows
      show ?thesis
      proof (cases "rc_rows ?rc")
        case (Cons r rs)
        have "safe_path (as_rows s) p" if "RemovePath p \<in> set (check_row (as_files s) r ok)" for p
          using that rc Cons retired_key_safe[of "ar_tenant r" "ar_id r" "as_rows s"]
          by (auto simp: check_row_def rc_ok_def retired_row_def ar_key_def split: option.split_asm if_split_asm dest: durablePath_Some[OF sym])
        then have "avail (set_rc s k (?rc\<lparr>rc_rows := rs, rc_todo := check_row (as_files s) r ok\<rparr>))"
          by (intro avail_set_rc[OF av]) (use rc Cons in \<open>auto simp: rc_ok_def\<close>)
        then show ?thesis using Nil RRows Cons by (simp add: rc_step_def)
      qed (use Nil RRows avail_set_rc[OF av] rc in \<open>simp add: rc_step_def rc_ok_def\<close>)
    qed (use Nil av in \<open>simp add: rc_step_def\<close>)
  qed
qed

section \<open>Every calm step\<close>

text \<open>
  The two hazards: reaping without a fence, and a commit that takes effect but reports an error.
\<close>

definition hazard :: "art_store \<Rightarrow> art_event \<Rightarrow> bool" where
  "hazard s ev =
     (case ev of
        AReconcileStep k path _ \<Rightarrow> k < length (as_reconcilers s) \<and> unfenced s (as_reconcilers s ! k) path
      | AWriter n ok applied \<Rightarrow>
          n < length (as_writers s) \<and> wr_pc (as_writers s ! n) = WCommit \<and> applied \<and> \<not> ok
      | _ \<Rightarrow> False)"

fun calm_run :: "(string \<Rightarrow> string) \<Rightarrow> art_store \<Rightarrow> art_event list \<Rightarrow> bool" where
  "calm_run hash s [] = True"
| "calm_run hash s (ev # evs) = (\<not> hazard s ev \<and> calm_run hash (art_step hash s ev) evs)"

lemma avail_power:
  assumes inv: "art_inv hash s" and av: "avail s"
  shows "avail (power_loss s lucky)"
proof -
  let ?Q = "\<lambda>(p, f). (fl_synced f \<and> fl_linked f) \<or> p \<in> set lucky"
  have d: "distinct (map fst (as_files s))" by (rule files_distinct[OF inv])
  have "present (filter ?Q (as_files s)) (row_path r) True" if r: "r \<in> set (as_rows s)" "ar_state r = StateFinal" for r
  proof -
    obtain f where f: "map_of (as_files s) (row_path r) = Some f" "fl_linked f"
      using av r unfolding avail_def committed_ok_def present_def by blast
    obtain w where w: "w \<in> set (as_writers s)" "final_ok hash w r"
      using inv r unfolding art_inv_def rows_inv_def by blast
    have p: "storageRel (wr_tenant w) (wr_id w) = row_path r" using w(2) by (intro writer_path) (simp add: final_ok_def)
    have "fl_synced f"
      using durable_owner[OF inv w(1)] f(1) p inv_row[OF inv r(1)] temp_not_durable[of "wr_id w" "wr_id w" "wr_tenant w"]
        writer_row[OF inv w(1)] unfolding file_of_def by metis
    then have "map_of (filter ?Q (as_files s)) (row_path r) = Some f"
      using f d by (simp add: map_of_eq_Some_iff distinct_map_filter)
    then show ?thesis using f(2) by (simp add: present_def)
  qed
  then show ?thesis
    using av by (auto simp: avail_def committed_ok_def committing_ok_def pending_ok_def power_loss_def)
qed

lemma avail_start:
  assumes inv: "art_inv hash s" and av: "avail s"
  shows "avail (start_reconcile s now)"
proof -
  have "avail (s\<lparr>as_deletes := as_deletes s, as_reconcilers := as_reconcilers (start_reconcile s now)\<rparr>)"
    by (rule avail_pending[OF av])
      (use av inv_row(1)[OF inv] in
        \<open>auto simp: avail_def pending_ok_def start_reconcile_def rc_ok_def ListExpiredWriting_def retired_row_def\<close>)
  then show ?thesis by (simp add: start_reconcile_def)
qed

lemma avail_end_walk:
  assumes inv: "art_inv hash s" and av: "avail s" and k: "k < length (as_reconcilers s)"
  shows "avail (end_walk s k (as_reconcilers s ! k) ok)"
proof -
  have "rc_ok (as_rows s) ((as_reconcilers s ! k)\<lparr>rc_stage := RRows, rc_rows := ListFinalPaths (as_rows s)\<rparr>)"
    using avail_rc_ok[OF av k] inv_row(1)[OF inv] by (auto simp: rc_ok_def ListFinalPaths_def retired_key_def)
  moreover have "rc_ok (as_rows s) ((as_reconcilers s ! k)\<lparr>rc_stage := REnd\<rparr>)"
    using avail_rc_ok[OF av k] by (simp add: rc_ok_def)
  ultimately show ?thesis using av avail_set_rc[OF av] by (simp add: end_walk_def)
qed

lemma avail_step:
  assumes inv: "art_inv hash s" and av: "avail s" and calm: "\<not> hazard s ev"
  shows "avail (art_step hash s ev)"
proof (cases ev)
  case (AFinalize n)
  then show ?thesis using av avail_goto[OF av, of n WDropTemp] avail_goto[OF av, of n WVerify]
    by (auto simp: on_writer_def StartFinalize_def goto_def)
qed (use av calm avail_goto[OF av] avail_write[OF inv av] avail_writer_step[OF inv av] avail_delete[OF inv av]
       avail_delete_step[OF inv av] avail_rc_step[OF inv av] avail_start[OF inv av] avail_end_walk[OF inv av]
       avail_power[OF inv av] avail_begin[OF inv av]
     in \<open>auto simp: on_writer_def on_rc_def hazard_def\<close>)

lemma avail_run: "art_inv hash s \<Longrightarrow> avail s \<Longrightarrow> calm_run hash s evs \<Longrightarrow> avail (foldl (art_step hash) s evs)"
  by (induction evs arbitrary: s) (simp_all add: avail_step art_step_inv)



text \<open>
  A reconciliation can destroy the bytes of a writer it has not fenced. The list of expired rows
  takes leases that ended strictly before the reconciliation began, the walk spares only leases that end
  strictly after it: a writer whose lease ends at that very instant is in neither, its renamed file is
  removed, and its commit still succeeds, leaving a final row without bytes. The same happens to every
  expired row whose fencing statement failed.
\<close>

theorem boundary_lease_loses_bytes:
  "let s = art_run hash (demo_writes @ [AWriter 0 True True] @
        [AReconcile 160, AReconcileStep 0 [] True, AReconcileStep 0 (''t/'' @ demo_artifact) True,
         AReconcileStep 0 [] True, AWriter 0 True True])
   in list_ex (\<lambda>r. ar_state r = StateFinal) (as_rows s) \<and> ReadArtifact s ''t'' demo_artifact = None"
  by code_simp

end
