(* ===== verification/Connectors.thy ===== *)
theory Connectors
  imports SourceRepo Jobs Secrets
begin

text \<open>
  The connector service, internal/connectors/service.go and scheduler.go: sources over the connection
  rows, the checks on credentials and base URLs, the job a sync is submitted as, and the incremental
  document sync itself. What comes over the network is an argument (a decoded response, the outcome of
  an upload); hashing, URL parsing, name resolution and the number formats of strconv and time are
  functions of the environment.
\<close>

section \<open>Connection rows (store/postgres/rag_repo.go and source_repo.go)\<close>

definition UpdateConnection :: "source_db \<Rightarrow> connection \<Rightarrow> source_error + source_db" where
  "UpdateConnection db c =
     denied_unless_rows (\<lambda>d. conn_key d = conn_key c)
       (\<lambda>d. d\<lparr>cn_name := cn_name c, cn_credential := cn_credential c, cn_config := cn_config c,
              cn_target := cn_target c, cn_audience_default := cn_audience_default c, cn_status := cn_status c\<rparr>)
       (sd_connections db) (\<lambda>cs. db\<lparr>sd_connections := cs\<rparr>)"

definition DeleteConnection :: "source_db \<Rightarrow> string \<Rightarrow> string \<Rightarrow> source_error + source_db" where
  "DeleteConnection db t i =
     (if count_rows (\<lambda>d. conn_key d = (t, i)) (sd_connections db) = 0 then Inl ErrDenied
      else Inr (db\<lparr>sd_connections := filter (\<lambda>d. conn_key d \<noteq> (t, i)) (sd_connections db)\<rparr>))"

definition ListConnections :: "source_db \<Rightarrow> string \<Rightarrow> connection list" where
  "ListConnections db t = sort_key cn_id (filter (\<lambda>c. cn_tenant c = t) (sd_connections db))"

text \<open>Oldest sync first; the rows' creation times are the argument.\<close>

definition ListSyncCandidates :: "(connection \<Rightarrow> time) \<Rightarrow> source_db \<Rightarrow> nat \<Rightarrow> connection list" where
  "ListSyncCandidates created db n =
     take (if n = 0 then 500 else n)
       (sort_key (\<lambda>c. case cn_synced_at c of Some t \<Rightarrow> t | None \<Rightarrow> created c)
         (filter (\<lambda>c. cn_status c = ''active'' \<and> cn_target c \<noteq> []) (sd_connections db)))"

section \<open>Reading untyped configuration\<close>

type_synonym members = "(string \<times> json) list"

definition stringFromAny :: "json option \<Rightarrow> string" where
  "stringFromAny v = (case v of Some (JStr s) \<Rightarrow> s | _ \<Rightarrow> [])"

definition cfg_string :: "members \<Rightarrow> string \<Rightarrow> string" where
  "cfg_string cfg k = trim_space (stringFromAny (obj_get cfg k))"

definition parse_bool :: "string \<Rightarrow> bool option" where
  "parse_bool s =
     (if s \<in> {''1'', ''t'', ''T'', ''true'', ''TRUE'', ''True''} then Some True
      else if s \<in> {''0'', ''f'', ''F'', ''false'', ''FALSE'', ''False''} then Some False else None)"

definition boolFromAny :: "json option \<Rightarrow> bool \<Rightarrow> bool" where
  "boolFromAny v fallback =
     (case v of
        Some (JBool b) \<Rightarrow> b
      | Some (JStr s) \<Rightarrow> (case parse_bool (trim_space s) of Some b \<Rightarrow> b | None \<Rightarrow> fallback)
      | _ \<Rightarrow> fallback)"

fun string_members :: "members \<Rightarrow> (string \<times> string) list" where
  "string_members [] = []"
| "string_members ((k, v) # ms) =
     (let s = trim_space (stringFromAny (Some v))
      in if s \<noteq> [] then (k, s) # string_members ms else string_members ms)"

definition stringMapFromAny :: "json option \<Rightarrow> (string \<times> string) list" where
  "stringMapFromAny v = (case v of Some (JObj ms) \<Rightarrow> string_members ms | _ \<Rightarrow> [])"

fun firstNonEmpty :: "string list \<Rightarrow> string" where
  "firstNonEmpty [] = []"
| "firstNonEmpty (v # vs) = (let t = trim_space v in if t \<noteq> [] then t else firstNonEmpty vs)"

definition object_members :: "json option \<Rightarrow> members" where
  "object_members v = (case v of Some (JObj ms) \<Rightarrow> ms | _ \<Rightarrow> [])"

section \<open>Sources\<close>

record connector_source =
  cs_id :: string
  cs_type :: string
  cs_name :: string
  cs_target :: string
  cs_config :: members
  cs_credential :: string
  cs_checkpoint :: members
  cs_enabled :: bool
  cs_last_sync :: "time option"

definition connectionView :: "connection \<Rightarrow> connector_source" where
  "connectionView c =
     (let cfg = object_members (Some (cn_config c)) in
      \<lparr>cs_id = cn_id c, cs_type = cn_kind c, cs_name = cn_name c, cs_target = cn_target c,
       cs_config = obj_del cfg ''checkpoint'', cs_credential = cn_credential c,
       cs_checkpoint = object_members (obj_get cfg ''checkpoint''), cs_enabled = (cn_status c = ''active''),
       cs_last_sync = cn_synced_at c\<rparr>)"

definition viewConnection :: "connector_source \<Rightarrow> string \<Rightarrow> string \<Rightarrow> connection" where
  "viewConnection v tenant actor =
     \<lparr>cn_tenant = tenant, cn_id = cs_id v, cn_kind = cs_type v, cn_name = cs_name v,
      cn_credential = cs_credential v,
      cn_config = JObj (if cs_checkpoint v \<noteq> [] then obj_put (cs_config v) ''checkpoint'' (JObj (cs_checkpoint v))
                        else cs_config v),
      cn_target = cs_target v, cn_audience_default = [],
      cn_status = (if cs_enabled v then ''active'' else ''disabled''), cn_created_by = actor,
      cn_synced_at = cs_last_sync v, cn_sync_status = [], cn_sync_error = []\<rparr>"

definition connector_types :: "string list" where
  "connector_types = [''github'', ''slack'', ''teams'', ''notion'', ''google_drive'']"

definition normalizeSourceType :: "string \<Rightarrow> string option" where
  "normalizeSourceType raw =
     (let t = go_lower (trim_space raw) in if t \<in> set connector_types then Some t else None)"

section \<open>Credentials and base URLs\<close>

record connector_document =
  cd_file :: string
  cd_mime :: string
  cd_content :: string
  cd_source :: string
  cd_uri :: string
  cd_revision :: string

definition config_document :: "members \<Rightarrow> string \<Rightarrow> connector_document" where
  "config_document m content =
     \<lparr>cd_file = cfg_string m ''file_name'', cd_mime = cfg_string m ''mime_type'', cd_content = content,
      cd_source = cfg_string m ''source_id'', cd_uri = cfg_string m ''source_uri'', cd_revision = []\<rparr>"

fun documents_of :: "json list \<Rightarrow> connector_document list" where
  "documents_of [] = []"
| "documents_of (v # vs) =
     (case v of
        JObj m \<Rightarrow> config_document m (stringFromAny (obj_get m ''content'')) # documents_of vs
      | _ \<Rightarrow> documents_of vs)"

definition documentsFromConfig :: "members \<Rightarrow> connector_document list" where
  "documentsFromConfig cfg =
     (case obj_get cfg ''documents'' of
        Some (JArr vs) \<Rightarrow> documents_of vs
      | _ \<Rightarrow> let content = cfg_string cfg ''content''
             in if content \<noteq> [] then [config_document cfg content] else [])"

definition connectorRequiresCredential :: "connector_source \<Rightarrow> bool" where
  "connectorRequiresCredential s =
     (if documentsFromConfig (cs_config s) \<noteq> [] then False
      else if cfg_string (cs_config s) ''base_url'' \<noteq> [] \<and>
              go_lower (stringFromAny (obj_get (cs_config s) ''allow_unauthenticated'')) = ''true'' then False
      else cs_type s \<in> {''slack'', ''notion'', ''teams'', ''google_drive''})"

definition credentialProviderForType :: "string \<Rightarrow> string" where
  "credentialProviderForType t =
     (if t = ''github'' then ''GITHUB'' else if t = ''slack'' then ''SLACK'' else if t = ''teams'' then ''TEAMS''
      else if t = ''notion'' then ''NOTION'' else if t = ''google_drive'' then ''GOOGLE_DRIVE'' else [])"

text \<open>The regular expression \<open>^CONNECTOR_(GITHUB|SLACK|TEAMS|NOTION|GOOGLE_DRIVE)_[A-Z0-9_]+$\<close>.\<close>

definition ref_matches :: "string \<Rightarrow> string \<Rightarrow> bool" where
  "ref_matches ref provider \<longleftrightarrow>
     provider \<in> {''GITHUB'', ''SLACK'', ''TEAMS'', ''NOTION'', ''GOOGLE_DRIVE''} \<and>
     (let head = ''CONNECTOR_'' @ provider @ ''_'' in
      has_prefix ref head \<and> length head < length ref \<and>
      list_all (\<lambda>c. is_upper c \<or> is_digit c \<or> c = CHR ''_'') (drop (length head) ref))"

definition validateCredentialRef :: "connector_source \<Rightarrow> bool" where
  "validateCredentialRef s =
     (let ref = trim_space (cs_credential s) in
      if ref = [] then \<not> connectorRequiresCredential s
      else ref_matches ref (credentialProviderForType (cs_type s)))"

text \<open>\<open>net.IP\<close>: 4 or 16 bytes; an IPv4 address may be written in either form.\<close>

type_synonym ip = "nat list"

definition to4 :: "ip \<Rightarrow> ip option" where
  "to4 a =
     (if length a = 4 then Some a
      else if length a = 16 \<and> take 12 a = replicate 10 0 @ [255, 255] then Some (drop 12 a) else None)"

definition disallowedConnectorIP :: "ip \<Rightarrow> bool" where
  "disallowedConnectorIP a \<longleftrightarrow>
     a = [] \<or>
     (case to4 a of
        Some [b0, b1, b2, b3] \<Rightarrow>
          b0 = 127 \<or>
          (b0 = 10 \<or> (b0 = 172 \<and> b1 div 16 = 1) \<or> (b0 = 192 \<and> b1 = 168)) \<or>
          (b0 = 169 \<and> b1 = 254) \<or> (b0 = 224 \<and> b1 = 0 \<and> b2 = 0) \<or> [b0, b1, b2, b3] = [0, 0, 0, 0]
      | _ \<Rightarrow>
          length a = 16 \<and>
          (a = replicate 15 0 @ [1] \<or> a ! 0 div 2 = 126 \<or> (a ! 0 = 254 \<and> a ! 1 div 64 = 2) \<or>
           (a ! 0 = 255 \<and> a ! 1 mod 16 = 2) \<or> a = replicate 16 0))"

record connector_env =
  ce_parse :: "string \<Rightarrow> parsed_url option"
  ce_resolve :: "string \<Rightarrow> ip list option"
  ce_allow_private :: bool
  ce_getenv :: "string \<Rightarrow> string"
  ce_hash :: "string \<Rightarrow> string"

definition trim_dot :: "string \<Rightarrow> string" where
  "trim_dot s = (if has_suffix s ''.'' then butlast s else s)"

text \<open>\<open>connectorHostIPs\<close>: addresses without bytes are dropped, and none at all is an error.\<close>

definition connectorHostIPs :: "connector_env \<Rightarrow> string \<Rightarrow> ip list option" where
  "connectorHostIPs env host =
     (case ce_resolve env host of
        None \<Rightarrow> None
      | Some addrs \<Rightarrow> let ips = filter (\<lambda>a. a \<noteq> []) addrs in if ips = [] then None else Some ips)"

definition validateBaseURL :: "connector_env \<Rightarrow> connector_source \<Rightarrow> bool" where
  "validateBaseURL env s =
     (let raw = cfg_string (cs_config s) ''base_url'' in
      if raw = [] then True
      else if CHR ''#'' \<in> set raw then False
      else case ce_parse env raw of
        None \<Rightarrow> False
      | Some u \<Rightarrow>
          if (pu_host u = [] \<and> pu_port u = []) \<or> pu_scheme u \<notin> {''http'', ''https''} then False
          else if pu_user u then False
          else let host = trim_dot (pu_host u) in
          if host = [] then False
          else (case connectorHostIPs env host of
                  None \<Rightarrow> False
                | Some ips \<Rightarrow> ce_allow_private env \<or> \<not> list_ex disallowedConnectorIP ips))"

definition validateConnectorSource :: "connector_env \<Rightarrow> connector_source \<Rightarrow> bool" where
  "validateConnectorSource env s \<longleftrightarrow> validateCredentialRef s \<and> validateBaseURL env s"

text \<open>\<open>connectorToken\<close>: \<open>None\<close> is a refusal, the empty token sends no header.\<close>

definition connectorToken :: "connector_env \<Rightarrow> connector_source \<Rightarrow> string option" where
  "connectorToken env s =
     (if \<not> validateCredentialRef s then None
      else let ref = trim_space (cs_credential s) in
      if ref = [] then Some []
      else let token = trim_space (ce_getenv env ref) in
      if token = [] \<and> connectorRequiresCredential s then None else Some token)"

section \<open>Source CRUD\<close>

datatype connector_error = CEInvalid string | CESource source_error | CEJobs jobs_error

definition requireTenant :: "principal \<Rightarrow> bool" where
  "requireTenant p \<longleftrightarrow> trim_space (p_tenant p) \<noteq> []"

definition lift_source :: "source_error + 'a \<Rightarrow> connector_error + 'a" where
  "lift_source r = map_sum CESource id r"

lemma lift_source_Inr [simp]: "lift_source r = Inr x \<longleftrightarrow> r = Inr x"
  by (cases r) (simp_all add: lift_source_def)

record create_source =
  ci_type :: string
  ci_name :: string
  ci_target :: string
  ci_config :: members
  ci_credential :: string
  ci_enabled :: "bool option"

definition CreateSource ::
    "connector_env \<Rightarrow> (string \<Rightarrow> bool) \<Rightarrow> source_db \<Rightarrow> principal \<Rightarrow> create_source \<Rightarrow> string \<Rightarrow>
     connector_error + source_db \<times> connector_source" where
  "CreateSource env uuid_ok db p input newid =
     (if \<not> requireTenant p then Inl (CESource ErrDenied)
      else case normalizeSourceType (ci_type input) of
        None \<Rightarrow> Inl (CEInvalid ''type'')
      | Some ty \<Rightarrow>
          if trim_space (ci_name input) = [] then Inl (CEInvalid ''name is required'')
          else let v = \<lparr>cs_id = newid, cs_type = ty, cs_name = trim_space (ci_name input),
                        cs_target = trim_space (ci_target input), cs_config = ci_config input,
                        cs_credential = trim_space (ci_credential input), cs_checkpoint = [],
                        cs_enabled = (case ci_enabled input of None \<Rightarrow> True | Some b \<Rightarrow> b), cs_last_sync = None\<rparr> in
          if \<not> validateConnectorSource env v then Inl (CEInvalid ''source'')
          else bind_r (lift_source (CreateConnection uuid_ok db (viewConnection v (p_tenant p) (p_actor p)))) (\<lambda>db'.
               bind_r (lift_source (sql_GetConnection db' (p_tenant p) newid)) (\<lambda>c. Inr (db', connectionView c))))"

record update_source =
  ui_type :: "string option"
  ui_name :: "string option"
  ui_target :: "string option"
  ui_config :: "members option"
  ui_credential :: "string option"
  ui_checkpoint :: "members option"
  ui_enabled :: "bool option"

definition or_keep :: "'a option \<Rightarrow> 'a \<Rightarrow> 'a" where
  "or_keep o' x = (case o' of None \<Rightarrow> x | Some y \<Rightarrow> y)"

definition updated_view :: "connector_source \<Rightarrow> update_source \<Rightarrow> string \<Rightarrow> connector_source" where
  "updated_view v input ty =
     v\<lparr>cs_type := ty, cs_name := or_keep (map_option trim_space (ui_name input)) (cs_name v),
       cs_target := or_keep (map_option trim_space (ui_target input)) (cs_target v),
       cs_config := or_keep (ui_config input) (cs_config v),
       cs_credential := or_keep (map_option trim_space (ui_credential input)) (cs_credential v),
       cs_checkpoint := or_keep (ui_checkpoint input) (cs_checkpoint v),
       cs_enabled := or_keep (ui_enabled input) (cs_enabled v)\<rparr>"

definition UpdateSource ::
    "connector_env \<Rightarrow> source_db \<Rightarrow> principal \<Rightarrow> string \<Rightarrow> update_source \<Rightarrow>
     connector_error + source_db \<times> connector_source" where
  "UpdateSource env db p i input =
     (if \<not> requireTenant p then Inl (CESource ErrDenied)
      else bind_r (lift_source (sql_GetConnection db (p_tenant p) (trim_space i))) (\<lambda>conn.
        let v0 = connectionView conn in
        case (case ui_type input of None \<Rightarrow> Some (cs_type v0) | Some raw \<Rightarrow> normalizeSourceType raw) of
          None \<Rightarrow> Inl (CEInvalid ''type'')
        | Some ty \<Rightarrow>
            let v = updated_view v0 input ty in
            if cs_name v = [] then Inl (CEInvalid ''name is required'')
            else if \<not> validateConnectorSource env v then Inl (CEInvalid ''source'')
            else bind_r (lift_source (UpdateConnection db (viewConnection v (p_tenant p) (cn_created_by conn)))) (\<lambda>db'.
                 bind_r (lift_source (sql_GetConnection db' (p_tenant p) (cn_id conn))) (\<lambda>c.
                   Inr (db', connectionView c)))))"

definition DeleteSource :: "source_db \<Rightarrow> principal \<Rightarrow> string \<Rightarrow> connector_error + source_db" where
  "DeleteSource db p i =
     (if \<not> requireTenant p then Inl (CESource ErrDenied)
      else lift_source (DeleteConnection db (p_tenant p) (trim_space i)))"

definition ListSources ::
    "source_db \<Rightarrow> principal \<Rightarrow> string \<Rightarrow> int \<Rightarrow> int \<Rightarrow> connector_error + connector_source list" where
  "ListSources db p ty limit' offset' =
     (if \<not> requireTenant p then Inl (CESource ErrDenied)
      else let wanted = trim_space ty;
               out = map connectionView (filter (\<lambda>c. wanted = [] \<or> cn_kind c = wanted) (ListConnections db (p_tenant p)))
           in Inr (take (nat (if limit' \<le> 0 then 50 else limit')) (drop (nat offset') out)))"

definition GetSource :: "source_db \<Rightarrow> principal \<Rightarrow> string \<Rightarrow> connector_error + connector_source" where
  "GetSource db p i =
     (if \<not> requireTenant p then Inl (CESource ErrDenied)
      else map_sum id connectionView (lift_source (sql_GetConnection db (p_tenant p) (trim_space i))))"

section \<open>Submitting a sync\<close>

record job_env =
  je_digest :: "string list \<Rightarrow> string"
  je_uuid :: "string \<Rightarrow> bool"
  je_marshal :: "json \<Rightarrow> string"

text \<open>The idempotency key: the connection, its configuration and credential, and the schedule window.\<close>

definition config_hash :: "connector_env \<Rightarrow> job_env \<Rightarrow> connection \<Rightarrow> string" where
  "config_hash env je conn = ce_hash env (je_marshal je (cn_config conn) @ [CHR 0x00] @ cn_credential conn)"

definition sync_key :: "connector_env \<Rightarrow> job_env \<Rightarrow> connection \<Rightarrow> int \<Rightarrow> string" where
  "sync_key env je conn window =
     ''connector.sync:'' @ cn_id conn @ '':'' @ config_hash env je conn @
     (if window \<noteq> 0 then '':w'' @ itoa window else [])"

definition sync_request :: "connector_env \<Rightarrow> job_env \<Rightarrow> string \<Rightarrow> connection \<Rightarrow> int \<Rightarrow> enqueue_request" where
  "sync_request env je tenant conn window =
     \<lparr>er_tenant = tenant, er_operation = ''connector.sync'', er_idem = sync_key env je conn window,
      er_subject = \<lparr>js_connection = cn_id conn, js_object = [], js_observed = 0\<rparr>,
      er_input_ref = cn_id conn, er_input_hash = config_hash env je conn,
      er_policy = Some [(''connection_id'', JStr (cn_id conn))], er_max_attempts = 0\<rparr>"

definition syncSource ::
    "connector_env \<Rightarrow> job_env \<Rightarrow> source_db \<Rightarrow> jobs_db \<Rightarrow> principal \<Rightarrow> string \<Rightarrow> int \<Rightarrow> string \<Rightarrow> time \<Rightarrow>
     connector_error + jobs_db \<times> job" where
  "syncSource env je db jdb p i window newid now =
     (if \<not> requireTenant p then Inl (CESource ErrDenied)
      else bind_r (lift_source (sql_GetConnection db (p_tenant p) (trim_space i))) (\<lambda>conn.
        if cn_status conn \<noteq> ''active'' then Inl (CEInvalid ''connector source is disabled'')
        else bind_r (map_sum CEJobs id
               (Enqueue (je_digest je) (je_uuid je) jdb p (sync_request env je (p_tenant p) conn window) newid now))
             (\<lambda>(jdb', job, created). Inr (jdb', job))))"

section \<open>The document sync\<close>

record upload_input =
  up_file :: string
  up_mime :: string
  up_bytes :: string
  up_type :: string
  up_source :: string
  up_uri :: string
  up_connector :: string
  up_revision :: string

text \<open>
  What the document store does during one sync: which source ids are live (\<open>None\<close>: the query fails),
  and whether the upload of the n-th document succeeds.
\<close>

record sync_env =
  se_live :: "string list option"
  se_upload :: "nat \<Rightarrow> bool"

text \<open>The running state of the loop: uploads so far, the next hashes, the number of skips.\<close>

record sync_acc =
  sa_uploads :: "upload_input list"
  sa_hashes :: "(string \<times> string) list"
  sa_skipped :: nat

definition doc_file :: "connector_source \<Rightarrow> nat \<Rightarrow> connector_document \<Rightarrow> string" where
  "doc_file src i d =
     (let f = trim_space (cd_file d)
      in if f = [] then cs_type src @ ''-document-'' @ nat_str (i + 1) @ ''.txt'' else f)"

definition doc_id :: "connector_source \<Rightarrow> nat \<Rightarrow> connector_document \<Rightarrow> string" where
  "doc_id src i d = firstNonEmpty [cd_source d, doc_file src i d]"

definition doc_upload :: "connector_source \<Rightarrow> nat \<Rightarrow> connector_document \<Rightarrow> upload_input" where
  "doc_upload src i d =
     \<lparr>up_file = doc_file src i d,
      up_mime = (let m = trim_space (cd_mime d) in if m = [] then ''text/plain'' else m),
      up_bytes = cd_content d, up_type = cs_type src, up_source = doc_id src i d, up_uri = cd_uri d,
      up_connector = cs_id src, up_revision = cd_revision d\<rparr>"

definition put_hash :: "(string \<times> string) list \<Rightarrow> string \<Rightarrow> string \<Rightarrow> (string \<times> string) list" where
  "put_hash m k v = filter (\<lambda>x. fst x \<noteq> k) m @ [(k, v)]"

text \<open>A missing key of a Go string map reads as the empty string.\<close>

definition get_hash :: "(string \<times> string) list \<Rightarrow> string \<Rightarrow> string" where
  "get_hash m k = (case map_of m k of None \<Rightarrow> [] | Some v \<Rightarrow> v)"

definition sync_one ::
    "connector_env \<Rightarrow> sync_env \<Rightarrow> connector_source \<Rightarrow> bool \<Rightarrow> (string \<times> string) list \<Rightarrow> nat \<Rightarrow> connector_document \<Rightarrow>
     sync_acc \<Rightarrow> string + sync_acc" where
  "sync_one env se src force prev i d acc =
     (if cd_content d = [] then Inr acc
      else let sid = doc_id src i d; h = ce_hash env (cd_content d);
               upload = (if se_upload se i
                         then Inr (acc\<lparr>sa_uploads := sa_uploads acc @ [doc_upload src i d],
                                       sa_hashes := put_hash (sa_hashes acc) sid h\<rparr>)
                         else Inl ''upload'')
           in if \<not> force \<and> get_hash prev sid = h
              then (case se_live se of
                      None \<Rightarrow> Inl ''live source ids''
                    | Some live \<Rightarrow>
                        if sid \<in> set live
                        then Inr (acc\<lparr>sa_hashes := put_hash (sa_hashes acc) sid h, sa_skipped := sa_skipped acc + 1\<rparr>)
                        else upload)
              else upload)"

fun sync_loop ::
    "connector_env \<Rightarrow> sync_env \<Rightarrow> connector_source \<Rightarrow> bool \<Rightarrow> (string \<times> string) list \<Rightarrow> nat \<Rightarrow> connector_document list \<Rightarrow>
     sync_acc \<Rightarrow> string + sync_acc" where
  "sync_loop env se src force prev i [] acc = Inr acc"
| "sync_loop env se src force prev i (d # ds) acc =
     bind_r (sync_one env se src force prev i d acc) (sync_loop env se src force prev (i + 1) ds)"

text \<open>A checkpoint is absent (\<open>None\<close>) or a map; the error of a sync keeps its text only.\<close>

record sync_result =
  sr_uploads :: "upload_input list"
  sr_fetched :: nat
  sr_unchanged :: nat
  sr_checkpoint :: members

definition hashes_json :: "(string \<times> string) list \<Rightarrow> json" where
  "hashes_json m = JObj (map (\<lambda>(k, v). (k, JStr v)) m)"

definition previous_hashes :: "connector_source \<Rightarrow> (string \<times> string) list" where
  "previous_hashes src = stringMapFromAny (obj_get (cs_checkpoint src) ''document_hashes'')"

text \<open>\<open>documentsForSource\<close>: documents in the configuration, or the answer of the source's API.\<close>

definition documentsForSource ::
    "connector_source \<Rightarrow> (string + connector_document list \<times> members) \<Rightarrow>
     string + connector_document list \<times> bool \<times> members" where
  "documentsForSource src api =
     (let ds = documentsFromConfig (cs_config src) in
      if ds \<noteq> [] then Inr (ds, False, [])
      else case api of Inl e \<Rightarrow> Inl e | Inr (ds, cp) \<Rightarrow> Inr (ds, True, cp))"

definition syncDocuments ::
    "connector_env \<Rightarrow> sync_env \<Rightarrow> connector_source \<Rightarrow> (string + connector_document list \<times> members) \<Rightarrow>
     string + sync_result" where
  "syncDocuments env se src api =
     (if trim_space (cs_target src) = [] then Inl ''target_collection_id is required for connector sync''
      else if \<not> validateConnectorSource env src then Inl ''source''
      else bind_r (documentsForSource src api) (\<lambda>(docs, from_api, cp).
        if docs = []
        then (if from_api then Inr \<lparr>sr_uploads = [], sr_fetched = 0, sr_unchanged = 0, sr_checkpoint = cp\<rparr>
              else Inl ''connector sync produced no documents'')
        else let prev = previous_hashes src in
          bind_r (sync_loop env se src (boolFromAny (obj_get (cs_config src) ''force_full_sync'') False) prev 0 docs
                    \<lparr>sa_uploads = [], sa_hashes = prev, sa_skipped = 0\<rparr>) (\<lambda>acc.
            if sa_uploads acc = [] \<and> sa_skipped acc = 0 then Inl ''connector sync produced no non-empty content''
            else Inr \<lparr>sr_uploads = sa_uploads acc, sr_fetched = length docs, sr_unchanged = sa_skipped acc,
                      sr_checkpoint = obj_put cp ''document_hashes'' (hashes_json (sa_hashes acc))\<rparr>)))"

text \<open>
  \<open>attemptSync\<close> reads the connection first and writes it back at the end; whatever happens to the row
  in between, the second half works with the row read before.
\<close>

definition finish_sync ::
    "source_db \<Rightarrow> string \<Rightarrow> connection \<Rightarrow> string + sync_result \<Rightarrow> time \<Rightarrow> source_db" where
  "finish_sync db tenant conn res now =
     (let keep = (\<lambda>d r. case r of Inl _ \<Rightarrow> d | Inr d' \<Rightarrow> d');
          db1 = keep db (SetSyncState db tenant (cn_id conn) now
                  (case res of Inl _ \<Rightarrow> ''failed'' | Inr _ \<Rightarrow> ''succeeded'')
                  (case res of Inl e \<Rightarrow> e | Inr _ \<Rightarrow> []))
      in case res of
           Inl _ \<Rightarrow> db1
         | Inr r \<Rightarrow>
             if sr_checkpoint r = [] then db1
             else keep db1 (UpdateConnection db1
                    ((viewConnection ((connectionView conn)\<lparr>cs_checkpoint := sr_checkpoint r\<rparr>) tenant (cn_created_by conn))
                       \<lparr>cn_status := cn_status conn\<rparr>)))"

section \<open>Slack\<close>

text \<open>Messages of a channel, newest timestamp first or not; \<open>num\<close> is \<open>strconv.ParseFloat\<close>.\<close>

record slack_message =
  sm_user :: string
  sm_text :: string
  sm_ts :: string

definition maxSlackTimestamp :: "(string \<Rightarrow> rat option) \<Rightarrow> string \<Rightarrow> string \<Rightarrow> string" where
  "maxSlackTimestamp num a0 b0 =
     (let a = trim_space a0; b = trim_space b0 in
      if a = [] then b
      else if b = [] then a
      else case (num a, num b) of
        (Some x, Some y) \<Rightarrow> if x < y then b else a
      | _ \<Rightarrow> if a < b then b else a)"

definition slack_document :: "string \<Rightarrow> slack_message \<Rightarrow> connector_document" where
  "slack_document channel m =
     \<lparr>cd_file = ''slack-'' @ channel @ ''-'' @ sm_ts m @ ''.txt'', cd_mime = ''text/plain'',
      cd_content = ''['' @ sm_ts m @ '' '' @ sm_user m @ ''] '' @ trim_space (sm_text m),
      cd_source = ''slack:'' @ channel @ '':'' @ sm_ts m,
      cd_uri = ''slack://channel/'' @ channel @ ''/'' @ sm_ts m, cd_revision = sm_ts m\<rparr>"

text \<open>The answer of \<open>conversations.history\<close>: an error, or messages.\<close>

definition fetchSlackDocuments ::
    "(string \<Rightarrow> rat option) \<Rightarrow> connector_source \<Rightarrow> string + slack_message list \<Rightarrow>
     string + connector_document list \<times> members" where
  "fetchSlackDocuments num src answer =
     (let channel = firstNonEmpty [stringFromAny (obj_get (cs_config src) ''channel_id''),
                                   stringFromAny (obj_get (cs_config src) ''channel'')];
          latest0 = cfg_string (cs_checkpoint src) ''slack_latest_ts'' in
      if channel = [] then Inl ''slack config.channel_id is required''
      else case answer of
        Inl e \<Rightarrow> Inl e
      | Inr ms \<Rightarrow>
          let latest = foldl (\<lambda>l m. maxSlackTimestamp num l (sm_ts m)) latest0 ms in
          Inr (map (slack_document channel) (filter (\<lambda>m. trim_space (sm_text m) \<noteq> []) ms),
               if latest \<noteq> [] then [(''slack_latest_ts'', JStr latest)] else []))"

section \<open>Notion\<close>

fun rich_text :: "json list \<Rightarrow> string" where
  "rich_text [] = []"
| "rich_text (v # vs) = trim_space (stringFromAny (obj_get (object_members (Some v)) ''plain_text'')) @ rich_text vs"

definition notionBlockText :: "members \<Rightarrow> string" where
  "notionBlockText block =
     (let ty = cfg_string block ''type'' in
      if ty = [] then []
      else let payload = object_members (obj_get block ty) in
      if payload = [] then cfg_string block ''plain_text''
      else if cfg_string payload ''title'' \<noteq> [] then cfg_string payload ''title''
      else (case obj_get payload ''rich_text'' of Some (JArr vs) \<Rightarrow> rich_text vs | _ \<Rightarrow> []))"

definition notion_text :: "members list \<Rightarrow> string" where
  "notion_text blocks =
     concat (map (\<lambda>b. let t = notionBlockText b in if t \<noteq> [] then t @ [CHR 0x0A] else []) blocks)"

definition fetchNotionDocuments ::
    "connector_source \<Rightarrow> string + members list \<Rightarrow> string + connector_document list" where
  "fetchNotionDocuments src answer =
     (let page = firstNonEmpty [stringFromAny (obj_get (cs_config src) ''page_id''),
                                stringFromAny (obj_get (cs_config src) ''block_id'')] in
      if page = [] then Inl ''notion config.page_id is required''
      else case answer of
        Inl e \<Rightarrow> Inl e
      | Inr blocks \<Rightarrow>
          Inr [\<lparr>cd_file = ''notion-'' @ page @ ''.txt'', cd_mime = ''text/plain'',
                cd_content = trim_space (notion_text blocks), cd_source = ''notion:'' @ page,
                cd_uri = ''notion://block/'' @ page, cd_revision = []\<rparr>])"

section \<open>Scheduling\<close>

text \<open>
  \<open>parseSyncInterval\<close>: \<open>None\<close> disables. \<open>num\<close> is \<open>strconv.ParseFloat\<close> (a finite number), \<open>dur\<close>
  \<open>time.ParseDuration\<close>, and \<open>conv\<close> the conversion of a float64 of nanoseconds to a Duration.
\<close>

record interval_env =
  iv_num :: "string \<Rightarrow> rat option"
  iv_dur :: "string \<Rightarrow> duration option"
  iv_conv :: "rat \<Rightarrow> duration"

definition MinSyncInterval :: duration where
  "MinSyncInterval = 300 * second"

definition DefaultSyncInterval :: duration where
  "DefaultSyncInterval = 3600 * second"

definition durationOrDisabled :: "duration \<Rightarrow> duration option" where
  "durationOrDisabled d = (if d \<le> 0 then None else Some (max d MinSyncInterval))"

definition secondsOrDisabled :: "interval_env \<Rightarrow> rat \<Rightarrow> duration option" where
  "secondsOrDisabled iv secs = (if secs \<le> 0 then None else Some (max (iv_conv iv (secs * 1000000000)) MinSyncInterval))"

definition parseSyncInterval :: "interval_env \<Rightarrow> members \<Rightarrow> duration option" where
  "parseSyncInterval iv cfg =
     (case obj_get cfg ''sync_interval'' of
        None \<Rightarrow> Some DefaultSyncInterval
      | Some JNull \<Rightarrow> Some DefaultSyncInterval
      | Some (JStr raw) \<Rightarrow>
          let s = trim_space (go_lower raw) in
          if s = [] then Some DefaultSyncInterval
          else if s \<in> {''0'', ''off'', ''disabled''} then None
          else (case iv_num iv s of
                  Some secs \<Rightarrow> secondsOrDisabled iv secs
                | None \<Rightarrow> (case iv_dur iv s of Some d \<Rightarrow> durationOrDisabled d | None \<Rightarrow> None))
      | Some (JNum q) \<Rightarrow> secondsOrDisabled iv q
      | Some _ \<Rightarrow> None)"

definition syncDue :: "interval_env \<Rightarrow> members \<Rightarrow> time option \<Rightarrow> time \<Rightarrow> bool" where
  "syncDue iv cfg synced now =
     (case parseSyncInterval iv cfg of
        None \<Rightarrow> False
      | Some interval \<Rightarrow> (case synced of None \<Rightarrow> True | Some t \<Rightarrow> t + interval \<le> now))"

text \<open>The window of a scheduled sync: Unix seconds over the interval in seconds, truncated.\<close>

definition sync_window :: "time \<Rightarrow> duration \<Rightarrow> int" where
  "sync_window now interval = (now div second) div (interval div second)"

definition scheduled_principal :: "connection \<Rightarrow> principal" where
  "scheduled_principal c = zero_principal\<lparr>p_tenant := cn_tenant c, p_actor := cn_created_by c\<rparr>"

fun schedule_each ::
    "connector_env \<Rightarrow> job_env \<Rightarrow> interval_env \<Rightarrow> source_db \<Rightarrow> (nat \<Rightarrow> string) \<Rightarrow> time \<Rightarrow> nat \<Rightarrow> connection list \<Rightarrow>
     jobs_db \<Rightarrow> jobs_db" where
  "schedule_each env je iv db ids now n [] jdb = jdb"
| "schedule_each env je iv db ids now n (c # cs) jdb =
     (let cfg = object_members (Some (cn_config c)) in
      if \<not> syncDue iv cfg (cn_synced_at c) now then schedule_each env je iv db ids now (n + 1) cs jdb
      else schedule_each env je iv db ids now (n + 1) cs
        (case parseSyncInterval iv cfg of
           None \<Rightarrow> jdb
         | Some interval \<Rightarrow>
             (case syncSource env je db jdb (scheduled_principal c) (cn_id c) (sync_window now interval) (ids n) now of
                Inl _ \<Rightarrow> jdb
              | Inr (jdb', _) \<Rightarrow> jdb')))"

definition runOnce ::
    "connector_env \<Rightarrow> job_env \<Rightarrow> interval_env \<Rightarrow> (connection \<Rightarrow> time) \<Rightarrow> source_db \<Rightarrow> (nat \<Rightarrow> string) \<Rightarrow> time \<Rightarrow>
     jobs_db \<Rightarrow> jobs_db" where
  "runOnce env je iv created db ids now jdb =
     schedule_each env je iv db ids now 0 (ListSyncCandidates created db 500) jdb"

end
