(* ===== verification/ConnectorsProps.thy ===== *)
theory ConnectorsProps
  imports Connectors JobsOutcomes
begin

text \<open>
  Properties of the connector service: what a document sync uploads and records and that repeating it
  uploads nothing, the environment a credential can read, the addresses a base URL may resolve to, the
  write-back at the end of a sync, the job a manual sync is submitted as, and the pace of the scheduler.
\<close>

section \<open>The document loop against its specification\<close>

text \<open>The documents with content and their positions; which of them are skipped; when none fails.\<close>

definition sync_docs :: "nat \<Rightarrow> connector_document list \<Rightarrow> (nat \<times> connector_document) list" where
  "sync_docs i ds = filter (\<lambda>x. cd_content (snd x) \<noteq> []) (enumerate i ds)"

definition unchanged_doc ::
    "connector_env \<Rightarrow> connector_source \<Rightarrow> bool \<Rightarrow> (string \<times> string) list \<Rightarrow> nat \<times> connector_document \<Rightarrow> bool" where
  "unchanged_doc env src force prev x \<longleftrightarrow>
     \<not> force \<and> get_hash prev (doc_id src (fst x) (snd x)) = ce_hash env (cd_content (snd x))"

definition skipped_doc ::
    "connector_env \<Rightarrow> sync_env \<Rightarrow> connector_source \<Rightarrow> bool \<Rightarrow> (string \<times> string) list \<Rightarrow>
     nat \<times> connector_document \<Rightarrow> bool" where
  "skipped_doc env se src force prev x \<longleftrightarrow>
     unchanged_doc env src force prev x \<and>
     (case se_live se of None \<Rightarrow> False | Some ids \<Rightarrow> doc_id src (fst x) (snd x) \<in> set ids)"

definition doc_ok ::
    "connector_env \<Rightarrow> sync_env \<Rightarrow> connector_source \<Rightarrow> bool \<Rightarrow> (string \<times> string) list \<Rightarrow>
     nat \<times> connector_document \<Rightarrow> bool" where
  "doc_ok env se src force prev x \<longleftrightarrow>
     (if unchanged_doc env src force prev x \<and> se_live se = None then False
      else skipped_doc env se src force prev x \<or> se_upload se (fst x))"

definition put_doc ::
    "connector_env \<Rightarrow> connector_source \<Rightarrow> (string \<times> string) list \<Rightarrow> nat \<times> connector_document \<Rightarrow>
     (string \<times> string) list" where
  "put_doc env src m x = put_hash m (doc_id src (fst x) (snd x)) (ce_hash env (cd_content (snd x)))"

definition sync_spec ::
    "connector_env \<Rightarrow> sync_env \<Rightarrow> connector_source \<Rightarrow> bool \<Rightarrow> (string \<times> string) list \<Rightarrow>
     (nat \<times> connector_document) list \<Rightarrow> sync_acc \<Rightarrow> sync_acc" where
  "sync_spec env se src force prev xs acc =
     \<lparr>sa_uploads = sa_uploads acc @
        map (\<lambda>x. doc_upload src (fst x) (snd x)) (filter (\<lambda>x. \<not> skipped_doc env se src force prev x) xs),
      sa_hashes = foldl (put_doc env src) (sa_hashes acc) xs,
      sa_skipped = sa_skipped acc + length (filter (skipped_doc env se src force prev) xs)\<rparr>"

lemma sync_docs_Nil [simp]: "sync_docs i [] = []"
  by (simp add: sync_docs_def)

lemma sync_docs_Cons [simp]:
  "sync_docs i (d # ds) = (if cd_content d = [] then sync_docs (Suc i) ds else (i, d) # sync_docs (Suc i) ds)"
  by (simp add: sync_docs_def)

lemma sync_one_spec:
  "sync_one env se src force prev i d acc =
     (if cd_content d = [] then Inr acc
      else if doc_ok env se src force prev (i, d) then Inr (sync_spec env se src force prev [(i, d)] acc)
      else Inl (if unchanged_doc env src force prev (i, d) \<and> se_live se = None then ''live source ids'' else ''upload''))"
  by (auto simp: sync_one_def sync_spec_def doc_ok_def skipped_doc_def unchanged_doc_def put_doc_def Let_def
      split: option.splits)

lemma sync_spec_Cons:
  "sync_spec env se src force prev (x # xs) acc =
     sync_spec env se src force prev xs (sync_spec env se src force prev [x] acc)"
  by (simp add: sync_spec_def)

lemma sync_spec_Nil [simp]: "sync_spec env se src force prev [] acc = acc"
  by (simp add: sync_spec_def)

lemma sync_loop_spec:
  "(if list_all (doc_ok env se src force prev) (sync_docs i ds)
    then sync_loop env se src force prev i ds acc = Inr (sync_spec env se src force prev (sync_docs i ds) acc)
    else \<exists>e. sync_loop env se src force prev i ds acc = Inl e)"
proof (induction ds arbitrary: i acc)
  case Nil
  then show ?case by simp
next
  case (Cons d ds)
  show ?case
  proof (cases "cd_content d = []")
    case True
    then show ?thesis using Cons.IH[of "Suc i" acc] by (simp add: sync_one_spec)
  next
    case False
    then show ?thesis
      using Cons.IH[of "Suc i" "sync_spec env se src force prev [(i, d)] acc"]
      by (simp add: sync_one_spec sync_spec_Cons[of _ _ _ _ _ "(i, d)" "sync_docs (Suc i) ds"])
  qed
qed

lemma sync_loop_Inr:
  "sync_loop env se src force prev i ds acc = Inr acc' \<longleftrightarrow>
     list_all (doc_ok env se src force prev) (sync_docs i ds) \<and>
     acc' = sync_spec env se src force prev (sync_docs i ds) acc"
  using sync_loop_spec[of env se src force prev i ds acc] by (auto split: if_splits)

definition sync_outcome ::
    "connector_env \<Rightarrow> sync_env \<Rightarrow> connector_source \<Rightarrow> bool \<Rightarrow> (string \<times> string) list \<Rightarrow>
     connector_document list \<Rightarrow> members \<Rightarrow> sync_result" where
  "sync_outcome env se src force prev docs cp =
     (let acc = sync_spec env se src force prev (sync_docs 0 docs) \<lparr>sa_uploads = [], sa_hashes = prev, sa_skipped = 0\<rparr>
      in \<lparr>sr_uploads = sa_uploads acc, sr_fetched = length docs, sr_unchanged = sa_skipped acc,
          sr_checkpoint = obj_put cp ''document_hashes'' (hashes_json (sa_hashes acc))\<rparr>)"

lemma syncDocuments_Inr:
  assumes "trim_space (cs_target src) \<noteq> []" and "validateConnectorSource env src"
    and "documentsForSource src api = Inr (docs, from_api, cp)" and "docs \<noteq> []"
    and "force = boolFromAny (obj_get (cs_config src) ''force_full_sync'') False"
    and "xs = sync_docs 0 docs" and "prev = previous_hashes src"
  shows "syncDocuments env se src api = Inr r \<longleftrightarrow>
    list_all (doc_ok env se src force prev) xs \<and> xs \<noteq> [] \<and> r = sync_outcome env se src force prev docs cp"
proof -
  let ?acc = "\<lparr>sa_uploads = [], sa_hashes = prev, sa_skipped = 0\<rparr>"
  let ?L = "sync_loop env se src force prev 0 docs ?acc"
  let ?s = "sync_spec env se src force prev xs ?acc"
  have run: "syncDocuments env se src api =
      bind_r ?L (\<lambda>acc.
        if sa_uploads acc = [] \<and> sa_skipped acc = 0 then Inl ''connector sync produced no non-empty content''
        else Inr \<lparr>sr_uploads = sa_uploads acc, sr_fetched = length docs, sr_unchanged = sa_skipped acc,
                  sr_checkpoint = obj_put cp ''document_hashes'' (hashes_json (sa_hashes acc))\<rparr>)"
    using assms(1-5,7) by (simp add: syncDocuments_def Let_def)
  have none: "sa_uploads ?s = [] \<and> sa_skipped ?s = 0 \<longleftrightarrow> xs = []"
    by (cases xs) (auto simp: sync_spec_def filter_empty_conv)
  show ?thesis
  proof (cases "list_all (doc_ok env se src force prev) xs")
    case True
    then have L: "?L = Inr ?s" unfolding assms(6) using sync_loop_Inr by blast
    show ?thesis unfolding run L bind_r_simps none using True
      by (auto simp: sync_outcome_def assms(6) Let_def)
  next
    case False
    then obtain e where L: "?L = Inl e" using sync_loop_spec[of env se src force prev 0 docs ?acc] assms(6) by auto
    show ?thesis unfolding run L using False by simp
  qed
qed


definition demo_env :: connector_env where
  "demo_env = \<lparr>ce_parse = (\<lambda>_. None), ce_resolve = (\<lambda>_. None), ce_allow_private = False,
     ce_getenv = (\<lambda>n. if n = ''CONNECTOR_SLACK_TOKEN'' then ''xoxb'' else ''other''), ce_hash = (\<lambda>s. ''h'' @ filter (\<lambda>c. \<not> is_space c) s)\<rparr>"

definition demo_connection :: connection where
  "demo_connection =
     \<lparr>cn_tenant = ''ten'', cn_id = ''con'', cn_kind = ''slack'', cn_name = ''chat'',
      cn_credential = ''CONNECTOR_SLACK_TOKEN'',
      cn_config = JObj [(''channel_id'', JStr ''C1''),
        (''checkpoint'', JObj [(''document_hashes'', JObj [(''d1'', JStr ''hone'')])])],
      cn_target = ''col'', cn_audience_default = [], cn_status = ''active'', cn_created_by = ''usr'',
      cn_synced_at = None, cn_sync_status = [], cn_sync_error = []\<rparr>"

definition demo_doc :: "string \<Rightarrow> string \<Rightarrow> connector_document" where
  "demo_doc i c = \<lparr>cd_file = [], cd_mime = [], cd_content = c, cd_source = i, cd_uri = [], cd_revision = []\<rparr>"

definition demo_docs :: "connector_document list" where
  "demo_docs = [demo_doc ''d1'' ''one'', demo_doc ''d2'' [], demo_doc ''d3'' ''two'']"

definition demo_store :: sync_env where
  "demo_store = \<lparr>se_live = Some [''d1''], se_upload = (\<lambda>n. n = 2)\<rparr>"


section \<open>Reading back what a sync stored\<close>

lemma obj_get_del: "obj_get (obj_del ms k) k' = (if k' = k then None else obj_get ms k')"
  by (induction ms) (auto simp: obj_del_def obj_get_def)

lemma obj_del_put [simp]: "obj_del (obj_put ms k v) k = obj_del ms k"
  by (simp add: obj_del_def obj_put_def)

lemma obj_del_del [simp]: "obj_del (obj_del ms k) k = obj_del ms k"
  by (simp add: obj_del_def)

lemma obj_put_ne [simp]: "obj_put ms k v \<noteq> []"
  by (simp add: obj_put_def)

definition clean_hashes :: "(string \<times> string) list \<Rightarrow> bool" where
  "clean_hashes m \<longleftrightarrow> (\<forall>x\<in>set m. snd x \<noteq> [] \<and> trim_space (snd x) = snd x)"

lemma string_members_roundtrip:
  "clean_hashes m \<Longrightarrow> stringMapFromAny (Some (hashes_json m)) = m"
proof -
  have "clean_hashes m \<Longrightarrow> string_members (map (\<lambda>(k, v). (k, JStr v)) m) = m"
    by (induction m) (auto simp: clean_hashes_def stringFromAny_def Let_def)
  then show "clean_hashes m \<Longrightarrow> ?thesis" by (simp add: stringMapFromAny_def hashes_json_def)
qed

lemma string_members_clean: "clean_hashes (string_members ms)"
proof (induction ms)
  case (Cons m ms)
  then show ?case by (cases m) (auto simp: clean_hashes_def Let_def trim_space_idem)
qed (simp add: clean_hashes_def)

lemma previous_hashes_clean: "clean_hashes (previous_hashes src)"
  by (auto simp: previous_hashes_def stringMapFromAny_def string_members_clean clean_hashes_def
      split: option.splits json.splits dest: string_members_clean[unfolded clean_hashes_def, rule_format])

lemma put_hash_clean: "clean_hashes m \<Longrightarrow> v \<noteq> [] \<Longrightarrow> trim_space v = v \<Longrightarrow> clean_hashes (put_hash m k v)"
  by (auto simp: clean_hashes_def put_hash_def)

lemma get_put_hash: "get_hash (put_hash m k v) k' = (if k' = k then v else get_hash m k')"
proof -
  have "map_of (filter (\<lambda>x. fst x \<noteq> k) m) k' = (if k' = k then None else map_of m k')"
    by (induction m) auto
  then show ?thesis by (auto simp: get_hash_def put_hash_def map_add_def split: option.split)
qed

lemma put_docs_clean:
  assumes "clean_hashes m" and "\<And>s. ce_hash env s \<noteq> [] \<and> trim_space (ce_hash env s) = ce_hash env s"
  shows "clean_hashes (foldl (put_doc env src) m xs)"
  using assms(1)
proof (induction xs arbitrary: m)
  case (Cons x xs)
  have "clean_hashes (put_doc env src m x)"
    unfolding put_doc_def using Cons.prems assms(2) by (intro put_hash_clean) simp_all
  then show ?case by (simp add: Cons.IH)
qed simp

lemma get_put_docs_other:
  "k \<notin> (\<lambda>x. doc_id src (fst x) (snd x)) ` set xs \<Longrightarrow>
     get_hash (foldl (put_doc env src) m xs) k = get_hash m k"
  by (induction xs arbitrary: m) (auto simp: put_doc_def get_put_hash)

lemma get_put_docs:
  assumes "distinct (map (\<lambda>x. doc_id src (fst x) (snd x)) xs)" and "x \<in> set xs"
  shows "get_hash (foldl (put_doc env src) m xs) (doc_id src (fst x) (snd x)) = ce_hash env (cd_content (snd x))"
  using assms
proof (induction xs arbitrary: m)
  case (Cons y ys)
  show ?case
  proof (cases "x = y")
    case True
    have "doc_id src (fst y) (snd y) \<notin> (\<lambda>x. doc_id src (fst x) (snd x)) ` set ys" using Cons.prems(1) by simp
    then show ?thesis using True by (simp add: get_put_docs_other) (simp add: put_doc_def get_put_hash)
  next
    case False
    then show ?thesis using Cons by simp
  qed
qed simp

lemma connectionView_viewConnection:
  assumes "cs_checkpoint v \<noteq> []" and "obj_del (cs_config v) ''checkpoint'' = cs_config v"
  shows "connectionView ((viewConnection v t a)\<lparr>cn_status := st, cn_synced_at := n, cn_sync_status := x,
      cn_sync_error := e\<rparr>) = v\<lparr>cs_enabled := (st = ''active''), cs_last_sync := n\<rparr>"
  using assms by (simp add: connectionView_def viewConnection_def object_members_def obj_put_get Let_def)

lemma find_row_upd: "(\<And>r. P (f r) = P r) \<Longrightarrow> find_row P (upd_rows P f t) = map_option f (find_row P t)"
  by (induction t) (auto simp: find_row_def upd_rows_def)

lemma sql_GetConnection_Inr:
  "sql_GetConnection db t i = Inr c \<longleftrightarrow> find_row (\<lambda>c. conn_key c = (t, i)) (sd_connections db) = Some c"
  by (auto simp: sql_GetConnection_def row_or_denied_def split: option.splits)

lemma find_row_counted: "find_row P t = Some r \<Longrightarrow> count_rows P t \<noteq> 0"
  by (metis count_rows_0_iff find_row_Some)

text \<open>The row after a successful sync: the row read before it, whatever the row was meanwhile.\<close>

lemma finish_sync_row:
  assumes "sql_GetConnection db t (cn_id conn) = Inr cur" and "cn_tenant conn = t" and "sr_checkpoint r \<noteq> []"
  shows "sql_GetConnection (finish_sync db t conn (Inr r) now) t (cn_id conn) =
    Inr (cur\<lparr>cn_name := cn_name conn, cn_credential := cn_credential conn,
       cn_config := JObj (obj_put (obj_del (object_members (Some (cn_config conn))) ''checkpoint'') ''checkpoint''
          (JObj (sr_checkpoint r))),
       cn_target := cn_target conn, cn_audience_default := [], cn_status := cn_status conn,
       cn_synced_at := Some now, cn_sync_status := ''succeeded'', cn_sync_error := []\<rparr>)"
proof -
  let ?P = "\<lambda>c. conn_key c = (t, cn_id conn)"
  have cur: "find_row ?P (sd_connections db) = Some cur" using assms(1) by (simp add: sql_GetConnection_Inr)
  let ?f = "\<lambda>c. c\<lparr>cn_synced_at := Some now, cn_sync_status := ''succeeded'', cn_sync_error := []\<rparr>"
  have one: "find_row ?P (upd_rows ?P ?f (sd_connections db)) = Some (?f cur)"
    by (subst find_row_upd) (simp add: conn_key_def, simp only: cur option.map)
  have db1: "SetSyncState db t (cn_id conn) now ''succeeded'' [] =
      Inr (db\<lparr>sd_connections := upd_rows ?P ?f (sd_connections db)\<rparr>)"
    using find_row_counted[OF cur] by (simp add: SetSyncState_def denied_unless_rows_def)
  have key: "(cn_tenant conn, cn_id conn) = (t, cn_id conn)" using assms(2) by simp
  show ?thesis
    unfolding finish_sync_def Let_def sum.case db1 sql_GetConnection_Inr
    using assms(3) find_row_counted[OF one] cur[unfolded conn_key_def prod.inject]
    by (simp add: UpdateConnection_def denied_unless_rows_def viewConnection_def connectionView_def Let_def
        conn_key_def find_row_upd)
qed

lemma doc_id_type: "cs_type src' = cs_type src \<Longrightarrow> doc_id src' i d = doc_id src i d"
  by (simp only: doc_id_def doc_file_def)

lemma validate_same:
  "cs_config src' = cs_config src \<Longrightarrow> cs_credential src' = cs_credential src \<Longrightarrow> cs_type src' = cs_type src \<Longrightarrow>
     validateConnectorSource env src' = validateConnectorSource env src"
  by (simp add: validateConnectorSource_def validateCredentialRef_def validateBaseURL_def connectorRequiresCredential_def)

text \<open>
  Syncing again what has been synced uploads nothing. After a successful sync has been written back,
  a second sync of the connection read from the store that is given the same documents, with their ids
  pairwise different and live in the document store and no full sync forced, succeeds without an upload and
  counts every document with content as unchanged. (The hash is any function whose values are not empty
  and carry no surrounding space, as hexadecimal digests.)
\<close>

theorem resync_uploads_nothing:
  assumes "\<And>s. ce_hash env s \<noteq> [] \<and> trim_space (ce_hash env s) = ce_hash env s"
    and "sql_GetConnection db t i = Inr conn"
    and "documentsForSource (connectionView conn) api = Inr (docs, fa, cp)" and "docs \<noteq> []"
    and "syncDocuments env se (connectionView conn) api = Inr r"
    and "sql_GetConnection (finish_sync db t conn (Inr r) now) t i = Inr conn2"
    and "documentsForSource (connectionView conn2) api2 = Inr (docs, fa2, cp2)"
    and "\<not> boolFromAny (obj_get (cs_config (connectionView conn)) ''force_full_sync'') False"
    and "xs = filter (\<lambda>x. cd_content (snd x) \<noteq> []) (enumerate 0 docs)"
    and "distinct (map (\<lambda>x. doc_id (connectionView conn) (fst x) (snd x)) xs)"
    and "se_live se2 = Some ids" and "list_all (\<lambda>x. doc_id (connectionView conn) (fst x) (snd x) \<in> set ids) xs"
  shows "(case syncDocuments env se2 (connectionView conn2) api2 of
      Inr r2 \<Rightarrow> sr_uploads r2 = [] \<and> sr_unchanged r2 = length xs | Inl _ \<Rightarrow> False)"
proof -
  let ?v = "connectionView conn" and ?v2 = "connectionView conn2"
  let ?cfg = "obj_del (object_members (Some (cn_config conn))) ''checkpoint''"
  have ident: "cn_tenant conn = t" "cn_id conn = i"
    using find_row_Some assms(2) unfolding sql_GetConnection_Inr by (force simp: conn_key_def)+
  have pre: "trim_space (cs_target ?v) \<noteq> []" "validateConnectorSource env ?v"
    using assms(5) by (auto simp: syncDocuments_def Let_def split: if_splits)
  have xs: "xs = sync_docs 0 docs" by (simp add: assms(9) sync_docs_def)
  have r: "xs \<noteq> []" "r = sync_outcome env se ?v False (previous_hashes ?v) docs cp"
    using syncDocuments_Inr[OF pre assms(3,4) refl xs refl, of se r] assms(5,8) by auto
  define m where "m = foldl (put_doc env ?v) (previous_hashes ?v) xs"
  have cp: "sr_checkpoint r = obj_put cp ''document_hashes'' (hashes_json m)"
    unfolding r(2) sync_outcome_def by (simp add: sync_spec_def m_def xs Let_def)
  have "conn2 = conn\<lparr>cn_config := JObj (obj_put ?cfg ''checkpoint'' (JObj (sr_checkpoint r))),
      cn_audience_default := [], cn_synced_at := Some now, cn_sync_status := ''succeeded'', cn_sync_error := []\<rparr>"
    using finish_sync_row[of db t conn conn r now] assms(2,6) ident cp by simp
  then have v2: "?v2 = ?v\<lparr>cs_checkpoint := sr_checkpoint r, cs_last_sync := Some now\<rparr>"
    by (simp add: connectionView_def object_members_def obj_put_get Let_def)
  have prev: "previous_hashes ?v2 = m"
    unfolding previous_hashes_def v2
    by (simp add: cp obj_put_get string_members_roundtrip m_def put_docs_clean[OF previous_hashes_clean assms(1)])
  have id2: "doc_id ?v2 (fst x) (snd x) = doc_id ?v (fst x) (snd x)" for x
    by (rule doc_id_type) (simp add: v2)
  have sk: "skipped_doc env se2 ?v2 False m x" if x: "x \<in> set xs" for x
    using get_put_docs[OF assms(10) x, of env "previous_hashes ?v"] assms(12) x
    unfolding skipped_doc_def unchanged_doc_def id2 assms(11) m_def[symmetric] by (simp add: list_all_iff)
  have pre2: "trim_space (cs_target ?v2) \<noteq> []" "validateConnectorSource env ?v2"
      "False = boolFromAny (obj_get (cs_config ?v2) ''force_full_sync'') False"
    using pre assms(8) validate_same[of ?v2 ?v env] by (simp_all add: v2)
  have none: "filter (\<lambda>x. \<not> skipped_doc env se2 ?v2 False m x) xs = []"
    and every: "filter (skipped_doc env se2 ?v2 False m) xs = xs"
    using sk by (auto simp: filter_empty_conv filter_id_conv)
  have "list_all (doc_ok env se2 ?v2 False m) xs"
    using sk by (auto simp: list_all_iff doc_ok_def skipped_doc_def assms(11))
  then have "syncDocuments env se2 ?v2 api2 = Inr (sync_outcome env se2 ?v2 False m docs cp2)"
    using syncDocuments_Inr[OF pre2(1,2) assms(7,4) pre2(3) xs prev[symmetric]] r(1) by blast
  moreover have "sync_outcome env se2 ?v2 False m docs cp2 = \<lparr>sr_uploads = [], sr_fetched = length docs,
      sr_unchanged = length xs, sr_checkpoint = obj_put cp2 ''document_hashes'' (hashes_json (foldl (put_doc env ?v2) m xs))\<rparr>"
    unfolding sync_outcome_def sync_spec_def Let_def xs[symmetric] by (simp only: none every) simp
  ultimately show ?thesis by simp
qed

definition demo_source_db :: source_db where
  "demo_source_db = empty_source_db\<lparr>sd_connections := [demo_connection]\<rparr>"

lemma demo_hash: "ce_hash demo_env s \<noteq> [] \<and> trim_space (ce_hash demo_env s) = ce_hash demo_env s"
proof -
  have *: "dropWhile is_space (filter (\<lambda>c. \<not> is_space c) t) = filter (\<lambda>c. \<not> is_space c) t" for t
    by (induction t) auto
  have "ce_hash demo_env s = filter (\<lambda>c. \<not> is_space c) (''h'' @ s)"
    by (simp add: demo_env_def is_space_def)
  then show ?thesis by (simp only: trim_space_def * rev_filter rev_rev_ident) (simp add: is_space_def)
qed

theorem resync_uploads_nothing_witness:
  "(case syncDocuments demo_env demo_store (connectionView demo_connection) (Inr (demo_docs, [])) of Inl e \<Rightarrow> False
    | Inr r \<Rightarrow> (case sql_GetConnection (finish_sync demo_source_db ''ten'' demo_connection (Inr r) 7) ''ten'' ''con'' of
        Inl e \<Rightarrow> False
      | Inr c2 \<Rightarrow> (case syncDocuments demo_env \<lparr>se_live = Some [''d1'', ''d3''], se_upload = (\<lambda>_. False)\<rparr>
            (connectionView c2) (Inr (demo_docs, [])) of
          Inl e \<Rightarrow> False | Inr r2 \<Rightarrow> sr_uploads r2 = [] \<and> sr_unchanged r2 = 2)))"
proof -
  let ?v = "connectionView demo_connection" and ?api = "Inr (demo_docs, [])"
  let ?se2 = "\<lparr>se_live = Some [''d1'', ''d3''], se_upload = (\<lambda>_. False)\<rparr>"
  obtain r where r: "syncDocuments demo_env demo_store ?v ?api = Inr r"
  proof -
    have "is_ok (syncDocuments demo_env demo_store ?v ?api)" by code_simp
    then show ?thesis using that by (auto elim!: is_okE)
  qed
  have "is_ok (bind_r (map_sum (\<lambda>_. ErrDenied) id (syncDocuments demo_env demo_store ?v ?api)) (\<lambda>r.
      sql_GetConnection (finish_sync demo_source_db ''ten'' demo_connection (Inr r) 7) ''ten'' ''con''))" by code_simp
  then obtain c2 where c2:
      "sql_GetConnection (finish_sync demo_source_db ''ten'' demo_connection (Inr r) 7) ''ten'' ''con'' = Inr c2"
    unfolding r by (auto elim!: is_okE)
  have "(case bind_r (map_sum (\<lambda>_. ErrDenied) id (syncDocuments demo_env demo_store ?v ?api)) (\<lambda>r.
      sql_GetConnection (finish_sync demo_source_db ''ten'' demo_connection (Inr r) 7) ''ten'' ''con'') of
      Inl e \<Rightarrow> False | Inr c \<Rightarrow> documentsFromConfig (cs_config (connectionView c)) = [])" by code_simp
  then have d2: "documentsForSource (connectionView c2) ?api = Inr (demo_docs, True, [])"
    unfolding r by (simp add: c2 documentsForSource_def)
  have f: "sql_GetConnection demo_source_db ''ten'' ''con'' = Inr demo_connection"
    "documentsForSource ?v ?api = Inr (demo_docs, True, [])" "demo_docs \<noteq> []"
    "\<not> boolFromAny (obj_get (cs_config ?v) ''force_full_sync'') False"
    "distinct (map (\<lambda>x. doc_id ?v (fst x) (snd x)) (filter (\<lambda>x. cd_content (snd x) \<noteq> []) (enumerate 0 demo_docs)))"
    "list_all (\<lambda>x. doc_id ?v (fst x) (snd x) \<in> set [''d1'', ''d3''])
      (filter (\<lambda>x. cd_content (snd x) \<noteq> []) (enumerate 0 demo_docs))"
    "length (filter (\<lambda>x. cd_content (snd x) \<noteq> []) (enumerate 0 demo_docs)) = 2"
    by code_simp+
  have "se_live ?se2 = Some [''d1'', ''d3'']" by simp
  from resync_uploads_nothing[OF demo_hash f(1,2,3) r c2 d2 f(4) refl f(5) this f(6)]
  show ?thesis unfolding r f(7) sum.case c2 .
qed

text \<open>
  The write-back at the end of a successful sync overwrites whatever happened to the connection while
  the sync ran: status, name, credential, target and configuration are again those read when the sync
  began (\<open>conn\<close>), only the checkpoint is new. A source disabled, retargeted or given another
  credential during a sync is silently put back.
\<close>

theorem sync_overwrites_concurrent_changes:
  assumes "sql_GetConnection db t i = Inr conn" and "sql_GetConnection db2 t i = Inr cur"
    and "sr_checkpoint r \<noteq> []"
    and "sql_GetConnection (finish_sync db2 t conn (Inr r) now) t i = Inr conn2"
  shows "cn_status conn2 = cn_status conn \<and> cn_name conn2 = cn_name conn \<and>
    cn_credential conn2 = cn_credential conn \<and> cn_target conn2 = cn_target conn \<and>
    cs_config (connectionView conn2) = cs_config (connectionView conn) \<and>
    cs_checkpoint (connectionView conn2) = sr_checkpoint r"
proof -
  have ident: "cn_tenant conn = t" "cn_id conn = i"
    using find_row_Some assms(1) unfolding sql_GetConnection_Inr by (force simp: conn_key_def)+
  show ?thesis
    using finish_sync_row[of db2 t conn cur r now] assms ident
    by (auto simp: connectionView_def object_members_def obj_put_get Let_def)
qed

theorem sync_overwrites_concurrent_changes_witness:
  "(case UpdateSource demo_env demo_source_db (zero_principal\<lparr>p_tenant := ''ten'', p_actor := ''usr''\<rparr>) ''con''
      \<lparr>ui_type = None, ui_name = None, ui_target = None, ui_config = None, ui_credential = None,
       ui_checkpoint = None, ui_enabled = Some False\<rparr> of
     Inl e \<Rightarrow> False
   | Inr (db2, view) \<Rightarrow> \<not> cs_enabled view \<and>
       (case sql_GetConnection (finish_sync db2 ''ten'' demo_connection
           (Inr \<lparr>sr_uploads = [], sr_fetched = 0, sr_unchanged = 0, sr_checkpoint = [(''k'', JNull)]\<rparr>) 7) ''ten'' ''con'' of
          Inl e \<Rightarrow> False | Inr c \<Rightarrow> cn_status c = ''active''))"
proof -
  let ?u = "UpdateSource demo_env demo_source_db (zero_principal\<lparr>p_tenant := ''ten'', p_actor := ''usr''\<rparr>) ''con''
      \<lparr>ui_type = None, ui_name = None, ui_target = None, ui_config = None, ui_credential = None,
       ui_checkpoint = None, ui_enabled = Some False\<rparr>"
  let ?r = "\<lparr>sr_uploads = [], sr_fetched = 0, sr_unchanged = 0, sr_checkpoint = [(''k'', JNull)]\<rparr>"
  have "(case ?u of Inl e \<Rightarrow> False | Inr (db2, view) \<Rightarrow> \<not> cs_enabled view \<and>
      is_ok (sql_GetConnection db2 ''ten'' ''con'') \<and>
      is_ok (sql_GetConnection (finish_sync db2 ''ten'' demo_connection (Inr ?r) 7) ''ten'' ''con''))" by code_simp
  then obtain db2 view cur c where u: "?u = Inr (db2, view)" "\<not> cs_enabled view"
      "sql_GetConnection db2 ''ten'' ''con'' = Inr cur"
      "sql_GetConnection (finish_sync db2 ''ten'' demo_connection (Inr ?r) 7) ''ten'' ''con'' = Inr c"
    by (auto split: sum.splits elim!: is_okE)
  have g: "sql_GetConnection demo_source_db ''ten'' ''con'' = Inr demo_connection" by code_simp
  from sync_overwrites_concurrent_changes[OF g u(3) _ u(4)]
  have "cn_status c = ''active''" by (simp add: demo_connection_def)
  then show ?thesis using u by simp
qed

section \<open>Credentials\<close>

text \<open>
  A connector reads only its own credentials. What \<open>connectorToken\<close> answers does not change with any
  environment variable other than those whose name matches \<open>CONNECTOR_<type>_[A-Z0-9_]+\<close> for the source's
  own type, so no source can be configured to send out another secret of the process.
\<close>

theorem credential_confined:
  assumes "\<And>n. ref_matches n (credentialProviderForType (cs_type s)) \<Longrightarrow> getenv' n = ce_getenv env n"
  shows "connectorToken (env\<lparr>ce_getenv := getenv'\<rparr>) s = connectorToken env s"
  using assms by (auto simp: connectorToken_def validateCredentialRef_def Let_def)

theorem credential_confined_witness:
  "connectorToken (demo_env\<lparr>ce_getenv := (\<lambda>n. if ref_matches n ''SLACK'' then ce_getenv demo_env n else ''changed'')\<rparr>)
     (connectionView demo_connection) = Some ''xoxb'' \<and>
   connectorToken demo_env ((connectionView demo_connection)\<lparr>cs_credential := ''DATABASE_URL''\<rparr>) = None"
proof -
  have p: "credentialProviderForType (cs_type (connectionView demo_connection)) = ''SLACK''" by code_simp
  have "connectorToken demo_env (connectionView demo_connection) = Some ''xoxb''" by code_simp
  moreover have "connectorToken demo_env ((connectionView demo_connection)\<lparr>cs_credential := ''DATABASE_URL''\<rparr>) = None"
    by code_simp
  moreover have "ref_matches n (credentialProviderForType (cs_type (connectionView demo_connection))) \<Longrightarrow>
      (if ref_matches n ''SLACK'' then ce_getenv demo_env n else ''changed'') = ce_getenv demo_env n" for n
    by (simp add: p)
  note r = credential_confined[OF this]
  ultimately show ?thesis by (simp only: r simp_thms)
qed

section \<open>Base URLs\<close>

definition ip_value :: "ip \<Rightarrow> nat" where
  "ip_value a = foldl (\<lambda>v b. 256 * v + b) 0 a"

lemma ip_value_4: "ip_value [x, y, z, w] = 16777216 * x + 65536 * y + 256 * z + w"
  by (simp add: ip_value_def)

text \<open>
  A base URL of a connector never resolves into the machine's own networks: the byte tests of
  \<open>disallowedConnectorIP\<close> refuse exactly the IPv4 addresses of the ranges loopback, the three private
  ranges, link local, local multicast and the unspecified address, in the 4-byte form and in the 16-byte
  form alike.
\<close>

theorem disallowed_ranges:
  assumes "length a = 4" and "list_all (\<lambda>b. b < 256) a"
  shows "disallowedConnectorIP (replicate 10 0 @ [255, 255] @ a) = disallowedConnectorIP a \<and>
    disallowedConnectorIP a =
      list_ex (\<lambda>(lo, hi). ip_value lo \<le> ip_value a \<and> ip_value a \<le> ip_value hi)
        [([127,0,0,0], [127,255,255,255]), ([10,0,0,0], [10,255,255,255]), ([172,16,0,0], [172,31,255,255]),
         ([192,168,0,0], [192,168,255,255]), ([169,254,0,0], [169,254,255,255]), ([224,0,0,0], [224,0,0,255]),
         ([0,0,0,0], [0,0,0,0])]"
proof -
  obtain b0 b1 b2 b3 where a: "a = [b0, b1, b2, b3]"
    using assms(1) by (auto simp: length_Suc_conv numeral_eq_Suc)
  have b: "b0 < 256" "b1 < 256" "b2 < 256" "b3 < 256" using assms(2) by (simp_all add: a)
  have d: "b1 div 16 = 1 \<longleftrightarrow> 16 \<le> b1 \<and> b1 < 32" by presburger
  note v = ip_value_4 a d
  have r: "b0 = 127 \<longleftrightarrow> ip_value [127,0,0,0] \<le> ip_value a \<and> ip_value a \<le> ip_value [127,255,255,255]"
    "b0 = 10 \<longleftrightarrow> ip_value [10,0,0,0] \<le> ip_value a \<and> ip_value a \<le> ip_value [10,255,255,255]"
    "b0 = 172 \<and> b1 div 16 = 1 \<longleftrightarrow> ip_value [172,16,0,0] \<le> ip_value a \<and> ip_value a \<le> ip_value [172,31,255,255]"
    "b0 = 192 \<and> b1 = 168 \<longleftrightarrow> ip_value [192,168,0,0] \<le> ip_value a \<and> ip_value a \<le> ip_value [192,168,255,255]"
    "b0 = 169 \<and> b1 = 254 \<longleftrightarrow> ip_value [169,254,0,0] \<le> ip_value a \<and> ip_value a \<le> ip_value [169,254,255,255]"
    "b0 = 224 \<and> b1 = 0 \<and> b2 = 0 \<longleftrightarrow> ip_value [224,0,0,0] \<le> ip_value a \<and> ip_value a \<le> ip_value [224,0,0,255]"
    "a = [0,0,0,0] \<longleftrightarrow> ip_value [0,0,0,0] \<le> ip_value a \<and> ip_value a \<le> ip_value [0,0,0,0]"
    unfolding v list.inject
    using b subgoal by linarith
    using b subgoal by linarith
    using b subgoal by (cases "b0 = 172"; simp; linarith)
    using b subgoal by (cases "b0 = 192"; simp; linarith)
    using b subgoal by (cases "b0 = 169"; simp; linarith)
    using b subgoal by (cases "b0 = 224"; cases "b1 = 0"; simp; linarith)
    using b subgoal by (cases "b0 = 0"; cases "b1 = 0"; simp; linarith)
    done
  have "disallowedConnectorIP a \<longleftrightarrow>
      b0 = 127 \<or> b0 = 10 \<or> (b0 = 172 \<and> b1 div 16 = 1) \<or> (b0 = 192 \<and> b1 = 168) \<or> (b0 = 169 \<and> b1 = 254) \<or>
      (b0 = 224 \<and> b1 = 0 \<and> b2 = 0) \<or> a = [0,0,0,0]"
    by (auto simp: disallowedConnectorIP_def to4_def a)
  moreover have "disallowedConnectorIP (replicate 10 0 @ [255, 255] @ a) = disallowedConnectorIP a"
    by (simp add: disallowedConnectorIP_def to4_def a)
  ultimately show ?thesis unfolding r by (simp only: list_ex_iff) simp
qed

theorem disallowed_ranges_witness:
  "disallowedConnectorIP [172, 31, 255, 255] \<and> \<not> disallowedConnectorIP [172, 32, 0, 0] \<and>
   \<not> disallowedConnectorIP [100, 64, 0, 1]"
proof -
  have l: "length [172, 31, 255, 255::nat] = 4" "list_all (\<lambda>b. b < 256) [172, 31, 255, 255::nat]"
    "length [172, 32, 0, 0::nat] = 4" "list_all (\<lambda>b. b < 256) [172, 32, 0, 0::nat]"
    "length [100, 64, 0, 1::nat] = 4" "list_all (\<lambda>b. b < 256) [100, 64, 0, 1::nat]" by simp_all
  show ?thesis
    using disallowed_ranges[OF l(1,2)] disallowed_ranges[OF l(3,4)] disallowed_ranges[OF l(5,6)]
    by (simp add: ip_value_def)
qed

section \<open>The scheduler\<close>

lemma parseSyncInterval_min: "parseSyncInterval iv cfg = Some d \<Longrightarrow> MinSyncInterval \<le> d"
  by (auto simp: parseSyncInterval_def secondsOrDisabled_def durationOrDisabled_def DefaultSyncInterval_def
      MinSyncInterval_def Let_def split: option.splits json.splits if_splits)

text \<open>
  The pace of scheduled syncs. Whatever the configuration says, the interval between syncs is at
  least five minutes, a sync is due only when the whole interval has passed since the last one
  completed, and the schedule window, which makes the idempotency key of the job, is then a later one, so
  a due sync is never swallowed by the job of an earlier interval.
\<close>

theorem scheduled_pace:
  assumes "syncDue iv cfg (Some t) now"
  shows "(case parseSyncInterval iv cfg of
      None \<Rightarrow> False
    | Some d \<Rightarrow> 300 * second \<le> d \<and> t + d \<le> now \<and> sync_window t d < sync_window now d)"
proof -
  obtain d where d: "parseSyncInterval iv cfg = Some d" "t + d \<le> now"
    using assms by (auto simp: syncDue_def split: option.splits)
  have m: "300 * second \<le> d" using parseSyncInterval_min[OF d(1)] by (simp add: MinSyncInterval_def)
  let ?u = "d div second"
  have s: "(0::int) < second" by simp
  then have u: "0 < ?u" using m by (simp add: pos_imp_zdiv_pos_iff)
  have "t div second + ?u \<le> (t + d) div second"
    using div_add1_eq[of t d second] by (simp add: pos_imp_zdiv_nonneg_iff)
  also have "\<dots> \<le> now div second" using d(2) s by (rule zdiv_mono1)
  finally have "t div second + ?u \<le> now div second" .
  then have "(t div second + ?u) div ?u \<le> (now div second) div ?u" using u by (rule zdiv_mono1)
  then have "sync_window t d < sync_window now d" using u by (simp add: sync_window_def)
  then show ?thesis using d m by simp
qed

theorem scheduled_pace_witness:
  "(case parseSyncInterval \<lparr>iv_num = (\<lambda>_. None), iv_dur = (\<lambda>_. Some (60 * second)), iv_conv = (\<lambda>_. 0)\<rparr>
        [(''sync_interval'', JStr ''1m'')] of
      None \<Rightarrow> False
    | Some d \<Rightarrow> d = 300 * second \<and> sync_window (600 * second) d < sync_window (900 * second) d)"
proof -
  let ?iv = "\<lparr>iv_num = (\<lambda>_. None), iv_dur = (\<lambda>_. Some (60 * second)), iv_conv = (\<lambda>_. 0)\<rparr>"
  have p: "parseSyncInterval ?iv [(''sync_interval'', JStr ''1m'')] = Some (300 * second)" by code_simp
  have "syncDue ?iv [(''sync_interval'', JStr ''1m'')] (Some (600 * second)) (900 * second)" by code_simp
  from scheduled_pace[OF this] show ?thesis unfolding p by simp
qed

section \<open>Submitting the same sync again\<close>

text \<open>
  Submitting a sync twice makes one job. While the connection's configuration and credential are
  unchanged, a later submission with the same window is answered with the job of the first one in
  whatever state that job is, and changes no row. For a manual sync, whose window is always 0, this includes a job
  that has failed for good: asking again never runs it.
\<close>

theorem sync_submitted_once:
  assumes "jobs_reachable (je_digest je) (je_uuid je) base s" and "requireTenant p"
    and "req = sync_request env je (p_tenant p) conn window"
    and "Enqueue (je_digest je) (je_uuid je) (js_db s) p req newid now = Inr (db', job, True)"
    and "s2 = jobs_run (je_digest je) (je_uuid je) base s (EvEnqueue p req newid now # evs)"
    and "sql_GetConnection db2 (p_tenant p) (trim_space i) = Inr conn2" and "cn_status conn2 = ''active''"
    and "(cn_id conn2, cn_config conn2, cn_credential conn2) = (cn_id conn, cn_config conn, cn_credential conn)"
  shows "list_ex (\<lambda>j2. jb_id (scanJobRow j2) = jb_id job \<and>
      syncSource env je db2 (js_db s2) p i window newid2 now2 = Inr (js_db s2, scanJobRow j2)) (d_jobs (js_db s2))"
proof -
  have same: "sync_request env je (p_tenant p) conn2 window = req"
    unfolding assms(3) using assms(8) by (simp add: sync_request_def sync_key_def config_hash_def)
  obtain j2 where j2: "j2 \<in> set (d_jobs (js_db s2))" "jb_id (scanJobRow j2) = jb_id job"
      "Enqueue (je_digest je) (je_uuid je) (js_db s2) p req newid2 now2 = Inr (js_db s2, scanJobRow j2, False)"
    using enqueue_again[OF assms(1,4) Enqueue_created(1)[OF assms(4)] refl assms(5), of newid2 now2] by auto
  have "syncSource env je db2 (js_db s2) p i window newid2 now2 = Inr (js_db s2, scanJobRow j2)"
    unfolding syncSource_def using assms(2,6,7) by (simp add: lift_source_def same j2(3))
  then show ?thesis using j2(1,2) by (auto simp: list_ex_iff)
qed

definition demo_jobs_env :: job_env where
  "demo_jobs_env = \<lparr>je_digest = demo_dig, je_uuid = (\<lambda>_. True), je_marshal = (\<lambda>_. ''cfg'')\<rparr>"

definition demo_syncer :: principal where
  "demo_syncer = zero_principal\<lparr>p_tenant := ''ten'', p_actor := ''usr''\<rparr>"

definition demo_sync_evs :: "jobs_event list" where
  "demo_sync_evs = [EvLease ''w1'' 10 1 [] ''att_1'', EvFail 0 (Some (PlainError ''gone'')) FailureFatal 3 3]"

theorem sync_submitted_once_witness:
  "(case syncSource demo_env demo_jobs_env demo_source_db
       (js_db (jobs_run demo_dig (\<lambda>_. True) 100000000 init_jobs
          (EvEnqueue demo_syncer (sync_request demo_env demo_jobs_env ''ten'' demo_connection 0) ''job_1'' 0 # demo_sync_evs)))
       demo_syncer ''con'' 0 ''job_9'' 50 of
      Inr (_, j) \<Rightarrow> jb_id j = ''job_1'' \<and> jb_status j = Failed | Inl e \<Rightarrow> False)"
proof -
  let ?req = "sync_request demo_env demo_jobs_env ''ten'' demo_connection 0"
  let ?s2 = "jobs_run demo_dig (\<lambda>_. True) 100000000 init_jobs (EvEnqueue demo_syncer ?req ''job_1'' 0 # demo_sync_evs)"
  have je: "je_digest demo_jobs_env = demo_dig" "je_uuid demo_jobs_env = (\<lambda>_. True)" "p_tenant demo_syncer = ''ten''"
    by (simp_all add: demo_jobs_env_def demo_syncer_def)
  have r0: "jobs_reachable (je_digest demo_jobs_env) (je_uuid demo_jobs_env) 100000000 init_jobs"
    unfolding jobs_reachable_def by (rule exI[of _ "[]"]) (simp add: jobs_run_def)
  have "(case Enqueue demo_dig (\<lambda>_. True) (js_db init_jobs) demo_syncer ?req ''job_1'' 0 of
      Inr (db', job, b) \<Rightarrow> b \<and> jb_id job = ''job_1'' | Inl e \<Rightarrow> False)" by code_simp
  then obtain db' job where e: "jb_id job = ''job_1''"
    "Enqueue (je_digest demo_jobs_env) (je_uuid demo_jobs_env) (js_db init_jobs) demo_syncer ?req ''job_1'' 0 = Inr (db', job, True)"
    unfolding je by (auto split: sum.splits prod.splits)
  have t: "requireTenant demo_syncer" "cn_status demo_connection = ''active''"
    "sql_GetConnection demo_source_db (p_tenant demo_syncer) (trim_space ''con'') = Inr demo_connection"
    "list_all (\<lambda>j. jb_status (scanJobRow j) = Failed) (d_jobs (js_db ?s2))" by code_simp+
  have "list_ex (\<lambda>j2. jb_id (scanJobRow j2) = jb_id job \<and>
      syncSource demo_env demo_jobs_env demo_source_db (js_db ?s2) demo_syncer ''con'' 0 ''job_9'' 50 =
        Inr (js_db ?s2, scanJobRow j2)) (d_jobs (js_db ?s2))"
    by (rule sync_submitted_once[OF r0 t(1) _ e(2) _ t(3,2) refl, where evs = demo_sync_evs]) (simp_all only: je)
  then obtain j2 where "j2 \<in> set (d_jobs (js_db ?s2))" "jb_id (scanJobRow j2) = ''job_1''"
      "syncSource demo_env demo_jobs_env demo_source_db (js_db ?s2) demo_syncer ''con'' 0 ''job_9'' 50 =
        Inr (js_db ?s2, scanJobRow j2)" using e(1) by (auto simp: list_ex_iff)
  then show ?thesis using t(4) by (simp add: list_all_iff)
qed

end
