(* ===== verification/ConnectorsSys.thy ===== *)
theory ConnectorsSys
  imports Connectors
begin

text \<open>
  The connector service as a transition system over the connection rows: creating, updating and deleting sources,
  and the two halves of a sync attempt, which reads a row and later writes it back. The rows stay
  well-formed under every interleaving.
\<close>

record connector_state =
  ct_db :: source_db
  ct_reads :: "connection list"

datatype connector_op =
    CoCreate principal create_source string
  | CoUpdate principal string update_source
  | CoDelete principal string
  | CoRead string string
  | CoFinish nat "string + sync_result" time

definition init_connectors :: connector_state where
  "init_connectors = \<lparr>ct_db = empty_source_db, ct_reads = []\<rparr>"

definition keep_source :: "connector_state \<Rightarrow> connector_error + source_db \<times> connector_source \<Rightarrow> connector_state" where
  "keep_source s r = (case r of Inl _ \<Rightarrow> s | Inr (db, _) \<Rightarrow> s\<lparr>ct_db := db\<rparr>)"

fun connector_step ::
    "connector_env \<Rightarrow> (string \<Rightarrow> bool) \<Rightarrow> connector_state \<Rightarrow> connector_op \<Rightarrow> connector_state" where
  "connector_step env uuid_ok s (CoCreate p input newid) = keep_source s (CreateSource env uuid_ok (ct_db s) p input newid)"
| "connector_step env uuid_ok s (CoUpdate p i input) = keep_source s (UpdateSource env (ct_db s) p i input)"
| "connector_step env uuid_ok s (CoDelete p i) =
     (case DeleteSource (ct_db s) p i of Inl _ \<Rightarrow> s | Inr db \<Rightarrow> s\<lparr>ct_db := db\<rparr>)"
| "connector_step env uuid_ok s (CoRead t i) =
     (case sql_GetConnection (ct_db s) t i of Inl _ \<Rightarrow> s | Inr c \<Rightarrow> s\<lparr>ct_reads := ct_reads s @ [c]\<rparr>)"
| "connector_step env uuid_ok s (CoFinish n res now) =
     (if n < length (ct_reads s)
      then s\<lparr>ct_db := finish_sync (ct_db s) (cn_tenant (ct_reads s ! n)) (ct_reads s ! n) res now\<rparr> else s)"

text \<open>What every row satisfies: the schema's checks and what the service promises of its fields.\<close>

definition provider_names :: "string list" where
  "provider_names = [''GITHUB'', ''SLACK'', ''TEAMS'', ''NOTION'', ''GOOGLE_DRIVE'']"

definition wf_connection :: "connection \<Rightarrow> bool" where
  "wf_connection c \<longleftrightarrow>
     cn_kind c \<in> set connector_types \<and> cn_status c \<in> {''active'', ''disabled''} \<and>
     cn_name c \<noteq> [] \<and> trim_space (cn_name c) = cn_name c \<and> trim_space (cn_target c) = cn_target c \<and>
     trim_space (cn_credential c) = cn_credential c \<and>
     (cn_credential c = [] \<or> list_ex (ref_matches (cn_credential c)) provider_names) \<and>
     (case cn_config c of JObj _ \<Rightarrow> True | _ \<Rightarrow> False)"

definition wf_connectors :: "connector_state \<Rightarrow> bool" where
  "wf_connectors s \<longleftrightarrow>
     distinct (map conn_key (sd_connections (ct_db s))) \<and>
     list_all wf_connection (sd_connections (ct_db s)) \<and> list_all wf_connection (ct_reads s)"

lemma valid_credential:
  "validateCredentialRef v \<Longrightarrow> trim_space (cs_credential v) = cs_credential v \<Longrightarrow>
     cs_credential v = [] \<or> list_ex (ref_matches (cs_credential v)) provider_names"
proof -
  have "ref_matches ref pr \<Longrightarrow> list_ex (ref_matches ref) provider_names" for ref pr
    unfolding list_ex_iff by (rule bexI[of _ pr]) (auto simp: ref_matches_def provider_names_def)
  then show "validateCredentialRef v \<Longrightarrow> trim_space (cs_credential v) = cs_credential v \<Longrightarrow> ?thesis"
    by (simp add: validateCredentialRef_def Let_def split: if_splits)
qed

lemma normalized_type: "normalizeSourceType raw = Some ty \<Longrightarrow> ty \<in> set connector_types"
  by (auto simp: normalizeSourceType_def Let_def split: if_splits)

text \<open>An update of well-formed rows by well-formed fields.\<close>

lemma wf_update:
  assumes "distinct (map conn_key cs)" and "list_all wf_connection cs"
    and "UpdateConnection (db\<lparr>sd_connections := cs\<rparr>) c = Inr db'" and "wf_connection c"
  shows "distinct (map conn_key (sd_connections db')) \<and> list_all wf_connection (sd_connections db')"
proof -
  let ?f = "\<lambda>d. d\<lparr>cn_name := cn_name c, cn_credential := cn_credential c, cn_config := cn_config c,
              cn_target := cn_target c, cn_audience_default := cn_audience_default c, cn_status := cn_status c\<rparr>"
  have db': "sd_connections db' = upd_rows (\<lambda>d. conn_key d = conn_key c) ?f cs"
    using assms(3) by (auto simp: UpdateConnection_def denied_unless_rows_def split: if_splits)
  have k: "map conn_key (upd_rows (\<lambda>d. conn_key d = conn_key c) ?f cs) = map conn_key cs"
    by (rule map_upd_rows) (simp add: conn_key_def)
  have "wf_connection (?f d)" if "wf_connection d" for d
    using that assms(4) by (simp add: wf_connection_def)
  then have "list_all wf_connection (upd_rows (\<lambda>d. conn_key d = conn_key c) ?f cs)"
    using assms(2) by (auto simp: list_all_iff set_upd_rows)
  then show ?thesis unfolding db' k using assms(1) by blast
qed

lemma CreateSource_wf:
  assumes "distinct (map conn_key (sd_connections db))" and "list_all wf_connection (sd_connections db)"
    and "CreateSource env uuid_ok db p input newid = Inr (db', v)"
  shows "distinct (map conn_key (sd_connections db')) \<and> list_all wf_connection (sd_connections db')"
proof -
  obtain ty where ty: "normalizeSourceType (ci_type input) = Some ty"
    using assms(3) by (auto simp: CreateSource_def split: if_splits option.splits)
  let ?v = "\<lparr>cs_id = newid, cs_type = ty, cs_name = trim_space (ci_name input),
              cs_target = trim_space (ci_target input), cs_config = ci_config input,
              cs_credential = trim_space (ci_credential input), cs_checkpoint = [],
              cs_enabled = (case ci_enabled input of None \<Rightarrow> True | Some b \<Rightarrow> b), cs_last_sync = None\<rparr>"
  let ?c = "viewConnection ?v (p_tenant p) (p_actor p)"
  have g: "trim_space (ci_name input) \<noteq> []" "validateConnectorSource env ?v"
    and cr: "CreateConnection uuid_ok db ?c = Inr db'"
    using assms(3) by (auto simp: CreateSource_def Let_def ty bind_r_Inr split: if_splits)
  have "trim_space (ci_credential input) = [] \<or> list_ex (ref_matches (trim_space (ci_credential input))) provider_names"
    using valid_credential[of ?v] g(2) by (simp add: validateConnectorSource_def trim_space_idem)
  then have wf: "wf_connection (?c\<lparr>cn_synced_at := None, cn_sync_status := [], cn_sync_error := []\<rparr>)"
    using g(1) normalized_type[OF ty] by (auto simp: wf_connection_def viewConnection_def trim_space_idem)
  have st: "(if cn_status ?c = [] then ''active'' else cn_status ?c) = cn_status ?c" by (simp add: viewConnection_def)
  have cr2: "\<not> list_ex (\<lambda>d. conn_key d = conn_key ?c) (sd_connections db)"
    "sd_connections db' = sd_connections db @ [?c\<lparr>cn_synced_at := None, cn_sync_status := [], cn_sync_error := []\<rparr>]"
    using cr unfolding CreateConnection_def st by (auto simp: constraint_def split: if_splits)
  then show ?thesis using wf assms(1,2) by (auto simp: list_ex_iff conn_key_def)
qed

lemma view_status: "cn_status (viewConnection v t a) \<in> {''active'', ''disabled''}"
  by (simp add: viewConnection_def)

lemma UpdateSource_wf:
  assumes "distinct (map conn_key (sd_connections db))" and "list_all wf_connection (sd_connections db)"
    and "UpdateSource env db p i input = Inr (db', w)"
  shows "distinct (map conn_key (sd_connections db')) \<and> list_all wf_connection (sd_connections db')"
proof -
  obtain conn ty where conn: "sql_GetConnection db (p_tenant p) (trim_space i) = Inr conn"
    and ty: "(case ui_type input of None \<Rightarrow> Some (cn_kind conn) | Some raw \<Rightarrow> normalizeSourceType raw) = Some ty"
    and g: "cs_name (updated_view (connectionView conn) input ty) \<noteq> []"
      "validateConnectorSource env (updated_view (connectionView conn) input ty)"
      "UpdateConnection db (viewConnection (updated_view (connectionView conn) input ty) (p_tenant p) (cn_created_by conn)) = Inr db'"
    using assms(3)
    by (auto simp: UpdateSource_def Let_def bind_r_Inr connectionView_def
        split: if_splits option.splits)
  let ?v = "updated_view (connectionView conn) input ty"
  have "conn \<in> set (sd_connections db)"
    using conn by (auto simp: sql_GetConnection_def row_or_denied_def split: option.splits dest: find_row_Some)
  then have wf: "wf_connection conn" using assms(2) by (simp add: list_all_iff)
  have t: "ty \<in> set connector_types"
    using ty wf normalized_type by (auto simp: wf_connection_def split: option.splits)
  have tr: "trim_space (cs_credential ?v) = cs_credential ?v" "trim_space (cs_name ?v) = cs_name ?v"
    "trim_space (cs_target ?v) = cs_target ?v"
    using wf by (auto simp: updated_view_def connectionView_def or_keep_def wf_connection_def trim_space_idem Let_def
        split: option.splits)
  have "wf_connection (viewConnection ?v (p_tenant p) (cn_created_by conn))"
    using tr g(1,2) t valid_credential[of ?v] view_status
    by (auto simp: wf_connection_def viewConnection_def validateConnectorSource_def updated_view_def)
  then show ?thesis using wf_update[OF assms(1,2), of db] g(3) by simp
qed

abbreviation wf_rows :: "source_db \<Rightarrow> bool" where
  "wf_rows db \<equiv> distinct (map conn_key (sd_connections db)) \<and> list_all wf_connection (sd_connections db)"

lemma SetSyncState_wf:
  assumes "wf_rows db" and "SetSyncState db t i synced st err = Inr db'"
  shows "wf_rows db'"
proof -
  let ?P = "\<lambda>c. conn_key c = (t, i)"
  let ?f = "\<lambda>c. c\<lparr>cn_synced_at := Some synced, cn_sync_status := st, cn_sync_error := err\<rparr>"
  have db': "sd_connections db' = upd_rows ?P ?f (sd_connections db)"
    using assms(2) by (auto simp: SetSyncState_def denied_unless_rows_def split: if_splits)
  have k: "map conn_key (upd_rows ?P ?f (sd_connections db)) = map conn_key (sd_connections db)"
    by (rule map_upd_rows) (simp add: conn_key_def)
  have "wf_connection (?f c)" if "wf_connection c" for c using that by (simp add: wf_connection_def)
  then have "list_all wf_connection (upd_rows ?P ?f (sd_connections db))"
    using assms(1) by (auto simp: list_all_iff set_upd_rows)
  then show ?thesis unfolding db' k using assms(1) by blast
qed

lemma written_back_wf:
  "wf_connection conn \<Longrightarrow>
     wf_connection ((viewConnection ((connectionView conn)\<lparr>cs_checkpoint := cp\<rparr>) t a)\<lparr>cn_status := cn_status conn\<rparr>)"
  by (simp add: wf_connection_def viewConnection_def connectionView_def Let_def)

lemma finish_sync_wf:
  assumes "wf_rows db" and "wf_connection conn"
  shows "wf_rows (finish_sync db t conn res now)"
proof -
  have keep: "wf_rows (case r of Inl _ \<Rightarrow> d | Inr d' \<Rightarrow> d')" if "wf_rows d" "\<And>d'. r = Inr d' \<Longrightarrow> wf_rows d'"
    for r :: "source_error + source_db" and d using that by (cases r) auto
  have one: "wf_rows (case SetSyncState db t (cn_id conn) now st err of Inl _ \<Rightarrow> db | Inr d' \<Rightarrow> d')" for st err
    by (rule keep[OF assms(1)]) (rule SetSyncState_wf[OF assms(1)])
  have two: "wf_rows (case UpdateConnection d ((viewConnection ((connectionView conn)\<lparr>cs_checkpoint := cp\<rparr>) t a)
      \<lparr>cn_status := cn_status conn\<rparr>) of Inl _ \<Rightarrow> d | Inr d' \<Rightarrow> d')" if d: "wf_rows d" for d cp a
    by (rule keep[OF d]) (use wf_update[of "sd_connections d" d, OF _ _ _ written_back_wf[OF assms(2)]] d in simp)
  show ?thesis
  proof (cases res)
    case (Inl e)
    show ?thesis unfolding finish_sync_def Let_def Inl sum.case by (rule one)
  next
    case (Inr r)
    show ?thesis
    proof (cases "sr_checkpoint r = []")
      case True
      show ?thesis unfolding finish_sync_def Let_def Inr sum.case if_P[OF True] by (rule one)
    next
      case False
      show ?thesis unfolding finish_sync_def Let_def Inr sum.case if_not_P[OF False] by (rule two[OF one])
    qed
  qed
qed

lemma DeleteSource_wf: "wf_rows db \<Longrightarrow> DeleteSource db p i = Inr db' \<Longrightarrow> wf_rows db'"
  by (auto simp: DeleteSource_def DeleteConnection_def list_all_iff distinct_map inj_on_def split: if_splits)

lemma wf_connector_step: "wf_connectors s \<Longrightarrow> wf_connectors (connector_step env uuid_ok s a)"
proof (cases a)
  case (CoCreate p input newid)
  then show "wf_connectors s \<Longrightarrow> ?thesis"
    using CreateSource_wf[of "ct_db s" env uuid_ok p input newid]
    by (cases "CreateSource env uuid_ok (ct_db s) p input newid") (simp_all add: keep_source_def wf_connectors_def split: prod.split)
next
  case (CoUpdate p i input)
  then show "wf_connectors s \<Longrightarrow> ?thesis"
    using UpdateSource_wf[of "ct_db s" env p i input]
    by (cases "UpdateSource env (ct_db s) p i input") (simp_all add: keep_source_def wf_connectors_def split: prod.split)
next
  case (CoDelete p i)
  assume wf: "wf_connectors s"
  show ?thesis
  proof (cases "DeleteSource (ct_db s) p i")
    case (Inr db')
    have "wf_rows db'" by (rule DeleteSource_wf[OF _ Inr]) (use wf in \<open>simp add: wf_connectors_def\<close>)
    then show ?thesis using wf CoDelete Inr by (simp add: wf_connectors_def)
  qed (use wf CoDelete in simp)
next
  case (CoRead t i)
  assume wf: "wf_connectors s"
  show ?thesis
  proof (cases "sql_GetConnection (ct_db s) t i")
    case (Inr c)
    then have "find_row (\<lambda>c. conn_key c = (t, i)) (sd_connections (ct_db s)) = Some c"
      by (simp add: sql_GetConnection_def row_or_denied_def split: option.splits)
    from find_row_Some[OF this] have "wf_connection c" using wf by (simp add: wf_connectors_def list_all_iff)
    then show ?thesis using wf Inr CoRead by (simp add: wf_connectors_def)
  qed (use wf CoRead in simp)
next
  case (CoFinish n res now)
  assume wf: "wf_connectors s"
  show ?thesis
  proof (cases "n < length (ct_reads s)")
    case True
    then have "wf_connection (ct_reads s ! n)" using wf by (simp add: wf_connectors_def list_all_length)
    then have "wf_rows (finish_sync (ct_db s) (cn_tenant (ct_reads s ! n)) (ct_reads s ! n) res now)"
      using wf by (intro finish_sync_wf) (simp_all add: wf_connectors_def)
    then show ?thesis using wf True CoFinish by (simp add: wf_connectors_def)
  qed (use wf CoFinish in simp)
qed

interpretation cs: transition_system "connector_step env uuid_ok" wf_connectors for env uuid_ok
  by unfold_locales (rule wf_connector_step)

definition connector_run ::
    "connector_env \<Rightarrow> (string \<Rightarrow> bool) \<Rightarrow> connector_state \<Rightarrow> connector_op list \<Rightarrow> connector_state" where
  "connector_run env uuid_ok s ops = foldl (connector_step env uuid_ok) s ops"

text \<open>
  The connection rows are well-formed whatever is asked of the service. In every interleaving of creations,
  updates, deletions and sync attempts that read a row and write it back later, the keys are unique, every
  row has a known kind, a status of \<open>active\<close> or \<open>disabled\<close>, a trimmed name that is not empty, a trimmed
  target, an object as configuration and, if any, a credential reference of a known provider.
\<close>

theorem connections_well_formed:
  "let cs = sd_connections (ct_db (connector_run env uuid_ok init_connectors ops)) in
   distinct (map conn_key cs) \<and>
   list_all (\<lambda>c. cn_kind c \<in> set connector_types \<and> cn_status c \<in> {''active'', ''disabled''} \<and>
     cn_name c \<noteq> [] \<and> trim_space (cn_name c) = cn_name c \<and> trim_space (cn_target c) = cn_target c \<and>
     (if cn_credential c = [] then True else list_ex (ref_matches (cn_credential c)) provider_names) \<and>
     (case cn_config c of JObj _ \<Rightarrow> True | _ \<Rightarrow> False)) cs"
proof -
  have "wf_connectors init_connectors" by (simp add: wf_connectors_def init_connectors_def empty_source_db_def)
  from cs.run_inv[OF this, of env uuid_ok ops]
  have "wf_rows (ct_db (connector_run env uuid_ok init_connectors ops))"
    by (simp add: connector_run_def cs.run_def wf_connectors_def)
  then show ?thesis by (auto simp: Let_def list_all_iff wf_connection_def)
qed

end
