(* ===== verification/RagText.thy ===== *)
theory RagText
  imports Prelude
begin

text \<open>
  Text for retrieval, internal/rag/chunk.go and text.go's \<open>normalizeText\<close>: how a document's text is
  cut into overlapping chunks. A text is the list of its code points, which is what the code works on
  (\<open>[]rune\<close>); \<open>runes_of\<close> is Go's decoding of a byte string, with U+FFFD for a byte that starts no character.
\<close>

section \<open>Runes\<close>

type_synonym rune = int

definition continuation :: "int \<Rightarrow> bool" where
  "continuation b \<longleftrightarrow> 128 \<le> b \<and> b \<le> 191"

text \<open>The first rune of a non-empty byte sequence and the number of bytes it takes.\<close>

definition decode_rune :: "int list \<Rightarrow> rune \<times> nat" where
  "decode_rune bs =
     (case bs of
        [] \<Rightarrow> (65533, 0)
      | b0 # rest \<Rightarrow>
          if b0 < 128 then (b0, 1)
          else (case rest of
             [] \<Rightarrow> (65533, 1)
           | b1 # rest1 \<Rightarrow>
               if 194 \<le> b0 \<and> b0 \<le> 223 \<and> continuation b1 then ((b0 mod 32) * 64 + b1 mod 64, 2)
               else (case rest1 of
                  [] \<Rightarrow> (65533, 1)
                | b2 # rest2 \<Rightarrow>
                    if 224 \<le> b0 \<and> b0 \<le> 239 \<and> continuation b1 \<and> continuation b2 \<and>
                       \<not> (b0 = 224 \<and> b1 < 160) \<and> \<not> (b0 = 237 \<and> 159 < b1)
                    then ((b0 mod 16) * 4096 + (b1 mod 64) * 64 + b2 mod 64, 3)
                    else (case rest2 of
                       [] \<Rightarrow> (65533, 1)
                     | b3 # rest3 \<Rightarrow>
                         if 240 \<le> b0 \<and> b0 \<le> 244 \<and> continuation b1 \<and> continuation b2 \<and> continuation b3 \<and>
                            \<not> (b0 = 240 \<and> b1 < 144) \<and> \<not> (b0 = 244 \<and> 143 < b1)
                         then ((b0 mod 8) * 262144 + (b1 mod 64) * 4096 + (b2 mod 64) * 64 + b3 mod 64, 4)
                         else (65533, 1)))))"

function decode_runes :: "int list \<Rightarrow> rune list" where
  "decode_runes [] = []"
| "decode_runes (b # bs) = (case decode_rune (b # bs) of (r, n) \<Rightarrow> r # decode_runes (drop (n - 1) bs))"
  by pat_completeness auto
termination by (relation "measure length") auto

definition runes_of :: "string \<Rightarrow> rune list" where
  "runes_of s = decode_runes (map of_char s)"

section \<open>normalizeText\<close>

definition unicode_space :: "rune \<Rightarrow> bool" where
  "unicode_space r \<longleftrightarrow>
     r \<in> {9, 10, 11, 12, 13, 32, 133, 160, 5760, 8232, 8233, 8239, 8287, 12288} \<or> (8192 \<le> r \<and> r \<le> 8202)"

definition trim_runes :: "rune list \<Rightarrow> rune list" where
  "trim_runes t = rev (dropWhile unicode_space (rev (dropWhile unicode_space t)))"

text \<open>\<open>spaceRE.ReplaceAllString\<close>: a maximal run of blanks, tabs and line ends becomes one blank.\<close>

definition ascii_blank :: "rune \<Rightarrow> bool" where
  "ascii_blank r \<longleftrightarrow> r \<in> {32, 9, 13, 10}"

fun collapse_blanks :: "bool \<Rightarrow> rune list \<Rightarrow> rune list" where
  "collapse_blanks after [] = []"
| "collapse_blanks after (r # rs) =
     (if ascii_blank r then (if after then collapse_blanks True rs else 32 # collapse_blanks True rs)
      else r # collapse_blanks False rs)"

definition normalizeText :: "rune list \<Rightarrow> rune list" where
  "normalizeText t = collapse_blanks False (trim_runes t)"

section \<open>ChunkText\<close>

definition DefaultChunkSize :: int where
  "DefaultChunkSize = 1000"

definition boundary_rune :: "rune \<Rightarrow> bool" where
  "boundary_rune r \<longleftrightarrow> r \<in> {46, 33, 63, 10, 32}"

text \<open>The loop of \<open>backtrackToBoundary\<close> at index \<open>i\<close>, down to \<open>lo\<close>.\<close>

fun backtrack :: "rune list \<Rightarrow> nat \<Rightarrow> nat \<Rightarrow> nat \<Rightarrow> nat" where
  "backtrack rs lo end' 0 = end'"
| "backtrack rs lo end' (Suc k) =
     (if Suc k \<le> lo then end' else if boundary_rune (rs ! k) then Suc k else backtrack rs lo end' k)"

definition backtrackToBoundary :: "rune list \<Rightarrow> nat \<Rightarrow> nat \<Rightarrow> nat" where
  "backtrackToBoundary rs start end' = backtrack rs (start + (end' - start) div 2) end' end'"

lemma backtrack_bounds: "i \<le> e \<Longrightarrow> lo < e \<Longrightarrow> lo < backtrack rs lo e i \<and> backtrack rs lo e i \<le> e"
  by (induction rs lo e i rule: backtrack.induct) auto

lemma backtrackToBoundary_bounds:
  assumes "start < e"
  shows "start < backtrackToBoundary rs start e" and "backtrackToBoundary rs start e \<le> e"
proof -
  have "start + (e - start) div 2 < e" using assms by linarith
  then show "start < backtrackToBoundary rs start e" "backtrackToBoundary rs start e \<le> e"
    using backtrack_bounds[of e e "start + (e - start) div 2" rs] unfolding backtrackToBoundary_def by auto
qed

text \<open>
  The loop of \<open>ChunkText\<close>: the stretches \<open>[start, end)\<close> it cuts, in order. The chunk size is never 0 there; the
  guard only makes the function total.
\<close>

definition stretch_end :: "rune list \<Rightarrow> nat \<Rightarrow> nat \<Rightarrow> nat" where
  "stretch_end rs sz start =
     (if length rs \<le> start + sz then length rs else backtrackToBoundary rs start (start + sz))"

definition stretch_next :: "nat \<Rightarrow> nat \<Rightarrow> nat \<Rightarrow> nat" where
  "stretch_next overlap start end' = (if end' - overlap \<le> start then end' else end' - overlap)"

lemma stretch_end_bounds:
  assumes "start < length rs" and "0 < sz"
  shows "start < stretch_end rs sz start \<and> stretch_end rs sz start \<le> start + sz \<and>
    stretch_end rs sz start \<le> length rs"
  using assms backtrackToBoundary_bounds[of start "start + sz" rs] by (auto simp: stretch_end_def)

lemma stretch_next_bounds:
  "start < e \<Longrightarrow> start < stretch_next overlap start e \<and> stretch_next overlap start e \<le> e"
  by (auto simp: stretch_next_def)

function stretches :: "rune list \<Rightarrow> nat \<Rightarrow> nat \<Rightarrow> nat \<Rightarrow> (nat \<times> nat) list" where
  "stretches rs sz overlap start =
     (if length rs \<le> start \<or> sz = 0 then []
      else let e = stretch_end rs sz start in
      (start, e) # (if length rs \<le> e then [] else stretches rs sz overlap (stretch_next overlap start e)))"
  by pat_completeness auto
termination
proof (relation "measure (\<lambda>(rs, sz, overlap, start). length rs - start)")
  fix rs :: "rune list" and sz overlap start e
  assume a: "\<not> (length rs \<le> start \<or> sz = 0)" "e = stretch_end rs sz start" "\<not> length rs \<le> e"
  then have "start < e" using stretch_end_bounds[of start rs sz] by auto
  then have "start < stretch_next overlap start e" using stretch_next_bounds by blast
  then show "((rs, sz, overlap, stretch_next overlap start e), (rs, sz, overlap, start))
      \<in> measure (\<lambda>(rs, sz, overlap, start). length rs - start)"
    using a by auto
qed auto

declare stretches.simps [simp del]

definition slice :: "'a list \<Rightarrow> nat \<Rightarrow> nat \<Rightarrow> 'a list" where
  "slice xs i j = take (j - i) (drop i xs)"

definition chunk_params :: "int \<Rightarrow> int \<Rightarrow> nat \<times> nat" where
  "chunk_params chunkSize overlap =
     (let sz = (if chunkSize \<le> 0 then DefaultChunkSize else chunkSize);
          ov = (if overlap < 0 then 0 else overlap)
      in (nat sz, nat (if ov \<ge> sz then sz div 5 else ov)))"

definition ChunkText :: "rune list \<Rightarrow> int \<Rightarrow> int \<Rightarrow> rune list list" where
  "ChunkText text chunkSize overlap =
     (let t = normalizeText text; (sz, ov) = chunk_params chunkSize overlap in
      if t = [] then []
      else if length t \<le> sz then [t]
      else filter (\<lambda>c. c \<noteq> []) (map (\<lambda>(s, e). trim_runes (slice t s e)) (stretches t sz ov 0)))"

definition tokenEstimate :: "rune list \<Rightarrow> nat" where
  "tokenEstimate t = (if t = [] then 0 else (length t + 3) div 4)"

section \<open>Normalized text\<close>

lemma trim_runes_ends: "dropWhile unicode_space (trim_runes t) = trim_runes t"
    "dropWhile unicode_space (rev (trim_runes t)) = rev (trim_runes t)"
  unfolding trim_runes_def by (rule trim_both_ends)+

lemma trim_runes_idem: "trim_runes (trim_runes t) = trim_runes t"
  using trim_runes_ends[of t] by (subst (1) trim_runes_def) simp

lemma blank_is_space: "ascii_blank r \<Longrightarrow> unicode_space r"
  by (auto simp: ascii_blank_def unicode_space_def)

lemma trimmed_iff:
  "trim_runes t = t \<longleftrightarrow> t = [] \<or> \<not> unicode_space (hd t) \<and> \<not> unicode_space (last t)"
proof
  assume "trim_runes t = t"
  then show "t = [] \<or> \<not> unicode_space (hd t) \<and> \<not> unicode_space (last t)"
    using trim_runes_ends[of t] by (auto simp: dropWhile_eq_self_iff hd_rev)
next
  assume "t = [] \<or> \<not> unicode_space (hd t) \<and> \<not> unicode_space (last t)"
  then have "dropWhile unicode_space t = t" "dropWhile unicode_space (rev t) = rev t"
    by (auto simp: dropWhile_eq_self_iff hd_rev)
  then show "trim_runes t = t" by (simp add: trim_runes_def)
qed

lemma collapse_last:
  "t \<noteq> [] \<Longrightarrow> \<not> ascii_blank (last t) \<Longrightarrow> collapse_blanks b t \<noteq> [] \<and> last (collapse_blanks b t) = last t"
proof (induction b t rule: collapse_blanks.induct)
  case (2 after r rs)
  then show ?case by (cases "rs = []") auto
qed simp

lemma normalizeText_trimmed: "trim_runes (normalizeText t) = normalizeText t"
proof (cases "trim_runes t")
  case Nil
  then have "normalizeText t = []" by (simp add: normalizeText_def)
  then show ?thesis by (simp add: trimmed_iff)
next
  case (Cons r rs)
  have e: "\<not> unicode_space r" "\<not> unicode_space (last (r # rs))"
    using iffD1[OF trimmed_iff trim_runes_idem, of t] unfolding Cons by simp_all
  then have "\<not> ascii_blank r" "\<not> ascii_blank (last (r # rs))" using blank_is_space by blast+
  moreover have "hd (normalizeText t) = r" using \<open>\<not> ascii_blank r\<close> by (simp add: normalizeText_def Cons)
  ultimately show ?thesis
    using e collapse_last[of "r # rs" False] by (simp add: trimmed_iff normalizeText_def Cons)
qed

section \<open>Stretches\<close>

lemma chunk_params_pos: "0 < fst (chunk_params c ov)"
  by (auto simp: chunk_params_def DefaultChunkSize_def Let_def)

fun linked :: "nat \<Rightarrow> (nat \<times> nat) list \<Rightarrow> bool" where
  "linked ov ((s, e) # (s', e') # xs) \<longleftrightarrow> s < s' \<and> s' \<le> e \<and> (s' = e \<or> s' + ov = e) \<and> linked ov ((s', e') # xs)"
| "linked ov _ \<longleftrightarrow> True"

text \<open>The part of each stretch before the next one begins, put together.\<close>

fun leading_parts :: "'a list \<Rightarrow> (nat \<times> nat) list \<Rightarrow> 'a list" where
  "leading_parts t [] = []"
| "leading_parts t [(s, e)] = slice t s e"
| "leading_parts t ((s, e) # (s', e') # xs) = slice t s s' @ leading_parts t ((s', e') # xs)"

lemma stretches_reduce:
  assumes "start < length rs" and "0 < sz"
  shows "stretches rs sz ov start =
    (start, stretch_end rs sz start) #
    (if length rs \<le> stretch_end rs sz start then []
     else stretches rs sz ov (stretch_next ov start (stretch_end rs sz start)))"
  using assms by (subst stretches.simps) (simp add: Let_def)

lemma slice_drop: "i \<le> j \<Longrightarrow> slice t i j @ drop j t = drop i t"
  by (metis append_take_drop_id drop_drop le_add_diff_inverse2 slice_def)

lemma stretches_ok:
  assumes "start < length rs" and "0 < sz"
  shows "linked ov (stretches rs sz ov start) \<and> snd (last (stretches rs sz ov start)) = length rs \<and>
    list_all (\<lambda>(s, e). s < e \<and> e \<le> s + sz \<and> e \<le> length rs) (stretches rs sz ov start) \<and>
    leading_parts rs (stretches rs sz ov start) = drop start rs"
  using assms
proof (induction rs sz ov start rule: stretches.induct)
  case (1 rs sz ov start)
  let ?e = "stretch_end rs sz start" and ?n = "stretch_next ov start (stretch_end rs sz start)"
  have b: "start < ?e" "?e \<le> start + sz" "?e \<le> length rs"
    using stretch_end_bounds[OF 1(2,3)] by simp_all
  have g: "\<not> (length rs \<le> start \<or> sz = 0)" using 1(2,3) by simp
  show ?case
  proof (cases "length rs \<le> ?e")
    case True
    then have e: "?e = length rs" using b(3) by simp
    then show ?thesis using stretches_reduce[OF 1(2,3), of ov] b by (simp add: slice_def)
  next
    case False
    have n: "start < ?n" "?n \<le> ?e" "?n = ?e \<or> ?n + ov = ?e"
      using stretch_next_bounds[OF b(1)] by (auto simp: stretch_next_def)
    have nl: "?n < length rs" using n False by simp
    have s: "stretches rs sz ov start = (start, ?e) # stretches rs sz ov ?n"
      using stretches_reduce[OF 1(2,3), of ov] False by simp
    note x = stretches_reduce[OF nl 1(3), of ov]
    show ?thesis using 1(1)[OF g refl False nl 1(3)] b n slice_drop[of start ?n rs] unfolding s
      by (subst (asm) (1 2 3 4) x, subst (1 2 3 4) x) simp
  qed
qed

section \<open>What the chunks are\<close>

lemma length_trim_runes: "length (trim_runes t) \<le> length t"
  unfolding trim_runes_def using length_dropWhile_le[of unicode_space] by (metis length_rev order_trans)

text \<open>
  Every chunk of a text is usable: not empty, without space at either end, and no longer than the
  configured size (the default of 1000 when none is given), for every text, size and overlap.
\<close>

theorem chunks_bounded:
  "list_all (\<lambda>c. c \<noteq> [] \<and> trim_runes c = c \<and>
     int (length c) \<le> (if chunkSize \<le> 0 then DefaultChunkSize else chunkSize)) (ChunkText text chunkSize overlap)"
proof -
  obtain sz ov where p: "chunk_params chunkSize overlap = (sz, ov)" by fastforce
  have sz: "int sz = (if chunkSize \<le> 0 then DefaultChunkSize else chunkSize)"
    using p by (auto simp: chunk_params_def DefaultChunkSize_def Let_def)
  let ?t = "normalizeText text"
  have "trim_runes c = c \<and> length c \<le> sz" if c: "c \<in> set (ChunkText text chunkSize overlap)" for c
  proof (cases "length ?t \<le> sz")
    case True
    then show ?thesis using c normalizeText_trimmed by (auto simp: ChunkText_def Let_def p split: if_splits)
  next
    case False
    then have n: "0 < length ?t" by (metis gr_zeroI le0)
    have "0 < sz" using chunk_params_pos[of chunkSize overlap] p by simp
    note ok = stretches_ok[OF n this, of ov]
    obtain s e where se: "(s, e) \<in> set (stretches ?t sz ov 0)" "c = trim_runes (slice ?t s e)"
      using c False by (auto simp: ChunkText_def Let_def p split: if_splits)
    then have "e \<le> s + sz" using ok by (auto simp: list_all_iff)
    then have "length (slice ?t s e) \<le> sz" by (simp add: slice_def)
    then show ?thesis using se(2) length_trim_runes[of "slice ?t s e"] by (simp add: trim_runes_idem)
  qed
  moreover have "c \<noteq> []" if "c \<in> set (ChunkText text chunkSize overlap)" for c
    using that by (auto simp: ChunkText_def Let_def p split: if_splits)
  ultimately show ?thesis unfolding list_all_iff sz[symmetric] by simp
qed

text \<open>
  Chunking loses no text, and it ends. A normalized text longer than the chunk size is cut into stretches of at
  most that size; the first begins at the start of the text, each later one begins after the beginning of the one before
  and not after its end, exactly the overlap back or right at the end, the last one ends with the text, and
  the parts by which the stretches lead up to each other are together the whole text. The chunks are these
  stretches, trimmed, without the empty ones.
\<close>

theorem chunks_cover_text:
  assumes "t = normalizeText text" and "(sz, ov) = chunk_params chunkSize overlap" and "sz < length t"
  shows "let xs = stretches t sz ov 0 in
    ChunkText text chunkSize overlap = filter (\<lambda>c. c \<noteq> []) (map (\<lambda>(s, e). trim_runes (slice t s e)) xs) \<and>
    list_all (\<lambda>(s, e). s < e \<and> e \<le> s + sz) xs \<and> linked ov xs \<and>
    fst (hd xs) = 0 \<and> snd (last xs) = length t \<and> leading_parts t xs = t"
proof -
  have n: "0 < length t" using assms(3) by linarith
  have z: "0 < sz" using chunk_params_pos[of chunkSize overlap] assms(2) by (metis fst_conv)
  have "ChunkText text chunkSize overlap =
      filter (\<lambda>c. c \<noteq> []) (map (\<lambda>(s, e). trim_runes (slice t s e)) (stretches t sz ov 0))"
    using assms n by (auto simp: ChunkText_def Let_def simp flip: assms(2))
  moreover have "fst (hd (stretches t sz ov 0)) = 0" by (simp add: stretches_reduce[OF n z])
  ultimately show ?thesis using stretches_ok[OF n z, of ov] by (auto simp: Let_def list_all_iff)
qed

theorem chunks_cover_text_witness:
  "stretches [97, 46, 98, 32, 99, 100, 101] 4 1 0 = [(0, 4), (3, 7)] \<and>
   ChunkText [97, 46, 98, 32, 99, 100, 101] 4 1 = [[97, 46, 98], [99, 100, 101]]"
proof -
  let ?t = "[97, 46, 98, 32, 99, 100, 101 :: int]"
  have t: "?t = normalizeText ?t" by code_simp
  have p: "(4, 1) = chunk_params 4 1" by code_simp
  have s: "stretches ?t 4 1 0 = [(0, 4), (3, 7)]" by code_simp
  have m: "filter (\<lambda>c. c \<noteq> []) (map (\<lambda>(s, e). trim_runes (slice ?t s e)) [(0, 4), (3, 7)]) = [[97, 46, 98], [99, 100, 101]]"
    by code_simp
  show ?thesis using chunks_cover_text[OF t p] unfolding s Let_def m by simp
qed

end
