(* ===== verification/RagBlocks.thy ===== *)
theory RagBlocks
  imports RagText
begin

text \<open>
  Structured documents, first half of internal/rag/structured.go: which format a document has, and how a Markdown
  or HTML text is parsed into blocks with the byte range each of them comes from. A text is the list of its bytes here, because
  the ranges are counted in bytes; \<open>trim_bytes\<close> is \<open>strings.TrimSpace\<close> on bytes, which removes the encodings of
  Unicode's space characters at both ends.
\<close>

type_synonym bytes = "int list"

section \<open>Bytes\<close>

definition space_codes :: "bytes list" where
  "space_codes =
     [[9], [10], [11], [12], [13], [32], [194, 133], [194, 160], [225, 154, 128]] @
     map (\<lambda>b. [226, 128, b]) ([128..138] @ [168, 169, 175]) @ [[226, 129, 159], [227, 128, 128]]"

text \<open>Drop words of a list from the front as long as one of them fits.\<close>

function drop_words :: "bytes list \<Rightarrow> bytes \<Rightarrow> bytes" where
  "drop_words ws s =
     (case List.find (\<lambda>w. w \<noteq> [] \<and> take (length w) s = w) ws of
        None \<Rightarrow> s
      | Some w \<Rightarrow> drop_words ws (drop (length w) s))"
  by pat_completeness auto
termination
proof (relation "measure (\<lambda>(ws, s). length s)", goal_cases)
  case (2 ws s w)
  then have "w \<noteq> []" "take (length w) s = w" by (auto simp: find_Some_iff)
  then show ?case by (cases s) auto
qed simp

declare drop_words.simps [simp del]

definition trim_bytes :: "bytes \<Rightarrow> bytes" where
  "trim_bytes s = rev (drop_words (map rev space_codes) (rev (drop_words space_codes s)))"

text \<open>\<open>unicode.IsSpace(rune(b))\<close> of a single byte.\<close>

definition byte_space :: "int \<Rightarrow> bool" where
  "byte_space b \<longleftrightarrow> b \<in> {9, 10, 11, 12, 13, 32, 133, 160}"

definition starts :: "bytes \<Rightarrow> bytes \<Rightarrow> bool" where
  "starts p s \<longleftrightarrow> take (length p) s = p"

text \<open>\<open>strings.TrimSuffix\<close> of a single byte.\<close>

definition trim_last :: "int \<Rightarrow> bytes \<Rightarrow> bytes" where
  "trim_last b s = (if s \<noteq> [] \<and> last s = b then butlast s else s)"

text \<open>\<open>strings.IndexByte\<close> and \<open>strings.Index\<close>, -1 where there is none.\<close>

fun indexByte :: "int \<Rightarrow> bytes \<Rightarrow> int" where
  "indexByte b [] = - 1"
| "indexByte b (c # cs) = (if c = b then 0 else let i = indexByte b cs in if i < 0 then - 1 else i + 1)"

fun indexBytes :: "bytes \<Rightarrow> bytes \<Rightarrow> int" where
  "indexBytes sub [] = (if sub = [] then 0 else - 1)"
| "indexBytes sub (c # cs) =
     (if starts sub (c # cs) then 0 else let i = indexBytes sub cs in if i < 0 then - 1 else i + 1)"

section \<open>Blocks\<close>

datatype block_kind = Paragraph | Heading | List_item | Code

record parsedBlock =
  pb_kind :: block_kind
  pb_text :: bytes
  pb_level :: nat
  pb_language :: bytes
  pb_start :: int
  pb_end :: int

definition isMarkdownList :: "bytes \<Rightarrow> bool" where
  "isMarkdownList s \<longleftrightarrow>
     1 < length s \<and> s ! 0 \<in> {45, 43, 42} \<and> byte_space (s ! 1) \<or>
     (let i = length (takeWhile (\<lambda>b. 48 \<le> b \<and> b \<le> 57) s) in
      0 < i \<and> i + 1 < length s \<and> s ! i \<in> {46, 41} \<and> byte_space (s ! (i + 1)))"

text \<open>The length of the line at \<open>pos\<close> with its line end, and its src trimmed of it and of space.\<close>

definition line_len :: "bytes \<Rightarrow> nat \<Rightarrow> nat" where
  "line_len src pos =
     (let n = indexByte 10 (drop pos src) in if n < 0 then length src - pos else nat (n + 1))"

definition trimmed_line :: "bytes \<Rightarrow> nat \<Rightarrow> bytes" where
  "trimmed_line src pos =
     trim_bytes (trim_last 13 (trim_last 10 (slice src pos (pos + line_len src pos))))"

definition is_fence :: "bytes \<Rightarrow> bool" where
  "is_fence s \<longleftrightarrow> starts [96, 96, 96] s \<or> starts [126, 126, 126] s"

lemma indexByte_bounds: "indexByte b s < int (length s)"
  by (induction s) (auto simp: Let_def)

lemma line_len_bounds:
  assumes "pos < length src"
  shows "0 < line_len src pos \<and> pos + line_len src pos \<le> length src"
  using assms indexByte_bounds[of 10 "drop pos src"] by (auto simp: line_len_def Let_def)

text \<open>The loop that looks for the line that closes a code block, from \<open>pos\<close> on.\<close>

function fence_end :: "bytes \<Rightarrow> bytes \<Rightarrow> nat \<Rightarrow> nat option" where
  "fence_end src fence pos =
     (if length src \<le> pos then None
      else let candidate = trimmed_line src pos; pos' = pos + line_len src pos in
      if starts fence candidate then Some pos' else fence_end src fence pos')"
  by pat_completeness auto
termination
  by (relation "measure (\<lambda>(src, fence, pos). length src - pos)") (auto dest: line_len_bounds simp: not_le)

text \<open>The loop that collects the lines of a paragraph.\<close>

definition ends_paragraph :: "bytes \<Rightarrow> bool" where
  "ends_paragraph s \<longleftrightarrow> s = [] \<or> starts [35] s \<or> is_fence s \<or> isMarkdownList s"

function paragraph_end :: "bytes \<Rightarrow> nat \<Rightarrow> nat" where
  "paragraph_end src pos =
     (if length src \<le> pos then pos
      else if ends_paragraph (trimmed_line src pos) then pos
      else paragraph_end src (pos + line_len src pos))"
  by pat_completeness auto
termination
  by (relation "measure (\<lambda>(src, pos). length src - pos)") (auto dest: line_len_bounds simp: not_le)

declare fence_end.simps [simp del] paragraph_end.simps [simp del]

definition heading_level :: "bytes \<Rightarrow> nat" where
  "heading_level s = length (takeWhile (\<lambda>b. b = 35) s)"

definition is_heading :: "bytes \<Rightarrow> bool" where
  "is_heading s \<longleftrightarrow>
     starts [35] s \<and> heading_level s \<le> 6 \<and> heading_level s < length s \<and> byte_space (s ! heading_level s)"

text \<open>A block whose text is searched for in the text from \<open>pos\<close> to \<open>stop\<close>.\<close>

definition located_block :: "block_kind \<Rightarrow> bytes \<Rightarrow> nat \<Rightarrow> bytes \<Rightarrow> nat \<Rightarrow> nat \<Rightarrow> parsedBlock" where
  "located_block k src level body pos stop =
     (let start = int pos + indexBytes body (slice src pos stop) in
      \<lparr> pb_kind = k, pb_text = body, pb_level = level, pb_language = [],
        pb_start = start, pb_end = start + int (length body) \<rparr>)"

text \<open>
  One round of the loop of \<open>parseMarkdownBlocks\<close> at \<open>pos\<close>: None is the return of nil for a code block that is not
  closed, otherwise the block it appends, if any, and the position it goes on at.
\<close>

definition next_block :: "bytes \<Rightarrow> nat \<Rightarrow> (parsedBlock option \<times> nat) option" where
  "next_block src pos =
     (let lineEnd = pos + line_len src pos; trim = trimmed_line src pos in
      if trim = [] then Some (None, lineEnd)
      else if is_fence trim then
        (case fence_end src (take 3 trim) lineEnd of
           None \<Rightarrow> None
         | Some e \<Rightarrow>
             Some (Some \<lparr> pb_kind = Code, pb_text = trim_bytes (slice src pos e), pb_level = 0,
                          pb_language = trim_bytes (drop 3 trim), pb_start = int pos, pb_end = int e \<rparr>, e))
      else if is_heading trim then
        (let title = trim_bytes (drop (heading_level trim) trim) in
         Some (Some (located_block Heading src (heading_level trim) title pos lineEnd), lineEnd))
      else if isMarkdownList trim then Some (Some (located_block List_item src 0 trim pos lineEnd), lineEnd)
      else
        (let p = paragraph_end src pos; stop = (if p = pos then lineEnd else p);
             body = trim_bytes (slice src pos stop) in
         Some (if body = [] then None else Some (located_block Paragraph src 0 body pos stop), stop)))"

lemma fence_end_bounds: "fence_end src fence pos = Some e \<Longrightarrow> pos < e \<and> e \<le> length src"
proof (induction src fence pos rule: fence_end.induct)
  case (1 src fence pos)
  then have p: "pos < length src" by (subst (asm) (2) fence_end.simps) (auto split: if_splits)
  show ?case
    using 1(1)[OF _ refl refl] 1(2) line_len_bounds[OF p] p
    by (subst (asm) (2) fence_end.simps) (auto simp: Let_def not_le split: if_splits)
qed

lemma paragraph_end_bounds: "pos \<le> length src \<Longrightarrow> pos \<le> paragraph_end src pos \<and> paragraph_end src pos \<le> length src"
proof (induction src pos rule: paragraph_end.induct)
  case (1 src pos)
  show ?case
  proof (cases "length src \<le> pos \<or> ends_paragraph (trimmed_line src pos)")
    case True
    then have "paragraph_end src pos = pos" by (subst paragraph_end.simps) auto
    then show ?thesis using 1(2) by simp
  next
    case False
    then show ?thesis
      using 1(1) line_len_bounds[of pos src] by (subst (1 2) paragraph_end.simps) auto
  qed
qed

lemma next_block_progress:
  assumes "next_block src pos = Some (ob, pos')" and "pos < length src"
  shows "pos < pos' \<and> pos' \<le> length src"
  using assms line_len_bounds[OF assms(2)] paragraph_end_bounds[of pos src] fence_end_bounds[of src "take 3 (trimmed_line src pos)" "pos + line_len src pos" pos']
  by (auto simp: next_block_def Let_def split: if_splits option.splits)

function parse_from :: "bytes \<Rightarrow> nat \<Rightarrow> parsedBlock list option" where
  "parse_from src pos =
     (if length src \<le> pos then Some []
      else case next_block src pos of
        None \<Rightarrow> None
      | Some (ob, pos') \<Rightarrow>
          (case parse_from src pos' of
             None \<Rightarrow> None
           | Some bs \<Rightarrow> Some (case ob of None \<Rightarrow> bs | Some b \<Rightarrow> b # bs)))"
  by pat_completeness auto
termination
  by (relation "measure (\<lambda>(src, pos). length src - pos)") (auto dest: next_block_progress simp: not_le)

declare parse_from.simps [simp del]

text \<open>The result is empty for nil as for no blocks; its callers only ask for its length.\<close>

definition parseMarkdownBlocks :: "bytes \<Rightarrow> parsedBlock list" where
  "parseMarkdownBlocks src = (case parse_from src 0 of None \<Rightarrow> [] | Some bs \<Rightarrow> bs)"

section \<open>Formats\<close>

text \<open>\<open>filepath.Ext\<close>: from the last dot of the last element on.\<close>

definition file_ext :: "string \<Rightarrow> string" where
  "file_ext p =
     (let r = takeWhile (\<lambda>c. c \<noteq> CHR ''/'') (rev p) in
      if CHR ''.'' \<in> set r then CHR ''.'' # rev (takeWhile (\<lambda>c. c \<noteq> CHR ''.'') r) else [])"

definition structuredFormat :: "string \<Rightarrow> string \<Rightarrow> string" where
  "structuredFormat fileName mimeType =
     (let mime = go_lower (trim_space mimeType); ext = go_lower (file_ext fileName) in
      if ext = ''.md'' \<or> ext = ''.markdown'' then ''markdown''
      else if ext = ''.html'' \<or> ext = ''.htm'' then ''html''
      else if contains_str mime ''markdown'' then ''markdown''
      else if contains_str mime ''html'' then ''html''
      else [])"

section \<open>Nothing is lost\<close>

text \<open>The bytes of which the encodings of space characters and heading marks are made.\<close>

definition blank_byte :: "int \<Rightarrow> bool" where
  "blank_byte b \<longleftrightarrow> b = 35 \<or> b \<in> set (concat space_codes)"

abbreviation blank :: "bytes \<Rightarrow> bool" where
  "blank s \<equiv> list_all blank_byte s"

lemma drop_words_split:
  "\<exists>p. s = p @ drop_words ws s \<and> set p \<subseteq> set (concat ws)"
proof (induction ws s rule: drop_words.induct)
  case (1 ws s)
  show ?case
  proof (cases "List.find (\<lambda>w. w \<noteq> [] \<and> take (length w) s = w) ws")
    case None
    then show ?thesis by (subst drop_words.simps) simp
  next
    case (Some w)
    then have w: "w \<in> set ws" "take (length w) s = w" by (auto simp: find_Some_iff)
    obtain p where p: "drop (length w) s = p @ drop_words ws (drop (length w) s)" "set p \<subseteq> set (concat ws)"
      using 1[OF Some] by auto
    have "s = (w @ p) @ drop_words ws s"
      using append_take_drop_id[of "length w" s] p(1) w(2) by (subst drop_words.simps) (simp add: Some)
    moreover have "set (w @ p) \<subseteq> set (concat ws)" using p(2) w(1) by auto
    ultimately show ?thesis by blast
  qed
qed

lemma trim_bytes_split:
  "\<exists>p q. s = p @ trim_bytes s @ q \<and> blank p \<and> blank q"
proof -
  obtain p where p: "s = p @ drop_words space_codes s" "set p \<subseteq> set (concat space_codes)"
    using drop_words_split by blast
  let ?r = "rev (drop_words space_codes s)"
  obtain q where q: "?r = q @ drop_words (map rev space_codes) ?r" "set q \<subseteq> set (concat (map rev space_codes))"
    using drop_words_split by blast
  have "drop_words space_codes s = trim_bytes s @ rev q"
    using arg_cong[OF q(1), of rev] by (simp add: trim_bytes_def)
  then have "s = p @ trim_bytes s @ rev q" using p(1) by simp
  moreover have "blank p" "blank (rev q)" using p(2) q(2) by (auto simp: list_all_iff blank_byte_def)
  ultimately show ?thesis by blast
qed

text \<open>
  The first occurrence of a word may lie before the place it was taken from; what then follows it is still made of the
  bytes in front of that place.
\<close>

lemma indexBytes_found:
  assumes "s = p @ sub @ q"
  shows "0 \<le> indexBytes sub s \<and> indexBytes sub s \<le> int (length p) \<and>
    take (length sub) (drop (nat (indexBytes sub s)) s) = sub"
  using assms
proof (induction sub s arbitrary: p rule: indexBytes.induct)
  case (2 sub c cs)
  show ?case
  proof (cases "starts sub (c # cs)")
    case True
    then show ?thesis by (simp add: starts_def)
  next
    case False
    then obtain p' where p: "p = c # p'" "cs = p' @ sub @ q" using 2(2) by (cases p) (auto simp: starts_def)
    let ?i = "indexBytes sub cs"
    have IH: "0 \<le> ?i \<and> ?i \<le> int (length p') \<and> take (length sub) (drop (nat ?i) cs) = sub"
      using 2(1)[OF False p(2)] .
    have "drop (nat (?i + 1)) (c # cs) = drop (nat ?i) cs" using IH by (simp add: nat_add_distrib)
    then show ?thesis using IH False p(1) by (simp add: Let_def)
  qed
qed auto

lemma periodic_blank:
  assumes "t = take (length t) (u @ t)" and "u \<noteq> []" and "blank u"
  shows "blank t"
proof -
  have "blank_byte (t ! i)" if "i < length t" for i
    using that
  proof (induction i rule: less_induct)
    case (less i)
    have e: "t ! i = (u @ t) ! i" using assms(1) less(2) by (metis nth_take)
    show ?case
    proof (cases "i < length u")
      case True
      then show ?thesis using e assms(3) by (simp add: nth_append list_all_length)
    next
      case False
      then have "t ! i = t ! (i - length u)" using e by (simp add: nth_append)
      moreover have "i - length u < i" using False assms(2) by (metis diff_less length_greater_0_conv less_le_trans not_less)
      ultimately show ?thesis using less(1)[of "i - length u"] less(2) by simp
    qed
  qed
  then show ?thesis by (simp add: list_all_length)
qed

lemma located:
  assumes "s = p @ sub @ q" and "blank p" and "blank q" and "i = nat (indexBytes sub s)"
  shows "i + length sub \<le> length s \<and> slice s i (i + length sub) = sub \<and> blank (take i s) \<and>
    blank (drop (i + length sub) s)"
proof -
  note f = indexBytes_found[OF assms(1), folded assms(4)]
  have i: "i \<le> length p" using f assms(4) by linarith
  have occ: "take (length sub) (drop i s) = sub" using f assms(4) by simp
  have "take i s = take i p" using i assms(1) by simp
  then have t: "blank (take i s)" using assms(2) by (simp add: list_all_length)
  define u where "u = drop i p"
  have d: "drop i s = u @ sub @ q" using i assms(1) by (simp add: u_def)
  have u: "blank u" using assms(2) by (simp add: u_def list_all_length)
  have "blank (drop (length sub) (u @ sub @ q))"
  proof (cases "u = []")
    case True
    then show ?thesis using assms(3) by simp
  next
    case False
    have "sub = take (length sub) (u @ sub)" using occ unfolding d by simp
    from periodic_blank[OF this False u] have "blank (u @ sub @ q)" using u assms(3) by simp
    then show ?thesis using set_drop_subset[of "length sub" "u @ sub @ q"] unfolding list_all_iff by blast
  qed
  then have "blank (drop (i + length sub) s)" using d by (metis add.commute drop_drop)
  moreover have "i + length sub \<le> length s" using assms(1) i by simp
  ultimately show ?thesis using t occ by (simp add: slice_def)
qed

section \<open>One round\<close>

text \<open>
  What a round does to the text it passes: the bytes outside of the block are blank, and the block's text is what
  stands in its range, up to space for a code block.
\<close>

definition block_matches :: "bytes \<Rightarrow> parsedBlock \<Rightarrow> bool" where
  "block_matches src b \<longleftrightarrow>
     pb_text b \<noteq> [] \<and>
     (let range = slice src (nat (pb_start b)) (nat (pb_end b)) in
      pb_text b = (if pb_kind b = Code then trim_bytes range else range)) \<and>
     (if pb_kind b = Heading then 1 \<le> pb_level b \<and> pb_level b \<le> 6 else pb_level b = 0)"

definition passes :: "bytes \<Rightarrow> nat \<Rightarrow> parsedBlock option \<Rightarrow> nat \<Rightarrow> bool" where
  "passes src pos ob pos' \<longleftrightarrow>
     (case ob of
        None \<Rightarrow> blank (slice src pos pos')
      | Some b \<Rightarrow>
          int pos \<le> pb_start b \<and> pb_start b < pb_end b \<and> pb_end b \<le> int pos' \<and> block_matches src b \<and>
          blank (slice src pos (nat (pb_start b))) \<and> blank (slice src (nat (pb_end b)) pos'))"

lemma slice_slice: "i \<le> j \<Longrightarrow> a + j \<le> b \<Longrightarrow> slice (slice s a b) i j = slice s (a + i) (a + j)"
  by (simp add: slice_def drop_take min_def add.commute)

lemma located_passes:
  assumes "slice src pos stop = p @ body @ q" and "blank p" and "blank q" and "body \<noteq> []" and "pos \<le> stop"
    and "stop \<le> length src" and "k \<noteq> Code" and "if k = Heading then 1 \<le> level \<and> level \<le> 6 else level = 0"
  shows "passes src pos (Some (located_block k src level body pos stop)) stop"
proof -
  define s where "s = slice src pos stop"
  have ls: "length s = stop - pos" using assms(5,6) by (simp add: s_def slice_def)
  define i where "i = nat (indexBytes body s)"
  have i0: "int i = indexBytes body s" using indexBytes_found[OF assms(1)] by (simp add: i_def s_def)
  note l = located[OF assms(1)[folded s_def] assms(2,3) i_def]
  have e: "pos + i + length body \<le> stop" using l ls assms(5) by linarith
  have sl: "slice src (pos + i) (pos + i + length body) = body"
    using l slice_slice[of i "i + length body" pos stop src] e unfolding s_def by (simp add: add.assoc)
  have fr: "slice src pos (pos + i) = take i s"
    using e slice_slice[of 0 i pos stop src] unfolding s_def by (simp add: slice_def)
  have to: "slice src (pos + i + length body) stop = drop (i + length body) s"
    by (simp add: s_def slice_def drop_take add.commute add.left_commute)
  have x: "nat (int pos + int i) = pos + i" "nat (int pos + int i + int (length body)) = pos + i + length body" by auto
  show ?thesis
    using sl fr to l e assms(4,7,8)
    by (auto simp: passes_def located_block_def block_matches_def Let_def x simp flip: s_def i0)
qed

lemma trimmed_line_split:
  assumes "pos < length src"
  shows "\<exists>p q. slice src pos (pos + line_len src pos) = p @ trimmed_line src pos @ q \<and> blank p \<and> blank q"
proof -
  let ?s = "slice src pos (pos + line_len src pos)"
  have split: "\<exists>q. s = trim_last b s @ q \<and> set q \<subseteq> {b}" for b and s :: bytes
    by (cases s rule: rev_cases) (auto simp: trim_last_def)
  obtain q1 where q1: "?s = trim_last 10 ?s @ q1" "set q1 \<subseteq> {10}" using split by blast
  obtain q2 where q2: "trim_last 10 ?s = trim_last 13 (trim_last 10 ?s) @ q2" "set q2 \<subseteq> {13}" using split by blast
  obtain p q where pq: "trim_last 13 (trim_last 10 ?s) = p @ trimmed_line src pos @ q" "blank p" "blank q"
    using trim_bytes_split unfolding trimmed_line_def by blast
  have "?s = p @ trimmed_line src pos @ (q @ q2 @ q1)" using q1(1) q2(1) pq(1) by (metis append.assoc)
  moreover have "blank (q @ q2 @ q1)"
    using pq(3) q1(2) q2(2) by (auto simp: list_all_iff blank_byte_def space_codes_def)
  ultimately show ?thesis using pq(2) by blast
qed

lemma drop_words_fixed:
  "List.find (\<lambda>w. w \<noteq> [] \<and> take (length w) (drop_words ws s) = w) ws = None"
proof (induction ws s rule: drop_words.induct)
  case (1 ws s)
  show ?case
  proof (cases "List.find (\<lambda>w. w \<noteq> [] \<and> take (length w) s = w) ws")
    case None
    then show ?thesis by (subst drop_words.simps) simp
  next
    case (Some w)
    then show ?thesis using 1[OF Some] by (subst drop_words.simps) simp
  qed
qed

lemma drop_words_ends:
  "drop_words ws s = [] \<Longrightarrow> s \<noteq> [] \<Longrightarrow> \<exists>w p. w \<in> set ws \<and> w \<noteq> [] \<and> s = p @ w"
proof (induction ws s rule: drop_words.induct)
  case (1 ws s)
  show ?case
  proof (cases "List.find (\<lambda>w. w \<noteq> [] \<and> take (length w) s = w) ws")
    case None
    then show ?thesis using 1(2,3) by (subst (asm) drop_words.simps) simp
  next
    case (Some w)
    then have w: "w \<in> set ws" "w \<noteq> []" "take (length w) s = w" by (auto simp: find_Some_iff)
    then have s: "s = w @ drop (length w) s" by (metis append_take_drop_id)
    show ?thesis
    proof (cases "drop (length w) s = []")
      case True
      then have "s = [] @ w" using s by simp
      then show ?thesis using w by blast
    next
      case False
      have "drop_words ws (drop (length w) s) = []" using 1(2) Some by (subst (asm) drop_words.simps) simp
      then obtain v p where "v \<in> set ws" "v \<noteq> []" "drop (length w) s = p @ v" using 1(1)[OF Some] False by blast
      then have "v \<in> set ws \<and> v \<noteq> [] \<and> s = (w @ p) @ v" using s by simp
      then show ?thesis by blast
    qed
  qed
qed

lemma trimmed_no_space_end:
  assumes "trim_bytes s = p @ w" and "w \<in> set space_codes" and "w \<noteq> []"
  shows False
proof -
  let ?r = "drop_words (map rev space_codes) (rev (drop_words space_codes s))"
  have "?r = rev w @ rev p" using assms(1) by (metis trim_bytes_def rev_append rev_rev_ident)
  then have "take (length (rev w)) ?r = rev w" by simp
  moreover have "rev w \<in> set (map rev space_codes)" using assms(2) by simp
  ultimately show False
    using drop_words_fixed[of "map rev space_codes" "rev (drop_words space_codes s)"] assms(3)
    unfolding find_None_iff by (metis rev_is_Nil_conv)
qed

text \<open>So what remains of a trimmed text after its first bytes does not trim to nothing.\<close>

lemma trim_suffix_nonempty:
  assumes "trim_bytes s = p @ x" and "x \<noteq> []"
  shows "trim_bytes x \<noteq> []"
proof
  assume t: "trim_bytes x = []"
  define u where "u = drop_words space_codes x"
  have d: "drop_words (map rev space_codes) (rev u) = []" using t by (simp add: trim_bytes_def u_def)
  show False
  proof (cases "u = []")
    case True
    then obtain w q where "w \<in> set space_codes" "w \<noteq> []" "x = q @ w"
      using drop_words_ends[of space_codes x] assms(2) by (auto simp: u_def)
    then show False using trimmed_no_space_end[of s "p @ q" w] assms(1) by simp
  next
    case False
    obtain q where q: "x = q @ u" using drop_words_split[of x space_codes] unfolding u_def by blast
    have "List.find (\<lambda>w. w \<noteq> [] \<and> take (length w) (rev u) = w) (map rev space_codes) \<noteq> None"
      using d False by (subst (asm) drop_words.simps) (auto split: option.splits)
    then obtain w where "w \<in> set space_codes" "w \<noteq> []" "take (length w) (rev u) = rev w"
      by (auto simp: find_None_iff)
    then have "rev u = rev w @ drop (length w) (rev u)" by (metis append_take_drop_id)
    then have "u = rev (drop (length w) (rev u)) @ w" by (metis rev_append rev_rev_ident)
    then have "trim_bytes s = (p @ q @ rev (drop (length w) (rev u))) @ w" using assms(1) q by simp
    then show False using trimmed_no_space_end \<open>w \<in> set space_codes\<close> \<open>w \<noteq> []\<close> by blast
  qed
qed

lemma next_block_passes:
  assumes "next_block src pos = Some (ob, pos')" and "pos < length src"
  shows "passes src pos ob pos'"
proof -
  let ?eol = "pos + line_len src pos" and ?t = "trimmed_line src pos"
  note pr = next_block_progress[OF assms]
  obtain p q where pq: "slice src pos ?eol = p @ ?t @ q" "blank p" "blank q"
    using trimmed_line_split[OF assms(2)] by blast
  have le: "pos \<le> ?eol" "?eol \<le> length src" using line_len_bounds[OF assms(2)] by simp_all
  note unf = assms(1)[unfolded next_block_def Let_def]
  consider "?t = []" | "?t \<noteq> []" "is_fence ?t" | "?t \<noteq> []" "\<not> is_fence ?t" "is_heading ?t"
    | "?t \<noteq> []" "\<not> is_fence ?t" "\<not> is_heading ?t" "isMarkdownList ?t"
    | "?t \<noteq> []" "\<not> is_fence ?t" "\<not> is_heading ?t" "\<not> isMarkdownList ?t" by blast
  then show ?thesis
  proof cases
    case 1
    then show ?thesis using unf pq by (simp add: passes_def)
  next
    case 2
    then have e: "fence_end src (take 3 ?t) ?eol = Some pos'"
      and ob: "ob = Some \<lparr> pb_kind = Code, pb_text = trim_bytes (slice src pos pos'), pb_level = 0,
        pb_language = trim_bytes (drop 3 ?t), pb_start = int pos, pb_end = int pos' \<rparr>"
      using unf by (auto split: option.splits)
    obtain b where b: "b \<in> set ?t" "\<not> blank_byte b"
    proof -
      have "hd ?t \<in> {96, 126}" using 2 by (cases ?t) (auto simp: is_fence_def starts_def)
      then show ?thesis using that[of "hd ?t"] 2(1) by (auto simp: blank_byte_def space_codes_def)
    qed
    have "?eol \<le> pos'" using fence_end_bounds[OF e] by simp
    then have "set (slice src pos ?eol) \<subseteq> set (slice src pos pos')"
      unfolding slice_def by (intro set_take_subset_set_take) simp
    then have "b \<in> set (slice src pos pos')" using b(1) pq(1) by auto
    then have "trim_bytes (slice src pos pos') \<noteq> []"
      using trim_bytes_split[of "slice src pos pos'"] b(2) by (auto simp: list_all_iff)
    then show ?thesis using pr by (simp add: ob passes_def block_matches_def slice_def)
  next
    case 3
    let ?k = "heading_level ?t"
    let ?title = "trim_bytes (drop ?k ?t)"
    have r: "ob = Some (located_block Heading src ?k ?title pos ?eol)" "pos' = ?eol"
      using unf 3 by auto
    have k: "1 \<le> ?k" "?k \<le> 6" "?k < length ?t"
      using 3 by (cases ?t; auto simp: is_heading_def starts_def heading_level_def)+
    have "takeWhile (\<lambda>b. b = 35) ?t = replicate ?k 35"
      unfolding heading_level_def by (rule replicate_length_same[symmetric]) (auto dest: set_takeWhileD)
    then have m: "take ?k ?t = replicate ?k 35" unfolding heading_level_def takeWhile_eq_take[symmetric] .
    obtain p2 q2 where t: "drop ?k ?t = p2 @ ?title @ q2" "blank p2" "blank q2" using trim_bytes_split by blast
    have "slice src pos ?eol = (p @ replicate ?k 35 @ p2) @ ?title @ (q2 @ q)"
      using pq(1) t(1) m append_take_drop_id[of ?k ?t] by (metis append.assoc)
    moreover have "blank (p @ replicate ?k 35 @ p2)" "blank (q2 @ q)"
      using pq(2,3) t(2,3) by (auto simp: list_all_iff blank_byte_def)
    moreover have "?title \<noteq> []"
    proof (rule trim_suffix_nonempty)
      show "trim_bytes (trim_last 13 (trim_last 10 (slice src pos ?eol))) = take ?k ?t @ drop ?k ?t"
        by (simp add: trimmed_line_def)
    qed (use k in simp)
    ultimately show ?thesis unfolding r by (rule located_passes) (use le k in simp_all)
  next
    case 4
    then have r: "ob = Some (located_block List_item src 0 ?t pos ?eol)" "pos' = ?eol" using unf by auto
    show ?thesis unfolding r by (rule located_passes[OF pq 4(1) le]) simp_all
  next
    case 5
    let ?body = "trim_bytes (slice src pos pos')"
    have r: "ob = (if ?body = [] then None else Some (located_block Paragraph src 0 ?body pos pos'))"
      using unf 5 by auto
    obtain p q where b: "slice src pos pos' = p @ ?body @ q" "blank p" "blank q" using trim_bytes_split by blast
    show ?thesis
    proof (cases "?body = []")
      case True
      then show ?thesis using r b by (simp add: passes_def)
    next
      case False
      have "passes src pos (Some (located_block Paragraph src 0 ?body pos pos')) pos'"
        by (rule located_passes[OF b False]) (use pr in simp_all)
      then show ?thesis using False r by simp
    qed
  qed
qed

section \<open>The whole text\<close>

text \<open>The blocks stand one after the other in the text from \<open>pos\<close> on, with only blank bytes outside of them.\<close>

fun covers :: "bytes \<Rightarrow> nat \<Rightarrow> parsedBlock list \<Rightarrow> bool" where
  "covers src pos [] \<longleftrightarrow> blank (drop pos src)"
| "covers src pos (b # bs) \<longleftrightarrow>
     int pos \<le> pb_start b \<and> pb_start b < pb_end b \<and> pb_end b \<le> int (length src) \<and> block_matches src b \<and>
     blank (slice src pos (nat (pb_start b))) \<and> covers src (nat (pb_end b)) bs"

lemma slice_append: "i \<le> j \<Longrightarrow> j \<le> k \<Longrightarrow> slice s i k = slice s i j @ slice s j k"
proof -
  assume "i \<le> j" "j \<le> k"
  then have "k - i = (j - i) + (k - j)" "j = (j - i) + i" by simp_all
  then show ?thesis unfolding slice_def by (metis drop_drop take_add)
qed

lemma covers_back:
  assumes "covers src pos' bs" and "blank (slice src pos pos')" and "pos \<le> pos'"
  shows "covers src pos bs"
proof (cases bs)
  case Nil
  then show ?thesis using assms slice_drop[of pos pos' src] by (metis covers.simps(1) list_all_append)
next
  case (Cons b bs')
  then have "int pos' \<le> pb_start b" using assms(1) by simp
  then have "slice src pos (nat (pb_start b)) = slice src pos pos' @ slice src pos' (nat (pb_start b))"
    using slice_append[of pos pos' "nat (pb_start b)" src] assms(3) by linarith
  then show ?thesis using assms Cons by simp
qed

definition unclosed_fence :: "bytes \<Rightarrow> nat \<Rightarrow> bool" where
  "unclosed_fence src pos \<longleftrightarrow>
     is_fence (trimmed_line src pos) \<and>
     fence_end src (take 3 (trimmed_line src pos)) (pos + line_len src pos) = None"

lemma next_block_None: "next_block src pos = None \<Longrightarrow> unclosed_fence src pos"
  by (auto simp: next_block_def unclosed_fence_def Let_def split: if_splits option.splits)

lemma parse_from_None: "parse_from src pos = None \<Longrightarrow> \<exists>i < length src. unclosed_fence src i"
proof (induction src pos rule: parse_from.induct)
  case (1 src pos)
  show ?case
  proof (cases "length src \<le> pos")
    case True
    then show ?thesis using 1(2) by (simp add: parse_from.simps)
  next
    case False
    show ?thesis
    proof (cases "next_block src pos")
      case None
      then show ?thesis using next_block_None[OF None] False not_le by blast
    next
      case (Some op)
      obtain ob p where op: "op = (ob, p)" by fastforce
      then have "parse_from src p = None"
        using 1(2) Some False by (subst (asm) parse_from.simps) (auto split: option.splits)
      then show ?thesis using 1(1)[OF False Some op[symmetric]] by (simp add: op)
    qed
  qed
qed

lemma parse_from_covers: "parse_from src pos = Some bs \<Longrightarrow> covers src pos bs"
proof (induction src pos arbitrary: bs rule: parse_from.induct)
  case (1 src pos)
  show ?case
  proof (cases "length src \<le> pos")
    case True
    then show ?thesis using 1(2) by (simp add: parse_from.simps)
  next
    case False
    then have lt: "pos < length src" by simp
    obtain ob p where nb: "next_block src pos = Some (ob, p)"
      using 1(2) lt by (subst (asm) parse_from.simps) (auto split: option.splits)
    obtain bs' where bs': "parse_from src p = Some bs'" "bs = (case ob of None \<Rightarrow> bs' | Some b \<Rightarrow> b # bs')"
      using 1(2) lt nb by (subst (asm) parse_from.simps) (auto split: option.splits)
    have c: "covers src p bs'" using 1(1)[OF False nb refl bs'(1)] .
    note ps = next_block_passes[OF nb lt] and pr = next_block_progress[OF nb lt]
    show ?thesis
    proof (cases ob)
      case None
      then show ?thesis using covers_back[OF c, of pos] ps pr bs'(2) by (simp add: passes_def)
    next
      case (Some b)
      have "covers src (nat (pb_end b)) bs'"
        using covers_back[OF c, of "nat (pb_end b)"] ps Some by (auto simp: passes_def)
      then show ?thesis using ps pr bs'(2) Some by (auto simp: passes_def)
    qed
  qed
qed

text \<open>
  Parsing Markdown loses nothing. Unless a code fence is never closed, the blocks stand in the text in order
  and without overlap, each has text, its text is what the text has at its byte range (up to space around a code block), a
  heading has a level from 1 to 6, and all the bytes outside of the ranges belong to space characters or heading
  marks. With an unclosed fence there are no blocks at all, and the caller takes the whole text as one.
\<close>

theorem markdown_blocks_cover:
  "case parse_from src 0 of
     Some bs \<Rightarrow> parseMarkdownBlocks src = bs \<and> covers src 0 bs
   | None \<Rightarrow> parseMarkdownBlocks src = [] \<and> (\<exists>pos < length src. unclosed_fence src pos)"
  using parse_from_covers[of src 0] parse_from_None[of src 0]
  by (auto simp: parseMarkdownBlocks_def split: option.splits)

section \<open>HTML\<close>

text \<open>
  \<open>parseHTMLBlocks\<close> runs over the tokens of golang.org/x/net/html, which are its parameter here: each token with
  the number of raw bytes it stands for, and at the end whether the tokenizer stopped at the end of the text or for another error.
\<close>

datatype html_token = StartTag string | TextToken bytes | EndTag string | OtherToken

fun html_block :: "string \<Rightarrow> (block_kind \<times> nat) option" where
  "html_block name =
     (if length name = 2 \<and> name ! 0 = CHR ''h'' \<and> in_range CHR ''1'' CHR ''6'' (name ! 1)
      then Some (Heading, of_char (name ! 1) - 48)
      else if name = ''p'' then Some (Paragraph, 0)
      else if name = ''li'' then Some (List_item, 0)
      else if name = ''pre'' then Some (Code, 0)
      else None)"

definition closes_block :: "parsedBlock \<Rightarrow> string \<Rightarrow> bool" where
  "closes_block b name \<longleftrightarrow>
     (case pb_kind b of
        Heading \<Rightarrow> name = [CHR ''h'', char_of (48 + pb_level b)]
      | Paragraph \<Rightarrow> name = ''p''
      | List_item \<Rightarrow> name = ''li''
      | Code \<Rightarrow> name = ''pre'')"

fun html_from ::
  "bool \<Rightarrow> (html_token \<times> nat) list \<Rightarrow> int \<Rightarrow> (parsedBlock \<times> bytes) option \<Rightarrow> parsedBlock list option" where
  "html_from eof [] offset active = (if eof \<and> active = None then Some [] else None)"
| "html_from eof ((t, n) # ts) offset active =
     (let stop = offset + int n in
      case t of
        StartTag tag \<Rightarrow>
          (case html_block (go_lower tag) of
             None \<Rightarrow> html_from eof ts stop active
           | Some (k, level) \<Rightarrow>
               if active \<noteq> None then None
               else html_from eof ts stop
                 (Some (\<lparr> pb_kind = k, pb_text = [], pb_level = level, pb_language = [], pb_start = offset, pb_end = 0 \<rparr>, [])))
      | TextToken tx \<Rightarrow> html_from eof ts stop (map_option (\<lambda>(b, so_far). (b, so_far @ tx)) active)
      | EndTag tag \<Rightarrow>
          (case active of
             None \<Rightarrow> html_from eof ts stop None
           | Some (b, so_far) \<Rightarrow>
               if closes_block b (go_lower tag)
               then (if trim_bytes so_far = [] then None
                     else (case html_from eof ts stop None of
                             None \<Rightarrow> None
                           | Some bs \<Rightarrow> Some (b\<lparr> pb_end := stop, pb_text := trim_bytes so_far \<rparr> # bs)))
               else html_from eof ts stop active)
      | OtherToken \<Rightarrow> html_from eof ts stop active)"

definition parseHTMLBlocks :: "bool \<Rightarrow> (html_token \<times> nat) list \<Rightarrow> parsedBlock list" where
  "parseHTMLBlocks eof tokens = (case html_from eof tokens 0 None of None \<Rightarrow> [] | Some bs \<Rightarrow> bs)"

declare html_block.simps [simp del]

text \<open>What the chunks below need of the blocks of either format.\<close>

definition level_ok :: "block_kind \<Rightarrow> nat \<Rightarrow> bool" where
  "level_ok k level \<longleftrightarrow> (if k = Heading then 1 \<le> level \<and> level \<le> 6 else level = 0)"

definition block_usable :: "parsedBlock \<Rightarrow> bool" where
  "block_usable b \<longleftrightarrow> pb_text b \<noteq> [] \<and> level_ok (pb_kind b) (pb_level b)"

lemma html_block_level: "html_block name = Some (k, l) \<Longrightarrow> level_ok k l"
  by (auto simp: html_block.simps in_range_def level_ok_def split: if_splits)

lemma html_from_usable:
  assumes "html_from eof ts offset active = Some bs" and "\<And>b so_far. active = Some (b, so_far) \<Longrightarrow> level_ok (pb_kind b) (pb_level b)"
  shows "list_all block_usable bs"
  using assms
proof (induction ts arbitrary: offset active bs)
  case Nil
  then show ?case by (auto split: if_splits)
next
  case (Cons tn ts)
  obtain t n where tn: "tn = (t, n)" by fastforce
  note eq = Cons.prems(1)[unfolded tn html_from.simps Let_def]
  show ?case
  proof (cases t)
    case (StartTag tag)
    show ?thesis
    proof (cases "html_block (go_lower tag)")
      case None
      have "html_from eof ts (offset + int n) active = Some bs"
        using eq unfolding StartTag html_token.case None option.case .
      then show ?thesis using Cons.IH Cons.prems(2) by blast
    next
      case (Some kl)
      obtain k l where kl: "kl = (k, l)" by fastforce
      let ?b = "\<lparr> pb_kind = k, pb_text = [], pb_level = l, pb_language = [], pb_start = offset, pb_end = 0 \<rparr>"
      have "html_from eof ts (offset + int n) (Some (?b, [])) = Some bs"
        using eq unfolding StartTag html_token.case Some kl option.case prod.case by (simp split: if_splits)
      then show ?thesis using Cons.IH[of "offset + int n" "Some (?b, [])" bs] html_block_level Some kl by simp
    qed
  next
    case (TextToken tx)
    then have "html_from eof ts (offset + int n) (map_option (\<lambda>(b, so_far). (b, so_far @ tx)) active) = Some bs"
      using eq by simp
    then show ?thesis
    proof (rule Cons.IH)
      fix b so_far
      assume "map_option (\<lambda>(b, so_far). (b, so_far @ tx)) active = Some (b, so_far)"
      then show "level_ok (pb_kind b) (pb_level b)" using Cons.prems(2) by (auto split: prod.splits)
    qed
  next
    case (EndTag tag)
    show ?thesis
    proof (cases active)
      case None
      then show ?thesis using eq EndTag Cons.IH[of "offset + int n" None bs] by simp
    next
      case (Some bt)
      obtain b so_far where bt: "bt = (b, so_far)" by fastforce
      note eq' = eq[unfolded EndTag html_token.case Some bt option.case prod.case]
      show ?thesis
      proof (cases "closes_block b (go_lower tag)")
        case True
        then obtain bs' where r: "trim_bytes so_far \<noteq> []" "html_from eof ts (offset + int n) None = Some bs'"
          "bs = b\<lparr> pb_end := offset + int n, pb_text := trim_bytes so_far \<rparr> # bs'"
          using eq' by (auto split: if_splits option.splits)
        then have "list_all block_usable bs'" using Cons.IH[of "offset + int n" None bs'] by simp
        moreover have "level_ok (pb_kind b) (pb_level b)" using Cons.prems(2) Some bt by blast
        then have "block_usable (b\<lparr> pb_end := offset + int n, pb_text := trim_bytes so_far \<rparr>)"
          using r(1) by (simp add: block_usable_def)
        ultimately show ?thesis unfolding r(3) by simp
      next
        case False
        then show ?thesis using eq' Cons.IH[of "offset + int n" "Some (b, so_far)" bs] Cons.prems(2) Some bt by simp
      qed
    qed
  next
    case OtherToken
    then have "html_from eof ts (offset + int n) active = Some bs" using eq by simp
    then show ?thesis using Cons.IH Cons.prems(2) by blast
  qed
qed

lemma covers_usable: "covers src pos bs \<Longrightarrow> list_all block_usable bs"
  by (induction bs arbitrary: pos) (auto simp: block_matches_def block_usable_def level_ok_def split: if_splits)

lemma markdown_usable: "list_all block_usable (parseMarkdownBlocks src)"
  using parse_from_covers[of src 0] covers_usable by (auto simp: parseMarkdownBlocks_def split: option.splits)

lemma html_usable: "list_all block_usable (parseHTMLBlocks eof ts)"
  using html_from_usable[of eof ts 0 None] by (auto simp: parseHTMLBlocks_def split: option.splits)

end
