(* ===== verification/RagChunks.thy ===== *)
theory RagChunks
  imports RagBlocks
begin

text \<open>
  Structured documents, second half of internal/rag/structured.go: \<open>chunkStructured\<close> groups the blocks of a document into
  chunks of at most the configured number of code points, each with the byte range and the indexes of its blocks
  and the path of its headings. Texts are byte lists; \<open>rune_count\<close> is \<open>utf8.RuneCountInString\<close>.
\<close>

record structuredChunk =
  sc_text :: bytes
  sc_start :: int
  sc_end :: int
  sc_blocks :: "nat list"
  sc_header :: bytes

definition no_chunk :: structuredChunk where
  "no_chunk = \<lparr> sc_text = [], sc_start = 0, sc_end = 0, sc_blocks = [], sc_header = [] \<rparr>"

definition rune_count :: "bytes \<Rightarrow> nat" where
  "rune_count s = length (decode_runes s)"

text \<open>
  The slice \<open>headers\<close> with its backing array of six strings: cutting it back to fewer elements keeps the array, and cutting
  it to more elements than it has shows what the array holds there.
\<close>

record chunking =
  ck_out :: "structuredChunk list"
  ck_current :: structuredChunk
  ck_headers :: "bytes list"
  ck_depth :: nat

fun join_bytes :: "bytes \<Rightarrow> bytes list \<Rightarrow> bytes" where
  "join_bytes sep [] = []"
| "join_bytes sep [s] = s"
| "join_bytes sep (s # t # ss) = s @ sep @ join_bytes sep (t # ss)"

definition header_separator :: bytes where
  "header_separator = [32, 226, 128, 186, 32]"

definition header_path :: "chunking \<Rightarrow> bytes" where
  "header_path st = join_bytes header_separator (take (ck_depth st) (ck_headers st))"

definition flush_chunk :: "chunking \<Rightarrow> chunking" where
  "flush_chunk st =
     (if sc_text (ck_current st) \<noteq> []
      then st\<lparr> ck_out := ck_out st @ [(ck_current st)\<lparr> sc_header := header_path st \<rparr>], ck_current := no_chunk \<rparr>
      else st)"

definition enter_heading :: "parsedBlock \<Rightarrow> chunking \<Rightarrow> chunking" where
  "enter_heading b st =
     st\<lparr> ck_headers := (ck_headers st)[pb_level b - 1 := pb_text b], ck_depth := pb_level b \<rparr>"

text \<open>The blocks of the last chunk that are repeated, from its last one back, as long as the budget holds.\<close>

fun overlap_indexes :: "parsedBlock list \<Rightarrow> int \<Rightarrow> nat list \<Rightarrow> nat list" where
  "overlap_indexes blocks budget [] = []"
| "overlap_indexes blocks budget (i # is) =
     (let count = int (rune_count (pb_text (blocks ! i))) in
      if budget < count then [] else i # overlap_indexes blocks (budget - (count + 1)) is)"

definition append_block :: "parsedBlock \<Rightarrow> nat \<Rightarrow> structuredChunk \<Rightarrow> structuredChunk" where
  "append_block b i c =
     c\<lparr> sc_start := (if sc_text c = [] then pb_start b else sc_start c),
        sc_text := (if sc_text c = [] then pb_text b else sc_text c @ 10 # pb_text b),
        sc_end := pb_end b, sc_blocks := sc_blocks c @ [i] \<rparr>"

definition repeat_overlap :: "parsedBlock list \<Rightarrow> int \<Rightarrow> int \<Rightarrow> parsedBlock \<Rightarrow> chunking \<Rightarrow> chunking" where
  "repeat_overlap blocks sz overlap b st =
     (if 0 < overlap \<and> pb_kind b \<noteq> Heading \<and> ck_out st \<noteq> [] then
        (let remaining = sz - int (rune_count (pb_text b)) - 1;
             budget = (if remaining < overlap then remaining else overlap) in
         if 0 < budget then
           st\<lparr> ck_current := fold (\<lambda>i c. append_block (blocks ! i) i c)
             (rev (overlap_indexes blocks budget (rev (sc_blocks (last (ck_out st)))))) (ck_current st) \<rparr>
         else st)
      else st)"

text \<open>One round of the loop over the blocks; None is the return of nil for a heading level out of range.\<close>

definition added_text :: "parsedBlock \<Rightarrow> structuredChunk \<Rightarrow> bytes" where
  "added_text b c = (if sc_text c \<noteq> [] then 10 # pb_text b else pb_text b)"

definition add_block :: "parsedBlock list \<Rightarrow> int \<Rightarrow> int \<Rightarrow> nat \<Rightarrow> chunking \<Rightarrow> chunking option" where
  "add_block blocks sz overlap i st0 =
     (let b = blocks ! i; st1 = (if pb_kind b = Heading then flush_chunk st0 else st0) in
      if pb_kind b = Heading \<and> (pb_level b < 1 \<or> 6 < pb_level b) then None
      else
        (let st2 = (if pb_kind b = Heading then enter_heading b st1 else st1); cur = ck_current st2;
             st3 = (if sc_text cur \<noteq> [] \<and> sz < int (rune_count (sc_text cur) + rune_count (added_text b cur))
                    then repeat_overlap blocks sz overlap b (flush_chunk st2) else st2) in
         Some (st3\<lparr> ck_current := append_block b i (ck_current st3) \<rparr>)))"

fun add_blocks :: "parsedBlock list \<Rightarrow> int \<Rightarrow> int \<Rightarrow> nat list \<Rightarrow> chunking \<Rightarrow> chunking option" where
  "add_blocks blocks sz overlap [] st = Some st"
| "add_blocks blocks sz overlap (i # is) st =
     (case add_block blocks sz overlap i st of None \<Rightarrow> None | Some st' \<Rightarrow> add_blocks blocks sz overlap is st')"

definition chunk_size :: "int \<Rightarrow> int" where
  "chunk_size sz = (if sz \<le> 0 then DefaultChunkSize else sz)"

definition start_chunking :: chunking where
  "start_chunking = \<lparr> ck_out = [], ck_current = no_chunk, ck_headers = replicate 6 [], ck_depth = 0 \<rparr>"

definition chunkStructured :: "parsedBlock list \<Rightarrow> int \<Rightarrow> int \<Rightarrow> structuredChunk list" where
  "chunkStructured blocks sz overlap =
     (let sz' = chunk_size sz; overlap' = (if overlap < 0 \<or> sz' \<le> overlap then 0 else overlap) in
      case add_blocks blocks sz' overlap' [0..<length blocks] start_chunking of
        None \<Rightarrow> []
      | Some st \<Rightarrow> ck_out (flush_chunk st))"

section \<open>Counting code points\<close>

lemma newline_ends_rune: "decode_rune ((x # xs) @ 10 # ys) = decode_rune (x # xs)"
proof -
  have c: "\<not> continuation 10" by (simp add: continuation_def)
  consider "xs = []" | a where "xs = [a]" | a b where "xs = [a, b]" | a b d r where "xs = a # b # d # r"
    by (metis list.exhaust)
  then show ?thesis by cases (use c in \<open>auto simp: decode_rune_def split: list.split\<close>)
qed

lemma decode_rune_length: "decode_rune (x # xs) = (r, n) \<Longrightarrow> 1 \<le> n \<and> n \<le> Suc (length xs)"
  by (auto simp: decode_rune_def split: list.splits if_splits)

lemma decode_runes_newline: "decode_runes (s @ 10 # t) = decode_runes s @ 10 # decode_runes t"
proof (induction s rule: decode_runes.induct)
  case 1
  then show ?case by (simp add: decode_rune_def)
next
  case (2 x xs)
  obtain r n where rn: "decode_rune (x # xs) = (r, n)" by fastforce
  have d: "drop (n - Suc 0) (xs @ 10 # t) = drop (n - Suc 0) xs @ 10 # t" using decode_rune_length[OF rn] by simp
  show ?case using 2[OF rn[symmetric]] newline_ends_rune[of x xs t] rn by (simp add: d del: drop_append)
qed

lemma rune_count_newline: "rune_count (s @ 10 # t) = rune_count s + 1 + rune_count t"
  by (simp add: rune_count_def decode_runes_newline)

lemma rune_count_newline_front: "rune_count (10 # t) = 1 + rune_count t"
  using rune_count_newline[of "[]" t] by (simp add: rune_count_def)

lemma join_bytes_snoc: "ss \<noteq> [] \<Longrightarrow> join_bytes sep (ss @ [s]) = join_bytes sep ss @ sep @ s"
proof (induction sep ss rule: join_bytes.induct)
  case (3 sep a b ss)
  then show ?case by simp
qed auto

section \<open>What a chunk is\<close>

definition joined :: "parsedBlock list \<Rightarrow> nat \<Rightarrow> nat \<Rightarrow> bytes" where
  "joined blocks lo k = join_bytes [10] (map (\<lambda>i. pb_text (blocks ! i)) [lo..<k])"

lemma joined_Suc:
  "lo \<le> k \<Longrightarrow> joined blocks lo (Suc k) = (if lo = k then pb_text (blocks ! k) else joined blocks lo k @ 10 # pb_text (blocks ! k))"
  using join_bytes_snoc[of "map (\<lambda>i. pb_text (blocks ! i)) [lo..<k]" "[10]"] by (auto simp: joined_def)

text \<open>The chunk of the blocks from \<open>lo\<close> up to \<open>k\<close>: within the size, unless it is a single block.\<close>

definition chunk_of :: "parsedBlock list \<Rightarrow> int \<Rightarrow> structuredChunk \<Rightarrow> nat \<Rightarrow> nat \<Rightarrow> bool" where
  "chunk_of blocks sz c lo k \<longleftrightarrow>
     lo < k \<and> k \<le> length blocks \<and> sc_blocks c = [lo..<k] \<and> sc_text c = joined blocks lo k \<and>
     sc_start c = pb_start (blocks ! lo) \<and> sc_end c = pb_end (blocks ! (k - 1)) \<and>
     (int (rune_count (sc_text c)) \<le> sz \<or> k = Suc lo)"

text \<open>Chunks in order from block \<open>e\<close> to block \<open>k\<close>: each goes on past the one before and begins no later than where that ends.\<close>

fun chunk_chain :: "parsedBlock list \<Rightarrow> int \<Rightarrow> nat \<Rightarrow> structuredChunk list \<Rightarrow> nat \<Rightarrow> bool" where
  "chunk_chain blocks sz e [] k \<longleftrightarrow> e = k"
| "chunk_chain blocks sz e (c # cs) k \<longleftrightarrow>
     chunk_of blocks sz c (hd (sc_blocks c)) (Suc (last (sc_blocks c))) \<and>
     hd (sc_blocks c) \<le> e \<and> e \<le> last (sc_blocks c) \<and> chunk_chain blocks sz (Suc (last (sc_blocks c))) cs k"

lemma chunk_of_ends: "chunk_of blocks sz c lo k \<Longrightarrow> hd (sc_blocks c) = lo \<and> Suc (last (sc_blocks c)) = k"
  by (auto simp: chunk_of_def)

lemma chain_snoc:
  "chunk_chain blocks sz e (cs @ [c]) k \<longleftrightarrow>
   (\<exists>m lo. chunk_chain blocks sz e cs m \<and> chunk_of blocks sz c lo k \<and> lo \<le> m \<and> m < k)"
proof (induction cs arbitrary: e)
  case Nil
  let ?l = "hd (sc_blocks c)" and ?k = "Suc (last (sc_blocks c))"
  have "chunk_chain blocks sz e [c] k \<longleftrightarrow> chunk_of blocks sz c ?l ?k \<and> ?l \<le> e \<and> e < ?k \<and> ?k = k"
    by (simp add: less_Suc_eq_le)
  also have "\<dots> \<longleftrightarrow> (\<exists>m lo. e = m \<and> chunk_of blocks sz c lo k \<and> lo \<le> m \<and> m < k)"
    using chunk_of_ends[of blocks sz c] by metis
  finally show ?case by simp
next
  case (Cons d cs)
  show ?case unfolding append_Cons chunk_chain.simps Cons by blast
qed

lemma joined_nonempty:
  assumes "list_all block_usable blocks" and "lo < k" and "k \<le> length blocks"
  shows "joined blocks lo k \<noteq> []"
proof -
  have "k = Suc (k - 1)" "lo \<le> k - 1" "k - 1 < length blocks" using assms(2,3) by auto
  moreover then have "pb_text (blocks ! (k - 1)) \<noteq> []" using assms(1) by (simp add: list_all_length block_usable_def)
  ultimately show ?thesis using joined_Suc[of lo "k - 1" blocks] by auto
qed

section \<open>Overlap\<close>

lemma overlap_is_tail:
  assumes "lo \<le> k"
  shows "\<exists>x. lo \<le> x \<and> x \<le> k \<and> overlap_indexes blocks budget (rev [lo..<k]) = rev [x..<k] \<and>
    (x < k \<longrightarrow> int (rune_count (joined blocks x k)) \<le> budget)"
  using assms
proof (induction k arbitrary: budget)
  case 0
  then show ?case by auto
next
  case (Suc k)
  show ?case
  proof (cases "lo = Suc k \<or> budget < int (rune_count (pb_text (blocks ! k)))")
    case True
    then have "overlap_indexes blocks budget (rev [lo..<Suc k]) = rev [Suc k..<Suc k]"
      using Suc(2) by (auto simp: Let_def)
    then show ?thesis using Suc(2) by blast
  next
    case False
    then have le: "lo \<le> k" using Suc(2) by simp
    let ?c = "int (rune_count (pb_text (blocks ! k)))"
    obtain x where x: "lo \<le> x" "x \<le> k" "overlap_indexes blocks (budget - (?c + 1)) (rev [lo..<k]) = rev [x..<k]"
      "x < k \<longrightarrow> int (rune_count (joined blocks x k)) \<le> budget - (?c + 1)"
      using Suc(1)[OF le] by blast
    have "overlap_indexes blocks budget (rev [lo..<Suc k]) = rev [x..<Suc k]"
      using False le x(2,3) by (simp add: Let_def)
    moreover have "int (rune_count (joined blocks x (Suc k))) \<le> budget"
      using x(2,4) False by (auto simp: joined_Suc rune_count_newline)
    ultimately show ?thesis using x(1,2) by (intro exI[of _ x]) simp
  qed
qed

text \<open>Repeating the blocks from \<open>x\<close> to \<open>k\<close> in an empty chunk.\<close>

lemma fold_append:
  assumes "list_all block_usable blocks" and "x < k" and "k \<le> length blocks"
  shows "let c = fold (\<lambda>i c. append_block (blocks ! i) i c) [x..<k] no_chunk in
    sc_blocks c = [x..<k] \<and> sc_text c = joined blocks x k \<and> sc_start c = pb_start (blocks ! x) \<and>
    sc_end c = pb_end (blocks ! (k - 1))"
  using assms(2,3)
proof (induction k)
  case (Suc k)
  show ?case
  proof (cases "x = k")
    case True
    then show ?thesis by (simp add: append_block_def no_chunk_def joined_Suc)
  next
    case False
    then have "x < k" using Suc(2) by simp
    moreover then have "joined blocks x k \<noteq> []" using joined_nonempty[OF assms(1)] Suc(3) by simp
    ultimately show ?thesis using Suc by (simp add: Let_def append_block_def joined_Suc)
  qed
qed simp

section \<open>The loop\<close>

lemma chunk_of_header [simp]: "chunk_of blocks sz (c\<lparr> sc_header := h \<rparr>) lo k = chunk_of blocks sz c lo k"
  by (simp add: chunk_of_def)

text \<open>A current chunk with the blocks from \<open>x\<close> up to \<open>k\<close>, empty when there are none.\<close>

definition current_span :: "parsedBlock list \<Rightarrow> structuredChunk \<Rightarrow> nat \<Rightarrow> nat \<Rightarrow> bool" where
  "current_span blocks c x k \<longleftrightarrow>
     (if x < k then sc_blocks c = [x..<k] \<and> sc_text c = joined blocks x k \<and> sc_start c = pb_start (blocks ! x) \<and>
        sc_end c = pb_end (blocks ! (k - 1))
      else x = k \<and> c = no_chunk)"

lemma chunk_of_append:
  assumes "list_all block_usable blocks" and "current_span blocks c x k" and "k < length blocks"
    and "x < k \<longrightarrow> int (rune_count (joined blocks x k)) + 1 + int (rune_count (pb_text (blocks ! k))) \<le> sz"
  shows "chunk_of blocks sz (append_block (blocks ! k) k c) x (Suc k) \<and> x \<le> k"
proof (cases "x < k")
  case True
  then have "sc_text c = joined blocks x k" "joined blocks x k \<noteq> []"
    using assms(2,3) joined_nonempty[OF assms(1) True] by (auto simp: current_span_def)
  then show ?thesis
    using True assms by (auto simp: current_span_def chunk_of_def append_block_def joined_Suc rune_count_newline)
next
  case False
  then show ?thesis
    using assms by (auto simp: current_span_def chunk_of_def append_block_def no_chunk_def joined_Suc split: if_splits)
qed

definition parts :: "chunking \<Rightarrow> structuredChunk list" where
  "parts st = ck_out st @ (if sc_text (ck_current st) = [] then [] else [ck_current st])"

definition grouped :: "parsedBlock list \<Rightarrow> int \<Rightarrow> nat \<Rightarrow> chunking \<Rightarrow> bool" where
  "grouped blocks sz k st \<longleftrightarrow>
     chunk_chain blocks sz 0 (parts st) k \<and> (sc_text (ck_current st) = [] \<longrightarrow> ck_current st = no_chunk)"

lemma flush_grouped:
  assumes "grouped blocks sz k st"
  shows "chunk_chain blocks sz 0 (ck_out (flush_chunk st)) k \<and> ck_current (flush_chunk st) = no_chunk \<and>
    grouped blocks sz k (flush_chunk st)"
proof (cases "sc_text (ck_current st) = []")
  case True
  then show ?thesis using assms by (simp add: grouped_def parts_def flush_chunk_def)
next
  case False
  then have "chunk_chain blocks sz 0 (ck_out st @ [(ck_current st)\<lparr> sc_header := header_path st \<rparr>]) k"
    using assms by (simp add: grouped_def parts_def chain_snoc)
  then show ?thesis using False by (simp add: grouped_def parts_def flush_chunk_def no_chunk_def)
qed

lemma enter_heading_grouped [simp]: "grouped blocks sz k (enter_heading b st) = grouped blocks sz k st"
  by (simp add: grouped_def parts_def enter_heading_def)

lemma append_grouped:
  assumes "list_all block_usable blocks" and "k < length blocks" and "chunk_chain blocks sz 0 (ck_out st) k'"
    and "current_span blocks (ck_current st) x k" and "x \<le> k'" and "k' \<le> k"
    and "x < k \<longrightarrow> int (rune_count (joined blocks x k)) + 1 + int (rune_count (pb_text (blocks ! k))) \<le> sz"
  shows "grouped blocks sz (Suc k) (st\<lparr> ck_current := append_block (blocks ! k) k (ck_current st) \<rparr>)"
proof -
  note c = chunk_of_append[OF assms(1,4,2,7)]
  have "joined blocks x (Suc k) \<noteq> []" using joined_nonempty[OF assms(1), of x "Suc k"] assms(2) c by simp
  then have "sc_text (append_block (blocks ! k) k (ck_current st)) \<noteq> []" using c by (simp add: chunk_of_def)
  moreover have "chunk_chain blocks sz 0 (ck_out st @ [append_block (blocks ! k) k (ck_current st)]) (Suc k)"
    unfolding chain_snoc using c assms(3,5,6) by (meson le_imp_less_Suc)
  ultimately show ?thesis by (simp add: grouped_def parts_def)
qed

lemma repeat_overlap_span:
  assumes "list_all block_usable blocks" and "k < length blocks" and "ck_current st = no_chunk"
    and "ck_out st = cs @ [c]" and "chunk_of blocks sz c lo k"
  shows "\<exists>x \<le> k. current_span blocks (ck_current (repeat_overlap blocks sz overlap (blocks ! k) st)) x k \<and>
    ck_out (repeat_overlap blocks sz overlap (blocks ! k) st) = ck_out st \<and>
    (x < k \<longrightarrow> int (rune_count (joined blocks x k)) + 1 + int (rune_count (pb_text (blocks ! k))) \<le> sz)"
proof -
  let ?st = "repeat_overlap blocks sz overlap (blocks ! k) st"
  let ?n = "int (rune_count (pb_text (blocks ! k)))"
  define budget where "budget = (if sz - ?n - 1 < overlap then sz - ?n - 1 else overlap)"
  show ?thesis
  proof (cases "0 < overlap \<and> pb_kind (blocks ! k) \<noteq> Heading \<and> 0 < budget")
    case False
    then have "?st = st" using assms(4) unfolding budget_def by (auto simp: repeat_overlap_def Let_def)
    then show ?thesis using assms(3) by (intro exI[of _ k]) (simp add: current_span_def)
  next
    case True
    have lo: "lo \<le> k" "sc_blocks c = [lo..<k]" using assms(5) by (simp_all add: chunk_of_def)
    obtain x where x: "x \<le> k" "overlap_indexes blocks budget (rev [lo..<k]) = rev [x..<k]"
      "x < k \<longrightarrow> int (rune_count (joined blocks x k)) \<le> budget"
      using overlap_is_tail[OF lo(1)] by blast
    have st: "?st = st\<lparr> ck_current := fold (\<lambda>i c. append_block (blocks ! i) i c) [x..<k] no_chunk \<rparr>"
      using True assms(3,4) lo(2) x(2) unfolding budget_def by (auto simp: repeat_overlap_def Let_def)
    have "current_span blocks (ck_current ?st) x k"
      unfolding st using fold_append[OF assms(1), of x k] assms(2) x(1)
      by (auto simp: current_span_def Let_def)
    moreover have "x < k \<longrightarrow> int (rune_count (joined blocks x k)) + 1 + ?n \<le> sz"
      using x(3) by (auto simp: budget_def split: if_splits)
    ultimately show ?thesis using x(1) st by auto
  qed
qed

lemma add_block_grouped:
  assumes "list_all block_usable blocks" and "k < length blocks" and "grouped blocks sz k st"
  shows "\<exists>st'. add_block blocks sz overlap k st = Some st' \<and> grouped blocks sz (Suc k) st'"
proof -
  let ?b = "blocks ! k"
  have usable: "block_usable ?b" using assms(1,2) by (simp add: list_all_length)
  define st2 where "st2 = (if pb_kind ?b = Heading then enter_heading ?b (flush_chunk st) else st)"
  have g2: "grouped blocks sz k st2"
    using flush_grouped[OF assms(3)] assms(3) by (simp add: st2_def)
  define over where "over \<longleftrightarrow> sc_text (ck_current st2) \<noteq> [] \<and>
    sz < int (rune_count (sc_text (ck_current st2)) + rune_count (added_text ?b (ck_current st2)))"
  define st3 where "st3 = (if over then repeat_overlap blocks sz overlap ?b (flush_chunk st2) else st2)"
  have "add_block blocks sz overlap k st = Some (st3\<lparr> ck_current := append_block ?b k (ck_current st3) \<rparr>)"
    using usable by (auto simp: add_block_def Let_def block_usable_def level_ok_def st3_def over_def st2_def)
  moreover have "grouped blocks sz (Suc k) (st3\<lparr> ck_current := append_block ?b k (ck_current st3) \<rparr>)"
  proof (cases "sc_text (ck_current st2) = []")
    case True
    then have st3: "st3 = st2" by (simp add: st3_def over_def)
    show ?thesis unfolding st3
    proof (rule append_grouped[OF assms(1,2)])
      show "chunk_chain blocks sz 0 (ck_out st2) k" using g2 True by (simp add: grouped_def parts_def)
      show "current_span blocks (ck_current st2) k k" using g2 True by (simp add: grouped_def current_span_def)
    qed simp_all
  next
    case False
    obtain m lo where cur: "chunk_chain blocks sz 0 (ck_out st2) m" "chunk_of blocks sz (ck_current st2) lo k" "lo \<le> m" "m < k"
      using g2 False by (auto simp: grouped_def parts_def chain_snoc)
    show ?thesis
    proof (cases over)
      case True
      have f: "ck_out (flush_chunk st2) = ck_out st2 @ [(ck_current st2)\<lparr> sc_header := header_path st2 \<rparr>]"
        using False by (simp add: flush_chunk_def)
      obtain x where x: "x \<le> k" "current_span blocks (ck_current st3) x k" "ck_out st3 = ck_out (flush_chunk st2)"
        "x < k \<longrightarrow> int (rune_count (joined blocks x k)) + 1 + int (rune_count (pb_text ?b)) \<le> sz"
        using repeat_overlap_span[OF assms(1,2) _ f, of sz lo overlap] flush_grouped[OF g2] cur(2) True
        by (auto simp: st3_def)
      show ?thesis
        using append_grouped[OF assms(1,2) _ x(2,1) order_refl x(4)] flush_grouped[OF g2] x(3) by simp
    next
      case fits: False
      then have st3: "st3 = st2" by (simp add: st3_def)
      have j: "sc_text (ck_current st2) = joined blocks lo k" using cur(2) by (simp add: chunk_of_def)
      have "int (rune_count (joined blocks lo k)) + 1 + int (rune_count (pb_text ?b)) \<le> sz"
        using fits False j by (simp add: over_def added_text_def rune_count_newline_front)
      moreover have "current_span blocks (ck_current st2) lo k" using cur(2) by (simp add: chunk_of_def current_span_def)
      ultimately show ?thesis unfolding st3
        using append_grouped[OF assms(1,2) cur(1) _ cur(3)] cur(4) by simp
    qed
  qed
  ultimately show ?thesis by blast
qed

lemma add_blocks_grouped:
  assumes "list_all block_usable blocks"
  shows "n \<le> length blocks \<Longrightarrow> grouped blocks sz (length blocks - n) st \<Longrightarrow>
    \<exists>st'. add_blocks blocks sz overlap [length blocks - n..<length blocks] st = Some st' \<and> grouped blocks sz (length blocks) st'"
proof (induction n arbitrary: st)
  case (Suc n)
  let ?k = "length blocks - Suc n"
  have k: "?k < length blocks" "Suc ?k = length blocks - n" using Suc(2) by auto
  obtain st' where st': "add_block blocks sz overlap ?k st = Some st'" "grouped blocks sz (length blocks - n) st'"
    using add_block_grouped[OF assms k(1) Suc(3), of overlap] k(2) by metis
  have "[?k..<length blocks] = ?k # [length blocks - n..<length blocks]" using k by (metis upt_conv_Cons)
  then show ?case using Suc(1)[OF _ st'(2)] Suc(2) st'(1) by simp
qed simp

lemma chunkStructured_chain:
  assumes "list_all block_usable blocks"
  shows "chunk_chain blocks (chunk_size sz) 0 (chunkStructured blocks sz overlap) (length blocks)"
proof -
  define ov where "ov = (if overlap < 0 \<or> chunk_size sz \<le> overlap then 0 else overlap)"
  have "grouped blocks (chunk_size sz) 0 start_chunking"
    by (simp add: grouped_def parts_def start_chunking_def no_chunk_def)
  then obtain st where "add_blocks blocks (chunk_size sz) ov [0..<length blocks] start_chunking = Some st"
    "grouped blocks (chunk_size sz) (length blocks) st"
    using add_blocks_grouped[OF assms, of "length blocks" "chunk_size sz" start_chunking ov] by auto
  then show ?thesis using flush_grouped by (simp add: chunkStructured_def Let_def ov_def)
qed


text \<open>
  The headings of a document need not nest: the path of a section whose level skips one shows the heading that was at this
  level before, although it belongs to an earlier part of the document.
\<close>

definition heading_block :: "nat \<Rightarrow> bytes \<Rightarrow> parsedBlock" where
  "heading_block level title =
     \<lparr> pb_kind = Heading, pb_text = title, pb_level = level, pb_language = [], pb_start = 0, pb_end = 0 \<rparr>"

lemma skipped_level_shows_old_heading:
  "map sc_header (chunkStructured [heading_block 1 [65], heading_block 2 [66], heading_block 1 [67], heading_block 3 [68]] 1000 0) =
   [[65], [65] @ header_separator @ [66], [67], [67] @ header_separator @ [66] @ header_separator @ [68]]"
  by code_simp

end
