(* ===== verification/RagRepo.thy ===== *)
theory RagRepo
  imports SourceProps RagChunks
begin

text \<open>
  The tables of migrations/006_domain.sql behind retrieval and the statements of
  internal/store/postgres/rag_repo.go over them: collections and their items, chunk profiles, parsed documents, chunks and index
  generations, next to the source tables of SourceRepo. A statement that violates a key or a foreign key is a
  \<open>SourceFailure\<close>, and no foreign key cascades. Columns the code never reads back are left out.
  A version row's id is \<open>object#seq\<close>, for which the pair stands.
\<close>

section \<open>Tables\<close>

type_synonym version_id = "string \<times> int"

record rag_collection =
  co_tenant :: string
  co_id :: string
  co_name :: string
  co_description :: string
  co_owner :: string
  co_qdrant :: string
  co_profile :: string
  co_model :: string
  co_size :: int
  co_overlap :: int
  co_acl :: "(string \<times> json) list"
  co_audience :: "string list"
  co_metadata :: "(string \<times> json) list"
  co_active :: bool

record profile_row =
  pf_tenant :: string
  pf_id :: string
  pf_family :: string
  pf_version :: int
  pf_size :: int
  pf_overlap :: int

record item_row =
  it_tenant :: string
  it_collection :: string
  it_object :: string
  it_added_by :: string

datatype gen_state = Staging | Published | Superseded | GenFailed

record gen_row =
  gn_tenant :: string
  gn_collection :: string
  gn_version :: version_id
  gn_number :: int
  gn_state :: gen_state

record chunk_row =
  kr_tenant :: string
  kr_id :: string
  kr_version :: version_id
  kr_profile :: string
  kr_ordinal :: nat
  kr_text :: bytes

record parsed_row =
  pd_tenant :: string
  pd_version :: version_id
  pd_parser :: string
  pd_blocks :: "parsedBlock list"
  pd_parents :: "nat option list"

record rag_db =
  rd_source :: source_db
  rd_collections :: "rag_collection list"
  rd_items :: "item_row list"
  rd_gens :: "gen_row list"
  rd_chunks :: "chunk_row list"
  rd_profiles :: "profile_row list"
  rd_parsed :: "parsed_row list"

definition co_key :: "rag_collection \<Rightarrow> string \<times> string" where
  "co_key c = (co_tenant c, co_id c)"

definition version_of :: "string \<Rightarrow> version_id \<Rightarrow> string \<times> object_version \<Rightarrow> bool" where
  "version_of t v = (\<lambda>(t', w). t' = t \<and> (ov_object w, ov_observed w) = v)"

definition has_version :: "rag_db \<Rightarrow> string \<Rightarrow> version_id \<Rightarrow> bool" where
  "has_version db t v = list_ex (version_of t v) (sd_versions (rd_source db))"

definition has_collection :: "rag_db \<Rightarrow> string \<Rightarrow> string \<Rightarrow> bool" where
  "has_collection db t i = list_ex (\<lambda>c. co_key c = (t, i)) (rd_collections db)"

definition has_profile :: "rag_db \<Rightarrow> string \<Rightarrow> string \<Rightarrow> bool" where
  "has_profile db t i = list_ex (\<lambda>r. pf_tenant r = t \<and> pf_id r = i) (rd_profiles db)"

section \<open>Chunk profiles\<close>

definition latest_profile :: "profile_row list \<Rightarrow> string \<Rightarrow> string \<Rightarrow> profile_row option" where
  "latest_profile t tenant family =
     (case filter (\<lambda>r. pf_tenant r = tenant \<and> pf_family r = family) t of
        [] \<Rightarrow> None
      | r # rs \<Rightarrow> Some (foldl (\<lambda>b c. if pf_version b < pf_version c then c else b) r rs))"

definition insert_profile ::
  "(string \<Rightarrow> bool) \<Rightarrow> rag_db \<Rightarrow> string \<Rightarrow> string \<Rightarrow> string \<Rightarrow> int \<Rightarrow> int \<Rightarrow> int \<Rightarrow> source_error + rag_db \<times> string" where
  "insert_profile tenant_ok db t newid family version sz overlap =
     (if \<not> tenant_ok t \<or> has_profile db t newid \<or> sz \<le> 0 \<or> overlap < 0 then constraint
      else Inr (db\<lparr> rd_profiles := rd_profiles db @
             [\<lparr> pf_tenant = t, pf_id = newid, pf_family = family, pf_version = version, pf_size = sz,
                pf_overlap = overlap \<rparr>] \<rparr>, newid))"

definition EnsureChunkProfile ::
  "(string \<Rightarrow> bool) \<Rightarrow> rag_db \<Rightarrow> string \<Rightarrow> string \<Rightarrow> int \<Rightarrow> int \<Rightarrow> string \<Rightarrow> source_error + rag_db \<times> string" where
  "EnsureChunkProfile tenant_ok db t family sz overlap newid =
     (case latest_profile (rd_profiles db) t family of
        None \<Rightarrow> insert_profile tenant_ok db t newid family 1 sz overlap
      | Some r \<Rightarrow>
          if pf_size r = sz \<and> pf_overlap r = overlap then Inr (db, pf_id r)
          else insert_profile tenant_ok db t newid family (pf_version r + 1) sz overlap)"

section \<open>Collections\<close>

text \<open>
  The access list and the chunk settings are kept in the metadata document under keys of their own, which the code
  takes out again when it reads the row.
\<close>

definition own_metadata :: "(string \<times> json) list \<Rightarrow> (string \<times> json) list" where
  "own_metadata m = obj_del (obj_del (obj_del m ''_acl'') ''_chunk_size'') ''_chunk_overlap''"

definition InsertCollection ::
  "(string \<Rightarrow> bool) \<Rightarrow> rag_db \<Rightarrow> rag_collection \<Rightarrow> string \<Rightarrow> source_error + rag_db" where
  "InsertCollection tenant_ok db c newid =
     bind_r (EnsureChunkProfile tenant_ok db (co_tenant c) (''rag-'' @ co_id c) (co_size c) (co_overlap c) newid)
       (\<lambda>(db', profile).
          if \<not> tenant_ok (co_tenant c) \<or>
             list_ex (\<lambda>d. co_key d = co_key c \<or> (co_tenant d, co_name d) = (co_tenant c, co_name c)) (rd_collections db')
          then constraint
          else Inr (db'\<lparr> rd_collections := rd_collections db' @
                 [c\<lparr> co_profile := profile, co_metadata := own_metadata (co_metadata c) \<rparr>] \<rparr>))"

definition GetCollectionRow :: "rag_db \<Rightarrow> string \<Rightarrow> string \<Rightarrow> source_error + rag_collection" where
  "GetCollectionRow db t i = row_or_denied (\<lambda>c. co_key c = (t, i)) (rd_collections db)"

definition ListCollectionRows :: "rag_db \<Rightarrow> string \<Rightarrow> rag_collection list" where
  "ListCollectionRows db t = sort_key co_id (filter (\<lambda>c. co_tenant c = t) (rd_collections db))"

definition UpdateCollectionRow :: "rag_db \<Rightarrow> rag_collection \<Rightarrow> source_error + rag_db" where
  "UpdateCollectionRow db c =
     (if \<not> has_collection db (co_tenant c) (co_id c) then Inl ErrDenied
      else if list_ex (\<lambda>d. co_key d \<noteq> co_key c \<and> (co_tenant d, co_name d) = (co_tenant c, co_name c)) (rd_collections db) \<or>
              (co_profile c \<noteq> [] \<and> \<not> has_profile db (co_tenant c) (co_profile c))
      then constraint
      else Inr (db\<lparr> rd_collections := upd_rows (\<lambda>d. co_key d = co_key c)
             (\<lambda>d. d\<lparr> co_name := co_name c, co_description := co_description c, co_model := co_model c,
                co_size := co_size c, co_overlap := co_overlap c, co_acl := co_acl c, co_audience := co_audience c,
                co_metadata := own_metadata (co_metadata c), co_active := co_active c, co_profile := co_profile c \<rparr>)
             (rd_collections db) \<rparr>))"

definition collection_in_use :: "rag_db \<Rightarrow> string \<Rightarrow> string \<Rightarrow> bool" where
  "collection_in_use db t i \<longleftrightarrow>
     list_ex (\<lambda>r. (it_tenant r, it_collection r) = (t, i)) (rd_items db) \<or>
     list_ex (\<lambda>g. (gn_tenant g, gn_collection g) = (t, i)) (rd_gens db)"

definition DeleteCollectionRow :: "rag_db \<Rightarrow> string \<Rightarrow> string \<Rightarrow> source_error + rag_db" where
  "DeleteCollectionRow db t i =
     (if \<not> has_collection db t i then Inl ErrDenied
      else if collection_in_use db t i then constraint
      else Inr (db\<lparr> rd_collections := filter (\<lambda>c. co_key c \<noteq> (t, i)) (rd_collections db) \<rparr>))"

section \<open>Items\<close>

definition is_item :: "string \<Rightarrow> string \<Rightarrow> string \<Rightarrow> item_row \<Rightarrow> bool" where
  "is_item t c i r \<longleftrightarrow> (it_tenant r, it_collection r, it_object r) = (t, c, i)"

definition AddCollectionItem ::
  "rag_db \<Rightarrow> string \<Rightarrow> string \<Rightarrow> string \<Rightarrow> string \<Rightarrow> source_error + rag_db" where
  "AddCollectionItem db t c i added_by =
     (if list_ex (is_item t c i) (rd_items db) then Inr db
      else if \<not> has_collection db t c \<or> \<not> list_ex (\<lambda>x. obj_key x = (t, i)) (sd_objects (rd_source db)) then constraint
      else Inr (db\<lparr> rd_items := rd_items db @
             [\<lparr> it_tenant = t, it_collection = c, it_object = i, it_added_by = added_by \<rparr>] \<rparr>))"

definition RemoveCollectionItem :: "rag_db \<Rightarrow> string \<Rightarrow> string \<Rightarrow> string \<Rightarrow> source_error + rag_db" where
  "RemoveCollectionItem db t c i =
     (if count_rows (is_item t c i) (rd_items db) = 0 then Inl ErrDenied
      else Inr (db\<lparr> rd_items := filter (\<lambda>r. \<not> is_item t c i r) (rd_items db) \<rparr>))"

definition ListCollectionItems :: "rag_db \<Rightarrow> string \<Rightarrow> string \<Rightarrow> string list" where
  "ListCollectionItems db t c = map it_object (filter (\<lambda>r. (it_tenant r, it_collection r) = (t, c)) (rd_items db))"

definition LiveCollectionSourceIDs :: "rag_db \<Rightarrow> string \<Rightarrow> string \<Rightarrow> string set" where
  "LiveCollectionSourceIDs db t c =
     set (map ob_native (filter (\<lambda>x. ob_tenant x = t \<and> list_ex (is_item t c (ob_id x)) (rd_items db) \<and>
        ob_deleted x = None \<and> ob_tombstoned x = None) (sd_objects (rd_source db))))"

section \<open>Documents\<close>

datatype doc_status = DocProcessing | DocReady | DocFailed

record document =
  dc_id :: string
  dc_collection :: string
  dc_kind :: string
  dc_source :: string
  dc_version :: "version_id option"
  dc_artifact :: string
  dc_mime :: string
  dc_file :: string
  dc_provenance :: string
  dc_status :: doc_status
  dc_points :: nat

text \<open>
  The generation that gives a version its status is the one with the highest number over all collections; where
  several share it, and where an object is in several collections, the database may return any row first: the argument
  \<open>k\<close> stands for its choice.
\<close>

definition pick_row :: "nat \<Rightarrow> 'a list \<Rightarrow> 'a option" where
  "pick_row k xs = (if xs = [] then None else Some (xs ! (k mod length xs)))"

definition latest_generations :: "rag_db \<Rightarrow> string \<Rightarrow> version_id \<Rightarrow> gen_row list" where
  "latest_generations db t v =
     (let gs = filter (\<lambda>g. gn_tenant g = t \<and> gn_version g = v) (rd_gens db) in
      filter (\<lambda>g. list_all (\<lambda>h. gn_number h \<le> gn_number g) gs) gs)"

definition version_status :: "rag_db \<Rightarrow> string \<Rightarrow> version_id \<Rightarrow> nat \<Rightarrow> doc_status" where
  "version_status db t v k =
     (case pick_row k (latest_generations db t v) of
        None \<Rightarrow> DocProcessing
      | Some g \<Rightarrow> (case gn_state g of Published \<Rightarrow> DocReady | GenFailed \<Rightarrow> DocFailed | _ \<Rightarrow> DocProcessing))"

definition ChunkCountForVersion :: "rag_db \<Rightarrow> string \<Rightarrow> version_id \<Rightarrow> nat" where
  "ChunkCountForVersion db t v = count_rows (\<lambda>r. kr_tenant r = t \<and> kr_version r = v) (rd_chunks db)"

definition scanDocument :: "rag_db \<Rightarrow> object \<Rightarrow> item_row \<Rightarrow> nat \<Rightarrow> source_error + document" where
  "scanDocument db x item k =
     (if ob_deleted x \<noteq> None \<or> ob_tombstoned x \<noteq> None then Inl ErrDenied
      else Inr (case sql_LatestObjectVersion (rd_source db) (ob_tenant x) (ob_id x) of
        Inl _ \<Rightarrow>
          \<lparr> dc_id = ob_id x, dc_collection = it_collection item, dc_kind = ob_kind x, dc_source = ob_native x,
            dc_version = None, dc_artifact = [], dc_mime = [], dc_file = [], dc_provenance = [],
            dc_status = DocProcessing, dc_points = 0 \<rparr>
      | Inr v \<Rightarrow>
          (let vid = (ob_id x, ov_observed v) in
           \<lparr> dc_id = ob_id x, dc_collection = it_collection item, dc_kind = ob_kind x, dc_source = ob_native x,
             dc_version = Some vid, dc_artifact = ov_artifact v, dc_mime = ov_mime v, dc_file = ov_filename v,
             dc_provenance = ov_provenance v, dc_status = version_status db (ob_tenant x) vid k,
             dc_points = ChunkCountForVersion db (ob_tenant x) vid \<rparr>)))"

definition GetDocument :: "rag_db \<Rightarrow> string \<Rightarrow> string \<Rightarrow> nat \<Rightarrow> source_error + document" where
  "GetDocument db t i k =
     bind_r (sql_GetObject (rd_source db) t i) (\<lambda>x.
       case pick_row k (filter (\<lambda>r. it_tenant r = t \<and> it_object r = i) (rd_items db)) of
         None \<Rightarrow> Inl ErrDenied
       | Some item \<Rightarrow> scanDocument db x item k)"

text \<open>The newest objects first; the row whose object is gone still counts for the page.\<close>

definition ListDocumentRows :: "rag_db \<Rightarrow> string \<Rightarrow> string \<Rightarrow> int \<Rightarrow> int \<Rightarrow> nat \<Rightarrow> source_error + document list" where
  "ListDocumentRows db t c lim' offset k =
     (if offset < 0 then Inl (SourceFailure ''offset'')
      else
        (let n = (if lim' \<le> 0 then 50 else lim');
             xs = rev (filter (\<lambda>x. ob_tenant x = t \<and> list_ex (is_item t c (ob_id x)) (rd_items db)) (sd_objects (rd_source db)));
             item = (\<lambda>x. \<lparr> it_tenant = t, it_collection = c, it_object = ob_id x, it_added_by = [] \<rparr>)
         in Inr (List.map_filter (\<lambda>x. case scanDocument db x (item x) k of Inl _ \<Rightarrow> None | Inr d \<Rightarrow> Some d)
              (take (nat n) (drop (nat offset) xs)))))"

section \<open>Generations and chunks\<close>

definition is_gen :: "string \<Rightarrow> string \<Rightarrow> version_id \<Rightarrow> gen_row \<Rightarrow> bool" where
  "is_gen t c v g \<longleftrightarrow> (gn_tenant g, gn_collection g, gn_version g) = (t, c, v)"

definition NextGeneration :: "rag_db \<Rightarrow> string \<Rightarrow> string \<Rightarrow> version_id \<Rightarrow> int" where
  "NextGeneration db t c v =
     (case map gn_number (filter (is_gen t c v) (rd_gens db)) of [] \<Rightarrow> 1 | g # gs \<Rightarrow> foldl max g gs + 1)"

definition SaveParsedDocument ::
  "rag_db \<Rightarrow> string \<Rightarrow> version_id \<Rightarrow> string \<Rightarrow> parsedBlock list \<Rightarrow> nat option list \<Rightarrow> source_error + rag_db" where
  "SaveParsedDocument db t v parser blocks parents =
     (if list_ex (\<lambda>r. (pd_tenant r, pd_version r, pd_parser r) = (t, v, parser)) (rd_parsed db) then Inr db
      else if \<not> has_version db t v then constraint
      else Inr (db\<lparr> rd_parsed := rd_parsed db @
             [\<lparr> pd_tenant = t, pd_version = v, pd_parser = parser, pd_blocks = blocks, pd_parents = parents \<rparr>] \<rparr>))"

fun insert_chunks :: "rag_db \<Rightarrow> chunk_row list \<Rightarrow> source_error + rag_db" where
  "insert_chunks db [] = Inr db"
| "insert_chunks db (r # rs) =
     (if list_ex (\<lambda>q. (kr_tenant q, kr_id q) = (kr_tenant r, kr_id r)) (rd_chunks db) \<or>
         \<not> has_version db (kr_tenant r) (kr_version r) \<or> \<not> has_profile db (kr_tenant r) (kr_profile r)
      then constraint
      else insert_chunks (db\<lparr> rd_chunks := rd_chunks db @ [r] \<rparr>) rs)"

definition stage_generation :: "rag_db \<Rightarrow> string \<Rightarrow> string \<Rightarrow> version_id \<Rightarrow> int \<Rightarrow> source_error + rag_db" where
  "stage_generation db t c v n =
     (if list_ex (\<lambda>g. is_gen t c v g \<and> gn_number g = n) (rd_gens db)
      then Inr (db\<lparr> rd_gens := upd_rows (\<lambda>g. is_gen t c v g \<and> gn_number g = n) (\<lambda>g. g\<lparr> gn_state := Staging \<rparr>) (rd_gens db) \<rparr>)
      else if \<not> has_collection db t c \<or> \<not> has_version db t v then constraint
      else Inr (db\<lparr> rd_gens := rd_gens db @
             [\<lparr> gn_tenant = t, gn_collection = c, gn_version = v, gn_number = n, gn_state = Staging \<rparr>] \<rparr>))"

definition ReplaceVersionChunksAndStage ::
  "rag_db \<Rightarrow> string \<Rightarrow> string \<Rightarrow> version_id \<Rightarrow> int \<Rightarrow> string \<Rightarrow> chunk_row list \<Rightarrow> source_error + rag_db" where
  "ReplaceVersionChunksAndStage db t c v n profile chunks =
     bind_r
       (if profile \<noteq> [] \<or> chunks \<noteq> []
        then insert_chunks (db\<lparr> rd_chunks := filter (\<lambda>r. \<not> (kr_tenant r = t \<and> kr_version r = v)) (rd_chunks db) \<rparr>) chunks
        else Inr db)
       (\<lambda>db'. stage_generation db' t c v n)"

definition MarkGenerationState ::
  "rag_db \<Rightarrow> string \<Rightarrow> string \<Rightarrow> version_id \<Rightarrow> int \<Rightarrow> gen_state \<Rightarrow> source_error + rag_db" where
  "MarkGenerationState db t c v n st =
     (if count_rows (\<lambda>g. is_gen t c v g \<and> gn_number g = n) (rd_gens db) = 0 then Inl (SourceFailure ''generation not found'')
      else Inr (db\<lparr> rd_gens := upd_rows (\<lambda>g. is_gen t c v g \<and> gn_number g = n) (\<lambda>g. g\<lparr> gn_state := st \<rparr>) (rd_gens db) \<rparr>))"

text \<open>
  The transaction of \<open>DeleteObjectRows\<close>. It deletes no parsed documents, whose rows refer to the versions, and no
  grants or children, whose rows refer to the object.
\<close>

definition DeleteObjectRows :: "rag_db \<Rightarrow> string \<Rightarrow> string \<Rightarrow> source_error + rag_db" where
  "DeleteObjectRows db t i =
     (let versions = filter (is_version t i) (sd_versions (rd_source db));
          ours = (\<lambda>t' v. t' = t \<and> list_ex (version_of t v) versions) in
      if list_ex (\<lambda>r. ours (pd_tenant r) (pd_version r)) (rd_parsed db) then constraint
      else if list_ex (\<lambda>x. obj_key x = (t, i)) (sd_objects (rd_source db)) \<and>
              (list_ex (\<lambda>g. g_tenant g = t \<and> g_object g = i) (sd_grants (rd_source db)) \<or>
               list_ex (\<lambda>x. (ob_tenant x, ob_parent x) = (t, i) \<and> obj_key x \<noteq> (t, i)) (sd_objects (rd_source db)))
      then constraint
      else Inr (db\<lparr>
        rd_items := filter (\<lambda>r. \<not> (it_tenant r = t \<and> it_object r = i)) (rd_items db),
        rd_gens := filter (\<lambda>g. \<not> ours (gn_tenant g) (gn_version g)) (rd_gens db),
        rd_chunks := filter (\<lambda>r. \<not> ours (kr_tenant r) (kr_version r)) (rd_chunks db),
        rd_source := (rd_source db)\<lparr>
          sd_versions := filter (\<lambda>v. \<not> is_version t i v) (sd_versions (rd_source db)),
          sd_objects := filter (\<lambda>x. obj_key x \<noteq> (t, i)) (sd_objects (rd_source db)) \<rparr> \<rparr>))"

end
