(* ===== verification/RagEmbed.thy ===== *)
theory RagEmbed
  imports RagText "HOL-Library.Multiset" "HOL-Library.Sublist"
begin

text \<open>
  Batched embeddings, internal/rag/embedding.go. The inputs of one attempt are sent in batches through the
  inference executor (theory Executor models one such call), and the vectors of each answer are put back in
  the order of the inputs. What the executor answers is a parameter: an error of the call, of its settlement, of reading
  or decoding the body, or the decoded items, each an index and a vector of any element type. A text is its list of code
  points, as in RagText. Every request that is sent is logged with its estimate.
\<close>

definition maxEmbeddingInputs :: nat where
  "maxEmbeddingInputs = 2048"

definition maxEmbeddingBatchUnits :: nat where
  "maxEmbeddingBatchUnits = 1048576"

record 'v embedding_item =
  ei_index :: int
  ei_embedding :: "'v list"

datatype 'v exec_answer =
    ExecuteFailed
  | SettlementFailed
  | BodyUnreadable
  | BodyUndecodable
  | Answer "'v embedding_item list"

datatype embed_error =
    ProviderEmbeddings
  | SettleReservation
  | ReadResponse
  | DecodeResponse
  | CountMismatch nat nat
  | InvalidIndex int
  | DuplicateIndex int
  | EmptyVector int
  | MissingIndex nat
  | DimensionMismatch nat nat

text \<open>The request of one batch: its inputs and the estimated input units.\<close>

type_synonym embed_request = "rune list list \<times> nat"

section \<open>createEmbeddingBatch\<close>

text \<open>
  The loop over the answer's items with the arrays \<open>vectors\<close> and \<open>seen\<close>; a slot of \<open>vectors\<close> that was not
  written holds the nil slice.
\<close>

fun place_items ::
  "'v list list \<Rightarrow> bool list \<Rightarrow> 'v embedding_item list \<Rightarrow> embed_error + ('v list list \<times> bool list)" where
  "place_items vs seen [] = Inr (vs, seen)"
| "place_items vs seen (d # ds) =
     (if ei_index d < 0 \<or> int (length vs) \<le> ei_index d then Inl (InvalidIndex (ei_index d))
      else if seen ! nat (ei_index d) then Inl (DuplicateIndex (ei_index d))
      else if ei_embedding d = [] then Inl (EmptyVector (ei_index d))
      else place_items (vs[nat (ei_index d) := ei_embedding d]) (seen[nat (ei_index d) := True]) ds)"

fun first_unseen :: "nat \<Rightarrow> bool list \<Rightarrow> nat option" where
  "first_unseen i [] = None"
| "first_unseen i (s # ss) = (if s then first_unseen (Suc i) ss else Some i)"

definition createEmbeddingBatch :: "'v exec_answer \<Rightarrow> nat \<Rightarrow> embed_error + 'v list list" where
  "createEmbeddingBatch a n =
     (case a of
        ExecuteFailed \<Rightarrow> Inl ProviderEmbeddings
      | SettlementFailed \<Rightarrow> Inl SettleReservation
      | BodyUnreadable \<Rightarrow> Inl ReadResponse
      | BodyUndecodable \<Rightarrow> Inl DecodeResponse
      | Answer ds \<Rightarrow>
          if length ds \<noteq> n then Inl (CountMismatch (length ds) n)
          else (case place_items (replicate n []) (replicate n False) ds of
                  Inl e \<Rightarrow> Inl e
                | Inr (vs, seen) \<Rightarrow>
                    (case first_unseen 0 seen of Some i \<Rightarrow> Inl (MissingIndex i) | None \<Rightarrow> Inr vs)))"

section \<open>createEmbeddings\<close>

text \<open>The inner loop: how many of the inputs from \<open>offset\<close> on go into the batch, and their units.\<close>

fun batch_scan :: "nat \<Rightarrow> nat \<Rightarrow> nat \<Rightarrow> rune list list \<Rightarrow> nat \<times> nat" where
  "batch_scan offset end' units [] = (end', units)"
| "batch_scan offset end' units (x # xs) =
     (if end' - offset < maxEmbeddingInputs
      then (let u = tokenEstimate x in
            if maxEmbeddingBatchUnits < units + u \<and> offset < end' then (end', units)
            else batch_scan offset (Suc end') (units + u) xs)
      else (end', units))"

text \<open>The same loop with the comparisons on integers, for evaluation.\<close>

lemma batch_scan_code [code]:
  "batch_scan offset end' units [] = (end', units)"
  "batch_scan offset end' units (x # xs) =
     (if int (end' - offset) < 2048
      then (let u = tokenEstimate x in
            if 1048576 < int (units + u) \<and> offset < end' then (end', units)
            else batch_scan offset (Suc end') (units + u) xs)
      else (end', units))"
  by (simp_all add: maxEmbeddingInputs_def maxEmbeddingBatchUnits_def Let_def)

definition next_batch :: "rune list list \<Rightarrow> nat \<Rightarrow> nat \<times> nat" where
  "next_batch inputs offset = batch_scan offset offset 0 (drop offset inputs)"

text \<open>The loop over the vectors of one batch that fixes the dimension and stores them.\<close>

fun store_vectors :: "nat \<Rightarrow> nat \<Rightarrow> 'v list list \<Rightarrow> 'v list list \<Rightarrow> embed_error + ('v list list \<times> nat)" where
  "store_vectors i dim vectors [] = Inr (vectors, dim)"
| "store_vectors i dim vectors (v # vs) =
     (if dim = 0 then store_vectors (Suc i) (length v) (vectors[i := v]) vs
      else if length v \<noteq> dim then Inl (DimensionMismatch (length v) dim)
      else store_vectors (Suc i) dim (vectors[i := v]) vs)"

lemma batch_scan_bounds:
  "fst (batch_scan offset e u xs) \<le> e + length xs \<and> e \<le> fst (batch_scan offset e u xs)"
  by (induction offset e u xs rule: batch_scan.induct) (auto simp: Let_def)

lemma next_batch_bounds:
  assumes "offset < length inputs"
  shows "offset < fst (next_batch inputs offset) \<and> fst (next_batch inputs offset) \<le> length inputs"
proof -
  obtain x xs where d: "drop offset inputs = x # xs" using assms by (metis Cons_nth_drop_Suc)
  then have "Suc (length xs) = length inputs - offset" by (metis length_Cons length_drop)
  then show ?thesis using batch_scan_bounds[of offset "Suc offset" "tokenEstimate x" xs] assms
    by (auto simp: next_batch_def d Let_def maxEmbeddingInputs_def)
qed

text \<open>
  The outer loop at \<open>offset\<close>. The executor's answer may depend on the call, given by its offset, and on the request.
\<close>

function embed_from ::
  "(nat \<Rightarrow> embed_request \<Rightarrow> 'v exec_answer) \<Rightarrow> rune list list \<Rightarrow> nat \<Rightarrow> nat \<Rightarrow> 'v list list \<Rightarrow>
   embed_request list \<times> (embed_error + 'v list list)" where
  "embed_from exec inputs offset dim vectors =
     (if length inputs \<le> offset then ([], Inr vectors)
      else let (end', units) = next_batch inputs offset;
               req = (slice inputs offset end', units) in
      (case createEmbeddingBatch (exec offset req) (end' - offset) of
         Inl e \<Rightarrow> ([req], Inl e)
       | Inr batchVectors \<Rightarrow>
           (case store_vectors offset dim vectors batchVectors of
              Inl e \<Rightarrow> ([req], Inl e)
            | Inr (vectors', dim') \<Rightarrow>
                (let (log, r) = embed_from exec inputs end' dim' vectors' in (req # log, r)))))"
  by pat_completeness auto

termination
proof (relation "measure (\<lambda>(exec, inputs, offset, dim, vectors). length inputs - offset)", goal_cases)
  case (2 exec inputs offset dim vectors p e u req bv q vs d)
  have "e = fst (next_batch inputs offset)" using 2(2,3) by (metis fst_conv)
  moreover have "offset < length inputs" using 2(1) by simp
  ultimately show ?case using next_batch_bounds[of offset inputs] by auto
qed simp

declare embed_from.simps [simp del]

definition createEmbeddings ::
  "(nat \<Rightarrow> embed_request \<Rightarrow> 'v exec_answer) \<Rightarrow> rune list list \<Rightarrow> embed_request list \<times> (embed_error + 'v list list)" where
  "createEmbeddings exec inputs = embed_from exec inputs 0 0 (replicate (length inputs) [])"

section \<open>One batch\<close>

definition item_pair :: "'v embedding_item \<Rightarrow> int \<times> 'v list" where
  "item_pair d = (ei_index d, ei_embedding d)"

text \<open>The slots that are filled, with what they hold.\<close>

definition filled :: "'v list list \<Rightarrow> bool list \<Rightarrow> (int \<times> 'v list) multiset" where
  "filled vs seen = mset (map (\<lambda>i. (int i, vs ! i)) (filter (\<lambda>i. seen ! i) [0..<length vs]))"

lemma filled_image:
  "filled vs seen = image_mset (\<lambda>i. (int i, vs ! i)) (mset_set {i. i < length vs \<and> seen ! i})"
proof -
  have "mset (filter (\<lambda>i. seen ! i) [0..<length vs]) = mset_set {i. i < length vs \<and> seen ! i}"
    by (subst mset_set_set[symmetric]) (auto intro!: arg_cong[where f = mset_set])
  then show ?thesis by (simp add: filled_def)
qed

lemma filled_update:
  assumes "i < length vs" and "length seen = length vs" and "\<not> seen ! i"
  shows "filled (vs[i := v]) (seen[i := True]) = add_mset (int i, v) (filled vs seen)"
proof -
  let ?S = "{j. j < length vs \<and> seen ! j}"
  have s: "{j. j < length (vs[i := v]) \<and> seen[i := True] ! j} = insert i ?S"
    using assms by (auto simp: nth_list_update)
  have n: "i \<notin> ?S" and f: "finite ?S" using assms by auto
  have "image_mset (\<lambda>j. (int j, vs[i := v] ! j)) (mset_set ?S) = image_mset (\<lambda>j. (int j, vs ! j)) (mset_set ?S)"
    using n by (intro image_mset_cong) (metis finite_set_mset_mset_set f nth_list_update_neq)
  then show ?thesis using assms n f unfolding filled_image s by simp
qed

lemma place_items_filled:
  "place_items vs seen ds = Inr (vs', seen') \<Longrightarrow> length seen = length vs \<Longrightarrow>
   length vs' = length vs \<and> length seen' = length vs \<and>
   filled vs' seen' = filled vs seen + mset (map item_pair ds) \<and>
   (\<forall>d \<in> set ds. ei_embedding d \<noteq> [])"
proof (induction vs seen ds rule: place_items.induct)
  case (2 vs seen d ds)
  have i: "0 \<le> ei_index d" "nat (ei_index d) < length vs" "\<not> seen ! nat (ei_index d)" "ei_embedding d \<noteq> []"
    and r: "place_items (vs[nat (ei_index d) := ei_embedding d]) (seen[nat (ei_index d) := True]) ds = Inr (vs', seen')"
    using 2(2) by (auto split: if_splits)
  have c: "\<not> (ei_index d < 0 \<or> int (length vs) \<le> ei_index d)" using i by auto
  note IH = 2(1)[OF c i(3,4) r]
  show ?case using IH 2(3) i filled_update[OF i(2) 2(3) i(3), of "ei_embedding d"] by (auto simp: item_pair_def)
qed simp

lemma place_items_accepts:
  "length seen = length vs \<Longrightarrow> distinct (map ei_index ds) \<Longrightarrow>
   (\<forall>d \<in> set ds. 0 \<le> ei_index d \<and> ei_index d < int (length vs) \<and> \<not> seen ! nat (ei_index d) \<and> ei_embedding d \<noteq> []) \<Longrightarrow>
   \<exists>vs' seen'. place_items vs seen ds = Inr (vs', seen')"
proof (induction vs seen ds rule: place_items.induct)
  case (2 vs seen d ds)
  have c: "\<not> (ei_index d < 0 \<or> int (length vs) \<le> ei_index d)" "\<not> seen ! nat (ei_index d)" "ei_embedding d \<noteq> []"
    using 2(4) by auto
  have "\<forall>x \<in> set ds. 0 \<le> ei_index x \<and> ei_index x < int (length (vs[nat (ei_index d) := ei_embedding d])) \<and>
      \<not> seen[nat (ei_index d) := True] ! nat (ei_index x) \<and> ei_embedding x \<noteq> []"
  proof
    fix x assume x: "x \<in> set ds"
    then have "ei_index x \<in> ei_index ` set ds" by (rule imageI)
    then have "ei_index x \<noteq> ei_index d" using 2(3) by auto
    then have "nat (ei_index x) \<noteq> nat (ei_index d)" using 2(4) x by auto
    then show "0 \<le> ei_index x \<and> ei_index x < int (length (vs[nat (ei_index d) := ei_embedding d])) \<and>
      \<not> seen[nat (ei_index d) := True] ! nat (ei_index x) \<and> ei_embedding x \<noteq> []" using 2(4) x by auto
  qed
  then have "\<exists>vs' seen'. place_items (vs[nat (ei_index d) := ei_embedding d]) (seen[nat (ei_index d) := True]) ds =
      Inr (vs', seen')" using 2(1)[OF c] 2(2,3) by simp
  then show ?case using c by simp
qed simp

lemma first_unseen_None: "first_unseen i ss = None \<longleftrightarrow> list_all id ss"
  by (induction i ss rule: first_unseen.induct) auto

definition numbered :: "'v list list \<Rightarrow> (int \<times> 'v list) list" where
  "numbered vs = zip (map int [0..<length vs]) vs"

lemma filled_all: "length seen = length vs \<Longrightarrow> list_all id seen \<Longrightarrow> filled vs seen = mset (numbered vs)"
proof -
  assume "length seen = length vs" "list_all id seen"
  then have "filter (\<lambda>i. seen ! i) [0..<length vs] = [0..<length vs]" by (auto simp: list_all_length)
  moreover have "map (\<lambda>i. (int i, vs ! i)) [0..<length vs] = numbered vs"
    unfolding numbered_def by (rule nth_equalityI) auto
  ultimately show ?thesis by (simp add: filled_def)
qed

lemma filled_none [simp]: "filled (replicate n v) (replicate n False) = {#}"
  by (simp add: filled_def)

lemma numbered_eq:
  assumes "mset (numbered vs) = mset (numbered ws)"
  shows "vs = ws"
proof -
  have "length vs = length ws" using arg_cong[OF assms, of size] by (simp add: numbered_def)
  moreover have "vs ! i = ws ! i" if "i < length vs" for i
  proof -
    have "(int i, vs ! i) \<in> set (numbered vs)" using that by (auto simp: numbered_def set_zip intro!: exI[of _ i])
    then have "(int i, vs ! i) \<in> set (numbered ws)" using mset_eq_setD[OF assms] by simp
    then show ?thesis by (auto simp: numbered_def set_zip)
  qed
  ultimately show ?thesis by (rule nth_equalityI)
qed

text \<open>
  An answer is accepted exactly when it is a faithful batch: it was decoded, and its items, in whatever order they
  come, are the numbered list of one non-empty vector per input; the result is this list. A missing,
  duplicate, negative or too large index, an empty vector, a wrong count, and every failure of the call, its
  settlement or its body is refused.
\<close>

theorem batch_accepted_iff:
  "createEmbeddingBatch a n = Inr vs \<longleftrightarrow>
   (case a of
      Answer ds \<Rightarrow> mset (map item_pair ds) = mset (numbered vs) \<and> length vs = n \<and> [] \<notin> set vs
    | _ \<Rightarrow> False)"
proof (cases a)
  case (Answer ds)
  let ?place = "place_items (replicate n []) (replicate n False) ds"
  have out: "mset (map item_pair ds) = mset (numbered vs') \<and> length vs' = n \<and> (\<forall>d \<in> set ds. ei_embedding d \<noteq> [])"
    if "?place = Inr (vs', seen)" "list_all id seen" for vs' seen
    using place_items_filled[OF that(1)] that(2) filled_all[of seen vs'] by simp
  have snd_eq: "map snd (map item_pair ds) = map ei_embedding ds" "map fst (map item_pair ds) = map ei_index ds"
    by (simp_all add: item_pair_def)
  have vecs: "set vs' = ei_embedding ` set ds" "mset (map ei_index ds) = mset (map int [0..<length vs'])"
    if m: "mset (map item_pair ds) = mset (numbered vs')" for vs'
  proof -
    have "mset (map snd (map item_pair ds)) = mset (map snd (numbered vs'))"
      "mset (map fst (map item_pair ds)) = mset (map fst (numbered vs'))" using m by (metis mset_map)+
    then have a: "mset (map ei_embedding ds) = mset vs'" "mset (map ei_index ds) = mset (map int [0..<length vs'])"
      unfolding snd_eq by (simp_all add: numbered_def)
    then show "mset (map ei_index ds) = mset (map int [0..<length vs'])" by simp
    show "set vs' = ei_embedding ` set ds" using mset_eq_setD[OF a(1)] by simp
  qed
  show ?thesis
  proof
    assume "createEmbeddingBatch a n = Inr vs"
    then obtain seen where "?place = Inr (vs, seen)" "list_all id seen"
      by (auto simp: createEmbeddingBatch_def Answer first_unseen_None split: if_splits sum.splits option.splits)
    then show "case a of Answer ds \<Rightarrow> mset (map item_pair ds) = mset (numbered vs) \<and> length vs = n \<and> [] \<notin> set vs | _ \<Rightarrow> False"
      using out[of vs seen] vecs(1)[of vs] by (auto simp: Answer)
  next
    assume "case a of Answer ds \<Rightarrow> mset (map item_pair ds) = mset (numbered vs) \<and> length vs = n \<and> [] \<notin> set vs | _ \<Rightarrow> False"
    then have m: "mset (map item_pair ds) = mset (numbered vs)" and n: "length vs = n" and e: "[] \<notin> set vs"
      by (simp_all add: Answer)
    have len: "length ds = n" using arg_cong[OF m, of size] n by (simp add: numbered_def)
    note ix = vecs(2)[OF m, unfolded n]
    have d: "distinct (map ei_index ds)" by (subst mset_eq_imp_distinct_iff[OF ix]) (simp add: distinct_map)
    have r: "set (map ei_index ds) = int ` {0..<n}" using mset_eq_setD[OF ix] by simp
    have x: "\<forall>x \<in> set ds. 0 \<le> ei_index x \<and> ei_index x < int n \<and> \<not> replicate n False ! nat (ei_index x) \<and> ei_embedding x \<noteq> []"
    proof
      fix x assume x: "x \<in> set ds"
      then have "ei_index x \<in> int ` {0..<n}" "ei_embedding x \<in> set vs" using r vecs(1)[OF m] by auto
      then show "0 \<le> ei_index x \<and> ei_index x < int n \<and> \<not> replicate n False ! nat (ei_index x) \<and> ei_embedding x \<noteq> []"
        using e by auto
    qed
    have "length (replicate n False) = length (replicate n [])" by simp
    then obtain vs' seen where p: "?place = Inr (vs', seen)"
      using place_items_accepts[OF _ d, of "replicate n False" "replicate n []"] x by (metis length_replicate)
    note f = place_items_filled[OF p]
    have "i < n \<Longrightarrow> seen ! i" for i
    proof -
      assume "i < n"
      then have "int i \<in> ei_index ` set ds" using r by auto
      then have "int i \<in># image_mset fst (filled vs' seen)"
        using f by (auto simp: item_pair_def image_image)
      then show "seen ! i" by (auto simp: filled_image)
    qed
    then have s: "list_all id seen" using f by (simp add: list_all_length)
    then have "vs' = vs" using out[OF p s] m numbered_eq by metis
    then show "createEmbeddingBatch a n = Inr vs"
      using p s len by (simp add: createEmbeddingBatch_def Answer first_unseen_None[THEN iffD2])
  qed
qed (simp_all add: createEmbeddingBatch_def)

section \<open>All batches\<close>

definition batch_fits :: "embed_request \<Rightarrow> bool" where
  "batch_fits q \<longleftrightarrow>
     fst q \<noteq> [] \<and> length (fst q) \<le> maxEmbeddingInputs \<and> snd q = sum_list (map tokenEstimate (fst q)) \<and>
     (snd q \<le> maxEmbeddingBatchUnits \<or> length (fst q) = 1)"

text \<open>The vectors are, batch after batch, what the accepted answers to these requests hold.\<close>

fun answered ::
  "(nat \<Rightarrow> embed_request \<Rightarrow> 'v exec_answer) \<Rightarrow> nat \<Rightarrow> embed_request list \<Rightarrow> 'v list list \<Rightarrow> bool" where
  "answered exec offset [] vectors \<longleftrightarrow> vectors = []"
| "answered exec offset (q # qs) vectors \<longleftrightarrow>
     createEmbeddingBatch (exec offset q) (length (fst q)) = Inr (take (length (fst q)) vectors) \<and>
     answered exec (offset + length (fst q)) qs (drop (length (fst q)) vectors)"

lemma batch_scan_spec:
  assumes "batch_scan offset e u xs = (e', u')" and "offset \<le> e" and "e - offset \<le> maxEmbeddingInputs"
    and "u \<le> maxEmbeddingBatchUnits \<or> e - offset = 1" and "offset = e \<Longrightarrow> u = 0"
  shows "e \<le> e' \<and> e' \<le> e + length xs \<and> e' - offset \<le> maxEmbeddingInputs \<and>
    u' = u + sum_list (map tokenEstimate (take (e' - e) xs)) \<and> (u' \<le> maxEmbeddingBatchUnits \<or> e' - offset = 1)"
  using assms
proof (induction offset e u xs arbitrary: e' u' rule: batch_scan.induct)
  case (2 offset e u x xs)
  show ?case
  proof (cases "e - offset < maxEmbeddingInputs \<and> \<not> (maxEmbeddingBatchUnits < u + tokenEstimate x \<and> offset < e)")
    case True
    then have r: "batch_scan offset (Suc e) (u + tokenEstimate x) xs = (e', u')" using 2(2) by (auto simp: Let_def)
    have "Suc e \<le> e' \<and> e' \<le> Suc e + length xs \<and> e' - offset \<le> maxEmbeddingInputs \<and>
      u' = u + tokenEstimate x + sum_list (map tokenEstimate (take (e' - Suc e) xs)) \<and>
      (u' \<le> maxEmbeddingBatchUnits \<or> e' - offset = 1)"
    proof (rule 2(1)[OF _ refl _ r])
      show "Suc e - offset \<le> maxEmbeddingInputs" using True 2(3) by linarith
      show "u + tokenEstimate x \<le> maxEmbeddingBatchUnits \<or> Suc e - offset = 1" using True 2(3) by auto
    qed (use True 2(3) in auto)
    moreover then have "take (e' - e) (x # xs) = x # take (e' - Suc e) xs" by (simp add: Suc_diff_Suc take_Cons')
    ultimately show ?thesis by auto
  next
    case False
    then have "e' = e" "u' = u" using 2(2) by (auto simp: Let_def split: if_splits)
    then show ?thesis using 2(3-) by simp
  qed
qed auto

lemma next_batch_fits:
  assumes "next_batch inputs offset = (e, u)" and "offset < length inputs"
  shows "batch_fits (slice inputs offset e, u) \<and> offset < e \<and> e \<le> length inputs \<and>
    length (slice inputs offset e) = e - offset"
proof -
  have b: "offset < e" "e \<le> length inputs" using next_batch_bounds[OF assms(2)] assms(1) by simp_all
  have "batch_scan offset offset 0 (drop offset inputs) = (e, u)" using assms(1) by (simp add: next_batch_def)
  from batch_scan_spec[OF this] b show ?thesis
    by (auto simp: batch_fits_def slice_def maxEmbeddingInputs_def)
qed

lemma store_vectors_spec:
  assumes "store_vectors i dim vectors bs = Inr (vectors', dim')" and "i + length bs \<le> length vectors" and "[] \<notin> set bs"
  shows "vectors' = take i vectors @ bs @ drop (i + length bs) vectors \<and> (dim \<noteq> 0 \<longrightarrow> dim' = dim) \<and>
    (\<forall>v \<in> set bs. length v = dim')"
  using assms
proof (induction i dim vectors bs rule: store_vectors.induct)
  case (2 i dim vectors v vs)
  have n: "0 < length v" using 2(5) by auto
  have s: "take (Suc i) (vectors[i := v]) = take i vectors @ [v]" "drop (Suc (i + length vs)) (vectors[i := v]) = drop (Suc (i + length vs)) vectors"
    using 2(4) by (simp_all add: take_Suc_conv_app_nth)
  show ?case
  proof (cases "dim = 0")
    case True
    then show ?thesis using 2(1)[OF True] 2(3-5) s n by auto
  next
    case False
    then have "length v = dim" using 2(3) by (auto split: if_splits)
    then show ?thesis using 2(2)[OF False] 2(3-5) s False by auto
  qed
qed auto

lemma embed_from_spec:
  assumes "embed_from exec inputs offset dim vectors = (log, r)" and "length vectors = length inputs" and "offset \<le> length inputs"
    and "\<forall>v \<in> set (take offset vectors). length v = dim \<and> v \<noteq> []"
  shows "list_all batch_fits log \<and> prefix (concat (map fst log)) (drop offset inputs) \<and>
    (case r of Inl e \<Rightarrow> log \<noteq> []
     | Inr vs \<Rightarrow> concat (map fst log) = drop offset inputs \<and> length vs = length inputs \<and>
         take offset vs = take offset vectors \<and> answered exec offset log (drop offset vs) \<and>
         (\<exists>d. \<forall>v \<in> set vs. length v = d \<and> v \<noteq> []))"
  using assms
proof (induction exec inputs offset dim vectors arbitrary: log r rule: embed_from.induct)
  case (1 exec inputs offset dim vectors)
  show ?case
  proof (cases "length inputs \<le> offset")
    case True
    then have "log = []" "r = Inr vectors" using 1(2) by (simp_all add: embed_from.simps)
    then show ?thesis using 1(3-5) True by auto
  next
    case False
    obtain e u where eu: "next_batch inputs offset = (e, u)" by fastforce
    define q where "q = (slice inputs offset e, u)"
    have lt: "offset < length inputs" using False by simp
    note fits = next_batch_fits[OF eu lt]
    have split: "slice inputs offset e @ drop e inputs = drop offset inputs" using fits by (simp add: slice_drop)
    have p: "prefix (slice inputs offset e) (drop offset inputs)" by (simp add: slice_def take_is_prefix)
    note x = embed_from.simps[of exec inputs offset dim vectors]
    show ?thesis
    proof (cases "createEmbeddingBatch (exec offset q) (e - offset)")
      case (Inl er)
      then have "log = [q]" "r = Inl er" using 1(2) False by (simp_all add: x eu q_def)
      then show ?thesis using fits p by (simp add: q_def)
    next
      case (Inr bv)
      note accepted = Inr
      have bv: "length bv = e - offset" "[] \<notin> set bv"
        using batch_accepted_iff[of "exec offset q" "e - offset" bv] Inr by (auto split: exec_answer.splits)
      show ?thesis
      proof (cases "store_vectors offset dim vectors bv")
        case (Inl er)
        then have "log = [q]" "r = Inl er" using 1(2) False Inr by (simp_all add: x eu q_def)
        then show ?thesis using fits p by (simp add: q_def)
      next
        case (Inr vd)
        then obtain vs' d' where vd: "vd = (vs', d')" by fastforce
        obtain log' r' where rec: "embed_from exec inputs e d' vs' = (log', r')" by fastforce
        have lr: "log = q # log'" "r = r'"
          using 1(2) False accepted Inr rec by (simp_all add: x eu q_def vd)
        have st: "vs' = take offset vectors @ bv @ drop (offset + length bv) vectors \<and> (dim \<noteq> 0 \<longrightarrow> d' = dim) \<and>
          (\<forall>v \<in> set bv. length v = d')"
          using store_vectors_spec[of offset dim vectors bv vs' d'] Inr bv fits 1(3) by (simp add: vd)
        have len: "length vs' = length inputs" using st bv fits 1(3) by auto
        have tk: "take e vs' = take offset vectors @ bv" using st bv fits 1(3) lt by auto
        have all: "\<forall>v \<in> set (take e vs'). length v = d' \<and> v \<noteq> []"
        proof (cases "dim = 0")
          case True
          then have "take offset vectors = []" using 1(5) by (cases "take offset vectors") auto
          then show ?thesis using tk st bv by auto
        next
          case False
          then show ?thesis using tk st bv 1(5) by auto
        qed
        have el: "e \<le> length inputs" using fits by simp
        note IH = 1(1)[OF False refl eu[symmetric] q_def accepted Inr vd[symmetric] rec len el all]
        have batch: "list_all batch_fits log" using IH fits lr by (simp add: q_def)
        have "prefix (concat (map fst log)) (drop offset inputs)"
          using IH lr(1) by (simp add: q_def flip: split)
        moreover have "r' = Inl er \<Longrightarrow> log \<noteq> []" for er using lr by simp
        moreover have "concat (map fst log) = drop offset inputs \<and> take offset vs = take offset vectors \<and>
            answered exec offset log (drop offset vs)" if "r' = Inr vs" for vs
        proof -
          have i: "concat (map fst log') = drop e inputs" "length vs = length inputs" "take e vs = take e vs'"
            "answered exec e log' (drop e vs)" using IH that by simp_all
          have "take offset (take e vs) = take offset vectors" using i(3) tk 1(3) lt by simp
          then have a: "take offset vs = take offset vectors" using fits by (simp add: min_def)
          have "drop offset (take e vs) = bv" using i(3) tk 1(3) lt by simp
          then have b: "take (e - offset) (drop offset vs) = bv" by (simp add: drop_take)
          have "answered exec offset log (drop offset vs)"
            using i(4) b accepted fits lr(1) by (simp add: q_def)
          then show ?thesis using a i(1) lr(1) split by (simp add: q_def)
        qed
        ultimately show ?thesis using batch IH lr(2) by (cases r') auto
      qed
    qed
  qed
qed

text \<open>
  Whatever the executor answers, a text is embedded at most once and in order: the batches that are sent are never
  empty, hold at most 2048 inputs, are estimated at the sum of their inputs' units, and stay within the unit
  bound unless a single input exceeds it; together they are the inputs from the first on, all of them when the
  attempt succeeds. It then returns one vector for every input, all non-empty and of one dimension, batch after
  batch as the accepted answers give them.
\<close>

theorem embeddings_in_order:
  "case createEmbeddings exec inputs of (log, r) \<Rightarrow>
     list_all batch_fits log \<and> prefix (concat (map fst log)) inputs \<and>
     (case r of
        Inl e \<Rightarrow> log \<noteq> []
      | Inr vectors \<Rightarrow>
          concat (map fst log) = inputs \<and> length vectors = length inputs \<and> answered exec 0 log vectors \<and>
          (\<exists>d. list_all (\<lambda>v. v \<noteq> [] \<and> length v = d) vectors))"
proof -
  obtain log r where x: "createEmbeddings exec inputs = (log, r)" by fastforce
  have "length (replicate (length inputs) []) = length inputs" by simp
  from embed_from_spec[OF x[unfolded createEmbeddings_def] this] show ?thesis
    unfolding x by (auto simp: list_all_iff split: sum.splits)
qed

end
