(* ===== verification/Outcome.thy ===== *)
theory Outcome
  imports Prelude
begin

text \<open>
  The results of operations that change a state: an operation gives back the state it leaves behind together with
  its value or its error, because what it has done before an error stays done.
\<close>

definition and_then :: "'s \<times> ('e + 'a) \<Rightarrow> ('s \<Rightarrow> 'a \<Rightarrow> 's \<times> ('e + 'b)) \<Rightarrow> 's \<times> ('e + 'b)" where
  "and_then r f = (case r of (w, Inl e) \<Rightarrow> (w, Inl e) | (w, Inr x) \<Rightarrow> f w x)"

text \<open>A check that must hold to go on.\<close>

definition demand :: "'s \<Rightarrow> bool \<Rightarrow> 'e \<Rightarrow> 's \<times> ('e + unit)" where
  "demand w ok e = (w, if ok then Inr () else Inl e)"

lemma and_then_Inr: "and_then r f = (w', Inr y) \<longleftrightarrow> (\<exists>w x. r = (w, Inr x) \<and> f w x = (w', Inr y))"
  by (auto simp: and_then_def split: prod.splits sum.splits)

lemma and_then_simps [simp]: "and_then (w, Inl e) f = (w, Inl e)" "and_then (w, Inr x) f = f w x"
  by (simp_all add: and_then_def)

lemma demand_simps [simp]: "demand w True e = (w, Inr ())" "demand w False e = (w, Inl e)"
  by (simp_all add: demand_def)

lemma demand_Inr: "demand w ok e = (w', Inr u) \<longleftrightarrow> ok \<and> w' = w"
  by (auto simp: demand_def)

text \<open>The state after a composition, when the first part did not end in an error and when it did.\<close>

lemma fst_and_then: "fst (and_then r f) = (case snd r of Inl _ \<Rightarrow> fst r | Inr x \<Rightarrow> fst (f (fst r) x))"
  by (auto simp: and_then_def split: prod.splits sum.splits)

lemma fst_demand [simp]: "fst (demand w ok e) = w"
  by (simp add: demand_def)

end
