(* ===== verification/RagService.thy ===== *)
theory RagService
  imports RagRepo RagEmbed Jobs Outcome
begin

text \<open>
  The retrieval service of internal/rag/service.go over the tables of RagRepo, the vector store and the job queue:
  collections and who may read and manage them, documents from upload to deletion, and search. An operation
  gives back the world it leaves behind together with its result, because what it has done before an error stays
  done. What an external call does (the artifact store's bytes, a call to the vector store, the executor's answers,
  the index's choice of points) is an argument.
\<close>

section \<open>The world\<close>

text \<open>A point of the vector store with the members of its payload the service reads.\<close>

record rag_point =
  pt_id :: string
  pt_document :: string
  pt_version :: version_id
  pt_generation :: int
  pt_chunk :: string
  pt_index :: int
  pt_content :: "rune list"
  pt_header :: "rune list"

record rag_world =
  rw_db :: rag_db
  rw_points :: "(string \<times> rag_point) list"
  rw_jobs :: jobs_db

datatype rag_error =
    RESource source_error
  | REInvalid string
  | REJobs jobs_error
  | REEmbed embed_error
  | REVector
  | REArtifact

type_synonym 'a outcome = "rag_world \<times> (rag_error + 'a)"

text \<open>A statement on the tables, and a query on them.\<close>

definition write_db :: "rag_world \<Rightarrow> source_error + rag_db \<Rightarrow> unit outcome" where
  "write_db w r = (case r of Inl e \<Rightarrow> (w, Inl (RESource e)) | Inr db \<Rightarrow> (w\<lparr> rw_db := db \<rparr>, Inr ()))"

definition query :: "rag_world \<Rightarrow> source_error + 'a \<Rightarrow> 'a outcome" where
  "query w r = (w, map_sum RESource id r)"

lemma write_db_Inr: "write_db w r = (w', Inr u) \<longleftrightarrow> (\<exists>db. r = Inr db \<and> w' = w\<lparr> rw_db := db \<rparr>)"
  by (auto simp: write_db_def split: sum.splits)

lemma query_simps [simp]: "query w (Inr x) = (w, Inr x)" "query w (Inl e) = (w, Inl (RESource e))"
  by (simp_all add: query_def)

lemma query_Inr: "query w r = (w', Inr x) \<longleftrightarrow> r = Inr x \<and> w' = w"
  by (auto simp: query_def map_sum_def split: sum.splits)

lemmas outcome_Inr = and_then_Inr write_db_Inr query_Inr demand_Inr

text \<open>A call to the vector store may also fail after it took effect.\<close>

datatype vector_call = VectorOk | VectorFailed | VectorLost

definition vector :: "rag_world \<Rightarrow> vector_call \<Rightarrow> ((string \<times> rag_point) list \<Rightarrow> (string \<times> rag_point) list) \<Rightarrow> unit outcome" where
  "vector w v f =
     (if v = VectorFailed then w else w\<lparr> rw_points := f (rw_points w) \<rparr>,
      if v = VectorOk then Inr () else Inl REVector)"

definition drop_collection_points :: "string \<Rightarrow> (string \<times> rag_point) list \<Rightarrow> (string \<times> rag_point) list" where
  "drop_collection_points q pts = filter (\<lambda>x. fst x \<noteq> q) pts"

definition drop_document_points :: "string \<Rightarrow> string \<Rightarrow> (string \<times> rag_point) list \<Rightarrow> (string \<times> rag_point) list" where
  "drop_document_points q i pts = filter (\<lambda>x. \<not> (fst x = q \<and> pt_document (snd x) = i)) pts"

text \<open>What the service is configured with.\<close>

record rag_env =
  re_tenant_ok :: "string \<Rightarrow> bool"
  re_model :: string
  re_sha :: "bytes \<Rightarrow> string"
  re_provenance :: "string \<Rightarrow> (string \<times> json) list \<Rightarrow> string"
  re_digest :: "string list \<Rightarrow> string"
  re_uuid :: "string \<Rightarrow> bool"

definition rag_requireTenant :: "principal \<Rightarrow> bool" where
  "rag_requireTenant p \<longleftrightarrow> trim_space (p_tenant p) \<noteq> []"

definition denied :: rag_error where
  "denied = RESource ErrDenied"

section \<open>Who may do what\<close>

definition collectionReadable :: "rag_collection \<Rightarrow> principal \<Rightarrow> bool" where
  "collectionReadable c p \<longleftrightarrow>
     (if HasScope p ScopePlatformAdmin then True
      else if \<not> co_active c then False
      else if co_owner c \<noteq> [] \<and> co_owner c = p_actor p then True
      else list_ex (\<lambda>a. a = ''*'' \<or> a = p_actor p) (co_audience c))"

definition collectionManageable :: "rag_collection \<Rightarrow> principal \<Rightarrow> bool" where
  "collectionManageable c p \<longleftrightarrow>
     HasScope p ScopePlatformAdmin \<or> (co_owner c \<noteq> [] \<and> co_owner c = p_actor p)"

definition boolACL :: "(string \<times> json) list \<Rightarrow> string \<Rightarrow> bool" where
  "boolACL acl k \<longleftrightarrow> obj_get acl k = Some (JBool True)"

text \<open>The access list as decoded from JSON; entries that are no string or empty are skipped.\<close>

definition collectionAudience :: "(string \<times> json) list option \<Rightarrow> string list" where
  "collectionAudience acl =
     (case acl of
        None \<Rightarrow> []
      | Some m \<Rightarrow>
          (if boolACL m ''public'' then [''*''] else []) @
          (case obj_get m ''audience'' of
             Some (JArr js) \<Rightarrow> filter (\<lambda>s. s \<noteq> []) (List.map_filter as_string js)
           | _ \<Rightarrow> []))"

definition normalizeACL :: "(string \<times> json) list option \<Rightarrow> (string \<times> json) list" where
  "normalizeACL acl =
     (case acl of
        None \<Rightarrow> [(''public'', JBool False), (''audience'', JArr [])]
      | Some m \<Rightarrow> (if obj_get m ''public'' = None then obj_put m ''public'' (JBool False) else m))"

definition normalizeChunkSettings :: "int \<Rightarrow> int \<Rightarrow> rag_error + int \<times> int" where
  "normalizeChunkSettings sz overlap =
     (let sz' = (if sz \<le> 0 then DefaultChunkSize else sz) in
      if sz' < 100 \<or> 16000 < sz' then Inl (REInvalid ''chunk_size must be between 100 and 16000'')
      else if overlap < 0 then Inl (REInvalid ''chunk_overlap must be zero or greater'')
      else if sz' \<le> overlap then Inl (REInvalid ''chunk_overlap must be smaller than chunk_size'')
      else Inr (sz', overlap))"

definition safeCollectionName :: "string \<Rightarrow> string" where
  "safeCollectionName i = map (\<lambda>c. if c \<in> {CHR ''-'', CHR '':'', CHR ''/''} then CHR ''_'' else c) i"

section \<open>Collections\<close>

record create_collection =
  cc_name :: string
  cc_description :: string
  cc_model :: string
  cc_size :: int
  cc_overlap :: int
  cc_acl :: "(string \<times> json) list option"
  cc_metadata :: "(string \<times> json) list"

definition CreateCollection ::
  "rag_env \<Rightarrow> rag_world \<Rightarrow> principal \<Rightarrow> create_collection \<Rightarrow> string \<Rightarrow> string \<Rightarrow> string \<Rightarrow> rag_collection outcome" where
  "CreateCollection env w p inp newid pid1 pid2 =
     and_then (demand w (rag_requireTenant p) denied) (\<lambda>w _.
     and_then (demand w (trim_space (cc_name inp) \<noteq> []) (REInvalid ''name is required'')) (\<lambda>w _.
     and_then (w, normalizeChunkSettings (cc_size inp) (cc_overlap inp)) (\<lambda>w (sz, overlap).
     and_then (write_db w (map_sum id fst (EnsureChunkProfile (re_tenant_ok env) (rw_db w) (p_tenant p) (''rag-'' @ newid) sz overlap pid1))) (\<lambda>w _.
     let model = (if trim_space (cc_model inp) = [] then re_model env else trim_space (cc_model inp));
         c = \<lparr> co_tenant = p_tenant p, co_id = newid, co_name = trim_space (cc_name inp),
               co_description = trim_space (cc_description inp), co_owner = p_actor p,
               co_qdrant = ''rag_'' @ safeCollectionName newid, co_profile = [], co_model = model, co_size = sz,
               co_overlap = overlap, co_acl = normalizeACL (cc_acl inp), co_audience = collectionAudience (cc_acl inp),
               co_metadata = cc_metadata inp, co_active = True \<rparr> in
     and_then (write_db w (InsertCollection (re_tenant_ok env) (rw_db w) c pid2)) (\<lambda>w _.
     query w (GetCollectionRow (rw_db w) (p_tenant p) newid))))))"

definition ListCollections :: "rag_world \<Rightarrow> principal \<Rightarrow> rag_error + rag_collection list" where
  "ListCollections w p =
     (if \<not> rag_requireTenant p then Inl denied
      else Inr (filter (\<lambda>c. collectionReadable c p) (ListCollectionRows (rw_db w) (p_tenant p))))"

definition GetCollection :: "rag_world \<Rightarrow> principal \<Rightarrow> string \<Rightarrow> rag_collection outcome" where
  "GetCollection w p i =
     and_then (demand w (rag_requireTenant p) denied) (\<lambda>w _.
     and_then (query w (GetCollectionRow (rw_db w) (p_tenant p) (trim_space i))) (\<lambda>w c.
     and_then (demand w (collectionReadable c p) denied) (\<lambda>w _.
     (w, Inr c))))"

record update_collection =
  uc_name :: "string option"
  uc_description :: "string option"
  uc_model :: "string option"
  uc_size :: "int option"
  uc_overlap :: "int option"
  uc_acl :: "(string \<times> json) list option"
  uc_metadata :: "(string \<times> json) list option"
  uc_active :: "bool option"

text \<open>\<open>keep f x\<close> is the new value of a field, if there is one, trimmed or as it is.\<close>

definition keep :: "'a option \<Rightarrow> 'a \<Rightarrow> 'a" where
  "keep v d = (case v of None \<Rightarrow> d | Some x \<Rightarrow> x)"

definition UpdateCollection ::
  "rag_env \<Rightarrow> rag_world \<Rightarrow> principal \<Rightarrow> string \<Rightarrow> update_collection \<Rightarrow> string \<Rightarrow> rag_collection outcome" where
  "UpdateCollection env w p i inp pid =
     and_then (GetCollection w p i) (\<lambda>w c.
     and_then (demand w (collectionManageable c p) denied) (\<lambda>w _.
     let name = keep (map_option trim_space (uc_name inp)) (co_name c);
         model = keep (map_option trim_space (uc_model inp)) (co_model c) in
     and_then (demand w (name \<noteq> []) (REInvalid ''name is required'')) (\<lambda>w _.
     and_then (demand w (model \<noteq> []) (REInvalid ''embedding_model is required'')) (\<lambda>w _.
     and_then
       (if uc_size inp \<noteq> None \<or> uc_overlap inp \<noteq> None
        then and_then (w, normalizeChunkSettings (keep (uc_size inp) (co_size c)) (keep (uc_overlap inp) (co_overlap c)))
          (\<lambda>w (sz, overlap).
             and_then (write_db w (map_sum id fst (EnsureChunkProfile (re_tenant_ok env) (rw_db w) (p_tenant p) (''rag-'' @ co_id c) sz overlap pid)))
               (\<lambda>w _. (w, Inr (sz, overlap))))
        else (w, Inr (co_size c, co_overlap c)))
       (\<lambda>w (sz, overlap).
     let c' = c\<lparr> co_name := name, co_description := keep (map_option trim_space (uc_description inp)) (co_description c),
                 co_model := model, co_size := sz, co_overlap := overlap,
                 co_acl := (case uc_acl inp of None \<Rightarrow> co_acl c | Some m \<Rightarrow> normalizeACL (Some m)),
                 co_audience := (case uc_acl inp of None \<Rightarrow> co_audience c | Some m \<Rightarrow> collectionAudience (Some (normalizeACL (Some m)))),
                 co_metadata := keep (uc_metadata inp) (co_metadata c), co_active := keep (uc_active inp) (co_active c) \<rparr> in
     and_then (write_db w (UpdateCollectionRow (rw_db w) c')) (\<lambda>w _.
     query w (GetCollectionRow (rw_db w) (p_tenant p) i)))))))"

definition DeleteCollection :: "rag_world \<Rightarrow> principal \<Rightarrow> string \<Rightarrow> vector_call \<Rightarrow> unit outcome" where
  "DeleteCollection w p i v =
     and_then (GetCollection w p i) (\<lambda>w c.
     and_then (demand w (collectionManageable c p) denied) (\<lambda>w _.
     and_then (vector w v (drop_collection_points (co_qdrant c))) (\<lambda>w _.
     write_db w (DeleteCollectionRow (rw_db w) (p_tenant p) (co_id c)))))"

lemma row_or_denied_Inr: "row_or_denied P t = Inr r \<Longrightarrow> r \<in> set t \<and> P r"
  by (auto simp: row_or_denied_def split: option.splits dest: find_row_Some)

lemma row_or_denied_Inl: "row_or_denied P t = Inl e \<Longrightarrow> e = ErrDenied"
  by (auto simp: row_or_denied_def split: option.splits)

lemma GetCollection_Inr:
  "GetCollection w p i = (w', Inr c) \<longleftrightarrow>
   w' = w \<and> rag_requireTenant p \<and> GetCollectionRow (rw_db w) (p_tenant p) (trim_space i) = Inr c \<and> collectionReadable c p"
  by (auto simp: GetCollection_def outcome_Inr)

text \<open>A collection that is not there, not readable or of no tenant is denied in the same way.\<close>

lemma GetCollection_Inl: "fst (GetCollection w p i) = w \<and> (snd (GetCollection w p i) = Inl e \<longrightarrow> e = denied)"
proof (cases "rag_requireTenant p")
  case True
  then show ?thesis
    using row_or_denied_Inl[of "\<lambda>c. co_key c = (p_tenant p, trim_space i)" "rd_collections (rw_db w)"]
    by (cases "row_or_denied (\<lambda>c. co_key c = (p_tenant p, trim_space i)) (rd_collections (rw_db w))")
      (auto simp: GetCollection_def GetCollectionRow_def denied_def demand_def)
qed (simp add: GetCollection_def)

lemma GetCollection_cases:
  obtains "GetCollection w p i = (w, Inl denied)" | c where "GetCollection w p i = (w, Inr c)"
  using GetCollection_Inl[of w p i] by (cases "snd (GetCollection w p i)") (auto simp: prod_eq_iff)

end
