(* ===== verification/RagDocuments.thy ===== *)
theory RagDocuments
  imports RagService
begin

text \<open>
  Documents, from internal/rag/service.go: upload with its version row and queued embedding job, listing, download,
  deletion and reprocessing. Where an object is in several collections, the row the database returns
  first is the argument \<open>k\<close>, as in RagRepo.
\<close>

section \<open>Uploads\<close>

record upload_document =
  ud_file :: string
  ud_mime :: string
  ud_bytes :: bytes
  ud_type :: string
  ud_source :: string
  ud_uri :: string
  ud_metadata :: "(string \<times> json) list"

text \<open>\<open>filepath.Base\<close>.\<close>

definition path_base :: "string \<Rightarrow> string" where
  "path_base p =
     (if p = [] then ''.''
      else let r = dropWhile (\<lambda>c. c = CHR ''/'') (rev p) in
        (if r = [] then ''/'' else rev (takeWhile (\<lambda>c. c \<noteq> CHR ''/'') r)))"

definition version_str :: "version_id \<Rightarrow> string" where
  "version_str v = fst v @ ''#'' @ itoa (snd v)"

definition embed_job ::
  "rag_collection \<Rightarrow> string \<Rightarrow> version_id \<Rightarrow> int \<Rightarrow> int \<Rightarrow> string \<Rightarrow> enqueue_request" where
  "embed_job c i v sq gen tenant =
     \<lparr> er_tenant = tenant, er_operation = ''rag.embed'',
       er_idem = ''rag.embed:'' @ i @ '':'' @ itoa sq @ '':'' @ itoa gen,
       er_subject = \<lparr> js_connection = [], js_object = i, js_observed = sq \<rparr>,
       er_input_ref = version_str v, er_input_hash = [],
       er_policy = Some
         [(''collection_id'', JStr (co_id c)), (''object_id'', JStr i), (''observed_seq'', JNum (of_int sq)),
          (''generation'', JNum (of_int gen)), (''embedding_model'', JStr (co_model c)),
          (''chunk_size'', JNum (of_int (co_size c))), (''chunk_overlap'', JNum (of_int (co_overlap c)))],
       er_max_attempts = 0 \<rparr>"

definition enqueueEmbed ::
  "rag_env \<Rightarrow> rag_world \<Rightarrow> principal \<Rightarrow> rag_collection \<Rightarrow> string \<Rightarrow> version_id \<Rightarrow> int \<Rightarrow> int \<Rightarrow> string \<Rightarrow> time \<Rightarrow>
   unit outcome" where
  "enqueueEmbed env w p c i v sq gen jobid now =
     and_then (write_db w (ReplaceVersionChunksAndStage (rw_db w) (p_tenant p) (co_id c) v gen [] [])) (\<lambda>w _.
     case Enqueue (re_digest env) (re_uuid env) (rw_jobs w) p (embed_job c i v sq gen (p_tenant p)) jobid now of
       Inl e \<Rightarrow> (w, Inl (REJobs e))
     | Inr (jdb, job, created) \<Rightarrow> (w\<lparr> rw_jobs := jdb \<rparr>, Inr ()))"

text \<open>The random ids an upload draws, and the artifact its bytes were committed as, if they were.\<close>

record upload_ids =
  ui_source :: string
  ui_object :: string
  ui_job :: string
  ui_artifact :: "string option"

definition upload_object :: "principal \<Rightarrow> rag_collection \<Rightarrow> string \<Rightarrow> string \<Rightarrow> string \<Rightarrow> object" where
  "upload_object p c kind native newid =
     \<lparr> ob_tenant = p_tenant p, ob_connection = [], ob_id = newid, ob_kind = kind, ob_native = native, ob_parent = [],
       ob_mode = AuthorizationAudience, ob_owner = p_actor p, ob_audience = p_actor p # co_audience c,
       ob_upstream = None, ob_observed = 0, ob_deleted = None, ob_tombstoned = None \<rparr>"

definition upload_version :: "rag_env \<Rightarrow> object \<Rightarrow> upload_document \<Rightarrow> string \<Rightarrow> string \<Rightarrow> string \<Rightarrow> object_version" where
  "upload_version env x inp file mime artifact =
     \<lparr> ov_object = ob_id x, ov_observed = ob_observed x + 1, ov_artifact = artifact, ov_sha256 = re_sha env (ud_bytes inp),
       ov_size = int (length (ud_bytes inp)), ov_mime = mime, ov_filename = file, ov_upstream = None,
       ov_provenance = re_provenance env (trim_space (ud_uri inp)) (ud_metadata inp), ov_restrictions = [] \<rparr>"

text \<open>The rows an upload writes once its object is there.\<close>

definition add_version ::
  "rag_env \<Rightarrow> rag_world \<Rightarrow> principal \<Rightarrow> rag_collection \<Rightarrow> object \<Rightarrow> object_version \<Rightarrow> string \<Rightarrow> time \<Rightarrow> nat \<Rightarrow> document outcome" where
  "add_version env w p c x ver jobid now k =
     (let v = (ob_id x, ov_observed ver) in
     and_then (write_db w (map_sum id (\<lambda>s. (rw_db w)\<lparr> rd_source := s \<rparr>)
       (InsertObjectVersion (rd_source (rw_db w)) (p_tenant p) ver))) (\<lambda>w _.
     and_then (write_db w (AddCollectionItem (rw_db w) (p_tenant p) (co_id c) (ob_id x) (p_actor p))) (\<lambda>w _.
     and_then (enqueueEmbed env w p c (ob_id x) v (ov_observed ver)
       (NextGeneration (rw_db w) (p_tenant p) (co_id c) v) jobid now) (\<lambda>w _.
     query w (GetDocument (rw_db w) (p_tenant p) (ob_id x) k)))))"

definition processNewDocument ::
  "rag_env \<Rightarrow> rag_world \<Rightarrow> principal \<Rightarrow> rag_collection \<Rightarrow> upload_document \<Rightarrow> upload_ids \<Rightarrow> time \<Rightarrow> nat \<Rightarrow> document outcome" where
  "processNewDocument env w p c inp ids now k =
     (let file = trim_space (path_base (ud_file inp));
          mime = (if trim_space (ud_mime inp) = [] then ''application/octet-stream'' else ud_mime inp);
          kind = (if trim_space (ud_type inp) = [] then ''upload'' else trim_space (ud_type inp));
          native = (if trim_space (ud_source inp) = [] then ui_source ids else trim_space (ud_source inp)) in
     and_then (demand w (file \<noteq> ''.'' \<and> file \<noteq> []) (REInvalid ''file_name is required'')) (\<lambda>w _.
     and_then (demand w (ud_bytes inp \<noteq> []) (REInvalid ''document is empty'')) (\<lambda>w _.
     case ui_artifact ids of
       None \<Rightarrow> (w, Inl REArtifact)
     | Some artifact \<Rightarrow>
         and_then
           (case UpsertObject (re_tenant_ok env) (rd_source (rw_db w)) (upload_object p c kind native (ui_object ids)) of
              Inl e \<Rightarrow> (w, Inl (RESource e))
            | Inr (s, x) \<Rightarrow> (w\<lparr> rw_db := (rw_db w)\<lparr> rd_source := s \<rparr> \<rparr>, Inr x))
           (\<lambda>w x. add_version env w p c x (upload_version env x inp file mime artifact) (ui_job ids) now k))))"

definition UploadDocument ::
  "rag_env \<Rightarrow> rag_world \<Rightarrow> principal \<Rightarrow> string \<Rightarrow> upload_document \<Rightarrow> upload_ids \<Rightarrow> time \<Rightarrow> nat \<Rightarrow> document outcome" where
  "UploadDocument env w p i inp ids now k =
     and_then (GetCollection w p i) (\<lambda>w c.
     and_then (demand w (collectionManageable c p) denied) (\<lambda>w _.
     processNewDocument env w p c inp ids now k))"

section \<open>Reading\<close>

definition ListDocuments :: "rag_world \<Rightarrow> principal \<Rightarrow> string \<Rightarrow> int \<Rightarrow> int \<Rightarrow> nat \<Rightarrow> document list outcome" where
  "ListDocuments w p i lim' offset k =
     and_then (GetCollection w p i) (\<lambda>w c.
     query w (ListDocumentRows (rw_db w) (p_tenant p) (co_id c) lim' offset k))"

definition LiveSourceIDs :: "rag_world \<Rightarrow> principal \<Rightarrow> string \<Rightarrow> string set outcome" where
  "LiveSourceIDs w p i =
     and_then (GetCollection w p i) (\<lambda>w c. (w, Inr (LiveCollectionSourceIDs (rw_db w) (p_tenant p) (co_id c))))"

definition may_read :: "rag_world \<Rightarrow> principal \<Rightarrow> object \<Rightarrow> time \<Rightarrow> source_error option" where
  "may_read w p x now =
     CanRead (sql_reads (rd_source (rw_db w))) 0 now p x \<lparr> ro_now = None, ro_requested = None \<rparr>"

definition check_read :: "rag_world \<Rightarrow> principal \<Rightarrow> object \<Rightarrow> time \<Rightarrow> unit outcome" where
  "check_read w p x now = (w, case may_read w p x now of None \<Rightarrow> Inr () | Some e \<Rightarrow> Inl (RESource e))"

definition DownloadDocument ::
  "rag_world \<Rightarrow> principal \<Rightarrow> string \<Rightarrow> (string \<Rightarrow> bytes option) \<Rightarrow> time \<Rightarrow> nat \<Rightarrow> (document \<times> bytes) outcome" where
  "DownloadDocument w p i artifact_bytes now k =
     and_then (query w (GetDocument (rw_db w) (p_tenant p) i k)) (\<lambda>w d.
     and_then (query w (sql_GetObject (rd_source (rw_db w)) (p_tenant p) (dc_id d))) (\<lambda>w x.
     and_then (check_read w p x now) (\<lambda>w _.
     case artifact_bytes (dc_artifact d) of None \<Rightarrow> (w, Inl REArtifact) | Some b \<Rightarrow> (w, Inr (d, b)))))"

section \<open>Deletion and reprocessing\<close>

definition DeleteDocument :: "rag_world \<Rightarrow> principal \<Rightarrow> string \<Rightarrow> vector_call \<Rightarrow> time \<Rightarrow> nat \<Rightarrow> unit outcome" where
  "DeleteDocument w p i v now k =
     and_then (query w (GetDocument (rw_db w) (p_tenant p) i k)) (\<lambda>w d.
     and_then (query w (GetCollectionRow (rw_db w) (p_tenant p) (dc_collection d))) (\<lambda>w c.
     and_then (demand w (collectionManageable c p) denied) (\<lambda>w _.
     and_then (vector w v (drop_document_points (co_qdrant c) (dc_id d))) (\<lambda>w _.
     and_then (write_db w (map_sum id (\<lambda>s. (rw_db w)\<lparr> rd_source := s \<rparr>)
       (TombstoneObject (rd_source (rw_db w)) (p_tenant p) (dc_id d) now))) (\<lambda>w _.
     write_db w (DeleteObjectRows (rw_db w) (p_tenant p) (dc_id d)))))))"

definition ReprocessDocument ::
  "rag_env \<Rightarrow> rag_world \<Rightarrow> principal \<Rightarrow> string \<Rightarrow> string \<Rightarrow> time \<Rightarrow> nat \<Rightarrow> document outcome" where
  "ReprocessDocument env w p i jobid now k =
     and_then (query w (GetDocument (rw_db w) (p_tenant p) i k)) (\<lambda>w d.
     and_then (query w (GetCollectionRow (rw_db w) (p_tenant p) (dc_collection d))) (\<lambda>w c.
     and_then (demand w (collectionManageable c p) denied) (\<lambda>w _.
     and_then (query w (sql_GetObject (rd_source (rw_db w)) (p_tenant p) (dc_id d))) (\<lambda>w x.
     and_then (check_read w p x now) (\<lambda>w _.
     let v = keep (dc_version d) ([], 0) in
     and_then (enqueueEmbed env w p c (ob_id x) v (snd v)
       (NextGeneration (rw_db w) (p_tenant p) (co_id c) v) jobid now) (\<lambda>w _. (w, Inr d)))))))"

end
