(* ===== verification/RagSearch.thy ===== *)
theory RagSearch
  imports RagDocuments
begin

text \<open>
  Search, from internal/rag/service.go: the versions the caller may search are resolved before the index is asked, the
  index is asked for these versions only, and the points it returns are merged into sections of consecutive chunks.
\<close>

section \<open>What may be searched\<close>

text \<open>
  The version and the object of an item that may be searched; \<open>ch\<close> is the database's choice of row for each object.
\<close>

definition searchable :: "rag_world \<Rightarrow> principal \<Rightarrow> time \<Rightarrow> (string \<Rightarrow> nat) \<Rightarrow> string \<Rightarrow> (version_id \<times> string) option" where
  "searchable w p now ch i =
     (case sql_GetObject (rd_source (rw_db w)) (p_tenant p) i of
        Inl _ \<Rightarrow> None
      | Inr x \<Rightarrow>
          if may_read w p x now \<noteq> None then None
          else (case GetDocument (rw_db w) (p_tenant p) i (ch i) of
                  Inl _ \<Rightarrow> None
                | Inr d \<Rightarrow> (if dc_status d \<noteq> DocReady then None else map_option (\<lambda>v. (v, i)) (dc_version d))))"

definition search_scope ::
  "rag_world \<Rightarrow> principal \<Rightarrow> time \<Rightarrow> (string \<Rightarrow> nat) \<Rightarrow> rag_collection \<Rightarrow> (version_id \<times> string) list" where
  "search_scope w p now ch c =
     List.map_filter (searchable w p now ch) (ListCollectionItems (rw_db w) (p_tenant p) (co_id c))"

section \<open>Sections\<close>

record search_result =
  ss_document :: string
  ss_chunk :: string
  ss_first :: int
  ss_last :: int
  ss_score :: rat
  ss_content :: "rune list"
  ss_header :: "rune list"

type_synonym hit = "rag_point \<times> rat"

definition section_of :: "hit \<Rightarrow> search_result" where
  "section_of h =
     \<lparr> ss_document = pt_document (fst h), ss_chunk = pt_chunk (fst h), ss_first = pt_index (fst h),
       ss_last = pt_index (fst h), ss_score = snd h, ss_content = pt_content (fst h), ss_header = pt_header (fst h) \<rparr>"

text \<open>The first section a point extends at one of its ends, and the sections with it extended.\<close>

fun extend_section :: "rag_point \<Rightarrow> search_result list \<Rightarrow> search_result list option" where
  "extend_section p [] = None"
| "extend_section p (s # ss) =
     (if ss_document s \<noteq> pt_document p \<or> ss_header s \<noteq> pt_header p then map_option (Cons s) (extend_section p ss)
      else if pt_index p = ss_last s + 1
      then Some (s\<lparr> ss_content := ss_content s @ pt_content p, ss_last := pt_index p \<rparr> # ss)
      else if pt_index p = ss_first s - 1
      then Some (s\<lparr> ss_content := pt_content p @ ss_content s, ss_first := pt_index p \<rparr> # ss)
      else map_option (Cons s) (extend_section p ss))"

definition add_hit :: "int \<Rightarrow> search_result list \<Rightarrow> hit \<Rightarrow> search_result list" where
  "add_hit lim' out h =
     (case extend_section (fst h) out of
        Some out' \<Rightarrow> out'
      | None \<Rightarrow> if int (length out) < lim' then out @ [section_of h] else out)"

text \<open>The second loop: a section takes in the later ones that adjoin it.\<close>

definition adjoins :: "search_result \<Rightarrow> search_result \<Rightarrow> bool" where
  "adjoins a b \<longleftrightarrow>
     ss_document a = ss_document b \<and> ss_header a = ss_header b \<and>
     (ss_last a + 1 = ss_first b \<or> ss_last b + 1 = ss_first a)"

definition join_section :: "search_result \<Rightarrow> search_result \<Rightarrow> search_result" where
  "join_section a b =
     (if ss_first b < ss_first a
      then a\<lparr> ss_content := ss_content b @ ss_content a, ss_first := ss_first b \<rparr>
      else a\<lparr> ss_content := ss_content a @ ss_content b, ss_last := ss_last b \<rparr>)"

fun absorb :: "search_result \<Rightarrow> search_result list \<Rightarrow> search_result \<times> search_result list" where
  "absorb a [] = (a, [])"
| "absorb a (b # bs) =
     (if adjoins a b then absorb (join_section a b) bs
      else let (a', bs') = absorb a bs in (a', b # bs'))"

lemma absorb_length: "length (snd (absorb a bs)) \<le> length bs"
  by (induction a bs rule: absorb.induct) (auto split: prod.split)

function join_sections :: "search_result list \<Rightarrow> search_result list" where
  "join_sections [] = []"
| "join_sections (a # bs) = (let (a', bs') = absorb a bs in a' # join_sections bs')"
  by pat_completeness auto
termination
proof (relation "measure length", goal_cases)
  case (2 a bs x a' bs')
  then have "bs' = snd (absorb a bs)" by (metis snd_conv)
  then show ?case using absorb_length[of a bs] by simp
qed simp

definition mergeSearchSections :: "hit list \<Rightarrow> int \<Rightarrow> search_result list" where
  "mergeSearchSections hits lim' =
     join_sections (foldl (add_hit (if lim' \<le> 0 then 5 else lim')) [] hits)"

section \<open>Search\<close>

record search_input =
  sq_collection :: string
  sq_query :: "rune list"
  sq_limit :: int
  sq_filter :: "(rag_point \<Rightarrow> bool) option"

text \<open>What a query runs with: the executor, given the objects whose text it is priced and authorized for, and the index.\<close>

record search_env =
  sv_execute :: "string list \<Rightarrow> nat \<Rightarrow> embed_request \<Rightarrow> rat exec_answer"
  sv_index :: "string \<Rightarrow> rune list \<Rightarrow> rat list \<Rightarrow> (rag_point \<Rightarrow> bool) \<Rightarrow> int \<Rightarrow> hit list option"
  sv_now :: time
  sv_choice :: "string \<Rightarrow> nat"

definition Search :: "search_env \<Rightarrow> rag_world \<Rightarrow> principal \<Rightarrow> search_input \<Rightarrow> search_result list outcome" where
  "Search se w p inp =
     (let q = trim_runes (sq_query inp) in
     and_then (demand w (q \<noteq> []) (REInvalid ''query is required'')) (\<lambda>w _.
     and_then (GetCollection w p (trim_space (sq_collection inp))) (\<lambda>w c.
     let scope = search_scope w p (sv_now se) (sv_choice se) c in
     if scope = [] then (w, Inr [])
     else
       (case snd (createEmbeddings (sv_execute se (map snd scope)) [q]) of
          Inl e \<Rightarrow> (w, Inl (REEmbed e))
        | Inr vectors \<Rightarrow>
            (case sv_index se (co_qdrant c) q (hd vectors)
               (\<lambda>x. pt_version x \<in> set (map fst scope) \<and> (case sq_filter inp of None \<Rightarrow> True | Some f \<Rightarrow> f x)) (sq_limit inp) of
               None \<Rightarrow> (w, Inl REVector)
             | Some hits \<Rightarrow> (w, Inr (mergeSearchSections hits (sq_limit inp))))))))"

end
