(* ===== verification/RagSearchProps.thy ===== *)
theory RagSearchProps
  imports RagSearch
begin

text \<open>
  What a search returns: sections that are runs of consecutive chunks of one document, taken only from versions
  the caller may read at this moment.
\<close>

section \<open>Sections are runs\<close>

text \<open>A section is the text of hits with consecutive indexes of one document and one heading path.\<close>

definition run_of :: "hit list \<Rightarrow> search_result \<Rightarrow> bool" where
  "run_of hits s \<longleftrightarrow>
     (\<exists>hs. hs \<noteq> [] \<and> set hs \<subseteq> set hits \<and> map (pt_index \<circ> fst) hs = [ss_first s..ss_last s] \<and>
        ss_content s = concat (map (pt_content \<circ> fst) hs) \<and>
        list_all (\<lambda>h. pt_document (fst h) = ss_document s \<and> pt_header (fst h) = ss_header s) hs)"

lemma run_of_nonempty: "run_of hits s \<Longrightarrow> ss_first s \<le> ss_last s"
  by (auto simp: run_of_def) (metis Nil_is_map_conv upto_empty not_le)

lemma run_of_single: "h \<in> set hits \<Longrightarrow> run_of hits (section_of h)"
  unfolding run_of_def section_of_def by (intro exI[of _ "[h]"]) simp

lemma run_of_join:
  assumes "run_of hits a" and "run_of hits b" and "ss_last a + 1 = ss_first b"
    and "ss_document a = ss_document b" and "ss_header a = ss_header b"
    and "ss_first c = ss_first a" and "ss_last c = ss_last b" and "ss_content c = ss_content a @ ss_content b"
    and "ss_document c = ss_document a" and "ss_header c = ss_header a"
  shows "run_of hits c"
proof -
  obtain xs where xs: "xs \<noteq> []" "set xs \<subseteq> set hits" "map (pt_index \<circ> fst) xs = [ss_first a..ss_last a]"
    "ss_content a = concat (map (pt_content \<circ> fst) xs)"
    "list_all (\<lambda>h. pt_document (fst h) = ss_document a \<and> pt_header (fst h) = ss_header a) xs"
    using assms(1) unfolding run_of_def by blast
  obtain ys where ys: "set ys \<subseteq> set hits" "map (pt_index \<circ> fst) ys = [ss_first b..ss_last b]"
    "ss_content b = concat (map (pt_content \<circ> fst) ys)"
    "list_all (\<lambda>h. pt_document (fst h) = ss_document b \<and> pt_header (fst h) = ss_header b) ys"
    using assms(2) unfolding run_of_def by blast
  have "[ss_first a..ss_last b] = [ss_first a..ss_last a] @ [ss_first b..ss_last b]"
    using upto_split1[of "ss_first a" "ss_first b" "ss_last b"] run_of_nonempty[OF assms(1)] run_of_nonempty[OF assms(2)] assms(3)
    by (metis add_diff_cancel_right' add_increasing2 zero_le_one)
  then show ?thesis
    unfolding run_of_def using xs ys assms(4-10) by (intro exI[of _ "xs @ ys"]) simp
qed

lemma extend_section_runs:
  "extend_section (fst h) out = Some out' \<Longrightarrow> h \<in> set hits \<Longrightarrow> list_all (run_of hits) out \<Longrightarrow>
   list_all (run_of hits) out' \<and> length out' = length out"
proof (induction "fst h" out arbitrary: out' rule: extend_section.induct)
  case (2 s ss)
  note one = run_of_single[OF 2(4)]
  have s: "run_of hits s" using 2(5) by simp
  let ?same = "ss_document s = pt_document (fst h) \<and> ss_header s = pt_header (fst h)"
  consider "?same" "pt_index (fst h) = ss_last s + 1"
    | "?same" "pt_index (fst h) \<noteq> ss_last s + 1" "pt_index (fst h) = ss_first s - 1"
    | "\<not> ?same" | "?same" "pt_index (fst h) \<noteq> ss_last s + 1" "pt_index (fst h) \<noteq> ss_first s - 1" by blast
  then show ?case
  proof cases
    case 1
    then have "out' = s\<lparr> ss_content := ss_content s @ pt_content (fst h), ss_last := pt_index (fst h) \<rparr> # ss" using 2(3) by simp
    moreover have "run_of hits (s\<lparr> ss_content := ss_content s @ pt_content (fst h), ss_last := pt_index (fst h) \<rparr>)"
      by (rule run_of_join[OF s one]) (use 1 in \<open>simp_all add: section_of_def\<close>)
    ultimately show ?thesis using 2(5) by simp
  next
    case 2
    then have "out' = s\<lparr> ss_content := pt_content (fst h) @ ss_content s, ss_first := pt_index (fst h) \<rparr> # ss"
      using \<open>extend_section (fst h) (s # ss) = Some out'\<close> by simp
    moreover have "run_of hits (s\<lparr> ss_content := pt_content (fst h) @ ss_content s, ss_first := pt_index (fst h) \<rparr>)"
      by (rule run_of_join[OF one s]) (use 2 in \<open>simp_all add: section_of_def\<close>)
    ultimately show ?thesis using \<open>list_all (run_of hits) (s # ss)\<close> by simp
  next
    case 3
    then obtain o' where "extend_section (fst h) ss = Some o'" "out' = s # o'" using 2(3) by auto
    then show ?thesis using 2(1)[OF _ _ 2(4)] 3 2(5) by simp
  next
    case 4
    then obtain o' where "extend_section (fst h) ss = Some o'" "out' = s # o'" using 2(3) by auto
    then show ?thesis using 2(2)[OF _ _ _ _ 2(4)] 4 2(5) by simp
  qed
qed simp

lemma add_hit_runs:
  assumes "h \<in> set hits" and "list_all (run_of hits) out" and "int (length out) \<le> n"
  shows "list_all (run_of hits) (add_hit n out h) \<and> int (length (add_hit n out h)) \<le> n"
  using extend_section_runs[OF _ assms(1,2)] run_of_single[OF assms(1)] assms
  by (auto simp: add_hit_def split: option.split)

lemma fold_hits_runs:
  "set hs \<subseteq> set hits \<Longrightarrow> list_all (run_of hits) out \<Longrightarrow> int (length out) \<le> n \<Longrightarrow>
   list_all (run_of hits) (foldl (add_hit n) out hs) \<and> int (length (foldl (add_hit n) out hs)) \<le> n"
proof (induction hs arbitrary: out)
  case (Cons h hs)
  then have "h \<in> set hits" by simp
  then show ?case using add_hit_runs[OF _ Cons.prems(2,3)] Cons by simp
qed simp

lemma join_section_run: "run_of hits a \<Longrightarrow> run_of hits b \<Longrightarrow> adjoins a b \<Longrightarrow> run_of hits (join_section a b)"
proof -
  assume ab: "run_of hits a" "run_of hits b" "adjoins a b"
  show ?thesis
  proof (cases "ss_first b < ss_first a")
    case True
    then have "ss_last b + 1 = ss_first a" using ab(3) run_of_nonempty[OF ab(1)] by (auto simp: adjoins_def)
    then show ?thesis
      by (rule run_of_join[OF ab(2,1)]) (use True ab(3) in \<open>auto simp: adjoins_def join_section_def\<close>)
  next
    case False
    then have "ss_last a + 1 = ss_first b" using ab(3) run_of_nonempty[OF ab(2)] by (auto simp: adjoins_def)
    then show ?thesis
      by (rule run_of_join[OF ab(1,2)]) (use False ab(3) in \<open>auto simp: adjoins_def join_section_def\<close>)
  qed
qed

lemma absorb_runs:
  "run_of hits a \<Longrightarrow> list_all (run_of hits) bs \<Longrightarrow>
   run_of hits (fst (absorb a bs)) \<and> list_all (run_of hits) (snd (absorb a bs))"
  by (induction a bs rule: absorb.induct) (auto simp: join_section_run split: prod.split)

lemma join_sections_runs:
  "list_all (run_of hits) out \<Longrightarrow> list_all (run_of hits) (join_sections out) \<and> length (join_sections out) \<le> length out"
proof (induction out rule: join_sections.induct)
  case (2 a bs)
  obtain a' bs' where ab: "absorb a bs = (a', bs')" by fastforce
  have r: "run_of hits a'" "list_all (run_of hits) bs'" using absorb_runs[of hits a bs] 2(2) ab by simp_all
  then show ?case using 2(1)[OF ab[symmetric] refl r(2)] absorb_length[of a bs] ab by simp
qed simp

text \<open>
  However the index orders its hits, a search returns at most the number of sections asked for (5 when none is
  given), and each section is a run: the contents of hits of one document under one heading path, with consecutive
  chunk numbers from its first to its last, joined in this order.
\<close>

theorem search_sections_are_runs:
  "list_all (run_of hits) (mergeSearchSections hits lim') \<and>
   int (length (mergeSearchSections hits lim')) \<le> (if lim' \<le> 0 then 5 else lim')"
proof -
  let ?n = "if lim' \<le> 0 then 5 else lim'"
  have "list_all (run_of hits) (foldl (add_hit ?n) [] hits) \<and> int (length (foldl (add_hit ?n) [] hits)) \<le> ?n"
    using fold_hits_runs[of hits hits "[]" ?n] by simp
  then show ?thesis using join_sections_runs[of hits "foldl (add_hit ?n) [] hits"] by (auto simp: mergeSearchSections_def)
qed

section \<open>Only what the caller may read\<close>

text \<open>An object of the collection the caller may read now, whose latest version is this one and is published.\<close>

definition readable_version ::
  "rag_world \<Rightarrow> principal \<Rightarrow> time \<Rightarrow> (string \<Rightarrow> nat) \<Rightarrow> rag_collection \<Rightarrow> version_id \<Rightarrow> bool" where
  "readable_version w p now ch c v \<longleftrightarrow>
     (\<exists>x \<in> set (sd_objects (rd_source (rw_db w))).
        ob_tenant x = p_tenant p \<and> ob_id x = fst v \<and> list_ex (is_item (p_tenant p) (co_id c) (ob_id x)) (rd_items (rw_db w)) \<and>
        may_read w p x now = None \<and>
        map_sum id ov_observed (sql_LatestObjectVersion (rd_source (rw_db w)) (p_tenant p) (ob_id x)) = Inr (snd v) \<and>
        version_status (rw_db w) (p_tenant p) v (ch (ob_id x)) = DocReady)"

lemma sql_GetObject_Inr: "sql_GetObject db t i = Inr x \<Longrightarrow> x \<in> set (sd_objects db) \<and> ob_tenant x = t \<and> ob_id x = i"
  by (auto simp: sql_GetObject_def obj_key_def dest: row_or_denied_Inr)

lemma pick_row_in: "pick_row k xs = Some x \<Longrightarrow> x \<in> set xs"
  by (auto simp: pick_row_def split: if_splits)

lemma GetDocument_Inr:
  assumes "GetDocument db t i k = Inr d"
  shows "\<exists>x item. sql_GetObject (rd_source db) t i = Inr x \<and> item \<in> set (rd_items db) \<and> it_tenant item = t \<and>
    it_object item = i \<and> scanDocument db x item k = Inr d \<and> dc_id d = i \<and> dc_collection d = it_collection item"
proof -
  obtain x item where x: "sql_GetObject (rd_source db) t i = Inr x"
    and item: "pick_row k (filter (\<lambda>r. it_tenant r = t \<and> it_object r = i) (rd_items db)) = Some item"
    and d: "scanDocument db x item k = Inr d"
    using assms by (auto simp: GetDocument_def bind_r_Inr split: option.splits)
  have "dc_id d = ob_id x" "dc_collection d = it_collection item"
    using d by (auto simp: scanDocument_def Let_def split: if_splits sum.splits)
  then show ?thesis using x item d pick_row_in[OF item] sql_GetObject_Inr[OF x] by auto
qed

lemma searchable_sound:
  assumes "searchable w p now ch i = Some (v, i')"
  shows "i' = i \<and> fst v = i \<and>
    (\<exists>x \<in> set (sd_objects (rd_source (rw_db w))). ob_tenant x = p_tenant p \<and> ob_id x = i \<and> may_read w p x now = None \<and>
      map_sum id ov_observed (sql_LatestObjectVersion (rd_source (rw_db w)) (p_tenant p) i) = Inr (snd v) \<and>
      version_status (rw_db w) (p_tenant p) v (ch i) = DocReady)"
proof -
  obtain x d where x: "sql_GetObject (rd_source (rw_db w)) (p_tenant p) i = Inr x" "may_read w p x now = None"
    and d: "GetDocument (rw_db w) (p_tenant p) i (ch i) = Inr d" "dc_status d = DocReady" "dc_version d = Some v" "i' = i"
    using assms by (auto simp: searchable_def split: sum.splits if_splits)
  obtain y item where y: "sql_GetObject (rd_source (rw_db w)) (p_tenant p) i = Inr y" "scanDocument (rw_db w) y item (ch i) = Inr d"
    using GetDocument_Inr[OF d(1)] by blast
  have xy: "y = x" using x(1) y(1) by simp
  note o = sql_GetObject_Inr[OF x(1)]
  obtain u where u: "sql_LatestObjectVersion (rd_source (rw_db w)) (p_tenant p) i = Inr u" "v = (i, ov_observed u)"
    "version_status (rw_db w) (p_tenant p) v (ch i) = DocReady"
    using y(2) d(2,3) o unfolding xy by (auto simp: scanDocument_def Let_def split: if_splits sum.splits)
  show ?thesis using o x(2) u d(4) by auto
qed

lemma search_scope_sound:
  assumes "v \<in> set (map fst (search_scope w p now ch c))"
  shows "readable_version w p now ch c v"
proof -
  obtain i i' where i: "i \<in> set (ListCollectionItems (rw_db w) (p_tenant p) (co_id c))" "searchable w p now ch i = Some (v, i')"
    using assms by (auto simp: search_scope_def map_filter_def)
  have "list_ex (is_item (p_tenant p) (co_id c) i) (rd_items (rw_db w))"
    using i(1) by (auto simp: ListCollectionItems_def is_item_def list_ex_iff)
  then show ?thesis using searchable_sound[OF i(2)] unfolding readable_version_def by auto
qed

text \<open>The documented behaviour of the index: it returns points of the collection that match the filter.\<close>

definition index_honest :: "search_env \<Rightarrow> rag_world \<Rightarrow> bool" where
  "index_honest se w \<longleftrightarrow>
     (\<forall>name q vec f lim' hits. sv_index se name q vec f lim' = Some hits \<longrightarrow>
        (\<forall>h \<in> set hits. (name, fst h) \<in> set (rw_points w) \<and> f (fst h)))"

text \<open>
  C10: A search shows only what its caller may read at this moment. When it succeeds, the collection is readable to the
  caller, and every section is a run of points that are in the index of this collection and belong to the latest,
  published version of an object of the collection that the source authorizer lets the caller read; the search
  changes nothing.
\<close>

theorem search_confined:
  assumes "index_honest se w" and "Search se w p inp = (w', Inr results)"
  shows "w' = w \<and>
    (results = [] \<or>
     (\<exists>c hits. GetCollection w p (trim_space (sq_collection inp)) = (w, Inr c) \<and>
        list_all (run_of hits) results \<and>
        list_all (\<lambda>h. (co_qdrant c, fst h) \<in> set (rw_points w) \<and>
          readable_version w p (sv_now se) (sv_choice se) c (pt_version (fst h))) hits))"
proof -
  have q: "trim_runes (sq_query inp) \<noteq> []"
    using assms(2) by (cases "trim_runes (sq_query inp) = []") (simp_all add: Search_def)
  obtain c where c: "GetCollection w p (trim_space (sq_collection inp)) = (w, Inr c)"
    using assms(2) q by (cases rule: GetCollection_cases[of w p "trim_space (sq_collection inp)"]) (simp_all add: Search_def Let_def)
  show ?thesis
  proof (cases "search_scope w p (sv_now se) (sv_choice se) c = []")
    case True
    then show ?thesis using assms(2) q c by (simp add: Search_def)
  next
    case False
    define scope where "scope = search_scope w p (sv_now se) (sv_choice se) c"
    define flt where "flt = (\<lambda>x. pt_version x \<in> set (map fst scope) \<and> (case sq_filter inp of None \<Rightarrow> True | Some f \<Rightarrow> f x))"
    define answer where "answer = snd (createEmbeddings (sv_execute se (map snd scope)) [trim_runes (sq_query inp)])"
    have eq: "Search se w p inp =
      (case answer of
         Inl e \<Rightarrow> (w, Inl (REEmbed e))
       | Inr vectors \<Rightarrow>
           (case sv_index se (co_qdrant c) (trim_runes (sq_query inp)) (hd vectors) flt (sq_limit inp) of
              None \<Rightarrow> (w, Inl REVector)
            | Some hits \<Rightarrow> (w, Inr (mergeSearchSections hits (sq_limit inp)))))"
      unfolding Search_def Let_def answer_def flt_def scope_def by (simp add: q c False)
    obtain vectors where a: "answer = Inr vectors" using assms(2) eq by (cases answer) simp_all
    obtain hits where h: "sv_index se (co_qdrant c) (trim_runes (sq_query inp)) (hd vectors) flt (sq_limit inp) = Some hits"
      using assms(2) eq a
      by (cases "sv_index se (co_qdrant c) (trim_runes (sq_query inp)) (hd vectors) flt (sq_limit inp)") simp_all
    have w': "w' = w" "results = mergeSearchSections hits (sq_limit inp)" using assms(2) eq a h by simp_all
    have "(co_qdrant c, fst x) \<in> set (rw_points w) \<and> readable_version w p (sv_now se) (sv_choice se) c (pt_version (fst x))"
      if "x \<in> set hits" for x
    proof -
      have "(co_qdrant c, fst x) \<in> set (rw_points w) \<and> flt (fst x)"
        using assms(1)[unfolded index_honest_def, rule_format, OF h that] .
      then show ?thesis using search_scope_sound unfolding flt_def scope_def by blast
    qed
    then show ?thesis using c w' search_sections_are_runs[of hits "sq_limit inp"] by (auto simp: list_all_iff)
  qed
qed

section \<open>An example\<close>

definition demo_principal :: principal where
  "demo_principal = zero_principal\<lparr> p_tenant := ''t'', p_actor := ''a'' \<rparr>"

definition demo_collection :: rag_collection where
  "demo_collection =
     \<lparr> co_tenant = ''t'', co_id = ''c'', co_name = ''n'', co_description = [], co_owner = ''a'', co_qdrant = ''rag_c'',
       co_profile = [], co_model = ''m'', co_size = 1000, co_overlap = 0, co_acl = [], co_audience = [],
       co_metadata = [], co_active = True \<rparr>"

definition demo_version :: object_version where
  "demo_version =
     \<lparr> ov_object = ''o'', ov_observed = 1, ov_artifact = ''art'', ov_sha256 = [], ov_size = 1, ov_mime = [],
       ov_filename = [], ov_upstream = None, ov_provenance = [], ov_restrictions = [] \<rparr>"

definition demo_point :: rag_point where
  "demo_point =
     \<lparr> pt_id = ''p'', pt_document = ''o'', pt_version = (''o'', 1), pt_generation = 1, pt_chunk = ''k'', pt_index = 0,
       pt_content = [104, 105], pt_header = [] \<rparr>"

definition demo_world :: rag_world where
  "demo_world =
     \<lparr> rw_db =
         \<lparr> rd_source = empty_source_db\<lparr>
              sd_objects := [(upload_object demo_principal demo_collection ''upload'' ''s'' ''o'')\<lparr> ob_observed := 1 \<rparr>],
              sd_versions := [(''t'', demo_version)] \<rparr>,
           rd_collections = [demo_collection],
           rd_items = [\<lparr> it_tenant = ''t'', it_collection = ''c'', it_object = ''o'', it_added_by = ''a'' \<rparr>],
           rd_gens = [\<lparr> gn_tenant = ''t'', gn_collection = ''c'', gn_version = (''o'', 1), gn_number = 1, gn_state = Published \<rparr>],
           rd_chunks = [], rd_profiles = [], rd_parsed = [] \<rparr>,
       rw_points = [(''rag_c'', demo_point)], rw_jobs = empty_jobs_db \<rparr>"

definition demo_search :: search_env where
  "demo_search =
     \<lparr> sv_execute = (\<lambda>oids i q. Answer [\<lparr> ei_index = 0, ei_embedding = [1] \<rparr>]),
       sv_index = (\<lambda>name q vec f lim'. Some (if name = ''rag_c'' \<and> f demo_point then [(demo_point, 1)] else [])),
       sv_now = 0, sv_choice = (\<lambda>_. 0) \<rparr>"

lemma demo_honest: "index_honest demo_search demo_world"
  by (auto simp: index_honest_def demo_search_def demo_world_def)

definition demo_query :: search_input where
  "demo_query = \<lparr> sq_collection = ''c'', sq_query = [104], sq_limit = 3, sq_filter = None \<rparr>"

lemma demo_result:
  "Search demo_search demo_world demo_principal demo_query = (demo_world, Inr [section_of (demo_point, 1)])"
proof -
  have c: "GetCollection demo_world demo_principal (trim_space (sq_collection demo_query)) = (demo_world, Inr demo_collection)"
    unfolding GetCollection_Inr by (intro conjI; (rule refl | code_simp))
  have q: "trim_runes (sq_query demo_query) = [104]" by code_simp
  have s: "search_scope demo_world demo_principal 0 (\<lambda>_. 0) demo_collection = [((''o'', 1), ''o'')]" by code_simp
  have e: "snd (createEmbeddings (\<lambda>i q. Answer [\<lparr> ei_index = 0, ei_embedding = [1 :: rat] \<rparr>]) [[104]]) = Inr [[1]]"
    by code_simp
  have m: "mergeSearchSections [(demo_point, 1)] 3 = [section_of (demo_point, 1)]" by code_simp
  have v: "pt_version demo_point = (''o'', 1)" by (simp add: demo_point_def)
  show ?thesis
    using c q s e m v by (simp add: Search_def Let_def demo_search_def demo_query_def demo_collection_def)
qed

theorem search_confined_witness:
  "Search demo_search demo_world demo_principal demo_query = (demo_world, Inr [section_of (demo_point, 1)]) \<and>
   (\<exists>c hits. GetCollection demo_world demo_principal (trim_space (sq_collection demo_query)) = (demo_world, Inr c) \<and>
      list_all (run_of hits) [section_of (demo_point, 1)] \<and>
      list_all (\<lambda>h. (co_qdrant c, fst h) \<in> set (rw_points demo_world) \<and>
        readable_version demo_world demo_principal 0 (\<lambda>_. 0) c (pt_version (fst h))) hits)"
  using search_confined[OF demo_honest demo_result] demo_result by (simp add: demo_search_def)

end
