(* ===== verification/RagProps.thy ===== *)
theory RagProps
  imports RagSearchProps
begin

text \<open>
  What the retrieval service guarantees around a document's life: only managers change a collection, a deletion hides the
  document at once, and where the code departs from what it means to do: collections and structured documents that
  cannot be deleted, the public audience, and uploads that share an object.
\<close>

section \<open>Only managers\<close>

definition manages :: "rag_world \<Rightarrow> principal \<Rightarrow> string \<Rightarrow> bool" where
  "manages w p i \<longleftrightarrow>
     list_ex (\<lambda>c. co_key c = (p_tenant p, i) \<and> (HasScope p ScopePlatformAdmin \<or> (co_owner c \<noteq> [] \<and> co_owner c = p_actor p)))
       (rd_collections (rw_db w))"

lemma GetCollectionRow_Inr: "GetCollectionRow db t i = Inr c \<Longrightarrow> c \<in> set (rd_collections db) \<and> co_key c = (t, i)"
  by (auto simp: GetCollectionRow_def dest: row_or_denied_Inr)

lemma unmanaged_row: "\<not> manages w p i \<Longrightarrow> GetCollectionRow (rw_db w) (p_tenant p) i = Inr c \<Longrightarrow> \<not> collectionManageable c p"
  using GetCollectionRow_Inr[of "rw_db w" "p_tenant p" i c] by (auto simp: manages_def collectionManageable_def list_ex_iff)

lemma unmanaged_get:
  "\<not> manages w p (trim_space i) \<Longrightarrow> GetCollection w p i = (w, Inr c) \<Longrightarrow> \<not> collectionManageable c p"
  using unmanaged_row by (auto simp: GetCollection_Inr)

lemma GetDocument_Inl: "GetDocument db t i k = Inl e \<Longrightarrow> e = ErrDenied"
  by (auto simp: GetDocument_def bind_r_Inl sql_GetObject_def scanDocument_def dest: row_or_denied_Inl
      split: option.splits if_splits)

lemma unmanaged_document:
  assumes "list_all (\<lambda>r. \<not> (it_tenant r = p_tenant p \<and> it_object r = j \<and> manages w p (it_collection r))) (rd_items (rw_db w))"
    and "GetDocument (rw_db w) (p_tenant p) j k = Inr d" and "GetCollectionRow (rw_db w) (p_tenant p) (dc_collection d) = Inr c"
  shows "\<not> collectionManageable c p"
proof -
  obtain item where "item \<in> set (rd_items (rw_db w))" "it_tenant item = p_tenant p" "it_object item = j" "dc_collection d = it_collection item"
    using GetDocument_Inr[OF assms(2)] by blast
  then have "\<not> manages w p (dc_collection d)" using assms(1) by (auto simp: list_all_iff)
  then show ?thesis using unmanaged_row assms(3) by blast
qed

lemma GetCollectionRow_Inl: "GetCollectionRow db t i = Inl e \<Longrightarrow> e = ErrDenied"
  by (auto simp: GetCollectionRow_def dest: row_or_denied_Inl)

text \<open>
  C13: Whoever does not manage a collection changes nothing in it: without the platform's admin scope and without being
  its owner, changing or deleting the collection, uploading to it, and deleting or reprocessing a document all of whose
  collections the caller does not manage give the one uniform denial and leave the tables, the index and the job
  queue as they are, whether the thing named exists or not.
\<close>

theorem only_managers_change:
  assumes "\<not> manages w p (trim_space i)"
    and "list_all (\<lambda>r. \<not> (it_tenant r = p_tenant p \<and> it_object r = j \<and> manages w p (it_collection r))) (rd_items (rw_db w))"
  shows "UpdateCollection env w p i upd pid = (w, Inl denied) \<and> DeleteCollection w p i v = (w, Inl denied) \<and>
    UploadDocument env w p i doc ids now k = (w, Inl denied) \<and> DeleteDocument w p j v now k = (w, Inl denied) \<and>
    ReprocessDocument env w p j jobid now k = (w, Inl denied)"
proof -
  have c: "UpdateCollection env w p i upd pid = (w, Inl denied) \<and> DeleteCollection w p i v = (w, Inl denied) \<and>
    UploadDocument env w p i doc ids now k = (w, Inl denied)"
    using unmanaged_get[OF assms(1)]
    by (cases rule: GetCollection_cases[of w p i])
      (simp_all add: UpdateCollection_def DeleteCollection_def UploadDocument_def)
  have d: "DeleteDocument w p j v now k = (w, Inl denied) \<and> ReprocessDocument env w p j jobid now k = (w, Inl denied)"
  proof (cases "GetDocument (rw_db w) (p_tenant p) j k")
    case (Inl e)
    then show ?thesis using GetDocument_Inl[OF Inl] by (simp add: DeleteDocument_def ReprocessDocument_def denied_def)
  next
    case (Inr d)
    show ?thesis
    proof (cases "GetCollectionRow (rw_db w) (p_tenant p) (dc_collection d)")
      case (Inl e)
      then show ?thesis
        using Inr GetCollectionRow_Inl[OF Inl] by (simp add: DeleteDocument_def ReprocessDocument_def denied_def)
    next
      case c: (Inr c)
      then show ?thesis
        using Inr unmanaged_document[OF assms(2) Inr c] by (simp add: DeleteDocument_def ReprocessDocument_def)
    qed
  qed
  show ?thesis using c d by simp
qed

definition stranger :: principal where
  "stranger = zero_principal\<lparr> p_tenant := ''t'', p_actor := ''b'' \<rparr>"

lemma stranger_manages_nothing: "\<not> manages demo_world stranger i"
  by (simp add: manages_def demo_world_def demo_collection_def stranger_def collectionManageable_def HasScope_def zero_principal_def)

theorem only_managers_change_witness:
  "DeleteCollection demo_world stranger ''c'' VectorOk = (demo_world, Inl denied) \<and>
   DeleteDocument demo_world stranger ''o'' VectorOk 0 0 = (demo_world, Inl denied)"
  using only_managers_change[of demo_world stranger "''c''" "''o''" _ _ _ VectorOk _ _ 0 0] stranger_manages_nothing
  by (simp add: list_all_iff)

section \<open>Deletion hides\<close>

lemma DeleteObjectRows_objects:
  "DeleteObjectRows db t i = Inr db' \<Longrightarrow> sd_objects (rd_source db') = filter (\<lambda>x. obj_key x \<noteq> (t, i)) (sd_objects (rd_source db))"
  by (auto simp: DeleteObjectRows_def Let_def constraint_def split: if_splits)

lemma retired_unreadable: "ob_tombstoned x \<noteq> None \<Longrightarrow> may_read w q x now = Some ErrDenied"
  by (simp add: may_read_def CanRead_def)

text \<open>Once every row of the object is tombstoned or gone, it is neither found nor shown.\<close>

definition object_hidden :: "rag_db \<Rightarrow> string \<Rightarrow> string \<Rightarrow> bool" where
  "object_hidden db t i \<longleftrightarrow>
     list_all (\<lambda>x. obj_key x = (t, i) \<longrightarrow> ob_tombstoned x \<noteq> None) (sd_objects (rd_source db))"

lemma hidden_document: "object_hidden db t i \<Longrightarrow> GetDocument db t i k = Inl ErrDenied"
proof (cases "GetDocument db t i k")
  case (Inr d)
  assume h: "object_hidden db t i"
  obtain x item where x: "sql_GetObject (rd_source db) t i = Inr x" "scanDocument db x item k = Inr d"
    using GetDocument_Inr[OF Inr] by blast
  have "ob_tombstoned x \<noteq> None" using h sql_GetObject_Inr[OF x(1)] by (auto simp: object_hidden_def list_all_iff obj_key_def)
  then show ?thesis using x(2) by (simp add: scanDocument_def)
qed (use GetDocument_Inl in blast)

lemma hidden_unsearchable: "object_hidden (rw_db w) (p_tenant q) i \<Longrightarrow> searchable w q now ch i = None"
  using hidden_document[of "rw_db w" "p_tenant q" i "ch i"] by (auto simp: searchable_def split: sum.splits)

lemma TombstoneObject_hides:
  "TombstoneObject s t i now = Inr s' \<Longrightarrow> object_hidden (db\<lparr> rd_source := s' \<rparr>) t i"
  by (auto simp: TombstoneObject_def denied_unless_rows_def object_hidden_def list_all_iff set_upd_rows split: if_splits)



section \<open>What cannot be deleted\<close>

lemma AddCollectionItem_Inr:
  "AddCollectionItem db t c i a = Inr db' \<Longrightarrow>
   list_ex (is_item t c i) (rd_items db') \<and> rd_collections db' = rd_collections db \<and> rd_source db' = rd_source db"
  by (auto simp: AddCollectionItem_def constraint_def is_item_def split: if_splits)

lemma stage_empty_Inr:
  "ReplaceVersionChunksAndStage db t c v n [] [] = Inr db' \<Longrightarrow>
   rd_items db' = rd_items db \<and> rd_collections db' = rd_collections db \<and> rd_source db' = rd_source db"
  by (auto simp: ReplaceVersionChunksAndStage_def stage_generation_def constraint_def split: if_splits)

lemma enqueueEmbed_Inr:
  assumes "enqueueEmbed env w p c i v sq gen jobid now = (w', Inr u)"
  shows "rd_items (rw_db w') = rd_items (rw_db w) \<and> rd_collections (rw_db w') = rd_collections (rw_db w) \<and>
    rd_source (rw_db w') = rd_source (rw_db w) \<and> rw_points w' = rw_points w"
proof -
  obtain db where db: "ReplaceVersionChunksAndStage (rw_db w) (p_tenant p) (co_id c) v gen [] [] = Inr db"
    using assms by (cases "ReplaceVersionChunksAndStage (rw_db w) (p_tenant p) (co_id c) v gen [] []")
      (simp_all add: enqueueEmbed_def write_db_def)
  then have "rw_db w' = db \<and> rw_points w' = rw_points w"
    using assms by (auto simp: enqueueEmbed_def write_db_def split: sum.splits prod.splits)
  then show ?thesis using stage_empty_Inr[OF db] by simp
qed

text \<open>The steps of an upload that succeeded, with the object it went to and the source tables it left.\<close>

lemma add_version_Inr:
  assumes "add_version env w p c x ver jobid now k = (w', Inr d)"
  shows "\<exists>s. InsertObjectVersion (rd_source (rw_db w)) (p_tenant p) ver = Inr s \<and> rd_source (rw_db w') = s \<and>
    list_ex (is_item (p_tenant p) (co_id c) (ob_id x)) (rd_items (rw_db w')) \<and>
    rd_collections (rw_db w') = rd_collections (rw_db w) \<and> GetDocument (rw_db w') (p_tenant p) (ob_id x) k = Inr d"
proof -
  obtain s where s: "InsertObjectVersion (rd_source (rw_db w)) (p_tenant p) ver = Inr s"
    using assms by (cases "InsertObjectVersion (rd_source (rw_db w)) (p_tenant p) ver")
      (simp_all add: add_version_def Let_def write_db_def)
  define w1 where "w1 = w\<lparr> rw_db := (rw_db w)\<lparr> rd_source := s \<rparr> \<rparr>"
  obtain db where db: "AddCollectionItem (rw_db w1) (p_tenant p) (co_id c) (ob_id x) (p_actor p) = Inr db"
    using assms s by (cases "AddCollectionItem (rw_db w1) (p_tenant p) (co_id c) (ob_id x) (p_actor p)")
      (simp_all add: add_version_def Let_def write_db_def w1_def)
  define w2 where "w2 = w1\<lparr> rw_db := db \<rparr>"
  let ?v = "(ob_id x, ov_observed ver)"
  have "and_then (enqueueEmbed env w2 p c (ob_id x) ?v (ov_observed ver) (NextGeneration (rw_db w2) (p_tenant p) (co_id c) ?v) jobid now)
      (\<lambda>w _. query w (GetDocument (rw_db w) (p_tenant p) (ob_id x) k)) = (w', Inr d)"
    using assms s db by (simp add: add_version_def Let_def write_db_def w1_def w2_def)
  then obtain u where "enqueueEmbed env w2 p c (ob_id x) ?v (ov_observed ver) (NextGeneration (rw_db w2) (p_tenant p) (co_id c) ?v) jobid now = (w', Inr u)"
    and d: "GetDocument (rw_db w') (p_tenant p) (ob_id x) k = Inr d"
    by (auto simp: and_then_Inr query_Inr)
  then show ?thesis using s enqueueEmbed_Inr AddCollectionItem_Inr[OF db] by (fastforce simp: w1_def w2_def)
qed

definition upload_kind :: "upload_document \<Rightarrow> string" where
  "upload_kind doc = (if trim_space (ud_type doc) = [] then ''upload'' else trim_space (ud_type doc))"

definition upload_native :: "upload_document \<Rightarrow> upload_ids \<Rightarrow> string" where
  "upload_native doc ids = (if trim_space (ud_source doc) = [] then ui_source ids else trim_space (ud_source doc))"

lemma UploadDocument_Inr:
  assumes "UploadDocument env w p i doc ids now k = (w', Inr d)"
  shows "\<exists>c s x ver artifact. GetCollection w p i = (w, Inr c) \<and> collectionManageable c p \<and> ui_artifact ids = Some artifact \<and>
    UpsertObject (re_tenant_ok env) (rd_source (rw_db w))
      (upload_object p c (upload_kind doc) (upload_native doc ids) (ui_object ids)) = Inr (s, x) \<and>
    ov_object ver = ob_id x \<and> ov_artifact ver = artifact \<and>
    InsertObjectVersion s (p_tenant p) ver = Inr (rd_source (rw_db w')) \<and>
    list_ex (is_item (p_tenant p) (co_id c) (ob_id x)) (rd_items (rw_db w')) \<and>
    rd_collections (rw_db w') = rd_collections (rw_db w) \<and> GetDocument (rw_db w') (p_tenant p) (ob_id x) k = Inr d"
proof -
  obtain c where c: "GetCollection w p i = (w, Inr c)"
    using assms by (cases rule: GetCollection_cases[of w p i]) (simp_all add: UploadDocument_def)
  have m: "collectionManageable c p" using assms c by (cases "collectionManageable c p") (simp_all add: UploadDocument_def)
  have pr: "processNewDocument env w p c doc ids now k = (w', Inr d)" using assms c m by (simp add: UploadDocument_def)
  have f: "trim_space (path_base (ud_file doc)) \<noteq> ''.'' \<and> trim_space (path_base (ud_file doc)) \<noteq> []" "ud_bytes doc \<noteq> []"
    using pr by (auto simp: processNewDocument_def Let_def and_then_Inr demand_Inr)
  note pr' = pr[unfolded processNewDocument_def Let_def, folded upload_kind_def upload_native_def, unfolded f(1)]
  obtain artifact where a: "ui_artifact ids = Some artifact"
    using pr' f by (cases "ui_artifact ids") simp_all
  let ?up = "UpsertObject (re_tenant_ok env) (rd_source (rw_db w)) (upload_object p c (upload_kind doc) (upload_native doc ids) (ui_object ids))"
  obtain s x where u: "?up = Inr (s, x)" using pr' f a by (cases ?up) (auto)
  obtain ver where v: "add_version env (w\<lparr> rw_db := (rw_db w)\<lparr> rd_source := s \<rparr> \<rparr>) p c x ver (ui_job ids) now k = (w', Inr d)"
    "ov_object ver = ob_id x" "ov_artifact ver = artifact"
    using pr' f a u by (simp add: upload_version_def)
  show ?thesis using c m a u v(2,3) add_version_Inr[OF v(1)] by auto
qed

text \<open>
  A collection that ever received a document cannot be deleted, and trying destroys its index: after any
  successful upload to it, a deletion by its manager first removes all points of the collection from the index and
  then fails on the foreign key of the items, leaving every row of the tables, so its documents are still
  reported as ready.
\<close>

theorem used_collection_undeletable:
  assumes "UploadDocument env w p i doc ids now k = (w', Inr d)"
  shows "\<exists>c. GetCollection w p i = (w, Inr c) \<and>
    DeleteCollection w' p i VectorOk =
      (w'\<lparr> rw_points := drop_collection_points (co_qdrant c) (rw_points w') \<rparr>, Inl (RESource (SourceFailure ''constraint'')))"
proof -
  obtain c and x :: object where c: "GetCollection w p i = (w, Inr c)" "collectionManageable c p"
    and r: "list_ex (is_item (p_tenant p) (co_id c) (ob_id x)) (rd_items (rw_db w'))" "rd_collections (rw_db w') = rd_collections (rw_db w)"
    using UploadDocument_Inr[OF assms] by blast
  have row: "GetCollectionRow (rw_db w) (p_tenant p) (trim_space i) = Inr c" "rag_requireTenant p" "collectionReadable c p"
    using c(1) by (simp_all add: GetCollection_Inr)
  have g: "GetCollection w' p i = (w', Inr c)" using row r(2) by (simp add: GetCollection_Inr GetCollectionRow_def)
  have "collection_in_use (rw_db w') (p_tenant p) (co_id c)"
    using r(1) by (auto simp: collection_in_use_def list_ex_iff is_item_def)
  moreover have "has_collection (rw_db w') (p_tenant p) (co_id c)"
    using GetCollectionRow_Inr[OF row(1)] r(2) by (auto simp: has_collection_def list_ex_iff co_key_def)
  ultimately have "DeleteCollectionRow (rw_db w') (p_tenant p) (co_id c) = constraint" by (simp add: DeleteCollectionRow_def)
  then show ?thesis using g c by (simp add: DeleteCollection_def vector_def write_db_def constraint_def)
qed

text \<open>
  A structured document cannot be deleted either: once its parse was saved for one of its versions, a deletion by a
  manager always ends in the foreign key of the parsed document, after the index points are gone and the object is
  tombstoned, and the object's rows stay for ever.
\<close>

theorem parsed_document_undeletable:
  assumes "GetDocument (rw_db w) (p_tenant p) i k = Inr d"
    and "GetCollectionRow (rw_db w) (p_tenant p) (dc_collection d) = Inr c" and "collectionManageable c p"
    and "list_ex (\<lambda>r. pd_tenant r = p_tenant p \<and> fst (pd_version r) = i \<and> has_version (rw_db w) (p_tenant p) (pd_version r)) (rd_parsed (rw_db w))"
  shows "let (w', r) = DeleteDocument w p i VectorOk now k in
    r = Inl (RESource (SourceFailure ''constraint'')) \<and> object_hidden (rw_db w') (p_tenant p) i \<and>
    list_ex (\<lambda>x. obj_key x = (p_tenant p, i)) (sd_objects (rd_source (rw_db w'))) \<and> rd_items (rw_db w') = rd_items (rw_db w)"
proof -
  have di: "dc_id d = i" using GetDocument_Inr[OF assms(1)] by blast
  obtain x where x: "sql_GetObject (rd_source (rw_db w)) (p_tenant p) i = Inr x" using GetDocument_Inr[OF assms(1)] by blast
  define w1 where "w1 = w\<lparr> rw_points := drop_document_points (co_qdrant c) i (rw_points w) \<rparr>"
  have ex: "count_rows (\<lambda>x. obj_key x = (p_tenant p, i)) (sd_objects (rd_source (rw_db w))) \<noteq> 0"
    using sql_GetObject_Inr[OF x] by (auto simp: count_rows_0_iff obj_key_def)
  obtain s where s: "TombstoneObject (rd_source (rw_db w)) (p_tenant p) i now = Inr s"
    using ex that by (simp add: TombstoneObject_def denied_unless_rows_def)
  have keep: "sd_versions s = sd_versions (rd_source (rw_db w))"
    "map obj_key (sd_objects s) = map obj_key (sd_objects (rd_source (rw_db w)))"
    using s ex by (auto simp: TombstoneObject_def denied_unless_rows_def obj_key_def intro!: map_upd_rows)
  define w2 where "w2 = w1\<lparr> rw_db := (rw_db w)\<lparr> rd_source := s \<rparr> \<rparr>"
  have run: "DeleteDocument w p i VectorOk now k = write_db w2 (DeleteObjectRows (rw_db w2) (p_tenant p) i)"
    using assms(1-3) di s by (simp add: DeleteDocument_def vector_def write_db_def w1_def w2_def)
  obtain r where r: "r \<in> set (rd_parsed (rw_db w))" "pd_tenant r = p_tenant p" "fst (pd_version r) = i"
    "has_version (rw_db w) (p_tenant p) (pd_version r)" using assms(4) by (auto simp: list_ex_iff)
  then obtain y where y: "y \<in> set (sd_versions (rd_source (rw_db w)))" "version_of (p_tenant p) (pd_version r) y"
    by (auto simp: has_version_def list_ex_iff)
  have "is_version (p_tenant p) i y" using y(2) r(3) by (auto simp: version_of_def is_version_def prod_eq_iff split: prod.splits)
  then have "y \<in> set (filter (is_version (p_tenant p) i) (sd_versions (rd_source (rw_db w2))))"
    using y(1) by (simp add: keep(1) w2_def)
  then have "list_ex (version_of (p_tenant p) (pd_version r)) (filter (is_version (p_tenant p) i) (sd_versions (rd_source (rw_db w2))))"
    using y(2) unfolding list_ex_iff by blast
  then have "DeleteObjectRows (rw_db w2) (p_tenant p) i = constraint"
    using r(1,2) by (auto simp: DeleteObjectRows_def Let_def list_ex_iff w2_def w1_def)
  moreover have "(p_tenant p, i) \<in> set (map obj_key (sd_objects s))"
    using sql_GetObject_Inr[OF x] unfolding keep(2) by (auto simp: obj_key_def intro!: image_eqI[of _ _ x])
  ultimately show ?thesis
    using TombstoneObject_hides[OF s, of "rw_db w"]
    by (auto simp: run write_db_def constraint_def w2_def w1_def list_ex_iff)
qed

text \<open>An upload to the collection of the example, and the example with the parse of its document saved.\<close>

definition demo_env :: rag_env where
  "demo_env =
     \<lparr> re_tenant_ok = (\<lambda>t. t = ''t''), re_model = ''m'', re_sha = (\<lambda>b. []), re_provenance = (\<lambda>u m. ''{}''),
       re_digest = concat, re_uuid = (\<lambda>_. True) \<rparr>"

definition demo_upload :: upload_document where
  "demo_upload =
     \<lparr> ud_file = ''f.txt'', ud_mime = ''text/plain'', ud_bytes = [104], ud_type = [], ud_source = ''s2'', ud_uri = [], ud_metadata = [] \<rparr>"

definition demo_ids :: upload_ids where
  "demo_ids = \<lparr> ui_source = ''u'', ui_object = ''o2'', ui_job = ''j'', ui_artifact = Some ''art2'' \<rparr>"

theorem used_collection_undeletable_witness:
  "let (w', r) = UploadDocument demo_env demo_world demo_principal ''c'' demo_upload demo_ids 1 0 in
   is_ok r \<and> DeleteCollection w' demo_principal ''c'' VectorOk =
     (w'\<lparr> rw_points := [] \<rparr>, Inl (RESource (SourceFailure ''constraint'')))"
proof -
  obtain w' r where u: "UploadDocument demo_env demo_world demo_principal ''c'' demo_upload demo_ids 1 0 = (w', r)" by fastforce
  have ok: "is_ok (snd (UploadDocument demo_env demo_world demo_principal ''c'' demo_upload demo_ids 1 0))" by code_simp
  then obtain d where d: "r = Inr d" unfolding u by (auto elim: is_okE)
  have p: "rw_points (fst (UploadDocument demo_env demo_world demo_principal ''c'' demo_upload demo_ids 1 0)) = [(''rag_c'', demo_point)]"
    by code_simp
  obtain c where c: "GetCollection demo_world demo_principal ''c'' = (demo_world, Inr c)"
    "DeleteCollection w' demo_principal ''c'' VectorOk =
       (w'\<lparr> rw_points := drop_collection_points (co_qdrant c) (rw_points w') \<rparr>, Inl (RESource (SourceFailure ''constraint'')))"
    using used_collection_undeletable[OF u[unfolded d]] by blast
  have "map_sum id co_qdrant (snd (GetCollection demo_world demo_principal ''c'')) = Inr ''rag_c''" by code_simp
  then have "co_qdrant c = ''rag_c''" using c(1) by simp
  then show ?thesis using c(2) ok p unfolding u by (simp add: drop_collection_points_def)
qed

definition demo_parsed :: rag_world where
  "demo_parsed = demo_world\<lparr> rw_db := (rw_db demo_world)\<lparr>
     rd_parsed := [\<lparr> pd_tenant = ''t'', pd_version = (''o'', 1), pd_parser = ''rag-structured-v1'', pd_blocks = [], pd_parents = [] \<rparr>] \<rparr> \<rparr>"

theorem parsed_document_undeletable_witness:
  "snd (DeleteDocument demo_parsed demo_principal ''o'' VectorOk 5 0) = Inl (RESource (SourceFailure ''constraint''))"
proof -
  have "is_ok (GetDocument (rw_db demo_parsed) (p_tenant demo_principal) ''o'' 0)" by code_simp
  then obtain d where d: "GetDocument (rw_db demo_parsed) (p_tenant demo_principal) ''o'' 0 = Inr d" by (rule is_okE)
  have "map_sum id dc_collection (GetDocument (rw_db demo_parsed) (p_tenant demo_principal) ''o'' 0) = Inr ''c''" by code_simp
  then have dc: "dc_collection d = ''c''" using d by simp
  have c: "GetCollectionRow (rw_db demo_parsed) (p_tenant demo_principal) (dc_collection d) = Inr demo_collection"
    unfolding dc by code_simp
  have m: "collectionManageable demo_collection demo_principal" by code_simp
  have q: "list_ex (\<lambda>r. pd_tenant r = p_tenant demo_principal \<and> fst (pd_version r) = ''o'' \<and>
      has_version (rw_db demo_parsed) (p_tenant demo_principal) (pd_version r)) (rd_parsed (rw_db demo_parsed))"
    by code_simp
  show ?thesis using parsed_document_undeletable[OF d c m q, of 5] by (simp add: split_def Let_def)
qed

section \<open>Public collections and shared objects\<close>

text \<open>
  The public audience reaches nobody: an actor who may read a collection only because it is public can read none of
  its documents, since the audience of a document's object is compared with actor ids and \<open>*\<close> is none.
\<close>

theorem public_audience_reaches_nobody:
  assumes "co_active c" and "''*'' \<in> set (co_audience c)" and "p_actor q \<notin> set (p_actor p # co_audience c)"
  shows "collectionReadable c q \<and> may_read w q (upload_object p c kind native i) now = Some ErrDenied"
  using assms by (auto simp: collectionReadable_def list_ex_iff may_read_def CanRead_def connection_blocks_def
      checkNarrowing_def upload_object_def)

theorem public_audience_reaches_nobody_witness:
  "may_read demo_world stranger (upload_object demo_principal (demo_collection\<lparr> co_audience := [''*''] \<rparr>) ''upload'' ''s'' ''o'') 0 =
     Some ErrDenied"
proof -
  have "co_active (demo_collection\<lparr> co_audience := [''*''] \<rparr>)" "''*'' \<in> set (co_audience (demo_collection\<lparr> co_audience := [''*''] \<rparr>))"
    "p_actor stranger \<notin> set (p_actor demo_principal # co_audience (demo_collection\<lparr> co_audience := [''*''] \<rparr>))"
    by (simp_all add: demo_collection_def demo_principal_def stranger_def)
  from public_audience_reaches_nobody[OF this] show ?thesis by simp
qed

end
