(* ===== verification/RagIngest.thy ===== *)
theory RagIngest
  imports RagProps
begin

text \<open>
  The embedding job of internal/rag/service.go: an attempt reads the document's bytes, parses and chunks them, has the chunks
  embedded, replaces the chunk rows, writes the points and publishes its generation. The artifact's bytes, text
  extraction, the HTML tokenizer, the executor's answers, the outcome of the calls to the vector store and whether the
  job's dispatch mark was taken are arguments.
\<close>

section \<open>Blocks and their parents\<close>

record ingest_env =
  ie_bytes :: "string \<Rightarrow> bytes option"
  ie_extract :: "string \<Rightarrow> string \<Rightarrow> bytes \<Rightarrow> bytes option"
  ie_tokens :: "bytes \<Rightarrow> bool \<times> (html_token \<times> nat) list"
  ie_execute :: "version_id \<Rightarrow> nat \<Rightarrow> embed_request \<Rightarrow> rat exec_answer"
  ie_dispatched :: bool
  ie_chunk_id :: "nat \<Rightarrow> string"
  ie_point_id :: "nat \<Rightarrow> string"
  ie_profile_id :: string
  ie_ensure :: vector_call
  ie_upsert :: vector_call

definition document_blocks :: "ingest_env \<Rightarrow> string \<Rightarrow> bytes \<Rightarrow> bytes \<Rightarrow> parsedBlock list" where
  "document_blocks ie format blob body =
     (let blocks = (if format = ''markdown'' then parseMarkdownBlocks blob
                    else if format = ''html'' then (let (eof, ts) = ie_tokens ie blob in parseHTMLBlocks eof ts)
                    else [])
      in if blocks = []
         then [\<lparr> pb_kind = Paragraph, pb_text = body, pb_level = 0, pb_language = [], pb_start = 0, pb_end = int (length body) \<rparr>]
         else blocks)"

text \<open>
  The parent of each block, by its number: \<open>slots\<close> holds the open heading of each of the six levels. None is the
  error for a heading level out of range.
\<close>

definition innermost :: "nat option list \<Rightarrow> nat option" where
  "innermost slots = (case filter (\<lambda>s. s \<noteq> None) (rev slots) of [] \<Rightarrow> None | s # _ \<Rightarrow> s)"

fun block_parents :: "nat option list \<Rightarrow> nat \<Rightarrow> parsedBlock list \<Rightarrow> nat option list option" where
  "block_parents slots i [] = Some []"
| "block_parents slots i (b # bs) =
     (if pb_kind b = Heading then
        (if pb_level b < 1 \<or> 6 < pb_level b then None
         else map_option (Cons (if 1 < pb_level b then slots ! (pb_level b - 2) else None))
           (block_parents (take (pb_level b - 1) slots @ [Some i] @ replicate (6 - pb_level b) None) (Suc i) bs))
      else map_option (Cons (innermost slots)) (block_parents slots (Suc i) bs))"

section \<open>The attempt\<close>

text \<open>The chunks of a document with their heading paths.\<close>

definition document_chunks :: "rag_collection \<Rightarrow> string \<Rightarrow> parsedBlock list \<Rightarrow> bytes \<Rightarrow> (rune list \<times> rune list) list" where
  "document_chunks c format blocks body =
     (if format \<noteq> []
      then map (\<lambda>k. (decode_runes (sc_text k), decode_runes (sc_header k))) (chunkStructured blocks (co_size c) (co_overlap c))
      else map (\<lambda>t. (t, [])) (ChunkText (decode_runes body) (co_size c) (co_overlap c)))"

definition chunk_rows :: "ingest_env \<Rightarrow> string \<Rightarrow> version_id \<Rightarrow> string \<Rightarrow> (rune list \<times> rune list) list \<Rightarrow> chunk_row list" where
  "chunk_rows ie t v profile chunks =
     map (\<lambda>(n, k). \<lparr> kr_tenant = t, kr_id = ie_chunk_id ie n, kr_version = v, kr_profile = profile, kr_ordinal = n,
                      kr_text = fst k \<rparr>) (enumerate 0 chunks)"

definition chunk_points :: "ingest_env \<Rightarrow> string \<Rightarrow> version_id \<Rightarrow> int \<Rightarrow> (rune list \<times> rune list) list \<Rightarrow> rag_point list" where
  "chunk_points ie oid v gen chunks =
     map (\<lambda>(n, k). \<lparr> pt_id = ie_point_id ie n, pt_document = oid, pt_version = v, pt_generation = gen,
                      pt_chunk = ie_chunk_id ie n, pt_index = int n, pt_content = fst k, pt_header = snd k \<rparr>)
       (enumerate 0 chunks)"

definition upsert_points :: "string \<Rightarrow> rag_point list \<Rightarrow> (string \<times> rag_point) list \<Rightarrow> (string \<times> rag_point) list" where
  "upsert_points q pts stored =
     filter (\<lambda>x. \<not> (fst x = q \<and> pt_id (snd x) \<in> set (map pt_id pts))) stored @ map (Pair q) pts"

text \<open>From the chunks on: embed, bind the profile, stage the rows, write the points, publish.\<close>

definition index_chunks ::
  "rag_env \<Rightarrow> ingest_env \<Rightarrow> rag_world \<Rightarrow> string \<Rightarrow> rag_collection \<Rightarrow> version_id \<Rightarrow> int \<Rightarrow> string \<Rightarrow>
   (rune list \<times> rune list) list \<Rightarrow> version_id outcome" where
  "index_chunks env ie w t c v gen format chunks =
     (case snd (createEmbeddings (ie_execute ie v) (map fst chunks)) of
        Inl e \<Rightarrow> (w, Inl (REEmbed e))
      | Inr vectors \<Rightarrow>
          if vectors = [] \<or> hd vectors = [] then (w, Inl (REInvalid ''provider returned empty embedding''))
          else
            (let family = ''rag-'' @ co_id c @ (if format \<noteq> [] then ''-'' @ format else []) in
             case EnsureChunkProfile (re_tenant_ok env) (rw_db w) t family (co_size c) (co_overlap c) (ie_profile_id ie) of
               Inl e \<Rightarrow> (w, Inl (RESource e))
             | Inr (db, profile) \<Rightarrow>
                 and_then (write_db w (Inr db)) (\<lambda>w _.
                 and_then (write_db w (ReplaceVersionChunksAndStage (rw_db w) t (co_id c) v gen profile (chunk_rows ie t v profile chunks))) (\<lambda>w _.
                 and_then (vector w (ie_ensure ie) id) (\<lambda>w _.
                 and_then (vector w (ie_upsert ie) (upsert_points (co_qdrant c) (chunk_points ie (fst v) v gen chunks))) (\<lambda>w _.
                 and_then (write_db w (MarkGenerationState (rw_db w) t (co_id c) v gen Published)) (\<lambda>w _.
                 (w, Inr v))))))))"

text \<open>What an attempt was submitted for, and the principal frozen with it.\<close>

record embed_attempt =
  ea_principal :: principal
  ea_tenant :: string
  ea_object :: string
  ea_collection :: string
  ea_seq :: int
  ea_generation :: int
  ea_now :: time

definition index_version ::
  "rag_env \<Rightarrow> ingest_env \<Rightarrow> rag_world \<Rightarrow> embed_attempt \<Rightarrow> rag_collection \<Rightarrow> object_version \<Rightarrow> version_id outcome" where
  "index_version env ie w ea c ver =
     (let v = (ov_object ver, ov_observed ver) in
      case ie_bytes ie (ov_artifact ver) of
        None \<Rightarrow> (w, Inl REArtifact)
      | Some blob \<Rightarrow>
          (case ie_extract ie (ov_filename ver) (ov_mime ver) blob of
             None \<Rightarrow> (w, Inl (REInvalid ''extract text''))
           | Some body \<Rightarrow>
               (let format = structuredFormat (ov_filename ver) (ov_mime ver);
                    blocks = document_blocks ie format blob body in
                case block_parents (replicate 6 None) 0 blocks of
                  None \<Rightarrow> (w, Inl (REInvalid ''invalid parsed heading level''))
                | Some parents \<Rightarrow>
                    and_then (if format \<noteq> [] then write_db w (SaveParsedDocument (rw_db w) (ea_tenant ea) v ''rag-structured-v1'' blocks parents)
                              else (w, Inr ())) (\<lambda>w _.
                    let chunks = document_chunks c format blocks body in
                    and_then (demand w (chunks \<noteq> []) (REInvalid ''document has no extractable text'')) (\<lambda>w _.
                    and_then (demand w (ie_dispatched ie) (REJobs ErrStaleFence)) (\<lambda>w _.
                    index_chunks env ie w (ea_tenant ea) c v (ea_generation ea) format chunks))))))"

definition attemptEmbed :: "rag_env \<Rightarrow> ingest_env \<Rightarrow> rag_world \<Rightarrow> embed_attempt \<Rightarrow> version_id outcome" where
  "attemptEmbed env ie w ea =
     (let s = rd_source (rw_db w); t = ea_tenant ea in
     and_then (query w (sql_GetObject s t (ea_object ea))) (\<lambda>w x.
     and_then (demand w (ob_deleted x = None \<and> ob_tombstoned x = None) (REInvalid ''object deleted'')) (\<lambda>w _.
     and_then (query w (sql_GetObjectVersion s t (ea_object ea) (ea_seq ea))) (\<lambda>w ver.
     and_then (w, case CanReadVersion (sql_reads s) 0 (ea_now ea) (ea_principal ea) x ver \<lparr> ro_now = None, ro_requested = None \<rparr> of
                    None \<Rightarrow> Inr () | Some e \<Rightarrow> Inl (RESource e)) (\<lambda>w _.
     and_then (query w (sql_LatestObjectVersion s t (ea_object ea))) (\<lambda>w latest.
     and_then (query w (GetCollectionRow (rw_db w) t (ea_collection ea))) (\<lambda>w c.
     if ov_observed latest \<noteq> ea_seq ea
     then (fst (write_db w (MarkGenerationState (rw_db w) t (ea_collection ea) (ov_object ver, ov_observed ver) (ea_generation ea) Superseded)),
           Inr (ov_object ver, ov_observed ver))
     else index_version env ie w ea c ver)))))))"

section \<open>What an attempt leaves\<close>

definition version_chunks :: "rag_db \<Rightarrow> string \<Rightarrow> version_id \<Rightarrow> chunk_row list" where
  "version_chunks db t v = filter (\<lambda>r. kr_tenant r = t \<and> kr_version r = v) (rd_chunks db)"

definition published :: "rag_db \<Rightarrow> (string \<times> string \<times> version_id \<times> int) set" where
  "published db = {(gn_tenant g, gn_collection g, gn_version g, gn_number g) | g. g \<in> set (rd_gens db) \<and> gn_state g = Published}"

lemma insert_chunks_Inr:
  "insert_chunks db rs = Inr db' \<Longrightarrow>
   rd_chunks db' = rd_chunks db @ rs \<and> rd_gens db' = rd_gens db \<and> rd_source db' = rd_source db \<and>
   rd_collections db' = rd_collections db \<and> rd_items db' = rd_items db"
  by (induction db rs rule: insert_chunks.induct) (auto simp: constraint_def split: if_splits)

lemma stage_generation_Inr:
  "stage_generation db t c v n = Inr db' \<Longrightarrow> rd_chunks db' = rd_chunks db \<and> published db' \<subseteq> published db \<and>
   rd_source db' = rd_source db \<and> rd_collections db' = rd_collections db"
  by (auto simp: stage_generation_def constraint_def published_def set_upd_rows split: if_splits)

lemma replace_chunks_Inr:
  assumes "ReplaceVersionChunksAndStage db t c v n profile rows = Inr db'" and "rows \<noteq> []"
    and "list_all (\<lambda>r. kr_tenant r = t \<and> kr_version r = v) rows"
  shows "version_chunks db' t v = rows \<and> published db' \<subseteq> published db"
proof -
  define db0 where "db0 = db\<lparr> rd_chunks := filter (\<lambda>r. \<not> (kr_tenant r = t \<and> kr_version r = v)) (rd_chunks db) \<rparr>"
  obtain db1 where db1: "insert_chunks db0 rows = Inr db1" "stage_generation db1 t c v n = Inr db'"
    using assms(1,2) by (auto simp: ReplaceVersionChunksAndStage_def bind_r_Inr db0_def)
  have "rd_chunks db' = rd_chunks db0 @ rows" using insert_chunks_Inr[OF db1(1)] stage_generation_Inr[OF db1(2)] by simp
  moreover have "filter (\<lambda>r. kr_tenant r = t \<and> kr_version r = v) rows = rows" using assms(3) by (simp add: list_all_iff)
  moreover have "published db1 = published db" using insert_chunks_Inr[OF db1(1)] by (simp add: published_def db0_def)
  ultimately show ?thesis
    using stage_generation_Inr[OF db1(2)] by (auto simp: version_chunks_def db0_def cong: conj_cong)
qed

lemma replace_published:
  assumes "ReplaceVersionChunksAndStage db t c v n profile rows = Inr db'"
  shows "published db' \<subseteq> published db"
proof -
  let ?put = "if profile \<noteq> [] \<or> rows \<noteq> []
    then insert_chunks (db\<lparr> rd_chunks := filter (\<lambda>r. \<not> (kr_tenant r = t \<and> kr_version r = v)) (rd_chunks db) \<rparr>) rows
    else Inr db"
  obtain db1 where db1: "?put = Inr db1" "stage_generation db1 t c v n = Inr db'"
    using assms unfolding ReplaceVersionChunksAndStage_def bind_r_Inr by blast
  have "rd_gens db1 = rd_gens db" using db1(1) by (auto split: if_splits dest: insert_chunks_Inr)
  then show ?thesis using stage_generation_Inr[OF db1(2)] by (simp add: published_def)
qed

lemma chunk_rows_simps:
  "length (chunk_rows ie t v profile chunks) = length chunks"
  "list_all (\<lambda>r. kr_tenant r = t \<and> kr_version r = v) (chunk_rows ie t v profile chunks)"
  "map kr_text (chunk_rows ie t v profile chunks) = map fst chunks"
  "map kr_ordinal (chunk_rows ie t v profile chunks) = [0..<length chunks]"
proof -
  show "map kr_ordinal (chunk_rows ie t v profile chunks) = [0..<length chunks]"
    using map_fst_enumerate[of 0 chunks] by (simp add: chunk_rows_def split_def o_def)
  have "map kr_text (chunk_rows ie t v profile chunks) = map (fst \<circ> snd) (enumerate 0 chunks)"
    by (simp add: chunk_rows_def split_def)
  then show "map kr_text (chunk_rows ie t v profile chunks) = map fst chunks"
    by (simp add: map_snd_enumerate flip: map_map)
qed (auto simp: chunk_rows_def list_all_iff split_def)

lemma EnsureChunkProfile_Inr:
  "EnsureChunkProfile tok db t family sz overlap newid = Inr (db', profile) \<Longrightarrow>
   rd_gens db' = rd_gens db \<and> rd_chunks db' = rd_chunks db \<and> rd_source db' = rd_source db \<and>
   rd_collections db' = rd_collections db \<and> rd_items db' = rd_items db"
  by (auto simp: EnsureChunkProfile_def insert_profile_def constraint_def split: option.splits if_splits)

lemma vector_Inr: "vector w v f = (w', Inr u) \<longleftrightarrow> v = VectorOk \<and> w' = w\<lparr> rw_points := f (rw_points w) \<rparr>"
  by (cases v) (auto simp: vector_def)

lemma MarkGenerationState_Inr:
  "MarkGenerationState db t c v n st = Inr db' \<Longrightarrow>
   rd_chunks db' = rd_chunks db \<and> rd_source db' = rd_source db \<and>
   list_ex (\<lambda>g. is_gen t c v g \<and> gn_number g = n \<and> gn_state g = st) (rd_gens db')"
proof -
  assume m: "MarkGenerationState db t c v n st = Inr db'"
  let ?P = "\<lambda>g. is_gen t c v g \<and> gn_number g = n"
  have r: "count_rows ?P (rd_gens db) \<noteq> 0" "db' = db\<lparr> rd_gens := upd_rows ?P (\<lambda>g. g\<lparr> gn_state := st \<rparr>) (rd_gens db) \<rparr>"
    using m by (auto simp: MarkGenerationState_def split: if_splits)
  then obtain g where g: "g \<in> set (rd_gens db)" "?P g" by (auto simp: count_rows_0_iff)
  then have "g\<lparr> gn_state := st \<rparr> \<in> set (rd_gens db')"
    using upd_rows_in[OF g(1), of ?P "\<lambda>g. g\<lparr> gn_state := st \<rparr>"] r(2) by simp
  moreover have "is_gen t c v (g\<lparr> gn_state := st \<rparr>) \<and> gn_number (g\<lparr> gn_state := st \<rparr>) = n \<and> gn_state (g\<lparr> gn_state := st \<rparr>) = st"
    using g(2) by (simp add: is_gen_def)
  ultimately have "list_ex (\<lambda>g. is_gen t c v g \<and> gn_number g = n \<and> gn_state g = st) (rd_gens db')"
    unfolding list_ex_iff by blast
  then show ?thesis using r(2) by simp
qed

text \<open>A version that is indexed as these chunks: its rows, its points and its published generation.\<close>

definition indexed_as ::
  "ingest_env \<Rightarrow> rag_world \<Rightarrow> string \<Rightarrow> rag_collection \<Rightarrow> version_id \<Rightarrow> int \<Rightarrow> (rune list \<times> rune list) list \<Rightarrow> bool" where
  "indexed_as ie w t c v gen chunks \<longleftrightarrow>
     chunks \<noteq> [] \<and> map kr_text (version_chunks (rw_db w) t v) = map fst chunks \<and>
     map kr_ordinal (version_chunks (rw_db w) t v) = [0..<length chunks] \<and>
     list_all (\<lambda>pt. (co_qdrant c, pt) \<in> set (rw_points w)) (chunk_points ie (fst v) v gen chunks) \<and>
     list_ex (\<lambda>g. is_gen t (co_id c) v g \<and> gn_number g = gen \<and> gn_state g = Published) (rd_gens (rw_db w))"

lemma index_chunks_Inr:
  assumes "index_chunks env ie w t c v gen format chunks = (w', Inr r)" and "chunks \<noteq> []"
  shows "r = v \<and> indexed_as ie w' t c v gen chunks"
proof -
  let ?ans = "snd (createEmbeddings (ie_execute ie v) (map fst chunks))"
  let ?family = "''rag-'' @ co_id c @ (if format \<noteq> [] then ''-'' @ format else [])"
  let ?prof = "EnsureChunkProfile (re_tenant_ok env) (rw_db w) t ?family (co_size c) (co_overlap c) (ie_profile_id ie)"
  obtain vs where vs: "?ans = Inr vs" using assms(1) by (cases ?ans) (simp_all add: index_chunks_def)
  have ne: "\<not> (vs = [] \<or> hd vs = [])" using assms(1) vs by (auto simp: index_chunks_def)
  obtain db profile where pr: "?prof = Inr (db, profile)"
    using assms(1) vs ne by (cases ?prof) (auto simp: index_chunks_def Let_def)
  let ?rep = "ReplaceVersionChunksAndStage db t (co_id c) v gen profile (chunk_rows ie t v profile chunks)"
  define fin where "fin = (\<lambda>w. and_then (vector w (ie_ensure ie) id) (\<lambda>w _.
      and_then (vector w (ie_upsert ie) (upsert_points (co_qdrant c) (chunk_points ie (fst v) v gen chunks))) (\<lambda>w _.
      and_then (write_db w (MarkGenerationState (rw_db w) t (co_id c) v gen Published)) (\<lambda>w _. (w, Inr v)))))"
  have eq: "index_chunks env ie w t c v gen format chunks = and_then (write_db (w\<lparr> rw_db := db \<rparr>) ?rep) (\<lambda>w _. fin w)"
    using vs ne pr by (simp add: index_chunks_def Let_def write_db_def fin_def)
  obtain db2 where db2: "?rep = Inr db2" using assms(1) eq by (cases ?rep) (simp_all add: write_db_def)
  have rest: "fin (w\<lparr> rw_db := db2 \<rparr>) = (w', Inr r)" using assms(1) eq db2 by (simp add: write_db_def)
  let ?mark = "MarkGenerationState db2 t (co_id c) v gen Published"
  have ok: "ie_ensure ie = VectorOk" using rest by (cases "ie_ensure ie") (simp_all add: fin_def vector_def)
  have ok': "ie_upsert ie = VectorOk" using rest ok by (cases "ie_upsert ie") (simp_all add: fin_def vector_def)
  obtain db3 where db3: "?mark = Inr db3" using rest ok ok' by (cases ?mark) (simp_all add: fin_def vector_def write_db_def)
  have w': "r = v" "rw_db w' = db3" "rw_points w' = upsert_points (co_qdrant c) (chunk_points ie (fst v) v gen chunks) (rw_points w)"
    using rest ok ok' db3 by (auto simp: fin_def vector_def write_db_def)
  have rows: "version_chunks db2 t v = chunk_rows ie t v profile chunks"
    using replace_chunks_Inr[OF db2 _ chunk_rows_simps(2)] assms(2) chunk_rows_simps(1)[of ie t v profile chunks] by fastforce
  then have "version_chunks db3 t v = chunk_rows ie t v profile chunks"
    using MarkGenerationState_Inr[OF db3] by (simp add: version_chunks_def)
  then show ?thesis
    using MarkGenerationState_Inr[OF db3] chunk_rows_simps assms(2) w'
    by (auto simp: indexed_as_def upsert_points_def list_all_iff)
qed

section \<open>Publication\<close>

lemma index_chunks_Inl:
  assumes "index_chunks env ie w t c v gen format chunks = (w', Inl e)"
  shows "published (rw_db w') \<subseteq> published (rw_db w)"
proof -
  let ?ans = "snd (createEmbeddings (ie_execute ie v) (map fst chunks))"
  let ?family = "''rag-'' @ co_id c @ (if format \<noteq> [] then ''-'' @ format else [])"
  let ?prof = "EnsureChunkProfile (re_tenant_ok env) (rw_db w) t ?family (co_size c) (co_overlap c) (ie_profile_id ie)"
  show ?thesis
  proof (cases "is_ok ?ans \<and> is_ok ?prof \<and> (case ?ans of Inr vs \<Rightarrow> vs \<noteq> [] \<and> hd vs \<noteq> [] | _ \<Rightarrow> False)")
    case False
    then have "w' = w" using assms by (auto simp: index_chunks_def Let_def is_ok_def split: sum.splits if_splits)
    then show ?thesis by simp
  next
    case True
    then obtain vs db profile where x: "?ans = Inr vs" "vs \<noteq> []" "hd vs \<noteq> []" "?prof = Inr (db, profile)"
      by (auto simp: is_ok_def split: sum.splits)
    have db: "published db = published (rw_db w)" using EnsureChunkProfile_Inr[OF x(4)] by (simp add: published_def)
    let ?rep = "ReplaceVersionChunksAndStage db t (co_id c) v gen profile (chunk_rows ie t v profile chunks)"
    show ?thesis
    proof (cases ?rep)
      case (Inl e')
      then have "rw_db w' = db" using assms x by (auto simp: index_chunks_def Let_def write_db_def)
      then show ?thesis using db by simp
    next
      case (Inr db2)
      have "published db2 \<subseteq> published db" using replace_published[OF Inr] .
      moreover have "rw_db w' = db2"
        using assms x Inr
        by (cases "ie_ensure ie"; cases "ie_upsert ie"; cases "MarkGenerationState db2 t (co_id c) v gen Published")
          (auto simp: index_chunks_def Let_def write_db_def vector_def)
      ultimately show ?thesis using db by simp
    qed
  qed
qed

lemma SaveParsedDocument_Inr:
  "SaveParsedDocument db t v parser blocks parents = Inr db' \<Longrightarrow> published db' = published db"
  by (auto simp: SaveParsedDocument_def constraint_def published_def split: if_splits)

lemma index_version_cases:
  assumes "index_version env ie w ea c ver = (w', r)"
  obtains (stopped) e where "r = Inl e" and "published (rw_db w') = published (rw_db w)"
  | (indexing) blob body blocks w1 where "ie_bytes ie (ov_artifact ver) = Some blob"
      and "ie_extract ie (ov_filename ver) (ov_mime ver) blob = Some body"
      and "blocks = document_blocks ie (structuredFormat (ov_filename ver) (ov_mime ver)) blob body"
      and "published (rw_db w1) = published (rw_db w)"
      and "document_chunks c (structuredFormat (ov_filename ver) (ov_mime ver)) blocks body \<noteq> []"
      and "index_chunks env ie w1 (ea_tenant ea) c (ov_object ver, ov_observed ver) (ea_generation ea)
        (structuredFormat (ov_filename ver) (ov_mime ver))
        (document_chunks c (structuredFormat (ov_filename ver) (ov_mime ver)) blocks body) = (w', r)"
proof -
  let ?v = "(ov_object ver, ov_observed ver)" and ?f = "structuredFormat (ov_filename ver) (ov_mime ver)"
  show thesis
  proof (cases "ie_bytes ie (ov_artifact ver)")
    case None
    then show thesis using assms stopped[of REArtifact] by (simp add: index_version_def)
  next
    case bytes: (Some blob)
    show thesis
    proof (cases "ie_extract ie (ov_filename ver) (ov_mime ver) blob")
      case None
      then have "w' = w" "r = Inl (REInvalid ''extract text'')" using assms bytes by (simp_all add: index_version_def)
      then show thesis using stopped by blast
    next
      case body: (Some body)
      define blocks where "blocks = document_blocks ie ?f blob body"
      show thesis
      proof (cases "block_parents (replicate 6 None) 0 blocks")
        case None
        then have "w' = w" "r = Inl (REInvalid ''invalid parsed heading level'')"
          using assms bytes body by (simp_all add: index_version_def blocks_def Let_def)
        then show thesis using stopped by blast
      next
        case par: (Some parents)
        let ?save = "if ?f \<noteq> [] then write_db w (SaveParsedDocument (rw_db w) (ea_tenant ea) ?v ''rag-structured-v1'' blocks parents) else (w, Inr ())"
        let ?chunks = "document_chunks c ?f blocks body"
        have eq: "index_version env ie w ea c ver = and_then ?save (\<lambda>w _.
            and_then (demand w (?chunks \<noteq> []) (REInvalid ''document has no extractable text'')) (\<lambda>w _.
            and_then (demand w (ie_dispatched ie) (REJobs ErrStaleFence)) (\<lambda>w _.
            index_chunks env ie w (ea_tenant ea) c ?v (ea_generation ea) ?f ?chunks)))"
          using bytes body par by (simp add: index_version_def blocks_def Let_def)
        obtain w1 s where s: "?save = (w1, s)" by fastforce
        have p1: "published (rw_db w1) = published (rw_db w)"
          using s SaveParsedDocument_Inr by (auto simp: write_db_def split: if_splits sum.splits)
        show thesis
        proof (cases "is_ok s \<and> ?chunks \<noteq> [] \<and> ie_dispatched ie")
          case True
          then show thesis
            using indexing[OF bytes body blocks_def p1] assms eq s by (auto simp: is_ok_def split: sum.splits)
        next
          case False
          then obtain e where "r = Inl e" "w' = w1"
            using assms eq s by (cases s; cases "?chunks = []"; cases "ie_dispatched ie") auto
          then show thesis using stopped p1 by blast
        qed
      qed
    qed
  qed
qed

text \<open>The reads of an attempt, and what it goes on with.\<close>

lemma attemptEmbed_cases:
  assumes "attemptEmbed env ie w ea = (w', r)"
  obtains (refused) e where "r = Inl e" and "w' = w"
  | (going) x ver latest c where "sql_GetObject (rd_source (rw_db w)) (ea_tenant ea) (ea_object ea) = Inr x"
      and "sql_GetObjectVersion (rd_source (rw_db w)) (ea_tenant ea) (ea_object ea) (ea_seq ea) = Inr ver"
      and "CanReadVersion (sql_reads (rd_source (rw_db w))) 0 (ea_now ea) (ea_principal ea) x ver
        \<lparr> ro_now = None, ro_requested = None \<rparr> = None"
      and "sql_LatestObjectVersion (rd_source (rw_db w)) (ea_tenant ea) (ea_object ea) = Inr latest"
      and "GetCollectionRow (rw_db w) (ea_tenant ea) (ea_collection ea) = Inr c"
      and "(if ov_observed latest \<noteq> ea_seq ea
            then w' = fst (write_db w (MarkGenerationState (rw_db w) (ea_tenant ea) (ea_collection ea)
                 (ov_object ver, ov_observed ver) (ea_generation ea) Superseded)) \<and>
               r = Inr (ov_object ver, ov_observed ver)
            else index_version env ie w ea c ver = (w', r))"
proof -
  let ?s = "rd_source (rw_db w)" and ?t = "ea_tenant ea"
  note unf = assms[unfolded attemptEmbed_def Let_def]
  show thesis
  proof (cases "sql_GetObject ?s ?t (ea_object ea)")
    case (Inl e)
    then have "w' = w \<and> r = Inl (RESource e)" using unf by auto
    then show thesis using refused by blast
  next
    case x: (Inr x)
    show thesis
    proof (cases "ob_deleted x = None \<and> ob_tombstoned x = None")
      case False
      then have "w' = w \<and> r = Inl (REInvalid ''object deleted'')" using unf x by (auto simp: demand_def)
      then show thesis using refused by blast
    next
      case live: True
      show thesis
      proof (cases "sql_GetObjectVersion ?s ?t (ea_object ea) (ea_seq ea)")
        case (Inl e)
        then have "w' = w \<and> r = Inl (RESource e)" using unf x live by auto
        then show thesis using refused by blast
      next
        case ver: (Inr ver)
        let ?can = "CanReadVersion (sql_reads ?s) 0 (ea_now ea) (ea_principal ea) x ver \<lparr> ro_now = None, ro_requested = None \<rparr>"
        show thesis
        proof (cases ?can)
          case (Some e)
          then have "w' = w \<and> r = Inl (RESource e)" using unf x live ver by auto
          then show thesis using refused by blast
        next
          case can: None
          show thesis
          proof (cases "sql_LatestObjectVersion ?s ?t (ea_object ea)")
            case (Inl e)
            then have "w' = w \<and> r = Inl (RESource e)" using unf x live ver can by auto
            then show thesis using refused by blast
          next
            case latest: (Inr latest)
            show thesis
            proof (cases "GetCollectionRow (rw_db w) ?t (ea_collection ea)")
              case (Inl e)
              then have "w' = w \<and> r = Inl (RESource e)" using unf x live ver can latest by auto
              then show thesis using refused by blast
            next
              case c: (Inr c)
              then show thesis
                using going[OF x ver can latest c] unf x live ver can latest by (auto split: if_splits)
            qed
          qed
        qed
      qed
    qed
  qed
qed


text \<open>
  An attempt that ends in an error publishes nothing: whichever step fails, and even when a call to the vector
  store is reported lost, no generation is published afterwards that was not published before.
\<close>

theorem failed_attempt_publishes_nothing:
  assumes "attemptEmbed env ie w ea = (w', Inl e)"
  shows "published (rw_db w') \<subseteq> published (rw_db w)"
  using assms
proof (cases rule: attemptEmbed_cases)
  case (going x ver latest c)
  then have "index_version env ie w ea c ver = (w', Inl e)" by (simp split: if_splits)
  then show ?thesis
  proof (cases rule: index_version_cases)
    case (indexing blob body blocks w1)
    then show ?thesis using index_chunks_Inl[OF indexing(6)] by simp
  qed simp
qed simp

section \<open>Examples\<close>

definition demo_ingest :: "string \<Rightarrow> ingest_env" where
  "demo_ingest ids =
     \<lparr> ie_bytes = (\<lambda>a. if a = ''art'' then Some [104, 105] else None), ie_extract = (\<lambda>f m b. Some b),
       ie_tokens = (\<lambda>b. (True, [])), ie_execute = (\<lambda>v i q. Answer [\<lparr> ei_index = 0, ei_embedding = [1] \<rparr>]), ie_dispatched = True,
       ie_chunk_id = (\<lambda>n. ids @ ''c''), ie_point_id = (\<lambda>n. ids @ ''p''), ie_profile_id = ''pf'', ie_ensure = VectorOk, ie_upsert = VectorOk \<rparr>"

definition demo_attempt :: "int \<Rightarrow> embed_attempt" where
  "demo_attempt gen =
     \<lparr> ea_principal = demo_principal, ea_tenant = ''t'', ea_object = ''o'', ea_collection = ''c'', ea_seq = 1,
       ea_generation = gen, ea_now = 0 \<rparr>"

lemma demo_ingest_runs: "snd (attemptEmbed demo_env (demo_ingest ''x'') demo_world (demo_attempt 2)) = Inr (''o'', 1)"
  by code_simp

lemma demo_attempt_simps:
  "ea_tenant (demo_attempt g) = ''t''" "ea_object (demo_attempt g) = ''o''" "ea_collection (demo_attempt g) = ''c''"
  "ea_seq (demo_attempt g) = 1" "ea_generation (demo_attempt g) = g"
  by (simp_all add: demo_attempt_def)


theorem failed_attempt_publishes_nothing_witness:
  "let (w', r) = attemptEmbed demo_env ((demo_ingest ''x'')\<lparr> ie_upsert := VectorLost \<rparr>) demo_world (demo_attempt 2) in
   \<not> is_ok r \<and> published (rw_db w') \<subseteq> published (rw_db demo_world)"
proof -
  have "snd (attemptEmbed demo_env ((demo_ingest ''x'')\<lparr> ie_upsert := VectorLost \<rparr>) demo_world (demo_attempt 2)) = Inl REVector"
    by code_simp
  then obtain w' where "attemptEmbed demo_env ((demo_ingest ''x'')\<lparr> ie_upsert := VectorLost \<rparr>) demo_world (demo_attempt 2) = (w', Inl REVector)"
    by (metis prod.collapse)
  from failed_attempt_publishes_nothing[OF this] this show ?thesis by simp
qed

text \<open>
  Generations do not fence: an attempt of generation 1 that runs after generation 2 was published replaces its chunk rows
  and publishes itself, and the points of both stay in the index under the same version, so a search finds both.
\<close>

lemma old_generation_overwrites:
  "let w1 = fst (attemptEmbed demo_env (demo_ingest ''x'') demo_world (demo_attempt 2));
       (w2, r) = attemptEmbed demo_env (demo_ingest ''y'') w1 (demo_attempt 1) in
   is_ok r \<and> map kr_id (version_chunks (rw_db w1) ''t'' (''o'', 1)) = [''xc''] \<and>
   map kr_id (version_chunks (rw_db w2) ''t'' (''o'', 1)) = [''yc''] \<and>
   map (pt_generation \<circ> snd) (rw_points w2) = [1, 2, 1]"
  by code_simp

end
