(* ===== verification/IdentityRepo.thy ===== *)
theory IdentityRepo
  imports Principal
begin

text \<open>
  The identity tables of migrations/002_identity.sql (with 007_oidc_link_states.sql) and the statements of
  internal/store/postgres/identity_repo.go over them: tenants, roles, users, service accounts, API keys, sessions,
  external identities, delegations, and the providers and states of the OIDC flow. Rows stand in the
  order they were created in. A statement that violates a key, a foreign key or a check is an
  \<open>AuthStore\<close> error; a tenant id that is no UUID names no tenant, so its rows are simply not found.
\<close>

section \<open>Tables\<close>

datatype auth_error = AuthNotFound | AuthStore | AuthDenied string

record user =
  u_tenant :: string
  u_id :: string
  u_email :: string
  u_name :: string
  u_status :: string
  u_password :: string
  u_password_set :: "time option"
  u_last_login :: "time option"

record role =
  ro_tenant :: string
  ro_id :: string
  ro_name :: string
  ro_scopes :: "string list"

record service_account =
  sa_tenant :: string
  sa_id :: string
  sa_name :: string
  sa_scopes :: "string list"
  sa_status :: string

record api_key =
  ak_tenant :: string
  ak_id :: string
  ak_owner :: string
  ak_account :: string
  ak_name :: string
  ak_prefix :: string
  ak_hash :: string
  ak_algo :: string
  ak_scopes :: raw_json
  ak_models :: raw_json
  ak_templates :: raw_json
  ak_chatbots :: raw_json
  ak_agents :: raw_json
  ak_endpoints :: raw_json
  ak_ips :: raw_json
  ak_rate_minute :: "int option"
  ak_rate_hour :: "int option"
  ak_rate_day :: "int option"
  ak_active :: bool
  ak_expires :: "time option"
  ak_revoked :: "time option"
  ak_last_used :: "time option"

record session =
  se_tenant :: string
  se_id :: string
  se_user :: string
  se_hash :: string
  se_csrf :: string
  se_expires :: time
  se_idle :: time
  se_revoked :: "time option"
  se_reason :: string

record auth_identity =
  ai_tenant :: string
  ai_id :: string
  ai_user :: string
  ai_issuer :: string
  ai_subject :: string
  ai_linked_at :: time
  ai_linked_by :: string

record delegation =
  de_tenant :: string
  de_id :: string
  de_delegator :: string
  de_delegate :: string
  de_scopes :: raw_json
  de_collections :: raw_json
  de_expires :: time
  de_revoked :: "time option"

record oidc_provider =
  op_tenant :: string
  op_id :: string
  op_name :: string
  op_issuer :: string
  op_client :: string
  op_secret_ref :: string
  op_path :: string
  op_enabled :: bool

record oidc_state =
  os_tenant :: string
  os_id :: string
  os_hash :: string
  os_provider :: string
  os_user :: string
  os_nonce :: string
  os_pkce :: string
  os_return :: string
  os_subject :: string
  os_email :: string
  os_pending :: string
  os_expires :: time
  os_consumed :: "time option"

record identity_db =
  id_tenants :: "(string \<times> string) list"
  id_users :: "user list"
  id_roles :: "role list"
  id_members :: "(string \<times> string \<times> string) list"
  id_accounts :: "service_account list"
  id_keys :: "api_key list"
  id_sessions :: "session list"
  id_links :: "auth_identity list"
  id_delegations :: "delegation list"
  id_providers :: "oidc_provider list"
  id_states :: "oidc_state list"

definition u_key :: "user \<Rightarrow> string \<times> string" where "u_key u = (u_tenant u, u_id u)"
definition ro_key :: "role \<Rightarrow> string \<times> string" where "ro_key r = (ro_tenant r, ro_id r)"
definition sa_key :: "service_account \<Rightarrow> string \<times> string" where "sa_key s = (sa_tenant s, sa_id s)"
definition ak_key :: "api_key \<Rightarrow> string \<times> string" where "ak_key k = (ak_tenant k, ak_id k)"
definition se_key :: "session \<Rightarrow> string \<times> string" where "se_key s = (se_tenant s, se_id s)"
definition ai_key :: "auth_identity \<Rightarrow> string \<times> string" where "ai_key a = (ai_tenant a, ai_id a)"
definition de_key :: "delegation \<Rightarrow> string \<times> string" where "de_key d = (de_tenant d, de_id d)"
definition op_key :: "oidc_provider \<Rightarrow> string \<times> string" where "op_key p = (op_tenant p, op_id p)"
definition os_key :: "oidc_state \<Rightarrow> string \<times> string" where "os_key s = (os_tenant s, os_id s)"

definition has_tenant :: "identity_db \<Rightarrow> string \<Rightarrow> bool" where
  "has_tenant db t = list_ex (\<lambda>(i, _). i = t) (id_tenants db)"

definition has_user :: "identity_db \<Rightarrow> string \<Rightarrow> string \<Rightarrow> bool" where
  "has_user db t i = list_ex (\<lambda>u. u_key u = (t, i)) (id_users db)"

definition has_account :: "identity_db \<Rightarrow> string \<Rightarrow> string \<Rightarrow> bool" where
  "has_account db t i = list_ex (\<lambda>s. sa_key s = (t, i)) (id_accounts db)"

definition row_or_absent :: "('r \<Rightarrow> bool) \<Rightarrow> 'r list \<Rightarrow> auth_error + 'r" where
  "row_or_absent P t = (case find_row P t of None \<Rightarrow> Inl AuthNotFound | Some r \<Rightarrow> Inr r)"

text \<open>An INSERT that is refused when a row stands in its way or a row it refers to is missing.\<close>

definition insert_row :: "bool \<Rightarrow> ('r \<Rightarrow> bool) \<Rightarrow> 'r list \<Rightarrow> ('r list \<Rightarrow> identity_db) \<Rightarrow> 'r \<Rightarrow> auth_error + identity_db" where
  "insert_row refers clashes t put r =
     (if \<not> refers \<or> list_ex clashes t then Inl AuthStore else Inr (put (t @ [r])))"

text \<open>What a JSONB column makes of a stored document; an absent one is written as the empty object.\<close>

definition jsonb :: "raw_json \<Rightarrow> raw_json" where
  "jsonb r = (case r of RawAbsent \<Rightarrow> RawJson (JObj []) | _ \<Rightarrow> r)"

section \<open>Tenants and roles\<close>

definition CreateTenant :: "identity_db \<Rightarrow> string \<Rightarrow> string \<Rightarrow> auth_error + identity_db" where
  "CreateTenant db newid slug =
     insert_row True (\<lambda>(i, s). i = newid \<or> s = slug) (id_tenants db) (\<lambda>t. db\<lparr> id_tenants := t \<rparr>) (newid, slug)"

definition GetTenantBySlug :: "identity_db \<Rightarrow> string \<Rightarrow> auth_error + string" where
  "GetTenantBySlug db slug = map_sum id fst (row_or_absent (\<lambda>(_, s). s = slug) (id_tenants db))"

definition CreateRole :: "identity_db \<Rightarrow> string \<Rightarrow> role \<Rightarrow> auth_error + identity_db" where
  "CreateRole db t r =
     insert_row (has_tenant db t) (\<lambda>x. ro_key x = (t, ro_id r) \<or> (ro_tenant x, ro_name x) = (t, ro_name r)) (id_roles db)
       (\<lambda>x. db\<lparr> id_roles := x \<rparr>) (r\<lparr> ro_tenant := t \<rparr>)"

definition GetRole :: "identity_db \<Rightarrow> string \<Rightarrow> string \<Rightarrow> auth_error + role" where
  "GetRole db t i = row_or_absent (\<lambda>r. ro_key r = (t, i)) (id_roles db)"

definition AssignRole :: "identity_db \<Rightarrow> string \<Rightarrow> string \<Rightarrow> string \<Rightarrow> auth_error + identity_db" where
  "AssignRole db t u i =
     (if (t, u, i) \<in> set (id_members db) then Inr db
      else insert_row (has_user db t u \<and> is_ok (GetRole db t i)) (\<lambda>_. False) (id_members db)
        (\<lambda>m. db\<lparr> id_members := m \<rparr>) (t, u, i))"

definition UnassignRole :: "identity_db \<Rightarrow> string \<Rightarrow> string \<Rightarrow> string \<Rightarrow> identity_db" where
  "UnassignRole db t u i = db\<lparr> id_members := filter (\<lambda>m. m \<noteq> (t, u, i)) (id_members db) \<rparr>"

definition RolesForUser :: "identity_db \<Rightarrow> string \<Rightarrow> string \<Rightarrow> role list" where
  "RolesForUser db t u =
     sort_key ro_id (filter (\<lambda>r. ro_tenant r = t \<and> (t, u, ro_id r) \<in> set (id_members db)) (id_roles db))"

definition ListRoles :: "identity_db \<Rightarrow> string \<Rightarrow> role list" where
  "ListRoles db t = sort_key ro_id (filter (\<lambda>r. ro_tenant r = t) (id_roles db))"

definition RoleUsers :: "identity_db \<Rightarrow> string \<Rightarrow> string \<Rightarrow> string list" where
  "RoleUsers db t i = sort (map (\<lambda>(_, u, _). u) (filter (\<lambda>(t', _, i'). t' = t \<and> i' = i) (id_members db)))"

section \<open>Users and service accounts\<close>

definition active_default :: "string \<Rightarrow> string" where
  "active_default st = (if st = [] then ''active'' else st)"

definition CreateUserRow :: "identity_db \<Rightarrow> string \<Rightarrow> user \<Rightarrow> auth_error + identity_db" where
  "CreateUserRow db t u =
     insert_row (has_tenant db t) (\<lambda>x. u_key x = (t, u_id u) \<or> (u_tenant x, u_email x) = (t, u_email u)) (id_users db)
       (\<lambda>x. db\<lparr> id_users := x \<rparr>) (u\<lparr> u_tenant := t, u_status := active_default (u_status u) \<rparr>)"

definition GetUser :: "identity_db \<Rightarrow> string \<Rightarrow> string \<Rightarrow> auth_error + user" where
  "GetUser db t i = row_or_absent (\<lambda>u. u_key u = (t, i)) (id_users db)"

definition GetUserByEmail :: "identity_db \<Rightarrow> string \<Rightarrow> string \<Rightarrow> auth_error + user" where
  "GetUserByEmail db t e = row_or_absent (\<lambda>u. (u_tenant u, u_email u) = (t, e)) (id_users db)"

definition set_user :: "identity_db \<Rightarrow> string \<Rightarrow> string \<Rightarrow> (user \<Rightarrow> user) \<Rightarrow> identity_db" where
  "set_user db t i f = db\<lparr> id_users := upd_rows (\<lambda>u. u_key u = (t, i)) f (id_users db) \<rparr>"

definition UpdateUserStatus :: "identity_db \<Rightarrow> string \<Rightarrow> string \<Rightarrow> string \<Rightarrow> identity_db" where
  "UpdateUserStatus db t i st = set_user db t i (\<lambda>u. u\<lparr> u_status := st \<rparr>)"

definition SetPassword :: "identity_db \<Rightarrow> string \<Rightarrow> string \<Rightarrow> string \<Rightarrow> time \<Rightarrow> identity_db" where
  "SetPassword db t i h now = set_user db t i (\<lambda>u. u\<lparr> u_password := h, u_password_set := Some now \<rparr>)"

definition TouchLastLogin :: "identity_db \<Rightarrow> string \<Rightarrow> string \<Rightarrow> time \<Rightarrow> identity_db" where
  "TouchLastLogin db t i now = set_user db t i (\<lambda>u. u\<lparr> u_last_login := Some now \<rparr>)"

definition ListUsers :: "identity_db \<Rightarrow> string \<Rightarrow> user list" where
  "ListUsers db t = sort_key u_id (filter (\<lambda>u. u_tenant u = t) (id_users db))"

definition CreateServiceAccount :: "identity_db \<Rightarrow> string \<Rightarrow> service_account \<Rightarrow> auth_error + identity_db" where
  "CreateServiceAccount db t s =
     insert_row (has_tenant db t) (\<lambda>x. sa_key x = (t, sa_id s)) (id_accounts db) (\<lambda>x. db\<lparr> id_accounts := x \<rparr>)
       (s\<lparr> sa_tenant := t, sa_status := active_default (sa_status s) \<rparr>)"

definition GetServiceAccount :: "identity_db \<Rightarrow> string \<Rightarrow> string \<Rightarrow> auth_error + service_account" where
  "GetServiceAccount db t i = row_or_absent (\<lambda>s. sa_key s = (t, i)) (id_accounts db)"

definition UpdateServiceAccountStatus :: "identity_db \<Rightarrow> string \<Rightarrow> string \<Rightarrow> string \<Rightarrow> identity_db" where
  "UpdateServiceAccountStatus db t i st =
     db\<lparr> id_accounts := upd_rows (\<lambda>s. sa_key s = (t, i)) (\<lambda>s. s\<lparr> sa_status := st \<rparr>) (id_accounts db) \<rparr>"

definition ListServiceAccounts :: "identity_db \<Rightarrow> string \<Rightarrow> service_account list" where
  "ListServiceAccounts db t = sort_key sa_id (filter (\<lambda>s. sa_tenant s = t) (id_accounts db))"

section \<open>API keys\<close>

text \<open>There is no column for the active flag: a row is active as long as it is not revoked.\<close>

definition scanAPIKey :: "api_key \<Rightarrow> api_key" where
  "scanAPIKey k = k\<lparr> ak_active := (ak_revoked k = None) \<rparr>"

definition CreateAPIKey :: "identity_db \<Rightarrow> string \<Rightarrow> api_key \<Rightarrow> auth_error + identity_db" where
  "CreateAPIKey db t k =
     insert_row
       (has_tenant db t \<and> (ak_owner k \<noteq> [] \<or> ak_account k \<noteq> []) \<and>
        (ak_owner k \<noteq> [] \<longrightarrow> has_user db t (ak_owner k)) \<and> (ak_account k \<noteq> [] \<longrightarrow> has_account db t (ak_account k)) \<and>
        RawMalformed \<notin> {ak_scopes k, ak_models k, ak_templates k, ak_chatbots k, ak_agents k, ak_endpoints k, ak_ips k})
       (\<lambda>x. ak_key x = (t, ak_id k) \<or> (ak_tenant x, ak_hash x) = (t, ak_hash k)) (id_keys db)
       (\<lambda>x. db\<lparr> id_keys := x \<rparr>)
       (k\<lparr> ak_tenant := t, ak_scopes := jsonb (ak_scopes k), ak_models := jsonb (ak_models k),
          ak_templates := jsonb (ak_templates k), ak_chatbots := jsonb (ak_chatbots k), ak_agents := jsonb (ak_agents k),
          ak_endpoints := jsonb (ak_endpoints k), ak_ips := jsonb (ak_ips k) \<rparr>)"

definition GetAPIKey :: "identity_db \<Rightarrow> string \<Rightarrow> string \<Rightarrow> auth_error + api_key" where
  "GetAPIKey db t i = map_sum id scanAPIKey (row_or_absent (\<lambda>k. ak_key k = (t, i)) (id_keys db))"

definition ListAPIKeys :: "identity_db \<Rightarrow> string \<Rightarrow> api_key list" where
  "ListAPIKeys db t = map scanAPIKey (filter (\<lambda>k. ak_tenant k = t) (id_keys db))"

definition set_key :: "identity_db \<Rightarrow> string \<Rightarrow> string \<Rightarrow> (api_key \<Rightarrow> api_key) \<Rightarrow> identity_db" where
  "set_key db t i f = db\<lparr> id_keys := upd_rows (\<lambda>k. ak_key k = (t, i)) f (id_keys db) \<rparr>"

definition UpdateAPIKey :: "identity_db \<Rightarrow> string \<Rightarrow> api_key \<Rightarrow> time \<Rightarrow> auth_error + identity_db" where
  "UpdateAPIKey db t k now =
     (if RawMalformed \<in> {ak_scopes k, ak_models k, ak_templates k, ak_chatbots k, ak_agents k, ak_endpoints k, ak_ips k}
      then Inl AuthStore
      else Inr (set_key db t (ak_id k) (\<lambda>r. r\<lparr> ak_name := ak_name k, ak_scopes := jsonb (ak_scopes k),
        ak_models := jsonb (ak_models k), ak_templates := jsonb (ak_templates k), ak_chatbots := jsonb (ak_chatbots k),
        ak_agents := jsonb (ak_agents k), ak_endpoints := jsonb (ak_endpoints k), ak_ips := jsonb (ak_ips k),
        ak_rate_minute := ak_rate_minute k, ak_rate_hour := ak_rate_hour k, ak_rate_day := ak_rate_day k,
        ak_expires := ak_expires k,
        ak_revoked := (if ak_active k then None else if ak_revoked k \<noteq> None then ak_revoked k else Some now) \<rparr>)))"

definition RevokeAPIKeyRow :: "identity_db \<Rightarrow> string \<Rightarrow> string \<Rightarrow> time \<Rightarrow> identity_db" where
  "RevokeAPIKeyRow db t i now = set_key db t i (\<lambda>k. k\<lparr> ak_revoked := Some now \<rparr>)"

definition TouchAPIKeyUsage :: "identity_db \<Rightarrow> string \<Rightarrow> string \<Rightarrow> time \<Rightarrow> identity_db" where
  "TouchAPIKeyUsage db t i now = set_key db t i (\<lambda>k. k\<lparr> ak_last_used := Some now \<rparr>)"

definition SetAPIKeySecret :: "identity_db \<Rightarrow> string \<Rightarrow> string \<Rightarrow> string \<Rightarrow> string \<Rightarrow> string \<Rightarrow> auth_error + identity_db" where
  "SetAPIKeySecret db t i prefix h algo =
     (if list_ex (\<lambda>k. ak_key k \<noteq> (t, i) \<and> (ak_tenant k, ak_hash k) = (t, h)) (id_keys db) then Inl AuthStore
      else Inr (set_key db t i (\<lambda>k. k\<lparr> ak_prefix := prefix, ak_hash := h, ak_algo := algo \<rparr>)))"

definition FindKeyCandidates :: "identity_db \<Rightarrow> string \<Rightarrow> api_key list" where
  "FindKeyCandidates db prefix =
     take 50 (map scanAPIKey (filter (\<lambda>k. ak_prefix k = prefix \<and> ak_revoked k = None) (id_keys db)))"

section \<open>Sessions\<close>

definition CreateSession :: "identity_db \<Rightarrow> string \<Rightarrow> session \<Rightarrow> auth_error + identity_db" where
  "CreateSession db t s =
     insert_row (has_tenant db t \<and> has_user db t (se_user s)) (\<lambda>x. se_key x = (t, se_id s) \<or> se_hash x = se_hash s)
       (id_sessions db) (\<lambda>x. db\<lparr> id_sessions := x \<rparr>) (s\<lparr> se_tenant := t \<rparr>)"

definition GetSession :: "identity_db \<Rightarrow> string \<Rightarrow> string \<Rightarrow> auth_error + session" where
  "GetSession db t i = row_or_absent (\<lambda>s. se_key s = (t, i)) (id_sessions db)"

definition GetSessionByTokenHash :: "identity_db \<Rightarrow> string \<Rightarrow> auth_error + session" where
  "GetSessionByTokenHash db h = row_or_absent (\<lambda>s. se_hash s = h) (id_sessions db)"

definition TouchSession :: "identity_db \<Rightarrow> string \<Rightarrow> string \<Rightarrow> time \<Rightarrow> identity_db" where
  "TouchSession db t i idle =
     db\<lparr> id_sessions := upd_rows (\<lambda>s. se_key s = (t, i)) (\<lambda>s. s\<lparr> se_idle := idle \<rparr>) (id_sessions db) \<rparr>"

definition RevokeSessionRow :: "identity_db \<Rightarrow> string \<Rightarrow> string \<Rightarrow> time \<Rightarrow> string \<Rightarrow> identity_db" where
  "RevokeSessionRow db t i now reason =
     db\<lparr> id_sessions := upd_rows (\<lambda>s. se_key s = (t, i)) (\<lambda>s. s\<lparr> se_revoked := Some now, se_reason := reason \<rparr>)
       (id_sessions db) \<rparr>"

definition RevokeUserSessionRows :: "identity_db \<Rightarrow> string \<Rightarrow> string \<Rightarrow> time \<Rightarrow> string \<Rightarrow> identity_db" where
  "RevokeUserSessionRows db t u now reason =
     db\<lparr> id_sessions := upd_rows (\<lambda>s. se_tenant s = t \<and> se_user s = u \<and> se_revoked s = None)
       (\<lambda>s. s\<lparr> se_revoked := Some now, se_reason := reason \<rparr>) (id_sessions db) \<rparr>"

definition ListSessionsForUser :: "identity_db \<Rightarrow> string \<Rightarrow> string \<Rightarrow> session list" where
  "ListSessionsForUser db t u = filter (\<lambda>s. se_tenant s = t \<and> se_user s = u) (id_sessions db)"

section \<open>External identities, delegations\<close>

definition RecordAuthIdentity :: "identity_db \<Rightarrow> string \<Rightarrow> auth_identity \<Rightarrow> auth_error + identity_db" where
  "RecordAuthIdentity db t a =
     insert_row (has_tenant db t \<and> has_user db t (ai_user a) \<and> (ai_linked_by a \<noteq> [] \<longrightarrow> has_user db t (ai_linked_by a)))
       (\<lambda>x. ai_key x = (t, ai_id a) \<or> (ai_tenant x, ai_issuer x, ai_subject x) = (t, ai_issuer a, ai_subject a)) (id_links db)
       (\<lambda>x. db\<lparr> id_links := x \<rparr>) (a\<lparr> ai_tenant := t \<rparr>)"

definition GetAuthIdentity :: "identity_db \<Rightarrow> string \<Rightarrow> string \<Rightarrow> string \<Rightarrow> auth_error + auth_identity" where
  "GetAuthIdentity db t issuer subj =
     row_or_absent (\<lambda>a. (ai_tenant a, ai_issuer a, ai_subject a) = (t, issuer, subj)) (id_links db)"

definition ListAuthIdentitiesForUser :: "identity_db \<Rightarrow> string \<Rightarrow> string \<Rightarrow> auth_identity list" where
  "ListAuthIdentitiesForUser db t u = sort_key ai_id (filter (\<lambda>a. ai_tenant a = t \<and> ai_user a = u) (id_links db))"

definition CreateDelegation :: "identity_db \<Rightarrow> string \<Rightarrow> delegation \<Rightarrow> auth_error + identity_db" where
  "CreateDelegation db t d =
     insert_row (has_tenant db t \<and> has_user db t (de_delegator d) \<and> has_account db t (de_delegate d) \<and>
         RawMalformed \<notin> {de_scopes d, de_collections d})
       (\<lambda>x. de_key x = (t, de_id d)) (id_delegations db) (\<lambda>x. db\<lparr> id_delegations := x \<rparr>)
       (d\<lparr> de_tenant := t, de_scopes := jsonb (de_scopes d), de_collections := jsonb (de_collections d) \<rparr>)"

definition GetDelegation :: "identity_db \<Rightarrow> string \<Rightarrow> string \<Rightarrow> auth_error + delegation" where
  "GetDelegation db t i = row_or_absent (\<lambda>d. de_key d = (t, i)) (id_delegations db)"

definition FindDelegation :: "identity_db \<Rightarrow> string \<Rightarrow> string \<Rightarrow> string \<Rightarrow> auth_error + delegation" where
  "FindDelegation db t u s =
     row_or_absent (\<lambda>d. de_tenant d = t \<and> de_delegator d = u \<and> de_delegate d = s \<and> de_revoked d = None)
       (rev (id_delegations db))"

section \<open>OIDC providers and states\<close>

definition GetOIDCProvider :: "identity_db \<Rightarrow> string \<Rightarrow> string \<Rightarrow> auth_error + oidc_provider" where
  "GetOIDCProvider db t i = row_or_absent (\<lambda>p. op_key p = (t, i)) (id_providers db)"

definition ListOIDCProviders :: "identity_db \<Rightarrow> string \<Rightarrow> oidc_provider list" where
  "ListOIDCProviders db t = filter (\<lambda>p. op_tenant p = t) (id_providers db)"

definition CreateOIDCProvider :: "identity_db \<Rightarrow> string \<Rightarrow> oidc_provider \<Rightarrow> auth_error + identity_db" where
  "CreateOIDCProvider db t p =
     insert_row (has_tenant db t) (\<lambda>x. op_key x = (t, op_id p)) (id_providers db) (\<lambda>x. db\<lparr> id_providers := x \<rparr>)
       (p\<lparr> op_tenant := t \<rparr>)"

definition CreateOIDCState :: "identity_db \<Rightarrow> string \<Rightarrow> oidc_state \<Rightarrow> auth_error + identity_db" where
  "CreateOIDCState db t s =
     insert_row (has_tenant db t \<and> is_ok (GetOIDCProvider db t (os_provider s)) \<and>
         (os_user s \<noteq> [] \<longrightarrow> has_user db t (os_user s)) \<and> (os_pending s \<noteq> [] \<longrightarrow> has_user db t (os_pending s)))
       (\<lambda>x. os_key x = (t, os_id s) \<or> os_hash x = os_hash s) (id_states db) (\<lambda>x. db\<lparr> id_states := x \<rparr>)
       (s\<lparr> os_tenant := t \<rparr>)"

definition GetOIDCState :: "identity_db \<Rightarrow> string \<Rightarrow> string \<Rightarrow> auth_error + oidc_state" where
  "GetOIDCState db t h = row_or_absent (\<lambda>s. (os_tenant s, os_hash s) = (t, h)) (id_states db)"

text \<open>The single-use transition: only a row that is not consumed is, and only then it is returned.\<close>

definition ConsumeOIDCState :: "identity_db \<Rightarrow> string \<Rightarrow> string \<Rightarrow> time \<Rightarrow> auth_error + identity_db \<times> oidc_state" where
  "ConsumeOIDCState db t h now =
     (let P = \<lambda>s. (os_tenant s, os_hash s) = (t, h) \<and> os_consumed s = None; f = \<lambda>s. s\<lparr> os_consumed := Some now \<rparr> in
      case find_row P (id_states db) of
        None \<Rightarrow> Inl AuthNotFound
      | Some s \<Rightarrow> Inr (db\<lparr> id_states := upd_rows P f (id_states db) \<rparr>, f s))"

section \<open>Who administers a tenant\<close>

text \<open>The \<open>?\<close> operator of JSONB.\<close>

definition jsonb_has :: "json \<Rightarrow> string \<Rightarrow> bool" where
  "jsonb_has j s =
     (case j of JArr js \<Rightarrow> JStr s \<in> set js | JObj ms \<Rightarrow> obj_get ms s \<noteq> None | JStr x \<Rightarrow> x = s | _ \<Rightarrow> False)"

definition key_items_have :: "api_key \<Rightarrow> string \<Rightarrow> bool" where
  "key_items_have k scope =
     (case ak_scopes k of
        RawJson (JObj ms) \<Rightarrow> (case obj_get ms ''items'' of None \<Rightarrow> False | Some j \<Rightarrow> jsonb_has j scope)
      | _ \<Rightarrow> False)"

text \<open>The status of a key's owner: the user's, or else the service account's.\<close>

definition owner_status :: "identity_db \<Rightarrow> api_key \<Rightarrow> string" where
  "owner_status db k =
     (case GetUser db (ak_tenant k) (ak_owner k) of
        Inr u \<Rightarrow> u_status u
      | Inl _ \<Rightarrow> (case GetServiceAccount db (ak_tenant k) (ak_account k) of Inr s \<Rightarrow> sa_status s | Inl _ \<Rightarrow> []))"

definition admin_users :: "identity_db \<Rightarrow> string \<Rightarrow> string \<Rightarrow> string list" where
  "admin_users db t scope =
     remdups (map u_id (filter (\<lambda>u. u_tenant u = t \<and> u_status u = ''active'' \<and>
       list_ex (\<lambda>r. scope \<in> set (ro_scopes r)) (RolesForUser db t (u_id u))) (id_users db)))"

definition admin_keys :: "identity_db \<Rightarrow> string \<Rightarrow> string \<Rightarrow> time \<Rightarrow> string list" where
  "admin_keys db t scope now =
     map ak_id (filter (\<lambda>k. ak_tenant k = t \<and> ak_revoked k = None \<and>
       (case ak_expires k of None \<Rightarrow> True | Some e \<Rightarrow> now < e) \<and> key_items_have k scope \<and>
       owner_status db k = ''active'') (id_keys db))"

definition AdminHolderCounts :: "identity_db \<Rightarrow> string \<Rightarrow> string \<Rightarrow> time \<Rightarrow> string list \<times> string list" where
  "AdminHolderCounts db t scope now = (admin_users db t scope, admin_keys db t scope now)"

end
