(* ===== verification/Identity.thy ===== *)
theory Identity
  imports IdentityRepo Outcome
begin

text \<open>
  Authentication, from internal/auth/service.go, sessions.go, keys.go and users.go: API keys, passwords, sessions and
  delegations, each of which ends in a principal or a refusal. Digests, the HMAC and bcrypt are arguments, as are the
  random secrets and ids an operation draws and the time it reads.
\<close>

section \<open>The environment\<close>

record auth_env =
  ae_sha :: "string \<Rightarrow> string"
  ae_hmac :: "string \<Rightarrow> string \<Rightarrow> string"
  ae_pepper :: string
  ae_bcrypt :: "string \<Rightarrow> string option"
  ae_verify :: "string \<Rightarrow> string \<Rightarrow> bool"

type_synonym 'a auth_outcome = "identity_db \<times> (auth_error + 'a)"

definition auth_write :: "identity_db \<Rightarrow> auth_error + identity_db \<Rightarrow> unit auth_outcome" where
  "auth_write db r = (case r of Inl e \<Rightarrow> (db, Inl e) | Inr db' \<Rightarrow> (db', Inr ()))"

lemma auth_write_Inr: "auth_write db r = (db', Inr u) \<longleftrightarrow> r = Inr db'"
  by (auto simp: auth_write_def split: sum.splits)

lemma auth_write_simps [simp]: "auth_write db (Inr db') = (db', Inr ())" "auth_write db (Inl e) = (db, Inl e)"
  by (simp_all add: auth_write_def)

definition errInvalidCredential :: auth_error where
  "errInvalidCredential = AuthDenied ''invalid credentials''"

definition sessionIdleWindow :: duration where
  "sessionIdleWindow = 30 * 60 * second"

section \<open>Hashes of keys\<close>

definition HashAlgoSHA256 :: string where "HashAlgoSHA256 = ''sha256''"
definition HashAlgoHMACSHA256 :: string where "HashAlgoHMACSHA256 = ''hmac_sha256''"

definition hashAPIKeyWithAlgo :: "auth_env \<Rightarrow> string \<Rightarrow> string \<Rightarrow> string \<Rightarrow> auth_error + string" where
  "hashAPIKeyWithAlgo env key algo pepper =
     (if algo = [] \<or> algo = HashAlgoSHA256 then Inr (ae_sha env key)
      else if algo = HashAlgoHMACSHA256 then
        (if pepper = [] then Inl (AuthDenied ''API key pepper not configured'') else Inr (ae_hmac env pepper key))
      else Inl (AuthDenied ''unknown API key hash algo''))"

definition hashAPIKey :: "auth_env \<Rightarrow> string \<Rightarrow> string \<Rightarrow> auth_error + string" where
  "hashAPIKey env key algo = hashAPIKeyWithAlgo env key algo (ae_pepper env)"

text \<open>The prefix, the hash and the algorithm to store.\<close>

definition HashForStorage :: "auth_env \<Rightarrow> string \<Rightarrow> string \<Rightarrow> string \<Rightarrow> auth_error + string \<times> string \<times> string" where
  "HashForStorage env plaintext algo pepper =
     (let used = (if trim_space algo = [] then HashAlgoSHA256 else trim_space algo) in
      map_sum id (\<lambda>h. (if 8 \<le> length plaintext then take 8 plaintext else [], h, used))
        (hashAPIKeyWithAlgo env plaintext used pepper))"

section \<open>Principals\<close>

definition user_scopes :: "identity_db \<Rightarrow> user \<Rightarrow> string set" where
  "user_scopes db u = (\<Union>r \<in> set (RolesForUser db (u_tenant u) (u_id u)). set (ro_scopes r)) - {[]}"

definition principalForUser :: "identity_db \<Rightarrow> user \<Rightarrow> principal" where
  "principalForUser db u =
     (let scopes = user_scopes db u; admin = (ScopePlatformAdmin \<in> scopes) in
      zero_principal\<lparr> p_tenant := u_tenant u, p_actor := u_id u, p_actor_kind := ActorKindUser, p_user := u_id u,
        p_scopes := scopes, p_billing_subject := u_id u, p_billing_subject_kind := BillingSubjectUser,
        p_models_all := admin, p_extract_templates_all := admin, p_chatbots_all := admin, p_agents_all := admin,
        p_endpoints_all := admin, p_ips_all := admin \<rparr>)"

text \<open>What the stored grants of a key make of its principal, before its owner is known.\<close>

definition key_grants :: "api_key \<Rightarrow> principal" where
  "key_grants k =
     zero_principal\<lparr> p_tenant := ak_tenant k, p_credential := ak_id k, p_credential_kind := CredentialKindAPIKey,
       p_rate_minute := ak_rate_minute k, p_rate_hour := ak_rate_hour k, p_rate_day := ak_rate_day k,
       p_scopes := fst (DecodeAllowlist (ak_scopes k)),
       p_models := fst (DecodeAllowlist (ak_models k)), p_models_all := snd (DecodeAllowlist (ak_models k)),
       p_extract_templates := fst (DecodeAllowlist (ak_templates k)),
       p_extract_templates_all := snd (DecodeAllowlist (ak_templates k)),
       p_chatbots := fst (DecodeAllowlist (ak_chatbots k)), p_chatbots_all := snd (DecodeAllowlist (ak_chatbots k)),
       p_agents := fst (DecodeAllowlist (ak_agents k)), p_agents_all := snd (DecodeAllowlist (ak_agents k)),
       p_endpoints := fst (DecodeAllowlist (ak_endpoints k)), p_endpoints_all := snd (DecodeAllowlist (ak_endpoints k)),
       p_ips := fst (DecodeAllowlist (ak_ips k)), p_ips_all := snd (DecodeAllowlist (ak_ips k)) \<rparr>"

definition key_principal :: "identity_db \<Rightarrow> api_key \<Rightarrow> auth_error + principal" where
  "key_principal db k =
     (if ak_owner k \<noteq> [] then
        bind_r (GetUser db (ak_tenant k) (ak_owner k)) (\<lambda>u.
          if u_status u \<noteq> ''active'' then Inl (AuthDenied ''key owner is disabled'')
          else Inr ((key_grants k)\<lparr> p_actor := u_id u, p_actor_kind := ActorKindUser, p_user := u_id u,
                 p_billing_subject := u_id u, p_billing_subject_kind := BillingSubjectUser \<rparr>))
      else if ak_account k \<noteq> [] then
        bind_r (GetServiceAccount db (ak_tenant k) (ak_account k)) (\<lambda>s.
          if sa_status s \<noteq> ''active'' then Inl (AuthDenied ''key service account is disabled'')
          else Inr ((key_grants k)\<lparr> p_actor := sa_id s, p_actor_kind := ActorKindServiceAccount,
                 p_billing_subject := sa_id s, p_billing_subject_kind := BillingSubjectServiceAccount \<rparr>))
      else Inr ((key_grants k)\<lparr> p_actor := ak_id k, p_actor_kind := ActorKindServiceAccount,
             p_billing_subject := ak_id k, p_billing_subject_kind := BillingSubjectAPIKey \<rparr>))"

definition principalFromKey :: "identity_db \<Rightarrow> api_key \<Rightarrow> time \<Rightarrow> principal auth_outcome" where
  "principalFromKey db k now =
     (case key_principal db k of
        Inl e \<Rightarrow> (db, Inl e)
      | Inr p \<Rightarrow> (TouchAPIKeyUsage db (ak_tenant k) (ak_id k) now, Inr p))"

section \<open>API keys\<close>

definition key_algo :: "api_key \<Rightarrow> string" where
  "key_algo k = (if trim_space (ak_algo k) = [] then HashAlgoSHA256 else trim_space (ak_algo k))"

fun match_candidates :: "auth_env \<Rightarrow> identity_db \<Rightarrow> time \<Rightarrow> string \<Rightarrow> api_key list \<Rightarrow> principal auth_outcome" where
  "match_candidates env db now plaintext [] = (db, Inl errInvalidCredential)"
| "match_candidates env db now plaintext (k # ks) =
     (if hashAPIKey env plaintext (key_algo k) \<noteq> Inr (ak_hash k) then match_candidates env db now plaintext ks
      else if ak_revoked k \<noteq> None \<or> \<not> ak_active k then (db, Inl (AuthDenied ''API key is revoked''))
      else if (case ak_expires k of None \<Rightarrow> False | Some e \<Rightarrow> e < now) then (db, Inl (AuthDenied ''API key is expired''))
      else principalFromKey db k now)"

definition Authenticate :: "auth_env \<Rightarrow> identity_db \<Rightarrow> time \<Rightarrow> string \<Rightarrow> principal auth_outcome" where
  "Authenticate env db now plaintext =
     (if plaintext = [] then (db, Inl (AuthDenied ''missing API key''))
      else if length plaintext < 8 then (db, Inl errInvalidCredential)
      else match_candidates env db now plaintext (FindKeyCandidates db (take 8 plaintext)))"

record issue_key =
  ik_name :: string
  ik_owner :: string
  ik_account :: string
  ik_scopes :: "string list"
  ik_models :: allowlist
  ik_templates :: allowlist
  ik_chatbots :: allowlist
  ik_agents :: allowlist
  ik_endpoints :: allowlist
  ik_ips :: allowlist
  ik_rate_minute :: "int option"
  ik_rate_hour :: "int option"
  ik_rate_day :: "int option"
  ik_expires :: "time option"

text \<open>
  \<open>IssueAPIKey\<close> with the random part of the secret and of the id. Without a pepper the key is hashed
  with plain SHA-256.
\<close>

definition issued_hash :: "auth_env \<Rightarrow> string \<Rightarrow> auth_error + string \<times> string \<times> string" where
  "issued_hash env plaintext =
     (case HashForStorage env plaintext HashAlgoHMACSHA256 (ae_pepper env) of
        Inr r \<Rightarrow> Inr r
      | Inl e \<Rightarrow> if ae_pepper env = [] then HashForStorage env plaintext HashAlgoSHA256 [] else Inl e)"

definition issued_key :: "principal \<Rightarrow> issue_key \<Rightarrow> string \<Rightarrow> string \<times> string \<times> string \<Rightarrow> api_key" where
  "issued_key admin inp newid = (\<lambda>(prefix, h, algo).
     \<lparr> ak_tenant = p_tenant admin, ak_id = ''key_'' @ newid, ak_owner = ik_owner inp, ak_account = ik_account inp,
       ak_name = ik_name inp, ak_prefix = prefix, ak_hash = h, ak_algo = algo, ak_scopes = scopeList (ik_scopes inp),
       ak_models = marshal_allowlist (ik_models inp), ak_templates = marshal_allowlist (ik_templates inp),
       ak_chatbots = marshal_allowlist (ik_chatbots inp), ak_agents = marshal_allowlist (ik_agents inp),
       ak_endpoints = marshal_allowlist (ik_endpoints inp), ak_ips = marshal_allowlist (ik_ips inp),
       ak_rate_minute = ik_rate_minute inp, ak_rate_hour = ik_rate_hour inp, ak_rate_day = ik_rate_day inp,
       ak_active = True, ak_expires = ik_expires inp, ak_revoked = None, ak_last_used = None \<rparr>)"

definition IssueAPIKey ::
  "auth_env \<Rightarrow> identity_db \<Rightarrow> principal \<Rightarrow> issue_key \<Rightarrow> string \<Rightarrow> string \<Rightarrow> (string \<times> api_key) auth_outcome" where
  "IssueAPIKey env db admin inp secret newid =
     and_then (demand db (HasScope admin ScopePlatformAdmin) (AuthDenied ''platform.admin scope required to issue keys'')) (\<lambda>db _.
     and_then (demand db (p_tenant admin \<noteq> []) (AuthDenied ''admin principal has no tenant'')) (\<lambda>db _.
     and_then (demand db ((ik_owner inp = []) \<noteq> (ik_account inp = []))
       (AuthDenied ''exactly one of owner_user_id or service_account_id is required'')) (\<lambda>db _.
     let plaintext = ''enc_'' @ secret in
     and_then (db, issued_hash env plaintext) (\<lambda>db h.
     let k = issued_key admin inp newid h in
     and_then (auth_write db (CreateAPIKey db (p_tenant admin) k)) (\<lambda>db _.
     (db, Inr (plaintext, k)))))))"

definition RevokeAPIKey :: "identity_db \<Rightarrow> principal \<Rightarrow> string \<Rightarrow> time \<Rightarrow> unit auth_outcome" where
  "RevokeAPIKey db admin i now =
     (if HasScope admin ScopePlatformAdmin then (RevokeAPIKeyRow db (p_tenant admin) i now, Inr ())
      else (db, Inl (AuthDenied ''platform.admin scope required to revoke keys'')))"

section \<open>Passwords\<close>

definition AuthenticatePassword :: "auth_env \<Rightarrow> identity_db \<Rightarrow> time \<Rightarrow> string \<Rightarrow> string \<Rightarrow> string \<Rightarrow> principal auth_outcome" where
  "AuthenticatePassword env db now t email password =
     (case GetUserByEmail db t (go_lower (trim_space email)) of
        Inl _ \<Rightarrow> (db, Inl errInvalidCredential)
      | Inr u \<Rightarrow>
          if \<not> ae_verify env (u_password u) password then (db, Inl errInvalidCredential)
          else if u_status u \<noteq> ''active'' then (db, Inl (AuthDenied ''user is disabled''))
          else (TouchLastLogin db t (u_id u) now, Inr (principalForUser db u)))"

definition CreateUser ::
  "auth_env \<Rightarrow> identity_db \<Rightarrow> principal \<Rightarrow> string \<Rightarrow> string \<Rightarrow> string \<Rightarrow> string \<Rightarrow> string \<Rightarrow> time \<Rightarrow> user auth_outcome" where
  "CreateUser env db admin t email name password newid now =
     (if \<not> HasScope admin ScopePlatformAdmin then (db, Inl (AuthDenied ''platform.admin scope required to create users''))
      else
        (case ae_bcrypt env password of
           None \<Rightarrow> (db, Inl (AuthDenied ''bcrypt''))
         | Some h \<Rightarrow>
             let u = \<lparr> u_tenant = t, u_id = ''user_'' @ newid, u_email = email, u_name = name, u_status = ''active'',
                       u_password = h, u_password_set = Some now, u_last_login = None \<rparr> in
             and_then (auth_write db (CreateUserRow db t u)) (\<lambda>db _. (db, Inr u))))"

section \<open>Sessions\<close>

definition capped_idle :: "time \<Rightarrow> time \<Rightarrow> time" where
  "capped_idle now expires = (if expires < now + sessionIdleWindow then expires else now + sessionIdleWindow)"

definition IssueSession ::
  "auth_env \<Rightarrow> identity_db \<Rightarrow> time \<Rightarrow> string \<Rightarrow> string \<Rightarrow> duration \<Rightarrow> string \<Rightarrow> string \<Rightarrow> string \<Rightarrow> (string \<times> string \<times> string) auth_outcome" where
  "IssueSession env db now t u ttl secret csrf newid =
     (if ttl \<le> 0 then (db, Inl (AuthDenied ''session ttl must be positive''))
      else
        (let token = ''ses_'' @ secret;
             s = \<lparr> se_tenant = t, se_id = ''sess_'' @ newid, se_user = u, se_hash = ae_sha env token, se_csrf = csrf,
                   se_expires = now + ttl, se_idle = capped_idle now (now + ttl), se_revoked = None, se_reason = [] \<rparr> in
         and_then (auth_write db (CreateSession db t s)) (\<lambda>db _. (db, Inr (token, csrf, se_id s)))))"

definition AuthenticateSession :: "auth_env \<Rightarrow> identity_db \<Rightarrow> time \<Rightarrow> string \<Rightarrow> principal auth_outcome" where
  "AuthenticateSession env db now token =
     (if token = [] then (db, Inl (AuthDenied ''missing session token''))
      else
        (case GetSessionByTokenHash db (ae_sha env token) of
           Inl _ \<Rightarrow> (db, Inl errInvalidCredential)
         | Inr s \<Rightarrow>
             if se_revoked s \<noteq> None then (db, Inl (AuthDenied ''session is revoked''))
             else if se_expires s < now then (db, Inl (AuthDenied ''session is expired''))
             else if se_idle s < now then (db, Inl (AuthDenied ''session idle expired''))
             else
               (case GetUser db (se_tenant s) (se_user s) of
                  Inl _ \<Rightarrow> (db, Inl errInvalidCredential)
                | Inr u \<Rightarrow>
                    if u_status u \<noteq> ''active'' then (db, Inl (AuthDenied ''user is disabled''))
                    else (TouchSession db (se_tenant s) (se_id s) (capped_idle now (se_expires s)),
                          Inr ((principalForUser db u)\<lparr> p_credential := se_id s, p_credential_kind := CredentialKindSession,
                                 p_session := se_id s \<rparr>)))))"

definition RevokeSession :: "identity_db \<Rightarrow> time \<Rightarrow> string \<Rightarrow> string \<Rightarrow> string \<Rightarrow> identity_db" where
  "RevokeSession db now t i reason = RevokeSessionRow db t i now reason"

definition RevokeUserSessions :: "identity_db \<Rightarrow> time \<Rightarrow> string \<Rightarrow> string \<Rightarrow> string \<Rightarrow> identity_db" where
  "RevokeUserSessions db now t u reason = RevokeUserSessionRows db t u now reason"

definition ValidateCSRF :: "identity_db \<Rightarrow> string \<Rightarrow> string \<Rightarrow> string \<Rightarrow> auth_error option" where
  "ValidateCSRF db t i supplied =
     (if supplied = [] then Some (AuthDenied ''missing CSRF token'')
      else
        (case GetSession db t i of
           Inl e \<Rightarrow> Some e
         | Inr s \<Rightarrow>
             if se_revoked s \<noteq> None then Some (AuthDenied ''session is revoked'')
             else if se_csrf s \<noteq> supplied then Some (AuthDenied ''invalid CSRF token'')
             else None))"

section \<open>Delegation\<close>

definition ValidateDelegation :: "identity_db \<Rightarrow> time \<Rightarrow> principal \<Rightarrow> string \<Rightarrow> auth_error + principal" where
  "ValidateDelegation db now p delegator =
     (if p_actor_kind p \<noteq> ActorKindServiceAccount \<or> p_actor p = []
      then Inl (AuthDenied ''delegation requires a service-account principal'')
      else bind_r (FindDelegation db (p_tenant p) delegator (p_actor p)) (\<lambda>d.
        if de_revoked d \<noteq> None then Inl (AuthDenied ''delegation is revoked'')
        else if de_expires d < now then Inl (AuthDenied ''delegation is expired'')
        else (case DecodeAllowlist (de_scopes d) of (allowed, all) \<Rightarrow>
          if all then Inl (AuthDenied ''delegation allowed_scopes must be an explicit list'')
          else bind_r (GetUser db (p_tenant p) delegator) (\<lambda>u.
            if u_status u \<noteq> ''active'' then Inl (AuthDenied ''delegator is disabled'')
            else if \<not> allowed \<subseteq> p_scopes (principalForUser db u)
            then Inl (AuthDenied ''delegation scope exceeds delegator scopes'')
            else Inr (p\<lparr> p_scopes := p_scopes p \<inter> allowed, p_delegated_by := delegator, p_billing_subject := u_id u,
                   p_billing_subject_kind := BillingSubjectUser \<rparr>)))))"

definition ResolveTenantID :: "identity_db \<Rightarrow> string \<Rightarrow> auth_error + string" where
  "ResolveTenantID db slug = GetTenantBySlug db (go_lower (trim_space slug))"

end
