(* ===== verification/SignIn.thy ===== *)
theory SignIn
  imports Identity
begin

text \<open>
  Sign-in through external providers, from internal/auth/oidc.go and linking.go, and the browser handlers of
  internal/httpx/sessionauth.go over it: the authorization flow, the linking rules and the sessions they end in.
  Discovery, the code exchange and the verification of the ID token are one argument, which gives the
  verified claims for a provider, its secret, the redirect URL, the code and the PKCE verifier; URL parsing and
  environment variables are arguments too.
\<close>

section \<open>The environment\<close>

record id_token =
  it_subject :: string
  it_nonce :: string
  it_email :: string
  it_email_verified :: bool

record oidc_env =
  oe_auth :: auth_env
  oe_getenv :: "string \<Rightarrow> string option"
  oe_local_url :: "string \<Rightarrow> bool"
  oe_origin :: "string \<Rightarrow> string option"
  oe_discovered :: "string \<Rightarrow> bool"
  oe_exchange :: "oidc_provider \<Rightarrow> string \<Rightarrow> string \<Rightarrow> string \<Rightarrow> string \<Rightarrow> id_token option"

definition oidcStateTTL :: duration where
  "oidcStateTTL = 10 * 60 * second"

definition EnvSecretResolver :: "oidc_env \<Rightarrow> string \<Rightarrow> auth_error + string" where
  "EnvSecretResolver env ref =
     (if \<not> has_prefix ref ''env:'' then Inl (AuthDenied ''unsupported client_secret_ref'')
      else let name = trim_space (trim_prefix ref ''env:'') in
      if name = [] then Inl (AuthDenied ''unsupported client_secret_ref'')
      else (case oe_getenv env name of
              None \<Rightarrow> Inl (AuthDenied ''client secret env is not set'')
            | Some s \<Rightarrow> if s = [] then Inl (AuthDenied ''client secret env is not set'') else Inr s))"

text \<open>\<open>oe_local_url\<close> says that a target parses as a URL without scheme and host.\<close>

definition safeReturnPath :: "oidc_env \<Rightarrow> string \<Rightarrow> bool" where
  "safeReturnPath env target =
     (if target = [] then True
      else if has_prefix target ''//'' \<or> list_ex (\<lambda>c. c = CHR 0x0D \<or> c = CHR 0x0A) target then False
      else oe_local_url env target \<and> has_prefix target ''/'')"

text \<open>The provider's row, its secret and the callback URL.\<close>

definition flowClientFull :: "oidc_env \<Rightarrow> identity_db \<Rightarrow> string \<Rightarrow> string \<Rightarrow> string \<Rightarrow> auth_error + oidc_provider \<times> string \<times> string" where
  "flowClientFull env db t pid base =
     bind_r (GetOIDCProvider db t pid) (\<lambda>p.
       if \<not> op_enabled p then Inl (AuthDenied ''OIDC provider is disabled'')
       else if \<not> oe_discovered env (op_issuer p) then Inl (AuthDenied ''provider discovery'')
       else bind_r (EnvSecretResolver env (op_secret_ref p)) (\<lambda>s. Inr (p, s, base @ op_path p)))"

definition redirect_base :: "oidc_env \<Rightarrow> string \<Rightarrow> auth_error + string" where
  "redirect_base env base =
     (case oe_origin env (trim_space base) of
        None \<Rightarrow> Inl (AuthDenied ''redirect base must be an absolute origin'')
      | Some b \<Rightarrow> Inr b)"

section \<open>The flow\<close>

text \<open>The random values of a new state row: its id, the state or link token, the nonce and the PKCE verifier.\<close>

record flow_ids =
  fi_id :: string
  fi_token :: string
  fi_nonce :: string
  fi_pkce :: string

text \<open>The authorize URL is determined by the provider, the callback, the state, the nonce and the verifier.\<close>

type_synonym auth_url = "oidc_provider \<times> string \<times> string \<times> string \<times> string"

definition BeginFlow ::
  "oidc_env \<Rightarrow> identity_db \<Rightarrow> time \<Rightarrow> string \<Rightarrow> string \<Rightarrow> string \<Rightarrow> string \<Rightarrow> flow_ids \<Rightarrow> (auth_url \<times> string) auth_outcome" where
  "BeginFlow env db now t pid return_to base ids =
     and_then (demand db (safeReturnPath env return_to) (AuthDenied ''return_to must be a local path'')) (\<lambda>db _.
     and_then (db, redirect_base env base) (\<lambda>db b.
     and_then (db, flowClientFull env db t pid b) (\<lambda>db (p, secret, callback).
     let row = \<lparr> os_tenant = t, os_id = ''ostate_'' @ fi_id ids, os_hash = ae_sha (oe_auth env) (fi_token ids),
                 os_provider = op_id p, os_user = [], os_nonce = fi_nonce ids, os_pkce = fi_pkce ids,
                 os_return = return_to, os_subject = [], os_email = [], os_pending = [],
                 os_expires = now + oidcStateTTL, os_consumed = None \<rparr> in
     and_then (auth_write db (CreateOIDCState db t row)) (\<lambda>db _.
     (db, Inr ((p, callback, fi_token ids, fi_nonce ids, fi_pkce ids), fi_token ids))))))"

record flow_result =
  fr_user :: string
  fr_return :: string
  fr_link_required :: bool
  fr_link_token :: string
  fr_provider :: string
  fr_email :: string

definition linked_result :: "string \<Rightarrow> string \<Rightarrow> flow_result" where
  "linked_result u return_to =
     \<lparr> fr_user = u, fr_return = return_to, fr_link_required = False, fr_link_token = [], fr_provider = [], fr_email = [] \<rparr>"

definition newLinkChallenge ::
  "oidc_env \<Rightarrow> identity_db \<Rightarrow> time \<Rightarrow> string \<Rightarrow> oidc_provider \<Rightarrow> string \<Rightarrow> string \<Rightarrow> string \<Rightarrow> string \<Rightarrow> flow_ids \<Rightarrow> flow_result auth_outcome" where
  "newLinkChallenge env db now t p subj email candidate return_to ids =
     (let row = \<lparr> os_tenant = t, os_id = ''olink_'' @ fi_id ids, os_hash = ae_sha (oe_auth env) (fi_token ids),
                  os_provider = op_id p, os_user = [], os_nonce = ''link'', os_pkce = ''-'', os_return = return_to,
                  os_subject = subj, os_email = email, os_pending = candidate, os_expires = now + oidcStateTTL,
                  os_consumed = None \<rparr> in
      and_then (auth_write db (CreateOIDCState db t row)) (\<lambda>db _.
      (db, Inr \<lparr> fr_user = [], fr_return = return_to, fr_link_required = True, fr_link_token = fi_token ids,
                 fr_provider = op_name p, fr_email = email \<rparr>)))"

text \<open>An unlinked identity's candidate is found by a verified email only.\<close>

definition link_candidate :: "identity_db \<Rightarrow> string \<Rightarrow> string \<Rightarrow> bool \<Rightarrow> auth_error + string" where
  "link_candidate db t email verified =
     (if verified \<and> email \<noteq> [] then
        (case GetUserByEmail db t email of
           Inr u \<Rightarrow> if u_status u \<noteq> ''active'' then Inl (AuthDenied ''user is disabled'') else Inr (u_id u)
         | Inl AuthNotFound \<Rightarrow> Inr []
         | Inl e \<Rightarrow> Inl e)
      else Inr [])"

definition resolveIdentity ::
  "oidc_env \<Rightarrow> identity_db \<Rightarrow> time \<Rightarrow> string \<Rightarrow> oidc_provider \<Rightarrow> string \<Rightarrow> string \<Rightarrow> bool \<Rightarrow> string \<Rightarrow> flow_ids \<Rightarrow> flow_result auth_outcome" where
  "resolveIdentity env db now t p subj email verified return_to ids =
     (if subj = [] then (db, Inl (AuthDenied ''id_token missing subject''))
      else
        (case GetAuthIdentity db t (op_issuer p) subj of
           Inr a \<Rightarrow>
             and_then (db, GetUser db t (ai_user a)) (\<lambda>db u.
             and_then (demand db (u_status u = ''active'') (AuthDenied ''user is disabled'')) (\<lambda>db _.
             (db, Inr (linked_result (u_id u) return_to))))
         | Inl AuthNotFound \<Rightarrow>
             and_then (db, link_candidate db t email verified) (\<lambda>db candidate.
             newLinkChallenge env db now t p subj email candidate return_to ids)
         | Inl e \<Rightarrow> (db, Inl e)))"

definition CompleteFlow ::
  "oidc_env \<Rightarrow> identity_db \<Rightarrow> time \<Rightarrow> string \<Rightarrow> string \<Rightarrow> string \<Rightarrow> string \<Rightarrow> flow_ids \<Rightarrow> flow_result auth_outcome" where
  "CompleteFlow env db now t token code base ids =
     (case ConsumeOIDCState db t (ae_sha (oe_auth env) token) now of
        Inl e \<Rightarrow> (db, Inl (if e = AuthNotFound then AuthDenied ''invalid or replayed OIDC state'' else e))
      | Inr (db, row) \<Rightarrow>
          and_then (demand db (os_pending row = [] \<and> os_pkce row \<noteq> []) (AuthDenied ''invalid OIDC state kind'')) (\<lambda>db _.
          and_then (demand db (now \<le> os_expires row) (AuthDenied ''OIDC state expired'')) (\<lambda>db _.
          and_then (db, redirect_base env base) (\<lambda>db b.
          and_then (db, flowClientFull env db t (os_provider row) b) (\<lambda>db (p, secret, callback).
          case oe_exchange env p secret callback code (os_pkce row) of
            None \<Rightarrow> (db, Inl (AuthDenied ''code exchange or id_token verification''))
          | Some tok \<Rightarrow>
              and_then (demand db (it_nonce tok = os_nonce row) (AuthDenied ''OIDC nonce mismatch'')) (\<lambda>db _.
              resolveIdentity env db now t p (it_subject tok) (go_lower (trim_space (it_email tok)))
                (it_email_verified tok) (os_return row) ids))))))"

definition EnabledProviders :: "identity_db \<Rightarrow> string \<Rightarrow> oidc_provider list" where
  "EnabledProviders db t = filter op_enabled (ListOIDCProviders db t)"

section \<open>Linking\<close>

definition bad_challenge :: auth_error where
  "bad_challenge = AuthDenied ''invalid or expired link challenge''"

definition or_bad_challenge :: "auth_error + 'a \<Rightarrow> auth_error + 'a" where
  "or_bad_challenge r = (case r of Inl AuthNotFound \<Rightarrow> Inl bad_challenge | _ \<Rightarrow> r)"

definition ConfirmLink ::
  "oidc_env \<Rightarrow> identity_db \<Rightarrow> time \<Rightarrow> string \<Rightarrow> string \<Rightarrow> string \<Rightarrow> string \<Rightarrow> string \<Rightarrow> flow_result auth_outcome" where
  "ConfirmLink env db now t token email password newid =
     (let h = ae_sha (oe_auth env) token in
     and_then (db, or_bad_challenge (GetOIDCState db t h)) (\<lambda>db c.
     and_then (demand db (os_subject c \<noteq> [] \<and> os_consumed c = None) bad_challenge) (\<lambda>db _.
     and_then (demand db (now \<le> os_expires c) (AuthDenied ''link challenge expired'')) (\<lambda>db _.
     and_then (db, GetOIDCProvider db t (os_provider c)) (\<lambda>db p.
     and_then (AuthenticatePassword (oe_auth env) db now t email password) (\<lambda>db q.
     and_then (demand db (os_pending c = [] \<or> p_user q = os_pending c) errInvalidCredential) (\<lambda>db _.
     case or_bad_challenge (ConsumeOIDCState db t h now) of
       Inl e \<Rightarrow> (db, Inl e)
     | Inr (db, _) \<Rightarrow>
         and_then (auth_write db (RecordAuthIdentity db t
           \<lparr> ai_tenant = t, ai_id = ''aid_'' @ newid, ai_user = p_user q, ai_issuer = op_issuer p,
             ai_subject = os_subject c, ai_linked_at = now, ai_linked_by = p_user q \<rparr>)) (\<lambda>db _.
         (db, Inr (linked_result (p_user q) (os_return c)))))))))))"

section \<open>The browser's handlers\<close>

text \<open>A session's secrets as they are drawn, and the session a handler answers with: its token, its CSRF token and its id.\<close>

record session_ids =
  si_secret :: string
  si_csrf :: string
  si_id :: string

type_synonym cookies = "string \<times> string \<times> string"

definition issueSessionCookies ::
  "auth_env \<Rightarrow> identity_db \<Rightarrow> time \<Rightarrow> duration \<Rightarrow> string \<Rightarrow> string \<Rightarrow> session_ids \<Rightarrow> cookies auth_outcome" where
  "issueSessionCookies env db now ttl t u ids = IssueSession env db now t u ttl (si_secret ids) (si_csrf ids) (si_id ids)"

definition handleLoginPost ::
  "oidc_env \<Rightarrow> identity_db \<Rightarrow> time \<Rightarrow> duration \<Rightarrow> string \<Rightarrow> string \<Rightarrow> string \<Rightarrow> string \<Rightarrow> session_ids \<Rightarrow> cookies auth_outcome" where
  "handleLoginPost env db now ttl slug email password return_to ids =
     and_then (demand db (safeReturnPath env return_to) (AuthDenied ''Invalid return target'')) (\<lambda>db _.
     and_then (db, ResolveTenantID db slug) (\<lambda>db t.
     and_then (AuthenticatePassword (oe_auth env) db now t (trim_space email) password) (\<lambda>db p.
     issueSessionCookies (oe_auth env) db now ttl (p_tenant p) (p_user p) ids)))"

text \<open>The callback issues a session for a linked identity only; Inr None is the link form.\<close>

definition HandleOIDCCallback ::
  "oidc_env \<Rightarrow> identity_db \<Rightarrow> time \<Rightarrow> duration \<Rightarrow> string \<Rightarrow> string \<Rightarrow> string \<Rightarrow> string \<Rightarrow> flow_ids \<Rightarrow> session_ids \<Rightarrow> cookies option auth_outcome" where
  "HandleOIDCCallback env db now ttl slug token code base fids sids =
     and_then (db, ResolveTenantID db slug) (\<lambda>db t.
     and_then (CompleteFlow env db now t token code base fids) (\<lambda>db res.
     if fr_link_required res then (db, Inr None)
     else and_then (issueSessionCookies (oe_auth env) db now ttl t (fr_user res) sids) (\<lambda>db c. (db, Inr (Some c)))))"

definition HandleLinkIdentity ::
  "oidc_env \<Rightarrow> identity_db \<Rightarrow> time \<Rightarrow> duration \<Rightarrow> string \<Rightarrow> string \<Rightarrow> string \<Rightarrow> string \<Rightarrow> string \<Rightarrow> session_ids \<Rightarrow> cookies auth_outcome" where
  "HandleLinkIdentity env db now ttl slug token email password newid sids =
     and_then (db, ResolveTenantID db slug) (\<lambda>db t.
     and_then (ConfirmLink env db now t token (trim_space email) password newid) (\<lambda>db res.
     issueSessionCookies (oe_auth env) db now ttl t (fr_user res) sids))"

text \<open>The principal of the request's session cookie; the database comes back with the session touched.\<close>

definition SessionPrincipal :: "auth_env \<Rightarrow> identity_db \<Rightarrow> time \<Rightarrow> string option \<Rightarrow> identity_db \<times> principal option" where
  "SessionPrincipal env db now cookie =
     (case cookie of
        None \<Rightarrow> (db, None)
      | Some c \<Rightarrow>
          if trim_space c = [] then (db, None)
          else (case AuthenticateSession env db now c of (db', Inr p) \<Rightarrow> (db', Some p) | (db', Inl _) \<Rightarrow> (db', None)))"

definition csrfFromRequest :: "string \<Rightarrow> string option \<Rightarrow> string" where
  "csrfFromRequest header cookie =
     (if trim_space header \<noteq> [] then trim_space header else (case cookie of Some c \<Rightarrow> c | None \<Rightarrow> []))"

datatype gate_answer = Served principal | LoginRequired | CSRFRefused

definition RequireSession ::
  "auth_env \<Rightarrow> identity_db \<Rightarrow> time \<Rightarrow> bool \<Rightarrow> string option \<Rightarrow> string \<Rightarrow> string option \<Rightarrow> identity_db \<times> gate_answer" where
  "RequireSession env db now safe_method cookie csrf_header csrf_cookie =
     (case SessionPrincipal env db now cookie of
        (db, None) \<Rightarrow> (db, LoginRequired)
      | (db, Some p) \<Rightarrow>
          if \<not> safe_method \<and> ValidateCSRF db (p_tenant p) (p_session p) (csrfFromRequest csrf_header csrf_cookie) \<noteq> None
          then (db, CSRFRefused) else (db, Served p))"

text \<open>The session is revoked only when the CSRF token matches; the result says whether it was.\<close>

definition HandleLogout ::
  "auth_env \<Rightarrow> identity_db \<Rightarrow> time \<Rightarrow> string option \<Rightarrow> string \<Rightarrow> string option \<Rightarrow> identity_db \<times> bool" where
  "HandleLogout env db now cookie csrf_header csrf_cookie =
     (case SessionPrincipal env db now cookie of
        (db, None) \<Rightarrow> (db, False)
      | (db, Some p) \<Rightarrow>
          if ValidateCSRF db (p_tenant p) (p_session p) (csrfFromRequest csrf_header csrf_cookie) \<noteq> None then (db, False)
          else (RevokeSession db now (p_tenant p) (p_session p) ''logout'', True))"

end
