(* ===== verification/IdentityAdmin.thy ===== *)
theory IdentityAdmin
  imports SignIn
begin

text \<open>
  The administration of identities, from internal/httpx/identities.go and the API key handlers of
  internal/httpx/admin.go: what a request by an authenticated principal does to the identity tables. A handler is the
  operation behind its method and path with the decoded payload as an argument; the rendering of answers and the
  listings that change nothing are left out. That the caller has the scope of the route is checked before.
\<close>

section \<open>Refusals\<close>

datatype refusal = NotFound404 | Forbidden string | LastAdmin | BadRequest string | ServerError

type_synonym 'a answer = "identity_db \<times> (refusal + 'a)"

text \<open>\<open>writeIdentityError\<close>: an absent row is 404, a missing scope 403.\<close>

definition scope_required :: "string \<Rightarrow> bool" where
  "scope_required m = contains_str m ''scope required''"

definition identity_refusal :: "auth_error \<Rightarrow> refusal" where
  "identity_refusal e =
     (case e of
        AuthNotFound \<Rightarrow> NotFound404
      | AuthDenied m \<Rightarrow> if scope_required m then Forbidden m else ServerError
      | AuthStore \<Rightarrow> ServerError)"

definition fetched :: "identity_db \<Rightarrow> auth_error + 'a \<Rightarrow> 'a answer" where
  "fetched db r = (db, map_sum identity_refusal id r)"

definition stored :: "identity_db \<Rightarrow> auth_error + identity_db \<Rightarrow> unit answer" where
  "stored db r = (case r of Inl _ \<Rightarrow> (db, Inl ServerError) | Inr db' \<Rightarrow> (db', Inr ()))"

section \<open>Shared guards\<close>

definition scopesSubsetOfCaller :: "principal \<Rightarrow> string list \<Rightarrow> bool" where
  "scopesSubsetOfCaller p granted = list_all (HasScope p) granted"

text \<open>True when holders of the scope remain without the ones named.\<close>

definition lastAdminExcluded :: "identity_db \<Rightarrow> time \<Rightarrow> string \<Rightarrow> string \<Rightarrow> string set \<Rightarrow> bool" where
  "lastAdminExcluded db now t user keys =
     (case AdminHolderCounts db t ScopePlatformAdmin now of
        (us, ks) \<Rightarrow> filter (\<lambda>i. i \<noteq> user) us \<noteq> [] \<or> filter (\<lambda>i. i \<notin> keys) ks \<noteq> [])"

definition userIsAdmin :: "identity_db \<Rightarrow> string \<Rightarrow> string \<Rightarrow> bool" where
  "userIsAdmin db t u = list_ex (\<lambda>r. ScopePlatformAdmin \<in> set (ro_scopes r)) (RolesForUser db t u)"

definition keyRecordHasScope :: "api_key \<Rightarrow> string \<Rightarrow> bool" where
  "keyRecordHasScope k scope \<longleftrightarrow> scope \<in> fst (DecodeAllowlist (ak_scopes k))"

section \<open>Users\<close>

definition assignRoleChecked :: "identity_db \<Rightarrow> principal \<Rightarrow> string \<Rightarrow> string \<Rightarrow> unit answer" where
  "assignRoleChecked db p u i =
     and_then (fetched db (GetRole db (p_tenant p) i)) (\<lambda>db r.
     and_then (demand db (scopesSubsetOfCaller p (ro_scopes r)) (Forbidden ''role grants scopes the caller does not hold'')) (\<lambda>db _.
     stored db (AssignRole db (p_tenant p) u i)))"

fun assign_roles :: "identity_db \<Rightarrow> principal \<Rightarrow> string \<Rightarrow> string list \<Rightarrow> unit answer" where
  "assign_roles db p u [] = (db, Inr ())"
| "assign_roles db p u (i # is) = and_then (assignRoleChecked db p u i) (\<lambda>db _. assign_roles db p u is)"

definition unassignRoleChecked :: "identity_db \<Rightarrow> time \<Rightarrow> principal \<Rightarrow> user \<Rightarrow> string \<Rightarrow> unit answer" where
  "unassignRoleChecked db now p u i =
     and_then (fetched db (GetRole db (p_tenant p) i)) (\<lambda>db r.
     and_then (demand db
       ((u_status u = ''active'' \<and> ScopePlatformAdmin \<in> set (ro_scopes r)) \<longrightarrow> lastAdminExcluded db now (p_tenant p) (u_id u) {})
       LastAdmin) (\<lambda>db _.
     (UnassignRole db (p_tenant p) (u_id u) i, Inr ())))"

definition setUserPassword :: "auth_env \<Rightarrow> identity_db \<Rightarrow> time \<Rightarrow> user \<Rightarrow> string \<Rightarrow> unit answer" where
  "setUserPassword env db now u password =
     (if password = [] then (db, Inl (BadRequest ''password is required''))
      else (case ae_bcrypt env password of
              None \<Rightarrow> (db, Inl ServerError)
            | Some h \<Rightarrow> (SetPassword db (u_tenant u) (u_id u) h now, Inr ())))"

definition revokeUserSession :: "identity_db \<Rightarrow> time \<Rightarrow> string \<Rightarrow> string \<Rightarrow> string \<Rightarrow> unit answer" where
  "revokeUserSession db now t u i =
     and_then (fetched db (GetSession db t i)) (\<lambda>db s.
     and_then (demand db (se_user s = u) NotFound404) (\<lambda>db _.
     (RevokeSession db now t i ''administrator revocation'', Inr ())))"

definition createIdentityUser ::
  "auth_env \<Rightarrow> identity_db \<Rightarrow> time \<Rightarrow> principal \<Rightarrow> string \<Rightarrow> string \<Rightarrow> string \<Rightarrow> string list \<Rightarrow> string \<Rightarrow> user answer" where
  "createIdentityUser env db now p email name password role_ids newid =
     (let e = go_lower (trim_space email) in
     and_then (demand db (e \<noteq> [] \<and> contains_str e ''@'') (BadRequest ''a valid email is required'')) (\<lambda>db _.
     and_then (demand db (password \<noteq> []) (BadRequest ''password is required'')) (\<lambda>db _.
     case CreateUser env db p (p_tenant p) e (trim_space name) password newid now of
       (db, Inl err) \<Rightarrow> (db, Inl (identity_refusal err))
     | (db, Inr u) \<Rightarrow> and_then (assign_roles db p (u_id u) role_ids) (\<lambda>db _. (db, Inr u)))))"

text \<open>The change of a user's status: PATCH of \<open>handleIdentityUser\<close>.\<close>

definition valid_status :: "string \<Rightarrow> bool" where
  "valid_status st \<longleftrightarrow> st = [] \<or> st = ''active'' \<or> st = ''disabled''"

definition patchUser :: "identity_db \<Rightarrow> time \<Rightarrow> principal \<Rightarrow> user \<Rightarrow> string \<Rightarrow> unit answer" where
  "patchUser db now p u status =
     (let st = trim_space status; t = p_tenant p in
     and_then (demand db (valid_status st) (BadRequest ''status must be active or disabled'')) (\<lambda>db _.
     and_then (demand db
       ((st \<noteq> [] \<and> st \<noteq> ''active'' \<and> u_status u = ''active'' \<and> userIsAdmin db t (u_id u)) \<longrightarrow>
         lastAdminExcluded db now t (u_id u) {}) LastAdmin) (\<lambda>db _.
     let db1 = (if st \<noteq> [] \<and> st \<noteq> u_status u
                then (let db' = UpdateUserStatus db t (u_id u) st in
                      if st \<noteq> ''active'' then RevokeUserSessions db' now t (u_id u) ''user disabled'' else db')
                else db) in
     and_then (fetched db1 (GetUser db1 t (u_id u))) (\<lambda>db _. (db, Inr ())))))"

text \<open>Every operation on a user first finds the user in the caller's tenant.\<close>

definition on_user :: "identity_db \<Rightarrow> principal \<Rightarrow> string \<Rightarrow> (user \<Rightarrow> 'a answer) \<Rightarrow> 'a answer" where
  "on_user db p i f = and_then (fetched db (GetUser db (p_tenant p) i)) (\<lambda>_ u. f u)"

section \<open>Roles and service accounts\<close>

definition createIdentityRole :: "identity_db \<Rightarrow> principal \<Rightarrow> string \<Rightarrow> string list \<Rightarrow> string \<Rightarrow> role answer" where
  "createIdentityRole db p name scopes newid =
     (let r = \<lparr> ro_tenant = p_tenant p, ro_id = newid, ro_name = trim_space name, ro_scopes = scopes \<rparr> in
     and_then (demand db (trim_space name \<noteq> []) (BadRequest ''name is required'')) (\<lambda>db _.
     and_then (demand db (scopesSubsetOfCaller p scopes) (Forbidden ''role scopes must be a subset of the caller's scopes'')) (\<lambda>db _.
     and_then (stored db (CreateRole db (p_tenant p) r)) (\<lambda>db _. (db, Inr r)))))"

definition createIdentityServiceAccount :: "identity_db \<Rightarrow> principal \<Rightarrow> string \<Rightarrow> string list \<Rightarrow> string \<Rightarrow> service_account answer" where
  "createIdentityServiceAccount db p name scopes newid =
     (let s = \<lparr> sa_tenant = p_tenant p, sa_id = newid, sa_name = trim_space name, sa_scopes = scopes, sa_status = ''active'' \<rparr> in
     and_then (demand db (trim_space name \<noteq> []) (BadRequest ''name is required'')) (\<lambda>db _.
     and_then (demand db (scopesSubsetOfCaller p scopes)
       (Forbidden ''service account scopes must be a subset of the caller's scopes'')) (\<lambda>db _.
     and_then (stored db (CreateServiceAccount db (p_tenant p) s)) (\<lambda>db _. (db, Inr s)))))"

definition account_admin_keys :: "identity_db \<Rightarrow> string \<Rightarrow> string \<Rightarrow> string set" where
  "account_admin_keys db t i =
     set (map ak_id (filter (\<lambda>k. ak_account k = i \<and> ak_revoked k = None \<and> keyRecordHasScope k ScopePlatformAdmin)
       (ListAPIKeys db t)))"

definition patchServiceAccount :: "identity_db \<Rightarrow> time \<Rightarrow> principal \<Rightarrow> string \<Rightarrow> string \<Rightarrow> unit answer" where
  "patchServiceAccount db now p i status =
     (let st = trim_space status; t = p_tenant p in
     and_then (fetched db (GetServiceAccount db t i)) (\<lambda>db s.
     and_then (demand db (valid_status st) (BadRequest ''status must be active or disabled'')) (\<lambda>db _.
     let excluded = account_admin_keys db t (sa_id s) in
     and_then (demand db
       ((st \<noteq> [] \<and> st \<noteq> ''active'' \<and> sa_status s = ''active'' \<and> excluded \<noteq> {}) \<longrightarrow> lastAdminExcluded db now t [] excluded)
       LastAdmin) (\<lambda>db _.
     (if st \<noteq> [] \<and> st \<noteq> sa_status s then UpdateServiceAccountStatus db t (sa_id s) st else db, Inr ())))))"

section \<open>One's own account\<close>

definition changeOwnPassword :: "auth_env \<Rightarrow> identity_db \<Rightarrow> time \<Rightarrow> principal \<Rightarrow> string \<Rightarrow> string \<Rightarrow> unit answer" where
  "changeOwnPassword env db now p current password =
     and_then (demand db (p_user p \<noteq> []) (Forbidden ''a user identity is required'')) (\<lambda>db _.
     and_then (fetched db (GetUser db (p_tenant p) (p_user p))) (\<lambda>db u.
     and_then (demand db (ae_verify env (u_password u) current) (Forbidden ''current password is incorrect'')) (\<lambda>db _.
     setUserPassword env db now u password)))"

definition revokeOwnSession :: "identity_db \<Rightarrow> time \<Rightarrow> principal \<Rightarrow> string \<Rightarrow> unit answer" where
  "revokeOwnSession db now p i =
     and_then (demand db (p_user p \<noteq> []) (Forbidden ''a user identity is required'')) (\<lambda>db _.
     and_then (fetched db (GetUser db (p_tenant p) (p_user p))) (\<lambda>db u.
     revokeUserSession db now (p_tenant p) (u_id u) i))"

definition handleIdentityLink :: "oidc_env \<Rightarrow> identity_db \<Rightarrow> time \<Rightarrow> principal \<Rightarrow> string \<Rightarrow> string \<Rightarrow> string \<Rightarrow> string answer" where
  "handleIdentityLink env db now p token password newid =
     and_then (demand db (p_user p \<noteq> []) (Forbidden ''a user identity is required'')) (\<lambda>db _.
     and_then (demand db (trim_space token \<noteq> []) (BadRequest ''link_token is required'')) (\<lambda>db _.
     and_then (fetched db (GetUser db (p_tenant p) (p_user p))) (\<lambda>db u.
     case ConfirmLink env db now (p_tenant p) token (u_email u) password newid of
       (db, Inl _) \<Rightarrow> (db, Inl (Forbidden ''account linking failed''))
     | (db, Inr res) \<Rightarrow>
         if fr_user res \<noteq> p_user p then (db, Inl (Forbidden ''account linking failed'')) else (db, Inr (fr_user res)))))"

section \<open>API keys\<close>

definition adminGrantJSON :: "string list option \<Rightarrow> raw_json" where
  "adminGrantJSON items =
     (case items of
        None \<Rightarrow> marshal_allowlist \<lparr> al_all = True, al_items = [] \<rparr>
      | Some xs \<Rightarrow>
          if list_ex (\<lambda>x. trim_space x = ''*'') xs then marshal_allowlist \<lparr> al_all = True, al_items = [] \<rparr>
          else marshal_allowlist \<lparr> al_all = False, al_items = xs \<rparr>)"

text \<open>The payload after it was decoded and sanitized; \<open>rk_expires\<close> is the parsed time, the empty text is \<open>Some None\<close>.\<close>

record key_request =
  rk_name :: string
  rk_owner :: string
  rk_account :: string
  rk_scopes :: "string list option"
  rk_models :: "string list option"
  rk_endpoints :: "string list option"
  rk_templates :: "string list option"
  rk_chatbots :: "string list option"
  rk_agents :: "string list option"
  rk_ips :: "string list option"
  rk_rate_minute :: "int option"
  rk_rate_hour :: "int option"
  rk_rate_day :: "int option"
  rk_active :: "bool option"
  rk_expires :: "time option option"

definition positive_rate :: "int option \<Rightarrow> bool" where
  "positive_rate r = (case r of None \<Rightarrow> True | Some n \<Rightarrow> 0 < n)"

definition sanitizeAdminAPIKeyRequest :: "key_request \<Rightarrow> bool \<Rightarrow> refusal option" where
  "sanitizeAdminAPIKeyRequest req require_name =
     (if require_name \<and> trim_space (rk_name req) = [] then Some (BadRequest ''name is required'')
      else if rk_owner req \<noteq> [] \<and> rk_account req \<noteq> []
      then Some (BadRequest ''only one of owner_user_id and service_account_id may be set'')
      else if \<not> (positive_rate (rk_rate_minute req) \<and> positive_rate (rk_rate_hour req) \<and> positive_rate (rk_rate_day req))
      then Some (BadRequest ''rate limits must be positive integers'')
      else None)"

definition key_owner :: "principal \<Rightarrow> key_request \<Rightarrow> string \<times> string" where
  "key_owner p req =
     (let owner = trim_space (rk_owner req); account = trim_space (rk_account req) in
      if owner = [] \<and> account = [] then
        (if p_actor_kind p = ActorKindServiceAccount then ([], p_actor p) else (p_user p, []))
      else (owner, account))"

definition apiKeyRecordFromAdminRequest :: "identity_db \<Rightarrow> principal \<Rightarrow> key_request \<Rightarrow> string \<Rightarrow> refusal + api_key" where
  "apiKeyRecordFromAdminRequest db p req newid =
     (case key_owner p req of (owner, account) \<Rightarrow>
      if owner = [] \<and> account = [] then Inl (BadRequest ''owner_user_id or service_account_id is required'')
      else if owner \<noteq> [] \<and> \<not> is_ok (GetUser db (p_tenant p) owner)
      then Inl (BadRequest ''owner_user_id does not reference an existing user'')
      else if account \<noteq> [] \<and> \<not> is_ok (GetServiceAccount db (p_tenant p) account)
      then Inl (BadRequest ''service_account_id does not reference an existing service account'')
      else Inr \<lparr> ak_tenant = p_tenant p, ak_id = newid, ak_owner = owner, ak_account = account,
        ak_name = trim_space (rk_name req), ak_prefix = [], ak_hash = [], ak_algo = [],
        ak_scopes = adminGrantJSON (rk_scopes req), ak_models = adminGrantJSON (rk_models req),
        ak_templates = adminGrantJSON (rk_templates req), ak_chatbots = adminGrantJSON (rk_chatbots req),
        ak_agents = adminGrantJSON (rk_agents req), ak_endpoints = adminGrantJSON (rk_endpoints req),
        ak_ips = adminGrantJSON (rk_ips req), ak_rate_minute = rk_rate_minute req, ak_rate_hour = rk_rate_hour req,
        ak_rate_day = rk_rate_day req, ak_active = (case rk_active req of None \<Rightarrow> True | Some b \<Rightarrow> b),
        ak_expires = (case rk_expires req of Some e \<Rightarrow> e | None \<Rightarrow> None), ak_revoked = None, ak_last_used = None \<rparr>)"

text \<open>A new secret: prefix and random part, hashed for storage with the deployment's algorithm.\<close>

definition generateKey :: "auth_env \<Rightarrow> string \<Rightarrow> string \<Rightarrow> string \<Rightarrow> auth_error + string \<times> string \<times> string \<times> string" where
  "generateKey env prefix algo secret =
     (let plaintext = prefix @ secret in
      map_sum id (\<lambda>(sp, h, a). (plaintext, sp, h, a)) (HashForStorage env plaintext algo (ae_pepper env)))"

definition writeScopeSubsetError :: "principal \<Rightarrow> api_key \<Rightarrow> bool" where
  "writeScopeSubsetError p k \<longleftrightarrow> (\<forall>s \<in> fst (DecodeAllowlist (ak_scopes k)). HasScope p s)"

definition lastAdminKeyExcluded :: "identity_db \<Rightarrow> time \<Rightarrow> principal \<Rightarrow> api_key \<Rightarrow> bool" where
  "lastAdminKeyExcluded db now p k \<longleftrightarrow>
     (if keyRecordHasScope k ScopePlatformAdmin then lastAdminExcluded db now (p_tenant p) [] {ak_id k} else True)"

definition createAdminKey ::
  "auth_env \<Rightarrow> string \<Rightarrow> string \<Rightarrow> identity_db \<Rightarrow> principal \<Rightarrow> key_request \<Rightarrow> string \<Rightarrow> string \<Rightarrow> (string \<times> api_key) answer" where
  "createAdminKey env prefix algo db p req secret newid =
     (case sanitizeAdminAPIKeyRequest req True of
        Some e \<Rightarrow> (db, Inl e)
      | None \<Rightarrow>
          and_then (db, apiKeyRecordFromAdminRequest db p req newid) (\<lambda>db k.
          case generateKey env prefix algo secret of
            Inl _ \<Rightarrow> (db, Inl ServerError)
          | Inr (plaintext, sp, h, a) \<Rightarrow>
              let k' = k\<lparr> ak_prefix := sp, ak_hash := h, ak_algo := a \<rparr> in
              and_then (demand db (writeScopeSubsetError p k') (Forbidden ''key scopes must be a subset of the caller's scopes'')) (\<lambda>db _.
              and_then (stored db (CreateAPIKey db (p_tenant p) k')) (\<lambda>db _.
              and_then (fetched db (GetAPIKey db (p_tenant p) newid)) (\<lambda>db created.
              (db, Inr (plaintext, created)))))))"

definition regenerateKey ::
  "auth_env \<Rightarrow> string \<Rightarrow> string \<Rightarrow> identity_db \<Rightarrow> time \<Rightarrow> principal \<Rightarrow> string \<Rightarrow> string \<Rightarrow> string answer" where
  "regenerateKey env prefix algo db now p i secret =
     and_then (fetched db (GetAPIKey db (p_tenant p) i)) (\<lambda>db k.
     case generateKey env prefix algo secret of
       Inl _ \<Rightarrow> (db, Inl ServerError)
     | Inr (plaintext, sp, h, a) \<Rightarrow>
         and_then (stored db (SetAPIKeySecret db (p_tenant p) i sp h a)) (\<lambda>db _.
         and_then (if ak_active k then (db, Inr ())
                   else stored db (UpdateAPIKey db (p_tenant p) (k\<lparr> ak_active := True \<rparr>) now)) (\<lambda>db _.
         (db, Inr plaintext))))"

definition deleteKey :: "identity_db \<Rightarrow> time \<Rightarrow> principal \<Rightarrow> string \<Rightarrow> unit answer" where
  "deleteKey db now p i =
     and_then (fetched db (GetAPIKey db (p_tenant p) i)) (\<lambda>db k.
     and_then (demand db (lastAdminKeyExcluded db now p k) LastAdmin) (\<lambda>db _.
     (RevokeAPIKeyRow db (p_tenant p) i now, Inr ())))"

definition restoreKey :: "identity_db \<Rightarrow> time \<Rightarrow> principal \<Rightarrow> string \<Rightarrow> unit answer" where
  "restoreKey db now p i =
     and_then (fetched db (GetAPIKey db (p_tenant p) i)) (\<lambda>db k.
     stored db (UpdateAPIKey db (p_tenant p) (k\<lparr> ak_active := True, ak_revoked := None \<rparr>) now))"

definition patch_grant :: "string list option \<Rightarrow> raw_json \<Rightarrow> raw_json" where
  "patch_grant v old = (case v of None \<Rightarrow> old | Some xs \<Rightarrow> adminGrantJSON (Some xs))"

definition patch_field :: "'a option \<Rightarrow> 'a \<Rightarrow> 'a" where
  "patch_field v old = (case v of None \<Rightarrow> old | Some x \<Rightarrow> x)"

definition applyAdminPatch :: "api_key \<Rightarrow> key_request \<Rightarrow> api_key" where
  "applyAdminPatch k req =
     k\<lparr> ak_name := (if trim_space (rk_name req) \<noteq> [] then trim_space (rk_name req) else ak_name k),
        ak_scopes := patch_grant (rk_scopes req) (ak_scopes k), ak_models := patch_grant (rk_models req) (ak_models k),
        ak_endpoints := patch_grant (rk_endpoints req) (ak_endpoints k),
        ak_templates := patch_grant (rk_templates req) (ak_templates k),
        ak_chatbots := patch_grant (rk_chatbots req) (ak_chatbots k), ak_agents := patch_grant (rk_agents req) (ak_agents k),
        ak_ips := patch_grant (rk_ips req) (ak_ips k),
        ak_rate_minute := (if rk_rate_minute req = None then ak_rate_minute k else rk_rate_minute req),
        ak_rate_hour := (if rk_rate_hour req = None then ak_rate_hour k else rk_rate_hour req),
        ak_rate_day := (if rk_rate_day req = None then ak_rate_day k else rk_rate_day req),
        ak_active := patch_field (rk_active req) (ak_active k), ak_expires := patch_field (rk_expires req) (ak_expires k) \<rparr>"

definition putKey :: "identity_db \<Rightarrow> time \<Rightarrow> principal \<Rightarrow> string \<Rightarrow> key_request \<Rightarrow> unit answer" where
  "putKey db now p i req =
     and_then (fetched db (GetAPIKey db (p_tenant p) i)) (\<lambda>db k0.
     case sanitizeAdminAPIKeyRequest req False of
       Some e \<Rightarrow> (db, Inl e)
     | None \<Rightarrow>
         let k = applyAdminPatch k0 req in
         and_then (demand db (writeScopeSubsetError p k) (Forbidden ''key scopes must be a subset of the caller's scopes'')) (\<lambda>db _.
         and_then (demand db (rk_active req = Some False \<longrightarrow> lastAdminKeyExcluded db now p k) LastAdmin) (\<lambda>db _.
         stored db (UpdateAPIKey db (p_tenant p) k now))))"

end
