(* ===== verification/IdentityProps.thy ===== *)
theory IdentityProps
  imports Identity
begin

text \<open>
  What a credential is worth: an API key authenticates only as a live row allows it, an issued key authenticates with
  exactly the grants it was issued with, and a delegation gives a subset of both sides' scopes.
\<close>

section \<open>Rows\<close>

lemma row_or_absent_Inr: "row_or_absent P t = Inr r \<Longrightarrow> r \<in> set t \<and> P r"
  by (auto simp: row_or_absent_def split: option.splits dest: find_row_Some)

lemma row_or_absent_Inl: "row_or_absent P t = Inl e \<Longrightarrow> e = AuthNotFound \<and> (\<forall>r\<in>set t. \<not> P r)"
  by (auto simp: row_or_absent_def find_row_None split: option.splits)

lemma GetUser_Inr: "GetUser db t i = Inr u \<Longrightarrow> u \<in> set (id_users db) \<and> u_key u = (t, i)"
  unfolding GetUser_def by (drule row_or_absent_Inr) simp

lemma GetServiceAccount_Inr: "GetServiceAccount db t i = Inr s \<Longrightarrow> s \<in> set (id_accounts db) \<and> sa_key s = (t, i)"
  unfolding GetServiceAccount_def by (drule row_or_absent_Inr) simp

section \<open>Authentication of a key\<close>

text \<open>A key row that a secret opens at a time.\<close>

definition key_live :: "api_key \<Rightarrow> time \<Rightarrow> bool" where
  "key_live k now \<longleftrightarrow> ak_revoked k = None \<and> (case ak_expires k of None \<Rightarrow> True | Some e \<Rightarrow> now \<le> e)"

definition opens :: "auth_env \<Rightarrow> string \<Rightarrow> api_key \<Rightarrow> bool" where
  "opens env plaintext k \<longleftrightarrow> ak_prefix k = take 8 plaintext \<and> hashAPIKey env plaintext (key_algo k) = Inr (ak_hash k)"

lemma key_grants_scan [simp]: "key_grants (scanAPIKey k) = key_grants k"
  by (simp add: key_grants_def scanAPIKey_def)

lemma key_algo_scan [simp]: "key_algo (scanAPIKey k) = key_algo k"
  by (simp add: key_algo_def scanAPIKey_def)

lemma key_principal_scan [simp]: "key_principal db (scanAPIKey k) = key_principal db k"
proof -
  have "ak_owner (scanAPIKey k) = ak_owner k" "ak_account (scanAPIKey k) = ak_account k"
    "ak_tenant (scanAPIKey k) = ak_tenant k" "ak_id (scanAPIKey k) = ak_id k"
    by (simp_all add: scanAPIKey_def)
  then show ?thesis by (simp only: key_principal_def key_grants_scan)
qed

lemma match_candidates_Inr:
  assumes "match_candidates env db now plaintext ks = (db', Inr p)"
  shows "\<exists>k \<in> set ks. hashAPIKey env plaintext (key_algo k) = Inr (ak_hash k) \<and> ak_active k \<and> key_live k now \<and>
    key_principal db k = Inr p \<and> db' = TouchAPIKeyUsage db (ak_tenant k) (ak_id k) now"
  using assms
  by (induction ks) (auto simp: principalFromKey_def key_live_def not_less split: if_splits sum.splits option.splits)

text \<open>The principal of a key: its tenant and grants, and who acts and pays.\<close>

lemma key_principal_Inr:
  assumes "key_principal db k = Inr p"
  shows "p_tenant p = ak_tenant k \<and> p_credential p = ak_id k \<and> p_scopes p = fst (DecodeAllowlist (ak_scopes k)) \<and>
    p_billing_subject p = p_actor p \<and>
    (if ak_owner k \<noteq> []
     then p_actor p = ak_owner k \<and> (\<exists>u \<in> set (id_users db). u_key u = (ak_tenant k, ak_owner k) \<and> u_status u = ''active'')
     else if ak_account k \<noteq> []
     then p_actor p = ak_account k \<and>
       (\<exists>s \<in> set (id_accounts db). sa_key s = (ak_tenant k, ak_account k) \<and> sa_status s = ''active'')
     else p_actor p = ak_id k)"
  using assms
  by (auto simp: key_principal_def bind_r_Inr key_grants_def zero_principal_def u_key_def sa_key_def
      dest!: GetUser_Inr GetServiceAccount_Inr split: if_splits)

text \<open>
  C7: A key authenticates only as a stored row allows it. When a secret is accepted there is a row with its
  prefix whose stored hash is the secret's under the row's algorithm, which is neither revoked nor expired; the
  principal has the row's tenant and scopes, acts and pays as the row's owner, who exists and is active, and all that
  happened is that the row's last use was noted.
\<close>

theorem authenticated_key_is_live:
  assumes "Authenticate env db now plaintext = (db', Inr p)"
  shows "\<exists>k \<in> set (id_keys db). opens env plaintext k \<and> key_live k now \<and> key_principal db k = Inr p \<and>
    p_tenant p = ak_tenant k \<and> p_credential p = ak_id k \<and> p_scopes p = fst (DecodeAllowlist (ak_scopes k)) \<and>
    p_billing_subject p = p_actor p \<and>
    (if ak_owner k \<noteq> []
     then p_actor p = ak_owner k \<and> (\<exists>u \<in> set (id_users db). u_key u = (ak_tenant k, ak_owner k) \<and> u_status u = ''active'')
     else if ak_account k \<noteq> []
     then p_actor p = ak_account k \<and>
       (\<exists>s \<in> set (id_accounts db). sa_key s = (ak_tenant k, ak_account k) \<and> sa_status s = ''active'')
     else p_actor p = ak_id k) \<and>
    db' = TouchAPIKeyUsage db (ak_tenant k) (ak_id k) now"
proof -
  from assms have "match_candidates env db now plaintext (FindKeyCandidates db (take 8 plaintext)) = (db', Inr p)"
    by (auto simp: Authenticate_def split: if_splits)
  from match_candidates_Inr[OF this] obtain c where c: "c \<in> set (FindKeyCandidates db (take 8 plaintext))"
    "hashAPIKey env plaintext (key_algo c) = Inr (ak_hash c)" "key_live c now" "key_principal db c = Inr p"
    "db' = TouchAPIKeyUsage db (ak_tenant c) (ak_id c) now" by blast
  then obtain k where k: "k \<in> set (id_keys db)" "ak_prefix k = take 8 plaintext" "c = scanAPIKey k"
    by (auto simp: FindKeyCandidates_def dest!: in_set_takeD)
  have kp: "key_principal db k = Inr p" and o: "opens env plaintext k" and l: "key_live k now"
    and d: "db' = TouchAPIKeyUsage db (ak_tenant k) (ak_id k) now"
    using c(2-) k(2) unfolding k(3) by (simp_all add: opens_def key_live_def) (simp_all add: scanAPIKey_def)
  show ?thesis by (rule bexI[of _ k]) (use k(1) kp o l d key_principal_Inr[OF kp] in simp_all)
qed

section \<open>Issuing a key\<close>

lemma match_candidates_finds:
  assumes "k \<in> set ks" and "hashAPIKey env plaintext (key_algo k) = Inr (ak_hash k)" and "ak_active k" and "key_live k now"
    and "\<And>x. x \<in> set ks \<Longrightarrow> hashAPIKey env plaintext (key_algo x) = Inr (ak_hash x) \<Longrightarrow> x = k"
  shows "match_candidates env db now plaintext ks = principalFromKey db k now"
  using assms
proof (induction ks)
  case Nil
  from Nil.prems(1) show ?case by simp
next
  case (Cons x ks)
  show ?case
  proof (cases "hashAPIKey env plaintext (key_algo x) = Inr (ak_hash x)")
    case True
    then have "x = k" using Cons.prems(5) by simp
    then show ?thesis using Cons.prems(2-4) by (auto simp: key_live_def not_less split: option.splits)
  next
    case False
    then have "k \<in> set ks" using Cons.prems(1,2) by auto
    then have "match_candidates env db now plaintext ks = principalFromKey db k now"
      by (rule Cons.IH) (fact Cons.prems(2-4) | rule Cons.prems(5) | erule list.set_intros | assumption)+
    then show ?thesis using False by simp
  qed
qed

text \<open>What a key issued with an input may do, for an owner of the given kind.\<close>

definition granted :: "issue_key \<Rightarrow> principal \<Rightarrow> bool" where
  "granted inp p \<longleftrightarrow>
     p_scopes p = set (ik_scopes inp) \<and>
     (p_models_all p, p_models p) = (al_all (ik_models inp), if al_all (ik_models inp) then {} else set (al_items (ik_models inp))) \<and>
     (p_extract_templates_all p, p_extract_templates p) =
       (al_all (ik_templates inp), if al_all (ik_templates inp) then {} else set (al_items (ik_templates inp))) \<and>
     (p_chatbots_all p, p_chatbots p) = (al_all (ik_chatbots inp), if al_all (ik_chatbots inp) then {} else set (al_items (ik_chatbots inp))) \<and>
     (p_agents_all p, p_agents p) = (al_all (ik_agents inp), if al_all (ik_agents inp) then {} else set (al_items (ik_agents inp))) \<and>
     (p_endpoints_all p, p_endpoints p) =
       (al_all (ik_endpoints inp), if al_all (ik_endpoints inp) then {} else set (al_items (ik_endpoints inp))) \<and>
     (p_ips_all p, p_ips p) = (al_all (ik_ips inp), if al_all (ik_ips inp) then {} else set (al_items (ik_ips inp))) \<and>
     p_rate_minute p = ik_rate_minute inp \<and> p_rate_hour p = ik_rate_hour inp \<and> p_rate_day p = ik_rate_day inp"

lemma jsonb_marshal [simp]: "jsonb (marshal_allowlist a) = marshal_allowlist a" "jsonb (scopeList xs) = scopeList xs"
    "marshal_allowlist a \<noteq> RawMalformed" "scopeList xs \<noteq> RawMalformed"
    "RawMalformed \<noteq> marshal_allowlist a" "RawMalformed \<noteq> scopeList xs"
  by (simp_all add: jsonb_def marshal_allowlist_def scopeList_def)

lemma issued_hash_Inr:
  assumes "issued_hash env plaintext = Inr (prefix, h, algo)" and "8 \<le> length plaintext"
  shows "prefix = take 8 plaintext \<and> algo \<in> {HashAlgoSHA256, HashAlgoHMACSHA256} \<and> hashAPIKey env plaintext algo = Inr h"
proof -
  have t: "trim_space HashAlgoHMACSHA256 = HashAlgoHMACSHA256" "trim_space HashAlgoSHA256 = HashAlgoSHA256"
    by (code_simp, code_simp)
  show ?thesis
    using assms t
    by (auto simp: issued_hash_def HashForStorage_def hashAPIKeyWithAlgo_def hashAPIKey_def HashAlgoSHA256_def
        HashAlgoHMACSHA256_def Let_def map_sum_def split: if_splits sum.splits)
qed

lemma stored_algo: "algo \<in> {HashAlgoSHA256, HashAlgoHMACSHA256} \<Longrightarrow> trim_space algo = algo \<and> algo \<noteq> []"
proof -
  have "trim_space HashAlgoSHA256 = HashAlgoSHA256" "trim_space HashAlgoHMACSHA256 = HashAlgoHMACSHA256"
    "HashAlgoSHA256 \<noteq> []" "HashAlgoHMACSHA256 \<noteq> []" by code_simp+
  then show "algo \<in> {HashAlgoSHA256, HashAlgoHMACSHA256} \<Longrightarrow> ?thesis" by auto
qed

lemma IssueAPIKey_Inr:
  assumes "IssueAPIKey env db admin inp secret newid = (db', Inr (plaintext, k))"
  shows "\<exists>h. issued_hash env plaintext = Inr h \<and> k = issued_key admin inp newid h \<and> plaintext = ''enc_'' @ secret \<and>
    db' = db\<lparr> id_keys := id_keys db @ [k] \<rparr> \<and> HasScope admin ScopePlatformAdmin \<and> p_tenant admin \<noteq> [] \<and>
    (ik_owner inp = []) \<noteq> (ik_account inp = [])"
proof -
  from assms obtain h where h: "issued_hash env plaintext = Inr h" "k = issued_key admin inp newid h"
      "plaintext = ''enc_'' @ secret" "CreateAPIKey db (p_tenant admin) k = Inr db'"
    and g: "HasScope admin ScopePlatformAdmin" "p_tenant admin \<noteq> []" "(ik_owner inp = []) \<noteq> (ik_account inp = [])"
    unfolding IssueAPIKey_def Let_def and_then_Inr demand_Inr auth_write_Inr by blast
  have "db' = db\<lparr> id_keys := id_keys db @ [k] \<rparr>"
    using h(4) unfolding h(2) by (cases h) (auto simp: CreateAPIKey_def insert_row_def issued_key_def split: if_splits)
  with h g show ?thesis by blast
qed

lemma granted_key:
  assumes "k = issued_key admin inp newid h"
  shows "granted inp (key_grants k) \<and> p_tenant (key_grants k) = p_tenant admin"
  unfolding assms by (cases h) (simp add: granted_def key_grants_def issued_key_def zero_principal_def)


section \<open>Delegation\<close>

text \<open>
  A delegated principal exceeds neither side. It comes from a delegation of this pair that is neither revoked nor
  expired, of a delegator who is active; its scopes are those of the delegate that the delegation lists, so it has a
  scope only if the delegate and the delegator's roles have it; the delegator is recorded and pays, the delegate acts.
\<close>

theorem delegation_confined:
  assumes "ValidateDelegation db now p delegator = Inr q"
  shows "\<exists>u \<in> set (id_users db). u_key u = (p_tenant p, delegator) \<and> u_status u = ''active'' \<and>
    list_ex (\<lambda>d. (de_tenant d, de_delegator d, de_delegate d) = (p_tenant p, delegator, p_actor p) \<and>
      de_revoked d = None \<and> now \<le> de_expires d \<and>
      p_scopes q = p_scopes p \<inter> fst (DecodeAllowlist (de_scopes d))) (id_delegations db) \<and>
    (\<forall>s. HasScope q s \<longrightarrow> HasScope p s \<and> HasScope (principalForUser db u) s) \<and>
    p_delegated_by q = delegator \<and> p_billing_subject q = delegator \<and> p_actor q = p_actor p"
proof -
  from assms obtain d u where d: "FindDelegation db (p_tenant p) delegator (p_actor p) = Inr d" "now \<le> de_expires d"
    and u: "GetUser db (p_tenant p) delegator = Inr u" "u_status u = ''active''"
    and sub: "fst (DecodeAllowlist (de_scopes d)) \<subseteq> p_scopes (principalForUser db u)"
    and q: "q = p\<lparr> p_scopes := p_scopes p \<inter> fst (DecodeAllowlist (de_scopes d)), p_delegated_by := delegator,
      p_billing_subject := u_id u, p_billing_subject_kind := BillingSubjectUser \<rparr>"
    unfolding ValidateDelegation_def by (auto simp: bind_r_Inr not_less split: if_splits prod.splits)
  note fd = row_or_absent_Inr[OF d(1)[unfolded FindDelegation_def]]
  have du: "list_ex (\<lambda>d. (de_tenant d, de_delegator d, de_delegate d) = (p_tenant p, delegator, p_actor p) \<and>
      de_revoked d = None \<and> now \<le> de_expires d \<and>
      p_scopes q = p_scopes p \<inter> fst (DecodeAllowlist (de_scopes d))) (id_delegations db)"
    unfolding list_ex_iff by (rule bexI[of _ d]) (use fd d(2) q in simp_all)
  have sc: "HasScope q s \<longrightarrow> HasScope p s \<and> HasScope (principalForUser db u) s" for s
    using sub by (auto simp: HasScope_iff q)
  show ?thesis
    by (rule bexI[of _ u]) (use GetUser_Inr[OF u(1)] u(2) du sc in \<open>simp_all add: q u_key_def\<close>)
qed

section \<open>A concrete deployment\<close>

text \<open>A deployment with an administrator, a service account, and hashes one can tell apart.\<close>

definition demo_auth :: auth_env where
  "demo_auth = \<lparr> ae_sha = (\<lambda>s. ''sha:'' @ s), ae_hmac = (\<lambda>p s. ''mac:'' @ p @ s), ae_pepper = ''pepper'',
     ae_bcrypt = (\<lambda>s. Some (''bc:'' @ s)), ae_verify = (\<lambda>h s. h = ''bc:'' @ s) \<rparr>"

definition demo_identity :: identity_db where
  "demo_identity =
     \<lparr> id_tenants = [(''t'', ''acme'')],
       id_users = [\<lparr> u_tenant = ''t'', u_id = ''root'', u_email = ''a@b'', u_name = [], u_status = ''active'',
         u_password = ''bc:pw'', u_password_set = None, u_last_login = None \<rparr>],
       id_roles = [\<lparr> ro_tenant = ''t'', ro_id = ''r1'', ro_name = ''admin'', ro_scopes = [''platform.admin'', ''chat''] \<rparr>],
       id_members = [(''t'', ''root'', ''r1'')],
       id_accounts = [\<lparr> sa_tenant = ''t'', sa_id = ''bot'', sa_name = ''bot'', sa_scopes = [], sa_status = ''active'' \<rparr>],
       id_keys = [], id_sessions = [], id_links = [], id_delegations = [], id_providers = [], id_states = [] \<rparr>"

definition demo_admin :: principal where
  "demo_admin = principalForUser demo_identity (hd (id_users demo_identity))"

definition demo_issue :: issue_key where
  "demo_issue = \<lparr> ik_name = ''k'', ik_owner = [], ik_account = ''bot'', ik_scopes = [''chat''],
     ik_models = \<lparr> al_all = True, al_items = [] \<rparr>, ik_templates = \<lparr> al_all = False, al_items = [] \<rparr>,
     ik_chatbots = \<lparr> al_all = False, al_items = [] \<rparr>, ik_agents = \<lparr> al_all = False, al_items = [] \<rparr>,
     ik_endpoints = \<lparr> al_all = False, al_items = [''chat/completions''] \<rparr>, ik_ips = \<lparr> al_all = True, al_items = [] \<rparr>,
     ik_rate_minute = None, ik_rate_hour = None, ik_rate_day = None, ik_expires = Some 100 \<rparr>"

lemma demo_admin_eq:
  "demo_admin = zero_principal\<lparr> p_tenant := ''t'', p_actor := ''root'', p_actor_kind := ActorKindUser, p_user := ''root'',
     p_scopes := {''platform.admin'', ''chat''}, p_billing_subject := ''root'', p_billing_subject_kind := BillingSubjectUser,
     p_models_all := True, p_extract_templates_all := True, p_chatbots_all := True, p_agents_all := True,
     p_endpoints_all := True, p_ips_all := True \<rparr>"
  by (auto simp: demo_admin_def principalForUser_def user_scopes_def RolesForUser_def demo_identity_def Let_def)

definition demo_key :: api_key where
  "demo_key = issued_key (zero_principal\<lparr> p_tenant := ''t'' \<rparr>) demo_issue ''1'' (''enc_0123'', ''mac:pepperenc_01234567'', ''hmac_sha256'')"

lemma demo_issued:
  "IssueAPIKey demo_auth demo_identity demo_admin demo_issue ''01234567'' ''1'' =
     (demo_identity\<lparr> id_keys := [demo_key] \<rparr>, Inr (''enc_01234567'', demo_key))"
proof -
  have "issued_hash demo_auth ''enc_01234567'' = Inr (''enc_0123'', ''mac:pepperenc_01234567'', ''hmac_sha256'')"
    by code_simp
  moreover have "HasScope demo_admin ScopePlatformAdmin" "p_tenant demo_admin = ''t''"
    by (simp_all add: demo_admin_eq HasScope_iff zero_principal_def)
  ultimately show ?thesis
    by (simp add: IssueAPIKey_def Let_def demo_key_def CreateAPIKey_def insert_row_def)
      (simp add: issued_key_def demo_issue_def demo_identity_def has_tenant_def has_account_def sa_key_def)
qed


lemma demo_authenticates: "is_ok (snd (Authenticate demo_auth (demo_identity\<lparr> id_keys := [demo_key] \<rparr>) 50 ''enc_01234567''))"
proof -
  have "FindKeyCandidates (demo_identity\<lparr> id_keys := [demo_key] \<rparr>) (take 8 ''enc_01234567'') = [demo_key]"
    by (simp add: FindKeyCandidates_def scanAPIKey_def demo_key_def issued_key_def)
  moreover have "hashAPIKey demo_auth ''enc_01234567'' (key_algo demo_key) = Inr (ak_hash demo_key)"
    using stored_algo[of HashAlgoHMACSHA256]
    by (simp add: hashAPIKey_def hashAPIKeyWithAlgo_def key_algo_def demo_key_def issued_key_def demo_auth_def
        HashAlgoHMACSHA256_def HashAlgoSHA256_def)
  moreover have "ak_revoked demo_key = None" "ak_active demo_key" "ak_expires demo_key = Some 100"
    by (simp_all add: demo_key_def issued_key_def demo_issue_def)
  moreover have "is_ok (key_principal (demo_identity\<lparr> id_keys := [demo_key] \<rparr>) demo_key)"
    by (simp add: key_principal_def demo_key_def issued_key_def demo_issue_def zero_principal_def GetServiceAccount_def
        row_or_absent_def demo_identity_def sa_key_def)
  ultimately show ?thesis by (auto simp: Authenticate_def principalFromKey_def is_ok_def split: sum.splits)
qed

theorem authenticated_key_is_live_witness: "opens demo_auth ''enc_01234567'' demo_key \<and> key_live demo_key 50"
proof -
  obtain p db' where "Authenticate demo_auth (demo_identity\<lparr> id_keys := [demo_key] \<rparr>) 50 ''enc_01234567'' = (db', Inr p)"
    using demo_authenticates by (metis is_okE prod.collapse)
  from authenticated_key_is_live[OF this] show ?thesis by (elim bexE conjE) simp
qed

text \<open>The administrator lends the service account one scope.\<close>

definition demo_bot :: principal where
  "demo_bot = zero_principal\<lparr> p_tenant := ''t'', p_actor := ''bot'', p_actor_kind := ActorKindServiceAccount,
     p_scopes := {''chat'', ''rag''} \<rparr>"

definition demo_delegation :: delegation where
  "demo_delegation = \<lparr> de_tenant = ''t'', de_id = ''d'', de_delegator = ''root'', de_delegate = ''bot'',
     de_scopes = scopeList [''chat''], de_collections = RawJson (JObj []), de_expires = 100, de_revoked = None \<rparr>"

theorem delegation_confined_witness:
  "\<exists>q. ValidateDelegation (demo_identity\<lparr> id_delegations := [demo_delegation] \<rparr>) 50 demo_bot ''root'' = Inr q \<and>
    p_scopes q = {''chat''} \<and> p_billing_subject q = ''root''"
proof -
  let ?db = "demo_identity\<lparr> id_delegations := [demo_delegation] \<rparr>"
  have scopes: "p_scopes (principalForUser ?db (hd (id_users demo_identity))) = {''platform.admin'', ''chat''}"
    by (auto simp: principalForUser_def user_scopes_def RolesForUser_def demo_identity_def Let_def zero_principal_def)
  have f: "FindDelegation ?db ''t'' ''root'' ''bot'' = Inr demo_delegation"
    by (simp add: FindDelegation_def row_or_absent_def demo_delegation_def)
  have g: "GetUser ?db ''t'' ''root'' = Inr (hd (id_users demo_identity))" "u_status (hd (id_users demo_identity)) = ''active''"
    by (simp_all add: GetUser_def row_or_absent_def demo_identity_def u_key_def)
  have b: "p_tenant demo_bot = ''t''" "p_actor demo_bot = ''bot''" "p_actor_kind demo_bot = ActorKindServiceAccount"
    by (simp_all add: demo_bot_def zero_principal_def)
  have "is_ok (ValidateDelegation ?db 50 demo_bot ''root'')"
    unfolding ValidateDelegation_def b f bind_r_simps g
    using scopes by (simp add: demo_delegation_def g(2))
  then obtain q where q: "ValidateDelegation ?db 50 demo_bot ''root'' = Inr q" by (rule is_okE)
  from delegation_confined[OF q] have "p_scopes q = p_scopes demo_bot \<inter> {''chat''}" "p_billing_subject q = ''root''"
    by (auto simp: demo_delegation_def)
  then show ?thesis using q by (simp add: demo_bot_def)
qed

end
