(* ===== verification/IdentitySys.thy ===== *)
theory IdentitySys
  imports IdentityAdmin IdentityProps
begin

text \<open>
  All the operations on the identity tables as one system. Every operation is a sequence of statements, so what a
  statement keeps holds in every run: the keys and references of the tables, a session that was revoked stays revoked,
  an external identity stays bound to its user, a state that was consumed stays consumed.
\<close>

section \<open>Statements\<close>

text \<open>
  The statements that give someone something carry an effect, which the step relation must allow: a new session, a new
  role, membership, account, link or key, and new scopes of a key.
\<close>

datatype effect = NewSession | NewRole | NewMember | NewAccount | NewKey | NewScopes | NewUser | NewLink

inductive statement :: "effect set \<Rightarrow> identity_db \<Rightarrow> identity_db \<Rightarrow> bool" for K where
  st_tenant: "CreateTenant db i s = Inr db' \<Longrightarrow> statement K db db'"
| st_role: "CreateRole db t r = Inr db' \<Longrightarrow> NewRole \<in> K \<Longrightarrow> statement K db db'"
| st_assign: "AssignRole db t u i = Inr db' \<Longrightarrow> NewMember \<in> K \<Longrightarrow> statement K db db'"
| st_unassign: "statement K db (UnassignRole db t u i)"
| st_user: "CreateUserRow db t u = Inr db' \<Longrightarrow> NewUser \<in> K \<Longrightarrow> statement K db db'"
| st_set_user: "(\<And>u. u_key (f u) = u_key u \<and> u_email (f u) = u_email u) \<Longrightarrow> statement K db (set_user db t i f)"
| st_account: "CreateServiceAccount db t s = Inr db' \<Longrightarrow> NewAccount \<in> K \<Longrightarrow> statement K db db'"
| st_set_account: "statement K db (UpdateServiceAccountStatus db t i st)"
| st_key: "CreateAPIKey db t k = Inr db' \<Longrightarrow> NewKey \<in> K \<Longrightarrow> statement K db db'"
| st_set_key: "(\<And>k. ak_key (f k) = ak_key k \<and> ak_hash (f k) = ak_hash k \<and> ak_owner (f k) = ak_owner k \<and>
    ak_account (f k) = ak_account k \<and> ak_scopes (f k) = ak_scopes k) \<Longrightarrow> statement K db (set_key db t i f)"
| st_update_key: "UpdateAPIKey db t k now = Inr db' \<Longrightarrow> NewScopes \<in> K \<Longrightarrow> statement K db db'"
| st_secret: "SetAPIKeySecret db t i prefix h algo = Inr db' \<Longrightarrow> statement K db db'"
| st_session: "CreateSession db t s = Inr db' \<Longrightarrow> se_idle s \<le> se_expires s \<Longrightarrow> se_revoked s = None \<Longrightarrow>
    NewSession \<in> K \<Longrightarrow> statement K db db'"
| st_touch: "s \<in> set (id_sessions db) \<Longrightarrow> se_key s = (t, i) \<Longrightarrow> idle \<le> se_expires s \<Longrightarrow> statement K db (TouchSession db t i idle)"
| st_revoke: "statement K db (RevokeSessionRow db t i now reason)"
| st_revoke_user: "statement K db (RevokeUserSessionRows db t u now reason)"
| st_link: "RecordAuthIdentity db t a = Inr db' \<Longrightarrow> NewLink \<in> K \<Longrightarrow> statement K db db'"
| st_delegation: "CreateDelegation db t d = Inr db' \<Longrightarrow> statement K db db'"
| st_provider: "CreateOIDCProvider db t p = Inr db' \<Longrightarrow> statement K db db'"
| st_state: "CreateOIDCState db t s = Inr db' \<Longrightarrow> os_consumed s = None \<Longrightarrow> statement K db db'"
| st_consume: "ConsumeOIDCState db t h now = Inr (db', s) \<Longrightarrow> statement K db db'"

text \<open>What an operation does is a sequence of statements.\<close>

abbreviation statements :: "effect set \<Rightarrow> identity_db \<Rightarrow> identity_db \<Rightarrow> bool" where
  "statements K \<equiv> (statement K)\<^sup>*\<^sup>*"

named_theorems op_statements "operations are sequences of statements"

lemma one_statement: "statement K db db' \<Longrightarrow> statements K db db'"
  by (rule r_into_rtranclp)

lemma sts_and_then:
  assumes "statements K db (fst r)" and "\<And>w x. r = (w, Inr x) \<Longrightarrow> statements K w (fst (f w x))"
  shows "statements K db (fst (and_then r f))"
proof (cases r)
  case (Pair w y)
  show ?thesis
  proof (cases y)
    case (Inl e)
    then show ?thesis using assms(1) Pair by simp
  next
    case (Inr x)
    then show ?thesis using assms(1) assms(2)[of w x] Pair by (auto intro: rtranclp_trans)
  qed
qed

lemma sts_auth_write: "(\<And>db'. r = Inr db' \<Longrightarrow> statement K db db') \<Longrightarrow> statements K db (fst (auth_write db r))"
  by (cases r) (auto intro: one_statement)

lemma sts_stored: "(\<And>db'. r = Inr db' \<Longrightarrow> statement K db db') \<Longrightarrow> statements K db (fst (stored db r))"
  by (cases r) (auto simp: stored_def intro: one_statement)

lemma fst_fetched [simp]: "fst (fetched db r) = db"
  by (simp add: fetched_def)

lemma st_user_updates:
  "statement K db (UpdateUserStatus db t i st)" "statement K db (SetPassword db t i h now)" "statement K db (TouchLastLogin db t i now)"
  unfolding UpdateUserStatus_def SetPassword_def TouchLastLogin_def by (rule st_set_user; simp add: u_key_def)+

lemma st_key_updates:
  "statement K db (RevokeAPIKeyRow db t i now)" "statement K db (TouchAPIKeyUsage db t i now)"
  unfolding RevokeAPIKeyRow_def TouchAPIKeyUsage_def by (rule st_set_key; simp add: ak_key_def)+

section \<open>The operations of the services\<close>

lemma sts_key_auth [op_statements]: "statements K db (fst (Authenticate env db now plaintext))"
proof -
  have "statements K db (fst (match_candidates env db now plaintext ks))" for ks
    by (induction ks) (auto simp: principalFromKey_def intro: one_statement st_key_updates split: sum.split)
  then show ?thesis by (auto simp: Authenticate_def)
qed

lemma sts_password [op_statements]: "statements K db (fst (AuthenticatePassword env db now t email password))"
  by (auto simp: AuthenticatePassword_def intro: one_statement st_user_updates split: sum.split)

lemma capped_idle_bound: "capped_idle now e \<le> e"
  by (simp add: capped_idle_def)

lemma sts_issue_session [op_statements]:
  assumes "NewSession \<in> K"
  shows "statements K db (fst (IssueSession env db now t u ttl secret csrf newid))"
  unfolding IssueSession_def Let_def
  by (auto intro!: sts_and_then sts_auth_write st_session[OF _ _ _ assms] simp: capped_idle_bound)

lemma GetSessionByTokenHash_Inr:
  "GetSessionByTokenHash db h = Inr s \<Longrightarrow> s \<in> set (id_sessions db) \<and> se_hash s = h"
  unfolding GetSessionByTokenHash_def by (drule row_or_absent_Inr) simp

lemma sts_session_auth [op_statements]: "statements K db (fst (AuthenticateSession env db now token))"
  by (auto simp: AuthenticateSession_def se_key_def capped_idle_bound split: sum.split
      intro!: one_statement st_touch dest!: GetSessionByTokenHash_Inr)

lemma sts_issue_key [op_statements]:
  assumes "NewKey \<in> K"
  shows "statements K db (fst (IssueAPIKey env db admin inp secret newid))"
  unfolding IssueAPIKey_def Let_def
  by (intro sts_and_then sts_auth_write) (auto simp: demand_Inr auth_write_Inr intro: st_key[OF _ assms])

lemma sts_create_user [op_statements]:
  assumes "NewUser \<in> K"
  shows "statements K db (fst (CreateUser env db admin t email name password newid now))"
  unfolding CreateUser_def Let_def
  by (auto intro!: sts_and_then sts_auth_write st_user[OF _ assms] split: option.split)

section \<open>Sign-in\<close>

lemma sts_begin [op_statements]: "statements K db (fst (BeginFlow env db now t pid return_to base ids))"
  unfolding BeginFlow_def Let_def
  by (auto intro!: sts_and_then sts_auth_write st_state simp: demand_Inr split: prod.split)

lemma sts_challenge: "statements K db (fst (newLinkChallenge env db now t p subj email candidate return_to ids))"
  unfolding newLinkChallenge_def Let_def by (auto intro!: sts_and_then sts_auth_write st_state)

lemma sts_resolve: "statements K db (fst (resolveIdentity env db now t p subj email verified return_to ids))"
  unfolding resolveIdentity_def
  by (auto intro!: sts_and_then sts_challenge simp: demand_Inr split: sum.split auth_error.split)

lemma sts_after_consume:
  assumes "ConsumeOIDCState db t (ae_sha (oe_auth env) token) now = Inr (db1, row)"
  shows "statements K db1 (fst (CompleteFlow env db now t token code base ids))"
  unfolding CompleteFlow_def assms
  by (auto intro!: sts_and_then sts_resolve simp: demand_Inr split: option.split)

lemma sts_complete [op_statements]: "statements K db (fst (CompleteFlow env db now t token code base ids))"
proof (cases "ConsumeOIDCState db t (ae_sha (oe_auth env) token) now")
  case (Inr r)
  then obtain db1 row where c: "ConsumeOIDCState db t (ae_sha (oe_auth env) token) now = Inr (db1, row)" by (cases r) simp
  show ?thesis using one_statement[OF st_consume[OF c]] sts_after_consume[OF c] by (rule rtranclp_trans)
qed (simp add: CompleteFlow_def)

lemma sts_confirm [op_statements]:
  assumes "NewLink \<in> K"
  shows "statements K db (fst (ConfirmLink env db now t token email password newid))"
proof -
  have last: "statements K db (fst (case or_bad_challenge (ConsumeOIDCState db t h now) of
       Inl e \<Rightarrow> (db, Inl e)
     | Inr (db, _) \<Rightarrow> and_then (auth_write db (RecordAuthIdentity db t a)) (\<lambda>db _. (db, Inr r))))" for db h a and r :: flow_result
  proof (cases "ConsumeOIDCState db t h now")
    case (Inr x)
    then obtain db1 s where c: "ConsumeOIDCState db t h now = Inr (db1, s)" by (cases x) simp
    have "statements K db1 (fst (and_then (auth_write db1 (RecordAuthIdentity db1 t a)) (\<lambda>db _. (db, Inr r))))"
      by (auto intro!: sts_and_then sts_auth_write st_link[OF _ assms])
    then show ?thesis using one_statement[OF st_consume[OF c]] unfolding c or_bad_challenge_def
      by (auto intro: rtranclp_trans)
  qed (auto simp: or_bad_challenge_def split: auth_error.split)
  show ?thesis unfolding ConfirmLink_def Let_def
    by (intro sts_and_then sts_password last) (auto simp: demand_Inr)
qed

lemma sts_login [op_statements]:
  assumes "NewSession \<in> K"
  shows "statements K db (fst (handleLoginPost env db now ttl slug email password return_to ids))"
  unfolding handleLoginPost_def issueSessionCookies_def
  by (intro sts_and_then sts_password sts_issue_session[OF assms]) (auto simp: demand_Inr)

lemma sts_callback [op_statements]:
  assumes "NewSession \<in> K"
  shows "statements K db (fst (HandleOIDCCallback env db now ttl slug token code base fids sids))"
  unfolding HandleOIDCCallback_def issueSessionCookies_def
  by (auto intro!: sts_and_then sts_complete sts_issue_session[OF assms])

lemma sts_link [op_statements]:
  assumes "NewLink \<in> K" and "NewSession \<in> K"
  shows "statements K db (fst (HandleLinkIdentity env db now ttl slug token email password newid sids))"
  unfolding HandleLinkIdentity_def issueSessionCookies_def
  by (auto intro!: sts_and_then sts_confirm[OF assms(1)] sts_issue_session[OF assms(2)])

lemma sts_cookie: "statements K db (fst (SessionPrincipal env db now cookie))"
  using sts_session_auth[of K db env now] by (auto simp: SessionPrincipal_def split: option.split prod.split sum.split) (metis fst_conv)+

lemma sts_logout [op_statements]: "statements K db (fst (HandleLogout env db now cookie header csrf))"
proof -
  obtain db1 p where s: "SessionPrincipal env db now cookie = (db1, p)" by fastforce
  then have "statements K db db1" using sts_cookie[of K db env now cookie] by simp
  then show ?thesis
    by (auto simp: HandleLogout_def s RevokeSession_def split: option.split intro: rtranclp.rtrancl_into_rtrancl st_revoke)
qed

section \<open>Administration\<close>

lemma sts_assign [op_statements]:
  assumes "NewMember \<in> K"
  shows "statements K db (fst (assignRoleChecked db p u i))"
  unfolding assignRoleChecked_def by (intro sts_and_then sts_stored) (auto simp: fetched_def demand_Inr intro: st_assign[OF _ assms])

lemma sts_assign_roles:
  assumes "NewMember \<in> K"
  shows "statements K db (fst (assign_roles db p u is))"
proof (induction "is" arbitrary: db)
  case (Cons i "is")
  show ?case unfolding assign_roles.simps by (intro sts_and_then sts_assign[OF assms] Cons.IH)
qed simp

lemma sts_unassign [op_statements]: "statements K db (fst (unassignRoleChecked db now p u i))"
  unfolding unassignRoleChecked_def
  by (intro sts_and_then) (auto simp: fetched_def demand_Inr intro: one_statement st_unassign)

lemma sts_set_password [op_statements]: "statements K db (fst (setUserPassword env db now u password))"
  by (auto simp: setUserPassword_def intro: one_statement st_user_updates split: option.split)

lemma sts_revoke_session [op_statements]: "statements K db (fst (revokeUserSession db now t u i))"
  unfolding revokeUserSession_def RevokeSession_def
  by (intro sts_and_then) (auto simp: fetched_def demand_Inr intro: one_statement st_revoke)

lemma sts_create_identity_user [op_statements]:
  assumes "NewUser \<in> K" and "NewMember \<in> K"
  shows "statements K db (fst (createIdentityUser env db now p email name password role_ids newid))"
proof -
  have "statements K a (fst (case CreateUser env a p t e n password newid now of
         (w, Inl err) \<Rightarrow> (w, Inl (identity_refusal err))
       | (w, Inr u) \<Rightarrow> and_then (assign_roles w p (u_id u) role_ids) (\<lambda>w _. (w, Inr u))))" for a t e n
  proof -
    obtain w r where c: "CreateUser env a p t e n password newid now = (w, r)"
      by (cases "CreateUser env a p t e n password newid now")
    have start: "statements K a w"
      using sts_create_user[OF assms(1), of a env p t e n password newid now] c by simp
    have "statements K w (fst (and_then (assign_roles w p i role_ids) (\<lambda>w _. (w, Inr (u::user)))))" for i u
      by (intro sts_and_then sts_assign_roles[OF assms(2)]) auto
    with start show ?thesis
      by (cases r) (auto simp: c intro: rtranclp_trans)
  qed
  then show ?thesis unfolding createIdentityUser_def Let_def
    by (intro sts_and_then) (auto simp: demand_Inr)
qed

lemma sts_patch_user [op_statements]: "statements K db (fst (patchUser db now p u st))"
proof -
  have "statements K db (if c then let db' = UpdateUserStatus db t i x in if d then RevokeUserSessions db' now t i y else db' else db)"
    for c d t i x y
    by (auto simp: Let_def RevokeUserSessions_def
        intro: one_statement st_user_updates rtranclp.rtrancl_into_rtrancl[OF one_statement] st_revoke_user)
  then show ?thesis unfolding patchUser_def Let_def
    by (intro sts_and_then) (auto simp: demand_Inr fetched_def Let_def)
qed

lemma sts_on_user [op_statements]: "(\<And>u. statements K db (fst (f u))) \<Longrightarrow> statements K db (fst (on_user db p i f))"
  unfolding on_user_def by (intro sts_and_then) (auto simp: fetched_def)

lemma sts_create_role [op_statements]:
  assumes "NewRole \<in> K"
  shows "statements K db (fst (createIdentityRole db p name scopes newid))"
  unfolding createIdentityRole_def Let_def by (intro sts_and_then sts_stored) (auto simp: demand_Inr intro: st_role[OF _ assms])

lemma sts_create_account [op_statements]:
  assumes "NewAccount \<in> K"
  shows "statements K db (fst (createIdentityServiceAccount db p name scopes newid))"
  unfolding createIdentityServiceAccount_def Let_def
  by (intro sts_and_then sts_stored) (auto simp: demand_Inr intro: st_account[OF _ assms])

lemma sts_patch_account [op_statements]: "statements K db (fst (patchServiceAccount db now p i st))"
  unfolding patchServiceAccount_def Let_def
  by (intro sts_and_then) (auto simp: demand_Inr fetched_def intro: one_statement st_set_account)

lemma sts_own_password [op_statements]: "statements K db (fst (changeOwnPassword env db now p current password))"
  unfolding changeOwnPassword_def by (intro sts_and_then sts_set_password) (auto simp: demand_Inr fetched_def)

lemma sts_own_session [op_statements]: "statements K db (fst (revokeOwnSession db now p i))"
  unfolding revokeOwnSession_def by (intro sts_and_then sts_revoke_session) (auto simp: demand_Inr fetched_def)

lemma sts_own_link [op_statements]:
  assumes "NewLink \<in> K"
  shows "statements K db (fst (handleIdentityLink env db now p token password newid))"
proof -
  have "statements K db (fst (case ConfirmLink env db now t token e password newid of
       (db, Inl _) \<Rightarrow> (db, Inl (Forbidden ''account linking failed''))
     | (db, Inr res) \<Rightarrow>
         if fr_user res \<noteq> p_user p then (db, Inl (Forbidden ''account linking failed'')) else (db, Inr (fr_user res))))" for db t e
    using sts_confirm[OF assms, of db env now t token e password newid]
    by (cases "ConfirmLink env db now t token e password newid"; cases "snd (ConfirmLink env db now t token e password newid)") auto
  then show ?thesis unfolding handleIdentityLink_def by (intro sts_and_then) (auto simp: demand_Inr fetched_def)
qed

lemma sts_create_key [op_statements]:
  assumes "NewKey \<in> K"
  shows "statements K db (fst (createAdminKey env prefix algo db p req secret newid))"
proof -
  have "statements K db (fst (case generateKey env prefix algo secret of
            Inl _ \<Rightarrow> (db, Inl ServerError)
          | Inr (plaintext, sp, h, a) \<Rightarrow>
              let k' = k\<lparr> ak_prefix := sp, ak_hash := h, ak_algo := a \<rparr> in
              and_then (demand db (writeScopeSubsetError p k') (Forbidden ''key scopes must be a subset of the caller's scopes'')) (\<lambda>db _.
              and_then (stored db (CreateAPIKey db (p_tenant p) k')) (\<lambda>db _.
              and_then (fetched db (GetAPIKey db (p_tenant p) newid)) (\<lambda>db created.
              (db, Inr (plaintext, created)))))))" for db k
    by (cases "generateKey env prefix algo secret")
      (auto simp: Let_def demand_Inr split: prod.split intro!: sts_and_then sts_stored intro: st_key[OF _ assms])
  then show ?thesis unfolding createAdminKey_def by (auto intro!: sts_and_then split: option.split)
qed

lemma sts_regenerate [op_statements]:
  assumes "NewScopes \<in> K"
  shows "statements K db (fst (regenerateKey env prefix algo db now p i secret))"
proof -
  have "statements K db (fst (case generateKey env prefix algo secret of
       Inl _ \<Rightarrow> (db, Inl ServerError)
     | Inr (plaintext, sp, h, a) \<Rightarrow>
         and_then (stored db (SetAPIKeySecret db (p_tenant p) i sp h a)) (\<lambda>db _.
         and_then (if ak_active k then (db, Inr ())
                   else stored db (UpdateAPIKey db (p_tenant p) (k\<lparr> ak_active := True \<rparr>) now)) (\<lambda>db _.
         (db, Inr plaintext)))))" for db k
    by (cases "generateKey env prefix algo secret")
      (auto split: prod.split intro!: sts_and_then sts_stored intro: st_secret st_update_key[OF _ assms])
  then show ?thesis unfolding regenerateKey_def by (intro sts_and_then) (auto simp: fetched_def)
qed

lemma sts_delete_key [op_statements]: "statements K db (fst (deleteKey db now p i))"
  unfolding deleteKey_def by (intro sts_and_then) (auto simp: demand_Inr fetched_def intro: one_statement st_key_updates)

lemma sts_restore_key [op_statements]:
  assumes "NewScopes \<in> K"
  shows "statements K db (fst (restoreKey db now p i))"
  unfolding restoreKey_def by (intro sts_and_then sts_stored) (auto simp: fetched_def intro: st_update_key[OF _ assms])

lemma sts_put_key [op_statements]:
  assumes "NewScopes \<in> K"
  shows "statements K db (fst (putKey db now p i req))"
  unfolding putKey_def Let_def
  by (auto intro!: sts_and_then sts_stored simp: demand_Inr fetched_def split: option.split intro: st_update_key[OF _ assms])

section \<open>The system\<close>

text \<open>Every operation with its inputs, the time it reads and what it draws at random.\<close>

datatype identity_op =
    OpLogin time duration string string string string session_ids
  | OpBegin time string string string string flow_ids
  | OpCallback time duration string string string string flow_ids session_ids
  | OpLink time duration string string string string string session_ids
  | OpLogout time "string option" string "string option"
  | OpSession time string
  | OpKey time string
  | OpIssueKey principal issue_key string string
  | OpRevokeKey time principal string
  | OpCreateUser time principal string string string "string list" string
  | OpSetPassword time principal string string
  | OpPatchUser time principal string string
  | OpAssign time principal string string
  | OpUnassign time principal string string
  | OpRevokeSession time principal string string
  | OpCreateRole principal string "string list" string
  | OpCreateAccount principal string "string list" string
  | OpPatchAccount time principal string string
  | OpOwnPassword time principal string string
  | OpOwnSession time principal string
  | OpOwnLink time principal string string string
  | OpCreateKey principal key_request string string
  | OpRegenerate time principal string string
  | OpDeleteKey time principal string
  | OpRestoreKey time principal string
  | OpPutKey time principal string key_request
  | OpTenant string string
  | OpProvider string oidc_provider
  | OpDelegation string delegation

record deployment =
  dp_oidc :: oidc_env
  dp_key_prefix :: string
  dp_key_algo :: string

fun identity_step :: "deployment \<Rightarrow> identity_db \<Rightarrow> identity_op \<Rightarrow> identity_db" where
  "identity_step d db (OpLogin now ttl slug email pw ret ids) = fst (handleLoginPost (dp_oidc d) db now ttl slug email pw ret ids)"
| "identity_step d db (OpBegin now slug pid ret base ids) =
     fst (and_then (db, ResolveTenantID db slug) (\<lambda>db t. BeginFlow (dp_oidc d) db now t pid ret base ids))"
| "identity_step d db (OpCallback now ttl slug tok code base f s) = fst (HandleOIDCCallback (dp_oidc d) db now ttl slug tok code base f s)"
| "identity_step d db (OpLink now ttl slug tok email pw i s) = fst (HandleLinkIdentity (dp_oidc d) db now ttl slug tok email pw i s)"
| "identity_step d db (OpLogout now c h k) = fst (HandleLogout (oe_auth (dp_oidc d)) db now c h k)"
| "identity_step d db (OpSession now tok) = fst (AuthenticateSession (oe_auth (dp_oidc d)) db now tok)"
| "identity_step d db (OpKey now s) = fst (Authenticate (oe_auth (dp_oidc d)) db now s)"
| "identity_step d db (OpIssueKey p inp s i) = fst (IssueAPIKey (oe_auth (dp_oidc d)) db p inp s i)"
| "identity_step d db (OpRevokeKey now p i) = fst (RevokeAPIKey db p i now)"
| "identity_step d db (OpCreateUser now p e n pw rs i) = fst (createIdentityUser (oe_auth (dp_oidc d)) db now p e n pw rs i)"
| "identity_step d db (OpSetPassword now p i pw) = fst (on_user db p i (\<lambda>u. setUserPassword (oe_auth (dp_oidc d)) db now u pw))"
| "identity_step d db (OpPatchUser now p i st) = fst (on_user db p i (\<lambda>u. patchUser db now p u st))"
| "identity_step d db (OpAssign now p i r) = fst (on_user db p i (\<lambda>u. assignRoleChecked db p (u_id u) r))"
| "identity_step d db (OpUnassign now p i r) = fst (on_user db p i (\<lambda>u. unassignRoleChecked db now p u r))"
| "identity_step d db (OpRevokeSession now p i s) = fst (on_user db p i (\<lambda>u. revokeUserSession db now (p_tenant p) (u_id u) s))"
| "identity_step d db (OpCreateRole p n ss i) = fst (createIdentityRole db p n ss i)"
| "identity_step d db (OpCreateAccount p n ss i) = fst (createIdentityServiceAccount db p n ss i)"
| "identity_step d db (OpPatchAccount now p i st) = fst (patchServiceAccount db now p i st)"
| "identity_step d db (OpOwnPassword now p c pw) = fst (changeOwnPassword (oe_auth (dp_oidc d)) db now p c pw)"
| "identity_step d db (OpOwnSession now p i) = fst (revokeOwnSession db now p i)"
| "identity_step d db (OpOwnLink now p tok pw i) = fst (handleIdentityLink (dp_oidc d) db now p tok pw i)"
| "identity_step d db (OpCreateKey p req s i) =
     fst (createAdminKey (oe_auth (dp_oidc d)) (dp_key_prefix d) (dp_key_algo d) db p req s i)"
| "identity_step d db (OpRegenerate now p i s) =
     fst (regenerateKey (oe_auth (dp_oidc d)) (dp_key_prefix d) (dp_key_algo d) db now p i s)"
| "identity_step d db (OpDeleteKey now p i) = fst (deleteKey db now p i)"
| "identity_step d db (OpRestoreKey now p i) = fst (restoreKey db now p i)"
| "identity_step d db (OpPutKey now p i req) = fst (putKey db now p i req)"
| "identity_step d db (OpTenant i slug) = fst (auth_write db (CreateTenant db i slug))"
| "identity_step d db (OpProvider t p) = fst (auth_write db (CreateOIDCProvider db t p))"
| "identity_step d db (OpDelegation t x) = fst (auth_write db (CreateDelegation db t x))"

text \<open>What each operation may give.\<close>

fun effects :: "identity_op \<Rightarrow> effect set" where
  "effects (OpLogin _ _ _ _ _ _ _) = {NewSession}"
| "effects (OpCallback _ _ _ _ _ _ _ _) = {NewSession}"
| "effects (OpLink _ _ _ _ _ _ _ _) = {NewSession, NewLink}"
| "effects (OpOwnLink _ _ _ _ _) = {NewLink}"
| "effects (OpIssueKey _ _ _ _) = {NewKey}"
| "effects (OpCreateKey _ _ _ _) = {NewKey}"
| "effects (OpRegenerate _ _ _ _) = {NewScopes}"
| "effects (OpRestoreKey _ _ _) = {NewScopes}"
| "effects (OpPutKey _ _ _ _) = {NewScopes}"
| "effects (OpCreateUser _ _ _ _ _ _ _) = {NewUser, NewMember}"
| "effects (OpAssign _ _ _ _) = {NewMember}"
| "effects (OpCreateRole _ _ _ _) = {NewRole}"
| "effects (OpCreateAccount _ _ _ _) = {NewAccount}"
| "effects _ = {}"

lemma step_statements: "effects a \<subseteq> K \<Longrightarrow> statements K db (identity_step d db a)"
proof (cases a)
  case (OpRevokeKey now p i)
  then show ?thesis by (auto simp: RevokeAPIKey_def intro: one_statement st_key_updates)
next
  case (OpTenant i slug)
  then show ?thesis by (auto intro!: sts_auth_write st_tenant)
next
  case (OpProvider t p)
  then show ?thesis by (auto intro!: sts_auth_write st_provider)
next
  case (OpDelegation t x)
  then show ?thesis by (auto intro!: sts_auth_write st_delegation)
next
  case (OpBegin now slug pid ret base ids)
  then show ?thesis by (auto intro!: sts_and_then op_statements)
qed (simp_all add: op_statements)

text \<open>What every statement keeps, every operation keeps.\<close>

lemma statements_keep: "statements K db db' \<Longrightarrow> (\<And>x y. statement K x y \<Longrightarrow> P x \<Longrightarrow> P y) \<Longrightarrow> P db \<Longrightarrow> P db'"
  by (induction rule: rtranclp_induct) blast+

lemma step_keeps: "(\<And>x y. statement (effects a) x y \<Longrightarrow> P x \<Longrightarrow> P y) \<Longrightarrow> P db \<Longrightarrow> P (identity_step d db a)"
  using statements_keep[OF step_statements[OF order_refl]] by blast

end
