(* ===== verification/IdentityInv.thy ===== *)
theory IdentityInv
  imports IdentitySys
begin

text \<open>
  The invariant of the identity tables: unique keys, email addresses, hashes and external identities, references
  to rows that exist, and sessions that idle out no later than they expire. Each table's part is kept by every
  statement, so every operation keeps the whole.
\<close>

section \<open>The tables\<close>

definition wf_users :: "identity_db \<Rightarrow> bool" where
  "wf_users db \<longleftrightarrow> distinct (map u_key (id_users db)) \<and> distinct (map (\<lambda>u. (u_tenant u, u_email u)) (id_users db))"

definition wf_keys :: "identity_db \<Rightarrow> bool" where
  "wf_keys db \<longleftrightarrow> distinct (map ak_key (id_keys db)) \<and> distinct (map (\<lambda>k. (ak_tenant k, ak_hash k)) (id_keys db)) \<and>
     list_all (\<lambda>k. (ak_owner k \<noteq> [] \<or> ak_account k \<noteq> []) \<and> (ak_owner k = [] \<or> has_user db (ak_tenant k) (ak_owner k)) \<and>
       (ak_account k = [] \<or> has_account db (ak_tenant k) (ak_account k))) (id_keys db)"

definition wf_sessions :: "identity_db \<Rightarrow> bool" where
  "wf_sessions db \<longleftrightarrow> distinct (map se_key (id_sessions db)) \<and> distinct (map se_hash (id_sessions db)) \<and>
     list_all (\<lambda>s. has_user db (se_tenant s) (se_user s) \<and> se_idle s \<le> se_expires s) (id_sessions db)"

definition wf_links :: "identity_db \<Rightarrow> bool" where
  "wf_links db \<longleftrightarrow> distinct (map (\<lambda>a. (ai_tenant a, ai_issuer a, ai_subject a)) (id_links db)) \<and>
     list_all (\<lambda>a. has_user db (ai_tenant a) (ai_user a)) (id_links db)"

definition wf_members :: "identity_db \<Rightarrow> bool" where
  "wf_members db \<longleftrightarrow> distinct (map ro_key (id_roles db)) \<and>
     list_all (\<lambda>(t, u, i). has_user db t u \<and> is_ok (GetRole db t i)) (id_members db)"

definition wf_states :: "identity_db \<Rightarrow> bool" where
  "wf_states db \<longleftrightarrow> distinct (map os_hash (id_states db))"

definition identity_wf :: "identity_db \<Rightarrow> bool" where
  "identity_wf db \<longleftrightarrow> wf_users db \<and> wf_keys db \<and> wf_sessions db \<and> wf_links db \<and> wf_members db \<and> wf_states db"

definition empty_identity :: identity_db where
  "empty_identity = \<lparr> id_tenants = [], id_users = [], id_roles = [], id_members = [], id_accounts = [], id_keys = [],
     id_sessions = [], id_links = [], id_delegations = [], id_providers = [], id_states = [] \<rparr>"

section \<open>What a statement leaves of a row\<close>

lemma insert_row_Inr:
  "insert_row refers clashes t put r = Inr db' \<longleftrightarrow> refers \<and> \<not> list_ex clashes t \<and> db' = put (t @ [r])"
  by (auto simp: insert_row_def)

lemmas insert_defs = CreateTenant_def CreateRole_def AssignRole_def CreateUserRow_def CreateServiceAccount_def
  CreateAPIKey_def CreateSession_def RecordAuthIdentity_def CreateDelegation_def CreateOIDCProvider_def
  CreateOIDCState_def insert_row_Inr

lemmas update_defs = UnassignRole_def set_user_def UpdateServiceAccountStatus_def set_key_def TouchSession_def
  RevokeSessionRow_def RevokeUserSessionRows_def

lemma UpdateAPIKey_Inr:
  "UpdateAPIKey db t k now = Inr db' \<Longrightarrow> \<exists>f. db' = set_key db t (ak_id k) f \<and>
     (\<forall>r. ak_key (f r) = ak_key r \<and> ak_hash (f r) = ak_hash r \<and> ak_owner (f r) = ak_owner r \<and> ak_account (f r) = ak_account r \<and>
        ak_scopes (f r) = jsonb (ak_scopes k))"
  unfolding UpdateAPIKey_def by (auto simp: ak_key_def split: if_splits intro!: exI)

lemma SetAPIKeySecret_Inr:
  "SetAPIKeySecret db t i prefix h algo = Inr db' \<longleftrightarrow>
     \<not> list_ex (\<lambda>k. ak_key k \<noteq> (t, i) \<and> (ak_tenant k, ak_hash k) = (t, h)) (id_keys db) \<and>
     db' = set_key db t i (\<lambda>k. k\<lparr> ak_prefix := prefix, ak_hash := h, ak_algo := algo \<rparr>)"
  by (auto simp: SetAPIKeySecret_def)

lemma ConsumeOIDCState_Inr:
  "ConsumeOIDCState db t h now = Inr (db', r) \<Longrightarrow>
     db' = db\<lparr> id_states := upd_rows (\<lambda>s. (os_tenant s, os_hash s) = (t, h) \<and> os_consumed s = None)
       (\<lambda>s. s\<lparr> os_consumed := Some now \<rparr>) (id_states db) \<rparr> \<and>
     (\<exists>s \<in> set (id_states db). (os_tenant s, os_hash s) = (t, h) \<and> os_consumed s = None \<and> r = s\<lparr> os_consumed := Some now \<rparr>)"
  by (auto simp: ConsumeOIDCState_def Let_def split: option.splits dest!: find_row_Some)

text \<open>Users, accounts and roles are never deleted.\<close>

lemma list_ex_upd_rows: "(\<And>r. Q (f r) = Q r) \<Longrightarrow> list_ex Q (upd_rows P f t) = list_ex Q t"
  by (induction t) auto

lemma has_user_statement: "statement K db db' \<Longrightarrow> has_user db t i \<Longrightarrow> has_user db' t i"
  by (induction rule: statement.induct)
    (auto simp: has_user_def insert_defs update_defs SetAPIKeySecret_Inr list_ex_upd_rows
      split: if_splits dest!: UpdateAPIKey_Inr ConsumeOIDCState_Inr)

lemma has_account_statement: "statement K db db' \<Longrightarrow> has_account db t i \<Longrightarrow> has_account db' t i"
  by (induction rule: statement.induct)
    (auto simp: has_account_def insert_defs update_defs SetAPIKeySecret_Inr list_ex_upd_rows sa_key_def
      split: if_splits dest!: UpdateAPIKey_Inr ConsumeOIDCState_Inr)

lemma GetRole_ok: "is_ok (GetRole db t i) \<longleftrightarrow> (t, i) \<in> ro_key ` set (id_roles db)"
  by (auto simp: GetRole_def row_or_absent_def find_row_None image_iff split: option.split dest!: find_row_Some) metis

lemma roles_statement: "statement K db db' \<Longrightarrow> set (id_roles db) \<subseteq> set (id_roles db')"
  by (induction rule: statement.induct)
    (auto simp: insert_defs update_defs SetAPIKeySecret_Inr split: if_splits dest!: UpdateAPIKey_Inr ConsumeOIDCState_Inr)

section \<open>Every statement keeps the invariant\<close>

lemma wf_users_statement: "statement K db db' \<Longrightarrow> wf_users db \<Longrightarrow> wf_users db'"
proof (induction rule: statement.induct)
  case (st_user db t u db')
  then show ?case by (auto simp: wf_users_def insert_defs list_ex_iff u_key_def)
next
  case (st_set_user f db t i)
  have "u_key (f u) = u_key u" "(u_tenant (f u), u_email (f u)) = (u_tenant u, u_email u)" for u
    using st_set_user(1)[of u] by (auto simp: u_key_def)
  then show ?case using st_set_user(2) by (simp add: wf_users_def update_defs map_upd_rows)
qed (auto simp: wf_users_def insert_defs update_defs SetAPIKeySecret_Inr split: if_splits
      dest!: UpdateAPIKey_Inr ConsumeOIDCState_Inr)

lemma list_all_mono_pred: "list_all P t \<Longrightarrow> (\<And>r. r \<in> set t \<Longrightarrow> P r \<Longrightarrow> Q r) \<Longrightarrow> list_all Q t"
  by (auto simp: list_all_iff)

lemma list_all_upd_rows: "list_all P t \<Longrightarrow> (\<And>r. r \<in> set t \<Longrightarrow> P r \<Longrightarrow> Q r \<Longrightarrow> P (f r)) \<Longrightarrow> list_all P (upd_rows Q f t)"
  by (auto simp: list_all_iff elim!: in_upd_rowsE)

text \<open>A table whose rows stay while the tables it refers to only grow.\<close>

lemma wf_keys_same: "id_keys db' = id_keys db \<Longrightarrow> statement K db db' \<Longrightarrow> wf_keys db \<Longrightarrow> wf_keys db'"
  using has_user_statement[of K db db'] has_account_statement[of K db db']
  by (auto simp: wf_keys_def list_all_iff)

lemma wf_keys_set:
  assumes "\<And>k. ak_key (f k) = ak_key k \<and> ak_hash (f k) = ak_hash k \<and> ak_owner (f k) = ak_owner k \<and> ak_account (f k) = ak_account k"
    and "wf_keys db"
  shows "wf_keys (set_key db t i f)"
proof -
  have f: "ak_tenant (f k) = ak_tenant k" "ak_hash (f k) = ak_hash k" "(ak_tenant (f k), ak_hash (f k)) = (ak_tenant k, ak_hash k)" "ak_key (f k) = ak_key k"
    "ak_owner (f k) = ak_owner k" "ak_account (f k) = ak_account k" for k
    using assms(1)[of k] by (auto simp: ak_key_def)
  have m: "map ak_key (upd_rows P f ks) = map ak_key ks"
    "map (\<lambda>k. (ak_tenant k, ak_hash k)) (upd_rows P f ks) = map (\<lambda>k. (ak_tenant k, ak_hash k)) ks" for P ks
    by (rule map_upd_rows; simp add: f)+
  show ?thesis
    using assms(2) unfolding wf_keys_def set_key_def
    by (auto simp: f m has_user_def has_account_def intro!: list_all_upd_rows)
qed

lemma wf_keys_secret:
  assumes "SetAPIKeySecret db t i prefix h algo = Inr db'" and wf: "wf_keys db"
  shows "wf_keys db'"
proof -
  let ?f = "\<lambda>k. k\<lparr> ak_prefix := prefix, ak_hash := h, ak_algo := algo \<rparr>"
  let ?u = "upd_rows (\<lambda>k. ak_key k = (t, i)) ?f"
  let ?hk = "\<lambda>k. (ak_tenant k, ak_hash k)"
  from assms(1) have fresh: "\<forall>k \<in> set (id_keys db). ak_key k \<noteq> (t, i) \<longrightarrow> ?hk k \<noteq> (t, h)"
    and db': "db' = db\<lparr> id_keys := ?u (id_keys db) \<rparr>"
    by (auto simp: SetAPIKeySecret_Inr list_ex_iff set_key_def)
  have keys: "map ak_key (?u ks) = map ak_key ks" for ks
    by (rule map_upd_rows) (simp add: ak_key_def)
  have "distinct (map ak_key ks) \<Longrightarrow> distinct (map ?hk ks) \<Longrightarrow>
      \<forall>k \<in> set ks. ak_key k \<noteq> (t, i) \<longrightarrow> ?hk k \<noteq> (t, h) \<Longrightarrow> distinct (map ?hk (?u ks))" for ks
  proof (induction ks)
    case (Cons k ks)
    show ?case
    proof (cases "ak_key k = (t, i)")
      case True
      then have "\<forall>x \<in> set ks. ak_key x \<noteq> (t, i)" using Cons.prems(1) by (auto simp: image_iff)
      then have u: "?u (k # ks) = ?f k # ks" using True by (simp add: upd_rows_def map_idI)
      have "?hk (?f k) = (t, h)" using True by (simp add: ak_key_def)
      moreover have "(t, h) \<notin> ?hk ` set ks" using Cons.prems(3) \<open>\<forall>x \<in> set ks. ak_key x \<noteq> (t, i)\<close> by (simp add: image_iff) metis
      moreover have "distinct (map ?hk ks)" using Cons.prems(2) by simp
      ultimately show ?thesis unfolding u by simp
    next
      case False
      have "?hk k \<noteq> ?hk y" if "y \<in> set (?u ks)" for y
        using that Cons.prems(2,3) False by (auto simp: set_upd_rows image_iff ak_key_def)
      moreover have "distinct (map ?hk (?u ks))" using Cons.prems by (intro Cons.IH) auto
      ultimately show ?thesis using False by (simp add: image_iff)
    qed
  qed simp
  then have "distinct (map ?hk (?u (id_keys db)))" using wf fresh by (simp add: wf_keys_def)
  moreover have "list_all (\<lambda>k. (ak_owner k \<noteq> [] \<or> ak_account k \<noteq> []) \<and> (ak_owner k = [] \<or> has_user db (ak_tenant k) (ak_owner k)) \<and>
       (ak_account k = [] \<or> has_account db (ak_tenant k) (ak_account k))) (?u (id_keys db))"
    using wf unfolding wf_keys_def by (elim conjE, intro list_all_upd_rows) auto
  ultimately show ?thesis
    using wf unfolding db' wf_keys_def by (simp add: keys has_user_def has_account_def)
qed

lemma wf_keys_statement:
  assumes "statement K db db'" and "wf_keys db"
  shows "wf_keys db'"
  using assms(1)
proof cases
  case (st_key t k)
  then show ?thesis using assms(2)
    by (auto simp: wf_keys_def insert_defs list_ex_iff list_all_iff ak_key_def has_user_def has_account_def)
next
  case (st_set_key f t i)
  then show ?thesis using wf_keys_set[of f db t i] assms(2) by simp
next
  case (st_update_key t k now)
  then show ?thesis using assms(2) by (auto dest!: UpdateAPIKey_Inr intro!: wf_keys_set)
next
  case (st_secret t i prefix h algo)
  then show ?thesis using wf_keys_secret assms(2) by blast
qed (rule wf_keys_same[OF _ assms], (auto simp: insert_defs update_defs split: if_splits dest!: ConsumeOIDCState_Inr)[1])+

lemma wf_sessions_same: "id_sessions db' = id_sessions db \<Longrightarrow> statement K db db' \<Longrightarrow> wf_sessions db \<Longrightarrow> wf_sessions db'"
  using has_user_statement[of K db db'] by (auto simp: wf_sessions_def list_all_iff)

lemma wf_sessions_upd:
  assumes "\<And>s. se_key (f s) = se_key s \<and> se_hash (f s) = se_hash s \<and> se_user (f s) = se_user s"
    and "\<And>s. s \<in> set (id_sessions db) \<Longrightarrow> P s \<Longrightarrow> se_idle s \<le> se_expires s \<Longrightarrow> se_idle (f s) \<le> se_expires (f s)"
    and "wf_sessions db"
  shows "wf_sessions (db\<lparr> id_sessions := upd_rows P f (id_sessions db) \<rparr>)"
proof -
  have f: "se_key (f s) = se_key s" "se_hash (f s) = se_hash s" "se_user (f s) = se_user s" "se_tenant (f s) = se_tenant s" for s
    using assms(1)[of s] by (auto simp: se_key_def)
  show ?thesis
    using assms(2,3) unfolding wf_sessions_def
    by (auto simp: f map_upd_rows has_user_def intro!: list_all_upd_rows)
qed

lemma wf_sessions_statement:
  assumes "statement K db db'" and "wf_sessions db"
  shows "wf_sessions db'"
  using assms(1)
proof cases
  case (st_session t s)
  then show ?thesis using assms(2)
    by (auto simp: wf_sessions_def insert_defs list_ex_iff list_all_iff se_key_def has_user_def)
next
  case (st_touch s t i idle)
  have only: "x = s" if "x \<in> set (id_sessions db)" "se_key x = (t, i)" for x
    using that st_touch(2,3) assms(2) by (auto simp: wf_sessions_def distinct_map inj_on_def)
  show ?thesis unfolding st_touch(1) TouchSession_def
    by (rule wf_sessions_upd) (use assms(2) st_touch(4) only in \<open>auto simp: se_key_def\<close>)
next
  case (st_revoke t i now reason)
  show ?thesis unfolding st_revoke RevokeSessionRow_def
    by (rule wf_sessions_upd) (use assms(2) in \<open>auto simp: se_key_def\<close>)
next
  case (st_revoke_user t u now reason)
  show ?thesis unfolding st_revoke_user RevokeUserSessionRows_def
    by (rule wf_sessions_upd) (use assms(2) in \<open>auto simp: se_key_def\<close>)
qed (rule wf_sessions_same[OF _ assms], (auto simp: insert_defs update_defs SetAPIKeySecret_Inr split: if_splits
      dest!: ConsumeOIDCState_Inr UpdateAPIKey_Inr)[1])+

lemma wf_links_same: "id_links db' = id_links db \<Longrightarrow> statement K db db' \<Longrightarrow> wf_links db \<Longrightarrow> wf_links db'"
  using has_user_statement[of K db db'] by (auto simp: wf_links_def list_all_iff)

lemma wf_links_statement:
  assumes "statement K db db'" and "wf_links db"
  shows "wf_links db'"
  using assms(1)
proof cases
  case (st_link t a)
  then show ?thesis using assms(2)
    by (auto simp: wf_links_def insert_defs list_ex_iff list_all_iff has_user_def)
qed (rule wf_links_same[OF _ assms], (auto simp: insert_defs update_defs SetAPIKeySecret_Inr split: if_splits
      dest!: ConsumeOIDCState_Inr UpdateAPIKey_Inr)[1])+

lemma wf_members_same:
  assumes "set (id_members db') \<subseteq> set (id_members db)" and "id_roles db' = id_roles db" and "statement K db db'" and "wf_members db"
  shows "wf_members db'"
  using assms(1,2,4) has_user_statement[OF assms(3)] by (fastforce simp: wf_members_def list_all_iff GetRole_ok)

lemma wf_members_statement:
  assumes "statement K db db'" and "wf_members db"
  shows "wf_members db'"
  using assms(1)
proof cases
  case (st_role t r)
  then show ?thesis using assms(2)
    by (auto simp: wf_members_def insert_defs list_ex_iff list_all_iff ro_key_def has_user_def GetRole_ok)
next
  case (st_assign t u i)
  then show ?thesis using assms(2)
    by (auto simp: wf_members_def insert_defs list_all_iff has_user_def GetRole_ok split: if_splits)
next
  case (st_unassign t u i)
  show ?thesis by (rule wf_members_same[OF _ _ assms]) (auto simp: st_unassign UnassignRole_def)
qed (rule wf_members_same[OF _ _ assms], (auto simp: insert_defs update_defs SetAPIKeySecret_Inr split: if_splits
      dest!: ConsumeOIDCState_Inr UpdateAPIKey_Inr)[1], (auto simp: insert_defs update_defs SetAPIKeySecret_Inr split: if_splits
      dest!: ConsumeOIDCState_Inr UpdateAPIKey_Inr)[1])+

lemma wf_states_statement: "statement K db db' \<Longrightarrow> wf_states db \<Longrightarrow> wf_states db'"
proof (induction rule: statement.induct)
  case (st_consume db t h now db' s)
  then show ?case by (auto simp: wf_states_def map_upd_rows dest!: ConsumeOIDCState_Inr)
qed (auto simp: wf_states_def insert_defs update_defs SetAPIKeySecret_Inr list_ex_iff split: if_splits
      dest!: UpdateAPIKey_Inr)

lemma identity_wf_statement: "statement K db db' \<Longrightarrow> identity_wf db \<Longrightarrow> identity_wf db'"
  unfolding identity_wf_def
  by (intro conjI)
    (auto intro: wf_users_statement wf_keys_statement wf_sessions_statement wf_links_statement wf_members_statement
      wf_states_statement)

lemma identity_wf_step: "identity_wf db \<Longrightarrow> identity_wf (identity_step d db a)"
  by (rule step_keeps[where P = identity_wf]) (rule identity_wf_statement)

interpretation ids: transition_system "identity_step d" identity_wf for d
  by unfold_locales (rule identity_wf_step)

definition identity_run :: "deployment \<Rightarrow> identity_db \<Rightarrow> identity_op list \<Rightarrow> identity_db" where
  "identity_run d db ops = foldl (identity_step d) db ops"

lemma identity_run_ids: "identity_run d db ops = ids.run d db ops"
  by (simp add: identity_run_def ids.run_def)

lemma identity_run_wf: "identity_wf db \<Longrightarrow> identity_wf (identity_run d db ops)"
  unfolding identity_run_ids by (rule ids.run_inv)

text \<open>What every statement keeps under the invariant holds after every run.\<close>

lemma identity_run_keeps:
  assumes "\<And>K x y. statement K x y \<Longrightarrow> identity_wf x \<Longrightarrow> P x \<Longrightarrow> P y" and "identity_wf db" and "P db"
  shows "P (identity_run d db ops)"
proof -
  have both: "identity_wf y \<and> P y" if "statement K x y" "identity_wf x \<and> P x" for K x y
    using that assms(1)[of K x y] identity_wf_statement[of K x y] by (elim conjE) (intro conjI)
  have "identity_wf (identity_step d s a) \<and> P (identity_step d s a)" if "identity_wf s \<and> P s" for s a
    using both that by (rule step_keeps[where P = "\<lambda>x. identity_wf x \<and> P x"])
  then have "P (identity_step d s a)" if "identity_wf s" "P s" for s a using that by blast
  from ids.run_stable[of P d, OF this assms(2,3)] show ?thesis unfolding identity_run_ids .
qed

text \<open>
  C40: The identity tables stay well-formed. However requests, sign-ins and administrators' operations interleave,
  tenants' users, email addresses, keys, hashes, sessions and external identities stay unique, every reference names a
  row of the tenant, every key has an owner and no session idles out later than it expires.
\<close>

theorem identity_tables_well_formed: "identity_wf (identity_run d empty_identity ops)"
  by (rule identity_run_wf)
    (simp add: identity_wf_def wf_users_def wf_keys_def wf_sessions_def wf_links_def wf_members_def wf_states_def empty_identity_def)

end
