(* ===== verification/IdentityLife.thy ===== *)
theory IdentityLife
  imports IdentityInv
begin

text \<open>
  What holds along every run of the identity operations: a revoked session is refused for ever, a consumed state stays
  spent, an external identity stays bound to its user, and a session is issued for a proof of identity only.
\<close>

section \<open>Facts that no statement takes back\<close>

lemma list_ex_upd_rows_mono: "(\<And>r. Q r \<Longrightarrow> Q (f r)) \<Longrightarrow> list_ex Q t \<Longrightarrow> list_ex Q (upd_rows P f t)"
  by (induction t) auto

lemma row_or_absent_append: "row_or_absent P t = Inr r \<Longrightarrow> row_or_absent P (t @ [x]) = Inr r"
  by (induction t) (auto simp: row_or_absent_def split: if_splits option.splits)

definition revoked_hash :: "identity_db \<Rightarrow> string \<Rightarrow> bool" where
  "revoked_hash db h = list_ex (\<lambda>s. se_hash s = h \<and> se_revoked s \<noteq> None) (id_sessions db)"

definition spent :: "identity_db \<Rightarrow> string \<Rightarrow> string \<Rightarrow> bool" where
  "spent db t h = list_ex (\<lambda>s. (os_tenant s, os_hash s) = (t, h) \<and> os_consumed s \<noteq> None) (id_states db)"

lemmas statement_defs = insert_defs update_defs SetAPIKeySecret_Inr

lemma revoked_statement: "statement K db db' \<Longrightarrow> revoked_hash db h \<Longrightarrow> revoked_hash db' h"
  by (induction rule: statement.induct)
    (auto simp: revoked_hash_def statement_defs split: if_splits intro!: list_ex_upd_rows_mono
      dest!: UpdateAPIKey_Inr ConsumeOIDCState_Inr)

lemma spent_statement: "statement K db db' \<Longrightarrow> spent db t h \<Longrightarrow> spent db' t h"
  by (induction rule: statement.induct)
    (auto simp: spent_def statement_defs split: if_splits intro!: list_ex_upd_rows_mono
      dest!: UpdateAPIKey_Inr ConsumeOIDCState_Inr)

lemma link_statement: "statement K db db' \<Longrightarrow> GetAuthIdentity db t i s = Inr a \<Longrightarrow> GetAuthIdentity db' t i s = Inr a"
  by (induction rule: statement.induct)
    (auto simp: GetAuthIdentity_def statement_defs row_or_absent_append split: if_splits
      dest!: UpdateAPIKey_Inr ConsumeOIDCState_Inr)

lemma statements_wf: "statements K db db' \<Longrightarrow> identity_wf db \<Longrightarrow> identity_wf db'"
  by (rule statements_keep) (auto intro: identity_wf_statement)

section \<open>Sessions\<close>

lemma find_row_hash:
  assumes "distinct (map g t)" and "r \<in> set t" and "g r = h"
  shows "find_row (\<lambda>x. g x = h) t = Some r"
  using assms by (induction t) (auto simp: image_iff)

lemma revoked_is_refused:
  assumes "identity_wf db" and "revoked_hash db (ae_sha env token)"
  shows "fst (AuthenticateSession env db now token) = db \<and> \<not> is_ok (snd (AuthenticateSession env db now token))"
proof -
  from assms(2) obtain s where s: "s \<in> set (id_sessions db)" "se_hash s = ae_sha env token" "se_revoked s \<noteq> None"
    by (auto simp: revoked_hash_def list_ex_iff)
  have "find_row (\<lambda>x. se_hash x = ae_sha env token) (id_sessions db) = Some s"
    using assms(1) s(1,2) by (intro find_row_hash) (auto simp: identity_wf_def wf_sessions_def)
  then show ?thesis using s(3)
    by (simp add: AuthenticateSession_def GetSessionByTokenHash_def row_or_absent_def)
qed

lemma revoked_stays_refused:
  assumes "identity_wf db" and "revoked_hash db (ae_sha env token)"
  shows "fst (AuthenticateSession env (identity_run d db ops) now token) = identity_run d db ops \<and>
    \<not> is_ok (snd (AuthenticateSession env (identity_run d db ops) now token))"
proof (rule revoked_is_refused)
  show "identity_wf (identity_run d db ops)" by (rule identity_run_wf[OF assms(1)])
  show "revoked_hash (identity_run d db ops) (ae_sha env token)"
    by (rule identity_run_keeps[where P = "\<lambda>x. revoked_hash x (ae_sha env token)"]) (use assms revoked_statement in auto)
qed

text \<open>The session of an authenticated token, and the principal it makes.\<close>

lemma AuthenticateSession_Inr:
  assumes "AuthenticateSession env db now token = (db', Inr p)"
  shows "\<exists>s \<in> set (id_sessions db). se_hash s = ae_sha env token \<and> se_revoked s = None \<and> now \<le> se_expires s \<and> now \<le> se_idle s \<and>
    p_tenant p = se_tenant s \<and> p_session p = se_id s \<and> p_user p = se_user s \<and>
    db' = TouchSession db (se_tenant s) (se_id s) (capped_idle now (se_expires s)) \<and>
    (\<exists>u \<in> set (id_users db). u_key u = (se_tenant s, se_user s) \<and> u_status u = ''active'')"
proof -
  from assms obtain s u where s: "GetSessionByTokenHash db (ae_sha env token) = Inr s" "se_revoked s = None"
      "now \<le> se_expires s" "now \<le> se_idle s" and u: "GetUser db (se_tenant s) (se_user s) = Inr u" "u_status u = ''active''"
    and db': "db' = TouchSession db (se_tenant s) (se_id s) (capped_idle now (se_expires s))"
    and p: "p = (principalForUser db u)\<lparr> p_credential := se_id s, p_credential_kind := CredentialKindSession, p_session := se_id s \<rparr>"
    by (auto simp: AuthenticateSession_def not_less split: if_splits sum.splits)
  have pu: "p_tenant p = u_tenant u" "p_session p = se_id s" "p_user p = u_id u"
    by (simp_all add: p principalForUser_def Let_def)
  show ?thesis
    by (rule bexI[of _ s]) (use s u pu db' GetSessionByTokenHash_Inr[OF s(1)] GetUser_Inr[OF u(1)] in \<open>auto simp: u_key_def\<close>)
qed

lemma revoked_by_id:
  assumes "s \<in> set (id_sessions db)" and "se_key s = (t, i)"
  shows "revoked_hash (RevokeSessionRow db t i now reason) (se_hash s)"
proof -
  have "s\<lparr> se_revoked := Some now, se_reason := reason \<rparr> \<in>
      set (upd_rows (\<lambda>s. se_key s = (t, i)) (\<lambda>s. s\<lparr> se_revoked := Some now, se_reason := reason \<rparr>) (id_sessions db))"
    using assms by (auto simp: set_upd_rows)
  then show ?thesis unfolding revoked_hash_def RevokeSessionRow_def list_ex_iff
    by (intro bexI[of _ "s\<lparr> se_revoked := Some now, se_reason := reason \<rparr>"]) simp_all
qed

text \<open>
  C9: A logout is final. Once the logout of a browser's session succeeded, its cookie never authenticates again,
  whatever operations run in between.
\<close>

theorem logout_is_final:
  assumes "identity_wf db" and "HandleLogout env db now cookie header csrf = (db', True)"
  shows "SessionPrincipal env (identity_run d db' ops) later cookie = (identity_run d db' ops, None)"
proof -
  have "statements UNIV db (fst (HandleLogout env db now cookie header csrf))" by (rule sts_logout)
  then have wf: "identity_wf db'" using statements_wf assms by fastforce
  from assms(2) obtain c db1 p where c: "cookie = Some c" "trim_space c \<noteq> []" "AuthenticateSession env db now c = (db1, Inr p)"
    and db': "db' = RevokeSessionRow db1 (p_tenant p) (p_session p) now ''logout''"
    by (auto simp: HandleLogout_def SessionPrincipal_def RevokeSession_def split: option.splits prod.splits sum.splits if_splits)
  from AuthenticateSession_Inr[OF c(3)] obtain s where s: "s \<in> set (id_sessions db)" "se_hash s = ae_sha env c"
      "p_tenant p = se_tenant s" "p_session p = se_id s" "db1 = TouchSession db (se_tenant s) (se_id s) (capped_idle now (se_expires s))"
    by blast
  have "s\<lparr> se_idle := capped_idle now (se_expires s) \<rparr> \<in> set (id_sessions db1)"
    using s(1) by (auto simp: s(5) TouchSession_def set_upd_rows se_key_def)
  from revoked_by_id[OF this, of "se_tenant s" "se_id s"] have "revoked_hash db' (ae_sha env c)"
    using s(2-4) by (simp add: db' se_key_def)
  from revoked_stays_refused[OF wf this, of d ops later] c show ?thesis
    by (auto simp: SessionPrincipal_def is_ok_def split: prod.splits sum.splits)
qed


section \<open>External identities and states\<close>

text \<open>
  C21: An external identity is never bound anew. Once a provider's subject is linked to a user, no run of operations
  links it to anyone else: every later sign-in with it ends as that user or fails, and is never offered for linking.
\<close>

theorem external_identity_never_rebinds:
  assumes "identity_wf db" and "GetAuthIdentity db t (op_issuer p) subj = Inr a"
    and "snd (resolveIdentity env (identity_run d db ops) now t p subj email verified return_to ids) = Inr res"
  shows "fr_user res = ai_user a \<and> \<not> fr_link_required res \<and>
    GetAuthIdentity (identity_run d db ops) t (op_issuer p) subj = Inr a"
proof -
  let ?db = "identity_run d db ops"
  have g: "GetAuthIdentity ?db t (op_issuer p) subj = Inr a"
    by (rule identity_run_keeps[where P = "\<lambda>x. GetAuthIdentity x t (op_issuer p) subj = Inr a"])
      (use assms(1,2) link_statement in auto)
  obtain w where "resolveIdentity env ?db now t p subj email verified return_to ids = (w, Inr res)"
    using assms(3) by (cases "resolveIdentity env ?db now t p subj email verified return_to ids") simp
  then have "\<exists>u. GetUser ?db t (ai_user a) = Inr u \<and> res = linked_result (u_id u) return_to"
    unfolding resolveIdentity_def g by (auto simp: and_then_Inr demand_Inr split: if_splits)
  then show ?thesis using g by (auto simp: linked_result_def u_key_def dest!: GetUser_Inr)
qed

lemma spent_is_refused:
  assumes "identity_wf db" and "spent db t h"
  shows "ConsumeOIDCState db t h now = Inl AuthNotFound" and "\<exists>s. GetOIDCState db t h = Inr s \<and> os_consumed s \<noteq> None"
proof -
  from assms(2) obtain s where s: "s \<in> set (id_states db)" "(os_tenant s, os_hash s) = (t, h)" "os_consumed s \<noteq> None"
    by (auto simp: spent_def list_ex_iff)
  have only: "x = s" if "x \<in> set (id_states db)" "os_hash x = h" for x
    using that s(1,2) assms(1) distinct_keys_unique[of os_hash "id_states db" x s] by (simp add: identity_wf_def wf_states_def)
  have "find_row (\<lambda>s. (os_tenant s, os_hash s) = (t, h) \<and> os_consumed s = None) (id_states db) = None"
    unfolding find_row_None
  proof (intro ballI notI)
    fix x
    assume x: "x \<in> set (id_states db)" "(os_tenant x, os_hash x) = (t, h) \<and> os_consumed x = None"
    then have "x = s" by (intro only) simp_all
    then show False using x(2) s(3) by simp
  qed
  then show "ConsumeOIDCState db t h now = Inl AuthNotFound" unfolding ConsumeOIDCState_def Let_def by simp
  have "find_row (\<lambda>s. (os_tenant s, os_hash s) = (t, h)) (id_states db) = Some s"
  proof (rule find_row_unique[of os_hash _ _ _ h])
    show "distinct (map os_hash (id_states db))" using assms(1) by (simp add: identity_wf_def wf_states_def)
    show "os_hash x = h" if "(os_tenant x, os_hash x) = (t, h)" for x using that by simp
  qed (fact s)+
  then show "\<exists>s. GetOIDCState db t h = Inr s \<and> os_consumed s \<noteq> None"
    using s(3) by (simp add: GetOIDCState_def row_or_absent_def)
qed


section \<open>Sessions are issued for proofs\<close>

lemma hashes_statement:
  "statement K db db' \<Longrightarrow> NewSession \<notin> K \<Longrightarrow> se_hash ` set (id_sessions db') \<subseteq> se_hash ` set (id_sessions db)"
  by (induction rule: statement.induct)
    (auto simp: statement_defs set_upd_rows split: if_splits dest!: UpdateAPIKey_Inr ConsumeOIDCState_Inr)

lemma hashes_statements:
  "statements K db db' \<Longrightarrow> NewSession \<notin> K \<Longrightarrow> h \<in> se_hash ` set (id_sessions db') \<Longrightarrow> h \<in> se_hash ` set (id_sessions db)"
proof (induction rule: rtranclp_induct)
  case (step y z)
  then show ?case using hashes_statement[OF step.hyps(2) step.prems(1)] by blast
qed

text \<open>A composition that ends in a new session: nothing before it made one, so it is the one that was issued.\<close>

lemma issued_session:
  assumes "s \<in> set (id_sessions (fst (and_then r (\<lambda>db p. IssueSession env db now (t p) (u p) ttl secret csrf newid))))"
    and "se_hash s \<notin> se_hash ` set (id_sessions db)" and "statements {NewLink} db (fst r)"
  shows "\<exists>w p. r = (w, Inr p) \<and> (se_tenant s, se_user s) = (t p, u p)"
proof -
  obtain w x where r: "r = (w, x)" by (cases r)
  have old: "s \<notin> set (id_sessions w)"
    using assms(2) hashes_statements[OF assms(3)] r by auto
  then obtain p where x: "x = Inr p" using assms(1) r by (cases x) auto
  have "s \<in> set (id_sessions (fst (IssueSession env w now (t p) (u p) ttl secret csrf newid)))"
    using assms(1) by (simp add: r x)
  with old show ?thesis
    by (auto simp: r x IssueSession_def Let_def CreateSession_def insert_row_Inr auth_write_def fst_and_then insert_row_def split: if_splits)
qed

lemma AuthenticatePassword_Inr:
  assumes "AuthenticatePassword env db now t email pw = (db', Inr p)"
  shows "list_ex (\<lambda>u. u_key u = (t, p_user p) \<and> u_email u = go_lower (trim_space email) \<and> u_status u = ''active'' \<and>
    ae_verify env (u_password u) pw) (id_users db) \<and> p_tenant p = t"
proof -
  from assms obtain u where u: "GetUserByEmail db t (go_lower (trim_space email)) = Inr u" "ae_verify env (u_password u) pw"
      "u_status u = ''active''" "p = principalForUser db u"
    by (auto simp: AuthenticatePassword_def split: sum.splits if_splits)
  have g: "u \<in> set (id_users db)" "u_tenant u = t" "u_email u = go_lower (trim_space email)"
    using u(1) by (auto simp: GetUserByEmail_def dest!: row_or_absent_Inr)
  have p: "p_user p = u_id u" "p_tenant p = t" by (simp_all add: u(4) principalForUser_def Let_def g(2))
  show ?thesis unfolding list_ex_iff by (intro conjI bexI[of _ u]) (use u g p in \<open>simp_all add: u_key_def\<close>)
qed

lemma resolveIdentity_linked:
  assumes "resolveIdentity env db now t p subj email verified return_to ids = (w, Inr res)" and "\<not> fr_link_required res"
  shows "list_ex (\<lambda>l. (ai_tenant l, ai_issuer l, ai_subject l) = (t, op_issuer p, subj) \<and> ai_user l = fr_user res) (id_links db) \<and> w = db"
proof (cases "GetAuthIdentity db t (op_issuer p) subj")
  case (Inr l)
  with assms obtain u where u: "GetUser db t (ai_user l) = Inr u" "res = linked_result (u_id u) return_to" "w = db"
    by (auto simp: resolveIdentity_def and_then_Inr demand_Inr split: if_splits)
  have l: "l \<in> set (id_links db)" "(ai_tenant l, ai_issuer l, ai_subject l) = (t, op_issuer p, subj)"
    using Inr by (auto simp: GetAuthIdentity_def dest!: row_or_absent_Inr)
  have "ai_user l = fr_user res" using GetUser_Inr[OF u(1)] u(2) by (simp add: linked_result_def u_key_def)
  then show ?thesis unfolding list_ex_iff using l u(3) by blast
next
  case (Inl e)
  with assms show ?thesis
    by (auto simp: resolveIdentity_def newLinkChallenge_def Let_def and_then_Inr split: if_splits auth_error.splits)
qed

text \<open>Who proved what: the user's password, or a token verified for a state of the tenant and linked to the user.\<close>

definition password_proof :: "auth_env \<Rightarrow> identity_db \<Rightarrow> string \<Rightarrow> string \<Rightarrow> string \<Rightarrow> string \<Rightarrow> bool" where
  "password_proof env db t i email pw = list_ex (\<lambda>u. u_key u = (t, i) \<and> u_email u = go_lower (trim_space email) \<and>
     u_status u = ''active'' \<and> ae_verify env (u_password u) pw) (id_users db)"

definition token_proof :: "oidc_env \<Rightarrow> identity_db \<Rightarrow> time \<Rightarrow> string \<Rightarrow> string \<Rightarrow> string \<Rightarrow> string \<Rightarrow> bool" where
  "token_proof env db now t i token code \<longleftrightarrow>
     (\<exists>st \<in> set (id_states db). \<exists>p \<in> set (id_providers db). \<exists>l \<in> set (id_links db). \<exists>secret callback tok.
        (os_tenant st, os_hash st) = (t, ae_sha (oe_auth env) token) \<and> os_consumed st = None \<and> now \<le> os_expires st \<and>
        op_key p = (t, os_provider st) \<and> op_enabled p \<and>
        oe_exchange env p secret callback code (os_pkce st) = Some tok \<and> it_nonce tok = os_nonce st \<and>
        (ai_tenant l, ai_issuer l, ai_subject l, ai_user l) = (t, op_issuer p, it_subject tok, i))"

lemma CompleteFlow_linked:
  assumes "CompleteFlow env db now t token code base ids = (w, Inr res)" and "\<not> fr_link_required res"
  shows "token_proof env db now t (fr_user res) token code"
proof -
  obtain db1 row where c: "ConsumeOIDCState db t (ae_sha (oe_auth env) token) now = Inr (db1, row)"
    using assms(1) by (cases "ConsumeOIDCState db t (ae_sha (oe_auth env) token) now") (auto simp: CompleteFlow_def)
  from ConsumeOIDCState_Inr[OF c] obtain st where st: "st \<in> set (id_states db)" "(os_tenant st, os_hash st) = (t, ae_sha (oe_auth env) token)"
      "os_consumed st = None" "row = st\<lparr> os_consumed := Some now \<rparr>"
    and same: "id_links db1 = id_links db" "id_providers db1 = id_providers db" by auto
  from assms(1) obtain b p secret callback tok where f: "now \<le> os_expires row" "flowClientFull env db1 t (os_provider row) b = Inr (p, secret, callback)"
      "oe_exchange env p secret callback code (os_pkce row) = Some tok" "it_nonce tok = os_nonce row"
      "resolveIdentity env db1 now t p (it_subject tok) (go_lower (trim_space (it_email tok))) (it_email_verified tok) (os_return row) ids = (w, Inr res)"
    unfolding CompleteFlow_def c by (auto simp: and_then_Inr demand_Inr split: option.splits)
  have p: "p \<in> set (id_providers db)" "op_key p = (t, os_provider st)" "op_enabled p"
    using f(2) st(4) same(2)
    by (auto simp: flowClientFull_def bind_r_Inr GetOIDCProvider_def split: if_splits dest!: row_or_absent_Inr)
  from resolveIdentity_linked[OF f(5) assms(2)] obtain l where "l \<in> set (id_links db)"
      "(ai_tenant l, ai_issuer l, ai_subject l, ai_user l) = (t, op_issuer p, it_subject tok, fr_user res)"
    by (auto simp: list_ex_iff same(1))
  with st p f(1,3,4) show ?thesis unfolding token_proof_def
    by (intro bexI[of _ st] bexI[of _ p] bexI[of _ l] exI[of _ secret] exI[of _ callback] exI[of _ tok]) simp_all
qed

lemma confirmed_user:
  assumes "(case r of Inl e \<Rightarrow> (db, Inl e)
     | Inr (db, _) \<Rightarrow> and_then (auth_write db (f db)) (\<lambda>db _. (db, Inr (linked_result u ret)))) = (w, Inr res)"
  shows "fr_user res = u"
  using assms by (auto simp: and_then_Inr linked_result_def split: sum.splits prod.splits)

lemma ConfirmLink_Inr:
  assumes "ConfirmLink env db now t token email pw newid = (w, Inr res)"
  shows "password_proof (oe_auth env) db t (fr_user res) email pw"
proof -
  from assms obtain w' q where q: "AuthenticatePassword (oe_auth env) db now t email pw = (w', Inr q)" and u: "fr_user res = p_user q"
    unfolding ConfirmLink_def Let_def and_then_Inr demand_Inr prod.inject sum.inject by (elim exE conjE) (auto dest: confirmed_user)
  then show ?thesis using AuthenticatePassword_Inr[OF q] by (simp add: password_proof_def)
qed

text \<open>
  C6: A session is issued for a proof of identity only. A session that an operation adds was asked for by a login with
  the password of its active user, by a callback with a token that the provider verified for an unexpired and unused
  state of this tenant and whose subject is linked to its user, or by confirming a link with its user's password.
\<close>

theorem session_needs_proof:
  assumes "s \<in> set (id_sessions (identity_step d db a))" and "se_hash s \<notin> se_hash ` set (id_sessions db)"
  shows "case a of
      OpLogin now ttl slug email pw ret ids \<Rightarrow> password_proof (oe_auth (dp_oidc d)) db (se_tenant s) (se_user s) (trim_space email) pw
    | OpLink now ttl slug tok email pw i ids \<Rightarrow> password_proof (oe_auth (dp_oidc d)) db (se_tenant s) (se_user s) (trim_space email) pw
    | OpCallback now ttl slug tok code base f ids \<Rightarrow> token_proof (dp_oidc d) db now (se_tenant s) (se_user s) tok code
    | _ \<Rightarrow> False"
proof (cases "NewSession \<in> effects a")
  case False
  then show ?thesis
    using hashes_statements[OF step_statements[OF order_refl], of a "se_hash s" d db] assms by blast
next
  case True
  have new: "s \<notin> set (id_sessions db)" using assms(2) by blast
  from True show ?thesis
  proof (cases a)
    case (OpLogin now ttl slug email pw ret ids)
    from assms(1) new obtain t where t: "s \<in> set (id_sessions (fst (and_then
        (AuthenticatePassword (oe_auth (dp_oidc d)) db now t (trim_space email) pw) (\<lambda>db p. IssueSession (oe_auth (dp_oidc d)) db now
          (p_tenant p) (p_user p) ttl (si_secret ids) (si_csrf ids) (si_id ids)))))"
      by (auto simp: OpLogin handleLoginPost_def issueSessionCookies_def fst_and_then split: sum.splits)
    from issued_session[OF t assms(2) sts_password] obtain w p
      where p: "AuthenticatePassword (oe_auth (dp_oidc d)) db now t (trim_space email) pw = (w, Inr p)"
        "(se_tenant s, se_user s) = (p_tenant p, p_user p)" by blast
    show ?thesis using AuthenticatePassword_Inr[OF p(1)] p(2) by (simp add: OpLogin password_proof_def)
  next
    case (OpCallback now ttl slug tok code base f ids)
    let ?t = "case ResolveTenantID db slug of Inr t \<Rightarrow> t"
    let ?r = "CompleteFlow (dp_oidc d) db now ?t tok code base f"
    have s: "s \<in> set (id_sessions (fst (and_then ?r (\<lambda>db res. if fr_link_required res then (db, Inr None)
        else and_then (issueSessionCookies (oe_auth (dp_oidc d)) db now ttl ?t (fr_user res) ids) (\<lambda>db c. (db, Inr (Some c)))))))"
      using assms(1) new by (auto simp: OpCallback HandleOIDCCallback_def fst_and_then split: sum.splits)
    obtain w x where r: "?r = (w, x)" by (cases ?r)
    have keep: "statements {NewLink} db w" using sts_complete[of "{NewLink}" db "dp_oidc d" now ?t tok code base f] r by simp
    then have old: "s \<notin> set (id_sessions w)" using assms(2) hashes_statements[OF keep] by auto
    then obtain res where x: "x = Inr res" "\<not> fr_link_required res"
      using s r by (cases x) (auto split: if_splits)
    have "s \<in> set (id_sessions (fst (and_then ?r (\<lambda>db res. IssueSession (oe_auth (dp_oidc d)) db now ?t (fr_user res) ttl
        (si_secret ids) (si_csrf ids) (si_id ids)))))"
      using s by (auto simp: r x issueSessionCookies_def fst_and_then split: sum.splits)
    from issued_session[OF this assms(2)] keep r have "(se_tenant s, se_user s) = (?t, fr_user res)" by (auto simp: x)
    then show ?thesis using CompleteFlow_linked[of "dp_oidc d" db now ?t tok code base f w res] r x by (simp add: OpCallback)
  next
    case (OpLink now ttl slug tok email pw i ids)
    let ?t = "case ResolveTenantID db slug of Inr t \<Rightarrow> t"
    have t: "s \<in> set (id_sessions (fst (and_then (ConfirmLink (dp_oidc d) db now ?t tok (trim_space email) pw i)
        (\<lambda>db res. IssueSession (oe_auth (dp_oidc d)) db now ?t (fr_user res) ttl (si_secret ids) (si_csrf ids) (si_id ids)))))"
      using assms(1) new by (auto simp: OpLink HandleLinkIdentity_def issueSessionCookies_def fst_and_then split: sum.splits)
    from issued_session[OF t assms(2) sts_confirm] obtain w res
      where r: "ConfirmLink (dp_oidc d) db now ?t tok (trim_space email) pw i = (w, Inr res)"
        "(se_tenant s, se_user s) = (?t, fr_user res)" by blast
    show ?thesis using ConfirmLink_Inr[OF r(1)] r(2) by (simp add: OpLink)
  qed simp_all
qed

section \<open>A concrete deployment\<close>

text \<open>A provider whose tokens carry the code as their subject, two users with a session each, and a state that waits.\<close>

definition demo_oidc :: oidc_env where
  "demo_oidc = \<lparr> oe_auth = demo_auth, oe_getenv = (\<lambda>_. Some ''s''), oe_local_url = (\<lambda>_. True), oe_origin = Some,
     oe_discovered = (\<lambda>_. True), oe_exchange = (\<lambda>_ _ _ code _.
       Some \<lparr> it_subject = code, it_nonce = ''n'', it_email = ''a@b'', it_email_verified = True \<rparr>) \<rparr>"

definition demo_deployment :: deployment where
  "demo_deployment = \<lparr> dp_oidc = demo_oidc, dp_key_prefix = ''sk-'', dp_key_algo = ''hmac_sha256'' \<rparr>"

definition demo_session :: "string \<Rightarrow> string \<Rightarrow> string \<Rightarrow> session" where
  "demo_session i u token = \<lparr> se_tenant = ''t'', se_id = i, se_user = u, se_hash = ''sha:'' @ token, se_csrf = ''c'',
     se_expires = 100, se_idle = 100, se_revoked = None, se_reason = [] \<rparr>"

definition demo_provider :: oidc_provider where
  "demo_provider = \<lparr> op_tenant = ''t'', op_id = ''p'', op_name = ''P'', op_issuer = ''iss'', op_client = ''c'',
     op_secret_ref = ''env:X'', op_path = ''/cb'', op_enabled = True \<rparr>"

definition demo_signin :: identity_db where
  "demo_signin = demo_identity\<lparr>
     id_users := id_users demo_identity @ [\<lparr> u_tenant = ''t'', u_id = ''bob'', u_email = ''b@b'', u_name = [],
       u_status = ''active'', u_password = ''bc:bob'', u_password_set = None, u_last_login = None \<rparr>],
     id_sessions := [demo_session ''s1'' ''root'' ''one'', demo_session ''s2'' ''bob'' ''two''],
     id_providers := [demo_provider],
     id_links := [\<lparr> ai_tenant = ''t'', ai_id = ''a'', ai_user = ''root'', ai_issuer = ''iss'', ai_subject = ''sub'',
       ai_linked_at = 0, ai_linked_by = ''root'' \<rparr>],
     id_states := [\<lparr> os_tenant = ''t'', os_id = ''o'', os_hash = ''sha:st'', os_provider = ''p'', os_user = [], os_nonce = ''n'',
       os_pkce = ''v'', os_return = ''/'', os_subject = [], os_email = [], os_pending = [], os_expires = 100, os_consumed = None \<rparr>] \<rparr>"

definition demo_fids :: flow_ids where
  "demo_fids = \<lparr> fi_id = ''1'', fi_token = ''tk'', fi_nonce = ''n'', fi_pkce = ''v'' \<rparr>"

definition demo_sids :: session_ids where
  "demo_sids = \<lparr> si_secret = ''x'', si_csrf = ''y'', si_id = ''1'' \<rparr>"

lemma demo_signin_wf: "identity_wf demo_signin"
  by code_simp

theorem logout_is_final_witness:
  "snd (SessionPrincipal demo_auth
     (identity_run demo_deployment (fst (HandleLogout demo_auth demo_signin 5 (Some ''one'') ''c'' None)) [OpSession 6 ''one''])
     7 (Some ''one'')) = None"
proof -
  have "snd (HandleLogout demo_auth demo_signin 5 (Some ''one'') ''c'' None) = True" by code_simp
  then have "HandleLogout demo_auth demo_signin 5 (Some ''one'') ''c'' None =
      (fst (HandleLogout demo_auth demo_signin 5 (Some ''one'') ''c'' None), True)" by (simp add: prod_eq_iff)
  from logout_is_final[OF demo_signin_wf this] show ?thesis by simp
qed


theorem external_identity_never_rebinds_witness:
  "is_ok (GetAuthIdentity (identity_run demo_deployment demo_signin [OpSession 6 ''one'']) ''t'' (op_issuer demo_provider) ''sub'')"
proof -
  let ?db = "identity_run demo_deployment demo_signin [OpSession 6 ''one'']"
  have l: "is_ok (GetAuthIdentity demo_signin ''t'' (op_issuer demo_provider) ''sub'')" by code_simp
  then obtain a where a: "GetAuthIdentity demo_signin ''t'' (op_issuer demo_provider) ''sub'' = Inr a" by (rule is_okE)
  have "is_ok (snd (resolveIdentity demo_oidc ?db 7 ''t'' demo_provider ''sub'' ''a@b'' True ''/'' demo_fids))" by code_simp
  then obtain res where "snd (resolveIdentity demo_oidc ?db 7 ''t'' demo_provider ''sub'' ''a@b'' True ''/'' demo_fids) = Inr res"
    by (rule is_okE)
  from external_identity_never_rebinds[OF demo_signin_wf a this] show ?thesis by simp
qed


theorem session_needs_proof_witness: "token_proof demo_oidc demo_signin 5 ''t'' ''root'' ''st'' ''sub''"
proof -
  let ?a = "OpCallback 5 100 ''acme'' ''st'' ''sub'' ''https://x'' demo_fids demo_sids"
  let ?s = "last (id_sessions (identity_step demo_deployment demo_signin ?a))"
  have "id_sessions (identity_step demo_deployment demo_signin ?a) \<noteq> []" by code_simp
  then have "?s \<in> set (id_sessions (identity_step demo_deployment demo_signin ?a))" by (rule last_in_set)
  moreover have "se_hash ?s \<notin> se_hash ` set (id_sessions demo_signin)" by code_simp
  moreover have "se_tenant ?s = ''t''" "se_user ?s = ''root''" by code_simp+
  moreover have "dp_oidc demo_deployment = demo_oidc" by (simp add: demo_deployment_def)
  ultimately show ?thesis using session_needs_proof[of ?s demo_deployment demo_signin ?a] by simp
qed

end
