(* ===== verification/IdentityGrants.thy ===== *)
theory IdentityGrants
  imports IdentityLife
begin

text \<open>
  Administration gives away no more than the administrator has, and leaves the tenant with an administrator.
\<close>

section \<open>What an operation without an effect leaves alone\<close>

lemma image_upd_rows: "(\<And>r. g (f r) = g r) \<Longrightarrow> g ` set (upd_rows P f t) = g ` set t"
  using map_upd_rows[of P g f t] by (metis set_map)

lemma no_role_statement: "statement K db db' \<Longrightarrow> NewRole \<notin> K \<Longrightarrow> id_roles db' = id_roles db"
  by (induction rule: statement.induct)
    (auto simp: statement_defs split: if_splits dest!: UpdateAPIKey_Inr ConsumeOIDCState_Inr)

lemma no_member_statement: "statement K db db' \<Longrightarrow> NewMember \<notin> K \<Longrightarrow> set (id_members db') \<subseteq> set (id_members db)"
  by (induction rule: statement.induct)
    (auto simp: statement_defs split: if_splits dest!: UpdateAPIKey_Inr ConsumeOIDCState_Inr)

lemma no_account_statement:
  "statement K db db' \<Longrightarrow> NewAccount \<notin> K \<Longrightarrow> sa_scopes ` set (id_accounts db') \<subseteq> sa_scopes ` set (id_accounts db)"
  by (induction rule: statement.induct)
    (auto simp: statement_defs set_upd_rows split: if_splits dest!: UpdateAPIKey_Inr ConsumeOIDCState_Inr)

abbreviation key_scopes :: "api_key \<Rightarrow> (string \<times> string) \<times> string set" where
  "key_scopes k \<equiv> (ak_key k, fst (DecodeAllowlist (ak_scopes k)))"

lemma no_key_statement:
  assumes "statement K db db'" and "NewKey \<notin> K" and "NewScopes \<notin> K"
  shows "key_scopes ` set (id_keys db') \<subseteq> key_scopes ` set (id_keys db)"
  using assms(1)
proof cases
  case (st_set_key f t i)
  then have "key_scopes (f k) = key_scopes k" for k by simp
  then show ?thesis unfolding st_set_key(1) set_key_def by (simp add: image_upd_rows)
next
  case (st_secret t i prefix h algo)
  have "key_scopes (k\<lparr> ak_prefix := prefix, ak_hash := h, ak_algo := algo \<rparr>) = key_scopes k" for k by (simp add: ak_key_def)
  then show ?thesis using st_secret unfolding SetAPIKeySecret_Inr set_key_def by (simp add: image_upd_rows)
qed (use assms in \<open>auto simp: insert_defs update_defs split: if_splits dest!: ConsumeOIDCState_Inr\<close>)

text \<open>The same for operations.\<close>

lemma no_role:
  assumes "NewRole \<notin> K" and "statements K db db'"
  shows "id_roles db' = id_roles db"
  using assms(2) by induction (simp_all add: no_role_statement[OF _ assms(1)])

lemma no_member:
  assumes "NewMember \<notin> K" and "statements K db db'"
  shows "set (id_members db') \<subseteq> set (id_members db)"
  using assms(2) by induction (rule order_refl, (rule order_trans[OF no_member_statement[OF _ assms(1)]]; assumption))

lemma no_account:
  assumes "NewAccount \<notin> K" and "statements K db db'"
  shows "sa_scopes ` set (id_accounts db') \<subseteq> sa_scopes ` set (id_accounts db)"
  using assms(2) by induction (rule order_refl, (rule order_trans[OF no_account_statement[OF _ assms(1)]]; assumption))

lemma no_key:
  assumes "NewKey \<notin> K" and "NewScopes \<notin> K" and "statements K db db'"
  shows "key_scopes ` set (id_keys db') \<subseteq> key_scopes ` set (id_keys db)"
  using assms(3) by induction (rule order_refl, (rule order_trans[OF no_key_statement[OF _ assms(1,2)]]; assumption))

section \<open>Nothing beyond the caller\<close>

text \<open>The administrator behind an operation that gives something.\<close>

fun giver :: "identity_op \<Rightarrow> principal option" where
  "giver (OpCreateRole p _ _ _) = Some p"
| "giver (OpCreateAccount p _ _ _) = Some p"
| "giver (OpCreateKey p _ _ _) = Some p"
| "giver (OpPutKey _ p _ _) = Some p"
| "giver (OpAssign _ p _ _) = Some p"
| "giver (OpCreateUser _ p _ _ _ _ _) = Some p"
| "giver _ = None"

definition within_giver :: "identity_op \<Rightarrow> string set \<Rightarrow> bool" where
  "within_giver a S = (case giver a of None \<Rightarrow> False | Some p \<Rightarrow> (\<forall>s \<in> S. HasScope p s))"

lemma assignRoleChecked_members:
  "set (id_members (fst (assignRoleChecked db p u i))) \<subseteq> insert (p_tenant p, u, i) (set (id_members db)) \<and>
   ((p_tenant p, u, i) \<in> set (id_members (fst (assignRoleChecked db p u i))) \<longrightarrow> (p_tenant p, u, i) \<in> set (id_members db) \<or>
     (\<exists>r. GetRole db (p_tenant p) i = Inr r \<and> (\<forall>s \<in> set (ro_scopes r). HasScope p s)))"
  by (auto simp: assignRoleChecked_def fst_and_then fetched_def demand_def stored_def scopesSubsetOfCaller_def list_all_iff
      AssignRole_def insert_row_def map_sum_def split: sum.splits if_splits)

lemma assignRoleChecked_roles: "GetRole (fst (assignRoleChecked db p u i)) = GetRole db"
proof -
  have "id_roles (fst (assignRoleChecked db p u i)) = id_roles db"
    by (rule no_role[of "{NewMember}"]) (auto intro: sts_assign)
  then show ?thesis by (simp add: GetRole_def fun_eq_iff)
qed

lemma assign_roles_members:
  "(t, x, i) \<in> set (id_members (fst (assign_roles db p u is))) \<Longrightarrow> (t, x, i) \<in> set (id_members db) \<or>
     (\<exists>r. t = p_tenant p \<and> GetRole db t i = Inr r \<and> (\<forall>s \<in> set (ro_scopes r). HasScope p s))"
proof (induction "is" arbitrary: db)
  case (Cons j js)
  let ?w = "fst (assignRoleChecked db p u j)"
  have "(t, x, i) \<in> set (id_members ?w) \<or>
      (\<exists>r. t = p_tenant p \<and> GetRole db t i = Inr r \<and> (\<forall>s \<in> set (ro_scopes r). HasScope p s))"
    using Cons.prems Cons.IH[of ?w] by (auto simp: fst_and_then assignRoleChecked_roles split: sum.splits)
  then show ?case using assignRoleChecked_members[of db p u j] by auto
qed simp

lemma DecodeAllowlist_jsonb [simp]: "DecodeAllowlist (jsonb r) = DecodeAllowlist r"
  by (cases r) (simp_all add: jsonb_def DecodeAllowlist_def decode_grant_def)

text \<open>The rows of keys after an update: the updated one has the document's scopes, the others are as before.\<close>

lemma UpdateAPIKey_scopes:
  assumes "UpdateAPIKey db t k now = Inr db'" and "x \<in> set (id_keys db')"
  shows "key_scopes x \<in> key_scopes ` set (id_keys db) \<or>
    (ak_key x = (t, ak_id k) \<and> fst (DecodeAllowlist (ak_scopes x)) = fst (DecodeAllowlist (ak_scopes k)))"
  using assms by (auto simp: set_key_def set_upd_rows dest!: UpdateAPIKey_Inr)

text \<open>The keys after each operation that writes scopes.\<close>

lemma create_key_scopes:
  assumes "k \<in> set (id_keys (fst (createAdminKey env prefix algo db p req secret newid)))"
  shows "k \<in> set (id_keys db) \<or> (\<forall>s \<in> fst (DecodeAllowlist (ak_scopes k)). HasScope p s)"
  using assms
  by (auto simp: createAdminKey_def Let_def fst_and_then demand_def stored_def fetched_def CreateAPIKey_def insert_row_def
      writeScopeSubsetError_def split: option.splits sum.splits prod.splits if_splits)

lemma put_key_scopes:
  assumes "k \<in> set (id_keys (fst (putKey db now p i req)))"
  shows "key_scopes k \<in> key_scopes ` set (id_keys db) \<or> (\<forall>s \<in> fst (DecodeAllowlist (ak_scopes k)). HasScope p s)"
proof -
  have "key_scopes k \<in> key_scopes ` set (id_keys db) \<or> (\<forall>s \<in> fst (DecodeAllowlist (ak_scopes k)). HasScope p s)"
    if "k \<in> set (id_keys (fst (and_then (demand db (writeScopeSubsetError p k1) e1) (\<lambda>db _. and_then (demand db c e2) (\<lambda>db _.
      stored db (UpdateAPIKey db (p_tenant p) k1 now))))))" for k1 e1 c e2
    using that UpdateAPIKey_scopes[of db "p_tenant p" k1 now _ k]
    by (auto simp: fst_and_then demand_def stored_def writeScopeSubsetError_def split: sum.splits if_splits)
  with assms show ?thesis
    by (auto simp: putKey_def Let_def fst_and_then fetched_def map_sum_def split: option.splits sum.splits)
qed

lemma GetAPIKey_Inr: "GetAPIKey db t i = Inr k \<Longrightarrow> \<exists>r \<in> set (id_keys db). ak_key r = (t, i) \<and> k = scanAPIKey r"
  unfolding GetAPIKey_def
  by (cases "row_or_absent (\<lambda>k. ak_key k = (t, i)) (id_keys db)") (auto dest!: row_or_absent_Inr)

text \<open>Writing back what was read, under whatever other changes, grants nothing.\<close>

lemma write_back_scopes:
  assumes "GetAPIKey db t i = Inr k0" and "key_scopes ` set (id_keys w) = key_scopes ` set (id_keys db)"
    and "UpdateAPIKey w t k1 now = Inr db'" and "ak_id k1 = ak_id k0" and "ak_scopes k1 = ak_scopes k0"
    and "k \<in> set (id_keys db')"
  shows "key_scopes k \<in> key_scopes ` set (id_keys db)"
proof -
  obtain r where r: "r \<in> set (id_keys db)" "ak_key r = (t, i)" "k0 = scanAPIKey r" using GetAPIKey_Inr[OF assms(1)] by blast
  have "key_scopes k \<in> key_scopes ` set (id_keys db) \<or> key_scopes k = key_scopes r"
    using UpdateAPIKey_scopes[OF assms(3,6)] assms(2,4,5) r(2,3) by (auto simp: scanAPIKey_def ak_key_def)
  then show ?thesis using r(1) by auto
qed

lemma regenerate_scopes:
  assumes "k \<in> set (id_keys (fst (regenerateKey env prefix algo db now p i secret)))"
  shows "key_scopes k \<in> key_scopes ` set (id_keys db)"
proof -
  have same: "key_scopes ` set (id_keys w) = key_scopes ` set (id_keys db)"
    if "SetAPIKeySecret db (p_tenant p) i sp h a = Inr w" for sp h a w
  proof -
    have "key_scopes (k\<lparr> ak_prefix := sp, ak_hash := h, ak_algo := a \<rparr>) = key_scopes k" for k by (simp add: ak_key_def)
    then show ?thesis using that unfolding SetAPIKeySecret_Inr set_key_def by (simp add: image_upd_rows)
  qed
  have kept: "key_scopes k \<in> key_scopes ` set (id_keys db)" if "SetAPIKeySecret db (p_tenant p) i sp h a = Inr w" "k \<in> set (id_keys w)"
    for sp h a w using same[OF that(1)] that(2) by blast
  have updated: "key_scopes k \<in> key_scopes ` set (id_keys db)"
    if "GetAPIKey db (p_tenant p) i = Inr k0" "SetAPIKeySecret db (p_tenant p) i sp h a = Inr w"
      "UpdateAPIKey w (p_tenant p) (k0\<lparr> ak_active := True \<rparr>) now = Inr db'" "k \<in> set (id_keys db')" for k0 sp h a w db'
    using write_back_scopes[OF that(1) same[OF that(2)] that(3) _ _ that(4)] by simp
  show ?thesis
    using assms
    by (auto simp: regenerateKey_def fst_and_then fetched_def stored_def map_sum_def split: sum.splits prod.splits if_splits
        intro: kept updated)
qed

lemma restore_scopes:
  assumes "k \<in> set (id_keys (fst (restoreKey db now p i)))"
  shows "key_scopes k \<in> key_scopes ` set (id_keys db)"
proof -
  have "key_scopes k \<in> key_scopes ` set (id_keys db)"
    if "GetAPIKey db (p_tenant p) i = Inr k0" "UpdateAPIKey db (p_tenant p) (k0\<lparr> ak_active := True, ak_revoked := None \<rparr>) now = Inr db'"
      "k \<in> set (id_keys db')" for k0 db'
    using write_back_scopes[OF that(1) refl that(2) _ _ that(3)] by simp
  with assms show ?thesis
    by (auto simp: restoreKey_def fst_and_then fetched_def stored_def map_sum_def split: sum.splits)
qed

lemma issue_key_scopes:
  assumes "k \<in> set (id_keys (fst (IssueAPIKey env db p inp secret newid)))"
  shows "k \<in> set (id_keys db) \<or> HasScope p ScopePlatformAdmin"
  using assms by (auto simp: IssueAPIKey_def fst_and_then demand_def split: if_splits)

lemma given_roles:
  assumes "r \<in> set (id_roles (identity_step d db a))" and "r \<notin> set (id_roles db)"
  shows "within_giver a (set (ro_scopes r))"
proof (cases "NewRole \<in> effects a")
  case False
  from no_role[OF this step_statements[OF order_refl]] show ?thesis using assms by simp
next
  case True
  then obtain p name scopes newid where a: "a = OpCreateRole p name scopes newid" by (cases a) simp_all
  show ?thesis
    using assms by (auto simp: a createIdentityRole_def Let_def fst_and_then demand_def stored_def CreateRole_def insert_row_def
        within_giver_def scopesSubsetOfCaller_def list_all_iff split: sum.splits if_splits)
qed

lemma given_accounts:
  assumes "x \<in> sa_scopes ` set (id_accounts (identity_step d db a))" and "x \<notin> sa_scopes ` set (id_accounts db)"
  shows "within_giver a (set x)"
proof (cases "NewAccount \<in> effects a")
  case False
  from no_account[OF this step_statements[OF order_refl]] show ?thesis using assms by blast
next
  case True
  then obtain p name scopes newid where a: "a = OpCreateAccount p name scopes newid" by (cases a) simp_all
  show ?thesis
    using assms by (auto simp: a createIdentityServiceAccount_def Let_def fst_and_then demand_def stored_def CreateServiceAccount_def
        insert_row_def within_giver_def scopesSubsetOfCaller_def list_all_iff split: sum.splits if_splits)
qed

lemma created_user_members:
  assumes "(t, x, i) \<in> set (id_members (fst (createIdentityUser env db now p email name password ids newid)))"
  shows "(t, x, i) \<in> set (id_members db) \<or> (\<exists>r. GetRole db t i = Inr r \<and> (\<forall>s \<in> set (ro_scopes r). HasScope p s))"
proof -
  let ?c = "CreateUser env db p (p_tenant p) (go_lower (trim_space email)) (trim_space name) password newid now"
  obtain w y where c: "?c = (w, y)" by (cases ?c)
  have st: "statements {NewUser} db w" using sts_create_user[of "{NewUser}" db env p "p_tenant p"] c by (metis fst_conv insertI1)
  have m: "set (id_members w) \<subseteq> set (id_members db)" and r: "id_roles w = id_roles db"
    by (rule no_member[OF _ st], simp, rule no_role[OF _ st], simp)
  have g: "GetRole w = GetRole db" by (simp add: GetRole_def fun_eq_iff r)
  have "(t, x, i) \<in> set (id_members db) \<or> (t, x, i) \<in> set (id_members w) \<or>
      (\<exists>u. (t, x, i) \<in> set (id_members (fst (assign_roles w p u ids))))"
    using assms by (cases y) (auto simp: createIdentityUser_def Let_def c fst_and_then demand_def split: if_splits sum.splits)
  then show ?thesis using m assign_roles_members[of t x i w p _ ids] unfolding g by blast
qed

lemma given_members:
  assumes "(t, u, i) \<in> set (id_members (identity_step d db a)) - set (id_members db)"
  shows "\<exists>r. GetRole db t i = Inr r \<and> within_giver a (set (ro_scopes r))"
proof (cases "NewMember \<in> effects a")
  case False
  from no_member[OF this step_statements[OF order_refl]] show ?thesis using assms by blast
next
  case True
  then show ?thesis
  proof (cases a)
    case (OpCreateUser now p e n pw rs newid)
    then show ?thesis using assms created_user_members[of t u i] by (fastforce simp: within_giver_def)
  next
    case (OpAssign now p x j)
    from assms obtain y :: user where m: "(t, u, i) \<in> set (id_members (fst (assignRoleChecked db p (u_id y) j)))" "(t, u, i) \<notin> set (id_members db)"
      by (auto simp: OpAssign on_user_def fst_and_then fetched_def split: sum.splits)
    then have "(t, u, i) = (p_tenant p, u_id y, j)" using assignRoleChecked_members[of db p "u_id y" j] by blast
    then show ?thesis using assignRoleChecked_members[of db p "u_id y" j] m by (auto simp: OpAssign within_giver_def)
  qed simp_all
qed

lemma given_keys:
  assumes "k \<in> set (id_keys (identity_step d db a))" and "key_scopes k \<notin> key_scopes ` set (id_keys db)"
  shows "case a of OpIssueKey p _ _ _ \<Rightarrow> HasScope p ScopePlatformAdmin | _ \<Rightarrow> within_giver a (fst (DecodeAllowlist (ak_scopes k)))"
proof (cases "NewKey \<in> effects a \<or> NewScopes \<in> effects a")
  case False
  then have "NewKey \<notin> effects a" "NewScopes \<notin> effects a" by simp_all
  from no_key[OF this step_statements[OF order_refl]] show ?thesis using assms by blast
next
  case True
  have "k \<notin> set (id_keys db)" using assms(2) by blast
  with True assms show ?thesis
    by (cases a) (auto simp: within_giver_def dest: create_key_scopes put_key_scopes regenerate_scopes restore_scopes issue_key_scopes)
qed



section \<open>The last administrator\<close>

text \<open>
  The holders that \<open>AdminHolderCounts\<close> counts. The guards compare decoded grants while the query looks into the stored
  document; they agree on the documents the handlers write, which is what \<open>plain_scopes\<close> says of the stored ones.
\<close>

definition admins :: "identity_db \<Rightarrow> string \<Rightarrow> time \<Rightarrow> string list" where
  "admins db t now = admin_users db t ScopePlatformAdmin @ admin_keys db t ScopePlatformAdmin now"

definition plain_scopes :: "identity_db \<Rightarrow> bool" where
  "plain_scopes db = list_all (\<lambda>k. key_items_have k ScopePlatformAdmin \<longrightarrow> keyRecordHasScope k ScopePlatformAdmin) (id_keys db)"

definition admin_row :: "identity_db \<Rightarrow> string \<Rightarrow> time \<Rightarrow> api_key \<Rightarrow> bool" where
  "admin_row db t now k \<longleftrightarrow> ak_tenant k = t \<and> ak_revoked k = None \<and>
     (case ak_expires k of None \<Rightarrow> True | Some e \<Rightarrow> now < e) \<and> key_items_have k ScopePlatformAdmin \<and> owner_status db k = ''active''"

definition user_administers :: "identity_db \<Rightarrow> string \<Rightarrow> user \<Rightarrow> bool" where
  "user_administers db t u \<longleftrightarrow> u_tenant u = t \<and> u_status u = ''active'' \<and>
     (\<exists>r \<in> set (id_roles db). ro_tenant r = t \<and> (t, u_id u, ro_id r) \<in> set (id_members db) \<and> ScopePlatformAdmin \<in> set (ro_scopes r))"

lemma admin_keys_set: "set (admin_keys db t ScopePlatformAdmin now) = ak_id ` {k \<in> set (id_keys db). admin_row db t now k}"
  by (auto simp: admin_keys_def admin_row_def)

lemma admin_users_set: "set (admin_users db t ScopePlatformAdmin) = u_id ` {u \<in> set (id_users db). user_administers db t u}"
  by (auto simp: admin_users_def user_administers_def RolesForUser_def list_ex_iff)

lemma admins_iff:
  "admins db t now \<noteq> [] \<longleftrightarrow> (\<exists>u \<in> set (id_users db). user_administers db t u) \<or> (\<exists>k \<in> set (id_keys db). admin_row db t now k)"
proof -
  have "admins db t now \<noteq> [] \<longleftrightarrow> set (admin_users db t ScopePlatformAdmin) \<noteq> {} \<or> set (admin_keys db t ScopePlatformAdmin now) \<noteq> {}"
    by (simp add: admins_def)
  then show ?thesis unfolding admin_users_set admin_keys_set by auto
qed

lemma lastAdminExcluded_iff:
  "lastAdminExcluded db now t user keys \<longleftrightarrow>
     (\<exists>u \<in> set (id_users db). user_administers db t u \<and> u_id u \<noteq> user) \<or>
     (\<exists>k \<in> set (id_keys db). admin_row db t now k \<and> ak_id k \<notin> keys)"
proof -
  have "lastAdminExcluded db now t user keys \<longleftrightarrow>
      (\<exists>i \<in> set (admin_users db t ScopePlatformAdmin). i \<noteq> user) \<or> (\<exists>i \<in> set (admin_keys db t ScopePlatformAdmin now). i \<notin> keys)"
    by (auto simp: lastAdminExcluded_def AdminHolderCounts_def filter_empty_conv)
  then show ?thesis unfolding admin_users_set admin_keys_set by auto
qed

text \<open>What the counts depend on.\<close>

lemma owner_status_cong:
  assumes "id_users a = id_users b" and "id_accounts a = id_accounts b"
  shows "owner_status a k = owner_status b k"
  unfolding owner_status_def GetUser_def GetServiceAccount_def assms by (rule refl)

lemma admin_row_cong: "owner_status a k = owner_status b k \<Longrightarrow> admin_row a t now k = admin_row b t now k"
  by (simp add: admin_row_def)

text \<open>Deleting a key.\<close>

lemma delete_key_keeps_admin:
  assumes wf: "identity_wf db" and plain: "plain_scopes db" and some: "admins db (p_tenant p) now \<noteq> []"
  shows "admins (fst (deleteKey db now p i)) (p_tenant p) now \<noteq> []"
proof -
  let ?t = "p_tenant p" and ?db = "RevokeAPIKeyRow db (p_tenant p) i now"
  have row: "admin_row ?db ?t now k = admin_row db ?t now k" and ua: "user_administers ?db ?t u = user_administers db ?t u" for k u
    by (intro admin_row_cong owner_status_cong; simp add: RevokeAPIKeyRow_def set_key_def)
      (simp add: user_administers_def RevokeAPIKeyRow_def set_key_def)
  have kept: "k \<in> set (id_keys ?db)" if "k \<in> set (id_keys db)" "ak_key k \<noteq> (?t, i)" for k
    using that by (simp add: RevokeAPIKeyRow_def set_key_def set_upd_rows)
  have users: "id_users ?db = id_users db" by (simp add: RevokeAPIKeyRow_def set_key_def)
  have "admins ?db ?t now \<noteq> []" if g: "GetAPIKey db ?t i = Inr k0" and l: "lastAdminKeyExcluded db now p k0" for k0
  proof -
    obtain r where r: "r \<in> set (id_keys db)" "ak_key r = (?t, i)" "k0 = scanAPIKey r" using GetAPIKey_Inr[OF g] by blast
    show ?thesis
    proof (cases "keyRecordHasScope k0 ScopePlatformAdmin")
      case True
      then have "lastAdminExcluded db now ?t [] {i}"
        using l r(2,3) by (simp add: lastAdminKeyExcluded_def scanAPIKey_def ak_key_def)
      then show ?thesis unfolding lastAdminExcluded_iff admins_iff users row ua
        using kept by (fastforce simp: ak_key_def)
    next
      case False
      have "keyRecordHasScope k0 ScopePlatformAdmin = keyRecordHasScope r ScopePlatformAdmin"
        by (simp add: keyRecordHasScope_def r(3) scanAPIKey_def)
      then have no: "\<not> admin_row db ?t now r"
        using False plain r(1) by (auto simp: plain_scopes_def list_all_iff admin_row_def)
      have "k = r" if "k \<in> set (id_keys db)" "ak_key k = (?t, i)" for k
        using distinct_keys_unique[OF _ that(1) r(1), of ak_key] wf that(2) r(2) by (simp add: identity_wf_def wf_keys_def)
      then have "k \<in> set (id_keys ?db)" if "k \<in> set (id_keys db)" "admin_row db ?t now k" for k
        using kept[OF that(1)] that no by blast
      then show ?thesis using some unfolding admins_iff users row ua by blast
    qed
  qed
  then show ?thesis
    using some by (auto simp: deleteKey_def fst_and_then fetched_def demand_def map_sum_def split: sum.splits if_splits)
qed

text \<open>Taking a role from a user.\<close>

lemma unassign_keeps_admin:
  assumes wf: "identity_wf db" and u: "u \<in> set (id_users db)" "u_tenant u = p_tenant p" and some: "admins db (p_tenant p) now \<noteq> []"
  shows "admins (fst (unassignRoleChecked db now p u i)) (p_tenant p) now \<noteq> []"
proof -
  let ?t = "p_tenant p" and ?db = "UnassignRole db (p_tenant p) (u_id u) i"
  have row: "admin_row ?db ?t now k = admin_row db ?t now k" for k
    by (intro admin_row_cong owner_status_cong) (simp_all add: UnassignRole_def)
  have same: "id_users ?db = id_users db" "id_keys ?db = id_keys db" "id_roles ?db = id_roles db" by (simp_all add: UnassignRole_def)
  have mem: "x \<in> set (id_members ?db) \<longleftrightarrow> x \<in> set (id_members db) \<and> x \<noteq> (?t, u_id u, i)" for x by (simp add: UnassignRole_def)
  have other: "user_administers ?db ?t x" if "user_administers db ?t x" "u_id x \<noteq> u_id u" for x
    using that by (auto simp: user_administers_def same mem)
  have "admins ?db ?t now \<noteq> []"
    if g: "GetRole db ?t i = Inr r" and c: "\<not> (u_status u = ''active'' \<and> ScopePlatformAdmin \<in> set (ro_scopes r)) \<or> lastAdminExcluded db now ?t (u_id u) {}" for r
  proof (cases "lastAdminExcluded db now ?t (u_id u) {}")
    case True
    then show ?thesis unfolding lastAdminExcluded_iff admins_iff row same using other by blast
  next
    case False
    have r: "r \<in> set (id_roles db)" "ro_key r = (?t, i)" using g by (auto simp: GetRole_def dest!: row_or_absent_Inr)
    have mine: "user_administers ?db ?t x" if x: "x \<in> set (id_users db)" "user_administers db ?t x" "u_id x = u_id u" for x
    proof -
      have "x = u" using distinct_keys_unique[OF _ x(1) u(1), of u_key] wf x(2,3) u(2)
        by (simp add: identity_wf_def wf_users_def user_administers_def u_key_def)
      obtain r' where r': "r' \<in> set (id_roles db)" "ro_tenant r' = ?t" "(?t, u_id x, ro_id r') \<in> set (id_members db)"
          "ScopePlatformAdmin \<in> set (ro_scopes r')" using x(2) by (auto simp: user_administers_def)
      have "ro_id r' \<noteq> i"
      proof
        assume "ro_id r' = i"
        then have "r' = r" using distinct_keys_unique[OF _ r'(1) r(1), of ro_key] wf r(2) r'(2)
          by (simp add: identity_wf_def wf_members_def ro_key_def)
        then show False using c False r'(4) x(2) \<open>x = u\<close> by (simp add: user_administers_def)
      qed
      then show ?thesis using x(2) r' by (auto simp: user_administers_def same mem)
    qed
    then show ?thesis using some other unfolding admins_iff row same by metis
  qed
  then show ?thesis
    using some by (auto simp: unassignRoleChecked_def fst_and_then fetched_def demand_def map_sum_def split: sum.splits if_splits)
qed

text \<open>Changing the status of a service account.\<close>

lemma account_keeps_admin:
  assumes plain: "plain_scopes db" and some: "admins db (p_tenant p) now \<noteq> []"
  shows "admins (fst (patchServiceAccount db now p i st)) (p_tenant p) now \<noteq> []"
proof -
  let ?t = "p_tenant p" and ?st = "trim_space st"
  have "admins (UpdateServiceAccountStatus db ?t (sa_id s) ?st) ?t now \<noteq> []"
    if g: "GetServiceAccount db ?t i = Inr s" and v: "valid_status ?st" "?st \<noteq> []" "?st \<noteq> sa_status s"
      and c: "\<not> (?st \<noteq> ''active'' \<and> sa_status s = ''active'' \<and> account_admin_keys db ?t (sa_id s) \<noteq> {}) \<or>
        lastAdminExcluded db now ?t [] (account_admin_keys db ?t (sa_id s))" for s
  proof -
    let ?db = "UpdateServiceAccountStatus db ?t (sa_id s) ?st"
    have s: "sa_id s = i" using g by (auto simp: GetServiceAccount_def sa_key_def dest!: row_or_absent_Inr)
    have same: "id_users ?db = id_users db" "id_keys ?db = id_keys db" by (simp_all add: UpdateServiceAccountStatus_def)
    have ua: "user_administers ?db ?t u = user_administers db ?t u" for u
      by (simp add: user_administers_def UpdateServiceAccountStatus_def)
    have acc: "GetServiceAccount ?db ?t j = map_sum id (\<lambda>x. if j = i then x\<lparr> sa_status := ?st \<rparr> else x) (GetServiceAccount db ?t j)" for j
    proof -
      have "find_row (\<lambda>x. sa_key x = (?t, j)) (id_accounts ?db) =
          map_option (\<lambda>x. if sa_key x = (?t, i) then x\<lparr> sa_status := ?st \<rparr> else x) (find_row (\<lambda>x. sa_key x = (?t, j)) (id_accounts db))"
        unfolding UpdateServiceAccountStatus_def s by (simp, rule find_row_upd_rows) (simp add: sa_key_def)
      then show ?thesis unfolding GetServiceAccount_def row_or_absent_def
        by (cases "find_row (\<lambda>x. sa_key x = (?t, j)) (id_accounts db)") (auto dest!: find_row_Some)
    qed
    have kept: "admin_row ?db ?t now k"
      if k: "admin_row db ?t now k" "ak_account k \<noteq> i \<or> ?st = ''active'' \<or> sa_status s \<noteq> ''active''" for k
    proof -
      have t: "ak_tenant k = ?t" and o: "owner_status db k = ''active''" using k(1) by (simp_all add: admin_row_def)
      have u: "GetUser ?db = GetUser db" by (simp add: fun_eq_iff GetUser_def UpdateServiceAccountStatus_def)
      have "owner_status ?db k = ''active''"
        using o k(2) g unfolding owner_status_def u t acc
        by (auto simp: s map_sum_def split: sum.splits)
      then show ?thesis using k(1) by (simp add: admin_row_def)
    qed
    have mine: "ak_id k \<in> account_admin_keys db ?t i"
      if k: "k \<in> set (id_keys db)" "admin_row db ?t now k" "ak_account k = i" for k
    proof -
      have "keyRecordHasScope k ScopePlatformAdmin" using plain k(1,2) by (simp add: plain_scopes_def list_all_iff admin_row_def)
      then have "scanAPIKey k \<in> set (filter (\<lambda>k. ak_account k = i \<and> ak_revoked k = None \<and> keyRecordHasScope k ScopePlatformAdmin) (ListAPIKeys db ?t))"
      proof -
        have "scanAPIKey k \<in> set (ListAPIKeys db ?t)"
          unfolding ListAPIKeys_def set_map by (rule imageI) (use k(1,2) in \<open>simp add: admin_row_def\<close>)
        moreover have "keyRecordHasScope (scanAPIKey k) ScopePlatformAdmin = keyRecordHasScope k ScopePlatformAdmin"
          "ak_account (scanAPIKey k) = ak_account k" "ak_revoked (scanAPIKey k) = ak_revoked k"
          by (simp_all add: keyRecordHasScope_def scanAPIKey_def)
        ultimately show ?thesis using k \<open>keyRecordHasScope k ScopePlatformAdmin\<close> by (simp add: admin_row_def)
      qed
      moreover have "ak_id (scanAPIKey k) = ak_id k" by (simp add: scanAPIKey_def)
      ultimately show ?thesis unfolding account_admin_keys_def set_map by (intro image_eqI[of _ _ "scanAPIKey k"]) simp_all
    qed
    show ?thesis
    proof (cases "lastAdminExcluded db now ?t [] (account_admin_keys db ?t i)")
      case True
      then show ?thesis unfolding lastAdminExcluded_iff admins_iff same ua using kept mine by blast
    next
      case False
      then have "ak_account k \<noteq> i \<or> ?st = ''active'' \<or> sa_status s \<noteq> ''active''"
        if "k \<in> set (id_keys db)" "admin_row db ?t now k" for k using c[unfolded s] mine[OF that] by blast
      then show ?thesis using some kept unfolding admins_iff same ua by blast
    qed
  qed
  then show ?thesis
    using some by (auto simp: patchServiceAccount_def Let_def fst_and_then fetched_def demand_def map_sum_def split: sum.splits if_splits)
qed



text \<open>A guard that looks at the user only: disabling the last administrator passes when his own key is counted.\<close>

definition demo_last_admin :: identity_db where
  "demo_last_admin = demo_identity\<lparr> id_keys := [demo_key\<lparr> ak_owner := ''root'', ak_account := [], ak_scopes := scopeList [''platform.admin''] \<rparr>] \<rparr>"

lemma disabled_last_admin:
  "admins demo_last_admin ''t'' 5 \<noteq> []"
  "admins (identity_step demo_deployment demo_last_admin (OpPatchUser 5 demo_bot ''root'' ''disabled'')) ''t'' 5 = []"
  by code_simp+

end
