(* ===== verification/Ingress.thy ===== *)
theory Ingress
  imports Prelude
begin

text \<open>
  The gate in front of the proxy's routes, from internal/httpx/middleware.go: how many requests run, how many wait, and how
  many bytes of request bodies they hold. The critical sections of the gate are functions on its state; a run is any
  sequence of arrivals, departures, reads and closings of the requests. Capacities are \<open>int\<close>: a sum that the gate compares
  with a bound is at most twice the bound.
\<close>

section \<open>The gate\<close>

record gate_config =
  gc_inflight :: int
  gc_queued :: int
  gc_body :: int

definition newInferenceGate :: "gate_config \<Rightarrow> gate_config" where
  "newInferenceGate cfg = (if gc_inflight cfg \<le> 0 then cfg\<lparr> gc_inflight := 64 \<rparr> else cfg)"

record gate_waiter =
  gw_id :: nat
  gw_known :: bool
  gw_body :: int

record inference_gate =
  ig_inflight :: int
  ig_queued :: int
  ig_waiters :: "gate_waiter list"
  ig_used :: int

definition fitsLocked :: "gate_config \<Rightarrow> inference_gate \<Rightarrow> int \<Rightarrow> bool \<Rightarrow> bool" where
  "fitsLocked cfg g bodyLen known =
     (if gc_inflight cfg \<le> ig_inflight g then False
      else if known \<and> 0 < gc_body cfg \<and> gc_body cfg < ig_used g + bodyLen then False else True)"

definition take_slot :: "inference_gate \<Rightarrow> int \<Rightarrow> bool \<Rightarrow> inference_gate" where
  "take_slot g bodyLen known =
     g\<lparr> ig_inflight := ig_inflight g + 1, ig_used := (if known then ig_used g + bodyLen else ig_used g) \<rparr>"

definition give_slot :: "inference_gate \<Rightarrow> int \<Rightarrow> bool \<Rightarrow> inference_gate" where
  "give_slot g bodyLen known =
     g\<lparr> ig_inflight := ig_inflight g - 1, ig_used := (if known then ig_used g - bodyLen else ig_used g) \<rparr>"

text \<open>Hands freed capacity to the head of the line; the ids are those of the callers it wakes.\<close>

function grant_line :: "gate_config \<Rightarrow> inference_gate \<Rightarrow> inference_gate \<times> nat list" where
  "grant_line cfg g =
     (case ig_waiters g of
        [] \<Rightarrow> (g, [])
      | w # ws \<Rightarrow>
          if \<not> fitsLocked cfg g (gw_body w) (gw_known w) then (g, [])
          else (case grant_line cfg (take_slot (g\<lparr> ig_waiters := ws, ig_queued := ig_queued g - 1 \<rparr>) (gw_body w) (gw_known w)) of
                  (g', woken) \<Rightarrow> (g', gw_id w # woken)))"
  by pat_completeness auto
termination by (relation "measure (\<lambda>(_, g). length (ig_waiters g))") (auto simp: take_slot_def)

declare grant_line.simps [simp del]

datatype enter_answer = Entered | Overloaded | InLine

definition enter :: "gate_config \<Rightarrow> inference_gate \<Rightarrow> nat \<Rightarrow> int \<Rightarrow> bool \<Rightarrow> inference_gate \<times> enter_answer" where
  "enter cfg g i bodyLen known =
     (if known \<and> 0 < gc_body cfg \<and> gc_body cfg < bodyLen then (g, Overloaded)
      else if fitsLocked cfg g bodyLen known \<and> ig_waiters g = [] then (take_slot g bodyLen known, Entered)
      else if gc_queued cfg \<le> 0 \<or> gc_queued cfg \<le> ig_queued g then (g, Overloaded)
      else (g\<lparr> ig_queued := ig_queued g + 1,
               ig_waiters := ig_waiters g @ [\<lparr> gw_id = i, gw_known = known, gw_body = bodyLen \<rparr>] \<rparr>, InLine))"

text \<open>The release of a slot, the departure of a waiter, and one round of the loop that charges arriving bytes.\<close>

definition release_slot :: "gate_config \<Rightarrow> inference_gate \<Rightarrow> int \<Rightarrow> bool \<Rightarrow> inference_gate \<times> nat list" where
  "release_slot cfg g bodyLen known = grant_line cfg (give_slot g bodyLen known)"

definition leave_queue :: "gate_config \<Rightarrow> inference_gate \<Rightarrow> nat \<Rightarrow> inference_gate \<times> nat list" where
  "leave_queue cfg g i =
     grant_line cfg (g\<lparr> ig_waiters := filter (\<lambda>w. gw_id w \<noteq> i) (ig_waiters g), ig_queued := ig_queued g - 1 \<rparr>)"

definition chargeBody :: "gate_config \<Rightarrow> inference_gate \<Rightarrow> int \<Rightarrow> inference_gate option" where
  "chargeBody cfg g n =
     (if gc_body cfg \<le> 0 \<or> ig_used g + n \<le> gc_body cfg
      then Some (if 0 < gc_body cfg then g\<lparr> ig_used := ig_used g + n \<rparr> else g) else None)"

definition unchargeBody :: "gate_config \<Rightarrow> inference_gate \<Rightarrow> int \<Rightarrow> inference_gate \<times> nat list" where
  "unchargeBody cfg g n = grant_line cfg (if 0 < gc_body cfg then g\<lparr> ig_used := ig_used g - n \<rparr> else g)"

section \<open>The requests\<close>

text \<open>
  A request with its Content-Length (negative when unknown). Its body is metered when the length is unknown and
  the pool is bounded; \<open>gr_charged\<close> is what the meter has charged, \<open>gr_open\<close> that it was not closed yet.
\<close>

datatype gate_phase = InQueue | Serving | Gone

record gate_request =
  gr_length :: int
  gr_phase :: gate_phase
  gr_charged :: int
  gr_open :: bool

definition gr_known :: "gate_request \<Rightarrow> bool" where
  "gr_known r \<longleftrightarrow> 0 \<le> gr_length r"

record ingress =
  in_gate :: inference_gate
  in_requests :: "gate_request list"

definition empty_ingress :: ingress where
  "empty_ingress = \<lparr> in_gate = \<lparr> ig_inflight = 0, ig_queued = 0, ig_waiters = [], ig_used = 0 \<rparr>, in_requests = [] \<rparr>"

fun wake :: "nat list \<Rightarrow> gate_request list \<Rightarrow> gate_request list" where
  "wake [] rs = rs"
| "wake (i # woken) rs = wake woken (rs[i := (rs ! i)\<lparr> gr_phase := Serving \<rparr>])"

definition settle_gate :: "inference_gate \<times> nat list \<Rightarrow> gate_request list \<Rightarrow> ingress" where
  "settle_gate r rs = \<lparr> in_gate = fst r, in_requests = wake (snd r) rs \<rparr>"

datatype ingress_op = Arrive int | Depart nat | ReadBody nat int | CloseBody nat

text \<open>
  \<open>Depart\<close> is the end of the handler or of the client: a waiter leaves the line, a running request gives its slot back.
  Reading charges what arrived, or waits; only the first closing gives the charge back.
\<close>

fun ingress_step :: "gate_config \<Rightarrow> ingress \<Rightarrow> ingress_op \<Rightarrow> ingress" where
  "ingress_step cfg s (Arrive len) =
     (case enter cfg (in_gate s) (length (in_requests s)) len (0 \<le> len) of
        (g, answer) \<Rightarrow>
          \<lparr> in_gate = g, in_requests = in_requests s @
             [\<lparr> gr_length = len, gr_phase = (case answer of Entered \<Rightarrow> Serving | Overloaded \<Rightarrow> Gone | InLine \<Rightarrow> InQueue),
                gr_charged = 0, gr_open = (len < 0 \<and> 0 < gc_body cfg) \<rparr>] \<rparr>)"
| "ingress_step cfg s (Depart i) =
     (if length (in_requests s) \<le> i then s
      else let r = in_requests s ! i; rs = (in_requests s)[i := r\<lparr> gr_phase := Gone \<rparr>] in
        (case gr_phase r of
           Gone \<Rightarrow> s
         | InQueue \<Rightarrow> settle_gate (leave_queue cfg (in_gate s) i) rs
         | Serving \<Rightarrow> settle_gate (release_slot cfg (in_gate s) (gr_length r) (gr_known r)) rs))"
| "ingress_step cfg s (ReadBody i n) =
     (if length (in_requests s) \<le> i \<or> n \<le> 0 then s
      else let r = in_requests s ! i in
        if gr_phase r \<noteq> Serving \<or> \<not> gr_open r then s
        else (case chargeBody cfg (in_gate s) n of
                None \<Rightarrow> s
              | Some g \<Rightarrow> \<lparr> in_gate = g, in_requests = (in_requests s)[i := r\<lparr> gr_charged := gr_charged r + n \<rparr>] \<rparr>))"
| "ingress_step cfg s (CloseBody i) =
     (if length (in_requests s) \<le> i then s
      else let r = in_requests s ! i in
        if \<not> gr_open r \<or> gr_phase r = InQueue then s
        else settle_gate (unchargeBody cfg (in_gate s) (gr_charged r))
               ((in_requests s)[i := r\<lparr> gr_charged := 0, gr_open := False \<rparr>]))"

definition ingress_run :: "gate_config \<Rightarrow> ingress_op list \<Rightarrow> ingress" where
  "ingress_run cfg ops = foldl (ingress_step cfg) empty_ingress ops"

section \<open>What the counters count\<close>

definition is_running :: "gate_request \<Rightarrow> int" where
  "is_running r = (if gr_phase r = Serving then 1 else 0)"

definition held :: "gate_request \<Rightarrow> int" where
  "held r = (if gr_phase r = Serving \<and> gr_known r then gr_length r else 0) + gr_charged r"

fun line_from :: "nat \<Rightarrow> gate_request list \<Rightarrow> gate_waiter list" where
  "line_from k [] = []"
| "line_from k (r # rs) =
     (if gr_phase r = InQueue then [\<lparr> gw_id = k, gw_known = gr_known r, gw_body = gr_length r \<rparr>] else []) @ line_from (Suc k) rs"

definition request_ok :: "gate_config \<Rightarrow> gate_request \<Rightarrow> bool" where
  "request_ok cfg r \<longleftrightarrow> 0 \<le> gr_charged r \<and> (gr_phase r \<noteq> InQueue \<or> gc_body cfg \<le> 0 \<or> gr_length r \<le> gc_body cfg) \<and>
     (gr_open r \<or> gr_charged r = 0) \<and> (\<not> gr_open r \<or> 0 < gc_body cfg)"

text \<open>The invariant before the freed capacity is handed on, and afterwards: the head of the line does not fit.\<close>

definition gate_books :: "gate_config \<Rightarrow> inference_gate \<Rightarrow> gate_request list \<Rightarrow> bool" where
  "gate_books cfg g rs \<longleftrightarrow>
     ig_inflight g = sum_list (map is_running rs) \<and> ig_used g = sum_list (map held rs) \<and>
     ig_waiters g = line_from 0 rs \<and> ig_queued g = int (length (ig_waiters g)) \<and>
     ig_inflight g \<le> gc_inflight cfg \<and> ig_queued g \<le> max 0 (gc_queued cfg) \<and>
     (gc_body cfg \<le> 0 \<or> ig_used g \<le> gc_body cfg) \<and>
     list_all (request_ok cfg) rs"

definition head_waits :: "gate_config \<Rightarrow> inference_gate \<Rightarrow> bool" where
  "head_waits cfg g = (case ig_waiters g of [] \<Rightarrow> True | w # _ \<Rightarrow> \<not> fitsLocked cfg g (gw_body w) (gw_known w))"

definition ingress_wf :: "gate_config \<Rightarrow> ingress \<Rightarrow> bool" where
  "ingress_wf cfg s \<longleftrightarrow> gate_books cfg (in_gate s) (in_requests s) \<and> head_waits cfg (in_gate s)"

lemma line_ids:
  "w \<in> set (line_from k rs) \<Longrightarrow> \<exists>j < length rs. gw_id w = k + j \<and> gr_phase (rs ! j) = InQueue \<and>
     gw_known w = gr_known (rs ! j) \<and> gw_body w = gr_length (rs ! j)"
proof (induction rs arbitrary: k)
  case (Cons r rs)
  show ?case
  proof (cases "w \<in> set (line_from (Suc k) rs)")
    case True
    from Cons.IH[OF this] obtain j where "j < length rs" "gw_id w = Suc k + j" "gr_phase (rs ! j) = InQueue"
      "gw_known w = gr_known (rs ! j)" "gw_body w = gr_length (rs ! j)" by blast
    then show ?thesis by (intro exI[of _ "Suc j"]) simp
  next
    case False
    then show ?thesis using Cons.prems by (intro exI[of _ 0]) (auto split: if_splits)
  qed
qed simp

lemma line_update:
  "j < length rs \<Longrightarrow> gr_phase x \<noteq> InQueue \<Longrightarrow> line_from k (rs[j := x]) = filter (\<lambda>w. gw_id w \<noteq> k + j) (line_from k rs)"
proof (induction rs arbitrary: k j)
  case (Cons r rs)
  have "filter (\<lambda>w. gw_id w \<noteq> k) (line_from (Suc k) rs) = line_from (Suc k) rs"
    by (rule filter_True) (auto dest!: line_ids)
  then show ?case using Cons by (cases j) (auto simp: Cons.IH)
qed simp

lemma line_append: "line_from k (rs @ [r]) =
    line_from k rs @ (if gr_phase r = InQueue then [\<lparr> gw_id = k + length rs, gw_known = gr_known r, gw_body = gr_length r \<rparr>] else [])"
  by (induction rs arbitrary: k) auto

lemma line_same: "j < length rs \<Longrightarrow> gr_phase (rs ! j) \<noteq> InQueue \<Longrightarrow> gr_phase x \<noteq> InQueue \<Longrightarrow> line_from 0 (rs[j := x]) = line_from 0 rs"
  unfolding line_update by (rule filter_True) (auto dest!: line_ids)

lemma sum_map_update:
  fixes f :: "'a \<Rightarrow> int"
  shows "j < length rs \<Longrightarrow> sum_list (map f (rs[j := x])) = sum_list (map f rs) + f x - f (rs ! j)"
proof (induction rs arbitrary: j)
  case (Cons r rs)
  then show ?case by (cases j) simp_all
qed simp

lemma list_all_update: "list_all P rs \<Longrightarrow> P x \<Longrightarrow> list_all P (rs[j := x])"
  using set_update_subset_insert[of rs j x] by (auto simp: list_all_iff)

lemma line_distinct: "distinct (map gw_id (line_from k rs))"
  by (induction rs arbitrary: k) (auto dest!: line_ids)

section \<open>Every step keeps the books\<close>

lemma held_serving:
  "held (r\<lparr> gr_phase := Serving \<rparr>) = (if gr_known r then gr_length r else 0) + gr_charged r"
  "is_running (r\<lparr> gr_phase := Serving \<rparr>) = 1"
  by (simp_all add: held_def is_running_def gr_known_def)

text \<open>The head of the line takes a slot that it fits into.\<close>

lemma books_grant_head:
  assumes b: "gate_books cfg g rs" and w: "ig_waiters g = w # ws" and f: "fitsLocked cfg g (gw_body w) (gw_known w)"
  shows "gate_books cfg (take_slot (g\<lparr> ig_waiters := ws, ig_queued := ig_queued g - 1 \<rparr>) (gw_body w) (gw_known w))
    (rs[gw_id w := (rs ! gw_id w)\<lparr> gr_phase := Serving \<rparr>])"
proof -
  let ?j = "gw_id w"
  let ?r = "rs ! ?j"
  have l: "line_from 0 rs = w # ws" using b w by (simp add: gate_books_def)
  from line_ids[of w 0 rs] l have j: "?j < length rs" "gr_phase ?r = InQueue" "gw_known w = gr_known ?r" "gw_body w = gr_length ?r"
    by auto
  have "filter (\<lambda>x. gw_id x \<noteq> ?j) ws = ws"
    using line_distinct[of 0 rs] unfolding l by (intro filter_True) (force simp: image_iff)
  then have line: "line_from 0 (rs[?j := ?r\<lparr> gr_phase := Serving \<rparr>]) = ws"
    using line_update[of ?j rs "?r\<lparr> gr_phase := Serving \<rparr>" 0] j(1) l by simp
  have r: "held ?r = gr_charged ?r" "is_running ?r = 0" using j(2) by (simp_all add: held_def is_running_def)
  have fits: "ig_inflight g < gc_inflight cfg" "gw_known w \<Longrightarrow> gc_body cfg \<le> 0 \<or> ig_used g + gw_body w \<le> gc_body cfg"
    using f by (auto simp: fitsLocked_def split: if_splits)
  have "list_all (request_ok cfg) (rs[?j := ?r\<lparr> gr_phase := Serving \<rparr>])"
    using b j(1) by (intro list_all_update) (auto simp: gate_books_def list_all_length request_ok_def)
  then show ?thesis
    using b fits j w unfolding gate_books_def
    by (auto simp: take_slot_def line sum_map_update held_serving r)
qed

lemma books_grant:
  "gate_books cfg g rs \<Longrightarrow> gate_books cfg (fst (grant_line cfg g)) (wake (snd (grant_line cfg g)) rs) \<and>
     head_waits cfg (fst (grant_line cfg g))"
proof (induction cfg g arbitrary: rs rule: grant_line.induct)
  case (1 cfg g)
  show ?case
  proof (cases "ig_waiters g")
    case Nil
    then show ?thesis using "1.prems" by (simp add: grant_line.simps[of cfg g] head_waits_def)
  next
    case (Cons w ws)
    show ?thesis
    proof (cases "fitsLocked cfg g (gw_body w) (gw_known w)")
      case False
      then show ?thesis using "1.prems" Cons by (simp add: grant_line.simps[of cfg g] head_waits_def)
    next
      case True
      show ?thesis
        using "1.IH"[OF Cons _ books_grant_head[OF "1.prems" Cons True]] True
        by (simp add: grant_line.simps[of cfg g] Cons case_prod_beta)
    qed
  qed
qed

lemma wf_settle: "gate_books cfg g rs \<Longrightarrow> ingress_wf cfg (settle_gate (grant_line cfg g) rs)"
  using books_grant[of cfg g rs] by (simp add: ingress_wf_def settle_gate_def)

lemma filter_one_out: "distinct (map f xs) \<Longrightarrow> x \<in> set xs \<Longrightarrow> Suc (length (filter (\<lambda>y. f y \<noteq> f x) xs)) = length xs"
proof (induction xs)
  case (Cons y ys)
  show ?case
  proof (cases "f y = f x")
    case True
    then have "filter (\<lambda>y. f y \<noteq> f x) ys = ys" using Cons.prems by (intro filter_True) (auto simp: image_iff)
    then show ?thesis using True by simp
  next
    case False
    then have "x \<in> set ys" using Cons.prems by auto
    then show ?thesis using False Cons by simp
  qed
qed simp

lemma in_line: "i < length rs \<Longrightarrow> gr_phase (rs ! i) = InQueue \<Longrightarrow> \<exists>w \<in> set (line_from k rs). gw_id w = k + i"
proof (induction rs arbitrary: i k)
  case (Cons r rs)
  show ?case
  proof (cases i)
    case 0
    then show ?thesis using Cons.prems by simp
  next
    case (Suc j)
    then show ?thesis using Cons.IH[of j "Suc k"] Cons.prems by auto
  qed
qed simp

text \<open>The books of each step before capacity is handed on.\<close>

lemma books_leave:
  assumes b: "gate_books cfg g rs" and i: "i < length rs" "gr_phase (rs ! i) = InQueue"
  shows "gate_books cfg (g\<lparr> ig_waiters := filter (\<lambda>w. gw_id w \<noteq> i) (ig_waiters g), ig_queued := ig_queued g - 1 \<rparr>)
    (rs[i := (rs ! i)\<lparr> gr_phase := Gone \<rparr>])"
proof -
  obtain w where w: "w \<in> set (ig_waiters g)" "gw_id w = i" using in_line[OF i, of 0] b by (auto simp: gate_books_def)
  have "int (length (filter (\<lambda>x. gw_id x \<noteq> i) (ig_waiters g))) = int (length (ig_waiters g)) - 1"
    using filter_one_out[of gw_id "ig_waiters g" w] line_distinct[of 0 rs] b w by (simp add: gate_books_def flip: of_nat_Suc)
  moreover have "list_all (request_ok cfg) (rs[i := (rs ! i)\<lparr> gr_phase := Gone \<rparr>])"
    using b i by (intro list_all_update) (auto simp: gate_books_def list_all_length request_ok_def)
  ultimately show ?thesis
    using b i unfolding gate_books_def
    by (auto simp: line_update sum_map_update held_def is_running_def)
qed

lemma books_release:
  assumes b: "gate_books cfg g rs" and i: "i < length rs" "gr_phase (rs ! i) = Serving"
  shows "gate_books cfg (give_slot g (gr_length (rs ! i)) (gr_known (rs ! i))) (rs[i := (rs ! i)\<lparr> gr_phase := Gone \<rparr>])"
proof -
  have "list_all (request_ok cfg) (rs[i := (rs ! i)\<lparr> gr_phase := Gone \<rparr>])"
    using b i by (intro list_all_update) (auto simp: gate_books_def list_all_length request_ok_def)
  moreover have "line_from 0 (rs[i := (rs ! i)\<lparr> gr_phase := Gone \<rparr>]) = line_from 0 rs" using i by (intro line_same) simp_all
  ultimately show ?thesis
    using b i unfolding gate_books_def
    by (auto simp: give_slot_def sum_map_update held_def is_running_def gr_known_def)
qed

lemma books_charge:
  assumes b: "gate_books cfg g rs" and i: "i < length rs" "gr_phase (rs ! i) = Serving" "gr_open (rs ! i)" "0 < n"
    and c: "chargeBody cfg g n = Some g'"
  shows "gate_books cfg g' (rs[i := (rs ! i)\<lparr> gr_charged := gr_charged (rs ! i) + n \<rparr>])"
proof -
  have pos: "0 < gc_body cfg" using b i by (auto simp: gate_books_def list_all_length request_ok_def)
  then have g': "g' = g\<lparr> ig_used := ig_used g + n \<rparr>" "ig_used g + n \<le> gc_body cfg" using c by (auto simp: chargeBody_def split: if_splits)
  have "list_all (request_ok cfg) (rs[i := (rs ! i)\<lparr> gr_charged := gr_charged (rs ! i) + n \<rparr>])"
    using b i pos by (intro list_all_update) (auto simp: gate_books_def list_all_length request_ok_def)
  moreover have "line_from 0 (rs[i := (rs ! i)\<lparr> gr_charged := gr_charged (rs ! i) + n \<rparr>]) = line_from 0 rs" using i by (intro line_same) simp_all
  ultimately show ?thesis
    using b i g'(2) unfolding gate_books_def g'(1)
    by (auto simp: sum_map_update held_def is_running_def gr_known_def)
qed

lemma books_uncharge:
  assumes b: "gate_books cfg g rs" and i: "i < length rs" "gr_phase (rs ! i) \<noteq> InQueue" "gr_open (rs ! i)"
  shows "gate_books cfg (if 0 < gc_body cfg then g\<lparr> ig_used := ig_used g - gr_charged (rs ! i) \<rparr> else g)
    (rs[i := (rs ! i)\<lparr> gr_charged := 0, gr_open := False \<rparr>])"
proof -
  have pos: "0 < gc_body cfg" and ch: "0 \<le> gr_charged (rs ! i)" using b i by (auto simp: gate_books_def list_all_length request_ok_def)
  have "list_all (request_ok cfg) (rs[i := (rs ! i)\<lparr> gr_charged := 0, gr_open := False \<rparr>])"
    using b i by (intro list_all_update) (auto simp: gate_books_def list_all_length request_ok_def)
  moreover have "line_from 0 (rs[i := (rs ! i)\<lparr> gr_charged := 0, gr_open := False \<rparr>]) = line_from 0 rs" using i by (intro line_same) simp_all
  ultimately show ?thesis
    using b i pos ch unfolding gate_books_def
    by (auto simp: sum_map_update held_def is_running_def gr_known_def)
qed

lemma books_arrive:
  assumes b: "gate_books cfg g rs" and e: "enter cfg g (length rs) len (0 \<le> len) = (g', answer)"
  shows "gate_books cfg g' (rs @ [\<lparr> gr_length = len,
    gr_phase = (case answer of Entered \<Rightarrow> Serving | Overloaded \<Rightarrow> Gone | InLine \<Rightarrow> InQueue), gr_charged = 0,
    gr_open = (len < 0 \<and> 0 < gc_body cfg) \<rparr>])"
proof (cases answer)
  case Entered
  then have "fitsLocked cfg g len (0 \<le> len)" "g' = take_slot g len (0 \<le> len)" using e by (auto simp: enter_def split: if_splits)
  then show ?thesis
    using b Entered by (auto simp: gate_books_def take_slot_def line_append held_def is_running_def gr_known_def request_ok_def
        fitsLocked_def split: if_splits)
next
  case Overloaded
  then have "g' = g" using e by (auto simp: enter_def split: if_splits)
  then show ?thesis
    using b Overloaded by (auto simp: gate_books_def line_append held_def is_running_def gr_known_def request_ok_def)
next
  case InLine
  then have "gc_body cfg \<le> 0 \<or> len \<le> gc_body cfg" "0 < gc_queued cfg" "ig_queued g < gc_queued cfg"
    "g' = g\<lparr> ig_queued := ig_queued g + 1, ig_waiters := ig_waiters g @ [\<lparr> gw_id = length rs, gw_known = 0 \<le> len, gw_body = len \<rparr>] \<rparr>"
    using e by (auto simp: enter_def split: if_splits)
  then show ?thesis
    using b InLine by (auto simp: gate_books_def line_append held_def is_running_def gr_known_def request_ok_def)
qed

lemma head_arrive:
  assumes "head_waits cfg g" and "enter cfg g i len known = (g', answer)"
  shows "head_waits cfg g'"
  using assms
  by (auto simp: enter_def head_waits_def take_slot_def fitsLocked_def split: if_splits list.splits)

lemma head_charge: "head_waits cfg g \<Longrightarrow> chargeBody cfg g n = Some g' \<Longrightarrow> 0 < n \<Longrightarrow> head_waits cfg g'"
  by (auto simp: chargeBody_def head_waits_def fitsLocked_def split: if_splits list.splits)

lemma ingress_wf_step:
  assumes wf: "ingress_wf cfg s"
  shows "ingress_wf cfg (ingress_step cfg s a)"
proof (cases a)
  case (Arrive len)
  obtain g answer where e: "enter cfg (in_gate s) (length (in_requests s)) len (0 \<le> len) = (g, answer)"
    by (cases "enter cfg (in_gate s) (length (in_requests s)) len (0 \<le> len)")
  then show ?thesis
    using wf books_arrive[OF _ e] head_arrive[OF _ e] by (simp add: Arrive ingress_wf_def)
next
  case (Depart i)
  then show ?thesis
    using wf books_leave[of cfg "in_gate s" "in_requests s" i] books_release[of cfg "in_gate s" "in_requests s" i]
    by (auto simp: Let_def leave_queue_def release_slot_def ingress_wf_def[of cfg s] intro!: wf_settle split: gate_phase.split)
next
  case (ReadBody i n)
  show ?thesis
  proof (cases "chargeBody cfg (in_gate s) n")
    case None
    then show ?thesis using wf by (simp add: ReadBody Let_def)
  next
    case (Some g)
    then show ?thesis
      using wf books_charge[of cfg "in_gate s" "in_requests s" i n g] head_charge[of cfg "in_gate s" n g]
      by (auto simp: ReadBody Let_def ingress_wf_def)
  qed
next
  case (CloseBody i)
  then show ?thesis
    using wf books_uncharge[of cfg "in_gate s" "in_requests s" i]
    by (auto simp: Let_def unchargeBody_def ingress_wf_def[of cfg s] intro!: wf_settle)
qed

interpretation ig: transition_system "ingress_step cfg" "ingress_wf cfg" for cfg
  by unfold_locales (rule ingress_wf_step)

lemma ingress_run_wf: "0 < gc_inflight cfg \<Longrightarrow> ingress_wf cfg (ingress_run cfg ops)"
  unfolding ingress_run_def ig.run_def[symmetric]
  by (rule ig.run_inv) (auto simp: ingress_wf_def empty_ingress_def gate_books_def head_waits_def)

section \<open>Bounds and hand-over\<close>



lemma sum_list_zero:
  fixes f :: "'a \<Rightarrow> int"
  shows "\<forall>x \<in> set xs. f x = 0 \<Longrightarrow> sum_list (map f xs) = 0"
  by (induction xs) simp_all

text \<open>
  An idle gate is empty. When no request runs and every metered body was closed, no bytes are held and
  nobody waits.
\<close>

theorem idle_gate_is_empty:
  assumes "s = ingress_run (newInferenceGate cfg) ops"
    and "list_all (\<lambda>r. gr_phase r \<noteq> Serving \<and> \<not> gr_open r) (in_requests s)"
  shows "ig_inflight (in_gate s) = 0 \<and> ig_used (in_gate s) = 0 \<and> ig_waiters (in_gate s) = []"
proof -
  let ?cfg = "newInferenceGate cfg"
  have pos: "0 < gc_inflight ?cfg" by (simp add: newInferenceGate_def)
  have wf: "ingress_wf ?cfg s" unfolding assms by (rule ingress_run_wf[OF pos])
  have ok: "list_all (request_ok ?cfg) (in_requests s)" using wf by (simp add: ingress_wf_def gate_books_def)
  have "\<forall>r \<in> set (in_requests s). is_running r = 0" "\<forall>r \<in> set (in_requests s). held r = 0"
    using ok assms(2) by (auto simp: list_all_iff is_running_def held_def request_ok_def)
  then have "sum_list (map is_running (in_requests s)) = 0" "sum_list (map held (in_requests s)) = 0"
    by (auto intro!: sum_list_zero)
  then have zero: "ig_inflight (in_gate s) = 0" "ig_used (in_gate s) = 0"
    using wf by (simp_all add: ingress_wf_def gate_books_def)
  have "ig_waiters (in_gate s) = []"
  proof (cases "ig_waiters (in_gate s)")
    case (Cons w ws)
    have "ig_waiters (in_gate s) = line_from 0 (in_requests s)" using wf by (simp add: ingress_wf_def gate_books_def)
    then have "w \<in> set (line_from 0 (in_requests s))" using Cons by (metis list.set_intros(1))
    from line_ids[OF this] ok have "gc_body ?cfg \<le> 0 \<or> gw_body w \<le> gc_body ?cfg" by (auto simp: list_all_length request_ok_def)
    then have "fitsLocked ?cfg (in_gate s) (gw_body w) (gw_known w)" using zero pos by (auto simp: fitsLocked_def)
    then show ?thesis using wf Cons by (simp add: ingress_wf_def head_waits_def)
  qed
  with zero show ?thesis by simp
qed

theorem idle_gate_is_empty_witness:
  "ig_waiters (in_gate (ingress_run (newInferenceGate \<lparr> gc_inflight = 1, gc_queued = 1, gc_body = 10 \<rparr>)
     [Arrive (-1), ReadBody 0 4, Arrive 3, CloseBody 0, Depart 0, Depart 1])) = []"
proof -
  let ?cfg = "\<lparr> gc_inflight = 1, gc_queued = 1, gc_body = 10 \<rparr>"
  let ?ops = "[Arrive (-1), ReadBody 0 4, Arrive 3, CloseBody 0, Depart 0, Depart 1]"
  have "list_all (\<lambda>r. gr_phase r \<noteq> Serving \<and> \<not> gr_open r) (in_requests (ingress_run (newInferenceGate ?cfg) ?ops))"
    by code_simp
  from idle_gate_is_empty[OF refl this] show ?thesis by simp
qed

text \<open>
  Nothing in the middleware closes a metered body: the server closes the body it made itself, and \<open>readInferenceBody\<close>, by
  which the inference routes read theirs, only reads. What a request of unknown length has sent then stays charged after
  it is gone, and later requests wait for ever although nothing runs.
\<close>

lemma unclosed_body_blocks:
  "let s = ingress_run \<lparr> gc_inflight = 2, gc_queued = 5, gc_body = 10 \<rparr> [Arrive (-1), ReadBody 0 10, Depart 0, Arrive 1] in
     ig_inflight (in_gate s) = 0 \<and> length (ig_waiters (in_gate s)) = 1"
  by code_simp

end
