(* ===== verification/Spec2Isabelle.thy ===== *)
theory Spec2Isabelle
  imports JobsOutcomes JobsLifecycle BillingLife SourceSnap PolicyProps ExecutorProps ArtifactsAvail
    ConnectorsProps ConnectorsSys RagIngest IdentityGrants Ingress
begin

text \<open>
  A verification library for mini-enclava-go, a multi-tenant inference gateway: it authorizes a caller,
  prices and reserves each call in a budget ledger, admits it through bounded pools, sends it to an upstream
  model and settles what it cost; around this it runs a durable job queue, keeps artifacts and mirrored
  sources with their access control, and syncs documents from external services.

  \<^bold>\<open>How the code is modelled.\<close> A Go struct is a record, a set of string constants or an error sentinel a
  datatype, \<open>(T, error)\<close> a sum whose left side is the error, a nil pointer \<open>None\<close>. A PostgreSQL table is the list of its rows;
  an UPDATE with a WHERE clause is \<open>upd_rows\<close> with the number of rows it touches, a query for one row \<open>find_row\<close>, a
  unique or foreign key a check that makes the statement fail. A repository method, one transaction in the code, is
  one definition; a service method is the composition of these in the code's order. Where several goroutines or
  processes act, the component is a step function over a state and its operations, and a run is any list of
  operations, so a theorem about runs covers every interleaving, crash and lost reply. \<open>int64\<close> is a 64 bit word
  where the code's arithmetic can wrap (money, retry delays), \<open>int\<close> where only order matters; times are nanoseconds.

  \<^bold>\<open>The theories.\<close>
  \<^item> \<open>Prelude\<close> and \<open>Json\<close>: tables, results, ASCII text as the strings package treats it, the locale of transition
    systems, decoded JSON documents.
  \<^item> \<open>Principal\<close> (internal/auth/principal.go, keys.go): the principal, allowlists and stored grants, which
    fail closed and survive a round trip.
  \<^item> \<open>Fence\<close>: the contract of a store whose writers hold fencing tokens, a locale over transition systems; what
    a writer that lost its token can never do again is proved there once.
  \<^item> \<open>JobsRepo\<close>, \<open>Jobs\<close> (internal/jobs, store/postgres/jobs_repo.go): the two job tables, the statements, the
    service, the claim lifecycle and the worker loop. \<open>JobsInv\<close> has the table invariant, \<open>JobsSys\<close> what
    every call may do to a row, \<open>JobsProps\<close> the interpretation of the fencing contract and mutual
    exclusion, \<open>JobsOutcomes\<close> idempotent submission, the outcomes of a run and their finality, \<open>JobsLifecycle\<close> the
    refinement of an abstract lifecycle.
  \<^item> \<open>Money\<close>, \<open>BillingRepo\<close>, \<open>Billing\<close> (internal/billing, billing_repo.go): rates and charges with the code's 128 bit
    arithmetic, the ledger tables, admission against budgets, reservation, dispatch, settlement and release.
    \<open>BillingInv\<close>, \<open>BillingProps\<close> and \<open>BillingLife\<close> prove the ledger invariant, that no budget is overspent,
    that settlement happens once and that a dispatched hold is never given back.
  \<^item> \<open>Admission\<close> (internal/inference/admission.go): the gate's pools, queueing, cancellation and hand-over.
  \<^item> \<open>Source\<close>, \<open>SourceRepo\<close> (internal/source, source_repo.go): the access decision over an abstract
    repository, and the tables it reads. \<open>SourceProps\<close> and \<open>SourceSnap\<close> state what decides a read and what
    snapshots, deletions and tombstones can change about it.
  \<^item> \<open>Policy\<close> (internal/inference/policy.go): the analysis of a request payload, the restrictions its inputs bring and
    the choice of an endpoint; \<open>PolicyProps\<close>.
  \<^item> \<open>Usage\<close> (usage.go): the token counts of a response or stream. \<open>Secrets\<close> (auth/secret_refs.go): which credential
    may be read for which destination.
  \<^item> \<open>Executor\<close> (internal/inference/service.go): the phases of a call over the ledger, the gate, the policy and the
    transports, as steps of many interleaved calls. \<open>ExecutorInv\<close> states how each phase is backed by the ledger and
    the gate, \<open>ExecutorMoves\<close> and \<open>ExecutorSteps\<close> that each step keeps it, \<open>ExecutorProps\<close> what follows:
    every upstream write is authorized and has a dispatched hold of its own, permits come back, a call ends.
  \<^item> \<open>Artifacts\<close> (internal/artifacts, artifact_repo.go): leased writers, readers, deletions and
    reconciliations over the rows and a disk whose unsynced directory entries a power loss may take.
    \<open>ArtifactsInv\<close>, \<open>ArtifactsProps\<close>, \<open>ArtifactsAvail\<close>: what a read returns, and when committed bytes stay.
  \<^item> \<open>Connectors\<close> (internal/connectors, the connection rows of rag_repo.go and source_repo.go): sources, their
    checks, the job a sync is submitted as, the incremental sync and the scheduler; \<open>ConnectorsProps\<close>, and
    \<open>ConnectorsSys\<close> with the interleavings of the service's calls.
  \<^item> \<open>RagText\<close>, \<open>RagBlocks\<close>, \<open>RagChunks\<close>, \<open>RagEmbed\<close> (internal/rag/text.go, chunk.go, structured.go, embedding.go):
    code points and normalization, chunking of plain text, the blocks of Markdown and HTML with their byte
    ranges, chunks of blocks with heading paths and overlap, and the batches in which texts are embedded.
  \<^item> \<open>RagRepo\<close>, \<open>RagService\<close>, \<open>RagDocuments\<close>, \<open>RagSearch\<close>, \<open>RagIngest\<close> (rag_repo.go, internal/rag/service.go): the
    tables of collections, items, profiles, chunks and generations; collections, uploads, deletions and
    reprocessing; search; the embedding attempt. \<open>RagSearchProps\<close>, \<open>RagProps\<close> and \<open>RagIngest\<close> state what a search
    may show, who may change what, and what an attempt leaves behind.
  \<^item> \<open>Outcome\<close>: the composition of operations that leave a state behind with a value or an error.
  \<^item> \<open>IdentityRepo\<close> (identity_repo.go), \<open>Identity\<close> (internal/auth/service.go, keys.go, users.go, sessions.go), \<open>SignIn\<close>
    (oidc.go, linking.go, internal/httpx/sessionauth.go), \<open>IdentityAdmin\<close> (internal/httpx/identities.go, admin.go): the
    identity tables with their statements; authentication by API key, password, session and delegation; the OIDC
    flow, the linking of accounts and the browser's handlers; the administration of users, roles, service accounts
    and keys. \<open>IdentityProps\<close> states what a credential is worth, \<open>IdentitySys\<close> that every operation is a sequence of
    statements with known effects, \<open>IdentityInv\<close> the invariant of the tables, \<open>IdentityLife\<close> what holds along every
    run (logout, disabled users, single use of states, bound identities, proofs behind sessions), \<open>IdentityGrants\<close>
    that administration gives nothing beyond the caller and keeps an administrator.
  \<^item> \<open>Ingress\<close> (internal/httpx/middleware.go): the gate that bounds the running and waiting requests of the proxy's routes
    and the bytes of their bodies, as functions on its state; an invariant of every run gives its bounds.

  \<^bold>\<open>How the parts interact.\<close> The executor's state holds the billing ledger and the admission gate themselves, and its
  steps call \<open>Reserve\<close>, \<open>MarkDispatched\<close>, \<open>Settle\<close>, \<open>ReleaseUndispatched\<close>, \<open>Acquire\<close> and \<open>Release\<close> of those theories;
  its plan is made by \<open>Policy\<close>, its bill by \<open>Usage\<close>, its credential by \<open>Secrets\<close>. A connector sync is submitted through
  \<open>Jobs\<close> and reads and writes the rows of \<open>SourceRepo\<close>. A retrieval world holds the source tables, the job tables and the
  points of the index; uploads enqueue in \<open>Jobs\<close>, reads ask \<open>CanRead\<close> and \<open>CanReadVersion\<close> of \<open>Source\<close>. The invariants of the ledger and the gate are used in the
  executor's through their interpretations of \<open>transition_system\<close>.

  \<^bold>\<open>Parameters.\<close> What the repository does not contain is an argument: digests (\<open>dig\<close>, \<open>hash\<close>), the UUID syntax of
  PostgreSQL, URL parsing and name resolution, environment variables, \<open>strconv\<close> and \<open>time\<close> parsers, the answer of an
  upstream, whether a statement, a commit or a file operation succeeds. Theorems hold for every value of
  these, or name what they need of them.

  \<^bold>\<open>Bounds.\<close> Recursion is structural or has a measure; there is no fuel. Text is bytes; \<open>strings.TrimSpace\<close> and
  \<open>ToLower\<close> are modelled on ASCII, in the retrieval theories on all of Unicode's white space.

  \<^bold>\<open>Not modelled.\<close> Network clients and the attestation SDKs (internal/llm); HTTP decoding, routing, rate limits and rendering
  (internal/httpx) but for the identity handlers and the inference gate; the text extraction of internal/rag from CSV, JSON, DOCX, PDF and HTML
  with its tokenizer, its sparse vectors and Qdrant requests; extraction templates, chatbots and prompts;
  configuration and start-up; the read-only listings of the dashboards and the audit log of key changes. The definitions
  beside the models carry notes on smaller omissions.
\<close>

end
